(* ===== verification/Xen_Prelude.thy ===== *)
theory Xen_Prelude
  imports Main "HOL-Library.Word" "HOL-Library.Monad_Syntax" "HOL-Library.Sublist"
begin

unbundle bit_operations_syntax

text \<open>
  What every component of the library shares: the machine types of the C code, the errno
  values it returns, C strings and the decimal conversions of the C library, and the
  environment through which the code reaches everything that is not in the repository.

  Two conventions are used throughout.  A result of type \<open>'a option\<close> whose \<open>None\<close> is
  described as undefined behaviour is \<open>None\<close> exactly where the C code would dereference a
  null pointer, read outside a buffer or free an object that is not on the heap.  The
  environment record \<open>env\<close> carries the outcomes of the calls to the Zephyr kernel and to
  the hypervisor: \<open>mallocs\<close> says whether each coming allocation succeeds, \<open>locks\<close> what
  each coming timed mutex acquisition returns, \<open>hcalls\<close> what each coming hypercall or
  driver call returns, and \<open>trace\<close> records those calls with their arguments.  A theorem
  quantified over the environment therefore holds for every behaviour of that code.
\<close>

section \<open>Collections of facts\<close>

named_theorems err_simps
named_theorems env_simps

section \<open>Machine types and errno values\<close>

type_synonym u8 = "8 word"
type_synonym u16 = "16 word"
type_synonym u32 = "32 word"
type_synonym u64 = "64 word"
type_synonym domid_t = "16 word"

abbreviation (input) EPERM :: int where "EPERM \<equiv> 1"
abbreviation (input) ENOENT :: int where "ENOENT \<equiv> 2"
abbreviation (input) ESRCH :: int where "ESRCH \<equiv> 3"
abbreviation (input) EIO :: int where "EIO \<equiv> 5"
abbreviation (input) E2BIG :: int where "E2BIG \<equiv> 7"
abbreviation (input) EAGAIN :: int where "EAGAIN \<equiv> 11"
abbreviation (input) ENOMEM :: int where "ENOMEM \<equiv> 12"
abbreviation (input) EACCES :: int where "EACCES \<equiv> 13"
abbreviation (input) EFAULT :: int where "EFAULT \<equiv> 14"
abbreviation (input) EBUSY :: int where "EBUSY \<equiv> 16"
abbreviation (input) EEXIST :: int where "EEXIST \<equiv> 17"
abbreviation (input) ENODEV :: int where "ENODEV \<equiv> 19"
abbreviation (input) EISDIR :: int where "EISDIR \<equiv> 21"
abbreviation (input) EINVAL :: int where "EINVAL \<equiv> 22"
abbreviation (input) ENOSPC :: int where "ENOSPC \<equiv> 28"
abbreviation (input) EROFS :: int where "EROFS \<equiv> 30"
abbreviation (input) EPROTO :: int where "EPROTO \<equiv> 71"
abbreviation (input) ENOSYS :: int where "ENOSYS \<equiv> 88"
abbreviation (input) ENOTEMPTY :: int where "ENOTEMPTY \<equiv> 90"
abbreviation (input) ENAMETOOLONG :: int where "ENAMETOOLONG \<equiv> 91"
abbreviation (input) ENOBUFS :: int where "ENOBUFS \<equiv> 105"
abbreviation (input) ETIMEDOUT :: int where "ETIMEDOUT \<equiv> 116"
abbreviation (input) EISCONN :: int where "EISCONN \<equiv> 127"
abbreviation (input) ENOTCONN :: int where "ENOTCONN \<equiv> 128"
abbreviation (input) ENOTSUP :: int where "ENOTSUP \<equiv> 134"

section \<open>The environment\<close>

datatype k_timeout = K_FOREVER | K_TIMED

record env =
  mallocs :: "bool list"
  locks :: "(int \<times> bool) list"
  hcalls :: "int list"
  trace :: "(string \<times> int list) list"

text \<open>One call of \<open>k_malloc\<close>: the next announced outcome, success when none is announced.\<close>

definition k_malloc :: "'a env_scheme \<Rightarrow> bool \<times> 'a env_scheme" where
  "k_malloc e = (case mallocs e of [] \<Rightarrow> (True, e) | b # bs \<Rightarrow> (b, e\<lparr>mallocs := bs\<rparr>))"

text \<open>\<open>n\<close> allocations in a row that stop at the first failure.\<close>

fun k_mallocs :: "nat \<Rightarrow> 'a env_scheme \<Rightarrow> bool \<times> 'a env_scheme" where
  "k_mallocs 0 e = (True, e)"
| "k_mallocs (Suc n) e =
     (let (ok, e') = k_malloc e in if ok then k_mallocs n e' else (False, e'))"

text \<open>A call of code outside the repository: its result is announced by \<open>hcalls\<close> (0 when
  none is), and the call is recorded.\<close>

definition ext_call :: "string \<Rightarrow> int list \<Rightarrow> 'a env_scheme \<Rightarrow> int \<times> 'a env_scheme" where
  "ext_call name args e =
     (case hcalls e of [] \<Rightarrow> 0 | r # _ \<Rightarrow> r,
      e\<lparr>hcalls := tl (hcalls e), trace := trace e @ [(name, args)]\<rparr>)"

lemma k_malloc_nil [simp]: "mallocs e = [] \<Longrightarrow> k_malloc e = (True, e)"
  by (simp add: k_malloc_def)

lemma k_mallocs_nil [simp]: "mallocs e = [] \<Longrightarrow> k_mallocs n e = (True, e)"
  by (induction n) auto

text \<open>Allocation changes the announced outcomes and nothing else.\<close>

lemma k_malloc_frame: "k_malloc e = (ok, e') \<Longrightarrow> \<exists>bs. e' = e\<lparr>mallocs := bs\<rparr>"
proof -
  assume "k_malloc e = (ok, e')"
  then have "e' = e\<lparr>mallocs := mallocs e'\<rparr>"
    by (auto simp: k_malloc_def split: list.splits)
  then show ?thesis by blast
qed

lemma k_mallocs_frame: "k_mallocs n e = (ok, e') \<Longrightarrow> \<exists>bs. e' = e\<lparr>mallocs := bs\<rparr>"
proof (induction n arbitrary: e)
  case 0
  then have "e' = e\<lparr>mallocs := mallocs e\<rparr>" by simp
  then show ?case by blast
next
  case (Suc n)
  obtain ok1 e1 where m: "k_malloc e = (ok1, e1)" by fastforce
  with k_malloc_frame obtain bs where e1: "e1 = e\<lparr>mallocs := bs\<rparr>" by blast
  show ?case
  proof (cases ok1)
    case True
    with m Suc.prems have "k_mallocs n e1 = (ok, e')" by simp
    with Suc.IH obtain bs' where "e' = e1\<lparr>mallocs := bs'\<rparr>" by blast
    with e1 have "e' = e\<lparr>mallocs := bs'\<rparr>" by simp
    then show ?thesis by blast
  next
    case False
    with m Suc.prems e1 show ?thesis by auto
  qed
qed

section \<open>C strings\<close>

text \<open>A C string is the list of its characters without the terminator.  A buffer is the list
  of its bytes; \<open>cstr\<close> is the string that starts a buffer, and \<open>None\<close> when reading it
  would run past the end of the buffer.\<close>

abbreviation NUL :: char where "NUL \<equiv> CHR 0x00"
abbreviation slash :: char where "slash \<equiv> CHR ''/''"

definition cstr :: "char list \<Rightarrow> string option" where
  "cstr buf = (if NUL \<in> set buf then Some (takeWhile (\<lambda>c. c \<noteq> NUL) buf) else None)"

definition strnlen :: "char list \<Rightarrow> nat" where
  "strnlen buf = length (takeWhile (\<lambda>c. c \<noteq> NUL) buf)"

text \<open>\<open>snprintf\<close> into a buffer of \<open>n\<close> bytes: the length of the whole output and what the
  buffer holds afterwards.\<close>

definition snprintf :: "nat \<Rightarrow> string \<Rightarrow> nat \<times> string" where
  "snprintf n s = (length s, take (n - 1) s)"

lemma cstr_terminated: "NUL \<notin> set s \<Longrightarrow> cstr (s @ NUL # rest) = Some s"
  by (auto simp: cstr_def takeWhile_append)

lemma takeWhile_until:
  "d \<notin> set t \<Longrightarrow> s = [] \<or> hd s = d \<Longrightarrow> takeWhile (\<lambda>c. c \<noteq> d) (t @ s) = t"
  by (induction t) (cases s; auto)+

lemma cstr_SomeD: "cstr buf = Some s \<Longrightarrow> NUL \<notin> set s"
  by (auto simp: cstr_def split: if_splits dest: set_takeWhileD)

lemma cstr_Some_append: "cstr buf = Some s \<Longrightarrow> \<exists>rest. buf = s @ NUL # rest"
  by (induction buf arbitrary: s) (auto simp: cstr_def split: if_splits)

lemma snprintf_fits: "length s < n \<Longrightarrow> snprintf n s = (length s, s)"
  by (simp add: snprintf_def)

section \<open>Tokens\<close>

text \<open>The tokens a full \<open>strtok_r\<close> loop yields for one delimiter: the maximal non-empty
  pieces, in order.\<close>

fun strtok_acc :: "char \<Rightarrow> string \<Rightarrow> string \<Rightarrow> string list" where
  "strtok_acc d cur [] = (if cur = [] then [] else [cur])"
| "strtok_acc d cur (c # cs) =
     (if c = d then (if cur = [] then strtok_acc d [] cs else cur # strtok_acc d [] cs)
      else strtok_acc d (cur @ [c]) cs)"

definition strtok_all :: "char \<Rightarrow> string \<Rightarrow> string list" where
  "strtok_all d s = strtok_acc d [] s"

lemma strtok_acc_token: "d \<notin> set t \<Longrightarrow> strtok_acc d cur (t @ s) = strtok_acc d (cur @ t) s"
  by (induction t arbitrary: cur) auto

lemma strtok_acc_nonempty:
  "t \<in> set (strtok_acc d cur s) \<Longrightarrow> d \<notin> set cur \<Longrightarrow> t \<noteq> [] \<and> d \<notin> set t"
  by (induction d cur s rule: strtok_acc.induct) (auto split: if_splits)

lemma strtok_all_nonempty: "t \<in> set (strtok_all d s) \<Longrightarrow> t \<noteq> [] \<and> d \<notin> set t"
  unfolding strtok_all_def by (erule strtok_acc_nonempty) simp

text \<open>The absolute path with given components, and the tokens of it.\<close>

definition path_of :: "string list \<Rightarrow> string" where
  "path_of ts = concat (map (\<lambda>t. slash # t) ts)"

definition token_ok :: "string \<Rightarrow> bool" where
  "token_ok t \<longleftrightarrow> t \<noteq> [] \<and> slash \<notin> set t"

lemma path_of_simps [simp]:
  "path_of [] = []" "path_of (t # ts) = slash # t @ path_of ts"
  by (simp_all add: path_of_def)

lemma path_of_append [simp]: "path_of (ts @ us) = path_of ts @ path_of us"
  by (simp add: path_of_def)

lemma strtok_acc_path_of:
  assumes "list_all token_ok ts" "slash \<notin> set cur"
  shows "strtok_acc slash cur (path_of ts) = (if cur = [] then ts else cur # ts)"
  using assms
proof (induction ts arbitrary: cur)
  case Nil
  then show ?case by simp
next
  case (Cons t ts)
  then have ok: "token_ok t" "list_all token_ok ts" by auto
  then have t: "t \<noteq> []" "slash \<notin> set t" by (auto simp: token_ok_def)
  have "strtok_acc slash [] (t @ path_of ts) = t # ts"
    using t Cons.IH [OF ok(2) t(2)] by (simp add: strtok_acc_token)
  then show ?case by simp
qed

lemma strtok_all_path_of: "list_all token_ok ts \<Longrightarrow> strtok_all slash (path_of ts) = ts"
  by (simp add: strtok_all_def strtok_acc_path_of)

lemma strtok_all_tokens: "list_all token_ok (strtok_all slash s)"
  by (auto simp: list_all_iff token_ok_def dest: strtok_all_nonempty)

section \<open>Decimal conversions\<close>

definition digit_char :: "nat \<Rightarrow> char" where
  "digit_char n = char_of (48 + n)"

fun dec :: "nat \<Rightarrow> string" where
  "dec n = (if n < 10 then [digit_char n] else dec (n div 10) @ [digit_char (n mod 10)])"

declare dec.simps [simp del]

definition fmt_d :: "int \<Rightarrow> string" where
  "fmt_d i = (if i < 0 then CHR ''-'' # dec (nat (- i)) else dec (nat i))"

definition isdigit :: "char \<Rightarrow> bool" where
  "isdigit c \<longleftrightarrow> 48 \<le> (of_char c :: nat) \<and> (of_char c :: nat) \<le> 57"

definition isspace :: "char \<Rightarrow> bool" where
  "isspace c \<longleftrightarrow> (of_char c :: nat) = 32 \<or> 9 \<le> (of_char c :: nat) \<and> (of_char c :: nat) \<le> 13"

definition digit_val :: "char \<Rightarrow> nat" where
  "digit_val c = of_char c - 48"

definition digits_val :: "string \<Rightarrow> nat" where
  "digits_val ds = foldl (\<lambda>n c. 10 * n + digit_val c) 0 ds"

text \<open>\<open>strtoul(s, &end, 10)\<close> on a 64-bit target: the value, the number of characters consumed
  (0 when there is no number) and whether \<open>errno\<close> becomes \<open>ERANGE\<close>.\<close>

definition strtoul10 :: "string \<Rightarrow> nat \<times> nat \<times> bool" where
  "strtoul10 s =
     (let ws = takeWhile isspace s;
          r = drop (length ws) s;
          signed = (r \<noteq> [] \<and> (hd r = CHR ''-'' \<or> hd r = CHR ''+''));
          neg = (r \<noteq> [] \<and> hd r = CHR ''-'');
          ds = takeWhile isdigit (if signed then tl r else r);
          used = length ws + (if signed then 1 else 0) + length ds;
          v = digits_val ds
      in if ds = [] then (0, 0, False)
         else if v \<ge> 2 ^ 64 then (2 ^ 64 - 1, used, True)
         else (if neg then (2 ^ 64 - v) mod 2 ^ 64 else v, used, False))"

lemma of_char_digit_char: "n < 10 \<Longrightarrow> (of_char (digit_char n) :: nat) = 48 + n"
  by (simp add: digit_char_def)

lemma isdigit_digit_char [simp]: "n < 10 \<Longrightarrow> isdigit (digit_char n)"
  by (simp add: isdigit_def of_char_digit_char)

lemma digit_val_digit_char [simp]: "n < 10 \<Longrightarrow> digit_val (digit_char n) = n"
  by (simp add: digit_val_def of_char_digit_char)

lemma dec_digits: "list_all isdigit (dec n)"
proof (induction n rule: dec.induct)
  case (1 n)
  then show ?case by (simp add: dec.simps [of n])
qed

lemma dec_nonempty [simp]: "dec n \<noteq> []"
  by (simp add: dec.simps [of n])

lemma digits_val_snoc: "digits_val (ds @ [c]) = 10 * digits_val ds + digit_val c"
  by (simp add: digits_val_def)

lemma digits_val_dec: "digits_val (dec n) = n"
proof (induction n rule: dec.induct)
  case (1 n)
  show ?case
  proof (cases "n < 10")
    case True
    then show ?thesis by (simp add: dec.simps [of n] digits_val_def)
  next
    case False
    with 1 show ?thesis by (simp add: dec.simps [of n] digits_val_snoc)
  qed
qed

lemma dec_inject: "dec m = dec n \<longleftrightarrow> m = n"
  by (metis digits_val_dec)

lemma length_dec_le: "0 < k \<Longrightarrow> n < 10 ^ k \<Longrightarrow> length (dec n) \<le> k"
proof (induction k arbitrary: n)
  case 0
  then show ?case by simp
next
  case (Suc k)
  show ?case
  proof (cases "n < 10")
    case True
    then show ?thesis by (simp add: dec.simps [of n])
  next
    case False
    with Suc.prems have "n div 10 < 10 ^ k" and "0 < k"
      by (auto simp: less_mult_imp_div_less mult.commute intro: gr0I)
    with Suc.IH have "length (dec (n div 10)) \<le> k" by blast
    with False show ?thesis by (simp add: dec.simps [of n])
  qed
qed

lemma isdigit_neq: "isdigit c \<Longrightarrow> c \<noteq> NUL \<and> c \<noteq> slash \<and> c \<noteq> CHR ''-'' \<and> c \<noteq> CHR ''+'' \<and> \<not> isspace c"
  by (auto simp: isdigit_def isspace_def)

lemma dec_chars: "c \<in> set (dec n) \<Longrightarrow> isdigit c"
  using dec_digits [of n] by (simp add: list_all_iff)

lemma dec_no_slash [simp]: "slash \<notin> set (dec n)" and dec_no_NUL [simp]: "NUL \<notin> set (dec n)"
  using dec_chars isdigit_neq by blast+

lemma strtoul10_dec:
  assumes "n < 2 ^ 64"
  shows "strtoul10 (dec n) = (n, length (dec n), False)"
proof -
  obtain c cs where d: "dec n = c # cs" by (cases "dec n") auto
  have c: "isdigit c" using d dec_chars [of c n] by simp
  have "takeWhile isspace (dec n) = []" using d isdigit_neq [OF c] by simp
  moreover have "takeWhile isdigit (dec n) = dec n"
    using dec_chars by (simp add: takeWhile_eq_all_conv)
  ultimately show ?thesis
    using d isdigit_neq [OF c] assms digits_val_dec [of n] by (simp add: strtoul10_def Let_def)
qed

end
