(* ===== verification/Byte_Ring.thy ===== *)
theory Byte_Ring
  imports Xen_Prelude
begin

text \<open>
  Shared-memory byte rings.  The XenStore rings, the vchan rings and the console rings of
  the repository all use free-running 32-bit indices into a power-of-two buffer.  This
  theory has the arithmetic they share (\<open>ring_slice\<close>, the bytes between two indices, and
  \<open>blit\<close>, a \<open>memcpy\<close> into the buffer) and the contract a ring gives its users: the
  locale \<open>byte_queue\<close>, in which first-in-first-out delivery over any interleaving of
  writes and reads is proved once.
\<close>

section \<open>Copying into and out of a circular buffer\<close>

definition blit :: "'a list \<Rightarrow> nat \<Rightarrow> 'a list \<Rightarrow> 'a list" where
  "blit buf off d = take off buf @ d @ drop (off + length d) buf"

definition ring_slice :: "'a list \<Rightarrow> nat \<Rightarrow> nat \<Rightarrow> 'a list" where
  "ring_slice buf start n = map (\<lambda>i. buf ! ((start + i) mod length buf)) [0..<n]"

lemma length_blit [simp]: "off + length d \<le> length buf \<Longrightarrow> length (blit buf off d) = length buf"
  by (simp add: blit_def)

lemma nth_blit:
  "off + length d \<le> length buf \<Longrightarrow> i < length buf \<Longrightarrow>
   blit buf off d ! i = (if off \<le> i \<and> i < off + length d then d ! (i - off) else buf ! i)"
  by (auto simp: blit_def nth_append min_def)

lemma length_ring_slice [simp]: "length (ring_slice buf start n) = n"
  by (simp add: ring_slice_def)

lemma nth_ring_slice [simp]:
  "i < n \<Longrightarrow> ring_slice buf start n ! i = buf ! ((start + i) mod length buf)"
  by (simp add: ring_slice_def)

lemma ring_slice_0 [simp]: "ring_slice buf start 0 = []"
  by (simp add: ring_slice_def)

lemma ring_slice_append:
  "ring_slice buf start (m + n) = ring_slice buf start m @ ring_slice buf (start + m) n"
  by (rule nth_equalityI) (auto simp: nth_append ac_simps)

lemma ring_slice_start_mod:
  "a mod length buf = b mod length buf \<Longrightarrow> ring_slice buf a n = ring_slice buf b n"
  unfolding ring_slice_def by (rule map_cong [OF refl]) (metis mod_add_left_eq)

text \<open>A chunk that does not cross the end of the buffer is one contiguous copy.\<close>

lemma ring_slice_contiguous:
  assumes "start mod length buf + n \<le> length buf"
  shows "ring_slice buf start n = take n (drop (start mod length buf) buf)"
proof (rule nth_equalityI)
  show "length (ring_slice buf start n) = length (take n (drop (start mod length buf) buf))"
    using assms by simp
next
  fix i
  assume "i < length (ring_slice buf start n)"
  then have i: "i < n" by simp
  with assms have "(start + i) mod length buf = start mod length buf + i"
    by (metis add_less_cancel_left mod_add_left_eq mod_less order_less_le_trans)
  with i assms show "ring_slice buf start n ! i = take n (drop (start mod length buf) buf) ! i"
    by simp
qed

text \<open>Two offsets less than a buffer length apart never share a slot.\<close>

lemma ring_slot_distinct:
  assumes "i < j" "j < i + L"
  shows "(start + i) mod L \<noteq> (start + j) mod (L :: nat)"
proof
  assume "(start + i) mod L = (start + j) mod L"
  then have "L dvd (start + j) - (start + i)"
    using assms by (metis add_le_cancel_left less_imp_le mod_eq_dvd_iff_nat)
  then have "L dvd j - i" by simp
  with assms show False by (auto dest: dvd_imp_le)
qed

text \<open>Writing a chunk behind the bytes already queued appends it to them.\<close>

lemma ring_slice_blit:
  assumes off: "off = (start + n) mod length buf"
    and fits: "off + length d \<le> length buf"
    and space: "n + length d \<le> length buf"
  shows "ring_slice (blit buf off d) start (n + length d) = ring_slice buf start n @ d"
proof (rule nth_equalityI)
  show "length (ring_slice (blit buf off d) start (n + length d)) =
      length (ring_slice buf start n @ d)"
    by simp
next
  fix i
  assume "i < length (ring_slice (blit buf off d) start (n + length d))"
  then have i: "i < n + length d" by simp
  let ?L = "length buf"
  have L: "?L > 0" using i space by auto
  have slot: "(start + i) mod ?L < ?L" using L by simp
  show "ring_slice (blit buf off d) start (n + length d) ! i = (ring_slice buf start n @ d) ! i"
  proof (cases "i < n")
    case True
    have "\<not> (off \<le> (start + i) mod ?L \<and> (start + i) mod ?L < off + length d)"
    proof
      assume a: "off \<le> (start + i) mod ?L \<and> (start + i) mod ?L < off + length d"
      define j where "j = (start + i) mod ?L - off"
      have j: "j < length d" "(start + i) mod ?L = off + j" using a by (auto simp: j_def)
      have "(start + (n + j)) mod ?L = (off + j) mod ?L"
        by (simp add: off mod_add_left_eq add.assoc [symmetric])
      also have "\<dots> = off + j" using j slot by simp
      finally have "(start + i) mod ?L = (start + (n + j)) mod ?L" using j by simp
      moreover have "i < n + j" "n + j < i + ?L" using True j space by auto
      ultimately show False using ring_slot_distinct by blast
    qed
    with True i fits slot show ?thesis by (auto simp: nth_blit nth_append)
  next
    case False
    define j where "j = i - n"
    have j: "j < length d" "i = n + j" using False i by (auto simp: j_def)
    have "(start + i) mod ?L = (off + j) mod ?L"
      by (simp add: off j mod_add_left_eq add.assoc [symmetric])
    then have "(start + i) mod ?L = off + j" using j fits by simp
    with j i fits slot show ?thesis by (auto simp: nth_blit nth_append)
  qed
qed

section \<open>Free-running 32-bit indices\<close>

text \<open>Adding to an index, then reducing it modulo a power-of-two ring size below the index
  width, is reduction of the mathematical sum: the wrap-around at \<open>2 ^ 32\<close> is invisible.\<close>

lemma unat_add_mod_pow2:
  fixes x y :: u32
  assumes "k \<le> 32"
  shows "unat (x + y) mod 2 ^ k = (unat x + unat y) mod 2 ^ k"
proof -
  have "(2::nat) ^ k dvd 2 ^ 32" using assms by (rule le_imp_power_dvd)
  then show ?thesis by (simp add: unat_word_ariths mod_mod_cancel)
qed

lemma unat_of_nat_small: "n < 2 ^ 32 \<Longrightarrow> unat (of_nat n :: u32) = n"
  by (simp add: unat_of_nat take_bit_eq_mod)

text \<open>The number of queued bytes is \<open>prod - cons\<close> whatever wrapped.\<close>

lemma used_after_put:
  fixes cons prod :: u32
  assumes "unat (prod - cons) + n < 2 ^ 32"
  shows "unat (prod + of_nat n - cons) = unat (prod - cons) + n"
proof -
  have n: "unat (of_nat n :: u32) = n" using assms by (intro unat_of_nat_small) simp
  have eq: "prod + of_nat n - cons = (prod - cons) + of_nat n" by simp
  have "unat ((prod - cons) + of_nat n) = (unat (prod - cons) + n) mod 2 ^ 32"
    by (simp only: unat_word_ariths n) simp
  then show ?thesis using assms by (simp only: eq) simp
qed

lemma used_after_get:
  fixes cons prod :: u32
  assumes "n \<le> unat (prod - cons)"
  shows "unat (prod - (cons + of_nat n)) = unat (prod - cons) - n"
proof -
  have "unat (prod - cons) < 2 ^ 32" by (rule order_less_le_trans [OF unsigned_less]) simp
  with assms have n: "unat (of_nat n :: u32) = n" by (intro unat_of_nat_small) simp
  have eq: "prod - (cons + of_nat n) = (prod - cons) - of_nat n" by simp
  have "unat ((prod - cons) - of_nat n) = unat (prod - cons) - n"
    using assms n by (subst unat_sub) (auto simp: word_le_nat_alt)
  then show ?thesis by (simp only: eq)
qed

lemma prod_index_mod:
  fixes cons prod :: u32
  assumes "k \<le> 32"
  shows "unat prod mod 2 ^ k = (unat cons + unat (prod - cons)) mod 2 ^ k"
  using unat_add_mod_pow2 [OF assms, of cons "prod - cons"] by simp

section \<open>The contract of a byte queue\<close>

datatype chan_op = Put "char list" | Get nat

locale byte_queue =
  fixes valid :: "'q \<Rightarrow> bool"
    and contents :: "'q \<Rightarrow> char list"
    and capacity :: nat
    and put :: "char list \<Rightarrow> 'q \<Rightarrow> nat \<times> 'q"
    and get :: "nat \<Rightarrow> 'q \<Rightarrow> char list \<times> 'q"
  assumes put_valid: "valid q \<Longrightarrow> put d q = (n, q') \<Longrightarrow> valid q'"
    and put_contents: "valid q \<Longrightarrow> put d q = (n, q') \<Longrightarrow> contents q' = contents q @ take n d"
    and put_le: "valid q \<Longrightarrow> put d q = (n, q') \<Longrightarrow> n \<le> length d"
    and put_progress: "valid q \<Longrightarrow> put d q = (n, q') \<Longrightarrow> d \<noteq> [] \<Longrightarrow>
          length (contents q) < capacity \<Longrightarrow> 0 < n"
    and get_valid: "valid q \<Longrightarrow> get n q = (d, q') \<Longrightarrow> valid q'"
    and get_contents: "valid q \<Longrightarrow> get n q = (d, q') \<Longrightarrow> contents q = d @ contents q'"
    and get_le: "valid q \<Longrightarrow> get n q = (d, q') \<Longrightarrow> length d \<le> n"
    and get_progress: "valid q \<Longrightarrow> get n q = (d, q') \<Longrightarrow> contents q \<noteq> [] \<Longrightarrow> 0 < n \<Longrightarrow> d \<noteq> []"
    and bounded: "valid q \<Longrightarrow> length (contents q) \<le> capacity"
begin

text \<open>Any interleaving of writes and reads: the bytes accepted by the writes, the bytes
  returned by the reads and the queue at the end.\<close>

fun run :: "chan_op list \<Rightarrow> 'q \<Rightarrow> char list \<times> char list \<times> 'q" where
  "run [] q = ([], [], q)"
| "run (Put d # ops) q =
     (let (n, q1) = put d q; (a, r, q2) = run ops q1 in (take n d @ a, r, q2))"
| "run (Get n # ops) q =
     (let (d, q1) = get n q; (a, r, q2) = run ops q1 in (a, d @ r, q2))"

lemma run_valid: "valid q \<Longrightarrow> run ops q = (a, r, q') \<Longrightarrow> valid q'"
proof (induction ops q arbitrary: a r q' rule: run.induct)
  case (2 d ops q)
  obtain n q1 where p: "put d q = (n, q1)" by fastforce
  obtain a1 r1 q2 where r: "run ops q1 = (a1, r1, q2)" by (metis prod_cases3)
  from p r "2.prems"(2) have "q2 = q'" by auto
  then show ?case using "2.IH" [OF p [symmetric] _ put_valid [OF "2.prems"(1) p] r] by simp
next
  case (3 n ops q)
  obtain d q1 where p: "get n q = (d, q1)" by fastforce
  obtain a1 r1 q2 where r: "run ops q1 = (a1, r1, q2)" by (metis prod_cases3)
  from p r "3.prems"(2) have "q2 = q'" by auto
  then show ?case using "3.IH" [OF p [symmetric] _ get_valid [OF "3.prems"(1) p] r] by simp
qed simp

text \<open>First in, first out: nothing is lost, duplicated or reordered.\<close>

lemma run_fifo: "valid q \<Longrightarrow> run ops q = (a, r, q') \<Longrightarrow> contents q @ a = r @ contents q'"
proof (induction ops q arbitrary: a r q' rule: run.induct)
  case (1 q)
  then show ?case by simp
next
  case (2 d ops q)
  obtain n q1 where p: "put d q = (n, q1)" by fastforce
  obtain a1 r1 q2 where r: "run ops q1 = (a1, r1, q2)" by (metis prod_cases3)
  have v: "valid q1" using put_valid [OF "2.prems"(1) p] .
  have "contents q1 @ a1 = r1 @ contents q2" using "2.IH" [OF p [symmetric] _ v r] by simp
  with p r "2.prems"(2) put_contents [OF "2.prems"(1) p] show ?case by auto
next
  case (3 n ops q)
  obtain d q1 where p: "get n q = (d, q1)" by fastforce
  obtain a1 r1 q2 where r: "run ops q1 = (a1, r1, q2)" by (metis prod_cases3)
  have v: "valid q1" using get_valid [OF "3.prems"(1) p] .
  have "contents q1 @ a1 = r1 @ contents q2" using "3.IH" [OF p [symmetric] _ v r] by simp
  with p r "3.prems"(2) get_contents [OF "3.prems"(1) p] show ?case by auto
qed

text \<open>What single operations leave alone an interleaving of them leaves alone.\<close>

lemma run_keeps:
  assumes "\<And>d q n q'. valid q \<Longrightarrow> put d q = (n, q') \<Longrightarrow> f q' = f q"
    and "\<And>n q d q'. valid q \<Longrightarrow> get n q = (d, q') \<Longrightarrow> f q' = f q"
  shows "valid q \<Longrightarrow> run ops q = (a, r, q') \<Longrightarrow> f q' = f q"
proof (induction ops q arbitrary: a r q' rule: run.induct)
  case (2 d ops q)
  obtain n q1 where p: "put d q = (n, q1)" by fastforce
  obtain a1 r1 q2 where r: "run ops q1 = (a1, r1, q2)" by (metis prod_cases3)
  from p r "2.prems"(2) have "q2 = q'" by auto
  then show ?case using "2.IH" [OF p [symmetric] _ put_valid [OF "2.prems"(1) p] r] assms(1) [OF "2.prems"(1) p] by simp
next
  case (3 n ops q)
  obtain d q1 where p: "get n q = (d, q1)" by fastforce
  obtain a1 r1 q2 where r: "run ops q1 = (a1, r1, q2)" by (metis prod_cases3)
  from p r "3.prems"(2) have "q2 = q'" by auto
  then show ?case using "3.IH" [OF p [symmetric] _ get_valid [OF "3.prems"(1) p] r] assms(2) [OF "3.prems"(1) p] by simp
qed simp

text \<open>Reads alone empty the queue: as many reads as there are bytes suffice, however short
  each of them falls.\<close>

lemma drain:
  "valid q \<Longrightarrow> 0 < n \<Longrightarrow> length (contents q) \<le> k \<Longrightarrow>
   \<exists>q'. run (replicate k (Get n)) q = ([], contents q, q') \<and> contents q' = []"
proof (induction k arbitrary: q)
  case 0
  then show ?case by simp
next
  case (Suc k)
  obtain d q1 where p: "get n q = (d, q1)" by fastforce
  have v: "valid q1" using get_valid [OF Suc.prems(1) p] .
  have c: "contents q = d @ contents q1" using get_contents [OF Suc.prems(1) p] .
  have "length (contents q1) \<le> k"
    using c Suc.prems(3) get_progress [OF Suc.prems(1) p _ Suc.prems(2)]
    by (cases "contents q = []"; cases d) auto
  with Suc.IH [OF v Suc.prems(2)] obtain q' where
    "run (replicate k (Get n)) q1 = ([], contents q1, q')" "contents q' = []" by blast
  with p c show ?case by simp
qed

end

end
