(* ===== verification/Xs_Wire.thy ===== *)
theory Xs_Wire
  imports Byte_Ring
begin

text \<open>
  The XenStore wire format, from \<open>xenstore-common/\<close> and \<open>include/xen/public/io/xs_wire.h\<close>:
  permission entries and their text form, the error names, the message header, and the two
  rings of the shared page.  \<open>perm_roundtrip\<close> and \<open>header_roundtrip\<close> show that encoding
  and decoding agree; the interpretations \<open>req_ring\<close> and \<open>rsp_ring\<close> show that each ring
  is a \<open>byte_queue\<close> between its writer and its reader.
\<close>

section \<open>Constants\<close>

abbreviation (input) XENSTORE_RING_SIZE :: nat where "XENSTORE_RING_SIZE \<equiv> 1024"
abbreviation (input) XENSTORE_PAYLOAD_MAX :: nat where "XENSTORE_PAYLOAD_MAX \<equiv> 4096"
abbreviation (input) XENSTORE_ABS_PATH_MAX :: nat where "XENSTORE_ABS_PATH_MAX \<equiv> 3072"
abbreviation (input) XENSTORE_REL_PATH_MAX :: nat where "XENSTORE_REL_PATH_MAX \<equiv> 2048"

datatype xsd_sockmsg_type =
    XS_CONTROL | XS_DIRECTORY | XS_READ | XS_GET_PERMS | XS_WATCH | XS_UNWATCH
  | XS_TRANSACTION_START | XS_TRANSACTION_END | XS_INTRODUCE | XS_RELEASE
  | XS_GET_DOMAIN_PATH | XS_WRITE | XS_MKDIR | XS_RM | XS_SET_PERMS | XS_WATCH_EVENT
  | XS_ERROR | XS_IS_DOMAIN_INTRODUCED | XS_RESUME | XS_SET_TARGET | XS_RESET_WATCHES
  | XS_DIRECTORY_PART | XS_GET_FEATURE | XS_SET_FEATURE | XS_GET_QUOTA | XS_SET_QUOTA

text \<open>The numeric value of each message type.  The value 20 was \<open>XS_RESTRICT\<close>, which has been
  removed: no constructor has it.\<close>

fun msg_code :: "xsd_sockmsg_type \<Rightarrow> u32" where
  "msg_code XS_CONTROL = 0" | "msg_code XS_DIRECTORY = 1" | "msg_code XS_READ = 2"
| "msg_code XS_GET_PERMS = 3" | "msg_code XS_WATCH = 4" | "msg_code XS_UNWATCH = 5"
| "msg_code XS_TRANSACTION_START = 6" | "msg_code XS_TRANSACTION_END = 7"
| "msg_code XS_INTRODUCE = 8" | "msg_code XS_RELEASE = 9"
| "msg_code XS_GET_DOMAIN_PATH = 10" | "msg_code XS_WRITE = 11" | "msg_code XS_MKDIR = 12"
| "msg_code XS_RM = 13" | "msg_code XS_SET_PERMS = 14" | "msg_code XS_WATCH_EVENT = 15"
| "msg_code XS_ERROR = 16" | "msg_code XS_IS_DOMAIN_INTRODUCED = 17"
| "msg_code XS_RESUME = 18" | "msg_code XS_SET_TARGET = 19" | "msg_code XS_RESET_WATCHES = 21"
| "msg_code XS_DIRECTORY_PART = 22" | "msg_code XS_GET_FEATURE = 23"
| "msg_code XS_SET_FEATURE = 24" | "msg_code XS_GET_QUOTA = 25" | "msg_code XS_SET_QUOTA = 26"

definition XS_TYPE_COUNT :: u32 where "XS_TYPE_COUNT = 27"

definition xsd_errors :: "(int \<times> string) list" where
  "xsd_errors =
     [(EINVAL, ''EINVAL''), (EACCES, ''EACCES''), (EEXIST, ''EEXIST''), (EISDIR, ''EISDIR''),
      (ENOENT, ''ENOENT''), (ENOMEM, ''ENOMEM''), (ENOSPC, ''ENOSPC''), (EIO, ''EIO''),
      (ENOTEMPTY, ''ENOTEMPTY''), (ENOSYS, ''ENOSYS''), (EROFS, ''EROFS''), (EBUSY, ''EBUSY''),
      (EAGAIN, ''EAGAIN''), (EISCONN, ''EISCONN''), (E2BIG, ''E2BIG''), (EPERM, ''EPERM'')]"

text \<open>\<open>xenstore_get_error\<close>: \<open>strncmp\<close> of \<open>len\<close> characters against each name in turn.  Both
  arguments of \<open>strncmp\<close> are C strings, compared up to \<open>len\<close> or the terminator.\<close>

definition strncmp_eq :: "string \<Rightarrow> string \<Rightarrow> nat \<Rightarrow> bool" where
  "strncmp_eq a b n \<longleftrightarrow> take n a = take n b"

fun get_error_loop :: "(int \<times> string) list \<Rightarrow> string \<Rightarrow> nat \<Rightarrow> int" where
  "get_error_loop [] s n = 0"
| "get_error_loop ((num, name) # es) s n =
     (if strncmp_eq s name n then num else get_error_loop es s n)"

definition xenstore_get_error :: "string \<Rightarrow> nat \<Rightarrow> int" where
  "xenstore_get_error errstr len = get_error_loop xsd_errors errstr len"

section \<open>Permissions\<close>

type_synonym xs_perm = u32

abbreviation (input) XS_PERM_NONE :: xs_perm where "XS_PERM_NONE \<equiv> 0"
abbreviation (input) XS_PERM_READ :: xs_perm where "XS_PERM_READ \<equiv> 1"
abbreviation (input) XS_PERM_WRITE :: xs_perm where "XS_PERM_WRITE \<equiv> 2"
abbreviation (input) XS_PERM_BOTH :: xs_perm where "XS_PERM_BOTH \<equiv> 3"

record xs_perm_entry =
  pe_domid :: domid_t
  pe_perm :: xs_perm

text \<open>The flag tells whether the output pointer is non-null.\<close>

definition xenstore_perm_to_wire :: "xs_perm \<Rightarrow> bool \<Rightarrow> int + char" where
  "xenstore_perm_to_wire perm wire =
     (if \<not> wire then Inl (- EINVAL)
      else if perm AND XS_PERM_BOTH = XS_PERM_WRITE then Inr (CHR ''w'')
      else if perm AND XS_PERM_BOTH = XS_PERM_READ then Inr (CHR ''r'')
      else if perm AND XS_PERM_BOTH = XS_PERM_BOTH then Inr (CHR ''b'')
      else Inr (CHR ''n''))"

definition xenstore_perm_from_wire :: "char \<Rightarrow> bool \<Rightarrow> int + xs_perm" where
  "xenstore_perm_from_wire wire perm =
     (if \<not> perm then Inl (- EINVAL)
      else if wire = CHR ''w'' then Inr XS_PERM_WRITE
      else if wire = CHR ''r'' then Inr XS_PERM_READ
      else if wire = CHR ''b'' then Inr XS_PERM_BOTH
      else if wire = CHR ''n'' then Inr XS_PERM_NONE
      else Inl (- EINVAL))"

text \<open>The loop of \<open>xenstore_perm_parse_wire\<close>: \<open>raw\<close> is the part of the buffer from \<open>off\<close> on,
  \<open>given\<close> tells whether the destination array is there and \<open>num\<close> is its size.  The result
  is the number of entries decoded and those stored.\<close>

function parse_wire_loop ::
  "char list \<Rightarrow> bool \<Rightarrow> nat \<Rightarrow> nat \<Rightarrow> xs_perm_entry list \<Rightarrow> int + (nat \<times> xs_perm_entry list)" where
  "parse_wire_loop raw given num copied stored =
     (if raw = [] then Inr (copied, stored)
      else
        let entry_len = strnlen raw in
        if entry_len = length raw \<or> entry_len < 2 then Inl (- EPROTO)
        else if given \<and> num \<le> copied then Inl (- ENOSPC)
        else
          (case xenstore_perm_from_wire (hd raw) True of
             Inl e \<Rightarrow> Inl e
           | Inr perm \<Rightarrow>
               let (dom, used, erange) = strtoul10 (tl (take entry_len raw)) in
               if used = 0 \<or> used \<noteq> entry_len - 1 \<or> erange \<or> dom AND 0x7FFF \<noteq> dom
               then Inl (- EPROTO)
               else parse_wire_loop (drop (entry_len + 1) raw) given num (copied + 1)
                      (if given then stored @ [\<lparr>pe_domid = of_nat dom, pe_perm = perm\<rparr>]
                       else stored)))"
  by pat_completeness auto
termination
  by (relation "measure (\<lambda>(raw, _). length raw)") auto

declare parse_wire_loop.simps [simp del]

definition xenstore_perm_parse_wire ::
  "char list option \<Rightarrow> bool \<Rightarrow> nat \<Rightarrow> int + (nat \<times> xs_perm_entry list)" where
  "xenstore_perm_parse_wire raw given num =
     (case raw of
        None \<Rightarrow> Inl (- EINVAL)
      | Some r \<Rightarrow> if \<not> given \<and> num \<noteq> 0 then Inl (- EINVAL) else parse_wire_loop r given num 0 [])"

text \<open>\<open>deserialize_perms\<close>: count and validate first, allocate, then decode.  \<open>None\<close> is the null
  pointer it returns on any failure.\<close>

definition deserialize_perms ::
  "char list \<Rightarrow> 'a env_scheme \<Rightarrow> xs_perm_entry list option \<times> 'a env_scheme" where
  "deserialize_perms strings e =
     (case xenstore_perm_parse_wire (Some strings) False 0 of
        Inl _ \<Rightarrow> (None, e)
      | Inr (parsed_num, _) \<Rightarrow>
          if parsed_num = 0 then (None, e)
          else
            let (ok, e1) = k_malloc e in
            if \<not> ok then (None, e1)
            else
              (case xenstore_perm_parse_wire (Some strings) True parsed_num of
                 Inl _ \<Rightarrow> (None, e1)
               | Inr (n, ps) \<Rightarrow> if n \<noteq> parsed_num then (None, e1) else (Some ps, e1)))"

text \<open>\<open>serialize_perms\<close>: one \<open>snprintf\<close> of at most 11 characters per entry, each followed by its
  terminator.\<close>

definition perm_text :: "xs_perm_entry \<Rightarrow> string option" where
  "perm_text p =
     (case xenstore_perm_to_wire (pe_perm p) True of
        Inl _ \<Rightarrow> None
      | Inr c \<Rightarrow> Some (snd (snprintf 12 (c # dec (unat (pe_domid p))))))"

fun serialize_loop :: "xs_perm_entry list \<Rightarrow> char list option" where
  "serialize_loop [] = Some []"
| "serialize_loop (p # ps) =
     do { t \<leftarrow> perm_text p; r \<leftarrow> serialize_loop ps; Some (t @ NUL # r) }"

definition serialize_perms ::
  "xs_perm_entry list \<Rightarrow> 'a env_scheme \<Rightarrow> char list option \<times> 'a env_scheme" where
  "serialize_perms perms e =
     (let (ok, e1) = k_malloc e in if \<not> ok then (None, e1) else (serialize_loop perms, e1))"

section \<open>The message header\<close>

record xsd_sockmsg =
  hdr_type :: u32
  hdr_req_id :: u32
  hdr_tx_id :: u32
  hdr_len :: u32

definition le32 :: "u32 \<Rightarrow> char list" where
  "le32 w = map (\<lambda>i. char_of (unat w div 256 ^ i)) [0, 1, 2, 3]"

definition le32_dec :: "char list \<Rightarrow> u32" where
  "le32_dec bs = of_nat (foldr (\<lambda>c n. of_char c + 256 * n) (take 4 bs) 0)"

definition hdr_encode :: "xsd_sockmsg \<Rightarrow> char list" where
  "hdr_encode h = le32 (hdr_type h) @ le32 (hdr_req_id h) @ le32 (hdr_tx_id h) @ le32 (hdr_len h)"

definition hdr_decode :: "char list \<Rightarrow> xsd_sockmsg" where
  "hdr_decode bs = \<lparr>hdr_type = le32_dec bs, hdr_req_id = le32_dec (drop 4 bs),
     hdr_tx_id = le32_dec (drop 8 bs), hdr_len = le32_dec (drop 12 bs)\<rparr>"

abbreviation (input) hdr_size :: nat where "hdr_size \<equiv> 16"

section \<open>The shared page\<close>

record xenstore_domain_interface =
  req :: "char list"
  rsp :: "char list"
  req_cons :: u32
  req_prod :: u32
  rsp_cons :: u32
  rsp_prod :: u32
  server_features :: u32
  connection :: u32
  error :: u32
  evtchn_port :: u32

definition MASK_XENSTORE_IDX :: "u32 \<Rightarrow> nat" where
  "MASK_XENSTORE_IDX idx = unat (idx AND 1023)"

definition xenstore_check_indexes :: "u32 \<Rightarrow> u32 \<Rightarrow> bool" where
  "xenstore_check_indexes c_idx p_idx \<longleftrightarrow> XENSTORE_RING_SIZE < unat (p_idx - c_idx)"

definition xenstore_get_input_offset :: "u32 \<Rightarrow> u32 \<Rightarrow> nat \<times> nat" where
  "xenstore_get_input_offset c_idx p_idx =
     (let delta = unat (p_idx - c_idx);
          len = XENSTORE_RING_SIZE - MASK_XENSTORE_IDX c_idx
      in (MASK_XENSTORE_IDX c_idx, if delta < len then delta else len))"

definition get_output_offset :: "u32 \<Rightarrow> u32 \<Rightarrow> nat \<times> nat" where
  "get_output_offset c_idx p_idx =
     (let free_space = unat (1024 - (p_idx - c_idx));
          len = XENSTORE_RING_SIZE - MASK_XENSTORE_IDX p_idx
      in (MASK_XENSTORE_IDX p_idx, if free_space < len then free_space else len))"

definition xenstore_ring_write ::
  "xenstore_domain_interface \<Rightarrow> char list \<Rightarrow> bool \<Rightarrow> int + (nat \<times> xenstore_domain_interface)" where
  "xenstore_ring_write intf data client =
     (let c_idx = (if client then req_cons intf else rsp_cons intf);
          p_idx = (if client then req_prod intf else rsp_prod intf)
      in if xenstore_check_indexes c_idx p_idx then Inl (- EINVAL)
         else
           let (off, avail) = get_output_offset c_idx p_idx;
               len = (if avail < length data then avail else length data)
           in Inr (len,
                if client
                then intf\<lparr>req := blit (req intf) off (take len data),
                          req_prod := req_prod intf + of_nat len\<rparr>
                else intf\<lparr>rsp := blit (rsp intf) off (take len data),
                          rsp_prod := rsp_prod intf + of_nat len\<rparr>))"

definition xenstore_ring_read ::
  "xenstore_domain_interface \<Rightarrow> nat \<Rightarrow> bool \<Rightarrow> int + (char list \<times> xenstore_domain_interface)" where
  "xenstore_ring_read intf want client =
     (let c_idx = (if client then rsp_cons intf else req_cons intf);
          p_idx = (if client then rsp_prod intf else req_prod intf)
      in if xenstore_check_indexes c_idx p_idx then Inl (- EIO)
         else
           let (off, avail) = xenstore_get_input_offset c_idx p_idx;
               len = (if avail < want then avail else want);
               src = (if client then rsp intf else req intf)
           in Inr (take len (drop off src),
                if client
                then intf\<lparr>rsp_cons := rsp_cons intf + of_nat len\<rparr>
                else intf\<lparr>req_cons := req_cons intf + of_nat len\<rparr>))"

section \<open>Permission entries survive the wire\<close>

lemma and_BOTH_cases: "(p :: xs_perm) AND 3 \<in> {0, 1, 2, 3}"
proof -
  have "p AND 3 = take_bit 2 p" by (simp add: take_bit_eq_mask mask_eq_exp_minus_1)
  moreover have "unat (take_bit 2 p) = unat p mod 4"
    by (simp only: unsigned_take_bit_eq) (simp add: take_bit_eq_mod)
  ultimately have "unat (p AND 3) = unat p mod 4" by simp
  then have "unat (p AND 3) \<in> {0, 1, 2, 3}" by auto
  moreover have "\<forall>n \<in> {0, 1, 2, 3}. (of_nat n :: xs_perm) \<in> {0, 1, 2, 3}" by simp
  ultimately have "of_nat (unat (p AND 3)) \<in> {0, 1, 2, 3 :: xs_perm}" by blast
  then show ?thesis by (simp only: of_nat_unat ucast_id)
qed

lemma perm_wire_char:
  "\<exists>c. xenstore_perm_to_wire p True = Inr c \<and> c \<noteq> NUL \<and>
       xenstore_perm_from_wire c True = Inr (p AND XS_PERM_BOTH)"
  using and_BOTH_cases [of p]
  by (auto simp: xenstore_perm_to_wire_def xenstore_perm_from_wire_def)

definition wire_domid :: "domid_t \<Rightarrow> bool" where
  "wire_domid d \<longleftrightarrow> unat d < 0x8000"

lemma unat_domid_bound: "unat (d :: domid_t) < 65536"
  by (rule order_less_le_trans [OF unsigned_less]) simp

lemma perm_text_eq:
  assumes "xenstore_perm_to_wire (pe_perm p) True = Inr c"
  shows "perm_text p = Some (c # dec (unat (pe_domid p)))"
proof -
  have "length (dec (unat (pe_domid p))) \<le> 5"
    using unat_domid_bound [of "pe_domid p"] by (intro length_dec_le) simp_all
  with assms show ?thesis by (simp add: perm_text_def snprintf_def)
qed

lemma and_7FFF: "(n :: nat) AND 0x7FFF = n mod 0x8000"
proof -
  have "n AND mask 15 = take_bit 15 n" by (simp add: take_bit_eq_mask)
  then show ?thesis by (simp add: mask_eq_exp_minus_1 take_bit_eq_mod)
qed

lemma strnlen_text: "NUL \<notin> set t \<Longrightarrow> strnlen (t @ NUL # r) = length t"
  by (auto simp: strnlen_def takeWhile_append)

lemma parse_wire_entry:
  assumes c: "xenstore_perm_from_wire c True = Inr pm" "c \<noteq> NUL"
    and d: "d < 0x8000" and room: "\<not> (given \<and> num \<le> k)"
  shows "parse_wire_loop (c # dec d @ NUL # r) given num k st =
     parse_wire_loop r given num (k + 1)
       (if given then st @ [\<lparr>pe_domid = of_nat d, pe_perm = pm\<rparr>] else st)"
proof -
  have len: "strnlen (c # dec d @ NUL # r) = Suc (length (dec d))"
    using strnlen_text [of "c # dec d" r] c by simp
  have pos: "0 < length (dec d)" by simp
  have p: "strtoul10 (dec d) = (d, length (dec d), False)" using d by (intro strtoul10_dec) simp
  have m: "d AND 0x7FFF = d" using d by (simp add: and_7FFF)
  show ?thesis
    using len pos p m c room
    by (subst parse_wire_loop.simps) (auto simp: Let_def)
qed

lemma serialize_Cons:
  assumes "serialize_loop (p # ps) = Some bs"
  obtains c r where "bs = c # dec (unat (pe_domid p)) @ NUL # r" "c \<noteq> NUL"
    "xenstore_perm_from_wire c True = Inr (pe_perm p AND XS_PERM_BOTH)" "serialize_loop ps = Some r"
proof -
  from perm_wire_char [of "pe_perm p"] obtain c where c:
    "xenstore_perm_to_wire (pe_perm p) True = Inr c" "c \<noteq> NUL"
    "xenstore_perm_from_wire c True = Inr (pe_perm p AND XS_PERM_BOTH)" by blast
  from assms perm_text_eq [OF c(1)] obtain r where
    "serialize_loop ps = Some r" "bs = c # dec (unat (pe_domid p)) @ NUL # r"
    by (auto simp: bind_eq_Some_conv)
  with c that show ?thesis by blast
qed

lemma serialize_total: "\<exists>bs. serialize_loop ps = Some bs"
proof (induction ps)
  case (Cons p ps)
  from perm_wire_char [of "pe_perm p"] obtain c where
    "xenstore_perm_to_wire (pe_perm p) True = Inr c" by blast
  with Cons perm_text_eq show ?case by auto
qed simp

definition norm_perm :: "xs_perm_entry \<Rightarrow> xs_perm_entry" where
  "norm_perm p = p\<lparr>pe_perm := pe_perm p AND XS_PERM_BOTH\<rparr>"

lemma parse_serialized:
  assumes "serialize_loop ps = Some bs" "list_all (\<lambda>p. wire_domid (pe_domid p)) ps"
    "given \<longrightarrow> k + length ps \<le> num"
  shows "parse_wire_loop bs given num k st =
     Inr (k + length ps, if given then st @ map norm_perm ps else st)"
  using assms
proof (induction ps arbitrary: bs k st)
  case Nil
  then show ?case by (simp add: parse_wire_loop.simps [of "[]"])
next
  case (Cons p ps)
  from Cons.prems(1) obtain c r where bs: "bs = c # dec (unat (pe_domid p)) @ NUL # r"
    and c: "c \<noteq> NUL" "xenstore_perm_from_wire c True = Inr (pe_perm p AND XS_PERM_BOTH)"
    and r: "serialize_loop ps = Some r" by (rule serialize_Cons)
  have "wire_domid (pe_domid p)" and ps: "list_all (\<lambda>p. wire_domid (pe_domid p)) ps"
    using Cons.prems(2) by simp_all
  then have d: "unat (pe_domid p) < 0x8000" by (simp add: wire_domid_def)
  have room: "\<not> (given \<and> num \<le> k)" and next_room: "given \<longrightarrow> (k + 1) + length ps \<le> num"
    using Cons.prems(3) by auto
  have "\<lparr>pe_domid = of_nat (unat (pe_domid p)), pe_perm = pe_perm p AND XS_PERM_BOTH\<rparr> = norm_perm p"
    by (cases p) (simp add: norm_perm_def)
  then show ?case
    using parse_wire_entry [OF c(2) c(1) d room, of r st] Cons.IH [OF r ps next_room]
    by (simp add: bs)
qed

text \<open>What a client reads with \<open>XS_GET_PERMS\<close> it may send back with \<open>XS_SET_PERMS\<close>.\<close>

lemma perm_roundtrip_aux:
  assumes "list_all (\<lambda>p. wire_domid (pe_domid p)) ps" "ps \<noteq> []" "mallocs e = []"
  shows "\<exists>bs. serialize_perms ps e = (Some bs, e) \<and>
     deserialize_perms bs e = (Some (map norm_perm ps), e)"
proof -
  obtain bs where bs: "serialize_loop ps = Some bs" using serialize_total by blast
  then show ?thesis
    using assms parse_serialized [OF bs assms(1), of False 0 0 "[]"]
      parse_serialized [OF bs assms(1), of True 0 "length ps" "[]"]
    by (simp add: serialize_perms_def deserialize_perms_def xenstore_perm_parse_wire_def)
qed

text \<open>Every entry the decoder accepts names a domain id the hypervisor can assign.\<close>

lemma parse_wire_domids:
  assumes "parse_wire_loop raw given num k st = Inr (n, ps)" "list_all (\<lambda>p. wire_domid (pe_domid p)) st"
  shows "list_all (\<lambda>p. wire_domid (pe_domid p)) ps"
  using assms
proof (induction raw given num k st rule: parse_wire_loop.induct)
  case (1 raw given num k st)
  show ?case
  proof (cases "raw = []")
    case True
    with "1.prems" show ?thesis by (simp add: parse_wire_loop.simps [of "[]"])
  next
    case False
    obtain dm u er where s: "strtoul10 (tl (take (strnlen raw) raw)) = (dm, u, er)"
      by (metis prod_cases3)
    from False "1.prems"(1) s obtain perm where
      guards: "\<not> (strnlen raw = length raw \<or> strnlen raw < 2)" "\<not> (given \<and> num \<le> k)"
      "xenstore_perm_from_wire (hd raw) True = Inr perm"
      "\<not> (u = 0 \<or> u \<noteq> strnlen raw - 1 \<or> er \<or> dm AND 0x7FFF \<noteq> dm)"
      and rec: "parse_wire_loop (drop (strnlen raw + 1) raw) given num (k + 1)
        (if given then st @ [\<lparr>pe_domid = of_nat dm, pe_perm = perm\<rparr>] else st) = Inr (n, ps)"
      by (subst (asm) parse_wire_loop.simps) (auto simp: Let_def split: if_splits sum.splits)
    have "dm < 0x8000" using guards(4) and_7FFF [of dm] by (metis mod_less_divisor zero_less_numeral)
    then have "wire_domid (of_nat dm)" by (simp add: wire_domid_def unat_of_nat take_bit_eq_mod)
    with "1.prems"(2) "1.IH" [OF False refl guards(1,2,3) s [symmetric] refl refl guards(4) rec]
    show ?thesis by simp
  qed
qed

section \<open>The header survives the wire\<close>

lemma length_le32 [simp]: "length (le32 w) = 4"
  by (simp add: le32_def)

lemma base256_digits:
  "(n :: nat) mod 256 + 256 * (n div 256 mod 256 + 256 * (n div 65536 mod 256 +
     256 * (n div 16777216 mod 256))) = n mod 4294967296"
proof -
  have s1: "n mod (256 * 16777216) = n mod 256 + 256 * (n div 256 mod 16777216)"
    using mod_mult2_eq [of n 256 16777216] by simp
  have s2: "n div 256 mod (256 * 65536) = n div 256 mod 256 + 256 * (n div 65536 mod 65536)"
    using mod_mult2_eq [of "n div 256" 256 65536] by (simp add: div_mult2_eq [symmetric])
  have s3: "n div 65536 mod (256 * 256) = n div 65536 mod 256 + 256 * (n div 16777216 mod 256)"
    using mod_mult2_eq [of "n div 65536" 256 256] by (simp add: div_mult2_eq [symmetric])
  from s1 s2 s3 show ?thesis by simp
qed

lemma le32_dec_le32: "le32_dec (le32 w @ r) = w"
proof -
  have "unat w < 4294967296" by (rule order_less_le_trans [OF unsigned_less]) simp
  then have "foldr (\<lambda>c n. of_char c + 256 * n) (take 4 (le32 w @ r)) 0 = unat w"
    using base256_digits [of "unat w"] by (simp add: le32_def)
  then show ?thesis by (simp add: le32_dec_def)
qed

lemma length_hdr_encode [simp]: "length (hdr_encode h) = hdr_size"
  by (simp add: hdr_encode_def)

lemma hdr_decode_encode: "hdr_decode (hdr_encode h @ r) = h"
  by (simp add: hdr_decode_def hdr_encode_def le32_dec_le32)

section \<open>Each ring of the page is a byte queue\<close>

lemma MASK_XENSTORE_IDX_mod: "MASK_XENSTORE_IDX i = unat i mod 1024"
proof -
  have "i AND mask 10 = take_bit 10 i" by (simp add: take_bit_eq_mask)
  then have "i AND 1023 = take_bit 10 i" by (simp add: mask_eq_exp_minus_1)
  moreover have "unat (take_bit 10 i) = unat i mod 1024"
    by (simp only: unsigned_take_bit_eq) (simp add: take_bit_eq_mod)
  ultimately show ?thesis by (simp add: MASK_XENSTORE_IDX_def)
qed

definition ring_ok :: "char list \<Rightarrow> u32 \<Rightarrow> u32 \<Rightarrow> bool" where
  "ring_ok buf c p \<longleftrightarrow> length buf = XENSTORE_RING_SIZE \<and> \<not> xenstore_check_indexes c p"

definition ring_contents :: "char list \<Rightarrow> u32 \<Rightarrow> u32 \<Rightarrow> char list" where
  "ring_contents buf c p = ring_slice buf (unat c) (unat (p - c))"

lemma ring_ok_bound: "ring_ok buf c p \<Longrightarrow> unat (p - c) \<le> 1024"
  by (simp add: ring_ok_def xenstore_check_indexes_def)

lemma unat_free_space: "unat (p - c) \<le> 1024 \<Longrightarrow> unat (1024 - (p - c) :: u32) = 1024 - unat (p - c)"
  by (subst unat_sub) (auto simp: word_le_nat_alt)

text \<open>One write and one read on a ring, in terms of the index arithmetic of the code.\<close>

lemma ring_write_step:
  assumes ok: "ring_ok buf c p" and oa: "get_output_offset c p = (off, avail)"
    and n: "n = min avail (length d)"
  shows "ring_ok (blit buf off (take n d)) c (p + of_nat n)"
    and "ring_contents (blit buf off (take n d)) c (p + of_nat n) = ring_contents buf c p @ take n d"
    and "d \<noteq> [] \<Longrightarrow> unat (p - c) < 1024 \<Longrightarrow> 0 < n"
proof -
  have len: "length buf = 1024" and used: "unat (p - c) \<le> 1024"
    using ok ring_ok_bound by (auto simp: ring_ok_def)
  have off: "off = unat p mod 1024" and av: "avail = min (1024 - unat (p - c)) (1024 - off)"
    using oa unat_free_space [OF used]
    by (auto simp: get_output_offset_def Let_def MASK_XENSTORE_IDX_mod min_def)
  have off_lt: "off < 1024" by (simp add: off)
  have off': "off = (unat c + unat (p - c)) mod length buf"
    using prod_index_mod [of 10 p c] by (simp add: off len)
  have tl: "length (take n d) = n" using n by simp
  have "n \<le> 1024 - off" using n av by linarith
  then have fits: "off + length (take n d) \<le> length buf" using off_lt tl by (simp add: len)
  have space: "unat (p - c) + n \<le> 1024" using n av used by (auto simp: min_def)
  have up: "unat (p + of_nat n - c) = unat (p - c) + n" using space by (intro used_after_put) simp
  show "ring_ok (blit buf off (take n d)) c (p + of_nat n)"
    using fits up space len by (simp add: ring_ok_def xenstore_check_indexes_def)
  show "ring_contents (blit buf off (take n d)) c (p + of_nat n) = ring_contents buf c p @ take n d"
    using ring_slice_blit [OF off' fits] space up tl len by (simp add: ring_contents_def)
  show "d \<noteq> [] \<Longrightarrow> unat (p - c) < 1024 \<Longrightarrow> 0 < n" using n av off_lt by (auto simp: min_def)
qed

lemma ring_read_step:
  assumes ok: "ring_ok buf c p" and oa: "xenstore_get_input_offset c p = (off, avail)"
    and n: "n = min avail want"
  shows "ring_ok buf (c + of_nat n) p"
    and "ring_contents buf c p = take n (drop off buf) @ ring_contents buf (c + of_nat n) p"
    and "length (take n (drop off buf)) = n"
    and "unat (p - c) \<noteq> 0 \<Longrightarrow> 0 < want \<Longrightarrow> 0 < n"
proof -
  have len: "length buf = 1024" and used: "unat (p - c) \<le> 1024"
    using ok ring_ok_bound by (auto simp: ring_ok_def)
  have off: "off = unat c mod 1024" and av: "avail = min (unat (p - c)) (1024 - off)"
    using oa by (auto simp: xenstore_get_input_offset_def Let_def MASK_XENSTORE_IDX_mod min_def)
  have off_lt: "off < 1024" by (simp add: off)
  have nle: "n \<le> unat (p - c)" "off + n \<le> 1024" using n av off_lt by (auto simp: min_def)
  have up: "unat (p - (c + of_nat n)) = unat (p - c) - n" using nle(1) by (rule used_after_get)
  show "ring_ok buf (c + of_nat n) p"
    using ok up used by (simp add: ring_ok_def xenstore_check_indexes_def)
  have n32: "unat (of_nat n :: u32) = n" using nle used by (intro unat_of_nat_small) simp
  have st: "unat (c + of_nat n) mod length buf = (unat c + n) mod length buf"
    using unat_add_mod_pow2 [of 10 c "of_nat n"] n32 by (simp add: len)
  have "ring_slice buf (unat c) (n + (unat (p - c) - n)) =
      take n (drop off buf) @ ring_slice buf (unat c + n) (unat (p - c) - n)"
    using ring_slice_append [of buf "unat c" n "unat (p - c) - n"]
      ring_slice_contiguous [of "unat c" buf n] nle(2)
    by (simp add: off len)
  then show "ring_contents buf c p = take n (drop off buf) @ ring_contents buf (c + of_nat n) p"
    using nle(1) up ring_slice_start_mod [OF st] by (simp add: ring_contents_def)
  show "length (take n (drop off buf)) = n" using nle len by simp
  show "unat (p - c) \<noteq> 0 \<Longrightarrow> 0 < want \<Longrightarrow> 0 < n" using n av off_lt by (auto simp: min_def)
qed

text \<open>The request ring, written by the guest and read by the server, and the response ring,
  written by the server and read by the guest.\<close>

definition req_valid :: "xenstore_domain_interface \<Rightarrow> bool" where
  "req_valid i \<longleftrightarrow> ring_ok (req i) (req_cons i) (req_prod i)"

definition rsp_valid :: "xenstore_domain_interface \<Rightarrow> bool" where
  "rsp_valid i \<longleftrightarrow> ring_ok (rsp i) (rsp_cons i) (rsp_prod i)"

definition req_contents :: "xenstore_domain_interface \<Rightarrow> char list" where
  "req_contents i = ring_contents (req i) (req_cons i) (req_prod i)"

definition rsp_contents :: "xenstore_domain_interface \<Rightarrow> char list" where
  "rsp_contents i = ring_contents (rsp i) (rsp_cons i) (rsp_prod i)"

definition ring_put :: "bool \<Rightarrow> char list \<Rightarrow> xenstore_domain_interface \<Rightarrow>
    nat \<times> xenstore_domain_interface" where
  "ring_put client d i = (case xenstore_ring_write i d client of Inr r \<Rightarrow> r | Inl _ \<Rightarrow> (0, i))"

definition ring_get :: "bool \<Rightarrow> nat \<Rightarrow> xenstore_domain_interface \<Rightarrow>
    char list \<times> xenstore_domain_interface" where
  "ring_get client n i = (case xenstore_ring_read i n client of Inr r \<Rightarrow> r | Inl _ \<Rightarrow> ([], i))"

lemma ring_put_client:
  assumes "req_valid i" "get_output_offset (req_cons i) (req_prod i) = (off, avail)"
  shows "ring_put True d i =
     (min avail (length d),
      i\<lparr>req := blit (req i) off (take (min avail (length d)) d),
        req_prod := req_prod i + of_nat (min avail (length d))\<rparr>)"
  using assms
  by (auto simp: ring_put_def xenstore_ring_write_def req_valid_def ring_ok_def Let_def min_def)

lemma ring_put_server:
  assumes "rsp_valid i" "get_output_offset (rsp_cons i) (rsp_prod i) = (off, avail)"
  shows "ring_put False d i =
     (min avail (length d),
      i\<lparr>rsp := blit (rsp i) off (take (min avail (length d)) d),
        rsp_prod := rsp_prod i + of_nat (min avail (length d))\<rparr>)"
  using assms
  by (auto simp: ring_put_def xenstore_ring_write_def rsp_valid_def ring_ok_def Let_def min_def)

lemma ring_get_client:
  assumes "rsp_valid i" "xenstore_get_input_offset (rsp_cons i) (rsp_prod i) = (off, avail)"
  shows "ring_get True n i =
     (take (min avail n) (drop off (rsp i)), i\<lparr>rsp_cons := rsp_cons i + of_nat (min avail n)\<rparr>)"
  using assms
  by (auto simp: ring_get_def xenstore_ring_read_def rsp_valid_def ring_ok_def Let_def min_def)

lemma ring_get_server:
  assumes "req_valid i" "xenstore_get_input_offset (req_cons i) (req_prod i) = (off, avail)"
  shows "ring_get False n i =
     (take (min avail n) (drop off (req i)), i\<lparr>req_cons := req_cons i + of_nat (min avail n)\<rparr>)"
  using assms
  by (auto simp: ring_get_def xenstore_ring_read_def req_valid_def ring_ok_def Let_def min_def)

lemma length_ring_contents: "length (ring_contents buf c p) = unat (p - c)"
  by (simp add: ring_contents_def)

interpretation req_ring: byte_queue req_valid req_contents XENSTORE_RING_SIZE
  "ring_put True" "ring_get False"
proof
  fix q q' :: xenstore_domain_interface and d :: "char list" and n :: nat
  assume v: "req_valid q" and r: "ring_put True d q = (n, q')"
  obtain off avail where oa: "get_output_offset (req_cons q) (req_prod q) = (off, avail)"
    by fastforce
  note st = ring_write_step [OF v [unfolded req_valid_def] oa refl, of d]
  note eq = ring_put_client [OF v oa, of d, unfolded r]
  show "req_valid q'" using st(1) eq by (simp add: req_valid_def)
  show "req_contents q' = req_contents q @ take n d" using st(2) eq by (simp add: req_contents_def)
  show "n \<le> length d" using eq by simp
  show "d \<noteq> [] \<Longrightarrow> length (req_contents q) < XENSTORE_RING_SIZE \<Longrightarrow> 0 < n"
    using st(3) eq by (simp add: req_contents_def length_ring_contents)
next
  fix q q' :: xenstore_domain_interface and d :: "char list" and n :: nat
  assume v: "req_valid q" and r: "ring_get False n q = (d, q')"
  obtain off avail where oa: "xenstore_get_input_offset (req_cons q) (req_prod q) = (off, avail)"
    by fastforce
  note st = ring_read_step [OF v [unfolded req_valid_def] oa refl, of n]
  note eq = ring_get_server [OF v oa, of n, unfolded r]
  show "req_valid q'" using st(1) eq by (simp add: req_valid_def)
  show "req_contents q = d @ req_contents q'" using st(2) eq by (simp add: req_contents_def)
  show "length d \<le> n" using st(3) eq by simp
  show "d \<noteq> []" if "req_contents q \<noteq> []" "0 < n"
    using that st(3,4) eq length_ring_contents [of "req q" "req_cons q" "req_prod q"]
    by (auto simp: req_contents_def simp flip: length_greater_0_conv)
next
  fix q assume "req_valid q"
  then show "length (req_contents q) \<le> XENSTORE_RING_SIZE"
    using ring_ok_bound by (simp add: req_valid_def req_contents_def length_ring_contents)
qed

interpretation rsp_ring: byte_queue rsp_valid rsp_contents XENSTORE_RING_SIZE
  "ring_put False" "ring_get True"
proof
  fix q q' :: xenstore_domain_interface and d :: "char list" and n :: nat
  assume v: "rsp_valid q" and r: "ring_put False d q = (n, q')"
  obtain off avail where oa: "get_output_offset (rsp_cons q) (rsp_prod q) = (off, avail)"
    by fastforce
  note st = ring_write_step [OF v [unfolded rsp_valid_def] oa refl, of d]
  note eq = ring_put_server [OF v oa, of d, unfolded r]
  show "rsp_valid q'" using st(1) eq by (simp add: rsp_valid_def)
  show "rsp_contents q' = rsp_contents q @ take n d" using st(2) eq by (simp add: rsp_contents_def)
  show "n \<le> length d" using eq by simp
  show "d \<noteq> [] \<Longrightarrow> length (rsp_contents q) < XENSTORE_RING_SIZE \<Longrightarrow> 0 < n"
    using st(3) eq by (simp add: rsp_contents_def length_ring_contents)
next
  fix q q' :: xenstore_domain_interface and d :: "char list" and n :: nat
  assume v: "rsp_valid q" and r: "ring_get True n q = (d, q')"
  obtain off avail where oa: "xenstore_get_input_offset (rsp_cons q) (rsp_prod q) = (off, avail)"
    by fastforce
  note st = ring_read_step [OF v [unfolded rsp_valid_def] oa refl, of n]
  note eq = ring_get_client [OF v oa, of n, unfolded r]
  show "rsp_valid q'" using st(1) eq by (simp add: rsp_valid_def)
  show "rsp_contents q = d @ rsp_contents q'" using st(2) eq by (simp add: rsp_contents_def)
  show "length d \<le> n" using st(3) eq by simp
  show "d \<noteq> []" if "rsp_contents q \<noteq> []" "0 < n"
    using that st(3,4) eq length_ring_contents [of "rsp q" "rsp_cons q" "rsp_prod q"]
    by (auto simp: rsp_contents_def simp flip: length_greater_0_conv)
next
  fix q assume "rsp_valid q"
  then show "length (rsp_contents q) \<le> XENSTORE_RING_SIZE"
    using ring_ok_bound by (simp add: rsp_valid_def rsp_contents_def length_ring_contents)
qed

end
