(* ===== verification/Xs_Path.thy ===== *)
theory Xs_Path
  imports Xs_Wire
begin

text \<open>
  XenStore paths, from \<open>xenstore-srv/src/xenstore_srv.c\<close> and the inline helpers of
  \<open>xenstore_common.h\<close>: validation, the containment test that decides which watches an
  event reaches, and the expansion of a relative path to the domain's home.  A path that
  passes validation and is absolute is \<open>path_of\<close> of its components, and on such paths the
  string-level containment test is exactly the prefix order on components.
\<close>

section \<open>Operations\<close>

abbreviation (input) XENSTORE_MAX_LOCALPATH_LEN :: nat where "XENSTORE_MAX_LOCALPATH_LEN \<equiv> 21"

definition xenstore_is_abs_path :: "string option \<Rightarrow> bool" where
  "xenstore_is_abs_path path =
     (case path of None \<Rightarrow> False | Some p \<Rightarrow> p \<noteq> [] \<and> hd p = slash)"

definition xenstore_is_root_path :: "string option \<Rightarrow> bool" where
  "xenstore_is_root_path path =
     (xenstore_is_abs_path path \<and> (case path of None \<Rightarrow> False | Some p \<Rightarrow> length p = 1))"

definition xenstore_str_byte_size :: "string option \<Rightarrow> nat" where
  "xenstore_str_byte_size str = (case str of None \<Rightarrow> 0 | Some s \<Rightarrow> length s + 1)"

definition xenstore_path_char_is_valid :: "char \<Rightarrow> bool" where
  "xenstore_path_char_is_valid c =
     (let n = (of_char c :: nat) in
      65 \<le> n \<and> n \<le> 90 \<or> 97 \<le> n \<and> n \<le> 122 \<or> 48 \<le> n \<and> n \<le> 57 \<or>
      c = CHR ''-'' \<or> c = CHR ''_'' \<or> c = CHR ''@'' \<or> c = slash)"

text \<open>The scanning loop of \<open>xenstore_path_validate\<close>: \<open>None\<close> when it returns \<open>-EINVAL\<close>,
  otherwise the last character seen.\<close>

fun path_scan :: "char \<Rightarrow> string \<Rightarrow> char option" where
  "path_scan prev [] = Some prev"
| "path_scan prev (c # cs) =
     (if \<not> xenstore_path_char_is_valid c then None
      else if c = slash \<and> prev = slash then None
      else path_scan c cs)"

definition xenstore_path_validate :: "string option \<Rightarrow> int" where
  "xenstore_path_validate path =
     (case path of
        None \<Rightarrow> - EINVAL
      | Some p \<Rightarrow>
          if p = [] then - EINVAL
          else if xenstore_is_root_path path then 0
          else
            (case path_scan NUL p of
               None \<Rightarrow> - EINVAL
             | Some prev \<Rightarrow>
                 if prev = slash then - EINVAL
                 else if (if xenstore_is_abs_path path then XENSTORE_ABS_PATH_MAX
                          else XENSTORE_REL_PATH_MAX) < xenstore_str_byte_size path
                 then - E2BIG
                 else 0))"

definition xenstore_path_contains :: "string option \<Rightarrow> string option \<Rightarrow> bool" where
  "xenstore_path_contains parent child =
     (case (parent, child) of
        (Some p, Some c) \<Rightarrow>
          if p = c then True
          else if xenstore_is_root_path parent then c \<noteq> []
          else take (length p) c = p \<and> length p < length c \<and> c ! length p = slash
      | _ \<Rightarrow> False)"

text \<open>The domain's home directory as the code prints it, with \<open>%d\<close> of the 32-bit domain id.\<close>

definition local_path :: "u32 \<Rightarrow> string" where
  "local_path d = ''/local/domain/'' @ fmt_d (sint d) @ ''/''"

definition construct_path ::
  "string \<Rightarrow> u32 \<Rightarrow> 'a env_scheme \<Rightarrow> (int + string) \<times> 'a env_scheme" where
  "construct_path payload d e =
     (let rc = xenstore_path_validate (Some payload);
          path_len = xenstore_str_byte_size (Some payload)
      in if rc \<noteq> 0 then (Inl rc, e)
         else
           let (ok, e1) = k_malloc e in
           if \<not> ok then (Inl (- ENOMEM), e1)
           else if xenstore_is_abs_path (Some payload) then (Inr payload, e1)
           else
             let (len, path) = snprintf (path_len + XENSTORE_MAX_LOCALPATH_LEN)
                                 (local_path d @ payload)
             in if XENSTORE_ABS_PATH_MAX < len + 1 then (Inl (- E2BIG), e1)
                else (Inr path, e1))"

section \<open>Valid absolute paths are lists of components\<close>

definition path_char_ok :: "string \<Rightarrow> bool" where
  "path_char_ok t \<longleftrightarrow> list_all xenstore_path_char_is_valid t"

text \<open>A path the server may look up: the root, or components separated by single slashes.\<close>

definition norm_abs :: "string \<Rightarrow> bool" where
  "norm_abs p \<longleftrightarrow> p = [slash] \<or> (\<exists>ts. ts \<noteq> [] \<and> list_all token_ok ts \<and> p = path_of ts)"

lemma path_scan_slash:
  "path_scan prev s = Some lst \<Longrightarrow> lst \<noteq> slash \<Longrightarrow> slash \<notin> set cur \<Longrightarrow>
   cur = [] \<longleftrightarrow> prev = slash \<Longrightarrow> s \<noteq> [] \<or> cur \<noteq> [] \<Longrightarrow>
   path_of (strtok_acc slash cur s) = slash # cur @ s"
proof (induction s arbitrary: prev cur)
  case Nil
  then show ?case by (auto split: if_splits)
next
  case (Cons c s)
  then have v: "\<not> (c = slash \<and> prev = slash)" and sc: "path_scan c s = Some lst"
    by (auto split: if_splits)
  show ?case
  proof (cases "c = slash")
    case True
    with v Cons.prems have cur: "cur \<noteq> []" by auto
    have "s \<noteq> []" using True sc Cons.prems(2) by auto
    then have "path_of (strtok_acc slash [] s) = slash # [] @ s"
      using True sc Cons.prems(2) by (intro Cons.IH) auto
    with True cur show ?thesis by simp
  next
    case False
    have "path_of (strtok_acc slash (cur @ [c]) s) = slash # (cur @ [c]) @ s"
      using False sc Cons.prems by (intro Cons.IH) auto
    with False show ?thesis by simp
  qed
qed

lemma path_validate_abs:
  assumes "xenstore_path_validate (Some p) = 0" "xenstore_is_abs_path (Some p)" "p \<noteq> [slash]"
  shows "path_of (strtok_all slash p) = p" and "length p < XENSTORE_ABS_PATH_MAX"
proof -
  obtain s where p: "p = slash # s" using assms(2) by (cases p) (auto simp: xenstore_is_abs_path_def)
  with assms(3) have s: "s \<noteq> []" by simp
  have nr: "\<not> xenstore_is_root_path (Some p)" using s by (simp add: xenstore_is_root_path_def p)
  from assms(1) nr obtain lst where sc: "path_scan NUL p = Some lst" "lst \<noteq> slash"
    and len: "length p + 1 \<le> XENSTORE_ABS_PATH_MAX"
    using assms(2) p
    by (auto simp: xenstore_path_validate_def xenstore_str_byte_size_def split: option.splits if_splits)
  from sc p have sc': "path_scan slash s = Some lst" by (auto split: if_splits)
  have "path_of (strtok_acc slash [] s) = slash # [] @ s"
    by (rule path_scan_slash [OF sc' sc(2)]) (use s in auto)
  then show "path_of (strtok_all slash p) = p" by (simp add: p strtok_all_def)
  show "length p < XENSTORE_ABS_PATH_MAX" using len by simp
qed

lemma path_of_eq_Nil [simp]: "path_of ts = [] \<longleftrightarrow> ts = []"
  by (cases ts) auto

lemma path_validate_norm:
  assumes "xenstore_path_validate (Some p) = 0" "xenstore_is_abs_path (Some p)"
  shows "norm_abs p"
proof (cases "p = [slash]")
  case False
  then have eq: "path_of (strtok_all slash p) = p" using path_validate_abs assms by blast
  moreover have "p \<noteq> []" using assms(2) by (auto simp: xenstore_is_abs_path_def)
  ultimately have "strtok_all slash p \<noteq> []" by (metis path_of_simps(1))
  with eq strtok_all_tokens show ?thesis unfolding norm_abs_def by metis
qed (simp add: norm_abs_def)

section \<open>Containment is the prefix order\<close>

lemma path_of_inject:
  "list_all token_ok ts \<Longrightarrow> list_all token_ok us \<Longrightarrow> path_of ts = path_of us \<longleftrightarrow> ts = us"
  by (metis strtok_all_path_of)

lemma path_of_split:
  assumes "list_all token_ok ts" "list_all token_ok us" "path_of us = path_of ts @ slash # r"
  shows "\<exists>vs. us = ts @ vs \<and> vs \<noteq> []"
  using assms
proof (induction ts arbitrary: us)
  case Nil
  then show ?case by (cases us) auto
next
  case (Cons t ts)
  then obtain u us' where us: "us = u # us'" by (cases us) auto
  have tu: "u @ path_of us' = t @ path_of ts @ slash # r" using Cons.prems(3) us by simp
  have ns: "slash \<notin> set t" "slash \<notin> set u" using Cons.prems us by (auto simp: token_ok_def)
  have hd_us': "path_of us' = [] \<or> hd (path_of us') = slash" by (cases us') auto
  have hd_ts: "hd (path_of ts @ slash # r) = slash" by (cases ts) auto
  have "takeWhile (\<lambda>c. c \<noteq> slash) (u @ path_of us') = u"
    using takeWhile_until [OF ns(2) hd_us'] .
  moreover have "takeWhile (\<lambda>c. c \<noteq> slash) (t @ path_of ts @ slash # r) = t"
    using takeWhile_until [OF ns(1) disjI2, OF hd_ts] .
  ultimately have ut: "u = t" using tu by simp
  then have "path_of us' = path_of ts @ slash # r" using tu by simp
  with Cons.IH [of us'] Cons.prems us ut show ?case by auto
qed

lemma path_contains_prefix:
  assumes "list_all token_ok ts" "list_all token_ok us" "ts \<noteq> []" "us \<noteq> []"
  shows "xenstore_path_contains (Some (path_of ts)) (Some (path_of us)) \<longleftrightarrow> prefix ts us"
proof -
  have nr: "\<not> xenstore_is_root_path (Some (path_of ts))"
    using assms(1,3) by (cases ts) (auto simp: xenstore_is_root_path_def token_ok_def)
  show ?thesis
  proof
    assume c: "xenstore_path_contains (Some (path_of ts)) (Some (path_of us))"
    show "prefix ts us"
    proof (cases "path_of ts = path_of us")
      case True
      then show ?thesis using assms path_of_inject by auto
    next
      case False
      with c nr have "take (length (path_of ts)) (path_of us) = path_of ts"
        "length (path_of ts) < length (path_of us)" "path_of us ! length (path_of ts) = slash"
        by (auto simp: xenstore_path_contains_def)
      then have "path_of us = path_of ts @ slash # drop (Suc (length (path_of ts))) (path_of us)"
        by (metis append_take_drop_id Cons_nth_drop_Suc)
      with path_of_split [OF assms(1,2)] show ?thesis by (auto simp: prefix_def)
    qed
  next
    assume "prefix ts us"
    then obtain vs where us: "us = ts @ vs" by (auto simp: prefix_def)
    show "xenstore_path_contains (Some (path_of ts)) (Some (path_of us))"
    proof (cases vs)
      case Nil
      then show ?thesis by (simp add: us xenstore_path_contains_def)
    next
      case (Cons v vs')
      then show ?thesis using nr by (simp add: us xenstore_path_contains_def)
    qed
  qed
qed

lemma path_contains_root: "c \<noteq> [] \<Longrightarrow> xenstore_path_contains (Some [slash]) (Some c)"
  by (simp add: xenstore_path_contains_def xenstore_is_root_path_def xenstore_is_abs_path_def)

section \<open>What path construction yields\<close>

lemma construct_path_frame: "construct_path p d e = (r, e') \<Longrightarrow> \<exists>bs. e' = e\<lparr>mallocs := bs\<rparr>"
proof -
  assume a: "construct_path p d e = (r, e')"
  obtain ok e1 where m: "k_malloc e = (ok, e1)" by fastforce
  with a have "e' = e \<or> e' = e1"
    by (auto simp: construct_path_def Let_def split: if_splits prod.splits)
  moreover have "e = e\<lparr>mallocs := mallocs e\<rparr>" by simp
  ultimately show ?thesis using k_malloc_frame [OF m] by metis
qed

lemma construct_path_abs:
  "xenstore_is_abs_path (Some p) \<Longrightarrow> construct_path p d e = (Inr q, e') \<Longrightarrow>
   q = p \<and> xenstore_path_validate (Some p) = 0"
  by (auto simp: construct_path_def Let_def split: if_splits prod.splits)

text \<open>For every domain id the hypervisor can assign (below \<open>DOMID_FIRST_RESERVED\<close>) the
  buffer of \<open>construct_path\<close> is large enough: nothing is cut off.\<close>

lemma fmt_d_domid: "unat d < 0x8000 \<Longrightarrow> fmt_d (sint (d :: u32)) = dec (unat d)"
proof -
  assume d: "unat d < 0x8000"
  have u: "uint d = int (unat d)" by (rule uint_nat)
  with d have lt: "0 \<le> uint d" "uint d < 2147483648" by linarith+
  moreover have "- (2 ^ 31) \<le> (0 :: int)" by simp
  ultimately have "signed_take_bit 31 (uint d) = uint d"
    by (intro signed_take_bit_int_eq_self) (erule order_trans, assumption, simp)
  then have "sint d = int (unat d)" by (simp only: sint_uint u) simp
  then show ?thesis by (simp add: fmt_d_def)
qed

lemma local_path_domid: "unat d < 0x8000 \<Longrightarrow> local_path d = path_of [''local'', ''domain'', dec (unat d)] @ [slash]"
  by (simp add: local_path_def fmt_d_domid)

lemma length_local_path: "unat d < 0x8000 \<Longrightarrow> length (local_path d) < XENSTORE_MAX_LOCALPATH_LEN"
proof -
  assume d: "unat d < 0x8000"
  then have "length (dec (unat d)) \<le> 5" by (intro length_dec_le) simp_all
  with d show ?thesis by (simp add: local_path_domid)
qed

lemma construct_path_rel:
  assumes "unat d < 0x8000" "\<not> xenstore_is_abs_path (Some p)" "construct_path p d e = (Inr q, e')"
  shows "q = local_path d @ p" "xenstore_path_validate (Some p) = 0" "length q < XENSTORE_ABS_PATH_MAX"
  using assms length_local_path [OF assms(1)]
  by (auto simp: construct_path_def Let_def snprintf_def xenstore_str_byte_size_def
      split: if_splits prod.splits)

lemma path_scan_rel:
  assumes "xenstore_path_validate (Some p) = 0" "\<not> xenstore_is_abs_path (Some p)"
  shows "path_of (strtok_all slash p) = slash # p" "p \<noteq> []"
proof -
  have p: "p \<noteq> []" using assms(1) by (auto simp: xenstore_path_validate_def)
  have nr: "\<not> xenstore_is_root_path (Some p)" using assms(2) by (simp add: xenstore_is_root_path_def)
  obtain c s where cs: "p = c # s" using p by (cases p) auto
  with assms(2) have c: "c \<noteq> slash" by (simp add: xenstore_is_abs_path_def)
  from assms(1) nr p obtain lst where sc: "path_scan NUL p = Some lst" "lst \<noteq> slash"
    by (auto simp: xenstore_path_validate_def split: option.splits if_splits)
  then have sc': "path_scan c s = Some lst" using cs by (auto split: if_splits)
  have "path_of (strtok_acc slash [c] s) = slash # [c] @ s"
    by (rule path_scan_slash [OF sc' sc(2)]) (use c in auto)
  then show "path_of (strtok_all slash p) = slash # p" using cs c by (simp add: strtok_all_def)
  show "p \<noteq> []" by (rule p)
qed

text \<open>Every path the server constructs from a request is normalised and absolute; a relative
  one lies below the home directory of the requesting domain.\<close>

lemma construct_path_norm:
  assumes "unat d < 0x8000" "construct_path p d e = (Inr q, e')"
  shows "norm_abs q"
proof (cases "xenstore_is_abs_path (Some p)")
  case True
  then show ?thesis using construct_path_abs [OF True assms(2)] path_validate_norm by blast
next
  case False
  note r = construct_path_rel [OF assms(1) False assms(2)]
  note t = path_scan_rel [OF r(2) False]
  have "q = path_of ([''local'', ''domain'', dec (unat d)] @ strtok_all slash p)"
    using r(1) t(1) local_path_domid [OF assms(1)] by simp
  moreover have "list_all token_ok ([''local'', ''domain'', dec (unat d)] @ strtok_all slash p)"
    using strtok_all_tokens by (simp add: token_ok_def)
  moreover have "[''local'', ''domain'', dec (unat d)] @ strtok_all slash p \<noteq> []" by simp
  ultimately show ?thesis unfolding norm_abs_def by blast
qed

lemma construct_path_below_home:
  assumes "unat d < 0x8000" "\<not> xenstore_is_abs_path (Some p)" "construct_path p d e = (Inr q, e')"
  shows "strtok_all slash q = [''local'', ''domain'', dec (unat d)] @ strtok_all slash p"
    and "strtok_all slash p \<noteq> []"
proof -
  note r = construct_path_rel [OF assms]
  note t = path_scan_rel [OF r(2) assms(2)]
  have ok: "list_all token_ok ([''local'', ''domain'', dec (unat d)] @ strtok_all slash p)"
    using strtok_all_tokens by (simp add: token_ok_def)
  have "q = path_of ([''local'', ''domain'', dec (unat d)] @ strtok_all slash p)"
    using r(1) t(1) local_path_domid [OF assms(1)] by simp
  then show "strtok_all slash q = [''local'', ''domain'', dec (unat d)] @ strtok_all slash p"
    using strtok_all_path_of [OF ok] by simp
  show "strtok_all slash p \<noteq> []" using t by auto
qed

end
