(* ===== verification/Xs_Tree.thy ===== *)
theory Xs_Tree
  imports Xs_Path
begin

text \<open>
  The store itself: the tree of \<open>struct xs_entry\<close> below \<open>root_xenstore\<close>, its permissions and
  the operations of \<open>xenstore_srv.c\<close> that look it up and change it.  A pointer to an entry is
  the list of keys that leads to it from the root (\<open>entry_ptr\<close>, \<open>[]\<close> being
  \<open>&root_xenstore\<close>); following a pointer is \<open>node_at\<close>.  The abstract view of a tree is
  \<open>abs_tree\<close>, the partial map from paths to value and permissions.
\<close>

section \<open>Entries\<close>

datatype xs_entry =
  XsEntry (xs_key: "string option") (xs_value: "string option")
    (xs_perms: "xs_perm_entry list") (child_list: "xs_entry list")

type_synonym entry_ptr = "string list"

record xs_store = env +
  root_xenstore :: xs_entry

definition find_child :: "string \<Rightarrow> xs_entry list \<Rightarrow> xs_entry option" where
  "find_child t cs = List.find (\<lambda>c. xs_key c = Some t) cs"

fun node_at :: "xs_entry \<Rightarrow> entry_ptr \<Rightarrow> xs_entry option" where
  "node_at e [] = Some e"
| "node_at e (t # ts) =
     (case find_child t (child_list e) of None \<Rightarrow> None | Some c \<Rightarrow> node_at c ts)"

fun update_child :: "string \<Rightarrow> (xs_entry \<Rightarrow> xs_entry) \<Rightarrow> xs_entry list \<Rightarrow> xs_entry list" where
  "update_child t f [] = []"
| "update_child t f (c # cs) =
     (if xs_key c = Some t then f c # cs else c # update_child t f cs)"

fun remove_child :: "string \<Rightarrow> xs_entry list \<Rightarrow> xs_entry list" where
  "remove_child t [] = []"
| "remove_child t (c # cs) = (if xs_key c = Some t then cs else c # remove_child t cs)"

definition set_children :: "xs_entry list \<Rightarrow> xs_entry \<Rightarrow> xs_entry" where
  "set_children cs e = XsEntry (xs_key e) (xs_value e) (xs_perms e) cs"

definition set_perms :: "xs_perm_entry list \<Rightarrow> xs_entry \<Rightarrow> xs_entry" where
  "set_perms ps e = XsEntry (xs_key e) (xs_value e) ps (child_list e)"

definition set_value :: "string option \<Rightarrow> xs_entry \<Rightarrow> xs_entry" where
  "set_value v e = XsEntry (xs_key e) v (xs_perms e) (child_list e)"

definition append_child :: "xs_entry \<Rightarrow> xs_entry \<Rightarrow> xs_entry" where
  "append_child c e = set_children (child_list e @ [c]) e"

text \<open>Writing through a pointer, and unlinking what it points to.\<close>

fun modify_at :: "entry_ptr \<Rightarrow> (xs_entry \<Rightarrow> xs_entry) \<Rightarrow> xs_entry \<Rightarrow> xs_entry" where
  "modify_at [] f e = f e"
| "modify_at (t # ts) f e = set_children (update_child t (modify_at ts f) (child_list e)) e"

fun remove_at :: "entry_ptr \<Rightarrow> xs_entry \<Rightarrow> xs_entry" where
  "remove_at [] e = e"
| "remove_at [t] e = set_children (remove_child t (child_list e)) e"
| "remove_at (t # ts) e = set_children (update_child t (remove_at ts) (child_list e)) e"

section \<open>Permissions\<close>

definition is_owner :: "xs_entry \<Rightarrow> u32 \<Rightarrow> bool" where
  "is_owner entry caller_domid =
     (case xs_perms entry of [] \<Rightarrow> False | owner # _ \<Rightarrow> ucast (pe_domid owner) = caller_domid)"

text \<open>\<open>None\<close>: the list is empty and the code dereferences its missing head.\<close>

definition check_perms :: "xs_entry \<Rightarrow> xs_perm \<Rightarrow> u32 \<Rightarrow> bool option" where
  "check_perms entry perms caller_domid =
     (if caller_domid = 0 \<or> is_owner entry caller_domid then Some True
      else
        (case List.find (\<lambda>p. ucast (pe_domid p) = caller_domid) (xs_perms entry) of
           Some p \<Rightarrow> Some (pe_perm p AND perms = perms)
         | None \<Rightarrow>
             (case xs_perms entry of
                [] \<Rightarrow> None
              | default_perms # _ \<Rightarrow> Some (pe_perm default_perms AND perms = perms))))"

section \<open>Lookup\<close>

definition key_to_entry ::
  "string option \<Rightarrow> 'a xs_store_scheme \<Rightarrow> entry_ptr option \<times> 'a xs_store_scheme" where
  "key_to_entry key w =
     (case key of
        None \<Rightarrow> (None, w)
      | Some k \<Rightarrow>
          if XENSTORE_ABS_PATH_MAX < length k then (None, w)
          else if xenstore_is_root_path key then (Some [], w)
          else
            let (ok, w1) = k_malloc w; toks = strtok_all slash k in
            if \<not> ok then (None, w1)
            else if toks \<noteq> [] \<and> node_at (root_xenstore w1) toks \<noteq> None then (Some toks, w1)
            else (None, w1))"

definition check_perms_for_entry ::
  "entry_ptr option \<Rightarrow> u32 \<Rightarrow> xs_perm \<Rightarrow> 'a xs_store_scheme \<Rightarrow> bool option" where
  "check_perms_for_entry entry d perms w =
     (case entry of
        None \<Rightarrow> Some False
      | Some p \<Rightarrow> do { e \<leftarrow> node_at (root_xenstore w) p; check_perms e perms d })"

definition key_to_entry_check_perm ::
  "string option \<Rightarrow> u32 \<Rightarrow> xs_perm \<Rightarrow> 'a xs_store_scheme \<Rightarrow>
     (entry_ptr option \<times> 'a xs_store_scheme) option" where
  "key_to_entry_check_perm key d perms w =
     (let (entry, w1) = key_to_entry key w in
      do { ok \<leftarrow> check_perms_for_entry entry d perms w1;
           Some (if ok then entry else None, w1) })"

section \<open>Locks with a deadline\<close>

text \<open>The next announced outcome of the timed acquisition, as the return code of
  \<open>k_mutex_lock\<close> and whether the deadline has passed.  Without a deadline the call waits
  until it has the lock.\<close>

definition xss_mutex_lock_deadline ::
  "k_timeout \<Rightarrow> 'a env_scheme \<Rightarrow> int \<times> 'a env_scheme" where
  "xss_mutex_lock_deadline deadline e =
     (case deadline of
        K_FOREVER \<Rightarrow> (0, e)
      | K_TIMED \<Rightarrow>
          (case locks e of
             [] \<Rightarrow> (0, e)
           | (rc, expired) # ls \<Rightarrow>
               (if rc = 0 then 0 else if rc = - EAGAIN \<or> expired then - ETIMEDOUT else rc,
                e\<lparr>locks := ls\<rparr>)))"

section \<open>Changing permissions and removing entries\<close>

definition set_perms_by_array ::
  "entry_ptr \<Rightarrow> xs_perm_entry list \<Rightarrow> 'a xs_store_scheme \<Rightarrow> int \<times> 'a xs_store_scheme" where
  "set_perms_by_array entry new_perms w =
     (let (ok, w1) = k_mallocs (length new_perms) w in
      if \<not> ok then (- ENOMEM, w1)
      else (0, w1\<lparr>root_xenstore := modify_at entry (set_perms new_perms) (root_xenstore w1)\<rparr>))"

text \<open>The entry is dereferenced only once the strings have been decoded: a null entry is
  undefined behaviour from there on.\<close>

definition set_perms_by_strings ::
  "entry_ptr option \<Rightarrow> char list \<Rightarrow> 'a xs_store_scheme \<Rightarrow> (int \<times> 'a xs_store_scheme) option" where
  "set_perms_by_strings entry perm_str w =
     (case deserialize_perms perm_str w of
        (None, w1) \<Rightarrow> Some (- EINVAL, w1)
      | (Some new_perms, w1) \<Rightarrow>
          do { p \<leftarrow> entry; Some (set_perms_by_array p new_perms w1) })"

definition inherit_perms ::
  "entry_ptr \<Rightarrow> entry_ptr option \<Rightarrow> u32 \<Rightarrow> 'a xs_store_scheme \<Rightarrow>
     (int \<times> 'a xs_store_scheme) option" where
  "inherit_perms entry parent owner w =
     (case parent of
        None \<Rightarrow>
          let (ok, w1) = k_malloc w in
          if \<not> ok then Some (- ENOMEM, w1)
          else Some (0, w1\<lparr>root_xenstore :=
                 modify_at entry
                   (\<lambda>e. set_perms (xs_perms e @ [\<lparr>pe_domid = ucast owner, pe_perm = XS_PERM_NONE\<rparr>]) e)
                   (root_xenstore w1)\<rparr>)
      | Some pp \<Rightarrow>
          do { pe \<leftarrow> node_at (root_xenstore w) pp;
               let (ok, w1) = k_mallocs (length (xs_perms pe)) w in
               if \<not> ok
               then Some (- ENOMEM,
                      w1\<lparr>root_xenstore := modify_at entry (set_perms []) (root_xenstore w1)\<rparr>)
               else Some (0, w1\<lparr>root_xenstore :=
                      modify_at entry (\<lambda>e. set_perms (xs_perms e @ xs_perms pe) e)
                        (root_xenstore w1)\<rparr>) })"

text \<open>Freeing the statically allocated root is undefined behaviour.\<close>

definition free_node :: "entry_ptr \<Rightarrow> 'a xs_store_scheme \<Rightarrow> 'a xs_store_scheme option" where
  "free_node entry w =
     (if entry = [] then None
      else Some (w\<lparr>root_xenstore := remove_at entry (root_xenstore w)\<rparr>))"

section \<open>Writing\<close>

text \<open>The part of the loop of \<open>xss_do_write_deadline\<close> that makes the missing entry \<open>tok\<close> below
  \<open>parent\<close>: two allocations, linking, permissions.  An entry whose permissions could not be
  set stays linked.\<close>

definition create_entry ::
  "entry_ptr \<Rightarrow> string \<Rightarrow> u32 \<Rightarrow> xs_perm_entry list \<Rightarrow> 'a xs_store_scheme \<Rightarrow>
     (int \<times> 'a xs_store_scheme) option" where
  "create_entry parent tok d perms w =
     (let (ok1, w1) = k_malloc w in
      if \<not> ok1 then Some (- ENOMEM, w1)
      else
        let (ok2, w2) = k_malloc w1 in
        if \<not> ok2 then Some (- ENOMEM, w2)
        else
          let w3 = w2\<lparr>root_xenstore :=
                modify_at parent (append_child (XsEntry (Some tok) None [] [])) (root_xenstore w2)\<rparr>
          in if perms \<noteq> [] then Some (set_perms_by_array (parent @ [tok]) perms w3)
             else inherit_perms (parent @ [tok]) (Some parent) d w3)"

text \<open>The loop over the tokens: it walks down from \<open>parent\<close> and creates what is missing.
  \<open>ins\<close> is \<open>insert_entry\<close>, the first entry created.\<close>

fun write_walk ::
  "string list \<Rightarrow> entry_ptr \<Rightarrow> entry_ptr option \<Rightarrow> u32 \<Rightarrow> xs_perm_entry list \<Rightarrow>
     'a xs_store_scheme \<Rightarrow> (int \<times> entry_ptr option \<times> 'a xs_store_scheme) option" where
  "write_walk [] parent ins d perms w = Some (0, ins, w)"
| "write_walk (tok # ts) parent ins d perms w =
     (case node_at (root_xenstore w) (parent @ [tok]) of
        Some _ \<Rightarrow> write_walk ts (parent @ [tok]) ins d perms w
      | None \<Rightarrow>
          do { pe \<leftarrow> node_at (root_xenstore w) parent;
               allowed \<leftarrow> check_perms pe XS_PERM_WRITE d;
               if \<not> allowed then Some (- EACCES, ins, w)
               else
                 do { (rc, w1) \<leftarrow> create_entry parent tok d perms w;
                      if rc \<noteq> 0 then Some (rc, ins, w1)
                      else write_walk ts (parent @ [tok])
                             (if ins = None then Some (parent @ [tok]) else ins) d perms w1 } })"

definition free_allocated ::
  "int \<Rightarrow> entry_ptr option \<Rightarrow> 'a xs_store_scheme \<Rightarrow> (int \<times> 'a xs_store_scheme) option" where
  "free_allocated rc ins w =
     (case ins of
        None \<Rightarrow> Some (rc, w)
      | Some p \<Rightarrow> do { w1 \<leftarrow> free_node p w; Some (rc, w1) })"

definition xss_do_write_deadline ::
  "string \<Rightarrow> string option \<Rightarrow> u32 \<Rightarrow> xs_perm_entry list \<Rightarrow> k_timeout \<Rightarrow>
     'a xs_store_scheme \<Rightarrow> (int \<times> 'a xs_store_scheme) option" where
  "xss_do_write_deadline const_path data d perms deadline w =
     (let data_len = xenstore_str_byte_size data;
          (ok, w1) = k_malloc w
      in if \<not> ok then Some (- ENOMEM, w1)
         else
           let (rc, w2) = xss_mutex_lock_deadline deadline w1;
               toks = strtok_all slash const_path
           in if rc \<noteq> 0 then Some (rc, w2)
              else
                do { (rc, ins, w3) \<leftarrow> write_walk toks [] None d perms w2;
                     if rc \<noteq> 0 then free_allocated rc ins w3
                     else if toks = [] \<or> data_len = 0 then Some (0, w3)
                     else
                       do { e \<leftarrow> node_at (root_xenstore w3) toks;
                            allowed \<leftarrow> check_perms e XS_PERM_WRITE d;
                            if \<not> allowed then free_allocated (- EACCES) ins w3
                            else
                              let (ok, w4) = k_malloc w3 in
                              if \<not> ok then free_allocated (- ENOMEM) ins w4
                              else Some (0, w4\<lparr>root_xenstore :=
                                     modify_at toks (set_value data) (root_xenstore w4)\<rparr>) } })"

definition xss_do_write ::
  "string \<Rightarrow> string option \<Rightarrow> u32 \<Rightarrow> xs_perm_entry list \<Rightarrow> k_timeout \<Rightarrow>
     'a xs_store_scheme \<Rightarrow> (int \<times> 'a xs_store_scheme) option" where
  "xss_do_write const_path data d perms tout w = xss_do_write_deadline const_path data d perms tout w"

section \<open>Reading, listing, and dropping a domain\<close>

text \<open>\<open>xss_read\<close>: the buffer is filled by \<open>strncpy(value, entry->value, len)\<close>, which pads with
  terminators and writes none when the value has \<open>len\<close> or more characters.  The result is
  the return code and what the buffer then holds; an entry without a value gives the empty
  string.\<close>

definition strncpy :: "string \<Rightarrow> nat \<Rightarrow> char list" where
  "strncpy s n = take n s @ replicate (n - length s) NUL"

definition xss_read ::
  "string option \<Rightarrow> nat \<Rightarrow> 'a xs_store_scheme \<Rightarrow>
     ((int \<times> char list option) \<times> 'a xs_store_scheme) option" where
  "xss_read path len w =
     do { (entry, w1) \<leftarrow> key_to_entry_check_perm path 0 XS_PERM_READ w;
          case entry of
            None \<Rightarrow> Some ((- ENOENT, None), w1)
          | Some p \<Rightarrow>
              do { e \<leftarrow> node_at (root_xenstore w1) p;
                   value \<leftarrow> (case xs_value e of Some v \<Rightarrow> Some (strncpy v len) | None \<Rightarrow> if len = 0 then None else Some [NUL]);
                   Some ((0, Some value), w1) } }"

text \<open>The calls of the callback, in order, as (key, value, depth).\<close>

function xss_list_traverse_entry ::
  "nat \<Rightarrow> xs_entry \<Rightarrow> nat \<Rightarrow> (string option \<times> string option \<times> nat) list" where
  "xss_list_traverse_entry max_depth entry depth =
     (xs_key entry, xs_value entry, depth) #
     (if max_depth \<le> depth + 1 then []
      else concat (map (\<lambda>c. xss_list_traverse_entry max_depth c (depth + 1)) (child_list entry)))"
  by pat_completeness auto
termination
  by (relation "measure (\<lambda>(m, _, d). m - d)") auto

declare xss_list_traverse_entry.simps [simp del]

definition xss_list_traverse ::
  "nat \<Rightarrow> string option \<Rightarrow> bool \<Rightarrow> 'a xs_store_scheme \<Rightarrow>
     (int \<times> (string option \<times> string option \<times> nat) list \<times> 'a xs_store_scheme) option" where
  "xss_list_traverse max_depth path cb w =
     (if \<not> cb then Some (- EINVAL, [], w)
      else
        let (entry, w1) = key_to_entry path w in
        case entry of
          None \<Rightarrow> Some (- ENOENT, [], w1)
        | Some p \<Rightarrow>
            do { e \<leftarrow> node_at (root_xenstore w1) p;
                 Some (0, (xs_key e, xs_value e, 0) #
                   concat (map (\<lambda>c. xss_list_traverse_entry max_depth c 1) (child_list e)), w1) })"

definition xss_set_perm ::
  "string option \<Rightarrow> domid_t \<Rightarrow> xs_perm \<Rightarrow> 'a xs_store_scheme \<Rightarrow>
     (int \<times> 'a xs_store_scheme) option" where
  "xss_set_perm path d perm w =
     do { (entry, w1) \<leftarrow> key_to_entry_check_perm path 0 XS_PERM_NONE w;
          case entry of
            None \<Rightarrow> Some (- ENOENT, w1)
          | Some p \<Rightarrow> Some (set_perms_by_array p [\<lparr>pe_domid = d, pe_perm = perm\<rparr>] w1) }"

text \<open>\<open>remove_ref_entries_recursive\<close>: \<open>None\<close> when an entry without permissions is met, whose
  missing head the code dereferences.\<close>

fun remove_ref_entries_recursive :: "u32 \<Rightarrow> xs_entry list \<Rightarrow> xs_entry list option" where
  "remove_ref_entries_recursive d [] = Some []"
| "remove_ref_entries_recursive d (XsEntry k v ps cs # es) =
     (case ps of
        [] \<Rightarrow> None
      | p # _ \<Rightarrow>
          if ucast (pe_domid p) = d then remove_ref_entries_recursive d es
          else
            do { cs' \<leftarrow> remove_ref_entries_recursive d cs;
                 es' \<leftarrow> remove_ref_entries_recursive d es;
                 Some (XsEntry k v (filter (\<lambda>q. ucast (pe_domid q) \<noteq> d) ps) cs' # es') })"

definition remove_ref_entries :: "u32 \<Rightarrow> 'a xs_store_scheme \<Rightarrow> 'a xs_store_scheme option" where
  "remove_ref_entries d w =
     do { cs \<leftarrow> remove_ref_entries_recursive d (child_list (root_xenstore w));
          Some (w\<lparr>root_xenstore := set_children cs (root_xenstore w)\<rparr>) }"

definition xs_init_root :: "'a xs_store_scheme \<Rightarrow> int \<times> 'a xs_store_scheme" where
  "xs_init_root w =
     set_perms_by_array [] [\<lparr>pe_domid = 0, pe_perm = XS_PERM_NONE\<rparr>]
       (w\<lparr>root_xenstore := set_children [] (root_xenstore w)\<rparr>)"

end
