(* ===== verification/Xs_Store.thy ===== *)
theory Xs_Store
  imports Xs_Tree
begin

text \<open>
  What the operations of \<open>Xs_Tree\<close> guarantee.  \<open>abs_tree\<close> is the abstract store: a partial
  map from paths to value and permissions.  The first part proves what following a pointer
  yields after each structural update; the second that each operation refines its
  specification on the abstract store and keeps the tree well formed.
\<close>

section \<open>The abstract store\<close>

definition node_info :: "xs_entry \<Rightarrow> string option \<times> xs_perm_entry list" where
  "node_info e = (xs_value e, xs_perms e)"

definition abs_tree :: "xs_entry \<Rightarrow> entry_ptr \<Rightarrow> (string option \<times> xs_perm_entry list) option" where
  "abs_tree r p = map_option node_info (node_at r p)"

lemma abs_tree_Nil [simp]: "abs_tree e [] = Some (xs_value e, xs_perms e)"
  by (simp add: abs_tree_def node_info_def)

lemma abs_tree_Cons: "abs_tree e (t # ts) =
    (case find_child t (child_list e) of None \<Rightarrow> None | Some c \<Rightarrow> abs_tree c ts)"
  by (simp add: abs_tree_def split: option.splits)

lemma abs_tree_None: "abs_tree r p = None \<longleftrightarrow> node_at r p = None"
  by (simp add: abs_tree_def)

lemma entry_updates [simp]:
  "xs_key (set_children cs e) = xs_key e" "xs_value (set_children cs e) = xs_value e"
  "xs_perms (set_children cs e) = xs_perms e" "child_list (set_children cs e) = cs"
  "xs_key (set_perms ps e) = xs_key e" "xs_value (set_perms ps e) = xs_value e"
  "xs_perms (set_perms ps e) = ps" "child_list (set_perms ps e) = child_list e"
  "xs_key (set_value v e) = xs_key e" "xs_value (set_value v e) = v"
  "xs_perms (set_value v e) = xs_perms e" "child_list (set_value v e) = child_list e"
  "xs_key (append_child c e) = xs_key e" "xs_value (append_child c e) = xs_value e"
  "xs_perms (append_child c e) = xs_perms e" "child_list (append_child c e) = child_list e @ [c]"
  by (simp_all add: set_children_def set_perms_def set_value_def append_child_def)

lemma set_children_same [simp]: "set_children (child_list e) e = e"
  by (cases e) (simp add: set_children_def)

lemma set_children_twice [simp]: "set_children cs (set_children ds e) = set_children cs e"
  by (simp add: set_children_def)

section \<open>Children\<close>

lemma find_child_simps [simp]:
  "find_child t [] = None"
  "find_child t (c # cs) = (if xs_key c = Some t then Some c else find_child t cs)"
  by (simp_all add: find_child_def)

lemma find_child_append:
  "find_child t (cs @ ds) =
     (case find_child t cs of Some c \<Rightarrow> Some c | None \<Rightarrow> find_child t ds)"
  by (induction cs) auto

lemma find_child_Some: "find_child t cs = Some c \<Longrightarrow> c \<in> set cs \<and> xs_key c = Some t"
  by (induction cs) (auto split: if_splits)

lemma find_child_None: "find_child t cs = None \<longleftrightarrow> Some t \<notin> xs_key ` set cs"
  by (induction cs) auto

lemma find_child_update:
  assumes "\<And>c. find_child t cs = Some c \<Longrightarrow> xs_key (f c) = Some t"
  shows "find_child u (update_child t f cs) =
     (if u = t then map_option f (find_child t cs) else find_child u cs)"
  using assms by (induction cs) auto

lemma find_child_remove_other: "u \<noteq> t \<Longrightarrow> find_child u (remove_child t cs) = find_child u cs"
  by (induction cs) auto

lemma update_child_id: "find_child t cs = None \<Longrightarrow> update_child t f cs = cs"
  by (induction cs) (auto split: if_splits)

lemma update_child_cong:
  "find_child t cs = Some c \<Longrightarrow> f c = g c \<Longrightarrow> update_child t f cs = update_child t g cs"
  by (induction cs) (auto split: if_splits)

lemma update_child_fix: "find_child t cs = Some c \<Longrightarrow> f c = c \<Longrightarrow> update_child t f cs = cs"
  by (induction cs) (auto split: if_splits)

lemma update_child_append:
  "update_child t f (cs @ ds) =
     (if find_child t cs = None then cs @ update_child t f ds else update_child t f cs @ ds)"
  by (induction cs) auto

lemma remove_child_append:
  "find_child t cs = None \<Longrightarrow> remove_child t (cs @ ds) = cs @ remove_child t ds"
  by (induction cs) (auto split: if_splits)

lemma update_child_twice:
  assumes "\<And>c. xs_key (g c) = xs_key c"
  shows "update_child t f (update_child t g cs) = update_child t (\<lambda>c. f (g c)) cs"
  using assms by (induction cs) auto

lemma keys_update_child:
  assumes "\<And>c. xs_key (f c) = xs_key c"
  shows "map xs_key (update_child t f cs) = map xs_key cs"
  using assms by (induction cs) auto

lemma keys_remove_child:
  "distinct (map xs_key cs) \<Longrightarrow> map xs_key (remove_child t cs) = filter (\<lambda>k. k \<noteq> Some t) (map xs_key cs)"
proof (induction cs)
  case (Cons c cs)
  then have "xs_key c \<notin> set (map xs_key cs)" by simp
  then have "filter (\<lambda>k. k \<noteq> xs_key c) (map xs_key cs) = map xs_key cs"
    by (intro filter_True) metis
  with Cons show ?case by (cases "xs_key c = Some t") simp_all
qed simp

lemma set_remove_child: "set (remove_child t cs) \<subseteq> set cs"
  by (induction cs) auto

lemma set_update_child: "c \<in> set (update_child t f cs) \<Longrightarrow>
    c \<in> set cs \<or> (\<exists>d. find_child t cs = Some d \<and> c = f d)"
  by (induction cs) (auto split: if_splits)

section \<open>Pointers after an update\<close>

lemma modify_at_key [simp]: "(\<And>e. xs_key (f e) = xs_key e) \<Longrightarrow> xs_key (modify_at p f e) = xs_key e"
  by (cases p) auto

lemma remove_at_key [simp]: "xs_key (remove_at p e) = xs_key e"
  by (induction p e rule: remove_at.induct) auto

lemma node_at_append: "node_at r (p @ q) = (case node_at r p of None \<Rightarrow> None | Some e \<Rightarrow> node_at e q)"
  by (induction p arbitrary: r) (auto split: option.splits)

lemma abs_tree_append: "abs_tree r (p @ q) = (case node_at r p of None \<Rightarrow> None | Some e \<Rightarrow> abs_tree e q)"
  by (simp add: abs_tree_def node_at_append split: option.splits)

lemma modify_at_None: "node_at r p = None \<Longrightarrow> modify_at p f r = r"
proof (induction p arbitrary: r)
  case (Cons t ts)
  show ?case
  proof (cases "find_child t (child_list r)")
    case None
    then show ?thesis by (simp add: update_child_id)
  next
    case (Some c)
    with Cons have "modify_at ts f c = c" by simp
    with Some show ?thesis by (simp add: update_child_fix)
  qed
qed simp

text \<open>The effect of writing through a pointer on the abstract store: paths through the pointer
  see the new entry, all others are as before.\<close>

lemma abs_tree_modify_at:
  assumes "node_at r p = Some e" "\<And>e. xs_key (f e) = xs_key e"
  shows "abs_tree (modify_at p f r) q =
     (if prefix p q then abs_tree (f e) (drop (length p) q) else abs_tree r q)"
  using assms(1)
proof (induction p arbitrary: r q)
  case Nil
  then show ?case by simp
next
  case (Cons t ts)
  then obtain c where c: "find_child t (child_list r) = Some c" "node_at c ts = Some e"
    by (auto split: option.splits)
  have fc: "\<And>u. find_child u (update_child t (modify_at ts f) (child_list r)) =
      (if u = t then Some (modify_at ts f c) else find_child u (child_list r))"
    using c(1) find_child_Some [OF c(1)] assms(2) by (subst find_child_update) auto
  show ?case
  proof (cases q)
    case Nil
    then show ?thesis by simp
  next
    case (Cons u us)
    then show ?thesis using c(1) Cons.IH [OF c(2), of us] by (simp add: abs_tree_Cons fc)
  qed
qed

lemma node_at_modify_at:
  assumes "node_at r p = Some e" "\<And>e. xs_key (f e) = xs_key e"
  shows "node_at (modify_at p f r) p = Some (f e)"
  using assms(1)
proof (induction p arbitrary: r)
  case (Cons t ts)
  then obtain c where c: "find_child t (child_list r) = Some c" "node_at c ts = Some e"
    by (auto split: option.splits)
  have "find_child t (update_child t (modify_at ts f) (child_list r)) = Some (modify_at ts f c)"
    using c(1) find_child_Some [OF c(1)] assms(2) by (subst find_child_update) auto
  with Cons.IH [OF c(2)] show ?case by simp
qed simp

lemma modify_at_append:
  "modify_at (p @ q) f = modify_at p (modify_at q f)"
proof (induction p)
  case (Cons t ts)
  show ?case by (rule ext) (simp add: Cons)
qed (rule ext, simp)

lemma modify_at_twice:
  assumes "\<And>e. xs_key (g e) = xs_key e"
  shows "modify_at p f (modify_at p g r) = modify_at p (\<lambda>e. f (g e)) r"
proof (induction p arbitrary: r)
  case (Cons t ts)
  have "(\<lambda>c. modify_at ts f (modify_at ts g c)) = modify_at ts (\<lambda>e. f (g e))"
    by (rule ext) (rule Cons)
  then show ?case using assms by (simp add: update_child_twice)
qed simp

lemma modify_at_cong:
  assumes "node_at r p = Some e" "f e = g e"
  shows "modify_at p f r = modify_at p g r"
  using assms(1)
proof (induction p arbitrary: r)
  case Nil
  then show ?case using assms(2) by simp
next
  case (Cons t ts)
  then obtain c where c: "find_child t (child_list r) = Some c" "node_at c ts = Some e"
    by (auto split: option.splits)
  have "update_child t (modify_at ts f) (child_list r) = update_child t (modify_at ts g) (child_list r)"
    by (rule update_child_cong [OF c(1)]) (rule Cons.IH [OF c(2)])
  then show ?case by simp
qed

text \<open>Appending a child below a new key, seen from every path, and undoing it.\<close>

lemma abs_tree_append_child:
  assumes "find_child t (child_list e) = None" "xs_key c = Some t"
  shows "abs_tree (append_child c e) q =
     (case q of [] \<Rightarrow> abs_tree e [] | u # us \<Rightarrow> if u = t then abs_tree c us else abs_tree e q)"
  using assms by (auto simp: abs_tree_Cons find_child_append split: list.splits option.splits)

lemma abs_tree_add:
  assumes "node_at r p = Some e" "find_child t (child_list e) = None" "xs_key c = Some t"
  shows "abs_tree (modify_at p (append_child c) r) q =
     (if prefix (p @ [t]) q then abs_tree c (drop (length p + 1) q) else abs_tree r q)"
proof -
  have m: "abs_tree (modify_at p (append_child c) r) q =
     (if prefix p q then abs_tree (append_child c e) (drop (length p) q) else abs_tree r q)"
    by (rule abs_tree_modify_at [OF assms(1)]) simp
  show ?thesis
  proof (cases "prefix p q")
    case True
    then obtain s where q: "q = p @ s" by (auto simp: prefix_def)
    have "abs_tree r q = abs_tree e s" using assms(1) q by (simp add: abs_tree_append)
    then show ?thesis
      using m q abs_tree_append_child [OF assms(2,3), of s] by (cases s) auto
  next
    case False
    then show ?thesis using m by (auto dest: append_prefixD)
  qed
qed

lemma remove_at_snoc:
  "remove_at (p @ [t]) = modify_at p (\<lambda>e. set_children (remove_child t (child_list e)) e)"
proof (induction p)
  case (Cons u us)
  obtain v vs where v: "us @ [t] = v # vs" by (cases "us @ [t]") auto
  show ?case by (rule ext) (simp add: v flip: Cons)
qed (rule ext, simp)

lemma modify_at_id: "modify_at p (\<lambda>e. e) = (\<lambda>r. r)"
proof (induction p)
  case (Cons t ts)
  have "update_child t (\<lambda>c. c) cs = cs" for cs by (induction cs) auto
  then show ?case by (intro ext) (simp add: Cons)
qed (rule ext, simp)

lemma remove_added:
  assumes "node_at r p = Some e" "find_child t (child_list e) = None" "xs_key c = Some t"
  shows "remove_at (p @ [t]) (modify_at p (append_child c) r) = r"
proof -
  have "remove_at (p @ [t]) (modify_at p (append_child c) r) =
      modify_at p (\<lambda>e. set_children (remove_child t (child_list (append_child c e))) (append_child c e)) r"
    by (simp add: remove_at_snoc modify_at_twice)
  also have "\<dots> = modify_at p (\<lambda>e. e) r"
    using assms by (intro modify_at_cong [OF assms(1)])
      (simp add: remove_child_append append_child_def)
  finally show ?thesis by (simp add: modify_at_id)
qed

section \<open>Well-formed trees\<close>

text \<open>Every entry has an owner; siblings have distinct keys, each a legal path component.\<close>

fun wf_tree :: "xs_entry \<Rightarrow> bool" where
  "wf_tree (XsEntry k v ps cs) \<longleftrightarrow>
     ps \<noteq> [] \<and> distinct (map xs_key cs) \<and>
     list_all (\<lambda>c. (case xs_key c of None \<Rightarrow> False | Some t \<Rightarrow> token_ok t) \<and> wf_tree c) cs"

definition child_ok :: "xs_entry \<Rightarrow> bool" where
  "child_ok c \<longleftrightarrow> (case xs_key c of None \<Rightarrow> False | Some t \<Rightarrow> token_ok t) \<and> wf_tree c"

lemma wf_tree_iff: "wf_tree e \<longleftrightarrow>
    xs_perms e \<noteq> [] \<and> distinct (map xs_key (child_list e)) \<and> (\<forall>c \<in> set (child_list e). child_ok c)"
  by (cases e) (simp add: list_all_iff child_ok_def)

lemma wf_tree_child: "wf_tree e \<Longrightarrow> find_child t (child_list e) = Some c \<Longrightarrow> wf_tree c \<and> child_ok c"
  using find_child_Some [of t "child_list e" c] by (auto simp: wf_tree_iff [of e] child_ok_def)

lemma wf_tree_node_at: "wf_tree r \<Longrightarrow> node_at r p = Some e \<Longrightarrow> wf_tree e"
  by (induction p arbitrary: r) (auto split: option.splits dest: wf_tree_child)

lemma wf_tree_perms: "wf_tree r \<Longrightarrow> node_at r p = Some e \<Longrightarrow> xs_perms e \<noteq> []"
  using wf_tree_node_at wf_tree_iff by blast

lemma wf_tree_modify_at:
  assumes "wf_tree r" "\<And>e. xs_key (f e) = xs_key e"
    "\<And>e. node_at r p = Some e \<Longrightarrow> wf_tree e \<Longrightarrow> wf_tree (f e)"
  shows "wf_tree (modify_at p f r)"
  using assms(1,3)
proof (induction p arbitrary: r)
  case (Cons t ts)
  let ?cs = "update_child t (modify_at ts f) (child_list r)"
  have keys: "map xs_key ?cs = map xs_key (child_list r)"
    using assms(2) by (intro keys_update_child) simp
  have "child_ok c" if "c \<in> set ?cs" for c
    using set_update_child [OF that]
  proof
    assume "c \<in> set (child_list r)"
    then show ?thesis using Cons.prems(1) wf_tree_iff by blast
  next
    assume "\<exists>d. find_child t (child_list r) = Some d \<and> c = modify_at ts f d"
    then obtain d where d: "find_child t (child_list r) = Some d" "c = modify_at ts f d" by blast
    have "wf_tree d" "child_ok d" using wf_tree_child [OF Cons.prems(1) d(1)] by auto
    moreover have "wf_tree (modify_at ts f d)"
      using Cons.IH [OF \<open>wf_tree d\<close>] Cons.prems(2) d(1) by simp
    ultimately show ?thesis using assms(2) d(2) by (simp add: child_ok_def)
  qed
  with keys Cons.prems(1) show ?case by (simp add: wf_tree_iff)
qed simp

lemma wf_tree_remove_at:
  assumes "wf_tree r"
  shows "wf_tree (remove_at p r)"
proof (cases p rule: rev_cases)
  case (snoc q t)
  have "wf_tree (set_children (remove_child t (child_list e)) e)" if "wf_tree e" for e
    using that keys_remove_child [of "child_list e" t] set_remove_child [of t "child_list e"]
    by (auto simp: wf_tree_iff)
  then show ?thesis
    using assms by (simp add: snoc remove_at_snoc wf_tree_modify_at)
qed (simp add: assms)

lemma wf_tree_append_child:
  assumes "wf_tree e" "find_child t (child_list e) = None" "xs_key c = Some t" "child_ok c"
  shows "wf_tree (append_child c e)"
  using assms by (auto simp: wf_tree_iff find_child_None)

text \<open>Removing an entry removes exactly the paths through it.\<close>

lemma find_child_removed: "distinct (map xs_key cs) \<Longrightarrow> find_child t (remove_child t cs) = None"
  by (simp add: find_child_None keys_remove_child flip: set_map)

lemma abs_tree_remove_at:
  assumes "wf_tree r" "p \<noteq> []"
  shows "abs_tree (remove_at p r) q = (if prefix p q then None else abs_tree r q)"
proof -
  obtain p' t where p: "p = p' @ [t]" using assms(2) by (cases p rule: rev_cases) auto
  let ?f = "\<lambda>e. set_children (remove_child t (child_list e)) e"
  show ?thesis
  proof (cases "node_at r p'")
    case None
    have "abs_tree r q = None" if "prefix p q"
    proof -
      from that obtain s where "q = p' @ (t # s)" by (auto simp: prefix_def p)
      with None show ?thesis by (simp add: abs_tree_append)
    qed
    then show ?thesis using None by (simp add: p remove_at_snoc modify_at_None)
  next
    case (Some e)
    have d: "distinct (map xs_key (child_list e))"
      using wf_tree_node_at [OF assms(1) Some] wf_tree_iff by blast
    have m: "abs_tree (remove_at p r) q =
        (if prefix p' q then abs_tree (?f e) (drop (length p') q) else abs_tree r q)"
      unfolding p remove_at_snoc by (rule abs_tree_modify_at [OF Some]) simp
    show ?thesis
    proof (cases "prefix p' q")
      case True
      then obtain s where q: "q = p' @ s" by (auto simp: prefix_def)
      have "abs_tree r q = abs_tree e s" using Some q by (simp add: abs_tree_append)
      then show ?thesis
        using m q d by (cases s) (auto simp: p abs_tree_Cons find_child_removed find_child_remove_other)
    next
      case False
      then show ?thesis using m by (auto simp: p dest: append_prefixD)
    qed
  qed
qed

end
