(* ===== verification/Xs_Write.thy ===== *)
theory Xs_Write
  imports Xs_Store
begin

text \<open>
  What \<open>xss_do_write_deadline\<close> guarantees: on a well-formed tree it has no undefined
  behaviour, a success refines the write of the abstract store, a failure leaves the tree as
  it was (with one exception, which is characterised), and only a domain with the write
  permission can change anything.
\<close>

section \<open>One step of the walk\<close>

lemma k_malloc_root: "k_malloc w = (ok, w1) \<Longrightarrow> root_xenstore w1 = root_xenstore w"
  using k_malloc_frame [of w ok w1] by auto

lemma k_mallocs_root: "k_mallocs n w = (ok, w1) \<Longrightarrow> root_xenstore w1 = root_xenstore w"
  using k_mallocs_frame [of n w ok w1] by auto

lemma lock_root: "xss_mutex_lock_deadline tout w = (rc, w1) \<Longrightarrow> root_xenstore w1 = root_xenstore w"
  by (auto simp: xss_mutex_lock_deadline_def split: k_timeout.splits list.splits if_splits)

lemma set_perms_by_array_root:
  "set_perms_by_array p ps w = (rc, w1) \<Longrightarrow>
     (rc = 0 \<and> root_xenstore w1 = modify_at p (set_perms ps) (root_xenstore w)) \<or>
     (rc = - ENOMEM \<and> root_xenstore w1 = root_xenstore w)"
  by (auto simp: set_perms_by_array_def Let_def split: prod.splits if_splits dest: k_mallocs_root)

definition new_entry :: "string \<Rightarrow> xs_perm_entry list \<Rightarrow> xs_entry" where
  "new_entry t ps = XsEntry (Some t) None ps []"

lemma new_entry_sel [simp]:
  "xs_key (new_entry t ps) = Some t" "xs_value (new_entry t ps) = None"
  "xs_perms (new_entry t ps) = ps" "child_list (new_entry t ps) = []"
  by (simp_all add: new_entry_def)

lemma set_perms_new [simp]: "set_perms qs (new_entry t ps) = new_entry t qs"
  by (simp add: set_perms_def new_entry_def)

lemma node_at_snoc:
  "node_at r (p @ [t]) = (case node_at r p of None \<Rightarrow> None | Some e \<Rightarrow> find_child t (child_list e))"
  by (simp add: node_at_append split: option.splits)

lemma node_at_added:
  assumes "node_at r p = Some e" "find_child t (child_list e) = None" "xs_key c = Some t"
  shows "node_at (modify_at p (append_child c) r) (p @ [t]) = Some c"
  using assms node_at_modify_at [of r p e "append_child c"]
  by (simp add: node_at_snoc find_child_append)

lemma modify_added:
  assumes "node_at r p = Some e" "find_child t (child_list e) = None" "xs_key c = Some t"
  shows "modify_at (p @ [t]) f (modify_at p (append_child c) r) = modify_at p (append_child (f c)) r"
proof -
  have "modify_at (p @ [t]) f (modify_at p (append_child c) r) =
      modify_at p (\<lambda>e. modify_at [t] f (append_child c e)) r"
    by (simp add: modify_at_append modify_at_twice)
  also have "\<dots> = modify_at p (append_child (f c)) r"
    using assms by (intro modify_at_cong [OF assms(1)])
      (simp add: update_child_append append_child_def)
  finally show ?thesis .
qed

definition entry_perms :: "xs_perm_entry list \<Rightarrow> xs_entry \<Rightarrow> xs_perm_entry list" where
  "entry_perms perms pe = (if perms \<noteq> [] then perms else xs_perms pe)"

lemma perms_of_new_entry:
  assumes "node_at r parent = Some pe" "find_child t (child_list pe) = None"
    "root_xenstore w = modify_at parent (append_child (new_entry t [])) r"
    "(if perms \<noteq> [] then Some (set_perms_by_array (parent @ [t]) perms w)
      else inherit_perms (parent @ [t]) (Some parent) d w) = Some (rc, w1)"
  shows "rc = 0 \<and> root_xenstore w1 = modify_at parent (append_child (new_entry t (entry_perms perms pe))) r
       \<or> rc = - ENOMEM \<and> root_xenstore w1 = modify_at parent (append_child (new_entry t [])) r"
proof (cases "perms = []")
  case False
  then show ?thesis
    using assms set_perms_by_array_root [of "parent @ [t]" perms w rc w1]
    by (auto simp: entry_perms_def modify_added)
next
  case True
  have "node_at (root_xenstore w) parent = Some (append_child (new_entry t []) pe)"
    using assms(1,3) by (simp add: node_at_modify_at)
  with True assms(4) have "inherit_perms (parent @ [t]) (Some parent) d w = Some (rc, w1)"
    "node_at (root_xenstore w) parent = Some (append_child (new_entry t []) pe)" by auto
  moreover obtain ok w2 where m: "k_mallocs (length (xs_perms pe)) w = (ok, w2)" by fastforce
  moreover have "root_xenstore w2 = modify_at parent (append_child (new_entry t [])) r"
    using k_mallocs_root [OF m] assms(3) by simp
  ultimately show ?thesis
    using assms(1,2) True
    by (auto simp: inherit_perms_def entry_perms_def modify_added split: if_splits)
qed

lemma inherit_perms_total:
  "node_at (root_xenstore w) pp = Some pe \<Longrightarrow> \<exists>rc w1. inherit_perms p (Some pp) d w = Some (rc, w1)"
  by (simp add: inherit_perms_def Let_def split: prod.splits)

text \<open>Creating one entry: it succeeds, or runs out of memory before or after linking the entry.\<close>

lemma create_entry_cases:
  assumes "node_at (root_xenstore w) parent = Some pe" "node_at (root_xenstore w) (parent @ [t]) = None"
  obtains w1 where "create_entry parent t d perms w = Some (0, w1)"
      "root_xenstore w1 =
         modify_at parent (append_child (new_entry t (entry_perms perms pe))) (root_xenstore w)"
  | w1 where "create_entry parent t d perms w = Some (- ENOMEM, w1)"
      "root_xenstore w1 = root_xenstore w"
  | w1 where "create_entry parent t d perms w = Some (- ENOMEM, w1)"
      "root_xenstore w1 = modify_at parent (append_child (new_entry t [])) (root_xenstore w)"
proof -
  have fc: "find_child t (child_list pe) = None" using assms by (simp add: node_at_snoc)
  obtain a1 w1 where m1: "k_malloc w = (a1, w1)" by fastforce
  obtain a2 w2 where m2: "k_malloc w1 = (a2, w2)" by fastforce
  have r: "root_xenstore w1 = root_xenstore w" "root_xenstore w2 = root_xenstore w"
    using k_malloc_root [OF m1] k_malloc_root [OF m2] by auto
  define w3 where
    "w3 = w2\<lparr>root_xenstore := modify_at parent (append_child (new_entry t [])) (root_xenstore w2)\<rparr>"
  define P where "P = (if perms \<noteq> [] then Some (set_perms_by_array (parent @ [t]) perms w3)
      else inherit_perms (parent @ [t]) (Some parent) d w3)"
  have c: "create_entry parent t d perms w =
      (if \<not> a1 then Some (- ENOMEM, w1) else if \<not> a2 then Some (- ENOMEM, w2) else P)"
    by (simp add: create_entry_def m1 m2 P_def w3_def new_entry_def Let_def)
  have "node_at (root_xenstore w3) parent = Some (append_child (new_entry t []) pe)"
    using assms(1) r by (simp add: w3_def node_at_modify_at)
  then obtain rc w4 where p: "P = Some (rc, w4)"
    using inherit_perms_total [of w3 parent _ "parent @ [t]" d]
    by (cases "perms = []"; cases "set_perms_by_array (parent @ [t]) perms w3") (auto simp: P_def)
  have "rc = 0 \<and> root_xenstore w4 =
          modify_at parent (append_child (new_entry t (entry_perms perms pe))) (root_xenstore w)
      \<or> rc = - ENOMEM \<and> root_xenstore w4 = modify_at parent (append_child (new_entry t [])) (root_xenstore w)"
    by (rule perms_of_new_entry [OF assms(1) fc _ p [unfolded P_def]]) (simp add: w3_def r)
  with that c p r show thesis by (cases a1; cases a2) auto
qed

lemma write_walk_step:
  assumes "node_at (root_xenstore w) parent = Some pe" "node_at (root_xenstore w) (parent @ [t]) = None"
    "write_walk (t # ts) parent ins d perms w = Some (rc, ins', w')"
  shows "(rc = - EACCES \<and> check_perms pe XS_PERM_WRITE d = Some False \<or> rc = - ENOMEM) \<and>
           ins' = ins \<and> root_xenstore w' = root_xenstore w
       \<or> rc = - ENOMEM \<and> ins' = ins \<and>
           root_xenstore w' = modify_at parent (append_child (new_entry t [])) (root_xenstore w)
       \<or> check_perms pe XS_PERM_WRITE d = Some True \<and>
           (\<exists>w1. root_xenstore w1 =
                modify_at parent (append_child (new_entry t (entry_perms perms pe))) (root_xenstore w) \<and>
              write_walk ts (parent @ [t]) (if ins = None then Some (parent @ [t]) else ins) d perms w1 =
                Some (rc, ins', w'))"
proof -
  obtain ok where c: "check_perms pe XS_PERM_WRITE d = Some ok"
    using assms by (cases "check_perms pe XS_PERM_WRITE d") auto
  show ?thesis
  proof (cases ok)
    case False
    then show ?thesis using assms c by simp
  next
    case True
    have walk: "create_entry parent t d perms w \<bind>
        (\<lambda>(rc, w1). if rc \<noteq> 0 then Some (rc, ins, w1)
           else write_walk ts (parent @ [t]) (if ins = None then Some (parent @ [t]) else ins) d perms w1)
        = Some (rc, ins', w')"
      by (subst assms(3) [symmetric]) (simp add: assms(1,2) c True)
    show ?thesis
    proof (rule create_entry_cases [OF assms(1,2), of d perms])
      fix w1 assume "create_entry parent t d perms w = Some (0, w1)"
        "root_xenstore w1 =
          modify_at parent (append_child (new_entry t (entry_perms perms pe))) (root_xenstore w)"
      with walk c True show ?thesis by (intro disjI2 conjI exI [of _ w1]) simp_all
    qed (use walk in simp_all)
  qed
qed

lemma write_walk_skip:
  "node_at (root_xenstore w) (parent @ [t]) = Some e \<Longrightarrow>
   write_walk (t # ts) parent ins d perms w = write_walk ts (parent @ [t]) ins d perms w"
  by simp

section \<open>No undefined behaviour\<close>

lemma check_perms_total: "xs_perms e \<noteq> [] \<Longrightarrow> \<exists>ok. check_perms e perms d = Some ok"
  by (auto simp: check_perms_def split: option.splits list.splits)

lemma child_ok_new: "token_ok t \<Longrightarrow> ps \<noteq> [] \<Longrightarrow> child_ok (new_entry t ps)"
  by (simp add: child_ok_def wf_tree_iff [of "new_entry t ps"])

lemma entry_perms_nonempty: "xs_perms pe \<noteq> [] \<Longrightarrow> entry_perms perms pe \<noteq> []"
  by (simp add: entry_perms_def)

lemma wf_tree_added:
  assumes "wf_tree r" "node_at r p = Some e" "find_child t (child_list e) = None" "token_ok t" "ps \<noteq> []"
  shows "wf_tree (modify_at p (append_child (new_entry t ps)) r)"
  using assms(1)
proof (rule wf_tree_modify_at)
  fix e' assume "node_at r p = Some e'" "wf_tree e'"
  with assms show "wf_tree (append_child (new_entry t ps) e')"
    by (intro wf_tree_append_child [of _ t]) (auto intro: child_ok_new)
qed simp

lemma write_walk_total:
  fixes w :: "'a xs_store_scheme"
  assumes "wf_tree (root_xenstore w)" "node_at (root_xenstore w) parent = Some pe" "list_all token_ok ts"
  shows "\<exists>x. write_walk ts parent ins d perms w = Some x"
  using assms
proof (induction ts arbitrary: parent pe ins w)
  case (Cons t ts)
  show ?case
  proof (cases "node_at (root_xenstore w) (parent @ [t])")
    case (Some e)
    with Cons show ?thesis by simp
  next
    case None
    with Cons.prems have fc: "find_child t (child_list pe) = None" by (simp add: node_at_snoc)
    obtain ok where c: "check_perms pe XS_PERM_WRITE d = Some ok"
      using wf_tree_perms [OF Cons.prems(1,2)] check_perms_total by blast
    have next_ok: "\<exists>x. write_walk ts (parent @ [t]) ins' d perms w1 = Some x"
      if "root_xenstore w1 =
        modify_at parent (append_child (new_entry t (entry_perms perms pe))) (root_xenstore w)" 
      for ins' and w1 :: "'a xs_store_scheme"
    proof (rule Cons.IH)
      show "wf_tree (root_xenstore w1)" using that Cons.prems wf_tree_perms [OF Cons.prems(1,2)] fc
        by (simp add: wf_tree_added entry_perms_nonempty)
      show "node_at (root_xenstore w1) (parent @ [t]) = Some (new_entry t (entry_perms perms pe))"
        using that node_at_added [OF Cons.prems(2) fc] by simp
    qed (use Cons.prems in simp)
    show ?thesis
      by (rule create_entry_cases [OF Cons.prems(2) None, of d perms])
        (use None Cons.prems(2) c next_ok in auto)
  qed
qed simp

section \<open>Undoing a write\<close>

lemma remove_child_update:
  "(\<And>c. xs_key (h c) = xs_key c) \<Longrightarrow> remove_child t (update_child t h cs) = remove_child t cs"
  by (induction cs) auto

lemma remove_at_modify_below:
  assumes "p \<noteq> []" "prefix p q" "\<And>e. xs_key (f e) = xs_key e"
  shows "remove_at p (modify_at q f r) = remove_at p r"
proof -
  obtain p' t where p: "p = p' @ [t]" using assms(1) by (cases p rule: rev_cases) auto
  obtain s where q: "q = p' @ (t # s)" using assms(2) by (auto simp: p prefix_def)
  have k: "xs_key (modify_at s f e) = xs_key e" for e using assms(3) by simp
  show ?thesis
    by (simp add: p q remove_at_snoc modify_at_append modify_at_twice remove_child_update k)
qed

text \<open>Once an entry has been created, everything the walk does is below it.\<close>

lemma write_walk_below:
  fixes w :: "'a xs_store_scheme"
  assumes "write_walk ts parent (Some p) d perms w = Some (rc, ins', w')" "p \<noteq> []" "prefix p parent"
    "node_at (root_xenstore w) parent = Some pe"
  shows "ins' = Some p \<and> remove_at p (root_xenstore w') = remove_at p (root_xenstore w)"
  using assms
proof (induction ts arbitrary: parent pe w)
  case (Cons t ts)
  have pt: "prefix p (parent @ [t])" using Cons.prems(3) by (rule prefix_prefix)
  show ?case
  proof (cases "node_at (root_xenstore w) (parent @ [t])")
    case (Some e)
    have "write_walk ts (parent @ [t]) (Some p) d perms w = Some (rc, ins', w')"
      using Cons.prems(1) Some by simp
    then show ?thesis by (rule Cons.IH [OF _ Cons.prems(2) pt Some])
  next
    case None
    have fc: "find_child t (child_list pe) = None" using None Cons.prems(4) by (simp add: node_at_snoc)
    have same: "remove_at p (modify_at parent (append_child c) (root_xenstore w)) =
        remove_at p (root_xenstore w)" for c
      by (rule remove_at_modify_below [OF Cons.prems(2,3)]) simp
    show ?thesis
      using write_walk_step [OF Cons.prems(4) None Cons.prems(1)]
    proof (elim disjE conjE exE)
      fix w1 :: "'a xs_store_scheme"
      assume w1: "root_xenstore w1 =
          modify_at parent (append_child (new_entry t (entry_perms perms pe))) (root_xenstore w)"
        "write_walk ts (parent @ [t]) (if Some p = None then Some (parent @ [t]) else Some p) d perms w1
          = Some (rc, ins', w')"
      have "ins' = Some p \<and> remove_at p (root_xenstore w') = remove_at p (root_xenstore w1)"
        by (rule Cons.IH [OF _ Cons.prems(2) pt])
          (use w1 node_at_added [OF Cons.prems(4) fc] in simp_all)
      with w1(1) same show ?thesis by simp
    qed (use same in simp_all)
  qed
qed simp

text \<open>The first entry a failing write leaves behind when its permissions cannot be allocated:
  the entry is linked, has no owner, and nothing else has changed.\<close>

definition leaked_entry :: "entry_ptr \<Rightarrow> xs_entry \<Rightarrow> xs_entry \<Rightarrow> bool" where
  "leaked_entry path r r' \<longleftrightarrow>
     (\<exists>q t. prefix (q @ [t]) path \<and> node_at r q \<noteq> None \<and> node_at r (q @ [t]) = None \<and>
        r' = modify_at q (append_child (new_entry t [])) r)"

lemma write_walk_first:
  fixes w :: "'a xs_store_scheme"
  assumes "write_walk ts parent None d perms w = Some (rc, ins', w')"
    "node_at (root_xenstore w) parent = Some pe"
  shows "ins' = None \<and> root_xenstore w' = root_xenstore w
    \<or> (\<exists>p. ins' = Some p \<and> p \<noteq> [] \<and> remove_at p (root_xenstore w') = root_xenstore w)
    \<or> rc = - ENOMEM \<and> ins' = None \<and> leaked_entry (parent @ ts) (root_xenstore w) (root_xenstore w')"
  using assms
proof (induction ts arbitrary: parent pe w)
  case (Cons t ts)
  show ?case
  proof (cases "node_at (root_xenstore w) (parent @ [t])")
    case (Some e)
    with Cons.prems have "write_walk ts (parent @ [t]) None d perms w = Some (rc, ins', w')" by simp
    from Cons.IH [OF this Some] show ?thesis by simp
  next
    case None
    have fc: "find_child t (child_list pe) = None" using None Cons.prems(2) by (simp add: node_at_snoc)
    show ?thesis
      using write_walk_step [OF Cons.prems(2) None Cons.prems(1)]
    proof (elim disjE conjE exE)
      assume "rc = - ENOMEM" "ins' = None"
        "root_xenstore w' = modify_at parent (append_child (new_entry t [])) (root_xenstore w)"
      moreover from this(3) have "leaked_entry (parent @ t # ts) (root_xenstore w) (root_xenstore w')"
        unfolding leaked_entry_def using Cons.prems(2) None
        by (intro exI [of _ parent] exI [of _ t]) (simp add: prefix_def)
      ultimately show ?thesis by simp
    next
      fix w1 :: "'a xs_store_scheme"
      assume w1: "root_xenstore w1 =
          modify_at parent (append_child (new_entry t (entry_perms perms pe))) (root_xenstore w)"
        "write_walk ts (parent @ [t]) (if None = (None :: entry_ptr option) then Some (parent @ [t]) else None)
           d perms w1 = Some (rc, ins', w')"
      have "ins' = Some (parent @ [t]) \<and>
          remove_at (parent @ [t]) (root_xenstore w') = remove_at (parent @ [t]) (root_xenstore w1)"
        by (rule write_walk_below [where parent = "parent @ [t]" and d = d and perms = perms])
          (use w1 node_at_added [OF Cons.prems(2) fc] in simp_all)
      with w1(1) remove_added [OF Cons.prems(2) fc] show ?thesis by simp
    qed simp_all
  qed
qed simp

section \<open>What a write does to the abstract store\<close>

text \<open>The permissions a new entry gets: the given ones, or those of its nearest ancestor.\<close>

function nearest_perms ::
  "(entry_ptr \<Rightarrow> (string option \<times> xs_perm_entry list) option) \<Rightarrow> entry_ptr \<Rightarrow> xs_perm_entry list" where
  "nearest_perms A q =
     (case A q of
        Some (_, ps) \<Rightarrow> ps
      | None \<Rightarrow> if q = [] then [] else nearest_perms A (butlast q))"
  by pat_completeness auto
termination
  by (relation "measure (\<lambda>(_, q). length q)") auto

declare nearest_perms.simps [simp del]

definition abs_mkdirs ::
  "entry_ptr \<Rightarrow> xs_perm_entry list \<Rightarrow> (entry_ptr \<Rightarrow> (string option \<times> xs_perm_entry list) option) \<Rightarrow>
     entry_ptr \<Rightarrow> (string option \<times> xs_perm_entry list) option" where
  "abs_mkdirs path perms A q =
     (if prefix q path \<and> A q = None
      then Some (None, if perms \<noteq> [] then perms else nearest_perms A q) else A q)"

definition abs_write ::
  "entry_ptr \<Rightarrow> string option \<Rightarrow> xs_perm_entry list \<Rightarrow>
     (entry_ptr \<Rightarrow> (string option \<times> xs_perm_entry list) option) \<Rightarrow>
     entry_ptr \<Rightarrow> (string option \<times> xs_perm_entry list) option" where
  "abs_write path data perms A q =
     (if q = path \<and> path \<noteq> [] \<and> data \<noteq> None
      then map_option (\<lambda>(_, ps). (data, ps)) (abs_mkdirs path perms A q)
      else abs_mkdirs path perms A q)"

lemma nearest_perms_upd:
  "A p = None \<Longrightarrow> nearest_perms (A(p \<mapsto> (v, nearest_perms A p))) q = nearest_perms A q"
proof (induction "length q" arbitrary: q rule: less_induct)
  case less
  show ?case
  proof (cases "q = p")
    case True
    then show ?thesis by (simp add: nearest_perms.simps [of "A(p \<mapsto> _)"])
  next
    case False
    then show ?thesis
      using less by (simp add: nearest_perms.simps [of _ q] split: option.splits)
  qed
qed

lemma abs_added:
  assumes "node_at r p = Some e" "find_child t (child_list e) = None"
  shows "abs_tree (modify_at p (append_child (new_entry t ps)) r) = (abs_tree r)(p @ [t] \<mapsto> (None, ps))"
proof
  fix q
  have a: "abs_tree (modify_at p (append_child (new_entry t ps)) r) q =
      (if prefix (p @ [t]) q then abs_tree (new_entry t ps) (drop (length p + 1) q) else abs_tree r q)"
    by (rule abs_tree_add [OF assms]) simp
  show "abs_tree (modify_at p (append_child (new_entry t ps)) r) q = ((abs_tree r)(p @ [t] \<mapsto> (None, ps))) q"
  proof (cases "prefix (p @ [t]) q")
    case True
    then obtain s where q: "q = p @ t # s" by (auto simp: prefix_def)
    have "abs_tree r q = None" using assms by (simp add: q abs_tree_append abs_tree_Cons)
    then show ?thesis unfolding a using q by (cases s) (simp_all add: abs_tree_Cons)
  next
    case False
    then show ?thesis unfolding a by auto
  qed
qed

lemma abs_mkdirs_step:
  assumes "A (p @ [t]) = None" "A p = Some (v, pps)"
  shows "abs_mkdirs (p @ t # ts) perms (A(p @ [t] \<mapsto> (None, if perms \<noteq> [] then perms else pps))) =
    abs_mkdirs (p @ t # ts) perms A"
proof
  fix q
  have n: "nearest_perms A (p @ [t]) = pps"
    using assms by (simp add: nearest_perms.simps [of A "p @ [t]"] nearest_perms.simps [of A p])
  have pre: "prefix (p @ [t]) (p @ t # ts)" by simp
  show "abs_mkdirs (p @ t # ts) perms (A(p @ [t] \<mapsto> (None, if perms \<noteq> [] then perms else pps))) q =
    abs_mkdirs (p @ t # ts) perms A q"
  proof (cases "q = p @ [t]")
    case True
    then show ?thesis using assms n pre by (simp add: abs_mkdirs_def)
  next
    case False
    then show ?thesis
      using nearest_perms_upd [of A "p @ [t]" None q] assms n by (simp add: abs_mkdirs_def)
  qed
qed

lemma abs_mkdirs_existing:
  assumes "node_at r p \<noteq> None"
  shows "abs_mkdirs p perms (abs_tree r) = abs_tree r"
proof
  fix q
  have "abs_tree r q \<noteq> None" if "prefix q p"
    using that assms by (auto simp: prefix_def abs_tree_None node_at_append split: option.splits)
  then show "abs_mkdirs p perms (abs_tree r) q = abs_tree r q" by (auto simp: abs_mkdirs_def)
qed

lemma write_walk_refines:
  fixes w :: "'a xs_store_scheme"
  assumes "write_walk ts parent ins d perms w = Some (0, ins', w')"
    "node_at (root_xenstore w) parent = Some pe"
  shows "abs_tree (root_xenstore w') = abs_mkdirs (parent @ ts) perms (abs_tree (root_xenstore w))"
  using assms
proof (induction ts arbitrary: parent pe ins w)
  case Nil
  then show ?case using abs_mkdirs_existing [of "root_xenstore w" parent perms] by simp
next
  case (Cons t ts)
  show ?case
  proof (cases "node_at (root_xenstore w) (parent @ [t])")
    case (Some e)
    with Cons.prems have "write_walk ts (parent @ [t]) ins d perms w = Some (0, ins', w')" by simp
    from Cons.IH [OF this Some] show ?thesis by simp
  next
    case None
    have fc: "find_child t (child_list pe) = None" using None Cons.prems(2) by (simp add: node_at_snoc)
    obtain w1 :: "'a xs_store_scheme" and i where w1: "root_xenstore w1 =
          modify_at parent (append_child (new_entry t (entry_perms perms pe))) (root_xenstore w)"
        "write_walk ts (parent @ [t]) i d perms w1 = Some (0, ins', w')"
      using write_walk_step [OF Cons.prems(2) None Cons.prems(1)] by auto
    have "abs_tree (root_xenstore w') = abs_mkdirs (parent @ t # ts) perms (abs_tree (root_xenstore w1))"
      using Cons.IH [OF w1(2)] w1(1) node_at_added [OF Cons.prems(2) fc] by simp
    also have "abs_tree (root_xenstore w1) = (abs_tree (root_xenstore w))
        (parent @ [t] \<mapsto> (None, if perms \<noteq> [] then perms else xs_perms pe))"
      unfolding w1(1) using abs_added [OF Cons.prems(2) fc] by (simp add: entry_perms_def)
    also have "abs_mkdirs (parent @ t # ts) perms \<dots> = abs_mkdirs (parent @ t # ts) perms (abs_tree (root_xenstore w))"
      using None Cons.prems(2)
      by (intro abs_mkdirs_step [of _ _ _ "xs_value pe"]) (simp_all add: abs_tree_def node_info_def)
    finally show ?thesis .
  qed
qed

lemma write_walk_wf:
  fixes w :: "'a xs_store_scheme"
  assumes "write_walk ts parent ins d perms w = Some (0, ins', w')" "list_all token_ok ts"
    "node_at (root_xenstore w) parent = Some pe" "wf_tree (root_xenstore w)"
  shows "wf_tree (root_xenstore w') \<and> node_at (root_xenstore w') (parent @ ts) \<noteq> None"
  using assms
proof (induction ts arbitrary: parent pe ins w)
  case (Cons t ts)
  show ?case
  proof (cases "node_at (root_xenstore w) (parent @ [t])")
    case (Some e)
    with Cons.prems have "write_walk ts (parent @ [t]) ins d perms w = Some (0, ins', w')" by simp
    from Cons.IH [OF this _ Some] Cons.prems show ?thesis by simp
  next
    case None
    have fc: "find_child t (child_list pe) = None" using None Cons.prems(3) by (simp add: node_at_snoc)
    obtain w1 :: "'a xs_store_scheme" and i where w1: "root_xenstore w1 =
          modify_at parent (append_child (new_entry t (entry_perms perms pe))) (root_xenstore w)"
        "write_walk ts (parent @ [t]) i d perms w1 = Some (0, ins', w')"
      using write_walk_step [OF Cons.prems(3) None Cons.prems(1)] by auto
    have "wf_tree (root_xenstore w1)"
      using w1(1) Cons.prems fc entry_perms_nonempty [OF wf_tree_perms [OF Cons.prems(4,3)]]
      by (simp add: wf_tree_added)
    with Cons.IH [OF w1(2)] w1(1) node_at_added [OF Cons.prems(3) fc] Cons.prems(2)
    show ?thesis by simp
  qed
qed simp

section \<open>The operation\<close>

lemma free_allocated_cases:
  assumes "write_walk ts [] None d perms w = Some (rc1, ins, w3)"
    "root_xenstore w4 = root_xenstore w3"
  obtains w' where "free_allocated rc ins w4 = Some (rc, w')"
    "root_xenstore w' = root_xenstore w
     \<or> rc1 = - ENOMEM \<and> leaked_entry ts (root_xenstore w) (root_xenstore w')"
  using write_walk_first [OF assms(1)] assms(2) that
  by (auto simp: free_allocated_def free_node_def)

text \<open>The stages of the operation: it stops before the walk, in the walk, at the permission
  or allocation of the value, or it succeeds.\<close>

lemma do_write_stages:
  fixes w :: "'a xs_store_scheme"
  assumes "wf_tree (root_xenstore w)"
  obtains
    (early) rc w' where "xss_do_write_deadline path data d perms tout w = Some (rc, w')"
      "rc \<noteq> 0" "root_xenstore w' = root_xenstore w"
  | (walk) rc ins and w2 w3 :: "'a xs_store_scheme" where "root_xenstore w2 = root_xenstore w" "rc \<noteq> 0"
      "write_walk (strtok_all slash path) [] None d perms w2 = Some (rc, ins, w3)"
      "xss_do_write_deadline path data d perms tout w = free_allocated rc ins w3"
  | (no_value) ins and w2 w3 :: "'a xs_store_scheme" where "root_xenstore w2 = root_xenstore w"
      "write_walk (strtok_all slash path) [] None d perms w2 = Some (0, ins, w3)"
      "xss_do_write_deadline path data d perms tout w = Some (0, w3)"
      "strtok_all slash path = [] \<or> data = None"
  | (refused) rc ins and w2 w3 w4 :: "'a xs_store_scheme" where "root_xenstore w2 = root_xenstore w" "rc \<noteq> 0"
      "write_walk (strtok_all slash path) [] None d perms w2 = Some (0, ins, w3)"
      "xss_do_write_deadline path data d perms tout w = free_allocated rc ins w4"
      "root_xenstore w4 = root_xenstore w3"
  | (stored) ins e and w2 w3 w4 :: "'a xs_store_scheme" where "root_xenstore w2 = root_xenstore w"
      "write_walk (strtok_all slash path) [] None d perms w2 = Some (0, ins, w3)"
      "strtok_all slash path \<noteq> []" "data \<noteq> None"
      "node_at (root_xenstore w3) (strtok_all slash path) = Some e"
      "check_perms e XS_PERM_WRITE d = Some True"
      "xss_do_write_deadline path data d perms tout w =
         Some (0, w4\<lparr>root_xenstore :=
           modify_at (strtok_all slash path) (set_value data) (root_xenstore w3)\<rparr>)"
proof -
  let ?ts = "strtok_all slash path"
  obtain ok w1 where m1: "k_malloc w = (ok, w1)" by fastforce
  obtain lrc w2 where l: "xss_mutex_lock_deadline tout w1 = (lrc, w2)" by fastforce
  have r: "root_xenstore w1 = root_xenstore w" "root_xenstore w2 = root_xenstore w"
    using k_malloc_root [OF m1] lock_root [OF l] by auto
  obtain rc1 ins w3 where wk: "write_walk ?ts [] None d perms w2 = Some (rc1, ins, w3)"
    using write_walk_total [of w2 "[]" _ ?ts None d perms] assms r strtok_all_tokens by fastforce
  note u = xss_do_write_deadline_def m1 l wk
  show thesis
  proof (cases "\<not> ok \<or> lrc \<noteq> 0")
    case True
    then show ?thesis using early [of "if ok then lrc else - ENOMEM" "if ok then w2 else w1"] r
      by (cases ok) (simp_all add: u)
  next
    case ok: False
    show ?thesis
    proof (cases "rc1 \<noteq> 0 \<or> ?ts = [] \<or> data = None")
      case True
      then show ?thesis
        using walk [OF r(2) _ wk] no_value [OF r(2)] wk ok
        by (cases "rc1 = 0") (auto simp: u xenstore_str_byte_size_def)
    next
      case False
      have wf: "wf_tree (root_xenstore w3)" "node_at (root_xenstore w3) ?ts \<noteq> None"
        using write_walk_wf [of ?ts "[]"] wk False assms r strtok_all_tokens by fastforce+
      then obtain e where e: "node_at (root_xenstore w3) ?ts = Some e" by auto
      obtain al where c: "check_perms e XS_PERM_WRITE d = Some al"
        using check_perms_total wf_tree_perms [OF wf(1) e] by blast
      obtain ok4 w4 where m4: "k_malloc w3 = (ok4, w4)" by fastforce
      have wk0: "write_walk ?ts [] None d perms w2 = Some (0, ins, w3)" using wk False by simp
      have sz: "xenstore_str_byte_size data \<noteq> 0" using False by (auto simp: xenstore_str_byte_size_def)
      have eq: "xss_do_write_deadline path data d perms tout w =
          (if \<not> al then free_allocated (- EACCES) ins w3
           else if \<not> ok4 then free_allocated (- ENOMEM) ins w4
           else Some (0, w4\<lparr>root_xenstore := modify_at ?ts (set_value data) (root_xenstore w4)\<rparr>))"
        using ok False sz e c m4 by (simp add: u wk0 Let_def)
      show ?thesis
        using refused [OF r(2) _ wk0, of "- EACCES" w3] refused [OF r(2) _ wk0, of "- ENOMEM" w4]
          stored [OF r(2) wk0 _ _ e] False eq c k_malloc_root [OF m4]
        by (cases al; cases ok4) auto
    qed
  qed
qed

lemma do_write_error:
  assumes "wf_tree (root_xenstore w)"
    "xss_do_write_deadline path data d perms tout w = Some (rc, w')" "rc \<noteq> 0"
  shows "root_xenstore w' = root_xenstore w
    \<or> rc = - ENOMEM \<and> leaked_entry (strtok_all slash path) (root_xenstore w) (root_xenstore w')"
  using assms(1)
proof (cases rule: do_write_stages [where path = path and data = data and d = d and perms = perms
      and tout = tout])
  case early
  then show ?thesis using assms by simp
next
  case (walk rc1 ins w2 w3)
  then show ?thesis
    using free_allocated_cases [OF walk(3) refl, of rc1] assms(2) by (metis option.inject prod.inject)
next
  case (refused rc1 ins w2 w3 w4)
  then show ?thesis
    using free_allocated_cases [OF refused(3,5), of rc1] assms(2)
    by (metis option.inject prod.inject neg_equal_0_iff_equal zero_neq_numeral)
qed (use assms in auto)

lemma do_write_total:
  assumes "wf_tree (root_xenstore w)"
  shows "\<exists>rc w'. xss_do_write_deadline path data d perms tout w = Some (rc, w')"
  using assms
proof (cases rule: do_write_stages [where path = path and data = data and d = d and perms = perms
      and tout = tout])
  case (walk rc1 ins w2 w3)
  then show ?thesis using free_allocated_cases [OF walk(3) refl, of rc1] by metis
next
  case (refused rc1 ins w2 w3 w4)
  then show ?thesis using free_allocated_cases [OF refused(3,5), of rc1] by metis
qed auto

lemma abs_tree_set_value:
  assumes "node_at r p = Some e"
  shows "abs_tree (modify_at p (set_value v) r) =
    (abs_tree r)(p := map_option (\<lambda>(_, ps). (v, ps)) (abs_tree r p))"
proof
  fix q
  have a: "abs_tree (modify_at p (set_value v) r) q =
      (if prefix p q then abs_tree (set_value v e) (drop (length p) q) else abs_tree r q)"
    by (rule abs_tree_modify_at [OF assms]) simp
  show "abs_tree (modify_at p (set_value v) r) q =
      ((abs_tree r)(p := map_option (\<lambda>(_, ps). (v, ps)) (abs_tree r p))) q"
  proof (cases "prefix p q")
    case True
    then obtain s where q: "q = p @ s" by (auto simp: prefix_def)
    have r: "abs_tree r p = Some (xs_value e, xs_perms e)"
      using assms by (simp add: abs_tree_def node_info_def)
    have "abs_tree r q = abs_tree e s" using assms by (simp add: q abs_tree_append)
    note r = r this
    show ?thesis using r unfolding a by (cases s) (simp_all add: q abs_tree_Cons)
  next
    case False
    then show ?thesis unfolding a by auto
  qed
qed

lemma do_write_refines:
  assumes "wf_tree (root_xenstore w)"
    "xss_do_write_deadline path data d perms tout w = Some (0, w')"
  shows "abs_tree (root_xenstore w') =
      abs_write (strtok_all slash path) data perms (abs_tree (root_xenstore w))"
    and "wf_tree (root_xenstore w')"
proof -
  let ?ts = "strtok_all slash path"
  have "abs_tree (root_xenstore w') = abs_write ?ts data perms (abs_tree (root_xenstore w)) \<and>
      wf_tree (root_xenstore w')"
    using assms(1)
  proof (cases rule: do_write_stages [where path = path and data = data and d = d and perms = perms
        and tout = tout])
    case (walk rc1 ins w2 w3)
    then show ?thesis
      using free_allocated_cases [OF walk(3) refl, of rc1] assms(2) by (metis option.inject prod.inject)
  next
    case (refused rc1 ins w2 w3 w4)
    then show ?thesis
      using free_allocated_cases [OF refused(3,5), of rc1] assms(2) by (metis option.inject prod.inject)
  next
    case (no_value ins w2 w3)
    have "abs_tree (root_xenstore w3) = abs_mkdirs ?ts perms (abs_tree (root_xenstore w))"
      using write_walk_refines [OF no_value(2)] no_value(1) by simp
    moreover have "wf_tree (root_xenstore w3)"
      using write_walk_wf [OF no_value(2)] strtok_all_tokens assms(1) no_value(1) by simp
    ultimately show ?thesis using no_value(3,4) assms(2) by (auto simp: abs_write_def fun_eq_iff)
  next
    case (stored ins e w2 w3 w4)
    have a: "abs_tree (root_xenstore w3) = abs_mkdirs ?ts perms (abs_tree (root_xenstore w))"
      using write_walk_refines [OF stored(2)] stored(1) by simp
    have "wf_tree (root_xenstore w3)"
      using write_walk_wf [OF stored(2)] strtok_all_tokens assms(1) stored(1) by simp
    then have "wf_tree (modify_at ?ts (set_value data) (root_xenstore w3))"
      by (rule wf_tree_modify_at) (simp_all add: wf_tree_iff)
    with stored(3,4,7) assms(2) show ?thesis
      by (auto simp: abs_write_def fun_eq_iff abs_tree_set_value [OF stored(5)] a)
  qed (use assms in auto)
  then show "abs_tree (root_xenstore w') = abs_write ?ts data perms (abs_tree (root_xenstore w))"
    "wf_tree (root_xenstore w')" by auto
qed

section \<open>Who may write\<close>

text \<open>The deepest entry that exists on the path grants the domain the write permission.\<close>

definition write_permitted :: "entry_ptr \<Rightarrow> u32 \<Rightarrow> xs_entry \<Rightarrow> bool" where
  "write_permitted path d r \<longleftrightarrow>
     (\<exists>q e. prefix q path \<and> node_at r q = Some e \<and>
        (\<forall>q'. prefix q' path \<longrightarrow> node_at r q' \<noteq> None \<longrightarrow> prefix q' q) \<and>
        check_perms e XS_PERM_WRITE d = Some True)"

lemma deepest_entry:
  assumes "node_at r (p @ [t]) = None" "prefix q (p @ t # ts)" "node_at r q \<noteq> None"
  shows "prefix q p"
proof (rule ccontr)
  assume "\<not> prefix q p"
  moreover have "prefix q p \<or> prefix p q"
    using assms(2) prefix_same_cases [of q "p @ t # ts" p] by simp
  ultimately obtain s where q: "q = p @ s" "s \<noteq> []" by (auto simp: prefix_def)
  with assms(2) obtain s' where "s = t # s'" by (auto simp: prefix_def Cons_eq_append_conv)
  with q(1) have "q = (p @ [t]) @ s'" by simp
  with assms(1,3) show False by (simp add: node_at_append [of r "p @ [t]"] del: append_assoc)
qed

lemma write_walk_permitted:
  fixes w :: "'a xs_store_scheme"
  assumes "write_walk ts parent None d perms w = Some (rc, ins', w')"
    "node_at (root_xenstore w) parent = Some pe" "root_xenstore w' \<noteq> root_xenstore w"
    "wf_tree (root_xenstore w)"
  shows "write_permitted (parent @ ts) d (root_xenstore w)"
  using assms
proof (induction ts arbitrary: parent pe)
  case (Cons t ts)
  show ?case
  proof (cases "node_at (root_xenstore w) (parent @ [t])")
    case (Some e)
    with Cons.prems have "write_walk ts (parent @ [t]) None d perms w = Some (rc, ins', w')" by simp
    from Cons.IH [OF this Some Cons.prems(3,4)] show ?thesis by simp
  next
    case None
    obtain ok where c: "check_perms pe XS_PERM_WRITE d = Some ok"
      using check_perms_total wf_tree_perms [OF Cons.prems(4,2)] by blast
    have "check_perms pe XS_PERM_WRITE d = Some True"
      using Cons.prems c None by (cases ok) auto
    then show ?thesis
      unfolding write_permitted_def using Cons.prems(2) deepest_entry [OF None]
      by (intro exI [of _ parent] exI [of _ pe]) auto
  qed
qed simp

lemma do_write_permitted:
  assumes "wf_tree (root_xenstore w)"
    "xss_do_write_deadline path data d perms tout w = Some (rc, w')"
    "root_xenstore w' \<noteq> root_xenstore w"
  shows "write_permitted (strtok_all slash path) d (root_xenstore w)"
  using assms(1)
proof (cases rule: do_write_stages [where path = path and data = data and d = d and perms = perms
      and tout = tout])
  case (walk rc1 ins w2 w3)
  have "root_xenstore w3 \<noteq> root_xenstore w2"
    using write_walk_first [OF walk(3)] walk(1,4) assms(2,3)
    by (auto simp: free_allocated_def free_node_def)
  then show ?thesis
    using write_walk_permitted [OF walk(3)] walk(1) assms(1) by simp
next
  case (no_value ins w2 w3)
  then show ?thesis
    using write_walk_permitted [OF no_value(2)] assms by simp
next
  case (refused rc1 ins w2 w3 w4)
  then show ?thesis
    using free_allocated_cases [OF refused(3,5), of rc1] assms(2,3)
    by (metis option.inject prod.inject neg_equal_0_iff_equal zero_neq_numeral)
next
  case (stored ins e w2 w3 w4)
  show ?thesis
  proof (cases "root_xenstore w3 = root_xenstore w2")
    case True
    then show ?thesis unfolding write_permitted_def
      using stored by (intro exI [of _ "strtok_all slash path"] exI [of _ e]) auto
  next
    case False
    then show ?thesis using write_walk_permitted [OF stored(2)] stored(1) assms(1) by simp
  qed
qed (use assms in auto)

end
