(* ===== verification/Xs_Query.thy ===== *)
theory Xs_Query
  imports Xs_Write
begin

text \<open>
  Lookup, reading, listing, and dropping what refers to a domain: the functions that answer
  requests from the tree, and \<open>remove_ref_entries\<close>, which cleans up after a domain.
\<close>

section \<open>Lookup\<close>

lemma key_to_entry_root: "key_to_entry key w = (r, w1) \<Longrightarrow> root_xenstore w1 = root_xenstore w"
  by (auto simp: key_to_entry_def Let_def split: option.splits if_splits prod.splits dest: k_malloc_root)

lemma key_to_entry_Some:
  assumes "key_to_entry key w = (Some p, w1)"
  obtains k e where "key = Some k" "p = strtok_all slash k" "node_at (root_xenstore w) p = Some e"
proof -
  obtain k where k: "key = Some k" using assms by (cases key) (auto simp: key_to_entry_def)
  show thesis
  proof (cases "xenstore_is_root_path key")
    case True
    with k have "k = [slash]"
      by (auto simp: xenstore_is_root_path_def xenstore_is_abs_path_def length_Suc_conv)
    then have "strtok_all slash k = []" by (simp add: strtok_all_def)
    moreover from True k assms have "p = []" by (auto simp: key_to_entry_def split: if_splits)
    ultimately show ?thesis using k that by simp
  next
    case False
    with k assms show ?thesis
      using that by (auto simp: key_to_entry_def Let_def split: if_splits prod.splits dest: k_malloc_root)
  qed
qed

lemma key_to_entry_found:
  assumes "length k \<le> XENSTORE_ABS_PATH_MAX" "fst (k_malloc w)"
    "strtok_all slash k \<noteq> []" "node_at (root_xenstore w) (strtok_all slash k) = Some e"
  shows "\<exists>w1. key_to_entry (Some k) w = (Some (strtok_all slash k), w1) \<and>
    root_xenstore w1 = root_xenstore w"
proof -
  obtain w1 where m: "k_malloc w = (True, w1)" using assms(2) by (cases "k_malloc w") auto
  have "\<not> xenstore_is_root_path (Some k)"
  proof
    assume "xenstore_is_root_path (Some k)"
    then have "k = [slash]"
      by (auto simp: xenstore_is_root_path_def xenstore_is_abs_path_def length_Suc_conv)
    with assms(3) show False by (simp add: strtok_all_def)
  qed
  with assms m k_malloc_root [OF m] show ?thesis by (simp add: key_to_entry_def)
qed

lemma check_perms_dom0 [simp]: "check_perms e perms 0 = Some True"
  by (simp add: check_perms_def)

text \<open>What a permission check grants: a domain other than Dom0 gets past it as the owner, by
  an entry of its own, or by the default, which is the owner's entry.\<close>

definition granted :: "xs_entry \<Rightarrow> xs_perm \<Rightarrow> u32 \<Rightarrow> bool" where
  "granted e perms d \<longleftrightarrow>
     d = 0 \<or> is_owner e d \<or>
     (\<exists>p \<in> set (xs_perms e). ucast (pe_domid p) = d \<and> pe_perm p AND perms = perms) \<or>
     (\<forall>p \<in> set (xs_perms e). ucast (pe_domid p) \<noteq> d) \<and>
       xs_perms e \<noteq> [] \<and> pe_perm (hd (xs_perms e)) AND perms = perms"

lemma find_SomeD: "List.find P xs = Some x \<Longrightarrow> x \<in> set xs \<and> P x"
  by (induction xs) (auto split: if_splits)

lemma check_perms_granted: "check_perms e perms d = Some True \<Longrightarrow> granted e perms d"
  unfolding check_perms_def granted_def
  by (auto simp: find_None_iff dest: find_SomeD split: if_splits option.splits list.splits)

section \<open>Listing\<close>

lemma child_of_distinct:
  assumes "distinct (map xs_key cs)" "c \<in> set cs" "xs_key c = Some t"
  shows "find_child t cs = Some c"
  using assms by (induction cs) (auto simp: rev_image_eqI)

text \<open>The non-empty paths below an entry are the paths below its children.\<close>

lemma paths_below:
  assumes "wf_tree e"
  shows "(\<exists>c \<in> set (child_list e). \<exists>q x. node_at c q = Some x \<and> P (Suc (length q)) x) \<longleftrightarrow>
    (\<exists>q x. q \<noteq> [] \<and> node_at e q = Some x \<and> P (length q) x)" (is "?L \<longleftrightarrow> ?R")
proof
  assume ?L
  then obtain c q x where c: "c \<in> set (child_list e)" "node_at c q = Some x" "P (Suc (length q)) x" by blast
  have "child_ok c" using c(1) assms wf_tree_iff by blast
  then obtain t where t: "xs_key c = Some t" by (auto simp: child_ok_def split: option.splits)
  have "find_child t (child_list e) = Some c"
    using child_of_distinct [OF _ c(1) t] assms wf_tree_iff by blast
  then show ?R using c by (intro exI [of _ "t # q"] exI [of _ x]) simp
next
  assume ?R
  then obtain q x where q: "q \<noteq> []" "node_at e q = Some x" "P (length q) x" by blast
  then obtain t s c where "q = t # s" "find_child t (child_list e) = Some c" "node_at c s = Some x"
    by (cases q) (auto split: option.splits)
  with q show ?L using find_child_Some by fastforce
qed

lemma paths_below_top:
  "(\<exists>q x. node_at e q = Some x \<and> P (length q) x) \<longleftrightarrow>
     P 0 e \<or> (\<exists>q x. q \<noteq> [] \<and> node_at e q = Some x \<and> P (length q) x)"
  by (metis length_0_conv node_at.simps(1) option.inject)

lemma wf_children: "wf_tree e \<Longrightarrow> c \<in> set (child_list e) \<Longrightarrow> wf_tree c"
  by (auto simp: wf_tree_iff [of e] child_ok_def)

lemma traverse_events:
  assumes "wf_tree e"
  shows "v \<in> set (xss_list_traverse_entry m e dep) \<longleftrightarrow>
    (\<exists>q x. node_at e q = Some x \<and>
       (length q = 0 \<or> dep + length q < m) \<and> v = (xs_key x, xs_value x, dep + length q))"
  using assms
proof (induction m e dep rule: xss_list_traverse_entry.induct)
  case (1 m e dep)
  show ?case
  proof (cases "m \<le> dep + 1")
    case True
    have d: "\<not> dep + length q < m" if "q \<noteq> []" for q :: entry_ptr
      using that True by (cases q) auto
    from True show ?thesis
      by (subst xss_list_traverse_entry.simps, subst paths_below_top) (auto dest: d)
  next
    case False
    have "v \<in> set (xss_list_traverse_entry m e dep) \<longleftrightarrow> v = (xs_key e, xs_value e, dep) \<or>
        (\<exists>c \<in> set (child_list e). v \<in> set (xss_list_traverse_entry m c (dep + 1)))"
      using False by (subst xss_list_traverse_entry.simps) auto
    also have "(\<exists>c \<in> set (child_list e). v \<in> set (xss_list_traverse_entry m c (dep + 1))) \<longleftrightarrow>
        (\<exists>c \<in> set (child_list e). \<exists>q x. node_at c q = Some x \<and>
          (dep + Suc (length q) < m \<and> v = (xs_key x, xs_value x, dep + Suc (length q))))"
    proof (intro bex_cong refl)
      fix c assume c: "c \<in> set (child_list e)"
      have "(length q = 0 \<or> dep + 1 + length q < m) \<longleftrightarrow> dep + Suc (length q) < m" for q :: entry_ptr
        using False by auto
      then show "v \<in> set (xss_list_traverse_entry m c (dep + 1)) \<longleftrightarrow>
          (\<exists>q x. node_at c q = Some x \<and>
            (dep + Suc (length q) < m \<and> v = (xs_key x, xs_value x, dep + Suc (length q))))"
        using "1.IH" [OF False c wf_children [OF "1.prems" c]] by simp
    qed
    also have "\<dots> \<longleftrightarrow> (\<exists>q x. q \<noteq> [] \<and> node_at e q = Some x \<and>
        (dep + length q < m \<and> v = (xs_key x, xs_value x, dep + length q)))"
      by (rule paths_below [OF "1.prems"])
    finally show ?thesis by (subst paths_below_top) auto
  qed
qed

lemma traverse_top:
  assumes "wf_tree e"
  shows "v \<in> set ((xs_key e, xs_value e, 0) #
      concat (map (\<lambda>c. xss_list_traverse_entry m c 1) (child_list e))) \<longleftrightarrow>
    (\<exists>q x. node_at e q = Some x \<and> (length q \<le> 1 \<or> length q < m) \<and> v = (xs_key x, xs_value x, length q))"
proof -
  have "(\<exists>c \<in> set (child_list e). v \<in> set (xss_list_traverse_entry m c 1)) \<longleftrightarrow>
      (\<exists>c \<in> set (child_list e). \<exists>q x. node_at c q = Some x \<and>
        ((Suc (length q) \<le> 1 \<or> Suc (length q) < m) \<and> v = (xs_key x, xs_value x, Suc (length q))))"
    by (intro bex_cong refl) (simp add: traverse_events [OF wf_children [OF assms]])
  also have "\<dots> \<longleftrightarrow> (\<exists>q x. q \<noteq> [] \<and> node_at e q = Some x \<and>
      ((length q \<le> 1 \<or> length q < m) \<and> v = (xs_key x, xs_value x, length q)))"
    by (rule paths_below [OF assms])
  finally show ?thesis by (subst paths_below_top) auto
qed

section \<open>Dropping what refers to a domain\<close>

definition owned_by :: "u32 \<Rightarrow> xs_perm_entry list \<Rightarrow> bool" where
  "owned_by d ps \<longleftrightarrow> (case ps of [] \<Rightarrow> False | p # _ \<Rightarrow> ucast (pe_domid p) = d)"

definition drop_refs :: "u32 \<Rightarrow> xs_perm_entry list \<Rightarrow> xs_perm_entry list" where
  "drop_refs d ps = filter (\<lambda>q. ucast (pe_domid q) \<noteq> d) ps"

lemma remove_ref_Cons:
  "xs_perms c \<noteq> [] \<Longrightarrow> remove_ref_entries_recursive d (c # es) =
     (if owned_by d (xs_perms c) then remove_ref_entries_recursive d es
      else do { cs' \<leftarrow> remove_ref_entries_recursive d (child_list c);
                es' \<leftarrow> remove_ref_entries_recursive d es;
                Some (XsEntry (xs_key c) (xs_value c) (drop_refs d (xs_perms c)) cs' # es') })"
  by (cases c) (auto simp: owned_by_def drop_refs_def split: list.splits)

lemma remove_ref_total: "\<forall>c \<in> set es. wf_tree c \<Longrightarrow> \<exists>es'. remove_ref_entries_recursive d es = Some es'"
proof (induction d es rule: remove_ref_entries_recursive.induct)
  case (2 d k v ps cs es)
  obtain p ps' where ps: "ps = p # ps'" using "2.prems" by (cases ps) auto
  have "\<forall>c \<in> set cs. wf_tree c" using "2.prems" by (auto simp: list_all_iff)
  with 2 ps show ?case by fastforce
qed simp

lemma remove_ref_spec:
  assumes "remove_ref_entries_recursive d es = Some es'" "\<forall>c \<in> set es. xs_perms c \<noteq> []"
    "distinct (map xs_key es)"
  shows "set (map xs_key es') \<subseteq> set (map xs_key es) \<and> distinct (map xs_key es') \<and>
    (\<forall>c' \<in> set es'. \<exists>c \<in> set es. \<not> owned_by d (xs_perms c) \<and>
       (\<exists>cs'. remove_ref_entries_recursive d (child_list c) = Some cs' \<and>
         c' = XsEntry (xs_key c) (xs_value c) (drop_refs d (xs_perms c)) cs')) \<and>
    (\<forall>c \<in> set es. \<not> owned_by d (xs_perms c) \<longrightarrow>
       (\<exists>cs'. remove_ref_entries_recursive d (child_list c) = Some cs' \<and>
         XsEntry (xs_key c) (xs_value c) (drop_refs d (xs_perms c)) cs' \<in> set es'))"
  using assms
proof (induction es arbitrary: es')
  case (Cons c es)
  show ?case
  proof (cases "owned_by d (xs_perms c)")
    case True
    with Cons show ?thesis by (auto simp: remove_ref_Cons)
  next
    case False
    with Cons.prems obtain cs' es'' where e: "remove_ref_entries_recursive d (child_list c) = Some cs'"
      "remove_ref_entries_recursive d es = Some es''"
      "es' = XsEntry (xs_key c) (xs_value c) (drop_refs d (xs_perms c)) cs' # es''"
      by (auto simp: remove_ref_Cons split: bind_splits)
    note IH = Cons.IH [OF e(2)]
    have "xs_key c \<notin> set (map xs_key es)" using Cons.prems by simp
    with IH e Cons.prems False show ?thesis by auto
  qed
qed simp

lemma perms_of_children: "wf_tree e \<Longrightarrow> \<forall>c \<in> set (child_list e). xs_perms c \<noteq> []"
  by (auto simp: wf_tree_iff [of e] child_ok_def) (metis wf_tree_iff)

lemma distinct_children: "wf_tree e \<Longrightarrow> distinct (map xs_key (child_list e))"
  using wf_tree_iff by blast

lemma drop_refs_nonempty: "ps \<noteq> [] \<Longrightarrow> \<not> owned_by d ps \<Longrightarrow> drop_refs d ps \<noteq> []"
  by (cases ps) (auto simp: owned_by_def drop_refs_def)

lemma remove_ref_wf:
  "wf_tree e \<Longrightarrow> remove_ref_entries_recursive d (child_list e) = Some cs' \<Longrightarrow>
   wf_tree (set_children cs' e)"
proof (induction e arbitrary: cs')
  case (XsEntry k v ps cs)
  let ?e = "XsEntry k v ps cs"
  note spec = remove_ref_spec [OF XsEntry.prems(2) perms_of_children [OF XsEntry.prems(1)]
      distinct_children [OF XsEntry.prems(1)]]
  have "child_ok c'" if "c' \<in> set cs'" for c'
  proof -
    obtain c ds where c: "c \<in> set cs" "\<not> owned_by d (xs_perms c)"
      "remove_ref_entries_recursive d (child_list c) = Some ds"
      "c' = XsEntry (xs_key c) (xs_value c) (drop_refs d (xs_perms c)) ds"
      using spec \<open>c' \<in> set cs'\<close> by fastforce
    have ok: "child_ok c" using c(1) XsEntry.prems(1) by (auto simp: list_all_iff child_ok_def)
    then have "wf_tree c" by (simp add: child_ok_def)
    then have "wf_tree (set_children ds c)" "xs_perms c \<noteq> []"
      using XsEntry.IH [OF c(1) _ c(3)] wf_tree_iff by blast+
    then have "wf_tree c'"
      using c(2,4) drop_refs_nonempty
      by (auto simp: wf_tree_iff [of "set_children ds c"] list_all_iff child_ok_def)
    then show ?thesis using ok c(4) by (simp add: child_ok_def)
  qed
  with spec XsEntry.prems(1) show ?case
    by (auto simp: wf_tree_iff [of "set_children cs' ?e"] wf_tree_iff [of ?e])
qed

text \<open>The abstract effect: a path survives unless an entry on it, below the root, belongs to the
  domain, and the entries that survive do not mention the domain.\<close>

definition owned_at ::
  "u32 \<Rightarrow> (entry_ptr \<Rightarrow> (string option \<times> xs_perm_entry list) option) \<Rightarrow> entry_ptr \<Rightarrow> bool" where
  "owned_at d A q \<longleftrightarrow> (case A q of None \<Rightarrow> False | Some (_, ps) \<Rightarrow> owned_by d ps)"

definition owned_on_path ::
  "u32 \<Rightarrow> (entry_ptr \<Rightarrow> (string option \<times> xs_perm_entry list) option) \<Rightarrow> entry_ptr \<Rightarrow> bool" where
  "owned_on_path d A q \<longleftrightarrow> (\<exists>q' \<in> set (prefixes q). q' \<noteq> [] \<and> owned_at d A q')"

definition abs_drop ::
  "u32 \<Rightarrow> (entry_ptr \<Rightarrow> (string option \<times> xs_perm_entry list) option) \<Rightarrow> entry_ptr \<Rightarrow>
     (string option \<times> xs_perm_entry list) option" where
  "abs_drop d A q =
     (if owned_on_path d A q then None
      else map_option (\<lambda>(v, ps). (v, if q = [] then ps else drop_refs d ps)) (A q))"

lemma owned_on_path_Cons:
  assumes "\<And>s. A (t # s) = B s"
  shows "owned_on_path d A (t # ts) \<longleftrightarrow> owned_at d B [] \<or> owned_on_path d B ts"
proof -
  have "owned_at d A (t # s) = owned_at d B s" for s by (simp add: owned_at_def assms)
  moreover have "owned_on_path d A (t # ts) \<longleftrightarrow> (\<exists>s \<in> set (prefixes ts). owned_at d A (t # s))"
    by (auto simp: owned_on_path_def)
  ultimately have "owned_on_path d A (t # ts) \<longleftrightarrow> (\<exists>s \<in> set (prefixes ts). owned_at d B s)" by simp
  moreover have "[] \<in> set (prefixes ts)" by (cases ts) simp_all
  ultimately show ?thesis unfolding owned_on_path_def by (metis (no_types, lifting))
qed

lemma abs_drop_Cons:
  assumes "\<And>s. A (t # s) = B s"
  shows "abs_drop d A (t # ts) =
    (if owned_at d B [] then None
     else if ts = [] then map_option (\<lambda>(v, ps). (v, drop_refs d ps)) (B []) else abs_drop d B ts)"
  using owned_on_path_Cons [of A t B d ts] assms
  by (cases "ts = []") (auto simp: abs_drop_def, auto simp: owned_on_path_def)

lemma find_child_drop:
  assumes "wf_tree e" "remove_ref_entries_recursive d (child_list e) = Some cs'"
  shows "find_child t cs' =
    (case find_child t (child_list e) of
       None \<Rightarrow> None
     | Some c \<Rightarrow>
         if owned_by d (xs_perms c) then None
         else map_option (XsEntry (xs_key c) (xs_value c) (drop_refs d (xs_perms c)))
                (remove_ref_entries_recursive d (child_list c)))"
proof -
  note spec = remove_ref_spec [OF assms(2) perms_of_children [OF assms(1)] distinct_children [OF assms(1)]]
  show ?thesis
  proof (cases "find_child t (child_list e)")
    case None
    then have "Some t \<notin> set (map xs_key cs')" using spec find_child_None by fastforce
    then have "find_child t cs' = None" by (simp add: find_child_None)
    with None show ?thesis by simp
  next
    case (Some c)
    note c = find_child_Some [OF Some]
    show ?thesis
    proof (cases "owned_by d (xs_perms c)")
      case True
      have "find_child t cs' = None"
      proof (rule ccontr)
        assume "find_child t cs' \<noteq> None"
        then obtain c' where "find_child t cs' = Some c'" by auto
        from find_child_Some [OF this] spec obtain b where
          b: "b \<in> set (child_list e)" "\<not> owned_by d (xs_perms b)" "xs_key b = Some t" by fastforce
        with child_of_distinct [OF distinct_children [OF assms(1)] b(1,3)] Some True show False by simp
      qed
      with Some True show ?thesis by simp
    next
      case False
      then obtain ds where "remove_ref_entries_recursive d (child_list c) = Some ds"
        "XsEntry (xs_key c) (xs_value c) (drop_refs d (xs_perms c)) ds \<in> set cs'"
        using spec c by blast
      with Some False c child_of_distinct [of cs' "XsEntry (xs_key c) (xs_value c) (drop_refs d (xs_perms c)) ds" t]
        spec show ?thesis by simp
    qed
  qed
qed

lemma remove_ref_abs:
  assumes "wf_tree e" "remove_ref_entries_recursive d (child_list e) = Some cs'" "q \<noteq> []"
  shows "abs_tree (XsEntry k v ps cs') q = abs_drop d (abs_tree e) q"
  using assms
proof (induction q arbitrary: e cs' k v ps)
  case (Cons t ts)
  note f = find_child_drop [OF Cons.prems(1,2), of t]
  show ?case
  proof (cases "find_child t (child_list e)")
    case None
    then show ?thesis using f by (simp add: abs_tree_Cons abs_drop_def)
  next
    case (Some c)
    have A: "abs_tree e (t # s) = abs_tree c s" for s using Some by (simp add: abs_tree_Cons)
    note D = abs_drop_Cons [of "abs_tree e" t "abs_tree c", OF A]
    have own: "owned_at d (abs_tree c) [] = owned_by d (xs_perms c)" by (simp add: owned_at_def)
    have wfc: "wf_tree c" using wf_tree_child [OF Cons.prems(1) Some] by simp
    then obtain ds where ds: "remove_ref_entries_recursive d (child_list c) = Some ds"
      using remove_ref_total [of "child_list c" d] wf_tree_iff child_ok_def by metis
    show ?thesis
    proof (cases "owned_by d (xs_perms c)")
      case True
      then show ?thesis using f Some own D [of d ts] by (simp add: abs_tree_Cons)
    next
      case False
      then have "abs_tree (XsEntry k v ps cs') (t # ts) =
          abs_tree (XsEntry (xs_key c) (xs_value c) (drop_refs d (xs_perms c)) ds) ts"
        using f Some ds by (simp add: abs_tree_Cons)
      then show ?thesis
        using False own D [of d ts] Cons.IH [OF wfc ds] by (cases "ts = []") simp_all
    qed
  qed
qed simp

text \<open>Both together, for the whole tree.\<close>

lemma remove_ref_inv:
  assumes "wf_tree (root_xenstore w)"
  shows "\<exists>w'. remove_ref_entries d w = Some w' \<and> wf_tree (root_xenstore w') \<and>
    abs_tree (root_xenstore w') = abs_drop d (abs_tree (root_xenstore w)) \<and>
    (\<forall>q v ps. q \<noteq> [] \<and> abs_tree (root_xenstore w') q = Some (v, ps) \<longrightarrow>
       (\<forall>p \<in> set ps. ucast (pe_domid p) \<noteq> d))"
proof -
  let ?r = "root_xenstore w"
  obtain cs where cs: "remove_ref_entries_recursive d (child_list ?r) = Some cs"
    using remove_ref_total [of "child_list ?r" d] wf_children [OF assms] by blast
  define w' where "w' = w\<lparr>root_xenstore := set_children cs ?r\<rparr>"
  have "remove_ref_entries d w = Some w'" by (simp add: remove_ref_entries_def cs w'_def)
  moreover have "wf_tree (root_xenstore w')" using remove_ref_wf [OF assms cs] by (simp add: w'_def)
  moreover have a: "abs_tree (root_xenstore w') = abs_drop d (abs_tree ?r)"
  proof
    fix q show "abs_tree (root_xenstore w') q = abs_drop d (abs_tree ?r) q"
      using remove_ref_abs [OF assms cs, of q "xs_key ?r" "xs_value ?r" "xs_perms ?r"]
      by (cases "q = []") (simp_all add: w'_def set_children_def abs_drop_def owned_on_path_def)
  qed
  moreover have "\<forall>p \<in> set ps. ucast (pe_domid p) \<noteq> d"
    if "q \<noteq> []" "abs_tree (root_xenstore w') q = Some (v, ps)" for q v ps
    using that unfolding a by (auto simp: abs_drop_def drop_refs_def split: if_splits)
  ultimately show ?thesis by blast
qed

end
