(* ===== verification/Xs_Store_Props.thy ===== *)
theory Xs_Store_Props
  imports Xs_Query
begin

text \<open>
  The properties of the store: what a write, a read, a listing and the clean-up after a
  domain do to the tree, who may do it, and what failures leave behind.
\<close>

section \<open>Example stores\<close>

definition ex_store :: xs_store where
  "ex_store = \<lparr>mallocs = [], locks = [], hcalls = [], trace = [],
     root_xenstore = XsEntry None None [\<lparr>pe_domid = 0, pe_perm = XS_PERM_NONE\<rparr>]
       [XsEntry (Some ''vm'') (Some ''x'') [\<lparr>pe_domid = 3, pe_perm = XS_PERM_READ\<rparr>,
          \<lparr>pe_domid = 4, pe_perm = XS_PERM_BOTH\<rparr>] []]\<rparr>"

definition ex_written :: xs_store where
  "ex_written = ex_store\<lparr>root_xenstore :=
     XsEntry None None [\<lparr>pe_domid = 0, pe_perm = XS_PERM_NONE\<rparr>]
       [XsEntry (Some ''vm'') (Some ''x'') [\<lparr>pe_domid = 3, pe_perm = XS_PERM_READ\<rparr>,
          \<lparr>pe_domid = 4, pe_perm = XS_PERM_BOTH\<rparr>]
          [XsEntry (Some ''name'') (Some ''guest'') [\<lparr>pe_domid = 3, pe_perm = XS_PERM_READ\<rparr>,
             \<lparr>pe_domid = 4, pe_perm = XS_PERM_BOTH\<rparr>] []]]\<rparr>"

lemma ex_store_wf: "wf_tree (root_xenstore ex_store)" "wf_tree (root_xenstore ex_written)"
  by (simp_all add: ex_store_def ex_written_def token_ok_def)

lemma ex_write:
  "xss_do_write ''/vm/name'' (Some ''guest'') 4 [] K_FOREVER ex_store = Some (0, ex_written)"
  by code_simp

section \<open>Writing\<close>

text \<open>C2. A successful write refines the abstract write: every missing ancestor is created with
  the given permissions or those of its nearest existing ancestor, the entry gets the value,
  nothing else changes, and the tree stays well formed.\<close>

theorem write_refines:
  assumes "wf_tree (root_xenstore w)" "xss_do_write path data d perms tout w = Some (0, w')"
  shows "abs_tree (root_xenstore w') =
      abs_write (strtok_all slash path) data perms (abs_tree (root_xenstore w)) \<and>
    wf_tree (root_xenstore w')"
  using assms do_write_refines [of w path data d perms tout w'] by (simp add: xss_do_write_def)

theorem write_refines_witness:
  "wf_tree (root_xenstore ex_store) \<and>
   xss_do_write ''/vm/name'' (Some ''guest'') 4 [] K_FOREVER ex_store = Some (0, ex_written) \<and>
   abs_tree (root_xenstore ex_written) =
     abs_write [''vm'', ''name''] (Some ''guest'') [] (abs_tree (root_xenstore ex_store))"
proof -
  have "strtok_all slash ''/vm/name'' = [''vm'', ''name'']" by code_simp
  with write_refines [OF ex_store_wf(1) ex_write] ex_store_wf ex_write show ?thesis by simp
qed

text \<open>C11. A write that fails leaves the tree exactly as it was, whatever it had created on the
  way, except that running out of memory for the permissions of the first entry it creates
  leaves that entry behind, without an owner.\<close>

theorem write_failure_rolls_back:
  assumes "wf_tree (root_xenstore w)" "xss_do_write path data d perms tout w = Some (rc, w')" "rc \<noteq> 0"
  shows "root_xenstore w' = root_xenstore w \<or>
    rc = - ENOMEM \<and> leaked_entry (strtok_all slash path) (root_xenstore w) (root_xenstore w')"
  using assms do_write_error [of w path data d perms tout rc w'] by (simp add: xss_do_write_def)

definition ex_oom :: xs_store where
  "ex_oom = ex_store\<lparr>mallocs := [True, True, True, True, True, True, True, True, False]\<rparr>"

text \<open>The seventh allocation, for the entry below the one just created, fails and the created
  entry is taken out again.\<close>

theorem write_failure_rolls_back_witness:
  "\<exists>w'. xss_do_write ''/vm/dev/vif'' (Some ''1'') 4 [] K_FOREVER ex_oom = Some (- ENOMEM, w') \<and>
     root_xenstore w' = root_xenstore ex_oom"
proof -
  have wf: "wf_tree (root_xenstore ex_oom)" using ex_store_wf(1) by (simp add: ex_oom_def)
  have run: "xss_do_write ''/vm/dev/vif'' (Some ''1'') 4 [] K_FOREVER ex_oom =
      Some (- ENOMEM, ex_oom\<lparr>mallocs := []\<rparr>)" by code_simp
  have "- ENOMEM \<noteq> (0 :: int)" by simp
  from write_failure_rolls_back [OF wf run this] run show ?thesis by auto
qed

text \<open>C13. A domain changes the tree by a write only if the deepest entry that already exists on
  the path grants it the write permission; this holds on every outcome.\<close>

theorem write_needs_permission:
  assumes "wf_tree (root_xenstore w)" "xss_do_write path data d perms tout w = Some (rc, w')"
    "root_xenstore w' \<noteq> root_xenstore w"
  shows "\<exists>q e. prefix q (strtok_all slash path) \<and> node_at (root_xenstore w) q = Some e \<and>
    (\<forall>q'. prefix q' (strtok_all slash path) \<longrightarrow> node_at (root_xenstore w) q' \<noteq> None \<longrightarrow> prefix q' q) \<and>
    granted e XS_PERM_WRITE d"
  using assms do_write_permitted [of w path data d perms tout rc w'] check_perms_granted
  unfolding write_permitted_def xss_do_write_def by metis

theorem write_needs_permission_witness:
  "\<exists>q e. prefix q [''vm'', ''name''] \<and> node_at (root_xenstore ex_store) q = Some e \<and>
    granted e XS_PERM_WRITE 4"
proof -
  have "strtok_all slash ''/vm/name'' = [''vm'', ''name'']" by code_simp
  moreover have "root_xenstore ex_written \<noteq> root_xenstore ex_store" by code_simp
  ultimately show ?thesis using write_needs_permission [OF ex_store_wf(1) ex_write] by metis
qed

text \<open>On a well-formed tree a write never dereferences a missing permission list, never
  frees the static root and always returns.\<close>

theorem write_has_no_undefined_behaviour:
  assumes "wf_tree (root_xenstore w)"
  shows "\<exists>rc w'. xss_do_write path data d perms tout w = Some (rc, w')"
  using assms do_write_total [of w path data d perms tout] by (simp add: xss_do_write_def)

theorem write_has_no_undefined_behaviour_witness:
  "wf_tree (root_xenstore ex_store) \<and>
   (\<exists>rc w'. xss_do_write ''/vm/dev'' None 5 [] K_TIMED ex_store = Some (rc, w'))"
  using write_has_no_undefined_behaviour [OF ex_store_wf(1)] ex_store_wf(1) by blast

text \<open>The exception in the roll-back of a failed write occurs: when the allocation of the permissions fails, the entry
  stays in the tree without an owner, and the next permission check on it by a domain other
  than Dom0 dereferences the missing head of its permission list.\<close>

theorem write_leaks_ownerless_entry:
  "\<exists>(w :: xs_store) w' e. wf_tree (root_xenstore w) \<and>
     xss_do_write ''/vm/dev'' None 4 [] K_FOREVER w = Some (- ENOMEM, w') \<and>
     node_at (root_xenstore w') [''vm'', ''dev''] = Some e \<and>
     \<not> wf_tree (root_xenstore w') \<and> check_perms e XS_PERM_READ 4 = None"
proof -
  define w where "w = ex_store\<lparr>mallocs := [True, True, True, False]\<rparr>"
  have wf: "wf_tree (root_xenstore w)" using ex_store_wf(1) by (simp add: w_def)
  define w' where "w' = ex_store\<lparr>root_xenstore :=
    modify_at [''vm''] (append_child (XsEntry (Some ''dev'') None [] [])) (root_xenstore ex_store)\<rparr>"
  have run: "xss_do_write ''/vm/dev'' None 4 [] K_FOREVER w = Some (- ENOMEM, w')"
    unfolding w_def w'_def by code_simp
  have n: "node_at (root_xenstore w') [''vm'', ''dev''] = Some (XsEntry (Some ''dev'') None [] [])"
    unfolding w'_def by code_simp
  have "\<not> wf_tree (root_xenstore w')" using n wf_tree_perms by fastforce
  moreover have "check_perms (XsEntry (Some ''dev'') None [] []) XS_PERM_READ 4 = None" by code_simp
  ultimately show ?thesis using wf run n by blast
qed

section \<open>Reading and listing\<close>

text \<open>What was written is what is read: after a successful write, reading the path (of a
  length the server accepts, with the one allocation succeeding) returns the value, padded
  or cut to the buffer.\<close>

theorem read_after_write:
  assumes "wf_tree (root_xenstore w)" "xss_do_write path (Some v) d perms tout w = Some (0, w')"
    "strtok_all slash path \<noteq> []" "length path \<le> XENSTORE_ABS_PATH_MAX" "fst (k_malloc w')"
  shows "\<exists>w''. xss_read (Some path) len w' = Some ((0, Some (strncpy v len)), w'')"
proof -
  let ?ts = "strtok_all slash path"
  have "abs_tree (root_xenstore w') ?ts =
      abs_write ?ts (Some v) perms (abs_tree (root_xenstore w)) ?ts"
    using do_write_refines(1) [OF assms(1) assms(2) [unfolded xss_do_write_def]] by simp
  moreover have "abs_mkdirs ?ts perms (abs_tree (root_xenstore w)) ?ts \<noteq> None"
    by (auto simp: abs_mkdirs_def)
  ultimately obtain ps where "abs_tree (root_xenstore w') ?ts = Some (Some v, ps)"
    using assms(3) by (auto simp: abs_write_def)
  then obtain e where e: "node_at (root_xenstore w') ?ts = Some e" "xs_value e = Some v"
    by (auto simp: abs_tree_def node_info_def)
  obtain w1 where k: "key_to_entry (Some path) w' = (Some ?ts, w1)" "root_xenstore w1 = root_xenstore w'"
    using key_to_entry_found [OF assms(4,5,3) e(1)] by blast
  then show ?thesis
    using e by (simp add: xss_read_def key_to_entry_check_perm_def check_perms_for_entry_def)
qed

theorem read_after_write_witness:
  "\<exists>w''. xss_read (Some ''/vm/name'') 8 ex_written = Some ((0, Some (strncpy ''guest'' 8)), w'')"
proof -
  have "strtok_all slash ''/vm/name'' \<noteq> []" "fst (k_malloc ex_written)" by code_simp+
  then show ?thesis using read_after_write [OF ex_store_wf(1) ex_write] by simp
qed

text \<open>Listing below an entry reports exactly the entries of its subtree that lie less than
  the configured depth below it (its children always), each with its own depth.\<close>

theorem traverse_reports_subtree:
  assumes "wf_tree (root_xenstore w)" "xss_list_traverse m (Some path) True w = Some (0, events, w')"
  shows "\<exists>e. node_at (root_xenstore w) (strtok_all slash path) = Some e \<and>
    set events = {(xs_key x, xs_value x, length q) | q x.
      node_at e q = Some x \<and> (length q \<le> 1 \<or> length q < m)}"
proof -
  obtain p w1 where k: "key_to_entry (Some path) w = (Some p, w1)"
    using assms(2) by (cases "key_to_entry (Some path) w") (auto simp: xss_list_traverse_def split: option.splits)
  obtain e where p: "p = strtok_all slash path" "node_at (root_xenstore w) p = Some e"
    using key_to_entry_Some [OF k] by blast
  have r: "root_xenstore w1 = root_xenstore w" by (rule key_to_entry_root [OF k])
  have ev: "events = (xs_key e, xs_value e, 0) #
      concat (map (\<lambda>c. xss_list_traverse_entry m c 1) (child_list e))"
    using assms(2) k p r by (simp add: xss_list_traverse_def)
  have wfe: "wf_tree e" by (rule wf_tree_node_at [OF assms(1) p(2)])
  show ?thesis
  proof (intro exI conjI)
    show "node_at (root_xenstore w) (strtok_all slash path) = Some e" using p by simp
    show "set events = {(xs_key x, xs_value x, length q) | q x.
        node_at e q = Some x \<and> (length q \<le> 1 \<or> length q < m)}"
      unfolding ev using traverse_top [OF wfe, of _ m] by (intro set_eqI) (simp, blast)
  qed
qed

theorem traverse_reports_subtree_witness:
  "\<exists>e events. xss_list_traverse 8 (Some ''/vm'') True ex_written = Some (0, events, ex_written) \<and>
     node_at (root_xenstore ex_written) [''vm''] = Some e \<and>
     set events = {(xs_key x, xs_value x, length q) | q x.
       node_at e q = Some x \<and> (length q \<le> 1 \<or> length q < 8)}"
proof -
  have run: "xss_list_traverse 8 (Some ''/vm'') True ex_written =
      Some (0, [(Some ''vm'', Some ''x'', 0), (Some ''name'', Some ''guest'', 1)], ex_written)"
    by code_simp
  have tok: "strtok_all slash ''/vm'' = [''vm'']" by code_simp
  from traverse_reports_subtree [OF ex_store_wf(2) run, unfolded tok] run show ?thesis
    by (elim exE) (rule exI, rule exI, rule conjI, assumption+)
qed

section \<open>Dropping a domain\<close>

text \<open>Removing the references to a domain deletes exactly the entries below the root that the
  domain owns, with their subtrees, takes the domain out of the permissions of every other
  entry, and changes nothing else; it never meets an entry without an owner.\<close>

theorem remove_ref_drops_domain:
  assumes "wf_tree (root_xenstore w)"
  shows "\<exists>w'. remove_ref_entries d w = Some w' \<and> wf_tree (root_xenstore w') \<and>
    abs_tree (root_xenstore w') = abs_drop d (abs_tree (root_xenstore w)) \<and>
    (\<forall>q v ps. q \<noteq> [] \<and> abs_tree (root_xenstore w') q = Some (v, ps) \<longrightarrow>
       (\<forall>p \<in> set ps. ucast (pe_domid p) \<noteq> d))"
  by (rule remove_ref_inv [OF assms])

theorem remove_ref_drops_domain_witness:
  "\<exists>w'. remove_ref_entries 4 ex_written = Some w' \<and>
     abs_tree (root_xenstore w') = abs_drop 4 (abs_tree (root_xenstore ex_written))"
  using remove_ref_drops_domain [OF ex_store_wf(2), of 4] by blast

end
