(* ===== verification/Xs_Wire_Props.thy ===== *)
theory Xs_Wire_Props
  imports Xs_Path
begin

text \<open>
  The properties of the wire protocol and of paths: permission lists and headers survive
  encoding and decoding, the two rings are first-in first-out byte queues whatever the
  alternation of writer and reader, corrupted indices are refused, and paths are compared
  by components and kept inside the home directory of the domain.
\<close>

section \<open>Encoding\<close>

text \<open>Decoding what \<open>serialize_perms\<close> sends gives back the permission list, reduced to the
  two permission bits, for every non-empty list over assignable domain ids.\<close>

theorem perms_roundtrip:
  assumes "list_all (\<lambda>p. wire_domid (pe_domid p)) ps" "ps \<noteq> []" "mallocs e = []"
  shows "\<exists>bs. serialize_perms ps e = (Some bs, e) \<and>
     deserialize_perms bs e = (Some (map norm_perm ps), e)"
  by (rule perm_roundtrip_aux [OF assms])

theorem perms_roundtrip_witness:
  "\<exists>bs. serialize_perms [\<lparr>pe_domid = 5, pe_perm = 2\<rparr>, \<lparr>pe_domid = 0, pe_perm = 3\<rparr>]
       \<lparr>mallocs = [], locks = [], hcalls = [], trace = []\<rparr> =
     (Some bs, \<lparr>mallocs = [], locks = [], hcalls = [], trace = []\<rparr>) \<and>
   deserialize_perms bs \<lparr>mallocs = [], locks = [], hcalls = [], trace = []\<rparr> =
     (Some [\<lparr>pe_domid = 5, pe_perm = 2\<rparr>, \<lparr>pe_domid = 0, pe_perm = 3\<rparr>],
      \<lparr>mallocs = [], locks = [], hcalls = [], trace = []\<rparr>)"
  using perms_roundtrip [of "[\<lparr>pe_domid = 5, pe_perm = 2\<rparr>, \<lparr>pe_domid = 0, pe_perm = 3\<rparr>]"
      "\<lparr>mallocs = [], locks = [], hcalls = [], trace = []\<rparr>"]
  by (simp add: wire_domid_def norm_perm_def)

text \<open>The sixteen bytes of a message header decode to the header they encode, whatever
  follows them.\<close>

theorem header_roundtrip: "length (hdr_encode h) = 16 \<and> hdr_decode (hdr_encode h @ rest) = h"
  by (simp add: hdr_decode_encode)

section \<open>The rings\<close>

text \<open>C25. Requests arrive as they were sent: for every alternation of guest writes and server
  reads of any sizes, what the ring held plus what the writes accepted is what the reads
  returned plus what the ring still holds, in order, across every wrap-around of the 32-bit
  indices; the indices stay consistent.\<close>

theorem request_ring_fifo:
  assumes "req_valid i" "req_ring.run ops i = (accepted, returned, i')"
  shows "req_contents i @ accepted = returned @ req_contents i' \<and> req_valid i'"
  using req_ring.run_fifo [OF assms] req_ring.run_valid [OF assms] by simp

definition ex_page :: xenstore_domain_interface where
  "ex_page = \<lparr>req = replicate 1024 NUL, rsp = replicate 1024 NUL,
     req_cons = 0xFFFFFFFF, req_prod = 0xFFFFFFFF, rsp_cons = 0xFFFFFFFF, rsp_prod = 0xFFFFFFFF,
     server_features = 0, connection = 0, error = 0, evtchn_port = 0\<rparr>"

lemma ex_page_valid: "req_valid ex_page" "rsp_valid ex_page"
  by (simp_all add: req_valid_def rsp_valid_def ring_ok_def xenstore_check_indexes_def ex_page_def)

theorem request_ring_fifo_witness:
  "\<exists>accepted returned i'. req_ring.run [Put ''ab'', Put ''b'', Get 1, Get 5] ex_page = (accepted, returned, i') \<and>
     accepted = returned @ req_contents i'"
proof -
  obtain a r i' where run: "req_ring.run [Put ''ab'', Put ''b'', Get 1, Get 5] ex_page = (a, r, i')"
    by (metis prod_cases3)
  have "req_contents ex_page = []" by (simp add: req_contents_def ring_contents_def ex_page_def)
  with request_ring_fifo [OF ex_page_valid(1) run] run show ?thesis by auto
qed

text \<open>The same for responses, written by the server and read by the guest; moreover the
  guest empties the ring by as many reads as there are bytes, however short each falls.\<close>

theorem response_ring_fifo:
  assumes "rsp_valid i" "rsp_ring.run ops i = (accepted, returned, i')" "0 < n"
  shows "rsp_contents i @ accepted = returned @ rsp_contents i' \<and> rsp_valid i' \<and>
    (\<exists>i''. rsp_ring.run (replicate (length (rsp_contents i')) (Get n)) i' = ([], rsp_contents i', i'') \<and>
       rsp_contents i'' = [])"
  using rsp_ring.run_fifo [OF assms(1,2)] rsp_ring.run_valid [OF assms(1,2)]
    rsp_ring.drain [OF rsp_ring.run_valid [OF assms(1,2)] assms(3) order_refl] by simp

theorem response_ring_fifo_witness:
  "\<exists>accepted i'. rsp_ring.run [Put ''hello''] ex_page = (accepted, [], i') \<and>
     accepted = rsp_contents i' \<and>
     (\<exists>i''. rsp_ring.run (replicate (length (rsp_contents i')) (Get 3)) i' = ([], rsp_contents i', i'') \<and>
       rsp_contents i'' = [])"
proof -
  obtain a r i' where run: "rsp_ring.run [Put ''hello''] ex_page = (a, r, i')" by (metis prod_cases3)
  then have r: "r = []" by (auto split: prod.splits)
  have "rsp_contents ex_page = []" by (simp add: rsp_contents_def ring_contents_def ex_page_def)
  with response_ring_fifo [OF ex_page_valid(2) run, of 3] run r show ?thesis by auto
qed

text \<open>Indices more than the ring size apart are refused in both directions, before the ring
  is touched, and no others are.\<close>

theorem corrupted_indices_refused:
  "(\<exists>rc. xenstore_ring_write i d client = Inl rc) =
     (1024 < unat (if client then req_prod i - req_cons i else rsp_prod i - rsp_cons i)) \<and>
   (\<exists>rc. xenstore_ring_read i n client = Inl rc) =
     (1024 < unat (if client then rsp_prod i - rsp_cons i else req_prod i - req_cons i)) \<and>
   (\<forall>rc. xenstore_ring_write i d client = Inl rc \<longrightarrow> rc = - EINVAL) \<and>
   (\<forall>rc. xenstore_ring_read i n client = Inl rc \<longrightarrow> rc = - EIO)"
  by (auto simp: xenstore_ring_write_def xenstore_ring_read_def xenstore_check_indexes_def Let_def
      split: prod.splits)

theorem corrupted_indices_refused_witness:
  "\<exists>rc. xenstore_ring_write (ex_page\<lparr>req_prod := 5000\<rparr>) ''x'' True = Inl rc"
proof -
  have "1024 < unat (req_prod (ex_page\<lparr>req_prod := 5000\<rparr>) - req_cons (ex_page\<lparr>req_prod := 5000\<rparr>))"
    by (simp add: ex_page_def)
  then show ?thesis
    using corrupted_indices_refused [of "ex_page\<lparr>req_prod := 5000\<rparr>" "''x''" True] by simp
qed

section \<open>Paths\<close>

text \<open>The normalised absolute path with the components \<open>ts\<close>, the root for none.\<close>

definition abs_path :: "string list \<Rightarrow> string" where
  "abs_path ts = (if ts = [] then [slash] else path_of ts)"

lemma norm_abs_path: "norm_abs p \<longleftrightarrow> (\<exists>ts. list_all token_ok ts \<and> p = abs_path ts)"
proof -
  have "list_all token_ok []" by simp
  then show ?thesis unfolding norm_abs_def abs_path_def by metis
qed

text \<open>C27. For normalised absolute paths, the root among them, containment (which decides what a watch fires
  on) is exactly the prefix relation on path components: the root contains every path, and only itself
  contains the root.\<close>

theorem containment_is_component_prefix:
  assumes "list_all token_ok ts" "list_all token_ok us"
  shows "xenstore_path_contains (Some (abs_path ts)) (Some (abs_path us)) \<longleftrightarrow> prefix ts us"
proof (cases "ts = []")
  case True
  have "abs_path us \<noteq> []" by (cases us) (simp_all add: abs_path_def)
  then show ?thesis using True path_contains_root by (simp add: abs_path_def)
next
  case ts: False
  show ?thesis
  proof (cases "us = []")
    case True
    have "2 \<le> length (path_of ts)" using ts assms(1) by (cases ts) (auto simp: token_ok_def Suc_le_eq)
    then have "\<not> xenstore_path_contains (Some (path_of ts)) (Some [slash])"
      by (auto simp: xenstore_path_contains_def xenstore_is_root_path_def)
    then show ?thesis using True ts by (simp add: abs_path_def)
  next
    case False
    then show ?thesis using path_contains_prefix [OF assms ts False] ts by (simp add: abs_path_def)
  qed
qed

theorem containment_is_component_prefix_witness:
  "\<not> xenstore_path_contains (Some ''/local/domain/1'') (Some ''/local/domain/12'') \<and>
   xenstore_path_contains (Some ''/'') (Some ''/local'') \<and> \<not> xenstore_path_contains (Some ''/local'') (Some ''/'')"
  using containment_is_component_prefix [of "[''local'', ''domain'', ''1'']" "[''local'', ''domain'', ''12'']"]
    containment_is_component_prefix [of "[]" "[''local'']"] containment_is_component_prefix [of "[''local'']" "[]"]
  by (simp add: token_ok_def abs_path_def)

text \<open>C26. \<open>construct_path\<close>, through which all requests of a guest but \<open>XS_RM\<close> take their paths, refuses a path
  or turns it into a normalised absolute one; a relative one lands strictly below the home directory of
  the guest and is never cut.\<close>

theorem guest_path_confined:
  assumes "unat d < 0x8000" "construct_path p d e = (Inr q, e')"
  shows "norm_abs q \<and>
    (if xenstore_is_abs_path (Some p) then q = p
     else q = local_path d @ p \<and> strtok_all slash p \<noteq> [] \<and>
       strtok_all slash q = [''local'', ''domain'', dec (unat d)] @ strtok_all slash p)"
  using construct_path_norm [OF assms] construct_path_abs [of p d e q e'] assms
    construct_path_rel [OF assms(1) _ assms(2)] construct_path_below_home [OF assms(1) _ assms(2)]
  by auto

theorem guest_path_confined_witness:
  "construct_path ''device/vif'' 7 \<lparr>mallocs = [], locks = [], hcalls = [], trace = []\<rparr> =
     (Inr ''/local/domain/7/device/vif'', \<lparr>mallocs = [], locks = [], hcalls = [], trace = []\<rparr>) \<and>
   norm_abs ''/local/domain/7/device/vif''"
proof -
  have run: "construct_path ''device/vif'' 7 \<lparr>mallocs = [], locks = [], hcalls = [], trace = []\<rparr> =
     (Inr ''/local/domain/7/device/vif'', \<lparr>mallocs = [], locks = [], hcalls = [], trace = []\<rparr>)"
    by code_simp
  have "unat (7 :: u32) < 0x8000" by simp
  from guest_path_confined [OF this run] run show ?thesis by simp
qed

end
