(* ===== verification/Xs_Watch.thy ===== *)
theory Xs_Watch
  imports Xs_Query
begin

text \<open>
  Watches: the registry \<open>watch_entry_list\<close>, the events queued for guest domains and the
  callbacks of the control domain, as in \<open>xenstore_srv.c\<close>.  A \<open>struct watch_entry\<close> lives at
  an address of \<open>watch_heap\<close>; a freed address holds \<open>None\<close>, and following it is undefined
  behaviour.  A domain is identified by its id; the null domain pointer of a watch of the
  control domain is \<open>None\<close>.  A callback is recorded in \<open>cb_log\<close> with its arguments; what the
  client does in it is not part of the model.
\<close>

section \<open>State\<close>

record watch_entry =
  we_key :: string
  we_token :: "char list"
  we_domain :: "u32 option"
  we_is_relative :: bool
  we_cb :: "nat option"
  we_param :: nat
  we_pending_path :: "string option"
  we_ref :: nat

record pending_watch_event_entry =
  event_path :: string
  pe_watch :: nat

record xs_world = xs_store +
  watch_heap :: "nat \<Rightarrow> watch_entry option"
  wnext :: nat
  watch_entry_list :: "nat list"
  pending_watch_event_list :: "pending_watch_event_entry list"
  xb_sem :: "u32 \<Rightarrow> bool"
  cb_log :: "(nat option \<times> string \<times> char list \<times> nat) list"

abbreviation (input) XENSTORE_LOCAL_DOMAIN_ID :: u32 where "XENSTORE_LOCAL_DOMAIN_ID \<equiv> 0"

definition watch_linked :: "nat \<Rightarrow> 'a xs_world_scheme \<Rightarrow> bool" where
  "watch_linked a w \<longleftrightarrow> a \<in> set (watch_entry_list w)"

section \<open>Looking up a watch\<close>

text \<open>\<open>strcmp(a, b) == 0\<close> on two buffers: \<open>None\<close> when the comparison leaves one of them.\<close>

fun strcmp_eq :: "char list \<Rightarrow> char list \<Rightarrow> bool option" where
  "strcmp_eq [] _ = None"
| "strcmp_eq _ [] = None"
| "strcmp_eq (a # as) (b # bs) =
     (if a \<noteq> b then Some False else if a = NUL then Some True else strcmp_eq as bs)"

definition token_matches :: "char list option \<Rightarrow> char list \<Rightarrow> bool option" where
  "token_matches token iter_token =
     (case token of
        None \<Rightarrow> Some True
      | Some t \<Rightarrow>
          (case cstr t of
             None \<Rightarrow> None
           | Some s \<Rightarrow> if s = [] then Some True else strcmp_eq iter_token t))"

fun watcher_loop ::
  "nat list \<Rightarrow> string \<Rightarrow> char list option \<Rightarrow> u32 option \<Rightarrow> (nat \<Rightarrow> watch_entry option) \<Rightarrow>
     nat option option" where
  "watcher_loop [] key token domain h = Some None"
| "watcher_loop (a # as) key token domain h =
     do { iter \<leftarrow> h a;
          if we_domain iter = domain \<and> we_key iter = key
          then do { m \<leftarrow> token_matches token (we_token iter);
                    if m then Some (Some a) else watcher_loop as key token domain h }
          else watcher_loop as key token domain h }"

definition key_to_watcher ::
  "string \<Rightarrow> char list option \<Rightarrow> u32 option \<Rightarrow> 'a xs_world_scheme \<Rightarrow> nat option option" where
  "key_to_watcher key token domain w = watcher_loop (watch_entry_list w) key token domain (watch_heap w)"

section \<open>Reference counting\<close>

definition destroy_watch_entry :: "nat \<Rightarrow> 'a xs_world_scheme \<Rightarrow> 'a xs_world_scheme option" where
  "destroy_watch_entry a w =
     (case watch_heap w a of
        None \<Rightarrow> None
      | Some _ \<Rightarrow> Some (w\<lparr>watch_heap := (watch_heap w)(a := None)\<rparr>))"

definition watch_entry_get :: "nat \<Rightarrow> 'a xs_world_scheme \<Rightarrow> 'a xs_world_scheme option" where
  "watch_entry_get a w =
     do { e \<leftarrow> watch_heap w a;
          Some (w\<lparr>watch_heap := (watch_heap w)(a \<mapsto> e\<lparr>we_ref := we_ref e + 1\<rparr>)\<rparr>) }"

definition watch_entry_put :: "nat \<Rightarrow> 'a xs_world_scheme \<Rightarrow> 'a xs_world_scheme option" where
  "watch_entry_put a w =
     do { e \<leftarrow> watch_heap w a;
          if we_ref e = 0 then None
          else if we_ref e = 1 then destroy_watch_entry a w
          else Some (w\<lparr>watch_heap := (watch_heap w)(a \<mapsto> e\<lparr>we_ref := we_ref e - 1\<rparr>)\<rparr>) }"

definition remove_watch_entry :: "nat \<Rightarrow> 'a xs_world_scheme \<Rightarrow> 'a xs_world_scheme option" where
  "remove_watch_entry a w =
     watch_entry_put a (w\<lparr>watch_entry_list := remove1 a (watch_entry_list w)\<rparr>)"

section \<open>Queueing and dispatching events\<close>

text \<open>The list of queued local events is the list of their watches.  A second event on a watch
  that still has one would trip the assertion of the code.\<close>

definition queue_local_watch_event_locked ::
  "nat list \<Rightarrow> nat \<Rightarrow> string \<Rightarrow> 'a xs_world_scheme \<Rightarrow> (int \<times> nat list \<times> 'a xs_world_scheme) option" where
  "queue_local_watch_event_locked local_events a path w =
     do { e \<leftarrow> watch_heap w a;
          if we_domain e \<noteq> None then Some (- EINVAL, local_events, w)
          else
            let (ok, w1) = k_malloc w in
            if \<not> ok then Some (- ENOMEM, local_events, w1)
            else if we_pending_path e \<noteq> None then None
            else
              Some (0, local_events @ [a],
                w1\<lparr>watch_heap := (watch_heap w1)
                   (a \<mapsto> e\<lparr>we_ref := we_ref e + 1, we_pending_path := Some path\<rparr>)\<rparr>) }"

fun dispatch_local_watch_events_locked ::
  "nat list \<Rightarrow> 'a xs_world_scheme \<Rightarrow> 'a xs_world_scheme option" where
  "dispatch_local_watch_events_locked [] w = Some w"
| "dispatch_local_watch_events_locked (a # as) w =
     do { e \<leftarrow> watch_heap w a;
          path \<leftarrow> we_pending_path e;
          w1 \<leftarrow> watch_entry_put a
                 (w\<lparr>watch_heap := (watch_heap w)(a \<mapsto> e\<lparr>we_pending_path := None\<rparr>),
                    cb_log := cb_log w @ [(we_cb e, path, we_token e, we_param e)]\<rparr>);
          dispatch_local_watch_events_locked as w1 }"

definition queue_pending_watch_event ::
  "nat \<Rightarrow> string \<Rightarrow> k_timeout \<Rightarrow> 'a xs_world_scheme \<Rightarrow> (int \<times> 'a xs_world_scheme) option" where
  "queue_pending_watch_event a path deadline w =
     do { e \<leftarrow> watch_heap w a;
          d \<leftarrow> we_domain e;
          let (ok1, w1) = k_malloc w in
          if \<not> ok1 then Some (- ENOMEM, w1)
          else
            let (ok2, w2) = k_malloc w1 in
            if \<not> ok2 then Some (- ENOMEM, w2)
            else
              do { w3 \<leftarrow> watch_entry_get a w2;
                   let (rc, w4) = xss_mutex_lock_deadline deadline w3 in
                   if rc \<noteq> 0 then do { w5 \<leftarrow> watch_entry_put a w4; Some (rc, w5) }
                   else
                     Some (0, w4\<lparr>pending_watch_event_list :=
                          pending_watch_event_list w4 @ [\<lparr>event_path = path, pe_watch = a\<rparr>],
                        xb_sem := (xb_sem w4)(d := True)\<rparr>) } }"

text \<open>The path reported for a change at \<open>path\<close>, if the watch is concerned.\<close>

definition event_for :: "string \<Rightarrow> bool \<Rightarrow> string \<Rightarrow> string option" where
  "event_for path recursive_remove key =
     (if xenstore_path_contains (Some key) (Some path) then Some path
      else if recursive_remove \<and> xenstore_path_contains (Some path) (Some key) then Some key
      else None)"

text \<open>\<open>event_path += loc_len\<close>: the pointer may not leave the string.\<close>

definition skip_local :: "u32 \<Rightarrow> string \<Rightarrow> string option" where
  "skip_local d p =
     (if length (local_path d) \<le> length p then Some (drop (length (local_path d)) p) else None)"

fun queue_loop ::
  "nat list \<Rightarrow> string \<Rightarrow> bool \<Rightarrow> nat list \<Rightarrow> k_timeout \<Rightarrow> 'a xs_world_scheme \<Rightarrow>
     (int \<times> nat list \<times> 'a xs_world_scheme) option" where
  "queue_loop [] path recursive_remove local_events deadline w = Some (0, local_events, w)"
| "queue_loop (a # as) path recursive_remove local_events deadline w =
     do { iter \<leftarrow> watch_heap w a;
          (case event_for path recursive_remove (we_key iter) of
             None \<Rightarrow> queue_loop as path recursive_remove local_events deadline w
           | Some ev \<Rightarrow>
               do { (entry, w1) \<leftarrow> key_to_entry_check_perm (Some ev)
                      (case we_domain iter of None \<Rightarrow> XENSTORE_LOCAL_DOMAIN_ID | Some d \<Rightarrow> d)
                      XS_PERM_READ w;
                    if entry = None
                    then queue_loop as path recursive_remove local_events deadline w1
                    else if we_domain iter = None
                    then
                      do { ev' \<leftarrow> (if we_is_relative iter then skip_local XENSTORE_LOCAL_DOMAIN_ID ev
                                  else Some ev);
                           (rc, evs, w2) \<leftarrow> queue_local_watch_event_locked local_events a ev' w1;
                           queue_loop as path recursive_remove evs deadline w2 }
                    else
                      do { (rc, w2) \<leftarrow> queue_pending_watch_event a ev deadline w1;
                           if rc \<noteq> 0 then Some (if rc = - ENOMEM then 0 else rc, local_events, w2)
                           else queue_loop as path recursive_remove local_events deadline w2 } }) }"

definition queue_watch_notifications_xsel_locked ::
  "string \<Rightarrow> bool \<Rightarrow> nat list \<Rightarrow> k_timeout \<Rightarrow> 'a xs_world_scheme \<Rightarrow>
     (int \<times> nat list \<times> 'a xs_world_scheme) option" where
  "queue_watch_notifications_xsel_locked path recursive_remove local_events deadline w =
     (let (rc, w1) = xss_mutex_lock_deadline deadline w in
      if rc \<noteq> 0 then Some (rc, local_events, w1)
      else queue_loop (watch_entry_list w1) path recursive_remove local_events deadline w1)"

definition notify_watchers_deadline ::
  "string \<Rightarrow> k_timeout \<Rightarrow> 'a xs_world_scheme \<Rightarrow> (int \<times> 'a xs_world_scheme) option" where
  "notify_watchers_deadline path deadline w =
     (let (rc1, w1) = xss_mutex_lock_deadline deadline w in
      if rc1 \<noteq> 0 then Some (rc1, w1)
      else
        let (rc2, w2) = xss_mutex_lock_deadline deadline w1 in
        if rc2 \<noteq> 0 then Some (rc2, w2)
        else
          do { (rc, evs, w3) \<leftarrow> queue_watch_notifications_xsel_locked path False [] deadline w2;
               w4 \<leftarrow> dispatch_local_watch_events_locked evs w3;
               Some (rc, w4) })"

definition notify_watchers :: "string \<Rightarrow> 'a xs_world_scheme \<Rightarrow> 'a xs_world_scheme option" where
  "notify_watchers path w = map_option snd (notify_watchers_deadline path K_FOREVER w)"

section \<open>Removal\<close>

definition xss_do_rm_deadline ::
  "string \<Rightarrow> u32 \<Rightarrow> k_timeout \<Rightarrow> 'a xs_world_scheme \<Rightarrow> (int \<times> 'a xs_world_scheme) option" where
  "xss_do_rm_deadline key caller_id deadline w =
     (let (rc1, w1) = xss_mutex_lock_deadline deadline w in
      if rc1 \<noteq> 0 then Some (rc1, w1)
      else
        let (rc2, w2) = xss_mutex_lock_deadline deadline w1 in
        if rc2 \<noteq> 0 then Some (rc2, w2)
        else
          do { (entry, w3) \<leftarrow> key_to_entry_check_perm (Some key) caller_id XS_PERM_WRITE w2;
               case entry of
                 None \<Rightarrow> Some (- EINVAL, w3)
               | Some p \<Rightarrow>
                   do { (rc, evs, w4) \<leftarrow> queue_watch_notifications_xsel_locked key True [] deadline w3;
                        if rc \<noteq> 0
                        then do { w5 \<leftarrow> dispatch_local_watch_events_locked evs w4; Some (rc, w5) }
                        else do { w5 \<leftarrow> free_node p w4;
                                  w6 \<leftarrow> dispatch_local_watch_events_locked evs w5;
                                  Some (0, w6) } } })"

definition xss_do_rm ::
  "string \<Rightarrow> u32 \<Rightarrow> k_timeout \<Rightarrow> 'a xs_world_scheme \<Rightarrow> (int \<times> 'a xs_world_scheme) option" where
  "xss_do_rm key caller_id tout w = xss_do_rm_deadline key caller_id tout w"

definition xss_rm :: "string \<Rightarrow> 'a xs_world_scheme \<Rightarrow> (int \<times> 'a xs_world_scheme) option" where
  "xss_rm path w = xss_do_rm path XENSTORE_LOCAL_DOMAIN_ID K_FOREVER w"

section \<open>Dropping the watches of a domain\<close>

fun cleanup_list :: "nat list \<Rightarrow> u32 \<Rightarrow> 'a xs_world_scheme \<Rightarrow> 'a xs_world_scheme option" where
  "cleanup_list [] d w = Some w"
| "cleanup_list (a # as) d w =
     do { iter \<leftarrow> watch_heap w a;
          if we_domain iter = Some d
          then do { w1 \<leftarrow> remove_watch_entry a w; cleanup_list as d w1 }
          else cleanup_list as d w }"

text \<open>The pass over the pending events; \<open>kept\<close> are the events it has left in the list.\<close>

fun cleanup_pending ::
  "pending_watch_event_entry list \<Rightarrow> pending_watch_event_entry list \<Rightarrow> u32 \<Rightarrow>
     'a xs_world_scheme \<Rightarrow> 'a xs_world_scheme option" where
  "cleanup_pending kept [] d w = Some (w\<lparr>pending_watch_event_list := kept\<rparr>)"
| "cleanup_pending kept (p # ps) d w =
     do { e \<leftarrow> watch_heap w (pe_watch p);
          if we_domain e = Some d
          then do { w1 \<leftarrow> watch_entry_put (pe_watch p) w; cleanup_pending kept ps d w1 }
          else cleanup_pending (kept @ [p]) ps d w }"

definition cleanup_domain_watches :: "u32 \<Rightarrow> 'a xs_world_scheme \<Rightarrow> 'a xs_world_scheme option" where
  "cleanup_domain_watches d w =
     do { w1 \<leftarrow> cleanup_list (watch_entry_list w) d w;
          cleanup_pending [] (pending_watch_event_list w1) d w1 }"

section \<open>Registering watches\<close>

text \<open>Allocate and fill an entry that is not yet linked; the result is its address.\<close>

definition new_watch_entry :: "watch_entry \<Rightarrow> 'a xs_world_scheme \<Rightarrow> nat \<times> 'a xs_world_scheme" where
  "new_watch_entry e w =
     (wnext w, w\<lparr>watch_heap := (watch_heap w)(wnext w \<mapsto> e), wnext := wnext w + 1\<rparr>)"

definition alloc_local_watch_entry ::
  "string \<Rightarrow> string \<Rightarrow> nat option \<Rightarrow> nat \<Rightarrow> bool \<Rightarrow> 'a xs_world_scheme \<Rightarrow>
     nat option \<times> 'a xs_world_scheme" where
  "alloc_local_watch_entry key token cb param is_relative w =
     (if cb = None then (None, w)
      else
        let (ok1, w1) = k_malloc w in
        if \<not> ok1 then (None, w1)
        else
          let (ok2, w2) = k_malloc w1 in
          if \<not> ok2 then (None, w2)
          else
            let (a, w3) = new_watch_entry
                  \<lparr>we_key = key, we_token = token @ [NUL], we_domain = None,
                   we_is_relative = is_relative, we_cb = cb, we_param = param,
                   we_pending_path = None, we_ref = 1\<rparr> w2
            in (Some a, w3))"

definition link_watch_entry :: "nat \<Rightarrow> 'a xs_world_scheme \<Rightarrow> 'a xs_world_scheme" where
  "link_watch_entry a w = w\<lparr>watch_entry_list := watch_entry_list w @ [a]\<rparr>"

text \<open>The second half of \<open>xs_watch_timeout\<close>, once the entry is allocated.\<close>

definition xs_watch_register ::
  "nat \<Rightarrow> string \<Rightarrow> string \<Rightarrow> string \<Rightarrow> bool \<Rightarrow> k_timeout \<Rightarrow> 'a xs_world_scheme \<Rightarrow>
     (int \<times> 'a xs_world_scheme) option" where
  "xs_watch_register a watch_path path token fire_initial_event deadline w =
     (let (rc1, w1) = xss_mutex_lock_deadline deadline w in
      if rc1 \<noteq> 0 then do { w2 \<leftarrow> destroy_watch_entry a w1; Some (rc1, w2) }
      else
        let (rc2, w2) = xss_mutex_lock_deadline deadline w1 in
        if rc2 \<noteq> 0 then do { w3 \<leftarrow> destroy_watch_entry a w2; Some (rc2, w3) }
        else
          do { dup \<leftarrow> key_to_watcher watch_path (Some (token @ [NUL])) None w2;
               if dup \<noteq> None then do { w3 \<leftarrow> destroy_watch_entry a w2; Some (- EEXIST, w3) }
               else
                 do { (rc, evs, w3) \<leftarrow>
                        (if fire_initial_event
                         then queue_local_watch_event_locked [] a path (link_watch_entry a w2)
                         else Some (0, [], link_watch_entry a w2));
                      w4 \<leftarrow> dispatch_local_watch_events_locked evs w3;
                      Some (0, w4) } })"

definition xs_watch_timeout ::
  "string option \<Rightarrow> string option \<Rightarrow> nat option \<Rightarrow> nat \<Rightarrow> k_timeout \<Rightarrow> 'a xs_world_scheme \<Rightarrow>
     (int \<times> 'a xs_world_scheme) option" where
  "xs_watch_timeout path token cb param tout w =
     (case (path, token, cb) of
        (Some p, Some t, Some c) \<Rightarrow>
          (case construct_path p XENSTORE_LOCAL_DOMAIN_ID w of
             (Inl rc, w1) \<Rightarrow> Some (rc, w1)
           | (Inr watch_path, w1) \<Rightarrow>
               let (rc2, w2) = xss_mutex_lock_deadline tout w1 in
               if rc2 \<noteq> 0 then Some (rc2, w2)
               else
                 do { (entry, w3) \<leftarrow> key_to_entry_check_perm (Some watch_path)
                                      XENSTORE_LOCAL_DOMAIN_ID XS_PERM_READ w2;
                      let (rc4, w4) = xss_mutex_lock_deadline tout w3 in
                      if rc4 \<noteq> 0 then Some (rc4, w4)
                      else
                        do { dup \<leftarrow> key_to_watcher watch_path (Some (t @ [NUL])) None w4;
                             if dup \<noteq> None then Some (- EEXIST, w4)
                             else
                               (case alloc_local_watch_entry watch_path t (Some c) param
                                       (\<not> xenstore_is_abs_path (Some p)) w4 of
                                  (None, w5) \<Rightarrow> Some (- ENOMEM, w5)
                                | (Some a, w5) \<Rightarrow>
                                    xs_watch_register a watch_path p t (entry \<noteq> None) tout w5) } })
      | _ \<Rightarrow> Some (- EINVAL, w))"

definition xs_unwatch_timeout ::
  "string option \<Rightarrow> string option \<Rightarrow> k_timeout \<Rightarrow> 'a xs_world_scheme \<Rightarrow>
     (int \<times> 'a xs_world_scheme) option" where
  "xs_unwatch_timeout path token tout w =
     (case (path, token) of
        (Some p, Some t) \<Rightarrow>
          (case construct_path p XENSTORE_LOCAL_DOMAIN_ID w of
             (Inl rc, w1) \<Rightarrow> Some (rc, w1)
           | (Inr watch_path, w1) \<Rightarrow>
               let (rc2, w2) = xss_mutex_lock_deadline tout w1 in
               if rc2 \<noteq> 0 then Some (rc2, w2)
               else
                 do { entry \<leftarrow> key_to_watcher watch_path (Some (t @ [NUL])) None w2;
                      case entry of
                        None \<Rightarrow> Some (0, w2)
                      | Some a \<Rightarrow> do { w3 \<leftarrow> remove_watch_entry a w2; Some (0, w3) } })
      | _ \<Rightarrow> Some (- EINVAL, w))"

end
