(* ===== verification/Xs_Watch_Safety.thy ===== *)
theory Xs_Watch_Safety
  imports Xs_Watch
begin

text \<open>
  The reference counts of watch entries are right: an entry is alive exactly as long as it is
  registered, has an event pending for a guest or has a local event to dispatch.  From this
  follows that no operation follows or frees a dead entry, that no entry leaks, and that the
  assertions of the code hold.
\<close>

section \<open>The invariant\<close>

text \<open>The references to the entry at \<open>a\<close>: \<open>L\<close> is the list of local events being dispatched.\<close>

definition watch_refs ::
  "nat list \<Rightarrow> nat list \<Rightarrow> pending_watch_event_entry list \<Rightarrow> nat \<Rightarrow> nat" where
  "watch_refs L reg pend a =
     (if a \<in> set reg then 1 else 0) + count_list (map pe_watch pend) a + count_list L a"

definition heap_refs :: "(nat \<Rightarrow> watch_entry option) \<Rightarrow> (nat \<Rightarrow> nat) \<Rightarrow> bool" where
  "heap_refs h f \<longleftrightarrow>
     (\<forall>a e. h a = Some e \<longrightarrow> we_ref e = f a \<and> 0 < f a) \<and> (\<forall>a. h a = None \<longrightarrow> f a = 0)"

definition watch_home :: "watch_entry \<Rightarrow> string" where
  "watch_home e = local_path (case we_domain e of None \<Rightarrow> XENSTORE_LOCAL_DOMAIN_ID | Some d \<Rightarrow> d)"

text \<open>The token is terminated, and a relative watch lies below the home of its domain.\<close>

definition entry_static :: "watch_entry \<Rightarrow> bool" where
  "entry_static e \<longleftrightarrow>
     cstr (we_token e) \<noteq> None \<and> (we_is_relative e \<longrightarrow> prefix (watch_home e) (we_key e))"

definition entry_ok :: "nat list \<Rightarrow> pending_watch_event_entry list \<Rightarrow> nat \<Rightarrow> watch_entry \<Rightarrow> bool" where
  "entry_ok L pend a e \<longleftrightarrow>
     entry_static e \<and> (we_pending_path e \<noteq> None \<longleftrightarrow> a \<in> set L) \<and>
     (a \<in> set L \<longrightarrow> we_domain e = None) \<and>
     (\<forall>p \<in> set pend. pe_watch p = a \<longrightarrow>
        we_domain e \<noteq> None \<and> (we_key e = [slash] \<or> prefix (we_key e) (event_path p)))"

definition watch_inv :: "nat list \<Rightarrow> 'a xs_world_scheme \<Rightarrow> bool" where
  "watch_inv L w \<longleftrightarrow>
     distinct (watch_entry_list w) \<and> distinct L \<and>
     (\<forall>a. wnext w \<le> a \<longrightarrow> watch_heap w a = None) \<and>
     heap_refs (watch_heap w) (watch_refs L (watch_entry_list w) (pending_watch_event_list w)) \<and>
     (\<forall>a e. watch_heap w a = Some e \<longrightarrow> entry_ok L (pending_watch_event_list w) a e)"

definition world_ok :: "'a xs_world_scheme \<Rightarrow> bool" where
  "world_ok w \<longleftrightarrow> wf_tree (root_xenstore w) \<and> watch_inv [] w"

section \<open>What does not concern watches\<close>

lemma watch_inv_frame [simp]:
  "watch_inv L (w\<lparr>mallocs := bs\<rparr>) = watch_inv L w"
  "watch_inv L (w\<lparr>locks := ls\<rparr>) = watch_inv L w"
  "watch_inv L (w\<lparr>root_xenstore := r\<rparr>) = watch_inv L w"
  "watch_inv L (w\<lparr>xb_sem := s\<rparr>) = watch_inv L w"
  "watch_inv L (w\<lparr>cb_log := c\<rparr>) = watch_inv L w"
  by (simp_all add: watch_inv_def)

lemma lock_frame: "xss_mutex_lock_deadline tout w = (rc, w1) \<Longrightarrow> \<exists>ls. w1 = w\<lparr>locks := ls\<rparr>"
proof -
  assume "xss_mutex_lock_deadline tout w = (rc, w1)"
  then have "w1 = w\<lparr>locks := locks w1\<rparr>"
    by (auto simp: xss_mutex_lock_deadline_def split: k_timeout.splits list.splits if_splits)
  then show ?thesis by blast
qed

lemma key_to_entry_frame: "key_to_entry key w = (r, w1) \<Longrightarrow> \<exists>bs. w1 = w\<lparr>mallocs := bs\<rparr>"
proof -
  assume k: "key_to_entry key w = (r, w1)"
  obtain ok w2 where m: "k_malloc w = (ok, w2)" by fastforce
  from k m have "w1 = w \<or> w1 = w2"
    by (auto simp: key_to_entry_def Let_def split: option.splits if_splits prod.splits)
  moreover have "w = w\<lparr>mallocs := mallocs w\<rparr>" by simp
  ultimately show ?thesis using k_malloc_frame [OF m] by metis
qed

lemma lookup_total:
  assumes "wf_tree (root_xenstore w)"
  shows "\<exists>entry bs. key_to_entry_check_perm key d perms w = Some (entry, w\<lparr>mallocs := bs\<rparr>)"
proof -
  obtain r w1 where k: "key_to_entry key w = (r, w1)" by fastforce
  obtain bs where w1: "w1 = w\<lparr>mallocs := bs\<rparr>" using key_to_entry_frame [OF k] by blast
  have "\<exists>ok. check_perms_for_entry r d perms w1 = Some ok"
  proof (cases r)
    case None
    then show ?thesis by (auto simp: check_perms_for_entry_def)
  next
    case (Some p)
    obtain e where e: "node_at (root_xenstore w) p = Some e"
      using key_to_entry_Some [OF k [unfolded Some]] by blast
    then show ?thesis
      using check_perms_total [OF wf_tree_perms [OF assms e]] Some w1
      by (simp add: check_perms_for_entry_def)
  qed
  with k w1 show ?thesis by (auto simp: key_to_entry_check_perm_def)
qed

text \<open>A lookup with a permission check that succeeds.\<close>

lemma lookup_permitted:
  assumes "key_to_entry_check_perm (Some key) d perms w = Some (Some p, w1)"
  shows "p = strtok_all slash key \<and>
    (\<exists>e. node_at (root_xenstore w) (strtok_all slash key) = Some e \<and> check_perms e perms d = Some True)"
proof -
  obtain r w2 where k: "key_to_entry (Some key) w = (r, w2)" by fastforce
  with assms obtain ok where c: "check_perms_for_entry r d perms w2 = Some ok"
    by (cases "check_perms_for_entry r d perms w2") (simp_all add: key_to_entry_check_perm_def)
  with assms k have "ok" "r = Some p"
    by (cases ok; simp add: key_to_entry_check_perm_def)+
  with c have r: "r = Some p" "check_perms_for_entry (Some p) d perms w2 = Some True" by simp_all
  show ?thesis
    by (rule key_to_entry_Some [OF k [unfolded r(1)]])
      (use key_to_entry_root [OF k] r(2) in \<open>simp add: check_perms_for_entry_def\<close>)
qed

section \<open>Taking and dropping references\<close>

lemma heap_refs_alive: "heap_refs h f \<Longrightarrow> 0 < f a \<Longrightarrow> \<exists>e. h a = Some e \<and> we_ref e = f a"
  by (cases "h a") (auto simp: heap_refs_def)

lemma heap_refs_dead: "heap_refs h f \<Longrightarrow> h a = Some e \<Longrightarrow> we_ref e = f a \<and> 0 < f a"
  by (simp add: heap_refs_def)

lemma heap_refs_upd:
  "heap_refs h f \<Longrightarrow> we_ref e = n \<Longrightarrow> 0 < n \<Longrightarrow> heap_refs (h(a \<mapsto> e)) (f(a := n))"
  by (simp add: heap_refs_def)

lemma heap_refs_free: "heap_refs h f \<Longrightarrow> heap_refs (h(a := None)) (f(a := 0))"
  by (simp add: heap_refs_def)

lemma watch_put:
  assumes "heap_refs (watch_heap w) f" "watch_heap w a = Some e"
  shows "watch_entry_put a w = Some (w\<lparr>watch_heap := (watch_heap w)
      (a := if f a = 1 then None else Some (e\<lparr>we_ref := f a - 1\<rparr>))\<rparr>) \<and>
    heap_refs ((watch_heap w)(a := if f a = 1 then None else Some (e\<lparr>we_ref := f a - 1\<rparr>)))
      (f(a := f a - 1))"
  using heap_refs_dead [OF assms] assms
  by (auto simp: watch_entry_put_def destroy_watch_entry_def intro: heap_refs_free
      heap_refs_upd dest: heap_refs_free [of _ _ a])

lemma refs_add_pending:
  "watch_refs L reg (pend @ [p]) =
     (watch_refs L reg pend)(pe_watch p := watch_refs L reg pend (pe_watch p) + 1)"
  by (rule ext) (simp add: watch_refs_def)

lemma refs_add_local:
  "watch_refs (L @ [a]) reg pend = (watch_refs L reg pend)(a := watch_refs L reg pend a + 1)"
  by (rule ext) (simp add: watch_refs_def)

lemma refs_local_Cons:
  "(watch_refs (a # L) reg pend)(a := watch_refs (a # L) reg pend a - 1) = watch_refs L reg pend"
  by (rule ext) (simp add: watch_refs_def)

lemma refs_link:
  "a \<notin> set reg \<Longrightarrow>
   watch_refs L (reg @ [a]) pend = (watch_refs L reg pend)(a := watch_refs L reg pend a + 1)"
  by (rule ext) (simp add: watch_refs_def)

lemma refs_unlink:
  "distinct reg \<Longrightarrow> a \<in> set reg \<Longrightarrow>
   watch_refs L (remove1 a reg) pend = (watch_refs L reg pend)(a := watch_refs L reg pend a - 1)"
  by (rule ext) (simp add: watch_refs_def)

lemma refs_pos:
  "0 < watch_refs L reg pend a \<longleftrightarrow> a \<in> set reg \<or> a \<in> pe_watch ` set pend \<or> a \<in> set L"
  by (auto simp: watch_refs_def count_list_0_iff simp flip: neq0_conv)

text \<open>What the invariant says of an entry that is referenced.\<close>

lemma watch_inv_alive:
  assumes "watch_inv L w" "a \<in> set (watch_entry_list w) \<or> a \<in> pe_watch ` set (pending_watch_event_list w) \<or> a \<in> set L"
  shows "\<exists>e. watch_heap w a = Some e \<and> entry_ok L (pending_watch_event_list w) a e"
proof -
  have "0 < watch_refs L (watch_entry_list w) (pending_watch_event_list w) a"
    using assms(2) by (simp only: refs_pos)
  then show ?thesis using assms(1) heap_refs_alive unfolding watch_inv_def by blast
qed

lemma watch_inv_addr: "watch_inv L w \<Longrightarrow> watch_heap w a = Some e \<Longrightarrow> a < wnext w"
  unfolding watch_inv_def by (metis not_le option.distinct(1))

section \<open>Local events\<close>

lemma queue_local_inv:
  assumes "watch_inv L w" "watch_heap w a = Some e" "a \<notin> set L"
  shows "\<exists>rc L' w'. queue_local_watch_event_locked L a path w = Some (rc, L', w') \<and>
    watch_inv L' w' \<and> root_xenstore w' = root_xenstore w \<and>
    watch_entry_list w' = watch_entry_list w \<and> set L' \<subseteq> insert a (set L)"
proof -
  obtain ok w1 where m: "k_malloc w = (ok, w1)" by fastforce
  obtain bs where w1: "w1 = w\<lparr>mallocs := bs\<rparr>" using k_malloc_frame [OF m] by blast
  have ok: "entry_ok L (pending_watch_event_list w) a e" using assms(1,2) by (simp add: watch_inv_def)
  show ?thesis
  proof (cases "we_domain e = None \<and> ok")
    case False
    then show ?thesis using assms(1,2) m w1
      by (cases "we_domain e") (auto simp: queue_local_watch_event_locked_def)
  next
    case True
    have np: "we_pending_path e = None" using ok assms(3) by (simp add: entry_ok_def)
    let ?e = "e\<lparr>we_ref := we_ref e + 1, we_pending_path := Some path\<rparr>"
    let ?w = "w1\<lparr>watch_heap := (watch_heap w1)(a \<mapsto> ?e)\<rparr>"
    have hr: "heap_refs (watch_heap w) (watch_refs L (watch_entry_list w) (pending_watch_event_list w))"
      using assms(1) by (simp add: watch_inv_def)
    have "heap_refs (watch_heap ?w)
        (watch_refs (L @ [a]) (watch_entry_list w) (pending_watch_event_list w))"
      unfolding refs_add_local using heap_refs_upd [OF hr] heap_refs_dead [OF hr assms(2)] w1 by simp
    moreover have "entry_ok (L @ [a]) (pending_watch_event_list w) b x"
      if "watch_heap ?w b = Some x" for b x
    proof (cases "b = a")
      case True
      then show ?thesis using that ok \<open>we_domain e = None \<and> ok\<close> w1
        by (auto simp: entry_ok_def entry_static_def watch_home_def)
    next
      case False
      then have "watch_heap w b = Some x" using that w1 by simp
      then have "entry_ok L (pending_watch_event_list w) b x" using assms(1) by (simp add: watch_inv_def)
      with False show ?thesis by (simp add: entry_ok_def)
    qed
    ultimately have "watch_inv (L @ [a]) ?w"
      using assms watch_inv_addr [OF assms(1,2)] w1 by (auto simp: watch_inv_def)
    moreover have "queue_local_watch_event_locked L a path w = Some (0, L @ [a], ?w)"
      using True assms(2) m np by (simp add: queue_local_watch_event_locked_def)
    ultimately show ?thesis using w1 by auto
  qed
qed

lemma dispatch_inv:
  fixes w :: "'a xs_world_scheme"
  assumes "watch_inv L w"
  shows "\<exists>w'. dispatch_local_watch_events_locked L w = Some w' \<and> watch_inv [] w' \<and>
    root_xenstore w' = root_xenstore w \<and> watch_entry_list w' = watch_entry_list w"
  using assms
proof (induction L arbitrary: w)
  case (Cons a L)
  let ?reg = "watch_entry_list w" and ?pend = "pending_watch_event_list w"
  obtain e where e: "watch_heap w a = Some e" "entry_ok (a # L) ?pend a e"
    using watch_inv_alive [OF Cons.prems, of a] by auto
  then obtain path where path: "we_pending_path e = Some path" by (auto simp: entry_ok_def)
  let ?e = "e\<lparr>we_pending_path := None\<rparr>"
  define w1 where "w1 = w\<lparr>watch_heap := (watch_heap w)(a \<mapsto> ?e),
      cb_log := cb_log w @ [(we_cb e, path, we_token e, we_param e)]\<rparr>"
  let ?f = "watch_refs (a # L) ?reg ?pend"
  have hr: "heap_refs (watch_heap w) ?f" using Cons.prems by (simp add: watch_inv_def)
  have "heap_refs ((watch_heap w)(a \<mapsto> ?e)) (?f(a := ?f a))"
    using heap_refs_dead [OF hr e(1)] by (intro heap_refs_upd [OF hr]) simp_all
  then have hr1: "heap_refs (watch_heap w1) ?f" by (simp add: w1_def)
  define h2 where "h2 = (watch_heap w1)(a := if ?f a = 1 then None else Some (?e\<lparr>we_ref := ?f a - 1\<rparr>))"
  have put: "watch_entry_put a w1 = Some (w1\<lparr>watch_heap := h2\<rparr>)" "heap_refs h2 (?f(a := ?f a - 1))"
    using watch_put [OF hr1, of a ?e] by (simp_all add: w1_def h2_def)
  have ok2: "entry_ok L ?pend b x" if "h2 b = Some x" for b x
  proof (cases "b = a")
    case True
    then have "x = ?e\<lparr>we_ref := ?f a - 1\<rparr>" using that by (auto simp: h2_def split: if_splits)
    moreover have "a \<notin> set L" using Cons.prems by (simp add: watch_inv_def)
    ultimately show ?thesis using e(2) True
      by (auto simp: entry_ok_def entry_static_def watch_home_def)
  next
    case False
    then have "watch_heap w b = Some x" using that by (simp add: h2_def w1_def)
    then have "entry_ok (a # L) ?pend b x" using Cons.prems by (simp add: watch_inv_def)
    with False show ?thesis by (simp add: entry_ok_def)
  qed
  have "watch_inv L (w1\<lparr>watch_heap := h2\<rparr>)"
    using Cons.prems put(2) ok2 watch_inv_addr [OF Cons.prems e(1)] unfolding refs_local_Cons
    by (auto simp: watch_inv_def w1_def h2_def)
  from Cons.IH [OF this] show ?case using e(1) path put(1) by (simp add: w1_def)
qed auto

section \<open>Events for guests\<close>

text \<open>An entry that gains a reference.\<close>

lemma entry_ok_ref: "entry_ok L pend a (e\<lparr>we_ref := n\<rparr>) = entry_ok L pend a e"
  by (simp add: entry_ok_def entry_static_def watch_home_def)

lemma queue_pending_inv:
  fixes w :: "'a xs_world_scheme"
  assumes "watch_inv L w" "watch_heap w a = Some e" "we_domain e = Some d" "a \<notin> set L"
    "we_key e = [slash] \<or> prefix (we_key e) path"
  shows "\<exists>rc w'. queue_pending_watch_event a path deadline w = Some (rc, w') \<and>
    watch_inv L w' \<and> root_xenstore w' = root_xenstore w \<and> watch_entry_list w' = watch_entry_list w"
proof -
  obtain ok1 w1 where m1: "k_malloc w = (ok1, w1)" by fastforce
  obtain ok2 w2 where m2: "k_malloc w1 = (ok2, w2)" by fastforce
  obtain bs where w1: "w1 = w\<lparr>mallocs := bs\<rparr>" using k_malloc_frame [OF m1] by blast
  then obtain bs' where w2: "w2 = w\<lparr>mallocs := bs'\<rparr>" using k_malloc_frame [OF m2] by auto
  let ?reg = "watch_entry_list w" and ?pend = "pending_watch_event_list w"
  let ?e = "e\<lparr>we_ref := we_ref e + 1\<rparr>"
  have hr: "heap_refs (watch_heap w) (watch_refs L ?reg ?pend)" using assms(1) by (simp add: watch_inv_def)
  note ref = heap_refs_dead [OF hr assms(2)]
  define w3 where "w3 = w2\<lparr>watch_heap := (watch_heap w2)(a \<mapsto> ?e)\<rparr>"
  have get: "watch_entry_get a w2 = Some w3" using assms(2) w2 by (simp add: watch_entry_get_def w3_def)
  obtain rc w4 where l: "xss_mutex_lock_deadline deadline w3 = (rc, w4)" by fastforce
  obtain ls where w4: "w4 = w3\<lparr>locks := ls\<rparr>" using lock_frame [OF l] by blast
  show ?thesis
  proof (cases "ok1 \<and> ok2")
    case False
    then show ?thesis using assms m1 m2 w1 w2
      by (cases ok1) (auto simp: queue_pending_watch_event_def)
  next
    case ok: True
    show ?thesis
    proof (cases "rc = 0")
      case False
      have "we_ref e \<noteq> 0" using ref by simp
      moreover have "(watch_heap w)(a \<mapsto> e) = watch_heap w" using assms(2) by (simp add: fun_upd_idem)
      ultimately have "watch_entry_put a w4 = Some (w2\<lparr>locks := ls\<rparr>)"
        using assms(2) w2 w4 by (simp add: watch_entry_put_def w3_def)
      with False ok assms m1 m2 get l show ?thesis
        by (auto simp: queue_pending_watch_event_def w2)
    next
      case True
      let ?p = "\<lparr>event_path = path, pe_watch = a\<rparr>"
      let ?w = "w4\<lparr>pending_watch_event_list := pending_watch_event_list w4 @ [?p],
                   xb_sem := (xb_sem w4)(d := True)\<rparr>"
      have "heap_refs ((watch_heap w)(a \<mapsto> ?e)) (watch_refs L ?reg (?pend @ [?p]))"
        unfolding refs_add_pending using heap_refs_upd [OF hr] ref by simp
      moreover have "entry_ok L (?pend @ [?p]) b x" if "((watch_heap w)(a \<mapsto> ?e)) b = Some x" for b x
      proof (cases "b = a")
        case True
        have "entry_ok L ?pend a e" using assms(1,2) by (simp add: watch_inv_def)
        with True that assms(3-5) show ?thesis
          by (auto simp: entry_ok_def entry_static_def watch_home_def)
      next
        case False
        then have "entry_ok L ?pend b x" using that assms(1) by (simp add: watch_inv_def)
        with False show ?thesis by (auto simp: entry_ok_def)
      qed
      ultimately have "watch_inv L ?w"
        using assms(1) watch_inv_addr [OF assms(1,2)] by (auto simp: watch_inv_def w4 w3_def w2)
      moreover have "queue_pending_watch_event a path deadline w = Some (0, ?w)"
        using ok True assms m1 m2 get l by (simp add: queue_pending_watch_event_def)
      ultimately show ?thesis by (simp add: w4 w3_def w2)
    qed
  qed
qed

lemma event_for_prefix:
  "event_for path rec key = Some ev \<Longrightarrow> key = [slash] \<or> prefix key ev"
  by (auto simp: event_for_def xenstore_path_contains_def xenstore_is_root_path_def
      xenstore_is_abs_path_def prefix_def length_Suc_conv split: if_splits dest!: sym [of "take _ _"])
    (metis append_take_drop_id)+

lemma local_path_not_root: "\<not> prefix (local_path d) [slash]"
  by (simp add: local_path_def)

lemma skip_local_ok:
  assumes "prefix (local_path d) key" "key = [slash] \<or> prefix key ev"
  shows "\<exists>s. ev = local_path d @ s \<and> skip_local d ev = Some s"
proof -
  have "prefix (local_path d) ev"
    using assms local_path_not_root by (metis prefix_order.trans)
  then show ?thesis by (auto simp: prefix_def skip_local_def)
qed

lemma queue_loop_inv:
  fixes w :: "'a xs_world_scheme"
  assumes "watch_inv L w" "wf_tree (root_xenstore w)" "set as \<subseteq> set (watch_entry_list w)"
    "distinct as" "set as \<inter> set L = {}"
  shows "\<exists>rc L' w'. queue_loop as path rec L deadline w = Some (rc, L', w') \<and>
    watch_inv L' w' \<and> root_xenstore w' = root_xenstore w \<and> watch_entry_list w' = watch_entry_list w"
  using assms
proof (induction as arbitrary: L w)
  case (Cons a as)
  obtain e where e: "watch_heap w a = Some e" "entry_ok L (pending_watch_event_list w) a e"
    using watch_inv_alive [OF Cons.prems(1), of a] Cons.prems(3) by auto
  have next_step: "\<exists>rc L'' w''. queue_loop as path rec L' deadline w' = Some (rc, L'', w'') \<and>
      watch_inv L'' w'' \<and> root_xenstore w'' = root_xenstore w \<and> watch_entry_list w'' = watch_entry_list w"
    if "watch_inv L' w'" "root_xenstore w' = root_xenstore w" "watch_entry_list w' = watch_entry_list w"
      "set L' \<subseteq> insert a (set L)" for L' and w' :: "'a xs_world_scheme"
  proof -
    have "set as \<inter> set L' = {}" using Cons.prems(4,5) that(4) by auto
    then show ?thesis using Cons.IH [OF that(1)] Cons.prems that by auto
  qed
  show ?case
  proof (cases "event_for path rec (we_key e)")
    case None
    then show ?thesis using next_step [OF Cons.prems(1)] e(1) by auto
  next
    case (Some ev)
    note pre = event_for_prefix [OF Some]
    obtain entry bs where k: "key_to_entry_check_perm (Some ev)
        (case we_domain e of None \<Rightarrow> XENSTORE_LOCAL_DOMAIN_ID | Some d \<Rightarrow> d) XS_PERM_READ w =
        Some (entry, w\<lparr>mallocs := bs\<rparr>)"
      using lookup_total [OF Cons.prems(2)] by blast
    let ?w1 = "w\<lparr>mallocs := bs\<rparr>"
    have i1: "watch_inv L ?w1" "watch_heap ?w1 a = Some e" "a \<notin> set L"
      using Cons.prems(1,5) e(1) by auto
    show ?thesis
    proof (cases "entry = None")
      case True
      then show ?thesis using next_step [of L ?w1] Cons.prems(1) e(1) Some k subset_insertI [of "set L" a] by auto
    next
      case found: False
      show ?thesis
      proof (cases "we_domain e")
        case None
        obtain ev' where ev': "(if we_is_relative e then skip_local XENSTORE_LOCAL_DOMAIN_ID ev else Some ev) = Some ev'"
          using e(2) pre skip_local_ok [of XENSTORE_LOCAL_DOMAIN_ID "we_key e" ev] None
          by (cases "we_is_relative e") (auto simp: entry_ok_def entry_static_def watch_home_def)
        obtain rc L' w' where q: "queue_local_watch_event_locked L a ev' ?w1 = Some (rc, L', w')"
          "watch_inv L' w'" "root_xenstore w' = root_xenstore w"
          "watch_entry_list w' = watch_entry_list w" "set L' \<subseteq> insert a (set L)"
          using queue_local_inv [OF i1, of ev'] by auto
        then show ?thesis using next_step [OF q(2-5)] e(1) Some k found None ev' by (cases entry) simp_all
      next
        case (Some d)
        obtain rc w' where q: "queue_pending_watch_event a ev deadline ?w1 = Some (rc, w')"
          "watch_inv L w'" "root_xenstore w' = root_xenstore w" "watch_entry_list w' = watch_entry_list w"
          using queue_pending_inv [OF i1(1,2) Some i1(3) pre, of deadline] by auto
        then show ?thesis
          using next_step [OF q(2-4)] e(1) \<open>event_for path rec (we_key e) = Some ev\<close> k found Some
          by (cases "rc = 0") auto
      qed
    qed
  qed
qed auto


lemma queue_notifications_inv:
  assumes "watch_inv [] w" "wf_tree (root_xenstore w)"
  shows "\<exists>rc L' w'. queue_watch_notifications_xsel_locked path rec [] deadline w = Some (rc, L', w') \<and>
    watch_inv L' w' \<and> root_xenstore w' = root_xenstore w \<and> watch_entry_list w' = watch_entry_list w"
proof -
  obtain rc w1 where l: "xss_mutex_lock_deadline deadline w = (rc, w1)" by fastforce
  obtain ls where w1: "w1 = w\<lparr>locks := ls\<rparr>" using lock_frame [OF l] by blast
  have "watch_inv [] w1" "wf_tree (root_xenstore w1)" using assms w1 by auto
  moreover have "distinct (watch_entry_list w1)" using assms(1) w1 by (simp add: watch_inv_def)
  ultimately show ?thesis
    using queue_loop_inv [of "[]" w1 "watch_entry_list w1" path rec deadline] l w1 assms(1)
    by (cases "rc = 0") (auto simp: queue_watch_notifications_xsel_locked_def)
qed

lemma notify_inv:
  assumes "world_ok w"
  shows "\<exists>rc w'. notify_watchers_deadline path deadline w = Some (rc, w') \<and> world_ok w' \<and>
    root_xenstore w' = root_xenstore w"
proof -
  obtain rc1 w1 where l1: "xss_mutex_lock_deadline deadline w = (rc1, w1)" by fastforce
  obtain rc2 w2 where l2: "xss_mutex_lock_deadline deadline w1 = (rc2, w2)" by fastforce
  obtain ls1 where w1: "w1 = w\<lparr>locks := ls1\<rparr>" using lock_frame [OF l1] by blast
  obtain ls2 where w2: "w2 = w\<lparr>locks := ls2\<rparr>" using lock_frame [OF l2] w1 by auto
  have ok: "watch_inv [] w2" "wf_tree (root_xenstore w2)" using assms w2 by (simp_all add: world_ok_def)
  obtain rc L w3 where q: "queue_watch_notifications_xsel_locked path False [] deadline w2 = Some (rc, L, w3)"
    "watch_inv L w3" "root_xenstore w3 = root_xenstore w2"
    using queue_notifications_inv [OF ok, of path False deadline] by blast
  obtain w4 where d: "dispatch_local_watch_events_locked L w3 = Some w4" "watch_inv [] w4"
    "root_xenstore w4 = root_xenstore w3"
    using dispatch_inv [OF q(2)] by blast
  show ?thesis
    using assms l1 l2 w1 w2 q d
    by (cases "rc1 = 0"; cases "rc2 = 0") (auto simp: notify_watchers_deadline_def world_ok_def)
qed

lemma do_rm_inv:
  assumes "world_ok w" "strtok_all slash key \<noteq> []"
  shows "\<exists>rc w'. xss_do_rm_deadline key d deadline w = Some (rc, w') \<and> world_ok w' \<and>
    (if rc = 0
     then (\<exists>e. node_at (root_xenstore w) (strtok_all slash key) = Some e \<and>
             check_perms e XS_PERM_WRITE d = Some True) \<and>
          root_xenstore w' = remove_at (strtok_all slash key) (root_xenstore w)
     else root_xenstore w' = root_xenstore w)"
proof -
  let ?ts = "strtok_all slash key"
  obtain rc1 w1 where l1: "xss_mutex_lock_deadline deadline w = (rc1, w1)" by fastforce
  obtain rc2 w2 where l2: "xss_mutex_lock_deadline deadline w1 = (rc2, w2)" by fastforce
  obtain ls1 where w1: "w1 = w\<lparr>locks := ls1\<rparr>" using lock_frame [OF l1] by blast
  obtain ls2 where w2: "w2 = w\<lparr>locks := ls2\<rparr>" using lock_frame [OF l2] w1 by auto
  have wf: "wf_tree (root_xenstore w2)" "watch_inv [] w2" using assms(1) w2 by (simp_all add: world_ok_def)
  obtain entry bs where k: "key_to_entry_check_perm (Some key) d XS_PERM_WRITE w2 =
      Some (entry, w2\<lparr>mallocs := bs\<rparr>)" using lookup_total [OF wf(1)] by blast
  let ?w3 = "w2\<lparr>mallocs := bs\<rparr>"
  show ?thesis
  proof (cases "rc1 = 0 \<and> rc2 = 0 \<and> entry \<noteq> None")
    case False
    then show ?thesis using assms(1) l1 l2 w1 w2 k
      by (cases "rc1 = 0"; cases "rc2 = 0") (auto simp: xss_do_rm_deadline_def world_ok_def)
  next
    case True
    then obtain p where p: "entry = Some p" by auto
    obtain e where e: "p = ?ts" "node_at (root_xenstore w) ?ts = Some e"
        "check_perms e XS_PERM_WRITE d = Some True"
      using lookup_permitted [OF k [unfolded p]] w2 by auto
    obtain rc L w4 where q: "queue_watch_notifications_xsel_locked key True [] deadline ?w3 = Some (rc, L, w4)"
      "watch_inv L w4" "root_xenstore w4 = root_xenstore ?w3"
      using queue_notifications_inv [of ?w3 key True deadline] wf by auto
    define w5 where "w5 = (if rc = 0 then w4\<lparr>root_xenstore := remove_at ?ts (root_xenstore w4)\<rparr> else w4)"
    have "watch_inv L w5" using q(2) by (simp add: w5_def)
    then obtain w6 where d6: "dispatch_local_watch_events_locked L w5 = Some w6" "watch_inv [] w6"
      "root_xenstore w6 = root_xenstore w5" using dispatch_inv by blast
    have "xss_do_rm_deadline key d deadline w = Some (rc, w6)"
      using True l1 l2 k p q(1) d6(1) assms(2) e(1)
      by (auto simp: xss_do_rm_deadline_def free_node_def w5_def)
    moreover have "root_xenstore w6 = (if rc = 0 then remove_at ?ts (root_xenstore w) else root_xenstore w)"
      using d6(3) q(3) w2 by (simp add: w5_def)
    ultimately show ?thesis
      using e d6(2) assms(1) wf_tree_remove_at by (auto simp: world_ok_def)
  qed
qed

section \<open>Registration and removal\<close>

lemma remove_watch_inv:
  assumes "watch_inv L w" "a \<in> set (watch_entry_list w)" "watch_heap w a = Some e"
  shows "\<exists>w' x n. remove_watch_entry a w = Some w' \<and> watch_inv L w' \<and>
    root_xenstore w' = root_xenstore w \<and> watch_entry_list w' = remove1 a (watch_entry_list w) \<and>
    watch_heap w' = (watch_heap w)(a := x) \<and> (x = None \<or> x = Some (e\<lparr>we_ref := n\<rparr>))"
proof -
  let ?reg = "watch_entry_list w" and ?pend = "pending_watch_event_list w"
  let ?f = "watch_refs L ?reg ?pend"
  have eo: "entry_ok L ?pend a e" using assms(1,3) by (simp add: watch_inv_def)
  let ?w1 = "w\<lparr>watch_entry_list := remove1 a ?reg\<rparr>"
  have hr: "heap_refs (watch_heap ?w1) ?f" using assms(1) by (simp add: watch_inv_def)
  define x where "x = (if ?f a = 1 then None else Some (e\<lparr>we_ref := ?f a - 1\<rparr>))"
  let ?h = "(watch_heap w)(a := x)"
  have put: "watch_entry_put a ?w1 = Some (?w1\<lparr>watch_heap := ?h\<rparr>)" "heap_refs ?h (?f(a := ?f a - 1))"
    using watch_put [OF hr, of a e] assms(3) by (simp_all add: x_def)
  have ok: "entry_ok L ?pend b y" if "?h b = Some y" for b y
    using that eo assms(1) by (auto simp: x_def watch_inv_def entry_ok_ref split: if_splits)
  have d: "distinct ?reg" using assms(1) by (simp add: watch_inv_def)
  have "watch_inv L (?w1\<lparr>watch_heap := ?h\<rparr>)"
    using assms(1) put(2) ok watch_inv_addr [OF assms(1,3)]
    unfolding watch_inv_def by (auto simp: refs_unlink [OF d assms(2)])
  then show ?thesis using put(1) by (intro exI [of _ "?w1\<lparr>watch_heap := ?h\<rparr>"] exI [of _ x] exI [of _ "?f a - 1"])
      (simp add: remove_watch_entry_def x_def)
qed

text \<open>Entries of other domains are not touched.\<close>

definition others_kept :: "u32 \<Rightarrow> (nat \<Rightarrow> watch_entry option) \<Rightarrow> (nat \<Rightarrow> watch_entry option) \<Rightarrow> bool" where
  "others_kept d h h' \<longleftrightarrow>
     (\<forall>a e. h a = Some e \<and> we_domain e \<noteq> Some d \<longrightarrow> h' a = Some e) \<and>
     (\<forall>a e'. h' a = Some e' \<longrightarrow> (\<exists>e. h a = Some e \<and> we_domain e = we_domain e'))"

lemma others_kept_refl [simp]: "others_kept d h h"
  by (simp add: others_kept_def)

lemma others_kept_trans: "others_kept d h h' \<Longrightarrow> others_kept d h' h'' \<Longrightarrow> others_kept d h h''"
  unfolding others_kept_def by metis

lemma others_kept_put:
  "h a = Some e \<Longrightarrow> we_domain e = Some d \<Longrightarrow> x = None \<or> x = Some (e\<lparr>we_ref := n\<rparr>) \<Longrightarrow>
   others_kept d h (h(a := x))"
  by (auto simp: others_kept_def)

lemma cleanup_list_inv:
  fixes w :: "'a xs_world_scheme"
  assumes "watch_inv [] w" "set as \<subseteq> set (watch_entry_list w)" "distinct as"
    "\<forall>a \<in> set (watch_entry_list w) - set as. \<forall>e. watch_heap w a = Some e \<longrightarrow> we_domain e \<noteq> Some d"
  shows "\<exists>w'. cleanup_list as d w = Some w' \<and> watch_inv [] w' \<and> root_xenstore w' = root_xenstore w \<and>
    others_kept d (watch_heap w) (watch_heap w') \<and>
    (\<forall>a \<in> set (watch_entry_list w'). \<forall>e. watch_heap w' a = Some e \<longrightarrow> we_domain e \<noteq> Some d)"
  using assms
proof (induction as arbitrary: w)
  case (Cons a as)
  obtain e where e: "watch_heap w a = Some e" using watch_inv_alive [OF Cons.prems(1)] Cons.prems(2) by force
  show ?case
  proof (cases "we_domain e = Some d")
    case False
    then have "\<exists>w'. cleanup_list as d w = Some w' \<and> watch_inv [] w' \<and> root_xenstore w' = root_xenstore w \<and>
      others_kept d (watch_heap w) (watch_heap w') \<and>
      (\<forall>a \<in> set (watch_entry_list w'). \<forall>e. watch_heap w' a = Some e \<longrightarrow> we_domain e \<noteq> Some d)"
      using Cons.prems e by (intro Cons.IH) auto
    then show ?thesis using False e by simp
  next
    case True
    obtain w1 x n where w1: "remove_watch_entry a w = Some w1" "watch_inv [] w1" "root_xenstore w1 = root_xenstore w"
      "watch_entry_list w1 = remove1 a (watch_entry_list w)"
      "watch_heap w1 = (watch_heap w)(a := x)" "x = None \<or> x = Some (e\<lparr>we_ref := n\<rparr>)"
      using remove_watch_inv [OF Cons.prems(1) _ e] Cons.prems(2) by auto
    have dst: "distinct (watch_entry_list w)" using Cons.prems(1) by (simp add: watch_inv_def)
    have "\<exists>w'. cleanup_list as d w1 = Some w' \<and> watch_inv [] w' \<and> root_xenstore w' = root_xenstore w1 \<and>
      others_kept d (watch_heap w1) (watch_heap w') \<and>
      (\<forall>a \<in> set (watch_entry_list w'). \<forall>e. watch_heap w' a = Some e \<longrightarrow> we_domain e \<noteq> Some d)"
    proof (rule Cons.IH [OF w1(2)])
      show "set as \<subseteq> set (watch_entry_list w1)" "distinct as"
        using Cons.prems(2,3) w1(4) dst by auto
      show "\<forall>b \<in> set (watch_entry_list w1) - set as. \<forall>e. watch_heap w1 b = Some e \<longrightarrow> we_domain e \<noteq> Some d"
        using Cons.prems(4) w1(4,5) dst by auto
    qed
    moreover have "others_kept d (watch_heap w) (watch_heap w1)"
      unfolding w1(5) using e True w1(6) by (rule others_kept_put)
    ultimately show ?thesis using True e w1(1,3) others_kept_trans by fastforce
  qed
qed auto

text \<open>While the pending list is walked, the entries kept and those to come hold the references.\<close>

lemma pending_put_inv:
  fixes w :: "'a xs_world_scheme"
  assumes inv: "watch_inv [] (w\<lparr>pending_watch_event_list := kept @ p # ps\<rparr>)"
    and e: "watch_heap w (pe_watch p) = Some e"
  shows "\<exists>x n. watch_entry_put (pe_watch p) w = Some (w\<lparr>watch_heap := (watch_heap w)(pe_watch p := x)\<rparr>) \<and>
    (x = None \<or> x = Some (e\<lparr>we_ref := n\<rparr>)) \<and>
    watch_inv [] (w\<lparr>watch_heap := (watch_heap w)(pe_watch p := x), pending_watch_event_list := kept @ ps\<rparr>)"
proof -
  let ?a = "pe_watch p" and ?reg = "watch_entry_list w"
  let ?f = "watch_refs [] ?reg (kept @ p # ps)"
  have hr: "heap_refs (watch_heap w) ?f" using inv by (simp add: watch_inv_def)
  define x where "x = (if ?f ?a = 1 then None else Some (e\<lparr>we_ref := ?f ?a - 1\<rparr>))"
  let ?w1 = "w\<lparr>watch_heap := (watch_heap w)(?a := x)\<rparr>"
  have put: "watch_entry_put ?a w = Some ?w1" "heap_refs (watch_heap ?w1) (?f(?a := ?f ?a - 1))"
    using watch_put [OF hr e] by (simp_all add: x_def)
  have f: "?f(?a := ?f ?a - 1) = watch_refs [] ?reg (kept @ ps)"
    by (rule ext) (simp add: watch_refs_def)
  have ok: "entry_ok [] (kept @ ps) b y" if "watch_heap ?w1 b = Some y" for b y
  proof -
    have "\<exists>z n. watch_heap w b = Some z \<and> (y = z \<or> y = z\<lparr>we_ref := n\<rparr>)"
      using that e by (auto simp: x_def split: if_splits)
    then have "entry_ok [] (kept @ p # ps) b y"
      using inv by (auto simp: watch_inv_def entry_ok_ref)
    then show ?thesis by (auto simp: entry_ok_def)
  qed
  have addr: "?a < wnext w" using watch_inv_addr [OF inv, of ?a e] e by simp
  have "watch_inv [] (?w1\<lparr>pending_watch_event_list := kept @ ps\<rparr>)"
    using inv put(2) ok addr unfolding watch_inv_def f by auto
  moreover have "x = None \<or> x = Some (e\<lparr>we_ref := ?f ?a - 1\<rparr>)" by (simp add: x_def)
  ultimately show ?thesis using put(1) by auto
qed

lemma cleanup_pending_inv:
  fixes w :: "'a xs_world_scheme"
  assumes "watch_inv [] (w\<lparr>pending_watch_event_list := kept @ ps\<rparr>)"
    "\<forall>p \<in> set kept. \<forall>e. watch_heap w (pe_watch p) = Some e \<longrightarrow> we_domain e \<noteq> Some d"
  shows "\<exists>w'. cleanup_pending kept ps d w = Some w' \<and> watch_inv [] w' \<and> root_xenstore w' = root_xenstore w \<and>
    watch_entry_list w' = watch_entry_list w \<and> others_kept d (watch_heap w) (watch_heap w') \<and>
    (\<forall>p \<in> set (pending_watch_event_list w'). \<forall>e. watch_heap w' (pe_watch p) = Some e \<longrightarrow>
       we_domain e \<noteq> Some d)"
  using assms
proof (induction ps arbitrary: kept w)
  case (Cons p ps)
  let ?a = "pe_watch p"
  obtain e where e: "watch_heap w ?a = Some e"
    using watch_inv_alive [OF Cons.prems(1), of ?a] by auto
  show ?case
  proof (cases "we_domain e = Some d")
    case False
    have "watch_inv [] (w\<lparr>pending_watch_event_list := (kept @ [p]) @ ps\<rparr>)" using Cons.prems(1) by simp
    from Cons.IH [OF this] show ?thesis using False e Cons.prems(2) by auto
  next
    case True
    obtain x n where put: "watch_entry_put ?a w = Some (w\<lparr>watch_heap := (watch_heap w)(?a := x)\<rparr>)"
        "x = None \<or> x = Some (e\<lparr>we_ref := n\<rparr>)"
        "watch_inv [] (w\<lparr>watch_heap := (watch_heap w)(?a := x), pending_watch_event_list := kept @ ps\<rparr>)"
      using pending_put_inv [OF Cons.prems(1) e] by blast
    let ?w1 = "w\<lparr>watch_heap := (watch_heap w)(?a := x)\<rparr>"
    have inv: "watch_inv [] (?w1\<lparr>pending_watch_event_list := kept @ ps\<rparr>)" using put(3) by simp
    have oth: "others_kept d (watch_heap w) (watch_heap ?w1)"
      using others_kept_put [of "watch_heap w" ?a e d x n] e True put(2) by simp
    have "\<forall>q \<in> set kept. \<forall>e. watch_heap ?w1 (pe_watch q) = Some e \<longrightarrow> we_domain e \<noteq> Some d"
    proof
      fix q assume q: "q \<in> set kept"
      with Cons.prems(2) e True have "pe_watch q \<noteq> ?a" by auto
      with Cons.prems(2) q show "\<forall>e. watch_heap ?w1 (pe_watch q) = Some e \<longrightarrow> we_domain e \<noteq> Some d" by simp
    qed
    from Cons.IH [OF inv this] obtain w' where "cleanup_pending kept ps d ?w1 = Some w'"
      "watch_inv [] w'" "root_xenstore w' = root_xenstore ?w1" "watch_entry_list w' = watch_entry_list ?w1"
      "others_kept d (watch_heap ?w1) (watch_heap w')"
      "\<forall>p \<in> set (pending_watch_event_list w'). \<forall>e. watch_heap w' (pe_watch p) = Some e \<longrightarrow> we_domain e \<noteq> Some d"
      by blast
    with True e put(1) others_kept_trans [OF oth] show ?thesis by simp
  qed
qed auto

lemma cleanup_inv:
  assumes "world_ok w"
  shows "\<exists>w'. cleanup_domain_watches d w = Some w' \<and> world_ok w' \<and> root_xenstore w' = root_xenstore w \<and>
    others_kept d (watch_heap w) (watch_heap w') \<and>
    (\<forall>a e. watch_heap w' a = Some e \<longrightarrow> we_domain e \<noteq> Some d)"
proof -
  have inv: "watch_inv [] w" and wf: "wf_tree (root_xenstore w)" using assms by (simp_all add: world_ok_def)
  obtain w1 where w1: "cleanup_list (watch_entry_list w) d w = Some w1" "watch_inv [] w1"
    "root_xenstore w1 = root_xenstore w" "others_kept d (watch_heap w) (watch_heap w1)"
    "\<forall>a \<in> set (watch_entry_list w1). \<forall>e. watch_heap w1 a = Some e \<longrightarrow> we_domain e \<noteq> Some d"
    using cleanup_list_inv [OF inv order_refl, of d] inv by (auto simp: watch_inv_def)
  obtain w2 where w2: "cleanup_pending [] (pending_watch_event_list w1) d w1 = Some w2" "watch_inv [] w2"
    "root_xenstore w2 = root_xenstore w1" "watch_entry_list w2 = watch_entry_list w1"
    "others_kept d (watch_heap w1) (watch_heap w2)"
    "\<forall>p \<in> set (pending_watch_event_list w2). \<forall>e. watch_heap w2 (pe_watch p) = Some e \<longrightarrow> we_domain e \<noteq> Some d"
    using cleanup_pending_inv [where w = w1 and kept = "[]" and ps = "pending_watch_event_list w1" and d = d] w1(2) by auto
  have "we_domain e \<noteq> Some d" if "watch_heap w2 a = Some e" for a e
  proof -
    have "0 < watch_refs [] (watch_entry_list w2) (pending_watch_event_list w2) a"
      using that w2(2) heap_refs_dead unfolding watch_inv_def by blast
    then have "a \<in> set (watch_entry_list w1) \<or> a \<in> pe_watch ` set (pending_watch_event_list w2)"
      unfolding refs_pos w2(4) by simp
    then show ?thesis
    proof
      assume "a \<in> set (watch_entry_list w1)"
      then show ?thesis using w1(5) w2(5) that unfolding others_kept_def by metis
    next
      assume "a \<in> pe_watch ` set (pending_watch_event_list w2)"
      then show ?thesis using w2(6) that by auto
    qed
  qed
  then show ?thesis
    using w1 w2 wf others_kept_trans [OF w1(4) w2(5)] by (simp add: cleanup_domain_watches_def world_ok_def)
qed

lemma strcmp_eq_total: "cstr a \<noteq> None \<Longrightarrow> cstr b \<noteq> None \<Longrightarrow> \<exists>r. strcmp_eq a b = Some r"
  by (induction a b rule: strcmp_eq.induct) (auto simp: cstr_def split: if_splits)

text \<open>A terminated (or null) token can be compared with every registered watch.\<close>

definition token_terminated :: "char list option \<Rightarrow> bool" where
  "token_terminated token \<longleftrightarrow> (case token of None \<Rightarrow> True | Some t \<Rightarrow> cstr t \<noteq> None)"

lemma terminated_NUL: "token_terminated (Some (t @ [NUL]))"
  by (simp add: token_terminated_def cstr_def)

lemma watcher_loop_total:
  assumes "\<forall>a \<in> set as. \<exists>e. h a = Some e \<and> cstr (we_token e) \<noteq> None" "token_terminated token"
  shows "\<exists>r. watcher_loop as key token d h = Some r \<and>
    (\<forall>a. r = Some a \<longrightarrow> a \<in> set as \<and> (\<exists>e. h a = Some e \<and> we_domain e = d \<and> we_key e = key))"
  using assms(1)
proof (induction as)
  case (Cons a as)
  then obtain e where e: "h a = Some e" "cstr (we_token e) \<noteq> None" by auto
  have "\<exists>b. token_matches token (we_token e) = Some b"
    using assms(2) e(2) strcmp_eq_total [of "we_token e"]
    by (auto simp: token_matches_def token_terminated_def split: option.splits)
  then obtain b where "token_matches token (we_token e) = Some b" by blast
  with e(1) Cons show ?case by fastforce
qed simp

lemma key_to_watcher_total:
  assumes "watch_inv L w" "token_terminated token"
  shows "\<exists>r. key_to_watcher key token d w = Some r \<and>
    (\<forall>a. r = Some a \<longrightarrow> a \<in> set (watch_entry_list w) \<and>
       (\<exists>e. watch_heap w a = Some e \<and> we_domain e = d \<and> we_key e = key))"
proof -
  have "\<forall>a \<in> set (watch_entry_list w). \<exists>e. watch_heap w a = Some e \<and> cstr (we_token e) \<noteq> None"
    using watch_inv_alive [OF assms(1)] by (fastforce simp: entry_ok_def entry_static_def)
  from watcher_loop_total [OF this assms(2)] show ?thesis by (simp add: key_to_watcher_def)
qed

section \<open>A new entry\<close>

lemma fresh_addr:
  assumes "watch_inv L w"
  shows "watch_heap w (wnext w) = None" "wnext w \<notin> set (watch_entry_list w)"
    "watch_refs L (watch_entry_list w) (pending_watch_event_list w) (wnext w) = 0"
    "wnext w \<notin> set L" "wnext w \<notin> pe_watch ` set (pending_watch_event_list w)"
proof -
  show h: "watch_heap w (wnext w) = None" using assms by (simp add: watch_inv_def)
  then show r: "watch_refs L (watch_entry_list w) (pending_watch_event_list w) (wnext w) = 0"
    using assms by (simp add: watch_inv_def heap_refs_def)
  show "wnext w \<notin> set (watch_entry_list w)" "wnext w \<notin> set L"
    "wnext w \<notin> pe_watch ` set (pending_watch_event_list w)"
    using r refs_pos [of L "watch_entry_list w" "pending_watch_event_list w" "wnext w"] by auto
qed

lemma link_new_inv:
  assumes "watch_inv L w" "entry_static e" "we_ref e = 1" "we_pending_path e = None"
    "new_watch_entry e w = (a, w1)"
  shows "watch_inv L (link_watch_entry a w1)"
proof -
  note fr = fresh_addr [OF assms(1)]
  have w1: "a = wnext w" "w1 = w\<lparr>watch_heap := (watch_heap w)(a \<mapsto> e), wnext := wnext w + 1\<rparr>"
    using assms(5) by (auto simp: new_watch_entry_def)
  have hr: "heap_refs (watch_heap w) (watch_refs L (watch_entry_list w) (pending_watch_event_list w))"
    using assms(1) by (simp add: watch_inv_def)
  have "heap_refs ((watch_heap w)(a \<mapsto> e))
      (watch_refs L (watch_entry_list w @ [a]) (pending_watch_event_list w))"
    unfolding refs_link [OF fr(2) [folded w1(1)]] using fr(3) w1(1) assms(3) by (intro heap_refs_upd [OF hr]) simp_all
  moreover have "\<forall>p \<in> set (pending_watch_event_list w). pe_watch p \<noteq> a" using fr(5) w1(1) by force
  then have "entry_ok L (pending_watch_event_list w) a e"
    using assms(2,4) fr(4) w1(1) by (simp add: entry_ok_def)
  ultimately show ?thesis
    using assms(1) fr(2) by (auto simp: watch_inv_def link_watch_entry_def w1)
qed

lemma destroy_new_inv:
  assumes "watch_inv L w" "new_watch_entry e w = (a, w1)"
  shows "\<exists>w2. destroy_watch_entry a (w1\<lparr>locks := ls\<rparr>) = Some w2 \<and> watch_inv L w2 \<and>
    root_xenstore w2 = root_xenstore w"
proof -
  have w1: "a = wnext w" "w1 = w\<lparr>watch_heap := (watch_heap w)(a \<mapsto> e), wnext := wnext w + 1\<rparr>"
    using assms(2) by (auto simp: new_watch_entry_def)
  have "(watch_heap w)(a := None) = watch_heap w"
    using fresh_addr(1) [OF assms(1)] w1(1) by (simp add: fun_upd_idem)
  moreover have "watch_inv L (w\<lparr>wnext := wnext w + 1\<rparr>)" using assms(1) by (simp add: watch_inv_def)
  ultimately show ?thesis using assms(1) by (auto simp: w1 destroy_watch_entry_def watch_inv_def)
qed

lemma watch_register_inv:
  fixes w :: "'a xs_world_scheme"
  assumes "watch_inv [] w" "entry_static e" "we_ref e = 1" "we_pending_path e = None"
    "new_watch_entry e w = (a, w0)"
  shows "\<exists>rc w'. xs_watch_register a key path token fire deadline w0 = Some (rc, w') \<and>
    watch_inv [] w' \<and> root_xenstore w' = root_xenstore w"
proof -
  have w0: "a = wnext w" "w0 = w\<lparr>watch_heap := (watch_heap w)(a \<mapsto> e), wnext := wnext w + 1\<rparr>"
    using assms(5) by (auto simp: new_watch_entry_def)
  obtain rc1 w1 where l1: "xss_mutex_lock_deadline deadline w0 = (rc1, w1)" by fastforce
  obtain rc2 w2 where l2: "xss_mutex_lock_deadline deadline w1 = (rc2, w2)" by fastforce
  obtain ls1 where w1: "w1 = w0\<lparr>locks := ls1\<rparr>" using lock_frame [OF l1] by blast
  obtain ls2 where w2: "w2 = w0\<lparr>locks := ls2\<rparr>" using lock_frame [OF l2] w1 by auto
  obtain v1 where v1: "destroy_watch_entry a w1 = Some v1" "watch_inv [] v1" "root_xenstore v1 = root_xenstore w"
    using destroy_new_inv [OF assms(1,5)] unfolding w1 by blast
  obtain v2 where v2: "destroy_watch_entry a w2 = Some v2" "watch_inv [] v2" "root_xenstore v2 = root_xenstore w"
    using destroy_new_inv [OF assms(1,5)] unfolding w2 by blast
  have li: "watch_inv [] (link_watch_entry a w2)"
  proof -
    have "link_watch_entry a w2 = (link_watch_entry a w0)\<lparr>locks := ls2\<rparr>"
      by (simp add: w2 link_watch_entry_def)
    then show ?thesis using link_new_inv [OF assms] by simp
  qed
  have heap_same: "\<forall>b \<in> set (watch_entry_list w2). \<exists>x. watch_heap w2 b = Some x \<and> cstr (we_token x) \<noteq> None"
    using watch_inv_alive [OF assms(1)] fresh_addr(2) [OF assms(1)]
    by (fastforce simp: w2 w0 entry_ok_def entry_static_def)
  obtain dup where dup: "key_to_watcher key (Some (token @ [NUL])) None w2 = Some dup"
    using watcher_loop_total [OF heap_same, of "Some (token @ [NUL])" key None]
    by (auto simp: key_to_watcher_def token_terminated_def cstr_def)
  have at: "watch_heap (link_watch_entry a w2) a = Some e" by (simp add: link_watch_entry_def w2 w0)
  obtain rc L w3 where q: "(if fire then queue_local_watch_event_locked [] a path (link_watch_entry a w2)
      else Some (0, [], link_watch_entry a w2)) = Some (rc, L, w3)" "watch_inv L w3"
    "root_xenstore w3 = root_xenstore w"
    using queue_local_inv [OF li at, of path] li
    by (cases fire) (auto simp: link_watch_entry_def w2 w0)
  obtain w4 where d: "dispatch_local_watch_events_locked L w3 = Some w4" "watch_inv [] w4"
    "root_xenstore w4 = root_xenstore w3" using dispatch_inv [OF q(2)] by blast
  show ?thesis
    using l1 l2 v1 v2 dup q d
    by (cases "rc1 = 0"; cases "rc2 = 0"; cases "dup = None") (simp_all add: xs_watch_register_def)
qed

lemma construct_path_home:
  "construct_path p 0 e = (Inr q, e') \<Longrightarrow> \<not> xenstore_is_abs_path (Some p) \<Longrightarrow> prefix (local_path 0) q"
  using construct_path_rel(1) [of 0 p e q e'] by simp

lemma xs_watch_inv:
  assumes "world_ok w"
  shows "\<exists>rc w'. xs_watch_timeout path token cb param tout w = Some (rc, w') \<and> world_ok w' \<and>
    root_xenstore w' = root_xenstore w"
proof (cases "path = None \<or> token = None \<or> cb = None")
  case True
  then show ?thesis using assms by (auto simp: xs_watch_timeout_def split: option.splits)
next
  case False
  then obtain p t c where ptc: "path = Some p" "token = Some t" "cb = Some c" by auto
  obtain r w1 where cp: "construct_path p XENSTORE_LOCAL_DOMAIN_ID w = (r, w1)" by fastforce
  obtain bs1 where w1: "w1 = w\<lparr>mallocs := bs1\<rparr>" using construct_path_frame [OF cp] by blast
  show ?thesis
  proof (cases r)
    case (Inl rc)
    then show ?thesis using assms cp ptc w1 by (auto simp: xs_watch_timeout_def world_ok_def)
  next
    case (Inr watch_path)
    obtain rc2 w2 where l2: "xss_mutex_lock_deadline tout w1 = (rc2, w2)" by fastforce
    obtain ls2 where w2: "w2 = w1\<lparr>locks := ls2\<rparr>" using lock_frame [OF l2] by blast
    have "wf_tree (root_xenstore w2)" using assms w1 w2 by (simp add: world_ok_def)
    then obtain entry bs3 where k: "key_to_entry_check_perm (Some watch_path) XENSTORE_LOCAL_DOMAIN_ID
        XS_PERM_READ w2 = Some (entry, w2\<lparr>mallocs := bs3\<rparr>)" using lookup_total by blast
    obtain rc4 w4 where l4: "xss_mutex_lock_deadline tout (w2\<lparr>mallocs := bs3\<rparr>) = (rc4, w4)" by fastforce
    obtain ls4 where w4: "w4 = w\<lparr>mallocs := bs3, locks := ls4\<rparr>" using lock_frame [OF l4] w1 w2 by auto
    have inv4: "watch_inv [] w4" "wf_tree (root_xenstore w4)" "root_xenstore w4 = root_xenstore w"
      using assms w4 by (auto simp: world_ok_def)
    obtain dup where dup: "key_to_watcher watch_path (Some (t @ [NUL])) None w4 = Some dup"
      using key_to_watcher_total [OF inv4(1) terminated_NUL] by blast
    let ?rel = "\<not> xenstore_is_abs_path (Some p)"
    obtain alloc w5 where al: "alloc_local_watch_entry watch_path t (Some c) param ?rel w4 = (alloc, w5)"
      by fastforce
    have "\<exists>rc w'. (case alloc of None \<Rightarrow> Some (- ENOMEM, w5)
        | Some a \<Rightarrow> xs_watch_register a watch_path p t (entry \<noteq> None) tout w5) = Some (rc, w') \<and>
        watch_inv [] w' \<and> root_xenstore w' = root_xenstore w"
    proof -
      obtain ok5 w5' where m5: "k_malloc w4 = (ok5, w5')" by fastforce
      obtain ok6 w6 where m6: "k_malloc w5' = (ok6, w6)" by fastforce
      obtain bs5 bs6 where e5: "w5' = w4\<lparr>mallocs := bs5\<rparr>" "w6 = w4\<lparr>mallocs := bs6\<rparr>"
        using k_malloc_frame [OF m5] k_malloc_frame [OF m6] by auto
      let ?e = "\<lparr>we_key = watch_path, we_token = t @ [NUL], we_domain = None,
        we_is_relative = ?rel, we_cb = Some c, we_param = param, we_pending_path = None, we_ref = 1\<rparr>"
      have st: "entry_static ?e"
        using construct_path_home [OF cp [unfolded Inr]]
        by (simp add: entry_static_def watch_home_def cstr_def)
      obtain a w7 where nw: "new_watch_entry ?e w6 = (a, w7)" by fastforce
      have "watch_inv [] w6" using inv4(1) e5 by simp
      from watch_register_inv [OF this st _ _ nw, of watch_path p t "entry \<noteq> None" tout]
      show ?thesis
        using al m5 m6 nw e5 inv4 by (cases ok5; cases ok6) (auto simp: alloc_local_watch_entry_def)
    qed
    then show ?thesis
      using assms ptc cp Inr l2 w1 w2 k l4 w4 dup al inv4
      by (cases "rc2 = 0"; cases "rc4 = 0"; cases "dup = None")
        (auto simp: xs_watch_timeout_def world_ok_def split: option.splits)
  qed
qed

lemma xs_unwatch_inv:
  assumes "world_ok w"
  shows "\<exists>rc w'. xs_unwatch_timeout path token tout w = Some (rc, w') \<and> world_ok w' \<and>
    root_xenstore w' = root_xenstore w"
proof (cases "path = None \<or> token = None")
  case True
  then show ?thesis using assms by (auto simp: xs_unwatch_timeout_def split: option.splits)
next
  case False
  then obtain p t where pt: "path = Some p" "token = Some t" by auto
  obtain r w1 where cp: "construct_path p XENSTORE_LOCAL_DOMAIN_ID w = (r, w1)" by fastforce
  obtain bs1 where w1: "w1 = w\<lparr>mallocs := bs1\<rparr>" using construct_path_frame [OF cp] by blast
  obtain rc2 w2 where l2: "xss_mutex_lock_deadline tout w1 = (rc2, w2)" by fastforce
  obtain ls2 where w2: "w2 = w\<lparr>mallocs := bs1, locks := ls2\<rparr>" using lock_frame [OF l2] w1 by auto
  have inv: "watch_inv [] w2" using assms w2 by (simp add: world_ok_def)
  show ?thesis
  proof (cases r)
    case (Inl rc)
    then show ?thesis using assms cp pt w1 by (auto simp: xs_unwatch_timeout_def world_ok_def)
  next
    case (Inr watch_path)
    obtain f where f: "key_to_watcher watch_path (Some (t @ [NUL])) None w2 = Some f"
      "\<forall>a. f = Some a \<longrightarrow> a \<in> set (watch_entry_list w2) \<and> (\<exists>e. watch_heap w2 a = Some e)"
      using key_to_watcher_total [OF inv terminated_NUL, of watch_path t None] by blast
    show ?thesis
    proof (cases f)
      case None
      then show ?thesis using assms cp pt w1 w2 Inr l2 f(1) inv
        by (cases "rc2 = 0") (auto simp: xs_unwatch_timeout_def world_ok_def)
    next
      case (Some a)
      then obtain e where "a \<in> set (watch_entry_list w2)" "watch_heap w2 a = Some e" using f(2) by auto
      then obtain w3 where "remove_watch_entry a w2 = Some w3" "watch_inv [] w3" "root_xenstore w3 = root_xenstore w2"
        using remove_watch_inv [OF inv] by blast
      then show ?thesis using assms cp pt w1 w2 Inr l2 f(1) Some inv
        by (cases "rc2 = 0") (auto simp: xs_unwatch_timeout_def world_ok_def)
    qed
  qed
qed

end
