(* ===== verification/Xs_Memory.thy ===== *)
theory Xs_Memory
  imports Xs_Watch_Safety
begin

text \<open>
  When memory suffices: with no allocation failure announced, every operation of the store and
  of the watches leaves none announced, and a write never runs out of memory, so that it
  cannot leave an entry without an owner behind.
\<close>

lemma k_mallocs_True [simp]: "mallocs w = [] \<Longrightarrow> k_mallocs n w = (True, w)"
  by (rule k_mallocs_nil)

lemma lock_mallocs: "xss_mutex_lock_deadline t w = (rc, w1) \<Longrightarrow> mallocs w1 = mallocs w"
  by (auto simp: xss_mutex_lock_deadline_def split: k_timeout.splits list.splits)

lemma key_to_entry_same: "mallocs w = [] \<Longrightarrow> key_to_entry k w = (r, w1) \<Longrightarrow> w1 = w"
  by (auto simp: key_to_entry_def Let_def split: option.splits if_splits)

lemma lookup_same:
  "mallocs w = [] \<Longrightarrow> key_to_entry_check_perm k d p w = Some (e, w1) \<Longrightarrow> w1 = w"
  using key_to_entry_same [of w k]
  by (cases "key_to_entry k w") (auto simp: key_to_entry_check_perm_def split: bind_splits)

lemma construct_path_same: "mallocs w = [] \<Longrightarrow> construct_path p d w = (r, w1) \<Longrightarrow> w1 = w"
  by (auto simp: construct_path_def Let_def split: if_splits prod.splits)

lemma set_perms_by_array_same:
  "mallocs w = [] \<Longrightarrow> set_perms_by_array p ps w =
     (0, w\<lparr>root_xenstore := modify_at p (set_perms ps) (root_xenstore w)\<rparr>)"
  by (simp add: set_perms_by_array_def)

lemma inherit_perms_same:
  "mallocs w = [] \<Longrightarrow> inherit_perms p pp d w = Some (rc, w1) \<Longrightarrow> rc = 0 \<and> mallocs w1 = []"
  by (auto simp: inherit_perms_def split: option.splits bind_splits)

lemma create_entry_same:
  "mallocs w = [] \<Longrightarrow> create_entry p t d perms w = Some (rc, w1) \<Longrightarrow> rc = 0 \<and> mallocs w1 = []"
  by (auto simp: create_entry_def Let_def set_perms_by_array_same split: if_splits
      dest: inherit_perms_same [rotated])

lemma write_walk_same:
  "mallocs w = [] \<Longrightarrow> write_walk ts p ins d perms w = Some (rc, ins', w1) \<Longrightarrow>
   rc \<noteq> - ENOMEM \<and> mallocs w1 = []"
proof (induction ts arbitrary: p ins w)
  case (Cons t ts)
  show ?case
  proof (cases "node_at (root_xenstore w) (p @ [t])")
    case (Some e)
    with Cons show ?thesis by simp
  next
    case None
    then obtain pe ok where pe: "node_at (root_xenstore w) p = Some pe" "check_perms pe XS_PERM_WRITE d = Some ok"
      using Cons.prems(2) by (auto split: bind_splits)
    show ?thesis
    proof (cases ok)
      case False
      then show ?thesis using Cons.prems None pe by simp
    next
      case True
      obtain rc2 w2 where c: "create_entry p t d perms w = Some (rc2, w2)"
        using Cons.prems(2) None pe True by (cases "create_entry p t d perms w") auto
      then have "rc2 = 0" "mallocs w2 = []" using create_entry_same [OF Cons.prems(1)] by auto
      then show ?thesis using Cons.IH [of w2] Cons.prems(2) None pe True c by auto
    qed
  qed
qed simp

lemma free_allocated_same:
  "mallocs w = [] \<Longrightarrow> free_allocated rc ins w = Some (rc', w1) \<Longrightarrow> rc' = rc \<and> mallocs w1 = []"
  by (auto simp: free_allocated_def free_node_def split: option.splits bind_splits if_splits)

lemma do_write_forever:
  "mallocs w = [] \<Longrightarrow> xss_do_write path data d perms K_FOREVER w =
     do { (rc, ins, w3) \<leftarrow> write_walk (strtok_all slash path) [] None d perms w;
          if rc \<noteq> 0 then free_allocated rc ins w3
          else if strtok_all slash path = [] \<or> xenstore_str_byte_size data = 0 then Some (0, w3)
          else
            do { e \<leftarrow> node_at (root_xenstore w3) (strtok_all slash path);
                 allowed \<leftarrow> check_perms e XS_PERM_WRITE d;
                 if \<not> allowed then free_allocated (- EACCES) ins w3
                 else
                   let (ok, w4) = k_malloc w3 in
                   if \<not> ok then free_allocated (- ENOMEM) ins w4
                   else Some (0, w4\<lparr>root_xenstore :=
                          modify_at (strtok_all slash path) (set_value data) (root_xenstore w4)\<rparr>) } }"
  by (simp add: xss_do_write_def xss_do_write_deadline_def xss_mutex_lock_deadline_def Let_def)

lemma do_write_same:
  assumes "mallocs w = []" "xss_do_write path data d perms K_FOREVER w = Some (rc, w1)"
  shows "rc \<noteq> - ENOMEM \<and> mallocs w1 = []"
proof -
  let ?ts = "strtok_all slash path"
  note run = assms(2) [unfolded do_write_forever [OF assms(1)]]
  obtain rc2 ins w3 where wk: "write_walk ?ts [] None d perms w = Some (rc2, ins, w3)"
    using run by (cases "write_walk ?ts [] None d perms w") auto
  note s3 = write_walk_same [OF assms(1) wk]
  show ?thesis
  proof (cases "rc2 \<noteq> 0 \<or> ?ts = [] \<or> xenstore_str_byte_size data = 0")
    case True
    show ?thesis
    proof (cases "rc2 = 0")
      case False
      then have "free_allocated rc2 ins w3 = Some (rc, w1)" using run wk by simp
      from free_allocated_same [OF _ this] s3 show ?thesis by simp
    next
      case z: True
      then have "rc = 0" "w1 = w3" using run wk True by simp_all
      then show ?thesis using s3 by simp
    qed
  next
    case False
    then obtain e where e: "node_at (root_xenstore w3) ?ts = Some e"
      using run wk by (cases "node_at (root_xenstore w3) ?ts") auto
    then obtain ok where c: "check_perms e XS_PERM_WRITE d = Some ok"
      using run wk False by (cases "check_perms e XS_PERM_WRITE d") auto
    show ?thesis
    proof (cases ok)
      case False
      then have "free_allocated (- EACCES) ins w3 = Some (rc, w1)"
        using run wk e c \<open>\<not> (rc2 \<noteq> 0 \<or> ?ts = [] \<or> xenstore_str_byte_size data = 0)\<close> by simp
      from free_allocated_same [OF _ this] s3 show ?thesis by simp
    next
      case True
      then have "rc = 0" "mallocs w1 = mallocs w3"
        using run wk e c s3 \<open>\<not> (rc2 \<noteq> 0 \<or> ?ts = [] \<or> xenstore_str_byte_size data = 0)\<close> by auto
      then show ?thesis using s3 by simp
    qed
  qed
qed

section \<open>What a store operation may change\<close>

definition store_only :: "'a xs_store_scheme \<Rightarrow> 'a xs_store_scheme \<Rightarrow> bool" where
  "store_only w w' \<longleftrightarrow> (\<exists>bs ls r. w' = w\<lparr>mallocs := bs, locks := ls, root_xenstore := r\<rparr>)"

lemma store_onlyI: "w' = w\<lparr>mallocs := bs, locks := ls, root_xenstore := r\<rparr> \<Longrightarrow> store_only w w'"
  by (auto simp: store_only_def)

lemma store_only_refl [simp]: "store_only w w"
  by (rule store_onlyI [where bs = "mallocs w" and ls = "locks w" and r = "root_xenstore w"]) simp

lemma store_only_trans:
  assumes "store_only w w'" "store_only w' w''"
  shows "store_only w w''"
proof -
  obtain bs ls r where "w'' = w'\<lparr>mallocs := bs, locks := ls, root_xenstore := r\<rparr>"
    using assms(2) by (auto simp: store_only_def)
  moreover obtain bs' ls' r' where "w' = w\<lparr>mallocs := bs', locks := ls', root_xenstore := r'\<rparr>"
    using assms(1) by (auto simp: store_only_def)
  ultimately show ?thesis by (intro store_onlyI [where bs = bs and ls = ls and r = r]) simp
qed

lemma store_only_root: "store_only w w' \<Longrightarrow> store_only w (w'\<lparr>root_xenstore := r\<rparr>)"
  by (rule store_only_trans, assumption)
    (rule store_onlyI [where bs = "mallocs w'" and ls = "locks w'" and r = r], simp)

lemma store_only_malloc: "k_malloc w = (ok, w1) \<Longrightarrow> store_only w w1"
proof -
  assume "k_malloc w = (ok, w1)"
  then obtain bs where "w1 = w\<lparr>mallocs := bs\<rparr>" using k_malloc_frame by blast
  then show ?thesis
    by (intro store_onlyI [where bs = bs and ls = "locks w" and r = "root_xenstore w"]) simp
qed

lemma store_only_mallocs: "k_mallocs n w = (ok, w1) \<Longrightarrow> store_only w w1"
proof -
  assume "k_mallocs n w = (ok, w1)"
  then obtain bs where "w1 = w\<lparr>mallocs := bs\<rparr>" using k_mallocs_frame by blast
  then show ?thesis
    by (intro store_onlyI [where bs = bs and ls = "locks w" and r = "root_xenstore w"]) simp
qed

lemma store_only_set_perms: "set_perms_by_array p ps w = (rc, w1) \<Longrightarrow> store_only w w1"
  using store_only_mallocs [of "length ps" w]
  by (cases "k_mallocs (length ps) w") (auto simp: set_perms_by_array_def intro: store_only_root split: if_splits)

lemma store_only_inherit: "inherit_perms p pp d w = Some (rc, w1) \<Longrightarrow> store_only w w1"
proof (cases pp)
  case None
  moreover assume "inherit_perms p pp d w = Some (rc, w1)"
  ultimately show ?thesis using store_only_malloc [of w]
    by (cases "k_malloc w") (auto simp: inherit_perms_def intro: store_only_root split: if_splits)
next
  case (Some q)
  assume i: "inherit_perms p pp d w = Some (rc, w1)"
  then obtain pe where "node_at (root_xenstore w) q = Some pe"
    using Some by (cases "node_at (root_xenstore w) q") (auto simp: inherit_perms_def)
  with Some i show ?thesis using store_only_mallocs [of "length (xs_perms pe)" w]
    by (cases "k_mallocs (length (xs_perms pe)) w") (auto simp: inherit_perms_def intro: store_only_root split: if_splits)
qed

lemma store_only_create: "create_entry p t d perms w = Some (rc, w1) \<Longrightarrow> store_only w w1"
proof -
  assume c: "create_entry p t d perms w = Some (rc, w1)"
  obtain a1 v1 where m1: "k_malloc w = (a1, v1)" by fastforce
  obtain a2 v2 where m2: "k_malloc v1 = (a2, v2)" by fastforce
  note s = store_only_malloc [OF m1] store_only_malloc [OF m2]
  let ?v3 = "v2\<lparr>root_xenstore := modify_at p (append_child (XsEntry (Some t) None [] [])) (root_xenstore v2)\<rparr>"
  have s3: "store_only w ?v3" using store_only_root [OF store_only_trans [OF s]] .
  show ?thesis
  proof (cases "a1 \<and> a2")
    case False
    then show ?thesis using c m1 m2 s store_only_trans [OF s]
      by (cases a1) (auto simp: create_entry_def)
  next
    case True
    then have "(if perms \<noteq> [] then Some (set_perms_by_array (p @ [t]) perms ?v3)
        else inherit_perms (p @ [t]) (Some p) d ?v3) = Some (rc, w1)"
      using c m1 m2 by (simp add: create_entry_def Let_def)
    then have "store_only ?v3 w1"
      using store_only_set_perms [of "p @ [t]" perms ?v3 rc w1] store_only_inherit [of "p @ [t]" "Some p" d ?v3 rc w1]
      by (cases "perms = []") simp_all
    then show ?thesis by (rule store_only_trans [OF s3])
  qed
qed

lemma store_only_walk: "write_walk ts p ins d perms w = Some (rc, ins', w1) \<Longrightarrow> store_only w w1"
proof (induction ts arbitrary: p ins w)
  case (Cons t ts)
  show ?case
  proof (cases "node_at (root_xenstore w) (p @ [t])")
    case (Some e)
    with Cons show ?thesis by simp
  next
    case None
    then obtain pe where pe: "node_at (root_xenstore w) p = Some pe"
      using Cons.prems by (cases "node_at (root_xenstore w) p") auto
    then obtain ok where ok: "check_perms pe XS_PERM_WRITE d = Some ok"
      using Cons.prems None by (cases "check_perms pe XS_PERM_WRITE d") auto
    show ?thesis
    proof (cases ok)
      case False
      then show ?thesis using Cons.prems None pe ok by simp
    next
      case True
      obtain rc2 w2 where c: "create_entry p t d perms w = Some (rc2, w2)"
        using Cons.prems None pe ok True by (cases "create_entry p t d perms w") auto
      then have "store_only w w2" by (rule store_only_create)
      moreover have "w1 = w2 \<or> store_only w2 w1"
        using Cons.prems None pe ok True c Cons.IH [of "p @ [t]" _ w2] by (cases "rc2 = 0") auto
      ultimately show ?thesis using store_only_trans by blast
    qed
  qed
qed simp

lemma store_only_free_allocated: "free_allocated rc ins w = Some (rc', w1) \<Longrightarrow> store_only w w1"
  by (cases ins) (auto simp: free_allocated_def free_node_def intro: store_only_root split: if_splits)

lemma store_only_lock: "xss_mutex_lock_deadline t w = (rc, w1) \<Longrightarrow> store_only w w1"
proof -
  assume "xss_mutex_lock_deadline t w = (rc, w1)"
  then obtain ls where "w1 = w\<lparr>locks := ls\<rparr>" using lock_frame by blast
  then show ?thesis
    by (intro store_onlyI [where bs = "mallocs w" and ls = ls and r = "root_xenstore w"]) simp
qed

text \<open>The last step of a write, when every component exists.\<close>

lemma store_only_value:
  assumes "do { e \<leftarrow> node_at (root_xenstore w) toks;
        allowed \<leftarrow> check_perms e XS_PERM_WRITE d;
        if \<not> allowed then free_allocated (- EACCES) ins w
        else
          let (ok, w4) = k_malloc w in
          if \<not> ok then free_allocated (- ENOMEM) ins w4
          else Some (0, w4\<lparr>root_xenstore := modify_at toks (set_value data) (root_xenstore w4)\<rparr>) } = Some (rc, w1)"
  shows "store_only w w1"
proof -
  obtain ok w4 where m: "k_malloc w = (ok, w4)" by fastforce
  note s = store_only_malloc [OF m]
  have "free_allocated (- EACCES) ins w = Some (rc, w1) \<or> free_allocated (- ENOMEM) ins w4 = Some (rc, w1) \<or>
      w1 = w4\<lparr>root_xenstore := modify_at toks (set_value data) (root_xenstore w4)\<rparr>"
    using assms m by (auto split: bind_splits if_splits)
  then show ?thesis using s store_only_free_allocated store_only_trans store_only_root by blast
qed

lemma store_only_do_write:
  assumes "xss_do_write path data d perms tout w = Some (rc, w1)"
  shows "store_only w w1"
proof -
  let ?ts = "strtok_all slash path"
  obtain ok w2 where m: "k_malloc w = (ok, w2)" by fastforce
  obtain rc2 w3 where l: "xss_mutex_lock_deadline tout w2 = (rc2, w3)" by fastforce
  note s2 = store_only_malloc [OF m]
  note s3 = store_only_trans [OF s2 store_only_lock [OF l]]
  show ?thesis
  proof (cases "ok \<and> rc2 = 0")
    case False
    then show ?thesis using assms m l s2 s3
      by (cases ok) (auto simp: xss_do_write_def xss_do_write_deadline_def Let_def)
  next
    case True
    obtain rc3 ins w4 where wk: "write_walk ?ts [] None d perms w3 = Some (rc3, ins, w4)"
      using assms m l True
      by (cases "write_walk ?ts [] None d perms w3") (auto simp: xss_do_write_def xss_do_write_deadline_def Let_def)
    note s4 = store_only_trans [OF s3 store_only_walk [OF wk]]
    consider "rc3 \<noteq> 0" | "rc3 = 0" "?ts = [] \<or> xenstore_str_byte_size data = 0"
      | "rc3 = 0" "\<not> (?ts = [] \<or> xenstore_str_byte_size data = 0)" by (cases "rc3 = 0") auto
    then show ?thesis
    proof cases
      case 1
      then have "free_allocated rc3 ins w4 = Some (rc, w1)"
        using assms m l True wk by (simp add: xss_do_write_def xss_do_write_deadline_def Let_def)
      then show ?thesis using store_only_trans [OF s4 store_only_free_allocated] by blast
    next
      case 2
      then have "w1 = w4"
        using assms m l True wk by (auto simp: xss_do_write_def xss_do_write_deadline_def Let_def)
      then show ?thesis using s4 by simp
    next
      case 3
      show ?thesis
        by (rule store_only_trans [OF s4], rule store_only_value [where toks = ?ts and ins = ins and d = d and data = data and rc = rc])
          (use assms m l True wk 3 in \<open>simp add: xss_do_write_def xss_do_write_deadline_def Let_def\<close>)
    qed
  qed
qed

lemma store_only_watch: "store_only w w' \<Longrightarrow> watch_inv L w' = watch_inv L w"
  by (auto simp: store_only_def)

text \<open>A write with enough memory keeps the world in order, whatever its outcome.\<close>

lemma do_write_world:
  assumes "world_ok w" "mallocs w = []"
  shows "\<exists>rc w1. xss_do_write path data d perms K_FOREVER w = Some (rc, w1) \<and> world_ok w1 \<and>
    mallocs w1 = [] \<and> (rc \<noteq> 0 \<longrightarrow> root_xenstore w1 = root_xenstore w)"
proof -
  have wf: "wf_tree (root_xenstore w)" "watch_inv [] w" using assms(1) by (simp_all add: world_ok_def)
  obtain rc w1 where run: "xss_do_write path data d perms K_FOREVER w = Some (rc, w1)"
    using do_write_total [OF wf(1)] unfolding xss_do_write_def by blast
  note s = do_write_same [OF assms(2) run]
  have "rc \<noteq> 0 \<longrightarrow> root_xenstore w1 = root_xenstore w"
    using do_write_error [OF wf(1) run [unfolded xss_do_write_def]] s by auto
  moreover have "wf_tree (root_xenstore w1)"
    using calculation do_write_refines(2) [OF wf(1)] run [unfolded xss_do_write_def] wf(1)
    by (cases "rc = 0") auto
  moreover have "watch_inv [] w1" using store_only_watch [OF store_only_do_write [OF run]] wf(2) by blast
  ultimately show ?thesis using run s by (auto simp: world_ok_def)
qed

section \<open>Watches\<close>

lemma put_mallocs: "watch_entry_put a w = Some w1 \<Longrightarrow> mallocs w1 = mallocs w"
  by (auto simp: watch_entry_put_def destroy_watch_entry_def split: bind_splits if_splits option.splits)

lemma dispatch_mallocs: "dispatch_local_watch_events_locked L w = Some w1 \<Longrightarrow> mallocs w1 = mallocs w"
proof (induction L arbitrary: w)
  case (Cons a L)
  then obtain e path w2 where "watch_entry_put a
      (w\<lparr>watch_heap := (watch_heap w)(a \<mapsto> e\<lparr>we_pending_path := None\<rparr>),
         cb_log := cb_log w @ [(we_cb e, path, we_token e, we_param e)]\<rparr>) = Some w2"
    "dispatch_local_watch_events_locked L w2 = Some w1"
    by (auto split: bind_splits)
  then show ?case using Cons.IH put_mallocs by fastforce
qed simp

lemma queue_local_mallocs:
  "mallocs w = [] \<Longrightarrow> queue_local_watch_event_locked L a path w = Some (rc, L', w1) \<Longrightarrow> mallocs w1 = []"
  by (auto simp: queue_local_watch_event_locked_def split: bind_splits if_splits)

lemma queue_pending_mallocs:
  assumes "mallocs w = []" "queue_pending_watch_event a path t w = Some (rc, w1)"
  shows "mallocs w1 = []"
proof -
  obtain e d w3 where g: "watch_heap w a = Some e" "we_domain e = Some d" "watch_entry_get a w = Some w3"
    using assms by (auto simp: queue_pending_watch_event_def split: bind_splits)
  then have m3: "mallocs w3 = []" using assms(1) by (auto simp: watch_entry_get_def)
  obtain rc4 w4 where l: "xss_mutex_lock_deadline t w3 = (rc4, w4)" by fastforce
  have m4: "mallocs w4 = []" using lock_mallocs [OF l] m3 by simp
  show ?thesis
  proof (cases "rc4 = 0")
    case True
    then show ?thesis using assms g l m4 by (auto simp: queue_pending_watch_event_def)
  next
    case False
    then obtain w5 where "watch_entry_put a w4 = Some w5" "w1 = w5"
      using assms g l by (auto simp: queue_pending_watch_event_def split: bind_splits)
    then show ?thesis using put_mallocs m4 by metis
  qed
qed

lemma queue_loop_mallocs:
  "mallocs w = [] \<Longrightarrow> queue_loop as path rec L t w = Some (rc, L', w1) \<Longrightarrow> mallocs w1 = []"
proof (induction as arbitrary: L w)
  case (Cons a as)
  obtain e where e: "watch_heap w a = Some e" using Cons.prems(2) by (cases "watch_heap w a") auto
  show ?case
  proof (cases "event_for path rec (we_key e)")
    case None
    then show ?thesis using Cons e by simp
  next
    case ev: (Some ev)
    let ?d = "case we_domain e of None \<Rightarrow> XENSTORE_LOCAL_DOMAIN_ID | Some d \<Rightarrow> d"
    obtain entry w2 where k: "key_to_entry_check_perm (Some ev) ?d XS_PERM_READ w = Some (entry, w2)"
      using Cons.prems(2) e ev by (cases "key_to_entry_check_perm (Some ev) ?d XS_PERM_READ w") auto
    have w2: "w2 = w" by (rule lookup_same [OF Cons.prems(1) k])
    show ?thesis
    proof (cases "entry = None")
      case True
      then show ?thesis using Cons e ev k w2 by simp
    next
      case found: False
      show ?thesis
      proof (cases "we_domain e")
        case None
        obtain ev' where ev': "(if we_is_relative e then skip_local XENSTORE_LOCAL_DOMAIN_ID ev else Some ev) = Some ev'"
          using Cons.prems(2) e ev k w2 found None
          by (cases "if we_is_relative e then skip_local XENSTORE_LOCAL_DOMAIN_ID ev else Some ev") auto
        obtain rc2 L2 w3 where q: "queue_local_watch_event_locked L a ev' w = Some (rc2, L2, w3)"
          using Cons.prems(2) e ev k w2 found None ev'
          by (cases "queue_local_watch_event_locked L a ev' w") auto
        then have "queue_loop as path rec L2 t w3 = Some (rc, L', w1)"
          using Cons.prems(2) e ev k w2 found None ev' by (cases entry) simp_all
        then show ?thesis using Cons.IH queue_local_mallocs [OF Cons.prems(1) q] by blast
      next
        case (Some d)
        obtain rc2 w3 where q: "queue_pending_watch_event a ev t w = Some (rc2, w3)"
          using Cons.prems(2) e ev k w2 found Some by (cases "queue_pending_watch_event a ev t w") auto
        note m3 = queue_pending_mallocs [OF Cons.prems(1) q]
        show ?thesis
        proof (cases "rc2 = 0")
          case True
          then have "queue_loop as path rec L t w3 = Some (rc, L', w1)"
            using Cons.prems(2) e ev k w2 found Some q by (cases entry) simp_all
          then show ?thesis using Cons.IH m3 by blast
        next
          case False
          then show ?thesis using Cons.prems(2) e ev k w2 found Some q m3 by (cases entry) simp_all
        qed
      qed
    qed
  qed
qed simp

lemma queue_notifications_mallocs:
  assumes "mallocs w = []" "queue_watch_notifications_xsel_locked path rec [] t w = Some (rc, L, w1)"
  shows "mallocs w1 = []"
proof -
  obtain rc2 w2 where l: "xss_mutex_lock_deadline t w = (rc2, w2)" by fastforce
  have m: "mallocs w2 = []" using lock_mallocs [OF l] assms(1) by simp
  show ?thesis using assms(2) l m queue_loop_mallocs [OF m]
    by (cases "rc2 = 0") (auto simp: queue_watch_notifications_xsel_locked_def)
qed

text \<open>The two operations that fire watches, as the server uses them.\<close>

lemma notify_world:
  assumes "world_ok w" "mallocs w = []"
  shows "\<exists>w1. notify_watchers path w = Some w1 \<and> world_ok w1 \<and> mallocs w1 = [] \<and>
    root_xenstore w1 = root_xenstore w"
proof -
  obtain rc w1 where n: "notify_watchers_deadline path K_FOREVER w = Some (rc, w1)" "world_ok w1"
    "root_xenstore w1 = root_xenstore w" using notify_inv [OF assms(1)] by blast
  obtain rc2 L w2 where q: "queue_watch_notifications_xsel_locked path False [] K_FOREVER w = Some (rc2, L, w2)"
      "dispatch_local_watch_events_locked L w2 = Some w1"
    using n(1) by (auto simp: notify_watchers_deadline_def xss_mutex_lock_deadline_def split: bind_splits)
  then have "mallocs w1 = []" using queue_notifications_mallocs [OF assms(2)] dispatch_mallocs by metis
  then show ?thesis using n by (simp add: notify_watchers_def)
qed

lemma rm_world:
  assumes "world_ok w" "mallocs w = []" "strtok_all slash key \<noteq> []"
  shows "\<exists>rc w1. xss_do_rm key d K_FOREVER w = Some (rc, w1) \<and> world_ok w1 \<and> mallocs w1 = [] \<and>
    (if rc = 0
     then (\<exists>e. node_at (root_xenstore w) (strtok_all slash key) = Some e \<and>
             check_perms e XS_PERM_WRITE d = Some True) \<and>
          root_xenstore w1 = remove_at (strtok_all slash key) (root_xenstore w)
     else root_xenstore w1 = root_xenstore w)"
proof -
  obtain rc w1 where n: "xss_do_rm_deadline key d K_FOREVER w = Some (rc, w1)" "world_ok w1"
    "if rc = 0
     then (\<exists>e. node_at (root_xenstore w) (strtok_all slash key) = Some e \<and>
             check_perms e XS_PERM_WRITE d = Some True) \<and>
          root_xenstore w1 = remove_at (strtok_all slash key) (root_xenstore w)
     else root_xenstore w1 = root_xenstore w" using do_rm_inv [OF assms(1,3)] by blast
  obtain entry w2 where k: "key_to_entry_check_perm (Some key) d XS_PERM_WRITE w = Some (entry, w2)"
    using n(1) by (cases "key_to_entry_check_perm (Some key) d XS_PERM_WRITE w")
      (auto simp: xss_do_rm_deadline_def xss_mutex_lock_deadline_def)
  have w2: "w2 = w" by (rule lookup_same [OF assms(2) k])
  have "mallocs w1 = []"
  proof (cases entry)
    case None
    then show ?thesis using n(1) k w2 assms(2) by (simp add: xss_do_rm_deadline_def xss_mutex_lock_deadline_def)
  next
    case (Some p)
    then obtain rc3 L w3 where q: "queue_watch_notifications_xsel_locked key True [] K_FOREVER w = Some (rc3, L, w3)"
      using n(1) k w2 by (cases "queue_watch_notifications_xsel_locked key True [] K_FOREVER w")
        (auto simp: xss_do_rm_deadline_def xss_mutex_lock_deadline_def)
    note m3 = queue_notifications_mallocs [OF assms(2) q]
    have "\<exists>w4. mallocs w4 = [] \<and> dispatch_local_watch_events_locked L w4 = Some w1"
    proof (cases "rc3 = 0")
      case True
      then obtain w4 where "free_node p w3 = Some w4" "dispatch_local_watch_events_locked L w4 = Some w1"
        using n(1) k w2 q Some
        by (auto simp: xss_do_rm_deadline_def xss_mutex_lock_deadline_def split: bind_splits)
      moreover have "mallocs w4 = []" using calculation(1) m3 by (auto simp: free_node_def split: if_splits)
      ultimately show ?thesis by blast
    next
      case False
      then show ?thesis using n(1) k w2 q Some m3
        by (auto simp: xss_do_rm_deadline_def xss_mutex_lock_deadline_def split: bind_splits)
    qed
    then show ?thesis using dispatch_mallocs by metis
  qed
  then show ?thesis using n by (simp add: xss_do_rm_def)
qed

lemma cleanup_list_mallocs: "cleanup_list as d w = Some w1 \<Longrightarrow> mallocs w1 = mallocs w"
proof (induction as arbitrary: w)
  case (Cons a as)
  obtain e where e: "watch_heap w a = Some e" using Cons.prems by (cases "watch_heap w a") auto
  show ?case
  proof (cases "we_domain e = Some d")
    case True
    then obtain w2 where "remove_watch_entry a w = Some w2" "cleanup_list as d w2 = Some w1"
      using Cons.prems e by (cases "remove_watch_entry a w") auto
    then show ?thesis using Cons.IH put_mallocs unfolding remove_watch_entry_def by fastforce
  next
    case False
    then show ?thesis using Cons e by simp
  qed
qed simp

lemma cleanup_pending_mallocs: "cleanup_pending kept ps d w = Some w1 \<Longrightarrow> mallocs w1 = mallocs w"
proof (induction ps arbitrary: kept w)
  case (Cons p ps)
  obtain e where e: "watch_heap w (pe_watch p) = Some e"
    using Cons.prems by (cases "watch_heap w (pe_watch p)") auto
  show ?case
  proof (cases "we_domain e = Some d")
    case True
    then obtain w2 where "watch_entry_put (pe_watch p) w = Some w2" "cleanup_pending kept ps d w2 = Some w1"
      using Cons.prems e by (cases "watch_entry_put (pe_watch p) w") auto
    then show ?thesis using Cons.IH put_mallocs by fastforce
  next
    case False
    then show ?thesis using Cons e by simp
  qed
qed auto

lemma cleanup_world:
  assumes "world_ok w" "mallocs w = []"
  shows "\<exists>w1. cleanup_domain_watches d w = Some w1 \<and> world_ok w1 \<and> mallocs w1 = [] \<and>
    root_xenstore w1 = root_xenstore w"
proof -
  obtain w1 where c: "cleanup_domain_watches d w = Some w1" "world_ok w1" "root_xenstore w1 = root_xenstore w"
    using cleanup_inv [OF assms(1)] by blast
  then obtain w2 where "cleanup_list (watch_entry_list w) d w = Some w2"
      "cleanup_pending [] (pending_watch_event_list w2) d w2 = Some w1"
    by (auto simp: cleanup_domain_watches_def split: bind_splits)
  then have "mallocs w1 = []" using cleanup_list_mallocs cleanup_pending_mallocs assms(2) by metis
  then show ?thesis using c by blast
qed

end
