(* ===== verification/Xs_Watch_Props.thy ===== *)
theory Xs_Watch_Props
  imports Xs_Memory Xs_Store_Props
begin

text \<open>
  The properties of the watches: no operation of the store follows a freed watch or loses
  count of its references, in any state the operations can reach; a change is announced only to
  domains that may read it; removal deletes exactly one subtree; and the clean-up after a domain
  leaves nothing of it.
\<close>

section \<open>The operations as a transition system\<close>

text \<open>One operation of a client of the store: a write, a removal, an announcement, the two
  operations on local watches, and the clean-up after a domain.  A write that runs out of memory
  is left out (it may leave an entry without owner behind), and so is the removal of the root.\<close>

inductive world_step :: "'a xs_world_scheme \<Rightarrow> 'a xs_world_scheme \<Rightarrow> bool" where
  step_write: "xss_do_write path data d perms tout w = Some (rc, w') \<Longrightarrow> rc \<noteq> - ENOMEM \<Longrightarrow> world_step w w'"
| step_rm: "xss_do_rm_deadline key d deadline w = Some (rc, w') \<Longrightarrow> strtok_all slash key \<noteq> [] \<Longrightarrow> world_step w w'"
| step_notify: "notify_watchers_deadline path deadline w = Some (rc, w') \<Longrightarrow> world_step w w'"
| step_watch: "xs_watch_timeout p t cb param tout w = Some (rc, w') \<Longrightarrow> world_step w w'"
| step_unwatch: "xs_unwatch_timeout p t tout w = Some (rc, w') \<Longrightarrow> world_step w w'"
| step_cleanup: "cleanup_domain_watches d w = Some w' \<Longrightarrow> world_step w w'"

inductive reachable :: "'a xs_world_scheme \<Rightarrow> 'a xs_world_scheme \<Rightarrow> bool" for w0 where
  start: "reachable w0 w0"
| step: "reachable w0 w \<Longrightarrow> world_step w w' \<Longrightarrow> reachable w0 w'"

inductive_cases world_stepE: "world_step w w'"

lemma write_world_ok:
  assumes "world_ok w" "xss_do_write path data d perms tout w = Some (rc, w')" "rc \<noteq> - ENOMEM"
  shows "world_ok w'"
proof -
  have wf: "wf_tree (root_xenstore w)" "watch_inv [] w" using assms(1) by (simp_all add: world_ok_def)
  have "wf_tree (root_xenstore w')"
    using do_write_refines(2) [OF wf(1)] do_write_error [OF wf(1) assms(2) [unfolded xss_do_write_def]]
      assms(2,3) wf(1) unfolding xss_do_write_def by (cases "rc = 0") auto
  moreover have "watch_inv [] w'" using store_only_watch [OF store_only_do_write [OF assms(2)]] wf(2) by blast
  ultimately show ?thesis by (simp add: world_ok_def)
qed

lemma world_step_ok: "world_step w w' \<Longrightarrow> world_ok w \<Longrightarrow> world_ok w'"
proof (induction rule: world_step.induct)
  case (step_write path data d perms tout w rc w')
  then show ?case using write_world_ok by blast
next
  case (step_rm key d deadline w rc w')
  then show ?case using do_rm_inv [of w key d deadline] by auto
next
  case (step_notify path deadline w rc w')
  then show ?case using notify_inv [of w path deadline] by auto
next
  case (step_watch p t cb param tout w rc w')
  then show ?case using xs_watch_inv [of w p t cb param tout] by auto
next
  case (step_unwatch p t tout w rc w')
  then show ?case using xs_unwatch_inv [of w p t tout] by auto
next
  case (step_cleanup d w w')
  then show ?case using cleanup_inv [of w d] by auto
qed

lemma reachable_ok: "reachable w0 w \<Longrightarrow> world_ok w0 \<Longrightarrow> world_ok w"
  by (induction rule: reachable.induct) (auto dest: world_step_ok)

lemma watch_inv_alive_iff:
  assumes "watch_inv [] w"
  shows "(\<exists>e. watch_heap w a = Some e) \<longleftrightarrow>
    a \<in> set (watch_entry_list w) \<or> a \<in> pe_watch ` set (pending_watch_event_list w)" (is "?l \<longleftrightarrow> ?r")
proof
  assume ?l
  then have "0 < watch_refs [] (watch_entry_list w) (pending_watch_event_list w) a"
    using assms heap_refs_dead unfolding watch_inv_def by blast
  then show ?r unfolding refs_pos by simp
next
  assume ?r
  then show ?l using watch_inv_alive [OF assms, of a] by blast
qed

text \<open>C3. In every state reachable from an orderly one by any sequence of writes that do not run out of
  memory, removals below the root, announcements, registrations and deregistrations of local watches
  and clean-ups after a domain, for any outcome of lock acquisitions and of all other allocations,
  the callbacks not touching the store, each watch in the heap is counted by exactly the references to
  it, no list holds a freed watch, and the tree is well formed; so that none of these operations has
  undefined behaviour there.\<close>

theorem no_dangling_watch:
  assumes "world_ok w0" "reachable w0 w"
  shows "world_ok w \<and>
    (\<forall>a. (\<exists>e. watch_heap w a = Some e) \<longleftrightarrow>
       a \<in> set (watch_entry_list w) \<or> a \<in> pe_watch ` set (pending_watch_event_list w)) \<and>
    xs_watch_timeout p t cb param tout w \<noteq> None \<and> xs_unwatch_timeout p t tout w \<noteq> None \<and>
    notify_watchers_deadline path deadline w \<noteq> None \<and> cleanup_domain_watches d w \<noteq> None \<and>
    (strtok_all slash key \<noteq> [] \<longrightarrow> xss_do_rm_deadline key d deadline w \<noteq> None) \<and>
    xss_do_write path data d perms tout w \<noteq> None"
proof -
  have ok: "world_ok w" using reachable_ok [OF assms(2,1)] .
  have inv: "watch_inv [] w" and wf: "wf_tree (root_xenstore w)" using ok by (simp_all add: world_ok_def)
  note alive = watch_inv_alive_iff [OF inv]
  moreover have "xss_do_write path data d perms tout w \<noteq> None"
    using do_write_total [OF wf, of path data d perms tout] by (auto simp: xss_do_write_def)
  moreover have "strtok_all slash key \<noteq> [] \<longrightarrow> xss_do_rm_deadline key d deadline w \<noteq> None"
    using do_rm_inv [OF ok, of key d deadline] by auto
  ultimately show ?thesis
    using ok xs_watch_inv [OF ok, of p t cb param tout] xs_unwatch_inv [OF ok, of p t tout]
      notify_inv [OF ok, of path deadline] cleanup_inv [OF ok, of d] by auto
qed

definition ex_world :: xs_world where
  "ex_world = xs_store.extend ex_written
     \<lparr>watch_heap = Map.empty, wnext = 0, watch_entry_list = [], pending_watch_event_list = [],
      xb_sem = (\<lambda>_. False), cb_log = []\<rparr>"

lemma ex_world_root: "root_xenstore ex_world = root_xenstore ex_written"
  by (simp add: ex_world_def xs_store.defs)

lemma ex_world_ok: "world_ok ex_world"
  using ex_store_wf(2)
  by (simp add: world_ok_def ex_world_root) (simp add: ex_world_def xs_store.defs watch_inv_def heap_refs_def watch_refs_def)

theorem no_dangling_watch_witness:
  "\<exists>w :: xs_world. xs_watch_timeout (Some ''/vm'') (Some ''tok'') (Some 1) 0 K_FOREVER ex_world = Some (0, w) \<and>
     reachable ex_world w \<and> world_ok w \<and> cleanup_domain_watches 4 w \<noteq> None"
proof -
  obtain rc w where run: "xs_watch_timeout (Some ''/vm'') (Some ''tok'') (Some 1) 0 K_FOREVER ex_world = Some (rc, w)"
    using xs_watch_inv [OF ex_world_ok] by blast
  have "map_option fst (xs_watch_timeout (Some ''/vm'') (Some ''tok'') (Some 1) 0 K_FOREVER ex_world) = Some 0"
    by code_simp
  then have "rc = 0" using run by simp
  have r: "reachable ex_world w" using reachable.step [OF reachable.start world_step.step_watch [OF run]] .
  from no_dangling_watch [OF ex_world_ok r] run r \<open>rc = 0\<close> show ?thesis by blast
qed

section \<open>Who is told about a change\<close>

text \<open>Whatever happens to the reference counts, a watch keeps its key and its domain.\<close>

definition same_watches :: "(nat \<Rightarrow> watch_entry option) \<Rightarrow> (nat \<Rightarrow> watch_entry option) \<Rightarrow> bool" where
  "same_watches h h' \<longleftrightarrow>
     (\<forall>a e'. h' a = Some e' \<longrightarrow> (\<exists>e. h a = Some e \<and> we_domain e = we_domain e' \<and> we_key e = we_key e'))"

lemma same_watches_refl [simp]: "same_watches h h"
  by (simp add: same_watches_def)

lemma same_watches_trans: "same_watches h h' \<Longrightarrow> same_watches h' h'' \<Longrightarrow> same_watches h h''"
  unfolding same_watches_def by metis

lemma same_watches_upd:
  "h a = Some e \<Longrightarrow> we_domain x = we_domain e \<Longrightarrow> we_key x = we_key e \<Longrightarrow> same_watches h (h(a \<mapsto> x))"
  by (simp add: same_watches_def)

lemma put_same:
  assumes "watch_entry_put a w = Some w'"
  shows "same_watches (watch_heap w) (watch_heap w')" "pending_watch_event_list w' = pending_watch_event_list w"
    "root_xenstore w' = root_xenstore w"
  using assms
  by (auto simp: watch_entry_put_def destroy_watch_entry_def same_watches_def split: bind_splits if_splits option.splits)

lemma queue_local_same:
  assumes "queue_local_watch_event_locked L a path w = Some (rc, L', w')"
  shows "same_watches (watch_heap w) (watch_heap w')" "pending_watch_event_list w' = pending_watch_event_list w"
    "root_xenstore w' = root_xenstore w"
proof -
  obtain ok w1 where m: "k_malloc w = (ok, w1)" by fastforce
  obtain bs where w1: "w1 = w\<lparr>mallocs := bs\<rparr>" using k_malloc_frame [OF m] by blast
  obtain e where e: "watch_heap w a = Some e" using assms by (auto simp: queue_local_watch_event_locked_def split: bind_splits)
  show "same_watches (watch_heap w) (watch_heap w')" "pending_watch_event_list w' = pending_watch_event_list w"
      "root_xenstore w' = root_xenstore w"
    using assms m w1 e same_watches_upd [of "watch_heap w" a e]
    by (auto simp: queue_local_watch_event_locked_def split: if_splits)
qed

lemma dispatch_same:
  "dispatch_local_watch_events_locked L w = Some w' \<Longrightarrow> pending_watch_event_list w' = pending_watch_event_list w"
proof (induction L arbitrary: w)
  case (Cons a L)
  then obtain e path w1 where "watch_entry_put a
      (w\<lparr>watch_heap := (watch_heap w)(a \<mapsto> e\<lparr>we_pending_path := None\<rparr>),
         cb_log := cb_log w @ [(we_cb e, path, we_token e, we_param e)]\<rparr>) = Some w1"
      "dispatch_local_watch_events_locked L w1 = Some w'"
    by (auto split: bind_splits)
  then show ?case using Cons.IH put_same(2) by fastforce
qed simp

lemma queue_pending_same:
  assumes "queue_pending_watch_event a path t w = Some (rc, w')"
  shows "same_watches (watch_heap w) (watch_heap w')" "root_xenstore w' = root_xenstore w"
    "pending_watch_event_list w' = pending_watch_event_list w @ (if rc = 0 then [\<lparr>event_path = path, pe_watch = a\<rparr>] else [])"
proof -
  obtain ok1 w1 where m1: "k_malloc w = (ok1, w1)" by fastforce
  obtain ok2 w2 where m2: "k_malloc w1 = (ok2, w2)" by fastforce
  obtain bs where w1: "w1 = w\<lparr>mallocs := bs\<rparr>" using k_malloc_frame [OF m1] by blast
  obtain bs2 where w2: "w2 = w\<lparr>mallocs := bs2\<rparr>" using k_malloc_frame [OF m2] w1 by auto
  obtain e d where e: "watch_heap w a = Some e" "we_domain e = Some d"
    using assms by (auto simp: queue_pending_watch_event_def split: bind_splits)
  let ?w3 = "w2\<lparr>watch_heap := (watch_heap w2)(a \<mapsto> e\<lparr>we_ref := we_ref e + 1\<rparr>)\<rparr>"
  have g: "watch_entry_get a w2 = Some ?w3" using e(1) w2 by (simp add: watch_entry_get_def)
  obtain rc4 w4 where l: "xss_mutex_lock_deadline t ?w3 = (rc4, w4)" by fastforce
  obtain ls where w4: "w4 = ?w3\<lparr>locks := ls\<rparr>" using lock_frame [OF l] by blast
  have s: "same_watches (watch_heap w) ((watch_heap w)(a \<mapsto> e\<lparr>we_ref := we_ref e + 1\<rparr>))"
    using e(1) by (intro same_watches_upd) simp_all
  have "same_watches (watch_heap w) (watch_heap w') \<and> root_xenstore w' = root_xenstore w \<and>
    pending_watch_event_list w' = pending_watch_event_list w @ (if rc = 0 then [\<lparr>event_path = path, pe_watch = a\<rparr>] else [])"
  proof (cases "ok1 \<and> ok2")
    case False
    then show ?thesis using assms e m1 m2 w1 w2 by (cases ok1) (auto simp: queue_pending_watch_event_def)
  next
    case ok: True
    show ?thesis
    proof (cases "rc4 = 0")
      case True
      then show ?thesis using assms e m1 m2 ok g l w4 w2 s by (auto simp: queue_pending_watch_event_def)
    next
      case False
      then have p: "watch_entry_put a w4 = Some w'" "rc = rc4"
        using assms e m1 m2 ok g l by (auto simp: queue_pending_watch_event_def split: bind_splits)
      have "watch_heap w4 = (watch_heap w)(a \<mapsto> e\<lparr>we_ref := we_ref e + 1\<rparr>)" using w4 w2 by simp
      then show ?thesis using put_same [OF p(1)] p(2) False w4 w2 same_watches_trans [OF s] by simp
    qed
  qed
  then show "same_watches (watch_heap w) (watch_heap w')" "root_xenstore w' = root_xenstore w"
    "pending_watch_event_list w' = pending_watch_event_list w @ (if rc = 0 then [\<lparr>event_path = path, pe_watch = a\<rparr>] else [])"
    by simp_all
qed

text \<open>An event that may be queued: on a registered watch of a guest whose key concerns the change,
  for an entry the guest may read.\<close>

definition event_permitted ::
  "string \<Rightarrow> bool \<Rightarrow> nat list \<Rightarrow> (nat \<Rightarrow> watch_entry option) \<Rightarrow> xs_entry \<Rightarrow> pending_watch_event_entry \<Rightarrow> bool" where
  "event_permitted path rec reg h r p \<longleftrightarrow>
     (\<exists>e d n. pe_watch p \<in> set reg \<and> h (pe_watch p) = Some e \<and> we_domain e = Some d \<and>
        event_for path rec (we_key e) = Some (event_path p) \<and>
        node_at r (strtok_all slash (event_path p)) = Some n \<and> granted n XS_PERM_READ d)"

lemma event_permitted_back:
  assumes "same_watches h h'" "event_permitted path rec as h' r p" "set as \<subseteq> set bs"
  shows "event_permitted path rec bs h r p"
proof -
  obtain e' d n where e': "pe_watch p \<in> set as" "h' (pe_watch p) = Some e'" "we_domain e' = Some d"
      "event_for path rec (we_key e') = Some (event_path p)"
      "node_at r (strtok_all slash (event_path p)) = Some n" "granted n XS_PERM_READ d"
    using assms(2) unfolding event_permitted_def by blast
  then obtain e where "h (pe_watch p) = Some e" "we_domain e = we_domain e'" "we_key e = we_key e'"
    using assms(1) unfolding same_watches_def by blast
  then show ?thesis using e' assms(3) unfolding event_permitted_def by auto
qed

lemma lookup_frame:
  assumes "key_to_entry_check_perm key d perms w = Some (entry, w1)"
  shows "\<exists>bs. w1 = w\<lparr>mallocs := bs\<rparr>"
  using assms key_to_entry_frame [of key w]
  by (cases "key_to_entry key w") (auto simp: key_to_entry_check_perm_def split: bind_splits)

lemma queue_loop_permitted:
  assumes "queue_loop as path rec L t w = Some (rc, L', w')"
  shows "\<exists>new. pending_watch_event_list w' = pending_watch_event_list w @ new \<and>
    list_all (event_permitted path rec as (watch_heap w) (root_xenstore w)) new"
  using assms
proof (induction as arbitrary: L w)
  case (Cons a as)
  obtain e where e: "watch_heap w a = Some e" using Cons.prems by (auto split: bind_splits)
  have rest: "\<exists>new. pending_watch_event_list w' = pending_watch_event_list w @ new1 @ new \<and>
      list_all (event_permitted path rec (a # as) (watch_heap w) (root_xenstore w)) new"
    if go: "queue_loop as path rec L2 t w2 = Some (rc, L', w')" "same_watches (watch_heap w) (watch_heap w2)"
      "root_xenstore w2 = root_xenstore w" "pending_watch_event_list w2 = pending_watch_event_list w @ new1" for L2 w2 new1
  proof -
    obtain new where n: "pending_watch_event_list w' = pending_watch_event_list w2 @ new"
        "list_all (event_permitted path rec as (watch_heap w2) (root_xenstore w2)) new"
      using Cons.IH [OF go(1)] by blast
    have "list_all (event_permitted path rec (a # as) (watch_heap w) (root_xenstore w)) new"
      using n(2) event_permitted_back [OF go(2), of path rec as _ _ "a # as"] go(3)
      by (auto simp: list_all_iff)
    then show ?thesis using n(1) go(4) by simp
  qed
  show ?case
  proof (cases "event_for path rec (we_key e)")
    case None
    then show ?thesis using Cons.prems e rest [of L w "[]"] by simp
  next
    case (Some ev)
    let ?d = "case we_domain e of None \<Rightarrow> XENSTORE_LOCAL_DOMAIN_ID | Some d \<Rightarrow> d"
    obtain entry w1 where k: "key_to_entry_check_perm (Some ev) ?d XS_PERM_READ w = Some (entry, w1)"
      using Cons.prems e Some by (cases "key_to_entry_check_perm (Some ev) ?d XS_PERM_READ w") auto
    have w1: "watch_heap w1 = watch_heap w" "root_xenstore w1 = root_xenstore w"
        "pending_watch_event_list w1 = pending_watch_event_list w"
      using lookup_frame [OF k] by auto
    consider "entry = None" | q where "entry = Some q" "we_domain e = None" | q d where "entry = Some q" "we_domain e = Some d"
      by (cases entry; cases "we_domain e") auto
    then show ?thesis
    proof cases
      case 1
      then show ?thesis using Cons.prems e Some k rest [of L w1 "[]"] w1 by simp
    next
      case 2
      then obtain ev' rc2 L2 w2 where q: "queue_local_watch_event_locked L a ev' w1 = Some (rc2, L2, w2)"
          "queue_loop as path rec L2 t w2 = Some (rc, L', w')"
        using Cons.prems e Some k by (auto split: bind_splits)
      then show ?thesis using rest [OF q(2), of "[]"] queue_local_same [OF q(1)] w1 by simp
    next
      case (3 q d)
      then obtain rc2 w2 where p: "queue_pending_watch_event a ev t w1 = Some (rc2, w2)"
        using Cons.prems e Some k by (auto split: bind_splits)
      note same = queue_pending_same [OF p]
      obtain n where "node_at (root_xenstore w) (strtok_all slash ev) = Some n" "check_perms n XS_PERM_READ d = Some True"
        using lookup_permitted [of ev d XS_PERM_READ w q w1] k 3 by auto
      then have perm: "event_permitted path rec (a # as) (watch_heap w) (root_xenstore w) \<lparr>event_path = ev, pe_watch = a\<rparr>"
        using e 3 Some check_perms_granted by (auto simp: event_permitted_def)
      show ?thesis
      proof (cases "rc2 = 0")
        case True
        then have "queue_loop as path rec L t w2 = Some (rc, L', w')" using Cons.prems e Some k 3 p by simp
        from rest [OF this, of "[\<lparr>event_path = ev, pe_watch = a\<rparr>]"] show ?thesis
          using True same w1 perm by force
      next
        case False
        then show ?thesis using Cons.prems e Some k 3 p same(3) w1 by auto
      qed
    qed
  qed
qed simp

text \<open>C14. A change is announced only to guests that have a watch registered on it or above it and
  may read the entry that changed, for every outcome of allocations and lock acquisitions, in
  every state.\<close>

theorem events_need_permission:
  assumes "notify_watchers_deadline path deadline w = Some (rc, w')"
  shows "\<exists>new. pending_watch_event_list w' = pending_watch_event_list w @ new \<and>
    list_all (event_permitted path False (watch_entry_list w) (watch_heap w) (root_xenstore w)) new"
proof -
  obtain rc1 w1 where l1: "xss_mutex_lock_deadline deadline w = (rc1, w1)" by fastforce
  obtain rc2 w2 where l2: "xss_mutex_lock_deadline deadline w1 = (rc2, w2)" by fastforce
  obtain rc3 w3 where l3: "xss_mutex_lock_deadline deadline w2 = (rc3, w3)" by fastforce
  obtain ls1 where w1: "w1 = w\<lparr>locks := ls1\<rparr>" using lock_frame [OF l1] by blast
  obtain ls2 where w2: "w2 = w\<lparr>locks := ls2\<rparr>" using lock_frame [OF l2] w1 by auto
  obtain ls3 where w3: "w3 = w\<lparr>locks := ls3\<rparr>" using lock_frame [OF l3] w2 by auto
  show ?thesis
  proof (cases "rc1 = 0 \<and> rc2 = 0")
    case False
    then show ?thesis using assms l1 l2 w1 w2 by (cases "rc1 = 0") (auto simp: notify_watchers_deadline_def)
  next
    case True
    then obtain evs w4 where q: "queue_watch_notifications_xsel_locked path False [] deadline w2 = Some (rc, evs, w4)"
        "dispatch_local_watch_events_locked evs w4 = Some w'"
      using assms l1 l2 by (auto simp: notify_watchers_deadline_def split: bind_splits)
    show ?thesis
    proof (cases "rc3 = 0")
      case True
      then have "queue_loop (watch_entry_list w3) path False [] deadline w3 = Some (rc, evs, w4)"
        using q(1) l3 by (simp add: queue_watch_notifications_xsel_locked_def)
      from queue_loop_permitted [OF this] show ?thesis using dispatch_same [OF q(2)] w3 by simp
    next
      case False
      then have "w4 = w3" using q(1) l3 by (auto simp: queue_watch_notifications_xsel_locked_def)
      then show ?thesis using dispatch_same [OF q(2)] w3 by simp
    qed
  qed
qed

definition ex_watched :: xs_world where
  "ex_watched = ex_world
     \<lparr>root_xenstore := XsEntry None None [\<lparr>pe_domid = 0, pe_perm = XS_PERM_NONE\<rparr>]
        [XsEntry (Some ''vm'') None [\<lparr>pe_domid = 3, pe_perm = XS_PERM_NONE\<rparr>, \<lparr>pe_domid = 4, pe_perm = XS_PERM_BOTH\<rparr>]
           [XsEntry (Some ''name'') (Some ''guest'') [\<lparr>pe_domid = 3, pe_perm = XS_PERM_NONE\<rparr>,
             \<lparr>pe_domid = 4, pe_perm = XS_PERM_BOTH\<rparr>] []]],
      watch_heap := [0 \<mapsto> \<lparr>we_key = ''/vm'', we_token = ''t'' @ [NUL], we_domain = Some 4, we_is_relative = False,
        we_cb = None, we_param = 0, we_pending_path = None, we_ref = 1\<rparr>,
        1 \<mapsto> \<lparr>we_key = ''/vm'', we_token = ''u'' @ [NUL], we_domain = Some 9, we_is_relative = False,
        we_cb = None, we_param = 0, we_pending_path = None, we_ref = 1\<rparr>],
      wnext := 2, watch_entry_list := [0, 1]\<rparr>"

lemma ex_watched_ok: "world_ok ex_watched"
proof -
  have "pending_watch_event_list ex_watched = []" by (simp add: ex_watched_def ex_world_def xs_store.defs)
  moreover have "wf_tree (root_xenstore ex_watched)" by (simp add: ex_watched_def token_ok_def)
  moreover have "distinct (watch_entry_list ex_watched)" "\<forall>a. wnext ex_watched \<le> a \<longrightarrow> watch_heap ex_watched a = None"
    "heap_refs (watch_heap ex_watched) (watch_refs [] (watch_entry_list ex_watched) [])"
    "\<forall>a e. watch_heap ex_watched a = Some e \<longrightarrow> entry_ok [] [] a e"
    by (simp_all add: ex_watched_def heap_refs_def watch_refs_def entry_ok_def entry_static_def cstr_def)
  ultimately show ?thesis unfolding world_ok_def watch_inv_def by simp
qed

text \<open>Domain 4 may read the entry, domain 9 may not.\<close>

theorem events_need_permission_witness:
  "\<exists>rc w'. notify_watchers_deadline ''/vm/name'' K_FOREVER ex_watched = Some (rc, w') \<and>
     pending_watch_event_list w' = [\<lparr>event_path = ''/vm/name'', pe_watch = 0\<rparr>] \<and>
     event_permitted ''/vm/name'' False (watch_entry_list ex_watched) (watch_heap ex_watched)
       (root_xenstore ex_watched) \<lparr>event_path = ''/vm/name'', pe_watch = 0\<rparr>"
proof -
  obtain rc w' where run: "notify_watchers_deadline ''/vm/name'' K_FOREVER ex_watched = Some (rc, w')"
    using notify_inv [OF ex_watched_ok] by blast
  have "map_option (\<lambda>(rc, w). pending_watch_event_list w) (notify_watchers_deadline ''/vm/name'' K_FOREVER ex_watched) =
      Some [\<lparr>event_path = ''/vm/name'', pe_watch = 0\<rparr>]" by code_simp
  then have p: "pending_watch_event_list w' = [\<lparr>event_path = ''/vm/name'', pe_watch = 0\<rparr>]" using run by simp
  have "pending_watch_event_list ex_watched = []" by code_simp
  with events_need_permission [OF run] p run show ?thesis by auto
qed

section \<open>Removal and clean-up\<close>

text \<open>C17. A removal of an entry below the root that succeeds needs the write permission on the entry and
  takes out exactly the entry with its subtree; one that fails leaves the tree as it was (it may
  announce the removal nevertheless).  In both cases the watches stay in order.\<close>

theorem rm_removes_subtree:
  assumes "world_ok w" "strtok_all slash key \<noteq> []"
  shows "\<exists>rc w'. xss_do_rm key d tout w = Some (rc, w') \<and> world_ok w' \<and>
    (if rc = 0
     then (\<exists>e. node_at (root_xenstore w) (strtok_all slash key) = Some e \<and> granted e XS_PERM_WRITE d) \<and>
       (\<forall>q. abs_tree (root_xenstore w') q =
          (if prefix (strtok_all slash key) q then None else abs_tree (root_xenstore w) q))
     else root_xenstore w' = root_xenstore w)"
proof -
  obtain rc w' where r: "xss_do_rm_deadline key d tout w = Some (rc, w')" "world_ok w'"
      "if rc = 0
       then (\<exists>e. node_at (root_xenstore w) (strtok_all slash key) = Some e \<and> check_perms e XS_PERM_WRITE d = Some True) \<and>
         root_xenstore w' = remove_at (strtok_all slash key) (root_xenstore w)
       else root_xenstore w' = root_xenstore w"
    using do_rm_inv [OF assms, of d tout] by blast
  have "wf_tree (root_xenstore w)" using assms(1) by (simp add: world_ok_def)
  then show ?thesis
    using r assms(2) check_perms_granted abs_tree_remove_at [of "root_xenstore w" "strtok_all slash key"]
    by (auto simp: xss_do_rm_def)
qed

theorem rm_removes_subtree_witness:
  "\<exists>rc w'. xss_do_rm ''/vm/name'' 4 K_FOREVER ex_watched = Some (rc, w') \<and> rc = 0 \<and>
     abs_tree (root_xenstore w') [''vm'', ''name''] = None"
proof -
  have t: "strtok_all slash ''/vm/name'' = [''vm'', ''name'']" by code_simp
  have ne: "strtok_all slash ''/vm/name'' \<noteq> []" by (simp add: t)
  have "map_option fst (xss_do_rm ''/vm/name'' 4 K_FOREVER ex_watched) = Some 0" by code_simp
  moreover obtain rc w' where "xss_do_rm ''/vm/name'' 4 K_FOREVER ex_watched = Some (rc, w')"
    "if rc = 0 then (\<forall>q. abs_tree (root_xenstore w') q =
       (if prefix [''vm'', ''name''] q then None else abs_tree (root_xenstore ex_watched) q)) else True"
    using rm_removes_subtree [OF ex_watched_ok ne, of 4 K_FOREVER] unfolding t by meson
  ultimately show ?thesis by simp
qed

text \<open>After the clean-up of a domain no watch of the domain is left, neither registered nor in
  a queued event; the watches of all other domains, their counts and tokens, and the tree are
  what they were.\<close>

theorem cleanup_forgets_domain:
  assumes "world_ok w"
  shows "\<exists>w'. cleanup_domain_watches d w = Some w' \<and> world_ok w' \<and> root_xenstore w' = root_xenstore w \<and>
    (\<forall>a e. watch_heap w' a = Some e \<longrightarrow> we_domain e \<noteq> Some d) \<and>
    (\<forall>a e. watch_heap w a = Some e \<and> we_domain e \<noteq> Some d \<longrightarrow> watch_heap w' a = Some e)"
  using cleanup_inv [OF assms, of d] unfolding others_kept_def by blast

theorem cleanup_forgets_domain_witness:
  "\<exists>w'. cleanup_domain_watches 4 ex_watched = Some w' \<and> watch_heap w' 0 = None \<and> watch_heap w' 1 \<noteq> None"
proof -
  obtain w' where c: "cleanup_domain_watches 4 ex_watched = Some w'"
      "\<forall>a e. watch_heap w' a = Some e \<longrightarrow> we_domain e \<noteq> Some 4"
      "\<forall>a e. watch_heap ex_watched a = Some e \<and> we_domain e \<noteq> Some 4 \<longrightarrow> watch_heap w' a = Some e"
    using cleanup_forgets_domain [OF ex_watched_ok, of 4] by blast
  have "map_option (\<lambda>w. watch_heap w 0 = None) (cleanup_domain_watches 4 ex_watched) = Some True" by code_simp
  then have "watch_heap w' 0 = None" using c(1) by simp
  moreover have "\<exists>e. watch_heap ex_watched 1 = Some e \<and> we_domain e \<noteq> Some 4" by (simp add: ex_watched_def)
  ultimately show ?thesis using c(1,3) by (metis option.distinct(1))
qed

end
