(* ===== verification/Mem_Mgmt.thy ===== *)
theory Mem_Mgmt
  imports Xen_Prelude
begin

text \<open>
  Mapping and populating guest memory, \<open>mem-mgmt.c\<close>.  The hypercalls and the region allocator
  of the Zephyr kernel are calls of the environment: their results are announced by \<open>hcalls\<close>
  (a result that is a pointer is its address) and their arguments recorded in \<open>trace\<close>.  The
  parameters are the chunk size \<open>CONFIG_PFN_CHUNK_SIZE\<close>, whether \<open>CONFIG_XEN_REGIONS\<close> is set,
  and \<open>xen_virt_to_gfn\<close>.
\<close>

section \<open>Operations\<close>

abbreviation (input) DOMID_SELF :: int where "DOMID_SELF \<equiv> 0x7FF0"
abbreviation (input) XENMAPSPACE_gmfn_foreign :: int where "XENMAPSPACE_gmfn_foreign \<equiv> 4"
abbreviation (input) PFN_4K_SHIFT :: nat where "PFN_4K_SHIFT \<equiv> 0"

text \<open>The next \<open>n\<close> values a call leaves in an output array.\<close>

definition ext_out :: "nat \<Rightarrow> 'a env_scheme \<Rightarrow> int list \<times> 'a env_scheme" where
  "ext_out n e = (take n (hcalls e @ replicate n 0), e\<lparr>hcalls := drop n (hcalls e)\<rparr>)"

definition uints :: "u64 list \<Rightarrow> int list" where
  "uints ws = map uint ws"

text \<open>The number of pages of the next chunk.\<close>

definition chunk_len :: "nat \<Rightarrow> u64 \<Rightarrow> u64 \<Rightarrow> nat" where
  "chunk_len chunk nr_pages i = min (unat (nr_pages - i)) chunk"

text \<open>The check of the error codes of one chunk: the new counter, and whether all pages of the
  chunk were added.  On an error the code returns the counter less one, or 0.\<close>

fun err_codes_loop :: "int list \<Rightarrow> u64 \<Rightarrow> u64 \<times> bool" where
  "err_codes_loop [] i = (i, True)"
| "err_codes_loop (c # cs) i =
     (if c \<noteq> 0 then (if i = 0 then 0 else i - 1, False) else err_codes_loop cs (i + 1))"

lemma err_codes_loop_all:
  "err_codes_loop cs i = (i', True) \<Longrightarrow> i' = i + of_nat (length cs)"
proof (induction cs arbitrary: i)
  case (Cons c cs)
  then have "err_codes_loop cs (i + 1) = (i', True)" by (simp split: if_splits)
  from Cons.IH [OF this] show ?case by (simp add: algebra_simps)
qed simp

lemma unat_less_add:
  fixes i n :: u64
  assumes "i < n" "k \<le> unat (n - i)"
  shows "unat (i + of_nat k) = unat i + k" "unat i + k \<le> unat n"
proof -
  have "unat i < unat n" using assms(1) by (simp add: word_less_nat_alt)
  then have d: "unat (n - i) = unat n - unat i" by (simp add: unat_sub word_le_nat_alt)
  then show le: "unat i + k \<le> unat n" using assms(2) \<open>unat i < unat n\<close> by linarith
  have b: "unat n < 2 ^ 64" using unsigned_less [of n] by simp
  have "unat (of_nat k :: u64) = k" using le b by (simp add: unat_of_nat take_bit_nat_eq_self)
  then show "unat (i + of_nat k) = unat i + k"
    using le b by (simp add: unat_word_ariths(1))
qed

lemma chunk_progress:
  fixes i n :: u64
  assumes "i < n" "0 < chunk"
  shows "unat n - unat (i + of_nat (chunk_len chunk n i)) < unat n - unat i"
proof -
  have lt: "unat i < unat n" using assms(1) by (simp add: word_less_nat_alt)
  have "unat (n - i) = unat n - unat i" using lt by (simp add: unat_sub word_le_nat_alt)
  then have "0 < chunk_len chunk n i" using assms(2) lt by (simp add: chunk_len_def)
  moreover have "unat (i + of_nat (chunk_len chunk n i)) = unat i + chunk_len chunk n i"
    by (rule unat_less_add(1) [OF assms(1)]) (simp add: chunk_len_def)
  ultimately show ?thesis using lt by linarith
qed

text \<open>The chunk size is positive; with a chunk size of 0 the loop of the code would not end.\<close>

function add_loop ::
  "nat \<Rightarrow> u64 \<Rightarrow> int \<Rightarrow> u64 \<Rightarrow> u64 \<Rightarrow> u64 \<Rightarrow> 'a env_scheme \<Rightarrow> u64 \<times> 'a env_scheme" where
  "add_loop chunk i d base_pfn base_gfn nr_pages e =
     (if \<not> (i < nr_pages \<and> 0 < chunk) then (i, e)
      else
        let iter = chunk_len chunk nr_pages i;
            pfns = map (\<lambda>j. base_pfn + of_nat j) [0..<iter];
            gfns = map (\<lambda>j. base_gfn + of_nat j) [0..<iter];
            (rc, e1) = ext_call ''xendom_add_to_physmap_batch''
              ([DOMID_SELF, d, XENMAPSPACE_gmfn_foreign, int iter] @ uints gfns @ uints pfns) e
        in if rc < 0 then (i, e1)
           else
             let (err_codes, e2) = ext_out iter e1
             in case err_codes_loop err_codes i of
                  (i', False) \<Rightarrow> (i', e2)
                | (_, True) \<Rightarrow>
                    add_loop chunk (i + of_nat iter) d (base_pfn + of_nat iter)
                      (base_gfn + of_nat iter) nr_pages e2)"
  by pat_completeness auto
termination
  by (relation "measure (\<lambda>(c, i, _, _, _, n, _). unat n - unat i)") (auto simp: chunk_progress)

declare add_loop.simps [simp del]

definition xendom_add_to_physmap_batch_by_chunks ::
  "nat \<Rightarrow> int \<Rightarrow> u64 \<Rightarrow> u64 \<Rightarrow> u64 \<Rightarrow> 'a env_scheme \<Rightarrow> u64 \<times> 'a env_scheme" where
  "xendom_add_to_physmap_batch_by_chunks chunk d base_pfn base_gfn nr_pages e =
     add_loop chunk 0 d base_pfn base_gfn nr_pages e"

text \<open>\<open>i += ret\<close> adds a signed result to the 64-bit counter; the step of \<open>base_pfn\<close> is shifted
  in 32 bits.\<close>

function populate_loop ::
  "nat \<Rightarrow> u64 \<Rightarrow> int \<Rightarrow> u64 \<Rightarrow> nat \<Rightarrow> u64 \<Rightarrow> 'a env_scheme \<Rightarrow> u64 \<times> 'a env_scheme" where
  "populate_loop chunk i d base_pfn pfn_shift nr_pages e =
     (if \<not> (i < nr_pages \<and> 0 < chunk) then (i, e)
      else
        let iter = chunk_len chunk nr_pages i;
            pfns = map (\<lambda>j. base_pfn + push_bit pfn_shift (of_nat j)) [0..<iter];
            (ret, e1) = ext_call ''xendom_populate_physmap''
              ([d, int pfn_shift, int iter, 0] @ uints pfns) e
        in if ret \<noteq> int iter then (i + of_int ret, e1)
           else populate_loop chunk (i + of_nat iter) d
                  (base_pfn + ucast (push_bit pfn_shift (of_nat iter :: u32))) pfn_shift nr_pages e1)"
  by pat_completeness auto
termination
  by (relation "measure (\<lambda>(c, i, _, _, _, n, _). unat n - unat i)") (auto simp: chunk_progress)

declare populate_loop.simps [simp del]

definition xenmem_populate_physmap ::
  "nat \<Rightarrow> int \<Rightarrow> u64 \<Rightarrow> nat \<Rightarrow> u64 \<Rightarrow> 'a env_scheme \<Rightarrow> u64 \<times> 'a env_scheme" where
  "xenmem_populate_physmap chunk d base_pfn pfn_shift nr_pages e =
     populate_loop chunk 0 d base_pfn pfn_shift nr_pages e"

text \<open>\<open>n\<close> pages are still to be removed, the next is page \<open>i\<close>.\<close>

fun remove_loop :: "nat \<Rightarrow> u64 \<Rightarrow> u64 \<Rightarrow> 'a env_scheme \<Rightarrow> u64 \<times> 'a env_scheme" where
  "remove_loop 0 i base_pfn e = (i, e)"
| "remove_loop (Suc n) i base_pfn e =
     (let (rc, e1) = ext_call ''xendom_remove_from_physmap'' [DOMID_SELF, uint (base_pfn + i)] e
      in if rc < 0 then (i, e1) else remove_loop n (i + 1) base_pfn e1)"

definition region_space_remove ::
  "(u64 \<Rightarrow> u64) \<Rightarrow> u64 \<Rightarrow> u64 \<Rightarrow> 'a env_scheme \<Rightarrow> u64 \<times> 'a env_scheme" where
  "region_space_remove virt_to_gfn mapped_addr nr_pages e =
     remove_loop (unat nr_pages) 0 (virt_to_gfn mapped_addr) e"

text \<open>A null pointer is \<open>None\<close>.\<close>

definition ptr_result :: "int \<Rightarrow> u64 option" where
  "ptr_result r = (if of_int r = (0 :: u64) then None else Some (of_int r))"

definition get_region_space ::
  "nat \<Rightarrow> bool \<Rightarrow> (u64 \<Rightarrow> u64) \<Rightarrow> u64 \<Rightarrow> 'a env_scheme \<Rightarrow> u64 option \<times> 'a env_scheme" where
  "get_region_space chunk regions virt_to_gfn nr_pages e =
     (if regions
      then let (r, e1) = ext_call ''xen_region_get_pages'' [uint nr_pages] e in (ptr_result r, e1)
      else
        let (r, e1) = ext_call ''k_aligned_alloc'' [4096, uint (4096 * nr_pages)] e
        in case ptr_result r of
             None \<Rightarrow> (None, e1)
           | Some mapped_addr \<Rightarrow>
               let (nr_removed, e2) = region_space_remove virt_to_gfn mapped_addr nr_pages e1
               in if nr_removed = 0
                  then (None, snd (ext_call ''k_free'' [uint mapped_addr] e2))
                  else if nr_removed \<noteq> nr_pages
                  then
                    let (populated, e3) = xenmem_populate_physmap chunk DOMID_SELF
                          (virt_to_gfn mapped_addr) PFN_4K_SHIFT nr_removed e2
                    in if populated \<noteq> nr_removed then (None, e3)
                       else (None, snd (ext_call ''k_free'' [uint mapped_addr] e3))
                  else (Some mapped_addr, e2))"

definition put_region_space ::
  "nat \<Rightarrow> bool \<Rightarrow> (u64 \<Rightarrow> u64) \<Rightarrow> u64 \<Rightarrow> u64 \<Rightarrow> 'a env_scheme \<Rightarrow> int \<times> 'a env_scheme" where
  "put_region_space chunk regions virt_to_gfn mapped_addr nr_pages e =
     (if regions
      then (0, snd (ext_call ''xen_region_put_pages'' [uint mapped_addr, uint nr_pages] e))
      else
        let (populated, e1) = xenmem_populate_physmap chunk DOMID_SELF
              (virt_to_gfn mapped_addr) PFN_4K_SHIFT nr_pages e
        in if populated \<noteq> nr_pages then (- EFAULT, e1)
           else (0, snd (ext_call ''k_free'' [uint mapped_addr] e1)))"

text \<open>\<open>mapped_addr\<close> is the address of the variable of the caller that receives the mapping; the
  result carries what that variable holds afterwards, \<open>None\<close> being the null pointer.  On the
  error path the code hands the address of the variable to \<open>region_space_remove\<close>.\<close>

definition xenmem_map_region ::
  "nat \<Rightarrow> bool \<Rightarrow> (u64 \<Rightarrow> u64) \<Rightarrow> int \<Rightarrow> u64 \<Rightarrow> u64 \<Rightarrow> u64 \<Rightarrow> 'a env_scheme \<Rightarrow>
     (int \<times> u64 option) \<times> 'a env_scheme" where
  "xenmem_map_region chunk regions virt_to_gfn d nr_pages base_gfn mapped_addr e =
     (if mapped_addr = 0 then ((- EINVAL, None), e)
      else
        case get_region_space chunk regions virt_to_gfn nr_pages e of
          (None, e1) \<Rightarrow> ((- ENOMEM, None), e1)
        | (Some addr, e1) \<Rightarrow>
            let (nr_added, e2) = xendom_add_to_physmap_batch_by_chunks chunk d
                  (virt_to_gfn addr) base_gfn nr_pages e1
            in if nr_added = nr_pages
               then ((0, Some addr),
                     if regions then snd (ext_call ''xen_region_map'' [uint addr, uint nr_pages] e2)
                     else e2)
               else
                 let (removed, e3) = region_space_remove virt_to_gfn mapped_addr nr_added e2;
                     (ret, e4) = put_region_space chunk regions virt_to_gfn addr nr_pages e3
                 in ((- ENOMEM, Some addr), e4))"

definition xenmem_unmap_region ::
  "nat \<Rightarrow> bool \<Rightarrow> (u64 \<Rightarrow> u64) \<Rightarrow> u64 \<Rightarrow> u64 \<Rightarrow> 'a env_scheme \<Rightarrow> int \<times> 'a env_scheme" where
  "xenmem_unmap_region chunk regions virt_to_gfn nr_pages mapped_addr e =
     (let (nr_removed, e1) = region_space_remove virt_to_gfn mapped_addr nr_pages e
      in if nr_removed \<noteq> nr_pages then (- EFAULT, e1)
         else
           let e2 = (if regions
                     then snd (ext_call ''xen_region_unmap'' [uint mapped_addr, uint nr_pages] e1)
                     else e1)
           in put_region_space chunk regions virt_to_gfn mapped_addr nr_pages e2)"

section \<open>What the calls leave alone\<close>

definition env_only :: "'a env_scheme \<Rightarrow> 'a env_scheme \<Rightarrow> bool" where
  "env_only e e' \<longleftrightarrow> (\<exists>hs tr. e' = e\<lparr>hcalls := hs, trace := tr\<rparr>)"

lemma env_onlyI: "e' = e\<lparr>hcalls := hs, trace := tr\<rparr> \<Longrightarrow> env_only e e'"
  unfolding env_only_def by blast

lemma env_only_refl [simp]: "env_only e e"
  by (rule env_onlyI [where hs = "hcalls e" and tr = "trace e"]) simp

lemma env_only_trans: "env_only e e' \<Longrightarrow> env_only e' e'' \<Longrightarrow> env_only e e''"
proof -
  assume "env_only e e'" "env_only e' e''"
  then obtain hs tr where "e'' = e\<lparr>hcalls := hs, trace := tr\<rparr>" by (auto simp: env_only_def)
  then show ?thesis by (rule env_onlyI)
qed

lemma env_only_call [simp]: "env_only e (snd (ext_call name args e))"
  by (rule env_onlyI [where hs = "tl (hcalls e)" and tr = "trace e @ [(name, args)]"]) (simp add: ext_call_def)

lemma env_only_call_eq: "ext_call name args e = (r, e') \<Longrightarrow> env_only e e'"
  using env_only_call [of e name args] by simp

lemma env_only_out: "ext_out n e = (os, e') \<Longrightarrow> env_only e e'"
  by (rule env_onlyI [where hs = "drop n (hcalls e)" and tr = "trace e"]) (auto simp: ext_out_def)

lemma env_only_remove_loop: "env_only e (snd (remove_loop n i b e))"
proof (induction n arbitrary: i e)
  case (Suc n)
  obtain rc e1 where c: "ext_call ''xendom_remove_from_physmap'' [DOMID_SELF, uint (b + i)] e = (rc, e1)" by fastforce
  show ?case using env_only_call_eq [OF c] env_only_trans [OF _ Suc] by (simp add: c)
qed simp

lemma env_only_populate_loop: "env_only e (snd (populate_loop chunk i d b sh n e))"
proof (induction chunk i d b sh n e rule: populate_loop.induct)
  case (1 chunk i d b sh n e)
  show ?case
  proof (cases "i < n \<and> 0 < chunk")
    case True
    let ?iter = "chunk_len chunk n i"
    let ?args = "[d, int sh, int ?iter, 0] @ uints (map (\<lambda>j. b + push_bit sh (of_nat j)) [0..<?iter])"
    obtain ret e1 where c: "ext_call ''xendom_populate_physmap'' ?args e = (ret, e1)" by fastforce
    note s = env_only_call_eq [OF c]
    show ?thesis
    proof (cases "ret = int ?iter")
      case eq: True
      from "1.IH" [OF _ refl refl c [symmetric] refl] True eq
      have ih: "env_only e1 (snd (populate_loop chunk (i + of_nat ?iter) d
          (b + ucast (push_bit sh (of_nat ?iter :: u32))) sh n e1))" by simp
      show ?thesis using env_only_trans [OF s ih] c True eq
        by (subst populate_loop.simps) (simp add: Let_def)
    next
      case False
      with s c True show ?thesis by (subst populate_loop.simps) simp
    qed
  qed (simp add: populate_loop.simps)
qed

lemma env_only_populate: "xenmem_populate_physmap chunk d b sh n e = (r, e') \<Longrightarrow> env_only e e'"
  using env_only_populate_loop [of e chunk 0 d b sh n] by (simp add: xenmem_populate_physmap_def)

lemma env_only_put: "put_region_space chunk regions v2g a n e = (r, e') \<Longrightarrow> env_only e e'"
proof -
  assume p: "put_region_space chunk regions v2g a n e = (r, e')"
  obtain k e1 where q: "xenmem_populate_physmap chunk DOMID_SELF (v2g a) PFN_4K_SHIFT n e = (k, e1)" by fastforce
  from p q env_only_populate [OF q] show ?thesis
    by (auto simp: put_region_space_def split: if_splits intro: env_only_trans)
qed

lemma env_only_unmap: "xenmem_unmap_region chunk regions v2g n a e = (r, e') \<Longrightarrow> env_only e e'"
proof -
  assume u: "xenmem_unmap_region chunk regions v2g n a e = (r, e')"
  obtain k e1 where q: "region_space_remove v2g a n e = (k, e1)" by fastforce
  have s1: "env_only e e1" using env_only_remove_loop [of e "unat n" 0 "v2g a"] q by (simp add: region_space_remove_def)
  define e2 where "e2 = (if regions then snd (ext_call ''xen_region_unmap'' [uint a, uint n] e1) else e1)"
  have "env_only e1 e2" by (simp add: e2_def)
  with s1 have s2: "env_only e e2" by (rule env_only_trans)
  show ?thesis
    using u q s1 s2 env_only_put [of chunk regions v2g a n e2 r e'] env_only_trans
    by (auto simp: xenmem_unmap_region_def e2_def [symmetric] split: if_splits)
qed

end
