(* ===== verification/Slot_Alloc.thy ===== *)
theory Slot_Alloc
  imports Xen_Prelude
begin

text \<open>
  The bitmap from which the Xenstore server and the console take a thread stack: its functions
  \<open>get_stack_idx\<close> and \<open>free_stack_idx\<close> have the same text in \<open>xenstore_srv.c\<close> and
  \<open>xen_console.c\<close>, each over its own \<open>used_threads\<close>.  This theory holds what both share, the
  contract as the locale \<open>slot_allocator\<close>, and what follows from it for every client: live
  slots are distinct, and with fewer than \<open>n\<close> slots in use the next slot is below \<open>n\<close>.
\<close>

section \<open>Bits\<close>

text \<open>The Zephyr function: one more than the index of the lowest set bit, 0 when there is none.\<close>

definition find_lsb_set :: "u32 \<Rightarrow> nat" where
  "find_lsb_set v = (case List.find (\<lambda>i. bit v i) [0..<32] of None \<Rightarrow> 0 | Some i \<Rightarrow> i + 1)"

definition bitmap_get :: "u32 \<Rightarrow> (nat \<times> u32) option" where
  "bitmap_get used =
     (case find_lsb_set (NOT used) of 0 \<Rightarrow> None | Suc i \<Rightarrow> Some (i, used OR push_bit i 1))"

definition bitmap_free :: "nat \<Rightarrow> nat \<Rightarrow> u32 \<Rightarrow> u32 option" where
  "bitmap_free domu_max idx used =
     (if domu_max \<le> idx \<or> used AND push_bit idx 1 = 0 then None
      else Some (used AND NOT (push_bit idx 1)))"

definition slots :: "u32 \<Rightarrow> nat set" where
  "slots used = {i. i < 32 \<and> bit used i}"

lemma finite_slots [simp]: "finite (slots used)"
  by (simp add: slots_def)

lemma bit_push_one: "bit (push_bit i 1 :: u32) n \<longleftrightarrow> n = i \<and> i < 32"
  by (auto simp: bit_simps)

lemma slots_or: "i < 32 \<Longrightarrow> slots (used OR push_bit i 1) = insert i (slots used)"
  by (auto simp: slots_def bit_simps)

lemma slots_and_not: "slots (used AND NOT (push_bit i 1)) = slots used - {i}"
  by (auto simp: slots_def bit_simps)

lemma find_lsb_set_Suc:
  assumes "find_lsb_set v = Suc i"
  shows "i < 32" "bit v i" "\<forall>j < i. \<not> bit v j"
proof -
  from assms obtain k where k: "List.find (\<lambda>i. bit v i) [0..<32] = Some k" "k = i"
    by (auto simp: find_lsb_set_def split: option.splits)
  then show "i < 32" "bit v i" "\<forall>j < i. \<not> bit v j"
    by (auto simp: find_Some_iff)
qed

lemma find_lsb_set_0: "find_lsb_set v = 0 \<Longrightarrow> i < 32 \<Longrightarrow> \<not> bit v i"
  by (auto simp: find_lsb_set_def find_None_iff split: option.splits)

lemma bitmap_get_spec:
  assumes "bitmap_get used = Some (i, used')"
  shows "i \<notin> slots used" "slots used' = insert i (slots used)" "\<forall>j < i. j \<in> slots used"
proof -
  have f: "find_lsb_set (NOT used) = Suc i" "used' = used OR push_bit i 1"
    using assms by (auto simp: bitmap_get_def split: nat.splits)
  note g = find_lsb_set_Suc [OF f(1)]
  show "i \<notin> slots used" using g by (simp add: slots_def bit_simps)
  show "slots used' = insert i (slots used)" using g f(2) slots_or by simp
  show "\<forall>j < i. j \<in> slots used" using g by (auto simp: slots_def bit_simps)
qed

lemma bitmap_get_None: "bitmap_get used = None \<Longrightarrow> slots used = {0..<32}"
  using find_lsb_set_0 [of "NOT used"]
  by (auto simp: bitmap_get_def slots_def bit_simps split: nat.splits)

lemma bitmap_free_spec:
  assumes "idx \<in> slots used" "idx < domu_max"
  shows "\<exists>used'. bitmap_free domu_max idx used = Some used' \<and> slots used' = slots used - {idx}"
proof -
  have "bit (used AND push_bit idx 1) idx" using assms(1) by (simp add: slots_def bit_simps)
  then have "used AND push_bit idx 1 \<noteq> 0" by auto
  with assms(2) have "bitmap_free domu_max idx used = Some (used AND NOT (push_bit idx 1))"
    by (simp add: bitmap_free_def del: push_bit_of_1)
  then show ?thesis using slots_and_not by blast
qed

section \<open>The contract and its clients\<close>

datatype slot_op = Take | Release nat

locale slot_allocator =
  fixes taken :: "'s \<Rightarrow> nat set"
    and take_slot :: "'s \<Rightarrow> (nat \<times> 's) option"
    and release :: "nat \<Rightarrow> nat \<Rightarrow> 's \<Rightarrow> 's option"
  assumes finite_taken: "finite (taken s)"
    and take_fresh: "take_slot s = Some (i, s') \<Longrightarrow> i \<notin> taken s"
    and take_taken: "take_slot s = Some (i, s') \<Longrightarrow> taken s' = insert i (taken s)"
    and take_lowest: "take_slot s = Some (i, s') \<Longrightarrow> j < i \<Longrightarrow> j \<in> taken s"
    and take_total: "card (taken s) < 32 \<Longrightarrow> \<exists>i s'. take_slot s = Some (i, s')"
    and release_taken: "i \<in> taken s \<Longrightarrow> i < n \<Longrightarrow>
          \<exists>s'. release n i s = Some s' \<and> taken s' = taken s - {i}"
begin

text \<open>The slot handed out is at most the number of slots in use.\<close>

lemma take_bound:
  assumes "take_slot s = Some (i, s')"
  shows "i \<le> card (taken s)"
proof -
  have "{0..<i} \<subseteq> taken s" using take_lowest [OF assms] by auto
  from card_mono [OF finite_taken this] show ?thesis by simp
qed

text \<open>A history of at most \<open>n\<close> live slots: \<open>live\<close> are the slots handed out and not released, in
  the order they were taken; a release names a live slot.\<close>

fun history :: "nat \<Rightarrow> slot_op list \<Rightarrow> nat list \<Rightarrow> 's \<Rightarrow> (nat list \<times> 's) option" where
  "history n [] live s = Some (live, s)"
| "history n (Take # ops) live s =
     (if n \<le> length live then history n ops live s
      else do { (i, s') \<leftarrow> take_slot s; history n ops (live @ [i]) s' })"
| "history n (Release k # ops) live s =
     (if length live \<le> k then history n ops live s
      else do { s' \<leftarrow> release n (live ! k) s; history n ops (remove1 (live ! k) live) s' })"

lemma history_ok:
  assumes "n \<le> 32" "distinct live" "set live = taken s" "length live \<le> n" "\<forall>i \<in> set live. i < n"
  shows "\<exists>live' s'. history n ops live s = Some (live', s') \<and> distinct live' \<and>
    set live' = taken s' \<and> length live' \<le> n \<and> (\<forall>i \<in> set live'. i < n)"
  using assms
proof (induction n ops live s rule: history.induct)
  case (2 n ops live s)
  show ?case
  proof (cases "n \<le> length live")
    case True
    with 2 show ?thesis by simp
  next
    case False
    have c: "card (taken s) = length live" using "2.prems"(2,3) by (metis distinct_card)
    have "length live < 32" using False "2.prems"(1) by linarith
    then obtain i s' where t: "take_slot s = Some (i, s')"
      using take_total [of s] c by auto
    have "i < n" using take_bound [OF t] c False by simp
    with "2.IH"(2) [OF False t refl] False t "2.prems" take_fresh [OF t] take_taken [OF t]
    show ?thesis by auto
  qed
next
  case (3 n k ops live s)
  show ?case
  proof (cases "length live \<le> k")
    case True
    with 3 show ?thesis by simp
  next
    case False
    then have m: "live ! k \<in> set live" by simp
    then obtain s' where r: "release n (live ! k) s = Some s'" "taken s' = taken s - {live ! k}"
      using release_taken "3.prems"(3,5) by blast
    have "length (remove1 (live ! k) live) \<le> n" using "3.prems"(4) m by (simp add: length_remove1)
    with "3.IH"(2) [OF False r(1)] False r "3.prems" show ?thesis by auto
  qed
qed auto

end

end
