(* ===== verification/Xs_Server.thy ===== *)
theory Xs_Server
  imports Xs_Watch Mem_Mgmt Slot_Alloc
begin

text \<open>
  The server side of a connection, as in \<open>xenstore_srv.c\<close>: buffering requests and replies, the
  handlers of the protocol, the event thread of a domain, and starting and stopping the
  service of a domain.  The record \<open>xenstore\<close> is \<open>struct xenstore\<close>; the functions pass it
  together with the state of the server.  Their result is \<open>None\<close> where the code has undefined
  behaviour or fails an assertion.
\<close>

section \<open>State\<close>

record xen_cfg =
  cfg_chunk :: nat
  cfg_regions :: bool
  cfg_virt_to_gfn :: "u64 \<Rightarrow> u64"
  cfg_domu_max :: nat

text \<open>\<open>bd_buffer\<close> holds the bytes of a buffer that have been written: all of an output buffer,
  the first \<open>bd_used\<close> of an input buffer.\<close>

record buffered_data =
  bd_used :: nat
  bd_total_size :: nat
  bd_buffer :: "char list"

text \<open>\<open>domint\<close> is the shared page, \<open>None\<close> when it is not mapped.  The counters of transactions have the type
  \<open>int\<close> in the code; they are kept as their 32 bits, which wrap around.\<close>

record xenstore =
  out_list :: "buffered_data list"
  in_buf :: "buffered_data option"
  used_out_bufs :: int
  domint :: "xenstore_domain_interface option"
  domint_addr :: u64
  xs_domid :: u32
  thrd_stop :: bool
  remote_evtchn :: u32
  local_evtchn :: u32
  xs_stack_slot :: nat
  transaction :: u32
  running_transaction :: u32
  stop_transaction_id :: u32
  pending_stop_transaction :: bool

text \<open>\<open>stack_junk\<close> announces the values found in uninitialised variables.\<close>

record xs_server = xs_world +
  used_threads :: u32
  stack_junk :: "u32 list"

type_synonym 'a served = "(xenstore \<times> 'a xs_server_scheme) option"

abbreviation (input) XENSTORE_MAX_OUT_BUF_NUM :: int where "XENSTORE_MAX_OUT_BUF_NUM \<equiv> 100"

section \<open>The rings\<close>

definition notify_evtchn :: "u32 \<Rightarrow> 'a env_scheme \<Rightarrow> 'a env_scheme" where
  "notify_evtchn port e = snd (ext_call ''notify_evtchn'' [uint port] e)"

definition ring_write ::
  "xenstore \<Rightarrow> char list \<Rightarrow> 'a xs_server_scheme \<Rightarrow> (int \<times> xenstore \<times> 'a xs_server_scheme) option" where
  "ring_write x data w =
     do { i \<leftarrow> domint x;
          let w1 = notify_evtchn (local_evtchn x) w in
          case xenstore_ring_write i data False of
            Inl rc \<Rightarrow> Some (rc, x, w1)
          | Inr (n, i') \<Rightarrow> Some (int n, x\<lparr>domint := Some i'\<rparr>, w1) }"

definition ring_read ::
  "xenstore \<Rightarrow> nat \<Rightarrow> 'a xs_server_scheme \<Rightarrow>
     ((int + char list) \<times> xenstore \<times> 'a xs_server_scheme) option" where
  "ring_read x len w =
     do { i \<leftarrow> domint x;
          let w1 = notify_evtchn (local_evtchn x) w in
          case xenstore_ring_read i len False of
            Inl rc \<Rightarrow> Some (Inl rc, x, w1)
          | Inr (d, i') \<Rightarrow> Some (Inr d, x\<lparr>domint := Some i'\<rparr>, w1) }"

section \<open>Stacks\<close>

definition get_stack_idx :: "'a xs_server_scheme \<Rightarrow> (nat \<times> 'a xs_server_scheme) option" where
  "get_stack_idx w = do { (i, u) \<leftarrow> bitmap_get (used_threads w); Some (i, w\<lparr>used_threads := u\<rparr>) }"

definition free_stack_idx :: "nat \<Rightarrow> nat \<Rightarrow> 'a xs_server_scheme \<Rightarrow> 'a xs_server_scheme option" where
  "free_stack_idx domu_max idx w =
     do { u \<leftarrow> bitmap_free domu_max idx (used_threads w); Some (w\<lparr>used_threads := u\<rparr>) }"

lemma free_stack_ok:
  "i \<in> slots (used_threads w) \<Longrightarrow> i < n \<Longrightarrow>
   \<exists>u. free_stack_idx n i w = Some (w\<lparr>used_threads := u\<rparr>) \<and> slots u = slots (used_threads w) - {i}"
  using bitmap_free_spec [of i "used_threads w" n] by (auto simp: free_stack_idx_def)

interpretation xs_stacks: slot_allocator "\<lambda>w :: 'a xs_server_scheme. slots (used_threads w)" get_stack_idx free_stack_idx
proof
  fix w w' :: "'a xs_server_scheme" and i j n
  show "finite (slots (used_threads w))" by simp
  show "\<exists>w'. free_stack_idx n i w = Some w' \<and> slots (used_threads w') = slots (used_threads w) - {i}"
    if "i \<in> slots (used_threads w)" "i < n" using free_stack_ok [OF that] by auto
  show "\<exists>i w'. get_stack_idx w = Some (i, w')" if "card (slots (used_threads w)) < 32"
    using that bitmap_get_None [of "used_threads w"]
    by (cases "bitmap_get (used_threads w)") (auto simp: get_stack_idx_def)
  assume "get_stack_idx w = Some (i, w')"
  then have g: "bitmap_get (used_threads w) = Some (i, used_threads w')"
    by (auto simp: get_stack_idx_def split: bind_splits)
  note sp = bitmap_get_spec [OF g]
  show "i \<notin> slots (used_threads w)" "slots (used_threads w') = insert i (slots (used_threads w))" using sp by simp_all
  show "j < i \<Longrightarrow> j \<in> slots (used_threads w)" using sp(3) by simp
qed

section \<open>Stopping\<close>

definition free_buffered_data :: "xenstore \<Rightarrow> xenstore" where
  "free_buffered_data x =
     x\<lparr>out_list := [], used_out_bufs := used_out_bufs x - int (length (out_list x)), in_buf := None\<rparr>"

text \<open>\<open>own\<close> tells that the caller is the event thread itself.  Then \<open>k_thread_join\<close> fails at once
  and the thread goes on; otherwise it has ended, having cleaned up its watches.\<close>

definition stop_domain_stored ::
  "xen_cfg \<Rightarrow> bool \<Rightarrow> xenstore \<Rightarrow> 'a xs_server_scheme \<Rightarrow>
     (int \<times> xenstore \<times> 'a xs_server_scheme) option" where
  "stop_domain_stored cfg own x w =
     (let d = xs_domid x;
          w1 = w\<lparr>xb_sem := (xb_sem w)(d := True)\<rparr>
      in do { w2 \<leftarrow> (if own then Some w1 else cleanup_domain_watches d w1);
              w3 \<leftarrow> free_stack_idx (cfg_domu_max cfg) (xs_stack_slot x) w2;
              let w4 = snd (ext_call ''unbind_event_channel'' [uint (local_evtchn x)] w3);
                  (rc1, w5) = ext_call ''evtchn_close'' [uint (local_evtchn x)] w4;
                  (rc2, w6) = xenmem_unmap_region (cfg_chunk cfg) (cfg_regions cfg)
                                (cfg_virt_to_gfn cfg) 1 (domint_addr x) w5
              in do { w7 \<leftarrow> remove_ref_entries d w6;
                      Some (if rc2 < 0 then rc2 else rc1,
                        free_buffered_data (x\<lparr>thrd_stop := True, domint := None\<rparr>), w7) } })"

definition invalidate_client :: "xen_cfg \<Rightarrow> xenstore \<Rightarrow> 'a xs_server_scheme \<Rightarrow> 'a served" where
  "invalidate_client cfg x w = do { (rc, x1, w1) \<leftarrow> stop_domain_stored cfg True x w; Some (x1, w1) }"

section \<open>Replies\<close>

definition error_string :: "int \<Rightarrow> string" where
  "error_string err =
     (case List.find (\<lambda>(n, s). n = err) xsd_errors of
        Some (_, s) \<Rightarrow> s
      | None \<Rightarrow> snd (hd xsd_errors))"

lemma length_error_string: "length (error_string err) < 20"
proof -
  have "\<forall>p \<in> set xsd_errors. length (snd p) < 20" by (simp add: xsd_errors_def)
  moreover have "error_string err \<in> snd ` set xsd_errors"
  proof (cases "List.find (\<lambda>(n, s). n = err) xsd_errors")
    case None
    moreover have "xsd_errors \<noteq> []" by (simp add: xsd_errors_def)
    ultimately show ?thesis by (simp add: error_string_def)
  next
    case (Some p)
    then have "p \<in> set xsd_errors" by (metis find_Some_iff nth_mem)
    moreover have "error_string err = snd p" using Some by (cases p) (simp add: error_string_def)
    ultimately show ?thesis by simp
  qed
  ultimately show ?thesis by auto
qed

lemma error_string_short: "\<not> 4095 < length (error_string err)"
  using length_error_string [of err] by linarith

text \<open>Queue a reply: two allocations, whose failure drops the reply, and the header, whose
  \<open>tx_id\<close> the code never sets.\<close>

definition enqueue_reply ::
  "xenstore \<Rightarrow> u32 \<Rightarrow> xsd_sockmsg_type \<Rightarrow> char list \<Rightarrow> 'a xs_server_scheme \<Rightarrow>
     xenstore \<times> 'a xs_server_scheme" where
  "enqueue_reply x req_id ty data w =
     (let (ok1, w1) = k_malloc w in
      if \<not> ok1 then (x, w1)
      else
        let (ok2, w2) = k_malloc w1 in
        if \<not> ok2 then (x, w2)
        else
          let junk = (case stack_junk w2 of [] \<Rightarrow> 0 | j # _ \<Rightarrow> j);
              hdr = \<lparr>hdr_type = msg_code ty, hdr_req_id = req_id, hdr_tx_id = junk,
                     hdr_len = of_nat (length data)\<rparr>
          in (x\<lparr>out_list := out_list x @
                  [\<lparr>bd_used = 0, bd_total_size = length data + 16, bd_buffer = hdr_encode hdr @ data\<rparr>],
                used_out_bufs := used_out_bufs x + 1\<rparr>,
              w2\<lparr>stack_junk := tl (stack_junk w2)\<rparr>))"

function send_reply_sz ::
  "xen_cfg \<Rightarrow> xenstore \<Rightarrow> u32 \<Rightarrow> xsd_sockmsg_type \<Rightarrow> char list \<Rightarrow> 'a xs_server_scheme \<Rightarrow> 'a served"
and send_errno ::
  "xen_cfg \<Rightarrow> xenstore \<Rightarrow> u32 \<Rightarrow> int \<Rightarrow> 'a xs_server_scheme \<Rightarrow> 'a served" where
  "send_reply_sz cfg x req_id ty data w =
     (if XENSTORE_MAX_OUT_BUF_NUM < used_out_bufs x then invalidate_client cfg x w
      else if XENSTORE_PAYLOAD_MAX < length data then send_errno cfg x req_id E2BIG w
      else Some (enqueue_reply x req_id ty data w))"
| "send_errno cfg x req_id err w =
     send_reply_sz cfg x req_id XS_ERROR (error_string err @ [NUL]) w"
  by pat_completeness auto
termination
proof (relation "measure (\<lambda>s. case s of
      Inl (_, _, _, _, data, _) \<Rightarrow> if XENSTORE_PAYLOAD_MAX < length data then 2 else 0
    | Inr _ \<Rightarrow> 1)")
qed (auto simp: error_string_short)

declare send_reply_sz.simps [simp del] send_errno.simps [simp del]

definition send_reply ::
  "xen_cfg \<Rightarrow> xenstore \<Rightarrow> u32 \<Rightarrow> xsd_sockmsg_type \<Rightarrow> string \<Rightarrow> 'a xs_server_scheme \<Rightarrow> 'a served" where
  "send_reply cfg x req_id ty payload w = send_reply_sz cfg x req_id ty (payload @ [NUL]) w"

definition send_reply_read ::
  "xen_cfg \<Rightarrow> xenstore \<Rightarrow> u32 \<Rightarrow> xsd_sockmsg_type \<Rightarrow> string \<Rightarrow> 'a xs_server_scheme \<Rightarrow> 'a served" where
  "send_reply_read cfg x req_id ty payload w = send_reply_sz cfg x req_id ty payload w"

section \<open>The handlers\<close>

text \<open>The payload is the list of its \<open>len\<close> bytes.  Where a handler takes it for a C string, a
  payload without terminator is read past its end.\<close>

definition handle_control ::
  "xen_cfg \<Rightarrow> xenstore \<Rightarrow> u32 \<Rightarrow> char list \<Rightarrow> 'a xs_server_scheme \<Rightarrow> 'a served" where
  "handle_control cfg x req_id payload w = send_reply cfg x req_id XS_CONTROL ''OK'' w"

definition dir_names :: "xs_entry list \<Rightarrow> char list" where
  "dir_names cs = concat (map (\<lambda>c. case xs_key c of None \<Rightarrow> [] | Some k \<Rightarrow> k @ [NUL]) cs)"

definition handle_directory ::
  "xen_cfg \<Rightarrow> xenstore \<Rightarrow> u32 \<Rightarrow> char list \<Rightarrow> 'a xs_server_scheme \<Rightarrow> 'a served" where
  "handle_directory cfg x req_id payload w =
     do { p \<leftarrow> cstr payload;
          case construct_path p (xs_domid x) w of
            (Inl rc, w1) \<Rightarrow> send_errno cfg x req_id (- rc) w1
          | (Inr path, w1) \<Rightarrow>
              let (entry, w2) = key_to_entry (Some path) w1 in
              case entry of
                None \<Rightarrow> send_errno cfg x req_id ENOENT w2
              | Some q \<Rightarrow>
                  do { ok \<leftarrow> check_perms_for_entry entry (xs_domid x) XS_PERM_READ w2;
                       if \<not> ok then send_errno cfg x req_id EACCES w2
                       else
                         do { e \<leftarrow> node_at (root_xenstore w2) q;
                              let (ok, w3) = k_malloc w2 in
                              if \<not> ok then send_errno cfg x req_id ENOMEM w3
                              else send_reply_sz cfg x req_id XS_DIRECTORY
                                     (dir_names (child_list e)) w3 } } }"

definition handle_read ::
  "xen_cfg \<Rightarrow> xenstore \<Rightarrow> u32 \<Rightarrow> char list \<Rightarrow> 'a xs_server_scheme \<Rightarrow> 'a served" where
  "handle_read cfg x req_id payload w =
     do { p \<leftarrow> cstr payload;
          case construct_path p (xs_domid x) w of
            (Inl rc, w1) \<Rightarrow> send_errno cfg x req_id (- rc) w1
          | (Inr path, w1) \<Rightarrow>
              do { (entry, w2) \<leftarrow> key_to_entry_check_perm (Some path) (xs_domid x) XS_PERM_READ w1;
                   case entry of
                     None \<Rightarrow> send_errno cfg x req_id ENOENT w2
                   | Some q \<Rightarrow>
                       do { e \<leftarrow> node_at (root_xenstore w2) q;
                            send_reply_read cfg x req_id XS_READ
                              (case xs_value e of None \<Rightarrow> [] | Some v \<Rightarrow> v) w2 } } }"

text \<open>\<open>construct_data\<close>: the data of a write, as the C string the store will see.\<close>

definition construct_data ::
  "char list \<Rightarrow> nat \<Rightarrow> 'a env_scheme \<Rightarrow> (int + string option) \<times> 'a env_scheme" where
  "construct_data payload path_len e =
     (if path_len = length payload then (Inr None, e)
      else
        let data_size = length payload - path_len + (if last payload \<noteq> NUL then 1 else 0);
            (ok, e1) = k_malloc e
        in if \<not> ok then (Inl (- ENOMEM), e1)
           else (Inr (cstr (take (data_size - 1) (drop path_len payload) @ [NUL])), e1))"

definition handle_write_common ::
  "xen_cfg \<Rightarrow> xenstore \<Rightarrow> u32 \<Rightarrow> xsd_sockmsg_type \<Rightarrow> char list \<Rightarrow> 'a xs_server_scheme \<Rightarrow> 'a served" where
  "handle_write_common cfg x req_id ty payload w =
     do { p \<leftarrow> cstr payload;
          if length payload < length p + 1 then send_errno cfg x req_id EINVAL w
          else
            case construct_path p (xs_domid x) w of
              (Inl rc, w1) \<Rightarrow> send_errno cfg x req_id (- rc) w1
            | (Inr path, w1) \<Rightarrow>
                (case construct_data payload (length p + 1) w1 of
                   (Inl rc, w2) \<Rightarrow> send_errno cfg x req_id (- rc) w2
                 | (Inr data, w2) \<Rightarrow>
                     do { (rc, w3) \<leftarrow> xss_do_write path data (xs_domid x) [] K_FOREVER w2;
                          if rc \<noteq> 0 then send_errno cfg x req_id (- rc) w3
                          else
                            do { (x1, w4) \<leftarrow> send_reply cfg x req_id ty ''OK'' w3;
                                 w5 \<leftarrow> notify_watchers path w4;
                                 Some (x1, w5) } }) }"

definition handle_write ::
  "xen_cfg \<Rightarrow> xenstore \<Rightarrow> u32 \<Rightarrow> char list \<Rightarrow> 'a xs_server_scheme \<Rightarrow> 'a served" where
  "handle_write cfg x req_id payload w = handle_write_common cfg x req_id XS_WRITE payload w"

definition handle_mkdir ::
  "xen_cfg \<Rightarrow> xenstore \<Rightarrow> u32 \<Rightarrow> char list \<Rightarrow> 'a xs_server_scheme \<Rightarrow> 'a served" where
  "handle_mkdir cfg x req_id payload w = handle_write_common cfg x req_id XS_MKDIR payload w"

definition handle_get_perms ::
  "xen_cfg \<Rightarrow> xenstore \<Rightarrow> u32 \<Rightarrow> char list \<Rightarrow> 'a xs_server_scheme \<Rightarrow> 'a served" where
  "handle_get_perms cfg x req_id payload w =
     do { p \<leftarrow> cstr payload;
          case construct_path p (xs_domid x) w of
            (Inl rc, w1) \<Rightarrow> send_errno cfg x req_id (- rc) w1
          | (Inr path, w1) \<Rightarrow>
              do { (entry, w2) \<leftarrow> key_to_entry_check_perm (Some path) (xs_domid x) XS_PERM_READ w1;
                   case entry of
                     None \<Rightarrow> send_errno cfg x req_id ENOENT w2
                   | Some q \<Rightarrow>
                       do { e \<leftarrow> node_at (root_xenstore w2) q;
                            (case serialize_perms (xs_perms e) w2 of
                               (None, w3) \<Rightarrow> send_errno cfg x req_id ENOENT w3
                             | (Some bs, w3) \<Rightarrow> send_reply_sz cfg x req_id XS_GET_PERMS bs w3) } } }"

text \<open>The guard of the code calls \<open>is_owner\<close> on the entry exactly when it is null.\<close>

definition handle_set_perms ::
  "xen_cfg \<Rightarrow> xenstore \<Rightarrow> u32 \<Rightarrow> char list \<Rightarrow> 'a xs_server_scheme \<Rightarrow> 'a served" where
  "handle_set_perms cfg x req_id payload w =
     (let perms_offset = strnlen payload + 1 in
      if length payload \<le> perms_offset then send_errno cfg x req_id EINVAL w
      else
        do { p \<leftarrow> cstr payload;
             case construct_path p (xs_domid x) w of
               (Inl rc, w1) \<Rightarrow> send_errno cfg x req_id (- rc) w1
             | (Inr path, w1) \<Rightarrow>
                 do { (entry, w2) \<leftarrow> key_to_entry_check_perm (Some path) (xs_domid x) XS_PERM_NONE w1;
                      if entry = None then None
                      else
                        do { (rc, w3) \<leftarrow> set_perms_by_strings entry (drop perms_offset payload) w2;
                             if rc \<noteq> 0 then send_errno cfg x req_id (- rc) w3
                             else send_reply cfg x req_id XS_SET_PERMS ''OK'' w3 } } })"

definition handle_reset_watches ::
  "xen_cfg \<Rightarrow> xenstore \<Rightarrow> u32 \<Rightarrow> char list \<Rightarrow> 'a xs_server_scheme \<Rightarrow> 'a served" where
  "handle_reset_watches cfg x req_id payload w =
     do { w1 \<leftarrow> cleanup_domain_watches (xs_domid x) w;
          send_reply cfg x req_id XS_RESET_WATCHES ''OK'' w1 }"

definition handle_rm ::
  "xen_cfg \<Rightarrow> xenstore \<Rightarrow> u32 \<Rightarrow> char list \<Rightarrow> 'a xs_server_scheme \<Rightarrow> 'a served" where
  "handle_rm cfg x req_id payload w =
     do { p \<leftarrow> cstr payload;
          (rc, w1) \<leftarrow> xss_do_rm p (xs_domid x) K_FOREVER w;
          if rc \<noteq> 0 then send_errno cfg x req_id (- rc) w1
          else send_reply_read cfg x req_id XS_RM [] w1 }"

text \<open>A watch of a guest: the token is copied as it came, terminated or not.\<close>

definition alloc_guest_watch ::
  "string \<Rightarrow> char list \<Rightarrow> u32 \<Rightarrow> bool \<Rightarrow> 'a xs_world_scheme \<Rightarrow> nat option \<times> 'a xs_world_scheme" where
  "alloc_guest_watch path token d is_relative w =
     (let (ok1, w1) = k_malloc w in
      if \<not> ok1 then (None, w1)
      else
        let (ok2, w2) = k_malloc w1 in
        if \<not> ok2 then (None, w2)
        else
          let (ok3, w3) = k_malloc w2 in
          if \<not> ok3 then (None, w3)
          else
            let (a, w4) = new_watch_entry
                  \<lparr>we_key = path, we_token = token, we_domain = Some d,
                   we_is_relative = is_relative, we_cb = None, we_param = 0,
                   we_pending_path = None, we_ref = 1\<rparr> w3
            in (Some a, link_watch_entry a w4))"

definition set_relative :: "nat \<Rightarrow> bool \<Rightarrow> 'a xs_world_scheme \<Rightarrow> 'a xs_world_scheme option" where
  "set_relative a rel w =
     do { e \<leftarrow> watch_heap w a;
          Some (w\<lparr>watch_heap := (watch_heap w)(a \<mapsto> e\<lparr>we_is_relative := rel\<rparr>)\<rparr>) }"

definition handle_watch ::
  "xen_cfg \<Rightarrow> xenstore \<Rightarrow> u32 \<Rightarrow> char list \<Rightarrow> 'a xs_server_scheme \<Rightarrow> 'a served" where
  "handle_watch cfg x req_id payload w =
     (let d = xs_domid x;
          path_is_relative = (\<not> (payload \<noteq> [] \<and> hd payload = slash));
          path_len = strnlen payload + 1
      in if (if path_is_relative then XENSTORE_REL_PATH_MAX else XENSTORE_ABS_PATH_MAX) < path_len
         then send_errno cfg x req_id E2BIG w
         else
           do { p \<leftarrow> cstr payload;
                case construct_path p d w of
                  (Inl rc, w1) \<Rightarrow> send_errno cfg x req_id (- rc) w1
                | (Inr path, w1) \<Rightarrow>
                    do { found \<leftarrow> key_to_watcher path (Some (drop path_len payload)) (Some d) w1;
                         (wentry, w2) \<leftarrow>
                           (case found of
                              Some a \<Rightarrow> do { w2 \<leftarrow> set_relative a path_is_relative w1; Some (Some a, w2) }
                            | None \<Rightarrow> Some (alloc_guest_watch path (drop path_len payload) d
                                              path_is_relative w1));
                         (case wentry of
                            None \<Rightarrow> send_errno cfg x req_id ENOMEM w2
                          | Some a \<Rightarrow>
                              do { (x1, w3) \<leftarrow> send_reply cfg x req_id XS_WATCH ''OK'' w2;
                                   (entry, w4) \<leftarrow> key_to_entry_check_perm (Some path) d XS_PERM_READ w3;
                                   if entry = None then Some (x1, w4)
                                   else do { (rc, w5) \<leftarrow> queue_pending_watch_event a path K_FOREVER w4;
                                             Some (x1, w5) } }) } })"

definition handle_unwatch ::
  "xen_cfg \<Rightarrow> xenstore \<Rightarrow> u32 \<Rightarrow> char list \<Rightarrow> 'a xs_server_scheme \<Rightarrow> 'a served" where
  "handle_unwatch cfg x req_id payload w =
     (let d = xs_domid x; path_len = strnlen payload + 1
      in do { p \<leftarrow> cstr payload;
              case construct_path p d w of
                (Inl rc, w1) \<Rightarrow> send_errno cfg x req_id (- rc) w1
              | (Inr path, w1) \<Rightarrow>
                  do { found \<leftarrow> key_to_watcher path (Some (drop path_len payload)) (Some d) w1;
                       w2 \<leftarrow> (case found of None \<Rightarrow> Some w1 | Some a \<Rightarrow> remove_watch_entry a w1);
                       send_reply cfg x req_id XS_UNWATCH [] w2 } })"

definition handle_transaction_start ::
  "xen_cfg \<Rightarrow> xenstore \<Rightarrow> u32 \<Rightarrow> char list \<Rightarrow> 'a xs_server_scheme \<Rightarrow> 'a served" where
  "handle_transaction_start cfg x req_id payload w =
     (if running_transaction x \<noteq> 0 then send_errno cfg x req_id EBUSY w
      else
        let t = transaction x + 1;
            x1 = x\<lparr>transaction := t, running_transaction := t\<rparr>
        in send_reply cfg x1 req_id XS_TRANSACTION_START (snd (snprintf 12 (fmt_d (sint t)))) w)"

definition handle_transaction_stop ::
  "xen_cfg \<Rightarrow> xenstore \<Rightarrow> u32 \<Rightarrow> char list \<Rightarrow> 'a xs_server_scheme \<Rightarrow> 'a served" where
  "handle_transaction_stop cfg x req_id payload w =
     Some (x\<lparr>stop_transaction_id := req_id, pending_stop_transaction := True,
              running_transaction := 0\<rparr>, w)"

definition handle_get_domain_path ::
  "xen_cfg \<Rightarrow> xenstore \<Rightarrow> u32 \<Rightarrow> char list \<Rightarrow> 'a xs_server_scheme \<Rightarrow> 'a served" where
  "handle_get_domain_path cfg x req_id payload w =
     send_reply cfg x req_id XS_GET_DOMAIN_PATH
       (snd (snprintf XENSTORE_MAX_LOCALPATH_LEN
          (''/local/domain/'' @ takeWhile (\<lambda>c. c \<noteq> NUL) payload))) w"

section \<open>Watch events of a guest\<close>

definition fire_watcher ::
  "xen_cfg \<Rightarrow> pending_watch_event_entry \<Rightarrow> xenstore \<Rightarrow> 'a xs_server_scheme \<Rightarrow>
     (int \<times> xenstore \<times> 'a xs_server_scheme) option" where
  "fire_watcher cfg event x w =
     do { watch \<leftarrow> watch_heap w (pe_watch event);
          if \<not> watch_linked (pe_watch event) w then Some (0, x, w)
          else if XENSTORE_MAX_OUT_BUF_NUM - 1 < used_out_bufs x then Some (- ENOMEM, x, w)
          else
            do { token \<leftarrow> cstr (we_token watch);
                 epath \<leftarrow> (if we_is_relative watch then skip_local (xs_domid x) (event_path event)
                          else Some (event_path event));
                 let (ok, w1) = k_malloc w in
                 if \<not> ok then Some (- ENOMEM, x, w1)
                 else
                   do { (x1, w2) \<leftarrow> send_reply_sz cfg x 0 XS_WATCH_EVENT
                                      (epath @ NUL # token @ [NUL]) w1;
                        Some (0, x1, w2) } } }"

text \<open>The pass over the pending events of a domain; \<open>kept\<close> are those of other domains.  It stops
  at the first event that cannot be sent.\<close>

fun pending_loop ::
  "xen_cfg \<Rightarrow> pending_watch_event_entry list \<Rightarrow> pending_watch_event_entry list \<Rightarrow> xenstore \<Rightarrow>
     'a xs_server_scheme \<Rightarrow> 'a served" where
  "pending_loop cfg kept [] x w = Some (x, w\<lparr>pending_watch_event_list := kept\<rparr>)"
| "pending_loop cfg kept (p # ps) x w =
     do { e \<leftarrow> watch_heap w (pe_watch p);
          if we_domain e \<noteq> Some (xs_domid x) then pending_loop cfg (kept @ [p]) ps x w
          else
            do { (rc, x1, w1) \<leftarrow> fire_watcher cfg p x w;
                 if rc < 0 then Some (x1, w1\<lparr>pending_watch_event_list := kept @ p # ps\<rparr>)
                 else do { w2 \<leftarrow> watch_entry_put (pe_watch p) w1;
                           pending_loop cfg kept ps x1 w2 } } }"

definition process_pending_watch_events ::
  "xen_cfg \<Rightarrow> xenstore \<Rightarrow> 'a xs_server_scheme \<Rightarrow> 'a served" where
  "process_pending_watch_events cfg x w = pending_loop cfg [] (pending_watch_event_list w) x w"

section \<open>Requests\<close>

text \<open>\<open>message_handle_list\<close>: \<open>None\<close> for a message type without handler.\<close>

fun message_handle ::
  "xsd_sockmsg_type \<Rightarrow>
     (xen_cfg \<Rightarrow> xenstore \<Rightarrow> u32 \<Rightarrow> char list \<Rightarrow> 'a xs_server_scheme \<Rightarrow> 'a served) option" where
  "message_handle XS_CONTROL = Some handle_control"
| "message_handle XS_DIRECTORY = Some handle_directory"
| "message_handle XS_READ = Some handle_read"
| "message_handle XS_GET_PERMS = Some handle_get_perms"
| "message_handle XS_WATCH = Some handle_watch"
| "message_handle XS_UNWATCH = Some handle_unwatch"
| "message_handle XS_TRANSACTION_START = Some handle_transaction_start"
| "message_handle XS_TRANSACTION_END = Some handle_transaction_stop"
| "message_handle XS_GET_DOMAIN_PATH = Some handle_get_domain_path"
| "message_handle XS_WRITE = Some handle_write"
| "message_handle XS_MKDIR = Some handle_mkdir"
| "message_handle XS_RM = Some handle_rm"
| "message_handle XS_SET_PERMS = Some handle_set_perms"
| "message_handle XS_RESET_WATCHES = Some handle_reset_watches"
| "message_handle _ = None"

definition msg_types :: "xsd_sockmsg_type list" where
  "msg_types =
     [XS_CONTROL, XS_DIRECTORY, XS_READ, XS_GET_PERMS, XS_WATCH, XS_UNWATCH, XS_TRANSACTION_START,
      XS_TRANSACTION_END, XS_INTRODUCE, XS_RELEASE, XS_GET_DOMAIN_PATH, XS_WRITE, XS_MKDIR, XS_RM,
      XS_SET_PERMS, XS_WATCH_EVENT, XS_ERROR, XS_IS_DOMAIN_INTRODUCED, XS_RESUME, XS_SET_TARGET,
      XS_RESET_WATCHES, XS_DIRECTORY_PART, XS_GET_FEATURE, XS_SET_FEATURE, XS_GET_QUOTA, XS_SET_QUOTA]"

definition handler_for ::
  "u32 \<Rightarrow> (xen_cfg \<Rightarrow> xenstore \<Rightarrow> u32 \<Rightarrow> char list \<Rightarrow> 'a xs_server_scheme \<Rightarrow> 'a served) option" where
  "handler_for code =
     (case List.find (\<lambda>t. msg_code t = code) msg_types of
        None \<Rightarrow> None
      | Some t \<Rightarrow> message_handle t)"

text \<open>A message without handler is answered and stays in the input buffer.  After a handler the
  code frees the input buffer, which must still be there.\<close>

definition process_message :: "xen_cfg \<Rightarrow> xenstore \<Rightarrow> 'a xs_server_scheme \<Rightarrow> 'a served" where
  "process_message cfg x w =
     do { b \<leftarrow> in_buf x;
          let hdr = hdr_decode (bd_buffer b); payload = drop 16 (bd_buffer b) in
          case handler_for (hdr_type hdr) of
            None \<Rightarrow> send_errno cfg x 0 ENOSYS w
          | Some h \<Rightarrow>
              do { (x1, w1) \<leftarrow> h cfg x (hdr_req_id hdr) payload w;
                   _ \<leftarrow> in_buf x1;
                   Some (x1\<lparr>in_buf := None\<rparr>, w1) } }"

text \<open>The second read of \<open>handle_input\<close>, for the rest of the message.\<close>

definition input_payload ::
  "xen_cfg \<Rightarrow> buffered_data \<Rightarrow> xenstore \<Rightarrow> 'a xs_server_scheme \<Rightarrow> 'a served" where
  "input_payload cfg b x w =
     do { (r, x1, w1) \<leftarrow> ring_read x (bd_total_size b - bd_used b) w;
          case r of
            Inl rc \<Rightarrow> invalidate_client cfg (x1\<lparr>in_buf := Some b\<rparr>) w1
          | Inr d \<Rightarrow>
              let b1 = b\<lparr>bd_used := bd_used b + length d, bd_buffer := bd_buffer b @ d\<rparr>;
                  x2 = x1\<lparr>in_buf := Some b1\<rparr>
              in if bd_used b1 \<noteq> bd_total_size b1 then Some (x2, w1)
                 else process_message cfg x2 w1 }"

definition input_header ::
  "xen_cfg \<Rightarrow> buffered_data \<Rightarrow> xenstore \<Rightarrow> 'a xs_server_scheme \<Rightarrow> 'a served" where
  "input_header cfg b x w =
     do { (r, x1, w1) \<leftarrow> ring_read x (16 - bd_used b) w;
          case r of
            Inl rc \<Rightarrow> invalidate_client cfg (x1\<lparr>in_buf := Some b\<rparr>) w1
          | Inr d \<Rightarrow>
              let b1 = b\<lparr>bd_used := bd_used b + length d, bd_buffer := bd_buffer b @ d\<rparr>;
                  x2 = x1\<lparr>in_buf := Some b1\<rparr>;
                  len = unat (hdr_len (hdr_decode (bd_buffer b1)))
              in if bd_used b1 \<noteq> 16 then Some (x2, w1)
                 else if XENSTORE_PAYLOAD_MAX < len then Some (x2\<lparr>in_buf := None\<rparr>, w1)
                 else
                   let b2 = b1\<lparr>bd_total_size := bd_total_size b1 + len\<rparr>;
                       (ok, w2) = k_malloc w1
                   in if \<not> ok then invalidate_client cfg (x2\<lparr>in_buf := Some b2\<rparr>) w2
                      else input_payload cfg b2 (x2\<lparr>in_buf := Some b2\<rparr>) w2 }"

definition handle_input :: "xen_cfg \<Rightarrow> xenstore \<Rightarrow> 'a xs_server_scheme \<Rightarrow> 'a served" where
  "handle_input cfg x w =
     (case in_buf x of
        Some b \<Rightarrow> if bd_used b < 16 then input_header cfg b x w else input_payload cfg b x w
      | None \<Rightarrow>
          let (ok1, w1) = k_malloc w in
          if \<not> ok1 then invalidate_client cfg x w1
          else
            let b = \<lparr>bd_used = 0, bd_total_size = 16, bd_buffer = []\<rparr>;
                (ok2, w2) = k_malloc w1
            in if \<not> ok2 then invalidate_client cfg (x\<lparr>in_buf := Some b\<rparr>) w2
               else input_header cfg b (x\<lparr>in_buf := Some b\<rparr>) w2)"

section \<open>Output\<close>

definition can_write :: "xenstore \<Rightarrow> bool option" where
  "can_write x =
     (if out_list x = [] then Some False
      else do { i \<leftarrow> domint x; Some (rsp_prod i - rsp_cons i < 1024) })"

definition can_read :: "xenstore \<Rightarrow> bool option" where
  "can_read x = do { i \<leftarrow> domint x; Some (req_prod i \<noteq> req_cons i) }"

definition handle_output :: "xen_cfg \<Rightarrow> xenstore \<Rightarrow> 'a xs_server_scheme \<Rightarrow> 'a served" where
  "handle_output cfg x w =
     (case out_list x of
        [] \<Rightarrow> Some (x, w)
      | b # bs \<Rightarrow>
          do { (ret, x1, w1) \<leftarrow> ring_write x
                 (take (bd_total_size b - bd_used b) (drop (bd_used b) (bd_buffer b))) w;
               if ret < 0 then invalidate_client cfg x1 w1
               else
                 let b1 = b\<lparr>bd_used := bd_used b + nat ret\<rparr> in
                 if bd_used b1 < bd_total_size b1 then Some (x1\<lparr>out_list := b1 # bs\<rparr>, w1)
                 else Some (x1\<lparr>out_list := bs, used_out_bufs := used_out_bufs x1 - 1\<rparr>, w1) })"

text \<open>The loop \<open>while (can_write(xenstore))\<close>.  Each round puts at least one byte on the ring, so
  that the number of bytes still to send bounds the rounds.\<close>

fun output_loop :: "nat \<Rightarrow> xen_cfg \<Rightarrow> xenstore \<Rightarrow> 'a xs_server_scheme \<Rightarrow> 'a served" where
  "output_loop n cfg x w =
     do { more \<leftarrow> can_write x;
          if \<not> more then Some (x, w)
          else (case n of
                  0 \<Rightarrow> None
                | Suc m \<Rightarrow> do { (x1, w1) \<leftarrow> handle_output cfg x w; output_loop m cfg x1 w1 }) }"

declare output_loop.simps [simp del]

definition out_bytes :: "xenstore \<Rightarrow> nat" where
  "out_bytes x = sum_list (map (\<lambda>b. bd_total_size b - bd_used b) (out_list x))"

section \<open>The event thread\<close>

definition evt_thread_init :: "xenstore \<Rightarrow> xenstore" where
  "evt_thread_init x =
     x\<lparr>transaction := 0, running_transaction := 0, stop_transaction_id := 0,
       pending_stop_transaction := False\<rparr>"

text \<open>One round of the thread: before and after the point where it blocks in \<open>k_sem_take\<close> when
  there is nothing to do.  \<open>guest\<close> is what the guest does to the shared page until the
  semaphore is given.\<close>

definition evt_announce :: "xen_cfg \<Rightarrow> xenstore \<Rightarrow> 'a xs_server_scheme \<Rightarrow> 'a served" where
  "evt_announce cfg x w =
     do { (x1, w1) \<leftarrow>
            (if pending_stop_transaction x
             then do { (y, v) \<leftarrow> send_reply cfg x (stop_transaction_id x) XS_TRANSACTION_END [] w;
                       Some (y\<lparr>stop_transaction_id := 0, pending_stop_transaction := False\<rparr>, v) }
             else Some (x, w));
          if running_transaction x1 = 0 then process_pending_watch_events cfg x1 w1
          else Some (x1, w1) }"

definition evt_wait ::
  "(xenstore_domain_interface \<Rightarrow> xenstore_domain_interface) \<Rightarrow> xenstore \<Rightarrow> 'a xs_server_scheme \<Rightarrow>
     'a served" where
  "evt_wait guest x w =
     do { r \<leftarrow> can_read x;
          wr \<leftarrow> (if r then Some True else can_write x);
          if r \<or> wr then Some (x, w)
          else Some (x\<lparr>domint := map_option guest (domint x)\<rparr>,
                     w\<lparr>xb_sem := (xb_sem w)(xs_domid x := False)\<rparr>) }"

definition evt_serve :: "xen_cfg \<Rightarrow> xenstore \<Rightarrow> 'a xs_server_scheme \<Rightarrow> 'a served" where
  "evt_serve cfg x w =
     do { r \<leftarrow> can_read x;
          (x1, w1) \<leftarrow> (if r then handle_input cfg x w else Some (x, w));
          output_loop (out_bytes x1) cfg x1 w1 }"

definition xenstore_evt_round ::
  "xen_cfg \<Rightarrow> (xenstore_domain_interface \<Rightarrow> xenstore_domain_interface) \<Rightarrow> xenstore \<Rightarrow>
     'a xs_server_scheme \<Rightarrow> 'a served" where
  "xenstore_evt_round cfg guest x w =
     do { (x1, w1) \<leftarrow> evt_announce cfg x w;
          (x2, w2) \<leftarrow> evt_wait guest x1 w1;
          evt_serve cfg x2 w2 }"

text \<open>The loop of the thread, for \<open>n\<close> rounds at most.\<close>

fun xenstore_evt_thrd ::
  "nat \<Rightarrow> xen_cfg \<Rightarrow> (xenstore_domain_interface \<Rightarrow> xenstore_domain_interface) \<Rightarrow> xenstore \<Rightarrow>
     'a xs_server_scheme \<Rightarrow> 'a served" where
  "xenstore_evt_thrd 0 cfg guest x w = Some (x, w)"
| "xenstore_evt_thrd (Suc n) cfg guest x w =
     (if thrd_stop x then do { w1 \<leftarrow> cleanup_domain_watches (xs_domid x) w; Some (x, w1) }
      else do { (x1, w1) \<leftarrow> xenstore_evt_round cfg guest x w; xenstore_evt_thrd n cfg guest x1 w1 })"

section \<open>Starting\<close>

text \<open>\<open>page\<close> is the shared page of the guest as the mapping shows it, \<open>dest\<close> the address of the
  field \<open>domint\<close>.  The stack array has \<open>CONFIG_DOMU_MAX\<close> elements.\<close>

definition start_domain_stored ::
  "xen_cfg \<Rightarrow> u64 \<Rightarrow> xenstore_domain_interface \<Rightarrow> bool \<Rightarrow> u64 \<Rightarrow> xenstore \<Rightarrow> 'a xs_server_scheme \<Rightarrow>
     (int \<times> xenstore \<times> 'a xs_server_scheme) option" where
  "start_domain_stored cfg dest page f_dom0less store_pfn x0 w0 =
     (let x1 = x0\<lparr>in_buf := None, out_list := [], used_out_bufs := 0, thrd_stop := False\<rparr>;
          d = xs_domid x1;
          w1 = w0\<lparr>xb_sem := (xb_sem w0)(d := False)\<rparr>
      in case xenmem_map_region (cfg_chunk cfg) (cfg_regions cfg) (cfg_virt_to_gfn cfg)
                (sint d) 1 store_pfn dest w1 of
           ((rc, None), w2) \<Rightarrow> Some (rc, x1, w2)
         | ((rc, Some addr), w2) \<Rightarrow>
             if rc < 0 then Some (rc, x1\<lparr>domint := None, domint_addr := addr\<rparr>, w2)
             else
               let p1 = page\<lparr>server_features := 1\<rparr>;
                   p2 = (if f_dom0less then p1 else p1\<lparr>connection := 0\<rparr>);
                   x2 = x1\<lparr>domint := Some p2, domint_addr := addr\<rparr>;
                   (rc3, w3) = ext_call ''bind_interdomain_event_channel''
                                 [uint d, uint (remote_evtchn x2)] w2;
                   unmap = (\<lambda>rc y v. Some (rc, y\<lparr>domint := None\<rparr>,
                      snd (xenmem_unmap_region (cfg_chunk cfg) (cfg_regions cfg)
                             (cfg_virt_to_gfn cfg) 1 addr v)))
               in if rc3 < 0 then unmap rc3 x2 w3
                  else
                    let x3 = x2\<lparr>local_evtchn := of_int rc3\<rparr>;
                        (rc4, w4) = (if f_dom0less then (0, w3)
                                     else ext_call ''hvm_set_parameter'' [uint d, uint (remote_evtchn x3)] w3)
                    in if rc4 \<noteq> 0 then unmap rc4 x3 w4
                       else
                         do { (slot, w5) \<leftarrow> get_stack_idx w4;
                              if cfg_domu_max cfg \<le> slot then None
                              else Some (0, evt_thread_init (x3\<lparr>xs_stack_slot := slot\<rparr>), w5) })"

end
