(* ===== verification/Xs_Server_Safety.thy ===== *)
theory Xs_Server_Safety
  imports Xs_Server Xs_Memory
begin

text \<open>
  What the server guarantees to a guest that speaks the protocol, and for itself: every request
  with a handler is answered exactly once under its own id, no handler has undefined
  behaviour on a well-formed request, and every handler keeps the store and the watches in
  order.
\<close>

section \<open>The state between requests\<close>

definition sv_ok :: "'a xs_server_scheme \<Rightarrow> bool" where
  "sv_ok w \<longleftrightarrow> world_ok w \<and> mallocs w = []"

lemma world_ok_server [simp]:
  "world_ok (w\<lparr>stack_junk := j\<rparr>) = world_ok w" "world_ok (w\<lparr>used_threads := u\<rparr>) = world_ok w"
  "world_ok (w\<lparr>xb_sem := s\<rparr>) = world_ok (w :: 'a xs_server_scheme)"
  by (simp_all add: world_ok_def watch_inv_def)

lemma sv_ok_junk [simp]: "sv_ok (w\<lparr>stack_junk := j\<rparr>) = sv_ok w"
  by (simp add: sv_ok_def)

definition out_ok :: "buffered_data \<Rightarrow> bool" where
  "out_ok b \<longleftrightarrow> length (bd_buffer b) = bd_total_size b \<and> bd_used b < bd_total_size b"

definition in_ok :: "buffered_data \<Rightarrow> bool" where
  "in_ok b \<longleftrightarrow>
     length (bd_buffer b) = bd_used b \<and> bd_used b \<le> bd_total_size b \<and>
     (if bd_used b < 16 then bd_total_size b = 16
      else bd_total_size b = 16 + unat (hdr_len (hdr_decode (bd_buffer b))) \<and>
           bd_total_size b \<le> 16 + XENSTORE_PAYLOAD_MAX)"

definition client_ok :: "xenstore \<Rightarrow> bool" where
  "client_ok x \<longleftrightarrow>
     used_out_bufs x = int (length (out_list x)) \<and> length (out_list x) \<le> 101 \<and>
     list_all out_ok (out_list x) \<and> (case in_buf x of None \<Rightarrow> True | Some b \<Rightarrow> in_ok b)"

section \<open>Replies\<close>

definition reply_buf :: "xsd_sockmsg_type \<Rightarrow> u32 \<Rightarrow> u32 \<Rightarrow> char list \<Rightarrow> buffered_data" where
  "reply_buf ty req_id junk data =
     \<lparr>bd_used = 0, bd_total_size = length data + 16,
      bd_buffer = hdr_encode \<lparr>hdr_type = msg_code ty, hdr_req_id = req_id, hdr_tx_id = junk,
                    hdr_len = of_nat (length data)\<rparr> @ data\<rparr>"

text \<open>Exactly one reply has been queued: to the request \<open>req_id\<close>, of its type or an error, with a
  payload that fits.\<close>

definition replied :: "xenstore \<Rightarrow> u32 \<Rightarrow> xsd_sockmsg_type \<Rightarrow> xenstore \<Rightarrow> bool" where
  "replied x req_id ty x' \<longleftrightarrow>
     (\<exists>t junk data. t \<in> {ty, XS_ERROR} \<and> length data \<le> XENSTORE_PAYLOAD_MAX \<and>
        x' = x\<lparr>out_list := out_list x @ [reply_buf t req_id junk data],
               used_out_bufs := used_out_bufs x + 1\<rparr>)"

lemma repliedI:
  "t \<in> {ty, XS_ERROR} \<Longrightarrow> length data \<le> XENSTORE_PAYLOAD_MAX \<Longrightarrow>
   replied x req_id ty (x\<lparr>out_list := out_list x @ [reply_buf t req_id junk data],
                          used_out_bufs := used_out_bufs x + 1\<rparr>)"
  unfolding replied_def by blast

lemma enqueue_ok:
  assumes "mallocs w = []" "t \<in> {ty, XS_ERROR}" "length data \<le> XENSTORE_PAYLOAD_MAX"
  shows "\<exists>x' j. enqueue_reply x req_id t data w = (x', w\<lparr>stack_junk := j\<rparr>) \<and> replied x req_id ty x'"
  using repliedI [OF assms(2,3)] assms(1)
  by (simp add: enqueue_reply_def reply_buf_def Let_def) blast

lemma send_ok:
  assumes "mallocs w = []" "used_out_bufs x \<le> 100" "t \<in> {ty, XS_ERROR}"
  shows "\<exists>x' j. send_reply_sz cfg x req_id t data w = Some (x', w\<lparr>stack_junk := j\<rparr>) \<and>
    replied x req_id ty x'"
proof (cases "XENSTORE_PAYLOAD_MAX < length data")
  case True
  have "length (error_string E2BIG @ [NUL]) \<le> XENSTORE_PAYLOAD_MAX"
    using length_error_string [of E2BIG] by simp
  from enqueue_ok [OF assms(1) _ this, of XS_ERROR ty x req_id] show ?thesis
    using True assms(2) error_string_short [of E2BIG]
    by (auto simp: send_reply_sz.simps send_errno.simps)
next
  case False
  then show ?thesis using enqueue_ok [OF assms(1,3), of data x req_id] assms(2)
    by (auto simp: send_reply_sz.simps)
qed

text \<open>What exactly is queued: the message, or the error for one that is too long.\<close>

definition message_buf :: "xsd_sockmsg_type \<Rightarrow> u32 \<Rightarrow> u32 \<Rightarrow> char list \<Rightarrow> buffered_data" where
  "message_buf ty req_id junk data =
     (if length data \<le> XENSTORE_PAYLOAD_MAX then reply_buf ty req_id junk data
      else reply_buf XS_ERROR req_id junk (error_string E2BIG @ [NUL]))"

lemma send_exact:
  assumes "mallocs w = []" "used_out_bufs x \<le> 100"
  shows "\<exists>junk j. send_reply_sz cfg x req_id t data w =
    Some (x\<lparr>out_list := out_list x @ [message_buf t req_id junk data], used_out_bufs := used_out_bufs x + 1\<rparr>, w\<lparr>stack_junk := j\<rparr>)"
  using assms length_error_string [of E2BIG]
  by (auto simp: send_reply_sz.simps send_errno.simps enqueue_reply_def message_buf_def reply_buf_def Let_def)

lemma send_errno_ok:
  assumes "mallocs w = []" "used_out_bufs x \<le> 100"
  shows "\<exists>x' j. send_errno cfg x req_id err w = Some (x', w\<lparr>stack_junk := j\<rparr>) \<and> replied x req_id ty x'"
  unfolding send_errno.simps using send_ok [OF assms, of XS_ERROR] by simp

text \<open>What every handler has to establish.\<close>

definition serves :: "xenstore \<Rightarrow> u32 \<Rightarrow> xsd_sockmsg_type \<Rightarrow> 'a served \<Rightarrow> bool" where
  "serves x req_id ty r \<longleftrightarrow> (\<exists>x' w'. r = Some (x', w') \<and> sv_ok w' \<and> replied x req_id ty x')"

lemma serves_errno: "sv_ok w \<Longrightarrow> used_out_bufs x \<le> 100 \<Longrightarrow> serves x req_id ty (send_errno cfg x req_id err w)"
  using send_errno_ok [of w x cfg req_id err ty] by (auto simp: serves_def sv_ok_def)

lemma serves_sz: "sv_ok w \<Longrightarrow> used_out_bufs x \<le> 100 \<Longrightarrow> serves x req_id ty (send_reply_sz cfg x req_id ty data w)"
  using send_ok [of w x ty ty cfg req_id data] by (auto simp: serves_def sv_ok_def)

lemma serves_reply: "sv_ok w \<Longrightarrow> used_out_bufs x \<le> 100 \<Longrightarrow> serves x req_id ty (send_reply cfg x req_id ty s w)"
  unfolding send_reply_def by (rule serves_sz)

lemma serves_read: "sv_ok w \<Longrightarrow> used_out_bufs x \<le> 100 \<Longrightarrow> serves x req_id ty (send_reply_read cfg x req_id ty s w)"
  unfolding send_reply_read_def by (rule serves_sz)

lemmas serves_intros = serves_errno serves_sz serves_reply serves_read

section \<open>The handlers\<close>

lemma sv_lookup:
  assumes "sv_ok w"
  shows "\<exists>entry. key_to_entry_check_perm key d perms w = Some (entry, w)"
proof -
  obtain entry bs where k: "key_to_entry_check_perm key d perms w = Some (entry, w\<lparr>mallocs := bs\<rparr>)"
    using lookup_total assms by (metis sv_ok_def world_ok_def)
  then show ?thesis using lookup_same [OF _ k] assms by (auto simp: sv_ok_def)
qed

lemma sv_construct:
  assumes "sv_ok w"
  shows "\<exists>r. construct_path p d w = (r, w)"
  using construct_path_same [of w p d] assms by (cases "construct_path p d w") (auto simp: sv_ok_def)

lemma handle_read_ok:
  assumes "sv_ok w" "used_out_bufs x \<le> 100" "cstr payload = Some p"
  shows "serves x req_id XS_READ (handle_read cfg x req_id payload w)"
proof -
  obtain r where r: "construct_path p (xs_domid x) w = (r, w)" using sv_construct [OF assms(1)] by blast
  show ?thesis
  proof (cases r)
    case (Inl rc)
    then show ?thesis using assms r by (simp add: handle_read_def serves_intros)
  next
    case (Inr path)
    obtain entry where k: "key_to_entry_check_perm (Some path) (xs_domid x) XS_PERM_READ w = Some (entry, w)"
      using sv_lookup [OF assms(1)] by blast
    show ?thesis
    proof (cases entry)
      case None
      then show ?thesis using assms r Inr k by (simp add: handle_read_def serves_intros)
    next
      case (Some q)
      then obtain e where "node_at (root_xenstore w) q = Some e" using lookup_permitted k by blast
      then show ?thesis using assms r Inr k Some by (simp add: handle_read_def serves_intros)
    qed
  qed
qed

lemma handle_get_perms_ok:
  assumes "sv_ok w" "used_out_bufs x \<le> 100" "cstr payload = Some p"
  shows "serves x req_id XS_GET_PERMS (handle_get_perms cfg x req_id payload w)"
proof -
  obtain r where r: "construct_path p (xs_domid x) w = (r, w)" using sv_construct [OF assms(1)] by blast
  show ?thesis
  proof (cases r)
    case (Inl rc)
    then show ?thesis using assms r by (simp add: handle_get_perms_def serves_intros)
  next
    case (Inr path)
    obtain entry where k: "key_to_entry_check_perm (Some path) (xs_domid x) XS_PERM_READ w = Some (entry, w)"
      using sv_lookup [OF assms(1)] by blast
    show ?thesis
    proof (cases entry)
      case None
      then show ?thesis using assms r Inr k by (simp add: handle_get_perms_def serves_intros)
    next
      case (Some q)
      then obtain e where e: "node_at (root_xenstore w) q = Some e" using lookup_permitted k by blast
      have "serialize_perms (xs_perms e) w = (serialize_loop (xs_perms e), w)"
        using assms(1) by (simp add: serialize_perms_def sv_ok_def)
      then show ?thesis using assms r Inr k Some e serialize_total [of "xs_perms e"]
        by (auto simp: handle_get_perms_def serves_intros)
    qed
  qed
qed

lemma handle_directory_ok:
  assumes "sv_ok w" "used_out_bufs x \<le> 100" "cstr payload = Some p"
  shows "serves x req_id XS_DIRECTORY (handle_directory cfg x req_id payload w)"
proof -
  have wf: "wf_tree (root_xenstore w)" "mallocs w = []" using assms(1) by (simp_all add: sv_ok_def world_ok_def)
  obtain r where r: "construct_path p (xs_domid x) w = (r, w)" using sv_construct [OF assms(1)] by blast
  show ?thesis
  proof (cases r)
    case (Inl rc)
    then show ?thesis using assms r by (simp add: handle_directory_def serves_intros)
  next
    case (Inr path)
    obtain entry w1 where k: "key_to_entry (Some path) w = (entry, w1)" by fastforce
    have w1: "w1 = w" by (rule key_to_entry_same [OF wf(2) k])
    show ?thesis
    proof (cases entry)
      case None
      then show ?thesis using assms r Inr k w1 by (simp add: handle_directory_def serves_intros)
    next
      case (Some q)
      obtain e where e: "node_at (root_xenstore w) q = Some e"
        by (rule key_to_entry_Some [OF k [unfolded Some]]) blast
      obtain ok where ok: "check_perms e XS_PERM_READ (xs_domid x) = Some ok"
        using check_perms_total [OF wf_tree_perms [OF wf(1) e]] by blast
      then show ?thesis using assms r Inr k w1 Some e wf(2)
        by (cases ok) (simp_all add: handle_directory_def check_perms_for_entry_def serves_intros)
    qed
  qed
qed

lemma construct_data_same:
  assumes "mallocs w = []"
  shows "\<exists>data. construct_data payload n w = (Inr data, w)"
  using assms by (simp add: construct_data_def Let_def)

lemma handle_write_ok:
  assumes "sv_ok w" "used_out_bufs x \<le> 100" "cstr payload = Some p"
  shows "serves x req_id ty (handle_write_common cfg x req_id ty payload w)"
proof -
  have len: "\<not> length payload < length p + 1"
    using cstr_Some_append [OF assms(3)] by auto
  obtain r where r: "construct_path p (xs_domid x) w = (r, w)" using sv_construct [OF assms(1)] by blast
  show ?thesis
  proof (cases r)
    case (Inl rc)
    then show ?thesis using assms r len by (simp add: handle_write_common_def serves_intros)
  next
    case (Inr path)
    obtain data where d: "construct_data payload (length p + 1) w = (Inr data, w)"
      using construct_data_same assms(1) by (metis sv_ok_def)
    obtain rc w1 where run: "xss_do_write path data (xs_domid x) [] K_FOREVER w = Some (rc, w1)" "sv_ok w1"
      using do_write_world [of w path data "xs_domid x" "[]"] assms(1) by (auto simp: sv_ok_def)
    show ?thesis
    proof (cases "rc = 0")
      case False
      then show ?thesis using assms r len Inr d run by (simp add: handle_write_common_def serves_intros)
    next
      case True
      obtain x' w2 where s: "send_reply cfg x req_id ty ''OK'' w1 = Some (x', w2)" "sv_ok w2" "replied x req_id ty x'"
        using serves_reply [OF run(2) assms(2), of req_id ty cfg "''OK''"] by (auto simp: serves_def)
      obtain w3 where "notify_watchers path w2 = Some w3" "sv_ok w3"
        using notify_world [of w2 path] s(2) by (auto simp: sv_ok_def)
      then show ?thesis using assms(3) r len Inr d run True s
        by (simp add: handle_write_common_def serves_def)
    qed
  qed
qed

lemma handle_rm_ok:
  assumes "sv_ok w" "used_out_bufs x \<le> 100" "cstr payload = Some p" "strtok_all slash p \<noteq> []"
  shows "serves x req_id XS_RM (handle_rm cfg x req_id payload w)"
proof -
  obtain rc w1 where "xss_do_rm p (xs_domid x) K_FOREVER w = Some (rc, w1)" "sv_ok w1"
    using rm_world [of w p "xs_domid x"] assms(1,4) by (auto simp: sv_ok_def)
  then show ?thesis using assms by (cases "rc = 0") (simp_all add: handle_rm_def serves_intros)
qed

lemma handle_reset_watches_ok:
  assumes "sv_ok w" "used_out_bufs x \<le> 100"
  shows "serves x req_id XS_RESET_WATCHES (handle_reset_watches cfg x req_id payload w)"
proof -
  obtain w1 where "cleanup_domain_watches (xs_domid x) w = Some w1" "sv_ok w1"
    using cleanup_world [of w "xs_domid x"] assms(1) by (auto simp: sv_ok_def)
  then show ?thesis using assms by (simp add: handle_reset_watches_def serves_intros)
qed

text \<open>The decoder never yields an empty permission list.\<close>

lemma parse_wire_length:
  assumes "parse_wire_loop raw True num k st = Inr (n, ps)" "length st = k"
  shows "length ps = n"
  using assms
proof (induction raw True num k st rule: parse_wire_loop.induct)
  case (1 raw num k st)
  show ?case
  proof (cases "raw = []")
    case True
    with "1.prems" show ?thesis by (simp add: parse_wire_loop.simps [of "[]"])
  next
    case False
    obtain dm u er where s: "strtoul10 (tl (take (strnlen raw) raw)) = (dm, u, er)"
      by (metis prod_cases3)
    from False "1.prems"(1) s obtain perm where
      guards: "\<not> (strnlen raw = length raw \<or> strnlen raw < 2)" "\<not> (True \<and> num \<le> k)"
      "xenstore_perm_from_wire (hd raw) True = Inr perm"
      "\<not> (u = 0 \<or> u \<noteq> strnlen raw - 1 \<or> er \<or> dm AND 0x7FFF \<noteq> dm)"
      and rec: "parse_wire_loop (drop (strnlen raw + 1) raw) True num (k + 1)
        (if True then st @ [\<lparr>pe_domid = of_nat dm, pe_perm = perm\<rparr>] else st) = Inr (n, ps)"
      by (subst (asm) parse_wire_loop.simps) (auto simp: Let_def split: if_splits sum.splits)
    show ?thesis
      using "1.hyps" [OF False refl guards(1,2,3) s [symmetric] refl refl guards(4) rec] "1.prems"(2) by simp
  qed
qed

lemma deserialize_nonempty: "deserialize_perms bs e = (Some ps, e') \<Longrightarrow> ps \<noteq> []"
  by (auto simp: deserialize_perms_def xenstore_perm_parse_wire_def Let_def
      split: sum.splits if_splits prod.splits dest!: parse_wire_length)

lemma deserialize_same: "mallocs e = [] \<Longrightarrow> deserialize_perms bs e = (r, e') \<Longrightarrow> e' = e"
  by (auto simp: deserialize_perms_def Let_def split: sum.splits if_splits prod.splits)

lemma world_ok_set_perms:
  assumes "world_ok w" "ps \<noteq> []"
  shows "world_ok (w\<lparr>root_xenstore := modify_at p (set_perms ps) (root_xenstore w)\<rparr>)"
proof -
  have "wf_tree (modify_at p (set_perms ps) (root_xenstore w))"
    using assms by (intro wf_tree_modify_at) (auto simp: world_ok_def wf_tree_iff [of "set_perms ps _"] wf_tree_iff)
  then show ?thesis using assms(1) by (simp add: world_ok_def)
qed

text \<open>No permission is asked for: every domain is let through.\<close>

lemma lookup_perm_none:
  assumes "key_to_entry (Some path) w = (Some q, w)" "node_at (root_xenstore w) q = Some e" "wf_tree (root_xenstore w)"
  shows "key_to_entry_check_perm (Some path) d XS_PERM_NONE w = Some (Some q, w)"
proof -
  have "check_perms e XS_PERM_NONE d = Some True"
    using check_perms_total [OF wf_tree_perms [OF assms(3,2)], of XS_PERM_NONE d]
    by (auto simp: check_perms_def split: if_splits option.splits list.splits)
  then show ?thesis using assms by (simp add: key_to_entry_check_perm_def check_perms_for_entry_def)
qed

lemma handle_set_perms_ok:
  assumes "sv_ok w" "used_out_bufs x \<le> 100"
    "\<And>p path. cstr payload = Some p \<Longrightarrow> construct_path p (xs_domid x) w = (Inr path, w) \<Longrightarrow>
       \<exists>q. key_to_entry (Some path) w = (Some q, w)"
  shows "serves x req_id XS_SET_PERMS (handle_set_perms cfg x req_id payload w)"
proof (cases "length payload \<le> strnlen payload + 1")
  case True
  then show ?thesis using assms(1,2) by (simp add: handle_set_perms_def serves_intros)
next
  case False
  have "NUL \<in> set payload"
  proof (rule ccontr)
    assume "NUL \<notin> set payload"
    then have "takeWhile (\<lambda>c. c \<noteq> NUL) payload = payload" by (auto simp: takeWhile_eq_all_conv)
    with False show False by (simp add: strnlen_def)
  qed
  then obtain p where p: "cstr payload = Some p" by (simp add: cstr_def)
  have wf: "wf_tree (root_xenstore w)" "mallocs w = []" using assms(1) by (simp_all add: sv_ok_def world_ok_def)
  obtain r where r: "construct_path p (xs_domid x) w = (r, w)" using sv_construct [OF assms(1)] by blast
  show ?thesis
  proof (cases r)
    case (Inl rc)
    then show ?thesis using assms(1,2) r p False by (simp add: handle_set_perms_def serves_intros)
  next
    case (Inr path)
    obtain q where q: "key_to_entry (Some path) w = (Some q, w)" using assms(3) p r Inr by blast
    obtain e where e: "node_at (root_xenstore w) q = Some e" by (rule key_to_entry_Some [OF q]) blast
    have k: "key_to_entry_check_perm (Some path) (xs_domid x) XS_PERM_NONE w = Some (Some q, w)"
      by (rule lookup_perm_none [OF q e wf(1)])
    let ?bs = "drop (strnlen payload + 1) payload"
    obtain ps where d: "deserialize_perms ?bs w = (ps, w)"
      using deserialize_same [OF wf(2)] by (cases "deserialize_perms ?bs w") auto
    show ?thesis
    proof (cases ps)
      case None
      then show ?thesis using assms(1,2) r p False Inr k d
        by (simp add: handle_set_perms_def set_perms_by_strings_def serves_intros)
    next
      case (Some new)
      let ?w1 = "w\<lparr>root_xenstore := modify_at q (set_perms new) (root_xenstore w)\<rparr>"
      have ne: "new \<noteq> []" using deserialize_nonempty [OF d [unfolded Some]] .
      have ok1: "sv_ok ?w1" using world_ok_set_perms [OF _ ne, of w q] assms(1) by (simp add: sv_ok_def)
      show ?thesis using ok1 assms(2) r p False Inr k d Some wf(2)
        by (simp add: handle_set_perms_def set_perms_by_strings_def set_perms_by_array_same serves_intros)
    qed
  qed
qed

lemma construct_path_home_d:
  assumes "unat d < 0x8000" "construct_path p d e = (Inr q, e')" "\<not> xenstore_is_abs_path (Some p)"
  shows "prefix (local_path d) q"
  using construct_path_rel(1) [OF assms(1,3,2)] by simp

lemma cstr_head:
  assumes "cstr payload = Some p"
  shows "(payload \<noteq> [] \<and> hd payload = slash) \<longleftrightarrow> xenstore_is_abs_path (Some p)"
  using cstr_Some_append [OF assms] by (cases p) (auto simp: xenstore_is_abs_path_def)

lemma set_relative_inv:
  assumes "watch_inv [] w" "watch_heap w a = Some e" "rel \<longrightarrow> prefix (watch_home e) (we_key e)"
  shows "\<exists>w'. set_relative a rel w = Some w' \<and> watch_inv [] w' \<and> root_xenstore w' = root_xenstore w \<and>
    mallocs w' = mallocs w \<and> watch_heap w' a = Some (e\<lparr>we_is_relative := rel\<rparr>)"
proof -
  let ?h = "(watch_heap w)(a \<mapsto> e\<lparr>we_is_relative := rel\<rparr>)"
  let ?f = "watch_refs [] (watch_entry_list w) (pending_watch_event_list w)"
  have hr: "heap_refs (watch_heap w) ?f" using assms(1) by (simp add: watch_inv_def)
  have "heap_refs ?h (?f(a := ?f a))"
    using heap_refs_dead [OF hr assms(2)] by (intro heap_refs_upd [OF hr]) simp_all
  then have "heap_refs ?h ?f" by simp
  moreover have "entry_ok [] (pending_watch_event_list w) a e" using assms(1,2) by (simp add: watch_inv_def)
  then have "entry_ok [] (pending_watch_event_list w) a (e\<lparr>we_is_relative := rel\<rparr>)"
    using assms(3) by (auto simp: entry_ok_def entry_static_def watch_home_def)
  ultimately have "watch_inv [] (w\<lparr>watch_heap := ?h\<rparr>)"
    using assms(1) watch_inv_addr [OF assms(1,2)] by (auto simp: watch_inv_def)
  then show ?thesis using assms(2) by (simp add: set_relative_def)
qed

lemma alloc_guest_watch_inv:
  assumes "watch_inv [] w" "mallocs w = []" "cstr token \<noteq> None" "rel \<longrightarrow> prefix (local_path d) path"
  shows "\<exists>a w'. alloc_guest_watch path token d rel w = (Some a, w') \<and> watch_inv [] w' \<and>
    root_xenstore w' = root_xenstore w \<and> mallocs w' = [] \<and>
    (\<exists>e. watch_heap w' a = Some e \<and> we_domain e = Some d \<and> we_key e = path)"
proof -
  let ?e = "\<lparr>we_key = path, we_token = token, we_domain = Some d, we_is_relative = rel, we_cb = None,
    we_param = 0, we_pending_path = None, we_ref = 1\<rparr>"
  obtain a w1 where n: "new_watch_entry ?e w = (a, w1)" by fastforce
  have "watch_inv [] (link_watch_entry a w1)"
    using assms(3,4) by (intro link_new_inv [OF assms(1) _ _ _ n]) (simp_all add: entry_static_def watch_home_def)
  moreover have "root_xenstore w1 = root_xenstore w" "mallocs w1 = []" "watch_heap w1 a = Some ?e"
    using n assms(2) by (auto simp: new_watch_entry_def)
  ultimately show ?thesis using n assms(2)
    by (simp add: alloc_guest_watch_def link_watch_entry_def)
qed

lemma sv_watch_inv: "sv_ok w \<Longrightarrow> watch_inv [] w \<and> wf_tree (root_xenstore w) \<and> mallocs w = []"
  by (simp add: sv_ok_def world_ok_def)

lemma handle_watch_ok:
  fixes w :: "'a xs_server_scheme"
  assumes "sv_ok w" "used_out_bufs x \<le> 100" "unat (xs_domid x) < 0x8000"
    "cstr payload = Some p" "cstr (drop (strnlen payload + 1) payload) \<noteq> None"
  shows "serves x req_id XS_WATCH (handle_watch cfg x req_id payload w)"
proof -
  let ?d = "xs_domid x" and ?token = "drop (strnlen payload + 1) payload"
  define rel where "rel \<longleftrightarrow> \<not> (payload \<noteq> [] \<and> hd payload = slash)"
  have rel: "rel \<longleftrightarrow> \<not> xenstore_is_abs_path (Some p)" using cstr_head [OF assms(4)] by (simp add: rel_def)
  note w = sv_watch_inv [OF assms(1)]
  obtain r where r: "construct_path p ?d w = (r, w)" using sv_construct [OF assms(1)] by blast
  show ?thesis
  proof (cases "(if rel then XENSTORE_REL_PATH_MAX else XENSTORE_ABS_PATH_MAX) < strnlen payload + 1 \<or> isl r")
    case True
    then show ?thesis using assms(1,2,4) r
      unfolding handle_watch_def Let_def rel_def [symmetric]
      by (cases "(if rel then XENSTORE_REL_PATH_MAX else XENSTORE_ABS_PATH_MAX) < strnlen payload + 1"; cases r)
        (simp_all add: serves_intros)
  next
    case False
    then obtain path where path: "r = Inr path" by (cases r) auto
    have home: "rel \<longrightarrow> prefix (local_path ?d) path"
      using construct_path_home_d [OF assms(3) r [unfolded path]] rel by simp
    obtain f where f: "key_to_watcher path (Some ?token) (Some ?d) w = Some f"
      "\<forall>a. f = Some a \<longrightarrow> a \<in> set (watch_entry_list w) \<and>
         (\<exists>e. watch_heap w a = Some e \<and> we_domain e = Some ?d \<and> we_key e = path)"
      using key_to_watcher_total [of "[]" w "Some ?token" path "Some ?d"] w assms(5)
      by (auto simp: token_terminated_def)
    obtain a w1 where reg: "(case f of
          Some a \<Rightarrow> do { w2 \<leftarrow> set_relative a rel w; Some (Some a, w2) }
        | None \<Rightarrow> Some (alloc_guest_watch path ?token ?d rel w)) = Some (Some a, w1)"
      "watch_inv [] w1" "root_xenstore w1 = root_xenstore w" "mallocs w1 = []"
      "\<exists>e. watch_heap w1 a = Some e \<and> we_domain e = Some ?d \<and> we_key e = path"
    proof (cases f)
      case None
      then show ?thesis using that alloc_guest_watch_inv [of w ?token rel ?d path] w assms(5) home by auto
    next
      case (Some b)
      then obtain e where e: "watch_heap w b = Some e" "we_domain e = Some ?d" "we_key e = path" using f(2) by auto
      then have "rel \<longrightarrow> prefix (watch_home e) (we_key e)" using home by (simp add: watch_home_def)
      then show ?thesis using that Some set_relative_inv [of w b e rel] w e by auto
    qed
    have ok1: "sv_ok w1" using reg w by (simp add: sv_ok_def world_ok_def)
    obtain x' w2 j where s: "send_reply cfg x req_id XS_WATCH ''OK'' w1 = Some (x', w2)"
        "replied x req_id XS_WATCH x'" "w2 = w1\<lparr>stack_junk := j\<rparr>"
      using send_ok [of w1 x XS_WATCH XS_WATCH cfg req_id "''OK'' @ [NUL]"] reg(4) assms(2) unfolding send_reply_def by auto
    have ok2: "sv_ok w2" using ok1 s(3) by simp
    obtain entry where k: "key_to_entry_check_perm (Some path) ?d XS_PERM_READ w2 = Some (entry, w2)"
      using sv_lookup [OF ok2] by blast
    obtain e where e: "watch_heap w2 a = Some e" "we_domain e = Some ?d" "we_key e = path"
      using reg(5) s(3) by auto
    obtain rc w3 where q: "queue_pending_watch_event a path K_FOREVER w2 = Some (rc, w3)" "watch_inv [] w3"
        "root_xenstore w3 = root_xenstore w2"
      using queue_pending_inv [of "[]" w2 a e ?d path K_FOREVER] sv_watch_inv [OF ok2] e by auto
    have "sv_ok w3" using q queue_pending_mallocs [OF _ q(1)] sv_watch_inv [OF ok2]
      by (simp add: sv_ok_def world_ok_def)
    then show ?thesis
      using False assms(4) r path f(1) reg(1) s(1,2) k q(1) ok2
      unfolding handle_watch_def Let_def rel_def [symmetric]
      by (cases entry) (simp_all add: serves_def)
  qed
qed

lemma handle_unwatch_ok:
  assumes "sv_ok w" "used_out_bufs x \<le> 100"
    "cstr payload = Some p" "cstr (drop (strnlen payload + 1) payload) \<noteq> None"
  shows "serves x req_id XS_UNWATCH (handle_unwatch cfg x req_id payload w)"
proof -
  let ?d = "xs_domid x" and ?token = "drop (strnlen payload + 1) payload"
  note w = sv_watch_inv [OF assms(1)]
  obtain r where r: "construct_path p ?d w = (r, w)" using sv_construct [OF assms(1)] by blast
  show ?thesis
  proof (cases r)
    case (Inl rc)
    then show ?thesis using assms r by (simp add: handle_unwatch_def serves_intros)
  next
    case (Inr path)
    obtain f where f: "key_to_watcher path (Some ?token) (Some ?d) w = Some f"
      "\<forall>a. f = Some a \<longrightarrow> a \<in> set (watch_entry_list w) \<and> (\<exists>e. watch_heap w a = Some e)"
      using key_to_watcher_total [of "[]" w "Some ?token" path "Some ?d"] w assms(4)
      by (fastforce simp: token_terminated_def)
    obtain w1 where "(case f of None \<Rightarrow> Some w | Some a \<Rightarrow> remove_watch_entry a w) = Some w1" "sv_ok w1"
    proof (cases f)
      case None
      then show ?thesis using that assms(1) by simp
    next
      case (Some a)
      then obtain e where "a \<in> set (watch_entry_list w)" "watch_heap w a = Some e" using f(2) by auto
      then obtain w1 where w1: "remove_watch_entry a w = Some w1" "watch_inv [] w1" "root_xenstore w1 = root_xenstore w"
        using remove_watch_inv w by blast
      have "mallocs w1 = []" using put_mallocs w1(1) w unfolding remove_watch_entry_def by fastforce
      then show ?thesis using that Some w1 w by (simp add: sv_ok_def world_ok_def)
    qed
    then show ?thesis using assms r Inr f(1) by (simp add: handle_unwatch_def serves_intros)
  qed
qed

section \<open>Every request is answered\<close>

text \<open>The requests on which a handler has no undefined behaviour: strings are terminated inside
  the payload, the root is not removed, and permissions are set on an entry that exists.\<close>

definition request_ok ::
  "xenstore \<Rightarrow> xsd_sockmsg_type \<Rightarrow> char list \<Rightarrow> 'a xs_server_scheme \<Rightarrow> bool" where
  "request_ok x ty payload w =
     (if ty \<in> {XS_READ, XS_GET_PERMS, XS_DIRECTORY, XS_WRITE, XS_MKDIR} then cstr payload \<noteq> None
      else if ty = XS_RM then
        (case cstr payload of None \<Rightarrow> False | Some p \<Rightarrow> strtok_all slash p \<noteq> [])
      else if ty \<in> {XS_WATCH, XS_UNWATCH} then
        cstr payload \<noteq> None \<and> cstr (drop (strnlen payload + 1) payload) \<noteq> None
      else if ty = XS_SET_PERMS then
        (case cstr payload of
           None \<Rightarrow> True
         | Some p \<Rightarrow>
             (case construct_path p (xs_domid x) w of
                (Inr path, w1) \<Rightarrow> fst (key_to_entry (Some path) w1) \<noteq> None
              | _ \<Rightarrow> True))
      else True)"

text \<open>The effect on the connection: one reply to the request, queued behind the others.  The end
  of a transaction is acknowledged later, by the event thread.\<close>

definition answered :: "xenstore \<Rightarrow> u32 \<Rightarrow> xsd_sockmsg_type \<Rightarrow> xenstore \<Rightarrow> bool" where
  "answered x req_id ty x' \<longleftrightarrow>
     in_buf x' = None \<and> domint x' = domint x \<and> xs_domid x' = xs_domid x \<and> thrd_stop x' = thrd_stop x \<and>
     (if ty = XS_TRANSACTION_END then
        out_list x' = out_list x \<and> used_out_bufs x' = used_out_bufs x \<and>
        pending_stop_transaction x' \<and> stop_transaction_id x' = req_id \<and> running_transaction x' = 0
      else
        used_out_bufs x' = used_out_bufs x + 1 \<and>
        (\<exists>t junk data. t \<in> {ty, XS_ERROR} \<and> length data \<le> XENSTORE_PAYLOAD_MAX \<and>
           out_list x' = out_list x @ [reply_buf t req_id junk data]))"

definition answers :: "xenstore \<Rightarrow> u32 \<Rightarrow> xsd_sockmsg_type \<Rightarrow> 'a served \<Rightarrow> bool" where
  "answers x req_id ty r \<longleftrightarrow>
     (\<exists>x' w'. r = Some (x', w') \<and> sv_ok w' \<and> in_buf x' = in_buf x \<and>
        answered x req_id ty (x'\<lparr>in_buf := None\<rparr>))"

lemma replied_answered:
  assumes "replied x1 req_id ty x'" "ty \<noteq> XS_TRANSACTION_END" "out_list x1 = out_list x"
    "used_out_bufs x1 = used_out_bufs x" "domint x1 = domint x" "xs_domid x1 = xs_domid x"
    "thrd_stop x1 = thrd_stop x"
  shows "in_buf x' = in_buf x1" "answered x req_id ty (x'\<lparr>in_buf := None\<rparr>)"
proof -
  obtain t junk data where d: "t \<in> {ty, XS_ERROR}" "length data \<le> XENSTORE_PAYLOAD_MAX"
    "x' = x1\<lparr>out_list := out_list x1 @ [reply_buf t req_id junk data], used_out_bufs := used_out_bufs x1 + 1\<rparr>"
    using assms(1) unfolding replied_def by blast
  then show "in_buf x' = in_buf x1" by simp
  have "\<exists>t' j' d'. t' \<in> {ty, XS_ERROR} \<and> length d' \<le> XENSTORE_PAYLOAD_MAX \<and>
      out_list x @ [reply_buf t req_id junk data] = out_list x @ [reply_buf t' req_id j' d']"
    using d(1,2) by blast
  then show "answered x req_id ty (x'\<lparr>in_buf := None\<rparr>)"
    using d(3) assms(2-) by (simp add: answered_def)
qed

lemma serves_answers: "serves x req_id ty r \<Longrightarrow> ty \<noteq> XS_TRANSACTION_END \<Longrightarrow> answers x req_id ty r"
  unfolding serves_def answers_def using replied_answered [of x] by blast

lemma transaction_start_answers:
  assumes "sv_ok w" "used_out_bufs x \<le> 100"
  shows "answers x req_id XS_TRANSACTION_START (handle_transaction_start cfg x req_id payload w)"
proof (cases "running_transaction x = 0")
  case True
  let ?x1 = "x\<lparr>transaction := transaction x + 1, running_transaction := transaction x + 1\<rparr>"
  have "serves ?x1 req_id XS_TRANSACTION_START (handle_transaction_start cfg x req_id payload w)"
    using assms True by (simp add: handle_transaction_start_def Let_def serves_intros)
  then show ?thesis using replied_answered [of ?x1 req_id _ _ x]
    unfolding serves_def answers_def by fastforce
next
  case False
  then show ?thesis using assms
    by (intro serves_answers) (simp_all add: handle_transaction_start_def serves_intros)
qed

lemma transaction_stop_answers:
  "sv_ok w \<Longrightarrow> answers x req_id XS_TRANSACTION_END (handle_transaction_stop cfg x req_id payload w)"
  by (simp add: handle_transaction_stop_def answers_def answered_def)

lemma set_perms_answers:
  assumes "sv_ok w" "used_out_bufs x \<le> 100" "request_ok x XS_SET_PERMS payload w"
  shows "answers x req_id XS_SET_PERMS (handle_set_perms cfg x req_id payload w)"
proof (intro serves_answers handle_set_perms_ok assms)
  fix p path
  assume p: "cstr payload = Some p" "construct_path p (xs_domid x) w = (Inr path, w)"
  then have "fst (key_to_entry (Some path) w) \<noteq> None" using assms(3) by (simp add: request_ok_def)
  moreover obtain entry where "key_to_entry (Some path) w = (entry, w)"
    using key_to_entry_same [of w "Some path"] sv_watch_inv [OF assms(1)] by (metis surj_pair)
  ultimately show "\<exists>q. key_to_entry (Some path) w = (Some q, w)" by auto
qed simp

lemmas handlers_ok =
  handle_read_ok handle_get_perms_ok handle_directory_ok handle_write_ok handle_rm_ok
  handle_reset_watches_ok handle_watch_ok handle_unwatch_ok

text \<open>One lemma for the dispatch table.\<close>

lemma handler_answers:
  fixes w :: "'a xs_server_scheme"
  assumes ok: "sv_ok w" "used_out_bufs x \<le> 100" "unat (xs_domid x) < 0x8000"
    and h: "message_handle ty = Some h" and req: "request_ok x ty payload w"
  shows "answers x req_id ty (h cfg x req_id payload w)"
proof (cases ty)
  case XS_TRANSACTION_START
  then show ?thesis using ok h transaction_start_answers by auto
next
  case XS_TRANSACTION_END
  then show ?thesis using ok h transaction_stop_answers by auto
next
  case XS_SET_PERMS
  then show ?thesis using ok h req set_perms_answers by auto
next
  case XS_WATCH
  then show ?thesis using ok h req handle_watch_ok [of w x payload]
    by (auto simp: request_ok_def intro!: serves_answers)
next
  case XS_UNWATCH
  then show ?thesis using ok h req handle_unwatch_ok [of w x payload]
    by (auto simp: request_ok_def intro!: serves_answers)
next
  case XS_RM
  then show ?thesis using ok h req handle_rm_ok [of w x payload]
    by (auto simp: request_ok_def split: option.splits intro!: serves_answers)
qed (use ok h req handlers_ok(1-4) handle_reset_watches_ok in
    \<open>auto simp: request_ok_def handle_control_def handle_get_domain_path_def handle_write_def
       handle_mkdir_def serves_intros intro!: serves_answers\<close>)

lemma msg_code_find: "List.find (\<lambda>t. msg_code t = msg_code ty) msg_types = Some ty"
  by (cases ty) (simp_all add: msg_types_def)

lemma process_message_answers:
  fixes w :: "'a xs_server_scheme"
  assumes ok: "sv_ok w" "used_out_bufs x \<le> 100" "unat (xs_domid x) < 0x8000"
    and b: "in_buf x = Some b" "hdr_decode (bd_buffer b) = hdr" "hdr_type hdr = msg_code ty"
    and h: "message_handle ty = (Some h :: (xen_cfg \<Rightarrow> xenstore \<Rightarrow> u32 \<Rightarrow> char list \<Rightarrow> 'a xs_server_scheme \<Rightarrow> 'a served) option)"
    and req: "request_ok x ty (drop 16 (bd_buffer b)) w"
  shows "\<exists>x' w'. process_message cfg x w = Some (x', w') \<and> sv_ok w' \<and> answered x (hdr_req_id hdr) ty x'"
proof -
  have f: "handler_for (hdr_type hdr) = Some h" using b(3) h by (simp add: handler_for_def msg_code_find)
  obtain x' w' where "h cfg x (hdr_req_id hdr) (drop 16 (bd_buffer b)) w = Some (x', w')" "sv_ok w'"
      "in_buf x' = Some b" "answered x (hdr_req_id hdr) ty (x'\<lparr>in_buf := None\<rparr>)"
    using handler_answers [OF ok h req, of "hdr_req_id hdr" cfg] b(1) by (auto simp: answers_def)
  then show ?thesis using b f by (simp add: process_message_def Let_def)
qed

end
