(* ===== verification/Xs_Server_Loop.thy ===== *)
theory Xs_Server_Loop
  imports Xs_Server_Safety Xs_Wire_Props
begin

text \<open>
  The event thread of a domain: what it moves between the rings and its buffers.  The bytes of
  the replies reach the response ring in order and the loop that writes them ends; the bytes
  of a request are taken from the request ring in order, in whatever pieces they arrive; and
  a complete request is answered.
\<close>

section \<open>The two streams of a connection\<close>

definition out_stream :: "xenstore \<Rightarrow> char list" where
  "out_stream x = concat (map (\<lambda>b. drop (bd_used b) (bd_buffer b)) (out_list x))"

definition in_stream :: "xenstore \<Rightarrow> char list" where
  "in_stream x = (case in_buf x of None \<Rightarrow> [] | Some b \<Rightarrow> bd_buffer b)"

definition link_ok :: "xenstore \<Rightarrow> bool" where
  "link_ok x \<longleftrightarrow> (case domint x of None \<Rightarrow> False | Some i \<Rightarrow> req_valid i \<and> rsp_valid i)"

definition req_of :: "xenstore \<Rightarrow> char list" where
  "req_of x = (case domint x of None \<Rightarrow> [] | Some i \<Rightarrow> req_contents i)"

definition rsp_of :: "xenstore \<Rightarrow> char list" where
  "rsp_of x = (case domint x of None \<Rightarrow> [] | Some i \<Rightarrow> rsp_contents i)"

lemma out_bytes_stream: "list_all out_ok (out_list x) \<Longrightarrow> out_bytes x = length (out_stream x)"
proof -
  have "list_all out_ok bs \<Longrightarrow> sum_list (map (\<lambda>b. bd_total_size b - bd_used b) bs) =
      length (concat (map (\<lambda>b. drop (bd_used b) (bd_buffer b)) bs))" for bs
    by (induction bs) (auto simp: out_ok_def)
  then show "list_all out_ok (out_list x) \<Longrightarrow> out_bytes x = length (out_stream x)"
    by (simp add: out_bytes_def out_stream_def)
qed

lemma sv_ok_env [simp]:
  "sv_ok (w\<lparr>hcalls := hs\<rparr>) = sv_ok w" "sv_ok (w\<lparr>trace := tr\<rparr>) = sv_ok w"
  "sv_ok (w\<lparr>xb_sem := s\<rparr>) = sv_ok (w :: 'a xs_server_scheme)"
  by (simp_all add: sv_ok_def world_ok_def watch_inv_def)

lemma notify_evtchn_frame: "\<exists>hs tr. notify_evtchn p e = e\<lparr>hcalls := hs, trace := tr\<rparr>"
  by (auto simp: notify_evtchn_def ext_call_def)

text \<open>What does not change when only the environment moves on.\<close>

definition env_step :: "'a xs_server_scheme \<Rightarrow> 'a xs_server_scheme \<Rightarrow> bool" where
  "env_step w w' \<longleftrightarrow> (\<exists>hs tr. w' = w\<lparr>hcalls := hs, trace := tr\<rparr>)"

lemma env_step_refl [simp]: "env_step w w"
proof -
  have "w = w\<lparr>hcalls := hcalls w, trace := trace w\<rparr>" by simp
  then show ?thesis unfolding env_step_def by blast
qed

lemma env_step_notify [simp]: "env_step w (notify_evtchn p w)"
  unfolding env_step_def by (rule notify_evtchn_frame)

lemma env_step_trans: "env_step w w1 \<Longrightarrow> env_step w1 w2 \<Longrightarrow> env_step w w2"
proof -
  assume "env_step w w1" "env_step w1 w2"
  then obtain hs tr where "w2 = w\<lparr>hcalls := hs, trace := tr\<rparr>" by (auto simp: env_step_def)
  then show ?thesis unfolding env_step_def by blast
qed

lemma env_step_sv: "env_step w w' \<Longrightarrow> sv_ok w' = sv_ok w"
  by (auto simp: env_step_def)

section \<open>Writing replies\<close>

lemma ring_put_Inr: "rsp_valid i \<Longrightarrow> xenstore_ring_write i d False = Inr (ring_put False d i)"
  by (auto simp: ring_put_def xenstore_ring_write_def rsp_valid_def ring_ok_def Let_def split: prod.splits)

lemma ring_put_req:
  assumes "rsp_valid i" "ring_put False d i = (n, i')"
  shows "req_valid i' = req_valid i" "req_contents i' = req_contents i"
proof -
  obtain off avail where "get_output_offset (rsp_cons i) (rsp_prod i) = (off, avail)" by fastforce
  then show "req_valid i' = req_valid i" "req_contents i' = req_contents i"
    using ring_put_server [OF assms(1)] assms(2) by (auto simp: req_valid_def req_contents_def)
qed

lemma ring_write_ok:
  assumes "domint x = Some i" "rsp_valid i" "ring_put False d i = (n, i')"
  shows "ring_write x d w = Some (int n, x\<lparr>domint := Some i'\<rparr>, notify_evtchn (local_evtchn x) w)"
  using assms by (simp add: ring_write_def ring_put_Inr)

lemma can_write_iff:
  assumes "domint x = Some i" "rsp_valid i"
  shows "can_write x = Some (out_list x \<noteq> [] \<and> length (rsp_of x) < 1024)"
  using assms by (auto simp: can_write_def rsp_of_def rsp_contents_def length_ring_contents word_less_nat_alt)

text \<open>One write: the bytes that leave the buffers are the bytes that reach the ring.\<close>

definition moved :: "xenstore \<Rightarrow> xenstore \<Rightarrow> bool" where
  "moved x x' \<longleftrightarrow>
     link_ok x' \<and> rsp_of x' @ out_stream x' = rsp_of x @ out_stream x \<and> req_of x' = req_of x \<and>
     in_buf x' = in_buf x \<and> xs_domid x' = xs_domid x \<and> thrd_stop x' = thrd_stop x \<and>
     stop_transaction_id x' = stop_transaction_id x \<and> pending_stop_transaction x' = pending_stop_transaction x \<and>
     running_transaction x' = running_transaction x \<and>
     length (out_list x') \<le> length (out_list x)"

lemma moved_refl: "link_ok x \<Longrightarrow> moved x x"
  by (simp add: moved_def)

lemma moved_trans: "moved x x1 \<Longrightarrow> moved x1 x2 \<Longrightarrow> moved x x2"
  by (auto simp: moved_def)

lemma handle_output_step:
  fixes w :: "'a xs_server_scheme"
  assumes link: "link_ok x" and ok: "client_ok x" and ne: "out_list x \<noteq> []" and room: "length (rsp_of x) < 1024"
  shows "\<exists>x' w'. handle_output cfg x w = Some (x', w') \<and> env_step w w' \<and> client_ok x' \<and> moved x x' \<and>
    length (out_stream x') < length (out_stream x)"
proof -
  obtain i where i: "domint x = Some i" "req_valid i" "rsp_valid i"
    using link by (auto simp: link_ok_def split: option.splits)
  obtain b bs where bs: "out_list x = b # bs" using ne by (cases "out_list x") auto
  have b: "out_ok b" "list_all out_ok bs" using ok bs by (auto simp: client_ok_def)
  let ?d = "drop (bd_used b) (bd_buffer b)"
  have d: "take (bd_total_size b - bd_used b) ?d = ?d" "?d \<noteq> []" using b(1) by (auto simp: out_ok_def)
  obtain n i' where p: "ring_put False ?d i = (n, i')" by fastforce
  note st = rsp_ring.put_valid [OF i(3) p] rsp_ring.put_contents [OF i(3) p] rsp_ring.put_le [OF i(3) p]
  have n: "0 < n" using rsp_ring.put_progress [OF i(3) p d(2)] room i(1) by (simp add: rsp_of_def)
  note rw = ring_write_ok [OF i(1,3) p, of w]
  have len: "length (bd_buffer b) = bd_total_size b" "bd_used b < bd_total_size b" using b(1) by (simp_all add: out_ok_def)
  let ?x1 = "if bd_used b + n < bd_total_size b
    then x\<lparr>domint := Some i', out_list := b\<lparr>bd_used := bd_used b + n\<rparr> # bs\<rparr>
    else x\<lparr>domint := Some i', out_list := bs, used_out_bufs := used_out_bufs x - 1\<rparr>"
  have "handle_output cfg x w = Some (?x1, notify_evtchn (local_evtchn x) w)"
    using bs d(1) rw by (simp add: handle_output_def)
  moreover have "client_ok ?x1" using ok bs b len by (auto simp: client_ok_def out_ok_def)
  moreover have s: "out_stream x = take n ?d @ out_stream ?x1"
    using bs len st(3) append_take_drop_id [of n ?d]
    by (auto simp: out_stream_def add.commute)
  moreover have "moved x ?x1"
    using i s st(1,2) ring_put_req [OF i(3) p] bs by (auto simp: moved_def link_ok_def rsp_of_def req_of_def)
  moreover have "length (out_stream ?x1) < length (out_stream x)" using n d(2) s by (cases n) auto
  ultimately show ?thesis using env_step_notify by blast
qed

text \<open>The loop ends, within as many rounds as there are bytes to send, with nothing left to send
  or the ring full.\<close>

lemma output_loop_ok:
  fixes w :: "'a xs_server_scheme"
  assumes "link_ok x" "client_ok x" "length (out_stream x) \<le> n"
  shows "\<exists>x' w'. output_loop n cfg x w = Some (x', w') \<and> env_step w w' \<and> client_ok x' \<and> moved x x' \<and>
    (out_list x' = [] \<or> length (rsp_of x') = 1024)"
  using assms
proof (induction n arbitrary: x w)
  case n: (0 x w)
  have "out_list x = []"
    using n.prems(2,3) by (cases "out_list x") (auto simp: client_ok_def out_ok_def out_stream_def)
  then show ?case using n moved_refl by (auto simp: output_loop.simps [of 0] can_write_def)
next
  case (Suc n)
  obtain i where i: "domint x = Some i" "rsp_valid i"
    using Suc.prems(1) by (auto simp: link_ok_def split: option.splits)
  note cw = can_write_iff [OF i]
  show ?case
  proof (cases "out_list x \<noteq> [] \<and> length (rsp_of x) < 1024")
    case False
    have "length (rsp_of x) \<le> 1024" using rsp_ring.bounded [OF i(2)] i(1) by (simp add: rsp_of_def)
    then have "out_list x = [] \<or> length (rsp_of x) = 1024" using False by auto
    moreover have "output_loop (Suc n) cfg x w = Some (x, w)"
      using False cw by (simp add: output_loop.simps [of "Suc n"])
    ultimately show ?thesis using moved_refl [OF Suc.prems(1)] Suc.prems(2) env_step_refl by blast
  next
    case True
    then obtain x1 w1 where o: "handle_output cfg x w = Some (x1, w1)" "env_step w w1" "client_ok x1"
        "moved x x1" "length (out_stream x1) < length (out_stream x)"
      using handle_output_step [OF Suc.prems(1,2)] by blast
    have "link_ok x1" "length (out_stream x1) \<le> n" using o(4,5) Suc.prems(3) by (auto simp: moved_def)
    with Suc.IH [OF _ o(3)] obtain x' w' where l: "output_loop n cfg x1 w1 = Some (x', w')" "env_step w1 w'"
        "client_ok x'" "moved x1 x'" "out_list x' = [] \<or> length (rsp_of x') = 1024" by blast
    have "output_loop (Suc n) cfg x w = Some (x', w')"
      using True cw o(1) l(1) by (simp add: output_loop.simps [of "Suc n"])
    with l moved_trans [OF o(4) l(4)] env_step_trans [OF o(2) l(2)] show ?thesis by blast
  qed
qed

section \<open>Sending watch events\<close>

text \<open>Some watch events have been queued, within the limit of the code.\<close>

definition is_event :: "buffered_data \<Rightarrow> bool" where
  "is_event b \<longleftrightarrow> (\<exists>junk data. b = message_buf XS_WATCH_EVENT 0 junk data)"

definition queued :: "xenstore \<Rightarrow> buffered_data list \<Rightarrow> xenstore \<Rightarrow> bool" where
  "queued x evs x' \<longleftrightarrow>
     x' = x\<lparr>out_list := out_list x @ evs, used_out_bufs := used_out_bufs x + int (length evs)\<rparr> \<and>
     list_all is_event evs \<and> (evs = [] \<or> used_out_bufs x' \<le> 100)"

lemma queued_refl: "queued x [] x"
  by (simp add: queued_def)

lemma queued_trans: "queued x evs x1 \<Longrightarrow> queued x1 evs' x2 \<Longrightarrow> queued x (evs @ evs') x2"
  by (auto simp: queued_def)

lemma fire_watcher_ok:
  fixes w :: "'a xs_server_scheme"
  assumes inv: "watch_inv [] (w\<lparr>pending_watch_event_list := pend\<rparr>)" "p \<in> set pend" "mallocs w = []"
    and e: "watch_heap w (pe_watch p) = Some e" "we_domain e = Some (xs_domid x)"
  shows "\<exists>rc x' j evs. fire_watcher cfg p x w = Some (rc, x', w\<lparr>stack_junk := j\<rparr>) \<and> queued x evs x'"
proof -
  consider "\<not> watch_linked (pe_watch p) w" | "watch_linked (pe_watch p) w" "99 < used_out_bufs x"
    | "watch_linked (pe_watch p) w" "used_out_bufs x \<le> 99" by linarith
  then show ?thesis
  proof cases
    case 1
    then have "fire_watcher cfg p x w = Some (0, x, w\<lparr>stack_junk := stack_junk w\<rparr>)"
      using e(1) by (simp add: fire_watcher_def)
    then show ?thesis using queued_refl by blast
  next
    case 2
    then have "fire_watcher cfg p x w = Some (- ENOMEM, x, w\<lparr>stack_junk := stack_junk w\<rparr>)"
      using e(1) by (simp add: fire_watcher_def)
    then show ?thesis using queued_refl by blast
  next
    case 3
    have ok: "entry_ok [] pend (pe_watch p) e" using inv(1) e(1) by (simp add: watch_inv_def)
    then obtain token where t: "cstr (we_token e) = Some token" by (auto simp: entry_ok_def entry_static_def)
    have "\<exists>ep. (if we_is_relative e then skip_local (xs_domid x) (event_path p) else Some (event_path p)) = Some ep"
    proof (cases "we_is_relative e")
      case True
      then have "prefix (local_path (xs_domid x)) (we_key e)"
        using ok e(2) by (simp add: entry_ok_def entry_static_def watch_home_def)
      moreover have "we_key e = [slash] \<or> prefix (we_key e) (event_path p)"
        using ok inv(2) by (simp add: entry_ok_def)
      ultimately show ?thesis using skip_local_ok [of "xs_domid x" "we_key e" "event_path p"] True by auto
    qed simp
    then obtain ep where ep: "(if we_is_relative e then skip_local (xs_domid x) (event_path p) else Some (event_path p)) = Some ep"
      by blast
    obtain x' j b where s: "send_reply_sz cfg x 0 XS_WATCH_EVENT (ep @ NUL # token @ [NUL]) w = Some (x', w\<lparr>stack_junk := j\<rparr>)"
        "is_event b" "x' = x\<lparr>out_list := out_list x @ [b], used_out_bufs := used_out_bufs x + 1\<rparr>"
      using send_exact [of w x cfg 0 XS_WATCH_EVENT] inv(3) 3 unfolding is_event_def by fastforce
    then have "queued x [b] x'" using 3 by (simp add: queued_def)
    moreover have "fire_watcher cfg p x w = Some (0, x', w\<lparr>stack_junk := j\<rparr>)"
      using 3 e(1) t ep s(1) inv(3) by (simp add: fire_watcher_def)
    ultimately show ?thesis by blast
  qed
qed

lemma queued_domid: "queued x evs x' \<Longrightarrow> xs_domid x' = xs_domid x"
  by (simp add: queued_def)

lemma pending_loop_ok:
  fixes w :: "'a xs_server_scheme"
  assumes "watch_inv [] (w\<lparr>pending_watch_event_list := kept @ ps\<rparr>)" "mallocs w = []"
  shows "\<exists>x' w' evs. pending_loop cfg kept ps x w = Some (x', w') \<and> queued x evs x' \<and>
    watch_inv [] w' \<and> mallocs w' = [] \<and> root_xenstore w' = root_xenstore w"
  using assms
proof (induction ps arbitrary: kept x w)
  case Nil
  then show ?case using queued_refl by fastforce
next
  case (Cons p ps)
  obtain e where e: "watch_heap w (pe_watch p) = Some e"
    using watch_inv_alive [OF Cons.prems(1), of "pe_watch p"] by auto
  show ?case
  proof (cases "we_domain e = Some (xs_domid x)")
    case False
    then show ?thesis using Cons.IH [of "kept @ [p]" w x] Cons.prems e by simp
  next
    case True
    obtain rc x1 j evs where f: "fire_watcher cfg p x w = Some (rc, x1, w\<lparr>stack_junk := j\<rparr>)" "queued x evs x1"
      using fire_watcher_ok [OF Cons.prems(1) _ Cons.prems(2) e True, of cfg] by auto
    let ?w1 = "w\<lparr>stack_junk := j\<rparr>"
    have inv1: "watch_inv [] (?w1\<lparr>pending_watch_event_list := kept @ p # ps\<rparr>)"
      using Cons.prems(1) by (simp add: watch_inv_def)
    show ?thesis
    proof (cases "rc < 0")
      case True
      then show ?thesis using f e \<open>we_domain e = _\<close> inv1 Cons.prems(2) by auto
    next
      case False
      obtain h where put: "watch_entry_put (pe_watch p) ?w1 = Some (?w1\<lparr>watch_heap := h\<rparr>)"
          "watch_inv [] (?w1\<lparr>watch_heap := h, pending_watch_event_list := kept @ ps\<rparr>)"
        using pending_put_inv [OF inv1] e by (auto simp del: fun_upd_apply)
      obtain x' w' evs' where "pending_loop cfg kept ps x1 (?w1\<lparr>watch_heap := h\<rparr>) = Some (x', w')" "queued x1 evs' x'"
          "watch_inv [] w'" "mallocs w' = []" "root_xenstore w' = root_xenstore w"
        using Cons.IH [of kept "?w1\<lparr>watch_heap := h\<rparr>" x1] put(2) Cons.prems(2) by auto
      moreover from this have "queued x (evs @ evs') x'" using queued_trans [OF f(2)] by blast
      ultimately show ?thesis using False f(1) e True put(1) by auto
    qed
  qed
qed

lemma process_pending_ok:
  assumes "sv_ok w"
  shows "\<exists>x' w' evs. process_pending_watch_events cfg x w = Some (x', w') \<and> queued x evs x' \<and> sv_ok w' \<and>
    root_xenstore w' = root_xenstore w"
  using pending_loop_ok [of "[]" "pending_watch_event_list w" w cfg x] sv_watch_inv [OF assms]
  by (fastforce simp: process_pending_watch_events_def sv_ok_def world_ok_def)

section \<open>Reading requests\<close>

lemma ring_get_Inr: "req_valid i \<Longrightarrow> xenstore_ring_read i n False = Inr (ring_get False n i)"
  by (auto simp: ring_get_def xenstore_ring_read_def req_valid_def ring_ok_def Let_def split: prod.splits)

lemma ring_get_rsp:
  assumes "req_valid i" "ring_get False n i = (d, i')"
  shows "rsp_valid i' = rsp_valid i" "rsp_contents i' = rsp_contents i"
proof -
  obtain off avail where "xenstore_get_input_offset (req_cons i) (req_prod i) = (off, avail)" by fastforce
  then show "rsp_valid i' = rsp_valid i" "rsp_contents i' = rsp_contents i"
    using ring_get_server [OF assms(1)] assms(2) by (auto simp: rsp_valid_def rsp_contents_def)
qed

text \<open>One read: what it takes from the request ring, and that it leaves the rest alone.\<close>

lemma ring_read_ok:
  assumes "link_ok x"
  shows "\<exists>d i. ring_read x n w = Some (Inr d, x\<lparr>domint := Some i\<rparr>, notify_evtchn (local_evtchn x) w) \<and>
    link_ok (x\<lparr>domint := Some i\<rparr>) \<and> rsp_of (x\<lparr>domint := Some i\<rparr>) = rsp_of x \<and>
    req_of x = d @ req_contents i \<and> length d \<le> n \<and> (req_of x \<noteq> [] \<longrightarrow> 0 < n \<longrightarrow> d \<noteq> [])"
proof -
  obtain i0 where i0: "domint x = Some i0" "req_valid i0" "rsp_valid i0"
    using assms by (auto simp: link_ok_def split: option.splits)
  obtain d i where g: "ring_get False n i0 = (d, i)" by fastforce
  show ?thesis
    using i0 g ring_get_Inr [OF i0(2), of n] ring_get_rsp [OF i0(2) g] req_ring.get_valid [OF i0(2) g]
      req_ring.get_contents [OF i0(2) g] req_ring.get_le [OF i0(2) g] req_ring.get_progress [OF i0(2) g]
    by (auto simp: ring_read_def link_ok_def rsp_of_def req_of_def)
qed

text \<open>The conditions of a request depend on the store and on the domain only.\<close>

lemma request_ok_same:
  assumes "sv_ok w" "sv_ok w'" "root_xenstore w' = root_xenstore w" "xs_domid y = xs_domid x"
  shows "request_ok y ty payload w' = request_ok x ty payload w"
proof -
  have m: "mallocs w = []" "mallocs w' = []" using assms(1,2) by (simp_all add: sv_ok_def)
  have k: "fst (key_to_entry k w') = fst (key_to_entry k w)" for k
    using m assms(3) by (auto simp: key_to_entry_def Let_def split: option.splits)
  have "(case construct_path p d w' of (Inr path, w1) \<Rightarrow> fst (key_to_entry (Some path) w1) \<noteq> None | _ \<Rightarrow> True) =
      (case construct_path p d w of (Inr path, w1) \<Rightarrow> fst (key_to_entry (Some path) w1) \<noteq> None | _ \<Rightarrow> True)"
    for p d
    using m by (simp add: construct_path_def Let_def split_beta k)
  then show ?thesis unfolding request_ok_def assms(4) by (cases "cstr payload") simp_all
qed

text \<open>A request on its way: \<open>request h payload\<close> are its bytes.  The bytes read and those in the ring
  are a part of it, or it is followed by other requests.\<close>

definition request :: "xsd_sockmsg \<Rightarrow> char list \<Rightarrow> char list" where
  "request h payload = hdr_encode h @ payload"

definition arriving :: "xsd_sockmsg \<Rightarrow> char list \<Rightarrow> xenstore \<Rightarrow> bool" where
  "arriving h payload x \<longleftrightarrow>
     unat (hdr_len h) = length payload \<and> length payload \<le> XENSTORE_PAYLOAD_MAX \<and>
     length (in_stream x) < length (request h payload) \<and>
     (prefix (in_stream x @ req_of x) (request h payload) \<or> prefix (request h payload) (in_stream x @ req_of x))"

lemma prefix_upto:
  assumes "prefix s m \<or> prefix m s" "prefix a s" "length a \<le> length m"
  shows "prefix a m"
  using assms(1)
proof
  assume "prefix s m"
  with assms(2) show ?thesis by (rule prefix_order.trans)
next
  assume "prefix m s"
  with assms(2) show ?thesis using assms(3) by (rule prefix_length_prefix)
qed

lemma hdr_decode_prefix:
  assumes "prefix bs (request h payload)" "16 \<le> length bs"
  shows "hdr_decode bs = h"
proof -
  have "prefix (hdr_encode h) bs"
  proof (rule prefix_length_prefix [OF _ assms(1)])
    show "prefix (hdr_encode h) (request h payload)" by (simp add: request_def)
    show "length (hdr_encode h) \<le> length bs" using assms(2) by simp
  qed
  then show ?thesis by (auto simp: prefix_def hdr_decode_encode)
qed

text \<open>The result of one call of \<open>handle_input\<close>: more of the request has been read, or the request is
  complete and answered.\<close>

definition input_result ::
  "xsd_sockmsg \<Rightarrow> char list \<Rightarrow> xsd_sockmsg_type \<Rightarrow> xenstore \<Rightarrow> 'a xs_server_scheme \<Rightarrow> 'a served \<Rightarrow> bool" where
  "input_result h payload ty x w r \<longleftrightarrow>
     (\<exists>x' w'. r = Some (x', w') \<and> sv_ok w' \<and> link_ok x' \<and> client_ok x' \<and> rsp_of x' = rsp_of x \<and>
        (if in_buf x' = None
         then in_stream x @ req_of x = request h payload @ req_of x' \<and>
              answered (x\<lparr>domint := domint x'\<rparr>) (hdr_req_id h) ty x'
         else x' = x\<lparr>in_buf := in_buf x', domint := domint x'\<rparr> \<and> env_step w w' \<and>
              in_stream x' @ req_of x' = in_stream x @ req_of x \<and>
              length (in_stream x) < length (in_stream x') \<and>
              length (in_stream x') < length (request h payload)))"

lemma reply_buf_ok: "length data \<le> XENSTORE_PAYLOAD_MAX \<Longrightarrow> out_ok (reply_buf t req_id junk data)"
  by (simp add: out_ok_def reply_buf_def)

lemma answered_client:
  assumes "client_ok x" "used_out_bufs x \<le> 100" "answered x req_id ty x'"
  shows "client_ok x'"
  using assms reply_buf_ok by (auto simp: client_ok_def answered_def split: if_splits)

lemma answered_from:
  "answered x1 req_id ty x' \<Longrightarrow> out_list x1 = out_list x \<Longrightarrow> used_out_bufs x1 = used_out_bufs x \<Longrightarrow>
   domint x1 = domint x \<Longrightarrow> xs_domid x1 = xs_domid x \<Longrightarrow> thrd_stop x1 = thrd_stop x \<Longrightarrow> answered x req_id ty x'"
  unfolding answered_def by (elim conjE, intro conjI) (simp_all only:)

lemma read_more:
  fixes w :: "'a xs_server_scheme"
  assumes "link_ok x" "length buf + n \<le> length m"
    "prefix (buf @ req_of x) m \<or> prefix m (buf @ req_of x)"
  obtains d i where "ring_read x n w = Some (Inr d, x\<lparr>domint := Some i\<rparr>, notify_evtchn (local_evtchn x) w)"
    "link_ok (x\<lparr>domint := Some i\<rparr>)" "rsp_of (x\<lparr>domint := Some i\<rparr>) = rsp_of x"
    "buf @ req_of x = (buf @ d) @ req_contents i" "length d \<le> n" "prefix (buf @ d) m"
    "req_of x \<noteq> [] \<Longrightarrow> 0 < n \<Longrightarrow> d \<noteq> []"
proof -
  obtain d i where r: "ring_read x n w = Some (Inr d, x\<lparr>domint := Some i\<rparr>, notify_evtchn (local_evtchn x) w)"
    "link_ok (x\<lparr>domint := Some i\<rparr>)" "rsp_of (x\<lparr>domint := Some i\<rparr>) = rsp_of x"
    "req_of x = d @ req_contents i" "length d \<le> n" "req_of x \<noteq> [] \<longrightarrow> 0 < n \<longrightarrow> d \<noteq> []"
    using ring_read_ok [OF assms(1)] by blast
  have "prefix (buf @ d) (buf @ req_of x)" using r(4) by simp
  then have m: "prefix (buf @ d) m" using prefix_upto [OF assms(3)] assms(2) r(5) by simp
  have c: "buf @ req_of x = (buf @ d) @ req_contents i" using r(4) by simp
  show ?thesis by (rule that [OF r(1,2,3) c r(5) m]) (use r(6) in blast)
qed

text \<open>What the calls below assume of the request and of the server.\<close>

definition serving :: "xsd_sockmsg \<Rightarrow> char list \<Rightarrow> xsd_sockmsg_type \<Rightarrow> xenstore \<Rightarrow> 'a xs_server_scheme \<Rightarrow> bool" where
  "serving h payload ty x w \<longleftrightarrow>
     sv_ok w \<and> link_ok x \<and> client_ok x \<and> used_out_bufs x \<le> 100 \<and> unat (xs_domid x) < 0x8000 \<and>
     hdr_type h = msg_code ty \<and> message_handle ty \<noteq> (None ::
       (xen_cfg \<Rightarrow> xenstore \<Rightarrow> u32 \<Rightarrow> char list \<Rightarrow> 'a xs_server_scheme \<Rightarrow> 'a served) option) \<and>
     request_ok x ty payload w \<and> arriving h payload x"

lemma input_payload_ok:
  fixes w w0 :: "'a xs_server_scheme"
  assumes sv: "serving h payload ty x0 w0" "env_step w0 w" "link_ok x"
    and x: "x = x0\<lparr>in_buf := Some b, domint := domint x\<rparr>" "rsp_of x = rsp_of x0"
    and b: "length (bd_buffer b) = bd_used b" "bd_total_size b = length (request h payload)"
      "16 \<le> bd_used b" "bd_used b \<le> bd_total_size b" "in_stream x0 @ req_of x0 = bd_buffer b @ req_of x"
    and grown: "length (in_stream x0) < bd_used b \<or>
      length (in_stream x0) \<le> bd_used b \<and> bd_used b < bd_total_size b \<and> req_of x \<noteq> []"
  shows "input_result h payload ty x0 w0 (input_payload cfg b x w)"
proof -
  let ?m = "request h payload" and ?n = "bd_total_size b - bd_used b"
  have pay: "unat (hdr_len h) = length payload" "length payload \<le> XENSTORE_PAYLOAD_MAX"
    using sv(1) by (auto simp: serving_def arriving_def)
  have cmp: "prefix (bd_buffer b @ req_of x) ?m \<or> prefix ?m (bd_buffer b @ req_of x)"
    using sv(1) b(5) by (simp add: serving_def arriving_def)
  obtain d i where r: "ring_read x ?n w = Some (Inr d, x\<lparr>domint := Some i\<rparr>, notify_evtchn (local_evtchn x) w)"
    "link_ok (x\<lparr>domint := Some i\<rparr>)" "rsp_of (x\<lparr>domint := Some i\<rparr>) = rsp_of x"
    "bd_buffer b @ req_of x = (bd_buffer b @ d) @ req_contents i" "length d \<le> ?n" "prefix (bd_buffer b @ d) ?m"
    "req_of x \<noteq> [] \<Longrightarrow> 0 < ?n \<Longrightarrow> d \<noteq> []"
    using read_more [OF sv(3) _ cmp, of ?n w] b(1,2,4) by auto
  let ?b1 = "b\<lparr>bd_used := bd_used b + length d, bd_buffer := bd_buffer b @ d\<rparr>"
  let ?x2 = "x0\<lparr>in_buf := Some ?b1, domint := Some i\<rparr>" and ?w1 = "notify_evtchn (local_evtchn x) w"
  have x2: "x\<lparr>domint := Some i, in_buf := Some ?b1\<rparr> = ?x2" by (subst x(1)) simp
  have e1: "env_step w0 ?w1" using env_step_trans [OF sv(2) env_step_notify] .
  have dec: "hdr_decode (bd_buffer b @ d) = h" using hdr_decode_prefix [OF r(6)] b(1,3) by simp
  have cl: "client_ok ?x2"
    using sv(1) b r(5) dec pay by (simp add: serving_def client_ok_def in_ok_def request_def)
  have link: "link_ok ?x2" "rsp_of ?x2 = rsp_of x0" using r(2,3) x(2) by (simp_all add: link_ok_def rsp_of_def)
  show ?thesis
  proof (cases "bd_used b + length d = bd_total_size b")
    case False
    then have "input_payload cfg b x w = Some (?x2, ?w1)" using r(1) x2 by (simp add: input_payload_def Let_def)
    moreover have "length (in_stream x0) < length (bd_buffer b @ d)"
      using grown b(1) r(7) by (cases d) auto
    ultimately show ?thesis
      using sv(1) e1 env_step_sv [OF e1] link cl b(1,2,4,5) r(4,5) False
      by (simp add: input_result_def serving_def in_stream_def req_of_def)
  next
    case True
    then have msg: "bd_buffer b @ d = ?m"
      using r(6) b(1,2) by (metis length_append prefix_def append_Nil2 append_eq_append_conv)
    have sv1: "sv_ok ?w1" using sv(1) env_step_sv [OF e1] by (simp add: serving_def)
    have "root_xenstore ?w1 = root_xenstore w0" using e1 by (auto simp: env_step_def)
    then have req: "request_ok ?x2 ty payload ?w1"
      using sv(1) request_ok_same [of w0 ?w1 ?x2 x0] sv1 by (simp add: serving_def)
    obtain hdl :: "xen_cfg \<Rightarrow> xenstore \<Rightarrow> u32 \<Rightarrow> char list \<Rightarrow> 'a xs_server_scheme \<Rightarrow> 'a served"
      where "message_handle ty = Some hdl" using sv(1) by (auto simp: serving_def)
    then obtain x' w' where p: "process_message cfg ?x2 ?w1 = Some (x', w')" "sv_ok w'"
        "answered ?x2 (hdr_req_id h) ty x'"
      using process_message_answers [of ?w1 ?x2 ?b1 h ty hdl cfg] sv(1) sv1 dec req msg
      by (auto simp: serving_def request_def)
    have "input_payload cfg b x w = Some (x', w')" using True r(1) x2 p(1) by (simp add: input_payload_def Let_def)
    moreover have d: "domint x' = Some i" "in_buf x' = None" using p(3) by (simp_all add: answered_def)
    moreover have "answered (x0\<lparr>domint := domint x'\<rparr>) (hdr_req_id h) ty x'"
      by (rule answered_from [OF p(3)]) (simp_all add: d)
    moreover have "client_ok x'" using answered_client [OF cl _ p(3)] sv(1) by (simp add: serving_def)
    moreover have "link_ok x'" "rsp_of x' = rsp_of x0" "req_of x' = req_contents i"
      using link d by (simp_all add: link_ok_def rsp_of_def req_of_def)
    ultimately show ?thesis using p(2) msg r(4) b(5) by (simp add: input_result_def)
  qed
qed

lemma input_header_ok:
  fixes w w0 :: "'a xs_server_scheme"
  assumes sv: "serving h payload ty x0 w0" "env_step w0 w"
    and x: "x = x0\<lparr>in_buf := Some b\<rparr>" "in_stream x0 = bd_buffer b" "req_of x0 \<noteq> []"
    and b: "length (bd_buffer b) = bd_used b" "bd_total_size b = 16" "bd_used b < 16"
  shows "input_result h payload ty x0 w0 (input_header cfg b x w)"
proof -
  let ?m = "request h payload" and ?n = "16 - bd_used b"
  have pay: "unat (hdr_len h) = length payload" "length payload \<le> XENSTORE_PAYLOAD_MAX"
    using sv(1) by (auto simp: serving_def arriving_def)
  have rx: "req_of x = req_of x0" "rsp_of x = rsp_of x0" "link_ok x"
    using sv(1) x(1) by (simp_all add: req_of_def rsp_of_def serving_def link_ok_def)
  have cmp: "prefix (bd_buffer b @ req_of x) ?m \<or> prefix ?m (bd_buffer b @ req_of x)"
    using sv(1) x(2) rx(1) by (simp add: serving_def arriving_def)
  obtain d i where r: "ring_read x ?n w = Some (Inr d, x\<lparr>domint := Some i\<rparr>, notify_evtchn (local_evtchn x) w)"
    "link_ok (x\<lparr>domint := Some i\<rparr>)" "rsp_of (x\<lparr>domint := Some i\<rparr>) = rsp_of x"
    "bd_buffer b @ req_of x = (bd_buffer b @ d) @ req_contents i" "length d \<le> ?n" "prefix (bd_buffer b @ d) ?m"
    "req_of x \<noteq> [] \<Longrightarrow> 0 < ?n \<Longrightarrow> d \<noteq> []"
    using read_more [OF rx(3) _ cmp, of ?n w] b by (auto simp: request_def)
  have ne: "d \<noteq> []" using r(7) x(3) rx(1) b(3) by simp
  let ?b1 = "b\<lparr>bd_used := bd_used b + length d, bd_buffer := bd_buffer b @ d\<rparr>"
  let ?x2 = "x0\<lparr>in_buf := Some ?b1, domint := Some i\<rparr>" and ?w1 = "notify_evtchn (local_evtchn x) w"
  have x2: "x\<lparr>domint := Some i, in_buf := Some ?b1\<rparr> = ?x2" by (simp add: x(1))
  have e1: "env_step w0 ?w1" using env_step_trans [OF sv(2) env_step_notify] .
  have link: "link_ok ?x2" "rsp_of ?x2 = rsp_of x0" using r(2,3) rx(2) by (simp_all add: link_ok_def rsp_of_def)
  show ?thesis
  proof (cases "bd_used b + length d = 16")
    case False
    then have "input_header cfg b x w = Some (?x2, ?w1)" using r(1) x2 by (simp add: input_header_def Let_def)
    moreover have "client_ok ?x2" using sv(1) b r(5) False by (simp add: serving_def client_ok_def in_ok_def)
    moreover have "length (in_stream x0) < length (bd_buffer b @ d)" using ne x(2) by simp
    moreover have "length (bd_buffer b @ d) < length ?m" using False b r(5) by (simp add: request_def)
    ultimately show ?thesis
      using sv(1) e1 env_step_sv [OF e1] link r(4) x(2) rx(1)
      by (simp add: input_result_def serving_def in_stream_def req_of_def)
  next
    case True
    have dec: "hdr_decode (bd_buffer b @ d) = h" using hdr_decode_prefix [OF r(6)] b(1) True by simp
    let ?b2 = "?b1\<lparr>bd_total_size := 16 + length payload\<rparr>"
    let ?x3 = "x0\<lparr>in_buf := Some ?b2, domint := Some i\<rparr>"
    have x3: "x\<lparr>domint := Some i, in_buf := Some ?b2\<rparr> = ?x3" by (simp add: x(1))
    have "mallocs ?w1 = []" using sv(1) env_step_sv [OF e1] by (simp add: serving_def sv_ok_def)
    then have "input_header cfg b x w = input_payload cfg ?b2 ?x3 ?w1"
      using True r(1) x3 dec pay b(2) by (simp add: input_header_def Let_def)
    moreover have "input_result h payload ty x0 w0 (input_payload cfg ?b2 ?x3 ?w1)"
    proof (rule input_payload_ok [OF sv(1) e1])
      show "link_ok ?x3" "rsp_of ?x3 = rsp_of x0" using link by (simp_all add: link_ok_def rsp_of_def)
      show "in_stream x0 @ req_of x0 = bd_buffer ?b2 @ req_of ?x3"
        using r(4) x(2) rx(1) by (simp add: req_of_def)
      show "length (in_stream x0) < bd_used ?b2 \<or>
        length (in_stream x0) \<le> bd_used ?b2 \<and> bd_used ?b2 < bd_total_size ?b2 \<and> req_of ?x3 \<noteq> []"
        using x(2) b ne by simp
    qed (use b True in \<open>simp_all add: request_def\<close>)
    ultimately show ?thesis by simp
  qed
qed

lemma handle_input_ok:
  fixes w :: "'a xs_server_scheme"
  assumes sv: "serving h payload ty x w" and ne: "req_of x \<noteq> []"
  shows "input_result h payload ty x w (handle_input cfg x w)"
proof (cases "in_buf x")
  case None
  let ?b = "\<lparr>bd_used = 0, bd_total_size = 16, bd_buffer = []\<rparr>"
  have "mallocs w = []" using sv by (simp add: serving_def sv_ok_def)
  moreover have "input_result h payload ty x w (input_header cfg ?b (x\<lparr>in_buf := Some ?b\<rparr>) w)"
    by (rule input_header_ok [OF sv env_step_refl refl _ ne]) (simp_all add: None in_stream_def)
  ultimately show ?thesis using None by (simp add: handle_input_def Let_def)
next
  case (Some b)
  have ok: "in_ok b" and arr: "arriving h payload x" and link: "link_ok x" using sv Some by (simp_all add: serving_def client_ok_def)
  have st: "in_stream x = bd_buffer b" using Some by (simp add: in_stream_def)
  have x: "x = x\<lparr>in_buf := Some b\<rparr>" using Some by simp
  show ?thesis
  proof (cases "bd_used b < 16")
    case True
    have "input_result h payload ty x w (input_header cfg b x w)"
      by (rule input_header_ok [OF sv env_step_refl x st ne]) (use ok True in \<open>simp_all add: in_ok_def\<close>)
    then show ?thesis using True Some by (simp add: handle_input_def)
  next
    case False
    have "prefix (bd_buffer b) (request h payload)"
      using arr st prefix_upto [of "in_stream x @ req_of x" "request h payload" "bd_buffer b"]
      by (simp add: arriving_def)
    then have "hdr_decode (bd_buffer b) = h" using hdr_decode_prefix ok False by (simp add: in_ok_def)
    then have tot: "bd_total_size b = length (request h payload)"
      using ok False arr by (simp add: in_ok_def arriving_def request_def)
    have "bd_used b < bd_total_size b" using arr st ok tot by (simp add: arriving_def in_ok_def)
    then have "input_result h payload ty x w (input_payload cfg b x w)"
      using ok False tot st ne Some
      by (intro input_payload_ok [OF sv env_step_refl link]) (simp_all add: in_ok_def)
    then show ?thesis using False Some by (simp add: handle_input_def)
  qed
qed

section \<open>A round of the event thread\<close>

lemma can_read_iff: "link_ok x \<Longrightarrow> can_read x = Some (req_of x \<noteq> [])"
proof -
  assume "link_ok x"
  then obtain i where i: "domint x = Some i" by (auto simp: link_ok_def split: option.splits)
  have "length (req_contents i) = unat (req_prod i - req_cons i)"
    by (simp add: req_contents_def length_ring_contents)
  then have "req_contents i = [] \<longleftrightarrow> req_prod i = req_cons i" by (simp add: unat_eq_0 flip: length_0_conv)
  then show ?thesis using i by (simp add: can_read_def req_of_def)
qed

text \<open>What a round sends on its own account: the end of a transaction that is due, and watch events.\<close>

definition acknowledges :: "xenstore \<Rightarrow> buffered_data list \<Rightarrow> bool" where
  "acknowledges x as \<longleftrightarrow>
     (if pending_stop_transaction x then \<exists>junk. as = [reply_buf XS_TRANSACTION_END (stop_transaction_id x) junk [NUL]] else as = [])"

definition announced :: "xenstore \<Rightarrow> buffered_data list \<Rightarrow> bool" where
  "announced x ns \<longleftrightarrow> (\<exists>as evs. ns = as @ evs \<and> acknowledges x as \<and> list_all is_event evs)"

lemma announced_append: "announced x ns \<Longrightarrow> list_all is_event evs \<Longrightarrow> announced x (ns @ evs)"
  unfolding announced_def by (metis append_assoc list_all_append)

lemma announced_events: "announced x ns \<Longrightarrow> \<not> pending_stop_transaction x \<Longrightarrow> list_all is_event ns"
  by (auto simp: announced_def acknowledges_def)

lemma reply_buf_used [simp]: "bd_used (reply_buf t req_id junk data) = 0"
  by (simp add: reply_buf_def)

lemma event_ok: "is_event b \<Longrightarrow> out_ok b \<and> bd_used b = 0"
  unfolding is_event_def message_buf_def using reply_buf_ok length_error_string [of E2BIG] by auto

lemma announced_ok: "announced x ns \<Longrightarrow> list_all out_ok ns \<and> list_all (\<lambda>b. bd_used b = 0) ns"
  using event_ok reply_buf_ok [of "[NUL]" XS_TRANSACTION_END "stop_transaction_id x"]
  by (auto simp: announced_def acknowledges_def list_all_iff split: if_splits)

definition noted :: "xenstore \<Rightarrow> buffered_data list \<Rightarrow> xenstore \<Rightarrow> bool" where
  "noted x ns x' \<longleftrightarrow>
     announced x ns \<and> out_list x' = out_list x @ ns \<and>
     used_out_bufs x' = used_out_bufs x + int (length ns) \<and>
     (used_out_bufs x + (if pending_stop_transaction x then 1 else 0) \<le> 100 \<longrightarrow> used_out_bufs x' \<le> 100) \<and>
     in_buf x' = in_buf x \<and> domint x' = domint x \<and> xs_domid x' = xs_domid x \<and>
     thrd_stop x' = thrd_stop x \<and> \<not> pending_stop_transaction x'"

lemma queued_noted:
  assumes "queued x1 evs x'" "noted x ns x1"
  shows "noted x (ns @ evs) x'"
  using assms announced_append [of x ns evs] by (auto simp: queued_def noted_def)

lemma evt_announce_ok:
  assumes "sv_ok w" "used_out_bufs x \<le> 100"
  shows "\<exists>x' w' ns. evt_announce cfg x w = Some (x', w') \<and> sv_ok w' \<and>
    root_xenstore w' = root_xenstore w \<and> noted x ns x'"
proof -
  let ?first = "if pending_stop_transaction x
             then do { (y, v) \<leftarrow> send_reply cfg x (stop_transaction_id x) XS_TRANSACTION_END [] w;
                       Some (y\<lparr>stop_transaction_id := 0, pending_stop_transaction := False\<rparr>, v) }
             else Some (x, w)"
  have "\<exists>x1 w1 ns. ?first = Some (x1, w1) \<and> sv_ok w1 \<and> root_xenstore w1 = root_xenstore w \<and> noted x ns x1"
  proof (cases "pending_stop_transaction x")
    case True
    obtain junk j where s: "send_reply_sz cfg x (stop_transaction_id x) XS_TRANSACTION_END [NUL] w =
        Some (x\<lparr>out_list := out_list x @ [message_buf XS_TRANSACTION_END (stop_transaction_id x) junk [NUL]], used_out_bufs := used_out_bufs x + 1\<rparr>,
          w\<lparr>stack_junk := j\<rparr>)"
      using send_exact [of w x cfg "stop_transaction_id x" XS_TRANSACTION_END "[NUL]"] assms by (auto simp: sv_ok_def)
    let ?b = "reply_buf XS_TRANSACTION_END (stop_transaction_id x) junk [NUL]"
    let ?y = "x\<lparr>out_list := out_list x @ [?b], used_out_bufs := used_out_bufs x + 1\<rparr>"
    have "message_buf XS_TRANSACTION_END (stop_transaction_id x) junk [NUL] = ?b" by (simp add: message_buf_def)
    then have "?first = Some (?y\<lparr>stop_transaction_id := 0, pending_stop_transaction := False\<rparr>, w\<lparr>stack_junk := j\<rparr>)"
      using True s by (simp add: send_reply_def)
    moreover have "acknowledges x [?b]" using True by (auto simp: acknowledges_def)
    then have "announced x [?b]" unfolding announced_def by (intro exI [of "\<lambda>as. \<exists>evs. [?b] = as @ evs \<and> _ as evs" "[?b]"]) simp
    then have "noted x [?b] (?y\<lparr>stop_transaction_id := 0, pending_stop_transaction := False\<rparr>)"
      using True by (simp add: noted_def)
    moreover have "sv_ok (w\<lparr>stack_junk := j\<rparr>)" "root_xenstore (w\<lparr>stack_junk := j\<rparr>) = root_xenstore w"
      using assms(1) by simp_all
    ultimately show ?thesis by blast
  next
    case False
    then have "noted x [] x" by (simp add: noted_def announced_def acknowledges_def)
    then show ?thesis using assms(1) False by fastforce
  qed
  then obtain x1 w1 ns where f: "?first = Some (x1, w1)" "sv_ok w1" "root_xenstore w1 = root_xenstore w" "noted x ns x1"
    by blast
  show ?thesis
  proof (cases "running_transaction x1 = 0")
    case True
    obtain x' w' evs where p: "process_pending_watch_events cfg x1 w1 = Some (x', w')" "queued x1 evs x'" "sv_ok w'"
        "root_xenstore w' = root_xenstore w1"
      using process_pending_ok [OF f(2)] by blast
    have "evt_announce cfg x w = Some (x', w')"
      unfolding evt_announce_def f(1) using True p(1) by simp
    then show ?thesis using p(3,4) f(3) queued_noted [OF p(2) f(4)] by auto
  next
    case False
    then have "evt_announce cfg x w = Some (x1, w1)" unfolding evt_announce_def f(1) by simp
    then show ?thesis using f by blast
  qed
qed

lemma out_stream_append:
  "out_list x' = out_list x @ bs \<Longrightarrow> list_all (\<lambda>b. bd_used b = 0) bs \<Longrightarrow>
   out_stream x' = out_stream x @ concat (map bd_buffer bs)"
proof -
  have "list_all (\<lambda>b. bd_used b = 0) bs \<Longrightarrow> map (\<lambda>b. drop (bd_used b) (bd_buffer b)) bs = map bd_buffer bs"
    by (induction bs) auto
  then show "out_list x' = out_list x @ bs \<Longrightarrow> list_all (\<lambda>b. bd_used b = 0) bs \<Longrightarrow> ?thesis"
    by (simp add: out_stream_def del: map_eq_conv)
qed

text \<open>The bytes that answer a request.\<close>

definition answer_bytes :: "xsd_sockmsg_type \<Rightarrow> u32 \<Rightarrow> xenstore \<Rightarrow> char list \<Rightarrow> bool" where
  "answer_bytes ty req_id x' bs \<longleftrightarrow>
     (if ty = XS_TRANSACTION_END then bs = [] \<and> pending_stop_transaction x' \<and> stop_transaction_id x' = req_id
      else (\<exists>t junk data. t \<in> {ty, XS_ERROR} \<and> length data \<le> XENSTORE_PAYLOAD_MAX \<and>
              bs = bd_buffer (reply_buf t req_id junk data)))"

lemma answered_bytes:
  assumes "answered x req_id ty x'"
  shows "\<exists>bs. answer_bytes ty req_id x' bs \<and> out_stream x' = out_stream x @ bs"
proof (cases "ty = XS_TRANSACTION_END")
  case True
  then show ?thesis using assms by (simp add: answered_def answer_bytes_def out_stream_def)
next
  case False
  then obtain t junk data where d: "t \<in> {ty, XS_ERROR}" "length data \<le> XENSTORE_PAYLOAD_MAX"
      "out_list x' = out_list x @ [reply_buf t req_id junk data]"
    using assms unfolding answered_def by metis
  have "out_stream x' = out_stream x @ bd_buffer (reply_buf t req_id junk data)"
    using out_stream_append [OF d(3)] by (simp add: reply_buf_def)
  moreover have "answer_bytes ty req_id x' (bd_buffer (reply_buf t req_id junk data))"
    using False d(1,2) unfolding answer_bytes_def by auto
  ultimately show ?thesis by blast
qed

lemma answer_bytes_moved: "moved x x' \<Longrightarrow> answer_bytes ty req_id x' bs = answer_bytes ty req_id x bs"
  by (simp add: moved_def answer_bytes_def)

text \<open>The result of one round while a request arrives.\<close>

definition round_result ::
  "xsd_sockmsg \<Rightarrow> char list \<Rightarrow> xsd_sockmsg_type \<Rightarrow> xenstore \<Rightarrow> xenstore \<Rightarrow> bool" where
  "round_result h payload ty x x' \<longleftrightarrow>
     link_ok x' \<and> client_ok x' \<and> (out_list x' = [] \<or> length (rsp_of x') = 1024) \<and>
     thrd_stop x' = thrd_stop x \<and> xs_domid x' = xs_domid x \<and>
     (\<exists>ns bs. announced x ns \<and>
        rsp_of x' @ out_stream x' = rsp_of x @ out_stream x @ concat (map bd_buffer ns) @ bs \<and>
        (if in_buf x' = None
         then in_stream x @ req_of x = request h payload @ req_of x' \<and> answer_bytes ty (hdr_req_id h) x' bs \<and>
              (ty = XS_TRANSACTION_END \<longrightarrow> used_out_bufs x' \<le> 100)
         else bs = [] \<and> in_stream x' @ req_of x' = in_stream x @ req_of x \<and>
              length (in_stream x) < length (in_stream x') \<and>
              length (in_stream x') < length (request h payload) \<and>
              \<not> pending_stop_transaction x' \<and> used_out_bufs x' \<le> 100))"

lemma noted_serving:
  fixes w w1 :: "'a xs_server_scheme"
  assumes sv: "serving h payload ty x w" and n: "noted x ns x1" and w: "sv_ok w1" "root_xenstore w1 = root_xenstore w"
    and room: "used_out_bufs x + (if pending_stop_transaction x then 1 else 0) \<le> 100"
  shows "serving h payload ty x1 w1" "in_stream x1 = in_stream x" "req_of x1 = req_of x" "rsp_of x1 = rsp_of x"
    "out_stream x1 = out_stream x @ concat (map bd_buffer ns)"
proof -
  have ns: "list_all out_ok ns" "list_all (\<lambda>b. bd_used b = 0) ns"
    using n announced_ok [of x ns] by (simp_all add: noted_def)
  show st: "in_stream x1 = in_stream x" "req_of x1 = req_of x" "rsp_of x1 = rsp_of x"
    using n by (simp_all add: noted_def in_stream_def req_of_def rsp_of_def)
  show "out_stream x1 = out_stream x @ concat (map bd_buffer ns)"
    using n ns(2) by (intro out_stream_append) (simp_all add: noted_def)
  have "client_ok x1" using sv n ns(1) room by (auto simp: serving_def client_ok_def noted_def)
  moreover have "request_ok x1 ty payload w1"
    using sv n w request_ok_same [of w w1 x1 x] by (simp add: serving_def noted_def)
  ultimately show "serving h payload ty x1 w1"
    using sv n w st room by (simp add: serving_def noted_def link_ok_def arriving_def)
qed

lemma evt_round_ok:
  fixes w :: "'a xs_server_scheme"
  assumes sv: "serving h payload ty x w" "req_of x \<noteq> []"
    and room: "used_out_bufs x + (if pending_stop_transaction x then 1 else 0) \<le> 100"
  shows "\<exists>x' w'. xenstore_evt_round cfg guest x w = Some (x', w') \<and> sv_ok w' \<and> round_result h payload ty x x' \<and>
    (in_buf x' \<noteq> None \<longrightarrow> root_xenstore w' = root_xenstore w)"
proof -
  have "sv_ok w" "used_out_bufs x \<le> 100" using sv(1) by (simp_all add: serving_def)
  from evt_announce_ok [OF this] obtain x1 w1 ns where
    a: "evt_announce cfg x w = Some (x1, w1)" "sv_ok w1" "root_xenstore w1 = root_xenstore w" "noted x ns x1" by blast
  note n = noted_serving [OF sv(1) a(4,2,3) room]
  have cr: "can_read x1 = Some True" using can_read_iff n(1,3) sv(2) by (simp add: serving_def)
  obtain x2 w2 where i: "handle_input cfg x1 w1 = Some (x2, w2)" "sv_ok w2" "link_ok x2" "client_ok x2" "rsp_of x2 = rsp_of x1"
    "if in_buf x2 = None
     then in_stream x1 @ req_of x1 = request h payload @ req_of x2 \<and>
          answered (x1\<lparr>domint := domint x2\<rparr>) (hdr_req_id h) ty x2
     else x2 = x1\<lparr>in_buf := in_buf x2, domint := domint x2\<rparr> \<and> env_step w1 w2 \<and>
          in_stream x2 @ req_of x2 = in_stream x1 @ req_of x1 \<and>
          length (in_stream x1) < length (in_stream x2) \<and> length (in_stream x2) < length (request h payload)"
    using handle_input_ok [OF n(1), of cfg] sv(2) n(3) unfolding input_result_def by auto
  have "list_all out_ok (out_list x2)" using i(4) by (simp add: client_ok_def)
  then have "length (out_stream x2) \<le> out_bytes x2" by (simp add: out_bytes_stream)
  from output_loop_ok [OF i(3,4) this] obtain x3 w3 where
    o: "output_loop (out_bytes x2) cfg x2 w2 = Some (x3, w3)" "env_step w2 w3" "client_ok x3" "moved x2 x3"
      "out_list x3 = [] \<or> length (rsp_of x3) = 1024" by blast
  have round: "xenstore_evt_round cfg guest x w = Some (x3, w3)"
    using a(1) cr i(1) o(1) by (simp add: xenstore_evt_round_def evt_wait_def evt_serve_def)
  have m: "link_ok x3" "rsp_of x3 @ out_stream x3 = rsp_of x2 @ out_stream x2" "req_of x3 = req_of x2"
    "in_buf x3 = in_buf x2" "in_stream x3 = in_stream x2" "xs_domid x3 = xs_domid x2" "thrd_stop x3 = thrd_stop x2"
    "pending_stop_transaction x3 = pending_stop_transaction x2"
    using o(4) by (simp_all add: moved_def in_stream_def)
  have ns: "announced x ns" "thrd_stop x1 = thrd_stop x" "xs_domid x1 = xs_domid x" "used_out_bufs x1 \<le> 100"
    "\<not> pending_stop_transaction x1"
    using a(4) room by (simp_all add: noted_def)
  have sv3: "sv_ok w3" using env_step_sv [OF o(2)] i(2) by simp
  show ?thesis
  proof (cases "in_buf x2 = None")
    case True
    then have ans: "answered (x1\<lparr>domint := domint x2\<rparr>) (hdr_req_id h) ty x2"
      and st: "in_stream x1 @ req_of x1 = request h payload @ req_of x2" using i(6) by simp_all
    obtain bs where bs: "answer_bytes ty (hdr_req_id h) x2 bs" "out_stream x2 = out_stream (x1\<lparr>domint := domint x2\<rparr>) @ bs"
      using answered_bytes [OF ans] by blast
    have "out_stream x2 = out_stream x1 @ bs" using bs(2) by (simp add: out_stream_def)
    then have "rsp_of x3 @ out_stream x3 = rsp_of x @ out_stream x @ concat (map bd_buffer ns) @ bs"
      using m(2) i(5) n(4,5) by simp
    moreover have "answer_bytes ty (hdr_req_id h) x3 bs" using bs(1) answer_bytes_moved [OF o(4)] by simp
    moreover have "xs_domid x2 = xs_domid x1" "thrd_stop x2 = thrd_stop x1" using ans by (simp_all add: answered_def)
    moreover have "used_out_bufs x3 \<le> 100" if "ty = XS_TRANSACTION_END"
      using that ans ns(4) i(4) o(3,4) by (simp add: answered_def client_ok_def moved_def)
    ultimately have "round_result h payload ty x x3"
      unfolding round_result_def using m o(3,5) ns True st n(2,3) by auto
    then show ?thesis using round sv3 m(4) True by auto
  next
    case False
    then have x2: "x2 = x1\<lparr>in_buf := in_buf x2, domint := domint x2\<rparr>" and e: "env_step w1 w2"
      and st: "in_stream x2 @ req_of x2 = in_stream x1 @ req_of x1" "length (in_stream x1) < length (in_stream x2)"
        "length (in_stream x2) < length (request h payload)" using i(6) by simp_all
    have same: "out_list x2 = out_list x1" "used_out_bufs x2 = used_out_bufs x1" "thrd_stop x2 = thrd_stop x1"
        "xs_domid x2 = xs_domid x1" "pending_stop_transaction x2 = pending_stop_transaction x1"
      by (subst x2, simp)+
    have "rsp_of x3 @ out_stream x3 = rsp_of x @ out_stream x @ concat (map bd_buffer ns) @ []"
      using m(2) i(5) n(4,5) same(1) by (simp add: out_stream_def)
    moreover have "used_out_bufs x3 \<le> 100"
      using o(3,4) i(4) same(2) ns(4) by (simp add: client_ok_def moved_def)
    ultimately have "round_result h payload ty x x3"
      unfolding round_result_def using m o(3,5) ns False st n(2,3) same by auto
    moreover have "root_xenstore w3 = root_xenstore w"
      using env_step_trans [OF e o(2)] a(3) by (auto simp: env_step_def)
    ultimately show ?thesis using round sv3 by blast
  qed
qed

text \<open>A request all of whose bytes the guest has written is answered after as many rounds as it
  has bytes, at most.\<close>

definition request_answered ::
  "xsd_sockmsg \<Rightarrow> char list \<Rightarrow> xsd_sockmsg_type \<Rightarrow> xenstore \<Rightarrow> xenstore \<Rightarrow> bool" where
  "request_answered h payload ty x x' \<longleftrightarrow>
     link_ok x' \<and> client_ok x' \<and> in_buf x' = None \<and>
     in_stream x @ req_of x = request h payload @ req_of x' \<and>
     (ty = XS_TRANSACTION_END \<longrightarrow> used_out_bufs x' \<le> 100) \<and>
     (\<exists>ns bs. announced x ns \<and> answer_bytes ty (hdr_req_id h) x' bs \<and>
        rsp_of x' @ out_stream x' = rsp_of x @ out_stream x @ concat (map bd_buffer ns) @ bs)"

lemma evt_thrd_answers:
  fixes w :: "'a xs_server_scheme"
  assumes "serving h payload ty x w" "prefix (request h payload) (in_stream x @ req_of x)"
    "used_out_bufs x + (if pending_stop_transaction x then 1 else 0) \<le> 100" "\<not> thrd_stop x"
    "length (request h payload) - length (in_stream x) \<le> n"
  shows "\<exists>k x' w'. k \<le> n \<and> xenstore_evt_thrd k cfg guest x w = Some (x', w') \<and> sv_ok w' \<and>
    request_answered h payload ty x x'"
  using assms
proof (induction n arbitrary: x w)
  case 0
  then show ?case by (simp add: serving_def arriving_def)
next
  case (Suc n)
  have "length (in_stream x) < length (request h payload)" using Suc.prems(1) by (simp add: serving_def arriving_def)
  with prefix_length_le [OF Suc.prems(2)] have ne: "req_of x \<noteq> []" by auto
  obtain x1 w1 where r: "xenstore_evt_round cfg guest x w = Some (x1, w1)" "sv_ok w1" "round_result h payload ty x x1"
      "in_buf x1 \<noteq> None \<longrightarrow> root_xenstore w1 = root_xenstore w"
    using evt_round_ok [OF Suc.prems(1) ne Suc.prems(3)] by blast
  obtain ns bs where b: "announced x ns"
      "rsp_of x1 @ out_stream x1 = rsp_of x @ out_stream x @ concat (map bd_buffer ns) @ bs"
      "if in_buf x1 = None
       then in_stream x @ req_of x = request h payload @ req_of x1 \<and> answer_bytes ty (hdr_req_id h) x1 bs \<and>
         (ty = XS_TRANSACTION_END \<longrightarrow> used_out_bufs x1 \<le> 100)
       else bs = [] \<and> in_stream x1 @ req_of x1 = in_stream x @ req_of x \<and>
         length (in_stream x) < length (in_stream x1) \<and> length (in_stream x1) < length (request h payload) \<and>
         \<not> pending_stop_transaction x1 \<and> used_out_bufs x1 \<le> 100"
    using r(3) unfolding round_result_def by auto
  have l: "link_ok x1" "client_ok x1" "thrd_stop x1 = thrd_stop x" "xs_domid x1 = xs_domid x"
    using r(3) by (simp_all add: round_result_def)
  show ?case
  proof (cases "in_buf x1 = None")
    case True
    have "request_answered h payload ty x x1" unfolding request_answered_def using True b l(1,2) by auto
    moreover have "xenstore_evt_thrd 1 cfg guest x w = Some (x1, w1)" using r(1) Suc.prems(4) by simp
    ultimately show ?thesis using r(2) by (metis Suc_le_mono One_nat_def le0)
  next
    case False
    then have f: "bs = []" "in_stream x1 @ req_of x1 = in_stream x @ req_of x"
        "length (in_stream x) < length (in_stream x1)" "length (in_stream x1) < length (request h payload)"
        "\<not> pending_stop_transaction x1" "used_out_bufs x1 \<le> 100" using b(3) by simp_all
    have "request_ok x1 ty payload w1"
      using Suc.prems(1) r(2,4) False l(4) request_ok_same [of w w1 x1 x] by (simp add: serving_def)
    then have "serving h payload ty x1 w1"
      using Suc.prems(1,2) r(2) l f by (simp add: serving_def arriving_def)
    moreover have "length (request h payload) - length (in_stream x1) \<le> n" using f(3) Suc.prems(5) by linarith
    ultimately obtain k x' w' where k: "k \<le> n" "xenstore_evt_thrd k cfg guest x1 w1 = Some (x', w')"
        "sv_ok w'" "request_answered h payload ty x1 x'"
      using Suc.IH [of x1 w1] Suc.prems(2,4) f l(3) by auto
    obtain ms cs where m: "announced x1 ms" "answer_bytes ty (hdr_req_id h) x' cs"
      "rsp_of x' @ out_stream x' = rsp_of x1 @ out_stream x1 @ concat (map bd_buffer ms) @ cs"
      using k(4) unfolding request_answered_def by blast
    have "rsp_of x' @ out_stream x' = (rsp_of x1 @ out_stream x1) @ concat (map bd_buffer ms) @ cs"
      using m(3) by simp
    also have "\<dots> = rsp_of x @ out_stream x @ concat (map bd_buffer (ns @ ms)) @ cs"
      unfolding b(2) f(1) by simp
    finally have "request_answered h payload ty x x'"
      using k(4) f(2) m(2) announced_append [OF b(1) announced_events [OF m(1) f(5)]] unfolding request_answered_def by metis
    moreover have "xenstore_evt_thrd (Suc k) cfg guest x w = Some (x', w')" using r(1) Suc.prems(4) k(2) by simp
    ultimately show ?thesis using k(1,3) by (metis Suc_le_mono)
  qed
qed

end
