(* ===== verification/Xs_Server_Props.thy ===== *)
theory Xs_Server_Props
  imports Xs_Server_Loop Xs_Watch_Props
begin

text \<open>
  The properties of the server: a guest that speaks the protocol is answered, its replies reach
  the ring in order, stopping the service of a domain leaves nothing of it, no two threads share
  a stack; and what happens on requests the code does not handle well.
\<close>

section \<open>An example connection\<close>

definition ex_hdr :: xsd_sockmsg where
  "ex_hdr = \<lparr>hdr_type = 2, hdr_req_id = 7, hdr_tx_id = 0, hdr_len = 4\<rparr>"

definition ex_payload :: "char list" where
  "ex_payload = ''/vm'' @ [NUL]"

definition ex_conn_page :: xenstore_domain_interface where
  "ex_conn_page = ex_page\<lparr>req := hdr_encode ex_hdr @ ex_payload @ replicate 1004 NUL, req_cons := 0, req_prod := 20\<rparr>"

definition ex_client :: xenstore where
  "ex_client = \<lparr>out_list = [], in_buf = None, used_out_bufs = 0, domint = Some ex_conn_page, domint_addr = 0x1000,
     xs_domid = 4, thrd_stop = False, remote_evtchn = 1, local_evtchn = 2, xs_stack_slot = 1, transaction = 0,
     running_transaction = 0, stop_transaction_id = 0, pending_stop_transaction = False\<rparr>"

definition ex_cfg :: xen_cfg where
  "ex_cfg = \<lparr>cfg_chunk = 16, cfg_regions = True, cfg_virt_to_gfn = (\<lambda>a. drop_bit 12 a), cfg_domu_max = 8\<rparr>"

definition ex_server :: xs_server where
  "ex_server = xs_world.extend ex_watched \<lparr>used_threads = 3, stack_junk = []\<rparr>"

lemma ex_server_fields:
  "root_xenstore ex_server = root_xenstore ex_watched" "watch_heap ex_server = watch_heap ex_watched"
  "wnext ex_server = wnext ex_watched" "watch_entry_list ex_server = watch_entry_list ex_watched"
  "pending_watch_event_list ex_server = pending_watch_event_list ex_watched" "mallocs ex_server = mallocs ex_watched"
  "used_threads ex_server = 3"
  by (simp_all add: ex_server_def xs_world.defs)

lemma ex_server_ok: "sv_ok ex_server"
proof -
  have "mallocs ex_watched = []" by (simp add: ex_watched_def ex_world_def xs_store.defs ex_written_def ex_store_def)
  moreover have "world_ok ex_server"
    using ex_watched_ok unfolding world_ok_def watch_inv_def ex_server_fields by simp
  ultimately show ?thesis by (simp add: sv_ok_def ex_server_fields)
qed

lemma ex_client_link: "link_ok ex_client" "client_ok ex_client" "req_of ex_client = request ex_hdr ex_payload"
proof -
  have len: "length (request ex_hdr ex_payload) = 20" by (simp add: request_def ex_payload_def)
  have b: "req ex_conn_page = request ex_hdr ex_payload @ replicate 1004 NUL"
    by (simp add: ex_conn_page_def request_def)
  show "link_ok ex_client" "client_ok ex_client"
    using ex_page_valid(2)
    by (simp_all add: ex_client_def link_ok_def client_ok_def req_valid_def rsp_valid_def ring_ok_def
        xenstore_check_indexes_def ex_conn_page_def ex_payload_def)
  have "ring_slice (req ex_conn_page) 0 20 = take 20 (drop (0 mod length (req ex_conn_page)) (req ex_conn_page))"
    by (rule ring_slice_contiguous) (simp add: b len)
  then show "req_of ex_client = request ex_hdr ex_payload"
    using len by (simp add: req_of_def ex_client_def req_contents_def ring_contents_def b)
      (simp add: ex_conn_page_def)
qed

lemma ex_serving: "serving ex_hdr ex_payload XS_READ ex_client ex_server"
proof -
  have "request_ok ex_client XS_READ ex_payload ex_server"
    by (simp add: request_ok_def ex_payload_def cstr_def)
  moreover have "arriving ex_hdr ex_payload ex_client"
    using ex_client_link(3) by (simp add: arriving_def in_stream_def) (simp add: ex_client_def ex_hdr_def ex_payload_def request_def)
  ultimately show ?thesis
    using ex_server_ok ex_client_link by (simp add: serving_def) (simp add: ex_client_def ex_hdr_def)
qed

section \<open>Requests and replies\<close>

text \<open>C1. A guest that speaks the protocol is served.  Suppose all bytes of a well-formed request
  have been written to the request ring or read from it, memory is available, and the queue of
  replies is below its limit.  Then the event thread needs at most as many rounds as the request
  has bytes until it has taken exactly the request from the ring; what it sends or queues until
  then, behind everything before, is the acknowledgement of an earlier end of a transaction if one
  was due, watch events, and last exactly one answer to the request, with its id and of its type or
  an error.  The end of a transaction itself is answered by the next round: it is the first thing
  that round queues.  The store, the watches and both rings stay in order.\<close>

theorem request_eventually_answered:
  assumes "serving h payload ty x w" "prefix (request h payload) (in_stream x @ req_of x)"
    "used_out_bufs x + (if pending_stop_transaction x then 1 else 0) \<le> 100" "\<not> thrd_stop x"
  shows "\<exists>k x' w'. k \<le> length (request h payload) \<and>
    xenstore_evt_thrd k cfg guest x w = Some (x', w') \<and> sv_ok w' \<and> request_answered h payload ty x x' \<and>
    (ty = XS_TRANSACTION_END \<longrightarrow>
       (\<exists>x2 w2 junk evs. evt_announce cfg x' w' = Some (x2, w2) \<and> list_all is_event evs \<and> \<not> pending_stop_transaction x2 \<and>
          out_list x2 = out_list x' @ reply_buf XS_TRANSACTION_END (hdr_req_id h) junk [NUL] # evs))"
proof -
  obtain k x' w' where k: "k \<le> length (request h payload)" "xenstore_evt_thrd k cfg guest x w = Some (x', w')" "sv_ok w'"
      "request_answered h payload ty x x'"
    using evt_thrd_answers [OF assms, of "length (request h payload)" cfg guest] by auto
  have "\<exists>x2 w2 junk evs. evt_announce cfg x' w' = Some (x2, w2) \<and> list_all is_event evs \<and> \<not> pending_stop_transaction x2 \<and>
      out_list x2 = out_list x' @ reply_buf XS_TRANSACTION_END (hdr_req_id h) junk [NUL] # evs" if "ty = XS_TRANSACTION_END"
  proof -
    have p: "pending_stop_transaction x'" "stop_transaction_id x' = hdr_req_id h" "used_out_bufs x' \<le> 100"
      using k(4) that by (auto simp: request_answered_def answer_bytes_def)
    from evt_announce_ok [OF k(3) p(3), of cfg] show ?thesis
      using p(1,2) by (fastforce simp: noted_def announced_def acknowledges_def)
  qed
  then show ?thesis using k by blast
qed

theorem request_eventually_answered_witness:
  "\<exists>k x' w'. xenstore_evt_thrd k ex_cfg (\<lambda>i. i) ex_client ex_server = Some (x', w') \<and> sv_ok w' \<and>
     request_answered ex_hdr ex_payload XS_READ ex_client x'"
  using request_eventually_answered [OF ex_serving, of ex_cfg "\<lambda>i. i"] ex_client_link(3)
  by (auto simp: in_stream_def) (auto simp: ex_client_def)

text \<open>C12. With memory available and the queue of replies below its limit, processing one well-formed
  request of a type that has a handler has no undefined behaviour, keeps the tree well formed and the
  watches in order, frees the input buffer and queues exactly one reply, which carries the id of the
  request; for the end of a transaction it queues nothing and records that the acknowledgement, which
  the event thread sends in its next round, is due under this id.\<close>

theorem request_answered_once:
  fixes w :: "'a xs_server_scheme"
    and h :: "xen_cfg \<Rightarrow> xenstore \<Rightarrow> u32 \<Rightarrow> char list \<Rightarrow> 'a xs_server_scheme \<Rightarrow> 'a served"
  assumes "sv_ok w" "used_out_bufs x \<le> 100" "unat (xs_domid x) < 0x8000" "in_buf x = Some b"
    "hdr_type (hdr_decode (bd_buffer b)) = msg_code ty" "request_ok x ty (drop 16 (bd_buffer b)) w"
    "handler_for (msg_code ty) = Some h"
  shows "\<exists>x' w'. process_message cfg x w = Some (x', w') \<and> sv_ok w' \<and>
    answered x (hdr_req_id (hdr_decode (bd_buffer b))) ty x'"
  using process_message_answers [OF assms(1-4) refl assms(5) _ assms(6)] assms(7)
  by (simp add: handler_for_def msg_code_find)

definition ex_read_buf :: buffered_data where
  "ex_read_buf = \<lparr>bd_used = 20, bd_total_size = 20, bd_buffer = request ex_hdr ex_payload\<rparr>"

lemma ex_read_decode: "hdr_decode (bd_buffer ex_read_buf) = ex_hdr" "drop 16 (bd_buffer ex_read_buf) = ex_payload"
  by (simp_all add: ex_read_buf_def request_def hdr_decode_encode)

theorem request_answered_once_witness:
  "\<exists>x' w'. process_message ex_cfg (ex_client\<lparr>in_buf := Some ex_read_buf\<rparr>) ex_server = Some (x', w') \<and>
     answered (ex_client\<lparr>in_buf := Some ex_read_buf\<rparr>) 7 XS_READ x'"
proof -
  let ?x = "ex_client\<lparr>in_buf := Some ex_read_buf\<rparr>"
  have "request_ok ?x XS_READ ex_payload ex_server" by (simp add: request_ok_def ex_payload_def cstr_def)
  moreover have "handler_for (msg_code XS_READ) = Some handle_read" by (simp only: handler_for_def msg_code_find) simp
  ultimately show ?thesis
    using request_answered_once [of ex_server ?x ex_read_buf XS_READ handle_read ex_cfg] ex_server_ok ex_read_decode
    by (auto simp: ex_client_def ex_hdr_def)
qed

text \<open>C16. The loop that writes replies ends after at most as many rounds as there are bytes to send,
  with nothing left or the ring full, and it neither loses, reorders nor invents a byte.\<close>

theorem replies_reach_ring:
  assumes "link_ok x" "client_ok x"
  shows "\<exists>x' w'. output_loop (out_bytes x) cfg x w = Some (x', w') \<and>
    rsp_of x' @ out_stream x' = rsp_of x @ out_stream x \<and> link_ok x' \<and> client_ok x' \<and>
    (out_list x' = [] \<or> length (rsp_of x') = 1024)"
proof -
  have "length (out_stream x) \<le> out_bytes x" using assms(2) by (simp add: out_bytes_stream client_ok_def)
  from output_loop_ok [OF assms this] show ?thesis unfolding moved_def by blast
qed

definition ex_sending :: xenstore where
  "ex_sending = ex_client\<lparr>out_list := [reply_buf XS_READ 7 0 ''guest''], used_out_bufs := 1\<rparr>"

theorem replies_reach_ring_witness:
  "\<exists>x' w'. output_loop (out_bytes ex_sending) ex_cfg ex_sending ex_server = Some (x', w') \<and>
     rsp_of x' @ out_stream x' = bd_buffer (reply_buf XS_READ 7 0 ''guest'')"
proof -
  have "link_ok ex_sending" "client_ok ex_sending"
    using ex_client_link(1,2) by (simp_all add: ex_sending_def link_ok_def client_ok_def out_ok_def reply_buf_def)
  moreover have "rsp_of ex_sending = []"
    by (simp add: rsp_of_def ex_sending_def ex_client_def rsp_contents_def ring_contents_def ex_conn_page_def ex_page_def)
  moreover have "out_stream ex_sending = bd_buffer (reply_buf XS_READ 7 0 ''guest'')"
    by (simp add: out_stream_def ex_sending_def reply_buf_def)
  ultimately show ?thesis using replies_reach_ring [of ex_sending ex_cfg ex_server] by auto
qed

section \<open>Stopping and the stacks\<close>

text \<open>The clean-up touches the watches only.\<close>

definition watches_only :: "'a xs_world_scheme \<Rightarrow> 'a xs_world_scheme \<Rightarrow> bool" where
  "watches_only w w' \<longleftrightarrow>
     (\<exists>h l p. w' = w\<lparr>watch_heap := h, watch_entry_list := l, pending_watch_event_list := p\<rparr>)"

lemma watches_onlyI:
  "w' = w\<lparr>watch_heap := h, watch_entry_list := l, pending_watch_event_list := p\<rparr> \<Longrightarrow> watches_only w w'"
  unfolding watches_only_def by blast

lemma watches_only_refl [simp]: "watches_only w w"
  by (rule watches_onlyI [where h = "watch_heap w" and l = "watch_entry_list w" and p = "pending_watch_event_list w"]) simp

lemma watches_only_trans: "watches_only w w' \<Longrightarrow> watches_only w' w'' \<Longrightarrow> watches_only w w''"
proof -
  assume "watches_only w w'" "watches_only w' w''"
  then obtain h l p where "w'' = w\<lparr>watch_heap := h, watch_entry_list := l, pending_watch_event_list := p\<rparr>"
    by (auto simp: watches_only_def)
  then show ?thesis by (rule watches_onlyI)
qed

lemma put_watches_only: "watch_entry_put a w = Some w' \<Longrightarrow> watches_only w w'"
proof -
  assume "watch_entry_put a w = Some w'"
  then obtain h where "w' = w\<lparr>watch_heap := h\<rparr>"
    by (auto simp: watch_entry_put_def destroy_watch_entry_def split: bind_splits if_splits option.splits)
  then show ?thesis
    by (intro watches_onlyI [where h = h and l = "watch_entry_list w" and p = "pending_watch_event_list w"]) simp
qed

lemma remove_watches_only: "remove_watch_entry a w = Some w' \<Longrightarrow> watches_only w w'"
proof -
  assume r: "remove_watch_entry a w = Some w'"
  have "watches_only w (w\<lparr>watch_entry_list := remove1 a (watch_entry_list w)\<rparr>)"
    by (rule watches_onlyI [where h = "watch_heap w" and l = "remove1 a (watch_entry_list w)"
          and p = "pending_watch_event_list w"]) simp
  then show ?thesis using put_watches_only r watches_only_trans unfolding remove_watch_entry_def by blast
qed

lemma cleanup_list_only: "cleanup_list as d w = Some w' \<Longrightarrow> watches_only w w'"
proof (induction as arbitrary: w)
  case (Cons a as)
  obtain e where e: "watch_heap w a = Some e" using Cons.prems by (cases "watch_heap w a") auto
  show ?case
  proof (cases "we_domain e = Some d")
    case True
    then obtain w1 where "remove_watch_entry a w = Some w1" "cleanup_list as d w1 = Some w'"
      using Cons.prems e by (cases "remove_watch_entry a w") auto
    then show ?thesis using Cons.IH remove_watches_only watches_only_trans by blast
  next
    case False
    then show ?thesis using Cons e by simp
  qed
qed simp

lemma cleanup_pending_only: "cleanup_pending kept ps d w = Some w' \<Longrightarrow> watches_only w w'"
proof (induction ps arbitrary: kept w)
  case Nil
  then show ?case
    by (intro watches_onlyI [where h = "watch_heap w" and l = "watch_entry_list w" and p = kept]) auto
next
  case (Cons p ps)
  obtain e where e: "watch_heap w (pe_watch p) = Some e" using Cons.prems by (cases "watch_heap w (pe_watch p)") auto
  show ?case
  proof (cases "we_domain e = Some d")
    case True
    then obtain w1 where "watch_entry_put (pe_watch p) w = Some w1" "cleanup_pending kept ps d w1 = Some w'"
      using Cons.prems e by (cases "watch_entry_put (pe_watch p) w") auto
    then show ?thesis using Cons.IH put_watches_only watches_only_trans by blast
  next
    case False
    then show ?thesis using Cons e by simp
  qed
qed

lemma cleanup_only: "cleanup_domain_watches d w = Some w' \<Longrightarrow> watches_only w w'"
proof -
  assume "cleanup_domain_watches d w = Some w'"
  then obtain w1 where c: "cleanup_list (watch_entry_list w) d w = Some w1"
      "cleanup_pending [] (pending_watch_event_list w1) d w1 = Some w'"
    by (auto simp: cleanup_domain_watches_def split: bind_splits)
  show ?thesis using watches_only_trans [OF cleanup_list_only [OF c(1)] cleanup_pending_only [OF c(2)]] .
qed

lemma world_ok_env_only:
  fixes w w' :: "'a xs_server_scheme"
  assumes "env_only w w'"
  shows "world_ok w' = world_ok w" "root_xenstore w' = root_xenstore w" "watch_heap w' = watch_heap w"
    "used_threads w' = used_threads w"
  using assms by (auto simp: env_only_def world_ok_def watch_inv_def)

text \<open>C15. Stopping the service of a domain, from any thread but its own, always succeeds in
  forgetting the domain: none of its watches and queued events is left, the tree has lost
  exactly the entries it owns and its permissions elsewhere, its stack is free again, and its
  buffers are empty; everything else is in order.\<close>

theorem stop_forgets_domain:
  fixes w :: "'a xs_server_scheme"
  assumes "world_ok w" "xs_stack_slot x \<in> slots (used_threads w)" "xs_stack_slot x < cfg_domu_max cfg"
  shows "\<exists>rc x' w'. stop_domain_stored cfg False x w = Some (rc, x', w') \<and> world_ok w' \<and>
    (\<forall>a e. watch_heap w' a = Some e \<longrightarrow> we_domain e \<noteq> Some (xs_domid x)) \<and>
    abs_tree (root_xenstore w') = abs_drop (xs_domid x) (abs_tree (root_xenstore w)) \<and>
    slots (used_threads w') = slots (used_threads w) - {xs_stack_slot x} \<and>
    out_list x' = [] \<and> in_buf x' = None \<and> domint x' = None \<and> thrd_stop x'"
proof -
  let ?d = "xs_domid x"
  define w1 where "w1 = w\<lparr>xb_sem := (xb_sem w)(?d := True)\<rparr>"
  have ok1: "world_ok w1" using assms(1) by (simp add: w1_def)
  obtain w2 where w2: "cleanup_domain_watches ?d w1 = Some w2" "world_ok w2" "root_xenstore w2 = root_xenstore w1"
      "\<forall>a e. watch_heap w2 a = Some e \<longrightarrow> we_domain e \<noteq> Some ?d"
    using cleanup_inv [OF ok1, of ?d] by blast
  have u2: "used_threads w2 = used_threads w" using cleanup_only [OF w2(1)] by (auto simp: watches_only_def w1_def)
  obtain u where u: "free_stack_idx (cfg_domu_max cfg) (xs_stack_slot x) w2 = Some (w2\<lparr>used_threads := u\<rparr>)"
      "slots u = slots (used_threads w) - {xs_stack_slot x}"
    using free_stack_ok [of "xs_stack_slot x" w2 "cfg_domu_max cfg"] assms(2,3) u2 by auto
  let ?w3 = "w2\<lparr>used_threads := u\<rparr>"
  define w4 where "w4 = snd (ext_call ''unbind_event_channel'' [uint (local_evtchn x)] ?w3)"
  obtain rc1 w5 where c5: "ext_call ''evtchn_close'' [uint (local_evtchn x)] w4 = (rc1, w5)" by fastforce
  obtain rc2 w6 where c6: "xenmem_unmap_region (cfg_chunk cfg) (cfg_regions cfg) (cfg_virt_to_gfn cfg) 1 (domint_addr x) w5 = (rc2, w6)"
    by fastforce
  have "env_only ?w3 w4" by (simp add: w4_def)
  then have e6: "env_only ?w3 w6"
    using env_only_call_eq [OF c5] env_only_unmap [OF c6] env_only_trans by blast
  note f = world_ok_env_only [OF e6]
  have ok6: "world_ok w6" "root_xenstore w6 = root_xenstore w" "watch_heap w6 = watch_heap w2" "used_threads w6 = u"
    using f w2 by (simp_all add: w1_def)
  obtain w7 where w7: "remove_ref_entries ?d w6 = Some w7" "wf_tree (root_xenstore w7)"
      "abs_tree (root_xenstore w7) = abs_drop ?d (abs_tree (root_xenstore w6))"
    using remove_ref_inv [of w6 ?d] ok6(1) by (auto simp: world_ok_def)
  obtain r where r: "w7 = w6\<lparr>root_xenstore := r\<rparr>"
    using w7(1) by (auto simp: remove_ref_entries_def split: bind_splits)
  have "world_ok w7" using ok6(1) w7(2) r by (simp add: world_ok_def)
  moreover have "stop_domain_stored cfg False x w = Some (if rc2 < 0 then rc2 else rc1,
      free_buffered_data (x\<lparr>thrd_stop := True, domint := None\<rparr>), w7)"
    using w2(1) u(1) c5 c6 w7(1) by (simp add: stop_domain_stored_def w1_def w4_def Let_def)
  ultimately show ?thesis
    using w2(4) w7(3) ok6 u(2) r by (simp add: free_buffered_data_def)
qed

theorem stop_forgets_domain_witness:
  "\<exists>rc x' w'. stop_domain_stored ex_cfg False ex_client ex_server = Some (rc, x', w') \<and>
     slots (used_threads w') = {0} \<and> abs_tree (root_xenstore w') = abs_drop 4 (abs_tree (root_xenstore ex_server))"
proof -
  have s: "slots 3 = {0, 1}"
  proof -
    have "(3 :: u32) = push_bit 0 1 OR push_bit 1 1" by simp
    then show ?thesis using slots_or [of 1 "0 OR push_bit 0 1"] slots_or [of 0 0] by (auto simp: slots_def)
  qed
  have "world_ok ex_server" using ex_server_ok by (simp add: sv_ok_def)
  then show ?thesis
    using stop_forgets_domain [of ex_server ex_client ex_cfg] s ex_server_fields(7)
    by (auto simp: ex_client_def ex_cfg_def)
qed

text \<open>Whatever the order in which domains are started and stopped, as long as no more than
  \<open>CONFIG_DOMU_MAX\<close> (at most 32) are running, the next stack is always found, below
  \<open>CONFIG_DOMU_MAX\<close>, and no two running domains have the same one.\<close>

theorem stacks_never_shared:
  assumes "n \<le> 32" "used_threads w = 0"
  shows "\<exists>live w'. xs_stacks.history n ops [] w = Some (live, w') \<and> distinct live \<and>
    set live = slots (used_threads w') \<and> length live \<le> n \<and> (\<forall>i \<in> set live. i < n)"
  using xs_stacks.history_ok [OF assms(1), of "[]" w ops] assms(2) by (simp add: slots_def)

theorem stacks_never_shared_witness:
  "\<exists>live w'. xs_stacks.history 8 [Take, Take, Release 0, Take] [] (ex_server\<lparr>used_threads := 0\<rparr>) = Some (live, w') \<and>
     distinct live"
  using stacks_never_shared [of 8 "ex_server\<lparr>used_threads := 0\<rparr>" "[Take, Take, Release 0, Take]"] by auto

section \<open>Requests the code does not handle\<close>

text \<open>\<open>handle_rm\<close> does not construct the path: a relative one is taken from the root of the store instead of the
  home directory of the guest.\<close>

lemma rm_of_relative_path:
  assumes "sv_ok w" "used_out_bufs x \<le> 100" "cstr payload = Some p" "strtok_all slash p \<noteq> []"
  shows "\<exists>rc x' w'. handle_rm cfg x req_id payload w = Some (x', w') \<and>
    root_xenstore w' = (if rc = 0 then remove_at (strtok_all slash p) (root_xenstore w) else root_xenstore w) \<and>
    (\<exists>junk data. out_list x' = out_list x @ [if rc = (0 :: int) then reply_buf XS_RM req_id junk [] else reply_buf XS_ERROR req_id junk data])"
proof -
  obtain rc w1 where r: "xss_do_rm p (xs_domid x) K_FOREVER w = Some (rc, w1)" "sv_ok w1"
    using rm_world [of w p "xs_domid x"] assms(1,4) by (auto simp: sv_ok_def)
  have root: "root_xenstore w1 = (if rc = 0 then remove_at (strtok_all slash p) (root_xenstore w) else root_xenstore w)"
    using do_rm_inv [of w p "xs_domid x" K_FOREVER] assms(1,4) r(1) by (auto simp: sv_ok_def xss_do_rm_def split: if_splits)
  have m: "mallocs w1 = []" using r(2) by (simp add: sv_ok_def)
  show ?thesis
  proof (cases "rc = 0")
    case True
    then show ?thesis using r(1) root assms(3) send_exact [OF m assms(2), of cfg req_id XS_RM "[]"]
      by (auto simp: handle_rm_def send_reply_read_def message_buf_def intro!: exI [of _ "0 :: int"])
  next
    case False
    have "\<exists>d. message_buf XS_ERROR req_id junk data = reply_buf XS_ERROR req_id junk d" for junk data
      by (cases "length data \<le> XENSTORE_PAYLOAD_MAX") (auto simp: message_buf_def)
    then obtain junk j d where "send_errno cfg x req_id (- rc) w1 =
        Some (x\<lparr>out_list := out_list x @ [reply_buf XS_ERROR req_id junk d], used_out_bufs := used_out_bufs x + 1\<rparr>, w1\<lparr>stack_junk := j\<rparr>)"
      using send_exact [OF m assms(2), of cfg req_id XS_ERROR "error_string (- rc) @ [NUL]"] unfolding send_errno.simps by metis
    then show ?thesis using False r(1) root assms(3) by (intro exI [of _ rc]) (simp add: handle_rm_def, blast)
  qed
qed

text \<open>An input buffer with a whole request of a type without handler.\<close>

lemma unknown_request_again:
  fixes w :: "'a xs_server_scheme"
  assumes "sv_ok w" "used_out_bufs x \<le> 100" "link_ok x" "in_buf x = Some b"
    "16 \<le> bd_used b" "bd_used b = bd_total_size b"
    "handler_for (hdr_type (hdr_decode (bd_buffer b))) = (None :: (xen_cfg \<Rightarrow> xenstore \<Rightarrow> u32 \<Rightarrow> char list \<Rightarrow> 'a xs_server_scheme \<Rightarrow> 'a served) option)"
  shows "\<exists>x' w'. handle_input cfg x w = Some (x', w') \<and> sv_ok w' \<and> in_buf x' = Some b \<and> link_ok x' \<and>
    used_out_bufs x' = used_out_bufs x + 1 \<and>
    req_of x' = req_of x \<and> (\<exists>junk data. out_list x' = out_list x @ [reply_buf XS_ERROR 0 junk data])"
proof -
  obtain d i where r: "ring_read x 0 w = Some (Inr d, x\<lparr>domint := Some i\<rparr>, notify_evtchn (local_evtchn x) w)"
      "req_of x = d @ req_contents i" "length d \<le> 0" "link_ok (x\<lparr>domint := Some i\<rparr>)"
    using ring_read_ok [OF assms(3), of 0 w] by blast
  let ?x1 = "x\<lparr>domint := Some i\<rparr>" and ?w1 = "notify_evtchn (local_evtchn x) w"
  have d: "d = []" using r(3) by simp
  have bb: "b\<lparr>bd_used := bd_total_size b\<rparr> = b" using assms(6) by (metis (no_types) buffered_data.surjective buffered_data.update_convs(1))
  have x1: "x\<lparr>domint := Some i, in_buf := Some b\<rparr> = ?x1" using assms(4) by simp
  have e1: "env_step w ?w1" by simp
  have ok1: "sv_ok ?w1" using env_step_sv [OF e1] assms(1) by simp
  obtain x' j where s: "send_errno cfg ?x1 0 ENOSYS ?w1 = Some (x', ?w1\<lparr>stack_junk := j\<rparr>)" "replied ?x1 0 XS_ERROR x'"
    using send_errno_ok [of ?w1 ?x1 cfg 0 ENOSYS XS_ERROR] ok1 assms(2) by (auto simp: sv_ok_def)
  obtain junk data where x': "x' = ?x1\<lparr>out_list := out_list ?x1 @ [reply_buf XS_ERROR 0 junk data],
      used_out_bufs := used_out_bufs ?x1 + 1\<rparr>"
    using s(2) unfolding replied_def by auto
  have "process_message cfg ?x1 ?w1 = send_errno cfg ?x1 0 ENOSYS ?w1"
    using assms(4,7) by (simp add: process_message_def Let_def)
  then have "handle_input cfg x w = Some (x', ?w1\<lparr>stack_junk := j\<rparr>)"
    using assms(4-6) r(1) s(1) by (simp add: handle_input_def input_payload_def Let_def d bb x1)
  moreover have "link_ok x'" "used_out_bufs x' = used_out_bufs x + 1" using x' r(4) by (simp_all add: link_ok_def)
  moreover have "in_buf x' = Some b" "req_of x' = req_of x" "out_list x' = out_list x @ [reply_buf XS_ERROR 0 junk data]"
    using x' assms(4) r(2) d by (simp_all add: req_of_def)
  ultimately show ?thesis using ok1 by auto
qed

text \<open>Calls of \<open>handle_input\<close>, one after the other.\<close>

fun handle_inputs :: "nat \<Rightarrow> xen_cfg \<Rightarrow> xenstore \<Rightarrow> 'a xs_server_scheme \<Rightarrow> 'a served" where
  "handle_inputs 0 cfg x w = Some (x, w)"
| "handle_inputs (Suc n) cfg x w = Option.bind (handle_input cfg x w) (\<lambda>(x1, w1). handle_inputs n cfg x1 w1)"

text \<open>C31. A request of a type without handler is answered with an error under id 0 instead of its
  own id and stays in the input buffer: as many further calls of \<open>handle_input\<close> as the limit of queued
  replies allows take no byte from the ring, leave the buffer as it is, and each answers it again.\<close>

theorem unknown_request_is_stuck:
  fixes w :: "'a xs_server_scheme"
  assumes "sv_ok w" "used_out_bufs x + int n \<le> 101" "link_ok x" "in_buf x = Some b"
    "16 \<le> bd_used b" "bd_used b = bd_total_size b"
    "handler_for (hdr_type (hdr_decode (bd_buffer b))) = (None :: (xen_cfg \<Rightarrow> xenstore \<Rightarrow> u32 \<Rightarrow> char list \<Rightarrow> 'a xs_server_scheme \<Rightarrow> 'a served) option)"
  shows "\<exists>x' w' rs. handle_inputs n cfg x w = Some (x', w') \<and> sv_ok w' \<and> in_buf x' = Some b \<and> req_of x' = req_of x \<and>
    length rs = n \<and> list_all (\<lambda>r. \<exists>junk data. r = reply_buf XS_ERROR 0 junk data) rs \<and> out_list x' = out_list x @ rs"
  using assms(1-4)
proof (induction n arbitrary: x w)
  case (Suc n)
  have "used_out_bufs x \<le> 100" using Suc.prems(2) by simp
  from unknown_request_again [OF Suc.prems(1) this Suc.prems(3,4) assms(5-7)] obtain x1 w1 junk data where
    o: "handle_input cfg x w = Some (x1, w1)" "sv_ok w1" "in_buf x1 = Some b" "link_ok x1" "used_out_bufs x1 = used_out_bufs x + 1"
      "req_of x1 = req_of x" "out_list x1 = out_list x @ [reply_buf XS_ERROR 0 junk data]" by blast
  have "used_out_bufs x1 + int n \<le> 101" using Suc.prems(2) o(5) by simp
  from Suc.IH [OF o(2) this o(4,3)] obtain x' w' rs where
    r: "handle_inputs n cfg x1 w1 = Some (x', w')" "sv_ok w'" "in_buf x' = Some b" "req_of x' = req_of x1" "length rs = n"
      "list_all (\<lambda>r. \<exists>junk data. r = reply_buf XS_ERROR 0 junk data) rs" "out_list x' = out_list x1 @ rs" by blast
  then show ?case using o(1,6,7)
    by (intro exI [of _ x'] exI [of _ w'] exI [of _ "reply_buf XS_ERROR 0 junk data # rs"]) auto
qed simp

definition ex_unknown_buf :: buffered_data where
  "ex_unknown_buf = \<lparr>bd_used = 16, bd_total_size = 16,
     bd_buffer = hdr_encode \<lparr>hdr_type = 22, hdr_req_id = 9, hdr_tx_id = 0, hdr_len = 0\<rparr>\<rparr>"

theorem unknown_request_is_stuck_witness:
  "\<exists>x' w'. handle_inputs 3 ex_cfg (ex_client\<lparr>in_buf := Some ex_unknown_buf\<rparr>) ex_server = Some (x', w') \<and>
     in_buf x' = Some ex_unknown_buf \<and> length (out_list x') = 3"
proof -
  let ?x = "ex_client\<lparr>in_buf := Some ex_unknown_buf\<rparr>"
  have "hdr_decode (bd_buffer ex_unknown_buf) = \<lparr>hdr_type = 22, hdr_req_id = 9, hdr_tx_id = 0, hdr_len = 0\<rparr>"
    using hdr_decode_encode [of _ "[]"] by (simp add: ex_unknown_buf_def)
  then have "handler_for (hdr_type (hdr_decode (bd_buffer ex_unknown_buf))) =
      (None :: (xen_cfg \<Rightarrow> xenstore \<Rightarrow> u32 \<Rightarrow> char list \<Rightarrow> unit xs_server_scheme \<Rightarrow> unit served) option)"
    by (simp add: handler_for_def msg_types_def)
  moreover have "link_ok ?x" using ex_client_link(1) by (simp add: link_ok_def)
  ultimately show ?thesis
    using unknown_request_is_stuck [of ex_server ?x 3 ex_unknown_buf ex_cfg] ex_server_ok
    by (auto simp: ex_unknown_buf_def) (auto simp: ex_client_def)
qed

text \<open>C32. The permissions of an entry may be set by every domain, whatever the entry grants it,
  and a request for an entry that does not exist dereferences a null pointer.\<close>

theorem set_perms_unchecked:
  assumes "sv_ok w" "used_out_bufs x \<le> 100" "cstr payload = Some p" "strnlen payload + 1 < length payload"
    "construct_path p (xs_domid x) w = (Inr path, w)"
    "deserialize_perms (drop (strnlen payload + 1) payload) w = (Some new, w)"
  shows "(case key_to_entry (Some path) w of
      (None, _) \<Rightarrow> handle_set_perms cfg x req_id payload w = None
    | (Some q, _) \<Rightarrow> \<exists>x' w'. handle_set_perms cfg x req_id payload w = Some (x', w') \<and>
        root_xenstore w' = modify_at q (set_perms new) (root_xenstore w))"
proof -
  have m: "mallocs w = []" "wf_tree (root_xenstore w)" using sv_watch_inv [OF assms(1)] by simp_all
  obtain entry where k: "key_to_entry (Some path) w = (entry, w)"
    using key_to_entry_same [OF m(1), of "Some path"] by (metis surj_pair)
  show ?thesis
  proof (cases entry)
    case None
    then have "key_to_entry_check_perm (Some path) (xs_domid x) XS_PERM_NONE w = Some (None, w)"
      using k by (simp add: key_to_entry_check_perm_def check_perms_for_entry_def)
    then show ?thesis using None k assms(3-5) by (simp add: handle_set_perms_def)
  next
    case (Some q)
    obtain e where e: "node_at (root_xenstore w) q = Some e" by (rule key_to_entry_Some [OF k [unfolded Some]]) blast
    have c: "key_to_entry_check_perm (Some path) (xs_domid x) XS_PERM_NONE w = Some (Some q, w)"
      by (rule lookup_perm_none [OF k [unfolded Some] e m(2)])
    let ?w1 = "w\<lparr>root_xenstore := modify_at q (set_perms new) (root_xenstore w)\<rparr>"
    obtain x' j where s: "send_reply cfg x req_id XS_SET_PERMS ''OK'' ?w1 = Some (x', ?w1\<lparr>stack_junk := j\<rparr>)"
      using send_ok [of ?w1 x XS_SET_PERMS XS_SET_PERMS cfg req_id "''OK'' @ [NUL]"] m(1) assms(2)
      by (auto simp: send_reply_def)
    have "handle_set_perms cfg x req_id payload w = Some (x', ?w1\<lparr>stack_junk := j\<rparr>)"
      using assms(3-6) c s m(1) by (simp add: handle_set_perms_def set_perms_by_strings_def set_perms_by_array_same)
    then show ?thesis using k Some by simp
  qed
qed

lemma pair_same: "fst f = r \<Longrightarrow> (\<And>a v. f = (a, v) \<Longrightarrow> v = w) \<Longrightarrow> f = (r, w)"
  by (cases f) auto

text \<open>Domain 9, to which the entry grants nothing, makes itself its owner.\<close>

theorem set_perms_unchecked_witness:
  "\<exists>x' w'. handle_set_perms ex_cfg (ex_client\<lparr>xs_domid := 9\<rparr>) 1 (''/vm'' @ NUL # ''b9'' @ [NUL]) ex_server = Some (x', w') \<and>
     root_xenstore w' = modify_at [''vm''] (set_perms [\<lparr>pe_domid = 9, pe_perm = 3\<rparr>]) (root_xenstore ex_server)"
proof -
  let ?x = "ex_client\<lparr>xs_domid := 9\<rparr>" and ?pl = "''/vm'' @ NUL # ''b9'' @ [NUL]"
  have m: "mallocs ex_server = []" using ex_server_ok by (simp add: sv_ok_def)
  have p: "cstr ?pl = Some ''/vm''" "strnlen ?pl = 3" by (simp_all add: cstr_def strnlen_def)
  have "fst (construct_path ''/vm'' 9 ex_server) = Inr ''/vm''" by code_simp
  then have c: "construct_path ''/vm'' 9 ex_server = (Inr ''/vm'', ex_server)"
    using construct_path_same [OF m] by (rule pair_same)
  have "fst (serialize_perms [\<lparr>pe_domid = 9, pe_perm = 3\<rparr>] ex_server) = Some (''b9'' @ [NUL])" by code_simp
  then have "deserialize_perms (''b9'' @ [NUL]) ex_server = (Some [\<lparr>pe_domid = 9, pe_perm = 3\<rparr>], ex_server)"
    using perm_roundtrip_aux [of "[\<lparr>pe_domid = 9, pe_perm = 3\<rparr>]" ex_server] m by (auto simp: wire_domid_def norm_perm_def)
  moreover have "drop (strnlen ?pl + 1) ?pl = ''b9'' @ [NUL]" unfolding p(2) by simp
  ultimately have d: "deserialize_perms (drop (strnlen ?pl + 1) ?pl) ex_server = (Some [\<lparr>pe_domid = 9, pe_perm = 3\<rparr>], ex_server)"
    by (simp only:)
  have "fst (key_to_entry (Some ''/vm'') ex_server) = Some [''vm'']" by code_simp
  then have k: "key_to_entry (Some ''/vm'') ex_server = (Some [''vm''], ex_server)"
    using key_to_entry_same [OF m] by (rule pair_same)
  show ?thesis
    using set_perms_unchecked [OF ex_server_ok _ p(1) _ _ d, of ?x "''/vm''" ex_cfg 1] c k p(2) by (auto simp: ex_client_def)
qed

text \<open>C33. When the guest does not read its replies and the limit of queued replies is passed, the
  reply to the next request stops the service of the domain from the event thread itself; the
  input buffer is freed, and \<open>process_message\<close> then dereferences it.\<close>

theorem reply_overflow_crashes:
  fixes w :: "'a xs_server_scheme"
  assumes "100 < used_out_bufs x" "in_buf x = Some b" "hdr_type (hdr_decode (bd_buffer b)) = msg_code XS_CONTROL"
  shows "process_message cfg x w = None"
proof -
  have h: "handler_for (hdr_type (hdr_decode (bd_buffer b))) = (Some handle_control :: (xen_cfg \<Rightarrow> xenstore \<Rightarrow> u32 \<Rightarrow> char list \<Rightarrow> 'a xs_server_scheme \<Rightarrow> 'a served) option)"
    using assms(3) by (simp only: handler_for_def msg_code_find) simp
  have "send_reply cfg x i XS_CONTROL ''OK'' w = invalidate_client cfg x w" for i
    using assms(1) by (simp add: send_reply_def send_reply_sz.simps)
  moreover have "in_buf x1 = None" if "invalidate_client cfg x w = Some (x1, w1)" for x1 w1
    using that by (auto simp: invalidate_client_def stop_domain_stored_def free_buffered_data_def Let_def
        split: bind_splits prod.splits)
  ultimately show ?thesis using assms(2) h
    by (cases "invalidate_client cfg x w") (auto simp: process_message_def handle_control_def Let_def)
qed

definition ex_control_buf :: buffered_data where
  "ex_control_buf = \<lparr>bd_used = 16, bd_total_size = 16,
     bd_buffer = hdr_encode \<lparr>hdr_type = 0, hdr_req_id = 1, hdr_tx_id = 0, hdr_len = 0\<rparr>\<rparr>"

theorem reply_overflow_crashes_witness:
  "process_message ex_cfg (ex_client\<lparr>used_out_bufs := 101, in_buf := Some ex_control_buf\<rparr>) ex_server = None"
proof -
  have "hdr_decode (bd_buffer ex_control_buf) = \<lparr>hdr_type = 0, hdr_req_id = 1, hdr_tx_id = 0, hdr_len = 0\<rparr>"
    using hdr_decode_encode [of _ "[]"] by (simp add: ex_control_buf_def)
  then show ?thesis by (intro reply_overflow_crashes [where b = ex_control_buf]) simp_all
qed

end
