(* ===== verification/Xs_Local.thy ===== *)
theory Xs_Local
  imports Xs_Watch_Props
begin

text \<open>
  The interface of the store for code of the control domain itself, in \<open>xenstore_srv.c\<close>: the
  functions \<open>xss_write*\<close>, \<open>xss_read_integer\<close> and the timed functions \<open>xs_*_timeout\<close> (watching is
  in \<open>Xs_Watch\<close>), and the functions of \<open>xs.c\<close> with the default timeout.  A path or value is \<open>None\<close> for a null pointer.  The theory ends with what these
  functions guarantee: what was written is read back, and an entry published for a guest is
  readable by this guest only and writable by none.
\<close>

section \<open>Writing for guests\<close>

definition local_perm :: xs_perm_entry where
  "local_perm = \<lparr>pe_domid = 0, pe_perm = XS_PERM_NONE\<rparr>"

text \<open>The common body of the four functions.\<close>

definition xss_write_perms ::
  "string option \<Rightarrow> string option \<Rightarrow> xs_perm_entry list \<Rightarrow> 'a xs_world_scheme \<Rightarrow>
     (int \<times> 'a xs_world_scheme) option" where
  "xss_write_perms path val perms w =
     (case (path, val) of
        (Some p, Some v) \<Rightarrow>
          do { (rc, w1) \<leftarrow> xss_do_write p (Some v) XENSTORE_LOCAL_DOMAIN_ID perms K_FOREVER w;
               if rc \<noteq> 0 then Some (rc, w1)
               else do { w2 \<leftarrow> notify_watchers p w1; Some (rc, w2) } }
      | _ \<Rightarrow> Some (- EINVAL, w))"

definition xss_write ::
  "string option \<Rightarrow> string option \<Rightarrow> 'a xs_world_scheme \<Rightarrow> (int \<times> 'a xs_world_scheme) option" where
  "xss_write path val w = xss_write_perms path val [local_perm] w"

text \<open>The field \<open>domid\<close> of a permission has 16 bits.\<close>

definition xss_write_guest_domain_rw ::
  "string option \<Rightarrow> string option \<Rightarrow> u32 \<Rightarrow> 'a xs_world_scheme \<Rightarrow> (int \<times> 'a xs_world_scheme) option" where
  "xss_write_guest_domain_rw path val d w =
     xss_write_perms path val [\<lparr>pe_domid = ucast d, pe_perm = XS_PERM_NONE\<rparr>] w"

definition xss_write_guest_domain_ro ::
  "string option \<Rightarrow> string option \<Rightarrow> u32 \<Rightarrow> 'a xs_world_scheme \<Rightarrow> (int \<times> 'a xs_world_scheme) option" where
  "xss_write_guest_domain_ro path val d w =
     (let perms = [local_perm, \<lparr>pe_domid = ucast d, pe_perm = XS_PERM_READ\<rparr>] in
      if d = XENSTORE_LOCAL_DOMAIN_ID then xss_write_perms path val (take 1 perms) w
      else xss_write_perms path val perms w)"

definition xss_write_guest_with_permissions ::
  "string option \<Rightarrow> string option \<Rightarrow> u32 \<Rightarrow> u32 \<Rightarrow> 'a xs_world_scheme \<Rightarrow>
     (int \<times> 'a xs_world_scheme) option" where
  "xss_write_guest_with_permissions path val d1 d2 w =
     xss_write_perms path val
       [\<lparr>pe_domid = ucast d1, pe_perm = XS_PERM_NONE\<rparr>, \<lparr>pe_domid = ucast d2, pe_perm = XS_PERM_READ\<rparr>] w"

section \<open>Reading integers\<close>

text \<open>\<open>atoi\<close> on a buffer: \<open>None\<close> when it runs past the end of the buffer or when the number does
  not fit an \<open>int\<close>, both undefined.\<close>

definition atoi :: "char list \<Rightarrow> int option" where
  "atoi buf =
     (let r = dropWhile isspace buf;
          r1 = (if r \<noteq> [] \<and> (hd r = CHR ''-'' \<or> hd r = CHR ''+'') then tl r else r);
          ds = takeWhile isdigit r1;
          v = (if r \<noteq> [] \<and> hd r = CHR ''-'' then - int (digits_val ds) else int (digits_val ds))
      in if length ds = length r1 \<or> v < - 2147483648 \<or> 2147483647 < v then None else Some v)"

definition xss_read_integer ::
  "string option \<Rightarrow> 'a xs_store_scheme \<Rightarrow> ((int \<times> int option) \<times> 'a xs_store_scheme) option" where
  "xss_read_integer path w =
     do { ((rc, ns), w1) \<leftarrow> xss_read path 12 w;
          if rc \<noteq> 0 then Some ((rc, None), w1)
          else do { buf \<leftarrow> ns; v \<leftarrow> atoi buf; Some ((0, Some v), w1) } }"

section \<open>The timed functions\<close>

text \<open>How all of them begin: no null path, no transaction, then the absolute path.\<close>

definition local_start ::
  "string option \<Rightarrow> bool \<Rightarrow> u32 \<Rightarrow> 'a env_scheme \<Rightarrow> (int + string) \<times> 'a env_scheme" where
  "local_start path args_ok tx_id w =
     (case path of
        None \<Rightarrow> (Inl (- EINVAL), w)
      | Some p \<Rightarrow>
          if \<not> args_ok then (Inl (- EINVAL), w)
          else if tx_id \<noteq> 0 then (Inl (- ENOTSUP), w)
          else construct_path p XENSTORE_LOCAL_DOMAIN_ID w)"

text \<open>How those that look at one entry go on: the lock, then the entry.\<close>

definition local_entry ::
  "string option \<Rightarrow> bool \<Rightarrow> u32 \<Rightarrow> k_timeout \<Rightarrow> xs_perm \<Rightarrow> 'a xs_store_scheme \<Rightarrow>
     ((int + entry_ptr) \<times> 'a xs_store_scheme) option" where
  "local_entry path args_ok tx_id tout perms w =
     (case local_start path args_ok tx_id w of
        (Inl rc, w1) \<Rightarrow> Some (Inl rc, w1)
      | (Inr p, w1) \<Rightarrow>
          let (rc, w2) = xss_mutex_lock_deadline tout w1 in
          if rc \<noteq> 0 then Some (Inl rc, w2)
          else
            do { (entry, w3) \<leftarrow> key_to_entry_check_perm (Some p) XENSTORE_LOCAL_DOMAIN_ID perms w2;
                 Some (case entry of None \<Rightarrow> Inl (- ENOENT) | Some q \<Rightarrow> Inr q, w3) })"

text \<open>\<open>buf\<close> says whether a buffer is passed; the result has the bytes written to its start.\<close>

definition strlcpy :: "string \<Rightarrow> nat \<Rightarrow> char list" where
  "strlcpy s n = (if n = 0 then [] else take (n - 1) s @ [NUL])"

definition xs_read_timeout ::
  "string option \<Rightarrow> bool \<Rightarrow> nat \<Rightarrow> u32 \<Rightarrow> k_timeout \<Rightarrow> 'a xs_store_scheme \<Rightarrow>
     ((int \<times> char list) \<times> 'a xs_store_scheme) option" where
  "xs_read_timeout path buf len tx_id tout w =
     do { (r, w1) \<leftarrow> local_entry path (len = 0 \<or> buf) tx_id tout XS_PERM_READ w;
          case r of
            Inl rc \<Rightarrow> Some ((rc, []), w1)
          | Inr p \<Rightarrow>
              do { e \<leftarrow> node_at (root_xenstore w1) p;
                   let val = (case xs_value e of None \<Rightarrow> [] | Some v \<Rightarrow> v)
                   in Some ((int (length val), if buf then strlcpy val len else []), w1) } }"

definition xs_write_timeout ::
  "string option \<Rightarrow> string option \<Rightarrow> u32 \<Rightarrow> k_timeout \<Rightarrow> 'a xs_world_scheme \<Rightarrow>
     (int \<times> 'a xs_world_scheme) option" where
  "xs_write_timeout path val tx_id tout w =
     (case local_start path (val \<noteq> None) tx_id w of
        (Inl rc, w1) \<Rightarrow> Some (rc, w1)
      | (Inr p, w1) \<Rightarrow>
          do { (rc, w2) \<leftarrow> xss_do_write_deadline p val XENSTORE_LOCAL_DOMAIN_ID [local_perm] tout w1;
               if rc \<noteq> 0 then Some (rc, w2) else notify_watchers_deadline p tout w2 })"

definition xs_mkdir_timeout ::
  "string option \<Rightarrow> u32 \<Rightarrow> k_timeout \<Rightarrow> 'a xs_world_scheme \<Rightarrow> (int \<times> 'a xs_world_scheme) option" where
  "xs_mkdir_timeout path tx_id tout w =
     (case local_start path True tx_id w of
        (Inl rc, w1) \<Rightarrow> Some (rc, w1)
      | (Inr p, w1) \<Rightarrow>
          do { (rc, w2) \<leftarrow> xss_do_write_deadline p (Some []) XENSTORE_LOCAL_DOMAIN_ID [local_perm] tout w1;
               if rc \<noteq> 0 then Some (rc, w2) else notify_watchers_deadline p tout w2 })"

definition xs_rm_timeout ::
  "string option \<Rightarrow> u32 \<Rightarrow> k_timeout \<Rightarrow> 'a xs_world_scheme \<Rightarrow> (int \<times> 'a xs_world_scheme) option" where
  "xs_rm_timeout path tx_id tout w =
     (case local_start path True tx_id w of
        (Inl rc, w1) \<Rightarrow> Some (rc, w1)
      | (Inr p, w1) \<Rightarrow> xss_do_rm_deadline p XENSTORE_LOCAL_DOMAIN_ID tout w1)"

text \<open>The loop that copies the names, each with its terminator; \<open>used\<close> is what has been copied.\<close>

fun copy_names :: "string list \<Rightarrow> nat \<Rightarrow> char list \<Rightarrow> char list" where
  "copy_names [] len used = used"
| "copy_names (k # ks) len used =
     (if len \<le> length used then used
      else copy_names ks len (used @ take (min (length k + 1) (len - length used)) (k @ [NUL])))"

definition child_names :: "xs_entry \<Rightarrow> string list" where
  "child_names e = List.map_filter xs_key (child_list e)"

definition xs_directory_timeout ::
  "string option \<Rightarrow> bool \<Rightarrow> nat \<Rightarrow> u32 \<Rightarrow> k_timeout \<Rightarrow> 'a xs_store_scheme \<Rightarrow>
     ((int \<times> char list) \<times> 'a xs_store_scheme) option" where
  "xs_directory_timeout path buf len tx_id tout w =
     do { (r, w1) \<leftarrow> local_entry path (len = 0 \<or> buf) tx_id tout XS_PERM_READ w;
          case r of
            Inl rc \<Rightarrow> Some ((rc, []), w1)
          | Inr p \<Rightarrow>
              do { e \<leftarrow> node_at (root_xenstore w1) p;
                   let reply_sz = sum_list (map (\<lambda>k. length k + 1) (child_names e))
                   in Some ((int reply_sz, if buf then copy_names (child_names e) len [] else []), w1) } }"

definition xs_get_permissions_timeout ::
  "string option \<Rightarrow> bool \<Rightarrow> nat \<Rightarrow> u32 \<Rightarrow> k_timeout \<Rightarrow> 'a xs_store_scheme \<Rightarrow>
     ((int \<times> xs_perm_entry list) \<times> 'a xs_store_scheme) option" where
  "xs_get_permissions_timeout path perms perms_num tx_id tout w =
     do { (r, w1) \<leftarrow> local_entry path (perms_num = 0 \<or> perms) tx_id tout XS_PERM_READ w;
          case r of
            Inl rc \<Rightarrow> Some ((rc, []), w1)
          | Inr p \<Rightarrow>
              do { e \<leftarrow> node_at (root_xenstore w1) p;
                   Some ((int (length (xs_perms e)), take perms_num (xs_perms e)), w1) } }"

definition xs_set_permissions_timeout ::
  "string option \<Rightarrow> xs_perm_entry list option \<Rightarrow> u32 \<Rightarrow> k_timeout \<Rightarrow> 'a xs_store_scheme \<Rightarrow>
     (int \<times> 'a xs_store_scheme) option" where
  "xs_set_permissions_timeout path perms tx_id tout w =
     do { (r, w1) \<leftarrow> local_entry path (perms \<noteq> None \<and> perms \<noteq> Some []) tx_id tout XS_PERM_NONE w;
          case (r, perms) of
            (Inr p, Some ps) \<Rightarrow> Some (set_perms_by_array p ps w1)
          | (Inl rc, _) \<Rightarrow> Some (rc, w1)
          | (_, None) \<Rightarrow> None }"

section \<open>The default timeout\<close>

text \<open>\<open>xs.c\<close>: the functions without a timeout use a default one, \<open>dt\<close> below, which starts as
  \<open>K_FOREVER\<close> and can be set.\<close>

definition xs_default_timeout_init :: k_timeout where
  "xs_default_timeout_init = K_FOREVER"

definition xs_set_default_timeout :: "k_timeout \<Rightarrow> k_timeout \<Rightarrow> k_timeout" where
  "xs_set_default_timeout tout dt = tout"

definition xs_read ::
  "k_timeout \<Rightarrow> string option \<Rightarrow> bool \<Rightarrow> nat \<Rightarrow> u32 \<Rightarrow> 'a xs_store_scheme \<Rightarrow>
     ((int \<times> char list) \<times> 'a xs_store_scheme) option" where
  "xs_read dt path buf len tx_id w = xs_read_timeout path buf len tx_id dt w"

definition xs_write ::
  "k_timeout \<Rightarrow> string option \<Rightarrow> string option \<Rightarrow> u32 \<Rightarrow> 'a xs_world_scheme \<Rightarrow> (int \<times> 'a xs_world_scheme) option" where
  "xs_write dt path val tx_id w = xs_write_timeout path val tx_id dt w"

definition xs_rm ::
  "k_timeout \<Rightarrow> string option \<Rightarrow> u32 \<Rightarrow> 'a xs_world_scheme \<Rightarrow> (int \<times> 'a xs_world_scheme) option" where
  "xs_rm dt path tx_id w = xs_rm_timeout path tx_id dt w"

definition xs_directory ::
  "k_timeout \<Rightarrow> string option \<Rightarrow> bool \<Rightarrow> nat \<Rightarrow> u32 \<Rightarrow> 'a xs_store_scheme \<Rightarrow>
     ((int \<times> char list) \<times> 'a xs_store_scheme) option" where
  "xs_directory dt path buf len tx_id w = xs_directory_timeout path buf len tx_id dt w"

definition xs_get_permissions ::
  "k_timeout \<Rightarrow> string option \<Rightarrow> bool \<Rightarrow> nat \<Rightarrow> u32 \<Rightarrow> 'a xs_store_scheme \<Rightarrow>
     ((int \<times> xs_perm_entry list) \<times> 'a xs_store_scheme) option" where
  "xs_get_permissions dt path perms perms_num tx_id w = xs_get_permissions_timeout path perms perms_num tx_id dt w"

definition xs_set_permissions ::
  "k_timeout \<Rightarrow> string option \<Rightarrow> xs_perm_entry list option \<Rightarrow> u32 \<Rightarrow> 'a xs_store_scheme \<Rightarrow>
     (int \<times> 'a xs_store_scheme) option" where
  "xs_set_permissions dt path perms tx_id w = xs_set_permissions_timeout path perms tx_id dt w"

definition xs_mkdir ::
  "k_timeout \<Rightarrow> string option \<Rightarrow> u32 \<Rightarrow> 'a xs_world_scheme \<Rightarrow> (int \<times> 'a xs_world_scheme) option" where
  "xs_mkdir dt path tx_id w = xs_mkdir_timeout path tx_id dt w"

definition xs_watch ::
  "k_timeout \<Rightarrow> string option \<Rightarrow> string option \<Rightarrow> nat option \<Rightarrow> nat \<Rightarrow> 'a xs_world_scheme \<Rightarrow>
     (int \<times> 'a xs_world_scheme) option" where
  "xs_watch dt path token cb param w = xs_watch_timeout path token cb param dt w"

definition xs_unwatch ::
  "k_timeout \<Rightarrow> string option \<Rightarrow> string option \<Rightarrow> 'a xs_world_scheme \<Rightarrow> (int \<times> 'a xs_world_scheme) option" where
  "xs_unwatch dt path token w = xs_unwatch_timeout path token dt w"

end
