(* ===== verification/Xs_Local_Props.thy ===== *)
theory Xs_Local_Props
  imports Xs_Local
begin

text \<open>
  What the interface for the control domain guarantees: a timed write is read back, cut to the
  buffer, and an entry published read-only for a guest can be read by this guest alone and
  written by no guest.
\<close>

section \<open>Reading back\<close>

text \<open>The path that is constructed does not depend on the state.\<close>

lemma construct_path_again:
  assumes "construct_path p d e = (Inr q, e1)" "mallocs e2 = []"
  shows "construct_path p d e2 = (Inr q, e2)"
  using assms by (auto simp: construct_path_def Let_def split: if_splits prod.splits)

lemma construct_path_length:
  assumes "unat d < 0x8000" "construct_path p d e = (Inr q, e1)"
  shows "length q \<le> XENSTORE_ABS_PATH_MAX"
proof (cases "xenstore_is_abs_path (Some p)")
  case True
  then show ?thesis using construct_path_abs [OF True assms(2)]
    by (auto simp: xenstore_path_validate_def xenstore_str_byte_size_def xenstore_is_root_path_def
        split: if_splits option.splits)
next
  case False
  then show ?thesis using construct_path_rel(3) [OF assms(1) False assms(2)] by simp
qed

lemma construct_path_error: "construct_path p d e = (Inl rc, e1) \<Longrightarrow> rc \<noteq> 0"
  by (auto simp: construct_path_def Let_def split: if_splits prod.splits)

lemma local_write_cases:
  assumes "xs_write_timeout (Some p) (Some v) 0 tout w = Some (0, w')"
  shows "\<exists>q w1 w2. construct_path p 0 w = (Inr q, w1) \<and>
    xss_do_write_deadline q (Some v) 0 [local_perm] tout w1 = Some (0, w2) \<and>
    notify_watchers_deadline q tout w2 = Some (0, w')"
  using assms construct_path_error [of p 0 w 0 w']
  by (auto simp: xs_write_timeout_def local_start_def split: prod.splits sum.splits bind_splits if_splits)

lemma world_ok_mallocs [simp]: "world_ok (w\<lparr>mallocs := bs\<rparr>) = world_ok w"
  by (simp add: world_ok_def)

text \<open>What a write leaves at its path.\<close>

lemma do_write_stores:
  assumes "wf_tree (root_xenstore w)" "xss_do_write_deadline q (Some v) d perms tout w = Some (0, w')"
    "strtok_all slash q \<noteq> []"
  shows "\<exists>e. node_at (root_xenstore w') (strtok_all slash q) = Some e \<and> xs_value e = Some v \<and>
    (node_at (root_xenstore w) (strtok_all slash q) = None \<longrightarrow> perms \<noteq> [] \<longrightarrow> xs_perms e = perms)"
proof -
  let ?ts = "strtok_all slash q"
  have "abs_tree (root_xenstore w') ?ts = abs_write ?ts (Some v) perms (abs_tree (root_xenstore w)) ?ts"
    using do_write_refines(1) [OF assms(1,2)] by simp
  then obtain ps where ps: "abs_tree (root_xenstore w') ?ts = Some (Some v, ps)"
      "abs_tree (root_xenstore w) ?ts = None \<longrightarrow> perms \<noteq> [] \<longrightarrow> ps = perms"
    using assms(3) by (cases "abs_tree (root_xenstore w) ?ts") (auto simp: abs_write_def abs_mkdirs_def)
  then show ?thesis by (auto simp: abs_tree_def node_info_def)
qed

lemma local_write_world:
  "world_ok w \<Longrightarrow> xss_do_write_deadline q v d perms tout w = Some (0, w') \<Longrightarrow> world_ok w'"
  using write_world_ok [of w q v d perms tout 0 w'] by (simp add: xss_do_write_def)

text \<open>What a component of the control domain writes with \<open>xs_write_timeout\<close> it reads back with
  \<open>xs_read_timeout\<close> under the same path, relative or absolute: the result is the length of the
  value and the buffer has as much of it as fits, terminated.\<close>

theorem local_read_after_write:
  fixes w :: "'a xs_world_scheme"
  assumes "world_ok w" "xs_write_timeout (Some p) (Some v) 0 tout w = Some (0, w')" "mallocs w' = []" "p \<noteq> ''/''"
  shows "world_ok w' \<and>
    xs_read_timeout (Some p) True len 0 K_FOREVER w' = Some ((int (length v), strlcpy v len), w')"
proof -
  obtain q w1 w2 where s: "construct_path p 0 w = (Inr q, w1)"
      "xss_do_write_deadline q (Some v) 0 [local_perm] tout w1 = Some (0, w2)"
      "notify_watchers_deadline q tout w2 = Some (0, w')"
    using local_write_cases [OF assms(2)] by blast
  obtain bs where w1: "w1 = w\<lparr>mallocs := bs\<rparr>" using construct_path_frame [OF s(1)] by blast
  have ok1: "world_ok w1" using assms(1) w1 by simp
  have toks: "strtok_all slash q \<noteq> []"
  proof (cases "xenstore_is_abs_path (Some p)")
    case True
    then have q: "q = p" "xenstore_path_validate (Some p) = 0" using construct_path_abs [OF True s(1)] by simp_all
    then have "norm_abs q" using construct_path_norm [OF _ s(1)] by simp
    then show ?thesis using assms(4) q strtok_all_path_of by (auto simp: norm_abs_def)
  next
    case False
    then show ?thesis using construct_path_below_home(1) [OF _ False s(1)] by simp
  qed
  have ok2: "world_ok w2" by (rule local_write_world [OF ok1 s(2)])
  have n: "world_ok w'" "root_xenstore w' = root_xenstore w2" using notify_inv [OF ok2, of q tout] s(3) by auto
  obtain e where e: "node_at (root_xenstore w') (strtok_all slash q) = Some e" "xs_value e = Some v"
    using do_write_stores [OF _ s(2) toks] ok1 n(2) by (auto simp: world_ok_def)
  have len: "length q \<le> XENSTORE_ABS_PATH_MAX" using construct_path_length [OF _ s(1)] by simp
  have c: "construct_path p 0 w' = (Inr q, w')" by (rule construct_path_again [OF s(1) assms(3)])
  have mal: "fst (k_malloc w')" using assms(3) by simp
  obtain w3 where k: "key_to_entry (Some q) w' = (Some (strtok_all slash q), w3)"
    using key_to_entry_found [OF len mal toks e(1)] by blast
  have "w3 = w'" using k assms(3) by (auto simp: key_to_entry_def Let_def split: if_splits)
  then show ?thesis using n(1) c k e
    by (simp add: xs_read_timeout_def local_entry_def local_start_def xss_mutex_lock_deadline_def
        key_to_entry_check_perm_def check_perms_for_entry_def check_perms_def)
qed

theorem local_read_after_write_witness:
  "\<exists>w'. xs_write_timeout (Some ''dev/console'') (Some ''tty0'') 0 K_TIMED ex_world = Some (0, w') \<and>
     xs_read_timeout (Some ''dev/console'') True 4 0 K_FOREVER w' = Some ((4, ''tty'' @ [NUL]), w')"
proof -
  have run: "map_option (\<lambda>(rc, w'). (rc, mallocs w')) (xs_write_timeout (Some ''dev/console'') (Some ''tty0'') 0 K_TIMED ex_world) = Some (0, [])"
    by code_simp
  then obtain w' where w': "xs_write_timeout (Some ''dev/console'') (Some ''tty0'') 0 K_TIMED ex_world = Some (0, w')" "mallocs w' = []"
    by auto
  from local_read_after_write [OF ex_world_ok w', of 4] w'(1) show ?thesis by (simp add: strlcpy_def)
qed

section \<open>Entries published for a guest\<close>

text \<open>C19. A new entry that \<open>xss_write_guest_domain_ro\<close> publishes has the value given, the guest it is
  meant for may read it and not write it, and no other guest may read or write it; the store
  stays in order.\<close>

theorem published_for_guest_only:
  fixes w :: "'a xs_world_scheme"
  assumes "world_ok w" "xss_write_guest_domain_ro (Some path) (Some v) d w = Some (0, w')"
    "strtok_all slash path \<noteq> []" "node_at (root_xenstore w) (strtok_all slash path) = None"
    "d \<noteq> 0" "unat d < 65536"
  shows "world_ok w' \<and> (\<exists>e. node_at (root_xenstore w') (strtok_all slash path) = Some e \<and> xs_value e = Some v \<and>
    granted e XS_PERM_READ d \<and> \<not> granted e XS_PERM_WRITE d \<and>
    (\<forall>d'. d' \<noteq> 0 \<and> d' \<noteq> d \<longrightarrow> \<not> granted e XS_PERM_READ d' \<and> \<not> granted e XS_PERM_WRITE d'))"
proof -
  let ?perms = "[local_perm, \<lparr>pe_domid = ucast d, pe_perm = XS_PERM_READ\<rparr>]"
  obtain w1 rc where s: "xss_do_write_deadline path (Some v) 0 ?perms K_FOREVER w = Some (0, w1)"
      "notify_watchers_deadline path K_FOREVER w1 = Some (rc, w')"
    using assms(2,5)
    by (auto simp: xss_write_guest_domain_ro_def xss_write_perms_def xss_do_write_def notify_watchers_def
        split: bind_splits if_splits)
  have ok1: "world_ok w1" by (rule local_write_world [OF assms(1) s(1)])
  have n: "world_ok w'" "root_xenstore w' = root_xenstore w1"
    using notify_inv [OF ok1, of path K_FOREVER] s(2) by auto
  obtain e where e: "node_at (root_xenstore w') (strtok_all slash path) = Some e" "xs_value e = Some v" "xs_perms e = ?perms"
    using do_write_stores [OF _ s(1) assms(3)] assms(1,4) n(2) by (auto simp: world_ok_def)
  have u: "ucast (ucast d :: domid_t) = d"
  proof (rule bit_word_eqI)
    fix n :: nat
    assume "n < LENGTH(32)"
    have "\<not> bit d n" if "16 \<le> n"
    proof -
      have "unat d < 2 ^ n" using assms(6) power_increasing [OF that, of "2 :: nat"] by simp
      then have "\<not> bit (unat d) n" by (simp add: bit_iff_odd)
      then show ?thesis by (simp add: bit_unsigned_iff)
    qed
    then show "bit (ucast (ucast d :: domid_t) :: u32) n = bit d n"
      using \<open>n < LENGTH(32)\<close> by (cases "n < 16") (auto simp: bit_simps)
  qed
  show ?thesis using n(1) e(1,2) u assms(5) by (auto simp: granted_def is_owner_def e(3) local_perm_def)
qed

theorem published_for_guest_only_witness:
  "\<exists>w' e. xss_write_guest_domain_ro (Some ''/vch/ring-ref'') (Some ''17'') 4 ex_world = Some (0, w') \<and>
     node_at (root_xenstore w') [''vch'', ''ring-ref''] = Some e \<and> granted e XS_PERM_READ 4 \<and>
     \<not> granted e XS_PERM_READ 5"
proof -
  have t: "strtok_all slash ''/vch/ring-ref'' = [''vch'', ''ring-ref'']" by code_simp
  have "map_option fst (xss_write_guest_domain_ro (Some ''/vch/ring-ref'') (Some ''17'') 4 ex_world) = Some 0"
    by code_simp
  then obtain w' where w': "xss_write_guest_domain_ro (Some ''/vch/ring-ref'') (Some ''17'') 4 ex_world = Some (0, w')"
    by auto
  have new: "node_at (root_xenstore ex_world) (strtok_all slash ''/vch/ring-ref'') = None" unfolding t by code_simp
  have "strtok_all slash ''/vch/ring-ref'' \<noteq> []" "(4 :: u32) \<noteq> 0" "unat (4 :: u32) < 65536" using t by simp_all
  from published_for_guest_only [OF ex_world_ok w' this(1) new this(2,3)] obtain e where
    "node_at (root_xenstore w') [''vch'', ''ring-ref''] = Some e" "granted e XS_PERM_READ 4"
    "\<forall>d'. d' \<noteq> 0 \<and> d' \<noteq> 4 \<longrightarrow> \<not> granted e XS_PERM_READ d' \<and> \<not> granted e XS_PERM_WRITE d'"
    unfolding t by blast
  moreover have "(5 :: u32) \<noteq> 0 \<and> (5 :: u32) \<noteq> 4" by simp
  ultimately show ?thesis using w' by blast
qed

end
