(* ===== verification/Mem_Mgmt_Props.thy ===== *)
theory Mem_Mgmt_Props
  imports Mem_Mgmt
begin

text \<open>
  The properties of the memory management: populating and unmapping cover exactly the pages they
  are asked for, whatever the chunk size, and what the error path of mapping does.
\<close>

section \<open>Populating\<close>

text \<open>The sizes of the chunks in which \<open>n\<close> pages are handled.\<close>

fun chunk_sizes :: "nat \<Rightarrow> nat \<Rightarrow> nat list" where
  "chunk_sizes c n = (if c = 0 \<or> n = 0 then [] else min n c # chunk_sizes c (n - min n c))"

declare chunk_sizes.simps [simp del]

lemma push_bit_of_nat: "push_bit sh (of_nat k :: u64) = of_nat (k * 2 ^ sh)"
  by (simp add: push_bit_eq_mult)

lemma chunk_step:
  assumes "k * 2 ^ sh < 2 ^ 32"
  shows "ucast (push_bit sh (of_nat k :: u32)) = (of_nat (k * 2 ^ sh) :: u64)"
proof -
  have p: "push_bit sh (of_nat k :: u32) = of_nat (k * 2 ^ sh)" by (simp add: push_bit_eq_mult)
  have "unat (of_nat (k * 2 ^ sh) :: u32) = k * 2 ^ sh"
    using assms by (simp add: unat_of_nat take_bit_eq_mod del: of_nat_mult of_nat_power)
  moreover have "ucast w = (of_nat (unat w) :: u64)" for w :: u32 by (simp add: unsigned_of_nat)
  ultimately show ?thesis unfolding p by metis
qed

definition populate_pfns :: "u64 \<Rightarrow> nat \<Rightarrow> nat \<Rightarrow> int list" where
  "populate_pfns base sh n = uints (map (\<lambda>j. base + push_bit sh (of_nat j)) [0..<n])"

lemma populate_pfns_add:
  "populate_pfns b sh (k + n) = populate_pfns b sh k @ populate_pfns (b + of_nat (k * 2 ^ sh)) sh n"
proof -
  have "[0..<k + n] = [0..<k] @ map (\<lambda>j. j + k) [0..<n]"
    by (metis add.commute map_add_upt upt_add_eq_append zero_le add_0)
  then show ?thesis
    by (simp add: populate_pfns_def uints_def push_bit_of_nat o_def algebra_simps)
qed

lemma chunk_len_nat:
  fixes i n :: u64
  assumes "i < n"
  shows "chunk_len chunk n i = min (unat n - unat i) chunk"
  using assms by (simp add: chunk_len_def word_less_nat_alt unat_sub word_le_nat_alt)

text \<open>What a sequence of calls asked for, all together.\<close>

definition asked :: "(string \<times> int list) list \<Rightarrow> int list" where
  "asked calls = concat (map (\<lambda>(_, args). drop 4 args) calls)"

lemma populate_loop_ok:
  assumes "0 < chunk" "chunk * 2 ^ sh < 2 ^ 32" "i \<le> n"
    "hcalls e = map int (chunk_sizes chunk (unat n - unat i)) @ rest"
  shows "\<exists>calls. populate_loop chunk i d b sh n e = (n, e\<lparr>hcalls := rest, trace := trace e @ calls\<rparr>) \<and>
    asked calls = populate_pfns b sh (unat n - unat i) \<and>
    list_all (\<lambda>(f, _). f = ''xendom_populate_physmap'') calls"
  using assms
proof (induction chunk i d b sh n e rule: populate_loop.induct)
  case (1 chunk i d b sh n e)
  show ?case
  proof (cases "i < n")
    case False
    then have "i = n" using "1.prems"(3) by simp
    then have "hcalls e = rest" using "1.prems"(4) by (simp add: chunk_sizes.simps)
    then have "e = e\<lparr>hcalls := rest, trace := trace e @ []\<rparr>" by simp
    then have "populate_loop chunk i d b sh n e = (n, e\<lparr>hcalls := rest, trace := trace e @ []\<rparr>)"
      using \<open>i = n\<close> by (simp add: populate_loop.simps)
    then show ?thesis using \<open>i = n\<close>
      by (intro exI [of _ "[]"]) (simp add: asked_def populate_pfns_def uints_def)
  next
    case True
    let ?iter = "chunk_len chunk n i"
    have lt: "unat i < unat n" using True by (simp add: word_less_nat_alt)
    have it: "?iter = min (unat n - unat i) chunk" by (rule chunk_len_nat [OF True])
    have up: "unat (i + of_nat ?iter) = unat i + ?iter" "unat i + ?iter \<le> unat n"
      using unat_less_add [OF True, of ?iter] by (simp_all add: chunk_len_def)
    have sz: "chunk_sizes chunk (unat n - unat i) = ?iter # chunk_sizes chunk (unat n - unat (i + of_nat ?iter))"
      using it up lt "1.prems"(1) by (subst chunk_sizes.simps) simp
    let ?args = "[d, int sh, int ?iter, 0] @ uints (map (\<lambda>j. b + push_bit sh (of_nat j)) [0..<?iter])"
    let ?e1 = "e\<lparr>hcalls := map int (chunk_sizes chunk (unat n - unat (i + of_nat ?iter))) @ rest,
                 trace := trace e @ [(''xendom_populate_physmap'', ?args)]\<rparr>"
    have c: "ext_call ''xendom_populate_physmap'' ?args e = (int ?iter, ?e1)"
      using "1.prems"(4) sz by (simp add: ext_call_def)
    have "?iter * 2 ^ sh \<le> chunk * 2 ^ sh" using it by simp
    then have "?iter * 2 ^ sh < 2 ^ 32" using "1.prems"(2) by (rule order_le_less_trans)
    then have step: "b + ucast (push_bit sh (of_nat ?iter :: u32)) = b + of_nat (?iter * 2 ^ sh)"
      by (simp only: chunk_step)
    obtain calls where r: "populate_loop chunk (i + of_nat ?iter) d (b + of_nat (?iter * 2 ^ sh)) sh n ?e1 =
          (n, ?e1\<lparr>hcalls := rest, trace := trace ?e1 @ calls\<rparr>)"
        "asked calls = populate_pfns (b + of_nat (?iter * 2 ^ sh)) sh (unat n - unat (i + of_nat ?iter))"
        "list_all (\<lambda>(f, _). f = ''xendom_populate_physmap'') calls"
      using "1.IH" [OF _ refl refl c [symmetric] refl] True "1.prems" up step
      by (auto simp: word_le_nat_alt)
    let ?calls = "(''xendom_populate_physmap'', ?args) # calls"
    have "populate_loop chunk i d b sh n e = (n, e\<lparr>hcalls := rest, trace := trace e @ ?calls\<rparr>)"
      using True "1.prems"(1) c r(1) step by (subst populate_loop.simps) (simp add: Let_def)
    moreover have "unat n - unat i = ?iter + (unat n - unat (i + of_nat ?iter))" using up by simp
    then have "asked ?calls = populate_pfns b sh (unat n - unat i)"
      using r(2) populate_pfns_add [of b sh ?iter] by (simp add: asked_def populate_pfns_def)
    ultimately show ?thesis using r(3) by (intro exI [of _ ?calls]) simp
  qed
qed

text \<open>A short or failing call never makes the count come out right: the result of the call is an
  \<open>int\<close> and never more than a chunk.\<close>

lemma of_int_eq_diff:
  fixes i n :: u64
  assumes "i < n" "i + of_int r = n" "- (2 ^ 31) \<le> r" "r \<le> int chunk" "int chunk < 2 ^ 31" "unat n < 2 ^ 63"
  shows "r = int (unat n) - int (unat i)"
proof -
  have lt: "unat i < unat n" using assms(1) by (simp add: word_less_nat_alt)
  let ?s = "uint n - uint i"
  have s: "int (unat n) - int (unat i) = ?s" "uint i < uint n" "uint n < 2 ^ 63"
    using lt assms(6) by (simp_all flip: of_nat_less_iff [where 'a = int] add: of_nat_power)
  have "of_int r = n - i" using assms(2) by auto
  then have "of_int r = (of_int ?s :: u64)" by simp
  then have "take_bit 64 r = take_bit 64 ?s" unfolding word_of_int_eq_iff by simp
  then have "(2 ^ 64 :: int) dvd r - ?s" by (simp add: take_bit_eq_mod mod_eq_dvd_iff)
  moreover have "\<bar>r - ?s\<bar> < 2 ^ 64" using assms(3-5) s(2,3) by (simp add: abs_less_iff) (use uint_ge_0 [of i] in linarith)
  ultimately have "r - ?s = 0" by (metis dvd_imp_le_int abs_numeral not_le power_abs)
  then show ?thesis using s(1) by simp
qed

lemma populate_loop_complete:
  assumes "0 < chunk" "int chunk < 2 ^ 31" "unat n < 2 ^ 63" "i \<le> n"
    "list_all (\<lambda>r. - (2 ^ 31) \<le> r \<and> r \<le> int chunk) (hcalls e)" "fst (populate_loop chunk i d b sh n e) = n"
  shows "\<exists>rest. hcalls e = map int (chunk_sizes chunk (unat n - unat i)) @ rest"
  using assms
proof (induction chunk i d b sh n e rule: populate_loop.induct)
  case (1 chunk i d b sh n e)
  show ?case
  proof (cases "i < n")
    case False
    then show ?thesis using "1.prems"(4) by (simp add: chunk_sizes.simps)
  next
    case True
    let ?iter = "chunk_len chunk n i"
    have lt: "unat i < unat n" using True by (simp add: word_less_nat_alt)
    have it: "?iter = min (unat n - unat i) chunk" by (rule chunk_len_nat [OF True])
    have up: "unat (i + of_nat ?iter) = unat i + ?iter" "unat i + ?iter \<le> unat n"
      using unat_less_add [OF True, of ?iter] by (simp_all add: chunk_len_def)
    have sz: "chunk_sizes chunk (unat n - unat i) = ?iter # chunk_sizes chunk (unat n - unat (i + of_nat ?iter))"
      using it up lt "1.prems"(1) by (subst chunk_sizes.simps) simp
    let ?args = "[d, int sh, int ?iter, 0] @ uints (map (\<lambda>j. b + push_bit sh (of_nat j)) [0..<?iter])"
    obtain r e1 where c: "ext_call ''xendom_populate_physmap'' ?args e = (r, e1)" by fastforce
    have r: "r = (case hcalls e of [] \<Rightarrow> 0 | r # _ \<Rightarrow> r)" "hcalls e1 = tl (hcalls e)"
      using c by (auto simp: ext_call_def)
    have rb: "- (2 ^ 31) \<le> r" "r \<le> int chunk" using "1.prems"(5) r(1) by (auto split: list.splits)
    have full: "r = int ?iter"
    proof (rule ccontr)
      assume ne: "r \<noteq> int ?iter"
      then have "i + of_int r = n"
        using "1.prems"(1,6) True c by (subst (asm) populate_loop.simps) (simp add: Let_def)
      from of_int_eq_diff [OF True this rb "1.prems"(2,3)] have "r = int (unat n - unat i)" using lt by simp
      then show False using ne it rb(2) by simp
    qed
    have ne: "hcalls e = int ?iter # tl (hcalls e)" using r(1) full it lt "1.prems"(1) by (cases "hcalls e") auto
    have "fst (populate_loop chunk (i + of_nat ?iter) d (b + ucast (push_bit sh (of_nat ?iter :: u32))) sh n e1) = n"
      using "1.prems"(1,6) True c full by (subst (asm) populate_loop.simps) (simp add: Let_def)
    moreover have "list_all (\<lambda>r. - (2 ^ 31) \<le> r \<and> r \<le> int chunk) (hcalls e1)"
      using "1.prems"(5) r(2) by (cases "hcalls e") auto
    moreover have "i + of_nat ?iter \<le> n" using up by (simp add: word_le_nat_alt)
    ultimately obtain rest where "hcalls e1 = map int (chunk_sizes chunk (unat n - unat (i + of_nat ?iter))) @ rest"
      using "1.IH" [OF _ refl refl c [symmetric] refl] True "1.prems"(1-3) full by auto
    then show ?thesis using ne r(2) sz by simp
  qed
qed

text \<open>C34. Populating guest memory by chunks reports all pages exactly when every hypercall
  populated its whole chunk, and then the hypercalls were asked for the frames
  \<open>base + (j << shift)\<close>, each once and in order, for every chunk size.\<close>

theorem populate_complete_iff:
  assumes "0 < chunk" "chunk * 2 ^ sh < 2 ^ 32" "int chunk < 2 ^ 31" "unat nr_pages < 2 ^ 63"
    "list_all (\<lambda>r. - (2 ^ 31) \<le> r \<and> r \<le> int chunk) (hcalls e)"
    "xenmem_populate_physmap chunk d base sh nr_pages e = (populated, e')"
  shows "(populated = nr_pages \<longleftrightarrow> (\<exists>rest. hcalls e = map int (chunk_sizes chunk (unat nr_pages)) @ rest)) \<and>
    (populated = nr_pages \<longrightarrow>
       (\<exists>calls. trace e' = trace e @ calls \<and> asked calls = populate_pfns base sh (unat nr_pages)))"
proof -
  have run: "populate_loop chunk 0 d base sh nr_pages e = (populated, e')"
    using assms(6) by (simp add: xenmem_populate_physmap_def)
  have "\<exists>rest. hcalls e = map int (chunk_sizes chunk (unat nr_pages)) @ rest" if "populated = nr_pages"
    using populate_loop_complete [of chunk nr_pages 0 e d base sh] assms run that by simp
  moreover have "populated = nr_pages \<and> (\<exists>calls. trace e' = trace e @ calls \<and> asked calls = populate_pfns base sh (unat nr_pages))"
    if "\<exists>rest. hcalls e = map int (chunk_sizes chunk (unat nr_pages)) @ rest"
  proof -
    from that obtain rest where "hcalls e = map int (chunk_sizes chunk (unat nr_pages - unat (0 :: u64))) @ rest" by auto
    from populate_loop_ok [OF assms(1,2) _ this, of d base] show ?thesis using run by auto
  qed
  ultimately show ?thesis by blast
qed

theorem populate_complete_iff_witness:
  "\<exists>e'. xenmem_populate_physmap 2 1 0x40000 9 5 \<lparr>mallocs = [], locks = [], hcalls = [2, 2, 1], trace = []\<rparr> = (5, e') \<and>
     asked (trace e') = populate_pfns 0x40000 9 5"
proof -
  let ?e = "\<lparr>mallocs = [], locks = [], hcalls = [2, 2, 1], trace = []\<rparr>"
  obtain r e' where run: "xenmem_populate_physmap 2 1 0x40000 9 5 ?e = (r, e')" by fastforce
  have "fst (xenmem_populate_physmap 2 1 0x40000 9 5 ?e) = 5" by code_simp
  then have "r = 5" using run by simp
  then show ?thesis
    using populate_complete_iff [OF _ _ _ _ _ run] run by auto
qed

section \<open>Removing frames\<close>

lemma populate_trace: "\<exists>calls. trace (snd (populate_loop chunk i d b sh n e)) = trace e @ calls"
proof (induction chunk i d b sh n e rule: populate_loop.induct)
  case (1 chunk i d b sh n e)
  let ?iter = "chunk_len chunk n i"
  let ?args = "[d, int sh, int ?iter, 0] @ uints (map (\<lambda>j. b + push_bit sh (of_nat j)) [0..<?iter])"
  obtain r e1 where c: "ext_call ''xendom_populate_physmap'' ?args e = (r, e1)" by fastforce
  have t: "trace e1 = trace e @ [(''xendom_populate_physmap'', ?args)]" using c by (auto simp: ext_call_def)
  show ?case
  proof (cases "i < n \<and> 0 < chunk")
    case True
    from "1.IH" [OF _ refl refl c [symmetric] refl] True c t show ?thesis
      by (subst populate_loop.simps) (auto simp: Let_def)
  qed (simp add: populate_loop.simps)
qed

lemma put_trace:
  assumes "put_region_space chunk regions v2g a n e = (r, e')"
  shows "\<exists>calls. trace e' = trace e @ calls"
proof -
  obtain k e1 where q: "xenmem_populate_physmap chunk DOMID_SELF (v2g a) PFN_4K_SHIFT n e = (k, e1)" by fastforce
  then obtain calls where "trace e1 = trace e @ calls"
    using populate_trace [of chunk 0 DOMID_SELF "v2g a" PFN_4K_SHIFT n e] by (auto simp: xenmem_populate_physmap_def)
  then show ?thesis using assms q by (auto simp: put_region_space_def ext_call_def split: if_splits)
qed

lemma remove_loop_calls:
  assumes "unat i + n < 2 ^ 64" "remove_loop n i b e = (r, e')"
  shows "unat r \<le> unat i + n \<and>
    (\<exists>k. k \<le> n \<and> trace e' = trace e @ map (\<lambda>j. (''xendom_remove_from_physmap'', [DOMID_SELF, uint (b + i + of_nat j)])) [0..<k] \<and>
       (unat r = unat i + n \<longrightarrow> k = n))"
  using assms
proof (induction n arbitrary: i e)
  case 0
  then show ?case by auto
next
  case (Suc n)
  obtain rc e1 where c: "ext_call ''xendom_remove_from_physmap'' [DOMID_SELF, uint (b + i)] e = (rc, e1)" by fastforce
  have t: "trace e1 = trace e @ [(''xendom_remove_from_physmap'', [DOMID_SELF, uint (b + i)])]"
    using c by (auto simp: ext_call_def)
  show ?case
  proof (cases "rc < 0")
    case True
    then show ?thesis using Suc.prems c t by (auto intro!: exI [of _ 1])
  next
    case False
    have i1: "unat (i + 1) = unat i + 1" using Suc.prems(1) by (simp add: unat_word_ariths(1))
    have run: "remove_loop n (i + 1) b e1 = (r, e')" using Suc.prems(2) c False by simp
    obtain k where k: "k \<le> n" "unat r \<le> unat (i + 1) + n" "unat r = unat (i + 1) + n \<longrightarrow> k = n"
        "trace e' = trace e1 @ map (\<lambda>j. (''xendom_remove_from_physmap'', [DOMID_SELF, uint (b + (i + 1) + of_nat j)])) [0..<k]"
      using Suc.IH [OF _ run] Suc.prems(1) i1 by auto
    have "[0..<Suc k] = 0 # map Suc [0..<k]" by (simp add: map_Suc_upt upt_conv_Cons)
    then have "trace e' = trace e @ map (\<lambda>j. (''xendom_remove_from_physmap'', [DOMID_SELF, uint (b + i + of_nat j)])) [0..<Suc k]"
      using k(4) t by (simp add: o_def algebra_simps)
    then show ?thesis using k i1 by (intro conjI exI [of _ "Suc k"]) auto
  qed
qed

text \<open>Unmapping a region succeeds only after every one of its frames, and no other, has been
  taken out of the physmap, one call each, in order.\<close>

theorem unmap_removes_mapping:
  assumes "xenmem_unmap_region chunk regions v2g nr_pages addr e = (0, e')"
  shows "\<exists>later. trace e' = trace e @
    map (\<lambda>j. (''xendom_remove_from_physmap'', [DOMID_SELF, uint (v2g addr + of_nat j)])) [0..<unat nr_pages] @ later"
proof -
  obtain k e1 where q: "region_space_remove v2g addr nr_pages e = (k, e1)" by fastforce
  then have k: "k = nr_pages" using assms by (auto simp: xenmem_unmap_region_def split: if_splits)
  have "unat (0 :: u64) + unat nr_pages < 2 ^ 64" using unsigned_less [of nr_pages] by simp
  from remove_loop_calls [OF this q [unfolded region_space_remove_def]] k
  have t: "trace e1 = trace e @
      map (\<lambda>j. (''xendom_remove_from_physmap'', [DOMID_SELF, uint (v2g addr + of_nat j)])) [0..<unat nr_pages]" by auto
  define e2 where "e2 = (if regions then snd (ext_call ''xen_region_unmap'' [uint addr, uint nr_pages] e1) else e1)"
  have "put_region_space chunk regions v2g addr nr_pages e2 = (0, e')"
    using assms q k by (auto simp: xenmem_unmap_region_def e2_def)
  then obtain l1 where "trace e' = trace e2 @ l1" using put_trace by blast
  moreover obtain l2 where "trace e2 = trace e1 @ l2" by (cases regions) (auto simp: e2_def ext_call_def)
  ultimately show ?thesis using t by auto
qed

theorem unmap_removes_mapping_witness:
  "\<exists>e' later. xenmem_unmap_region 16 True (\<lambda>a. drop_bit 12 a) 2 0x5000 \<lparr>mallocs = [], locks = [], hcalls = [], trace = []\<rparr> = (0, e') \<and>
     trace e' = [(''xendom_remove_from_physmap'', [0x7FF0, 5]), (''xendom_remove_from_physmap'', [0x7FF0, 6])] @ later"
proof -
  let ?e = "\<lparr>mallocs = [], locks = [], hcalls = [], trace = []\<rparr>"
  obtain r e' where run: "xenmem_unmap_region 16 True (\<lambda>a. drop_bit 12 a) 2 0x5000 ?e = (r, e')" by fastforce
  have "fst (xenmem_unmap_region 16 True (\<lambda>a. drop_bit 12 a) 2 0x5000 ?e) = 0" by code_simp
  then have r: "r = 0" using run by simp
  have "map (\<lambda>j. (''xendom_remove_from_physmap'', [DOMID_SELF, uint (drop_bit 12 (0x5000 :: u64) + of_nat j)])) [0..<unat (2 :: u64)] =
      [(''xendom_remove_from_physmap'', [0x7FF0, 5]), (''xendom_remove_from_physmap'', [0x7FF0, 6])]" by code_simp
  with unmap_removes_mapping [OF run [unfolded r]] run r show ?thesis by auto
qed

section \<open>The error paths of mapping\<close>

lemma err_codes_loop_first:
  "c \<noteq> 0 \<Longrightarrow> unat i + k < 2 ^ 64 \<Longrightarrow>
   err_codes_loop (replicate k 0 @ c # cs) i = (if i + of_nat k = 0 then 0 else i + of_nat k - 1, False)"
proof (induction k arbitrary: i)
  case (Suc k)
  have u: "unat (i + 1) = unat i + 1" using Suc.prems(2) by (simp add: unat_word_ariths(1))
  have "i + 1 + of_nat k = i + of_nat (Suc k)" by simp
  then show ?case using Suc.IH [OF Suc.prems(1), of "i + 1"] Suc.prems(2) u by (simp add: add.assoc)
qed simp

text \<open>When the hypervisor refuses one page of a batch, \<open>xendom_add_to_physmap_batch_by_chunks\<close>
  reports one page less than it has added, whatever the position of that page other than the
  first: the caller, which takes the result for a count, leaves a page mapped.\<close>

theorem add_batch_undercounts:
  assumes "0 < k" "k < unat nr_pages" "unat nr_pages \<le> chunk" "0 \<le> rc" "c \<noteq> 0"
    "hcalls e = rc # replicate k 0 @ c # codes @ rest" "length codes = unat nr_pages - k - 1"
  shows "\<exists>e'. xendom_add_to_physmap_batch_by_chunks chunk d base_pfn base_gfn nr_pages e = (of_nat k - 1, e')"
proof -
  have lt: "0 < nr_pages" using assms(2) by (simp add: word_less_nat_alt)
  have it: "chunk_len chunk nr_pages 0 = unat nr_pages" using assms(3) by (simp add: chunk_len_def)
  let ?args = "[DOMID_SELF, d, XENMAPSPACE_gmfn_foreign, int (unat nr_pages)] @
    uints (map (\<lambda>j. base_gfn + of_nat j) [0..<unat nr_pages]) @ uints (map (\<lambda>j. base_pfn + of_nat j) [0..<unat nr_pages])"
  obtain e1 where c: "ext_call ''xendom_add_to_physmap_batch'' ?args e = (rc, e1)"
      "hcalls e1 = replicate k 0 @ c # codes @ rest"
    using assms(6) by (auto simp: ext_call_def)
  have len: "length (replicate k (0 :: int) @ c # codes) = unat nr_pages" using assms(2,7) by simp
  have "hcalls e1 @ replicate (unat nr_pages) 0 = (replicate k 0 @ c # codes) @ (rest @ replicate (unat nr_pages) 0)"
    using c(2) by simp
  then have o: "fst (ext_out (unat nr_pages) e1) = replicate k 0 @ c # codes"
    unfolding ext_out_def fst_conv using len by (metis append_eq_conv_conj)
  have "unat nr_pages < 2 ^ 64" using unsigned_less [of nr_pages] by simp
  then have k: "k < 2 ^ 64" using assms(2) by linarith
  then have nz: "of_nat k \<noteq> (0 :: u64)" using assms(1) by (auto simp: word_of_nat_eq_0_iff dest: dvd_imp_le)
  obtain e2 where o2: "ext_out (unat nr_pages) e1 = (replicate k 0 @ c # codes, e2)"
    using o by (cases "ext_out (unat nr_pages) e1") auto
  have "err_codes_loop (replicate k 0 @ c # codes) 0 = (of_nat k - 1, False)"
    using err_codes_loop_first [OF assms(5), of 0 k codes] k nz by simp
  then have "add_loop chunk 0 d base_pfn base_gfn nr_pages e = (of_nat k - 1, e2)"
    using lt assms(1-4) it c(1) o2 by (subst add_loop.simps) (simp add: Let_def)
  then show ?thesis by (simp add: xendom_add_to_physmap_batch_by_chunks_def)
qed

theorem add_batch_undercounts_witness:
  "\<exists>e'. xendom_add_to_physmap_batch_by_chunks 16 3 0x100 0x200 3
     \<lparr>mallocs = [], locks = [], hcalls = [0, 0, 0, -22], trace = []\<rparr> = (1, e')"
proof -
  have "replicate 2 (0 :: int) = [0, 0]" by (simp add: numeral_2_eq_2)
  then show ?thesis
    using add_batch_undercounts [of 2 3 16 0 "-22" "\<lparr>mallocs = [], locks = [], hcalls = [0, 0, 0, -22], trace = []\<rparr>"
        "[]" "[]" 3 "0x100" "0x200"] by simp
qed

text \<open>After such a failure \<open>xenmem_map_region\<close> takes frames out of the physmap starting at the
  frame of the caller's pointer variable instead of the frame of the mapping: here, for three
  pages of which the last is refused, the two pages that were added stay mapped and a frame of the
  control domain's own memory is removed.\<close>

theorem map_error_removes_wrong_frames:
  assumes "of_int addr \<noteq> (0 :: u64)" "dest \<noteq> 0" "3 \<le> chunk" "c \<noteq> 0" "hcalls e = [addr, 0, 0, 0, c]"
  shows "\<exists>e'. xenmem_map_region chunk True v2g d 3 gfn dest e = ((- ENOMEM, Some (of_int addr)), e') \<and>
    (\<exists>args. trace e' = trace e @
       [(''xen_region_get_pages'', [3]), (''xendom_add_to_physmap_batch'', args),
        (''xendom_remove_from_physmap'', [DOMID_SELF, uint (v2g dest)]),
        (''xen_region_put_pages'', [uint (of_int addr :: u64), 3])])"
proof -
  let ?e1 = "e\<lparr>hcalls := [0, 0, 0, c], trace := trace e @ [(''xen_region_get_pages'', [3])]\<rparr>"
  have g: "get_region_space chunk True v2g 3 e = (Some (of_int addr), ?e1)"
    using assms(1,5) by (simp add: get_region_space_def ext_call_def ptr_result_def)
  have it: "chunk_len chunk 3 0 = 3" using assms(3) by (simp add: chunk_len_def)
  let ?args = "[DOMID_SELF, d, XENMAPSPACE_gmfn_foreign, 3] @ uints (map (\<lambda>j. gfn + of_nat j) [0..<3]) @
      uints (map (\<lambda>j. v2g (of_int addr) + of_nat j) [0..<3])"
  let ?e2 = "?e1\<lparr>hcalls := [], trace := trace ?e1 @ [(''xendom_add_to_physmap_batch'', ?args)]\<rparr>"
  have a: "xendom_add_to_physmap_batch_by_chunks chunk d (v2g (of_int addr)) gfn 3 ?e1 = (1, ?e2)"
    using it assms(3,4) unfolding xendom_add_to_physmap_batch_by_chunks_def
    by (subst add_loop.simps) (simp add: ext_call_def ext_out_def Let_def)
  have "xenmem_map_region chunk True v2g d 3 gfn dest e = ((- ENOMEM, Some (of_int addr)),
      ?e2\<lparr>trace := trace ?e2 @ [(''xendom_remove_from_physmap'', [DOMID_SELF, uint (v2g dest)]),
        (''xen_region_put_pages'', [uint (of_int addr :: u64), 3])]\<rparr>)"
    using g a assms(2)
    by (simp add: xenmem_map_region_def region_space_remove_def put_region_space_def ext_call_def)
  then show ?thesis by auto
qed

theorem map_error_removes_wrong_frames_witness:
  "\<exists>e'. xenmem_map_region 16 True (\<lambda>a. drop_bit 12 a) 3 3 0x38000 0x7000
       \<lparr>mallocs = [], locks = [], hcalls = [0x40000000, 0, 0, 0, -22], trace = []\<rparr> =
     ((- 12, Some 0x40000000), e') \<and> (''xendom_remove_from_physmap'', [0x7FF0, 7]) \<in> set (trace e')"
proof -
  let ?e = "\<lparr>mallocs = [], locks = [], hcalls = [0x40000000, 0, 0, 0, -22], trace = []\<rparr>"
  have "uint (drop_bit 12 (0x7000 :: u64)) = 7" by code_simp
  then show ?thesis
    using map_error_removes_wrong_frames [of "0x40000000" "0x7000" 16 "-22" ?e "\<lambda>a. drop_bit 12 a" 3 "0x38000"] by auto
qed

end
