(* ===== verification/Console.thy ===== *)
theory Console
  imports Byte_Ring Slot_Alloc Mem_Mgmt
begin

text \<open>
  The console of a guest, \<open>xen_console.c\<close>: the shared page with the two rings of the guest, the
  internal ring that keeps the latest output, the thread that fills it, the thread that prints it
  and the shell callback that sends input.  Starting and stopping take and release a stack and the
  resources of the hypervisor.  Results are \<open>None\<close> where the code follows a null pointer or fails
  an assertion.
\<close>

section \<open>State\<close>

text \<open>\<open>struct xencons_interface\<close>: \<open>con_bytes\<close> are the 1024 bytes of \<open>in\<close> followed by the 2048
  bytes of \<open>out\<close>, as they lie in the page.\<close>

record xencons_interface =
  con_bytes :: "char list"
  in_cons :: u32
  in_prod :: u32
  out_cons :: u32
  out_prod :: u32

abbreviation (input) IN_SIZE :: nat where "IN_SIZE \<equiv> 1024"
abbreviation (input) OUT_SIZE :: nat where "OUT_SIZE \<equiv> 2048"
abbreviation (input) XEN_CONSOLE_BUFFER_SZ :: nat where "XEN_CONSOLE_BUFFER_SZ \<equiv> 8192"

text \<open>\<open>struct xen_domain_console\<close>; \<open>ext_running\<close> says that \<open>ext_tid\<close> is set, the two stop bits of
  \<open>stop_thrd\<close> are \<open>stop_ext\<close> and \<open>stop_int\<close>.\<close>

record xen_domain_console =
  intf :: "xencons_interface option"
  intf_addr :: u64
  ext_sem :: bool
  int_sem :: bool
  ext_running :: bool
  stop_ext :: bool
  stop_int :: bool
  con_evtchn :: u32
  con_local_evtchn :: u32
  stack_idx :: nat
  first_attach :: bool
  int_buf :: "char list option"
  int_prod :: u64
  int_cons :: u64
  lost_chars :: u64
  on_feed_cb :: "nat option"
  on_feed_cb_data :: nat

text \<open>The globals of the file, what has been passed to the feed callbacks and what has been
  printed.  \<open>current_console\<close> is the domain of the attached console.\<close>

record con_world = env +
  con_used_threads :: u32
  current_console :: "u32 option"
  feed_log :: "(nat \<times> char \<times> nat) list"
  con_printed :: "char list"
  bypass :: bool

section \<open>Stacks\<close>

definition con_get_stack_idx :: "'a con_world_scheme \<Rightarrow> (nat \<times> 'a con_world_scheme) option" where
  "con_get_stack_idx w =
     do { (i, u) \<leftarrow> bitmap_get (con_used_threads w); Some (i, w\<lparr>con_used_threads := u\<rparr>) }"

definition con_free_stack_idx :: "nat \<Rightarrow> nat \<Rightarrow> 'a con_world_scheme \<Rightarrow> 'a con_world_scheme option" where
  "con_free_stack_idx domu_max idx w =
     do { u \<leftarrow> bitmap_free domu_max idx (con_used_threads w); Some (w\<lparr>con_used_threads := u\<rparr>) }"

section \<open>The internal ring\<close>

definition int_mask :: "u64 \<Rightarrow> nat" where
  "int_mask i = unat (i AND 8191)"

definition console_feed_int_ring ::
  "xen_domain_console \<Rightarrow> char \<Rightarrow> 'a con_world_scheme \<Rightarrow> (xen_domain_console \<times> 'a con_world_scheme) option" where
  "console_feed_int_ring c ch w =
     do { buf \<leftarrow> int_buf c;
          let c1 = c\<lparr>int_buf := Some (buf[int_mask (int_prod c) := ch]), int_prod := int_prod c + 1\<rparr>;
              c2 = (if int_mask (int_prod c1) = int_mask (int_cons c1)
                    then c1\<lparr>lost_chars := lost_chars c1 + 1, int_cons := int_cons c1 + 1\<rparr> else c1)
          in Some (c2, case on_feed_cb c2 of
               None \<Rightarrow> w
             | Some cb \<Rightarrow> w\<lparr>feed_log := feed_log w @ [(cb, ch, on_feed_cb_data c2)]\<rparr>) }"

section \<open>The rings of the guest\<close>

text \<open>\<open>MASK_XENCONS_IDX(idx, ring)\<close> for a ring of \<open>n\<close> bytes.\<close>

definition MASK_XENCONS_IDX :: "u32 \<Rightarrow> nat \<Rightarrow> nat" where
  "MASK_XENCONS_IDX idx n = unat (idx AND (of_nat n - 1))"

text \<open>The input ring is written with the mask of the output ring, as in the code.\<close>

fun write_loop :: "char list \<Rightarrow> u32 \<Rightarrow> char list \<Rightarrow> char list \<times> u32" where
  "write_loop bytes p [] = (bytes, p)"
| "write_loop bytes p (d # ds) =
     write_loop (bytes[MASK_XENCONS_IDX p OUT_SIZE := d]) (p + 1) ds"

definition write_to_ext_ring :: "char list \<Rightarrow> xencons_interface \<Rightarrow> xencons_interface" where
  "write_to_ext_ring data i =
     (let cons = in_cons i; prod = in_prod i in
      if IN_SIZE < unat (prod - cons) then i\<lparr>in_prod := cons\<rparr>
      else
        let free_space = IN_SIZE - unat (prod - cons);
            (bytes, prod') = write_loop (con_bytes i) prod (take free_space data)
        in i\<lparr>con_bytes := bytes, in_prod := prod'\<rparr>)"

text \<open>\<open>n\<close> characters are still to be read.\<close>

fun read_chars ::
  "nat \<Rightarrow> char list \<Rightarrow> u32 \<Rightarrow> xen_domain_console \<Rightarrow> 'a con_world_scheme \<Rightarrow>
     (u32 \<times> xen_domain_console \<times> 'a con_world_scheme) option" where
  "read_chars 0 bytes cons c w = Some (cons, c, w)"
| "read_chars (Suc n) bytes cons c w =
     do { (c1, w1) \<leftarrow> console_feed_int_ring c (bytes ! (IN_SIZE + MASK_XENCONS_IDX cons OUT_SIZE)) w;
          read_chars n bytes (cons + 1) c1 w1 }"

definition read_from_ext_ring ::
  "xencons_interface \<Rightarrow> xen_domain_console \<Rightarrow> 'a con_world_scheme \<Rightarrow>
     (nat \<times> xencons_interface \<times> xen_domain_console \<times> 'a con_world_scheme) option" where
  "read_from_ext_ring i c w =
     (let n = unat (out_prod i - out_cons i) in
      if OUT_SIZE < n then Some (0, i\<lparr>out_cons := out_prod i\<rparr>, c, w)
      else do { (cons, c1, w1) \<leftarrow> read_chars n (con_bytes i) (out_cons i) c w;
                Some (n, i\<lparr>out_cons := cons\<rparr>, c1, w1) })"

text \<open>The loop of the reader thread between two waits.  \<open>gs\<close> are the actions of the guest on the
  page during the loop, one after each call; after the last of them the guest is still.\<close>

function read_loop ::
  "(xencons_interface \<Rightarrow> xencons_interface) list \<Rightarrow> xencons_interface \<Rightarrow> xen_domain_console \<Rightarrow>
     'a con_world_scheme \<Rightarrow> (xencons_interface \<times> xen_domain_console \<times> 'a con_world_scheme) option" where
  "read_loop gs i c w =
     (case read_from_ext_ring i c w of
        None \<Rightarrow> None
      | Some (n, i1, c1, w1) \<Rightarrow>
          if n = 0 then Some (i1, c1, w1)
          else (case gs of
                  [] \<Rightarrow> read_loop [] i1 c1 w1
                | g # gs' \<Rightarrow> read_loop gs' (g i1) c1 w1))"
  by pat_completeness auto

lemma read_chars_cons: "read_chars n bytes cons c w = Some (cons', c', w') \<Longrightarrow> cons' = cons + of_nat n"
  by (induction n arbitrary: cons c w) (fastforce split: bind_splits)+

lemma read_from_ext_ring_empties:
  assumes "read_from_ext_ring i c w = Some (n, i', c', w')"
  shows "out_cons i' = out_prod i' \<and> n = (if OUT_SIZE < unat (out_prod i - out_cons i) then 0 else unat (out_prod i - out_cons i))"
proof (cases "OUT_SIZE < unat (out_prod i - out_cons i)")
  case True
  then show ?thesis using assms by (auto simp: read_from_ext_ring_def)
next
  case False
  then obtain cons where "read_chars (unat (out_prod i - out_cons i)) (con_bytes i) (out_cons i) c w = Some (cons, c', w')"
      "i' = i\<lparr>out_cons := cons\<rparr>" "n = unat (out_prod i - out_cons i)"
    using assms by (auto simp: read_from_ext_ring_def Let_def split: bind_splits)
  then show ?thesis using read_chars_cons [of _ _ _ c w cons c' w'] False by fastforce
qed

termination read_loop
proof (relation "measures [\<lambda>(gs, i, c, w). length gs, \<lambda>(gs, i, c, w). unat (out_prod i - out_cons i)]", goal_cases)
  case (2 gs i c w p n p1 i1 p2 c1 w1)
  then have r: "read_from_ext_ring i c w = Some (n, i1, c1, w1)" by simp
  from read_from_ext_ring_empties [OF r] 2 show ?case by (auto split: if_splits)
qed auto

declare read_loop.simps [simp del]

section \<open>Starting and stopping\<close>

record con_cfg =
  cc_chunk :: nat
  cc_regions :: bool
  cc_virt_to_gfn :: "u64 \<Rightarrow> u64"
  cc_domu_max :: nat
  cc_console_pfn :: u64

text \<open>\<open>page\<close> is the shared page as the mapping shows it, \<open>dest\<close> the address of the field \<open>intf\<close>.\<close>

definition xen_init_domain_console ::
  "con_cfg \<Rightarrow> u64 \<Rightarrow> xencons_interface \<Rightarrow> u32 \<Rightarrow> xen_domain_console \<Rightarrow> 'a con_world_scheme \<Rightarrow>
     int \<times> xen_domain_console \<times> 'a con_world_scheme" where
  "xen_init_domain_console cfg dest page d c w =
     (case xenmem_map_region (cc_chunk cfg) (cc_regions cfg) (cc_virt_to_gfn cfg) (sint d) 1
             (cc_console_pfn cfg) dest w of
        ((rc, None), w1) \<Rightarrow> (rc, c\<lparr>intf := None\<rparr>, w1)
      | ((rc, Some addr), w1) \<Rightarrow>
          if rc < 0 then (rc, c\<lparr>intf := None, intf_addr := addr\<rparr>, w1)
          else
            let c1 = c\<lparr>intf := Some page, intf_addr := addr\<rparr>;
                unmap = (\<lambda>rc y v. (rc, y, snd (xenmem_unmap_region (cc_chunk cfg) (cc_regions cfg)
                           (cc_virt_to_gfn cfg) 1 addr v)));
                (ok, w2) = k_malloc w1
            in if \<not> ok then unmap (- ENOMEM) (c1\<lparr>int_buf := None\<rparr>) w2
               else
                 let c2 = c1\<lparr>int_buf := Some (replicate XEN_CONSOLE_BUFFER_SZ NUL), int_prod := 0, int_cons := 0,
                            on_feed_cb := None, on_feed_cb_data := 0, first_attach := True\<rparr>;
                     (rc3, w3) = ext_call ''bind_interdomain_event_channel'' [uint d, uint (con_evtchn c2)] w2
                 in if rc3 < 0 then unmap rc3 c2 w3
                    else
                      let c3 = c2\<lparr>con_local_evtchn := of_int rc3, ext_sem := True, int_sem := True\<rparr>;
                          (rc4, w4) = ext_call ''hvm_set_parameter'' [uint d, uint (con_evtchn c3)] w3
                      in if rc4 \<noteq> 0
                         then
                           let w5 = snd (ext_call ''unbind_event_channel'' [uint (con_local_evtchn c3)] w4);
                               w6 = snd (ext_call ''evtchn_close'' [uint (con_local_evtchn c3)] w5)
                           in unmap rc4 c3 w6
                         else (0, c3, w4))"

text \<open>The domain is \<open>None\<close> for a null pointer, otherwise its id, the flag \<open>f_dom0less\<close> and its
  console.  The stack array has \<open>CONFIG_DOMU_MAX\<close> elements.\<close>

definition xen_start_domain_console ::
  "con_cfg \<Rightarrow> u64 \<Rightarrow> xencons_interface \<Rightarrow> (u32 \<times> bool \<times> xen_domain_console) option \<Rightarrow> 'a con_world_scheme \<Rightarrow>
     (int \<times> xen_domain_console option \<times> 'a con_world_scheme) option" where
  "xen_start_domain_console cfg dest page domain w =
     (case domain of
        None \<Rightarrow> Some (- ESRCH, None, w)
      | Some (d, f_dom0less, c) \<Rightarrow>
          if f_dom0less then Some (- ENOTSUP, Some c, w)
          else if ext_running c then Some (- EBUSY, Some c, w)
          else
            let (rc, c1, w1) = xen_init_domain_console cfg dest page d c w in
            if rc \<noteq> 0 then Some (rc, Some c1, w1)
            else
              do { (slot, w2) \<leftarrow> con_get_stack_idx w1;
                   if cc_domu_max cfg \<le> slot then None
                   else Some (0, Some (c1\<lparr>stack_idx := slot, ext_sem := True, stop_ext := False,
                                         ext_running := True\<rparr>), w2) })"

section \<open>Printing\<close>

text \<open>\<open>shell_fprintf("%.*s", size, p)\<close> prints up to the first terminator.  The loop runs while
  \<open>int_cons < int_prod\<close>; \<open>n\<close> bounds its rounds.\<close>

fun display_loop ::
  "nat \<Rightarrow> xen_domain_console \<Rightarrow> 'a con_world_scheme \<Rightarrow> (xen_domain_console \<times> 'a con_world_scheme) option" where
  "display_loop n c w =
     (if \<not> int_cons c < int_prod c then Some (c, w)
      else
        case n of
          0 \<Rightarrow> None
        | Suc m \<Rightarrow>
            do { buf \<leftarrow> int_buf c;
                 let buf_pos = int_mask (int_cons c);
                     prod_buf_pos = int_mask (int_prod c);
                     size = (if buf_pos < prod_buf_pos then prod_buf_pos - buf_pos
                             else XEN_CONSOLE_BUFFER_SZ - buf_pos)
                 in display_loop m (c\<lparr>int_cons := int_cons c + of_nat size\<rparr>)
                      (w\<lparr>con_printed := con_printed w @
                           takeWhile (\<lambda>ch. ch \<noteq> NUL) (take size (drop buf_pos buf))\<rparr>) })"

declare display_loop.simps [simp del]

text \<open>One round of the printing thread after its wait.  Two pieces are enough for a buffer in order.\<close>

definition display_pass ::
  "xen_domain_console \<Rightarrow> 'a con_world_scheme \<Rightarrow> (xen_domain_console \<times> 'a con_world_scheme) option" where
  "display_pass c w = display_loop 2 (c\<lparr>lost_chars := 0, int_sem := False\<rparr>) w"

text \<open>One round of the reading thread after its wait.\<close>

definition read_pass ::
  "(xencons_interface \<Rightarrow> xencons_interface) list \<Rightarrow> xen_domain_console \<Rightarrow> 'a con_world_scheme \<Rightarrow>
     (xen_domain_console \<times> 'a con_world_scheme) option" where
  "read_pass gs c w =
     do { i \<leftarrow> intf c;
          (i1, c1, w1) \<leftarrow> read_loop gs i (c\<lparr>ext_sem := False\<rparr>) w;
          Some (c1\<lparr>intf := Some i1, int_sem := True\<rparr>, w1) }"

section \<open>Stopping, attaching, input\<close>

text \<open>When \<open>k_thread_join\<close> returns, a reader that was waiting for its semaphore has made one more
  pass, during which the guest did \<open>the reader\<close>; one that was about to test the stop bit has left at
  once (\<open>reader = None\<close>).  The same holds of the attached printer, which \<open>waiting\<close> says.\<close>

definition xen_stop_domain_console ::
  "con_cfg \<Rightarrow> (xencons_interface \<Rightarrow> xencons_interface) list option \<Rightarrow> bool \<Rightarrow>
     (u32 \<times> bool \<times> xen_domain_console) option \<Rightarrow> 'a con_world_scheme \<Rightarrow>
     (int \<times> xen_domain_console option \<times> 'a con_world_scheme) option" where
  "xen_stop_domain_console cfg reader waiting domain w =
     (case domain of
        None \<Rightarrow> Some (- ESRCH, None, w)
      | Some (d, f_dom0less, c) \<Rightarrow>
          if f_dom0less then Some (- ENOTSUP, Some c, w)
          else if \<not> ext_running c then Some (- ESRCH, Some c, w)
          else
            do { (c1, w1) \<leftarrow> (case reader of
                               None \<Rightarrow> Some (c\<lparr>stop_int := True, ext_sem := True\<rparr>, w)
                             | Some gs \<Rightarrow> read_pass gs (c\<lparr>stop_int := True\<rparr>) w);
                 w2 \<leftarrow> con_free_stack_idx (cc_domu_max cfg) (stack_idx c1) w1;
                 (c3, w3) \<leftarrow> (if current_console w2 = Some d
                             then do { (c3, w3) \<leftarrow> (if waiting then display_pass c1 w2
                                                    else Some (c1\<lparr>int_sem := True\<rparr>, w2));
                                       Some (c3\<lparr>stop_int := False\<rparr>, w3\<lparr>current_console := None\<rparr>) }
                             else Some (c1, w2));
                 let w4 = snd (ext_call ''unbind_event_channel'' [uint (con_local_evtchn c3)] w3);
                     (rc1, w5) = ext_call ''evtchn_close'' [uint (con_local_evtchn c3)] w4;
                     (rc2, w6) = xenmem_unmap_region (cc_chunk cfg) (cc_regions cfg) (cc_virt_to_gfn cfg) 1
                                   (intf_addr c3) w5
                 in Some (if rc2 < 0 then rc2 else rc1,
                      Some (c3\<lparr>ext_running := False, stop_ext := False, int_buf := None, intf := None\<rparr>), w6) })"

text \<open>\<open>put_domain\<close> drops the reference of the caller.\<close>

definition xen_attach_domain_console ::
  "('a con_world_scheme \<Rightarrow> 'a con_world_scheme) \<Rightarrow> (u32 \<times> bool \<times> xen_domain_console) option \<Rightarrow>
     'a con_world_scheme \<Rightarrow> int \<times> xen_domain_console option \<times> 'a con_world_scheme" where
  "xen_attach_domain_console put_domain domain w =
     (case domain of
        None \<Rightarrow> (- ESRCH, None, w)
      | Some (d, f_dom0less, c) \<Rightarrow>
          if f_dom0less then (- ENOTSUP, Some c, w)
          else if current_console w \<noteq> None then (- EEXIST, Some c, put_domain w)
          else (0, Some (c\<lparr>first_attach := False, stop_int := False\<rparr>),
                put_domain (w\<lparr>current_console := Some d, bypass := True\<rparr>)))"

abbreviation (input) ESCAPE_CHARACTER :: char where "ESCAPE_CHARACTER \<equiv> CHR 0x1D"

text \<open>The callback of the shell, \<open>c\<close> being the attached console.\<close>

definition console_shell_cb ::
  "char list \<Rightarrow> xen_domain_console \<Rightarrow> 'a con_world_scheme \<Rightarrow>
     (xen_domain_console \<times> 'a con_world_scheme) option" where
  "console_shell_cb data c w =
     (if current_console w = None then Some (c, w\<lparr>bypass := False\<rparr>)
      else if data = [ESCAPE_CHARACTER]
      then Some (c\<lparr>stop_int := True, int_sem := True\<rparr>, w\<lparr>bypass := False\<rparr>)
      else do { i \<leftarrow> intf c;
                Some (c\<lparr>intf := Some (write_to_ext_ring data i)\<rparr>,
                      snd (ext_call ''notify_evtchn'' [uint (con_local_evtchn c)] w)) })"

definition set_console_feed_cb ::
  "(u32 \<times> bool \<times> xen_domain_console) option \<Rightarrow> nat option \<Rightarrow> nat \<Rightarrow> int \<times> xen_domain_console option" where
  "set_console_feed_cb domain cb cb_data =
     (case domain of
        None \<Rightarrow> (- ESRCH, None)
      | Some (d, f_dom0less, c) \<Rightarrow> (0, Some (c\<lparr>on_feed_cb := cb, on_feed_cb_data := cb_data\<rparr>)))"

section \<open>The stacks keep the contract of the allocator\<close>

lemma con_free_stack_ok:
  "i \<in> slots (con_used_threads w) \<Longrightarrow> i < n \<Longrightarrow>
   \<exists>u. con_free_stack_idx n i w = Some (w\<lparr>con_used_threads := u\<rparr>) \<and> slots u = slots (con_used_threads w) - {i}"
  using bitmap_free_spec [of i "con_used_threads w" n] by (auto simp: con_free_stack_idx_def)

interpretation con_stacks: slot_allocator "\<lambda>w :: 'a con_world_scheme. slots (con_used_threads w)"
  con_get_stack_idx con_free_stack_idx
proof
  fix w w' :: "'a con_world_scheme" and i j n
  show "finite (slots (con_used_threads w))" by simp
  show "\<exists>w'. con_free_stack_idx n i w = Some w' \<and> slots (con_used_threads w') = slots (con_used_threads w) - {i}"
    if "i \<in> slots (con_used_threads w)" "i < n" using con_free_stack_ok [OF that] by auto
  show "\<exists>i w'. con_get_stack_idx w = Some (i, w')" if "card (slots (con_used_threads w)) < 32"
    using that bitmap_get_None [of "con_used_threads w"]
    by (cases "bitmap_get (con_used_threads w)") (auto simp: con_get_stack_idx_def)
  assume "con_get_stack_idx w = Some (i, w')"
  then have g: "bitmap_get (con_used_threads w) = Some (i, con_used_threads w')"
    by (auto simp: con_get_stack_idx_def split: bind_splits)
  note sp = bitmap_get_spec [OF g]
  show "i \<notin> slots (con_used_threads w)" "slots (con_used_threads w') = insert i (slots (con_used_threads w))"
    using sp by simp_all
  show "j < i \<Longrightarrow> j \<in> slots (con_used_threads w)" using sp(3) by simp
qed

end
