(* ===== verification/Console_Props.thy ===== *)
theory Console_Props
  imports Console
begin

text \<open>
  The properties of the console: the internal ring keeps the latest output of the guest and counts
  what it drops, printing shows it completely and in order, stacks are returned; and input to the
  guest goes astray once the producer index has passed the size of the input ring.
\<close>

section \<open>The internal ring\<close>

definition int_ok :: "xen_domain_console \<Rightarrow> bool" where
  "int_ok c \<longleftrightarrow>
     (case int_buf c of None \<Rightarrow> False | Some buf \<Rightarrow> length buf = XEN_CONSOLE_BUFFER_SZ) \<and>
     unat (int_cons c) \<le> unat (int_prod c) \<and> unat (int_prod c) - unat (int_cons c) \<le> 8191"

definition int_contents :: "xen_domain_console \<Rightarrow> char list" where
  "int_contents c =
     (case int_buf c of
        None \<Rightarrow> []
      | Some buf \<Rightarrow> ring_slice buf (unat (int_cons c)) (unat (int_prod c) - unat (int_cons c)))"

definition keep_last :: "nat \<Rightarrow> 'a list \<Rightarrow> 'a list" where
  "keep_last n xs = drop (length xs - n) xs"

lemma keep_last_snoc:
  "0 < n \<Longrightarrow> keep_last n (xs @ [x]) = (if n \<le> length xs then tl (keep_last n xs) else xs) @ [x]"
  by (auto simp: keep_last_def drop_Suc Suc_diff_le tl_drop)

lemma keep_last_short: "length xs \<le> n \<Longrightarrow> keep_last n xs = xs"
  by (simp add: keep_last_def)

lemma keep_last_append: "keep_last n (keep_last n xs @ ys) = keep_last n (xs @ ys)"
  by (cases "length xs \<le> n") (auto simp: keep_last_def add.commute)

lemma int_mask_mod: "int_mask i = unat i mod 8192"
proof -
  have "i AND mask 13 = take_bit 13 i" by (simp add: take_bit_eq_mask)
  then have "i AND 8191 = take_bit 13 i" by (simp add: mask_eq_exp_minus_1)
  moreover have "unat (take_bit 13 i) = unat i mod 8192"
    by (simp only: unsigned_take_bit_eq) (simp add: take_bit_eq_mod)
  ultimately show ?thesis by (simp add: int_mask_def)
qed

lemma list_update_blit: "i < length buf \<Longrightarrow> buf[i := x] = blit buf i [x]"
  by (simp add: blit_def upd_conv_take_nth_drop)

lemma ring_slice_tl: "ring_slice buf (Suc s) n = tl (ring_slice buf s (Suc n))"
  using ring_slice_append [of buf s 1 n] by (simp add: ring_slice_def)

lemma unat_Suc64: "unat (x :: u64) + 1 < 2 ^ 64 \<Longrightarrow> unat (x + 1) = unat x + 1"
  by (simp add: unat_word_ariths(1))

text \<open>One character: it is appended, the oldest one is dropped from a full ring.\<close>

lemma feed_step:
  assumes ok: "int_ok c" and room: "unat (int_prod c) + 1 < 2 ^ 64"
  shows "\<exists>c' w'. console_feed_int_ring c ch w = Some (c', w') \<and> int_ok c' \<and>
    int_contents c' = keep_last 8191 (int_contents c @ [ch]) \<and> unat (int_prod c') = unat (int_prod c) + 1 \<and>
    lost_chars c' = lost_chars c + of_nat (length (int_contents c) + 1 - 8191) \<and> intf c' = intf c"
proof -
  obtain buf where buf: "int_buf c = Some buf" "length buf = 8192"
    using ok by (auto simp: int_ok_def split: option.splits)
  let ?s = "unat (int_cons c)" and ?n = "unat (int_prod c) - unat (int_cons c)"
  have n: "?s + ?n = unat (int_prod c)" "?n \<le> 8191" using ok by (auto simp: int_ok_def)
  have p1: "unat (int_prod c + 1) = unat (int_prod c) + 1" by (rule unat_Suc64 [OF room])
  have c1: "unat (int_cons c + 1) = ?s + 1" by (rule unat_Suc64) (use n room in linarith)
  let ?pos = "int_mask (int_prod c)" and ?buf = "buf[int_mask (int_prod c) := ch]"
  have pos: "?pos = (?s + ?n) mod length buf" "?pos < length buf" using n buf by (simp_all add: int_mask_mod)
  have slice: "ring_slice ?buf ?s (?n + 1) = ring_slice buf ?s ?n @ [ch]"
    using ring_slice_blit [of ?pos ?s ?n buf "[ch]"] pos n(2) buf(2) by (simp add: list_update_blit)
  have full: "int_mask (int_prod c + 1) = int_mask (int_cons c) \<longleftrightarrow> ?n = 8191"
  proof -
    have "(?s + (?n + 1)) mod 8192 = ?s mod 8192 \<longleftrightarrow> ?n = 8191"
    proof
      assume e: "(?s + (?n + 1)) mod 8192 = ?s mod 8192"
      show "?n = 8191"
      proof (rule ccontr)
        assume "?n \<noteq> 8191"
        then have "0 < ?n + 1" "?n + 1 < 0 + 8192" using n(2) by auto
        from ring_slot_distinct [OF this, of ?s] e show False by simp
      qed
    qed simp
    moreover have "unat (int_prod c) + 1 = ?s + (?n + 1)" using n(1) by linarith
    ultimately show ?thesis by (simp only: int_mask_mod p1)
  qed
  have cont: "int_contents c = ring_slice buf ?s ?n" using buf by (simp add: int_contents_def)
  let ?c1 = "c\<lparr>int_buf := Some ?buf, int_prod := int_prod c + 1\<rparr>"
  show ?thesis
  proof (cases "?n = 8191")
    case True
    let ?c2 = "?c1\<lparr>lost_chars := lost_chars c + 1, int_cons := int_cons c + 1\<rparr>"
    have "ring_slice ?buf (Suc ?s) ?n = tl (ring_slice buf ?s ?n @ [ch])" using slice ring_slice_tl [of ?buf ?s ?n] by simp
    moreover have "ring_slice buf ?s ?n \<noteq> []" using True by (metis length_ring_slice list.size(3) zero_neq_numeral)
    ultimately have "int_contents ?c2 = keep_last 8191 (int_contents c @ [ch])"
      unfolding keep_last_snoc [OF zero_less_numeral] cont using True p1 c1 n(1)
      by (simp add: int_contents_def keep_last_short)
    moreover have "int_ok ?c2" using buf n p1 c1 by (simp add: int_ok_def)
    ultimately show ?thesis using buf full True p1 cont
      by (cases "on_feed_cb c") (auto simp: console_feed_int_ring_def Let_def)
  next
    case False
    have "Suc (unat (int_prod c)) - ?s = Suc ?n" using n(1) by linarith
    then have "int_contents ?c1 = keep_last 8191 (int_contents c @ [ch])"
      using False n slice p1 cont by (simp add: int_contents_def keep_last_short)
    moreover have "int_ok ?c1" using buf n p1 False by (simp add: int_ok_def)
    ultimately show ?thesis using buf full False p1 cont n
      by (cases "on_feed_cb c") (auto simp: console_feed_int_ring_def Let_def)
  qed
qed

section \<open>Output of the guest\<close>

text \<open>What the guest has written and the control domain has not read.\<close>

definition guest_output :: "xencons_interface \<Rightarrow> char list" where
  "guest_output i = ring_slice (drop IN_SIZE (con_bytes i)) (unat (out_cons i)) (unat (out_prod i - out_cons i))"

lemma out_mask_mod: "MASK_XENCONS_IDX idx OUT_SIZE = unat idx mod 2048"
proof -
  have "idx AND mask 11 = take_bit 11 idx" by (simp add: take_bit_eq_mask)
  then have "idx AND 2047 = take_bit 11 idx" by (simp add: mask_eq_exp_minus_1)
  moreover have "unat (take_bit 11 idx) = unat idx mod 2048"
    by (simp only: unsigned_take_bit_eq) (simp add: take_bit_eq_mod)
  ultimately show ?thesis by (simp add: MASK_XENCONS_IDX_def)
qed

lemma length_int_contents: "int_ok c \<Longrightarrow> length (int_contents c) \<le> 8191"
  by (auto simp: int_ok_def int_contents_def split: option.splits)

lemma length_keep_last: "length (keep_last n xs) = min n (length xs)"
  by (simp add: keep_last_def)

lemma read_chars_ok:
  fixes w :: "'a con_world_scheme"
  assumes "int_ok c" "unat (int_prod c) + n < 2 ^ 64" "length bytes = 3072" "n \<le> 2048"
  shows "\<exists>c' w'. read_chars n bytes cons c w = Some (cons + of_nat n, c', w') \<and> int_ok c' \<and> intf c' = intf c \<and>
    int_contents c' = keep_last 8191 (int_contents c @ ring_slice (drop IN_SIZE bytes) (unat cons) n) \<and>
    lost_chars c' = lost_chars c + of_nat (length (int_contents c) + n - 8191)"
  using assms
proof (induction n arbitrary: cons c w)
  case 0
  then show ?case using length_int_contents [OF 0(1)] by (simp add: keep_last_short)
next
  case (Suc n)
  let ?ch = "bytes ! (IN_SIZE + MASK_XENCONS_IDX cons OUT_SIZE)" and ?out = "drop IN_SIZE bytes"
  obtain c1 w1 where f: "console_feed_int_ring c ?ch w = Some (c1, w1)" "int_ok c1"
      "int_contents c1 = keep_last 8191 (int_contents c @ [?ch])" "unat (int_prod c1) = unat (int_prod c) + 1"
      "lost_chars c1 = lost_chars c + of_nat (length (int_contents c) + 1 - 8191)" "intf c1 = intf c"
    using feed_step [OF Suc.prems(1), of ?ch w] Suc.prems(2) by auto
  obtain c' w' where r: "read_chars n bytes (cons + 1) c1 w1 = Some (cons + 1 + of_nat n, c', w')" "int_ok c'" "intf c' = intf c1"
      "int_contents c' = keep_last 8191 (int_contents c1 @ ring_slice ?out (unat (cons + 1)) n)"
      "lost_chars c' = lost_chars c1 + of_nat (length (int_contents c1) + n - 8191)"
    using Suc.IH [OF f(2), of "cons + 1" w1] Suc.prems(2-4) f(4) by auto
  have "unat (cons + 1) mod 2048 = (unat cons + 1) mod 2048" using unat_add_mod_pow2 [of 11 cons 1] by simp
  then have sl: "ring_slice ?out (unat (cons + 1)) n = ring_slice ?out (unat cons + 1) n"
    using Suc.prems(3) by (intro ring_slice_start_mod) simp
  have ch: "ring_slice ?out (unat cons) 1 = [?ch]"
    using Suc.prems(3) by (simp add: ring_slice_def out_mask_mod)
  have "ring_slice ?out (unat cons) (Suc n) = ?ch # ring_slice ?out (unat (cons + 1)) n"
    using ring_slice_append [of ?out "unat cons" 1 n] ch sl by simp
  then have "int_contents c' = keep_last 8191 (int_contents c @ ring_slice ?out (unat cons) (Suc n))"
    using r(4) f(3) keep_last_append [of 8191 "int_contents c @ [?ch]"] by simp
  moreover have "length (int_contents c1) = min 8191 (length (int_contents c) + 1)" using f(3) by (simp add: length_keep_last)
  then have l: "(length (int_contents c) + 1 - 8191) + (length (int_contents c1) + n - 8191) = length (int_contents c) + Suc n - 8191"
    using length_int_contents [OF Suc.prems(1)] by auto
  have "lost_chars c' = lost_chars c + of_nat (length (int_contents c) + Suc n - 8191)"
    unfolding l [symmetric] of_nat_add r(5) f(5) by (simp only: add.assoc)
  moreover have "cons + 1 + of_nat n = cons + of_nat (Suc n)" by simp
  ultimately show ?case using f(1,6) r(1-3) by simp
qed

text \<open>C23. Reading the output of a guest takes all of it from the shared ring, and the internal ring
  then holds the last 8191 characters of what it held followed by the output; the counter of lost
  characters grows by exactly the number dropped.\<close>

theorem console_keeps_latest:
  assumes "int_ok c" "length (con_bytes i) = 3072" "unat (out_prod i - out_cons i) \<le> 2048"
    "unat (int_prod c) + 2048 < 2 ^ 64"
  shows "\<exists>i' c' w'. read_from_ext_ring i c w = Some (length (guest_output i), i', c', w') \<and>
    guest_output i' = [] \<and> int_ok c' \<and>
    int_contents c' = keep_last 8191 (int_contents c @ guest_output i) \<and>
    lost_chars c' = lost_chars c + of_nat (length (int_contents c) + length (guest_output i) - 8191)"
proof -
  let ?n = "unat (out_prod i - out_cons i)"
  obtain c' w' where "read_chars ?n (con_bytes i) (out_cons i) c w = Some (out_cons i + of_nat ?n, c', w')" "int_ok c'"
      "int_contents c' = keep_last 8191 (int_contents c @ guest_output i)"
      "lost_chars c' = lost_chars c + of_nat (length (int_contents c) + ?n - 8191)"
    using read_chars_ok [OF assms(1) _ assms(2,3), of "out_cons i" w] assms(3,4) by (auto simp: guest_output_def)
  then show ?thesis using assms(3) by (simp add: read_from_ext_ring_def guest_output_def)
qed

definition ex_console :: xen_domain_console where
  "ex_console = \<lparr>intf = None, intf_addr = 0, ext_sem = True, int_sem = True, ext_running = True, stop_ext = False,
     stop_int = False, con_evtchn = 1, con_local_evtchn = 2, stack_idx = 0, first_attach = True,
     int_buf = Some (replicate 8192 NUL), int_prod = 0, int_cons = 0, lost_chars = 0, on_feed_cb = None,
     on_feed_cb_data = 0\<rparr>"

definition ex_con_page :: xencons_interface where
  "ex_con_page = \<lparr>con_bytes = replicate 1024 NUL @ ''hi'' @ replicate 2046 NUL, in_cons = 1024, in_prod = 1024,
     out_cons = 0, out_prod = 2\<rparr>"

lemma ex_console_ok: "int_ok ex_console" "int_contents ex_console = []"
  by (simp_all add: int_ok_def int_contents_def ex_console_def)

lemma ex_guest_output: "guest_output ex_con_page = ''hi''"
  by (simp add: guest_output_def ex_con_page_def ring_slice_def upt_rec)

definition ex_con_world :: con_world where
  "ex_con_world = \<lparr>mallocs = [], locks = [], hcalls = [], trace = [], con_used_threads = 1, current_console = None,
     feed_log = [], con_printed = [], bypass = False\<rparr>"

theorem console_keeps_latest_witness:
  "\<exists>i' c' w'. read_from_ext_ring ex_con_page ex_console ex_con_world = Some (2, i', c', w') \<and>
     int_contents c' = ''hi'' \<and> lost_chars c' = 0"
proof -
  have "length (con_bytes ex_con_page) = 3072" "unat (out_prod ex_con_page - out_cons ex_con_page) \<le> 2048"
    "unat (int_prod ex_console) + 2048 < 2 ^ 64" by (simp_all add: ex_con_page_def ex_console_def)
  from console_keeps_latest [OF ex_console_ok(1) this, of ex_con_world] ex_console_ok(2) ex_guest_output
  show ?thesis by (auto simp: keep_last_def ex_console_def)
qed

section \<open>Printing\<close>

lemma takeWhile_NUL: "NUL \<notin> set xs \<Longrightarrow> takeWhile (\<lambda>ch. ch \<noteq> NUL) xs = xs"
  by (simp add: takeWhile_eq_all_conv) metis

lemma piece_arith:
  fixes a n b m :: nat
  assumes "a < 8192" "0 < n" "n \<le> 8191" "b = (a + n) mod 8192" "m = (if a < b then b - a else 8192 - a)"
  shows "0 < m \<and> m \<le> n \<and> a + m \<le> 8192 \<and> (m = n \<or> a + m = 8192)"
proof (cases "a + n < 8192")
  case True
  then show ?thesis using assms by simp
next
  case False
  have "a + n - 8192 < 8192" using assms(1,3) by linarith
  then have "b = a + n - 8192" unfolding assms(4) using False by (simp add: le_mod_geq)
  then have "\<not> a < b" using assms(3) by linarith
  then have "m = 8192 - a" using assms(5) by simp
  then show ?thesis using False assms(1) by linarith
qed

lemma contents_length: "int_ok c \<Longrightarrow> length (int_contents c) = unat (int_prod c) - unat (int_cons c)"
  by (auto simp: int_ok_def int_contents_def split: option.splits)

lemma contents_lt: "int_ok c \<Longrightarrow> int_cons c < int_prod c \<longleftrightarrow> int_contents c \<noteq> []"
  unfolding length_greater_0_conv [symmetric] word_less_nat_alt
  by (simp only: contents_length zero_less_diff)

text \<open>One piece: from the consumer index to the producer index or to the end of the buffer.\<close>

lemma display_piece:
  fixes w :: "'a con_world_scheme"
  assumes ok: "int_ok c" and lt: "int_cons c < int_prod c"
  shows "\<exists>m c1 w1. m = min (length (int_contents c)) (8192 - unat (int_cons c) mod 8192) \<and> 0 < m \<and>
    display_loop (Suc k) c w = display_loop k c1 w1 \<and> lost_chars c1 = lost_chars c \<and>
    con_printed w1 = con_printed w @ takeWhile (\<lambda>ch. ch \<noteq> NUL) (take m (int_contents c)) \<and> int_ok c1 \<and>
    int_contents c1 = drop m (int_contents c) \<and>
    (m = length (int_contents c) \<or> unat (int_cons c1) mod 8192 = 0) \<and>
    (unat (int_cons c) mod 8192 = 0 \<longrightarrow> m = length (int_contents c))"
proof -
  obtain buf where buf: "int_buf c = Some buf" "length buf = 8192"
    using ok by (auto simp: int_ok_def split: option.splits)
  let ?s = "unat (int_cons c)" and ?n = "unat (int_prod c) - unat (int_cons c)"
  let ?a = "?s mod 8192" and ?b = "unat (int_prod c) mod 8192"
  have n: "?s + ?n = unat (int_prod c)" "?n \<le> 8191" "0 < ?n"
    using ok lt by (auto simp: int_ok_def word_less_nat_alt)
  have cont: "int_contents c = ring_slice buf ?s ?n" using buf by (simp add: int_contents_def)
  define m where "m = (if ?a < ?b then ?b - ?a else 8192 - ?a)"
  have b: "?b = (?a + ?n) mod 8192" using n(1) by (metis mod_add_left_eq)
  have a: "?a < 8192" by simp
  have m: "0 < m" "m \<le> ?n" "?a + m \<le> 8192" "m = ?n \<or> ?a + m = 8192"
    using piece_arith [OF a n(3,2) b m_def] by simp_all
  have split: "ring_slice buf ?s ?n = ring_slice buf ?s m @ ring_slice buf (?s + m) (?n - m)"
    using ring_slice_append [of buf ?s m "?n - m"] unfolding le_add_diff_inverse [OF m(2)] .
  have piece: "take m (drop ?a buf) = ring_slice buf ?s m"
    using ring_slice_contiguous [of ?s buf m] m(3) buf(2) by simp
  have tk: "take m (int_contents c) = ring_slice buf ?s m" "drop m (int_contents c) = ring_slice buf (?s + m) (?n - m)"
    unfolding cont split by simp_all
  have pr: "take m (drop ?a buf) = take m (int_contents c)" unfolding piece tk(1) ..
  have "?s + m < 2 ^ 64" using n(1) m(2) unsigned_less [where ?'a = nat, of "int_prod c"] by simp
  then have u: "unat (int_cons c + of_nat m) = ?s + m" by (simp add: unat_word_ariths(1) unat_of_nat take_bit_eq_mod)
  let ?c1 = "c\<lparr>int_cons := int_cons c + of_nat m\<rparr>"
  let ?w1 = "w\<lparr>con_printed := con_printed w @ takeWhile (\<lambda>ch. ch \<noteq> NUL) (take m (int_contents c))\<rparr>"
  have "display_loop (Suc k) c w = display_loop k ?c1 ?w1"
    by (subst display_loop.simps) (use lt buf pr in \<open>simp add: int_mask_mod m_def Let_def\<close>)
  moreover have "?s + m \<le> unat (int_prod c)" "unat (int_prod c) - (?s + m) \<le> 8191" using n m(2) by linarith+
  then have "int_ok ?c1" using buf u by (simp add: int_ok_def)
  moreover have "int_contents ?c1 = drop m (int_contents c)"
    unfolding tk(2) using buf u by (simp add: int_contents_def)
  moreover have "m = length (int_contents c) \<or> unat (int_cons ?c1) mod 8192 = 0"
  proof (cases "m = ?n")
    case False
    then have "?a + m = 8192" using m(4) by simp
    then have "(?s + m) mod 8192 = 0" by (metis mod_add_left_eq mod_self)
    then show ?thesis using u by simp
  qed (simp add: cont)
  moreover have "?a = 0 \<longrightarrow> m = length (int_contents c)" using m(2,4) n(2) by (auto simp: cont)
  moreover have "m = min (length (int_contents c)) (8192 - ?a)" using m(2-4) by (auto simp: cont)
  ultimately show ?thesis using m(1) by (intro exI [of _ m] exI [of _ ?c1] exI [of _ ?w1]) simp
qed

text \<open>C29. One pass of the printing thread ends and empties the internal ring.  It takes the contents in two
  pieces, of which the second may be empty: up to the end of the buffer and from its start; each is
  printed in order up to its first NUL character.  Without such characters everything is printed.\<close>

theorem display_prints_contents:
  assumes "int_ok c"
  shows "\<exists>c' w'. display_pass c w = Some (c', w') \<and> int_contents c' = [] \<and> int_ok c' \<and> lost_chars c' = 0 \<and>
    (let first = take (8192 - unat (int_cons c) mod 8192) (int_contents c); second = drop (8192 - unat (int_cons c) mod 8192) (int_contents c)
     in con_printed w' = con_printed w @ takeWhile (\<lambda>ch. ch \<noteq> NUL) first @ takeWhile (\<lambda>ch. ch \<noteq> NUL) second \<and>
        (NUL \<notin> set (int_contents c) \<longrightarrow> con_printed w' = con_printed w @ int_contents c))"
proof -
  let ?c = "c\<lparr>lost_chars := 0, int_sem := False\<rparr>" and ?P = "takeWhile (\<lambda>ch. ch \<noteq> NUL)" and ?m = "8192 - unat (int_cons c) mod 8192"
  have c: "int_ok ?c" "int_contents ?c = int_contents c" using assms by (cases "int_buf c"; simp add: int_ok_def int_contents_def)+
  have stop: "display_loop k x v = Some (x, v)" if "int_contents x = []" "int_ok x" for k x and v :: "'a con_world_scheme"
    using contents_lt [OF that(2)] that(1) by (subst display_loop.simps) simp
  have go: "int_cons x < int_prod x" if "int_contents x \<noteq> []" "int_ok x" for x
    using contents_lt [OF that(2)] that(1) by simp
  have "\<exists>c' w'. display_pass c w = Some (c', w') \<and> int_contents c' = [] \<and> int_ok c' \<and> lost_chars c' = 0 \<and>
    con_printed w' = con_printed w @ ?P (take ?m (int_contents c)) @ ?P (drop ?m (int_contents c))"
  proof (cases "int_contents c = []")
    case True
    then show ?thesis using stop [of ?c] c by (simp add: display_pass_def)
  next
    case False
    then have ne: "int_contents ?c \<noteq> []" using c(2) by simp
    obtain m c1 w1 where p: "m = min (length (int_contents c)) ?m" "display_loop (Suc 1) ?c w = display_loop 1 c1 w1"
        "lost_chars c1 = 0" "con_printed w1 = con_printed w @ ?P (take m (int_contents c))"
        "int_ok c1" "int_contents c1 = drop m (int_contents c)" "m = length (int_contents c) \<or> unat (int_cons c1) mod 8192 = 0"
      using display_piece [OF c(1) go [OF ne c(1)], of 1 w] unfolding c(2) by (elim exE conjE) (rule that; simp)
    have td: "take m (int_contents c) = take ?m (int_contents c)" "drop m (int_contents c) = drop ?m (int_contents c)"
      unfolding p(1) by (cases "length (int_contents c) \<le> ?m"; simp)+
    show ?thesis
    proof (cases "m = length (int_contents c)")
      case True
      then show ?thesis using p td stop [of c1 1 w1] by (simp add: display_pass_def numeral_2_eq_2)
    next
      case more: False
      have ne: "int_contents c1 \<noteq> []" using p(1,6) more by simp
      have "unat (int_cons c1) mod 8192 = 0" using p(7) more by blast
      then obtain c2 w2 where q: "display_loop 1 c1 w1 = display_loop 0 c2 w2" "lost_chars c2 = lost_chars c1"
          "con_printed w2 = con_printed w1 @ ?P (int_contents c1)" "int_ok c2" "int_contents c2 = []"
        using display_piece [OF p(5) go [OF ne p(5)], of 0 w1] unfolding One_nat_def by auto
      then show ?thesis using p q td stop [of c2 0 w2] by (simp add: display_pass_def numeral_2_eq_2)
    qed
  qed
  moreover have "?P (take ?m (int_contents c)) @ ?P (drop ?m (int_contents c)) = int_contents c" if "NUL \<notin> set (int_contents c)"
    using that takeWhile_NUL in_set_takeD [of NUL] in_set_dropD [of NUL] by (metis append_take_drop_id)
  ultimately show ?thesis by (auto simp: Let_def)
qed

text \<open>The contents of this console wrap around the end of the buffer.\<close>

definition ex_wrapped :: xen_domain_console where
  "ex_wrapped = ex_console\<lparr>int_buf := Some (''lo'' @ replicate 8188 NUL @ ''el''),
     int_cons := 8190, int_prod := 8194, lost_chars := 3\<rparr>"

lemma ex_wrapped_ok: "int_ok ex_wrapped" "int_contents ex_wrapped = ''ello''"
  by (simp_all add: ex_wrapped_def int_ok_def int_contents_def ring_slice_def nth_append upt_rec)

theorem display_prints_contents_witness:
  "\<exists>c' w'. display_pass ex_wrapped ex_con_world = Some (c', w') \<and> con_printed w' = ''ello'' \<and> int_contents c' = []"
  using display_prints_contents [OF ex_wrapped_ok(1), of ex_con_world] ex_wrapped_ok(2)
  by (auto simp: ex_con_world_def Let_def)

section \<open>Input to the guest\<close>

text \<open>The two rings of the page.\<close>

abbreviation con_in :: "xencons_interface \<Rightarrow> char list" where
  "con_in i \<equiv> take IN_SIZE (con_bytes i)"

abbreviation con_out :: "xencons_interface \<Rightarrow> char list" where
  "con_out i \<equiv> drop IN_SIZE (con_bytes i)"

text \<open>C35. A character typed into the console is stored in the slot of the input ring that the
  producer index names as long as this index is below 1024 modulo 2048; for the other half of the
  values it is stored in the output ring of the guest, the input ring keeps what it held, and the
  guest is told that input has arrived.\<close>

theorem console_input_corrupts_output:
  assumes "length (con_bytes i) = 3072" "unat (in_prod i - in_cons i) < 1024"
  defines "p \<equiv> unat (in_prod i) mod 2048"
  shows "in_prod (write_to_ext_ring [ch] i) = in_prod i + 1 \<and>
    (if p < 1024
     then con_in (write_to_ext_ring [ch] i) = (con_in i)[unat (in_prod i) mod 1024 := ch] \<and>
          con_out (write_to_ext_ring [ch] i) = con_out i
     else con_in (write_to_ext_ring [ch] i) = con_in i \<and>
          con_out (write_to_ext_ring [ch] i) = (con_out i)[p - 1024 := ch])"
proof -
  have "\<not> 1024 < unat (in_prod i - in_cons i)" "take (1024 - unat (in_prod i - in_cons i)) [ch] = [ch]"
    using assms(2) by simp_all
  then have w: "write_to_ext_ring [ch] i = i\<lparr>con_bytes := (con_bytes i)[p := ch], in_prod := in_prod i + 1\<rparr>"
    by (simp add: write_to_ext_ring_def out_mask_mod p_def Let_def)
  have "p = unat (in_prod i) mod 1024" if "p < 1024"
  proof -
    have "unat (in_prod i) mod 1024 = p mod 1024" unfolding p_def by (simp add: mod_mod_cancel)
    then show ?thesis using that by simp
  qed
  then show ?thesis unfolding w using assms(1) by (auto simp: take_update_swap drop_update_swap list_update_beyond)
qed

theorem console_input_corrupts_output_witness:
  "con_in (write_to_ext_ring ''x'' ex_con_page) = replicate 1024 NUL \<and>
   guest_output (write_to_ext_ring ''x'' ex_con_page) = ''xi''"
proof -
  have p: "length (con_bytes ex_con_page) = 3072" "unat (in_prod ex_con_page - in_cons ex_con_page) < 1024"
    "\<not> unat (in_prod ex_con_page) mod 2048 < 1024" "unat (in_prod ex_con_page) mod 2048 - 1024 = 0"
    "con_in ex_con_page = replicate 1024 NUL" "con_out ex_con_page = ''hi'' @ replicate 2046 NUL"
    by (simp_all add: ex_con_page_def)
  have r: "con_in (write_to_ext_ring ''x'' ex_con_page) = replicate 1024 NUL"
    "con_out (write_to_ext_ring ''x'' ex_con_page) = ''xi'' @ replicate 2046 NUL"
    using console_input_corrupts_output [OF p(1,2), of "CHR ''x''"] p(3-6) by simp_all
  have "out_cons (write_to_ext_ring ''x'' ex_con_page) = 0" "out_prod (write_to_ext_ring ''x'' ex_con_page) = 2"
    by (simp_all add: write_to_ext_ring_def ex_con_page_def Let_def)
  then show ?thesis using r by (simp add: guest_output_def ring_slice_def upt_rec)
qed

end
