(* ===== verification/Vchan.thy ===== *)
theory Vchan
  imports Xs_Local Byte_Ring
begin

text \<open>
  The virtual channel of \<open>vch.c\<close>: one shared page with two byte rings, of 1024 and 2048 bytes, at
  the offsets of their sizes.  The page is an argument of the functions, since both ends see it;
  a handle has what its owner keeps.  Results are \<open>None\<close> where the code would access memory
  outside the data area of the page or follow a null pointer.
\<close>

section \<open>Data\<close>

record ring_shared =
  rs_cons :: u32
  rs_prod :: u32

text \<open>\<open>struct vchan_interface\<close> at the start of the page; \<open>page_bytes\<close> are the bytes of the whole page.\<close>

record vchan_interface =
  left :: ring_shared
  right :: ring_shared
  left_order :: u16
  right_order :: u16
  cli_live :: u8
  srv_live :: u8
  cli_notify :: u8
  srv_notify :: u8
  page_bytes :: "char list"

abbreviation (input) XEN_PAGE_SIZE :: nat where "XEN_PAGE_SIZE \<equiv> 4096"
abbreviation (input) VCHAN_HDR_SIZE :: nat where "VCHAN_HDR_SIZE \<equiv> 24"
abbreviation (input) VCHAN_NOTIFY_WRITE :: u8 where "VCHAN_NOTIFY_WRITE \<equiv> 1"
abbreviation (input) VCHAN_NOTIFY_READ :: u8 where "VCHAN_NOTIFY_READ \<equiv> 2"

text \<open>\<open>has_ring\<close>: the pointer \<open>ring\<close> is set.  The pointers \<open>read\<close> and \<open>write\<close> follow from
  \<open>is_server\<close>; \<open>read_cbuf\<close> and \<open>write_cbuf\<close> are offsets in the page.\<close>

record vch_handle =
  evtch :: u32
  gref :: u32
  grant_handle :: u32
  blocking :: bool
  vch_sem :: bool
  is_server :: bool
  has_ring :: bool
  write_cbuf :: nat
  write_ord :: nat
  read_cbuf :: nat
  read_ord :: nat
  vch_path :: string

definition vch_zero :: vch_handle where
  "vch_zero = \<lparr>evtch = 0, gref = 0, grant_handle = 0, blocking = False, vch_sem = False, is_server = False,
     has_ring = False, write_cbuf = 0, write_ord = 0, read_cbuf = 0, read_ord = 0, vch_path = []\<rparr>"

definition vch_rd :: "vch_handle \<Rightarrow> vchan_interface \<Rightarrow> ring_shared" where
  "vch_rd h r = (if is_server h then left r else right r)"

definition vch_wr :: "vch_handle \<Rightarrow> vchan_interface \<Rightarrow> ring_shared" where
  "vch_wr h r = (if is_server h then right r else left r)"

definition set_rd_cons :: "vch_handle \<Rightarrow> u32 \<Rightarrow> vchan_interface \<Rightarrow> vchan_interface" where
  "set_rd_cons h c r =
     (if is_server h then r\<lparr>left := (left r)\<lparr>rs_cons := c\<rparr>\<rparr> else r\<lparr>right := (right r)\<lparr>rs_cons := c\<rparr>\<rparr>)"

definition set_wr_prod :: "vch_handle \<Rightarrow> u32 \<Rightarrow> vchan_interface \<Rightarrow> vchan_interface" where
  "set_wr_prod h p r =
     (if is_server h then r\<lparr>right := (right r)\<lparr>rs_prod := p\<rparr>\<rparr> else r\<lparr>left := (left r)\<lparr>rs_prod := p\<rparr>\<rparr>)"

section \<open>Memory of the page\<close>

definition in_data :: "nat \<Rightarrow> nat \<Rightarrow> bool" where
  "in_data off n \<longleftrightarrow> VCHAN_HDR_SIZE \<le> off \<and> off + n \<le> XEN_PAGE_SIZE"

definition page_read :: "nat \<Rightarrow> nat \<Rightarrow> vchan_interface \<Rightarrow> char list option" where
  "page_read off n r =
     (if n = 0 then Some [] else if in_data off n then Some (take n (drop off (page_bytes r))) else None)"

definition page_write :: "nat \<Rightarrow> char list \<Rightarrow> vchan_interface \<Rightarrow> vchan_interface option" where
  "page_write off d r =
     (if d = [] then Some r
      else if in_data off (length d) then Some (r\<lparr>page_bytes := blit (page_bytes r) off d\<rparr>) else None)"

text \<open>\<open>1 << ord\<close> as an \<open>int\<close>.\<close>

definition shift1 :: "nat \<Rightarrow> nat option" where
  "shift1 n = (if n < 31 then Some (2 ^ n) else None)"

section \<open>Notification\<close>

definition vch_notify_cb :: "vch_handle \<Rightarrow> vch_handle" where
  "vch_notify_cb h = h\<lparr>vch_sem := True\<rparr>"

definition vch_notify ::
  "vch_handle \<Rightarrow> u8 \<Rightarrow> vchan_interface \<Rightarrow> 'a env_scheme \<Rightarrow> int \<times> vchan_interface \<times> 'a env_scheme" where
  "vch_notify h rw r w =
     (if \<not> has_ring h then (- EINVAL, r, w)
      else
        let val = (if is_server h then srv_notify r else cli_notify r);
            r1 = (if is_server h then r\<lparr>srv_notify := val AND NOT rw\<rparr> else r\<lparr>cli_notify := val AND NOT rw\<rparr>)
        in if val AND rw \<noteq> 0
           then let (rc, w1) = ext_call ''notify_evtchn'' [uint (evtch h)] w in (rc, r1, w1)
           else (0, r1, w))"

definition vch_is_live :: "vch_handle \<Rightarrow> vchan_interface \<Rightarrow> bool" where
  "vch_is_live h r = (has_ring h \<and> (if is_server h then cli_live r \<noteq> 0 else srv_live r \<noteq> 0))"

definition vch_unmask_notify :: "vch_handle \<Rightarrow> u8 \<Rightarrow> vchan_interface \<Rightarrow> vchan_interface" where
  "vch_unmask_notify h b r =
     (if is_server h then r\<lparr>cli_notify := cli_notify r OR b\<rparr> else r\<lparr>srv_notify := srv_notify r OR b\<rparr>)"

definition vch_get_rd_avail :: "vch_handle \<Rightarrow> vchan_interface \<Rightarrow> nat" where
  "vch_get_rd_avail h r = unat (rs_prod (vch_rd h r) - rs_cons (vch_rd h r))"

definition vch_get_wr_avail :: "vch_handle \<Rightarrow> nat \<Rightarrow> vchan_interface \<Rightarrow> nat" where
  "vch_get_wr_avail h sz r = unat (of_nat sz - (rs_prod (vch_wr h r) - rs_cons (vch_wr h r)))"

section \<open>Reading and writing\<close>

text \<open>A call that waits for ever has no result.  \<open>gs\<close> are the actions of the peer on the page that
  end the coming waits of the call.\<close>

datatype 'r vch_run = Done 'r | Blocked

fun vch_read ::
  "(vchan_interface \<Rightarrow> vchan_interface) list \<Rightarrow> vch_handle option \<Rightarrow> bool \<Rightarrow> nat \<Rightarrow> vchan_interface \<Rightarrow>
     'a env_scheme \<Rightarrow> ((int \<times> char list) vch_run \<times> vchan_interface \<times> 'a env_scheme) option" where
  "vch_read gs handle buf n r w =
     (case handle of
        None \<Rightarrow> Some (Done (- EINVAL, []), r, w)
      | Some h \<Rightarrow>
          if \<not> vch_is_live h r then Some (Done (- ENOTCONN, []), r, w)
          else
            let avail = vch_get_rd_avail h r in
            if avail \<noteq> 0 then
              do { sz \<leftarrow> shift1 (read_ord h);
                   let idx = unat (rs_cons (vch_rd h r) AND (of_nat sz - 1));
                       size = min n avail;
                       chunk = min (sz - idx) size
                   in if \<not> buf then Some (Done (- ENOBUFS, []), r, w)
                      else
                        do { d1 \<leftarrow> page_read (read_cbuf h + idx) chunk r;
                             d2 \<leftarrow> page_read (read_cbuf h) (size - chunk) r;
                             let r1 = set_rd_cons h (rs_cons (vch_rd h r) + of_nat size) r;
                                 (rc, r2, w2) = vch_notify h VCHAN_NOTIFY_READ r1 w
                             in Some (Done (if rc \<noteq> 0 then - EFAULT else int size, d1 @ d2), r2, w2) } }
            else
              let r1 = vch_unmask_notify h VCHAN_NOTIFY_WRITE r in
              if \<not> blocking h then Some (Done (0, []), r1, w)
              else
                case gs of
                  [] \<Rightarrow> Some (Blocked, r1, w)
                | g # gs' \<Rightarrow> vch_read gs' handle buf n (g r1) w)"

fun vch_write ::
  "(vchan_interface \<Rightarrow> vchan_interface) list \<Rightarrow> vch_handle option \<Rightarrow> char list option \<Rightarrow> vchan_interface \<Rightarrow>
     'a env_scheme \<Rightarrow> (int vch_run \<times> vchan_interface \<times> 'a env_scheme) option" where
  "vch_write gs handle buf r w =
     (case handle of
        None \<Rightarrow> Some (Done (- EINVAL), r, w)
      | Some h \<Rightarrow>
          if \<not> vch_is_live h r then Some (Done (- ENOTCONN), r, w)
          else
            do { sz \<leftarrow> shift1 (write_ord h);
                 let avail = vch_get_wr_avail h sz r in
                 if avail \<noteq> 0 then
                   (case buf of
                      None \<Rightarrow> Some (Done (- ENOBUFS), r, w)
                    | Some d \<Rightarrow>
                        let idx = unat (rs_prod (vch_wr h r) AND (of_nat sz - 1));
                            size = min (length d) avail;
                            chunk = min (sz - idx) size
                        in do { r1 \<leftarrow> page_write (write_cbuf h + idx) (take chunk d) r;
                                r2 \<leftarrow> page_write (write_cbuf h) (take (size - chunk) (drop chunk d)) r1;
                                let r3 = set_wr_prod h (rs_prod (vch_wr h r) + of_nat size) r2;
                                    (rc, r4, w4) = vch_notify h VCHAN_NOTIFY_WRITE r3 w
                                in Some (Done (if rc \<noteq> 0 then - EFAULT else int size), r4, w4) })
                 else
                   let r1 = vch_unmask_notify h VCHAN_NOTIFY_READ r in
                   if \<not> blocking h then Some (Done 0, r1, w)
                   else
                     case gs of
                       [] \<Rightarrow> Some (Blocked, r1, w)
                     | g # gs' \<Rightarrow> vch_write gs' handle buf (g r1) w })"

declare vch_read.simps [simp del] vch_write.simps [simp del]

section \<open>Opening, connecting, closing\<close>

definition empty_page :: vchan_interface where
  "empty_page = \<lparr>left = \<lparr>rs_cons = 0, rs_prod = 0\<rparr>, right = \<lparr>rs_cons = 0, rs_prod = 0\<rparr>, left_order = 0,
     right_order = 0, cli_live = 0, srv_live = 0, cli_notify = 0, srv_notify = 0,
     page_bytes = replicate XEN_PAGE_SIZE NUL\<rparr>"

text \<open>\<open>snprintf\<close> into the buffers of 64 and 8 bytes.\<close>

definition vch_key :: "string \<Rightarrow> string \<Rightarrow> string" where
  "vch_key path leaf = snd (snprintf 64 (path @ leaf))"

definition vch_val :: "u32 \<Rightarrow> string" where
  "vch_val x = snd (snprintf 8 (dec (unat x)))"

text \<open>The two rings: the read order and the write order of the server.\<close>

definition ring_orders :: "nat \<Rightarrow> nat \<Rightarrow> (nat \<times> nat) option" where
  "ring_orders min_rs min_ws =
     (if min_rs \<le> 1024 \<and> min_ws \<le> 2048 then Some (10, 11)
      else if min_rs \<le> 2048 \<and> min_ws \<le> 1024 then Some (11, 10) else None)"

text \<open>The labels \<open>free_gnt\<close> and \<open>free_evtch\<close>; the handle is then cleared.\<close>

definition open_free_evtch :: "int \<Rightarrow> vch_handle \<Rightarrow> 'a env_scheme \<Rightarrow> int \<times> vch_handle \<times> 'a env_scheme" where
  "open_free_evtch rc h w =
     (if evtch h = 0 then (rc, vch_zero, w)
      else let w1 = snd (ext_call ''unbind_event_channel'' [uint (evtch h)] w)
           in (rc, vch_zero, snd (ext_call ''evtchn_close'' [uint (evtch h)] w1)))"

definition open_free_gnt :: "int \<Rightarrow> u32 \<Rightarrow> vch_handle \<Rightarrow> 'a env_scheme \<Rightarrow> int \<times> vch_handle \<times> 'a env_scheme" where
  "open_free_gnt rc ring_gref h w =
     open_free_evtch rc h (snd (ext_call ''gnttab_end_access'' [uint ring_gref] w))"

text \<open>The two entries that tell the peer where to connect.\<close>

definition open_publish ::
  "u32 \<Rightarrow> vch_handle \<Rightarrow> 'a xs_world_scheme \<Rightarrow> (int \<times> 'a xs_world_scheme) option" where
  "open_publish d h w =
     do { (rc, w1) \<leftarrow> xss_write_guest_domain_ro (Some (vch_key (vch_path h) ''/ring-ref'')) (Some (vch_val (gref h))) d w;
          if rc \<noteq> 0 then Some (rc, w1)
          else xss_write_guest_domain_ro (Some (vch_key (vch_path h) ''/event-channel'')) (Some (vch_val (evtch h))) d w1 }"

definition vch_open ::
  "nat \<Rightarrow> 16 word \<Rightarrow> string option \<Rightarrow> nat \<Rightarrow> nat \<Rightarrow> vch_handle option \<Rightarrow> 'a xs_world_scheme \<Rightarrow>
     (int \<times> vch_handle option \<times> vchan_interface option \<times> 'a xs_world_scheme) option" where
  "vch_open path_size d path min_rs min_ws handle w =
     (case (handle, path) of
        (Some h0, Some p) \<Rightarrow>
          if path_size \<le> length p then Some (- ENAMETOOLONG, handle, None, w)
          else
            let h1 = vch_zero\<lparr>is_server := True, vch_path := p\<rparr> in
            (case ring_orders min_rs min_ws of
               None \<Rightarrow> Some (- EINVAL, Some h1, None, w)
             | Some (ro, wo) \<Rightarrow>
                 let h2 = h1\<lparr>read_ord := ro, write_ord := wo, vch_sem := True\<rparr>;
                     fail = (\<lambda>(rc, h, v). Some (rc, Some h, None, v));
                     (ok, w1) = k_malloc w
                 in if \<not> ok then Some (- ENOMEM, Some h2, None, w1)
                    else
                      let h3 = h2\<lparr>has_ring := True\<rparr>;
                          (rc2, w2) = ext_call ''alloc_unbound_event_channel'' [uint d] w1
                      in if rc2 < 0 then fail (open_free_evtch rc2 h3 w2)
                         else
                           let h4 = h3\<lparr>evtch := of_int rc2\<rparr>;
                               (rc3, w3) = ext_call ''bind_event_channel'' [uint (evtch h4)] w2
                           in if rc3 \<noteq> 0 then fail (open_free_evtch rc3 h4 w3)
                              else
                                let (rc4, w4) = ext_call ''gnttab_grant_access'' [uint d] w3 in
                                if rc4 < 0 then fail (open_free_evtch rc4 h4 w4)
                                else
                                  let h5 = h4\<lparr>gref := of_int rc4, read_cbuf := 2 ^ ro, write_cbuf := 2 ^ wo\<rparr>;
                                      page = empty_page\<lparr>left_order := of_nat ro, right_order := of_nat wo, srv_live := 1,
                                               cli_live := 2, cli_notify := VCHAN_NOTIFY_WRITE\<rparr>
                                  in do { (rc5, w5) \<leftarrow> open_publish (ucast d) h5 w4;
                                          if rc5 \<noteq> 0 then fail (open_free_gnt rc5 (gref h5) h5 w5)
                                          else
                                            let (rc6, w6) = ext_call ''unmask_event_channel'' [uint (evtch h5)] w5 in
                                            if rc6 \<noteq> 0 then fail (open_free_gnt rc6 (gref h5) h5 w6)
                                            else Some (0, Some h5, Some page, w6) })
      | _ \<Rightarrow> Some (- EINVAL, handle, None, w))"

text \<open>The labels \<open>free_gnt\<close> and \<open>free_evtch\<close> of \<open>vch_connect\<close>; the channel is not closed.\<close>

definition connect_free_evtch :: "int \<Rightarrow> vch_handle \<Rightarrow> 'a env_scheme \<Rightarrow> int \<times> vch_handle \<times> 'a env_scheme" where
  "connect_free_evtch rc h w = (rc, vch_zero, snd (ext_call ''unbind_event_channel'' [uint (evtch h)] w))"

definition connect_free_gnt ::
  "int \<Rightarrow> u32 \<Rightarrow> vch_handle \<Rightarrow> 'a env_scheme \<Rightarrow> int \<times> vch_handle \<times> 'a env_scheme" where
  "connect_free_gnt rc map_handle h w =
     (let w1 = snd (ext_call ''gnttab_unmap_refs'' [uint map_handle] w)
      in connect_free_evtch rc h (snd (ext_call ''gnttab_put_pages'' [] w1)))"

text \<open>The reads of the two entries; \<open>Inl\<close> is an early return.\<close>

definition connect_lookup ::
  "string \<Rightarrow> 'a xs_store_scheme \<Rightarrow> ((int + u32 \<times> u32) \<times> 'a xs_store_scheme) option" where
  "connect_lookup p w =
     do { ((rc1, v1), w1) \<leftarrow> xss_read_integer (Some (vch_key p ''/ring-ref'')) w;
          if rc1 \<noteq> 0 then Some (Inl rc1, w1)
          else
            do { ring_gref \<leftarrow> v1;
                 if (of_int ring_gref :: u32) = 0 then Some (Inl (- EFAULT), w1)
                 else
                   do { ((rc2, v2), w2) \<leftarrow> xss_read_integer (Some (vch_key p ''/event-channel'')) w1;
                        if rc2 \<noteq> 0 then Some (Inl rc2, w2)
                        else
                          do { remote_port \<leftarrow> v2;
                               if (of_int remote_port :: u32) = 0 then Some (Inl (- ENODEV), w2)
                               else Some (Inr (of_int ring_gref, of_int remote_port), w2) } } } }"

text \<open>\<open>page\<close> is the page of the peer, \<open>map_handle\<close> the field \<open>handle\<close> of the variable \<open>map\<close> after the
  call of \<open>gnttab_map_refs\<close>, which has not set it when the call failed.\<close>

definition vch_connect ::
  "nat \<Rightarrow> 16 word \<Rightarrow> vchan_interface \<Rightarrow> u32 \<Rightarrow> string option \<Rightarrow> vch_handle option \<Rightarrow> 'a xs_store_scheme \<Rightarrow>
     (int \<times> vch_handle option \<times> vchan_interface \<times> 'a xs_store_scheme) option" where
  "vch_connect path_size d page map_handle path handle w =
     (case (handle, path) of
        (Some h0, Some p) \<Rightarrow>
          if path_size \<le> length p then Some (- ENAMETOOLONG, handle, page, w)
          else
            let h1 = vch_zero\<lparr>vch_path := p, vch_sem := True\<rparr> in
            do { (found, w1) \<leftarrow> connect_lookup p w;
                 case found of
                   Inl rc \<Rightarrow> Some (rc, Some h1, page, w1)
                 | Inr (ring_gref, remote_port) \<Rightarrow>
                     let (rc2, w2) = ext_call ''bind_interdomain_event_channel'' [uint d, uint remote_port] w1 in
                     if rc2 < 0 then Some (rc2, Some h1, page, w2)
                     else
                       let h2 = h1\<lparr>evtch := of_int rc2\<rparr>;
                           fail = (\<lambda>r (rc, h, v). Some (rc, Some h, r, v));
                           (addr, w3) = ext_call ''gnttab_get_pages'' [1] w2
                       in if addr = 0 then fail page (connect_free_evtch (- ENOMEM) h2 w3)
                          else
                            let (rc4, w4) = ext_call ''gnttab_map_refs'' [uint ring_gref, uint d] w3 in
                            if rc4 \<noteq> 0 then fail page (connect_free_gnt rc4 map_handle h2 w4)
                            else
                              do { ro \<leftarrow> shift1 (unat (right_order page));
                                   wo \<leftarrow> shift1 (unat (left_order page));
                                   let h3 = h2\<lparr>has_ring := True, read_ord := unat (right_order page),
                                              write_ord := unat (left_order page), read_cbuf := ro, write_cbuf := wo,
                                              gref := ring_gref, grant_handle := map_handle\<rparr>;
                                       page1 = page\<lparr>cli_live := 1, srv_notify := VCHAN_NOTIFY_WRITE\<rparr>;
                                       (rc5, w5) = ext_call ''unmask_event_channel'' [uint (evtch h3)] w4
                                   in if rc5 \<noteq> 0 then fail page1 (connect_free_gnt rc5 map_handle h3 w5)
                                      else
                                        let (rc6, w6) = ext_call ''notify_evtchn'' [uint (evtch h3)] w5 in
                                        if rc6 \<noteq> 0 then fail page1 (connect_free_gnt rc6 map_handle h3 w6)
                                        else Some (0, Some h3, page1, w6) } }
      | _ \<Rightarrow> Some (- EINVAL, handle, page, w))"

definition vch_close :: "vch_handle option \<Rightarrow> 'a xs_world_scheme \<Rightarrow> (vch_handle option \<times> 'a xs_world_scheme) option" where
  "vch_close handle w =
     (case handle of
        None \<Rightarrow> Some (None, w)
      | Some h \<Rightarrow>
          let w1 = snd (ext_call ''notify_evtchn'' [uint (evtch h)] w);
              w2 = snd (ext_call ''unbind_event_channel'' [uint (evtch h)] w1);
              w3 = snd (ext_call ''evtchn_close'' [uint (evtch h)] w2)
          in if is_server h
             then do { (rc, w4) \<leftarrow> xss_rm (vch_path h) w3;
                       Some (Some vch_zero, snd (ext_call ''gnttab_end_access'' [uint (gref h)] w4)) }
             else let w4 = snd (ext_call ''gnttab_unmap_refs'' [uint (grant_handle h)] w3)
                  in Some (Some vch_zero, snd (ext_call ''gnttab_put_pages'' [] w4)))"

end
