(* ===== verification/Vchan_Props.thy ===== *)
theory Vchan_Props
  imports Vchan
begin

text \<open>
  The properties of the virtual channel.  Each of its rings keeps the contract \<open>byte_queue\<close>, for
  both divisions of the page and in both directions, as long as both ends keep to the protocol;
  a peer that does not makes the writer leave the page.  A failed connect keeps its channel.
\<close>

section \<open>Copies in two pieces\<close>

lemma blit_Nil [simp]: "blit buf off [] = buf"
  by (simp add: blit_def)

lemma ring_slice_put:
  assumes "0 < length buf" "off = (start + n) mod length buf" "n + length d \<le> length buf"
    "c = min (length buf - off) (length d)"
  shows "ring_slice (blit (blit buf off (take c d)) 0 (drop c d)) start (n + length d) = ring_slice buf start n @ d"
proof -
  let ?L = "length buf" and ?b1 = "blit buf off (take c d)"
  have off: "off < ?L" using assms(1,2) by simp
  have c: "length (take c d) = c" "off + c \<le> ?L" "c \<le> length d" using assms(4) off by auto
  have s1: "ring_slice ?b1 start (n + c) = ring_slice buf start n @ take c d"
    using ring_slice_blit [OF assms(2), of "take c d"] c assms(3) by simp
  have l1: "length ?b1 = ?L" using c by simp
  show ?thesis
  proof (cases "c = length d")
    case True
    then show ?thesis using s1 by simp
  next
    case False
    then have "off + c = ?L" using assms(4) off by auto
    then have "(start + (n + c)) mod ?L = 0" using assms(2) by (metis add.assoc mod_add_left_eq mod_self)
    then have z: "0 = (start + (n + c)) mod length ?b1" using l1 by simp
    have fits: "0 + length (drop c d) \<le> length ?b1" "n + c + length (drop c d) \<le> length ?b1"
      using assms(3) c(3) l1 by simp_all
    have "n + c + length (drop c d) = n + length d" using c(3) by simp
    then show ?thesis using ring_slice_blit [OF z fits] s1 by simp
  qed
qed

lemma ring_slice_get:
  assumes "0 < length buf" "n \<le> length buf" "c = min (length buf - start mod length buf) n"
  shows "take c (drop (start mod length buf) buf) @ take (n - c) buf = ring_slice buf start n"
proof -
  let ?L = "length buf"
  have off: "start mod ?L < ?L" using assms(1) by simp
  have c: "c \<le> n" "start mod ?L + c \<le> ?L" using assms(3) off by auto
  have s: "ring_slice buf start n = ring_slice buf start c @ ring_slice buf (start + c) (n - c)"
    using ring_slice_append [of buf start c "n - c"] unfolding le_add_diff_inverse [OF c(1)] .
  have p1: "ring_slice buf start c = take c (drop (start mod ?L) buf)" by (rule ring_slice_contiguous [OF c(2)])
  have "ring_slice buf (start + c) (n - c) = take (n - c) buf"
  proof (cases "c = n")
    case False
    then have "start mod ?L + c = ?L" using assms(3) off by auto
    then have "(start + c) mod ?L = 0" by (metis mod_add_left_eq mod_self)
    then show ?thesis using ring_slice_contiguous [of "start + c" buf "n - c"] assms(2) by simp
  qed simp
  then show ?thesis using s p1 by simp
qed

section \<open>The data areas\<close>

definition ring_area :: "nat \<Rightarrow> vchan_interface \<Rightarrow> char list" where
  "ring_area k r = take (2 ^ k) (drop (2 ^ k) (page_bytes r))"

lemma area_blit:
  assumes "2 * a \<le> length bs" "i + length d \<le> a"
  shows "take a (drop a (blit bs (a + i) d)) = blit (take a (drop a bs)) i d"
proof (rule nth_equalityI)
  show "length (take a (drop a (blit bs (a + i) d))) = length (blit (take a (drop a bs)) i d)" using assms by simp
  fix j
  assume "j < length (take a (drop a (blit bs (a + i) d)))"
  then have "j < a" by simp
  then show "take a (drop a (blit bs (a + i) d)) ! j = blit (take a (drop a bs)) i d ! j"
    using assms by (simp add: nth_blit)
qed

lemma area_blit_other:
  assumes "off + length d \<le> length bs" "j + m \<le> off \<or> off + length d \<le> j"
  shows "take m (drop j (blit bs off d)) = take m (drop j bs)"
  using assms by (intro nth_equalityI) (auto simp: nth_blit)

lemma page_write_area:
  assumes "k \<in> {10, 11}" "length (page_bytes r) = 4096" "i + length d \<le> 2 ^ k"
  shows "page_write (2 ^ k + i) d r = Some (r\<lparr>page_bytes := blit (page_bytes r) (2 ^ k + i) d\<rparr>)"
    "length (blit (page_bytes r) (2 ^ k + i) d) = 4096"
    "ring_area k (r\<lparr>page_bytes := blit (page_bytes r) (2 ^ k + i) d\<rparr>) = blit (ring_area k r) i d"
    "ring_area (21 - k) (r\<lparr>page_bytes := blit (page_bytes r) (2 ^ k + i) d\<rparr>) = ring_area (21 - k) r"
proof -
  have k: "(2 :: nat) ^ k \<le> 2048" "24 \<le> (2 :: nat) ^ k" using assms(1) by auto
  then show "page_write (2 ^ k + i) d r = Some (r\<lparr>page_bytes := blit (page_bytes r) (2 ^ k + i) d\<rparr>)"
    using assms(3) by (cases d) (auto simp: page_write_def in_data_def)
  show "length (blit (page_bytes r) (2 ^ k + i) d) = 4096" using assms k(1) by simp
  show "ring_area k (r\<lparr>page_bytes := blit (page_bytes r) (2 ^ k + i) d\<rparr>) = blit (ring_area k r) i d"
    unfolding ring_area_def using area_blit [of "2 ^ k" "page_bytes r" i d] assms(2,3) k(1) by simp
  show "ring_area (21 - k) (r\<lparr>page_bytes := blit (page_bytes r) (2 ^ k + i) d\<rparr>) = ring_area (21 - k) r"
    unfolding ring_area_def using assms by (auto intro!: area_blit_other)
qed

lemma page_read_area:
  assumes "k \<in> {10, 11}" "length (page_bytes r) = 4096" "i + n \<le> 2 ^ k"
  shows "page_read (2 ^ k + i) n r = Some (take n (drop i (ring_area k r)))"
proof -
  have k: "(2 :: nat) ^ k \<le> 2048" "24 \<le> (2 :: nat) ^ k" using assms(1) by auto
  have "take n (drop i (ring_area k r)) = take n (drop (2 ^ k + i) (page_bytes r))"
    using assms(3) by (simp add: ring_area_def drop_take add.commute)
  then show ?thesis using assms(3) k by (auto simp: page_read_def in_data_def)
qed

section \<open>One write and one read\<close>

lemma ring_index_mod: "unat (x AND (of_nat (2 ^ k) - 1) :: u32) = unat x mod 2 ^ k"
proof -
  have "x AND mask k = take_bit k x" by (simp add: take_bit_eq_mask)
  then have "x AND (of_nat (2 ^ k) - 1) = take_bit k x" by (simp add: mask_eq_exp_minus_1)
  moreover have "unat (take_bit k x) = unat x mod 2 ^ k"
    by (simp only: unsigned_take_bit_eq) (simp add: take_bit_eq_mod)
  ultimately show ?thesis by simp
qed

lemma wr_avail:
  assumes "k \<in> {10, 11}" "unat (p - c :: u32) \<le> 2 ^ k"
  shows "unat (of_nat (2 ^ k) - (p - c)) = 2 ^ k - unat (p - c)"
proof -
  have "(2 :: nat) ^ k < 2 ^ 32" using assms(1) by auto
  then have n: "unat (of_nat (2 ^ k) :: u32) = 2 ^ k" by (rule unat_of_nat_small)
  then show ?thesis using assms(2) by (subst unat_sub) (simp_all only: word_le_nat_alt n)
qed

text \<open>What the bookkeeping of the flags leaves alone.\<close>

definition same_rings :: "vchan_interface \<Rightarrow> vchan_interface \<Rightarrow> bool" where
  "same_rings r r' \<longleftrightarrow> left r' = left r \<and> right r' = right r \<and> page_bytes r' = page_bytes r \<and>
     cli_live r' = cli_live r \<and> srv_live r' = srv_live r"

lemma vch_notify_quiet:
  assumes "has_ring h" "hcalls w = []"
  shows "\<exists>r' w'. vch_notify h rw r w = (0, r', w') \<and> same_rings r r'"
  using assms by (auto simp: vch_notify_def Let_def ext_call_def same_rings_def)

lemma unmask_same: "same_rings r (vch_unmask_notify h b r)"
  by (simp add: vch_unmask_notify_def same_rings_def)

definition ring_used :: "ring_shared \<Rightarrow> nat" where
  "ring_used q = unat (rs_prod q - rs_cons q)"

definition chan_contents :: "nat \<Rightarrow> vchan_interface \<Rightarrow> ring_shared \<Rightarrow> char list" where
  "chan_contents k r q = ring_slice (ring_area k r) (unat (rs_cons q)) (ring_used q)"

lemma length_ring_area: "k \<in> {10, 11} \<Longrightarrow> length (page_bytes r) = 4096 \<Longrightarrow> length (ring_area k r) = 2 ^ k"
  by (auto simp: ring_area_def)

lemma vch_write_step:
  fixes w :: "'a env_scheme" and d :: "char list"
  assumes k: "k \<in> {10, 11}" "write_ord h = k" "write_cbuf h = 2 ^ k" and len: "length (page_bytes r) = 4096"
    and h: "has_ring h" "vch_is_live h r" "\<not> blocking h" and used: "ring_used (vch_wr h r) \<le> 2 ^ k"
    and quiet: "hcalls w = []"
  defines "n \<equiv> min (length d) (2 ^ k - ring_used (vch_wr h r))"
  shows "\<exists>r1 r' w'. vch_write [] (Some h) (Some d) r w = Some (Done (int n), r', w') \<and>
    same_rings (set_wr_prod h (rs_prod (vch_wr h r) + of_nat n) r\<lparr>page_bytes := page_bytes r1\<rparr>) r' \<and>
    length (page_bytes r1) = 4096 \<and> ring_area (21 - k) r1 = ring_area (21 - k) r \<and>
    ring_slice (ring_area k r1) (unat (rs_cons (vch_wr h r))) (ring_used (vch_wr h r) + n) =
      chan_contents k r (vch_wr h r) @ take n d"
proof -
  let ?q = "vch_wr h r" and ?u = "ring_used (vch_wr h r)"
  have sh: "shift1 (write_ord h) = Some (2 ^ k)" using k by (auto simp: shift1_def)
  have av: "vch_get_wr_avail h (2 ^ k) r = 2 ^ k - ?u"
    using wr_avail [OF k(1)] used by (simp add: vch_get_wr_avail_def ring_used_def)
  show ?thesis
  proof (cases "2 ^ k - ?u = 0")
    case True
    then have n: "n = 0" by (simp add: n_def)
    have "set_wr_prod h (rs_prod ?q + of_nat n) r\<lparr>page_bytes := page_bytes r\<rparr> = r"
      by (simp add: n set_wr_prod_def vch_wr_def)
    moreover have "vch_write [] (Some h) (Some d) r w = Some (Done (int n), vch_unmask_notify h 2 r, w)"
      using h sh av True n by (simp add: vch_write.simps Let_def)
    ultimately show ?thesis
      using len n unmask_same [of r h 2] by (intro exI [of _ r] exI) (simp add: chan_contents_def)
  next
    case False
    let ?e = "take n d" and ?idx = "unat (rs_prod ?q) mod 2 ^ k"
    define c where "c = min (2 ^ k - ?idx) n"
    have L: "length (ring_area k r) = 2 ^ k" by (rule length_ring_area [OF k(1) len])
    have idx: "?idx < 2 ^ k" by simp
    have "c \<le> 2 ^ k - ?idx" by (simp add: c_def)
    then have c: "c \<le> n" "?idx + c \<le> 2 ^ k" using idx by (simp add: c_def, linarith)
    have n: "n \<le> length d" "?u + n \<le> 2 ^ k" using used by (auto simp: n_def)
    have e: "take c d = take c ?e" "take (n - c) (drop c d) = drop c ?e" using c(1) by (simp_all add: drop_take)
    have le: "length (take c d) = c" "length (take (n - c) (drop c d)) = n - c" using c n by simp_all
    let ?r1 = "r\<lparr>page_bytes := blit (page_bytes r) (2 ^ k + ?idx) (take c d)\<rparr>"
    note w1 = page_write_area [OF k(1) len, of ?idx "take c d", unfolded le, OF c(2)]
    have r2n: "0 + length (take (n - c) (drop c d)) \<le> 2 ^ k" using le n by simp
    have len1: "length (page_bytes ?r1) = 4096" using w1(2) by simp
    let ?r2 = "?r1\<lparr>page_bytes := blit (page_bytes ?r1) (2 ^ k + 0) (take (n - c) (drop c d))\<rparr>"
    note w2 = page_write_area [OF k(1) len1 r2n]
    have m: "min (length d) (2 ^ k - ?u) = n" by (simp add: n_def)
    have off: "?idx = (unat (rs_cons ?q) + ?u) mod length (ring_area k r)"
      using prod_index_mod [of k "rs_prod ?q" "rs_cons ?q"] k(1) L by (auto simp: ring_used_def)
    have c': "c = min (length (ring_area k r) - ?idx) (length ?e)" using L n by (simp add: c_def)
    have sl: "ring_slice (ring_area k ?r2) (unat (rs_cons ?q)) (?u + n) = chan_contents k r ?q @ ?e"
      using ring_slice_put [OF _ off _ c'] L n w1(3) w2(3) e by (simp add: chan_contents_def)
    obtain r' w' where nt: "vch_notify h 1 (set_wr_prod h (rs_prod ?q + of_nat n) ?r2) w = (0, r', w')"
        "same_rings (set_wr_prod h (rs_prod ?q + of_nat n) ?r2) r'"
      using vch_notify_quiet [OF h(1) quiet] by blast
    have "vch_write [] (Some h) (Some d) r w = Some (Done (int n), r', w')"
      using h(2) sh av False w1(1) w2(1) nt(1) k(3)
      by (simp add: vch_write.simps Let_def ring_index_mod [unfolded of_nat_power of_nat_numeral] m flip: c_def)
    moreover have "set_wr_prod h (rs_prod ?q + of_nat n) ?r2 =
        set_wr_prod h (rs_prod ?q + of_nat n) r\<lparr>page_bytes := page_bytes ?r2\<rparr>"
      by (simp add: set_wr_prod_def)
    moreover have "ring_area (21 - k) ?r2 = ring_area (21 - k) r" using w1(4) w2(4) by simp
    ultimately show ?thesis using nt(2) sl w2(2) by (intro exI [of _ ?r2] exI [of _ r'] exI [of _ w']) simp
  qed
qed

lemma vch_read_step:
  fixes w :: "'a env_scheme" and m :: nat
  assumes k: "k \<in> {10, 11}" "read_ord h = k" "read_cbuf h = 2 ^ k" and len: "length (page_bytes r) = 4096"
    and h: "has_ring h" "vch_is_live h r" "\<not> blocking h" and used: "ring_used (vch_rd h r) \<le> 2 ^ k"
    and quiet: "hcalls w = []"
  defines "n \<equiv> min m (ring_used (vch_rd h r))"
  shows "\<exists>r' w'. vch_read [] (Some h) True m r w =
      Some (Done (int n, ring_slice (ring_area k r) (unat (rs_cons (vch_rd h r))) n), r', w') \<and>
    same_rings (set_rd_cons h (rs_cons (vch_rd h r) + of_nat n) r) r'"
proof -
  let ?q = "vch_rd h r" and ?u = "ring_used (vch_rd h r)"
  have sh: "shift1 (read_ord h) = Some (2 ^ k)" using k by (auto simp: shift1_def)
  have av: "vch_get_rd_avail h r = ?u" by (simp add: vch_get_rd_avail_def ring_used_def)
  show ?thesis
  proof (cases "?u = 0")
    case True
    then have n: "n = 0" by (simp add: n_def)
    have "set_rd_cons h (rs_cons ?q + of_nat n) r = r" by (simp add: n set_rd_cons_def vch_rd_def)
    moreover have "vch_read [] (Some h) True m r w = Some (Done (0, []), vch_unmask_notify h 1 r, w)"
      using h av True by (simp add: vch_read.simps Let_def)
    ultimately show ?thesis using n unmask_same [of r h 1] by simp
  next
    case False
    let ?idx = "unat (rs_cons ?q) mod 2 ^ k"
    define c where "c = min (2 ^ k - ?idx) n"
    have L: "length (ring_area k r) = 2 ^ k" by (rule length_ring_area [OF k(1) len])
    have idx: "?idx < 2 ^ k" by simp
    have "c \<le> 2 ^ k - ?idx" by (simp add: c_def)
    then have c: "c \<le> n" "?idx + c \<le> 2 ^ k" using idx by (simp add: c_def, linarith)
    have n: "0 + (n - c) \<le> 2 ^ k" "n \<le> 2 ^ k" using used by (auto simp: n_def)
    note r1 = page_read_area [OF k(1) len c(2)] and r2 = page_read_area [OF k(1) len n(1)]
    have c': "c = min (length (ring_area k r) - unat (rs_cons ?q) mod length (ring_area k r)) n"
      using L by (simp add: c_def)
    have d: "take c (drop ?idx (ring_area k r)) @ take (n - c) (ring_area k r) = ring_slice (ring_area k r) (unat (rs_cons ?q)) n"
      using ring_slice_get [OF _ _ c'] L n by simp
    obtain r' w' where nt: "vch_notify h 2 (set_rd_cons h (rs_cons ?q + of_nat n) r) w = (0, r', w')"
        "same_rings (set_rd_cons h (rs_cons ?q + of_nat n) r) r'"
      using vch_notify_quiet [OF h(1) quiet] by blast
    have mn: "min m ?u = n" by (simp add: n_def)
    have "vch_read [] (Some h) True m r w = Some (Done (int n, ring_slice (ring_area k r) (unat (rs_cons ?q)) n), r', w')"
      using h(2) sh av False r1 r2 nt(1) k(3) d
      by (simp add: vch_read.simps Let_def ring_index_mod [unfolded of_nat_power of_nat_numeral] mn flip: c_def)
    then show ?thesis using nt(2) by blast
  qed
qed

section \<open>Each ring is a byte queue\<close>

text \<open>The ends of a channel after \<open>vch_open\<close> and \<open>vch_connect\<close>; the orders of the two rings add up
  to 21.\<close>

definition vch_end :: "bool \<Rightarrow> nat \<Rightarrow> nat \<Rightarrow> vch_handle" where
  "vch_end srv ro wo = vch_zero\<lparr>is_server := srv, has_ring := True, read_ord := ro, read_cbuf := 2 ^ ro,
     write_ord := wo, write_cbuf := 2 ^ wo\<rparr>"

text \<open>\<open>down\<close>: the direction from the server to the client.\<close>

definition dir_ring :: "bool \<Rightarrow> vchan_interface \<Rightarrow> ring_shared" where
  "dir_ring down r = (if down then right r else left r)"

definition chan_valid :: "bool \<Rightarrow> nat \<Rightarrow> vchan_interface \<Rightarrow> bool" where
  "chan_valid down k r \<longleftrightarrow> length (page_bytes r) = 4096 \<and> cli_live r \<noteq> 0 \<and> srv_live r \<noteq> 0 \<and>
     ring_used (dir_ring down r) \<le> 2 ^ k"

definition chan_data :: "bool \<Rightarrow> nat \<Rightarrow> vchan_interface \<Rightarrow> char list" where
  "chan_data down k r = chan_contents k r (dir_ring down r)"

definition quiet_env :: env where
  "quiet_env = \<lparr>mallocs = [], locks = [], hcalls = [], trace = []\<rparr>"

definition chan_put :: "bool \<Rightarrow> nat \<Rightarrow> char list \<Rightarrow> vchan_interface \<Rightarrow> nat \<times> vchan_interface" where
  "chan_put down k d r =
     (case vch_write [] (Some (vch_end down (21 - k) k)) (Some d) r quiet_env of
        Some (Done n, r', _) \<Rightarrow> (nat n, r') | _ \<Rightarrow> (0, r))"

definition chan_get :: "bool \<Rightarrow> nat \<Rightarrow> nat \<Rightarrow> vchan_interface \<Rightarrow> char list \<times> vchan_interface" where
  "chan_get down k n r =
     (case vch_read [] (Some (vch_end (\<not> down) k (21 - k))) True n r quiet_env of
        Some (Done (_, d), r', _) \<Rightarrow> (d, r') | _ \<Rightarrow> ([], r))"

lemma vch_end_simps [simp]:
  "write_ord (vch_end s ro wo) = wo" "write_cbuf (vch_end s ro wo) = 2 ^ wo" "read_ord (vch_end s ro wo) = ro"
  "read_cbuf (vch_end s ro wo) = 2 ^ ro" "has_ring (vch_end s ro wo)" "\<not> blocking (vch_end s ro wo)"
  "is_server (vch_end s ro wo) = s" "vch_wr (vch_end down ro wo) = dir_ring down"
  "vch_rd (vch_end (\<not> down) ro wo) = dir_ring down"
  by (auto simp: vch_end_def vch_zero_def vch_wr_def vch_rd_def dir_ring_def)

lemma chan_live: "chan_valid down k r \<Longrightarrow> vch_is_live (vch_end s ro wo) r"
  by (simp add: chan_valid_def vch_is_live_def)

text \<open>The other direction as a function of the page.\<close>

abbreviation other_data :: "bool \<Rightarrow> nat \<Rightarrow> vchan_interface \<Rightarrow> char list" where
  "other_data down k r \<equiv> chan_data (\<not> down) (21 - k) r"

lemma chan_put_step:
  assumes "k \<in> {10, 11}" "chan_valid down k r" "chan_put down k d r = (n, r')"
  shows "n = min (length d) (2 ^ k - ring_used (dir_ring down r))" "chan_valid down k r'"
    "chan_data down k r' = chan_data down k r @ take n d" "other_data down k r' = other_data down k r"
proof -
  let ?h = "vch_end down (21 - k) k" and ?q = "dir_ring down r" and ?u = "ring_used (dir_ring down r)"
  let ?n = "min (length d) (2 ^ k - ?u)"
  have v: "length (page_bytes r) = 4096" "?u \<le> 2 ^ k" using assms(2) by (simp_all add: chan_valid_def)
  obtain r1 r2 w' where s: "vch_write [] (Some ?h) (Some d) r quiet_env = Some (Done (int ?n), r2, w')"
      "same_rings (set_wr_prod ?h (rs_prod ?q + of_nat ?n) r\<lparr>page_bytes := page_bytes r1\<rparr>) r2"
      "length (page_bytes r1) = 4096" "ring_area (21 - k) r1 = ring_area (21 - k) r"
      "ring_slice (ring_area k r1) (unat (rs_cons ?q)) (?u + ?n) = chan_contents k r ?q @ take ?n d"
    using vch_write_step [of k ?h r quiet_env d] assms(1) v chan_live [OF assms(2)] by (auto simp: quiet_env_def)
  have e: "n = ?n" "r' = r2" using assms(3) s(1) by (simp_all add: chan_put_def)
  then show "n = ?n" by simp
  have q: "dir_ring down r2 = ?q\<lparr>rs_prod := rs_prod ?q + of_nat ?n\<rparr>" "dir_ring (\<not> down) r2 = dir_ring (\<not> down) r"
    "page_bytes r2 = page_bytes r1" "cli_live r2 = cli_live r" "srv_live r2 = srv_live r"
    using s(2) by (cases down; simp add: same_rings_def set_wr_prod_def dir_ring_def)+
  have "?u + ?n < 2 ^ 32" using v(2) assms(1) by auto
  then have u: "ring_used (dir_ring down r2) = ?u + ?n"
    unfolding q(1) ring_used_def using used_after_put [of "rs_prod ?q" "rs_cons ?q" ?n] by (simp add: ring_used_def)
  have a: "ring_area j r2 = ring_area j r1" for j using q(3) by (simp add: ring_area_def)
  show "chan_valid down k r'" using assms(2) s(3) q(3-5) u v(2) e by (simp add: chan_valid_def)
  show "chan_data down k r' = chan_data down k r @ take n d"
    using s(5) u a e q(1) by (simp add: chan_data_def chan_contents_def)
  show "other_data down k r' = other_data down k r"
    using s(4) a e q(2) by (simp add: chan_data_def chan_contents_def)
qed

lemma chan_get_step:
  assumes "k \<in> {10, 11}" "chan_valid down k r" "chan_get down k m r = (d, r')"
  shows "length d = min m (ring_used (dir_ring down r))" "chan_valid down k r'"
    "chan_data down k r = d @ chan_data down k r'" "other_data down k r' = other_data down k r"
proof -
  let ?h = "vch_end (\<not> down) k (21 - k)" and ?q = "dir_ring down r" and ?u = "ring_used (dir_ring down r)"
  let ?n = "min m ?u" and ?A = "ring_area k r"
  have v: "length (page_bytes r) = 4096" "?u \<le> 2 ^ k" using assms(2) by (simp_all add: chan_valid_def)
  obtain r2 w' where s: "vch_read [] (Some ?h) True m r quiet_env = Some (Done (int ?n, ring_slice ?A (unat (rs_cons ?q)) ?n), r2, w')"
      "same_rings (set_rd_cons ?h (rs_cons ?q + of_nat ?n) r) r2"
    using vch_read_step [of k ?h r quiet_env m] assms(1) v chan_live [OF assms(2)] by (auto simp: quiet_env_def)
  have e: "d = ring_slice ?A (unat (rs_cons ?q)) ?n" "r' = r2" using assms(3) s(1) by (simp_all add: chan_get_def)
  then show "length d = ?n" by simp
  have q: "dir_ring down r2 = ?q\<lparr>rs_cons := rs_cons ?q + of_nat ?n\<rparr>" "dir_ring (\<not> down) r2 = dir_ring (\<not> down) r"
    "page_bytes r2 = page_bytes r" "cli_live r2 = cli_live r" "srv_live r2 = srv_live r"
    using s(2) by (cases down; simp add: same_rings_def set_rd_cons_def dir_ring_def)+
  have u: "ring_used (dir_ring down r2) = ?u - ?n"
    unfolding q(1) ring_used_def using used_after_get [of ?n "rs_prod ?q" "rs_cons ?q"] by (simp add: ring_used_def)
  have a: "ring_area j r2 = ring_area j r" for j using q(3) by (simp add: ring_area_def)
  show "chan_valid down k r'" using assms(2) q(3-5) u v(2) e by (simp add: chan_valid_def)
  have L: "length ?A = 2 ^ k" by (rule length_ring_area [OF assms(1) v(1)])
  have "?n < 2 ^ 32" using v(2) assms(1) by auto
  then have "unat (rs_cons ?q + of_nat ?n) mod 2 ^ k = (unat (rs_cons ?q) + ?n) mod 2 ^ k"
    using unat_add_mod_pow2 [of k "rs_cons ?q" "of_nat ?n"] unat_of_nat_small [of ?n] assms(1) by auto
  then have "ring_slice ?A (unat (rs_cons ?q + of_nat ?n)) (?u - ?n) = ring_slice ?A (unat (rs_cons ?q) + ?n) (?u - ?n)"
    by (intro ring_slice_start_mod) (simp only: L)
  moreover have "?n + (?u - ?n) = ?u" by simp
  ultimately show "chan_data down k r = d @ chan_data down k r'"
    using ring_slice_append [of ?A "unat (rs_cons ?q)" ?n "?u - ?n"] u a e q(1) by (simp add: chan_data_def chan_contents_def)
  show "other_data down k r' = other_data down k r" using a e q(2) by (simp add: chan_data_def chan_contents_def)
qed

lemma length_chan_data: "length (chan_data down k r) = ring_used (dir_ring down r)"
  by (simp add: chan_data_def chan_contents_def)

lemma vchan_queue:
  assumes k: "k \<in> {10, 11}"
  shows "byte_queue (chan_valid down k) (chan_data down k) (2 ^ k) (chan_put down k) (chan_get down k)"
proof
  fix q q' :: vchan_interface and d :: "char list" and n :: nat
  assume v: "chan_valid down k q" and p: "chan_put down k d q = (n, q')"
  note st = chan_put_step [OF k v p]
  show "chan_valid down k q'" "chan_data down k q' = chan_data down k q @ take n d" by (fact st)+
  show "n \<le> length d" using st(1) by simp
  show "d \<noteq> [] \<Longrightarrow> length (chan_data down k q) < 2 ^ k \<Longrightarrow> 0 < n" using st(1) by (simp add: length_chan_data)
next
  fix q q' :: vchan_interface and d :: "char list" and n :: nat
  assume v: "chan_valid down k q" and p: "chan_get down k n q = (d, q')"
  note st = chan_get_step [OF k v p]
  show "chan_valid down k q'" "chan_data down k q = d @ chan_data down k q'" by (fact st)+
  show "length d \<le> n" using st(1) by simp
  show "d \<noteq> []" if "chan_data down k q \<noteq> []" "0 < n"
    using that st(1) length_chan_data [of down k q] by (auto simp flip: length_greater_0_conv)
next
  fix q assume "chan_valid down k q"
  then show "length (chan_data down k q) \<le> 2 ^ k" by (simp add: length_chan_data chan_valid_def)
qed

interpretation small_ring: byte_queue "chan_valid down 10" "chan_data down 10" "2 ^ 10" "chan_put down 10" "chan_get down 10"
  by (rule vchan_queue) simp

interpretation big_ring: byte_queue "chan_valid down 11" "chan_data down 11" "2 ^ 11" "chan_put down 11" "chan_get down 11"
  by (rule vchan_queue) simp

text \<open>C18. Whatever the division of the page and the direction, and for every alternation of writes and
  reads of the two ends, the bytes read are exactly the bytes accepted, in order, those in transit
  stay in the ring, and the traffic of the opposite direction is not disturbed.\<close>

theorem vchan_fifo:
  assumes "k \<in> {10, 11}" "chan_valid down k r"
    "byte_queue.run (chan_put down k) (chan_get down k) ops r = (accepted, received, r')"
  shows "chan_data down k r @ accepted = received @ chan_data down k r' \<and> chan_valid down k r' \<and>
    length (chan_data down k r') \<le> 2 ^ k \<and> other_data down k r' = other_data down k r"
proof -
  note q = vchan_queue [OF assms(1), of down]
  have v: "chan_valid down k r'" by (rule byte_queue.run_valid [OF q assms(2,3)])
  moreover have "chan_data down k r @ accepted = received @ chan_data down k r'"
    by (rule byte_queue.run_fifo [OF q assms(2,3)])
  moreover have "other_data down k r' = other_data down k r"
    by (rule byte_queue.run_keeps [OF q _ _ assms(2,3), where f = "other_data down k"])
      (erule (1) chan_put_step(4) [OF assms(1)], erule (1) chan_get_step(4) [OF assms(1)])
  ultimately show ?thesis using byte_queue.bounded [OF q] by blast
qed

definition ex_chan :: vchan_interface where
  "ex_chan = empty_page\<lparr>left_order := 10, right_order := 11, srv_live := 1, cli_live := 1,
     right := \<lparr>rs_cons = 2046, rs_prod = 2046\<rparr>\<rparr>"

lemma ex_chan_valid: "chan_valid True 11 ex_chan" "chan_data True 11 ex_chan = []"
  by (simp_all add: chan_valid_def chan_data_def chan_contents_def ex_chan_def empty_page_def dir_ring_def ring_used_def)

text \<open>The message crosses the end of the ring.\<close>

theorem vchan_fifo_witness:
  "\<exists>r'. byte_queue.run (chan_put True 11) (chan_get True 11) [Put ''hello'', Get 9] ex_chan = (''hello'', ''hello'', r') \<and>
     chan_data True 11 r' = []"
proof -
  have k: "(11 :: nat) \<in> {10, 11}" by simp
  obtain n r1 where p: "chan_put True 11 ''hello'' ex_chan = (n, r1)" by fastforce
  obtain d r2 where g: "chan_get True 11 9 r1 = (d, r2)" by fastforce
  note p1 = chan_put_step [OF k ex_chan_valid(1) p]
  note g1 = chan_get_step [OF k p1(2) g]
  have used: "ring_used (dir_ring True ex_chan) = 0" using length_chan_data [of True 11 ex_chan] ex_chan_valid(2) by simp
  have n: "n = 5" using p1(1) used by simp
  have run: "byte_queue.run (chan_put True 11) (chan_get True 11) [Put ''hello'', Get 9] ex_chan = (''hello'', d, r2)"
    using p g n by (simp add: big_ring.run.simps)
  have "chan_data True 11 r1 = ''hello''" using p1(3) n ex_chan_valid(2) by simp
  then have "length d = 5" using g1(1) length_chan_data [of True 11 r1] by simp
  moreover have "''hello'' = d @ chan_data True 11 r2"
    using vchan_fifo [OF k ex_chan_valid(1) run] ex_chan_valid(2) by simp
  moreover have "length ''hello'' = (5 :: nat)" by simp
  ultimately have "chan_data True 11 r2 = []" by (metis add_cancel_right_right length_0_conv length_append)
  then have "d = ''hello'' \<and> chan_data True 11 r2 = []" using \<open>''hello'' = d @ chan_data True 11 r2\<close> by simp
  then show ?thesis using run by blast
qed

section \<open>A peer that breaks the protocol\<close>

text \<open>The writer does not check the indices of its peer: when the consumer index in the page
  makes it believe that more than two rings of free space exist, a write of more bytes than twice
  the size of the ring leaves the page, for every state of the page otherwise and either side.\<close>

theorem vch_write_trusts_peer:
  fixes w :: "'a env_scheme" and d :: "char list"
  assumes "vch_is_live h r" "write_ord h = 11" "write_cbuf h = 2048"
    "4096 < length d" "length d \<le> unat (2048 - (rs_prod (vch_wr h r) - rs_cons (vch_wr h r)))"
  shows "vch_write gs (Some h) (Some d) r w = None"
proof -
  let ?avail = "unat (2048 - (rs_prod (vch_wr h r) - rs_cons (vch_wr h r)))"
  have av: "vch_get_wr_avail h 2048 r = ?avail" "?avail \<noteq> 0" "min (length d) ?avail = length d"
    using assms(4,5) by (simp_all add: vch_get_wr_avail_def)
  define c where "c = min (2048 - unat (rs_prod (vch_wr h r) AND 2047)) (length d)"
  have "c \<le> 2048" by (simp add: c_def)
  then have rest: "2048 < length (take (length d - c) (drop c d))" using assms(4) by simp
  then have "page_write 2048 (take (length d - c) (drop c d)) r1 = None" for r1
    by (auto simp: page_write_def in_data_def)
  then show ?thesis using assms(1-3) av by (simp add: vch_write.simps shift1_def Let_def c_def bind_eq_None_conv)
qed

theorem vch_write_trusts_peer_witness:
  "vch_write [] (Some (vch_end True 10 11)) (Some (replicate 5000 CHR ''x''))
     (ex_chan\<lparr>right := \<lparr>rs_cons = 3000, rs_prod = 0\<rparr>\<rparr>) quiet_env = None"
proof (rule vch_write_trusts_peer)
  let ?r = "ex_chan\<lparr>right := \<lparr>rs_cons = 3000, rs_prod = 0\<rparr>\<rparr>"
  show "vch_is_live (vch_end True 10 11) ?r" by (simp add: vch_is_live_def ex_chan_def empty_page_def)
  show "write_ord (vch_end True 10 11) = 11" "write_cbuf (vch_end True 10 11) = 2048" by simp_all
  show "4096 < length (replicate 5000 CHR ''x'')" by simp
  show "length (replicate 5000 CHR ''x'') \<le> unat (2048 - (rs_prod (vch_wr (vch_end True 10 11) ?r) - rs_cons (vch_wr (vch_end True 10 11) ?r)))"
    by (simp add: dir_ring_def)
qed

section \<open>A connect that fails\<close>

text \<open>When the grant of the peer cannot be mapped, \<open>vch_connect\<close> returns the error and clears the
  handle, but of what it took it gives back only the pages: the event channel is unbound and never
  closed, and a mapping that was never made is unmapped, under a handle that was never set.\<close>

theorem vch_connect_keeps_channel:
  fixes w :: "'a xs_store_scheme"
  assumes "length p < path_size" "connect_lookup p w = Some (Inr (ring_gref, remote_port), w1)"
    "hcalls w1 = [port, addr, err]" "0 \<le> port" "addr \<noteq> 0" "err \<noteq> 0"
  shows "\<exists>w'. vch_connect path_size d page map_handle (Some p) (Some h) w = Some (err, Some vch_zero, page, w') \<and>
    trace w' = trace w1 @ [(''bind_interdomain_event_channel'', [uint d, uint remote_port]), (''gnttab_get_pages'', [1]),
      (''gnttab_map_refs'', [uint ring_gref, uint d]), (''gnttab_unmap_refs'', [uint map_handle]),
      (''gnttab_put_pages'', []), (''unbind_event_channel'', [uint (of_int port :: u32)])]"
  using assms by (simp add: vch_connect_def Let_def ext_call_def connect_free_gnt_def connect_free_evtch_def)

definition ex_offer :: xs_store where
  "ex_offer = ex_store\<lparr>hcalls := [9, 4096, - 1],
     root_xenstore := XsEntry None None [local_perm] [XsEntry (Some ''vch'') None [local_perm]
       [XsEntry (Some ''ring-ref'') (Some ''17'') [local_perm] [],
        XsEntry (Some ''event-channel'') (Some ''5'') [local_perm] []]]\<rparr>"

theorem vch_connect_keeps_channel_witness:
  "\<exists>w'. vch_connect 64 3 ex_chan 77 (Some ''/vch'') (Some vch_zero) ex_offer = Some (- 1, Some vch_zero, ex_chan, w') \<and>
     list_all (\<lambda>(name, _). name \<noteq> ''evtchn_close'') (trace w')"
proof -
  have l: "connect_lookup ''/vch'' ex_offer = Some (Inr (17, 5), ex_offer)" by code_simp
  have h: "hcalls ex_offer = [9, 4096, - 1]" "trace ex_offer = []" "length ''/vch'' < (64 :: nat)"
    by (simp_all add: ex_offer_def ex_store_def)
  show ?thesis using vch_connect_keeps_channel [OF h(3) l h(1), of 3 ex_chan 77 vch_zero] h(2) by auto
qed

end
