(* ===== verification/Xl_Parser.thy ===== *)
theory Xl_Parser
  imports Xs_Local
begin

text \<open>
  The parser of device lines, \<open>xl_parser.c\<close>: lines such as
  \<^verbatim>\<open>disk=['backend=1, vdev=xvda, access=rw, target=/dev/mmcblk0p3']\<close> fill the first devices of a
  configuration that are not yet configured.  The character arrays of the configuration are lists
  of 80 characters, as \<open>strncpy\<close> leaves them; strings are lists without their terminator.  Results
  are \<open>None\<close> where \<open>atoi\<close> overflows.
\<close>

section \<open>Configurations\<close>

record pv_net_configuration =
  net_configured :: bool
  net_backend :: int
  net_script :: "char list"
  mac :: "char list"
  bridge :: "char list"
  net_type :: "char list"
  ip :: "char list"

record pv_block_configuration =
  blk_configured :: bool
  blk_backend :: int
  backendtype :: "char list"
  blk_format :: "char list"
  blk_script :: "char list"
  blk_target :: "char list"
  vdev :: "char list"
  blk_access :: "char list"

record backend_configuration =
  vifs :: "pv_net_configuration list"
  disks :: "pv_block_configuration list"

abbreviation (input) INIT_XENSTORE_BUFF_SIZE :: nat where "INIT_XENSTORE_BUFF_SIZE \<equiv> 80"
abbreviation (input) MAX_PROPERTY_STRING_SIZE :: nat where "MAX_PROPERTY_STRING_SIZE \<equiv> 256"

definition set_field :: "string \<Rightarrow> char list" where
  "set_field s = strncpy s INIT_XENSTORE_BUFF_SIZE"

definition field_set :: "char list \<Rightarrow> bool" where
  "field_set f \<longleftrightarrow> f \<noteq> [] \<and> hd f \<noteq> NUL"

section \<open>One key and value\<close>

text \<open>\<open>!strncmp(key, K, strlen(K))\<close> is \<open>prefix K key\<close>.\<close>

definition process_disk_key_value ::
  "string \<Rightarrow> string \<Rightarrow> pv_block_configuration \<Rightarrow> pv_block_configuration option" where
  "process_disk_key_value key val c =
     do { c1 \<leftarrow> (if prefix ''backend'' key then do { v \<leftarrow> atoi (val @ [NUL]); Some (c\<lparr>blk_backend := v\<rparr>) }
                else if prefix ''vdev'' key then Some (c\<lparr>vdev := set_field val\<rparr>)
                else if prefix ''access'' key then Some (c\<lparr>blk_access := set_field val\<rparr>)
                else if prefix ''target'' key then Some (c\<lparr>blk_target := set_field val\<rparr>)
                else if prefix ''script'' key then Some (c\<lparr>blk_script := set_field val\<rparr>)
                else Some c);
          Some (if field_set (vdev c1) \<and> field_set (blk_access c1) \<and> field_set (blk_target c1)
                then c1\<lparr>blk_configured := True\<rparr> else c1) }"

definition process_vif_key_value ::
  "string \<Rightarrow> string \<Rightarrow> pv_net_configuration \<Rightarrow> pv_net_configuration option" where
  "process_vif_key_value key val c =
     do { c1 \<leftarrow> (if prefix ''backend'' key then do { v \<leftarrow> atoi (val @ [NUL]); Some (c\<lparr>net_backend := v\<rparr>) }
                else if prefix ''script'' key then Some (c\<lparr>net_script := set_field val\<rparr>)
                else if prefix ''mac'' key then Some (c\<lparr>mac := set_field val\<rparr>)
                else if prefix ''bridge'' key then Some (c\<lparr>bridge := set_field val\<rparr>)
                else if prefix ''ip'' key then Some (c\<lparr>ip := set_field val\<rparr>)
                else Some c);
          Some (if field_set (bridge c1) \<and> field_set (mac c1)
                then c1\<lparr>net_configured := True\<rparr> else c1) }"

section \<open>One quoted device\<close>

datatype backend_type = BACKEND_TYPE_UNDEFINED | BACKEND_TYPE_VIF | BACKEND_TYPE_PVBLOCK

definition detect_backend_type :: "string \<Rightarrow> backend_type" where
  "detect_backend_type s =
     (if prefix ''vif'' s then BACKEND_TYPE_VIF
      else if prefix ''disk'' s then BACKEND_TYPE_PVBLOCK else BACKEND_TYPE_UNDEFINED)"

definition blank :: "char \<Rightarrow> bool" where
  "blank c \<longleftrightarrow> c = CHR '' '' \<or> c = CHR 0x09"

text \<open>Trailing blanks are removed, except that the first character is always kept.\<close>

definition trim_value :: "string \<Rightarrow> string" where
  "trim_value v = (case v of [] \<Rightarrow> [] | c # cs \<Rightarrow> c # rev (dropWhile blank (rev cs)))"

text \<open>The loop over the tokens; tokens without an equals sign are skipped.\<close>

fun parse_tokens :: "(string \<Rightarrow> string \<Rightarrow> 'c \<Rightarrow> 'c option) \<Rightarrow> string list \<Rightarrow> 'c \<Rightarrow> 'c option" where
  "parse_tokens kv_func [] c = Some c"
| "parse_tokens kv_func (t # ts) c =
     (if CHR ''='' \<in> set t
      then do { c1 \<leftarrow> kv_func (dropWhile blank (takeWhile (\<lambda>x. x \<noteq> CHR ''='') t))
                       (trim_value (tl (dropWhile (\<lambda>x. x \<noteq> CHR ''='') t))) c;
                parse_tokens kv_func ts c1 }
      else parse_tokens kv_func ts c)"

definition parse_key_value :: "string \<Rightarrow> (string \<Rightarrow> string \<Rightarrow> 'c \<Rightarrow> 'c option) \<Rightarrow> 'c \<Rightarrow> 'c option" where
  "parse_key_value input kv_func c = parse_tokens kv_func (strtok_all (CHR '','') input) c"

definition vif_defaults :: "pv_net_configuration \<Rightarrow> pv_net_configuration" where
  "vif_defaults c = c\<lparr>net_script := set_field ''/etc/xen/scripts/vif-bridge'', net_type := set_field ''vif'',
     net_backend := 0\<rparr>"

definition disk_defaults :: "pv_block_configuration \<Rightarrow> pv_block_configuration" where
  "disk_defaults c = c\<lparr>backendtype := set_field ''phy'', blk_format := set_field ''raw'',
     blk_script := set_field ''/etc/xen/scripts/block'', blk_backend := 0\<rparr>"

text \<open>The first device that is not configured gets the defaults and then the keys of the entry;
  \<open>None\<close> in the inner result when there is none.\<close>

definition fill_first ::
  "('c \<Rightarrow> bool) \<Rightarrow> ('c \<Rightarrow> 'c) \<Rightarrow> (string \<Rightarrow> string \<Rightarrow> 'c \<Rightarrow> 'c option) \<Rightarrow> string \<Rightarrow> 'c list \<Rightarrow> 'c list option option" where
  "fill_first configured defaults kv_func entry cs =
     (case List.find (\<lambda>i. \<not> configured (cs ! i)) [0..<length cs] of
        None \<Rightarrow> Some None
      | Some i \<Rightarrow>
          do { c \<leftarrow> parse_key_value entry kv_func (defaults (cs ! i)); Some (Some (cs[i := c])) })"

definition fill_device ::
  "backend_type \<Rightarrow> string \<Rightarrow> backend_configuration \<Rightarrow> backend_configuration option option" where
  "fill_device bt entry cfg =
     (case bt of
        BACKEND_TYPE_UNDEFINED \<Rightarrow> Some None
      | BACKEND_TYPE_VIF \<Rightarrow>
          map_option (map_option (\<lambda>cs. cfg\<lparr>vifs := cs\<rparr>))
            (fill_first net_configured vif_defaults process_vif_key_value entry (vifs cfg))
      | BACKEND_TYPE_PVBLOCK \<Rightarrow>
          map_option (map_option (\<lambda>cs. cfg\<lparr>disks := cs\<rparr>))
            (fill_first blk_configured disk_defaults process_disk_key_value entry (disks cfg)))"

text \<open>\<open>after c s\<close> is \<open>strchr(s, c) + 1\<close>.\<close>

definition after :: "char \<Rightarrow> string \<Rightarrow> string option" where
  "after c s = (if c \<in> set s then Some (tl (dropWhile (\<lambda>x. x \<noteq> c) s)) else None)"

text \<open>The result is the rest of the line after the right quote, if a device was parsed, and the
  configuration.\<close>

definition find_and_parse_next_device ::
  "string \<Rightarrow> backend_type \<Rightarrow> backend_configuration \<Rightarrow> (string option \<times> backend_configuration) option" where
  "find_and_parse_next_device s bt cfg =
     (if MAX_PROPERTY_STRING_SIZE < length s then Some (None, cfg)
      else
        case after (CHR 0x27) s of
          None \<Rightarrow> Some (None, cfg)
        | Some s1 \<Rightarrow>
            (case after (CHR 0x27) s1 of
               None \<Rightarrow> Some (None, cfg)
             | Some rest \<Rightarrow>
                 do { r \<leftarrow> fill_device bt (takeWhile (\<lambda>x. x \<noteq> CHR 0x27) s1) cfg;
                      case r of
                        None \<Rightarrow> Some (None, cfg)
                      | Some cfg1 \<Rightarrow> Some (Some rest, cfg1) }))"

section \<open>A line\<close>

lemma after_shorter: "after c s = Some r \<Longrightarrow> length r < length s"
proof -
  assume "after c s = Some r"
  then have r: "c \<in> set s" "r = tl (dropWhile (\<lambda>x. x \<noteq> c) s)" by (auto simp: after_def split: if_splits)
  then have "dropWhile (\<lambda>x. x \<noteq> c) s \<noteq> []" by (auto simp: dropWhile_eq_Nil_conv)
  then show ?thesis using r(2) length_dropWhile_le [of "\<lambda>x. x \<noteq> c" s]
    by (cases "dropWhile (\<lambda>x. x \<noteq> c) s") auto
qed

lemma next_device_shorter:
  "find_and_parse_next_device s bt cfg = Some (Some rest, cfg1) \<Longrightarrow> length rest < length s"
proof -
  assume "find_and_parse_next_device s bt cfg = Some (Some rest, cfg1)"
  then obtain s1 where s1: "after (CHR 0x27) s = Some s1" "after (CHR 0x27) s1 = Some rest"
    by (auto simp: find_and_parse_next_device_def split: if_splits option.splits bind_splits)
  show ?thesis by (rule less_trans [OF after_shorter [OF s1(2)] after_shorter [OF s1(1)]])
qed

function parse_devices :: "string \<Rightarrow> backend_type \<Rightarrow> backend_configuration \<Rightarrow> backend_configuration option" where
  "parse_devices s bt cfg =
     (case find_and_parse_next_device s bt cfg of
        None \<Rightarrow> None
      | Some (None, cfg1) \<Rightarrow> Some cfg1
      | Some (Some rest, cfg1) \<Rightarrow>
          if CHR '','' \<in> set rest then parse_devices (dropWhile (\<lambda>x. x \<noteq> CHR '','') rest) bt cfg1
          else Some cfg1)"
  by pat_completeness auto

termination parse_devices
proof (relation "measure (\<lambda>(s, bt, cfg). length s)", goal_cases)
  case (2 s bt cfg p x cfg1 rest)
  then have "length rest < length s" by (intro next_device_shorter [of s bt cfg rest cfg1]) simp
  then show ?case using length_dropWhile_le [of "\<lambda>x. x \<noteq> CHR '',''" rest] by simp
qed simp

declare parse_devices.simps [simp del]

definition parse_one_record_and_fill_cfg ::
  "string option \<Rightarrow> backend_configuration option \<Rightarrow> (int \<times> backend_configuration option) option" where
  "parse_one_record_and_fill_cfg str cfg =
     (case (str, cfg) of
        (Some s, Some c) \<Rightarrow>
          if detect_backend_type s = BACKEND_TYPE_UNDEFINED then Some (- EINVAL, cfg)
          else do { c1 \<leftarrow> parse_devices s (detect_backend_type s) c; Some (0, Some c1) }
      | _ \<Rightarrow> Some (- EINVAL, cfg))"

end
