(* ===== verification/Xl_Parser_Props.thy ===== *)
theory Xl_Parser_Props
  imports Xl_Parser
begin

text \<open>
  Printing a list of disks as a device line and parsing it configures exactly these disks, in the
  first free places and in order.
\<close>

section \<open>Numbers and tokens\<close>

lemma atoi_fmt_d:
  assumes "- 2147483648 \<le> b" "b \<le> 2147483647"
  shows "atoi (fmt_d b @ [NUL]) = Some b"
proof -
  obtain n where n: "fmt_d b = (if b < 0 then CHR ''-'' # dec n else dec n)" "b = (if b < 0 then - int n else int n)"
    by (cases "b < 0") (auto simp: fmt_d_def intro: that [of "nat (- b)"] that [of "nat b"])
  obtain c cs where d: "dec n = c # cs" by (cases "dec n") auto
  have c: "isdigit c" using d dec_chars [of c n] by simp
  have ws: "\<not> isspace (CHR ''-'')" by (simp add: isspace_def)
  have tw: "takeWhile isdigit (dec n @ [NUL]) = dec n" using dec_chars [of _ n]
    by (subst takeWhile_append2) (auto simp: isdigit_def)
  show ?thesis
  proof (cases "b < 0")
    case True
    then have "fmt_d b @ [NUL] = CHR ''-'' # (dec n @ [NUL])" "b = - int n" using n by simp_all
    then show ?thesis using assms(1) tw ws digits_val_dec [of n] by (simp add: atoi_def Let_def)
  next
    case False
    then have "fmt_d b @ [NUL] = dec n @ [NUL]" "b = int n" using n by simp_all
    moreover have "dropWhile isspace (dec n @ [NUL]) = dec n @ [NUL]" "hd (dec n @ [NUL]) = c"
      using isdigit_neq [OF c] d by simp_all
    ultimately show ?thesis using assms(2) tw isdigit_neq [OF c] digits_val_dec [of n] by (simp add: atoi_def Let_def)
  qed
qed

lemma strtok_all_Cons: "d \<notin> set t \<Longrightarrow> t \<noteq> [] \<Longrightarrow> strtok_all d (t @ d # s) = t # strtok_all d s"
  by (simp add: strtok_all_def strtok_acc_token)

lemma strtok_all_single: "d \<notin> set t \<Longrightarrow> t \<noteq> [] \<Longrightarrow> strtok_all d t = [t]"
  using strtok_acc_token [of d t "[]" "[]"] by (simp add: strtok_all_def)

lemma parse_token:
  assumes "CHR ''='' \<notin> set k"
  shows "parse_tokens kv ((k @ CHR ''='' # v) # ts) c =
    do { c1 \<leftarrow> kv (dropWhile blank k) (trim_value v) c; parse_tokens kv ts c1 }"
proof -
  have "takeWhile (\<lambda>x. x \<noteq> CHR ''='') (k @ CHR ''='' # v) = k" "dropWhile (\<lambda>x. x \<noteq> CHR ''='') (k @ CHR ''='' # v) = CHR ''='' # v"
    using assms by (auto simp: takeWhile_append dropWhile_append)
  then show ?thesis by simp
qed

section \<open>Disks and their lines\<close>

record disk_spec =
  ds_backend :: int
  ds_vdev :: string
  ds_access :: string
  ds_target :: string

text \<open>A value that can be written in a line: no separator, no quote, no blank at its end; and short
  enough for its array.\<close>

definition field_text :: "string \<Rightarrow> bool" where
  "field_text f \<longleftrightarrow> f \<noteq> [] \<and> CHR '','' \<notin> set f \<and> CHR 0x27 \<notin> set f \<and> NUL \<notin> set f \<and> \<not> blank (last f)"

definition field_ok :: "string \<Rightarrow> bool" where
  "field_ok f \<longleftrightarrow> field_text f \<and> length f < 80"

definition disk_ok :: "disk_spec \<Rightarrow> bool" where
  "disk_ok d \<longleftrightarrow> - 2147483648 \<le> ds_backend d \<and> ds_backend d \<le> 2147483647 \<and>
     field_ok (ds_vdev d) \<and> field_ok (ds_access d) \<and> field_ok (ds_target d)"

definition disk_entry :: "disk_spec \<Rightarrow> string" where
  "disk_entry d = ''backend='' @ fmt_d (ds_backend d) @ '', vdev='' @ ds_vdev d @ '', access='' @ ds_access d @
     '', target='' @ ds_target d"

text \<open>The quoted entries, separated by commas, up to the closing bracket.\<close>

fun disk_list :: "disk_spec list \<Rightarrow> string" where
  "disk_list [] = '']''"
| "disk_list [d] = [CHR 0x27] @ disk_entry d @ [CHR 0x27] @ '']''"
| "disk_list (d # ds) = [CHR 0x27] @ disk_entry d @ [CHR 0x27] @ '', '' @ disk_list ds"

definition disk_line :: "disk_spec list \<Rightarrow> string" where
  "disk_line ds = ''disk=['' @ disk_list ds"

text \<open>The configuration of a disk.\<close>

definition disk_conf :: "disk_spec \<Rightarrow> pv_block_configuration" where
  "disk_conf d = \<lparr>blk_configured = True, blk_backend = ds_backend d, backendtype = set_field ''phy'',
     blk_format = set_field ''raw'', blk_script = set_field ''/etc/xen/scripts/block'',
     blk_target = set_field (ds_target d), vdev = set_field (ds_vdev d), blk_access = set_field (ds_access d)\<rparr>"

lemma trim_value_id: "f \<noteq> [] \<Longrightarrow> \<not> blank (last f) \<Longrightarrow> trim_value f = f"
proof (cases f)
  case (Cons c cs)
  assume "\<not> blank (last f)"
  then have "dropWhile blank (rev cs) = rev cs" using Cons by (cases cs rule: rev_cases) auto
  then show ?thesis by (simp add: trim_value_def Cons)
qed simp

lemma fmt_d_chars: "c \<in> set (fmt_d b) \<Longrightarrow> isdigit c \<or> c = CHR ''-''"
  using dec_chars by (auto simp: fmt_d_def split: if_splits)

lemma fmt_d_field: "field_text (fmt_d b)"
proof -
  have ne: "fmt_d b \<noteq> []" by (simp add: fmt_d_def)
  moreover have "\<not> blank (last (fmt_d b))"
    using fmt_d_chars [OF last_in_set [OF ne]] by (auto simp: blank_def isdigit_def)
  moreover have "CHR '','' \<notin> set (fmt_d b)" "CHR 0x27 \<notin> set (fmt_d b)" "NUL \<notin> set (fmt_d b)"
    using fmt_d_chars [of "CHR '',''" b] fmt_d_chars [of "CHR 0x27" b] fmt_d_chars [of NUL b] by (auto simp: isdigit_def)
  ultimately show ?thesis by (simp add: field_text_def)
qed

lemma field_set_ok: "field_ok f \<Longrightarrow> field_set (set_field f)"
  by (cases f) (auto simp: field_ok_def field_text_def field_set_def set_field_def strncpy_def)

lemma disk_entry_tokens:
  assumes "disk_ok d"
  shows "strtok_all (CHR '','') (disk_entry d) =
    [''backend'' @ CHR ''='' # fmt_d (ds_backend d), '' vdev'' @ CHR ''='' # ds_vdev d,
     '' access'' @ CHR ''='' # ds_access d, '' target'' @ CHR ''='' # ds_target d]"
proof -
  let ?t1 = "''backend'' @ CHR ''='' # fmt_d (ds_backend d)" and ?t2 = "'' vdev'' @ CHR ''='' # ds_vdev d"
  let ?t3 = "'' access'' @ CHR ''='' # ds_access d" and ?t4 = "'' target'' @ CHR ''='' # ds_target d"
  have c: "CHR '','' \<notin> set ?t1" "CHR '','' \<notin> set ?t2" "CHR '','' \<notin> set ?t3" "CHR '','' \<notin> set ?t4"
    using assms fmt_d_field [of "ds_backend d"] by (auto simp: disk_ok_def field_ok_def field_text_def)
  have "disk_entry d = ?t1 @ CHR '','' # ?t2 @ CHR '','' # ?t3 @ CHR '','' # ?t4" by (simp add: disk_entry_def)
  moreover have "strtok_all (CHR '','') (?t1 @ CHR '','' # ?t2 @ CHR '','' # ?t3 @ CHR '','' # ?t4) = [?t1, ?t2, ?t3, ?t4]"
    by (simp only: strtok_all_Cons [OF c(1)] strtok_all_Cons [OF c(2)] strtok_all_Cons [OF c(3)] strtok_all_single [OF c(4)]
        append_is_Nil_conv list.distinct not_False_eq_True simp_thms)
  ultimately show ?thesis by (simp only:)
qed

text \<open>The effect of a key, with the check of the required keys.\<close>

definition mark_disk :: "pv_block_configuration \<Rightarrow> pv_block_configuration" where
  "mark_disk c = c\<lparr>blk_configured := blk_configured c \<or>
     field_set (vdev c) \<and> field_set (blk_access c) \<and> field_set (blk_target c)\<rparr>"

lemma mark_if:
  "(if field_set (vdev c) \<and> field_set (blk_access c) \<and> field_set (blk_target c)
    then c\<lparr>blk_configured := True\<rparr> else c) = mark_disk c"
  by (cases c) (auto simp: mark_disk_def)

lemma disk_keys:
  "process_disk_key_value ''vdev'' v c = Some (mark_disk (c\<lparr>vdev := set_field v\<rparr>))"
  "process_disk_key_value ''access'' v c = Some (mark_disk (c\<lparr>blk_access := set_field v\<rparr>))"
  "process_disk_key_value ''target'' v c = Some (mark_disk (c\<lparr>blk_target := set_field v\<rparr>))"
  by (simp_all add: process_disk_key_value_def mark_if)

lemma disk_backend_key:
  "atoi (v @ [NUL]) = Some b \<Longrightarrow> process_disk_key_value ''backend'' v c = Some (mark_disk (c\<lparr>blk_backend := b\<rparr>))"
  by (simp add: process_disk_key_value_def mark_if)

text \<open>The keys of one entry fill a device completely, whatever it held.\<close>

lemma parse_disk_entry:
  assumes "disk_ok d"
  shows "parse_key_value (disk_entry d) process_disk_key_value (disk_defaults c) = Some (disk_conf d)"
proof -
  have f: "field_ok (ds_vdev d)" "field_ok (ds_access d)" "field_ok (ds_target d)"
    using assms(1) by (simp_all add: disk_ok_def)
  have t: "trim_value (ds_vdev d) = ds_vdev d" "trim_value (ds_access d) = ds_access d"
    "trim_value (ds_target d) = ds_target d" "trim_value (fmt_d (ds_backend d)) = fmt_d (ds_backend d)"
    using f fmt_d_field [of "ds_backend d"] by (simp_all add: field_ok_def field_text_def trim_value_id)
  have a: "atoi (fmt_d (ds_backend d) @ [NUL]) = Some (ds_backend d)"
    using assms by (intro atoi_fmt_d) (simp_all add: disk_ok_def)
  note s = field_set_ok [OF f(1)] field_set_ok [OF f(2)] field_set_ok [OF f(3)]
  have keys: "dropWhile blank '' vdev'' = ''vdev''" "dropWhile blank '' access'' = ''access''"
    "dropWhile blank '' target'' = ''target''" "dropWhile blank ''backend'' = ''backend''"
    by (simp_all add: blank_def)
  have "CHR ''='' \<notin> set ''backend''" "CHR ''='' \<notin> set '' vdev''" "CHR ''='' \<notin> set '' access''"
    "CHR ''='' \<notin> set '' target''" by simp_all
  note tok = this [THEN parse_token]
  have "parse_key_value (disk_entry d) process_disk_key_value (disk_defaults c) =
      Some (mark_disk (mark_disk (mark_disk (mark_disk (disk_defaults c\<lparr>blk_backend := ds_backend d\<rparr>)
        \<lparr>vdev := set_field (ds_vdev d)\<rparr>)\<lparr>blk_access := set_field (ds_access d)\<rparr>)\<lparr>blk_target := set_field (ds_target d)\<rparr>))"
    unfolding parse_key_value_def disk_entry_tokens [OF assms(1)] tok keys t disk_backend_key [OF a] disk_keys
    by (simp only: bind.bind_lunit parse_tokens.simps)
  then show ?thesis using s by (cases c) (simp add: mark_disk_def disk_defaults_def disk_conf_def)
qed

section \<open>Lines\<close>

lemma after_skip: "c \<notin> set pre \<Longrightarrow> after c (pre @ c # rest) = Some rest"
  by (simp add: after_def dropWhile_append)

lemma no_quote: "disk_ok d \<Longrightarrow> CHR 0x27 \<notin> set (disk_entry d)"
  using fmt_d_field [of "ds_backend d"] by (auto simp: disk_ok_def field_ok_def field_text_def disk_entry_def)

lemma fill_next_disk:
  assumes "disks cfg = conf @ f # fs" "list_all blk_configured conf" "\<not> blk_configured f" "disk_ok d"
  shows "fill_device BACKEND_TYPE_PVBLOCK (disk_entry d) cfg = Some (Some (cfg\<lparr>disks := conf @ disk_conf d # fs\<rparr>))"
proof -
  have "List.find (\<lambda>i. \<not> blk_configured ((conf @ f # fs) ! i)) [0..<length (conf @ f # fs)] = Some (length conf)"
    unfolding find_Some_iff using assms(2,3)
    by (intro exI [of _ "length conf"]) (auto simp: nth_append list_all_length nth_upt simp del: upt_Suc)
  then show ?thesis using assms(1) parse_disk_entry [OF assms(4), of f]
    by (simp add: fill_device_def fill_first_def)
qed

lemma parse_disk_list:
  assumes "list_all disk_ok ds" "ds \<noteq> []" "CHR 0x27 \<notin> set pre" "length (pre @ disk_list ds) \<le> 256"
    "disks cfg = conf @ free" "list_all blk_configured conf" "list_all (\<lambda>c. \<not> blk_configured c) free" "length ds \<le> length free"
  shows "parse_devices (pre @ disk_list ds) BACKEND_TYPE_PVBLOCK cfg =
    Some (cfg\<lparr>disks := conf @ map disk_conf ds @ drop (length ds) free\<rparr>)"
  using assms
proof (induction ds arbitrary: pre cfg conf free rule: disk_list.induct)
  case (2 d)
  then obtain f fs where free: "free = f # fs" by (cases free) auto
  have "find_and_parse_next_device (pre @ disk_list [d]) BACKEND_TYPE_PVBLOCK cfg =
      Some (Some '']'', cfg\<lparr>disks := conf @ disk_conf d # fs\<rparr>)"
    using 2 free after_skip [of "CHR 0x27" pre] after_skip [of "CHR 0x27" "disk_entry d" "'']''"] no_quote [of d]
      fill_next_disk [of cfg conf f fs d]
    by (simp add: find_and_parse_next_device_def takeWhile_append)
  then show ?case using free by (subst parse_devices.simps) simp
next
  case (3 d e ds)
  obtain f fs where free: "free = f # fs" using "3.prems"(8) by (cases free) auto
  let ?rest = "'', '' @ disk_list (e # ds)" and ?cfg = "cfg\<lparr>disks := conf @ disk_conf d # fs\<rparr>"
  have nx: "find_and_parse_next_device (pre @ disk_list (d # e # ds)) BACKEND_TYPE_PVBLOCK cfg = Some (Some ?rest, ?cfg)"
    using "3.prems" free after_skip [of "CHR 0x27" pre] after_skip [of "CHR 0x27" "disk_entry d" ?rest] no_quote [of d]
      fill_next_disk [of cfg conf f fs d]
    by (simp add: find_and_parse_next_device_def takeWhile_append del: disk_list.simps(2))
  have "parse_devices ?rest BACKEND_TYPE_PVBLOCK ?cfg =
      Some (?cfg\<lparr>disks := (conf @ [disk_conf d]) @ map disk_conf (e # ds) @ drop (length (e # ds)) fs\<rparr>)"
    by (rule "3.IH") (use "3.prems" free in \<open>auto simp: disk_conf_def\<close>)
  then show ?case using nx free by (subst parse_devices.simps) simp
qed simp

lemma cstr_set_field: "field_ok f \<Longrightarrow> cstr (set_field f) = Some f"
proof -
  assume "field_ok f"
  then have f: "NUL \<notin> set f" "length f < 80" by (simp_all add: field_ok_def field_text_def)
  then have "set_field f = f @ NUL # replicate (79 - length f) NUL"
    by (simp add: set_field_def strncpy_def flip: replicate_Suc)
  then show ?thesis using cstr_terminated [OF f(1)] by simp
qed

text \<open>C30. A device line printed for a list of disks, of at most 256 characters, configures exactly these
  disks in the first free places, in order: the back end, and as C strings the device, access and
  target fields, are those of the list.  Devices already configured are not touched.\<close>

theorem disk_line_roundtrip:
  assumes "list_all disk_ok ds" "ds \<noteq> []" "length (disk_line ds) \<le> 256" "disks cfg = conf @ free"
    "list_all blk_configured conf" "list_all (\<lambda>c. \<not> blk_configured c) free" "length ds \<le> length free"
  shows "\<exists>cs. parse_one_record_and_fill_cfg (Some (disk_line ds)) (Some cfg) =
      Some (0, Some (cfg\<lparr>disks := conf @ cs @ drop (length ds) free\<rparr>)) \<and>
    list_all2 (\<lambda>d c. blk_configured c \<and> blk_backend c = ds_backend d \<and> cstr (vdev c) = Some (ds_vdev d) \<and>
      cstr (blk_access c) = Some (ds_access d) \<and> cstr (blk_target c) = Some (ds_target d)) ds cs"
proof (intro exI conjI)
  have "CHR 0x27 \<notin> set ''disk=[''" by simp
  from parse_disk_list [OF assms(1,2) this assms(3) [unfolded disk_line_def] assms(4-7)]
  show "parse_one_record_and_fill_cfg (Some (disk_line ds)) (Some cfg) =
      Some (0, Some (cfg\<lparr>disks := conf @ map disk_conf ds @ drop (length ds) free\<rparr>))"
    by (simp add: parse_one_record_and_fill_cfg_def disk_line_def detect_backend_type_def)
  show "list_all2 (\<lambda>d c. blk_configured c \<and> blk_backend c = ds_backend d \<and> cstr (vdev c) = Some (ds_vdev d) \<and>
      cstr (blk_access c) = Some (ds_access d) \<and> cstr (blk_target c) = Some (ds_target d)) ds (map disk_conf ds)"
    using assms(1) by (auto simp: list_all2_conv_all_nth list_all_length disk_conf_def disk_ok_def cstr_set_field)
qed

definition ex_disk :: disk_spec where
  "ex_disk = \<lparr>ds_backend = 1, ds_vdev = ''xvda'', ds_access = ''rw'', ds_target = ''/dev/mmcblk0p3''\<rparr>"

definition ex_free :: pv_block_configuration where
  "ex_free = \<lparr>blk_configured = False, blk_backend = 0, backendtype = [], blk_format = [], blk_script = [],
     blk_target = [], vdev = [], blk_access = []\<rparr>"

theorem disk_line_roundtrip_witness:
  "disk_line [ex_disk] = ''disk=['' @ [CHR 0x27] @ ''backend=1, vdev=xvda, access=rw, target=/dev/mmcblk0p3'' @ [CHR 0x27] @ '']'' \<and>
   (\<exists>c. parse_one_record_and_fill_cfg (Some (disk_line [ex_disk])) (Some \<lparr>vifs = [], disks = [ex_free, ex_free, ex_free]\<rparr>) =
      Some (0, Some \<lparr>vifs = [], disks = [c, ex_free, ex_free]\<rparr>) \<and> cstr (vdev c) = Some ''xvda'')"
proof -
  have l: "disk_line [ex_disk] = ''disk=['' @ [CHR 0x27] @ ''backend=1, vdev=xvda, access=rw, target=/dev/mmcblk0p3'' @ [CHR 0x27] @ '']''"
    by code_simp
  have h: "list_all disk_ok [ex_disk]" by (simp add: disk_ok_def field_ok_def field_text_def ex_disk_def blank_def)
  have "length (disk_line [ex_disk]) \<le> 256" unfolding l by simp
  from disk_line_roundtrip [OF h _ this, of "\<lparr>vifs = [], disks = [ex_free, ex_free, ex_free]\<rparr>" "[]" "[ex_free, ex_free, ex_free]"]
  have "\<exists>cs. parse_one_record_and_fill_cfg (Some (disk_line [ex_disk])) (Some \<lparr>vifs = [], disks = [ex_free, ex_free, ex_free]\<rparr>) =
      Some (0, Some \<lparr>vifs = [], disks = cs @ [ex_free, ex_free]\<rparr>) \<and>
    list_all2 (\<lambda>d c. cstr (vdev c) = Some (ds_vdev d)) [ex_disk] cs"
    by (auto simp: ex_free_def elim!: list_all2_mono)
  then show ?thesis using l by (auto simp: list_all2_Cons1 ex_disk_def)
qed

end
