(* ===== verification/Dom_Xs.thy ===== *)
theory Dom_Xs
  imports Xl_Parser
begin

text \<open>
  The registration of domains in the store, \<open>xen-dom-xs.c\<close>: the entries of a new domain, the
  entries that connect its block and network devices with their back ends, and their removal.
  Each function is a sequence of writes that stops at the first error.  Results are \<open>None\<close> where
  \<open>sprintf\<close> leaves its buffer of 80 bytes or an unterminated array is read.
\<close>

section \<open>Sequences of writes\<close>

text \<open>A value is a constant, the buffer \<open>rbuffer\<close> or an array of a configuration.\<close>

datatype put_val = Lit string | Buf string | Arr "char list"

definition put_value :: "put_val \<Rightarrow> string option" where
  "put_value v =
     (case v of Lit s \<Rightarrow> Some s | Buf s \<Rightarrow> if length s < INIT_XENSTORE_BUFF_SIZE then Some s else None | Arr a \<Rightarrow> cstr a)"

datatype xs_put =
  PutLocal string put_val
| PutRw string put_val u32
| PutRo string put_val u32
| PutPerm string put_val u32 u32

fun put_path :: "xs_put \<Rightarrow> string" where
  "put_path (PutLocal p v) = p"
| "put_path (PutRw p v d) = p"
| "put_path (PutRo p v d) = p"
| "put_path (PutPerm p v d1 d2) = p"

fun put_val_of :: "xs_put \<Rightarrow> put_val" where
  "put_val_of (PutLocal p v) = v"
| "put_val_of (PutRw p v d) = v"
| "put_val_of (PutRo p v d) = v"
| "put_val_of (PutPerm p v d1 d2) = v"

fun put_call :: "xs_put \<Rightarrow> string \<Rightarrow> 'a xs_world_scheme \<Rightarrow> (int \<times> 'a xs_world_scheme) option" where
  "put_call (PutLocal p _) v w = xss_write (Some p) (Some v) w"
| "put_call (PutRw p _ d) v w = xss_write_guest_domain_rw (Some p) (Some v) d w"
| "put_call (PutRo p _ d) v w = xss_write_guest_domain_ro (Some p) (Some v) d w"
| "put_call (PutPerm p _ d1 d2) v w = xss_write_guest_with_permissions (Some p) (Some v) d1 d2 w"

text \<open>\<open>sprintf(lbuffer, ...)\<close> followed by the call.\<close>

definition do_put :: "xs_put \<Rightarrow> 'a xs_world_scheme \<Rightarrow> (int \<times> 'a xs_world_scheme) option" where
  "do_put p w =
     (if INIT_XENSTORE_BUFF_SIZE \<le> length (put_path p) then None
      else do { v \<leftarrow> put_value (put_val_of p); put_call p v w })"

fun run_puts :: "xs_put list \<Rightarrow> 'a xs_world_scheme \<Rightarrow> (int \<times> 'a xs_world_scheme) option" where
  "run_puts [] w = Some (0, w)"
| "run_puts (p # ps) w =
     do { (rc, w1) \<leftarrow> do_put p w; if rc \<noteq> 0 then Some (rc, w1) else run_puts ps w1 }"

section \<open>Domains\<close>

definition fmt_012d :: "int \<Rightarrow> string" where
  "fmt_012d i =
     (if i < 0 then CHR ''-'' # replicate (11 - length (dec (nat (- i)))) (CHR ''0'') @ dec (nat (- i))
      else replicate (12 - length (dec (nat i))) (CHR ''0'') @ dec (nat i))"

definition dom_uuid :: "u32 \<Rightarrow> string" where
  "dom_uuid d = snd (snprintf 40 (''00000000-0000-0000-0000-'' @ fmt_012d (sint d)))"

definition dom_home :: "u32 \<Rightarrow> string" where
  "dom_home d = ''/local/domain/'' @ fmt_d (sint d)"

definition libxl_home :: "u32 \<Rightarrow> string" where
  "libxl_home d = ''/libxl/'' @ fmt_d (sint d)"

definition vm_home :: "u32 \<Rightarrow> string" where
  "vm_home d = ''/vm/'' @ dom_uuid d"

definition xs_deinitialize_domain_xenstore :: "u32 \<Rightarrow> 'a xs_world_scheme \<Rightarrow> 'a xs_world_scheme option" where
  "xs_deinitialize_domain_xenstore d w =
     do { (rc1, w1) \<leftarrow> xss_rm (dom_home d) w;
          (rc2, w2) \<leftarrow> xss_rm (vm_home d) w1;
          (rc3, w3) \<leftarrow> xss_rm (libxl_home d) w2;
          Some w3 }"

definition rw_dirs :: "string list" where
  "rw_dirs = [''data'', ''drivers'', ''feature'', ''attr'', ''error'', ''control/shutdown'', ''control/feature-poweroff'',
     ''control/feature-reboot'', ''control/feature-suspend'', ''control/sysrq'', ''device/suspend/event-channel'']"

text \<open>The part of \<open>struct xen_domain\<close> that is published.\<close>

record dom_info =
  num_vcpus :: int
  max_mem_kb :: u64
  dom_name :: string

definition dom_label :: "u32 \<Rightarrow> dom_info \<Rightarrow> string" where
  "dom_label d i =
     (if dom_name i \<noteq> [] then snd (snprintf INIT_XENSTORE_BUFF_SIZE (dom_name i)) else ''zephyr-'' @ fmt_d (sint d))"

definition init_puts :: "u32 \<Rightarrow> dom_info \<Rightarrow> xs_put list" where
  "init_puts d i =
     [PutRw (dom_home d) (Lit []) d] @
     map (\<lambda>n. PutRo (dom_home d @ ''/cpu/'' @ fmt_d (int n) @ ''/availability'') (Lit ''online'') d) [0..<nat (num_vcpus i)] @
     [PutRo (dom_home d @ ''/memory/static-max'') (Buf (fmt_d (sint (max_mem_kb i)))) d,
      PutRo (dom_home d @ ''/memory/target'') (Buf (fmt_d (sint (max_mem_kb i)))) d,
      PutRo (dom_home d @ ''/memory/videoram'') (Lit ''-1'') d,
      PutRo (dom_home d @ ''/control/platform-feature-multiprocessor-suspend'') (Lit ''1'') d,
      PutRo (dom_home d @ ''/control/platform-feature-xs_reset_watches'') (Lit ''1'') d,
      PutRo (dom_home d @ ''/vm'') (Lit (dom_uuid d)) d,
      PutRo (vm_home d @ ''/name'') (Buf (dom_label d i)) d,
      PutRo (dom_home d @ ''/name'') (Buf (dom_label d i)) d,
      PutRo (vm_home d @ ''/start_time'') (Lit ''0'') d,
      PutRo (vm_home d @ ''/uuid'') (Lit (dom_uuid d)) d,
      PutRo (dom_home d @ ''/domid'') (Buf (fmt_d (sint d))) d,
      PutRo (dom_home d @ ''/control'') (Lit []) d,
      PutRo (dom_home d @ ''/device/vbd'') (Lit []) d] @
     map (\<lambda>s. PutRw (dom_home d @ ''/'' @ s) (Lit []) d) rw_dirs @
     [PutLocal (libxl_home d @ ''/dm-version'') (Lit ''qemu_xen_traditional''),
      PutLocal (libxl_home d @ ''/type'') (Lit ''pvh'')]"

definition xs_initialize_xenstore ::
  "u32 \<Rightarrow> dom_info \<Rightarrow> 'a xs_world_scheme \<Rightarrow> (int \<times> 'a xs_world_scheme) option" where
  "xs_initialize_xenstore d i w =
     do { (rc, w1) \<leftarrow> run_puts (init_puts d i) w;
          if rc \<noteq> 0 then do { w2 \<leftarrow> xs_deinitialize_domain_xenstore d w1; Some (rc, w2) }
          else Some (0, w1) }"

section \<open>Block devices\<close>

definition get_xvd_disk_id :: "string option \<Rightarrow> int" where
  "get_xvd_disk_id vname =
     (case vname of
        None \<Rightarrow> 0
      | Some v \<Rightarrow>
          if length v \<noteq> 4 \<or> \<not> prefix ''xvd'' v \<or>
             \<not> ((97 :: nat) \<le> of_char (v ! 3) \<and> (of_char (v ! 3) :: nat) \<le> 122)
          then 0
          else int ((202 * 256) OR ((of_char (v ! 3) - 97) * 16)))"

definition vbd_back :: "int \<Rightarrow> int \<Rightarrow> string" where
  "vbd_back b d = ''/local/domain/'' @ fmt_d b @ ''/backend/vbd/'' @ fmt_d d"

definition vbd_front :: "int \<Rightarrow> int \<Rightarrow> string" where
  "vbd_front d vid = ''/local/domain/'' @ fmt_d d @ ''/device/vbd/'' @ fmt_d vid"

text \<open>The writes up to the node \<open>type\<close>, and those after the node \<open>mode\<close>.\<close>

definition block_puts1 :: "pv_block_configuration \<Rightarrow> int \<Rightarrow> int \<Rightarrow> xs_put list" where
  "block_puts1 c d vid =
     (let b = blk_backend c; back = vbd_back b d @ ''/'' @ fmt_d vid; bw = of_int b; dw = of_int d;
          put = (\<lambda>leaf v. PutPerm (back @ leaf) v bw dw)
      in [PutRo (''/local/domain/'' @ fmt_d b @ ''/backend'') (Lit []) bw,
          PutRo (''/local/domain/'' @ fmt_d b @ ''/backend/vbd'') (Lit []) bw,
          PutRo (vbd_back b d) (Lit []) bw,
          PutPerm back (Lit []) bw dw,
          put ''/frontend'' (Buf (vbd_front d vid)), put ''/params'' (Arr (blk_target c)), put ''/script'' (Arr (blk_script c)),
          put ''/frontend-id'' (Buf (fmt_d d)), put ''/online'' (Lit ''1''), put ''/removable'' (Lit ''0''),
          put ''/bootable'' (Lit ''1''), put ''/dev'' (Arr (vdev c)), put ''/type'' (Arr (backendtype c))])"

definition block_puts2 :: "pv_block_configuration \<Rightarrow> int \<Rightarrow> int \<Rightarrow> xs_put list" where
  "block_puts2 c d vid =
     (let b = blk_backend c; back = vbd_back b d @ ''/'' @ fmt_d vid; front = vbd_front d vid;
          bw = of_int b; dw = of_int d;
          put = (\<lambda>leaf v. PutPerm (back @ leaf) v bw dw); fput = (\<lambda>leaf v. PutPerm (front @ leaf) v dw bw)
      in [put ''/device-type'' (Lit ''disk''), put ''/discard-enable'' (Lit ''1''), put ''/multi-queue-max-queues'' (Lit ''4''),
          put ''/state'' (Lit ''1''),
          fput [] (Lit []), fput ''/backend'' (Buf back), fput ''/backend-id'' (Buf (fmt_d b)),
          fput ''/virtual-device'' (Buf (fmt_d vid)), fput ''/device-type'' (Lit ''disk''), fput ''/event-channel'' (Lit []),
          fput ''/state'' (Lit ''1'')])"

text \<open>The result of writing the node \<open>mode\<close> is not looked at.\<close>

definition xs_add_pvblock_xenstore ::
  "pv_block_configuration \<Rightarrow> int \<Rightarrow> 'a xs_world_scheme \<Rightarrow> (int \<times> 'a xs_world_scheme) option" where
  "xs_add_pvblock_xenstore c d w =
     (if \<not> blk_configured c then Some (0, w)
      else
        do { name \<leftarrow> cstr (vdev c);
             let vid = get_xvd_disk_id (Some name) in
             if vid = 0 then Some (- EINVAL, w)
             else
               do { (rc, w1) \<leftarrow> run_puts (block_puts1 c d vid) w;
                    if rc \<noteq> 0 then Some (rc, w1)
                    else
                      do { acc \<leftarrow> cstr (blk_access c);
                           let mode = (\<lambda>m. PutPerm (vbd_back (blk_backend c) d @ ''/'' @ fmt_d vid @ ''/mode'') (Lit m)
                                             (of_int (blk_backend c)) (of_int d));
                               go = (\<lambda>m. do { (rc1, w2) \<leftarrow> do_put (mode m) w1; run_puts (block_puts2 c d vid) w2 })
                           in if acc = ''rw'' \<or> acc = ''w'' then go ''w''
                              else if acc = ''ro'' \<or> acc = ''r'' then go ''r''
                              else Some (- EINVAL, w1) } } })"

section \<open>Network devices\<close>

definition vif_back :: "int \<Rightarrow> int \<Rightarrow> string" where
  "vif_back b d = ''/local/domain/'' @ fmt_d b @ ''/backend/vif/'' @ fmt_d d"

definition vif_front :: "int \<Rightarrow> int \<Rightarrow> string" where
  "vif_front d vid = ''/local/domain/'' @ fmt_d d @ ''/device/vif/'' @ fmt_d vid"

definition net_puts1 :: "pv_net_configuration \<Rightarrow> int \<Rightarrow> int \<Rightarrow> xs_put list" where
  "net_puts1 c d vid =
     (let b = net_backend c; back = vif_back b d @ ''/'' @ fmt_d vid; front = vif_front d vid; bw = of_int b; dw = of_int d;
          put = (\<lambda>leaf v. PutPerm (back @ leaf) v bw dw); fput = (\<lambda>leaf v. PutPerm (front @ leaf) v dw bw)
      in [PutPerm (''/local/domain/'' @ fmt_d b @ ''/backend/vif'') (Lit []) bw dw,
          PutPerm (vif_back b d) (Lit []) bw dw,
          put [] (Lit []), put ''/frontend'' (Buf front), put ''/frontend-id'' (Buf (fmt_d d)), put ''/online'' (Lit ''1''),
          put ''/script'' (Arr (net_script c)), put ''/mac'' (Arr (mac c)), put ''/bridge'' (Arr (bridge c)),
          put ''/handle'' (Buf (fmt_d vid)), put ''/type'' (Arr (net_type c)), put ''/hotplug-status'' (Lit [])] @
         (if field_set (ip c) then [put ''/ip'' (Arr (ip c))] else []) @
         [put ''/state'' (Lit ''1''),
          PutPerm (''/local/domain/'' @ fmt_d d @ ''/device/vif'') (Lit []) dw bw,
          fput [] (Lit []), fput ''/backend'' (Buf back), fput ''/backend-id'' (Buf (fmt_d b)), fput ''/handle'' (Buf (fmt_d vid))])"

text \<open>The owner of \<open>mtu\<close> is the back end, as in the code.\<close>

definition net_puts2 :: "pv_net_configuration \<Rightarrow> int \<Rightarrow> int \<Rightarrow> xs_put list" where
  "net_puts2 c d vid =
     (let b = net_backend c; front = vif_front d vid; bw = of_int b; dw = of_int d;
          fput = (\<lambda>leaf v. PutPerm (front @ leaf) v dw bw)
      in [fput ''/mac'' (Arr (mac c)), PutPerm (front @ ''/mtu'') (Lit ''1500'') bw dw,
          fput ''/multi-queue-num-queues'' (Lit ''1''), fput ''/request-rx-copy'' (Lit ''1''), fput ''/state'' (Lit ''1'')])"

definition xs_add_pvnet_xenstore ::
  "pv_net_configuration \<Rightarrow> int \<Rightarrow> int \<Rightarrow> 'a xs_world_scheme \<Rightarrow> (int \<times> 'a xs_world_scheme) option" where
  "xs_add_pvnet_xenstore c d vid w =
     (if \<not> net_configured c then Some (0, w)
      else
        do { (rc, w1) \<leftarrow> run_puts (net_puts1 c d vid) w;
             if rc \<noteq> 0 then Some (rc, w1)
             else if \<not> field_set (mac c) then Some (- EINVAL, w1)
             else run_puts (net_puts2 c d vid) w1 })"

section \<open>Removing the back ends\<close>

record backend_state =
  functional :: bool
  bs_backend :: int

record backends_state =
  bs_vifs :: "backend_state list"
  bs_disks :: "backend_state list"

text \<open>One of the two loops: the node of the first functional device is removed.\<close>

definition remove_first ::
  "(int \<Rightarrow> string) \<Rightarrow> backend_state list \<Rightarrow> int \<Rightarrow> 'a xs_world_scheme \<Rightarrow> (int \<times> 'a xs_world_scheme) option" where
  "remove_first node bs rc w =
     (case List.find functional bs of
        None \<Rightarrow> Some (rc, w)
      | Some s \<Rightarrow> if INIT_XENSTORE_BUFF_SIZE \<le> length (node (bs_backend s)) then None else xss_rm (node (bs_backend s)) w)"

text \<open>The result of removing the network devices is overwritten by that of the disks, if there are
  any.\<close>

definition xs_remove_xenstore_backends ::
  "u32 \<Rightarrow> backends_state \<Rightarrow> 'a xs_world_scheme \<Rightarrow> (int \<times> backends_state \<times> 'a xs_world_scheme) option" where
  "xs_remove_xenstore_backends d st w =
     do { (rc1, w1) \<leftarrow> remove_first (\<lambda>b. vif_back b (sint d)) (bs_vifs st) 0 w;
          (rc2, w2) \<leftarrow> remove_first (\<lambda>b. vbd_back b (sint d)) (bs_disks st) rc1 w1;
          let zero = map (\<lambda>_. \<lparr>functional = False, bs_backend = 0\<rparr>)
          in Some (rc2, \<lparr>bs_vifs = zero (bs_vifs st), bs_disks = zero (bs_disks st)\<rparr>, w2) }"

end
