(* ===== verification/Dom_Xs_Props.thy ===== *)
theory Dom_Xs_Props
  imports Dom_Xs Xs_Local_Props
begin

text \<open>
  With enough memory the registration of a domain succeeds without leaving a buffer, and undoing it
  leaves nothing of the domain in the store and changes no entry outside its three directories.
\<close>

section \<open>Writes of the control domain succeed\<close>

lemma write_walk_dom0:
  "mallocs w = [] \<Longrightarrow> write_walk ts p ins 0 perms w = Some (rc, ins', w') \<Longrightarrow> rc = 0"
proof (induction ts arbitrary: p ins w)
  case (Cons t ts)
  show ?case
  proof (cases "node_at (root_xenstore w) (p @ [t])")
    case None
    then obtain rc1 w1 where c: "create_entry p t 0 perms w = Some (rc1, w1)"
        "if rc1 \<noteq> 0 then rc = rc1 else write_walk ts (p @ [t]) (if ins = None then Some (p @ [t]) else ins) 0 perms w1 = Some (rc, ins', w')"
      using Cons.prems(2) by (auto simp: check_perms_def split: bind_splits if_splits)
    then show ?thesis using create_entry_same [OF Cons.prems(1) c(1)] Cons.IH by auto
  qed (use Cons in auto)
qed simp

lemma do_write_dom0:
  assumes "mallocs w = []" "xss_do_write path data 0 perms K_FOREVER w = Some (rc, w1)"
  shows "rc = 0"
proof -
  obtain rc2 ins w3 where wk: "write_walk (strtok_all slash path) [] None 0 perms w = Some (rc2, ins, w3)"
    using assms(2) unfolding do_write_forever [OF assms(1)] by (auto split: bind_splits)
  have "rc2 = 0" "mallocs w3 = []" using write_walk_dom0 [OF assms(1) wk] write_walk_same [OF assms(1) wk] by simp_all
  then show ?thesis using assms(2) wk unfolding do_write_forever [OF assms(1)]
    by (auto simp: check_perms_def split: if_splits bind_splits)
qed

lemma write_perms_ok:
  fixes w :: "'a xs_world_scheme"
  assumes "world_ok w" "mallocs w = []"
  shows "\<exists>w1. xss_write_perms (Some p) (Some v) perms w = Some (0, w1) \<and> world_ok w1 \<and> mallocs w1 = [] \<and>
    abs_tree (root_xenstore w1) = abs_write (strtok_all slash p) (Some v) perms (abs_tree (root_xenstore w))"
proof -
  obtain rc w1 where r: "xss_do_write p (Some v) 0 perms K_FOREVER w = Some (rc, w1)" "world_ok w1" "mallocs w1 = []"
    using do_write_world [OF assms] by blast
  have rc: "rc = 0" by (rule do_write_dom0 [OF assms(2) r(1)])
  have "abs_tree (root_xenstore w1) = abs_write (strtok_all slash p) (Some v) perms (abs_tree (root_xenstore w))"
    using do_write_refines(1) [of w p "Some v" 0 perms K_FOREVER w1] r(1) rc assms(1) by (simp add: xss_do_write_def world_ok_def)
  moreover obtain w2 where "notify_watchers p w1 = Some w2" "world_ok w2" "mallocs w2 = []" "root_xenstore w2 = root_xenstore w1"
    using notify_world [OF r(2,3)] by blast
  ultimately show ?thesis using r(1) rc by (simp add: xss_write_perms_def)
qed

lemma put_call_ok:
  fixes w :: "'a xs_world_scheme"
  assumes "world_ok w" "mallocs w = []"
  shows "\<exists>perms w1. put_call p v w = Some (0, w1) \<and> world_ok w1 \<and> mallocs w1 = [] \<and>
    abs_tree (root_xenstore w1) = abs_write (strtok_all slash (put_path p)) (Some v) perms (abs_tree (root_xenstore w))"
proof -
  have "\<exists>perms. put_call p v w = xss_write_perms (Some (put_path p)) (Some v) perms w"
    by (cases p) (auto simp: xss_write_def xss_write_guest_domain_rw_def xss_write_guest_domain_ro_def
        xss_write_guest_with_permissions_def Let_def)
  then obtain perms where "put_call p v w = xss_write_perms (Some (put_path p)) (Some v) perms w" by blast
  then show ?thesis using write_perms_ok [OF assms, of "put_path p" v perms] by (intro exI [of _ perms]) simp
qed

section \<open>What a sequence of writes changes\<close>

type_synonym abs_store = "entry_ptr \<Rightarrow> (string option \<times> xs_perm_entry list) option"

text \<open>The paths exist; apart from them only missing entries on the way to them have appeared.\<close>

definition wrote :: "entry_ptr set \<Rightarrow> abs_store \<Rightarrow> abs_store \<Rightarrow> bool" where
  "wrote P A A' \<longleftrightarrow> (\<forall>p \<in> P. A' p \<noteq> None) \<and> (\<forall>q. A q \<noteq> None \<longrightarrow> A' q \<noteq> None) \<and>
     (\<forall>q. q \<notin> P \<longrightarrow> A' q = A q \<or> A q = None \<and> (\<exists>p \<in> P. strict_prefix q p))"

lemma wrote_empty: "wrote {} A A"
  by (simp add: wrote_def)

lemma wrote_abs_write: "wrote {p} A (abs_write p d perms A)"
  by (auto simp: wrote_def abs_write_def abs_mkdirs_def strict_prefix_def)

lemma wrote_trans:
  assumes "wrote P A A'" "wrote Q A' A''"
  shows "wrote (P \<union> Q) A A''"
  unfolding wrote_def
proof (intro conjI allI impI ballI)
  show "A'' p \<noteq> None" if "p \<in> P \<union> Q" for p using that assms unfolding wrote_def by blast
  show "A'' q \<noteq> None" if "A q \<noteq> None" for q using that assms unfolding wrote_def by blast
  show "A'' q = A q \<or> A q = None \<and> (\<exists>p \<in> P \<union> Q. strict_prefix q p)" if q: "q \<notin> P \<union> Q" for q
  proof -
    have "A' q = A q \<or> A q = None \<and> (\<exists>p \<in> P. strict_prefix q p)" using assms(1) q unfolding wrote_def by blast
    moreover have "A'' q = A' q \<or> A' q = None \<and> (\<exists>p \<in> Q. strict_prefix q p)" using assms(2) q unfolding wrote_def by blast
    ultimately show ?thesis by auto
  qed
qed

definition put_ok :: "xs_put \<Rightarrow> bool" where
  "put_ok p \<longleftrightarrow> length (put_path p) < 80 \<and> put_value (put_val_of p) \<noteq> None"

definition put_toks :: "xs_put \<Rightarrow> entry_ptr" where
  "put_toks p = strtok_all slash (put_path p)"

lemma run_puts_ok:
  fixes w :: "'a xs_world_scheme"
  assumes "world_ok w" "mallocs w = []" "list_all put_ok ps"
  shows "\<exists>w1. run_puts ps w = Some (0, w1) \<and> world_ok w1 \<and> mallocs w1 = [] \<and>
    wrote (put_toks ` set ps) (abs_tree (root_xenstore w)) (abs_tree (root_xenstore w1))"
  using assms
proof (induction ps arbitrary: w)
  case Nil
  then show ?case by (simp add: wrote_empty)
next
  case (Cons p ps)
  obtain v where v: "put_value (put_val_of p) = Some v" "length (put_path p) < 80"
    using Cons.prems(3) by (auto simp: put_ok_def)
  obtain perms w1 where c: "put_call p v w = Some (0, w1)" "world_ok w1" "mallocs w1 = []"
      "abs_tree (root_xenstore w1) = abs_write (put_toks p) (Some v) perms (abs_tree (root_xenstore w))"
    using put_call_ok [OF Cons.prems(1,2)] unfolding put_toks_def by blast
  obtain w2 where r: "run_puts ps w1 = Some (0, w2)" "world_ok w2" "mallocs w2 = []"
      "wrote (put_toks ` set ps) (abs_tree (root_xenstore w1)) (abs_tree (root_xenstore w2))"
    using Cons.IH [OF c(2,3)] Cons.prems(3) by auto
  have "wrote ({put_toks p} \<union> put_toks ` set ps) (abs_tree (root_xenstore w)) (abs_tree (root_xenstore w2))"
    using wrote_trans [OF wrote_abs_write r(4) [unfolded c(4)]] .
  then show ?case using r c(1) v by (simp add: do_put_def)
qed

section \<open>Removal of an existing entry succeeds\<close>

lemma queue_pending_forever:
  "queue_pending_watch_event a path K_FOREVER w = Some (rc, w') \<Longrightarrow> rc = 0 \<or> rc = - ENOMEM"
  by (auto simp: queue_pending_watch_event_def xss_mutex_lock_deadline_def Let_def split: bind_splits if_splits prod.splits)

lemma queue_loop_forever: "queue_loop as path rec L K_FOREVER w = Some (rc, L', w') \<Longrightarrow> rc = 0"
proof (induction as arbitrary: L w)
  case (Cons a as)
  then show ?case
    by (auto split: bind_splits option.splits if_splits prod.splits dest: queue_pending_forever)
qed simp

lemma rm_existing:
  fixes w :: "'a xs_world_scheme"
  assumes "world_ok w" "mallocs w = []" "strtok_all slash key \<noteq> []" "length key \<le> XENSTORE_ABS_PATH_MAX"
    "abs_tree (root_xenstore w) (strtok_all slash key) \<noteq> None"
  shows "\<exists>w1. xss_rm key w = Some (0, w1) \<and> world_ok w1 \<and> mallocs w1 = [] \<and>
    (\<forall>q. abs_tree (root_xenstore w1) q = (if prefix (strtok_all slash key) q then None else abs_tree (root_xenstore w) q))"
proof -
  let ?ts = "strtok_all slash key"
  obtain rc w1 where r: "xss_do_rm key 0 K_FOREVER w = Some (rc, w1)" "world_ok w1" "mallocs w1 = []"
      "rc = 0 \<longrightarrow> root_xenstore w1 = remove_at ?ts (root_xenstore w)"
    using rm_world [OF assms(1-3), of 0] by (auto split: if_splits)
  obtain e where e: "node_at (root_xenstore w) ?ts = Some e" using assms(5) by (auto simp: abs_tree_None)
  have mal: "fst (k_malloc w)" using assms(2) by simp
  obtain w2 where k: "key_to_entry (Some key) w = (Some ?ts, w2)" using key_to_entry_found [OF assms(4) mal assms(3) e] by blast
  have "w2 = w" by (rule key_to_entry_same [OF assms(2) k])
  then have l: "key_to_entry_check_perm (Some key) 0 XS_PERM_WRITE w = Some (Some ?ts, w)"
    using k e by (simp add: key_to_entry_check_perm_def check_perms_for_entry_def)
  obtain rc3 L w3 where q: "queue_watch_notifications_xsel_locked key True [] K_FOREVER w = Some (rc3, L, w3)"
    using r(1) l by (auto simp: xss_do_rm_def xss_do_rm_deadline_def xss_mutex_lock_deadline_def split: bind_splits)
  then have "rc3 = 0"
    using queue_loop_forever by (auto simp: queue_watch_notifications_xsel_locked_def xss_mutex_lock_deadline_def)
  then have "rc = 0" using r(1) l q
    by (auto simp: xss_do_rm_def xss_do_rm_deadline_def xss_mutex_lock_deadline_def split: bind_splits)
  moreover have "wf_tree (root_xenstore w)" using assms(1) by (simp add: world_ok_def)
  ultimately show ?thesis using r abs_tree_remove_at [OF _ assms(3)] by (simp add: xss_rm_def)
qed

section \<open>The directories of a domain\<close>

definition home_toks :: "u32 \<Rightarrow> entry_ptr list" where
  "home_toks d = [[''local'', ''domain'', dec (unat d)], [''vm'', dom_uuid d], [''libxl'', dec (unat d)]]"

lemma strtok_path_append:
  "list_all token_ok ts \<Longrightarrow> strtok_all slash (path_of ts @ slash # s) = ts @ strtok_all slash s"
proof (induction ts)
  case (Cons t ts)
  then have t: "t \<noteq> []" "slash \<notin> set t" by (auto simp: token_ok_def)
  have "strtok_acc slash t (path_of ts @ slash # s) = t # strtok_acc slash [] (path_of ts @ slash # s)"
    using t by (cases ts) auto
  then show ?case using Cons t by (simp add: strtok_all_def strtok_acc_token)
qed (simp add: strtok_all_def)

lemma fmt_012d_domid:
  fixes d :: u32
  shows "unat d < 0x8000 \<Longrightarrow> fmt_012d (sint d) = replicate (12 - length (dec (unat d))) (CHR ''0'') @ dec (unat d)"
proof -
  assume d: "unat d < 0x8000"
  have "fmt_d (sint d) = dec (unat d)" by (rule fmt_d_domid [OF d])
  moreover have "\<not> sint d < 0"
  proof
    assume "sint d < 0"
    then have "CHR ''-'' \<in> set (dec (unat d))" using calculation by (simp add: fmt_d_def) (metis list.set_intros(1))
    then show False using dec_chars isdigit_neq by blast
  qed
  ultimately show ?thesis by (simp add: fmt_d_def fmt_012d_def)
qed

lemma uuid_shape:
  assumes "unat d < 0x8000"
  shows "length (dom_uuid d) = 36" "slash \<notin> set (dom_uuid d)"
proof -
  have l: "length (dec (unat d)) \<le> 5" using assms by (intro length_dec_le) simp_all
  have u: "dom_uuid d = ''00000000-0000-0000-0000-'' @ fmt_012d (sint d)"
    using l by (simp add: dom_uuid_def snprintf_def fmt_012d_domid [OF assms])
  show "length (dom_uuid d) = 36" using l by (simp add: u fmt_012d_domid [OF assms])
  show "slash \<notin> set (dom_uuid d)" by (simp add: u fmt_012d_domid [OF assms])
qed

lemma homes:
  assumes "unat d < 0x8000"
  shows "dom_home d = path_of (home_toks d ! 0)" "vm_home d = path_of (home_toks d ! 1)"
    "libxl_home d = path_of (home_toks d ! 2)" "length (dom_home d) \<le> 19" "length (vm_home d) = 40" "length (libxl_home d) \<le> 12"
    "list_all (list_all token_ok) (home_toks d)"
proof -
  have l: "length (dec (unat d)) \<le> 5" using assms by (intro length_dec_le) simp_all
  note f = fmt_d_domid [OF assms]
  show "dom_home d = path_of (home_toks d ! 0)" "vm_home d = path_of (home_toks d ! 1)" "libxl_home d = path_of (home_toks d ! 2)"
    by (simp_all add: dom_home_def vm_home_def libxl_home_def home_toks_def f)
  show "length (dom_home d) \<le> 19" "length (vm_home d) = 40" "length (libxl_home d) \<le> 12"
    using l uuid_shape(1) [OF assms] by (simp_all add: dom_home_def vm_home_def libxl_home_def f)
  have "dom_uuid d \<noteq> []" using uuid_shape(1) [OF assms] by auto
  then show "list_all (list_all token_ok) (home_toks d)" using uuid_shape(2) [OF assms] by (simp add: home_toks_def token_ok_def)
qed

text \<open>A path in one of the three directories.\<close>

definition in_homes :: "u32 \<Rightarrow> string \<Rightarrow> bool" where
  "in_homes d p \<longleftrightarrow> (\<exists>h \<in> {dom_home d, vm_home d, libxl_home d}. \<exists>s. p = h @ s \<and> (s = [] \<or> hd s = slash))"

lemma in_homesI:
  "in_homes d (dom_home d)" "in_homes d (dom_home d @ slash # s)" "in_homes d (vm_home d @ slash # s)"
  "in_homes d (libxl_home d @ slash # s)"
  by (auto simp: in_homes_def)

lemma in_homes_toks:
  assumes "unat d < 0x8000" "in_homes d p"
  shows "\<exists>h \<in> set (home_toks d). prefix h (strtok_all slash p)"
proof -
  obtain k s where k: "k < 3" "p = path_of (home_toks d ! k) @ s" "s = [] \<or> hd s = slash"
    using assms(2) homes(1-3) [OF assms(1)] unfolding in_homes_def by (auto intro: that [of 0] that [of 1] that [of 2])
  have l: "length (home_toks d) = 3" by (simp add: home_toks_def)
  have ok: "list_all token_ok (home_toks d ! k)" using homes(7) [OF assms(1)] k(1) l by (simp add: list_all_length)
  have "prefix (home_toks d ! k) (strtok_all slash p)"
    using k(2,3) strtok_all_path_of [OF ok] strtok_path_append [OF ok] by (cases s) auto
  then show ?thesis using k(1) l by (metis nth_mem)
qed

lemma init_puts_in_homes: "list_all (\<lambda>p. in_homes d (put_path p)) (init_puts d i)"
  by (simp add: init_puts_def rw_dirs_def list.pred_map comp_def in_homesI list_all_iff)

lemma length_fmt_d: "- (10 ^ k) < i \<Longrightarrow> i < 10 ^ k \<Longrightarrow> 0 < k \<Longrightarrow> length (fmt_d i) \<le> Suc k"
proof -
  assume a: "- (10 ^ k) < i" "i < 10 ^ k" "0 < k"
  then have "nat \<bar>i\<bar> < 10 ^ k" by (simp add: nat_less_iff)
  then have "length (dec (nat \<bar>i\<bar>)) \<le> k" using a(3) by (intro length_dec_le)
  then show ?thesis by (auto simp: fmt_d_def abs_if split: if_splits)
qed

lemma init_puts_ok:
  assumes "unat d < 0x8000" "num_vcpus i < 2 ^ 31"
  shows "list_all put_ok (init_puts d i)"
proof -
  note h = homes(4-6) [OF assms(1)]
  have n: "length (dom_home d) + length (fmt_d (int n)) < 62" if "n < nat (num_vcpus i)" for n
  proof -
    have "n < 10 ^ 10" using that assms(2) by simp
    then show ?thesis using length_fmt_d [of 10 "int n"] h(1) by simp
  qed
  have m: "length (fmt_d (sint x)) \<le> 20" for x :: u64
    using length_fmt_d [of 19 "sint x"] sint_greater_eq [of x] sint_less [of x] by simp
  have d: "length (fmt_d (sint d)) \<le> 5" using assms(1) by (simp add: fmt_d_domid length_dec_le)
  have lab: "length (dom_label d i) < 80" using d by (auto simp: dom_label_def snprintf_def min_less_iff_disj)
  show ?thesis unfolding init_puts_def rw_dirs_def list_all_append list.pred_map list.pred_inject
    using h n m [of "max_mem_kb i"] d lab by (auto simp: put_ok_def put_value_def comp_def list_all_iff)
qed

text \<open>Parents of entries exist.\<close>

lemma abs_tree_parent: "abs_tree r (p @ q) \<noteq> None \<Longrightarrow> abs_tree r p \<noteq> None"
  by (auto simp: abs_tree_append abs_tree_None split: option.splits)

lemma homes_registered:
  assumes "unat d < 0x8000" "wrote (put_toks ` set (init_puts d i)) A (abs_tree r)" "h \<in> set (home_toks d)"
  shows "abs_tree r h \<noteq> None"
proof -
  let ?ps = "[PutRw (dom_home d) (Lit []) d, PutRo (vm_home d @ slash # ''uuid'') (Lit (dom_uuid d)) d,
    PutLocal (libxl_home d @ slash # ''type'') (Lit ''pvh'')]"
  have ex: "abs_tree r (put_toks p) \<noteq> None" if "p \<in> set ?ps" for p
    using assms(2) that unfolding wrote_def by (auto simp: init_puts_def)
  have ok: "list_all token_ok (home_toks d ! k)" if "k < 3" for k
    using homes(7) [OF assms(1)] that by (simp add: list_all_length home_toks_def)
  have t: "put_toks (?ps ! 0) = home_toks d ! 0 @ []" "put_toks (?ps ! 1) = home_toks d ! 1 @ [''uuid'']"
    "put_toks (?ps ! 2) = home_toks d ! 2 @ [''type'']"
    using strtok_all_path_of [OF ok [of 0]] strtok_path_append [OF ok [of 1]] strtok_path_append [OF ok [of 2]] homes(1-3) [OF assms(1)]
    by (simp_all add: put_toks_def strtok_all_def)
  have "abs_tree r (home_toks d ! 0 @ []) \<noteq> None" unfolding t(1) [symmetric] by (rule ex) simp
  moreover have "abs_tree r (home_toks d ! 1 @ [''uuid'']) \<noteq> None" unfolding t(2) [symmetric] by (rule ex) simp
  moreover have "abs_tree r (home_toks d ! 2 @ [''type'']) \<noteq> None" unfolding t(3) [symmetric] by (rule ex) simp
  ultimately have "abs_tree r (home_toks d ! 0) \<noteq> None" "abs_tree r (home_toks d ! 1) \<noteq> None" "abs_tree r (home_toks d ! 2) \<noteq> None"
    using abs_tree_parent by blast+
  then show ?thesis using assms(3) by (auto simp: home_toks_def)
qed

section \<open>Registration and its removal\<close>

lemma rm_home:
  fixes w :: "'a xs_world_scheme"
  assumes "world_ok w" "mallocs w = []" "list_all token_ok h" "h \<noteq> []" "length (path_of h) \<le> XENSTORE_ABS_PATH_MAX"
    "abs_tree (root_xenstore w) h \<noteq> None"
  shows "\<exists>w1. xss_rm (path_of h) w = Some (0, w1) \<and> world_ok w1 \<and> mallocs w1 = [] \<and>
    (\<forall>q. abs_tree (root_xenstore w1) q = (if prefix h q then None else abs_tree (root_xenstore w) q))"
  using rm_existing [OF assms(1,2), of "path_of h"] assms(3-6) by (simp add: strtok_all_path_of)

lemma deinitialize_ok:
  fixes w :: "'a xs_world_scheme"
  assumes "world_ok w" "mallocs w = []" "unat d < 0x8000" "\<forall>h \<in> set (home_toks d). abs_tree (root_xenstore w) h \<noteq> None"
  shows "\<exists>w1. xs_deinitialize_domain_xenstore d w = Some w1 \<and> world_ok w1 \<and>
    (\<forall>q. abs_tree (root_xenstore w1) q =
       (if \<exists>h \<in> set (home_toks d). prefix h q then None else abs_tree (root_xenstore w) q))"
proof -
  let ?h0 = "home_toks d ! 0" and ?h1 = "home_toks d ! 1" and ?h2 = "home_toks d ! 2"
  note p = homes [OF assms(3)]
  have ok: "list_all token_ok ?h0" "list_all token_ok ?h1" "list_all token_ok ?h2" "?h0 \<noteq> []" "?h1 \<noteq> []" "?h2 \<noteq> []"
    using p(7) by (simp_all add: home_toks_def)
  have ex: "abs_tree (root_xenstore w) ?h0 \<noteq> None" "abs_tree (root_xenstore w) ?h1 \<noteq> None" "abs_tree (root_xenstore w) ?h2 \<noteq> None"
    using assms(4) by (simp_all add: home_toks_def)
  have dis: "\<not> prefix ?h0 ?h1" "\<not> prefix ?h0 ?h2" "\<not> prefix ?h1 ?h2" by (simp_all add: home_toks_def)
  have len: "length (path_of ?h0) \<le> 3072" "length (path_of ?h1) \<le> 3072" "length (path_of ?h2) \<le> 3072"
    using p(4-6) unfolding p(1-3) by linarith+
  obtain w1 where w1: "xss_rm (dom_home d) w = Some (0, w1)" "world_ok w1" "mallocs w1 = []"
      "\<And>q. abs_tree (root_xenstore w1) q = (if prefix ?h0 q then None else abs_tree (root_xenstore w) q)"
    using rm_home [OF assms(1,2) ok(1,4) len(1) ex(1)] unfolding p(1) by blast
  have e1: "abs_tree (root_xenstore w1) ?h1 \<noteq> None" using w1(4) dis ex by simp
  obtain w2 where w2: "xss_rm (vm_home d) w1 = Some (0, w2)" "world_ok w2" "mallocs w2 = []"
      "\<And>q. abs_tree (root_xenstore w2) q = (if prefix ?h1 q then None else abs_tree (root_xenstore w1) q)"
    using rm_home [OF w1(2,3) ok(2,5) len(2) e1] unfolding p(2) by blast
  have e2: "abs_tree (root_xenstore w2) ?h2 \<noteq> None" using w1(4) w2(4) dis ex by simp
  obtain w3 where w3: "xss_rm (libxl_home d) w2 = Some (0, w3)" "world_ok w3"
      "\<And>q. abs_tree (root_xenstore w3) q = (if prefix ?h2 q then None else abs_tree (root_xenstore w2) q)"
    using rm_home [OF w2(2,3) ok(3,6) len(3) e2] unfolding p(3) by blast
  have "(\<exists>h \<in> set (home_toks d). prefix h q) \<longleftrightarrow> prefix ?h0 q \<or> prefix ?h1 q \<or> prefix ?h2 q" for q
    by (simp add: home_toks_def)
  then show ?thesis using w1(1,4) w2(1,4) w3 by (simp add: xs_deinitialize_domain_xenstore_def)
qed

text \<open>C24. With enough memory a domain is registered: no buffer overflows, every entry of the list is
  then in the store, and the store stays in order.  Deregistering it afterwards leaves nothing in its
  three directories and, outside of them, the store as it was, but for the directories above them.\<close>

theorem registration_undone:
  fixes w :: "'a xs_world_scheme"
  assumes "world_ok w" "mallocs w = []" "unat d < 0x8000" "num_vcpus i < 2 ^ 31"
  shows "\<exists>w1 w2. xs_initialize_xenstore d i w = Some (0, w1) \<and> world_ok w1 \<and>
    (\<forall>p \<in> set (init_puts d i). abs_tree (root_xenstore w1) (strtok_all slash (put_path p)) \<noteq> None) \<and>
    xs_deinitialize_domain_xenstore d w1 = Some w2 \<and> world_ok w2 \<and>
    (\<forall>q. if \<exists>h \<in> set (home_toks d). prefix h q then abs_tree (root_xenstore w2) q = None
         else abs_tree (root_xenstore w2) q = abs_tree (root_xenstore w) q \<or>
           abs_tree (root_xenstore w) q = None \<and> (\<exists>h \<in> set (home_toks d). strict_prefix q h))"
proof -
  let ?P = "put_toks ` set (init_puts d i)"
  obtain w1 where w1: "run_puts (init_puts d i) w = Some (0, w1)" "world_ok w1" "mallocs w1 = []"
      "wrote ?P (abs_tree (root_xenstore w)) (abs_tree (root_xenstore w1))"
    using run_puts_ok [OF assms(1,2) init_puts_ok [OF assms(3,4)]] by blast
  obtain w2 where w2: "xs_deinitialize_domain_xenstore d w1 = Some w2" "world_ok w2"
      "\<And>q. abs_tree (root_xenstore w2) q =
         (if \<exists>h \<in> set (home_toks d). prefix h q then None else abs_tree (root_xenstore w1) q)"
    using deinitialize_ok [OF w1(2,3) assms(3)] homes_registered [OF assms(3) w1(4)] by blast
  have under: "\<exists>h \<in> set (home_toks d). prefix h p" if "p \<in> ?P" for p
    using that init_puts_in_homes [of d i] in_homes_toks [OF assms(3)] by (auto simp: list_all_iff put_toks_def)
  have outside: "abs_tree (root_xenstore w1) q = abs_tree (root_xenstore w) q \<or>
      abs_tree (root_xenstore w) q = None \<and> (\<exists>h \<in> set (home_toks d). strict_prefix q h)"
    if q: "\<not> (\<exists>h \<in> set (home_toks d). prefix h q)" for q
  proof -
    have "q \<notin> ?P" using under q by blast
    then have "abs_tree (root_xenstore w1) q = abs_tree (root_xenstore w) q \<or>
        abs_tree (root_xenstore w) q = None \<and> (\<exists>p \<in> ?P. strict_prefix q p)"
      using w1(4) unfolding wrote_def by blast
    moreover have "\<exists>h \<in> set (home_toks d). strict_prefix q h" if p: "p \<in> ?P" "strict_prefix q p" for p
    proof -
      obtain h where h: "h \<in> set (home_toks d)" "prefix h p" using under [OF p(1)] by blast
      have "prefix q p" using p(2) by (simp add: strict_prefix_def)
      then have "prefix q h" using prefix_same_cases [OF h(2)] q h(1) by blast
      then show ?thesis using q h(1) by (auto simp: strict_prefix_def)
    qed
    ultimately show ?thesis by blast
  qed
  have "\<forall>p \<in> set (init_puts d i). abs_tree (root_xenstore w1) (strtok_all slash (put_path p)) \<noteq> None"
    using w1(4) unfolding wrote_def put_toks_def by blast
  moreover have "xs_initialize_xenstore d i w = Some (0, w1)" using w1(1) by (simp add: xs_initialize_xenstore_def)
  ultimately show ?thesis using w1(2) w2 outside by (intro exI [of _ w1] exI [of _ w2]) simp
qed

theorem registration_undone_witness:
  "\<exists>w1 w2. xs_initialize_xenstore 4 \<lparr>num_vcpus = 2, max_mem_kb = 1024, dom_name = ''domd''\<rparr> ex_world = Some (0, w1) \<and>
     xs_deinitialize_domain_xenstore 4 w1 = Some w2 \<and> world_ok w2 \<and>
     abs_tree (root_xenstore w2) [''vm'', ''name''] = abs_tree (root_xenstore ex_world) [''vm'', ''name'']"
proof -
  have h: "mallocs ex_world = []" "unat (4 :: u32) < 0x8000" "num_vcpus \<lparr>num_vcpus = 2, max_mem_kb = 1024, dom_name = ''domd''\<rparr> < 2 ^ 31"
    by (simp_all add: ex_world_def xs_store.defs ex_written_def ex_store_def)
  have q: "\<not> (\<exists>h \<in> set (home_toks 4). prefix h [''vm'', ''name''])" "abs_tree (root_xenstore ex_world) [''vm'', ''name''] \<noteq> None"
    by code_simp+
  obtain w1 w2 where w: "xs_initialize_xenstore 4 \<lparr>num_vcpus = 2, max_mem_kb = 1024, dom_name = ''domd''\<rparr> ex_world = Some (0, w1)"
      "xs_deinitialize_domain_xenstore 4 w1 = Some w2" "world_ok w2"
      "\<And>q. if \<exists>h \<in> set (home_toks 4). prefix h q then abs_tree (root_xenstore w2) q = None
         else abs_tree (root_xenstore w2) q = abs_tree (root_xenstore ex_world) q \<or>
           abs_tree (root_xenstore ex_world) q = None \<and> (\<exists>h \<in> set (home_toks 4). strict_prefix q h)"
    using registration_undone [OF ex_world_ok h] by (elim exE conjE) (rule that, assumption+, erule spec)
  show ?thesis using w(1-3) w(4) [of "[''vm'', ''name'']", unfolded if_not_P [OF q(1)]] q(2) by blast
qed

end
