(* ===== verification/Fdt_Blob.thy ===== *)
theory Fdt_Blob
  imports Xs_Wire
begin

text \<open>
  Reading flattened device trees, the functions of \<open>libfdt\<close> (\<open>fdt.c\<close> and \<open>fdt_ro.c\<close>) that the
  generator of device trees calls, with every check enabled (\<open>FDT_ASSUME_MASK\<close> is 0).  A blob is
  the list of the bytes of its buffer; a pointer into it is a position, \<open>None\<close> the null pointer.
  The result of a function is \<open>None\<close> where the code reads outside of the buffer, overflows a signed
  integer or does not return.  The accessors of the header are for buffers that hold a header.
\<close>

section \<open>Errors and tags\<close>

abbreviation (input) FDT_ERR_NOTFOUND :: int where "FDT_ERR_NOTFOUND \<equiv> 1"
abbreviation (input) FDT_ERR_NOSPACE :: int where "FDT_ERR_NOSPACE \<equiv> 3"
abbreviation (input) FDT_ERR_BADOFFSET :: int where "FDT_ERR_BADOFFSET \<equiv> 4"
abbreviation (input) FDT_ERR_BADPATH :: int where "FDT_ERR_BADPATH \<equiv> 5"
abbreviation (input) FDT_ERR_BADSTATE :: int where "FDT_ERR_BADSTATE \<equiv> 7"
abbreviation (input) FDT_ERR_TRUNCATED :: int where "FDT_ERR_TRUNCATED \<equiv> 8"
abbreviation (input) FDT_ERR_BADMAGIC :: int where "FDT_ERR_BADMAGIC \<equiv> 9"
abbreviation (input) FDT_ERR_BADVERSION :: int where "FDT_ERR_BADVERSION \<equiv> 10"
abbreviation (input) FDT_ERR_BADSTRUCTURE :: int where "FDT_ERR_BADSTRUCTURE \<equiv> 11"
abbreviation (input) FDT_ERR_INTERNAL :: int where "FDT_ERR_INTERNAL \<equiv> 13"
abbreviation (input) FDT_ERR_BADVALUE :: int where "FDT_ERR_BADVALUE \<equiv> 15"
abbreviation (input) FDT_ERR_BADFLAGS :: int where "FDT_ERR_BADFLAGS \<equiv> 18"
abbreviation (input) FDT_ERR_ALIGNMENT :: int where "FDT_ERR_ALIGNMENT \<equiv> 19"

abbreviation FDT_MAGIC :: u32 where "FDT_MAGIC \<equiv> 0xd00dfeed"
abbreviation FDT_SW_MAGIC :: u32 where "FDT_SW_MAGIC \<equiv> 0x2ff20112"
abbreviation FDT_BEGIN_NODE :: u32 where "FDT_BEGIN_NODE \<equiv> 1"
abbreviation FDT_END_NODE :: u32 where "FDT_END_NODE \<equiv> 2"
abbreviation FDT_PROP :: u32 where "FDT_PROP \<equiv> 3"
abbreviation FDT_NOP :: u32 where "FDT_NOP \<equiv> 4"
abbreviation FDT_END :: u32 where "FDT_END \<equiv> 9"
abbreviation (input) INT_MAX :: int where "INT_MAX \<equiv> 2147483647"

section \<open>Big-endian cells and the header\<close>

type_synonym blob = "char list"

definition be32 :: "u32 \<Rightarrow> char list" where
  "be32 w = rev (le32 w)"

definition be32_dec :: "char list \<Rightarrow> u32" where
  "be32_dec bs = le32_dec (rev (take 4 bs))"

definition be64 :: "u64 \<Rightarrow> char list" where
  "be64 w = be32 (ucast (drop_bit 32 w)) @ be32 (ucast w)"

text \<open>Field \<open>k\<close> of \<open>struct fdt_header\<close>, which is an array of cells.\<close>

definition fdt_get_header :: "nat \<Rightarrow> blob \<Rightarrow> u32" where
  "fdt_get_header k b = be32_dec (drop (4 * k) b)"

definition fdt_set_header :: "nat \<Rightarrow> u32 \<Rightarrow> blob \<Rightarrow> blob" where
  "fdt_set_header k v b = blit b (4 * k) (be32 v)"

abbreviation "fdt_magic \<equiv> fdt_get_header 0"
abbreviation "fdt_totalsize \<equiv> fdt_get_header 1"
abbreviation "fdt_off_dt_struct \<equiv> fdt_get_header 2"
abbreviation "fdt_off_dt_strings \<equiv> fdt_get_header 3"
abbreviation "fdt_off_mem_rsvmap \<equiv> fdt_get_header 4"
abbreviation "fdt_version \<equiv> fdt_get_header 5"
abbreviation "fdt_last_comp_version \<equiv> fdt_get_header 6"
abbreviation "fdt_size_dt_strings \<equiv> fdt_get_header 8"
abbreviation "fdt_size_dt_struct \<equiv> fdt_get_header 9"

abbreviation "fdt_set_magic \<equiv> fdt_set_header 0"
abbreviation "fdt_set_totalsize \<equiv> fdt_set_header 1"
abbreviation "fdt_set_off_dt_struct \<equiv> fdt_set_header 2"
abbreviation "fdt_set_off_dt_strings \<equiv> fdt_set_header 3"
abbreviation "fdt_set_off_mem_rsvmap \<equiv> fdt_set_header 4"
abbreviation "fdt_set_version \<equiv> fdt_set_header 5"
abbreviation "fdt_set_last_comp_version \<equiv> fdt_set_header 6"
abbreviation "fdt_set_size_dt_strings \<equiv> fdt_set_header 8"
abbreviation "fdt_set_size_dt_struct \<equiv> fdt_set_header 9"

text \<open>Reading through a pointer.\<close>

definition rd32 :: "blob \<Rightarrow> nat \<Rightarrow> u32 option" where
  "rd32 b p = (if p + 4 \<le> length b then Some (be32_dec (drop p b)) else None)"

definition rd8 :: "blob \<Rightarrow> nat \<Rightarrow> char option" where
  "rd8 b p = (if p < length b then Some (b ! p) else None)"

definition FDT_TAGALIGN :: "int \<Rightarrow> int" where
  "FDT_TAGALIGN x = (x + 3) div 4 * 4"

section \<open>Checks of the header\<close>

text \<open>The buffers are aligned to 8 bytes.\<close>

definition fdt_ro_probe :: "blob \<Rightarrow> int" where
  "fdt_ro_probe b =
     (let r = (if fdt_magic b = FDT_MAGIC
               then (if fdt_version b < 2 \<or> 17 < fdt_last_comp_version b then - FDT_ERR_BADVERSION else 0)
               else if fdt_magic b = FDT_SW_MAGIC
               then (if fdt_size_dt_struct b = 0 then - FDT_ERR_BADSTATE else 0)
               else - FDT_ERR_BADMAGIC)
      in if r < 0 then r
         else if uint (fdt_totalsize b) < INT_MAX then uint (fdt_totalsize b) else - FDT_ERR_TRUNCATED)"

definition check_off :: "u32 \<Rightarrow> u32 \<Rightarrow> u32 \<Rightarrow> bool" where
  "check_off hdrsize totalsize off \<longleftrightarrow> hdrsize \<le> off \<and> off \<le> totalsize"

definition check_block :: "u32 \<Rightarrow> u32 \<Rightarrow> u32 \<Rightarrow> u32 \<Rightarrow> bool" where
  "check_block hdrsize totalsize base len \<longleftrightarrow>
     check_off hdrsize totalsize base \<and> \<not> base + len < base \<and> check_off hdrsize totalsize (base + len)"

definition fdt_header_size :: "u32 \<Rightarrow> u32" where
  "fdt_header_size version =
     (if version \<le> 1 then 28 else if version \<le> 2 then 32 else if version \<le> 3 then 36 else if version \<le> 16 then 36 else 40)"

definition fdt_check_header :: "blob \<Rightarrow> int" where
  "fdt_check_header b =
     (let hdrsize = fdt_header_size (fdt_version b); total = fdt_totalsize b
      in if fdt_magic b \<noteq> FDT_MAGIC then - FDT_ERR_BADMAGIC
         else if fdt_version b < 2 \<or> 17 < fdt_last_comp_version b then - FDT_ERR_BADVERSION
         else if fdt_version b < fdt_last_comp_version b then - FDT_ERR_BADVERSION
         else if total < hdrsize \<or> INT_MAX < uint total then - FDT_ERR_TRUNCATED
         else if \<not> check_off hdrsize total (fdt_off_mem_rsvmap b) then - FDT_ERR_TRUNCATED
         else if \<not> (if fdt_version b < 17 then check_off hdrsize total (fdt_off_dt_struct b)
                    else check_block hdrsize total (fdt_off_dt_struct b) (fdt_size_dt_struct b)) then - FDT_ERR_TRUNCATED
         else if \<not> check_block hdrsize total (fdt_off_dt_strings b) (fdt_size_dt_strings b) then - FDT_ERR_TRUNCATED
         else 0)"

section \<open>The structure block\<close>

definition fdt_offset_ptr :: "blob \<Rightarrow> int \<Rightarrow> u32 \<Rightarrow> nat option" where
  "fdt_offset_ptr b offset len =
     (let uoffset = of_int offset :: u32; absoffset = uoffset + fdt_off_dt_struct b
      in if offset < 0 then None
         else if absoffset < uoffset \<or> absoffset + len < absoffset \<or> fdt_totalsize b < absoffset + len then None
         else if 17 \<le> fdt_version b \<and> (uoffset + len < uoffset \<or> fdt_size_dt_struct b < uoffset + len) then None
         else Some (unat (fdt_off_dt_struct b) + nat offset))"

text \<open>Skipping the name of a node: the offset after its terminator, \<open>Some None\<close> when the block ends
  before it.\<close>

partial_function (option) skip_name :: "blob \<Rightarrow> int \<Rightarrow> int option option" where
  "skip_name b offset =
     (case fdt_offset_ptr b offset 1 of
        None \<Rightarrow> Some None
      | Some p \<Rightarrow>
          Option.bind (rd8 b p) (\<lambda>c.
            if INT_MAX \<le> offset then None
            else if c \<noteq> NUL then skip_name b (offset + 1) else Some (Some (offset + 1))))"

text \<open>The tag and the next offset.  An addition that leaves the range of \<open>int\<close> wraps when the code
  converts an unsigned sum.\<close>

definition fdt_next_tag :: "blob \<Rightarrow> int \<Rightarrow> (u32 \<times> int) option" where
  "fdt_next_tag b startoffset =
     (case fdt_offset_ptr b startoffset 4 of
        None \<Rightarrow> Some (FDT_END, - FDT_ERR_TRUNCATED)
      | Some tagp \<Rightarrow>
          do { tag \<leftarrow> rd32 b tagp;
               let offset = startoffset + 4;
                   bad = (FDT_END, - FDT_ERR_BADSTRUCTURE);
                   leave = (\<lambda>off. if fdt_offset_ptr b startoffset (of_int (off - startoffset)) = None then bad
                                   else (tag, FDT_TAGALIGN off))
               in if tag = FDT_BEGIN_NODE
                  then do { r \<leftarrow> skip_name b offset;
                            Some (case r of None \<Rightarrow> bad | Some off \<Rightarrow> leave off) }
                  else if tag = FDT_PROP
                  then case fdt_offset_ptr b offset 4 of
                         None \<Rightarrow> Some bad
                       | Some lenp \<Rightarrow>
                           do { len \<leftarrow> rd32 b lenp;
                                let total = len + of_int offset;
                                    off1 = sint (of_int (offset + 8 + uint len) :: u32);
                                    off2 = (if fdt_version b < 16 \<and> 8 \<le> len \<and> (of_int off1 - len) mod 8 \<noteq> 0
                                            then off1 + 4 else off1)
                                in Some (if INT_MAX \<le> uint total \<or> total < of_int offset then bad else leave off2) }
                  else if tag = FDT_END \<or> tag = FDT_END_NODE \<or> tag = FDT_NOP then Some (leave offset)
                  else Some bad })"

definition fdt_check_node_offset :: "blob \<Rightarrow> int \<Rightarrow> int option" where
  "fdt_check_node_offset b offset =
     (if offset < 0 \<or> offset mod 4 \<noteq> 0 then Some (- FDT_ERR_BADOFFSET)
      else do { (tag, next) \<leftarrow> fdt_next_tag b offset;
                Some (if tag \<noteq> FDT_BEGIN_NODE then - FDT_ERR_BADOFFSET else next) })"

definition fdt_check_prop_offset :: "blob \<Rightarrow> int \<Rightarrow> int option" where
  "fdt_check_prop_offset b offset =
     (if offset < 0 \<or> offset mod 4 \<noteq> 0 then Some (- FDT_ERR_BADOFFSET)
      else do { (tag, next) \<leftarrow> fdt_next_tag b offset;
                Some (if tag \<noteq> FDT_PROP then - FDT_ERR_BADOFFSET else next) })"

text \<open>The loop of \<open>fdt_next_node\<close> at \<open>offset\<close>; \<open>depth\<close> is \<open>None\<close> for a null pointer.  The result
  carries what the variable of the caller holds afterwards.\<close>

partial_function (option) next_node_loop :: "blob \<Rightarrow> int \<Rightarrow> int option \<Rightarrow> (int \<times> int option) option" where
  "next_node_loop b offset depth =
     Option.bind (fdt_next_tag b offset) (\<lambda>(tag, next).
       if tag = FDT_BEGIN_NODE then Some (offset, map_option (\<lambda>d. d + 1) depth)
       else if tag = FDT_END_NODE
       then let depth' = map_option (\<lambda>d. d - 1) depth
            in case depth' of
                 Some d \<Rightarrow> if d < 0 then Some (next, depth') else next_node_loop b next depth'
               | None \<Rightarrow> next_node_loop b next depth'
       else if tag = FDT_END
       then Some (if 0 \<le> next \<or> next = - FDT_ERR_TRUNCATED \<and> depth = None then - FDT_ERR_NOTFOUND else next, depth)
       else next_node_loop b next depth)"

definition fdt_next_node :: "blob \<Rightarrow> int \<Rightarrow> int option \<Rightarrow> (int \<times> int option) option" where
  "fdt_next_node b offset depth =
     (if offset < 0 then next_node_loop b 0 depth
      else do { next \<leftarrow> fdt_check_node_offset b offset;
                if next < 0 then Some (next, depth) else next_node_loop b next depth })"

definition fdt_first_subnode :: "blob \<Rightarrow> int \<Rightarrow> int option" where
  "fdt_first_subnode b offset =
     do { (off, depth) \<leftarrow> fdt_next_node b offset (Some 0);
          Some (if off < 0 \<or> depth \<noteq> Some 1 then - FDT_ERR_NOTFOUND else off) }"

partial_function (option) next_subnode_loop :: "blob \<Rightarrow> int \<Rightarrow> int \<Rightarrow> int option" where
  "next_subnode_loop b offset depth =
     Option.bind (fdt_next_node b offset (Some depth)) (\<lambda>(off, depth').
       case depth' of
         None \<Rightarrow> None
       | Some d \<Rightarrow> if off < 0 \<or> d < 1 then Some (- FDT_ERR_NOTFOUND)
                    else if 1 < d then next_subnode_loop b off d else Some off)"

definition fdt_next_subnode :: "blob \<Rightarrow> int \<Rightarrow> int option" where
  "fdt_next_subnode b offset = next_subnode_loop b offset 1"

section \<open>Strings\<close>

text \<open>The position of the first copy of \<open>s\<close> with its terminator.\<close>

definition fdt_find_string :: "char list \<Rightarrow> string \<Rightarrow> nat option" where
  "fdt_find_string tab s =
     List.find (\<lambda>p. take (length s + 1) (drop p tab) = s @ [NUL]) [0..<length tab - length s]"

text \<open>The string at an offset of the strings block, \<open>Inl\<close> the error.\<close>

definition fdt_get_string :: "blob \<Rightarrow> int \<Rightarrow> (int + string) option" where
  "fdt_get_string b stroffset =
     (let totalsize = fdt_ro_probe b;
          absoffset = of_int stroffset + fdt_off_dt_strings b :: u32;
          len = totalsize - uint absoffset;
          len1 = (if fdt_magic b = FDT_MAGIC
                  then if stroffset < 0 then None
                       else if 17 \<le> fdt_version b
                       then if fdt_size_dt_strings b \<le> of_int stroffset then None
                            else Some (min len (uint (fdt_size_dt_strings b - of_int stroffset)))
                       else Some len
                  else if 0 \<le> stroffset \<or> fdt_size_dt_strings b < of_int (- stroffset) then None
                       else Some (min len (uint (of_int (- stroffset) :: u32))))
      in if totalsize < 0 then Some (Inl totalsize)
         else if totalsize \<le> uint absoffset then Some (Inl (- FDT_ERR_BADOFFSET))
         else case len1 of
                None \<Rightarrow> Some (Inl (- FDT_ERR_BADOFFSET))
              | Some n \<Rightarrow>
                  if length b < unat absoffset + nat n then None
                  else case cstr (take (nat n) (drop (unat absoffset) b)) of
                         None \<Rightarrow> Some (Inl (- FDT_ERR_TRUNCATED))
                       | Some s \<Rightarrow> Some (Inr s))"

definition fdt_string :: "blob \<Rightarrow> int \<Rightarrow> string option option" where
  "fdt_string b stroffset =
     do { r \<leftarrow> fdt_get_string b stroffset; Some (case r of Inl _ \<Rightarrow> None | Inr s \<Rightarrow> Some s) }"

definition fdt_string_eq :: "blob \<Rightarrow> int \<Rightarrow> string \<Rightarrow> bool option" where
  "fdt_string_eq b stroffset s = do { r \<leftarrow> fdt_get_string b stroffset; Some (r = Inr s) }"

text \<open>The part after the last slash.\<close>

definition strrchr_slash :: "string \<Rightarrow> string option" where
  "strrchr_slash s = (if slash \<in> set s then Some (rev (takeWhile (\<lambda>c. c \<noteq> slash) (rev s))) else None)"

definition fdt_get_name :: "blob \<Rightarrow> int \<Rightarrow> (int + string) option" where
  "fdt_get_name b nodeoffset =
     (if fdt_ro_probe b < 0 then Some (Inl (fdt_ro_probe b))
      else
        do { err \<leftarrow> fdt_check_node_offset b nodeoffset;
             if err < 0 then Some (Inl err)
             else
               do { name \<leftarrow> cstr (drop (unat (fdt_off_dt_struct b) + nat nodeoffset + 4) b);
                    Some (if fdt_version b < 16
                          then case strrchr_slash name of None \<Rightarrow> Inl (- FDT_ERR_BADSTRUCTURE) | Some leaf \<Rightarrow> Inr leaf
                          else Inr name) } })"

section \<open>Properties\<close>

partial_function (option) nextprop :: "blob \<Rightarrow> int \<Rightarrow> int option" where
  "nextprop b offset =
     Option.bind (fdt_next_tag b offset) (\<lambda>(tag, next).
       if tag = FDT_END then Some (if 0 \<le> next then - FDT_ERR_BADSTRUCTURE else next)
       else if tag = FDT_PROP then Some offset
       else if tag = FDT_NOP then nextprop b next
       else Some (- FDT_ERR_NOTFOUND))"

definition fdt_first_property_offset :: "blob \<Rightarrow> int \<Rightarrow> int option" where
  "fdt_first_property_offset b nodeoffset =
     do { off \<leftarrow> fdt_check_node_offset b nodeoffset; if off < 0 then Some off else nextprop b off }"

definition fdt_next_property_offset :: "blob \<Rightarrow> int \<Rightarrow> int option" where
  "fdt_next_property_offset b offset =
     do { off \<leftarrow> fdt_check_prop_offset b offset; if off < 0 then Some off else nextprop b off }"

text \<open>\<open>struct fdt_property\<close> through its pointer: length, offset of the name and position of the
  value.\<close>

record fdt_property_hdr =
  prop_len :: u32
  prop_nameoff :: u32
  prop_data :: nat

definition load_prop :: "blob \<Rightarrow> int \<Rightarrow> fdt_property_hdr option" where
  "load_prop b offset =
     (let p = unat (fdt_off_dt_struct b) + nat offset
      in do { l \<leftarrow> rd32 b (p + 4); n \<leftarrow> rd32 b (p + 8); Some \<lparr>prop_len = l, prop_nameoff = n, prop_data = p + 12\<rparr> })"

definition fdt_get_property_at :: "blob \<Rightarrow> int \<Rightarrow> (int + fdt_property_hdr) option" where
  "fdt_get_property_at b offset =
     do { err \<leftarrow> fdt_check_prop_offset b offset;
          if err < 0 then Some (Inl err) else do { pr \<leftarrow> load_prop b offset; Some (Inr pr) } }"

definition fdt_get_property_by_offset :: "blob \<Rightarrow> int \<Rightarrow> (int + fdt_property_hdr) option" where
  "fdt_get_property_by_offset b offset =
     (if fdt_version b < 16 then Some (Inl (- FDT_ERR_BADVERSION)) else fdt_get_property_at b offset)"

partial_function (option) get_property_loop :: "blob \<Rightarrow> int \<Rightarrow> string \<Rightarrow> (int + int \<times> fdt_property_hdr) option" where
  "get_property_loop b offset name =
     (if offset < 0 then Some (Inl offset)
      else
        Option.bind (fdt_get_property_at b offset) (\<lambda>r.
          case r of
            Inl _ \<Rightarrow> Some (Inl (- FDT_ERR_INTERNAL))
          | Inr pr \<Rightarrow>
              Option.bind (fdt_string_eq b (sint (prop_nameoff pr)) name) (\<lambda>eq.
                if eq then Some (Inr (offset, pr))
                else Option.bind (fdt_next_property_offset b offset) (\<lambda>off. get_property_loop b off name))))"

text \<open>The position and length of the value of a property.\<close>

definition fdt_getprop_namelen :: "blob \<Rightarrow> int \<Rightarrow> string \<Rightarrow> (nat \<times> u32) option option" where
  "fdt_getprop_namelen b nodeoffset name =
     do { off \<leftarrow> fdt_first_property_offset b nodeoffset;
          r \<leftarrow> get_property_loop b off name;
          Some (case r of
                  Inl _ \<Rightarrow> None
                | Inr (poffset, pr) \<Rightarrow>
                    Some (if fdt_version b < 16 \<and> (poffset + 12) mod 8 \<noteq> 0 \<and> 8 \<le> prop_len pr
                          then prop_data pr + 4 else prop_data pr, prop_len pr)) }"

section \<open>Paths\<close>

definition fdt_nodename_eq :: "blob \<Rightarrow> int \<Rightarrow> string \<Rightarrow> bool option" where
  "fdt_nodename_eq b offset s =
     do { r \<leftarrow> fdt_get_name b offset;
          Some (case r of
                  Inl _ \<Rightarrow> False
                | Inr p \<Rightarrow>
                    prefix s p \<and>
                    (length p = length s \<or> CHR ''@'' \<notin> set s \<and> p ! length s = CHR ''@'')) }"

partial_function (option) subnode_loop :: "blob \<Rightarrow> int \<Rightarrow> int \<Rightarrow> string \<Rightarrow> int option" where
  "subnode_loop b offset depth name =
     (if \<not> (0 \<le> offset \<and> 0 \<le> depth)
      then Some (if depth < 0 then - FDT_ERR_NOTFOUND else offset)
      else
        Option.bind (if depth = 1 then fdt_nodename_eq b offset name else Some False) (\<lambda>eq.
          if eq then Some offset
          else Option.bind (fdt_next_node b offset (Some depth)) (\<lambda>(off, depth').
                 case depth' of None \<Rightarrow> None | Some d \<Rightarrow> subnode_loop b off d name)))"

definition fdt_subnode_offset_namelen :: "blob \<Rightarrow> int \<Rightarrow> string \<Rightarrow> int option" where
  "fdt_subnode_offset_namelen b offset name =
     (if fdt_ro_probe b < 0 then Some (fdt_ro_probe b) else subnode_loop b offset 0 name)"

text \<open>The loop over the components of a path, which \<open>ts\<close> are.\<close>

fun path_walk :: "blob \<Rightarrow> int \<Rightarrow> string list \<Rightarrow> int option" where
  "path_walk b offset [] = Some offset"
| "path_walk b offset (t # ts) =
     do { off \<leftarrow> fdt_subnode_offset_namelen b offset t; if off < 0 then Some off else path_walk b off ts }"

text \<open>A path that does not start with a slash starts with an alias, whose value is a path again; the
  text of the path after the alias is walked from there.\<close>

partial_function (option) fdt_path_offset :: "blob \<Rightarrow> string \<Rightarrow> int option" where
  "fdt_path_offset b path =
     (if fdt_ro_probe b < 0 then Some (fdt_ro_probe b)
      else if path \<noteq> [] \<and> hd path = slash then path_walk b 0 (strtok_all slash path)
      else
        let alias = takeWhile (\<lambda>c. c \<noteq> slash) path
        in Option.bind (path_walk b 0 [''aliases'']) (\<lambda>aoff.
             Option.bind (if aoff < 0 then Some None else fdt_getprop_namelen b aoff alias) (\<lambda>val.
               case val of
                 None \<Rightarrow> Some (- FDT_ERR_BADPATH)
               | Some (p, _) \<Rightarrow>
                   Option.bind (cstr (drop p b)) (\<lambda>target.
                     Option.bind (fdt_path_offset b target) (\<lambda>off.
                       path_walk b off (strtok_all slash (drop (length alias) path)))))))"

declare skip_name.simps [code] next_node_loop.simps [code] next_subnode_loop.simps [code] nextprop.simps [code] get_property_loop.simps [code] subnode_loop.simps [code] fdt_path_offset.simps [code]

end
