(* ===== verification/Fdt_Sw.thy ===== *)
theory Fdt_Sw
  imports Fdt_Blob
begin

text \<open>
  Writing flattened device trees sequentially, \<open>fdt_sw.c\<close> of \<open>libfdt\<close>.  The tags are appended to
  the structure block after the header and the reserve map; the names of properties are collected at
  the end of the buffer, before which the block of strings grows downwards, and \<open>fdt_finish\<close> moves
  them behind the structure block.  Results are \<open>None\<close> where the code writes outside of the buffer.
\<close>

section \<open>States of the writer\<close>

definition fdt_sw_probe :: "blob \<Rightarrow> int" where
  "fdt_sw_probe b =
     (if fdt_magic b = FDT_MAGIC then - FDT_ERR_BADSTATE
      else if fdt_magic b \<noteq> FDT_SW_MAGIC then - FDT_ERR_BADMAGIC else 0)"

definition fdt_sw_probe_memrsv :: "blob \<Rightarrow> int" where
  "fdt_sw_probe_memrsv b =
     (if fdt_sw_probe b \<noteq> 0 then fdt_sw_probe b
      else if fdt_off_dt_strings b \<noteq> 0 then - FDT_ERR_BADSTATE else 0)"

definition fdt_sw_probe_struct :: "blob \<Rightarrow> int" where
  "fdt_sw_probe_struct b =
     (if fdt_sw_probe b \<noteq> 0 then fdt_sw_probe b
      else if fdt_off_dt_strings b \<noteq> fdt_totalsize b then - FDT_ERR_BADSTATE else 0)"

definition sw_flags :: "blob \<Rightarrow> u32" where
  "sw_flags b = fdt_last_comp_version b"

text \<open>Writing through a pointer.\<close>

definition wr :: "blob \<Rightarrow> nat \<Rightarrow> char list \<Rightarrow> blob option" where
  "wr b p d = (if p + length d \<le> length b then Some (blit b p d) else None)"

section \<open>Space\<close>

text \<open>The sum is a \<open>size_t\<close>, the space left an \<open>unsigned int\<close>.\<close>

definition fdt_grab_space :: "blob \<Rightarrow> u64 \<Rightarrow> nat option \<times> blob" where
  "fdt_grab_space b len =
     (let offset = fdt_size_dt_struct b;
          spaceleft = fdt_totalsize b - fdt_off_dt_struct b - fdt_size_dt_strings b;
          newsize = ucast offset + len :: u64
      in if newsize < ucast offset \<or> ucast spaceleft < newsize then (None, b)
         else (Some (unat (fdt_off_dt_struct b) + unat offset), fdt_set_size_dt_struct (ucast newsize) b))"

definition fdt_create_with_flags :: "blob \<Rightarrow> int \<Rightarrow> u32 \<Rightarrow> (int \<times> blob) option" where
  "fdt_create_with_flags buf bufsize flags =
     (if bufsize < 48 then Some (- FDT_ERR_NOSPACE, buf)
      else if flags AND NOT 1 \<noteq> 0 then Some (- FDT_ERR_BADFLAGS, buf)
      else
        do { b0 \<leftarrow> wr buf 0 (replicate (nat bufsize) NUL);
             Some (0,
               fdt_set_off_dt_strings 0 (fdt_set_off_dt_struct 48 (fdt_set_off_mem_rsvmap 48
                 (fdt_set_totalsize (of_int bufsize) (fdt_set_last_comp_version flags
                   (fdt_set_version 17 (fdt_set_magic FDT_SW_MAGIC b0))))))) })"

definition fdt_create :: "blob \<Rightarrow> int \<Rightarrow> (int \<times> blob) option" where
  "fdt_create buf bufsize = fdt_create_with_flags buf bufsize 0"

definition fdt_add_reservemap_entry :: "blob \<Rightarrow> u64 \<Rightarrow> u64 \<Rightarrow> (int \<times> blob) option" where
  "fdt_add_reservemap_entry b addr len =
     (let err = fdt_sw_probe_memrsv b; offset = unat (fdt_off_dt_struct b)
      in if err \<noteq> 0 then Some (err, b)
         else if unat (fdt_totalsize b) < offset + 16 then Some (- FDT_ERR_NOSPACE, b)
         else do { b1 \<leftarrow> wr b offset (be64 addr @ be64 len);
                   Some (0, fdt_set_off_dt_struct (of_nat (offset + 16)) b1) })"

definition fdt_finish_reservemap :: "blob \<Rightarrow> (int \<times> blob) option" where
  "fdt_finish_reservemap b =
     do { (err, b1) \<leftarrow> fdt_add_reservemap_entry b 0 0;
          Some (if err \<noteq> 0 then (err, b1) else (0, fdt_set_off_dt_strings (fdt_totalsize b1) b1)) }"

section \<open>Nodes\<close>

definition fdt_begin_node :: "string \<Rightarrow> blob \<Rightarrow> (int \<times> blob) option" where
  "fdt_begin_node name b =
     (let err = fdt_sw_probe_struct b
      in if err \<noteq> 0 then Some (err, b)
         else case fdt_grab_space b (of_int (4 + FDT_TAGALIGN (int (length name) + 1))) of
                (None, b1) \<Rightarrow> Some (- FDT_ERR_NOSPACE, b1)
              | (Some nh, b1) \<Rightarrow>
                  do { b2 \<leftarrow> wr b1 nh (be32 FDT_BEGIN_NODE);
                       b3 \<leftarrow> wr b2 (nh + 4) (name @ [NUL]);
                       Some (0, b3) })"

definition fdt_end_node :: "blob \<Rightarrow> (int \<times> blob) option" where
  "fdt_end_node b =
     (let err = fdt_sw_probe_struct b
      in if err \<noteq> 0 then Some (err, b)
         else case fdt_grab_space b 4 of
                (None, b1) \<Rightarrow> Some (- FDT_ERR_NOSPACE, b1)
              | (Some en, b1) \<Rightarrow> do { b2 \<leftarrow> wr b1 en (be32 FDT_END_NODE); Some (0, b2) })"

section \<open>Properties\<close>

text \<open>The offset of the new string from the end of the buffer, 0 when there is no room.  The test is
  made in 32 bits: a string longer than the buffer passes it.\<close>

definition fdt_add_string :: "string \<Rightarrow> blob \<Rightarrow> (int \<times> blob) option" where
  "fdt_add_string s b =
     (let strtabsize = fdt_size_dt_strings b;
          len = of_nat (length s + 1);
          offset = strtabsize + len;
          struct_top = fdt_off_dt_struct b + fdt_size_dt_struct b
      in if fdt_totalsize b - offset < struct_top then Some (0, b)
         else if unat (fdt_totalsize b) < unat offset then None
         else do { b1 \<leftarrow> wr b (unat (fdt_totalsize b) - unat offset) (s @ [NUL]);
                   Some (sint (- offset), fdt_set_size_dt_strings (strtabsize + len) b1) })"

definition fdt_del_last_string :: "string \<Rightarrow> blob \<Rightarrow> blob" where
  "fdt_del_last_string s b = fdt_set_size_dt_strings (fdt_size_dt_strings b - of_nat (length s + 1)) b"

text \<open>The flag tells that the string has been added.\<close>

definition fdt_find_add_string :: "string \<Rightarrow> blob \<Rightarrow> (int \<times> bool \<times> blob) option" where
  "fdt_find_add_string s b =
     (let total = unat (fdt_totalsize b); n = unat (fdt_size_dt_strings b)
      in case fdt_find_string (take n (drop (total - n) b)) s of
           Some p \<Rightarrow> Some (int p - int n, False, b)
         | None \<Rightarrow> do { (off, b1) \<leftarrow> fdt_add_string s b; Some (off, True, b1) })"

text \<open>The position of the value is the second component of the result.\<close>

definition fdt_property_placeholder :: "string \<Rightarrow> int \<Rightarrow> blob \<Rightarrow> (int \<times> nat \<times> blob) option" where
  "fdt_property_placeholder name len b =
     (let err = fdt_sw_probe_struct b
      in if err \<noteq> 0 then Some (err, 0, b)
         else
           do { (nameoff, allocated, b1) \<leftarrow>
                  (if sw_flags b AND 1 \<noteq> 0
                   then do { (off, b1) \<leftarrow> fdt_add_string name b; Some (off, True, b1) }
                   else fdt_find_add_string name b);
                if nameoff = 0 then Some (- FDT_ERR_NOSPACE, 0, b1)
                else
                  case fdt_grab_space b1 (of_int (12 + FDT_TAGALIGN len)) of
                    (None, b2) \<Rightarrow> Some (- FDT_ERR_NOSPACE, 0, if allocated then fdt_del_last_string name b2 else b2)
                  | (Some p, b2) \<Rightarrow>
                      do { b3 \<leftarrow> wr b2 p (be32 FDT_PROP @ be32 (of_int len) @ be32 (of_int nameoff));
                           Some (0, p + 12, b3) } })"

definition fdt_property :: "string \<Rightarrow> char list \<Rightarrow> blob \<Rightarrow> (int \<times> blob) option" where
  "fdt_property name val b =
     do { (ret, ptr, b1) \<leftarrow> fdt_property_placeholder name (int (length val)) b;
          if ret \<noteq> 0 then Some (ret, b1) else do { b2 \<leftarrow> wr b1 ptr val; Some (0, b2) } }"

definition fdt_property_u32 :: "string \<Rightarrow> u32 \<Rightarrow> blob \<Rightarrow> (int \<times> blob) option" where
  "fdt_property_u32 name val b = fdt_property name (be32 val) b"

definition fdt_property_cell :: "string \<Rightarrow> u32 \<Rightarrow> blob \<Rightarrow> (int \<times> blob) option" where
  "fdt_property_cell name val b = fdt_property_u32 name val b"

definition fdt_property_string :: "string \<Rightarrow> string \<Rightarrow> blob \<Rightarrow> (int \<times> blob) option" where
  "fdt_property_string name str b = fdt_property name (str @ [NUL]) b"

section \<open>Finishing\<close>

text \<open>The walk that makes the offsets of the names relative to the start of the strings.\<close>

partial_function (option) finish_walk :: "int \<Rightarrow> blob \<Rightarrow> (int \<times> blob) option" where
  "finish_walk offset b =
     Option.bind (fdt_next_tag b offset) (\<lambda>(tag, next).
       if tag = FDT_END then Some (next, b)
       else if tag = FDT_PROP
       then let p = unat (fdt_off_dt_struct b) + nat offset + 8
            in Option.bind (rd32 b p) (\<lambda>nameoff.
                 Option.bind (wr b p (be32 (nameoff + fdt_size_dt_strings b))) (\<lambda>b1. finish_walk next b1))
       else finish_walk next b)"

definition fdt_finish :: "blob \<Rightarrow> (int \<times> blob) option" where
  "fdt_finish b =
     (let err = fdt_sw_probe_struct b
      in if err \<noteq> 0 then Some (err, b)
         else case fdt_grab_space b 4 of
                (None, b1) \<Rightarrow> Some (- FDT_ERR_NOSPACE, b1)
              | (Some en, b1) \<Rightarrow>
                  do { b2 \<leftarrow> wr b1 en (be32 FDT_END);
                       let strsize = unat (fdt_size_dt_strings b2);
                           oldstroffset = unat (fdt_totalsize b2) - strsize;
                           newstroffset = unat (fdt_off_dt_struct b2) + unat (fdt_size_dt_struct b2)
                       in do { b3 \<leftarrow> wr b2 newstroffset (take strsize (drop oldstroffset b2));
                               let b4 = fdt_set_off_dt_strings (of_nat newstroffset) b3 in
                               do { (next, b5) \<leftarrow> finish_walk 0 b4;
                                    Some (if next < 0 then (next, b5)
                                          else (0, fdt_set_magic FDT_MAGIC (fdt_set_last_comp_version 16
                                                 (fdt_set_totalsize (of_nat newstroffset + fdt_size_dt_strings b5) b5)))) } } })"

declare finish_walk.simps [code]

end
