(* ===== verification/Fdt_Sw_Props.thy ===== *)
theory Fdt_Sw_Props
  imports Fdt_Sw
begin

text \<open>
  What the sequential writer of device trees produces.  A tree is a list of tokens; the writer keeps
  the image of the tokens written so far, or reports that there is not enough space.
\<close>

section \<open>Cells\<close>

lemma length_be32 [simp]: "length (be32 w) = 4"
  by (simp add: be32_def)

lemma be32_dec_append [simp]: "be32_dec (be32 w @ r) = w"
proof -
  have "take 4 (be32 w @ r) = be32 w" by simp
  then show ?thesis using le32_dec_le32 [of w "[]"] by (simp add: be32_dec_def be32_def)
qed

lemma be32_dec_be32 [simp]: "be32_dec (be32 w) = w"
  using be32_dec_append [of w "[]"] by simp

lemma be32_dec_take: "4 \<le> n \<Longrightarrow> be32_dec (take n bs) = be32_dec bs"
  by (simp add: be32_dec_def min_def)

section \<open>Blobs as a header and a body\<close>

definition mk_blob :: "u32 list \<Rightarrow> char list \<Rightarrow> blob" where
  "mk_blob hs body = concat (map be32 hs) @ body"

lemma length_cells [simp]: "length (concat (map be32 hs)) = 4 * length hs"
  by (induction hs) auto

lemma length_mk_blob [simp]: "length (mk_blob hs body) = 4 * length hs + length body"
  by (simp add: mk_blob_def)

lemma drop_cells: "k \<le> length hs \<Longrightarrow> drop (4 * k) (concat (map be32 hs)) = concat (map be32 (drop k hs))"
proof (induction k arbitrary: hs)
  case (Suc k)
  then show ?case by (cases hs) simp_all
qed simp

lemma take_cells: "k \<le> length hs \<Longrightarrow> take (4 * k) (concat (map be32 hs)) = concat (map be32 (take k hs))"
proof (induction k arbitrary: hs)
  case (Suc k)
  then show ?case by (cases hs) simp_all
qed simp

lemma get_mk_blob [simp]: "k < length hs \<Longrightarrow> fdt_get_header k (mk_blob hs body) = hs ! k"
proof -
  assume k: "k < length hs"
  then have "drop (4 * k) (mk_blob hs body) = be32 (hs ! k) @ concat (map be32 (drop (Suc k) hs)) @ body"
    using Cons_nth_drop_Suc [OF k, symmetric] by (simp add: mk_blob_def drop_cells)
  then show ?thesis by (simp add: fdt_get_header_def)
qed

lemma set_mk_blob [simp]: "k < length hs \<Longrightarrow> fdt_set_header k v (mk_blob hs body) = mk_blob (hs[k := v]) body"
proof -
  assume k: "k < length hs"
  have "drop (4 * k + 4) (concat (map be32 hs)) = concat (map be32 (drop (Suc k) hs))"
    using drop_cells [of "Suc k" hs] k by (simp add: add.commute)
  then have "blit (mk_blob hs body) (4 * k) (be32 v)
      = concat (map be32 (take k hs)) @ be32 v @ concat (map be32 (drop (Suc k) hs)) @ body"
    using k by (simp add: blit_def mk_blob_def take_cells)
  then show ?thesis using k by (simp add: fdt_set_header_def mk_blob_def upd_conv_take_nth_drop)
qed

text \<open>Writing behind the header.\<close>

lemma wr_mk_blob:
  "length hs = 10 \<Longrightarrow> p = 40 + length pre \<Longrightarrow> length d = length old \<Longrightarrow>
   wr (mk_blob hs (pre @ old @ post)) p d = Some (mk_blob hs (pre @ d @ post))"
  by (simp add: wr_def blit_def mk_blob_def)

section \<open>Tokens and their image\<close>

datatype fdt_tok = TBegin string | TEnd | TProp string "char list"

definition pad4 :: "nat \<Rightarrow> nat" where
  "pad4 n = (4 - n mod 4) mod 4"

text \<open>A token comes with the offset stored for the name of a property and the bytes that fill up its value:
  the sequential writer leaves zero bytes there, the random-access writer whatever was in this place.\<close>

datatype extra = Extra (name_off: u32) (fill: "char list")

abbreviation no_extra :: extra where
  "no_extra \<equiv> Extra 0 []"

definition filler :: "nat \<Rightarrow> extra \<Rightarrow> char list" where
  "filler n k = take (pad4 n) (fill k @ replicate (pad4 n) NUL)"

lemma length_filler [simp]: "length (filler n k) = pad4 n"
  by (simp add: filler_def)

lemma filler_zero [simp]: "filler n (Extra off []) = replicate (pad4 n) NUL"
  by (simp add: filler_def)

lemma filler_given [simp]: "length js = pad4 n \<Longrightarrow> filler n (Extra off js) = js"
  by (simp add: filler_def)

lemma filler_cong: "fill k = fill k' \<Longrightarrow> filler n k = filler n k'"
  by (simp add: filler_def)

fun enc_tok :: "fdt_tok \<times> extra \<Rightarrow> char list" where
  "enc_tok (TBegin s, k) = be32 FDT_BEGIN_NODE @ s @ [NUL] @ replicate (pad4 (length s + 1)) NUL"
| "enc_tok (TEnd, k) = be32 FDT_END_NODE"
| "enc_tok (TProp s v, k) = be32 FDT_PROP @ be32 (of_nat (length v)) @ be32 (name_off k) @ v @ filler (length v) k"

definition enc :: "(fdt_tok \<times> extra) list \<Rightarrow> char list" where
  "enc its = concat (map enc_tok its)"

lemma enc_simps [simp]: "enc [] = []" "enc (i # its) = enc_tok i @ enc its" "enc (its @ its') = enc its @ enc its'"
  by (simp_all add: enc_def)

lemma pad4_div: "n + pad4 n = (n + 3) div 4 * 4"
proof -
  define q r where "q = n div 4" and "r = n mod 4"
  have n: "n = 4 * q + r" "r < 4" by (simp_all add: q_def r_def)
  have p: "pad4 n = (4 - r) mod 4" by (simp add: pad4_def r_def)
  have "(n + 3) div 4 = q + (r + 3) div 4" unfolding n(1) by (simp add: add.assoc)
  moreover have "r + (4 - r) mod 4 = (r + 3) div 4 * 4"
  proof -
    consider "r = 0" | "r = 1" | "r = 2" | "r = 3" using n(2) by linarith
    then show ?thesis by cases simp_all
  qed
  ultimately show ?thesis unfolding p using n(1) by (simp add: algebra_simps)
qed

lemma pad4_align: "FDT_TAGALIGN (int n) = int (n + pad4 n)"
  unfolding pad4_div FDT_TAGALIGN_def by (metis of_nat_add of_nat_mult of_nat_numeral zdiv_int)

lemma pad4_dvd: "4 dvd n + pad4 n"
  unfolding pad4_div by simp

lemma length_enc_tok_dvd: "4 dvd length (enc_tok i)"
proof (cases i rule: enc_tok.cases)
  case (1 s k)
  then have "length (enc_tok i) = 4 + (length s + 1 + pad4 (length s + 1))" by simp
  then show ?thesis using pad4_dvd [of "length s + 1"] by (metis dvd_add dvd_refl)
next
  case (3 s v k)
  then have "length (enc_tok i) = 4 * 3 + (length v + pad4 (length v))" by simp
  then show ?thesis using pad4_dvd [of "length v"] by (metis dvd_add dvd_triv_left)
qed simp

lemma length_enc_dvd: "4 dvd length (enc its)"
  by (induction its) (simp_all add: length_enc_tok_dvd)


section \<open>The state of the writer\<close>

definition sw_image :: "nat \<Rightarrow> (fdt_tok \<times> extra) list \<Rightarrow> char list \<Rightarrow> blob" where
  "sw_image n its strs =
     mk_blob [FDT_SW_MAGIC, of_nat n, 64, of_nat n, 48, 17, 0, 0, of_nat (length strs), of_nat (length (enc its))]
       (replicate 24 NUL @ enc its @ replicate (n - 64 - length (enc its) - length strs) NUL @ strs)"

definition sw_fits :: "nat \<Rightarrow> (fdt_tok \<times> extra) list \<Rightarrow> char list \<Rightarrow> bool" where
  "sw_fits n its strs \<longleftrightarrow> 64 + length (enc its) + length strs \<le> n \<and> n < 2 ^ 31"

text \<open>The offset \<open>k\<close> counts back from the end of the strings to the name \<open>s\<close>.\<close>

definition name_ref :: "char list \<Rightarrow> u32 \<Rightarrow> string \<Rightarrow> bool" where
  "name_ref strs k s \<longleftrightarrow> (\<exists>pre post. strs = pre @ s @ NUL # post \<and> k = - of_nat (length s + 1 + length post))"

definition refs_ok :: "char list \<Rightarrow> (fdt_tok \<times> extra) list \<Rightarrow> bool" where
  "refs_ok strs its \<longleftrightarrow> (\<forall>s v k. (TProp s v, k) \<in> set its \<longrightarrow> name_ref strs (name_off k) s)"

lemma name_ref_grow: "name_ref strs k s \<Longrightarrow> name_ref (t @ strs) k s"
  unfolding name_ref_def by (metis append.assoc)

lemma refs_ok_grow: "refs_ok strs its \<Longrightarrow> refs_ok (t @ strs) its"
  by (auto simp: refs_ok_def intro: name_ref_grow)

lemma unat_of_nat_less: "m < 2 ^ 31 \<Longrightarrow> unat (of_nat m :: u32) = m"
  by (simp add: unat_of_nat take_bit_nat_eq_self)

lemma unat_of_nat64: "m < 2 ^ 63 \<Longrightarrow> unat (of_nat m :: u64) = m"
  by (simp add: unat_of_nat take_bit_nat_eq_self)

lemma of_nat_less32: "a < 2 ^ 31 \<Longrightarrow> b < 2 ^ 31 \<Longrightarrow> (of_nat a :: u32) < of_nat b \<longleftrightarrow> a < b"
  by (simp add: word_less_nat_alt unat_of_nat_less)

lemma ucast_of_nat_less: "m < 2 ^ 31 \<Longrightarrow> (ucast (of_nat m :: u32) :: u64) = of_nat m"
  by (metis of_nat_unat unat_of_nat_less)

lemma grab_sw:
  assumes "sw_fits n its strs" "len < 2 ^ 62"
  shows "fdt_grab_space (sw_image n its strs) (of_nat len) =
    (if 64 + length (enc its) + len + length strs \<le> n
     then (Some (64 + length (enc its)), fdt_set_size_dt_struct (of_nat (length (enc its) + len)) (sw_image n its strs))
     else (None, sw_image n its strs))"
proof -
  let ?S = "length (enc its)" and ?T = "length strs"
  have b: "64 + ?S + ?T \<le> n" "n < 2 ^ 31" using assms(1) by (simp_all add: sw_fits_def)
  have left: "of_nat n - 64 - of_nat ?T = (of_nat (n - 64 - ?T) :: u32)" using b by (simp add: of_nat_diff)
  have new: "ucast (of_nat ?S :: u32) + of_nat len = (of_nat (?S + len) :: u64)" using b by (simp add: ucast_of_nat_less)
  have u1: "unat (of_nat (?S + len) :: u64) = ?S + len" by (rule unat_of_nat64) (use b assms(2) in simp)
  have u2: "unat (of_nat (n - 64 - ?T) :: u64) = n - 64 - ?T" by (rule unat_of_nat64) (use b in simp)
  have u3: "unat (of_nat ?S :: u64) = ?S" by (rule unat_of_nat64) (use b in simp)
  have c3: "ucast (of_nat ?S :: u32) = (of_nat ?S :: u64)" by (rule ucast_of_nat_less) (use b in simp)
  have lt: "\<not> (of_nat (?S + len) :: u64) < ucast (of_nat ?S :: u32)" unfolding word_less_nat_alt u1 u3 c3 by simp
  have room: "(of_nat (n - 64 - ?T) :: u64) < of_nat (?S + len) \<longleftrightarrow> \<not> 64 + ?S + len + ?T \<le> n"
    unfolding word_less_nat_alt u1 u2 using b by linarith
  have cast: "ucast (of_nat (?S + len) :: u64) = (of_nat (?S + len) :: u32)"
    by (metis of_nat_unat u1)
  have c1: "ucast (of_nat (n - 64 - ?T) :: u32) = (of_nat (n - 64 - ?T) :: u64)"
    by (rule ucast_of_nat_less) (use b in simp)
  have c2: "unat (of_nat ?S :: u32) = ?S" by (rule unat_of_nat_less) (use b in simp)
  have h: "fdt_size_dt_struct (sw_image n its strs) = of_nat ?S" "fdt_totalsize (sw_image n its strs) = of_nat n"
      "fdt_off_dt_struct (sw_image n its strs) = 64" "fdt_size_dt_strings (sw_image n its strs) = of_nat ?T"
    by (simp_all add: sw_image_def)
  show ?thesis unfolding fdt_grab_space_def Let_def h left new c1 cast room c2 using lt by (simp del: of_nat_add of_nat_diff)
qed


definition sw_hdr :: "nat \<Rightarrow> nat \<Rightarrow> nat \<Rightarrow> u32 list" where
  "sw_hdr n s t = [FDT_SW_MAGIC, of_nat n, 64, of_nat n, 48, 17, 0, 0, of_nat t, of_nat s]"

lemma sw_image_hdr:
  "sw_image n its strs = mk_blob (sw_hdr n (length (enc its)) (length strs))
     (replicate 24 NUL @ enc its @ replicate (n - 64 - length (enc its) - length strs) NUL @ strs)"
  by (simp add: sw_image_def sw_hdr_def)

lemma length_sw_hdr [simp]: "length (sw_hdr n s t) = 10"
  by (simp add: sw_hdr_def)

lemma sw_hdr_struct: "fdt_set_size_dt_struct (of_nat s') (mk_blob (sw_hdr n s t) body) = mk_blob (sw_hdr n s' t) body"
  by (simp add: sw_hdr_def)

lemma sw_hdr_strings: "fdt_set_size_dt_strings (of_nat t') (mk_blob (sw_hdr n s t) body) = mk_blob (sw_hdr n s t') body"
  by (simp add: sw_hdr_def)

lemma probe_sw [simp]: "fdt_sw_probe_struct (sw_image n its strs) = 0"
  by (simp add: fdt_sw_probe_struct_def fdt_sw_probe_def sw_image_def)

text \<open>The space for a token is taken from the zero bytes in the middle.\<close>

definition sw_room :: "nat \<Rightarrow> (fdt_tok \<times> extra) list \<Rightarrow> char list \<Rightarrow> nat \<Rightarrow> bool" where
  "sw_room n its strs len \<longleftrightarrow> 64 + length (enc its) + len + length strs \<le> n"

lemma sw_zeros:
  assumes "sw_room n its strs len"
  shows "replicate (n - 64 - length (enc its) - length strs) NUL =
    replicate len NUL @ replicate (n - 64 - (length (enc its) + len) - length strs) NUL"
proof -
  have "n - 64 - length (enc its) - length strs = len + (n - 64 - (length (enc its) + len) - length strs)"
    using assms by (simp add: sw_room_def)
  then show ?thesis by (metis replicate_add)
qed

text \<open>The new token is written in two parts and padded with the zero bytes that were there.\<close>

lemma sw_write:
  assumes "sw_room n its strs (length (enc_tok i))" "enc_tok i = d1 @ d2 @ replicate pad NUL"
  shows "\<exists>b1. wr (fdt_set_size_dt_struct (of_nat (length (enc its) + length (enc_tok i))) (sw_image n its strs))
      (64 + length (enc its)) d1 = Some b1 \<and>
    wr b1 (64 + length (enc its) + length d1) d2 = Some (sw_image n (its @ [i]) strs)"
proof -
  let ?L = "length (enc_tok i)" and ?S = "length (enc its)"
  let ?tail = "replicate (n - 64 - (?S + ?L) - length strs) NUL @ strs" and ?hdr = "sw_hdr n (?S + ?L) (length strs)"
  let ?pre = "replicate 24 NUL @ enc its" and ?z2 = "replicate (length d2) NUL @ replicate pad NUL @ ?tail"
  have z: "replicate ?L NUL = replicate (length d1) NUL @ replicate (length d2) NUL @ replicate pad NUL"
    unfolding assms(2) by (simp add: replicate_add)
  have b0: "fdt_set_size_dt_struct (of_nat (?S + ?L)) (sw_image n its strs) =
      mk_blob ?hdr (?pre @ replicate (length d1) NUL @ ?z2)"
    unfolding sw_image_hdr sw_hdr_struct sw_zeros [OF assms(1)] z by simp
  have w1: "wr (mk_blob ?hdr (?pre @ replicate (length d1) NUL @ ?z2)) (64 + ?S) d1 = Some (mk_blob ?hdr (?pre @ d1 @ ?z2))"
    by (rule wr_mk_blob) simp_all
  have w2: "wr (mk_blob ?hdr ((?pre @ d1) @ ?z2)) (64 + ?S + length d1) d2 =
      Some (mk_blob ?hdr ((?pre @ d1) @ d2 @ replicate pad NUL @ ?tail))"
    by (rule wr_mk_blob) simp_all
  have "mk_blob ?hdr ((?pre @ d1) @ d2 @ replicate pad NUL @ ?tail) = sw_image n (its @ [i]) strs"
    unfolding sw_image_hdr by (simp add: assms(2))
  with w1 w2 show ?thesis unfolding b0 by simp
qed

lemma begin_sw:
  assumes "sw_fits n its strs" "length s < 2 ^ 31"
  shows "fdt_begin_node s (sw_image n its strs) =
    (if sw_room n its strs (length (enc_tok (TBegin s, k))) then Some (0, sw_image n (its @ [(TBegin s, k)]) strs)
     else Some (- FDT_ERR_NOSPACE, sw_image n its strs))"
proof -
  let ?L = "length (enc_tok (TBegin s, k))"
  have "4 + FDT_TAGALIGN (int (length s) + 1) = int ?L" using pad4_align [of "length s + 1"] by (simp add: add.commute)
  then have len: "of_int (4 + FDT_TAGALIGN (int (length s) + 1)) = (of_nat ?L :: u64)" by (metis of_int_of_nat_eq)
  have "pad4 (length s + 1) < 4" by (simp add: pad4_def)
  then have "?L < 2 ^ 62" using assms(2) by simp
  note g = grab_sw [OF assms(1) this]
  show ?thesis
  proof (cases "sw_room n its strs ?L")
    case True
    have "enc_tok (TBegin s, k) = be32 FDT_BEGIN_NODE @ (s @ [NUL]) @ replicate (pad4 (length s + 1)) NUL" by simp
    from sw_write [OF True this] True g show ?thesis
      unfolding fdt_begin_node_def Let_def len by (auto simp: sw_room_def simp del: enc_tok.simps of_nat_add)
  next
    case False
    then show ?thesis using g unfolding fdt_begin_node_def Let_def len by (simp add: sw_room_def del: enc_tok.simps)
  qed
qed

lemma end_sw:
  assumes "sw_fits n its strs"
  shows "fdt_end_node (sw_image n its strs) =
    (if sw_room n its strs 4 then Some (0, sw_image n (its @ [(TEnd, k)]) strs)
     else Some (- FDT_ERR_NOSPACE, sw_image n its strs))"
proof -
  have "(4 :: nat) < 2 ^ 62" by simp
  note g = grab_sw [OF assms this]
  show ?thesis
  proof (cases "sw_room n its strs 4")
    case True
    then have "sw_room n its strs (length (enc_tok (TEnd, k)))" by simp
    from sw_write [OF this, of "be32 FDT_END_NODE" "[]" 0] True g show ?thesis
      unfolding fdt_end_node_def Let_def by (auto simp: sw_room_def wr_def blit_def simp del: of_nat_add split: if_splits)
  next
    case False
    then show ?thesis using g unfolding fdt_end_node_def Let_def by (simp add: sw_room_def)
  qed
qed


section \<open>Strings and properties\<close>

lemma sint_minus_of_nat: "m < 2 ^ 31 \<Longrightarrow> sint (- of_nat m :: u32) = - int m"
proof -
  assume m: "m < 2 ^ 31"
  have "sint (of_int (- int m) :: u32) = - int m"
    unfolding signed_of_int using m by (simp add: signed_take_bit_int_eq_self)
  then show ?thesis by simp
qed

lemma sw_strings:
  assumes "sw_fits n its strs"
  shows "take (length strs) (drop (n - length strs) (sw_image n its strs)) = strs"
proof -
  let ?pre = "concat (map be32 (sw_hdr n (length (enc its)) (length strs))) @ replicate 24 NUL @ enc its @
    replicate (n - 64 - length (enc its) - length strs) NUL"
  have "sw_image n its strs = ?pre @ strs" by (simp add: sw_image_hdr mk_blob_def)
  moreover have "length ?pre = n - length strs" using assms by (simp add: sw_fits_def)
  ultimately show ?thesis by simp
qed

lemma add_string_sw:
  assumes "sw_fits n its strs" "length s \<le> 63"
  shows "fdt_add_string s (sw_image n its strs) =
    (if sw_room n its strs (length s + 1)
     then Some (- int (length strs + length s + 1), sw_image n its (s @ NUL # strs))
     else Some (0, sw_image n its strs))"
proof -
  let ?S = "length (enc its)" and ?T = "length strs" and ?l = "length s + 1"
  have b: "64 + ?S + ?T \<le> n" "n < 2 ^ 31" using assms(1) by (simp_all add: sw_fits_def)
  have h: "fdt_size_dt_struct (sw_image n its strs) = of_nat ?S" "fdt_totalsize (sw_image n its strs) = of_nat n"
      "fdt_off_dt_struct (sw_image n its strs) = 64" "fdt_size_dt_strings (sw_image n its strs) = of_nat ?T"
    by (simp_all add: sw_image_def)
  have o: "of_nat ?T + of_nat ?l = (of_nat (?T + ?l) :: u32)" by simp
  have d: "of_nat n - of_nat (?T + ?l) = (of_nat (n - (?T + ?l)) :: u32)" using b assms(2) by (simp add: of_nat_diff)
  have t: "64 + of_nat ?S = (of_nat (64 + ?S) :: u32)" by simp
  have room: "(of_nat (n - (?T + ?l)) :: u32) < of_nat (64 + ?S) \<longleftrightarrow> \<not> sw_room n its strs ?l"
    using b assms(2) by (subst of_nat_less32) (auto simp: sw_room_def)
  have u: "unat (of_nat (?T + ?l) :: u32) = ?T + ?l" "unat (of_nat n :: u32) = n"
    by (rule unat_of_nat_less, use b assms(2) in simp)+
  have si: "sint (- of_nat (?T + ?l) :: u32) = - int (?T + ?l)" by (rule sint_minus_of_nat) (use b assms(2) in simp)
  have nlt: "\<not> n < ?T + ?l" using b assms(2) by simp
  show ?thesis
  proof (cases "sw_room n its strs ?l")
    case True
    let ?z = "n - 64 - ?S - (?T + ?l)"
    have z: "replicate (n - 64 - ?S - ?T) NUL = replicate ?z NUL @ replicate ?l NUL"
    proof -
      have "n - 64 - ?S - ?T = ?z + ?l" using True by (simp add: sw_room_def)
      then show ?thesis by (metis replicate_add)
    qed
    let ?pre = "replicate 24 NUL @ enc its @ replicate ?z NUL"
    have img: "sw_image n its strs = mk_blob (sw_hdr n ?S ?T) (?pre @ replicate ?l NUL @ strs)"
      unfolding sw_image_hdr z by simp
    have w: "wr (sw_image n its strs) (n - (?T + ?l)) (s @ [NUL]) =
        Some (mk_blob (sw_hdr n ?S ?T) (?pre @ (s @ [NUL]) @ strs))"
      unfolding img by (rule wr_mk_blob) (use True in \<open>simp_all add: sw_room_def\<close>)
    have new: "fdt_set_size_dt_strings (of_nat (?T + ?l)) (mk_blob (sw_hdr n ?S ?T) (?pre @ (s @ [NUL]) @ strs)) =
        sw_image n its (s @ NUL # strs)"
      unfolding sw_hdr_strings by (simp add: sw_image_hdr add.commute)
    show ?thesis unfolding fdt_add_string_def Let_def h o d t room u si w using True nlt new
      by (simp del: of_nat_add of_nat_Suc)
  next
    case False
    then show ?thesis unfolding fdt_add_string_def Let_def h o d t room by simp
  qed
qed


lemma find_string_Some:
  assumes "fdt_find_string strs s = Some p"
  shows "\<exists>pre post. strs = pre @ s @ NUL # post \<and> length pre = p"
proof -
  have p: "p < length strs - length s" "take (length s + 1) (drop p strs) = s @ [NUL]"
    using assms unfolding fdt_find_string_def find_Some_iff by auto
  have "strs = take p strs @ (s @ [NUL]) @ drop (p + (length s + 1)) strs"
    using p(2) by (metis append_take_drop_id drop_drop add.commute)
  moreover have "length (take p strs) = p" using p(1) by simp
  ultimately show ?thesis by (metis append.assoc append_Cons append_Nil)
qed

text \<open>The name of a property is found in the strings or added to them.\<close>

lemma find_add_sw:
  assumes "sw_fits n its strs" "length s \<le> 63"
  shows "(\<exists>off al strs' t. fdt_find_add_string s (sw_image n its strs) = Some (off, al, sw_image n its strs') \<and> off \<noteq> 0 \<and>
      name_ref strs' (of_int off) s \<and> sw_fits n its strs' \<and> strs' = t @ strs \<and> length t \<le> length s + 1) \<or>
    fdt_find_add_string s (sw_image n its strs) = Some (0, True, sw_image n its strs) \<and> \<not> sw_room n its strs (length s + 1)"
proof -
  have b: "64 + length (enc its) + length strs \<le> n" "n < 2 ^ 31" using assms(1) by (simp_all add: sw_fits_def)
  have h: "unat (fdt_totalsize (sw_image n its strs)) = n" "unat (fdt_size_dt_strings (sw_image n its strs)) = length strs"
    using b by (simp_all add: sw_image_def unat_of_nat_less)
  show ?thesis
  proof (cases "fdt_find_string strs s")
    case None
    have r: "fdt_find_add_string s (sw_image n its strs) =
        do { (off, b1) \<leftarrow> fdt_add_string s (sw_image n its strs); Some (off, True, b1) }"
      unfolding fdt_find_add_string_def Let_def h sw_strings [OF assms(1)] None by simp
    show ?thesis
    proof (cases "sw_room n its strs (length s + 1)")
      case True
      have "name_ref (s @ NUL # strs) (of_int (- int (length strs + length s + 1))) s"
        unfolding name_ref_def by (intro exI [of _ "[]"] exI [of _ strs]) (simp add: algebra_simps)
      moreover have "sw_fits n its (s @ NUL # strs)" using True b by (simp add: sw_fits_def sw_room_def)
      ultimately show ?thesis unfolding r add_string_sw [OF assms] using True
        by (intro disjI1 exI [of _ "- int (length strs + length s + 1)"] exI [of _ True] exI [of _ "s @ NUL # strs"]
              exI [of _ "s @ [NUL]"]) simp
    qed (simp add: r add_string_sw [OF assms])
  next
    case (Some p)
    obtain pre post where p: "strs = pre @ s @ NUL # post" "length pre = p" using find_string_Some [OF Some] by blast
    have "fdt_find_add_string s (sw_image n its strs) = Some (int p - int (length strs), False, sw_image n its strs)"
      unfolding fdt_find_add_string_def Let_def h sw_strings [OF assms(1)] Some by simp
    moreover have "name_ref strs (of_int (int p - int (length strs))) s"
      unfolding name_ref_def using p by (intro exI [of _ pre] exI [of _ post]) (simp add: algebra_simps)
    moreover have "int p - int (length strs) \<noteq> 0" using p by simp
    ultimately show ?thesis using assms(1) by (intro disjI1 exI [of _ "[]"] exI) auto
  qed
qed

lemma property_sw:
  assumes "sw_fits n its strs" "refs_ok strs its" "length s \<le> 63" "length v < 2 ^ 31"
  shows "\<exists>r b. fdt_property s v (sw_image n its strs) = Some (r, b) \<and>
    (r = 0 \<and> (\<exists>k strs'. b = sw_image n (its @ [(TProp s v, k)]) strs' \<and> sw_fits n (its @ [(TProp s v, k)]) strs' \<and>
       refs_ok strs' (its @ [(TProp s v, k)]) \<and> length strs' \<le> length strs + length s + 1) \<or>
     r = - FDT_ERR_NOSPACE \<and> \<not> sw_room n its strs (length (enc_tok (TProp s v, no_extra)) + length s + 1))"
  using find_add_sw [OF assms(1,3)]
proof (elim disjE exE conjE)
  fix off al strs' t
  assume f: "fdt_find_add_string s (sw_image n its strs) = Some (off, al, sw_image n its strs')" "off \<noteq> 0"
    "name_ref strs' (of_int off) s" "sw_fits n its strs'" "strs' = t @ strs" "length t \<le> length s + 1"
  let ?i = "(TProp s v, Extra (of_int off) [])"
  let ?L = "length (enc_tok ?i)"
  have "12 + FDT_TAGALIGN (int (length v)) = int ?L" using pad4_align [of "length v"] by simp
  then have len: "of_int (12 + FDT_TAGALIGN (int (length v))) = (of_nat ?L :: u64)" by (metis of_int_of_nat_eq)
  have "pad4 (length v) < 4" by (simp add: pad4_def)
  then have "?L < 2 ^ 62" using assms(4) by simp
  note g = grab_sw [OF f(4) this]
  have fl: "sw_flags (sw_image n its strs) = 0" by (simp add: sw_flags_def sw_image_def)
  show ?thesis
  proof (cases "sw_room n its strs' ?L")
    case True
    have "enc_tok ?i = (be32 FDT_PROP @ be32 (of_nat (length v)) @ be32 (of_int off)) @ v @ replicate (pad4 (length v)) NUL" by simp
    from sw_write [OF True this] obtain b1 where w:
      "wr (fdt_set_size_dt_struct (of_nat (length (enc its) + ?L)) (sw_image n its strs')) (64 + length (enc its))
         (be32 FDT_PROP @ be32 (of_nat (length v)) @ be32 (of_int off)) = Some b1"
      "wr b1 (64 + length (enc its) + 12) v = Some (sw_image n (its @ [?i]) strs')" by auto
    have "fdt_property s v (sw_image n its strs) = Some (0, sw_image n (its @ [?i]) strs')"
      using True g w f(1,2) fl unfolding fdt_property_def fdt_property_placeholder_def Let_def len
      by (simp add: sw_room_def del: enc_tok.simps of_nat_add)
    moreover have "sw_fits n (its @ [?i]) strs'" using True f(4) by (simp add: sw_fits_def sw_room_def del: enc_tok.simps)
    moreover have "refs_ok strs' (its @ [?i])" using refs_ok_grow [OF assms(2)] f(3,5) by (auto simp: refs_ok_def)
    moreover have "length strs' \<le> length strs + length s + 1" using f(5,6) by simp
    ultimately show ?thesis by blast
  next
    case False
    have "\<exists>b. fdt_property s v (sw_image n its strs) = Some (- FDT_ERR_NOSPACE, b)"
      using False g f(1,2) fl unfolding fdt_property_def fdt_property_placeholder_def Let_def len
      by (simp add: sw_room_def del: enc_tok.simps)
    moreover have "\<not> sw_room n its strs (length (enc_tok (TProp s v, no_extra)) + length s + 1)"
      using False f(5,6) by (simp add: sw_room_def)
    ultimately show ?thesis by auto
  qed
next
  assume f: "fdt_find_add_string s (sw_image n its strs) = Some (0, True, sw_image n its strs)" "\<not> sw_room n its strs (length s + 1)"
  have fl: "sw_flags (sw_image n its strs) = 0" by (simp add: sw_flags_def sw_image_def)
  have "fdt_property s v (sw_image n its strs) = Some (- FDT_ERR_NOSPACE, sw_image n its strs)"
    using f(1) fl by (simp add: fdt_property_def fdt_property_placeholder_def)
  then show ?thesis using f(2) by (auto simp: sw_room_def)
qed


section \<open>Writing a list of tokens\<close>

fun tok_op :: "fdt_tok \<Rightarrow> blob \<Rightarrow> (int \<times> blob) option" where
  "tok_op (TBegin s) b = fdt_begin_node s b"
| "tok_op TEnd b = fdt_end_node b"
| "tok_op (TProp s v) b = fdt_property s v b"

fun run_toks :: "fdt_tok list \<Rightarrow> blob \<Rightarrow> (int \<times> blob) option" where
  "run_toks [] b = Some (0, b)"
| "run_toks (t # ts) b = do { (r, b1) \<leftarrow> tok_op t b; if r \<noteq> 0 then Some (r, b1) else run_toks ts b1 }"

text \<open>Names are short and without a terminator; no string or value has 2 GB.\<close>

fun tok_ok :: "fdt_tok \<Rightarrow> bool" where
  "tok_ok (TBegin s) \<longleftrightarrow> NUL \<notin> set s \<and> length s < 2 ^ 31"
| "tok_ok TEnd \<longleftrightarrow> True"
| "tok_ok (TProp s v) \<longleftrightarrow> NUL \<notin> set s \<and> length s \<le> 63 \<and> length v < 2 ^ 31"

text \<open>The space a token takes, at most.\<close>

fun tok_space :: "fdt_tok \<Rightarrow> nat" where
  "tok_space (TProp s v) = length (enc_tok (TProp s v, no_extra)) + length s + 1"
| "tok_space t = length (enc_tok (t, no_extra))"

definition tok_result :: "nat \<Rightarrow> (fdt_tok \<times> extra) list \<Rightarrow> char list \<Rightarrow> fdt_tok \<Rightarrow> int \<Rightarrow> blob \<Rightarrow> bool" where
  "tok_result n its strs t r b \<longleftrightarrow>
     r = 0 \<and> (\<exists>k strs'. b = sw_image n (its @ [(t, k)]) strs' \<and> sw_fits n (its @ [(t, k)]) strs' \<and>
       refs_ok strs' (its @ [(t, k)]) \<and>
       length (enc (its @ [(t, k)])) + length strs' \<le> length (enc its) + length strs + tok_space t) \<or>
     r = - FDT_ERR_NOSPACE \<and> \<not> sw_room n its strs (tok_space t)"

lemma tok_result_node:
  assumes "sw_fits n its strs" "refs_ok strs its" "tok_space t = length (enc_tok (t, no_extra))" "\<forall>s v. t \<noteq> TProp s v"
  shows "sw_room n its strs (length (enc_tok (t, no_extra))) \<Longrightarrow> tok_result n its strs t 0 (sw_image n (its @ [(t, no_extra)]) strs)"
    "\<not> sw_room n its strs (length (enc_tok (t, no_extra))) \<Longrightarrow> tok_result n its strs t (- FDT_ERR_NOSPACE) b"
proof -
  assume "sw_room n its strs (length (enc_tok (t, no_extra)))"
  then have "sw_fits n (its @ [(t, no_extra)]) strs" using assms(1) by (simp add: sw_fits_def sw_room_def)
  moreover have "refs_ok strs (its @ [(t, no_extra)])" using assms(2,4) by (auto simp: refs_ok_def)
  moreover have "length (enc (its @ [(t, no_extra)])) + length strs \<le> length (enc its) + length strs + tok_space t"
    using assms(3) by simp
  ultimately show "tok_result n its strs t 0 (sw_image n (its @ [(t, no_extra)]) strs)"
    unfolding tok_result_def by blast
qed (simp add: tok_result_def assms(3))

lemma tok_op_sw:
  assumes "sw_fits n its strs" "refs_ok strs its" "tok_ok t"
  shows "\<exists>r b. tok_op t (sw_image n its strs) = Some (r, b) \<and> tok_result n its strs t r b"
proof (cases t)
  case (TBegin s)
  note n = tok_result_node [OF assms(1,2), of "TBegin s"]
  show ?thesis using begin_sw [OF assms(1), of s no_extra] assms(3) n TBegin
    by (cases "sw_room n its strs (length (enc_tok (TBegin s, no_extra)))") (simp_all del: enc_tok.simps)
next
  case TEnd
  note n = tok_result_node [OF assms(1,2), of TEnd]
  show ?thesis using end_sw [OF assms(1), of no_extra] n TEnd by (cases "sw_room n its strs 4") simp_all
next
  case (TProp s v)
  obtain r b where p: "fdt_property s v (sw_image n its strs) = Some (r, b)"
    "r = 0 \<and> (\<exists>k strs'. b = sw_image n (its @ [(TProp s v, k)]) strs' \<and> sw_fits n (its @ [(TProp s v, k)]) strs' \<and>
       refs_ok strs' (its @ [(TProp s v, k)]) \<and> length strs' \<le> length strs + length s + 1) \<or>
     r = - FDT_ERR_NOSPACE \<and> \<not> sw_room n its strs (length (enc_tok (TProp s v, no_extra)) + length s + 1)"
    using property_sw [OF assms(1,2), of s v] assms(3) TProp by auto
  have "tok_result n its strs t r b" using p(2) TProp by (auto simp: tok_result_def)
  then show ?thesis using p(1) TProp by auto
qed

text \<open>The tokens are written in order, or there is not enough room for all of them.\<close>

lemma run_toks_sw:
  assumes "sw_fits n its strs" "refs_ok strs its" "list_all tok_ok ts"
  shows "\<exists>r b. run_toks ts (sw_image n its strs) = Some (r, b) \<and>
    (r = 0 \<and> (\<exists>ks strs'. length ks = length ts \<and> b = sw_image n (its @ zip ts ks) strs' \<and> sw_fits n (its @ zip ts ks) strs' \<and>
       refs_ok strs' (its @ zip ts ks) \<and>
       length (enc (its @ zip ts ks)) + length strs' \<le> length (enc its) + length strs + sum_list (map tok_space ts)) \<or>
     r = - FDT_ERR_NOSPACE \<and> \<not> sw_room n its strs (sum_list (map tok_space ts)))"
  using assms
proof (induction ts arbitrary: its strs)
  case Nil
  then show ?case by auto
next
  case (Cons t ts)
  obtain r b where o: "tok_op t (sw_image n its strs) = Some (r, b)" "tok_result n its strs t r b"
    using tok_op_sw [OF Cons.prems(1,2), of t] Cons.prems(3) by auto
  show ?case using o(2) unfolding tok_result_def
  proof (elim disjE conjE exE)
    fix k strs1
    assume r: "r = 0" "b = sw_image n (its @ [(t, k)]) strs1" "sw_fits n (its @ [(t, k)]) strs1" "refs_ok strs1 (its @ [(t, k)])"
      "length (enc (its @ [(t, k)])) + length strs1 \<le> length (enc its) + length strs + tok_space t"
    note ih = Cons.IH [OF r(3,4)]
    have ok: "list_all tok_ok ts" using Cons.prems(3) by simp
    from ih [OF ok] obtain r2 b2 where i: "run_toks ts (sw_image n (its @ [(t, k)]) strs1) = Some (r2, b2)"
      "r2 = 0 \<and> (\<exists>ks strs'. length ks = length ts \<and> b2 = sw_image n ((its @ [(t, k)]) @ zip ts ks) strs' \<and>
         sw_fits n ((its @ [(t, k)]) @ zip ts ks) strs' \<and> refs_ok strs' ((its @ [(t, k)]) @ zip ts ks) \<and>
         length (enc ((its @ [(t, k)]) @ zip ts ks)) + length strs' \<le>
           length (enc (its @ [(t, k)])) + length strs1 + sum_list (map tok_space ts)) \<or>
       r2 = - FDT_ERR_NOSPACE \<and> \<not> sw_room n (its @ [(t, k)]) strs1 (sum_list (map tok_space ts))" by blast
    have run: "run_toks (t # ts) (sw_image n its strs) = Some (r2, b2)" using o(1) r(1,2) i(1) by simp
    show ?thesis using i(2)
    proof (elim disjE conjE exE)
      fix ks strs'
      assume s: "r2 = 0" "length ks = length ts" "b2 = sw_image n ((its @ [(t, k)]) @ zip ts ks) strs'"
        "sw_fits n ((its @ [(t, k)]) @ zip ts ks) strs'" "refs_ok strs' ((its @ [(t, k)]) @ zip ts ks)"
        "length (enc ((its @ [(t, k)]) @ zip ts ks)) + length strs' \<le>
           length (enc (its @ [(t, k)])) + length strs1 + sum_list (map tok_space ts)"
      have z: "(its @ [(t, k)]) @ zip ts ks = its @ zip (t # ts) (k # ks)" by simp
      have "length (k # ks) = length (t # ts)" using s(2) by simp
      moreover have "length (enc (its @ zip (t # ts) (k # ks))) + length strs' \<le>
          length (enc its) + length strs + sum_list (map tok_space (t # ts))" using s(6) r(5) unfolding z by simp
      ultimately show ?thesis using run s(1,3,4,5) unfolding z by blast
    next
      assume "r2 = - FDT_ERR_NOSPACE" "\<not> sw_room n (its @ [(t, k)]) strs1 (sum_list (map tok_space ts))"
      then show ?thesis using run r(5) by (auto simp: sw_room_def)
    qed
  next
    assume "r = - FDT_ERR_NOSPACE" "\<not> sw_room n its strs (tok_space t)"
    then show ?thesis using o(1) by (auto simp: sw_room_def)
  qed
qed


section \<open>Creating\<close>

lemma be32_0: "be32 0 = replicate 4 NUL"
  by (simp add: be32_def le32_def numeral_eq_Suc char_of_def)

definition new_blob :: "nat \<Rightarrow> u32 \<Rightarrow> blob" where
  "new_blob n off = mk_blob [FDT_SW_MAGIC, of_nat n, off, 0, 48, 17, 0, 0, 0, 0] (replicate (n - 40) NUL)"

lemma create_blob:
  assumes "length b0 = n" "48 \<le> n"
  shows "fdt_create b0 (int n) = Some (0, new_blob n 48)"
proof -
  have z: "replicate n NUL = mk_blob (replicate 10 0) (replicate (n - 40) NUL)"
  proof -
    have "concat (map be32 (replicate 10 0)) = replicate 40 NUL" by (simp add: be32_0 numeral_eq_Suc)
    moreover have "n = 40 + (n - 40)" using assms(2) by simp
    ultimately show ?thesis unfolding mk_blob_def by (metis replicate_add)
  qed
  have "wr b0 0 (replicate (nat (int n)) NUL) = Some (mk_blob (replicate 10 0) (replicate (n - 40) NUL))"
    using assms by (simp add: wr_def blit_def z [symmetric])
  moreover have "fdt_set_off_dt_strings 0 (fdt_set_off_dt_struct 48 (fdt_set_off_mem_rsvmap 48 (fdt_set_totalsize (of_int (int n))
      (fdt_set_last_comp_version 0 (fdt_set_version 17 (fdt_set_magic FDT_SW_MAGIC
        (mk_blob (replicate 10 0) (replicate (n - 40) NUL)))))))) = new_blob n 48"
    by (simp add: numeral_eq_Suc new_blob_def)
  ultimately show ?thesis using assms(2) by (simp add: fdt_create_def fdt_create_with_flags_def)
qed

lemma create_sw:
  assumes "length b0 = n" "64 \<le> n" "n < 2 ^ 31"
  shows "fdt_create b0 (int n) = Some (0, new_blob n 48)" "fdt_finish_reservemap (new_blob n 48) = Some (0, sw_image n [] [])"
proof -
  show "fdt_create b0 (int n) = Some (0, new_blob n 48)" by (rule create_blob [OF assms(1)]) (use assms in simp)
  have u: "unat (fdt_totalsize (new_blob n 48)) = n" using assms(3) by (simp add: unat_of_nat_less new_blob_def)
  have be: "be64 0 @ be64 0 = replicate 16 NUL" by (simp add: be64_def be32_0 numeral_eq_Suc)
  have "n - 40 = 8 + (16 + (n - 64))" using assms(2) by simp
  then have body: "replicate (n - 40) NUL = replicate 8 NUL @ replicate 16 NUL @ replicate (n - 64) NUL" by (metis replicate_add)
  have w: "wr (new_blob n 48) 48 (be64 0 @ be64 0) = Some (new_blob n 48)"
    unfolding be body new_blob_def by (rule wr_mk_blob) simp_all
  have "fdt_add_reservemap_entry (new_blob n 48) 0 0 = Some (0, new_blob n 64)"
    using u w assms(2)
    by (simp add: fdt_add_reservemap_entry_def fdt_sw_probe_memrsv_def fdt_sw_probe_def Let_def new_blob_def)
  moreover have "replicate (n - 40) NUL = replicate 24 NUL @ replicate (n - 64) NUL"
    unfolding body by (simp add: numeral_eq_Suc)
  ultimately show "fdt_finish_reservemap (new_blob n 48) = Some (0, sw_image n [] [])"
    by (simp add: fdt_finish_reservemap_def sw_image_def new_blob_def)
qed

lemma create_small:
  assumes "length b0 = n" "n < 64"
  shows "(\<exists>b1. fdt_create b0 (int n) = Some (- FDT_ERR_NOSPACE, b1)) \<or>
    fdt_create b0 (int n) = Some (0, new_blob n 48) \<and> (\<exists>b2. fdt_finish_reservemap (new_blob n 48) = Some (- FDT_ERR_NOSPACE, b2))"
proof (cases "n < 48")
  case False
  then have "fdt_create b0 (int n) = Some (0, new_blob n 48)" by (intro create_blob [OF assms(1)]) simp
  moreover have "fdt_finish_reservemap (new_blob n 48) = Some (- FDT_ERR_NOSPACE, new_blob n 48)"
    using assms(2) by (simp add: fdt_finish_reservemap_def fdt_add_reservemap_entry_def fdt_sw_probe_memrsv_def
        fdt_sw_probe_def Let_def unat_of_nat_less new_blob_def)
  ultimately show ?thesis by blast
qed (simp add: fdt_create_def fdt_create_with_flags_def)

end
