(* ===== verification/Fdt_Roundtrip.thy ===== *)
theory Fdt_Roundtrip
  imports Fdt_Sw_Props
begin

text \<open>
  Reading what has been written: the walk over the tags of a blob, the corrections that
  \<open>fdt_finish\<close> makes, and the round trip from a list of tokens to a finished blob and back.
\<close>

section \<open>The structure block of a blob\<close>

definition struct_is :: "blob \<Rightarrow> char list \<Rightarrow> bool" where
  "struct_is b S \<longleftrightarrow>
     fdt_version b = 17 \<and> unat (fdt_size_dt_struct b) = length S \<and>
     unat (fdt_off_dt_struct b) + length S \<le> unat (fdt_totalsize b) \<and> unat (fdt_totalsize b) \<le> length b \<and>
     unat (fdt_totalsize b) < 2 ^ 31 \<and> take (length S) (drop (unat (fdt_off_dt_struct b)) b) = S"

lemma unat_add32: "unat (a :: u32) + unat b < 2 ^ 32 \<Longrightarrow> unat (a + b) = unat a + unat b"
  by (simp add: unat_word_ariths)

lemma offset_ptr_in:
  assumes "struct_is b S" "i + unat len \<le> length S"
  shows "fdt_offset_ptr b (int i) len = Some (unat (fdt_off_dt_struct b) + i)"
proof -
  have b: "unat (fdt_size_dt_struct b) = length S" "unat (fdt_off_dt_struct b) + length S \<le> unat (fdt_totalsize b)"
      "unat (fdt_totalsize b) < 2 ^ 31"
    using assms(1) by (simp_all add: struct_is_def)
  have u: "unat (of_int (int i) :: u32) = i" using b assms(2) by (simp add: unat_of_nat_less)
  have a: "unat (of_int (int i) + fdt_off_dt_struct b) = i + unat (fdt_off_dt_struct b)"
    using unat_add32 [of "of_int (int i)" "fdt_off_dt_struct b"] u b assms(2) by simp
  have a2: "unat (of_int (int i) + fdt_off_dt_struct b + len) = i + unat (fdt_off_dt_struct b) + unat len"
    using unat_add32 [of "of_int (int i) + fdt_off_dt_struct b" len] a b assms(2) by simp
  have a3: "unat (of_int (int i) + len) = i + unat len"
    using unat_add32 [of "of_int (int i)" len] u b assms(2) by simp
  show ?thesis unfolding fdt_offset_ptr_def Let_def word_less_nat_alt word_le_nat_alt a a2 a3 u using b assms(2) by simp
qed

lemma struct_drop: "struct_is b S \<Longrightarrow> i \<le> length S \<Longrightarrow>
    take (length S - i) (drop (unat (fdt_off_dt_struct b) + i) b) = drop i S"
  unfolding struct_is_def by (metis add.commute drop_drop drop_take)

lemma rd32_in:
  assumes "struct_is b S" "i + 4 \<le> length S"
  shows "rd32 b (unat (fdt_off_dt_struct b) + i) = Some (be32_dec (drop i S))"
proof -
  have "unat (fdt_off_dt_struct b) + i + 4 \<le> length b" using assms by (simp add: struct_is_def)
  moreover have "be32_dec (drop (unat (fdt_off_dt_struct b) + i) b) = be32_dec (drop i S)"
    using struct_drop [OF assms(1), of i] be32_dec_take [of "length S - i" "drop (unat (fdt_off_dt_struct b) + i) b"] assms(2) by simp
  ultimately show ?thesis by (simp add: rd32_def)
qed

lemma rd8_in:
  assumes "struct_is b S" "i < length S"
  shows "rd8 b (unat (fdt_off_dt_struct b) + i) = Some (S ! i)"
proof -
  have l: "unat (fdt_off_dt_struct b) + i < length b" using assms by (simp add: struct_is_def)
  have "S ! i = take (length S) (drop (unat (fdt_off_dt_struct b)) b) ! i" using assms(1) by (simp add: struct_is_def)
  also have "\<dots> = b ! (unat (fdt_off_dt_struct b) + i)" using assms(2) l by simp
  finally show ?thesis using l by (simp add: rd8_def)
qed

lemma struct_len: "struct_is b S \<Longrightarrow> length S < 2 ^ 31"
  by (simp add: struct_is_def)

section \<open>Tags\<close>

lemma skip_name_in:
  assumes "struct_is b (pre @ s @ NUL # post)" "NUL \<notin> set s"
  shows "skip_name b (int (length pre)) = Some (Some (int (length pre + length s + 1)))"
  using assms
proof (induction s arbitrary: pre)
  case Nil
  have "fdt_offset_ptr b (int (length pre)) 1 = Some (unat (fdt_off_dt_struct b) + length pre)"
    by (rule offset_ptr_in [OF Nil(1)]) simp
  moreover have "rd8 b (unat (fdt_off_dt_struct b) + length pre) = Some NUL"
    using rd8_in [OF Nil(1), of "length pre"] by simp
  moreover have "int (length pre) < INT_MAX" using struct_len [OF Nil(1)] by simp
  ultimately show ?case by (subst skip_name.simps) simp
next
  case (Cons c s)
  have st: "struct_is b ((pre @ [c]) @ s @ NUL # post)" using Cons.prems(1) by simp
  have "fdt_offset_ptr b (int (length pre)) 1 = Some (unat (fdt_off_dt_struct b) + length pre)"
    by (rule offset_ptr_in [OF Cons.prems(1)]) simp
  moreover have "rd8 b (unat (fdt_off_dt_struct b) + length pre) = Some c"
    using rd8_in [OF Cons.prems(1), of "length pre"] by simp
  moreover have "int (length pre) < INT_MAX" using struct_len [OF Cons.prems(1)] by simp
  moreover have "skip_name b (int (length pre) + 1) = Some (Some (int (length pre + length (c # s) + 1)))"
    using Cons.IH [OF st] Cons.prems(2) by (simp add: add.commute)
  ultimately show ?case using Cons.prems(2) by (subst skip_name.simps) auto
qed

lemma align_sum: "4 dvd a \<Longrightarrow> FDT_TAGALIGN (int (a + r)) = int (a + (r + pad4 r))"
proof -
  assume "4 dvd a"
  then have "pad4 (a + r) = pad4 r" by (auto simp: pad4_def mod_simps elim!: dvdE)
  then show ?thesis using pad4_align [of "a + r"] by simp
qed

fun tok_tag :: "fdt_tok \<Rightarrow> u32" where
  "tok_tag (TBegin s) = FDT_BEGIN_NODE"
| "tok_tag TEnd = FDT_END_NODE"
| "tok_tag (TProp s v) = FDT_PROP"

lemma leave_in:
  assumes "struct_is b S" "i + m \<le> length S"
  shows "fdt_offset_ptr b (int i) (of_int (int (i + m) - int i)) \<noteq> None"
proof -
  have "unat (of_int (int (i + m) - int i) :: u32) = m" using struct_len [OF assms(1)] assms(2) by (simp add: unat_of_nat_less)
  then show ?thesis using offset_ptr_in [OF assms(1), of i] assms(2) by simp
qed

lemma tag_in:
  assumes "struct_is b (pre @ be32 tag @ post)"
  shows "fdt_offset_ptr b (int (length pre)) 4 = Some (unat (fdt_off_dt_struct b) + length pre)"
    "rd32 b (unat (fdt_off_dt_struct b) + length pre) = Some tag"
proof -
  show "fdt_offset_ptr b (int (length pre)) 4 = Some (unat (fdt_off_dt_struct b) + length pre)"
    by (rule offset_ptr_in [OF assms]) simp
  show "rd32 b (unat (fdt_off_dt_struct b) + length pre) = Some tag"
    using rd32_in [OF assms, of "length pre"] by simp
qed

lemma next_tag_begin:
  assumes "struct_is b (pre @ enc_tok (TBegin s, k) @ post)" "4 dvd length pre" "NUL \<notin> set s"
  shows "fdt_next_tag b (int (length pre)) = Some (FDT_BEGIN_NODE, int (length pre + length (enc_tok (TBegin s, k))))"
proof -
  have st: "struct_is b (pre @ be32 FDT_BEGIN_NODE @ s @ NUL # replicate (pad4 (length s + 1)) NUL @ post)" using assms(1) by simp
  then have "struct_is b ((pre @ be32 FDT_BEGIN_NODE) @ s @ NUL # replicate (pad4 (length s + 1)) NUL @ post)" by simp
  from skip_name_in [OF this assms(3)]
  have sk: "skip_name b (int (length pre) + 4) = Some (Some (int (length pre + (4 + (length s + 1)))))" by (simp add: add.commute add.left_commute)
  have lv: "fdt_offset_ptr b (int (length pre)) (of_int (int (length pre + (4 + (length s + 1))) - int (length pre))) \<noteq> None"
    by (rule leave_in [OF st]) simp
  have "4 dvd length pre + 4" using assms(2) by simp
  from align_sum [OF this, of "length s + 1"]
  have al: "FDT_TAGALIGN (int (length pre + (4 + (length s + 1)))) = int (length pre + length (enc_tok (TBegin s, k)))"
    by (simp add: add.commute add.left_commute)
  show ?thesis unfolding fdt_next_tag_def tag_in [OF st] option.case Let_def
    using tag_in(2) [OF st] sk lv al by (simp del: of_nat_add)
qed

lemma next_tag_cell:
  assumes "struct_is b (pre @ be32 tag @ post)" "4 dvd length pre" "tag \<in> {FDT_END_NODE, FDT_END}"
  shows "fdt_next_tag b (int (length pre)) = Some (tag, int (length pre + 4))"
proof -
  have lv: "fdt_offset_ptr b (int (length pre)) (of_int (int (length pre + 4) - int (length pre))) \<noteq> None"
    by (rule leave_in [OF assms(1)]) simp
  have "4 dvd length pre + 4" using assms(2) by simp
  from align_sum [OF this, of 0] have al: "FDT_TAGALIGN (int (length pre) + 4) = int (length pre + 4)" by (simp add: pad4_def)
  show ?thesis unfolding fdt_next_tag_def tag_in [OF assms(1)] option.case Let_def
    using tag_in(2) [OF assms(1)] lv al assms(3) by auto
qed

lemma next_tag_prop:
  assumes "struct_is b (pre @ enc_tok (TProp s v, k) @ post)" "4 dvd length pre"
  shows "fdt_next_tag b (int (length pre)) = Some (FDT_PROP, int (length pre + length (enc_tok (TProp s v, k))))"
proof -
  let ?p = "length pre" and ?rest = "be32 (name_off k) @ v @ filler (length v) k @ post"
  have st: "struct_is b (pre @ be32 FDT_PROP @ be32 (of_nat (length v)) @ ?rest)" using assms(1) by simp
  then have st2: "struct_is b ((pre @ be32 FDT_PROP) @ be32 (of_nat (length v)) @ ?rest)" by simp
  have len: "?p + 12 + length v < 2 ^ 31" using struct_len [OF st] by simp
  have l: "fdt_offset_ptr b (int ?p + 4) 4 = Some (unat (fdt_off_dt_struct b) + (?p + 4))"
      "rd32 b (unat (fdt_off_dt_struct b) + (?p + 4)) = Some (of_nat (length v))"
    using tag_in [OF st2] by (simp_all add: add.commute)
  have uv: "uint (of_nat (length v) :: u32) = int (length v)" using len by (simp add: unat_of_nat_less uint_nat)
  have tot: "(of_nat (length v) :: u32) + of_int (int ?p + 4) = of_nat (length v + ?p + 4)" by simp
  have ut: "uint (of_nat (length v + ?p + 4) :: u32) = int (length v + ?p + 4)"
    unfolding uint_nat by (subst unat_of_nat_less) (use len in simp_all)
  have nov: "\<not> (of_nat (length v + ?p + 4) :: u32) < of_int (int ?p + 4)"
  proof -
    have "(of_int (int ?p + 4) :: u32) = of_nat (?p + 4)" by simp
    moreover have "\<not> (of_nat (length v + ?p + 4) :: u32) < of_nat (?p + 4)"
      using len by (subst of_nat_less32) simp_all
    ultimately show ?thesis by metis
  qed
  have off: "sint (of_int (int ?p + 4 + 8 + int (length v)) :: u32) = int (?p + (12 + length v))"
    unfolding signed_of_int using len by (simp add: signed_take_bit_int_eq_self)
  have lv: "fdt_offset_ptr b (int ?p) (of_int (int (?p + (12 + length v)) - int ?p)) \<noteq> None" by (rule leave_in [OF st]) simp
  have "4 dvd ?p + 12" using assms(2) by (simp add: dvd_add)
  from align_sum [OF this, of "length v"]
  have al: "FDT_TAGALIGN (int (?p + (12 + length v))) = int (?p + length (enc_tok (TProp s v, k)))" by (simp add: add.assoc)
  have ver: "fdt_version b = 17" using st by (simp add: struct_is_def)
  show ?thesis unfolding fdt_next_tag_def tag_in [OF st] option.case Let_def
    using l tot ut nov off lv al ver uv len by (simp del: of_nat_add add: tag_in(2) [OF st])
qed


section \<open>Finishing\<close>

text \<open>A header for a structure block of \<open>l\<close> bytes that starts at 64, with \<open>m\<close> bytes behind it.\<close>

definition walk_hdr :: "u32 list \<Rightarrow> nat \<Rightarrow> nat \<Rightarrow> bool" where
  "walk_hdr hs l m \<longleftrightarrow> length hs = 10 \<and> hs ! 5 = 17 \<and> hs ! 2 = 64 \<and> unat (hs ! 9) = l \<and> 64 + l \<le> unat (hs ! 1) \<and>
     unat (hs ! 1) \<le> 64 + l + m \<and> unat (hs ! 1) < 2 ^ 31"

lemma struct_is_mk:
  assumes "walk_hdr hs (length S) (length rest)"
  shows "struct_is (mk_blob hs (replicate 24 NUL @ S @ rest)) S"
proof -
  have l: "length hs = 10" using assms by (simp add: walk_hdr_def)
  have "drop 64 (mk_blob hs (replicate 24 NUL @ S @ rest)) = S @ rest"
    using l by (simp add: mk_blob_def)
  then show ?thesis using assms l by (simp add: struct_is_def walk_hdr_def)
qed

definition move_off :: "u32 \<Rightarrow> extra \<Rightarrow> extra" where
  "move_off d k = Extra (name_off k + d) (fill k)"

lemma move_off_sel [simp]: "name_off (move_off d k) = name_off k + d" "filler n (move_off d k) = filler n k"
  by (simp_all add: move_off_def filler_def)

definition shift :: "u32 \<Rightarrow> (fdt_tok \<times> extra) list \<Rightarrow> (fdt_tok \<times> extra) list" where
  "shift d its = map (\<lambda>(t, k). (t, move_off d k)) its"

lemma shift_simps [simp]: "shift d [] = []" "shift d ((t, k) # its) = (t, move_off d k) # shift d its" "map fst (shift d its) = map fst its"
  by (auto simp: shift_def)

lemma length_enc_shift [simp]: "length (enc (shift d its)) = length (enc its)"
proof (induction its)
  case (Cons i its)
  obtain t k where "i = (t, k)" by fastforce
  with Cons show ?case by (cases t) simp_all
qed simp

lemma finish_walk_ok:
  assumes "walk_hdr hs (length pre + length (enc its) + 4) (length rest)" "4 dvd length pre" "list_all tok_ok (map fst its)"
  shows "finish_walk (int (length pre)) (mk_blob hs (replicate 24 NUL @ pre @ enc its @ be32 FDT_END @ rest)) =
    Some (int (length pre + length (enc its) + 4),
      mk_blob hs (replicate 24 NUL @ pre @ enc (shift (hs ! 8) its) @ be32 FDT_END @ rest))"
  using assms
proof (induction its arbitrary: pre)
  case Nil
  let ?b = "mk_blob hs (replicate 24 NUL @ (pre @ be32 FDT_END) @ rest)"
  have "struct_is ?b (pre @ be32 FDT_END @ [])" using struct_is_mk [of hs "pre @ be32 FDT_END" rest] Nil(1) by simp
  from next_tag_cell [OF this Nil(2)] have "fdt_next_tag ?b (int (length pre)) = Some (FDT_END, int (length pre + 4))" by simp
  then show ?case by (subst finish_walk.simps) simp
next
  case (Cons i its)
  obtain t k where i: "i = (t, k)" by fastforce
  have ok: "tok_ok t" "list_all tok_ok (map fst its)" using Cons.prems(3) i by simp_all
  let ?e = "enc_tok (t, k)" and ?e' = "enc_tok (t, move_off (hs ! 8) k)"
  let ?tail = "enc its @ be32 FDT_END" and ?b = "mk_blob hs (replicate 24 NUL @ (pre @ enc_tok (t, k) @ enc its @ be32 FDT_END) @ rest)"
  let ?b' = "mk_blob hs (replicate 24 NUL @ (pre @ ?e') @ enc its @ be32 FDT_END @ rest)"
  have le: "length ?e' = length ?e" by (cases t) simp_all
  have st: "struct_is ?b (pre @ ?e @ ?tail)" using struct_is_mk [of hs "pre @ ?e @ ?tail" rest] Cons.prems(1) i by (simp add: add.assoc)
  have ih: "finish_walk (int (length (pre @ ?e'))) ?b' =
      Some (int (length (pre @ ?e') + length (enc its) + 4),
        mk_blob hs (replicate 24 NUL @ (pre @ ?e') @ enc (shift (hs ! 8) its) @ be32 FDT_END @ rest))"
    by (rule Cons.IH) (use Cons.prems i ok le length_enc_tok_dvd [of "(t, move_off (hs ! 8) k)"] in \<open>simp_all add: add.assoc\<close>)
  have "finish_walk (int (length pre)) ?b = finish_walk (int (length pre + length ?e)) ?b'"
  proof (cases t)
    case (TProp s v)
    let ?p = "64 + length pre + 8"
    have n: "fdt_next_tag ?b (int (length pre)) = Some (FDT_PROP, int (length pre + length ?e))"
      using next_tag_prop [of b pre s v k ?tail for b] st Cons.prems(2) TProp by metis
    have l: "length hs = 10" "hs ! 2 = 64" using Cons.prems(1) by (simp_all add: walk_hdr_def)
    let ?pre2 = "replicate 24 NUL @ pre @ be32 FDT_PROP @ be32 (of_nat (length v))"
      and ?post = "v @ filler (length v) k @ enc its @ be32 FDT_END @ rest"
    have b: "?b = mk_blob hs (?pre2 @ be32 (name_off k) @ ?post)" "?b' = mk_blob hs (?pre2 @ be32 (name_off k + hs ! 8) @ ?post)" using TProp by simp_all
    have "drop ?p ?b = be32 (name_off k) @ ?post" unfolding b(1) using l(1) by (simp add: mk_blob_def)
    then have "rd32 ?b ?p = Some (name_off k)" unfolding rd32_def using l(1) TProp by simp
    moreover have "wr ?b ?p (be32 (name_off k + hs ! 8)) = Some ?b'" unfolding b by (rule wr_mk_blob) (use l in simp_all)
    moreover have "fdt_off_dt_struct ?b = 64" "fdt_size_dt_strings ?b = hs ! 8" using l by simp_all
    ultimately show ?thesis using n by (subst finish_walk.simps) simp
  next
    case (TBegin s)
    have "fdt_next_tag ?b (int (length pre)) = Some (FDT_BEGIN_NODE, int (length pre + length ?e))"
      using next_tag_begin [of b pre s k ?tail for b] st Cons.prems(2) ok(1) TBegin by (metis tok_ok.simps(1))
    then show ?thesis using TBegin by (subst finish_walk.simps) simp
  next
    case TEnd
    have "fdt_next_tag ?b (int (length pre)) = Some (FDT_END_NODE, int (length pre + 4))"
      using next_tag_cell [of ?b pre FDT_END_NODE ?tail] st Cons.prems(2) TEnd by simp
    then show ?thesis using TEnd by (subst finish_walk.simps) simp
  qed
  then show ?case using ih le i by (simp add: add.assoc)
qed


text \<open>A finished blob: the tokens, the strings and what is left of the buffer, in two parts: the room that
  belongs to the total size of the blob, and what is behind it.\<close>

definition fdt_final :: "(fdt_tok \<times> extra) list \<Rightarrow> char list \<Rightarrow> char list \<times> char list \<Rightarrow> blob" where
  "fdt_final its strs rest =
     (let s = length (enc its) + 4; t = length strs
      in mk_blob [FDT_MAGIC, of_nat (64 + s + t + length (fst rest)), 64, of_nat (64 + s), 48, 17, 16, 0, of_nat t, of_nat s]
           (replicate 24 NUL @ (enc its @ be32 FDT_END) @ strs @ fst rest @ snd rest))"

lemma finish_sw:
  assumes "sw_fits n its strs" "list_all tok_ok (map fst its)"
  shows "\<exists>rest. fdt_finish (sw_image n its strs) =
    (if sw_room n its strs 4 then Some (0, fdt_final (shift (of_nat (length strs)) its) strs ([], rest))
     else Some (- FDT_ERR_NOSPACE, sw_image n its strs)) \<and> length rest = n - 64 - (length (enc its) + 4) - length strs"
proof (cases "sw_room n its strs 4")
  case False
  have "(4 :: nat) < 2 ^ 62" by simp
  note g = grab_sw [OF assms(1) this]
  have "fdt_finish (sw_image n its strs) = Some (- FDT_ERR_NOSPACE, sw_image n its strs)"
    using g False by (simp add: fdt_finish_def sw_room_def)
  then show ?thesis using False by (auto intro: exI [of _ "replicate k NUL" for k])
next
  case True
  let ?S = "length (enc its) + 4" and ?T = "length strs" and ?pre = "replicate 24 NUL @ enc its"
  let ?z = "replicate (n - 64 - ?S - ?T) NUL"
  have b: "64 + ?S + ?T \<le> n" "n < 2 ^ 31" using assms(1) True by (simp_all add: sw_fits_def sw_room_def)
  have "(4 :: nat) < 2 ^ 62" by simp
  note g = grab_sw [OF assms(1) this]
  let ?b2 = "mk_blob (sw_hdr n ?S ?T) (?pre @ be32 FDT_END @ ?z @ strs)"
  have "fdt_set_size_dt_struct (of_nat ?S) (sw_image n its strs) = mk_blob (sw_hdr n ?S ?T) (?pre @ replicate 4 NUL @ ?z @ strs)"
    unfolding sw_image_hdr sw_hdr_struct sw_zeros [OF True] by simp
  moreover have "wr (mk_blob (sw_hdr n ?S ?T) (?pre @ replicate 4 NUL @ ?z @ strs)) (64 + length (enc its)) (be32 FDT_END) = Some ?b2"
    by (rule wr_mk_blob) simp_all
  ultimately have w1: "fdt_grab_space (sw_image n its strs) 4 = (Some (64 + length (enc its)), mk_blob (sw_hdr n ?S ?T) (?pre @ replicate 4 NUL @ ?z @ strs))"
      "wr (mk_blob (sw_hdr n ?S ?T) (?pre @ replicate 4 NUL @ ?z @ strs)) (64 + length (enc its)) (be32 FDT_END) = Some ?b2"
    using g True by (simp_all add: sw_room_def)
  have h: "unat (fdt_size_dt_strings ?b2) = ?T" "unat (fdt_totalsize ?b2) = n" "unat (fdt_off_dt_struct ?b2) = 64"
      "unat (fdt_size_dt_struct ?b2) = ?S"
    using b by (simp_all add: sw_hdr_def unat_of_nat_less del: of_nat_add)
  have tl: "take ?T (drop (n - ?T) ?b2) = strs"
  proof -
    have "?b2 = (concat (map be32 (sw_hdr n ?S ?T)) @ ?pre @ be32 FDT_END @ ?z) @ strs" by (simp add: mk_blob_def)
    moreover have "length (concat (map be32 (sw_hdr n ?S ?T)) @ ?pre @ be32 FDT_END @ ?z) = n - ?T" using b by simp
    ultimately show ?thesis by simp
  qed
  let ?old = "take ?T (?z @ strs)" and ?rest = "drop ?T (?z @ strs)"
  let ?b3 = "mk_blob (sw_hdr n ?S ?T) ((?pre @ be32 FDT_END) @ strs @ ?rest)"
  have w2: "wr ?b2 (64 + ?S) strs = Some ?b3"
  proof -
    have "?b2 = mk_blob (sw_hdr n ?S ?T) ((?pre @ be32 FDT_END) @ ?old @ ?rest)"
      by (simp only: append_take_drop_id append.assoc)
    moreover have "length ?old = length strs" by simp
    ultimately show ?thesis using wr_mk_blob [of "sw_hdr n ?S ?T" "64 + ?S" "?pre @ be32 FDT_END" strs ?old ?rest] by simp
  qed
  let ?hs = "(sw_hdr n ?S ?T)[3 := of_nat (64 + ?S)]"
  have b4: "fdt_set_off_dt_strings (of_nat (64 + ?S)) ?b3 = mk_blob ?hs (replicate 24 NUL @ [] @ enc its @ be32 FDT_END @ strs @ ?rest)"
    by simp
  have wh: "walk_hdr ?hs (length ([] :: char list) + length (enc its) + 4) (length (strs @ ?rest))"
    using b by (simp add: walk_hdr_def sw_hdr_def unat_of_nat_less del: of_nat_add)
  have d8: "?hs ! 8 = of_nat ?T" by (simp add: sw_hdr_def)
  from finish_walk_ok [OF wh _ assms(2)]
  have fw: "finish_walk 0 (mk_blob ?hs (replicate 24 NUL @ [] @ enc its @ be32 FDT_END @ strs @ ?rest)) =
      Some (int ?S, mk_blob ?hs (replicate 24 NUL @ [] @ enc (shift (of_nat ?T) its) @ be32 FDT_END @ strs @ ?rest))"
    unfolding d8 by simp
  let ?b5 = "mk_blob ?hs (replicate 24 NUL @ [] @ enc (shift (of_nat ?T) its) @ be32 FDT_END @ strs @ ?rest)"
  have fin: "fdt_set_magic FDT_MAGIC (fdt_set_last_comp_version 16
      (fdt_set_totalsize (of_nat (64 + ?S) + fdt_size_dt_strings ?b5) ?b5)) = fdt_final (shift (of_nat ?T) its) strs ([], ?rest)"
    by (simp add: fdt_final_def sw_hdr_def Let_def)
  have "fdt_finish (sw_image n its strs) = Some (0, fdt_final (shift (of_nat ?T) its) strs ([], ?rest))"
    unfolding fdt_finish_def Let_def probe_sw w1(1) prod.case option.case w1(2) h
    using h tl w2 b4 fw fin
    by (simp del: of_nat_add append_Nil drop_append set_mk_blob get_mk_blob)
  then show ?thesis using True b by (intro exI [of _ ?rest]) simp
qed


section \<open>Reading back\<close>

text \<open>The tokens of a blob from an offset on, read with the functions of \<open>libfdt\<close>; \<open>n\<close> bounds the
  number of tags.\<close>

fun fdt_dump :: "nat \<Rightarrow> blob \<Rightarrow> int \<Rightarrow> fdt_tok list option" where
  "fdt_dump 0 b off = None"
| "fdt_dump (Suc n) b off =
     do { (tag, next) \<leftarrow> fdt_next_tag b off;
          if tag = FDT_END then (if 0 \<le> next then Some [] else None)
          else
            do { t \<leftarrow> (if tag = FDT_BEGIN_NODE
                      then do { r \<leftarrow> fdt_get_name b off; case r of Inl _ \<Rightarrow> None | Inr s \<Rightarrow> Some [TBegin s] }
                      else if tag = FDT_END_NODE then Some [TEnd]
                      else if tag = FDT_PROP
                      then do { pr \<leftarrow> load_prop b off;
                                nm \<leftarrow> fdt_string b (sint (prop_nameoff pr));
                                case nm of
                                  None \<Rightarrow> None
                                | Some s \<Rightarrow> Some [TProp s (take (unat (prop_len pr)) (drop (prop_data pr) b))] }
                      else Some []);
                 ts \<leftarrow> fdt_dump n b next;
                 Some (t @ ts) } }"

definition fdt_tokens :: "blob \<Rightarrow> fdt_tok list option" where
  "fdt_tokens b = fdt_dump (length b) b 0"

definition final_ok :: "(fdt_tok \<times> extra) list \<Rightarrow> char list \<Rightarrow> char list \<times> char list \<Rightarrow> bool" where
  "final_ok its strs rest \<longleftrightarrow> 68 + length (enc its) + length strs + length (fst rest) < 2147483647"

lemma final_struct: "final_ok its strs rest \<Longrightarrow> struct_is (fdt_final its strs rest) (enc its @ be32 FDT_END)"
  unfolding fdt_final_def Let_def
  by (rule struct_is_mk) (simp add: walk_hdr_def final_ok_def unat_of_nat_less del: of_nat_add)

lemma final_fields:
  fixes its strs rest
  defines "b \<equiv> fdt_final its strs rest"
  shows "fdt_magic b = FDT_MAGIC" "fdt_totalsize b = of_nat (68 + length (enc its) + length strs + length (fst rest))" "fdt_off_dt_struct b = 64"
    "fdt_off_dt_strings b = of_nat (68 + length (enc its))" "fdt_off_mem_rsvmap b = 48" "fdt_version b = 17"
    "fdt_last_comp_version b = 16" "fdt_size_dt_strings b = of_nat (length strs)" "fdt_size_dt_struct b = of_nat (length (enc its) + 4)"
  by (simp_all add: b_def fdt_final_def Let_def)

lemma final_header:
  assumes "final_ok its strs rest"
  shows "fdt_check_header (fdt_final its strs rest) = 0"
    "fdt_ro_probe (fdt_final its strs rest) = int (68 + length (enc its) + length strs + length (fst rest))"
proof -
  define x t g where "x = 68 + length (enc its)" and "t = length strs" and "g = length (fst rest)"
  have b: "x + t + g < 2147483647" "68 \<le> x" using assms by (simp_all add: final_ok_def x_def t_def g_def)
  have u: "unat (of_nat (x + t + g) :: u32) = x + t + g" "unat (of_nat (x + t) :: u32) = x + t" "unat (of_nat x :: u32) = x" "unat (of_nat t :: u32) = t"
    by (rule unat_of_nat_less, use b in simp)+
  have s1: "(64 :: u32) + of_nat (length (enc its) + 4) = of_nat x" by (simp add: x_def)
  have s2: "(of_nat x :: u32) + of_nat t = of_nat (x + t)" by simp
  note f = final_fields [of its strs rest, folded x_def t_def g_def]
  have c: "fdt_header_size 17 = 40" by (simp add: fdt_header_size_def word_le_nat_alt)
  show "fdt_check_header (fdt_final its strs rest) = 0"
    unfolding fdt_check_header_def Let_def f c check_block_def check_off_def s1 s2 word_less_nat_alt word_le_nat_alt u uint_nat
    using b by simp
  show "fdt_ro_probe (fdt_final its strs rest) = int (68 + length (enc its) + length strs + length (fst rest))"
    unfolding fdt_ro_probe_def Let_def f uint_nat u x_def [symmetric] t_def [symmetric] g_def [symmetric] using b by simp
qed

lemma final_drop: "drop 64 (fdt_final its strs rest) = enc its @ be32 FDT_END @ strs @ fst rest @ snd rest"
  by (simp add: fdt_final_def Let_def mk_blob_def)

lemma length_final: "length (fdt_final its strs rest) = 68 + length (enc its) + length strs + length (fst rest) + length (snd rest)"
  by (simp add: fdt_final_def Let_def)

lemma final_name:
  assumes "final_ok its strs rest" "strs = pre @ s @ NUL # post" "NUL \<notin> set s"
  shows "fdt_string (fdt_final its strs rest) (sint (of_nat (length pre) :: u32)) = Some (Some s)"
proof -
  let ?b = "fdt_final its strs rest"
  define x t p g where "x = 68 + length (enc its)" and "t = length strs" and "p = length pre" and "g = length (fst rest)"
  have b: "x + t + g < 2147483647" using assms by (simp add: final_ok_def x_def t_def g_def)
  have T: "t = p + (length s + 1 + length post)" using assms(2) by (simp add: t_def p_def)
  have o: "sint (of_nat p :: u32) = int p"
    using b T signed_of_int [of "int p", where ?'b = 32 and ?'a = int] by (simp add: signed_take_bit_int_eq_self)
  note f = final_fields [of its strs rest, folded x_def t_def g_def]
  have a: "of_int (int p) + (of_nat x :: u32) = of_nat (p + x)" by simp
  have u: "unat (of_nat (p + x) :: u32) = p + x" "unat (of_nat t :: u32) = t" "unat (of_int (int p) :: u32) = p"
    unfolding of_int_of_nat_eq by (rule unat_of_nat_less, use b T in simp)+
  have df: "unat ((of_nat t :: u32) - of_int (int p)) = t - p"
  proof -
    have "(of_nat t :: u32) - of_int (int p) = of_nat (t - p)" using T by (simp add: of_nat_diff)
    moreover have "unat (of_nat (t - p) :: u32) = t - p" by (rule unat_of_nat_less) (use b in simp)
    ultimately show ?thesis by metis
  qed
  have "drop (p + x) ?b = drop (p + (length (enc its) + 4)) (drop 64 ?b)" by (simp add: x_def add.commute add.left_commute)
  also have "\<dots> = s @ NUL # post @ fst rest @ snd rest" unfolding final_drop assms(2) by (simp add: p_def add.commute)
  finally have dr: "take (t - p) (drop (p + x) ?b) = s @ NUL # post" using T by simp
  have len: "\<not> length ?b < p + x + (t - p)" using T by (simp add: length_final x_def t_def)
  have pr: "fdt_ro_probe ?b = int (x + t + g)" using final_header(2) [OF assms(1)] by (simp add: x_def t_def g_def)
  define d where "d = t - p"
  have mn: "min (int t + (int g - int p)) (int d) = int d" using T by (simp add: d_def)
  have "p < t" "int p < int t" using T by simp_all
  then have "fdt_get_string ?b (int p) = Some (Inr s)"
    unfolding fdt_get_string_def Let_def pr f a word_le_nat_alt uint_nat u df d_def [symmetric]
    using dr len by (simp add: mn cstr_terminated [OF assms(3)] d_def [symmetric])
  then show ?thesis by (simp add: fdt_string_def p_def [symmetric] o)
qed


lemma load_prop_in:
  assumes "struct_is b (pre @ enc_tok (TProp s v, k) @ post)"
  shows "load_prop b (int (length pre)) = Some \<lparr>prop_len = of_nat (length v), prop_nameoff = name_off k,
      prop_data = unat (fdt_off_dt_struct b) + length pre + 12\<rparr>"
    "take (length v) (drop (unat (fdt_off_dt_struct b) + length pre + 12) b) = v"
    "unat (of_nat (length v) :: u32) = length v"
proof -
  let ?o = "unat (fdt_off_dt_struct b)" and ?p = "length pre" and ?pad = "filler (length v) k"
  let ?S = "pre @ enc_tok (TProp s v, k) @ post"
  have 1: "rd32 b (?o + (?p + 4)) = Some (of_nat (length v))" "rd32 b (?o + (?p + 8)) = Some (name_off k)"
    using rd32_in [OF assms, of "?p + 4"] rd32_in [OF assms, of "?p + 8"] by simp_all
  then show "load_prop b (int ?p) = Some \<lparr>prop_len = of_nat (length v), prop_nameoff = name_off k, prop_data = ?o + ?p + 12\<rparr>"
    by (simp add: load_prop_def Let_def add.assoc)
  have d: "drop (?p + 12) ?S = v @ ?pad @ post" by simp
  have le: "?p + 12 + length v \<le> length ?S" by simp
  have "take (length ?S - (?p + 12)) (drop (?o + (?p + 12)) b) = v @ ?pad @ post"
    using struct_drop [OF assms, of "?p + 12"] d by simp
  then have "take (length v) (take (length ?S - (?p + 12)) (drop (?o + (?p + 12)) b)) = v" by simp
  then show "take (length v) (drop (?o + ?p + 12) b) = v" by (simp add: min_def add.assoc)
  show "unat (of_nat (length v) :: u32) = length v" by (rule unat_of_nat_less) (use struct_len [OF assms] in simp)
qed

text \<open>The names of properties, by their offset from the start of the strings.\<close>

definition names_ok :: "char list \<Rightarrow> (fdt_tok \<times> extra) list \<Rightarrow> bool" where
  "names_ok strs its \<longleftrightarrow>
     (\<forall>s v k. (TProp s v, k) \<in> set its \<longrightarrow> (\<exists>pre post. strs = pre @ s @ NUL # post \<and> name_off k = of_nat (length pre)))"

lemma names_ok_shift: "refs_ok strs its \<Longrightarrow> names_ok strs (shift (of_nat (length strs)) its)"
  unfolding names_ok_def
proof (intro allI impI)
  fix s v k
  assume r: "refs_ok strs its" and "(TProp s v, k) \<in> set (shift (of_nat (length strs)) its)"
  then obtain k0 where k: "(TProp s v, k0) \<in> set its" "name_off k = name_off k0 + of_nat (length strs)" by (auto simp: shift_def)
  then obtain pre post where p: "strs = pre @ s @ NUL # post" "name_off k0 = - of_nat (length s + 1 + length post)"
    using r unfolding refs_ok_def name_ref_def by blast
  have "name_off k = of_nat (length pre)" unfolding k(2) p(2) by (simp add: p(1))
  then show "\<exists>pre post. strs = pre @ s @ NUL # post \<and> name_off k = of_nat (length pre)" using p(1) by blast
qed

text \<open>What the reader finds at a token of a finished blob.\<close>

lemma final_at:
  assumes "final_ok (pre @ (t, k) # its) strs rest"
  shows "struct_is (fdt_final (pre @ (t, k) # its) strs rest) (enc pre @ enc_tok (t, k) @ enc its @ be32 FDT_END)"
  using final_struct [OF assms] by simp

lemma final_begin:
  assumes "final_ok (pre @ (TBegin s, k) # its) strs rest" "tok_ok (TBegin s)"
  shows "fdt_next_tag (fdt_final (pre @ (TBegin s, k) # its) strs rest) (int (length (enc pre))) =
      Some (FDT_BEGIN_NODE, int (length (enc (pre @ [(TBegin s, k)]))))"
    "fdt_get_name (fdt_final (pre @ (TBegin s, k) # its) strs rest) (int (length (enc pre))) = Some (Inr s)"
proof -
  let ?b = "fdt_final (pre @ (TBegin s, k) # its) strs rest" and ?e = "enc_tok (TBegin s, k)"
  have nt: "fdt_next_tag ?b (int (length (enc pre))) = Some (FDT_BEGIN_NODE, int (length (enc pre) + length ?e))"
    by (rule next_tag_begin [OF final_at [OF assms(1)] length_enc_dvd]) (use assms(2) in simp)
  then show "fdt_next_tag ?b (int (length (enc pre))) = Some (FDT_BEGIN_NODE, int (length (enc (pre @ [(TBegin s, k)]))))" by simp
  have "fdt_check_node_offset ?b (int (length (enc pre))) = Some (int (length (enc pre) + length ?e))"
    using nt length_enc_dvd [of pre] by (simp add: fdt_check_node_offset_def) presburger
  moreover have "cstr (drop (64 + length (enc pre) + 4) ?b) = Some s"
  proof -
    have "drop (64 + length (enc pre) + 4) ?b = drop (length (enc pre) + 4) (drop 64 ?b)" by (simp add: add.commute add.left_commute)
    also have "\<dots> = s @ NUL # replicate (pad4 (length s + 1)) NUL @ enc its @ be32 FDT_END @ strs @ fst rest @ snd rest"
      unfolding final_drop by simp
    finally show ?thesis using assms(2) by (simp add: cstr_terminated)
  qed
  moreover have "unat (fdt_off_dt_struct ?b) = 64" by (simp add: final_fields)
  ultimately show "fdt_get_name ?b (int (length (enc pre))) = Some (Inr s)"
    using final_header(2) [OF assms(1)] by (simp add: fdt_get_name_def final_fields)
qed

lemma final_end:
  assumes "final_ok (pre @ (TEnd, k) # its) strs rest"
  shows "fdt_next_tag (fdt_final (pre @ (TEnd, k) # its) strs rest) (int (length (enc pre))) =
      Some (FDT_END_NODE, int (length (enc (pre @ [(TEnd, k)]))))"
  using next_tag_cell [of "fdt_final (pre @ (TEnd, k) # its) strs rest" "enc pre" FDT_END_NODE "enc its @ be32 FDT_END"]
    final_at [OF assms] length_enc_dvd [of pre] by simp

lemma final_stop:
  assumes "final_ok pre strs rest"
  shows "fdt_next_tag (fdt_final pre strs rest) (int (length (enc pre))) = Some (FDT_END, int (length (enc pre) + 4))"
proof -
  have "struct_is (fdt_final pre strs rest) (enc pre @ be32 FDT_END @ [])" using final_struct [OF assms] by simp
  from next_tag_cell [OF this length_enc_dvd] show ?thesis by simp
qed

lemma final_prop:
  assumes "final_ok (pre @ (TProp s v, k) # its) strs rest" "tok_ok (TProp s v)" "names_ok strs [(TProp s v, k)]"
    and b_def: "b = fdt_final (pre @ (TProp s v, k) # its) strs rest"
  shows "fdt_next_tag b (int (length (enc pre))) = Some (FDT_PROP, int (length (enc (pre @ [(TProp s v, k)]))))"
    "load_prop b (int (length (enc pre))) = Some \<lparr>prop_len = of_nat (length v), prop_nameoff = name_off k, prop_data = 64 + length (enc pre) + 12\<rparr>"
    "take (length v) (drop (64 + length (enc pre) + 12) b) = v" "unat (of_nat (length v) :: u32) = length v"
    "fdt_string b (sint (name_off k)) = Some (Some s)"
proof -
  have st: "struct_is b (enc pre @ enc_tok (TProp s v, k) @ enc its @ be32 FDT_END)" unfolding b_def by (rule final_at [OF assms(1)])
  show "fdt_next_tag b (int (length (enc pre))) = Some (FDT_PROP, int (length (enc (pre @ [(TProp s v, k)]))))"
    using next_tag_prop [OF st length_enc_dvd] by simp
  have o: "unat (fdt_off_dt_struct b) = 64" by (simp add: b_def final_fields)
  show "load_prop b (int (length (enc pre))) = Some \<lparr>prop_len = of_nat (length v), prop_nameoff = name_off k, prop_data = 64 + length (enc pre) + 12\<rparr>"
    "take (length v) (drop (64 + length (enc pre) + 12) b) = v" "unat (of_nat (length v) :: u32) = length v"
    using load_prop_in [OF st] unfolding o by simp_all
  obtain p1 p2 where p: "strs = p1 @ s @ NUL # p2" "name_off k = of_nat (length p1)" using assms(3) by (auto simp: names_ok_def)
  show "fdt_string b (sint (name_off k)) = Some (Some s)" unfolding b_def using final_name [OF assms(1) p(1)] assms(2) p(2) by simp
qed

lemma names_ok_Cons: "names_ok strs (i # its) \<longleftrightarrow> names_ok strs [i] \<and> names_ok strs its"
  by (auto simp: names_ok_def)

lemma dump_final:
  assumes "final_ok (pre @ its) strs rest" "list_all tok_ok (map fst its)" "names_ok strs its" "length its < n"
  shows "fdt_dump n (fdt_final (pre @ its) strs rest) (int (length (enc pre))) = Some (map fst its)"
  using assms
proof (induction its arbitrary: pre n)
  case Nil
  then obtain m where n: "n = Suc m" by (cases n) auto
  show ?case using final_stop [of pre strs rest] Nil(1) by (simp add: n)
next
  case (Cons i its)
  obtain m where n: "n = Suc m" "length its < m" using Cons.prems(4) by (cases n) auto
  obtain t k where i: "i = (t, k)" by (rule prod.exhaust)
  let ?b = "fdt_final (pre @ (t, k) # its) strs rest"
  have fo: "final_ok (pre @ (t, k) # its) strs rest" using Cons.prems(1) i by simp
  have ok: "tok_ok t" "list_all tok_ok (map fst its)" "names_ok strs its" "names_ok strs [(t, k)]"
    using Cons.prems(2,3) i names_ok_Cons [of strs i its] by simp_all
  have ih: "fdt_dump m ?b (int (length (enc (pre @ [(t, k)])))) = Some (map fst its)"
    using Cons.IH [of "pre @ [i]" m] Cons.prems(1) ok(2,3) n(2) i by simp
  show ?case
  proof (cases t)
    case (TBegin s)
    show ?thesis using final_begin [OF fo [unfolded TBegin] ok(1) [unfolded TBegin]] ih TBegin n(1) i
      by (simp del: enc_tok.simps of_nat_add)
  next
    case TEnd
    show ?thesis using final_end [OF fo [unfolded TEnd]] ih TEnd n(1) i by (simp del: enc_tok.simps of_nat_add)
  next
    case (TProp s v)
    define b where "b = fdt_final (pre @ (TProp s v, k) # its) strs rest"
    define q where "q = int (length (enc pre))"
    define r where "r = int (length (enc (pre @ [(TProp s v, k)])))"
    define q' where "q' = 64 + length (enc pre) + 12"
    note f = final_prop [OF fo [unfolded TProp] ok(1) [unfolded TProp] ok(4) [unfolded TProp] b_def]
    have "fdt_dump (Suc m) b q = Some (TProp s v # map fst its)"
      using f ih unfolding TProp unfolding b_def [symmetric] q_def [symmetric] r_def [symmetric] q'_def [symmetric] by simp
    then show ?thesis using TProp i n(1) by (simp only: b_def q_def list.map fst_conv)
  qed
qed

section \<open>Writing a whole tree\<close>

text \<open>The calls that write a tree of the given tokens, up to the first that fails.\<close>

definition write_tree :: "fdt_tok list \<Rightarrow> blob \<Rightarrow> (int \<times> blob) option" where
  "write_tree ts b0 =
     do { (r0, b1) \<leftarrow> fdt_create b0 (int (length b0));
          if r0 \<noteq> 0 then Some (r0, b1)
          else do { (r1, b2) \<leftarrow> fdt_finish_reservemap b1;
                    if r1 \<noteq> 0 then Some (r1, b2)
                    else do { (r2, b3) \<leftarrow> run_toks ts b2;
                              if r2 \<noteq> 0 then Some (r2, b3) else fdt_finish b3 } } }"

text \<open>What a reader finds in a finished tree.\<close>

definition final_blob :: "fdt_tok list \<Rightarrow> blob \<Rightarrow> bool" where
  "final_blob ts b \<longleftrightarrow>
     (\<exists>its strs rest. b = fdt_final its strs rest \<and> map fst its = ts \<and> final_ok its strs rest \<and> names_ok strs its \<and> list_all tok_ok ts)"

definition tree_is :: "nat \<Rightarrow> fdt_tok list \<Rightarrow> blob \<Rightarrow> bool" where
  "tree_is n ts b \<longleftrightarrow>
     length b = n \<and> fdt_check_header b = 0 \<and> unat (fdt_totalsize b) \<le> n \<and>
     unat (fdt_totalsize b) \<le> 68 + sum_list (map tok_space ts) \<and> fdt_tokens b = Some ts \<and> final_blob ts b"

lemma enc_length: "length its \<le> length (enc its)"
proof (induction its)
  case (Cons i its)
  obtain t k where "i = (t, k)" by fastforce
  then show ?case using Cons by (cases t) simp_all
qed simp

lemma tree_final:
  assumes "sw_fits n its strs" "sw_room n its strs 4" "n < 2147483647" "refs_ok strs its" "list_all tok_ok (map fst its)"
    "length rest = n - 64 - (length (enc its) + 4) - length strs" "length (enc its) + length strs \<le> sum_list (map tok_space (map fst its))"
  shows "tree_is n (map fst its) (fdt_final (shift (of_nat (length strs)) its) strs ([], rest))"
proof -
  let ?j = "shift (of_nat (length strs)) its" let ?b = "fdt_final ?j strs ([], rest)"
  have sz: "68 + length (enc its) + length strs \<le> n" using assms(1,2) by (simp add: sw_room_def)
  then have fo: "final_ok ?j strs ([], rest)" using assms(3) by (simp add: final_ok_def)
  have len: "length ?b = n" using sz assms(6) by (simp add: length_final)
  have "length ?j \<le> length (enc ?j)"
    by (rule enc_length)
  then have lt: "length ?j < length ?b" by (simp add: length_final)
  have "fdt_dump (length ?b) (fdt_final ([] @ ?j) strs ([], rest)) (int (length (enc []))) = Some (map fst ?j)"
    by (rule dump_final) (use fo assms(5) names_ok_shift [OF assms(4)] lt in simp_all)
  then have "fdt_tokens ?b = Some (map fst its)" by (simp add: fdt_tokens_def)
  moreover have "unat (fdt_totalsize ?b) = 68 + length (enc its) + length strs"
    using fo unfolding final_ok_def by (simp add: fdt_final_def Let_def unat_of_nat_less del: of_nat_add)
  moreover have "final_blob (map fst its) ?b"
    unfolding final_blob_def
    by (intro exI conjI) (rule refl, rule shift_simps, rule fo, rule names_ok_shift [OF assms(4)], rule assms(5))
  ultimately show ?thesis using len sz final_header(1) [OF fo] assms(7) by (simp add: tree_is_def)
qed

lemma write_tree_sw:
  assumes "length b0 < 2147483647" "list_all tok_ok ts"
  shows "\<exists>rc b. write_tree ts b0 = Some (rc, b) \<and>
    (rc = 0 \<and> tree_is (length b0) ts b \<or>
     rc = - FDT_ERR_NOSPACE \<and> length b0 < 68 + sum_list (map tok_space ts))"
proof (cases "length b0 < 64")
  case True
  from create_small [OF refl True] show ?thesis by (elim disjE exE conjE) (use True in \<open>simp_all add: write_tree_def\<close>)
next
  case False
  define n where "n = length b0"
  have n: "length b0 = n" "64 \<le> n" "n < 2 ^ 31" using False assms(1) by (simp_all add: n_def)
  have f0: "sw_fits n [] []" "refs_ok [] []" using n by (simp_all add: sw_fits_def refs_ok_def)
  from run_toks_sw [OF f0 assms(2)] obtain r b where r: "run_toks ts (sw_image n [] []) = Some (r, b)"
    "r = 0 \<and> (\<exists>ks strs'. length ks = length ts \<and> b = sw_image n ([] @ zip ts ks) strs' \<and> sw_fits n ([] @ zip ts ks) strs' \<and>
       refs_ok strs' ([] @ zip ts ks) \<and>
       length (enc ([] @ zip ts ks)) + length strs' \<le> length (enc []) + length ([] :: char list) + sum_list (map tok_space ts)) \<or>
     r = - FDT_ERR_NOSPACE \<and> \<not> sw_room n [] [] (sum_list (map tok_space ts))" by blast
  have w: "write_tree ts b0 = (if r \<noteq> 0 then Some (r, b) else fdt_finish b)"
    using create_sw [OF n] r(1) n(1) by (simp add: write_tree_def)
  show ?thesis using r(2)
  proof (elim disjE conjE exE)
    fix ks :: "extra list" and strs :: "char list"
    let ?its = "zip ts ks"
    assume a: "r = 0" "length ks = length ts" "b = sw_image n ([] @ ?its) strs" "sw_fits n ([] @ ?its) strs"
      "refs_ok strs ([] @ ?its)" "length (enc ([] @ ?its)) + length strs \<le> length (enc []) + length ([] :: char list) + sum_list (map tok_space ts)"
    have m: "map fst ?its = ts" using a(2) by (simp add: map_fst_zip)
    obtain rest where fin: "fdt_finish b = (if sw_room n ?its strs 4 then Some (0, fdt_final (shift (of_nat (length strs)) ?its) strs ([], rest))
        else Some (- FDT_ERR_NOSPACE, b))" "length rest = n - 64 - (length (enc ?its) + 4) - length strs"
      using finish_sw [of n ?its strs] a(3,4) assms(2) m by auto
    show ?thesis
    proof (cases "sw_room n ?its strs 4")
      case True
      have "tree_is n (map fst ?its) (fdt_final (shift (of_nat (length strs)) ?its) strs ([], rest))"
        by (rule tree_final) (use a True assms m n fin(2) in simp_all)
      then show ?thesis using True w a(1) fin(1) m n(1) by simp
    next
      case False
      then show ?thesis using w a fin(1) n by (auto simp: sw_room_def)
    qed
  next
    assume "r = - FDT_ERR_NOSPACE" "\<not> sw_room n [] [] (sum_list (map tok_space ts))"
    then show ?thesis using w n by (auto simp: sw_room_def)
  qed
qed

text \<open>C6. A device tree written token by token into a buffer of less than 2 GB with names that fit is
  either refused for lack of space or reads back as exactly these tokens from a well-formed blob of the
  size of the buffer; it is not refused when the buffer has 68 bytes besides what the tokens and the
  names of their properties take.\<close>

theorem device_tree_roundtrip:
  assumes "length b0 < 2147483647" "list_all tok_ok ts"
  shows "\<exists>rc b. write_tree ts b0 = Some (rc, b) \<and> (rc = 0 \<or> rc = - FDT_ERR_NOSPACE) \<and>
    (rc = 0 \<longrightarrow> length b = length b0 \<and> fdt_check_header b = 0 \<and> unat (fdt_totalsize b) \<le> length b0 \<and> fdt_tokens b = Some ts) \<and>
    (68 + sum_list (map tok_space ts) \<le> length b0 \<longrightarrow> rc = 0)"
  using write_tree_sw [OF assms] unfolding tree_is_def by auto

theorem device_tree_roundtrip_witness:
  "\<exists>b. write_tree [TBegin [], TProp ''model'' ''x'', TBegin ''psci'', TProp ''model'' [], TEnd, TEnd] (replicate 256 NUL) = Some (0, b) \<and>
    length b = 256 \<and> fdt_check_header b = 0 \<and>
    fdt_tokens b = Some [TBegin [], TProp ''model'' ''x'', TBegin ''psci'', TProp ''model'' [], TEnd, TEnd]"
proof -
  let ?ts = "[TBegin [], TProp ''model'' ''x'', TBegin ''psci'', TProp ''model'' [], TEnd, TEnd]"
  have "68 + sum_list (map tok_space ?ts) \<le> 256" by (simp add: pad4_def be32_def le32_def)
  moreover have "list_all tok_ok ?ts" by simp
  ultimately show ?thesis using device_tree_roundtrip [of "replicate 256 NUL" ?ts] by auto
qed

section \<open>Names longer than the buffer\<close>

text \<open>The test of \<open>fdt_add_string\<close> is made in 32 bits and wraps: adding a property whose name is at least
  as long as the whole buffer passes it, and the name is written in front of the buffer.\<close>

theorem long_property_name_overruns:
  assumes "sw_fits n its strs" "n \<le> length s" "length s < 2 ^ 30"
  shows "fdt_property s v (sw_image n its strs) = None"
proof -
  let ?S = "length (enc its)" and ?T = "length strs" and ?l = "length s + 1"
  have b: "64 + ?S + ?T \<le> n" using assms(1) by (simp add: sw_fits_def)
  have h: "fdt_size_dt_struct (sw_image n its strs) = of_nat ?S" "fdt_totalsize (sw_image n its strs) = of_nat n"
      "fdt_off_dt_struct (sw_image n its strs) = 64" "fdt_size_dt_strings (sw_image n its strs) = of_nat ?T"
    by (simp_all add: sw_image_def)
  have u: "unat (of_nat (?T + ?l) :: u32) = ?T + ?l" "unat (of_nat n :: u32) = n" "unat (of_nat ?T :: u32) = ?T"
      "unat (of_nat (64 + ?S) :: u32) = 64 + ?S"
    by (rule unat_of_nat_less, use b assms(2,3) in simp)+
  have "unat (of_nat n - of_nat (?T + ?l) :: u32) = 2 ^ 32 + n - (?T + ?l)"
    using unat_sub_if_size [of "of_nat n :: u32" "of_nat (?T + ?l)"] b assms(2) unfolding u
    by (simp add: word_size del: of_nat_add of_nat_Suc)
  then have "\<not> (of_nat n - of_nat (?T + ?l) :: u32) < of_nat (64 + ?S)"
    unfolding word_less_nat_alt u using b assms(2,3) by (simp del: of_nat_add of_nat_Suc)
  moreover have "of_nat ?T + of_nat ?l = (of_nat (?T + ?l) :: u32)" "64 + of_nat ?S = (of_nat (64 + ?S) :: u32)" by simp_all
  ultimately have a: "fdt_add_string s (sw_image n its strs) = None"
    unfolding fdt_add_string_def Let_def h using u(1,2) b assms(2) by (simp del: of_nat_add of_nat_Suc)
  have "fdt_find_string strs s = None" using b assms(2) by (simp add: fdt_find_string_def)
  then have "fdt_find_add_string s (sw_image n its strs) = None"
    using a unfolding fdt_find_add_string_def Let_def h u sw_strings [OF assms(1)] by simp
  moreover have "sw_flags (sw_image n its strs) = 0" by (simp add: sw_flags_def sw_image_def)
  ultimately show ?thesis by (simp add: fdt_property_def fdt_property_placeholder_def)
qed

theorem long_property_name_overruns_witness: "fdt_property (replicate 100 CHR ''x'') [] (sw_image 64 [] []) = None"
  by (rule long_property_name_overruns) (simp_all add: sw_fits_def)

end
