(* ===== verification/Fdt_Query.thy ===== *)
theory Fdt_Query
  imports Fdt_Blob
begin

text \<open>
  Questions to a flattened device tree: the rest of \<open>fdt_ro.c\<close>, and \<open>fdt_addresses.c\<close>, \<open>fdt_check.c\<close> and
  \<open>fdt_strerror.c\<close>.  The conventions are those of \<open>Fdt_Blob\<close>; \<open>Inl\<close> is an error code.
\<close>

abbreviation (input) FDT_ERR_BADPHANDLE :: int where "FDT_ERR_BADPHANDLE \<equiv> 6"
abbreviation (input) FDT_ERR_BADNCELLS :: int where "FDT_ERR_BADNCELLS \<equiv> 14"
abbreviation (input) FDT_ERR_NOPHANDLES :: int where "FDT_ERR_NOPHANDLES \<equiv> 17"
abbreviation (input) FDT_MAX_PHANDLE :: u32 where "FDT_MAX_PHANDLE \<equiv> 0xfffffffe"
abbreviation (input) FDT_MAX_NCELLS :: u32 where "FDT_MAX_NCELLS \<equiv> 4"
abbreviation (input) FDT_V1_SIZE :: nat where "FDT_V1_SIZE \<equiv> 28"

section \<open>Properties\<close>

definition prop_value :: "blob \<Rightarrow> int \<Rightarrow> fdt_property_hdr \<Rightarrow> nat" where
  "prop_value b offset pr =
     (if fdt_version b < 16 \<and> (offset + 12) mod 8 \<noteq> 0 \<and> 8 \<le> prop_len pr then prop_data pr + 4 else prop_data pr)"

definition fdt_get_property_namelen :: "blob \<Rightarrow> int \<Rightarrow> string \<Rightarrow> (int + fdt_property_hdr) option" where
  "fdt_get_property_namelen b offset name =
     (if fdt_version b < 16 then Some (Inl (- FDT_ERR_BADVERSION))
      else do { off \<leftarrow> fdt_first_property_offset b offset;
                r \<leftarrow> get_property_loop b off name;
                Some (case r of Inl e \<Rightarrow> Inl e | Inr (poffset, pr) \<Rightarrow> Inr pr) })"

definition fdt_get_property :: "blob \<Rightarrow> int \<Rightarrow> string \<Rightarrow> (int + fdt_property_hdr) option" where
  "fdt_get_property b nodeoffset name = fdt_get_property_namelen b nodeoffset name"

text \<open>The position and the length of the value.\<close>

definition fdt_getprop :: "blob \<Rightarrow> int \<Rightarrow> string \<Rightarrow> (int + nat \<times> u32) option" where
  "fdt_getprop b nodeoffset name =
     do { off \<leftarrow> fdt_first_property_offset b nodeoffset;
          r \<leftarrow> get_property_loop b off name;
          Some (case r of Inl e \<Rightarrow> Inl e | Inr (poffset, pr) \<Rightarrow> Inr (prop_value b poffset pr, prop_len pr)) }"

definition fdt_getprop_by_offset :: "blob \<Rightarrow> int \<Rightarrow> (int + (nat \<times> u32) \<times> string) option" where
  "fdt_getprop_by_offset b offset =
     do { r \<leftarrow> fdt_get_property_at b offset;
          case r of
            Inl e \<Rightarrow> Some (Inl e)
          | Inr pr \<Rightarrow>
              do { nm \<leftarrow> fdt_get_string b (sint (prop_nameoff pr));
                   Some (case nm of Inl e \<Rightarrow> Inl e | Inr name \<Rightarrow> Inr ((prop_value b offset pr, prop_len pr), name)) } }"

text \<open>A value of one cell.\<close>

definition cell_prop :: "blob \<Rightarrow> int \<Rightarrow> string \<Rightarrow> u32 option option" where
  "cell_prop b nodeoffset name =
     do { r \<leftarrow> fdt_getprop b nodeoffset name;
          case r of
            Inl e \<Rightarrow> Some None
          | Inr (p, len) \<Rightarrow> if len \<noteq> 4 then Some None else map_option Some (rd32 b p) }"

section \<open>Phandles\<close>

definition fdt_get_phandle :: "blob \<Rightarrow> int \<Rightarrow> u32 option" where
  "fdt_get_phandle b nodeoffset =
     do { r \<leftarrow> cell_prop b nodeoffset ''phandle'';
          case r of
            Some v \<Rightarrow> Some v
          | None \<Rightarrow> do { r2 \<leftarrow> cell_prop b nodeoffset ''linux,phandle''; Some (case r2 of Some v \<Rightarrow> v | None \<Rightarrow> 0) } }"

partial_function (option) max_phandle_loop :: "blob \<Rightarrow> int \<Rightarrow> u32 \<Rightarrow> (int + u32) option" where
  "max_phandle_loop b offset mx =
     Option.bind (fdt_next_node b offset None) (\<lambda>(off, _).
       if off < 0 then Some (if off = - FDT_ERR_NOTFOUND then Inr mx else Inl off)
       else Option.bind (fdt_get_phandle b off) (\<lambda>value. max_phandle_loop b off (if mx < value then value else mx)))"

definition fdt_find_max_phandle :: "blob \<Rightarrow> (int + u32) option" where
  "fdt_find_max_phandle b = max_phandle_loop b (- 1) 0"

definition fdt_generate_phandle :: "blob \<Rightarrow> (int + u32) option" where
  "fdt_generate_phandle b =
     do { r \<leftarrow> fdt_find_max_phandle b;
          Some (case r of
                  Inl err \<Rightarrow> Inl err
                | Inr mx \<Rightarrow> if mx = FDT_MAX_PHANDLE then Inl (- FDT_ERR_NOPHANDLES) else Inr (mx + 1)) }"

section \<open>Reserved memory\<close>

definition rd64 :: "blob \<Rightarrow> nat \<Rightarrow> u64 option" where
  "rd64 b p = do { h \<leftarrow> rd32 b p; l \<leftarrow> rd32 b (p + 4); Some (push_bit 32 (ucast h) + ucast l) }"

text \<open>The difference of the size of the tree and of an entry has 64 bits.\<close>

definition fdt_mem_rsv :: "blob \<Rightarrow> nat \<Rightarrow> nat option" where
  "fdt_mem_rsv b n =
     (let offset = of_nat (n * 16) :: u32; absoffset = fdt_off_mem_rsvmap b + offset
      in if absoffset < fdt_off_mem_rsvmap b then None
         else if (ucast (fdt_totalsize b) - 16 :: u64) < ucast absoffset then None
         else Some (unat (fdt_off_mem_rsvmap b) + 16 * n))"

definition fdt_get_mem_rsv :: "blob \<Rightarrow> nat \<Rightarrow> (int + u64 \<times> u64) option" where
  "fdt_get_mem_rsv b n =
     (if fdt_ro_probe b < 0 then Some (Inl (fdt_ro_probe b))
      else case fdt_mem_rsv b n of
             None \<Rightarrow> Some (Inl (- FDT_ERR_BADOFFSET))
           | Some p \<Rightarrow> do { a \<leftarrow> rd64 b p; s \<leftarrow> rd64 b (p + 8); Some (Inr (a, s)) })"

partial_function (option) num_rsv_loop :: "blob \<Rightarrow> nat \<Rightarrow> int option" where
  "num_rsv_loop b i =
     (case fdt_mem_rsv b i of
        None \<Rightarrow> Some (- FDT_ERR_TRUNCATED)
      | Some p \<Rightarrow> Option.bind (rd64 b (p + 8)) (\<lambda>s. if s = 0 then Some (int i) else num_rsv_loop b (Suc i)))"

definition fdt_num_mem_rsv :: "blob \<Rightarrow> int option" where
  "fdt_num_mem_rsv b = num_rsv_loop b 0"

section \<open>Nodes\<close>

definition fdt_subnode_offset :: "blob \<Rightarrow> int \<Rightarrow> string \<Rightarrow> int option" where
  "fdt_subnode_offset b parentoffset name = fdt_subnode_offset_namelen b parentoffset name"

definition fdt_get_alias :: "blob \<Rightarrow> string \<Rightarrow> nat option option" where
  "fdt_get_alias b name =
     do { aliasoffset \<leftarrow> fdt_path_offset b ''/aliases'';
          if aliasoffset < 0 then Some None
          else do { r \<leftarrow> fdt_getprop b aliasoffset name; Some (case r of Inl e \<Rightarrow> None | Inr (p, len) \<Rightarrow> Some p) } }"

text \<open>The loop of \<open>fdt_get_path\<close>: \<open>acc\<close> is the part of the buffer before \<open>p\<close>.  Going up removes the last
  component; the code reads before the buffer when there is none.\<close>

definition pop_component :: "string \<Rightarrow> string option" where
  "pop_component acc =
     (let r = dropWhile (\<lambda>c. c \<noteq> slash) (tl (rev acc)) in if acc = [] \<or> r = [] then None else Some (rev r))"

fun pop_components :: "nat \<Rightarrow> string \<Rightarrow> string option" where
  "pop_components 0 acc = Some acc"
| "pop_components (Suc n) acc = Option.bind (pop_component acc) (pop_components n)"

definition path_error :: "int \<Rightarrow> int" where
  "path_error offset =
     (if offset = - FDT_ERR_NOTFOUND \<or> 0 \<le> offset then - FDT_ERR_BADOFFSET
      else if offset = - FDT_ERR_BADOFFSET then - FDT_ERR_BADSTRUCTURE else offset)"

partial_function (option) get_path_loop :: "blob \<Rightarrow> int \<Rightarrow> int \<Rightarrow> int \<Rightarrow> int \<Rightarrow> int \<Rightarrow> string \<Rightarrow> (int + string) option" where
  "get_path_loop b nodeoffset buflen offset depth pdepth acc =
     (if \<not> (0 \<le> offset \<and> offset \<le> nodeoffset) then Some (Inl (path_error offset))
      else
        Option.bind (pop_components (nat (pdepth - depth)) acc) (\<lambda>acc1.
        let pdepth1 = min pdepth depth
        in Option.bind (if depth \<le> pdepth1 then map_option Some (fdt_get_name b offset) else Some None) (\<lambda>nm.
           case nm of
             Some (Inl e) \<Rightarrow> Some (Inl e)
           | _ \<Rightarrow>
             let (pdepth2, acc2) = (case nm of
                                      Some (Inr name) \<Rightarrow> if int (length acc1 + length name + 1) \<le> buflen
                                                           then (pdepth1 + 1, acc1 @ name @ [slash]) else (pdepth1, acc1)
                                    | _ \<Rightarrow> (pdepth1, acc1))
             in if offset = nodeoffset
                then if pdepth2 < depth + 1 then Some (Inl (- FDT_ERR_NOSPACE))
                     else Some (Inr (if 1 < length acc2 then butlast acc2 else acc2))
                else Option.bind (fdt_next_node b offset (Some depth)) (\<lambda>(off, depth').
                       case depth' of None \<Rightarrow> None | Some d \<Rightarrow> get_path_loop b nodeoffset buflen off d pdepth2 acc2))))"

definition fdt_get_path :: "blob \<Rightarrow> int \<Rightarrow> int \<Rightarrow> (int + string) option" where
  "fdt_get_path b nodeoffset buflen =
     (if fdt_ro_probe b < 0 then Some (Inl (fdt_ro_probe b))
      else if buflen < 2 then Some (Inl (- FDT_ERR_NOSPACE))
      else get_path_loop b nodeoffset buflen 0 0 0 [])"

text \<open>The result and the depth of the node, when it is reached.\<close>

partial_function (option) supernode_loop :: "blob \<Rightarrow> int \<Rightarrow> int \<Rightarrow> int \<Rightarrow> int \<Rightarrow> int \<Rightarrow> (int \<times> int option) option" where
  "supernode_loop b nodeoffset supernodedepth offset depth super =
     (if \<not> (0 \<le> offset \<and> offset \<le> nodeoffset) then Some (path_error offset, None)
      else
        let super1 = (if depth = supernodedepth then offset else super)
        in if offset = nodeoffset
           then Some (if depth < supernodedepth then - FDT_ERR_NOTFOUND else super1, Some depth)
           else Option.bind (fdt_next_node b offset (Some depth)) (\<lambda>(off, depth').
                  case depth' of None \<Rightarrow> None | Some d \<Rightarrow> supernode_loop b nodeoffset supernodedepth off d super1))"

definition fdt_supernode_atdepth_offset :: "blob \<Rightarrow> int \<Rightarrow> int \<Rightarrow> (int \<times> int option) option" where
  "fdt_supernode_atdepth_offset b nodeoffset supernodedepth =
     (if fdt_ro_probe b < 0 then Some (fdt_ro_probe b, None)
      else if supernodedepth < 0 then Some (- FDT_ERR_NOTFOUND, None)
      else supernode_loop b nodeoffset supernodedepth 0 0 (- FDT_ERR_INTERNAL))"

definition fdt_node_depth :: "blob \<Rightarrow> int \<Rightarrow> int option" where
  "fdt_node_depth b nodeoffset =
     do { (err, nodedepth) \<leftarrow> fdt_supernode_atdepth_offset b nodeoffset 0;
          if err \<noteq> 0 then Some (if err < 0 then err else - FDT_ERR_INTERNAL) else nodedepth }"

definition fdt_parent_offset :: "blob \<Rightarrow> int \<Rightarrow> int option" where
  "fdt_parent_offset b nodeoffset =
     do { nodedepth \<leftarrow> fdt_node_depth b nodeoffset;
          if nodedepth < 0 then Some nodedepth
          else map_option fst (fdt_supernode_atdepth_offset b nodeoffset (nodedepth - 1)) }"

text \<open>The searches have one loop: the first node after \<open>offset\<close> for which \<open>test\<close> gives a result.\<close>

partial_function (option) search_nodes :: "(int \<Rightarrow> int option option) \<Rightarrow> blob \<Rightarrow> int \<Rightarrow> int option" where
  "search_nodes test b offset =
     Option.bind (fdt_next_node b offset None) (\<lambda>(off, _).
       if off < 0 then Some off
       else Option.bind (test off) (\<lambda>r. case r of Some v \<Rightarrow> Some v | None \<Rightarrow> search_nodes test b off))"

definition memcmp_eq :: "blob \<Rightarrow> nat \<Rightarrow> char list \<Rightarrow> bool option" where
  "memcmp_eq b p bs = (if length b < p + length bs then None else Some (take (length bs) (drop p b) = bs))"

definition fdt_node_offset_by_prop_value :: "blob \<Rightarrow> int \<Rightarrow> string \<Rightarrow> char list \<Rightarrow> int option" where
  "fdt_node_offset_by_prop_value b startoffset propname propval =
     (if fdt_ro_probe b < 0 then Some (fdt_ro_probe b)
      else search_nodes
             (\<lambda>off. do { r \<leftarrow> fdt_getprop b off propname;
                         case r of
                           Inl e \<Rightarrow> Some None
                         | Inr (p, len) \<Rightarrow> if unat len \<noteq> length propval then Some None
                                            else do { eq \<leftarrow> memcmp_eq b p propval; Some (if eq then Some off else None) } }) b startoffset)"

definition fdt_node_offset_by_phandle :: "blob \<Rightarrow> u32 \<Rightarrow> int option" where
  "fdt_node_offset_by_phandle b phandle =
     (if phandle = 0 \<or> phandle = - 1 then Some (- FDT_ERR_BADPHANDLE)
      else if fdt_ro_probe b < 0 then Some (fdt_ro_probe b)
      else search_nodes (\<lambda>off. map_option (\<lambda>v. if v = phandle then Some off else None) (fdt_get_phandle b off)) b (- 1))"

section \<open>Lists of strings\<close>

text \<open>The comparison may look one byte behind the list, at \<open>rest\<close>.\<close>

function fdt_stringlist_contains :: "char list \<Rightarrow> char list \<Rightarrow> string \<Rightarrow> bool option" where
  "fdt_stringlist_contains strlist rest str =
     (if length strlist < length str then Some False
      else if length (strlist @ rest) < length str + 1 then None
      else if take (length str + 1) (strlist @ rest) = str @ [NUL] then Some True
      else if NUL \<notin> set strlist then Some False
      else fdt_stringlist_contains (tl (dropWhile (\<lambda>c. c \<noteq> NUL) strlist)) rest str)"
  by pat_completeness auto
termination
proof (relation "measure (\<lambda>(l, _, _). length l)")
  fix l rest str :: "char list"
  assume "\<not> NUL \<notin> set l"
  then have "dropWhile (\<lambda>c. c \<noteq> NUL) l \<noteq> []" by (auto simp: dropWhile_eq_Nil_conv)
  then have "length (tl (dropWhile (\<lambda>c. c \<noteq> NUL) l)) < length (dropWhile (\<lambda>c. c \<noteq> NUL) l)" by simp
  then show "((tl (dropWhile (\<lambda>c. c \<noteq> NUL) l), rest, str), l, rest, str) \<in> measure (\<lambda>(l, _, _). length l)"
    using length_dropWhile_le [of "\<lambda>c. c \<noteq> NUL" l] by simp
qed simp

declare fdt_stringlist_contains.simps [simp del]

text \<open>The other functions have one loop: it stops at the first string for which \<open>test\<close> holds, with its
  index and its text, or at the end with the number of strings.\<close>

datatype list_scan = Scan_bad | Scan_hit nat string | Scan_end nat

function scan_strings :: "(nat \<Rightarrow> string \<Rightarrow> bool) \<Rightarrow> nat \<Rightarrow> char list \<Rightarrow> list_scan" where
  "scan_strings test idx list =
     (if list = [] then Scan_end idx
      else let s = takeWhile (\<lambda>c. c \<noteq> NUL) list
           in if length list < length s + 1 then Scan_bad
              else if test idx s then Scan_hit idx s
              else scan_strings test (idx + 1) (drop (length s + 1) list))"
  by pat_completeness auto
termination
  by (relation "measure (\<lambda>(_, _, l). length l)") auto

declare scan_strings.simps [simp del]

text \<open>The value of a property, \<open>None\<close> when it leaves the buffer.\<close>

definition prop_bytes :: "blob \<Rightarrow> int \<Rightarrow> string \<Rightarrow> (int + char list) option" where
  "prop_bytes b nodeoffset name =
     do { r \<leftarrow> fdt_getprop b nodeoffset name;
          case r of
            Inl e \<Rightarrow> Some (Inl e)
          | Inr (p, len) \<Rightarrow> if length b < p + unat len then None else Some (Inr (take (unat len) (drop p b))) }"

definition fdt_stringlist_count :: "blob \<Rightarrow> int \<Rightarrow> string \<Rightarrow> int option" where
  "fdt_stringlist_count b nodeoffset property =
     do { r \<leftarrow> prop_bytes b nodeoffset property;
          Some (case r of
                  Inl err \<Rightarrow> err
                | Inr list \<Rightarrow> (case scan_strings (\<lambda>_ _. False) 0 list of Scan_end n \<Rightarrow> int n | _ \<Rightarrow> - FDT_ERR_BADVALUE)) }"

definition fdt_stringlist_search :: "blob \<Rightarrow> int \<Rightarrow> string \<Rightarrow> string \<Rightarrow> int option" where
  "fdt_stringlist_search b nodeoffset property string =
     do { r \<leftarrow> prop_bytes b nodeoffset property;
          Some (case r of
                  Inl err \<Rightarrow> err
                | Inr list \<Rightarrow> (case scan_strings (\<lambda>_ s. s = string) 0 list of
                                Scan_bad \<Rightarrow> - FDT_ERR_BADVALUE | Scan_hit i s \<Rightarrow> int i | Scan_end n \<Rightarrow> - FDT_ERR_NOTFOUND)) }"

text \<open>\<open>idx\<close> counts down and meets 0 at the string with this index, if it is not negative.\<close>

definition fdt_stringlist_get :: "blob \<Rightarrow> int \<Rightarrow> string \<Rightarrow> int \<Rightarrow> (int + string) option" where
  "fdt_stringlist_get b nodeoffset property idx =
     do { r \<leftarrow> prop_bytes b nodeoffset property;
          Some (case r of
                  Inl err \<Rightarrow> Inl err
                | Inr list \<Rightarrow> (case scan_strings (\<lambda>i _. int i = idx) 0 list of
                                Scan_bad \<Rightarrow> Inl (- FDT_ERR_BADVALUE) | Scan_hit i s \<Rightarrow> Inr s | Scan_end n \<Rightarrow> Inl (- FDT_ERR_NOTFOUND))) }"

definition fdt_node_check_compatible :: "blob \<Rightarrow> int \<Rightarrow> string \<Rightarrow> int option" where
  "fdt_node_check_compatible b nodeoffset compatible =
     do { r \<leftarrow> fdt_getprop b nodeoffset ''compatible'';
          case r of
            Inl len \<Rightarrow> Some len
          | Inr (p, len) \<Rightarrow>
              if length b < p + unat len then None
              else do { c \<leftarrow> fdt_stringlist_contains (take (unat len) (drop p b)) (drop (p + unat len) b) compatible;
                        Some (if c then 0 else 1) } }"

definition fdt_node_offset_by_compatible :: "blob \<Rightarrow> int \<Rightarrow> string \<Rightarrow> int option" where
  "fdt_node_offset_by_compatible b startoffset compatible =
     (if fdt_ro_probe b < 0 then Some (fdt_ro_probe b)
      else search_nodes
             (\<lambda>off. map_option (\<lambda>err. if err < 0 \<and> err \<noteq> - FDT_ERR_NOTFOUND then Some err else if err = 0 then Some off else None)
                      (fdt_node_check_compatible b off compatible)) b startoffset)"

section \<open>Cells of addresses and sizes\<close>

definition fdt_cells :: "blob \<Rightarrow> int \<Rightarrow> string \<Rightarrow> int option" where
  "fdt_cells b nodeoffset name =
     do { r \<leftarrow> fdt_getprop b nodeoffset name;
          case r of
            Inl len \<Rightarrow> Some len
          | Inr (p, len) \<Rightarrow>
              if len \<noteq> 4 then Some (- FDT_ERR_BADNCELLS)
              else do { val \<leftarrow> rd32 b p; Some (if FDT_MAX_NCELLS < val then - FDT_ERR_BADNCELLS else sint val) } }"

definition fdt_address_cells :: "blob \<Rightarrow> int \<Rightarrow> int option" where
  "fdt_address_cells b nodeoffset =
     do { val \<leftarrow> fdt_cells b nodeoffset ''#address-cells'';
          Some (if val = 0 then - FDT_ERR_BADNCELLS else if val = - FDT_ERR_NOTFOUND then 2 else val) }"

definition fdt_size_cells :: "blob \<Rightarrow> int \<Rightarrow> int option" where
  "fdt_size_cells b nodeoffset =
     do { val \<leftarrow> fdt_cells b nodeoffset ''#size-cells''; Some (if val = - FDT_ERR_NOTFOUND then 1 else val) }"

section \<open>The full check\<close>

partial_function (option) check_loop :: "blob \<Rightarrow> int \<Rightarrow> int \<Rightarrow> bool \<Rightarrow> int option" where
  "check_loop b offset depth expect_end =
     Option.bind (fdt_next_tag b offset) (\<lambda>(tag, next).
       if next < 0 then Some next
       else if expect_end \<and> tag \<noteq> FDT_END then Some (- FDT_ERR_BADSTRUCTURE)
       else if tag = FDT_NOP then check_loop b next depth expect_end
       else if tag = FDT_END then Some (if depth \<noteq> 0 then - FDT_ERR_BADSTRUCTURE else 0)
       else if tag = FDT_BEGIN_NODE
       then if INT_MAX < depth + 1 then Some (- FDT_ERR_BADSTRUCTURE)
            else if depth + 1 = 1
            then Option.bind (fdt_get_name b offset) (\<lambda>nm.
                   case nm of
                     Inl len \<Rightarrow> Some len
                   | Inr name \<Rightarrow> if name \<noteq> [] then Some (- FDT_ERR_BADSTRUCTURE) else check_loop b next (depth + 1) expect_end)
            else check_loop b next (depth + 1) expect_end
       else if tag = FDT_END_NODE
       then if depth = 0 then Some (- FDT_ERR_BADSTRUCTURE)
            else check_loop b next (depth - 1) (expect_end \<or> depth - 1 = 0)
       else if tag = FDT_PROP
       then Option.bind (fdt_getprop_by_offset b offset) (\<lambda>r.
              case r of Inl err \<Rightarrow> Some err | Inr _ \<Rightarrow> check_loop b next depth expect_end)
       else Some (- FDT_ERR_INTERNAL))"

definition fdt_check_full :: "blob \<Rightarrow> nat \<Rightarrow> int option" where
  "fdt_check_full b bufsize =
     (if bufsize < FDT_V1_SIZE then Some (- FDT_ERR_TRUNCATED)
      else if bufsize < unat (fdt_header_size (fdt_version b)) then Some (- FDT_ERR_TRUNCATED)
      else if fdt_check_header b \<noteq> 0 then Some (fdt_check_header b)
      else if bufsize < unat (fdt_totalsize b) then Some (- FDT_ERR_TRUNCATED)
      else do { num_memrsv \<leftarrow> fdt_num_mem_rsv b;
                if num_memrsv < 0 then Some num_memrsv else check_loop b 0 0 False })"

section \<open>Error texts\<close>

definition fdt_errtable :: "string list" where
  "fdt_errtable = map ((@) ''FDT_ERR_'')
     [''NOTFOUND'', ''EXISTS'', ''NOSPACE'', ''BADOFFSET'', ''BADPATH'', ''BADPHANDLE'', ''BADSTATE'', ''TRUNCATED'', ''BADMAGIC'',
      ''BADVERSION'', ''BADSTRUCTURE'', ''BADLAYOUT'', ''INTERNAL'', ''BADNCELLS'', ''BADVALUE'', ''BADOVERLAY'', ''NOPHANDLES'',
      ''BADFLAGS'', ''ALIGNMENT'']"

text \<open>The first place of the table has no text.\<close>

definition fdt_strerror :: "int \<Rightarrow> string" where
  "fdt_strerror errval =
     (if 0 < errval then ''<valid offset/length>''
      else if errval = 0 then ''<no error>''
      else if - errval < int (length fdt_errtable) + 1 then fdt_errtable ! (nat (- errval) - 1)
      else ''<unknown error>'')"

declare max_phandle_loop.simps [code] num_rsv_loop.simps [code] get_path_loop.simps [code] supernode_loop.simps [code]
  search_nodes.simps [code] check_loop.simps [code]

end
