(* ===== verification/Fdt_Rw.thy ===== *)
theory Fdt_Rw
  imports Fdt_Query Fdt_Sw
begin

text \<open>
  Changing flattened device trees: in place (\<open>fdt_wip.c\<close>), with room to grow (\<open>fdt_rw.c\<close>,
  \<open>fdt_empty_tree.c\<close>), the ranges of \<open>fdt_addresses.c\<close>, and moving trees between buffers (\<open>fdt_move\<close>,
  \<open>fdt_resize\<close>, \<open>fdt_open_into\<close>, \<open>fdt_pack\<close>).  Results are \<open>None\<close> where the code leaves the buffer or
  overflows a signed integer.
\<close>

abbreviation (input) FDT_ERR_EXISTS :: int where "FDT_ERR_EXISTS \<equiv> 2"
abbreviation (input) FDT_ERR_BADLAYOUT :: int where "FDT_ERR_BADLAYOUT \<equiv> 12"

abbreviation "fdt_boot_cpuid_phys \<equiv> fdt_get_header 7"
abbreviation "fdt_set_boot_cpuid_phys \<equiv> fdt_set_header 7"

text \<open>Conversion to \<open>int\<close>, and \<open>if (err) return err\<close>.\<close>

definition c_int :: "int \<Rightarrow> int" where
  "c_int x = sint (of_int x :: u32)"

definition if_ok :: "(int \<times> blob) option \<Rightarrow> (blob \<Rightarrow> (int \<times> 'a \<times> blob) option) \<Rightarrow> 'a \<Rightarrow> (int \<times> 'a \<times> blob) option" where
  "if_ok r f dflt = Option.bind r (\<lambda>(err, b). if err \<noteq> 0 then Some (err, dflt, b) else f b)"

definition if_ok0 :: "(int \<times> blob) option \<Rightarrow> (blob \<Rightarrow> (int \<times> blob) option) \<Rightarrow> (int \<times> blob) option" where
  "if_ok0 r f = Option.bind r (\<lambda>(err, b). if err \<noteq> 0 then Some (err, b) else f b)"

definition memmove :: "blob \<Rightarrow> int \<Rightarrow> int \<Rightarrow> int \<Rightarrow> blob option" where
  "memmove m dst src n =
     (if dst < 0 \<or> src < 0 \<or> n < 0 \<or> int (length m) < dst + n \<or> int (length m) < src + n then None
      else Some (blit m (nat dst) (take (nat n) (drop (nat src) m))))"

section \<open>In place\<close>

definition fdt_setprop_inplace_namelen_partial :: "int \<Rightarrow> string \<Rightarrow> u32 \<Rightarrow> char list \<Rightarrow> blob \<Rightarrow> (int \<times> blob) option" where
  "fdt_setprop_inplace_namelen_partial nodeoffset name idx val b =
     do { r \<leftarrow> fdt_getprop b nodeoffset name;
          case r of
            Inl proplen \<Rightarrow> Some (proplen, b)
          | Inr (propval, proplen) \<Rightarrow>
              if proplen < of_nat (length val) + idx then Some (- FDT_ERR_NOSPACE, b)
              else do { b1 \<leftarrow> wr b (propval + unat idx) val; Some (0, b1) } }"

definition fdt_setprop_inplace :: "int \<Rightarrow> string \<Rightarrow> char list \<Rightarrow> blob \<Rightarrow> (int \<times> blob) option" where
  "fdt_setprop_inplace nodeoffset name val b =
     do { r \<leftarrow> fdt_getprop b nodeoffset name;
          case r of
            Inl proplen \<Rightarrow> Some (proplen, b)
          | Inr (propval, proplen) \<Rightarrow>
              if sint proplen \<noteq> int (length val) then Some (- FDT_ERR_NOSPACE, b)
              else fdt_setprop_inplace_namelen_partial nodeoffset name 0 val b }"

definition fdt_setprop_inplace_u32 :: "int \<Rightarrow> string \<Rightarrow> u32 \<Rightarrow> blob \<Rightarrow> (int \<times> blob) option" where
  "fdt_setprop_inplace_u32 nodeoffset name val b = fdt_setprop_inplace nodeoffset name (be32 val) b"

definition fdt_setprop_inplace_u64 :: "int \<Rightarrow> string \<Rightarrow> u64 \<Rightarrow> blob \<Rightarrow> (int \<times> blob) option" where
  "fdt_setprop_inplace_u64 nodeoffset name val b = fdt_setprop_inplace nodeoffset name (be64 val) b"

definition fdt_setprop_inplace_cell :: "int \<Rightarrow> string \<Rightarrow> u32 \<Rightarrow> blob \<Rightarrow> (int \<times> blob) option" where
  "fdt_setprop_inplace_cell nodeoffset name val b = fdt_setprop_inplace_u32 nodeoffset name val b"

text \<open>The cells that begin in a region of \<open>len\<close> bytes.\<close>

definition fdt_nop_region :: "nat \<Rightarrow> int \<Rightarrow> blob \<Rightarrow> blob option" where
  "fdt_nop_region start len b = wr b start (concat (replicate (nat ((len + 3) div 4)) (be32 FDT_NOP)))"

definition fdt_nop_property :: "int \<Rightarrow> string \<Rightarrow> blob \<Rightarrow> (int \<times> blob) option" where
  "fdt_nop_property nodeoffset name b =
     do { r \<leftarrow> fdt_get_property b nodeoffset name;
          case r of
            Inl len \<Rightarrow> Some (len, b)
          | Inr pr \<Rightarrow> do { b1 \<leftarrow> fdt_nop_region (prop_data pr - 12) (c_int (uint (prop_len pr) + 12)) b; Some (0, b1) } }"

partial_function (option) node_end_loop :: "blob \<Rightarrow> int \<Rightarrow> int \<Rightarrow> int option" where
  "node_end_loop b offset depth =
     (if \<not> (0 \<le> offset \<and> 0 \<le> depth) then Some offset
      else Option.bind (fdt_next_node b offset (Some depth)) (\<lambda>(off, depth').
             case depth' of None \<Rightarrow> None | Some d \<Rightarrow> node_end_loop b off d))"

definition fdt_node_end_offset :: "blob \<Rightarrow> int \<Rightarrow> int option" where
  "fdt_node_end_offset b offset = node_end_loop b offset 0"

definition fdt_nop_node :: "int \<Rightarrow> blob \<Rightarrow> (int \<times> blob) option" where
  "fdt_nop_node nodeoffset b =
     do { endoffset \<leftarrow> fdt_node_end_offset b nodeoffset;
          if endoffset < 0 then Some (endoffset, b)
          else do { p \<leftarrow> fdt_offset_ptr b nodeoffset 0;
                    b1 \<leftarrow> fdt_nop_region p (endoffset - nodeoffset) b;
                    Some (0, b1) } }"

section \<open>Room\<close>

definition fdt_blocks_misordered :: "blob \<Rightarrow> int \<Rightarrow> int \<Rightarrow> bool" where
  "fdt_blocks_misordered b mem_rsv_size struct_size \<longleftrightarrow>
     fdt_off_mem_rsvmap b < 40 \<or>
     fdt_off_dt_struct b < fdt_off_mem_rsvmap b + of_int mem_rsv_size \<or>
     fdt_off_dt_strings b < fdt_off_dt_struct b + of_int struct_size \<or>
     fdt_totalsize b < fdt_off_dt_strings b + fdt_size_dt_strings b"

definition fdt_rw_probe :: "blob \<Rightarrow> int \<times> blob" where
  "fdt_rw_probe b =
     (if fdt_ro_probe b < 0 then (fdt_ro_probe b, b)
      else if fdt_version b < 17 then (- FDT_ERR_BADVERSION, b)
      else if fdt_blocks_misordered b 16 (sint (fdt_size_dt_struct b)) then (- FDT_ERR_BADLAYOUT, b)
      else (0, if 17 < fdt_version b then fdt_set_version 17 b else b))"

definition fdt_data_size :: "blob \<Rightarrow> u32" where
  "fdt_data_size b = fdt_off_dt_strings b + fdt_size_dt_strings b"

text \<open>A position before the buffer is a huge offset.\<close>

definition fdt_splice :: "int \<Rightarrow> int \<Rightarrow> int \<Rightarrow> blob \<Rightarrow> (int \<times> blob) option" where
  "fdt_splice p oldlen newlen b =
     (let dsize = fdt_data_size b
      in if oldlen < 0 \<or> p < 0 \<or> uint dsize < p + oldlen then Some (- FDT_ERR_BADOFFSET, b)
         else if dsize + of_int newlen < of_int oldlen then Some (- FDT_ERR_BADOFFSET, b)
         else if fdt_totalsize b < dsize - of_int oldlen + of_int newlen then Some (- FDT_ERR_NOSPACE, b)
         else do { b1 \<leftarrow> memmove b (p + newlen) (p + oldlen) (uint dsize - (p + oldlen)); Some (0, b1) })"

definition fdt_splice_mem_rsv :: "int \<Rightarrow> int \<Rightarrow> int \<Rightarrow> blob \<Rightarrow> (int \<times> blob) option" where
  "fdt_splice_mem_rsv p oldn newn b =
     (let delta = of_int ((newn - oldn) * 16)
      in if_ok0 (fdt_splice p (oldn * 16) (newn * 16) b)
           (\<lambda>b1. let b2 = fdt_set_off_dt_struct (fdt_off_dt_struct b1 + delta) b1
                  in Some (0, fdt_set_off_dt_strings (fdt_off_dt_strings b2 + delta) b2)))"

definition fdt_splice_struct :: "int \<Rightarrow> int \<Rightarrow> int \<Rightarrow> blob \<Rightarrow> (int \<times> blob) option" where
  "fdt_splice_struct p oldlen newlen b =
     (let delta = of_int (newlen - oldlen)
      in if_ok0 (fdt_splice p oldlen newlen b)
           (\<lambda>b1. let b2 = fdt_set_size_dt_struct (fdt_size_dt_struct b1 + delta) b1
                  in Some (0, fdt_set_off_dt_strings (fdt_off_dt_strings b2 + delta) b2)))"

definition fdt_splice_string :: "int \<Rightarrow> blob \<Rightarrow> (int \<times> blob) option" where
  "fdt_splice_string newlen b =
     if_ok0 (fdt_splice (uint (fdt_off_dt_strings b) + uint (fdt_size_dt_strings b)) 0 newlen b)
       (\<lambda>b1. Some (0, fdt_set_size_dt_strings (fdt_size_dt_strings b1 + of_int newlen) b1))"

definition fdt_del_last_string_rw :: "string \<Rightarrow> blob \<Rightarrow> blob" where
  "fdt_del_last_string_rw s b = fdt_set_size_dt_strings (fdt_size_dt_strings b - of_nat (length s + 1)) b"

text \<open>The offset of the string, and whether it has been added.\<close>

definition fdt_find_add_string_rw :: "string \<Rightarrow> blob \<Rightarrow> (int \<times> bool \<times> blob) option" where
  "fdt_find_add_string_rw s b =
     (let off = unat (fdt_off_dt_strings b); n = unat (fdt_size_dt_strings b)
      in if length b < off + n then None
         else case fdt_find_string (take n (drop off b)) s of
                Some p \<Rightarrow> Some (int p, False, b)
              | None \<Rightarrow> if_ok (fdt_splice_string (int (length s + 1)) b)
                          (\<lambda>b1. do { b2 \<leftarrow> wr b1 (off + n) (s @ [NUL]); Some (int n, True, b2) }) False)"

section \<open>Reserved memory\<close>

definition fdt_add_mem_rsv :: "u64 \<Rightarrow> u64 \<Rightarrow> blob \<Rightarrow> (int \<times> blob) option" where
  "fdt_add_mem_rsv address len b =
     if_ok0 (Some (fdt_rw_probe b))
       (\<lambda>b1. do { n \<leftarrow> fdt_num_mem_rsv b1;
                   let re = uint (fdt_off_mem_rsvmap b1) + 16 * n
                   in if_ok0 (fdt_splice_mem_rsv re 0 1 b1)
                        (\<lambda>b2. do { b3 \<leftarrow> wr b2 (nat re) (be64 address @ be64 len); Some (0, b3) }) })"

definition fdt_del_mem_rsv :: "int \<Rightarrow> blob \<Rightarrow> (int \<times> blob) option" where
  "fdt_del_mem_rsv n b =
     (let re = uint (fdt_off_mem_rsvmap b) + 16 * n
      in if_ok0 (Some (fdt_rw_probe b))
           (\<lambda>b1. do { num \<leftarrow> fdt_num_mem_rsv b1;
                       if num \<le> n then Some (- FDT_ERR_NOTFOUND, b1) else fdt_splice_mem_rsv re 1 0 b1 }))"

section \<open>Properties\<close>

text \<open>The position of the value comes with the result.\<close>

definition fdt_resize_property :: "int \<Rightarrow> string \<Rightarrow> int \<Rightarrow> blob \<Rightarrow> (int \<times> nat \<times> blob) option" where
  "fdt_resize_property nodeoffset name len b =
     do { r \<leftarrow> fdt_get_property b nodeoffset name;
          case r of
            Inl e \<Rightarrow> Some (e, 0, b)
          | Inr pr \<Rightarrow>
              if_ok (fdt_splice_struct (int (prop_data pr)) (c_int (FDT_TAGALIGN (sint (prop_len pr)))) (c_int (FDT_TAGALIGN len)) b)
                (\<lambda>b1. do { b2 \<leftarrow> wr b1 (prop_data pr - 8) (be32 (of_int len)); Some (0, prop_data pr, b2) }) 0 }"

definition fdt_add_property :: "int \<Rightarrow> string \<Rightarrow> int \<Rightarrow> blob \<Rightarrow> (int \<times> nat \<times> blob) option" where
  "fdt_add_property nodeoffset name len b =
     do { nextoffset \<leftarrow> fdt_check_node_offset b nodeoffset;
          if nextoffset < 0 then Some (nextoffset, 0, b)
          else
            do { (namestroff, allocated, b1) \<leftarrow> fdt_find_add_string_rw name b;
                 if namestroff < 0 then Some (namestroff, 0, b1)
                 else
                   let p = unat (fdt_off_dt_struct b1) + nat nextoffset; proplen = c_int (12 + FDT_TAGALIGN len)
                   in do { (err, b2) \<leftarrow> fdt_splice_struct (int p) 0 proplen b1;
                           if err \<noteq> 0 then Some (err, 0, if allocated then fdt_del_last_string_rw name b2 else b2)
                           else do { b3 \<leftarrow> wr b2 p (be32 FDT_PROP);
                                     b4 \<leftarrow> wr b3 (p + 8) (be32 (of_int namestroff));
                                     b5 \<leftarrow> wr b4 (p + 4) (be32 (of_int len));
                                     Some (0, p + 12, b5) } } } }"

definition fdt_set_name :: "int \<Rightarrow> string \<Rightarrow> blob \<Rightarrow> (int \<times> blob) option" where
  "fdt_set_name nodeoffset name b =
     if_ok0 (Some (fdt_rw_probe b))
       (\<lambda>b1. do { r \<leftarrow> fdt_get_name b1 nodeoffset;
                   case r of
                     Inl oldlen \<Rightarrow> Some (oldlen, b1)
                   | Inr old \<Rightarrow>
                       let namep = unat (fdt_off_dt_struct b1) + nat nodeoffset + 4
                       in if_ok0 (fdt_splice_struct (int namep) (c_int (FDT_TAGALIGN (int (length old) + 1)))
                                    (c_int (FDT_TAGALIGN (int (length name) + 1))) b1)
                            (\<lambda>b2. do { b3 \<leftarrow> wr b2 namep (name @ [NUL]); Some (0, b3) }) })"

definition fdt_setprop_placeholder :: "int \<Rightarrow> string \<Rightarrow> int \<Rightarrow> blob \<Rightarrow> (int \<times> nat \<times> blob) option" where
  "fdt_setprop_placeholder nodeoffset name len b =
     if_ok (Some (fdt_rw_probe b))
       (\<lambda>b1. do { (err, data, b2) \<leftarrow> fdt_resize_property nodeoffset name len b1;
                   if err = - FDT_ERR_NOTFOUND then fdt_add_property nodeoffset name len b2 else Some (err, data, b2) }) 0"

definition fdt_setprop :: "int \<Rightarrow> string \<Rightarrow> char list \<Rightarrow> blob \<Rightarrow> (int \<times> blob) option" where
  "fdt_setprop nodeoffset name val b =
     do { (err, data, b1) \<leftarrow> fdt_setprop_placeholder nodeoffset name (int (length val)) b;
          if err \<noteq> 0 then Some (err, b1) else do { b2 \<leftarrow> wr b1 data val; Some (0, b2) } }"

definition fdt_setprop_u32 :: "int \<Rightarrow> string \<Rightarrow> u32 \<Rightarrow> blob \<Rightarrow> (int \<times> blob) option" where
  "fdt_setprop_u32 nodeoffset name val b = fdt_setprop nodeoffset name (be32 val) b"

definition fdt_setprop_u64 :: "int \<Rightarrow> string \<Rightarrow> u64 \<Rightarrow> blob \<Rightarrow> (int \<times> blob) option" where
  "fdt_setprop_u64 nodeoffset name val b = fdt_setprop nodeoffset name (be64 val) b"

definition fdt_setprop_cell :: "int \<Rightarrow> string \<Rightarrow> u32 \<Rightarrow> blob \<Rightarrow> (int \<times> blob) option" where
  "fdt_setprop_cell nodeoffset name val b = fdt_setprop_u32 nodeoffset name val b"

definition fdt_appendprop :: "int \<Rightarrow> string \<Rightarrow> char list \<Rightarrow> blob \<Rightarrow> (int \<times> blob) option" where
  "fdt_appendprop nodeoffset name val b =
     if_ok0 (Some (fdt_rw_probe b))
       (\<lambda>b1. do { r \<leftarrow> fdt_get_property b1 nodeoffset name;
                   case r of
                     Inr pr \<Rightarrow>
                       let oldlen = sint (prop_len pr); newlen = int (length val) + oldlen
                       in if INT_MAX < newlen then None
                          else if_ok0 (fdt_splice_struct (int (prop_data pr)) (c_int (FDT_TAGALIGN oldlen)) (c_int (FDT_TAGALIGN newlen)) b1)
                                 (\<lambda>b2. do { b3 \<leftarrow> wr b2 (prop_data pr - 8) (be32 (of_int newlen));
                                             b4 \<leftarrow> wr b3 (nat (int (prop_data pr) + oldlen)) val;
                                             Some (0, b4) })
                   | Inl _ \<Rightarrow>
                       do { (err, data, b2) \<leftarrow> fdt_add_property nodeoffset name (int (length val)) b1;
                            if err \<noteq> 0 then Some (err, b2) else do { b3 \<leftarrow> wr b2 data val; Some (0, b3) } } })"

definition fdt_appendprop_u32 :: "int \<Rightarrow> string \<Rightarrow> u32 \<Rightarrow> blob \<Rightarrow> (int \<times> blob) option" where
  "fdt_appendprop_u32 nodeoffset name val b = fdt_appendprop nodeoffset name (be32 val) b"

definition fdt_appendprop_u64 :: "int \<Rightarrow> string \<Rightarrow> u64 \<Rightarrow> blob \<Rightarrow> (int \<times> blob) option" where
  "fdt_appendprop_u64 nodeoffset name val b = fdt_appendprop nodeoffset name (be64 val) b"

definition fdt_appendprop_cell :: "int \<Rightarrow> string \<Rightarrow> u32 \<Rightarrow> blob \<Rightarrow> (int \<times> blob) option" where
  "fdt_appendprop_cell nodeoffset name val b = fdt_appendprop_u32 nodeoffset name val b"

definition fdt_delprop :: "int \<Rightarrow> string \<Rightarrow> blob \<Rightarrow> (int \<times> blob) option" where
  "fdt_delprop nodeoffset name b =
     if_ok0 (Some (fdt_rw_probe b))
       (\<lambda>b1. do { r \<leftarrow> fdt_get_property b1 nodeoffset name;
                   case r of
                     Inl len \<Rightarrow> Some (len, b1)
                   | Inr pr \<Rightarrow> fdt_splice_struct (int (prop_data pr) - 12) (c_int (12 + FDT_TAGALIGN (sint (prop_len pr)))) 0 b1 })"

text \<open>An address and a size in the cells the parent declares.\<close>

definition fdt_appendprop_addrrange :: "int \<Rightarrow> int \<Rightarrow> string \<Rightarrow> u64 \<Rightarrow> u64 \<Rightarrow> blob \<Rightarrow> (int \<times> blob) option" where
  "fdt_appendprop_addrrange parent nodeoffset name addr len b =
     do { addr_cells \<leftarrow> fdt_address_cells b parent;
          if addr_cells < 0 then Some (addr_cells, b)
          else
            do { size_cells \<leftarrow> fdt_size_cells b parent;
                 if size_cells < 0 then Some (size_cells, b)
                 else if addr_cells = 1 \<and> (0xffffffff < addr \<or> 0x100000000 - addr < len) then Some (- FDT_ERR_BADVALUE, b)
                 else if addr_cells \<noteq> 1 \<and> addr_cells \<noteq> 2 then Some (- FDT_ERR_BADNCELLS, b)
                 else if size_cells = 1 \<and> 0xffffffff < len then Some (- FDT_ERR_BADVALUE, b)
                 else if size_cells \<noteq> 1 \<and> size_cells \<noteq> 2 then Some (- FDT_ERR_BADNCELLS, b)
                 else fdt_appendprop nodeoffset name
                        ((if addr_cells = 1 then be32 (ucast addr) else be64 addr) @
                         (if size_cells = 1 then be32 (ucast len) else be64 len)) b } }"

section \<open>Nodes\<close>

partial_function (option) after_props :: "blob \<Rightarrow> int \<Rightarrow> int option" where
  "after_props b offset =
     Option.bind (fdt_next_tag b offset) (\<lambda>(tag, next). if tag = FDT_PROP \<or> tag = FDT_NOP then after_props b next else Some offset)"

definition fdt_add_subnode_namelen :: "int \<Rightarrow> string \<Rightarrow> blob \<Rightarrow> (int \<times> blob) option" where
  "fdt_add_subnode_namelen parentoffset name b =
     if_ok0 (Some (fdt_rw_probe b))
       (\<lambda>b1. do { offset \<leftarrow> fdt_subnode_offset_namelen b1 parentoffset name;
                   if 0 \<le> offset then Some (- FDT_ERR_EXISTS, b1)
                   else if offset \<noteq> - FDT_ERR_NOTFOUND then Some (offset, b1)
                   else
                     do { (tag, next) \<leftarrow> fdt_next_tag b1 parentoffset;
                          if tag \<noteq> FDT_BEGIN_NODE then Some (- FDT_ERR_INTERNAL, b1)
                          else
                            do { off \<leftarrow> after_props b1 next;
                                 let nh = unat (fdt_off_dt_struct b1) + nat off;
                                     namesize = FDT_TAGALIGN (int (length name) + 1);
                                     nodelen = c_int (8 + namesize)
                                 in if_ok0 (fdt_splice_struct (int nh) 0 nodelen b1)
                                      (\<lambda>b2. do { b3 \<leftarrow> wr b2 nh (be32 FDT_BEGIN_NODE);
                                                  b4 \<leftarrow> wr b3 (nh + 4) (replicate (nat namesize) NUL);
                                                  b5 \<leftarrow> wr b4 (nh + 4) name;
                                                  b6 \<leftarrow> wr b5 (nh + nat nodelen - 4) (be32 FDT_END_NODE);
                                                  Some (off, b6) }) } } })"

definition fdt_add_subnode :: "int \<Rightarrow> string \<Rightarrow> blob \<Rightarrow> (int \<times> blob) option" where
  "fdt_add_subnode parentoffset name b = fdt_add_subnode_namelen parentoffset name b"

definition fdt_del_node :: "int \<Rightarrow> blob \<Rightarrow> (int \<times> blob) option" where
  "fdt_del_node nodeoffset b =
     if_ok0 (Some (fdt_rw_probe b))
       (\<lambda>b1. do { endoffset \<leftarrow> fdt_node_end_offset b1 nodeoffset;
                   if endoffset < 0 then Some (endoffset, b1)
                   else fdt_splice_struct (uint (fdt_off_dt_struct b1) + nodeoffset) (endoffset - nodeoffset) 0 b1 })"

section \<open>Buffers\<close>

text \<open>Two buffers are positions in one memory \<open>m\<close>, which may overlap.\<close>

definition fdt_at :: "nat \<Rightarrow> (blob \<Rightarrow> blob) \<Rightarrow> blob \<Rightarrow> blob" where
  "fdt_at q f m = take q m @ f (drop q m)"

definition fdt_move :: "nat \<Rightarrow> nat \<Rightarrow> int \<Rightarrow> blob \<Rightarrow> (int \<times> blob) option" where
  "fdt_move f q bufsize m =
     (let b = drop f m
      in if bufsize < 0 then Some (- FDT_ERR_NOSPACE, m)
         else if fdt_ro_probe b < 0 then Some (fdt_ro_probe b, m)
         else if of_int bufsize < fdt_totalsize b then Some (- FDT_ERR_NOSPACE, m)
         else do { m1 \<leftarrow> memmove m (int q) (int f) (uint (fdt_totalsize b)); Some (0, m1) })"

definition fdt_resize :: "nat \<Rightarrow> nat \<Rightarrow> int \<Rightarrow> blob \<Rightarrow> (int \<times> blob) option" where
  "fdt_resize f q bufsize m =
     (let b = drop f m;
          headsize = uint (fdt_off_dt_struct b + fdt_size_dt_struct b);
          tailsize = uint (fdt_size_dt_strings b);
          oldtail = int f + uint (fdt_totalsize b) - tailsize;
          newtail = int q + bufsize - tailsize
      in if fdt_sw_probe b \<noteq> 0 then Some (fdt_sw_probe b, m)
         else if bufsize < 0 then Some (- FDT_ERR_NOSPACE, m)
         else if uint (fdt_totalsize b) < headsize + tailsize then Some (- FDT_ERR_INTERNAL, m)
         else if bufsize < headsize + tailsize then Some (- FDT_ERR_NOSPACE, m)
         else do { m1 \<leftarrow> (if q \<le> f then memmove m (int q) (int f) headsize else memmove m newtail oldtail tailsize);
                   m2 \<leftarrow> (if q \<le> f then memmove m1 newtail oldtail tailsize else memmove m1 (int q) (int f) headsize);
                   let m3 = fdt_at q (fdt_set_totalsize (of_int bufsize)) m2
                   in Some (0, if fdt_off_dt_strings (drop q m3) \<noteq> 0 then fdt_at q (fdt_set_off_dt_strings (of_int bufsize)) m3 else m3) })"

definition fdt_packblocks :: "nat \<Rightarrow> nat \<Rightarrow> int \<Rightarrow> int \<Rightarrow> int \<Rightarrow> blob \<Rightarrow> blob option" where
  "fdt_packblocks old new mem_rsv_size struct_size strings_size m =
     (let struct_off = 40 + mem_rsv_size; strings_off = struct_off + struct_size
      in do { m1 \<leftarrow> memmove m (int new + 40) (int old + uint (fdt_off_mem_rsvmap (drop old m))) mem_rsv_size;
              let m2 = fdt_at new (fdt_set_off_mem_rsvmap 40) m1
              in do { m3 \<leftarrow> memmove m2 (int new + struct_off) (int old + uint (fdt_off_dt_struct (drop old m2))) struct_size;
                      let m4 = fdt_at new (\<lambda>b. fdt_set_size_dt_struct (of_int struct_size) (fdt_set_off_dt_struct (of_int struct_off) b)) m3
                      in do { m5 \<leftarrow> memmove m4 (int new + strings_off) (int old + uint (fdt_off_dt_strings (drop old m4))) strings_size;
                              let m6 = fdt_at new (fdt_set_off_dt_strings (of_int strings_off)) m5
                              in Some (fdt_at new (fdt_set_size_dt_strings (fdt_size_dt_strings (drop old m6))) m6) } } })"

text \<open>The search for the end of a structure block without recorded size.\<close>

partial_function (option) struct_end :: "blob \<Rightarrow> int \<Rightarrow> int option" where
  "struct_end b offset = Option.bind (fdt_next_tag b offset) (\<lambda>(tag, next). if tag \<noteq> FDT_END then struct_end b next else Some next)"

definition fdt_open_into :: "nat \<Rightarrow> nat \<Rightarrow> int \<Rightarrow> blob \<Rightarrow> (int \<times> blob) option" where
  "fdt_open_into f q bufsize m =
     (let b = drop f m
      in if fdt_ro_probe b < 0 then Some (fdt_ro_probe b, m)
         else
           do { num \<leftarrow> fdt_num_mem_rsv b;
                size \<leftarrow> (if 17 \<le> fdt_version b then Some (Inr (sint (fdt_size_dt_struct b)))
                        else if fdt_version b = 16
                        then do { e \<leftarrow> struct_end b 0; Some (if e < 0 then Inl e else Inr e) }
                        else Some (Inl (- FDT_ERR_BADVERSION)));
                case size of
                  Inl err \<Rightarrow> Some (err, m)
                | Inr struct_size \<Rightarrow>
                    let mem_rsv_size = (num + 1) * 16;
                        newsize = c_int (40 + mem_rsv_size + struct_size + uint (fdt_size_dt_strings b));
                        fdtend = f + unat (fdt_totalsize b);
                        overlap = int f < int q + newsize \<and> q < fdtend;
                        tmp = (if overlap then fdtend else q)
                    in if \<not> fdt_blocks_misordered b mem_rsv_size struct_size
                       then if_ok0 (fdt_move f q bufsize m)
                              (\<lambda>m1. Some (0, fdt_at q (\<lambda>d. fdt_set_totalsize (of_int bufsize)
                                               (fdt_set_size_dt_struct (of_int struct_size) (fdt_set_version 17 d))) m1))
                       else if bufsize < newsize then Some (- FDT_ERR_NOSPACE, m)
                       else if overlap \<and> int q + bufsize < int tmp + newsize then Some (- FDT_ERR_NOSPACE, m)
                       else do { m1 \<leftarrow> fdt_packblocks f tmp mem_rsv_size struct_size (sint (fdt_size_dt_strings b)) m;
                                 m2 \<leftarrow> memmove m1 (int q) (int tmp) newsize;
                                 let m3 = fdt_at q (\<lambda>d. fdt_set_last_comp_version 16 (fdt_set_version 17
                                            (fdt_set_totalsize (of_int bufsize) (fdt_set_magic FDT_MAGIC d)))) m2
                                 in Some (0, fdt_at q (fdt_set_boot_cpuid_phys (fdt_boot_cpuid_phys (drop f m3))) m3) } })"

definition fdt_pack :: "blob \<Rightarrow> (int \<times> blob) option" where
  "fdt_pack b =
     if_ok0 (Some (fdt_rw_probe b))
       (\<lambda>b1. do { num \<leftarrow> fdt_num_mem_rsv b1;
                   b2 \<leftarrow> fdt_packblocks 0 0 ((num + 1) * 16) (sint (fdt_size_dt_struct b1)) (sint (fdt_size_dt_strings b1)) b1;
                   Some (0, fdt_set_totalsize (fdt_data_size b2) b2) })"

definition fdt_create_empty_tree :: "blob \<Rightarrow> int \<Rightarrow> (int \<times> blob) option" where
  "fdt_create_empty_tree buf bufsize =
     if_ok0 (fdt_create buf bufsize) (\<lambda>b1.
     if_ok0 (fdt_finish_reservemap b1) (\<lambda>b2.
     if_ok0 (fdt_begin_node [] b2) (\<lambda>b3.
     if_ok0 (fdt_end_node b3) (\<lambda>b4.
     if_ok0 (fdt_finish b4) (\<lambda>b5. fdt_open_into 0 0 bufsize b5)))))"

declare node_end_loop.simps [code] after_props.simps [code] struct_end.simps [code]

end
