(* ===== verification/Fdt_Overlay.thy ===== *)
theory Fdt_Overlay
  imports Fdt_Rw
begin

text \<open>
  Device tree overlays, \<open>fdt_overlay.c\<close>.  \<open>b\<close> is the base tree and \<open>ov\<close> the overlay, two buffers that do not
  overlap.  The loops over properties and subnodes follow \<open>fdt_for_each_property_offset\<close> and
  \<open>fdt_for_each_subnode\<close>: a negative offset ends them.
\<close>

abbreviation (input) FDT_ERR_BADOVERLAY :: int where "FDT_ERR_BADOVERLAY \<equiv> 16"

section \<open>Targets\<close>

definition overlay_get_target_phandle :: "blob \<Rightarrow> int \<Rightarrow> u32 option" where
  "overlay_get_target_phandle ov fragment =
     do { r \<leftarrow> fdt_getprop ov fragment ''target'';
          case r of
            Inl _ \<Rightarrow> Some 0
          | Inr (p, len) \<Rightarrow> if len \<noteq> 4 then Some (- 1) else rd32 ov p }"

text \<open>The result and the path of the target, if the fragment has one.\<close>

definition fdt_overlay_target_offset :: "blob \<Rightarrow> blob \<Rightarrow> int \<Rightarrow> (int \<times> string option) option" where
  "fdt_overlay_target_offset b ov fragment =
     do { phandle \<leftarrow> overlay_get_target_phandle ov fragment;
          if phandle = - 1 then Some (- FDT_ERR_BADPHANDLE, None)
          else if phandle \<noteq> 0 then do { ret \<leftarrow> fdt_node_offset_by_phandle b phandle; Some (ret, None) }
          else
            do { r \<leftarrow> fdt_getprop ov fragment ''target-path'';
                 case r of
                   Inl path_len \<Rightarrow> Some (if path_len = - FDT_ERR_NOTFOUND then - FDT_ERR_BADOVERLAY else path_len, None)
                 | Inr (p, _) \<Rightarrow> do { path \<leftarrow> cstr (drop p ov); ret \<leftarrow> fdt_path_offset b path; Some (ret, Some path) } } }"

section \<open>Moving the phandles of the overlay\<close>

definition overlay_phandle_add_offset :: "int \<Rightarrow> string \<Rightarrow> u32 \<Rightarrow> blob \<Rightarrow> (int \<times> blob) option" where
  "overlay_phandle_add_offset nd name delta ov =
     do { r \<leftarrow> fdt_getprop ov nd name;
          case r of
            Inl len \<Rightarrow> Some (len, ov)
          | Inr (p, len) \<Rightarrow>
              if len \<noteq> 4 then Some (- FDT_ERR_BADPHANDLE, ov)
              else do { val \<leftarrow> rd32 ov p;
                        if val + delta < val then Some (- FDT_ERR_NOPHANDLES, ov)
                        else if val + delta = - 1 then Some (- FDT_ERR_NOPHANDLES, ov)
                        else fdt_setprop_inplace_u32 nd name (val + delta) ov } }"

definition adjust_own_phandles :: "int \<Rightarrow> u32 \<Rightarrow> blob \<Rightarrow> (int \<times> blob) option" where
  "adjust_own_phandles nd delta ov =
     do { (r1, ov1) \<leftarrow> overlay_phandle_add_offset nd ''phandle'' delta ov;
          if r1 \<noteq> 0 \<and> r1 \<noteq> - FDT_ERR_NOTFOUND then Some (r1, ov1)
          else do { (r2, ov2) \<leftarrow> overlay_phandle_add_offset nd ''linux,phandle'' delta ov1;
                    Some (if r2 \<noteq> 0 \<and> r2 \<noteq> - FDT_ERR_NOTFOUND then r2 else 0, ov2) } }"

text \<open>The loop over the subnodes from \<open>child\<close> on, each with the nodes inside of it.\<close>

partial_function (option) adjust_subnodes :: "int \<Rightarrow> u32 \<Rightarrow> blob \<Rightarrow> (int \<times> blob) option" where
  "adjust_subnodes child delta ov =
     (if child < 0 then Some (0, ov)
      else Option.bind (adjust_own_phandles child delta ov) (\<lambda>(r1, ov1).
             if r1 \<noteq> 0 then Some (r1, ov1)
             else Option.bind (fdt_first_subnode ov1 child) (\<lambda>c.
                    Option.bind (adjust_subnodes c delta ov1) (\<lambda>(r2, ov2).
                      if r2 \<noteq> 0 then Some (r2, ov2)
                      else Option.bind (fdt_next_subnode ov2 child) (\<lambda>n. adjust_subnodes n delta ov2)))))"

definition overlay_adjust_node_phandles :: "int \<Rightarrow> u32 \<Rightarrow> blob \<Rightarrow> (int \<times> blob) option" where
  "overlay_adjust_node_phandles nd delta ov =
     do { (r1, ov1) \<leftarrow> adjust_own_phandles nd delta ov;
          if r1 \<noteq> 0 then Some (r1, ov1) else do { c \<leftarrow> fdt_first_subnode ov1 nd; adjust_subnodes c delta ov1 } }"

definition overlay_adjust_local_phandles :: "u32 \<Rightarrow> blob \<Rightarrow> (int \<times> blob) option" where
  "overlay_adjust_local_phandles delta ov = overlay_adjust_node_phandles 0 delta ov"

section \<open>Moving the references inside of the overlay\<close>

text \<open>The cells of one property of the fixups: each is the offset of a reference in the value at
  \<open>tree_val\<close>.  The reference is read before the offset is compared with the length of the value.\<close>

fun fixup_cells :: "nat \<Rightarrow> nat \<Rightarrow> nat \<Rightarrow> int \<Rightarrow> string \<Rightarrow> u32 \<Rightarrow> blob \<Rightarrow> (int \<times> blob) option" where
  "fixup_cells 0 fixup_val tree_val tree_node name delta ov = Some (0, ov)"
| "fixup_cells (Suc n) fixup_val tree_val tree_node name delta ov =
     do { poffset \<leftarrow> rd32 ov fixup_val;
          adj_val \<leftarrow> rd32 ov (tree_val + unat poffset);
          (ret, ov1) \<leftarrow> fdt_setprop_inplace_namelen_partial tree_node name poffset (be32 (adj_val + delta)) ov;
          if ret = - FDT_ERR_NOSPACE then Some (- FDT_ERR_BADOVERLAY, ov1)
          else if ret \<noteq> 0 then Some (ret, ov1)
          else fixup_cells n (fixup_val + 4) tree_val tree_node name delta ov1 }"

partial_function (option) fixup_props :: "int \<Rightarrow> int \<Rightarrow> u32 \<Rightarrow> blob \<Rightarrow> (int \<times> blob) option" where
  "fixup_props fixup_prop tree_node delta ov =
     (if fixup_prop < 0 then Some (0, ov)
      else Option.bind (fdt_getprop_by_offset ov fixup_prop) (\<lambda>r.
             case r of
               Inl fixup_len \<Rightarrow> Some (fixup_len, ov)
             | Inr ((fixup_val, fixup_len), name) \<Rightarrow>
                 if unat fixup_len mod 4 \<noteq> 0 then Some (- FDT_ERR_BADOVERLAY, ov)
                 else Option.bind (fdt_getprop ov tree_node name) (\<lambda>t.
                        case t of
                          Inl tree_len \<Rightarrow> Some (if tree_len = - FDT_ERR_NOTFOUND then - FDT_ERR_BADOVERLAY else tree_len, ov)
                        | Inr (tree_val, tree_len) \<Rightarrow>
                            Option.bind (fixup_cells (unat fixup_len div 4) fixup_val tree_val tree_node name delta ov) (\<lambda>(ret, ov1).
                              if ret \<noteq> 0 then Some (ret, ov1)
                              else Option.bind (fdt_next_property_offset ov1 fixup_prop) (\<lambda>n. fixup_props n tree_node delta ov1)))))"

definition fixup_own :: "int \<Rightarrow> int \<Rightarrow> u32 \<Rightarrow> blob \<Rightarrow> (int \<times> blob) option" where
  "fixup_own tree_node fixup_node delta ov = do { p \<leftarrow> fdt_first_property_offset ov fixup_node; fixup_props p tree_node delta ov }"

partial_function (option) fixup_subnodes :: "int \<Rightarrow> int \<Rightarrow> u32 \<Rightarrow> blob \<Rightarrow> (int \<times> blob) option" where
  "fixup_subnodes fixup_child tree_node delta ov =
     (if fixup_child < 0 then Some (0, ov)
      else Option.bind (fdt_get_name ov fixup_child) (\<lambda>nm.
             case nm of
               Inl _ \<Rightarrow> None
             | Inr name \<Rightarrow>
                 Option.bind (fdt_subnode_offset ov tree_node name) (\<lambda>tree_child.
                   if tree_child = - FDT_ERR_NOTFOUND then Some (- FDT_ERR_BADOVERLAY, ov)
                   else if tree_child < 0 then Some (tree_child, ov)
                   else Option.bind (fixup_own tree_child fixup_child delta ov) (\<lambda>(r1, ov1).
                          if r1 \<noteq> 0 then Some (r1, ov1)
                          else Option.bind (fdt_first_subnode ov1 fixup_child) (\<lambda>c.
                                 Option.bind (fixup_subnodes c tree_child delta ov1) (\<lambda>(r2, ov2).
                                   if r2 \<noteq> 0 then Some (r2, ov2)
                                   else Option.bind (fdt_next_subnode ov2 fixup_child) (\<lambda>n. fixup_subnodes n tree_node delta ov2)))))))"

definition overlay_update_local_node_references :: "int \<Rightarrow> int \<Rightarrow> u32 \<Rightarrow> blob \<Rightarrow> (int \<times> blob) option" where
  "overlay_update_local_node_references tree_node fixup_node delta ov =
     do { (r1, ov1) \<leftarrow> fixup_own tree_node fixup_node delta ov;
          if r1 \<noteq> 0 then Some (r1, ov1) else do { c \<leftarrow> fdt_first_subnode ov1 fixup_node; fixup_subnodes c tree_node delta ov1 } }"

definition overlay_update_local_references :: "u32 \<Rightarrow> blob \<Rightarrow> (int \<times> blob) option" where
  "overlay_update_local_references delta ov =
     do { fixups \<leftarrow> fdt_path_offset ov ''/__local_fixups__'';
          if fixups < 0 then Some (if fixups = - FDT_ERR_NOTFOUND then 0 else fixups, ov)
          else overlay_update_local_node_references 0 fixups delta ov }"

section \<open>Resolving references to the base tree\<close>

definition overlay_fixup_one_phandle :: "blob \<Rightarrow> int \<Rightarrow> string \<Rightarrow> string \<Rightarrow> int \<Rightarrow> string \<Rightarrow> blob \<Rightarrow> (int \<times> blob) option" where
  "overlay_fixup_one_phandle b symbols_off path name poffset label ov =
     (if symbols_off < 0 then Some (symbols_off, ov)
      else
        do { r \<leftarrow> fdt_getprop b symbols_off label;
             case r of
               Inl e \<Rightarrow> Some (e, ov)
             | Inr (p, _) \<Rightarrow>
                 do { symbol_path \<leftarrow> cstr (drop p b);
                      symbol_off \<leftarrow> fdt_path_offset b symbol_path;
                      if symbol_off < 0 then Some (symbol_off, ov)
                      else
                        do { phandle \<leftarrow> fdt_get_phandle b symbol_off;
                             if phandle = 0 then Some (- FDT_ERR_NOTFOUND, ov)
                             else
                               do { fixup_off \<leftarrow> fdt_path_offset ov path;
                                    if fixup_off = - FDT_ERR_NOTFOUND then Some (- FDT_ERR_BADOVERLAY, ov)
                                    else if fixup_off < 0 then Some (fixup_off, ov)
                                    else fdt_setprop_inplace_namelen_partial fixup_off name (of_int poffset) (be32 phandle) ov } } } })"

text \<open>One entry \<open>path:name:offset\<close> of a fixup, \<open>None\<close> when it is malformed.\<close>

definition parse_fixup :: "string \<Rightarrow> (string \<times> string \<times> int) option" where
  "parse_fixup s =
     (let path = takeWhile (\<lambda>c. c \<noteq> CHR '':'') s;
          rest = drop (length path + 1) s;
          name = takeWhile (\<lambda>c. c \<noteq> CHR '':'') rest;
          num = drop (length name + 1) rest
      in if CHR '':'' \<notin> set s \<or> rest = [] \<or> CHR '':'' \<notin> set rest \<or> name = [] then None
         else case strtoul10 num of
                (v, used, _) \<Rightarrow> if used = 0 \<or> used \<noteq> length num then None else Some (path, name, sint (of_nat v :: u32)))"

partial_function (option) fixup_entries :: "blob \<Rightarrow> int \<Rightarrow> string \<Rightarrow> nat \<Rightarrow> int \<Rightarrow> blob \<Rightarrow> (int \<times> blob) option" where
  "fixup_entries b symbols_off label val len ov =
     (if length ov < val + nat len then None
      else case cstr (take (nat len) (drop val ov)) of
             None \<Rightarrow> Some (- FDT_ERR_BADOVERLAY, ov)
           | Some s \<Rightarrow>
               (case parse_fixup s of
                  None \<Rightarrow> Some (- FDT_ERR_BADOVERLAY, ov)
                | Some (path, name, poffset) \<Rightarrow>
                    Option.bind (overlay_fixup_one_phandle b symbols_off path name poffset label ov) (\<lambda>(ret, ov1).
                      if ret \<noteq> 0 then Some (ret, ov1)
                      else let len1 = len - int (length s + 1)
                           in if 0 < len1 then fixup_entries b symbols_off label (val + length s + 1) len1 ov1 else Some (0, ov1))))"

definition overlay_fixup_phandle :: "blob \<Rightarrow> int \<Rightarrow> int \<Rightarrow> blob \<Rightarrow> (int \<times> blob) option" where
  "overlay_fixup_phandle b symbols_off property ov =
     do { r \<leftarrow> fdt_getprop_by_offset ov property;
          case r of
            Inl len \<Rightarrow> Some (if len = - FDT_ERR_NOTFOUND then - FDT_ERR_INTERNAL else len, ov)
          | Inr ((val, len), label) \<Rightarrow> fixup_entries b symbols_off label val (sint len) ov }"

partial_function (option) fixup_all :: "blob \<Rightarrow> int \<Rightarrow> int \<Rightarrow> blob \<Rightarrow> (int \<times> blob) option" where
  "fixup_all b symbols_off property ov =
     (if property < 0 then Some (0, ov)
      else Option.bind (overlay_fixup_phandle b symbols_off property ov) (\<lambda>(ret, ov1).
             if ret \<noteq> 0 then Some (ret, ov1)
             else Option.bind (fdt_next_property_offset ov1 property) (\<lambda>n. fixup_all b symbols_off n ov1)))"

definition overlay_fixup_phandles :: "blob \<Rightarrow> blob \<Rightarrow> (int \<times> blob) option" where
  "overlay_fixup_phandles b ov =
     do { fixups_off \<leftarrow> fdt_path_offset ov ''/__fixups__'';
          if fixups_off = - FDT_ERR_NOTFOUND then Some (0, ov)
          else if fixups_off < 0 then Some (fixups_off, ov)
          else
            do { symbols_off \<leftarrow> fdt_path_offset b ''/__symbols__'';
                 if symbols_off < 0 \<and> symbols_off \<noteq> - FDT_ERR_NOTFOUND then Some (symbols_off, ov)
                 else do { p \<leftarrow> fdt_first_property_offset ov fixups_off; fixup_all b symbols_off p ov } } }"

section \<open>Merging\<close>

definition val_bytes :: "blob \<Rightarrow> nat \<Rightarrow> u32 \<Rightarrow> char list option" where
  "val_bytes ov p len = (if length ov < p + unat len then None else Some (take (unat len) (drop p ov)))"

partial_function (option) apply_props :: "int \<Rightarrow> blob \<Rightarrow> int \<Rightarrow> blob \<Rightarrow> (int \<times> blob) option" where
  "apply_props target ov property b =
     (if property < 0 then Some (0, b)
      else Option.bind (fdt_getprop_by_offset ov property) (\<lambda>r.
             case r of
               Inl e \<Rightarrow> Some (if e = - FDT_ERR_NOTFOUND then - FDT_ERR_INTERNAL else e, b)
             | Inr ((p, len), name) \<Rightarrow>
                 Option.bind (val_bytes ov p len) (\<lambda>v.
                   Option.bind (fdt_setprop target name v b) (\<lambda>(ret, b1).
                     if ret \<noteq> 0 then Some (ret, b1)
                     else Option.bind (fdt_next_property_offset ov property) (\<lambda>n. apply_props target ov n b1)))))"

definition apply_own :: "int \<Rightarrow> blob \<Rightarrow> int \<Rightarrow> blob \<Rightarrow> (int \<times> blob) option" where
  "apply_own target ov nd b = do { p \<leftarrow> fdt_first_property_offset ov nd; apply_props target ov p b }"

text \<open>The node for a subnode of the overlay: a new one, or the one that is there.\<close>

definition merge_subnode :: "int \<Rightarrow> string \<Rightarrow> blob \<Rightarrow> (int \<times> blob) option" where
  "merge_subnode target name b =
     do { (nnode, b1) \<leftarrow> fdt_add_subnode target name b;
          if nnode = - FDT_ERR_EXISTS
          then do { n \<leftarrow> fdt_subnode_offset b1 target name; Some (if n = - FDT_ERR_NOTFOUND then - FDT_ERR_INTERNAL else n, b1) }
          else Some (nnode, b1) }"

partial_function (option) apply_subnodes :: "int \<Rightarrow> blob \<Rightarrow> int \<Rightarrow> blob \<Rightarrow> (int \<times> blob) option" where
  "apply_subnodes target ov subnode b =
     (if subnode < 0 then Some (0, b)
      else Option.bind (fdt_get_name ov subnode) (\<lambda>nm.
             case nm of
               Inl _ \<Rightarrow> None
             | Inr name \<Rightarrow>
                 Option.bind (merge_subnode target name b) (\<lambda>(nnode, b1).
                   if nnode < 0 then Some (nnode, b1)
                   else Option.bind (apply_own nnode ov subnode b1) (\<lambda>(r1, b2).
                          if r1 \<noteq> 0 then Some (r1, b2)
                          else Option.bind (fdt_first_subnode ov subnode) (\<lambda>c.
                                 Option.bind (apply_subnodes nnode ov c b2) (\<lambda>(r2, b3).
                                   if r2 \<noteq> 0 then Some (r2, b3)
                                   else Option.bind (fdt_next_subnode ov subnode) (\<lambda>n. apply_subnodes target ov n b3)))))))"

definition overlay_apply_node :: "int \<Rightarrow> blob \<Rightarrow> int \<Rightarrow> blob \<Rightarrow> (int \<times> blob) option" where
  "overlay_apply_node target ov nd b =
     do { (r1, b1) \<leftarrow> apply_own target ov nd b;
          if r1 \<noteq> 0 then Some (r1, b1) else do { c \<leftarrow> fdt_first_subnode ov nd; apply_subnodes target ov c b1 } }"

definition merge_fragment :: "blob \<Rightarrow> int \<Rightarrow> blob \<Rightarrow> (int \<times> blob) option" where
  "merge_fragment ov fragment b =
     do { overlay \<leftarrow> fdt_subnode_offset ov fragment ''__overlay__'';
          if overlay = - FDT_ERR_NOTFOUND then Some (0, b)
          else if overlay < 0 then Some (overlay, b)
          else do { (target, _) \<leftarrow> fdt_overlay_target_offset b ov fragment;
                    if target < 0 then Some (target, b) else overlay_apply_node target ov overlay b } }"

partial_function (option) merge_fragments :: "blob \<Rightarrow> int \<Rightarrow> blob \<Rightarrow> (int \<times> blob) option" where
  "merge_fragments ov fragment b =
     (if fragment < 0 then Some (0, b)
      else Option.bind (merge_fragment ov fragment b) (\<lambda>(ret, b1).
             if ret \<noteq> 0 then Some (ret, b1)
             else Option.bind (fdt_next_subnode ov fragment) (\<lambda>n. merge_fragments ov n b1)))"

definition overlay_merge :: "blob \<Rightarrow> blob \<Rightarrow> (int \<times> blob) option" where
  "overlay_merge ov b = do { fragment \<leftarrow> fdt_first_subnode ov 0; merge_fragments ov fragment b }"

section \<open>Symbols\<close>

partial_function (option) path_len_loop :: "blob \<Rightarrow> int \<Rightarrow> int \<Rightarrow> int option" where
  "path_len_loop b nodeoffset len =
     Option.bind (fdt_get_name b nodeoffset) (\<lambda>nm.
       case nm of
         Inl e \<Rightarrow> Some e
       | Inr name \<Rightarrow>
           if name = [] then Some (if len = 0 then 1 else len)
           else Option.bind (fdt_parent_offset b nodeoffset) (\<lambda>parent.
                  if parent < 0 then Some parent else path_len_loop b parent (len + int (length name) + 1)))"

definition get_path_len :: "blob \<Rightarrow> int \<Rightarrow> int option" where
  "get_path_len b nodeoffset = (if fdt_ro_probe b < 0 then Some (fdt_ro_probe b) else path_len_loop b nodeoffset 0)"

text \<open>The fragment and the path inside of it that a symbol names: \<open>Inl\<close> an error, \<open>Inr None\<close> when the symbol
  does not end up in the base tree.\<close>

definition symbol_parts :: "char list \<Rightarrow> int + (string \<times> string) option" where
  "symbol_parts v =
     (let path = takeWhile (\<lambda>c. c \<noteq> NUL) v; frag = takeWhile (\<lambda>c. c \<noteq> slash) (tl path); s = drop (length frag) (tl path)
      in if v = [] \<or> length path + 1 \<noteq> length v then Inl (- FDT_ERR_BADVALUE)
         else if path = [] \<or> hd path \<noteq> slash then Inl (- FDT_ERR_BADVALUE)
         else if s = [] then Inr None
         else if prefix ''/__overlay__/'' s then Inr (Some (frag, drop 13 s))
         else if s = ''/__overlay__'' then Inr (Some (frag, []))
         else Inr None)"

text \<open>Writing the path of the target and the path in the fragment into the property of the symbol.  What
  \<open>fdt_get_path\<close> leaves in the buffer when it fails is left out.\<close>

definition write_symbol :: "nat \<Rightarrow> int \<Rightarrow> int \<Rightarrow> string option \<Rightarrow> string \<Rightarrow> blob \<Rightarrow> (int \<times> blob) option" where
  "write_symbol buf len target target_path rel_path b =
     do { (ret, b1) \<leftarrow>
            (if 1 < len
             then case target_path of
                    None \<Rightarrow> do { r \<leftarrow> fdt_get_path b target (len + 1);
                                 case r of Inl e \<Rightarrow> Some (e, b) | Inr path \<Rightarrow> do { b1 \<leftarrow> wr b buf (path @ [NUL]); Some (0, b1) } }
                  | Some path \<Rightarrow> do { b1 \<leftarrow> wr b buf (path @ [NUL]); Some (0, b1) }
             else Some (0, b));
          if ret < 0 then Some (ret, b1)
          else let l = nat (if 1 < len then len else len - 1)
               in do { b2 \<leftarrow> (if len < 1 then None else wr b1 (buf + l) [slash]);
                       b3 \<leftarrow> wr b2 (buf + l + 1) rel_path;
                       b4 \<leftarrow> wr b3 (buf + l + 1 + length rel_path) [NUL];
                       Some (0, b4) } }"

definition update_symbol :: "int \<Rightarrow> blob \<Rightarrow> string \<Rightarrow> string \<Rightarrow> string \<Rightarrow> blob \<Rightarrow> (int \<times> blob) option" where
  "update_symbol root_sym ov name frag_name rel_path b =
     do { fragment \<leftarrow> fdt_subnode_offset_namelen ov 0 frag_name;
          if fragment < 0 then Some (- FDT_ERR_BADOVERLAY, b)
          else
            do { inner \<leftarrow> fdt_subnode_offset ov fragment ''__overlay__'';
                 if inner < 0 then Some (- FDT_ERR_BADOVERLAY, b)
                 else
                   do { (target, target_path) \<leftarrow> fdt_overlay_target_offset b ov fragment;
                        if target < 0 then Some (target, b)
                        else
                          do { len \<leftarrow> (case target_path of None \<Rightarrow> get_path_len b target | Some path \<Rightarrow> Some (int (length path)));
                               if len < 0 then Some (len, b)
                               else
                                 do { (ret, p, b1) \<leftarrow> fdt_setprop_placeholder root_sym name
                                        (len + (if 1 < len then 1 else 0) + int (length rel_path) + 1) b;
                                      if ret < 0 then Some (ret, b1)
                                      else
                                        do { (target1, target_path1) \<leftarrow>
                                               (if target_path = None then fdt_overlay_target_offset b1 ov fragment
                                                else Some (target, target_path));
                                             if target1 < 0 then Some (target1, b1)
                                             else write_symbol p len target1 target_path1 rel_path b1 } } } } } }"

partial_function (option) symbol_loop :: "int \<Rightarrow> blob \<Rightarrow> int \<Rightarrow> blob \<Rightarrow> (int \<times> blob) option" where
  "symbol_loop root_sym ov prop b =
     (if prop < 0 then Some (0, b)
      else Option.bind (fdt_getprop_by_offset ov prop) (\<lambda>r.
             case r of
               Inl path_len \<Rightarrow> Some (path_len, b)
             | Inr ((p, path_len), name) \<Rightarrow>
                 Option.bind (val_bytes ov p path_len) (\<lambda>v.
                   Option.bind (case symbol_parts v of
                                  Inl e \<Rightarrow> Some (e, b)
                                | Inr None \<Rightarrow> Some (0, b)
                                | Inr (Some (frag_name, rel_path)) \<Rightarrow> update_symbol root_sym ov name frag_name rel_path b) (\<lambda>(ret, b1).
                     if ret < 0 then Some (ret, b1)
                     else Option.bind (fdt_next_property_offset ov prop) (\<lambda>n. symbol_loop root_sym ov n b1)))))"

definition overlay_symbol_update :: "blob \<Rightarrow> blob \<Rightarrow> (int \<times> blob) option" where
  "overlay_symbol_update ov b =
     do { ov_sym \<leftarrow> fdt_subnode_offset ov 0 ''__symbols__'';
          if ov_sym < 0 then Some (0, b)
          else
            do { sym \<leftarrow> fdt_subnode_offset b 0 ''__symbols__'';
                 (root_sym, b1) \<leftarrow> (if sym = - FDT_ERR_NOTFOUND then fdt_add_subnode 0 ''__symbols__'' b else Some (sym, b));
                 if root_sym < 0 then Some (root_sym, b1)
                 else do { p \<leftarrow> fdt_first_property_offset ov ov_sym; symbol_loop root_sym ov p b1 } } }"

section \<open>Applying an overlay\<close>

text \<open>The result with the base tree and the overlay; a failure erases the magic of both.\<close>

definition overlay_fail :: "int \<Rightarrow> blob \<Rightarrow> blob \<Rightarrow> (int \<times> blob \<times> blob) option" where
  "overlay_fail ret b ov = Some (ret, fdt_set_magic (- 1) b, fdt_set_magic (- 1) ov)"

definition fdt_overlay_apply :: "blob \<Rightarrow> blob \<Rightarrow> (int \<times> blob \<times> blob) option" where
  "fdt_overlay_apply b ov =
     (if fdt_ro_probe b < 0 then Some (fdt_ro_probe b, b, ov)
      else if fdt_ro_probe ov < 0 then Some (fdt_ro_probe ov, b, ov)
      else
        do { d \<leftarrow> fdt_find_max_phandle b;
             case d of
               Inl ret \<Rightarrow> overlay_fail ret b ov
             | Inr delta \<Rightarrow>
                 do { (r1, ov1) \<leftarrow> overlay_adjust_local_phandles delta ov;
                      if r1 \<noteq> 0 then overlay_fail r1 b ov1
                      else
                        do { (r2, ov2) \<leftarrow> overlay_update_local_references delta ov1;
                             if r2 \<noteq> 0 then overlay_fail r2 b ov2
                             else
                               do { (r3, ov3) \<leftarrow> overlay_fixup_phandles b ov2;
                                    if r3 \<noteq> 0 then overlay_fail r3 b ov3
                                    else
                                      do { (r4, b1) \<leftarrow> overlay_merge ov3 b;
                                           if r4 \<noteq> 0 then overlay_fail r4 b1 ov3
                                           else
                                             do { (r5, b2) \<leftarrow> overlay_symbol_update ov3 b1;
                                                  if r5 \<noteq> 0 then overlay_fail r5 b2 ov3
                                                  else Some (0, b2, fdt_set_magic (- 1) ov3) } } } } } })"

declare adjust_subnodes.simps [code] fixup_props.simps [code] fixup_subnodes.simps [code] fixup_entries.simps [code]
  fixup_all.simps [code] apply_props.simps [code] apply_subnodes.simps [code] merge_fragments.simps [code]
  path_len_loop.simps [code] symbol_loop.simps [code]

end
