(* ===== verification/Fdt_Query_Props.thy ===== *)
theory Fdt_Query_Props
  imports Fdt_Query Fdt_Roundtrip
begin

text \<open>
  Finished trees pass the full check of \<open>libfdt\<close>, properties are found in them as they were written, and
  the functions on lists of strings compute what they should.
\<close>

section \<open>Nodes\<close>

text \<open>A node with its properties and its children.\<close>

definition node :: "string \<Rightarrow> (string \<times> char list) list \<Rightarrow> fdt_tok list \<Rightarrow> fdt_tok list" where
  "node name props children = TBegin name # map (\<lambda>(p, v). TProp p v) props @ children @ [TEnd]"

text \<open>Tokens that close \<open>d\<close> open nodes and end with the last of them.\<close>

fun closes :: "nat \<Rightarrow> fdt_tok list \<Rightarrow> bool" where
  "closes d [] \<longleftrightarrow> d = 0"
| "closes 0 (t # ts) \<longleftrightarrow> False"
| "closes (Suc d) (TBegin s # ts) \<longleftrightarrow> closes (Suc (Suc d)) ts"
| "closes (Suc d) (TProp s v # ts) \<longleftrightarrow> closes (Suc d) ts"
| "closes (Suc d) (TEnd # ts) \<longleftrightarrow> closes d ts"

text \<open>Tokens of whole nodes and properties.\<close>

definition whole :: "fdt_tok list \<Rightarrow> bool" where
  "whole ts \<longleftrightarrow> (\<forall>d us. closes (Suc d) (ts @ us) \<longleftrightarrow> closes (Suc d) us)"

lemma wholeD: "whole ts \<Longrightarrow> closes (Suc d) (ts @ us) \<longleftrightarrow> closes (Suc d) us"
  by (simp add: whole_def)

lemma wholeI: "(\<And>d us. closes (Suc d) (ts @ us) \<longleftrightarrow> closes (Suc d) us) \<Longrightarrow> whole ts"
  by (simp add: whole_def)

named_theorems wholes "lists of whole nodes"

lemma whole_Nil [wholes]: "whole []"
  by (simp add: whole_def)

lemma whole_append [wholes]: "whole ts \<Longrightarrow> whole us \<Longrightarrow> whole (ts @ us)"
  by (simp add: whole_def)

lemma whole_concat [wholes]: "(\<And>ts. ts \<in> set tss \<Longrightarrow> whole ts) \<Longrightarrow> whole (concat tss)"
  by (induction tss) (auto intro: wholes)

lemma whole_props: "whole (map (\<lambda>(p, v). TProp p v) props)"
  by (induction props) (auto simp: whole_def)

lemma whole_node [wholes]: "whole ts \<Longrightarrow> whole (node name props ts)"
  by (rule wholeI) (simp add: node_def wholeD [OF whole_props] wholeD)

lemma node_closes: "whole ts \<Longrightarrow> closes 1 (tl (node name props ts))"
  using wholeD [OF whole_props, of 0 props "ts @ [TEnd]"] wholeD [of ts 0 "[TEnd]"] by (simp add: node_def)

section \<open>The full check\<close>

lemma final_getprop:
  assumes "final_ok (pre @ (TProp s v, k) # its) strs rest" "tok_ok (TProp s v)" "names_ok strs [(TProp s v, k)]"
  shows "\<exists>r. fdt_getprop_by_offset (fdt_final (pre @ (TProp s v, k) # its) strs rest) (int (length (enc pre))) = Some (Inr r)"
proof -
  define b where "b = fdt_final (pre @ (TProp s v, k) # its) strs rest"
  note f = final_prop [OF assms b_def]
  have "fdt_check_prop_offset b (int (length (enc pre))) = Some (int (length (enc (pre @ [(TProp s v, k)]))))"
    using f(1) length_enc_dvd [of pre] by (simp add: fdt_check_prop_offset_def del: enc_tok.simps) presburger
  then have g: "fdt_get_property_at b (int (length (enc pre))) =
      Some (Inr \<lparr>prop_len = of_nat (length v), prop_nameoff = name_off k, prop_data = 64 + length (enc pre) + 12\<rparr>)"
    using f(2) by (simp add: fdt_get_property_at_def del: enc_tok.simps)
  obtain r where "fdt_get_string b (sint (name_off k)) = Some (Inr r)"
    using f(5) by (auto simp: fdt_string_def split: Option.bind_splits sum.splits)
  then show ?thesis using g by (simp add: fdt_getprop_by_offset_def b_def)
qed

lemma check_loop_final:
  assumes "final_ok (pre @ its) strs rest" "list_all tok_ok (map fst its)" "names_ok strs its" "closes d (map fst its)"
    "int d + int (length its) < INT_MAX"
  shows "check_loop (fdt_final (pre @ its) strs rest) (int (length (enc pre))) (int d) (d = 0) = Some 0"
  using assms
proof (induction its arbitrary: pre d)
  case Nil
  then show ?case using final_stop [of pre strs rest] by (subst check_loop.simps) simp
next
  case (Cons i its)
  obtain t k where i: "i = (t, k)" by (rule prod.exhaust)
  obtain m where d: "d = Suc m" using Cons.prems(4) by (cases d) auto
  let ?b = "fdt_final (pre @ (t, k) # its) strs rest"
  have fo: "final_ok (pre @ (t, k) # its) strs rest" using Cons.prems(1) i by simp
  have ok: "tok_ok t" "list_all tok_ok (map fst its)" "names_ok strs its" "names_ok strs [(t, k)]"
    using Cons.prems(2,3) i names_ok_Cons [of strs i its] by simp_all
  have ih: "check_loop ?b (int (length (enc (pre @ [(t, k)])))) (int e) (e = 0) = Some 0"
    if "closes e (map fst its)" "int e + int (length its) < INT_MAX" for e
    using Cons.IH [of "pre @ [i]" e] Cons.prems(1) ok(2,3) i that by simp
  show ?case
  proof (cases t)
    case (TBegin s)
    have "closes (Suc d) (map fst its)" using Cons.prems(4) i d TBegin by simp
    then have "check_loop ?b (int (length (enc (pre @ [(t, k)])))) (int d + 1) False = Some 0"
      using ih [of "Suc d"] Cons.prems(5) by (simp add: add.commute)
    then show ?thesis using final_begin(1) [OF fo [unfolded TBegin] ok(1) [unfolded TBegin]] TBegin i d Cons.prems(5)
      by (subst check_loop.simps) (simp del: enc_tok.simps of_nat_add)
  next
    case TEnd
    have "closes m (map fst its)" using Cons.prems(4) i d TEnd by simp
    then have "check_loop ?b (int (length (enc (pre @ [(t, k)])))) (int m) (m = 0) = Some 0"
      using ih [of m] Cons.prems(5) d by simp
    then show ?thesis using final_end [OF fo [unfolded TEnd]] TEnd i d
      by (subst check_loop.simps) (simp del: enc_tok.simps of_nat_add)
  next
    case (TProp s v)
    have "closes d (map fst its)" using Cons.prems(4) i d TProp by simp
    then have "check_loop ?b (int (length (enc (pre @ [(t, k)])))) (int d) False = Some 0"
      using ih [of d] Cons.prems(5) d by simp
    moreover obtain r where "fdt_getprop_by_offset ?b (int (length (enc pre))) = Some (Inr r)"
      using final_getprop [OF fo [unfolded TProp] ok(1) [unfolded TProp] ok(4) [unfolded TProp]] TProp by blast
    ultimately show ?thesis using final_prop(1) [OF fo [unfolded TProp] ok(1) [unfolded TProp] ok(4) [unfolded TProp] refl] TProp i d
      by (subst check_loop.simps) (simp del: enc_tok.simps of_nat_add)
  qed
qed

lemma final_no_reservations:
  assumes "final_ok its strs rest"
  shows "fdt_num_mem_rsv (fdt_final its strs rest) = Some 0"
proof -
  let ?b = "fdt_final its strs rest"
  have d: "drop (40 + j) ?b = drop j (replicate 24 NUL @ enc its @ be32 FDT_END @ strs @ fst rest @ snd rest)" for j
    by (simp add: fdt_final_def Let_def mk_blob_def)
  have z: "be32 0 = replicate 4 NUL" by (simp add: be32_def le32_def eval_nat_numeral char_of_def)
  have "drop 56 ?b = be32 0 @ be32 0 @ enc its @ be32 FDT_END @ strs @ fst rest @ snd rest" "drop 60 ?b = be32 0 @ enc its @ be32 FDT_END @ strs @ fst rest @ snd rest"
    using d [of 16] d [of 20] by (simp_all add: z replicate_add [of 4 4 NUL, simplified])
  then have "rd32 ?b 56 = Some 0" "rd32 ?b 60 = Some 0" by (simp_all add: rd32_def length_final)
  then have "rd64 ?b 56 = Some 0" by (simp add: rd64_def)
  moreover have "fdt_mem_rsv ?b 0 = Some 48"
  proof -
    define x where "x = 68 + length (enc its) + length strs + length (fst rest)"
    have x: "68 \<le> x" "x < 2147483647" using assms by (simp_all add: x_def final_ok_def)
    have u: "unat (of_nat x :: u32) = x" by (rule unat_of_nat_less) (use x in simp)
    have c: "unat (ucast (of_nat x :: u32) :: u64) = x"
      unfolding unsigned_ucast_eq u by (rule take_bit_nat_eq_self) (use x in simp)
    have "unat (ucast (of_nat x :: u32) - 16 :: u64) = x - 16"
      using unat_sub_if_size [of "ucast (of_nat x :: u32) :: u64" 16] x unfolding c by simp
    then show ?thesis using x unfolding fdt_mem_rsv_def Let_def final_fields x_def [symmetric] word_less_nat_alt by simp
  qed
  ultimately show ?thesis by (simp add: fdt_num_mem_rsv_def num_rsv_loop.simps)
qed

lemma final_check_full:
  assumes "final_blob ts b" "ts = TBegin [] # us" "closes 1 us"
  shows "fdt_check_full b (length b) = Some 0"
proof -
  obtain its strs rest where b: "b = fdt_final its strs rest" "map fst its = ts" "final_ok its strs rest" "names_ok strs its" "list_all tok_ok ts"
    using assms(1) by (auto simp: final_blob_def)
  then obtain k js where its: "its = (TBegin [], k) # js" "map fst js = us" using assms(2) by (cases its) auto
  have lb: "length js < 2147483640" using enc_length [of its] b(3) its by (simp add: final_ok_def del: enc_tok.simps)
  have fo: "final_ok ([] @ (TBegin [], k) # js) strs rest" using b(3) its by simp
  have n: "names_ok strs js" using b(4) its names_ok_Cons [of strs _ js] by simp
  have "check_loop (fdt_final ([(TBegin [], k)] @ js) strs rest) (int (length (enc [(TBegin [], k)]))) (int 1) (1 = (0 :: nat)) = Some 0"
    by (rule check_loop_final) (use fo b(5) n its assms lb in simp_all)
  then have "check_loop b 0 0 False = Some 0"
    using final_begin [OF fo] b(1) its by (subst check_loop.simps) (simp del: enc_tok.simps)
  moreover have "unat (fdt_totalsize b) = 68 + length (enc its) + length strs + length (fst rest)"
    unfolding b(1) final_fields by (rule unat_of_nat_less) (use b(3) in \<open>simp add: final_ok_def\<close>)
  then have "unat (fdt_totalsize b) \<le> length b" "28 \<le> length b" "40 \<le> length b" unfolding b(1) length_final by linarith+
  moreover have "unat (fdt_header_size (fdt_version b)) = 40" unfolding b(1) final_fields by (simp add: fdt_header_size_def word_le_nat_alt)
  ultimately show ?thesis
    using final_header(1) [OF b(3)] final_no_reservations [OF b(3)] b(1) by (simp add: fdt_check_full_def)
qed

section \<open>Looking up properties\<close>

text \<open>The offset of the token behind \<open>ts\<close>.\<close>

definition tok_off :: "fdt_tok list \<Rightarrow> nat" where
  "tok_off ts = length (enc (map (\<lambda>t. (t, no_extra)) ts))"

lemma length_enc_tok_fst: "length (enc_tok (t, k)) = length (enc_tok (t, no_extra))"
  by (cases t) simp_all

lemma length_enc_off: "length (enc its) = tok_off (map fst its)"
proof (induction its)
  case (Cons i its)
  obtain t k where "i = (t, k)" by (rule prod.exhaust)
  then show ?case using Cons length_enc_tok_fst [of t k] by (simp add: tok_off_def)
qed (simp add: tok_off_def)

text \<open>At a token that is no property the properties end.\<close>

lemma nextprop_stop:
  assumes "final_ok (pre @ (t, k) # its) strs rest" "tok_ok t" "\<forall>p v. t \<noteq> TProp p v"
  shows "nextprop (fdt_final (pre @ (t, k) # its) strs rest) (int (length (enc pre))) = Some (- FDT_ERR_NOTFOUND)"
proof (cases t)
  case (TBegin s)
  show ?thesis using final_begin(1) [OF assms(1,2) [unfolded TBegin]] TBegin by (subst nextprop.simps) simp
next
  case TEnd
  show ?thesis using final_end [OF assms(1) [unfolded TEnd]] TEnd by (subst nextprop.simps) simp
qed (use assms(3) in blast)

text \<open>The search from the properties \<open>its\<close> on.\<close>

definition found :: "blob \<Rightarrow> string \<Rightarrow> (fdt_tok \<times> extra) list \<Rightarrow> (fdt_tok \<times> extra) list \<Rightarrow> (int + int \<times> fdt_property_hdr) option \<Rightarrow> bool" where
  "found b name pre its r \<longleftrightarrow>
     (\<forall>i \<in> set its. \<forall>w. fst i \<noteq> TProp name w) \<and> r = Some (Inl (- FDT_ERR_NOTFOUND)) \<or>
     (\<exists>us v k ws off pr. its = us @ (TProp name v, k) # ws \<and> (\<forall>i \<in> set us. \<forall>w. fst i \<noteq> TProp name w) \<and>
        r = Some (Inr (off, pr)) \<and> prop_len pr = of_nat (length v) \<and> prop_data pr = 76 + length (enc (pre @ us)) \<and>
        prop_data pr + length v < length b \<and> take (length v) (drop (prop_data pr) b) = v)"

lemma found_Cons:
  assumes "found b name (pre @ [i]) its r" "\<forall>w. fst i \<noteq> TProp name w"
  shows "found b name pre (i # its) r"
  using assms(1) unfolding found_def
proof (elim disjE exE conjE)
  fix us v k ws off pr
  assume a: "its = us @ (TProp name v, k) # ws" "\<forall>i \<in> set us. \<forall>w. fst i \<noteq> TProp name w" "r = Some (Inr (off, pr))"
    "prop_len pr = of_nat (length v)" "prop_data pr = 76 + length (enc ((pre @ [i]) @ us))"
    "prop_data pr + length v < length b" "take (length v) (drop (prop_data pr) b) = v"
  show "(\<forall>j \<in> set (i # its). \<forall>w. fst j \<noteq> TProp name w) \<and> r = Some (Inl (- FDT_ERR_NOTFOUND)) \<or>
     (\<exists>us v k ws off pr. i # its = us @ (TProp name v, k) # ws \<and> (\<forall>i \<in> set us. \<forall>w. fst i \<noteq> TProp name w) \<and>
        r = Some (Inr (off, pr)) \<and> prop_len pr = of_nat (length v) \<and> prop_data pr = 76 + length (enc (pre @ us)) \<and>
        prop_data pr + length v < length b \<and> take (length v) (drop (prop_data pr) b) = v)"
    by (intro disjI2 exI [of _ "i # us"] exI [of _ v] exI [of _ k] exI [of _ ws] exI [of _ off] exI [of _ pr] conjI)
      (use a assms(2) in simp_all)
qed (use assms(2) in simp)

lemma property_loop_final:
  assumes "final_ok (pre @ its @ (t, k) # post) strs rest" "list_all tok_ok (map fst its)" "names_ok strs its" "tok_ok t"
    "\<forall>p v. t \<noteq> TProp p v" "\<forall>i \<in> set its. \<exists>p v. fst i = TProp p v"
    and b: "b = fdt_final (pre @ its @ (t, k) # post) strs rest"
  shows "found b name pre its (Option.bind (nextprop b (int (length (enc pre)))) (\<lambda>off. get_property_loop b off name))"
  using assms
proof (induction its arbitrary: pre)
  case Nil
  have n: "nextprop b (int (length (enc pre))) = Some (- FDT_ERR_NOTFOUND)"
    using nextprop_stop [of pre t k post strs rest] Nil by simp
  have "get_property_loop b (- FDT_ERR_NOTFOUND) name = Some (Inl (- FDT_ERR_NOTFOUND))" by (subst get_property_loop.simps) simp
  then show ?case using n by (simp add: found_def)
next
  case (Cons i its)
  obtain p v l where i: "i = (TProp p v, l)" using Cons.prems(6) by (metis list.set_intros(1) prod.collapse)
  have fo: "final_ok (pre @ (TProp p v, l) # its @ (t, k) # post) strs rest" using Cons.prems(1) i by simp
  have bb: "b = fdt_final (pre @ (TProp p v, l) # its @ (t, k) # post) strs rest" using Cons.prems(7) i by simp
  have ok: "tok_ok (TProp p v)" "names_ok strs [(TProp p v, l)]" "names_ok strs its" "list_all tok_ok (map fst its)"
    using Cons.prems(2,3) i names_ok_Cons [of strs i its] by simp_all
  note f = final_prop [OF fo ok(1,2) bb]
  let ?o = "int (length (enc pre))" and ?n = "int (length (enc (pre @ [(TProp p v, l)])))"
  have al: "?o mod 4 = 0" using length_enc_dvd [of pre] by presburger
  have co: "fdt_check_prop_offset b ?o = Some ?n" using f(1) al by (simp add: fdt_check_prop_offset_def del: enc_tok.simps)
  have np: "nextprop b ?o = Some ?o" using f(1) by (subst nextprop.simps) simp
  let ?pr = "\<lparr>prop_len = of_nat (length v), prop_nameoff = name_off l, prop_data = 64 + length (enc pre) + 12\<rparr>"
  have at: "fdt_get_property_at b ?o = Some (Inr ?pr)" using co f(2) by (simp add: fdt_get_property_at_def del: enc_tok.simps)
  have eq: "fdt_string_eq b (sint (name_off l)) name = Some (p = name)"
    using f(5) by (auto simp: fdt_string_eq_def fdt_string_def split: Option.bind_splits sum.splits)
  have nx: "fdt_next_property_offset b ?o = nextprop b ?n" using co by (simp add: fdt_next_property_offset_def del: enc_tok.simps)
  have step: "get_property_loop b ?o name = (if p = name then Some (Inr (?o, ?pr))
      else Option.bind (nextprop b ?n) (\<lambda>off. get_property_loop b off name))"
    by (subst get_property_loop.simps) (simp add: at eq nx del: enc_tok.simps)
  show ?case
  proof (cases "p = name")
    case True
    have "64 + length (enc pre) + 12 + length v < length b" unfolding bb length_final by simp
    then have "found b name pre ((TProp name v, l) # its) (Some (Inr (?o, ?pr)))"
      unfolding found_def using f(3) True 
      by (intro disjI2 exI [of _ "[]"] exI [of _ v] exI [of _ l] exI [of _ its] exI [of _ ?o] exI [of _ ?pr] conjI) simp_all
    then show ?thesis using True step np i by simp
  next
    case False
    have "found b name (pre @ [(TProp p v, l)]) its (Option.bind (nextprop b ?n) (\<lambda>off. get_property_loop b off name))"
      by (rule Cons.IH) (use Cons.prems i ok in simp_all)
    then have "found b name pre (i # its) (Option.bind (nextprop b ?n) (\<lambda>off. get_property_loop b off name))"
      unfolding i by (rule found_Cons) (use False in simp)
    then show ?thesis using False step np by (simp del: enc_tok.simps)
  qed
qed

lemma map_of_none:
  assumes "map fst its = map (\<lambda>(p, v). TProp p v) props" "\<forall>i \<in> set its. \<forall>w. fst i \<noteq> TProp name w"
  shows "map_of props name = None"
  using assms
proof (induction its arbitrary: props)
  case (Cons i its)
  then show ?case by (cases props) auto
qed simp

lemma map_of_first:
  assumes "map fst (us @ (TProp name v, k) # ws) = map (\<lambda>(p, v). TProp p v) props" "\<forall>i \<in> set us. \<forall>w. fst i \<noteq> TProp name w"
  shows "map_of props name = Some v"
  using assms
proof (induction us arbitrary: props)
  case Nil
  then show ?case by (cases props) auto
next
  case (Cons i us)
  then show ?case by (cases props) auto
qed

lemma map_fst_append:
  assumes "map fst its = xs @ ys"
  obtains us vs where "its = us @ vs" "map fst us = xs" "map fst vs = ys"
  using assms by (metis map_eq_append_conv)

lemma map_fst_Cons:
  assumes "map fst its = x # xs"
  obtains k us where "its = (x, k) # us" "map fst us = xs"
  using assms by (cases its) auto

text \<open>A node in a list of tokens with the offsets of names.\<close>

definition node_at_tok :: "(fdt_tok \<times> extra) list \<Rightarrow> (fdt_tok \<times> extra) list \<Rightarrow> string \<Rightarrow> (fdt_tok \<times> extra) list \<Rightarrow> (fdt_tok \<times> extra) list \<Rightarrow> bool" where
  "node_at_tok its pre s pits post \<longleftrightarrow>
     (\<exists>k. its = pre @ (TBegin s, k) # pits @ post) \<and> (\<forall>i \<in> set pits. \<exists>p v. fst i = TProp p v) \<and>
     post \<noteq> [] \<and> (\<forall>p v. fst (hd post) \<noteq> TProp p v)"

lemma node_at_tokI:
  assumes "map fst its = pre @ node s props kids @ post" "\<forall>p v us. kids \<noteq> TProp p v # us"
  obtains ipre pits ipost where "node_at_tok its ipre s pits ipost" "map fst ipre = pre"
    "map fst pits = map (\<lambda>(p, v). TProp p v) props" "map fst ipost = kids @ TEnd # post"
proof -
  obtain ipre us where u: "its = ipre @ us" "map fst ipre = pre"
      "map fst us = TBegin s # map (\<lambda>(p, v). TProp p v) props @ kids @ TEnd # post"
    using map_fst_append [OF assms(1)] unfolding node_def by auto
  obtain k zs where z: "us = (TBegin s, k) # zs" "map fst zs = map (\<lambda>(p, v). TProp p v) props @ kids @ TEnd # post"
    by (rule map_fst_Cons [OF u(3)])
  obtain pits ws where w: "zs = pits @ ws" "map fst pits = map (\<lambda>(p, v). TProp p v) props" "map fst ws = kids @ TEnd # post"
    by (rule map_fst_append [OF z(2)])
  have "\<exists>p v. fst i = TProp p v" if "i \<in> set pits" for i
  proof -
    have "fst i \<in> set (map (\<lambda>(p, v). TProp p v) props)" unfolding w(2) [symmetric] using that by simp
    then show ?thesis by auto
  qed
  moreover have "ws \<noteq> []" using w(3) by auto
  moreover have "fst (hd ws) \<noteq> TProp p v" for p v
    using w(3) assms(2) by (cases ws; cases kids) auto
  ultimately have "node_at_tok its ipre s pits ws" using u(1) z(1) w(1) by (auto simp: node_at_tok_def)
  then show ?thesis using that u(2) w(2,3) by blast
qed

lemma node_property:
  assumes "node_at_tok its pre s pits post" "final_ok its strs rest" "names_ok strs its" "list_all tok_ok (map fst its)"
    and b: "b = fdt_final its strs rest"
  shows "\<exists>k. its = pre @ (TBegin s, k) # pits @ post \<and> found b name (pre @ [(TBegin s, k)]) pits
    (Option.bind (fdt_first_property_offset b (int (length (enc pre)))) (\<lambda>off. get_property_loop b off name))"
proof -
  obtain k t l ws where its: "its = pre @ (TBegin s, k) # pits @ (t, l) # ws" "post = (t, l) # ws" "\<forall>i \<in> set pits. \<exists>p v. fst i = TProp p v"
      "\<forall>p v. t \<noteq> TProp p v"
    using assms(1) unfolding node_at_tok_def by (cases post) auto
  have n: "names_ok strs pits" using assms(3) unfolding its(1) by (auto simp: names_ok_def)
  have ok: "tok_ok (TBegin s)" "tok_ok t" "list_all tok_ok (map fst pits)" using assms(4) unfolding its(1) by simp_all
  let ?o = "int (length (enc pre))" and ?n = "int (length (enc (pre @ [(TBegin s, k)])))"
  have nt: "fdt_next_tag b ?o = Some (FDT_BEGIN_NODE, ?n)"
    unfolding b its(1) by (rule final_begin(1)) (use assms(2) its(1) ok(1) in simp_all)
  have "?o mod 4 = 0" using length_enc_dvd [of pre] by presburger
  then have "fdt_first_property_offset b ?o = nextprop b ?n"
    using nt by (simp add: fdt_first_property_offset_def fdt_check_node_offset_def del: enc_tok.simps)
  moreover have "found b name (pre @ [(TBegin s, k)]) pits (Option.bind (nextprop b ?n) (\<lambda>off. get_property_loop b off name))"
    by (rule property_loop_final [where t = t and k = l and post = ws and strs = strs and rest = rest])
      (use assms its n ok in simp_all)
  ultimately show ?thesis using its(1,2) by (intro exI [of _ k]) simp
qed

text \<open>The value of the first property of this name in the node behind \<open>pre\<close>.\<close>

lemma getprop_final:
  assumes "final_blob (pre @ node s props kids @ post) b" "\<forall>p v us. kids \<noteq> TProp p v # us"
  shows "case map_of props name of
      None \<Rightarrow> fdt_getprop b (int (tok_off pre)) name = Some (Inl (- FDT_ERR_NOTFOUND))
    | Some v \<Rightarrow> \<exists>p. fdt_getprop b (int (tok_off pre)) name = Some (Inr (p, of_nat (length v))) \<and>
        p + length v < length b \<and> take (length v) (drop p b) = v"
proof -
  obtain its strs rest where b: "b = fdt_final its strs rest" "final_ok its strs rest" "names_ok strs its"
      "map fst its = pre @ node s props kids @ post" "list_all tok_ok (map fst its)"
    using assms(1) by (auto simp: final_blob_def)
  obtain ipre pits ipost where n: "node_at_tok its ipre s pits ipost" "map fst ipre = pre" "map fst pits = map (\<lambda>(p, v). TProp p v) props"
    by (rule node_at_tokI [OF b(4) assms(2)])
  let ?o = "int (tok_off pre)"
  define r where "r = Option.bind (fdt_first_property_offset b ?o) (\<lambda>off. get_property_loop b off name)"
  have o: "?o = int (length (enc ipre))" using length_enc_off [of ipre] n(2) by simp
  obtain k where f: "found b name (ipre @ [(TBegin s, k)]) pits r"
    unfolding r_def o using node_property [OF n(1) b(2,3,5,1), of name] by (elim exE conjE)
  have v: "prop_value b off pr = prop_data pr" for off pr by (simp add: prop_value_def b(1) final_fields word_less_nat_alt)
  have g: "fdt_getprop b ?o name =
      Option.bind r (\<lambda>r. Some (case r of Inl e \<Rightarrow> Inl e | Inr (poffset, pr) \<Rightarrow> Inr (prop_value b poffset pr, prop_len pr)))"
    by (simp add: fdt_getprop_def r_def)
  show ?thesis using f unfolding found_def
  proof (elim disjE exE conjE)
    assume "\<forall>i \<in> set pits. \<forall>w. fst i \<noteq> TProp name w" "r = Some (Inl (- FDT_ERR_NOTFOUND))"
    then show ?thesis using map_of_none [OF n(3)] g by simp
  next
    fix us w j ws off pr
    assume "pits = us @ (TProp name w, j) # ws" "\<forall>i \<in> set us. \<forall>w. fst i \<noteq> TProp name w" "r = Some (Inr (off, pr))"
      "prop_len pr = of_nat (length w)" "prop_data pr + length w < length b" "take (length w) (drop (prop_data pr) b) = w"
    then show ?thesis using map_of_first [of us name w j ws props] n(3) g v by simp
  qed
qed

section \<open>Lists of strings\<close>

text \<open>The value of a property that holds the strings \<open>ss\<close>.\<close>

definition packed :: "string list \<Rightarrow> char list" where
  "packed ss = concat (map (\<lambda>s. s @ [NUL]) ss)"

fun first_hit :: "(nat \<Rightarrow> string \<Rightarrow> bool) \<Rightarrow> nat \<Rightarrow> string list \<Rightarrow> list_scan" where
  "first_hit test i [] = Scan_end i"
| "first_hit test i (s # ss) = (if test i s then Scan_hit i s else first_hit test (i + 1) ss)"

lemma packed_simps [simp]: "packed [] = []" "packed (s # ss) = s @ NUL # packed ss"
  by (simp_all add: packed_def)

lemma before_NUL: "NUL \<notin> set s \<Longrightarrow> takeWhile (\<lambda>c. c \<noteq> NUL) (s @ NUL # r) = s"
  "NUL \<notin> set s \<Longrightarrow> dropWhile (\<lambda>c. c \<noteq> NUL) (s @ NUL # r) = NUL # r"
  by (induction s) auto

lemma scan_packed: "list_all (\<lambda>s. NUL \<notin> set s) ss \<Longrightarrow> scan_strings test i (packed ss) = first_hit test i ss"
  by (induction ss arbitrary: i) (simp_all add: scan_strings.simps [of test _ "_ @ _"] scan_strings.simps [of test _ "[]"] before_NUL)

lemma first_hit_none: "first_hit (\<lambda>_ _. False) i ss = Scan_end (i + length ss)"
  by (induction ss arbitrary: i) simp_all

lemma first_hit_nth:
  "first_hit (\<lambda>j _. int j = idx) i ss =
     (if int i \<le> idx \<and> nat idx < i + length ss then Scan_hit (nat idx) (ss ! (nat idx - i)) else Scan_end (i + length ss))"
proof (induction ss arbitrary: i)
  case (Cons s ss)
  then show ?case by (auto simp: nth_Cons' Suc_le_eq)
qed auto

lemma first_hit_search:
  "first_hit (\<lambda>_ s. s = x) i ss =
     (let n = length (takeWhile (\<lambda>s. s \<noteq> x) ss) in if n < length ss then Scan_hit (i + n) x else Scan_end (i + length ss))"
  by (induction ss arbitrary: i) (simp_all add: Let_def)

lemma take_to_NUL:
  assumes "NUL \<notin> set s" "NUL \<notin> set x"
  shows "take (length x + 1) (s @ NUL # r) = x @ [NUL] \<longleftrightarrow> x = s"
proof
  assume a: "take (length x + 1) (s @ NUL # r) = x @ [NUL]"
  then have "s @ NUL # r = x @ NUL # drop (length x + 1) (s @ NUL # r)"
    using append_take_drop_id [of "length x + 1" "s @ NUL # r"] by simp
  then have "takeWhile (\<lambda>c. c \<noteq> NUL) (s @ NUL # r) = takeWhile (\<lambda>c. c \<noteq> NUL) (x @ NUL # drop (length x + 1) (s @ NUL # r))"
    by (rule arg_cong)
  then show "x = s" unfolding before_NUL(1) [OF assms(1)] before_NUL(1) [OF assms(2)] by simp
qed simp

lemma packed_member_length: "x \<in> set ss \<Longrightarrow> length x < length (packed ss)"
  by (induction ss) auto

lemma contains_packed:
  assumes "list_all (\<lambda>s. NUL \<notin> set s) ss" "NUL \<notin> set x" "x \<noteq> []" "rest \<noteq> []"
  shows "fdt_stringlist_contains (packed ss) rest x = Some (x \<in> set ss)"
  using assms(1)
proof (induction ss)
  case Nil
  then show ?case using assms by (simp add: fdt_stringlist_contains.simps)
next
  case (Cons s ss)
  let ?l = "packed (s # ss)"
  have t: "take (length x + 1) (?l @ rest) = x @ [NUL] \<longleftrightarrow> x = s"
    using take_to_NUL [of s x "packed ss @ rest"] Cons.prems assms(2) by simp
  have n: "NUL \<in> set ?l" "tl (dropWhile (\<lambda>c. c \<noteq> NUL) ?l) = packed ss" using before_NUL Cons.prems by simp_all
  have short: "length ?l < length x \<Longrightarrow> x \<notin> set (s # ss)"
    using packed_member_length by fastforce
  have "1 \<le> length rest" using assms(4) by (cases rest) simp_all
  then have long: "length x \<le> length ?l \<Longrightarrow> length x + 1 \<le> length (?l @ rest)" unfolding length_append by linarith
  show ?case
  proof (cases "length ?l < length x")
    case True
    then show ?thesis using short by (subst fdt_stringlist_contains.simps) simp
  next
    case False
    then have "\<not> length (?l @ rest) < length x + 1" using long by linarith
    then have "fdt_stringlist_contains ?l rest x = (if x = s then Some True else fdt_stringlist_contains (packed ss) rest x)"
      by (subst fdt_stringlist_contains.simps) (simp only: False t n not_True_eq_False if_False)
    then show ?thesis using Cons by simp
  qed
qed
section \<open>Questions to a written tree\<close>

lemma written_final:
  assumes "write_tree ts b0 = Some (0, b)" "length b0 < 2147483647" "list_all tok_ok ts"
  shows "final_blob ts b" "length b = length b0" "unat (fdt_totalsize b) \<le> 68 + sum_list (map tok_space ts)"
  using write_tree_sw [OF assms(2,3)] assms(1) by (auto simp: tree_is_def)

text \<open>The strings of a property, read with the functions for lists of strings.\<close>

definition strings_read :: "blob \<Rightarrow> int \<Rightarrow> string \<Rightarrow> string list \<Rightarrow> bool" where
  "strings_read b off name ss \<longleftrightarrow>
     fdt_stringlist_count b off name = Some (int (length ss)) \<and>
     (\<forall>x. fdt_stringlist_search b off name x =
            Some (if x \<in> set ss then int (length (takeWhile (\<lambda>s. s \<noteq> x) ss)) else - FDT_ERR_NOTFOUND)) \<and>
     (\<forall>i. fdt_stringlist_get b off name i =
            Some (if 0 \<le> i \<and> i < int (length ss) then Inr (ss ! nat i) else Inl (- FDT_ERR_NOTFOUND)))"

lemma strings_readI:
  assumes "prop_bytes b off name = Some (Inr (packed ss))" "list_all (\<lambda>s. NUL \<notin> set s) ss"
  shows "strings_read b off name ss"
proof -
  have "length (takeWhile (\<lambda>s. s \<noteq> x) ss) < length ss \<longleftrightarrow> x \<in> set ss" for x by (induction ss) auto
  then show ?thesis using assms(1) scan_packed [OF assms(2)]
    by (auto simp: strings_read_def fdt_stringlist_count_def fdt_stringlist_search_def fdt_stringlist_get_def
        first_hit_none first_hit_nth first_hit_search Let_def)
qed

lemma tok_ok_value: "tok_ok (TProp p v) \<Longrightarrow> unat (of_nat (length v) :: u32) = length v"
  by (rule unat_of_nat_less) simp

text \<open>C28. In a tree written with the sequential writer, the value of the first property of a name is found
  in every node, as it was written and inside the blob, and a name the node does not have is reported as
  not found.  A list of strings can be read back with \<open>fdt_stringlist_count\<close>, \<open>fdt_stringlist_search\<close> and
  \<open>fdt_stringlist_get\<close>, which compute the length, the index of the first occurrence and the element, and a
  node is compatible with exactly the strings of its list.\<close>

theorem written_properties_found:
  assumes "write_tree (pre @ node s props children @ post) b0 = Some (0, b)" "length b0 < 2147483647"
    "list_all tok_ok (pre @ node s props children @ post)" "\<forall>p v us. children \<noteq> TProp p v # us"
  shows "case map_of props name of
      None \<Rightarrow> fdt_getprop b (int (tok_off pre)) name = Some (Inl (- FDT_ERR_NOTFOUND))
    | Some v \<Rightarrow> (\<exists>p. fdt_getprop b (int (tok_off pre)) name = Some (Inr (p, of_nat (length v))) \<and>
          p + length v < length b \<and> take (length v) (drop p b) = v) \<and>
        (\<forall>ss. v = packed ss \<and> list_all (\<lambda>x. NUL \<notin> set x) ss \<longrightarrow>
          strings_read b (int (tok_off pre)) name ss \<and>
          (name = ''compatible'' \<longrightarrow> (\<forall>x. x \<noteq> [] \<and> NUL \<notin> set x \<longrightarrow>
             fdt_node_check_compatible b (int (tok_off pre)) x = Some (if x \<in> set ss then 0 else 1))))"
proof -
  note g = getprop_final [OF written_final(1) [OF assms(1-3)] assms(4), of name]
  show ?thesis
  proof (cases "map_of props name")
    case None
    then show ?thesis using g by simp
  next
    case (Some v)
    have "tok_ok (TProp name v)" using assms(3) map_of_SomeD [OF Some] unfolding node_def list_all_iff by force
    then have l: "unat (of_nat (length v) :: u32) = length v" by (rule tok_ok_value)
    obtain p where p: "fdt_getprop b (int (tok_off pre)) name = Some (Inr (p, of_nat (length v)))"
        "p + length v < length b" "take (length v) (drop p b) = v"
      using g Some by auto
    have "prop_bytes b (int (tok_off pre)) name = Some (Inr v)" using p l by (simp add: prop_bytes_def)
    moreover have "fdt_node_check_compatible b (int (tok_off pre)) x = Some (if x \<in> set ss then 0 else 1)"
      if "name = ''compatible''" "v = packed ss" "list_all (\<lambda>x. NUL \<notin> set x) ss" "x \<noteq> []" "NUL \<notin> set x" for ss x
    proof -
      have "fdt_stringlist_contains v (drop (p + length v) b) x = Some (x \<in> set ss)"
        using contains_packed [of ss x "drop (p + length v) b"] that p(2) by simp
      then show ?thesis using p l that(1) by (simp add: fdt_node_check_compatible_def)
    qed
    ultimately show ?thesis using Some p strings_readI by simp
  qed
qed
theorem written_properties_found_witness:
  "\<exists>b. write_tree (node [] [] (node ''psci'' [(''compatible'', packed [''arm,psci-1.0'', ''arm,psci''])] [])) (replicate 256 NUL) = Some (0, b) \<and>
     strings_read b 8 ''compatible'' [''arm,psci-1.0'', ''arm,psci''] \<and>
     fdt_node_check_compatible b 8 ''arm,psci'' = Some 0 \<and> fdt_node_check_compatible b 8 ''arm'' = Some 1"
proof -
  let ?ss = "[''arm,psci-1.0'', ''arm,psci'']" let ?props = "[(''compatible'', packed ?ss)]"
  let ?ts = "[TBegin []] @ node ''psci'' ?props [] @ [TEnd]"
  have ok: "list_all tok_ok ?ts" by (simp add: node_def)
  have "68 + sum_list (map tok_space ?ts) \<le> 256" by (simp add: node_def pad4_def be32_def le32_def)
  then obtain b where w: "write_tree ?ts (replicate 256 NUL) = Some (0, b)"
    using write_tree_sw [OF _ ok, of "replicate 256 NUL"] by auto
  have o: "int (tok_off [TBegin []]) = 8" by (simp add: tok_off_def pad4_def be32_def le32_def)
  have m: "map_of ?props ''compatible'' = Some (packed ?ss)" by simp
  have "(\<forall>ss. packed ?ss = packed ss \<and> list_all (\<lambda>x. NUL \<notin> set x) ss \<longrightarrow> strings_read b 8 ''compatible'' ss \<and>
      (\<forall>x. x \<noteq> [] \<and> NUL \<notin> set x \<longrightarrow> fdt_node_check_compatible b 8 x = Some (if x \<in> set ss then 0 else 1)))"
    using written_properties_found [OF w _ ok, of "''compatible''"] unfolding m o option.case by (simp del: packed_simps)
  from this [rule_format, of ?ss] have "strings_read b 8 ''compatible'' ?ss" "fdt_node_check_compatible b 8 ''arm,psci'' = Some 0"
    "fdt_node_check_compatible b 8 ''arm'' = Some 1" by simp_all
  then show ?thesis using w by (simp add: node_def)
qed

end
