(* ===== verification/Fdt_Splice.thy ===== *)
theory Fdt_Splice
  imports Fdt_Rw Fdt_Query_Props
begin

text \<open>
  The bytes of a tree that is changed: opening and closing gaps in the structure block and the strings, and
  writing headers of properties and nodes into a gap.  The structure block is any list of bytes.
\<close>

section \<open>Splicing\<close>

text \<open>A blob with the structure block \<open>S\<close>, the strings, the room and what is behind it.\<close>

definition raw_head :: "nat \<Rightarrow> nat \<Rightarrow> nat \<Rightarrow> u32 list" where
  "raw_head s t g = [FDT_MAGIC, of_nat (64 + s + t + g), 64, of_nat (64 + s), 48, 17, 16, 0, of_nat t, of_nat s]"

definition fdt_raw :: "char list \<Rightarrow> char list \<Rightarrow> char list \<times> char list \<Rightarrow> blob" where
  "fdt_raw S strs rest =
     mk_blob (raw_head (length S) (length strs) (length (fst rest))) (replicate 24 NUL @ S @ strs @ fst rest @ snd rest)"

definition raw_ok :: "char list \<Rightarrow> char list \<Rightarrow> char list \<times> char list \<Rightarrow> bool" where
  "raw_ok S strs rest \<longleftrightarrow> 64 + length S + length strs + length (fst rest) < 2147483647"

lemma final_raw: "fdt_final its strs rest = fdt_raw (enc its @ be32 FDT_END) strs rest"
  by (simp add: fdt_final_def fdt_raw_def raw_head_def Let_def)

lemma final_raw_ok: "final_ok its strs rest \<longleftrightarrow> raw_ok (enc its @ be32 FDT_END) strs rest"
  by (simp add: final_ok_def raw_ok_def)

lemma raw_fields:
  fixes S strs rest
  defines "b \<equiv> fdt_raw S strs rest"
  shows "fdt_totalsize b = of_nat (64 + length S + length strs + length (fst rest))" "fdt_off_dt_struct b = 64"
    "fdt_off_dt_strings b = of_nat (64 + length S)" "fdt_size_dt_strings b = of_nat (length strs)"
    "fdt_size_dt_struct b = of_nat (length S)" "fdt_version b = 17" "fdt_off_mem_rsvmap b = 48"
  by (simp_all add: b_def fdt_raw_def raw_head_def)

lemma length_raw: "length (fdt_raw S strs rest) = 64 + length S + length strs + length (fst rest) + length (snd rest)"
  by (simp add: fdt_raw_def raw_head_def)

lemma length_raw_head [simp]: "length (raw_head s t g) = 10"
  by (simp add: raw_head_def)

lemma blit_append: "length x = length d \<Longrightarrow> blit (a @ x @ c) (length a) d = a @ d @ c"
  by (simp add: blit_def)

text \<open>Writing inside of the structure block.\<close>

lemma wr_raw:
  assumes "length d = length X" "p = 64 + length A"
  shows "wr (fdt_raw (A @ X @ C) strs rest) p d = Some (fdt_raw (A @ d @ C) strs rest)"
proof -
  let ?h = "concat (map be32 (raw_head (length (A @ X @ C)) (length strs) (length (fst rest)))) @ replicate 24 NUL @ A"
  have "blit (fdt_raw (A @ X @ C) strs rest) p d = blit (?h @ X @ (C @ strs @ fst rest @ snd rest)) (length ?h) d"
    using assms(2) by (simp add: fdt_raw_def mk_blob_def)
  also have "\<dots> = fdt_raw (A @ d @ C) strs rest"
    using assms(1) by (subst blit_append) (simp_all add: fdt_raw_def mk_blob_def)
  finally show ?thesis using assms by (simp add: wr_def length_raw)
qed

lemma unat_of_nat32: "k < 2 ^ 32 \<Longrightarrow> unat (of_nat k :: u32) = k"
  by (simp add: unsigned_of_nat take_bit_nat_eq_self)

lemma raw_head_update:
  assumes "s + g = s' + g'"
  shows "(raw_head s t g)[9 := of_nat s', 3 := of_nat (64 + s')] = raw_head s' t g'"
proof -
  have "64 + s + t + g = 64 + s' + t + g'" using assms by simp
  then have "(of_nat (64 + s + t + g) :: u32) = of_nat (64 + s' + t + g')" by (rule arg_cong)
  then show ?thesis unfolding raw_head_def by (simp del: of_nat_add)
qed

lemma raw_head_nth: "raw_head s t g ! 9 = of_nat s" "raw_head s t g ! 3 = of_nat (64 + s)" "raw_head s t g ! 8 = of_nat t"
  by (simp_all add: raw_head_def)

text \<open>Replacing \<open>M\<close> by \<open>n\<close> bytes whose contents are left over: the bytes, then the header.\<close>

lemma splice_move:
  fixes A M C strs gap aft n
  defines "b \<equiv> fdt_raw (A @ M @ C) strs (gap, aft)" and "Z \<equiv> M @ C @ strs @ gap"
  assumes "raw_ok (A @ M @ C) strs (gap, aft)" "n \<le> length gap + length M"
  shows "memmove b (64 + int (length A) + int n) (64 + int (length A) + int (length M)) (int (length (C @ strs))) =
    Some (mk_blob (raw_head (length (A @ M @ C)) (length strs) (length gap))
      (replicate 24 NUL @ (A @ take n Z @ C) @ strs @ drop (n + length (C @ strs)) Z @ aft))"
proof -
  define q where "q = length (C @ strs)"
  define h where "h = concat (map be32 (raw_head (length (A @ M @ C)) (length strs) (length gap))) @ replicate 24 NUL @ A"
  have hs: "b = h @ Z @ aft" by (simp add: b_def fdt_raw_def mk_blob_def Z_def h_def)
  have hl: "length h = 64 + length A" by (simp add: h_def)
  have zl: "length Z = length M + q + length gap" by (simp add: Z_def q_def)
  have "take q (drop (64 + length A + length M) b) = C @ strs"
    unfolding hs using hl by (simp add: Z_def q_def)
  moreover have "length b = 64 + length A + length M + q + length gap + length aft" unfolding hs using hl zl by simp
  ultimately have "memmove b (64 + int (length A) + int n) (64 + int (length A) + int (length M)) (int q) =
      Some (blit b (64 + length A + n) (C @ strs))"
    using assms(4) zl unfolding memmove_def by (auto simp: nat_add_distrib)
  moreover have "blit b (64 + length A + n) (C @ strs) = h @ take n Z @ (C @ strs) @ drop (n + q) Z @ aft"
    unfolding hs blit_def using hl zl assms(4) q_def by simp
  ultimately show ?thesis unfolding q_def h_def mk_blob_def by simp
qed

lemma splice_header:
  assumes "s + n - m = s'" "m \<le> s" "n \<le> g + m"
    and b2: "b2 = fdt_set_size_dt_struct (fdt_size_dt_struct (mk_blob (raw_head s t g) body) + of_int (int n - int m)) (mk_blob (raw_head s t g) body)"
  shows "fdt_set_off_dt_strings (fdt_off_dt_strings b2 + of_int (int n - int m)) b2 = mk_blob (raw_head s' t (g + m - n)) body"
proof -
  have w: "of_nat s + of_int (int n - int m) = (of_nat s' :: u32)" "of_nat (64 + s) + of_int (int n - int m) = (of_nat (64 + s') :: u32)"
    using assms(1,2) by (auto simp: of_nat_diff)
  have b: "b2 = mk_blob ((raw_head s t g)[9 := of_nat s']) body"
    unfolding b2 using w(1) by (simp add: raw_head_nth del: of_nat_add of_int_diff)
  have "fdt_off_dt_strings b2 + of_int (int n - int m) = of_nat (64 + s')"
    unfolding b using w(2) by (simp add: raw_head_nth del: of_nat_add of_int_diff)
  moreover have "s + g = s' + (g + m - n)" using assms(1-3) by linarith
  ultimately show ?thesis unfolding b using raw_head_update [of s g s' "g + m - n" t] by (simp del: of_nat_add of_int_diff)
qed

lemma splice_raw:
  fixes A M C strs gap aft n
  defines "b \<equiv> fdt_raw (A @ M @ C) strs (gap, aft)" and "Z \<equiv> M @ C @ strs @ gap"
  assumes "raw_ok (A @ M @ C) strs (gap, aft)" "n < 2 ^ 31"
  shows "fdt_splice_struct (64 + int (length A)) (int (length M)) (int n) b =
    (if length gap + length M < n then Some (- FDT_ERR_NOSPACE, b)
     else Some (0, fdt_raw (A @ take n Z @ C) strs (drop (n + length (C @ strs)) Z, aft)))"
proof -
  define x a m t g where "x = 64 + length (A @ M @ C)" and "a = length A" and "m = length M" and "t = length strs" and "g = length gap"
  have bd: "x + t + g < 2147483647" "64 + a + m \<le> x" "x = 64 + (a + m + length C)"
    using assms(3) by (simp_all add: raw_ok_def x_def a_def m_def t_def g_def)
  have f: "fdt_data_size b = of_nat (x + t)" "fdt_totalsize b = of_nat (x + t + g)"
    unfolding fdt_data_size_def b_def raw_fields by (simp_all add: x_def t_def g_def)
  have u: "unat (of_nat (x + t) :: u32) = x + t" "unat (of_nat (x + t + g) :: u32) = x + t + g" "unat (of_nat m :: u32) = m"
      "unat (of_nat (x + t + n) :: u32) = x + t + n" "unat (of_nat (x + t - m + n) :: u32) = x + t - m + n"
    by (rule unat_of_nat32, use bd assms(4) in simp)+
  have s: "(of_nat (x + t) :: u32) + of_int (int n) = of_nat (x + t + n)" "(of_int (int m) :: u32) = of_nat m"
      "(of_nat (x + t) :: u32) - of_nat m + of_int (int n) = of_nat (x + t - m + n)"
    using bd by (simp_all add: of_nat_diff)
  have iff: "x + t + g < x + t - m + n \<longleftrightarrow> g + m < n" "int (x + t) - (64 + int a + int m) = int (length C + t)"
    using bd by linarith+
  have sp: "fdt_splice (64 + int a) (int m) (int n) b =
      (if g + m < n then Some (- FDT_ERR_NOSPACE, b)
       else do { b1 \<leftarrow> memmove b (64 + int a + int n) (64 + int a + int m) (int (length C + t)); Some (0, b1) })"
    unfolding fdt_splice_def Let_def f s word_less_nat_alt uint_nat u iff using bd by simp
  show ?thesis
  proof (cases "g + m < n")
    case True
    then show ?thesis using sp unfolding fdt_splice_struct_def if_ok0_def a_def m_def g_def by (simp add: Let_def)
  next
    case False
    define body where "body = replicate 24 NUL @ (A @ take n Z @ C) @ strs @ drop (n + length (C @ strs)) Z @ aft"
    have zl: "length Z = m + length (C @ strs) + g" by (simp add: Z_def m_def g_def)
    then have xs: "x - 64 + n - m = length (A @ take n Z @ C)" "length (drop (n + length (C @ strs)) Z) = g + m - n"
      using False by (simp_all add: x_def m_def)
    have "fdt_splice (64 + int a) (int m) (int n) b = Some (0, mk_blob (raw_head (x - 64) t g) body)"
      using sp splice_move [OF assms(3), of n] False
      by (simp add: a_def m_def g_def t_def b_def Z_def x_def body_def)
    then show ?thesis
      using False splice_header [of "x - 64" n m _ g _ t body, OF xs(1) _ _ refl] bd xs(2)
      unfolding fdt_splice_struct_def if_ok0_def a_def [symmetric] m_def [symmetric] g_def [symmetric]
      by (simp add: Let_def fdt_raw_def body_def t_def)
  qed
qed

section \<open>Strings and headers\<close>

lemma wr_strs:
  assumes "length d = length Y" "p = 64 + length S + length strs"
  shows "wr (fdt_raw S (strs @ Y) rest) p d = Some (fdt_raw S (strs @ d) rest)"
proof -
  let ?h = "concat (map be32 (raw_head (length S) (length (strs @ Y)) (length (fst rest)))) @ replicate 24 NUL @ S @ strs"
  have "blit (fdt_raw S (strs @ Y) rest) p d = blit (?h @ Y @ (fst rest @ snd rest)) (length ?h) d"
    using assms(2) by (simp add: fdt_raw_def mk_blob_def add.assoc)
  also have "\<dots> = fdt_raw S (strs @ d) rest"
    using assms(1) by (subst blit_append) (simp_all add: fdt_raw_def mk_blob_def)
  finally show ?thesis using assms by (simp add: wr_def length_raw)
qed

lemma raw_head_strs:
  assumes "t + g = t' + g'"
  shows "(raw_head s t g)[8 := of_nat t'] = raw_head s t' g'"
proof -
  have "64 + s + t + g = 64 + s + t' + g'" using assms by simp
  then have "(of_nat (64 + s + t + g) :: u32) = of_nat (64 + s + t' + g')" by (rule arg_cong)
  then show ?thesis unfolding raw_head_def by (simp del: of_nat_add)
qed

lemma splice_strs:
  assumes "raw_ok S strs (gap, aft)" "n < 2 ^ 30" "b = fdt_raw S strs (gap, aft)"
  shows "fdt_splice_string (int n) b =
    (if length gap < n then Some (- FDT_ERR_NOSPACE, b) else Some (0, fdt_raw S (strs @ take n gap) (drop n gap, aft)))"
proof -
  define x t g where "x = 64 + length S" and "t = length strs" and "g = length gap"
  have bd: "x + t + g < 2147483647" using assms(1) by (simp add: raw_ok_def x_def t_def g_def)
  have f: "fdt_data_size b = of_nat (x + t)" "fdt_totalsize b = of_nat (x + t + g)" "fdt_off_dt_strings b = of_nat x" "fdt_size_dt_strings b = of_nat t"
    unfolding fdt_data_size_def assms(3) raw_fields by (simp_all add: x_def t_def g_def)
  have u: "unat (of_nat (x + t) :: u32) = x + t" "unat (of_nat (x + t + g) :: u32) = x + t + g" "unat (of_nat x :: u32) = x"
      "unat (of_nat t :: u32) = t" "unat (of_nat (x + t + n) :: u32) = x + t + n"
    by (rule unat_of_nat32, use bd assms(2) in simp)+
  have s: "(of_nat (x + t) :: u32) - of_int 0 + of_int (int n) = of_nat (x + t + n)" "(of_nat (x + t) :: u32) + of_int (int n) = of_nat (x + t + n)"
    by simp_all
  have sp: "fdt_splice (int x + int t) 0 (int n) b =
      (if g < n then Some (- FDT_ERR_NOSPACE, b) else do { b1 \<leftarrow> memmove b (int x + int t + int n) (int x + int t) 0; Some (0, b1) })"
    unfolding fdt_splice_def Let_def f s word_less_nat_alt uint_nat u by simp
  have "memmove b (int x + int t + int n) (int x + int t) 0 = Some b" if "\<not> g < n"
    using that unfolding memmove_def assms(3) length_raw by (simp add: x_def t_def g_def blit_def)
  moreover have "fdt_set_size_dt_strings (of_nat t + of_int (int n)) b = fdt_raw S (strs @ take n gap) (drop n gap, aft)" if "\<not> g < n"
  proof -
    have td: "take n gap @ drop n gap @ aft = gap @ aft" by (metis append_assoc append_take_drop_id)
    have "of_nat t + of_int (int n) = (of_nat (t + n) :: u32)" by simp
    moreover have "length (strs @ take n gap) = t + n" "length (drop n gap) = g - n" using that by (simp_all add: t_def g_def)
    ultimately show ?thesis using that raw_head_strs [of t g "t + n" "g - n" "length S"] unfolding assms(3)
      by (simp add: fdt_raw_def t_def g_def td del: of_nat_add)
  qed
  ultimately show ?thesis using sp unfolding fdt_splice_string_def if_ok0_def f uint_nat u by (simp add: f g_def)
qed

lemma split4:
  assumes "length xs = 4 + n"
  obtains x ys where "xs = x @ ys" "length x = 4" "length ys = n"
  using that [of "take 4 xs" "drop 4 xs"] assms by simp

lemma write_prop:
  assumes "length X = 12 + length v" "p = 64 + length A"
  shows "\<exists>b5. do { b3 \<leftarrow> wr (fdt_raw (A @ X @ C) strs rest) p (be32 FDT_PROP); b4 \<leftarrow> wr b3 (p + 8) (be32 j); b5 \<leftarrow> wr b4 (p + 4) (be32 l);
              Some (0 :: int, p + 12, b5) } = Some (0, p + 12, b5) \<and>
    wr b5 (p + 12) v = Some (fdt_raw (A @ (be32 FDT_PROP @ be32 l @ be32 j @ v) @ C) strs rest)"
proof -
  obtain X1 Y1 where 1: "X = X1 @ Y1" "length X1 = 4" "length Y1 = 8 + length v"
    by (rule split4 [of X "8 + length v"]) (use assms(1) in simp_all)
  obtain X2 Y2 where 2: "Y1 = X2 @ Y2" "length X2 = 4" "length Y2 = 4 + length v"
    by (rule split4 [of Y1 "4 + length v"]) (use 1(3) in simp_all)
  obtain X3 X4 where 3: "Y2 = X3 @ X4" "length X3 = 4" "length X4 = length v"
    by (rule split4 [OF 2(3)])
  have x: "A @ X @ C = A @ X1 @ X2 @ X3 @ X4 @ C" using 1(1) 2(1) 3(1) by simp
  have w1: "wr (fdt_raw (A @ X1 @ X2 @ X3 @ X4 @ C) strs rest) p (be32 FDT_PROP) = Some (fdt_raw (A @ be32 FDT_PROP @ X2 @ X3 @ X4 @ C) strs rest)"
    using wr_raw [of "be32 FDT_PROP" X1 p A "X2 @ X3 @ X4 @ C" strs rest] 1 assms(2) by simp
  have w2: "wr (fdt_raw (A @ be32 FDT_PROP @ X2 @ X3 @ X4 @ C) strs rest) (p + 8) (be32 j) = Some (fdt_raw (A @ be32 FDT_PROP @ X2 @ be32 j @ X4 @ C) strs rest)"
    using wr_raw [of "be32 j" X3 "p + 8" "A @ be32 FDT_PROP @ X2" "X4 @ C" strs rest] 2 3 assms(2) by simp
  have w3: "wr (fdt_raw (A @ be32 FDT_PROP @ X2 @ be32 j @ X4 @ C) strs rest) (p + 4) (be32 l) = Some (fdt_raw (A @ be32 FDT_PROP @ be32 l @ be32 j @ X4 @ C) strs rest)"
    using wr_raw [of "be32 l" X2 "p + 4" "A @ be32 FDT_PROP" "be32 j @ X4 @ C" strs rest] 2 assms(2) by simp
  have "wr (fdt_raw (A @ be32 FDT_PROP @ be32 l @ be32 j @ X4 @ C) strs rest) (p + 12) v = Some (fdt_raw (A @ (be32 FDT_PROP @ be32 l @ be32 j @ v) @ C) strs rest)"
    using wr_raw [of v X4 "p + 12" "A @ be32 FDT_PROP @ be32 l @ be32 j" C strs rest] 3 assms(2) by simp
  then show ?thesis unfolding x w1 Option.bind.bind_lunit w2 w3 by blast
qed

lemma write_subnode:
  assumes "length X = length (enc_tok (TBegin name, k) @ enc_tok (TEnd, k'))" "p = 64 + length A"
  shows "do { b3 \<leftarrow> wr (fdt_raw (A @ X @ C) strs rest) p (be32 FDT_BEGIN_NODE);
              b4 \<leftarrow> wr b3 (p + 4) (replicate (length name + 1 + pad4 (length name + 1)) NUL);
              b5 \<leftarrow> wr b4 (p + 4) name;
              b6 \<leftarrow> wr b5 (p + length X - 4) (be32 FDT_END_NODE);
              Some (r, b6) } = Some (r, fdt_raw (A @ (enc_tok (TBegin name, k) @ enc_tok (TEnd, k')) @ C) strs rest)"
proof -
  define m where "m = length name + 1 + pad4 (length name + 1)"
  have lx: "length X = 4 + m + 4" using assms(1) by (simp add: m_def)
  define X1 X2 X3 where "X1 = take 4 X" and "X2 = take m (drop 4 X)" and "X3 = drop (4 + m) X"
  have "X = X1 @ X2 @ X3"
    unfolding X1_def X2_def X3_def using append_take_drop_id [of 4 X] append_take_drop_id [of m "drop 4 X"] by (simp add: add.commute)
  then have x: "X = X1 @ X2 @ X3" "length X1 = 4" "length X2 = m" "length X3 = 4"
    using lx by (simp_all add: X1_def X2_def X3_def)
  have w1: "wr (fdt_raw (A @ X @ C) strs rest) p (be32 FDT_BEGIN_NODE) = Some (fdt_raw (A @ be32 FDT_BEGIN_NODE @ X2 @ X3 @ C) strs rest)"
    using wr_raw [of "be32 FDT_BEGIN_NODE" X1 p A "X2 @ X3 @ C" strs rest] x assms(2) by simp
  have w2: "wr (fdt_raw (A @ be32 FDT_BEGIN_NODE @ X2 @ X3 @ C) strs rest) (p + 4) (replicate m NUL) =
      Some (fdt_raw (A @ be32 FDT_BEGIN_NODE @ replicate m NUL @ X3 @ C) strs rest)"
    using wr_raw [of "replicate m NUL" X2 "p + 4" "A @ be32 FDT_BEGIN_NODE" "X3 @ C" strs rest] x assms(2) by simp
  have r: "replicate m NUL = replicate (length name) NUL @ replicate (1 + pad4 (length name + 1)) NUL"
    unfolding m_def using replicate_add [of "length name" "1 + pad4 (length name + 1)" NUL] by (simp only: add.assoc)
  have w3: "wr (fdt_raw (A @ be32 FDT_BEGIN_NODE @ replicate m NUL @ X3 @ C) strs rest) (p + 4) name =
      Some (fdt_raw (A @ be32 FDT_BEGIN_NODE @ name @ replicate (1 + pad4 (length name + 1)) NUL @ X3 @ C) strs rest)"
    using wr_raw [of name "replicate (length name) NUL" "p + 4" "A @ be32 FDT_BEGIN_NODE" "replicate (1 + pad4 (length name + 1)) NUL @ X3 @ C" strs rest]
      assms(2) unfolding r by simp
  have "wr (fdt_raw (A @ be32 FDT_BEGIN_NODE @ name @ replicate (1 + pad4 (length name + 1)) NUL @ X3 @ C) strs rest) (p + length X - 4) (be32 FDT_END_NODE) =
      Some (fdt_raw (A @ be32 FDT_BEGIN_NODE @ name @ replicate (1 + pad4 (length name + 1)) NUL @ be32 FDT_END_NODE @ C) strs rest)"
    using wr_raw [of "be32 FDT_END_NODE" X3 "p + length X - 4" "A @ be32 FDT_BEGIN_NODE @ name @ replicate (1 + pad4 (length name + 1)) NUL" C strs rest]
      assms(2) x(4) lx unfolding m_def by simp
  then show ?thesis unfolding w1 m_def [symmetric] Option.bind.simps w2 w3 by simp
qed

end
