(* ===== verification/Fdt_Rw_Props.thy ===== *)
theory Fdt_Rw_Props
  imports Fdt_Splice
begin

text \<open>
  Changing a tree refines changing its list of tokens: setting and deleting properties, adding and deleting
  nodes.
\<close>

section \<open>Trees with room\<close>

text \<open>The blob holds the tokens and has \<open>room\<close> bytes left.\<close>

definition tree_room :: "fdt_tok list \<Rightarrow> nat \<Rightarrow> blob \<Rightarrow> bool" where
  "tree_room ts room b \<longleftrightarrow>
     (\<exists>its strs gap aft. b = fdt_final its strs (gap, aft) \<and> map fst its = ts \<and> final_ok its strs (gap, aft) \<and> names_ok strs its \<and>
        list_all tok_ok ts \<and> length gap = room)"

lemma tree_roomI:
  "b = fdt_final its strs (gap, aft) \<Longrightarrow> map fst its = ts \<Longrightarrow> final_ok its strs (gap, aft) \<Longrightarrow> names_ok strs its \<Longrightarrow>
   list_all tok_ok ts \<Longrightarrow> length gap = room \<Longrightarrow> tree_room ts room b"
  unfolding tree_room_def by blast

lemma tree_roomE:
  assumes "tree_room ts room b"
  obtains its strs gap aft where "b = fdt_final its strs (gap, aft)" "map fst its = ts" "final_ok its strs (gap, aft)" "names_ok strs its"
    "list_all tok_ok ts" "length gap = room"
  using assms unfolding tree_room_def by blast

lemma tree_room_final: "tree_room ts room b \<Longrightarrow> final_blob ts b"
  unfolding tree_room_def final_blob_def by blast

lemma sint_of_nat32: "n < 2 ^ 31 \<Longrightarrow> sint (of_nat n :: u32) = int n"
  using signed_of_int [of "int n", where ?'b = 32 and ?'a = int] by (simp add: signed_take_bit_int_eq_self)

lemma blocks_ordered:
  assumes "final_ok its strs rest"
  shows "\<not> fdt_blocks_misordered (fdt_final its strs rest) 16 (int (length (enc its) + 4))"
proof -
  define x t g where "x = 68 + length (enc its)" and "t = length strs" and "g = length (fst rest)"
  have b: "x + t + g < 2147483647" "68 \<le> x" using assms by (simp_all add: final_ok_def x_def t_def g_def)
  note f = final_fields [of its strs rest, folded x_def t_def g_def]
  have u: "unat (of_nat (x + t + g) :: u32) = x + t + g" "unat (of_nat (x + t) :: u32) = x + t" "unat (of_nat x :: u32) = x"
    by (rule unat_of_nat_less, use b in simp)+
  have l: "length (enc its) + 4 = x - 64" by (simp add: x_def)
  have s: "(64 :: u32) + of_int (int (x - 64)) = of_nat x" "(of_nat x :: u32) + of_nat t = of_nat (x + t)"
    using b by (simp_all add: of_nat_diff)
  show ?thesis unfolding fdt_blocks_misordered_def f l s word_less_nat_alt u by simp
qed

lemma struct_size_final: "final_ok its strs rest \<Longrightarrow> sint (fdt_size_dt_struct (fdt_final its strs rest)) = int (length (enc its) + 4)"
  unfolding final_fields final_ok_def by (rule sint_of_nat32) simp

lemma rw_probe_final:
  assumes "final_ok its strs rest"
  shows "fdt_rw_probe (fdt_final its strs rest) = (0, fdt_final its strs rest)"
  using blocks_ordered [OF assms] struct_size_final [OF assms] final_header(2) [OF assms] final_fields(6) [of its strs rest]
  by (simp add: fdt_rw_probe_def)

text \<open>Taking whole tokens out of the structure block.\<close>

lemma splice_out:
  assumes "final_ok (pre @ mid @ post) strs (gap, aft)" "b = fdt_final (pre @ mid @ post) strs (gap, aft)"
  shows "\<exists>gap'. fdt_splice_struct (64 + int (length (enc pre))) (int (length (enc mid))) 0 b =
      Some (0, fdt_final (pre @ post) strs (gap', aft)) \<and> length gap' = length gap + length (enc mid)"
  using splice_raw [of "enc pre" "enc mid" "enc post @ be32 FDT_END" strs gap aft 0] assms
  by (auto simp: final_raw final_raw_ok)

lemma names_ok_sub: "names_ok strs its \<Longrightarrow> set js \<subseteq> set its \<Longrightarrow> names_ok strs js"
  unfolding names_ok_def by blast

lemma final_ok_out:
  "final_ok (pre @ mid @ post) strs (gap, aft) \<Longrightarrow> length gap' = length gap + length (enc mid) \<Longrightarrow> final_ok (pre @ post) strs (gap', aft)"
  by (simp add: final_ok_def)

lemma tree_room_out:
  assumes "final_ok (pre @ mid @ post) strs (gap, aft)" "names_ok strs (pre @ mid @ post)" "list_all tok_ok (map fst (pre @ mid @ post))"
    "length gap' = length gap + length (enc mid)"
  shows "tree_room (map fst (pre @ post)) (length gap + tok_off (map fst mid)) (fdt_final (pre @ post) strs (gap', aft))"
proof (rule tree_roomI [OF refl refl])
  show "final_ok (pre @ post) strs (gap', aft)" by (rule final_ok_out [OF assms(1,4)])
  show "names_ok strs (pre @ post)" by (rule names_ok_sub [OF assms(2)]) auto
  show "length gap' = length gap + tok_off (map fst mid)" using assms(4) length_enc_off [of mid] by simp
qed (use assms(3) in simp)

lemma get_property_final:
  assumes "node_at_tok its pre s pits post" "final_ok its strs rest" "names_ok strs its" "list_all tok_ok (map fst its)"
    and b: "b = fdt_final its strs rest"
  shows "(\<forall>i \<in> set pits. \<forall>w. fst i \<noteq> TProp name w) \<and> fdt_get_property b (int (length (enc pre))) name = Some (Inl (- FDT_ERR_NOTFOUND)) \<or>
    (\<exists>k us v j ws pr. pits = us @ (TProp name v, j) # ws \<and> (\<forall>i \<in> set us. \<forall>w. fst i \<noteq> TProp name w) \<and>
       fdt_get_property b (int (length (enc pre))) name = Some (Inr pr) \<and> prop_len pr = of_nat (length v) \<and>
       its = pre @ (TBegin s, k) # us @ (TProp name v, j) # ws @ post \<and> prop_data pr = 76 + length (enc (pre @ (TBegin s, k) # us)))"
proof -
  define r where "r = Option.bind (fdt_first_property_offset b (int (length (enc pre)))) (\<lambda>off. get_property_loop b off name)"
  have g: "fdt_get_property b (int (length (enc pre))) name =
      Option.bind r (\<lambda>r. Some (case r of Inl e \<Rightarrow> Inl e | Inr (poffset, pr) \<Rightarrow> Inr pr))"
    by (simp add: fdt_get_property_def fdt_get_property_namelen_def r_def b final_fields word_less_nat_alt)
  obtain k where k: "its = pre @ (TBegin s, k) # pits @ post" "found b name (pre @ [(TBegin s, k)]) pits r"
    unfolding r_def using node_property [OF assms] by blast
  from k(2) show ?thesis unfolding found_def
  proof (elim disjE exE conjE)
    fix us v j ws off pr
    assume a: "pits = us @ (TProp name v, j) # ws" "\<forall>i \<in> set us. \<forall>w. fst i \<noteq> TProp name w" "r = Some (Inr (off, pr))"
      "prop_len pr = of_nat (length v)" "prop_data pr = 76 + length (enc ((pre @ [(TBegin s, k)]) @ us))"
    show ?thesis
      by (intro disjI2 exI [of _ k] exI [of _ us] exI [of _ v] exI [of _ j] exI [of _ ws] exI [of _ pr] conjI)
        (use a g k(1) in simp_all)
  qed (use g in simp)
qed

lemma c_int_self: "0 \<le> x \<Longrightarrow> x < 2 ^ 31 \<Longrightarrow> c_int x = x"
  unfolding c_int_def using signed_of_int [of x, where ?'b = 32 and ?'a = int] by (simp add: signed_take_bit_int_eq_self)

lemma length_enc_prop: "int (length (enc [(TProp p v, k)])) = 12 + FDT_TAGALIGN (int (length v))"
  by (simp add: pad4_align)

lemma props_split:
  assumes "map fst (us @ (TProp name v, j) # ws) = map (\<lambda>(p, v). TProp p v) props" "\<forall>i \<in> set us. \<forall>w. fst i \<noteq> TProp name w"
  obtains pu pw where "props = pu @ (name, v) # pw" "map fst us = map (\<lambda>(p, v). TProp p v) pu"
    "map fst ws = map (\<lambda>(p, v). TProp p v) pw" "name \<notin> fst ` set pu"
  using assms
proof (induction us arbitrary: props thesis)
  case Nil
  from Nil(2) obtain ps where "props = (name, v) # ps" "map fst ws = map (\<lambda>(p, v). TProp p v) ps" by (cases props) auto
  then show ?case using Nil(1) [of "[]" ps] by simp
next
  case (Cons i us)
  from Cons(3) obtain p w ps where ps: "props = (p, w) # ps" "fst i = TProp p w"
      "map fst (us @ (TProp name v, j) # ws) = map (\<lambda>(p, v). TProp p v) ps"
    by (cases props) auto
  obtain pu pw where "ps = pu @ (name, v) # pw" "map fst us = map (\<lambda>(p, v). TProp p v) pu"
      "map fst ws = map (\<lambda>(p, v). TProp p v) pw" "name \<notin> fst ` set pu"
    by (rule Cons.IH [OF _ ps(3)]) (use Cons(4) in simp_all)
  then show ?case using Cons(2) [of "(p, w) # pu" pw] ps Cons(4) by auto
qed

text \<open>A node of a tree, with the bytes around it.\<close>

lemma tree_nodeE:
  assumes "tree_room (pre @ node s props kids @ post) room b" "\<forall>p v us. kids \<noteq> TProp p v # us"
  obtains its strs gap aft ipre k pits ipost where "b = fdt_final its strs (gap, aft)" "final_ok its strs (gap, aft)" "names_ok strs its"
    "list_all tok_ok (map fst its)" "length gap = room" "node_at_tok its ipre s pits ipost" "its = ipre @ (TBegin s, k) # pits @ ipost"
    "map fst ipre = pre" "map fst pits = map (\<lambda>(p, v). TProp p v) props" "map fst ipost = kids @ TEnd # post"
    "int (tok_off pre) = int (length (enc ipre))" "fdt_rw_probe b = (0, b)"
proof -
  obtain its strs gap aft where b: "b = fdt_final its strs (gap, aft)" "map fst its = pre @ node s props kids @ post"
      "final_ok its strs (gap, aft)" "names_ok strs its" "list_all tok_ok (map fst its)" "length gap = room"
    using tree_roomE [OF assms(1)] by metis
  obtain ipre pits ipost where n: "node_at_tok its ipre s pits ipost" "map fst ipre = pre" "map fst pits = map (\<lambda>(p, v). TProp p v) props"
      "map fst ipost = kids @ TEnd # post"
    by (rule node_at_tokI [OF b(2) assms(2)])
  obtain k where k: "its = ipre @ (TBegin s, k) # pits @ ipost" using n(1) unfolding node_at_tok_def by (elim conjE exE)
  have o: "int (tok_off pre) = int (length (enc ipre))" using length_enc_off [of ipre] n(2) by simp
  have p: "fdt_rw_probe b = (0, b)" unfolding b(1) by (rule rw_probe_final [OF b(3)])
  show ?thesis by (rule that [OF b(1,3-6) n(1) k n(2-4) o p])
qed

lemma delprop_final:
  assumes "tree_room (pre @ node s props kids @ post) room b" "\<forall>p v us. kids \<noteq> TProp p v # us"
  shows "case map_of props name of
      None \<Rightarrow> fdt_delprop (int (tok_off pre)) name b = Some (- FDT_ERR_NOTFOUND, b)
    | Some v \<Rightarrow> \<exists>us ws b'. props = us @ (name, v) # ws \<and> name \<notin> fst ` set us \<and>
        fdt_delprop (int (tok_off pre)) name b = Some (0, b') \<and>
        tree_room (pre @ node s (us @ ws) kids @ post) (room + tok_off [TProp name v]) b'"
proof -
  obtain its strs gap aft ipre k0 pits ipost where b: "b = fdt_final its strs (gap, aft)" "final_ok its strs (gap, aft)" "names_ok strs its"
      "list_all tok_ok (map fst its)" "length gap = room" "node_at_tok its ipre s pits ipost" "its = ipre @ (TBegin s, k0) # pits @ ipost"
    and n: "map fst ipre = pre" "map fst pits = map (\<lambda>(p, v). TProp p v) props" "map fst ipost = kids @ TEnd # post"
    and o: "int (tok_off pre) = int (length (enc ipre))" and pb: "fdt_rw_probe b = (0, b)"
    by (rule tree_nodeE [OF assms])
  have d: "fdt_delprop (int (tok_off pre)) name b =
      Option.bind (fdt_get_property b (int (tok_off pre)) name) (\<lambda>r. case r of
          Inl len \<Rightarrow> Some (len, b)
        | Inr pr \<Rightarrow> fdt_splice_struct (int (prop_data pr) - 12) (c_int (12 + FDT_TAGALIGN (sint (prop_len pr)))) 0 b)"
    unfolding fdt_delprop_def if_ok0_def pb by simp
  from get_property_final [OF b(6,2-4,1), of name] show ?thesis
  proof (elim disjE exE conjE)
    assume "\<forall>i \<in> set pits. \<forall>w. fst i \<noteq> TProp name w" "fdt_get_property b (int (length (enc ipre))) name = Some (Inl (- FDT_ERR_NOTFOUND))"
    then show ?thesis using map_of_none [OF n(2)] d o by simp
  next
    fix k us v j ws pr
    let ?pre = "ipre @ (TBegin s, k) # us"
    assume a: "pits = us @ (TProp name v, j) # ws" "\<forall>i \<in> set us. \<forall>w. fst i \<noteq> TProp name w"
      "fdt_get_property b (int (length (enc ipre))) name = Some (Inr pr)" "prop_len pr = of_nat (length v)"
      "its = ipre @ (TBegin s, k) # us @ (TProp name v, j) # ws @ ipost" "prop_data pr = 76 + length (enc ?pre)"
    have its: "its = ?pre @ [(TProp name v, j)] @ ws @ ipost" using a(5) by simp
    obtain gap' where sp: "fdt_splice_struct (64 + int (length (enc ?pre))) (int (length (enc [(TProp name v, j)]))) 0 b =
        Some (0, fdt_final (?pre @ ws @ ipost) strs (gap', aft))" "length gap' = length gap + length (enc [(TProp name v, j)])"
      using splice_out [OF b(2) [unfolded its] b(1) [unfolded its]] by metis
    have lt: "int (length (enc [(TProp name v, j)])) < 2 ^ 31" using b(2) unfolding its final_ok_def by simp
    then have "c_int (12 + FDT_TAGALIGN (sint (prop_len pr))) = int (length (enc [(TProp name v, j)]))"
      unfolding a(4) by (subst sint_of_nat32) (simp, metis c_int_self length_enc_prop of_nat_0_le_iff)
    then have dp: "fdt_delprop (int (tok_off pre)) name b = Some (0, fdt_final (?pre @ ws @ ipost) strs (gap', aft))"
      unfolding d unfolding o a(3) using sp(1) a(6) by (simp del: enc_tok.simps)
    obtain pu pw where pp: "props = pu @ (name, v) # pw" "map fst us = map (\<lambda>(p, v). TProp p v) pu"
        "map fst ws = map (\<lambda>(p, v). TProp p v) pw" "name \<notin> fst ` set pu"
      using props_split [of us name v j ws props] a(1,2) n(2) by blast
    have "tree_room (pre @ node s (pu @ pw) kids @ post) (room + tok_off [TProp name v]) (fdt_final (?pre @ ws @ ipost) strs (gap', aft))"
      using tree_room_out [OF b(2-4) [unfolded its] sp(2)] b(5) n pp by (simp add: node_def)
    moreover have "map_of props name = Some v" using map_of_first [of us name v j ws props] a(1,2) n(2) by simp
    ultimately show ?thesis using dp pp(1,4) by auto
  qed
qed

section \<open>Deleting nodes\<close>

lemma next_node_begin:
  assumes "final_ok (pre @ (TBegin s, k) # its) strs rest" "tok_ok (TBegin s)" "b = fdt_final (pre @ (TBegin s, k) # its) strs rest"
  shows "fdt_next_node b (int (length (enc pre))) d = next_node_loop b (int (length (enc (pre @ [(TBegin s, k)])))) d"
proof -
  have "int (length (enc pre)) mod 4 = 0" using length_enc_dvd [of pre] by presburger
  then show ?thesis using final_begin(1) [OF assms(1,2)] assms(3) by (simp add: fdt_next_node_def fdt_check_node_offset_def del: enc_tok.simps)
qed

text \<open>One tag of the loop of \<open>fdt_next_node\<close>.\<close>

lemma next_node_step:
  assumes "final_ok (pre @ (t, k) # its) strs rest" "tok_ok t" "names_ok strs [(t, k)]" "b = fdt_final (pre @ (t, k) # its) strs rest"
  shows "next_node_loop b (int (length (enc pre))) (Some d) =
    (case t of
       TBegin s \<Rightarrow> Some (int (length (enc pre)), Some (d + 1))
     | TEnd \<Rightarrow> if d - 1 < 0 then Some (int (length (enc (pre @ [(t, k)]))), Some (d - 1))
                else next_node_loop b (int (length (enc (pre @ [(t, k)])))) (Some (d - 1))
     | TProp s v \<Rightarrow> next_node_loop b (int (length (enc (pre @ [(t, k)])))) (Some d))"
proof (cases t)
  case (TBegin s)
  show ?thesis using final_begin(1) [OF assms(1,2) [unfolded TBegin]] assms(4) TBegin by (subst next_node_loop.simps) simp
next
  case TEnd
  show ?thesis using final_end [OF assms(1) [unfolded TEnd]] assms(4) TEnd
    by (subst next_node_loop.simps) (simp del: enc_tok.simps of_nat_add add: Let_def)
next
  case (TProp s v)
  show ?thesis using final_prop(1) [OF assms(1-3) [unfolded TProp] refl] assms(4) TProp
    by (subst next_node_loop.simps) (simp del: enc_tok.simps of_nat_add)
qed

lemma end_walk:
  assumes "final_ok (pre @ us @ post) strs rest" "list_all tok_ok (map fst us)" "names_ok strs us" "closes (Suc d) (map fst us)"
    "b = fdt_final (pre @ us @ post) strs rest"
  shows "Option.bind (next_node_loop b (int (length (enc pre))) (Some (int d)))
      (\<lambda>(off, d'). case d' of None \<Rightarrow> None | Some d \<Rightarrow> node_end_loop b off d) = Some (int (length (enc (pre @ us))))"
  using assms
proof (induction us arbitrary: pre d)
  case (Cons i us)
  obtain t k where i: "i = (t, k)" by (rule prod.exhaust)
  have fo: "final_ok (pre @ (t, k) # us @ post) strs rest" "b = fdt_final (pre @ (t, k) # us @ post) strs rest" using Cons.prems(1,5) i by simp_all
  have ok: "tok_ok t" "list_all tok_ok (map fst us)" "names_ok strs us" "names_ok strs [(t, k)]"
    using Cons.prems(2,3) i names_ok_Cons [of strs i us] by simp_all
  note st = next_node_step [OF fo(1) ok(1,4) fo(2), of "int d"]
  have ih: "Option.bind (next_node_loop b (int (length (enc (pre @ [(t, k)])))) (Some (int e)))
      (\<lambda>(off, d'). case d' of None \<Rightarrow> None | Some d \<Rightarrow> node_end_loop b off d) = Some (int (length (enc (pre @ i # us))))"
    if "closes (Suc e) (map fst us)" for e
  proof -
    have "pre @ i # us = (pre @ [(t, k)]) @ us" by (simp add: i)
    then show ?thesis by (simp only:) (rule Cons.IH, use Cons.prems(1,5) ok(2,3) i that in simp_all)
  qed
  show ?case
  proof (cases t)
    case (TBegin s)
    have "closes (Suc (Suc d)) (map fst us)" using Cons.prems(4) i TBegin by simp
    from ih [OF this] show ?thesis using st next_node_begin [OF fo(1) [unfolded TBegin] ok(1) [unfolded TBegin] fo(2) [unfolded TBegin]] TBegin
      by (simp add: node_end_loop.simps [of b "int (length (enc pre))"] add.commute del: enc_tok.simps)
  next
    case TEnd
    have c: "closes d (map fst us)" using Cons.prems(4) i TEnd by simp
    show ?thesis
    proof (cases d)
      case 0
      then have "us = []" using c by (cases us) simp_all
      then show ?thesis using st TEnd 0 i by (simp add: node_end_loop.simps [of b _ "- 1"] del: enc_tok.simps)
    next
      case (Suc e)
      then show ?thesis using ih [of e] c st TEnd by (simp del: enc_tok.simps)
    qed
  next
    case (TProp s v)
    then have "closes (Suc d) (map fst us)" using Cons.prems(4) i by simp
    from ih [OF this] show ?thesis using st TProp by (simp del: enc_tok.simps)
  qed
qed simp

lemma node_end_final:
  assumes "final_ok (pre @ (TBegin s, k) # us @ post) strs rest" "list_all tok_ok (TBegin s # map fst us)" "names_ok strs us"
    "closes 1 (map fst us)" "b = fdt_final (pre @ (TBegin s, k) # us @ post) strs rest"
  shows "fdt_node_end_offset b (int (length (enc pre))) = Some (int (length (enc (pre @ (TBegin s, k) # us))))"
proof -
  have "Option.bind (next_node_loop b (int (length (enc (pre @ [(TBegin s, k)])))) (Some (int 0)))
      (\<lambda>(off, d'). case d' of None \<Rightarrow> None | Some d \<Rightarrow> node_end_loop b off d) = Some (int (length (enc ((pre @ [(TBegin s, k)]) @ us))))"
    by (rule end_walk [of _ us post strs rest]) (use assms in simp_all)
  then show ?thesis using next_node_begin [OF assms(1) _ assms(5)] assms(2)
    by (simp add: fdt_node_end_offset_def node_end_loop.simps [of b "int (length (enc pre))"] del: enc_tok.simps)
qed

lemma del_node_final:
  assumes "tree_room (pre @ node s props kids @ post) room b" "whole kids"
  shows "\<exists>b'. fdt_del_node (int (tok_off pre)) b = Some (0, b') \<and> tree_room (pre @ post) (room + tok_off (node s props kids)) b'"
proof -
  obtain its strs gap aft where b: "b = fdt_final its strs (gap, aft)" "map fst its = pre @ node s props kids @ post"
      "final_ok its strs (gap, aft)" "names_ok strs its" "list_all tok_ok (map fst its)" "length gap = room"
    using tree_roomE [OF assms(1)] by metis
  obtain ipre zs where z: "its = ipre @ zs" "map fst ipre = pre" "map fst zs = node s props kids @ post" by (rule map_fst_append [OF b(2)])
  obtain mid ipost where m: "zs = mid @ ipost" "map fst mid = node s props kids" "map fst ipost = post" by (rule map_fst_append [OF z(3)])
  obtain k us where k: "mid = (TBegin s, k) # us" "map fst us = tl (node s props kids)"
    using m(2) by (cases mid) (auto simp: node_def)
  have its: "its = ipre @ mid @ ipost" using z(1) m(1) by simp
  have o: "int (tok_off pre) = int (length (enc ipre))" using length_enc_off [of ipre] z(2) by simp
  have "fdt_node_end_offset b (int (length (enc ipre))) = Some (int (length (enc (ipre @ (TBegin s, k) # us))))"
  proof (rule node_end_final)
    show "closes 1 (map fst us)" using node_closes [OF assms(2)] k(2) by simp
    show "names_ok strs us" by (rule names_ok_sub [OF b(4)]) (auto simp: its k)
    show "list_all tok_ok (TBegin s # map fst us)" using b(5) unfolding its k(1) by simp
  qed (use b(1,3) its k in simp_all)
  moreover obtain gap' where sp: "fdt_splice_struct (64 + int (length (enc ipre))) (int (length (enc mid))) 0 b =
      Some (0, fdt_final (ipre @ ipost) strs (gap', aft))" "length gap' = length gap + length (enc mid)"
    using splice_out [OF b(3) [unfolded its] b(1) [unfolded its]] by metis
  moreover have "fdt_rw_probe b = (0, b)" unfolding b(1) by (rule rw_probe_final [OF b(3)])
  moreover have "uint (fdt_off_dt_struct b) = 64" unfolding b(1) final_fields by simp
  ultimately have "fdt_del_node (int (tok_off pre)) b = Some (0, fdt_final (ipre @ ipost) strs (gap', aft))"
    unfolding fdt_del_node_def if_ok0_def o by (simp add: k(1) del: enc_tok.simps)
  moreover have "tree_room (pre @ post) (room + tok_off (node s props kids)) (fdt_final (ipre @ ipost) strs (gap', aft))"
    using tree_room_out [OF b(3-5) [unfolded its] sp(2)] b(6) z(2) m(2,3) by simp
  ultimately show ?thesis by blast
qed

section \<open>Adding nodes\<close>

text \<open>A name without unit address finds a node with any unit address.\<close>

definition name_matches :: "string \<Rightarrow> string \<Rightarrow> bool" where
  "name_matches name s \<longleftrightarrow> prefix name s \<and> (length s = length name \<or> CHR ''@'' \<notin> set name \<and> s ! length name = CHR ''@'')"

text \<open>The names of the nodes directly inside of the node that is open \<open>d\<close> levels up.\<close>

fun subnodes :: "nat \<Rightarrow> fdt_tok list \<Rightarrow> string list" where
  "subnodes d [] = []"
| "subnodes d (TBegin s # ts) = (if d = 0 then [s] else []) @ subnodes (Suc d) ts"
| "subnodes d (TProp s v # ts) = subnodes d ts"
| "subnodes 0 (TEnd # ts) = []"
| "subnodes (Suc d) (TEnd # ts) = subnodes d ts"

lemma subnodes_props: "subnodes d (map (\<lambda>(p, v). TProp p v) props @ ts) = subnodes d ts"
  by (induction props) auto

lemma subnodes_TEnd [simp]: "subnodes d [TEnd] = []"
  by (cases d) simp_all

lemma subnodes_end: "subnodes d (ts @ [TEnd]) = subnodes d ts"
  by (induction d ts rule: subnodes.induct) simp_all

lemma subnode_walk:
  assumes "final_ok (pre @ us @ post) strs rest" "list_all tok_ok (map fst us)" "names_ok strs us" "closes (Suc d) (map fst us)"
    "b = fdt_final (pre @ us @ post) strs rest"
  shows "\<exists>r. Option.bind (next_node_loop b (int (length (enc pre))) (Some (int d)))
      (\<lambda>(off, d'). case d' of None \<Rightarrow> None | Some d \<Rightarrow> subnode_loop b off d name) = Some r \<and>
    (if \<exists>s \<in> set (subnodes d (map fst us)). name_matches name s then 0 \<le> r else r = - FDT_ERR_NOTFOUND)"
  using assms
proof (induction us arbitrary: pre d)
  case (Cons i us)
  obtain t k where i: "i = (t, k)" by (rule prod.exhaust)
  have fo: "final_ok (pre @ (t, k) # us @ post) strs rest" "b = fdt_final (pre @ (t, k) # us @ post) strs rest" using Cons.prems(1,5) i by simp_all
  have ok: "tok_ok t" "list_all tok_ok (map fst us)" "names_ok strs us" "names_ok strs [(t, k)]"
    using Cons.prems(2,3) i names_ok_Cons [of strs i us] by simp_all
  note st = next_node_step [OF fo(1) ok(1,4) fo(2), of "int d"]
  have ih: "\<exists>r. Option.bind (next_node_loop b (int (length (enc (pre @ [(t, k)])))) (Some (int e)))
      (\<lambda>(off, d'). case d' of None \<Rightarrow> None | Some d \<Rightarrow> subnode_loop b off d name) = Some r \<and>
      (if \<exists>s \<in> set (subnodes e (map fst us)). name_matches name s then 0 \<le> r else r = - FDT_ERR_NOTFOUND)"
    if "closes (Suc e) (map fst us)" for e
    by (rule Cons.IH) (use Cons.prems(1,5) ok(2,3) i that in simp_all)
  show ?case
  proof (cases t)
    case (TBegin s)
    have c: "closes (Suc (Suc d)) (map fst us)" using Cons.prems(4) i TBegin by simp
    have eq: "fdt_nodename_eq b (int (length (enc pre))) name = Some (name_matches name s)"
      using final_begin(2) [OF fo(1) [unfolded TBegin] ok(1) [unfolded TBegin]] fo(2) TBegin
      by (simp add: fdt_nodename_eq_def name_matches_def)
    have "subnode_loop b (int (length (enc pre))) (int d + 1) name =
        (if d = 0 \<and> name_matches name s then Some (int (length (enc pre)))
         else Option.bind (next_node_loop b (int (length (enc (pre @ [(t, k)])))) (Some (int (Suc d))))
           (\<lambda>(off, d'). case d' of None \<Rightarrow> None | Some d \<Rightarrow> subnode_loop b off d name))"
      using eq next_node_begin [OF fo(1) [unfolded TBegin] ok(1) [unfolded TBegin] fo(2) [unfolded TBegin]] TBegin
      by (subst subnode_loop.simps) (auto simp: add.commute simp del: enc_tok.simps)
    moreover have "(\<exists>x \<in> set (subnodes d (map fst (i # us))). name_matches name x) \<longleftrightarrow>
        d = 0 \<and> name_matches name s \<or> (\<exists>x \<in> set (subnodes (Suc d) (map fst us)). name_matches name x)"
      using TBegin i by auto
    ultimately show ?thesis using st ih [OF c] TBegin by (cases "d = 0 \<and> name_matches name s") (simp_all del: enc_tok.simps)
  next
    case TEnd
    have c: "closes d (map fst us)" using Cons.prems(4) i TEnd by simp
    show ?thesis
    proof (cases d)
      case 0
      then show ?thesis using st TEnd i by (simp add: subnode_loop.simps [of b _ "- 1"] del: enc_tok.simps)
    next
      case (Suc e)
      then show ?thesis using ih [of e] c st TEnd i by (simp del: enc_tok.simps)
    qed
  next
    case (TProp s v)
    then have "closes (Suc d) (map fst us)" using Cons.prems(4) i by simp
    from ih [OF this] show ?thesis using st TProp i by (simp del: enc_tok.simps)
  qed
qed simp

lemma subnode_final:
  assumes "final_ok (pre @ (TBegin s, k) # us @ post) strs rest" "list_all tok_ok (TBegin s # map fst us)" "names_ok strs us"
    "closes 1 (map fst us)" "b = fdt_final (pre @ (TBegin s, k) # us @ post) strs rest"
  shows "\<exists>r. fdt_subnode_offset_namelen b (int (length (enc pre))) name = Some r \<and>
    (if \<exists>s \<in> set (subnodes 0 (map fst us)). name_matches name s then 0 \<le> r else r = - FDT_ERR_NOTFOUND)"
proof -
  have "\<exists>r. Option.bind (next_node_loop b (int (length (enc (pre @ [(TBegin s, k)])))) (Some (int 0)))
      (\<lambda>(off, d'). case d' of None \<Rightarrow> None | Some d \<Rightarrow> subnode_loop b off d name) = Some r \<and>
    (if \<exists>s \<in> set (subnodes 0 (map fst us)). name_matches name s then 0 \<le> r else r = - FDT_ERR_NOTFOUND)"
    by (rule subnode_walk [of _ us post strs rest]) (use assms in simp_all)
  moreover have "\<not> fdt_ro_probe b < 0" using final_header(2) [OF assms(1)] assms(5) by simp
  ultimately show ?thesis using next_node_begin [OF assms(1) _ assms(5)] assms(2)
    by (simp add: fdt_subnode_offset_namelen_def subnode_loop.simps [of b "int (length (enc pre))"] del: enc_tok.simps)
qed

lemma after_props_final:
  assumes "final_ok (pre @ its @ (t, k) # post) strs rest" "list_all tok_ok (map fst its)" "names_ok strs its" "tok_ok t"
    "\<forall>p v. t \<noteq> TProp p v" "\<forall>i \<in> set its. \<exists>p v. fst i = TProp p v" "b = fdt_final (pre @ its @ (t, k) # post) strs rest"
  shows "after_props b (int (length (enc pre))) = Some (int (length (enc (pre @ its))))"
  using assms
proof (induction its arbitrary: pre)
  case Nil
  show ?case
  proof (cases t)
    case (TBegin s)
    then show ?thesis using final_begin(1) [of pre s k post strs rest] Nil by (subst after_props.simps) simp
  next
    case TEnd
    then show ?thesis using final_end [of pre k post strs rest] Nil by (subst after_props.simps) simp
  qed (use Nil in simp)
next
  case (Cons i its)
  obtain p v l where i: "i = (TProp p v, l)" using Cons.prems(6) by (metis list.set_intros(1) prod.collapse)
  have ok: "tok_ok (TProp p v)" "names_ok strs [(TProp p v, l)]" "names_ok strs its" "list_all tok_ok (map fst its)"
    using Cons.prems(2,3) i names_ok_Cons [of strs i its] by simp_all
  have "fdt_next_tag b (int (length (enc pre))) = Some (FDT_PROP, int (length (enc (pre @ [(TProp p v, l)]))))"
    by (rule final_prop(1) [of pre p v l "its @ (t, k) # post" strs rest]) (use Cons.prems i ok in simp_all)
  moreover have "after_props b (int (length (enc (pre @ [(TProp p v, l)])))) = Some (int (length (enc ((pre @ [(TProp p v, l)]) @ its))))"
    by (rule Cons.IH) (use Cons.prems i ok in simp_all)
  ultimately show ?case using i by (subst after_props.simps) (simp del: enc_tok.simps)
qed

text \<open>Opening a gap for tokens.\<close>

lemma splice_in:
  assumes "final_ok (pre @ post) strs (gap, aft)" "b = fdt_final (pre @ post) strs (gap, aft)" "n < 2 ^ 31"
  shows "if length gap < n then fdt_splice_struct (64 + int (length (enc pre))) 0 (int n) b = Some (- FDT_ERR_NOSPACE, b)
    else \<exists>X gap'. fdt_splice_struct (64 + int (length (enc pre))) 0 (int n) b =
        Some (0, fdt_raw (enc pre @ X @ enc post @ be32 FDT_END) strs (gap', aft)) \<and> length X = n \<and> length gap' = length gap - n"
proof -
  let ?Z = "(enc post @ be32 FDT_END) @ strs @ gap"
  have "length (take n ?Z) = n" "length (drop (n + length ((enc post @ be32 FDT_END) @ strs)) ?Z) = length gap - n" if "\<not> length gap < n"
    using that by simp_all
  then show ?thesis
    using splice_raw [of "enc pre" "[]" "enc post @ be32 FDT_END" strs gap aft n] assms unfolding final_raw final_raw_ok
    by (auto simp del: length_take length_drop take_append drop_append)
qed

lemma add_subnode_step:
  fixes name :: string
  defines "new \<equiv> [(TBegin name, no_extra), (TEnd, no_extra)]"
  assumes "b = fdt_final its strs (gap, aft)" "final_ok its strs (gap, aft)" "names_ok strs its" "list_all tok_ok (map fst its)"
    "node_at_tok its ipre s pits ipost" "its = ipre @ (TBegin s, k) # pits @ ipost" "fdt_rw_probe b = (0, b)"
    "fdt_subnode_offset_namelen b (int (length (enc ipre))) name = Some (- FDT_ERR_NOTFOUND)" "length name < 2 ^ 30"
  shows "if length gap < length (enc new) then fdt_add_subnode (int (length (enc ipre))) name b = Some (- FDT_ERR_NOSPACE, b)
    else \<exists>gap'. fdt_add_subnode (int (length (enc ipre))) name b =
        Some (int (length (enc (ipre @ (TBegin s, k) # pits))), fdt_final ((ipre @ (TBegin s, k) # pits) @ new @ ipost) strs (gap', aft)) \<and>
      length gap' = length gap - length (enc new)"
proof -
  let ?P = "ipre @ (TBegin s, k) # pits" and ?X = "enc_tok (TBegin name, no_extra) @ enc_tok (TEnd, no_extra)"
  define n where "n = length (enc new)"
  have nx: "n = length ?X" "n = 8 + (length name + 1 + pad4 (length name + 1))" by (simp_all add: n_def new_def)
  have "pad4 (length name + 1) < 4" by (simp add: pad4_def)
  then have lt: "n < 2 ^ 31" using assms(10) nx(2) by simp
  obtain t l ws where ip: "ipost = (t, l) # ws" "\<forall>p v. t \<noteq> TProp p v" "\<forall>i \<in> set pits. \<exists>p v. fst i = TProp p v"
    using assms(6) unfolding node_at_tok_def by (cases ipost) auto
  have nt: "fdt_next_tag b (int (length (enc ipre))) = Some (FDT_BEGIN_NODE, int (length (enc (ipre @ [(TBegin s, k)]))))"
    unfolding assms(2,7) by (rule final_begin(1)) (use assms(3,5,7) in simp_all)
  have ap: "after_props b (int (length (enc (ipre @ [(TBegin s, k)])))) = Some (int (length (enc ((ipre @ [(TBegin s, k)]) @ pits))))"
  proof (rule after_props_final)
    show "names_ok strs pits" by (rule names_ok_sub [OF assms(4)]) (auto simp: assms(7))
  qed (use assms(2,3,5,7) ip in simp_all)
  define w e where "w = length name + 1 + pad4 (length name + 1)" and "e = length (enc ?P)"
  define o0 o1 where "o0 = int (length (enc ipre))" and "o1 = int (length (enc (ipre @ [(TBegin s, k)])))"
  have ns: "FDT_TAGALIGN (int (length name) + 1) = int w" using pad4_align [of "length name + 1"] by (simp add: w_def add.commute)
  have cn: "c_int (8 + int w) = int n" using nx(2) lt by (simp add: c_int_self w_def)
  have u: "unat (fdt_off_dt_struct b) = 64" unfolding assms(2) final_fields by simp
  have ap': "after_props b o1 = Some (int e)" using ap by (simp add: o1_def e_def)
  have add: "fdt_add_subnode o0 name b =
      if_ok0 (fdt_splice_struct (64 + int e) 0 (int n) b)
        (\<lambda>b2. do { b3 \<leftarrow> wr b2 (64 + e) (be32 FDT_BEGIN_NODE); b4 \<leftarrow> wr b3 (64 + e + 4) (replicate w NUL); b5 \<leftarrow> wr b4 (64 + e + 4) name;
                    b6 \<leftarrow> wr b5 (64 + e + n - 4) (be32 FDT_END_NODE); Some (int e, b6) })"
    unfolding fdt_add_subnode_def fdt_add_subnode_namelen_def if_ok0_def assms(8)
    using nt [folded o0_def o1_def] assms(9) [folded o0_def] by (simp add: Let_def ap' ns cn u) (simp only: cn nat_int)
  show ?thesis
  proof (cases "length gap < n")
    case True
    then show ?thesis using splice_in [of ?P ipost strs gap aft b n, folded e_def] assms(2,3,7) lt
      unfolding o0_def [symmetric] add if_ok0_def n_def [symmetric] by simp
  next
    case False
    then obtain X gap' where sp: "fdt_splice_struct (64 + int e) 0 (int n) b = Some (0, fdt_raw (enc ?P @ X @ enc ipost @ be32 FDT_END) strs (gap', aft))"
        "length X = n" "length gap' = length gap - n"
      using splice_in [of ?P ipost strs gap aft b n, folded e_def] assms(2,3,7) lt by auto
    have "fdt_final (?P @ new @ ipost) strs (gap', aft) = fdt_raw (enc ?P @ ?X @ enc ipost @ be32 FDT_END) strs (gap', aft)"
      by (simp add: final_raw new_def)
    moreover have "length X = length ?X" "64 + e = 64 + length (enc ?P)" using sp(2) nx(1) by (simp_all add: e_def)
    note ws = write_subnode [OF this, of "enc ipost @ be32 FDT_END" strs "(gap', aft)" "int e", folded w_def, unfolded sp(2)]
    ultimately have "fdt_add_subnode o0 name b = Some (int e, fdt_final (?P @ new @ ipost) strs (gap', aft))"
      unfolding add if_ok0_def sp(1) by (simp only: ws Option.bind.bind_lunit prod.case simp_thms if_False)
    then show ?thesis using False sp(3) unfolding o0_def [symmetric] e_def [symmetric] n_def [symmetric] by auto
  qed
qed

lemma add_subnode_final:
  assumes "tree_room (pre @ node s props kids @ post) room b" "whole kids" "\<forall>p v us. kids \<noteq> TProp p v # us" "tok_ok (TBegin name)"
    "length name < 2 ^ 30"
  shows "if \<exists>x \<in> set (subnodes 0 kids). name_matches name x then fdt_add_subnode (int (tok_off pre)) name b = Some (- FDT_ERR_EXISTS, b)
    else if room < tok_off (node name [] []) then fdt_add_subnode (int (tok_off pre)) name b = Some (- FDT_ERR_NOSPACE, b)
    else \<exists>b'. fdt_add_subnode (int (tok_off pre)) name b = Some (int (tok_off (pre @ TBegin s # map (\<lambda>(p, v). TProp p v) props)), b') \<and>
      tree_room (pre @ node s props (node name [] [] @ kids) @ post) (room - tok_off (node name [] [])) b'"
proof -
  obtain its strs gap aft ipre k pits ipost where b: "b = fdt_final its strs (gap, aft)" "final_ok its strs (gap, aft)" "names_ok strs its"
      "list_all tok_ok (map fst its)" "length gap = room" "node_at_tok its ipre s pits ipost" "its = ipre @ (TBegin s, k) # pits @ ipost"
    and n: "map fst ipre = pre" "map fst pits = map (\<lambda>(p, v). TProp p v) props" "map fst ipost = kids @ TEnd # post"
    and o: "int (tok_off pre) = int (length (enc ipre))" and pb: "fdt_rw_probe b = (0, b)"
    by (rule tree_nodeE [OF assms(1,3)])
  have "map fst ipost = (kids @ [TEnd]) @ post" using n(3) by simp
  then obtain q ipost2 where q: "ipost = q @ ipost2" "map fst q = kids @ [TEnd]" by (rule map_fst_append)
  have c: "closes 1 (map fst (pits @ q))" using node_closes [OF assms(2), of s props] n(2) q(2) by (simp add: node_def)
  have sub: "subnodes 0 (map fst (pits @ q)) = subnodes 0 kids" using n(2) q(2) by (simp add: subnodes_props subnodes_end)
  obtain r where r: "fdt_subnode_offset_namelen b (int (length (enc ipre))) name = Some r"
      "if \<exists>x \<in> set (subnodes 0 kids). name_matches name x then 0 \<le> r else r = - FDT_ERR_NOTFOUND"
  proof -
    have "\<exists>r. fdt_subnode_offset_namelen b (int (length (enc ipre))) name = Some r \<and>
      (if \<exists>x \<in> set (subnodes 0 (map fst (pits @ q))). name_matches name x then 0 \<le> r else r = - FDT_ERR_NOTFOUND)"
    proof (rule subnode_final)
      show "names_ok strs (pits @ q)" by (rule names_ok_sub [OF b(3)]) (auto simp: b(7) q(1))
      show "list_all tok_ok (TBegin s # map fst (pits @ q))" using b(4) unfolding b(7) q(1) by simp
    qed (use c b(1,2,7) q(1) in simp_all)
    then show ?thesis using that unfolding sub by blast
  qed
  show ?thesis
  proof (cases "\<exists>x \<in> set (subnodes 0 kids). name_matches name x")
    case True
    then show ?thesis using r pb unfolding o fdt_add_subnode_def fdt_add_subnode_namelen_def if_ok0_def by simp
  next
    case False
    let ?new = "[(TBegin name, no_extra), (TEnd, no_extra)]" and ?P = "ipre @ (TBegin s, k) # pits"
    have tn: "tok_off (node name [] []) = length (enc ?new)" using length_enc_off [of ?new] by (simp add: node_def)
    have tp: "int (tok_off (pre @ TBegin s # map (\<lambda>(p, v). TProp p v) props)) = int (length (enc ?P))"
      using length_enc_off [of ?P] n by simp
    have "tree_room (pre @ node s props (node name [] [] @ kids) @ post) (room - length (enc ?new)) (fdt_final (?P @ ?new @ ipost) strs (gap', aft))"
      if "length gap' = length gap - length (enc ?new)" "\<not> length gap < length (enc ?new)" for gap'
    proof (rule tree_roomI [OF refl])
      show m: "map fst (?P @ ?new @ ipost) = pre @ node s props (node name [] [] @ kids) @ post" using n by (simp add: node_def)
      show "final_ok (?P @ ?new @ ipost) strs (gap', aft)" using b(2) that unfolding b(7) final_ok_def by simp
      show "names_ok strs (?P @ ?new @ ipost)" using b(3) unfolding b(7) names_ok_def by auto
      show "list_all tok_ok (pre @ node s props (node name [] [] @ kids) @ post)"
        using b(4) assms(4) unfolding m [symmetric] b(7) by simp
    qed (use that b(5) in simp)
    then show ?thesis
      using add_subnode_step [OF b(1-4,6,7) pb _ assms(5)] r False b(5) unfolding o tn tp by (auto simp del: enc_tok.simps split: if_splits)
  qed
qed

section \<open>Setting properties\<close>

abbreviation whole_len :: "char list \<Rightarrow> nat" where
  "whole_len v \<equiv> length v + pad4 (length v)"

lemma whole_len_small: "length v < 2 ^ 30 \<Longrightarrow> whole_len v < 2 ^ 30 + 4"
  by (simp add: pad4_def)

text \<open>A place for a value is the value and what fills it up.\<close>

lemma split_filler:
  assumes "length X = n + whole_len v"
  obtains Y Z where "X = Y @ Z" "length Y = n + length v" "length Z = pad4 (length v)"
proof
  show "X = take (n + length v) X @ drop (n + length v) X" by simp
qed (use assms in simp_all)

text \<open>A value that changes its size in place.\<close>

lemma resize_splice:
  fixes P ws name v v0 j
  defines "its \<equiv> P @ (TProp name v0, j) # ws"
  assumes "b = fdt_final its strs (gap, aft)" "final_ok its strs (gap, aft)" "length v < 2 ^ 30"
    "fdt_get_property b nodeoffset name = Some (Inr pr)" "prop_len pr = of_nat (length v0)" "prop_data pr = 76 + length (enc P)"
  shows "if length gap + whole_len v0 < whole_len v
    then fdt_resize_property nodeoffset name (int (length v)) b = Some (- FDT_ERR_NOSPACE, 0, b)
    else \<exists>gap' b' j'. name_off j' = name_off j \<and> fdt_resize_property nodeoffset name (int (length v)) b = Some (0, prop_data pr, b') \<and>
      wr b' (prop_data pr) v = Some (fdt_final (P @ (TProp name v, j') # ws) strs (gap', aft)) \<and>
      length gap' = length gap + whole_len v0 - whole_len v"
proof -
  define A where "A = enc P @ be32 FDT_PROP" 
  define M where "M = v0 @ filler (length v0) j"
  define C where "C = enc ws @ be32 FDT_END"
  let ?A = "A @ be32 (of_nat (length v0)) @ be32 (name_off j)"
  have b: "b = fdt_raw (?A @ M @ C) strs (gap, aft)" "raw_ok (?A @ M @ C) strs (gap, aft)"
    using assms(2,3) by (simp_all add: its_def final_raw final_raw_ok A_def M_def C_def)
  have la: "length ?A = length (enc P) + 12" "length A = length (enc P) + 4" by (simp_all add: A_def)
  have lm: "length M < 2 ^ 31" "length v0 < 2 ^ 31" using b(2) by (simp_all add: raw_ok_def M_def)
  have "FDT_TAGALIGN (int (length v0)) = int (length M)" "FDT_TAGALIGN (int (length v)) = int (whole_len v)"
    using pad4_align [of "length v0"] pad4_align [of "length v"] by (simp_all add: M_def)
  then have "fdt_resize_property nodeoffset name (int (length v)) b =
      if_ok (fdt_splice_struct (64 + int (length ?A)) (int (length M)) (int (whole_len v)) b)
        (\<lambda>b1. do { b2 \<leftarrow> wr b1 (prop_data pr - 8) (be32 (of_int (int (length v)))); Some (0, prop_data pr, b2) }) 0"
    using assms(4-7) whole_len_small [OF assms(4)] lm la by (simp add: fdt_resize_property_def sint_of_nat32 c_int_self)
  note r = this
  have sp: "fdt_splice_struct (64 + int (length ?A)) (int (length M)) (int (whole_len v)) b =
      (if length gap + length M < whole_len v then Some (- FDT_ERR_NOSPACE, b)
       else Some (0, fdt_raw (?A @ take (whole_len v) (M @ C @ strs @ gap) @ C) strs (drop (whole_len v + length (C @ strs)) (M @ C @ strs @ gap), aft)))"
    unfolding b(1) by (rule splice_raw [OF b(2)]) (use whole_len_small [OF assms(4)] in simp)
  show ?thesis
  proof (cases "length gap + length M < whole_len v")
    case True
    then show ?thesis using r sp by (simp add: if_ok_def M_def)
  next
    case False
    define X gap' where "X = take (whole_len v) (M @ C @ strs @ gap)" and "gap' = drop (whole_len v + length (C @ strs)) (M @ C @ strs @ gap)"
    have lx: "length X = 0 + whole_len v" "length gap' = length gap + length M - whole_len v" using False by (simp_all add: X_def gap'_def)
    obtain Y Z where yz: "X = Y @ Z" "length Y = 0 + length v" "length Z = pad4 (length v)" by (rule split_filler [OF lx(1)])
    have "wr (fdt_raw (A @ be32 (of_nat (length v0)) @ be32 (name_off j) @ X @ C) strs (gap', aft)) (prop_data pr - 8) (be32 (of_nat (length v))) =
        Some (fdt_raw (A @ be32 (of_nat (length v)) @ be32 (name_off j) @ X @ C) strs (gap', aft))"
      by (rule wr_raw) (use assms(7) la in simp_all)
    then have "fdt_resize_property nodeoffset name (int (length v)) b =
        Some (0, prop_data pr, fdt_raw (A @ be32 (of_nat (length v)) @ be32 (name_off j) @ X @ C) strs (gap', aft))"
      using r sp False by (simp add: if_ok_def X_def [symmetric] gap'_def [symmetric] del: take_append drop_append length_append)
    moreover have "wr (fdt_raw ((A @ be32 (of_nat (length v)) @ be32 (name_off j)) @ Y @ Z @ C) strs (gap', aft)) (prop_data pr) v =
        Some (fdt_raw ((A @ be32 (of_nat (length v)) @ be32 (name_off j)) @ v @ Z @ C) strs (gap', aft))"
      by (rule wr_raw) (use assms(7) la yz(2) in simp_all)
    moreover have "fdt_final (P @ (TProp name v, Extra (name_off j) Z) # ws) strs (gap', aft) =
        fdt_raw ((A @ be32 (of_nat (length v)) @ be32 (name_off j)) @ v @ Z @ C) strs (gap', aft)"
      using yz(3) by (simp add: final_raw A_def C_def)
    ultimately show ?thesis using False lx(2) yz(1)
      by (auto simp: M_def add.assoc intro!: exI [of _ gap'] exI [of _ "Extra (name_off j) Z"])
  qed
qed

text \<open>The name of a property among the strings, where it is added when it is missing.\<close>

lemma find_add_final:
  assumes "final_ok its strs (gap, aft)" "b = fdt_final its strs (gap, aft)" "length s \<le> 63"
  shows "case fdt_find_string strs s of
      Some p \<Rightarrow> fdt_find_add_string_rw s b = Some (int p, False, b)
    | None \<Rightarrow> if length gap < length s + 1 then fdt_find_add_string_rw s b = Some (- FDT_ERR_NOSPACE, False, b)
              else fdt_find_add_string_rw s b =
                Some (int (length strs), True, fdt_final its (strs @ s @ [NUL]) (drop (length s + 1) gap, aft))"
proof -
  let ?S = "enc its @ be32 FDT_END"
  have b: "b = fdt_raw ?S strs (gap, aft)" "raw_ok ?S strs (gap, aft)" using assms(1,2) by (simp_all add: final_raw final_raw_ok)
  have u: "unat (fdt_off_dt_strings b) = 64 + length ?S" "unat (fdt_size_dt_strings b) = length strs"
    unfolding b(1) raw_fields by (rule unat_of_nat_less, use b(2) in \<open>simp add: raw_ok_def\<close>)+
  have t: "take (length strs) (drop (64 + length ?S) b) = strs" unfolding b(1) by (simp add: fdt_raw_def mk_blob_def)
  have l: "\<not> length b < 64 + length ?S + length strs" unfolding b(1) length_raw by simp
  have fa: "fdt_find_add_string_rw s b = (case fdt_find_string strs s of
        Some p \<Rightarrow> Some (int p, False, b)
      | None \<Rightarrow> if_ok (fdt_splice_string (int (length s + 1)) b)
          (\<lambda>b1. do { b2 \<leftarrow> wr b1 (64 + length ?S + length strs) (s @ [NUL]); Some (int (length strs), True, b2) }) False)"
    unfolding fdt_find_add_string_rw_def Let_def u t using l by simp
  have sp: "fdt_splice_string (int (length s + 1)) b = (if length gap < length s + 1 then Some (- FDT_ERR_NOSPACE, b)
      else Some (0, fdt_raw ?S (strs @ take (length s + 1) gap) (drop (length s + 1) gap, aft)))"
    by (rule splice_strs [OF b(2) _ b(1)]) (use assms(3) in simp)
  have "wr (fdt_raw ?S (strs @ take (length s + 1) gap) (drop (length s + 1) gap, aft)) (64 + length ?S + length strs) (s @ [NUL]) =
      Some (fdt_final its (strs @ s @ [NUL]) (drop (length s + 1) gap, aft))" if "\<not> length gap < length s + 1"
    unfolding final_raw by (rule wr_strs) (use that in simp_all)
  then show ?thesis using fa sp by (simp add: if_ok_def split: option.split del: length_append)
qed

lemma names_ok_more: "names_ok strs its \<Longrightarrow> names_ok (strs @ ys) its"
  unfolding names_ok_def by (metis append.assoc append_Cons)

lemma add_prop_splice:
  fixes P Q name v j
  assumes "b1 = fdt_final (P @ Q) strs (gap, aft)" "final_ok (P @ Q) strs (gap, aft)" "length v < 2 ^ 30"
    "p = 64 + length (enc P)"
  shows "if length gap < 12 + whole_len v then fdt_splice_struct (int p) 0 (c_int (12 + FDT_TAGALIGN (int (length v)))) b1 = Some (- FDT_ERR_NOSPACE, b1)
    else \<exists>b2 b5 gap' Z. fdt_splice_struct (int p) 0 (c_int (12 + FDT_TAGALIGN (int (length v)))) b1 = Some (0, b2) \<and>
      do { b3 \<leftarrow> wr b2 p (be32 FDT_PROP); b4 \<leftarrow> wr b3 (p + 8) (be32 (of_int j)); b5 \<leftarrow> wr b4 (p + 4) (be32 (of_int (int (length v))));
           Some (0 :: int, p + 12, b5) } = Some (0, p + 12, b5) \<and>
      wr b5 (p + 12) v = Some (fdt_final (P @ (TProp name v, Extra (of_int j) Z) # Q) strs (gap', aft)) \<and> length gap' = length gap - (12 + whole_len v)"
proof -
  define n where "n = 12 + whole_len v"
  have c: "c_int (12 + FDT_TAGALIGN (int (length v))) = int n"
    using pad4_align [of "length v"] whole_len_small [OF assms(3)] by (simp add: n_def c_int_self)
  have "n < 2 ^ 31" using whole_len_small [OF assms(3)] by (simp add: n_def)
  note sp = splice_in [OF assms(2,1) this]
  show ?thesis
  proof (cases "length gap < n")
    case True
    then show ?thesis using sp assms(4) unfolding c n_def [symmetric] by simp
  next
    case False
    obtain X gap' where x: "fdt_splice_struct (64 + int (length (enc P))) 0 (int n) b1 =
        Some (0, fdt_raw (enc P @ X @ enc Q @ be32 FDT_END) strs (gap', aft))" "length X = n" "length gap' = length gap - n"
      using sp False by auto
    obtain Y Z where yz: "X = Y @ Z" "length Y = 12 + length v" "length Z = pad4 (length v)"
      by (rule split_filler [of X 12 v]) (use x(2) in \<open>simp_all add: n_def\<close>)
    let ?new = "P @ (TProp name v, Extra (of_int j) Z) # Q" and ?b2 = "fdt_raw (enc P @ Y @ Z @ enc Q @ be32 FDT_END) strs (gap', aft)"
    have new: "fdt_final ?new strs (gap', aft) =
        fdt_raw (enc P @ (be32 FDT_PROP @ be32 (of_nat (length v)) @ be32 (of_int j) @ v) @ Z @ enc Q @ be32 FDT_END) strs (gap', aft)"
      using yz(3) by (simp add: final_raw)
    obtain b5 where w: "do { b3 \<leftarrow> wr ?b2 p (be32 FDT_PROP); b4 \<leftarrow> wr b3 (p + 8) (be32 (of_int j)); b5 \<leftarrow> wr b4 (p + 4) (be32 (of_int (int (length v))));
        Some (0 :: int, p + 12, b5) } = Some (0, p + 12, b5)" "wr b5 (p + 12) v = Some (fdt_final ?new strs (gap', aft))"
      using write_prop [of Y v p "enc P" "Z @ enc Q @ be32 FDT_END" strs "(gap', aft)" "of_int j" "of_nat (length v)"] yz(2) assms(4)
      unfolding new of_int_of_nat_eq by metis
    have "int p = 64 + int (length (enc P))" using assms(4) by simp
    then show ?thesis using False x w unfolding c n_def [symmetric] yz(1) append_assoc
      by (simp only: if_False) (rule exI [of _ ?b2], rule exI [of _ b5], rule exI [of _ gap'], rule exI [of _ Z], simp)
  qed
qed

lemma del_string_final:
  "fdt_del_last_string_rw s (fdt_final its (strs @ s @ [NUL]) (gap, aft)) = fdt_final its strs (s @ NUL # gap, aft)"
proof -
  have "of_nat (length (strs @ s @ [NUL])) - of_nat (length s + 1) = (of_nat (length strs) :: u32)" by simp
  then show ?thesis
    using raw_head_strs [of "length (strs @ s @ [NUL])" "length gap" "length strs" "length (s @ NUL # gap)" "length (enc its @ be32 FDT_END)"]
    unfolding fdt_del_last_string_rw_def final_raw raw_fields by (simp add: fdt_raw_def del: of_nat_add of_nat_Suc)
qed

text \<open>The strings with the name of a new property, and its offset.\<close>

lemma find_add_names:
  assumes "final_ok its strs (gap, aft)" "b = fdt_final its strs (gap, aft)" "length s \<le> 63"
  shows "fdt_find_add_string_rw s b = Some (- FDT_ERR_NOSPACE, False, b) \<and> length gap < length s + 1 \<or>
    (\<exists>j add gap1. fdt_find_add_string_rw s b = Some (int j, add \<noteq> [], fdt_final its (strs @ add) (gap1, aft)) \<and>
       (\<exists>pre post. strs @ add = pre @ s @ NUL # post \<and> j = length pre) \<and> (add = [] \<or> add = s @ [NUL]) \<and>
       length add + length gap1 = length gap)"
proof (cases "fdt_find_string strs s")
  case None
  show ?thesis
  proof (cases "length gap < length s + 1")
    case False
    let ?gap = "drop (length s + 1) gap"
    have "fdt_find_add_string_rw s b = Some (int (length strs), True, fdt_final its (strs @ s @ [NUL]) (?gap, aft))"
      using find_add_final [OF assms] None False by simp
    then show ?thesis using False
      by - (rule disjI2, rule exI [of _ "length strs"], rule exI [of _ "s @ [NUL]"], rule exI [of _ ?gap], auto)
  qed (use find_add_final [OF assms] None in simp)
next
  case (Some p)
  then have "fdt_find_add_string_rw s b = Some (int p, False, b)" using find_add_final [OF assms] by simp
  moreover obtain pre post where "strs = pre @ s @ NUL # post" "length pre = p" using find_string_Some [OF Some] by blast
  ultimately show ?thesis using assms(2)
    by - (rule disjI2, rule exI [of _ p], rule exI [of _ "[]"], rule exI [of _ gap], auto)
qed

lemma add_property_final:
  fixes ipre s k Q name v
  defines "P \<equiv> ipre @ [(TBegin s, k)]"
  assumes b: "b = fdt_final (P @ Q) strs (gap, aft)" "final_ok (P @ Q) strs (gap, aft)" "tok_ok (TBegin s)" "tok_ok (TProp name v)"
    "length v < 2 ^ 30"
  shows "\<exists>rc d b'. fdt_add_property (int (length (enc ipre))) name (int (length v)) b = Some (rc, d, b') \<and>
    (rc = 0 \<and> (\<exists>j more gap'. wr b' d v = Some (fdt_final (P @ (TProp name v, j) # Q) (strs @ more) (gap', aft)) \<and>
        names_ok (strs @ more) [(TProp name v, j)] \<and> length more + length gap' + 12 + whole_len v = length gap \<and>
        length more \<le> length name + 1) \<or>
     rc = - FDT_ERR_NOSPACE \<and> length gap < 12 + whole_len v + length name + 1 \<and>
       (\<exists>gap'. b' = fdt_final (P @ Q) strs (gap', aft) \<and> length gap' = length gap))"
proof -
  have co: "fdt_check_node_offset b (int (length (enc ipre))) = Some (int (length (enc P)))"
    using final_begin(1) [of ipre s k Q strs "(gap, aft)"] b length_enc_dvd [of ipre]
    by (simp add: fdt_check_node_offset_def P_def del: enc_tok.simps) presburger
  have "length name \<le> 63" using b(4) by simp
  then consider (full) "fdt_find_add_string_rw name b = Some (- FDT_ERR_NOSPACE, False, b)" "length gap < length name + 1"
    | (name) j pre post add gap1 where
        "fdt_find_add_string_rw name b = Some (int j, add \<noteq> [], fdt_final (P @ Q) (strs @ add) (gap1, aft))"
        "strs @ add = pre @ name @ NUL # post" "j = length pre" "add = [] \<or> add = name @ [NUL]" "length add + length gap1 = length gap"
    using find_add_names [OF b(2,1)] by blast
  then show ?thesis
  proof cases
    case full
    then show ?thesis using co b(1) by (simp add: fdt_add_property_def) blast
  next
    case a: name
    let ?b1 = "fdt_final (P @ Q) (strs @ add) (gap1, aft)" and ?p = "64 + length (enc P)"
    have fo: "final_ok (P @ Q) (strs @ add) (gap1, aft)" using b(2) a(5) by (simp add: final_ok_def)
    have u: "unat (fdt_off_dt_struct ?b1) = 64" "uint (fdt_off_dt_struct ?b1) = 64" unfolding final_fields by simp_all
    have ad: "fdt_add_property (int (length (enc ipre))) name (int (length v)) b =
        Option.bind (fdt_splice_struct (int ?p) 0 (c_int (12 + FDT_TAGALIGN (int (length v)))) ?b1) (\<lambda>(err, b2).
          if err \<noteq> 0 then Some (err, 0, if add \<noteq> [] then fdt_del_last_string_rw name b2 else b2)
          else do { b3 \<leftarrow> wr b2 ?p (be32 FDT_PROP); b4 \<leftarrow> wr b3 (?p + 8) (be32 (of_int (int j)));
                    b5 \<leftarrow> wr b4 (?p + 4) (be32 (of_int (int (length v)))); Some (0, ?p + 12, b5) })"
      using co a(1) by (simp add: fdt_add_property_def Let_def u del: of_int_of_nat_eq) (simp only: u)
    note sp = add_prop_splice [OF refl fo b(5) refl, where name = name and j = "int j"]
    show ?thesis
    proof (cases "length gap1 < 12 + whole_len v")
      case True
      have "fdt_add_property (int (length (enc ipre))) name (int (length v)) b =
          Some (- FDT_ERR_NOSPACE, 0, fdt_final (P @ Q) strs (add @ gap1, aft))"
        using sp True a(4) del_string_final [of name "P @ Q" strs gap1 aft] unfolding ad by auto
      then show ?thesis using True a(4,5) by auto
    next
      case False
      then obtain b2 b5 gap' Z where w: "fdt_splice_struct (int ?p) 0 (c_int (12 + FDT_TAGALIGN (int (length v)))) ?b1 = Some (0, b2)"
          "do { b3 \<leftarrow> wr b2 ?p (be32 FDT_PROP); b4 \<leftarrow> wr b3 (?p + 8) (be32 (of_int (int j)));
                b5 \<leftarrow> wr b4 (?p + 4) (be32 (of_int (int (length v)))); Some (0 :: int, ?p + 12, b5) } = Some (0, ?p + 12, b5)"
          "wr b5 (?p + 12) v = Some (fdt_final (P @ (TProp name v, Extra (of_int (int j)) Z) # Q) (strs @ add) (gap', aft))"
          "length gap' = length gap1 - (12 + whole_len v)"
        using sp by (simp only: if_False) (elim exE conjE)
      have "names_ok (strs @ add) [(TProp name v, Extra (of_int (int j)) Z)]" using a(2,3) by (auto simp: names_ok_def)
      moreover have "length add + length gap' + 12 + whole_len v = length gap" using False a(5) w(4) by simp
      moreover have "length add \<le> length name + 1" using a(4) by auto
      moreover have "fdt_add_property (int (length (enc ipre))) name (int (length v)) b = Some (0, ?p + 12, b5)"
        unfolding ad w(1) using w(2) by simp
      ultimately show ?thesis using w(3) by blast
    qed
  qed
qed

text \<open>The properties after one has been set: the first of its name is replaced, a new one is put in front.\<close>

fun replace_first :: "string \<Rightarrow> char list \<Rightarrow> (string \<times> char list) list \<Rightarrow> (string \<times> char list) list" where
  "replace_first name v [] = []"
| "replace_first name v ((p, w) # ps) = (if p = name then (p, v) # ps else (p, w) # replace_first name v ps)"

definition set_prop :: "string \<Rightarrow> char list \<Rightarrow> (string \<times> char list) list \<Rightarrow> (string \<times> char list) list" where
  "set_prop name v props = (if map_of props name = None then (name, v) # props else replace_first name v props)"

lemma replace_first_append: "name \<notin> fst ` set us \<Longrightarrow> replace_first name v (us @ (name, w) # ws) = us @ (name, v) # ws"
  by (induction us) auto

lemma map_of_set_prop: "map_of (set_prop name v props) = (map_of props)(name \<mapsto> v)"
proof -
  have "map_of (replace_first name v ps) = (map_of ps)(name \<mapsto> v)" if "map_of ps name \<noteq> None" for ps
    using that by (induction name v ps rule: replace_first.induct) (auto split: if_splits)
  then show ?thesis by (simp add: set_prop_def)
qed

lemma tree_room_put:
  assumes "names_ok strs (P @ Q)" "list_all tok_ok (map fst (P @ Q))" "tok_ok t" "names_ok (strs @ add) [(t, j)]"
    "final_ok (P @ (t, j) # Q) (strs @ add) (gap, aft)"
  shows "tree_room (map fst P @ t # map fst Q) (length gap) (fdt_final (P @ (t, j) # Q) (strs @ add) (gap, aft))"
proof (rule tree_roomI [OF refl _ assms(5)])
  have "names_ok (strs @ add) (P @ Q)" using assms(1) by (rule names_ok_more)
  then show "names_ok (strs @ add) (P @ (t, j) # Q)" using assms(4) unfolding names_ok_def by auto
qed (use assms(2,3) in simp_all)

lemma setprop_room:
  assumes "tree_room (pre @ node s props kids @ post) room b" "\<forall>p v us. kids \<noteq> TProp p v # us"
    "tok_ok (TProp name v)" "length v < 2 ^ 30"
  shows "\<exists>rc b'. fdt_setprop (int (tok_off pre)) name v b = Some (rc, b') \<and>
    (rc = 0 \<and> (\<exists>room'. room \<le> room' + 12 + whole_len v + length name + 1 \<and> tree_room (pre @ node s (set_prop name v props) kids @ post) room' b') \<or>
     rc = - FDT_ERR_NOSPACE \<and> room < 12 + whole_len v + length name + 1 \<and> tree_room (pre @ node s props kids @ post) room b')"
proof -
  obtain its strs gap aft ipre k pits ipost where b: "b = fdt_final its strs (gap, aft)" "final_ok its strs (gap, aft)" "names_ok strs its"
      "list_all tok_ok (map fst its)" "length gap = room" "node_at_tok its ipre s pits ipost" "its = ipre @ (TBegin s, k) # pits @ ipost"
    and n: "map fst ipre = pre" "map fst pits = map (\<lambda>(p, v). TProp p v) props" "map fst ipost = kids @ TEnd # post"
    and o: "int (tok_off pre) = int (length (enc ipre))" and pb: "fdt_rw_probe b = (0, b)"
    by (rule tree_nodeE [OF assms(1,2)])
  have sp: "fdt_setprop (int (tok_off pre)) name v b =
      Option.bind (do { (err, data, b2) \<leftarrow> fdt_resize_property (int (length (enc ipre))) name (int (length v)) b;
           if err = - FDT_ERR_NOTFOUND then fdt_add_property (int (length (enc ipre))) name (int (length v)) b2 else Some (err, data, b2) })
        (\<lambda>(err, data, b1). if err \<noteq> 0 then Some (err, b1) else do { b2 \<leftarrow> wr b1 data v; Some (0, b2) })"
    unfolding fdt_setprop_def fdt_setprop_placeholder_def if_ok_def pb o by simp
  from get_property_final [OF b(6,2-4,1), of name] show ?thesis
  proof (elim disjE exE conjE)
    assume a: "\<forall>i \<in> set pits. \<forall>w. fst i \<noteq> TProp name w" "fdt_get_property b (int (length (enc ipre))) name = Some (Inl (- FDT_ERR_NOTFOUND))"
    have rn: "fdt_resize_property (int (length (enc ipre))) name (int (length v)) b = Some (- FDT_ERR_NOTFOUND, 0, b)"
      using a(2) by (simp add: fdt_resize_property_def)
    then have sa: "fdt_setprop (int (tok_off pre)) name v b =
        Option.bind (fdt_add_property (int (length (enc ipre))) name (int (length v)) b)
          (\<lambda>(err, data, b1). if err \<noteq> 0 then Some (err, b1) else do { b2 \<leftarrow> wr b1 data v; Some (0, b2) })"
      using sp by simp
    have ok: "tok_ok (TBegin s)" using b(4) unfolding b(7) by simp
    have its: "its = (ipre @ [(TBegin s, k)]) @ pits @ ipost" using b(7) by simp
    have np: "map_of props name = None" by (rule map_of_none [OF n(2) a(1)])
    from add_property_final [OF b(1,2) [unfolded its] ok assms(3,4)] show ?thesis
    proof (elim exE disjE conjE)
      fix rc d b' j add and gap' :: "char list"
      let ?b = "fdt_final ((ipre @ [(TBegin s, k)]) @ (TProp name v, j) # pits @ ipost) (strs @ add) (gap', aft)"
      assume c: "fdt_add_property (int (length (enc ipre))) name (int (length v)) b = Some (rc, d, b')" "rc = 0" "wr b' d v = Some ?b"
        "names_ok (strs @ add) [(TProp name v, j)]" "length add + length gap' + 12 + whole_len v = length gap"
        "length add \<le> length name + 1"
      have "final_ok ((ipre @ [(TBegin s, k)]) @ (TProp name v, j) # pits @ ipost) (strs @ add) (gap', aft)"
        using b(2) c(5) unfolding its by (simp add: final_ok_def)
      from tree_room_put [OF b(3,4) [unfolded its] assms(3) c(4) this]
      have "tree_room (pre @ node s (set_prop name v props) kids @ post) (length gap') ?b"
        using n np by (simp add: node_def set_prop_def)
      moreover have "room \<le> length gap' + 12 + whole_len v + length name + 1" using c(5,6) b(5) by simp
      ultimately show ?thesis using sa c(1-3) by (simp del: append_assoc append_Cons) blast
    next
      fix rc d b' and gap' :: "char list"
      assume c: "fdt_add_property (int (length (enc ipre))) name (int (length v)) b = Some (rc, d, b')" "rc = - FDT_ERR_NOSPACE"
        "length gap < 12 + whole_len v + length name + 1" "b' = fdt_final ((ipre @ [(TBegin s, k)]) @ pits @ ipost) strs (gap', aft)"
        "length gap' = length gap"
      have "tree_room (pre @ node s props kids @ post) room b'"
        by (rule tree_roomI [OF c(4)]) (use b n its c(5) in \<open>simp_all add: final_ok_def node_def\<close>)
      then show ?thesis using sa c b(5) by simp
    qed
  next
    fix k' us v0 j ws pr
    assume a: "pits = us @ (TProp name v0, j) # ws" "\<forall>i \<in> set us. \<forall>w. fst i \<noteq> TProp name w"
      "fdt_get_property b (int (length (enc ipre))) name = Some (Inr pr)" "prop_len pr = of_nat (length v0)"
      "its = ipre @ (TBegin s, k') # us @ (TProp name v0, j) # ws @ ipost" "prop_data pr = 76 + length (enc (ipre @ (TBegin s, k') # us))"
    let ?P = "ipre @ (TBegin s, k') # us"
    have its: "its = ?P @ (TProp name v0, j) # ws @ ipost" using a(5) by simp
    note rs = resize_splice [OF b(1,2) [unfolded its] assms(4) a(3,4,6)]
    obtain pu pw where pp: "props = pu @ (name, v0) # pw" "map fst us = map (\<lambda>(p, v). TProp p v) pu"
        "map fst ws = map (\<lambda>(p, v). TProp p v) pw" "name \<notin> fst ` set pu"
      using props_split [of us name v0 j ws props] a(1,2) n(2) by blast
    show ?thesis
    proof (cases "length gap + whole_len v0 < whole_len v")
      case True
      then show ?thesis using rs sp assms(1) b(5) by simp
    next
      case False
      then obtain gap' b' j' where c: "fdt_resize_property (int (length (enc ipre))) name (int (length v)) b = Some (0, prop_data pr, b')"
          "wr b' (prop_data pr) v = Some (fdt_final (?P @ (TProp name v, j') # ws @ ipost) strs (gap', aft))"
          "length gap' = length gap + whole_len v0 - whole_len v" "name_off j' = name_off j"
        using rs by (simp only: if_False) (elim exE conjE)
      have fo: "final_ok (?P @ (TProp name v, j') # ws @ ipost) (strs @ []) (gap', aft)"
        using b(2) c(3) False unfolding its by (simp add: final_ok_def)
      have "names_ok strs (?P @ ws @ ipost)" "list_all tok_ok (map fst (?P @ ws @ ipost))" "names_ok (strs @ []) [(TProp name v, j')]"
        using b(3,4) c(4) unfolding its names_ok_def by auto
      from tree_room_put [OF this(1,2) assms(3) this(3) fo]
      have "tree_room (pre @ node s (set_prop name v props) kids @ post) (length gap') (fdt_final (?P @ (TProp name v, j') # ws @ ipost) strs (gap', aft))"
        using n pp map_of_first [of us name v0 j ws props] a(1,2) by (simp add: node_def set_prop_def replace_first_append)
      moreover have "room \<le> length gap' + 12 + whole_len v + length name + 1" using c(3) b(5) by simp
      ultimately show ?thesis using sp c(1,2) by (simp del: append_assoc append_Cons) blast
    qed
  qed
qed

lemma setprop_final:
  assumes "tree_room (pre @ node s props kids @ post) room b" "\<forall>p v us. kids \<noteq> TProp p v # us"
    "tok_ok (TProp name v)" "length v < 2 ^ 30"
  shows "\<exists>rc b'. fdt_setprop (int (tok_off pre)) name v b = Some (rc, b') \<and>
    (rc = 0 \<and> (\<exists>room'. tree_room (pre @ node s (set_prop name v props) kids @ post) room' b') \<or>
     rc = - FDT_ERR_NOSPACE \<and> room < 12 + whole_len v + length name + 1 \<and> tree_room (pre @ node s props kids @ post) room b')"
  using setprop_room [OF assms] by blast

text \<open>A value of the same length is replaced in place, for any length.\<close>

lemma getprop_property:
  assumes "fdt_version b = 17"
  shows "fdt_getprop b off name =
    Option.bind (fdt_get_property b off name) (\<lambda>r. Some (case r of Inl e \<Rightarrow> Inl e | Inr pr \<Rightarrow> Inr (prop_data pr, prop_len pr)))"
  using assms by (simp add: fdt_getprop_def fdt_get_property_def fdt_get_property_namelen_def prop_value_def word_less_nat_alt
      split: Option.bind_splits sum.splits)

lemma setprop_inplace_final:
  assumes "tree_room (pre @ node s props kids @ post) room b" "\<forall>p v us. kids \<noteq> TProp p v # us" "tok_ok (TProp name v)"
  shows "case map_of props name of
      None \<Rightarrow> fdt_setprop_inplace (int (tok_off pre)) name v b = Some (- FDT_ERR_NOTFOUND, b)
    | Some w \<Rightarrow> if length w \<noteq> length v then fdt_setprop_inplace (int (tok_off pre)) name v b = Some (- FDT_ERR_NOSPACE, b)
        else \<exists>b'. fdt_setprop_inplace (int (tok_off pre)) name v b = Some (0, b') \<and>
          tree_room (pre @ node s (set_prop name v props) kids @ post) room b'"
proof -
  obtain its strs gap aft ipre k0 pits ipost where b: "b = fdt_final its strs (gap, aft)" "final_ok its strs (gap, aft)" "names_ok strs its"
      "list_all tok_ok (map fst its)" "length gap = room" "node_at_tok its ipre s pits ipost" "its = ipre @ (TBegin s, k0) # pits @ ipost"
    and n: "map fst ipre = pre" "map fst pits = map (\<lambda>(p, v). TProp p v) props" "map fst ipost = kids @ TEnd # post"
    and o: "int (tok_off pre) = int (length (enc ipre))" and pb: "fdt_rw_probe b = (0, b)"
    by (rule tree_nodeE [OF assms(1,2)])
  have g: "fdt_getprop b (int (tok_off pre)) name = Option.bind (fdt_get_property b (int (length (enc ipre))) name)
      (\<lambda>r. Some (case r of Inl e \<Rightarrow> Inl e | Inr pr \<Rightarrow> Inr (prop_data pr, prop_len pr)))"
    unfolding o by (rule getprop_property) (simp add: b(1) final_fields)
  from get_property_final [OF b(6,2-4,1), of name] show ?thesis
  proof (elim disjE exE conjE)
    assume "\<forall>i \<in> set pits. \<forall>w. fst i \<noteq> TProp name w" "fdt_get_property b (int (length (enc ipre))) name = Some (Inl (- FDT_ERR_NOTFOUND))"
    then show ?thesis using map_of_none [OF n(2)] g by (simp add: fdt_setprop_inplace_def)
  next
    fix k us j ws pr and w :: "char list"
    let ?P = "ipre @ (TBegin s, k) # us" and ?h = "be32 FDT_PROP @ be32 (of_nat (length w)) @ be32 (name_off j)"
    assume a: "pits = us @ (TProp name w, j) # ws" "\<forall>i \<in> set us. \<forall>w. fst i \<noteq> TProp name w"
      "fdt_get_property b (int (length (enc ipre))) name = Some (Inr pr)" "prop_len pr = of_nat (length w)"
      "its = ipre @ (TBegin s, k) # us @ (TProp name w, j) # ws @ ipost" "prop_data pr = 76 + length (enc ?P)"
    have its: "its = ?P @ (TProp name w, j) # ws @ ipost" using a(5) by simp
    have m: "map_of props name = Some w" using map_of_first [of us name w j ws props] a(1,2) n(2) by simp
    have lw: "length w < 2 ^ 31" using b(2) unfolding its by (simp add: final_ok_def)
    have gp: "fdt_getprop b (int (tok_off pre)) name = Some (Inr (prop_data pr, of_nat (length w)))" using g a(3,4) by simp
    show ?thesis
    proof (cases "length w = length v")
      case False
      then show ?thesis using m gp lw by (simp add: fdt_setprop_inplace_def sint_of_nat32)
    next
      case True
      have raw: "fdt_final (?P @ (TProp name x, j) # ws @ ipost) strs (gap, aft) =
          fdt_raw ((enc ?P @ ?h) @ x @ filler (length w) j @ enc (ws @ ipost) @ be32 FDT_END) strs (gap, aft)"
        if "length x = length w" for x using that by (simp add: final_raw)
      have "wr b (prop_data pr) v = Some (fdt_final (?P @ (TProp name v, j) # ws @ ipost) strs (gap, aft))"
        unfolding b(1) its using raw [of w] raw [of v] True a(6) by (simp only: refl) (rule wr_raw, simp_all)
      then have "fdt_setprop_inplace (int (tok_off pre)) name v b = Some (0, fdt_final (?P @ (TProp name v, j) # ws @ ipost) strs (gap, aft))"
        using gp True lw by (simp add: fdt_setprop_inplace_def fdt_setprop_inplace_namelen_partial_def sint_of_nat32)
      moreover have fo: "final_ok (?P @ (TProp name v, j) # ws @ ipost) (strs @ []) (gap, aft)"
        using b(2) True unfolding its by (simp add: final_ok_def)
      have "names_ok strs (?P @ ws @ ipost)" "list_all tok_ok (map fst (?P @ ws @ ipost))" "names_ok (strs @ []) [(TProp name v, j)]"
        using b(3,4) unfolding its names_ok_def by auto
      note tree_room_put [OF this(1,2) assms(3) this(3) fo]
      moreover obtain pu pw where "props = pu @ (name, w) # pw" "map fst us = map (\<lambda>(p, v). TProp p v) pu"
          "map fst ws = map (\<lambda>(p, v). TProp p v) pw" "name \<notin> fst ` set pu"
        using props_split [of us name w j ws props] a(1,2) n(2) by blast
      ultimately show ?thesis using m True n b(5) by (simp add: node_def set_prop_def replace_first_append)
    qed
  qed
qed

section \<open>Opening trees\<close>

text \<open>Opened in place, a tree has the rest of its buffer as room.\<close>

lemma open_final:
  assumes "b = fdt_final its strs (gap, aft)" "length b < 2147483647"
  shows "fdt_open_into 0 0 (int (length b)) b = Some (0, fdt_final its strs (gap @ aft, []))"
proof -
  have lb: "length b = 68 + length (enc its) + length strs + length gap + length aft" unfolding assms(1) length_final by simp
  have fo: "final_ok its strs (gap, aft)" using assms(2) unfolding lb by (simp add: final_ok_def)
  have tot: "unat (fdt_totalsize b) = 68 + length (enc its) + length strs + length gap"
    unfolding assms(1) final_fields fst_conv by (rule unat_of_nat_less) (use fo in \<open>simp add: final_ok_def\<close>)
  have "unat (of_int (int (length b)) :: u32) = length b" unfolding of_int_of_nat_eq by (rule unat_of_nat_less) (use assms(2) in simp)
  then have "\<not> (of_int (int (length b)) :: u32) < fdt_totalsize b" unfolding word_less_nat_alt tot using lb by simp
  moreover have pr: "\<not> fdt_ro_probe b < 0" using final_header(2) [OF fo] assms(1) by simp
  moreover have "memmove b 0 0 (uint (fdt_totalsize b)) = Some b"
    using lb tot by (simp add: memmove_def blit_def uint_nat)
  ultimately have mv: "fdt_move 0 0 (int (length b)) b = Some (0, b)" by (simp add: fdt_move_def)
  let ?hs = "raw_head (length (enc its) + 4) (length strs) (length gap)" and ?n = "length (enc its) + 4"
  have raw: "b = mk_blob ?hs (replicate 24 NUL @ (enc its @ be32 FDT_END) @ strs @ gap @ aft)"
    unfolding assms(1) final_raw fdt_raw_def by simp
  have lb2: "length b = 64 + ?n + length strs + length (gap @ aft)" using lb by simp
  define n where "n = length b"
  have hs: "?hs[5 := 17, 9 := of_nat ?n, 1 := of_nat n] = raw_head ?n (length strs) (length (gap @ aft))"
    unfolding raw_head_def n_def lb2 by simp
  have "fdt_set_totalsize (of_int (int n)) (fdt_set_size_dt_struct (of_int (int ?n)) (fdt_set_version 17 b)) = fdt_final its strs (gap @ aft, [])"
    unfolding of_int_of_nat_eq raw using hs by (simp add: final_raw fdt_raw_def del: of_nat_add)
  then show ?thesis
    using pr mv final_no_reservations [OF fo] struct_size_final [OF fo] blocks_ordered [OF fo] final_fields(6) [of its strs "(gap, aft)"]
    unfolding assms(1) [symmetric] n_def [symmetric]
    by (simp add: fdt_open_into_def Let_def if_ok0_def fdt_at_def word_le_nat_alt del: of_nat_add)
qed

lemma opened_room:
  assumes "write_tree ts b0 = Some (0, b)" "length b0 < 2147483647" "list_all tok_ok ts"
  shows "\<exists>room b'. fdt_open_into 0 0 (int (length b)) b = Some (0, b') \<and> tree_room ts room b' \<and>
    length b0 \<le> 68 + sum_list (map tok_space ts) + room"
proof -
  note w = written_final [OF assms]
  obtain its strs gap aft where b: "b = fdt_final its strs (gap, aft)" "map fst its = ts" "final_ok its strs (gap, aft)" "names_ok strs its"
    using w(1) unfolding final_blob_def by auto
  have "length b < 2147483647" using w(2) assms(2) by simp
  then have "final_ok its strs (gap @ aft, [])" unfolding b(1) length_final by (simp add: final_ok_def)
  then have "tree_room ts (length (gap @ aft)) (fdt_final its strs (gap @ aft, []))" by (rule tree_roomI [OF refl b(2) _ b(4) assms(3) refl])
  moreover have "unat (fdt_totalsize b) = 68 + length (enc its) + length strs + length gap"
    unfolding b(1) final_fields fst_conv by (rule unat_of_nat_less) (use b(3) in \<open>simp add: final_ok_def\<close>)
  then have "length b0 \<le> 68 + sum_list (map tok_space ts) + length (gap @ aft)" using w(2,3) unfolding b(1) length_final by simp
  ultimately show ?thesis using open_final [OF b(1)] \<open>length b < 2147483647\<close> by blast
qed

lemma tree_room_tokens:
  assumes "tree_room ts room b"
  shows "fdt_check_header b = 0" "fdt_tokens b = Some ts"
proof -
  obtain its strs gap aft where b: "b = fdt_final its strs (gap, aft)" "map fst its = ts" "final_ok its strs (gap, aft)" "names_ok strs its"
      "list_all tok_ok ts"
    using tree_roomE [OF assms] by metis
  show "fdt_check_header b = 0" using final_header(1) [OF b(3)] b(1) by simp
  have "length its < length b" using enc_length [of its] unfolding b(1) length_final by simp
  then have "fdt_dump (length b) (fdt_final ([] @ its) strs (gap, aft)) (int (length (enc []))) = Some (map fst its)"
    by (intro dump_final) (use b in simp_all)
  then show "fdt_tokens b = Some ts" using b(1,2) by (simp add: fdt_tokens_def)
qed

text \<open>An empty tree is a tree of one node.\<close>

lemma empty_tree:
  assumes "length buf < 2147483647" "length buf \<ge> 100"
  shows "\<exists>room b. fdt_create_empty_tree buf (int (length buf)) = Some (0, b) \<and> tree_room (node [] [] []) room b"
proof -
  let ?ts = "[TBegin [], TEnd]"
  have ok: "list_all tok_ok ?ts" by simp
  obtain b where w: "write_tree ?ts buf = Some (0, b)"
    using write_tree_sw [OF assms(1) ok] assms(2) by (auto simp: pad4_def be32_def le32_def)
  obtain room b' where o: "fdt_open_into 0 0 (int (length b)) b = Some (0, b')" "tree_room ?ts room b'"
    using opened_room [OF w assms(1) ok] by blast
  have "fdt_create_empty_tree buf (int (length buf)) = if_ok0 (write_tree ?ts buf) (\<lambda>b5. fdt_open_into 0 0 (int (length buf)) b5)"
    unfolding fdt_create_empty_tree_def write_tree_def if_ok0_def by (auto split: Option.bind_splits)
  then show ?thesis using w o written_final(2) [OF w assms(1) ok] by (auto simp: if_ok0_def node_def)
qed

section \<open>Refinement\<close>

text \<open>C8. A blob with room that holds a tree -- every written tree is one when it has been opened -- reads back
  as this tree, and the operations of the random-access writer refine the operations on the tree at every
  node: \<open>fdt_setprop\<close> with a value of less than 1 GB replaces the first property of the name or adds it in
  front, or reports the lack of room and changes nothing; \<open>fdt_delprop\<close> removes the first property of the
  name or reports that there is none; \<open>fdt_add_subnode\<close> puts an empty node behind the properties and
  returns its offset, unless a subnode matches the name or the room is too small; \<open>fdt_del_node\<close> removes the
  node and gives its bytes back to the room; \<open>fdt_setprop_inplace\<close> replaces the first property of the name by
  a value of the same length.\<close>

theorem tree_edits_refine:
  assumes "tree_room (pre @ node s props kids @ post) room b" "whole kids" "\<forall>p v us. kids \<noteq> TProp p v # us"
    "tok_ok (TProp name v)" "length v < 2 ^ 30" "tok_ok (TBegin child)" "length child < 2 ^ 30"
  shows "fdt_check_header b = 0 \<and> fdt_tokens b = Some (pre @ node s props kids @ post) \<and>
    (\<exists>rc b'. fdt_setprop (int (tok_off pre)) name v b = Some (rc, b') \<and>
      (rc = 0 \<and> (\<exists>room'. tree_room (pre @ node s (set_prop name v props) kids @ post) room' b') \<or>
       rc = - FDT_ERR_NOSPACE \<and> room < 12 + whole_len v + length name + 1 \<and> tree_room (pre @ node s props kids @ post) room b')) \<and>
    (case map_of props name of
       None \<Rightarrow> fdt_delprop (int (tok_off pre)) name b = Some (- FDT_ERR_NOTFOUND, b)
     | Some w \<Rightarrow> \<exists>us ws b'. props = us @ (name, w) # ws \<and> name \<notin> fst ` set us \<and>
         fdt_delprop (int (tok_off pre)) name b = Some (0, b') \<and>
         tree_room (pre @ node s (us @ ws) kids @ post) (room + tok_off [TProp name w]) b') \<and>
    (if \<exists>x \<in> set (subnodes 0 kids). name_matches child x then fdt_add_subnode (int (tok_off pre)) child b = Some (- FDT_ERR_EXISTS, b)
     else if room < tok_off (node child [] []) then fdt_add_subnode (int (tok_off pre)) child b = Some (- FDT_ERR_NOSPACE, b)
     else \<exists>b'. fdt_add_subnode (int (tok_off pre)) child b = Some (int (tok_off (pre @ TBegin s # map (\<lambda>(p, v). TProp p v) props)), b') \<and>
       tree_room (pre @ node s props (node child [] [] @ kids) @ post) (room - tok_off (node child [] [])) b') \<and>
    (\<exists>b'. fdt_del_node (int (tok_off pre)) b = Some (0, b') \<and> tree_room (pre @ post) (room + tok_off (node s props kids)) b') \<and>
    (case map_of props name of
       None \<Rightarrow> fdt_setprop_inplace (int (tok_off pre)) name v b = Some (- FDT_ERR_NOTFOUND, b)
     | Some w \<Rightarrow> if length w \<noteq> length v then fdt_setprop_inplace (int (tok_off pre)) name v b = Some (- FDT_ERR_NOSPACE, b)
         else \<exists>b'. fdt_setprop_inplace (int (tok_off pre)) name v b = Some (0, b') \<and>
           tree_room (pre @ node s (set_prop name v props) kids @ post) room b')"
  by (intro conjI tree_room_tokens [OF assms(1)] setprop_final [OF assms(1,3-5)] delprop_final [OF assms(1,3)]
      add_subnode_final [OF assms(1-3,6,7)] del_node_final [OF assms(1,2)] setprop_inplace_final [OF assms(1,3,4)])

lemma demo_tree: "tree_room (node [] [] []) 100 (fdt_final [(TBegin [], no_extra), (TEnd, no_extra)] [] (replicate 100 NUL, []))"
  by (rule tree_roomI [OF refl]) (simp_all add: node_def names_ok_def final_ok_def pad4_def)

theorem tree_edits_refine_witness:
  "\<exists>b1 b2. fdt_setprop 0 ''status'' (''okay'' @ [NUL]) (fdt_final [(TBegin [], no_extra), (TEnd, no_extra)] [] (replicate 100 NUL, [])) = Some (0, b1) \<and>
     (\<exists>room. tree_room (node [] [(''status'', ''okay'' @ [NUL])] []) room b1) \<and>
     fdt_add_subnode 0 ''cpus'' (fdt_final [(TBegin [], no_extra), (TEnd, no_extra)] [] (replicate 100 NUL, [])) = Some (8, b2) \<and>
     tree_room (node [] [] (node ''cpus'' [] [])) 84 b2"
proof -
  have t: "tree_room ([] @ node [] [] [] @ []) 100 (fdt_final [(TBegin [], no_extra), (TEnd, no_extra)] [] (replicate 100 NUL, []))"
    using demo_tree by simp
  have o: "tok_off [TBegin []] = 8" "tok_off (node ''cpus'' [] []) = 16" "tok_off [] = 0"
    by (simp_all add: tok_off_def node_def pad4_def be32_def le32_def)
  have "whole []" by (rule wholes)
  moreover have "tok_ok (TProp ''status'' (''okay'' @ [NUL]))" "length (''okay'' @ [NUL]) < 2 ^ 30" "tok_ok (TBegin ''cpus'')"
      "length ''cpus'' < 2 ^ 30" by simp_all
  ultimately show ?thesis using tree_edits_refine [OF t, of "''status''" "''okay'' @ [NUL]" "''cpus''"] by (simp add: o set_prop_def pad4_def)
qed

end
