(* ===== verification/Fdt_Walk.thy ===== *)
theory Fdt_Walk
  imports Fdt_Rw_Props
begin

text \<open>
  Walking over a blob by the tokens it holds: the offsets of properties and subnodes that the loops
  \<open>fdt_for_each_property_offset\<close> and \<open>fdt_for_each_subnode\<close> visit and that \<open>fdt_subnode_offset\<close> finds.
\<close>

section \<open>One token\<close>

lemma tok_off_append: "tok_off (xs @ ys) = tok_off xs + tok_off ys"
  by (simp add: tok_off_def)

lemma final_tokE:
  assumes "final_blob (tp @ t # ts) b"
  obtains ipre k ipost strs rest where "b = fdt_final (ipre @ (t, k) # ipost) strs rest" "final_ok (ipre @ (t, k) # ipost) strs rest"
    "names_ok strs [(t, k)]" "tok_ok t" "tok_off tp = length (enc ipre)" "tok_off (tp @ [t]) = length (enc (ipre @ [(t, k)]))"
proof -
  obtain its strs rest where b: "b = fdt_final its strs rest" "map fst its = tp @ t # ts" "final_ok its strs rest" "names_ok strs its"
      "list_all tok_ok (tp @ t # ts)"
    using assms by (auto simp: final_blob_def)
  obtain ipre us where u: "its = ipre @ us" "map fst ipre = tp" "map fst us = t # ts" by (rule map_fst_append [OF b(2)])
  obtain k ipost where k: "us = (t, k) # ipost" by (rule map_fst_Cons [OF u(3)])
  have "names_ok strs [(t, k)]" by (rule names_ok_sub [OF b(4)]) (simp add: u(1) k)
  then show ?thesis
    using that [of ipre k ipost strs rest] b u k length_enc_off [of ipre] length_enc_off [of "ipre @ [(t, k)]"] by simp
qed

lemma final_blob_probe: "final_blob ts b \<Longrightarrow> \<not> fdt_ro_probe b < 0"
  unfolding final_blob_def using final_header(2) by fastforce

lemma tok_off_mod: "int (tok_off ts) mod 4 = 0"
  using length_enc_dvd [of "map (\<lambda>t. (t, no_extra)) ts"] by (simp add: tok_off_def) presburger

lemma tag_tok:
  assumes "final_blob (tp @ t # ts) b"
  shows "fdt_next_tag b (int (tok_off tp)) =
    Some (case t of TBegin s \<Rightarrow> FDT_BEGIN_NODE | TEnd \<Rightarrow> FDT_END_NODE | TProp s v \<Rightarrow> FDT_PROP, int (tok_off (tp @ [t])))"
proof -
  obtain ipre k ipost strs rest where b: "b = fdt_final (ipre @ (t, k) # ipost) strs rest" "final_ok (ipre @ (t, k) # ipost) strs rest"
      "names_ok strs [(t, k)]" "tok_ok t" and o: "tok_off tp = length (enc ipre)" "tok_off (tp @ [t]) = length (enc (ipre @ [(t, k)]))"
    by (rule final_tokE [OF assms])
  show ?thesis unfolding o
  proof (cases t)
    case (TBegin s)
    then show "fdt_next_tag b (int (length (enc ipre))) = Some (case t of TBegin s \<Rightarrow> FDT_BEGIN_NODE | TEnd \<Rightarrow> FDT_END_NODE | TProp s v \<Rightarrow> FDT_PROP,
        int (length (enc (ipre @ [(t, k)]))))"
      using final_begin(1) b by (simp del: enc_tok.simps)
  next
    case TEnd
    then show "fdt_next_tag b (int (length (enc ipre))) = Some (case t of TBegin s \<Rightarrow> FDT_BEGIN_NODE | TEnd \<Rightarrow> FDT_END_NODE | TProp s v \<Rightarrow> FDT_PROP,
        int (length (enc (ipre @ [(t, k)]))))"
      using final_end b by (simp del: enc_tok.simps)
  next
    case (TProp s v)
    then show "fdt_next_tag b (int (length (enc ipre))) = Some (case t of TBegin s \<Rightarrow> FDT_BEGIN_NODE | TEnd \<Rightarrow> FDT_END_NODE | TProp s v \<Rightarrow> FDT_PROP,
        int (length (enc (ipre @ [(t, k)]))))"
      using final_prop(1) [OF b(2) [unfolded TProp]] b by (simp del: enc_tok.simps)
  qed
qed

lemma node_offset_tok: "final_blob (tp @ TBegin s # ts) b \<Longrightarrow> fdt_check_node_offset b (int (tok_off tp)) = Some (int (tok_off (tp @ [TBegin s])))"
  using tag_tok tok_off_mod [of tp] by (simp add: fdt_check_node_offset_def)

lemma name_tok:
  assumes "final_blob (tp @ TBegin s # ts) b"
  shows "fdt_get_name b (int (tok_off tp)) = Some (Inr s)" "fdt_nodename_eq b (int (tok_off tp)) name = Some (name_matches name s)"
proof -
  obtain ipre k ipost strs rest where "b = fdt_final (ipre @ (TBegin s, k) # ipost) strs rest" "final_ok (ipre @ (TBegin s, k) # ipost) strs rest"
      "tok_ok (TBegin s)" "tok_off tp = length (enc ipre)"
    by (rule final_tokE [OF assms])
  then show n: "fdt_get_name b (int (tok_off tp)) = Some (Inr s)" using final_begin(2) by simp
  then show "fdt_nodename_eq b (int (tok_off tp)) name = Some (name_matches name s)" by (simp add: fdt_nodename_eq_def name_matches_def)
qed

section \<open>Properties\<close>

lemma first_prop_tok:
  "final_blob (tp @ TBegin s # ts) b \<Longrightarrow> fdt_first_property_offset b (int (tok_off tp)) = nextprop b (int (tok_off (tp @ [TBegin s])))"
  by (simp add: fdt_first_property_offset_def node_offset_tok)

lemma nextprop_tok:
  "final_blob (tp @ t # ts) b \<Longrightarrow>
   nextprop b (int (tok_off tp)) = Some (case t of TProp p v \<Rightarrow> int (tok_off tp) | _ \<Rightarrow> - FDT_ERR_NOTFOUND)"
  using tag_tok by (subst nextprop.simps) (auto split: fdt_tok.splits)

lemma prop_tok:
  assumes "final_blob (tp @ TProp p v # ts) b"
  shows "\<exists>q. fdt_getprop_by_offset b (int (tok_off tp)) = Some (Inr ((q, of_nat (length v)), p)) \<and>
      q + length v \<le> length b \<and> take (length v) (drop q b) = v \<and> unat (of_nat (length v) :: u32) = length v"
    "fdt_next_property_offset b (int (tok_off tp)) = nextprop b (int (tok_off (tp @ [TProp p v])))"
proof -
  have c: "fdt_check_prop_offset b (int (tok_off tp)) = Some (int (tok_off (tp @ [TProp p v])))"
    using tag_tok [OF assms] tok_off_mod [of tp] by (simp add: fdt_check_prop_offset_def)
  then show "fdt_next_property_offset b (int (tok_off tp)) = nextprop b (int (tok_off (tp @ [TProp p v])))"
    by (simp add: fdt_next_property_offset_def)
  obtain ipre k ipost strs rest where b: "b = fdt_final (ipre @ (TProp p v, k) # ipost) strs rest" "final_ok (ipre @ (TProp p v, k) # ipost) strs rest"
      "names_ok strs [(TProp p v, k)]" "tok_ok (TProp p v)" and o: "tok_off tp = length (enc ipre)"
    by (rule final_tokE [OF assms])
  note f = final_prop [OF b(2,4,3,1)]
  let ?pr = "\<lparr>prop_len = of_nat (length v), prop_nameoff = name_off k, prop_data = 64 + length (enc ipre) + 12\<rparr>"
  have v: "prop_value b off pr = prop_data pr" for off pr by (simp add: prop_value_def b(1) final_fields word_less_nat_alt)
  have "fdt_get_string b (sint (name_off k)) = Some (Inr p)"
    using f(5) by (auto simp: fdt_string_def split: Option.bind_splits sum.splits)
  moreover have "fdt_get_property_at b (int (tok_off tp)) = Some (Inr ?pr)" using c f(2) by (simp add: fdt_get_property_at_def o)
  ultimately have "fdt_getprop_by_offset b (int (tok_off tp)) = Some (Inr ((64 + length (enc ipre) + 12, of_nat (length v)), p))"
    by (simp add: fdt_getprop_by_offset_def v)
  moreover have "64 + length (enc ipre) + 12 + length v \<le> length b" unfolding b(1) length_final by simp
  ultimately show "\<exists>q. fdt_getprop_by_offset b (int (tok_off tp)) = Some (Inr ((q, of_nat (length v)), p)) \<and>
      q + length v \<le> length b \<and> take (length v) (drop q b) = v \<and> unat (of_nat (length v) :: u32) = length v"
    using f(3,4) by blast
qed

section \<open>Nodes\<close>

lemma next_node_tok:
  "final_blob (tp @ TBegin s # ts) b \<Longrightarrow> fdt_next_node b (int (tok_off tp)) d = next_node_loop b (int (tok_off (tp @ [TBegin s]))) d"
  by (simp add: fdt_next_node_def node_offset_tok)

lemma node_step_tok:
  assumes "final_blob (tp @ t # ts) b"
  shows "next_node_loop b (int (tok_off tp)) (Some d) =
    (case t of
       TBegin s \<Rightarrow> Some (int (tok_off tp), Some (d + 1))
     | TEnd \<Rightarrow> if d - 1 < 0 then Some (int (tok_off (tp @ [t])), Some (d - 1)) else next_node_loop b (int (tok_off (tp @ [t]))) (Some (d - 1))
     | TProp s v \<Rightarrow> next_node_loop b (int (tok_off (tp @ [t]))) (Some d))"
  using tag_tok [OF assms] by (cases t; subst next_node_loop.simps) (simp_all add: Let_def)

lemma node_props_tok:
  "final_blob (tp @ map (\<lambda>(p, v). TProp p v) props @ ts) b \<Longrightarrow>
   next_node_loop b (int (tok_off tp)) (Some d) = next_node_loop b (int (tok_off (tp @ map (\<lambda>(p, v). TProp p v) props))) (Some d)"
proof (induction props arbitrary: tp)
  case (Cons a props)
  obtain p v where a: "a = (p, v)" by (rule prod.exhaust)
  have "final_blob (tp @ TProp p v # map (\<lambda>(p, v). TProp p v) props @ ts) b" using Cons.prems a by simp
  from node_step_tok [OF this] Cons.IH [of "tp @ [TProp p v]"] Cons.prems a show ?case by simp
qed simp

text \<open>A loop \<open>F\<close> over nodes that goes on at nodes below the first level skips what is inside of a node.\<close>

definition goes_on :: "blob \<Rightarrow> (int \<Rightarrow> int \<Rightarrow> int option) \<Rightarrow> bool" where
  "goes_on b F \<longleftrightarrow> (\<forall>off d. 0 \<le> off \<longrightarrow> 1 < d \<longrightarrow>
     F off d = Option.bind (fdt_next_node b off (Some d)) (\<lambda>(off, d'). case d' of None \<Rightarrow> None | Some d \<Rightarrow> F off d))"

lemma skip_tok:
  assumes "goes_on b F" "final_blob (tp @ us @ post) b" "closes (Suc d) us"
  shows "Option.bind (next_node_loop b (int (tok_off tp)) (Some (int d + 1))) (\<lambda>(off, d'). case d' of None \<Rightarrow> None | Some d \<Rightarrow> F off d) =
    Option.bind (next_node_loop b (int (tok_off (tp @ us))) (Some 0)) (\<lambda>(off, d'). case d' of None \<Rightarrow> None | Some d \<Rightarrow> F off d)"
  using assms(2,3)
proof (induction us arbitrary: tp d)
  case (Cons t us)
  note st = node_step_tok [of tp t "us @ post" b "int d + 1"]
  have fb: "final_blob (tp @ t # us @ post) b" "final_blob ((tp @ [t]) @ us @ post) b" using Cons.prems(1) by simp_all
  note ih = Cons.IH [OF fb(2)]
  show ?case
  proof (cases t)
    case (TBegin s)
    have "F (int (tok_off tp)) (int d + 2) = Option.bind (next_node_loop b (int (tok_off (tp @ [TBegin s]))) (Some (int d + 2)))
        (\<lambda>(off, d'). case d' of None \<Rightarrow> None | Some d \<Rightarrow> F off d)"
      using assms(1) next_node_tok [OF fb(1) [unfolded TBegin]] unfolding goes_on_def by simp
    then show ?thesis using st ih [of "Suc d"] fb(1) Cons.prems(2) TBegin by (simp add: add.commute)
  next
    case TEnd
    then have "closes d us" using Cons.prems(2) by simp
    then show ?thesis using st ih [of "d - 1"] fb(1) TEnd by (cases d; cases us) (simp_all add: add.commute)
  next
    case (TProp s v)
    then show ?thesis using st ih [of d] fb(1) Cons.prems(2) by simp
  qed
qed simp

section \<open>Trees\<close>

datatype dt = Dt (dt_name: string) (dt_props: "(string \<times> char list) list") (dt_kids: "dt list")

fun toks :: "dt \<Rightarrow> fdt_tok list" where
  "toks (Dt s props kids) = node s props (concat (map toks kids))"

definition body :: "dt \<Rightarrow> fdt_tok list" where
  "body k = map (\<lambda>(p, v). TProp p v) (dt_props k) @ concat (map toks (dt_kids k)) @ [TEnd]"

lemma toks_body: "toks k = TBegin (dt_name k) # body k"
  by (cases k) (simp add: node_def body_def)

lemma whole_toks [wholes]: "whole (toks k)"
  by (induction k) (auto intro!: wholes)

lemma whole_kids [wholes]: "whole (concat (map toks kids))"
  by (auto intro!: wholes)

lemma body_closes: "closes 1 (body k)"
  using node_closes [OF whole_kids, of "dt_name k" "dt_props k" "dt_kids k"] by (cases k) (simp add: node_def body_def)

lemma kids_no_prop: "concat (map toks kids) \<noteq> TProp p v # us"
  by (cases kids) (simp_all add: toks_body)

lemma subnodes_skip: "closes (Suc d) us \<Longrightarrow> subnodes (Suc d) (us @ ts) = subnodes 0 ts"
  by (induction "Suc d" us arbitrary: d rule: closes.induct) (auto elim: closes.elims)

lemma subnodes_kids: "subnodes 0 (concat (map toks kids)) = map dt_name kids"
  using subnodes_skip [of 0 "body k" for k] body_closes by (induction kids) (simp_all add: toks_body)

text \<open>The offset of the first of the nodes \<open>kids\<close> behind \<open>tp\<close>, as the loops over subnodes see it.\<close>

definition kid_off :: "fdt_tok list \<Rightarrow> dt list \<Rightarrow> int" where
  "kid_off tp kids = (if kids = [] then - FDT_ERR_NOTFOUND else int (tok_off tp))"

lemma kid_step:
  assumes "final_blob (tp @ concat (map toks kids) @ TEnd # post) b"
  shows "next_node_loop b (int (tok_off tp)) (Some 0) =
    Some (if kids = [] then (int (tok_off (tp @ [TEnd])), Some (- 1)) else (int (tok_off tp), Some 1))"
proof (cases kids)
  case Nil
  then show ?thesis using assms node_step_tok [of tp TEnd post b 0] by simp
next
  case (Cons k ks)
  then show ?thesis using assms node_step_tok [of tp "TBegin (dt_name k)" _ b 0] by (simp add: toks_body [of k])
qed

lemma first_subnode_tok:
  assumes "final_blob (tp @ toks (Dt s props kids) @ post) b"
  shows "fdt_first_subnode b (int (tok_off tp)) = Some (kid_off (tp @ TBegin s # map (\<lambda>(p, v). TProp p v) props) kids)"
proof -
  let ?p = "map (\<lambda>(p, v). TProp p v) props"
  have fb: "final_blob (tp @ TBegin s # ?p @ concat (map toks kids) @ TEnd # post) b" using assms by (simp add: node_def)
  then have "final_blob ((tp @ [TBegin s]) @ ?p @ concat (map toks kids) @ TEnd # post) b"
    "final_blob ((tp @ TBegin s # ?p) @ concat (map toks kids) @ TEnd # post) b" by simp_all
  from node_props_tok [OF this(1)] kid_step [OF this(2)] next_node_tok [OF fb] show ?thesis
    by (simp add: fdt_first_subnode_def kid_off_def)
qed

lemma next_subnode_tok:
  assumes "final_blob (tp @ toks k @ concat (map toks kids) @ TEnd # post) b"
  shows "fdt_next_subnode b (int (tok_off tp)) = Some (kid_off (tp @ toks k) kids)"
proof -
  define F where "F = (\<lambda>off d. if off < 0 \<or> d < 1 then Some (- FDT_ERR_NOTFOUND) else if 1 < d then next_subnode_loop b off d else Some off)"
  have nl: "next_subnode_loop b off d = Option.bind (fdt_next_node b off (Some d)) (\<lambda>(off, d'). case d' of None \<Rightarrow> None | Some d \<Rightarrow> F off d)" for off d
    unfolding F_def by (rule next_subnode_loop.simps)
  have g: "goes_on b F" unfolding goes_on_def
  proof (intro allI impI)
    fix off d :: int assume "0 \<le> off" "1 < d"
    then have "F off d = next_subnode_loop b off d" by (simp add: F_def)
    then show "F off d = Option.bind (fdt_next_node b off (Some d)) (\<lambda>(off, d'). case d' of None \<Rightarrow> None | Some d \<Rightarrow> F off d)" by (simp only: nl)
  qed
  have fb: "final_blob (tp @ TBegin (dt_name k) # body k @ concat (map toks kids) @ TEnd # post) b"
      "final_blob ((tp @ [TBegin (dt_name k)]) @ body k @ concat (map toks kids) @ TEnd # post) b"
      "final_blob ((tp @ toks k) @ concat (map toks kids) @ TEnd # post) b"
    using assms by (simp_all add: toks_body [of k])
  have c: "closes (Suc 0) (body k)" using body_closes by simp
  have "fdt_next_subnode b (int (tok_off tp)) =
      Option.bind (next_node_loop b (int (tok_off (tp @ toks k))) (Some 0)) (\<lambda>(off, d'). case d' of None \<Rightarrow> None | Some d \<Rightarrow> F off d)"
    using skip_tok [OF g fb(2) c] next_node_tok [OF fb(1)] by (simp add: fdt_next_subnode_def nl toks_body [of k])
  then show ?thesis unfolding kid_step [OF fb(3)] by (simp add: F_def kid_off_def)
qed

text \<open>The first of the nodes \<open>kids\<close> whose name matches.\<close>

definition first_match :: "string \<Rightarrow> dt list \<Rightarrow> (dt list \<times> dt \<times> dt list) option" where
  "first_match name kids =
     (let us = takeWhile (\<lambda>k. \<not> name_matches name (dt_name k)) kids
      in case drop (length us) kids of [] \<Rightarrow> None | k # ws \<Rightarrow> Some (us, k, ws))"

lemma first_match_simps [simp]:
  "first_match name [] = None"
  "first_match name (k # ks) = (if name_matches name (dt_name k) then Some ([], k, ks)
     else map_option (\<lambda>(us, x, ws). (k # us, x, ws)) (first_match name ks))"
  by (simp_all add: first_match_def Let_def split: list.split)

lemma first_match_None: "first_match name kids = None \<longleftrightarrow> (\<forall>k \<in> set kids. \<not> name_matches name (dt_name k))"
  by (induction kids) auto

lemma first_match_Some: "first_match name kids = Some (us, k, ws) \<Longrightarrow> kids = us @ k # ws"
  by (induction kids arbitrary: us) (auto split: if_splits)

lemma match_walk:
  assumes "final_blob (tp @ concat (map toks kids) @ TEnd # post) b"
  shows "Option.bind (next_node_loop b (int (tok_off tp)) (Some 0))
      (\<lambda>(off, d'). case d' of None \<Rightarrow> None | Some d \<Rightarrow> subnode_loop b off d name) =
    Some (case first_match name kids of None \<Rightarrow> - FDT_ERR_NOTFOUND | Some (us, k, ws) \<Rightarrow> int (tok_off (tp @ concat (map toks us))))"
  using assms
proof (induction kids arbitrary: tp)
  case Nil
  then show ?case using kid_step [of tp "[]" post b] by (simp add: subnode_loop.simps [of b _ "- 1"])
next
  case (Cons k kids)
  have g: "goes_on b (\<lambda>off d. subnode_loop b off d name)" unfolding goes_on_def
    by (intro allI impI) (subst subnode_loop.simps, simp)
  have fb: "final_blob (tp @ TBegin (dt_name k) # body k @ concat (map toks kids) @ TEnd # post) b"
      "final_blob ((tp @ [TBegin (dt_name k)]) @ body k @ concat (map toks kids) @ TEnd # post) b"
      "final_blob ((tp @ toks k) @ concat (map toks kids) @ TEnd # post) b"
    using Cons.prems by (simp_all add: toks_body [of k])
  have c: "closes (Suc 0) (body k)" using body_closes by simp
  have "subnode_loop b (int (tok_off tp)) 1 name = (if name_matches name (dt_name k) then Some (int (tok_off tp))
      else Option.bind (next_node_loop b (int (tok_off (tp @ toks k))) (Some 0))
        (\<lambda>(off, d'). case d' of None \<Rightarrow> None | Some d \<Rightarrow> subnode_loop b off d name))"
    using skip_tok [OF g fb(2) c] next_node_tok [OF fb(1)] name_tok(2) [OF fb(1)] by (subst subnode_loop.simps) (simp add: toks_body [of k])
  then show ?case using Cons.IH [OF fb(3)] kid_step [OF Cons.prems] by (simp split: option.splits)
qed

lemma subnode_offset_tok:
  assumes "final_blob (tp @ toks (Dt s props kids) @ post) b"
  shows "fdt_subnode_offset b (int (tok_off tp)) name =
    Some (case first_match name kids of
            None \<Rightarrow> - FDT_ERR_NOTFOUND
          | Some (us, k, ws) \<Rightarrow> int (tok_off (tp @ TBegin s # map (\<lambda>(p, v). TProp p v) props @ concat (map toks us))))"
proof -
  let ?p = "map (\<lambda>(p, v). TProp p v) props"
  have fb: "final_blob (tp @ TBegin s # ?p @ concat (map toks kids) @ TEnd # post) b" using assms by (simp add: node_def)
  then have "final_blob ((tp @ [TBegin s]) @ ?p @ concat (map toks kids) @ TEnd # post) b"
    "final_blob ((tp @ TBegin s # ?p) @ concat (map toks kids) @ TEnd # post) b" by simp_all
  from node_props_tok [OF this(1)] match_walk [OF this(2)] next_node_tok [OF fb] final_blob_probe [OF fb] show ?thesis
    by (simp add: fdt_subnode_offset_def fdt_subnode_offset_namelen_def subnode_loop.simps [of b "int (tok_off tp)"] split: option.split)
qed

end
