(* ===== verification/Fdt_Overlay_Props.thy ===== *)
theory Fdt_Overlay_Props
  imports Fdt_Overlay Fdt_Walk
begin

text \<open>
  Overlays: a failed application leaves no tree that looks valid, entries of fixups read back as they were
  printed, the phandles of an overlay move by the offset, the properties of a node are merged as the
  list of properties says, and the read outside of a value that a malformed overlay causes.
\<close>

section \<open>Failures\<close>

lemma magic_set: "fdt_magic (fdt_set_magic v b) = v"
  by (simp add: fdt_get_header_def fdt_set_header_def blit_def)

lemma overlay_fail_erases: "overlay_fail r b ov = Some (ret, b', ov') \<Longrightarrow> ret = r \<and> fdt_magic b' = - 1 \<and> fdt_magic ov' = - 1"
  by (auto simp: overlay_fail_def magic_set)

lemma failed_overlay_erases:
  assumes "fdt_overlay_apply b ov = Some (ret, b', ov')" "0 \<le> fdt_ro_probe b" "0 \<le> fdt_ro_probe ov"
  shows "fdt_magic ov' = - 1" "ret \<noteq> 0 \<Longrightarrow> fdt_magic b' = - 1"
  using assms unfolding fdt_overlay_apply_def
  by (auto simp: magic_set dest!: overlay_fail_erases split: Option.bind_splits sum.splits if_splits)

section \<open>Fixups\<close>

lemma parse_fixup_printed:
  assumes "CHR '':'' \<notin> set path" "CHR '':'' \<notin> set name" "name \<noteq> []" "n < 2 ^ 31"
  shows "parse_fixup (path @ CHR '':'' # name @ CHR '':'' # dec n) = Some (path, name, int n)"
proof -
  have t: "takeWhile (\<lambda>c. c \<noteq> CHR '':'') (xs @ CHR '':'' # ys) = xs" if "CHR '':'' \<notin> set xs" for xs ys
    using that by (induction xs) auto
  show ?thesis
    using t [OF assms(1)] t [OF assms(2)] assms(3,4) strtoul10_dec [of n] sint_of_nat32 [of n] by (simp add: parse_fixup_def Let_def)
qed

text \<open>The offset of a local fixup is used for reading before it is checked: one behind the end of the overlay
  makes \<open>overlay_update_local_node_references\<close> read outside of it.\<close>

lemma fixup_reads_outside:
  assumes "rd32 ov fixup_val = Some poffset" "length ov < tree_val + unat poffset + 4"
  shows "fixup_cells (Suc n) fixup_val tree_val tree_node name delta ov = None"
  using assms by (simp add: rd32_def)

section \<open>Phandles\<close>

lemma phandle_moved:
  assumes "tree_room (pre @ node s props kids @ post) room ov" "\<forall>p v us. kids \<noteq> TProp p v # us" "map_of props name = Some (be32 v)"
    "tok_ok (TProp name (be32 v))"
  shows "if v + delta < v \<or> v + delta = - 1 then overlay_phandle_add_offset (int (tok_off pre)) name delta ov = Some (- FDT_ERR_NOPHANDLES, ov)
    else \<exists>ov'. overlay_phandle_add_offset (int (tok_off pre)) name delta ov = Some (0, ov') \<and>
      tree_room (pre @ node s (set_prop name (be32 (v + delta)) props) kids @ post) room ov'"
proof -
  obtain p where p: "fdt_getprop ov (int (tok_off pre)) name = Some (Inr (p, of_nat (length (be32 v))))"
      "p + length (be32 v) < length ov" "take (length (be32 v)) (drop p ov) = be32 v"
    using getprop_final [OF tree_room_final [OF assms(1)] assms(2), of name] assms(3) by auto
  have "be32_dec (drop p ov) = be32_dec (take 4 (drop p ov))" by (simp add: be32_dec_def)
  also have "\<dots> = v" using p(3) by simp
  finally have "rd32 ov p = Some v" using p(2) by (simp add: rd32_def)
  then have o: "overlay_phandle_add_offset (int (tok_off pre)) name delta ov =
      (if v + delta < v \<or> v + delta = - 1 then Some (- FDT_ERR_NOPHANDLES, ov)
       else fdt_setprop_inplace (int (tok_off pre)) name (be32 (v + delta)) ov)"
    using p(1) by (simp add: overlay_phandle_add_offset_def fdt_setprop_inplace_u32_def)
  show ?thesis using setprop_inplace_final [OF assms(1,2), of name "be32 (v + delta)"] assms(3,4) unfolding o by auto
qed

section \<open>Merging\<close>

text \<open>The properties of a node after those of the overlay, and what they may take from the room.\<close>

definition set_props :: "(string \<times> char list) list \<Rightarrow> (string \<times> char list) list \<Rightarrow> (string \<times> char list) list" where
  "set_props ops props = fold (\<lambda>(p, v). set_prop p v) ops props"

definition props_need :: "(string \<times> char list) list \<Rightarrow> nat" where
  "props_need ops = sum_list (map (\<lambda>(p, v). 12 + whole_len v + length p + 1) ops)"

text \<open>What the base tree is after a step that may need \<open>need\<close> bytes of its room.\<close>

definition stepped :: "nat \<Rightarrow> nat \<Rightarrow> fdt_tok list \<Rightarrow> (int \<times> blob) option \<Rightarrow> bool" where
  "stepped room need ts r \<longleftrightarrow>
     (\<exists>b' room'. r = Some (0, b') \<and> room \<le> room' + need \<and> tree_room ts room' b') \<or>
     (\<exists>b'. r = Some (- FDT_ERR_NOSPACE, b') \<and> room < need)"

lemma steppedE:
  assumes "stepped room need ts r"
  obtains (ok) b' room' where "r = Some (0, b')" "room \<le> room' + need" "tree_room ts room' b'"
    | (full) b' where "r = Some (- FDT_ERR_NOSPACE, b')" "room < need"
  using assms unfolding stepped_def by blast

lemma stepped_more: "stepped room' need ts r \<Longrightarrow> room \<le> room' + n \<Longrightarrow> stepped room (n + need) ts r"
  unfolding stepped_def by fastforce

lemma stepped_full: "r = Some (- FDT_ERR_NOSPACE, b') \<Longrightarrow> room < need \<Longrightarrow> stepped room need ts r"
  unfolding stepped_def by blast

lemma apply_props_merge:
  assumes "final_blob (tp @ map (\<lambda>(p, v). TProp p v) ops @ t # post') ov" "\<forall>p v. t \<noteq> TProp p v"
    "\<forall>(p, v) \<in> set ops. length v < 2 ^ 30"
    "tree_room (pre @ node s props kids @ post) room b" "\<forall>p v us. kids \<noteq> TProp p v # us"
  shows "stepped room (props_need ops) (pre @ node s (set_props ops props) kids @ post)
    (Option.bind (nextprop ov (int (tok_off tp))) (\<lambda>p. apply_props (int (tok_off pre)) ov p b))"
  using assms
proof (induction ops arbitrary: tp props room b)
  case Nil
  have "nextprop ov (int (tok_off tp)) = Some (- FDT_ERR_NOTFOUND)"
    using nextprop_tok [of tp t post' ov] Nil(1,2) by (cases t) simp_all
  then show ?case using Nil(4) by (auto simp: stepped_def set_props_def props_need_def apply_props.simps [of _ _ "- FDT_ERR_NOTFOUND"])
next
  case (Cons a ops)
  obtain p v where a: "a = (p, v)" by (rule prod.exhaust)
  let ?ts = "map (\<lambda>(p, v). TProp p v) ops @ t # post'"
  have fb: "final_blob (tp @ TProp p v # ?ts) ov" "final_blob ((tp @ [TProp p v]) @ ?ts) ov" using Cons.prems(1) a by simp_all
  obtain q where q: "fdt_getprop_by_offset ov (int (tok_off tp)) = Some (Inr ((q, of_nat (length v)), p))" "q + length v \<le> length ov"
      "take (length v) (drop q ov) = v" "unat (of_nat (length v) :: u32) = length v"
    using prop_tok(1) [OF fb(1)] by blast
  have vb: "val_bytes ov q (of_nat (length v)) = Some v" using q(2-4) by (simp add: val_bytes_def)
  have ok: "tok_ok (TProp p v)" "length v < 2 ^ 30"
    using fb(1) Cons.prems(3) a by (auto simp: final_blob_def)
  have st: "Option.bind (nextprop ov (int (tok_off tp))) (\<lambda>p. apply_props (int (tok_off pre)) ov p b) =
      Option.bind (fdt_setprop (int (tok_off pre)) p v b) (\<lambda>(ret, b1). if ret \<noteq> 0 then Some (ret, b1)
        else Option.bind (nextprop ov (int (tok_off (tp @ [TProp p v])))) (\<lambda>n. apply_props (int (tok_off pre)) ov n b1))"
    using nextprop_tok [OF fb(1)] q(1) vb prop_tok(2) [OF fb(1)] by (simp add: apply_props.simps [of _ _ "int (tok_off tp)"]) (simp only: prop_tok(2) [OF fb(1)])
  obtain rc b1 where r: "fdt_setprop (int (tok_off pre)) p v b = Some (rc, b1)"
      "rc = 0 \<and> (\<exists>room'. room \<le> room' + 12 + whole_len v + length p + 1 \<and> tree_room (pre @ node s (set_prop p v props) kids @ post) room' b1) \<or>
       rc = - FDT_ERR_NOSPACE \<and> room < 12 + whole_len v + length p + 1"
    using setprop_room [OF Cons.prems(4,5) ok] by blast
  show ?case
  proof (cases "rc = 0")
    case True
    then obtain room1 where r1: "room \<le> room1 + 12 + whole_len v + length p + 1" "tree_room (pre @ node s (set_prop p v props) kids @ post) room1 b1"
      using r(2) by auto
    have "stepped room1 (props_need ops) (pre @ node s (set_props ops (set_prop p v props)) kids @ post)
        (Option.bind (nextprop ov (int (tok_off (tp @ [TProp p v])))) (\<lambda>n. apply_props (int (tok_off pre)) ov n b1))"
      by (rule Cons.IH) (use fb(2) Cons.prems r1(2) in simp_all)
    from stepped_more [OF this, of room "12 + whole_len v + length p + 1"] show ?thesis
      using st r(1) True r1(1) a by (simp add: set_props_def props_need_def)
  next
    case False
    then show ?thesis using st r a by (intro stepped_full [of _ b1]) (auto simp: props_need_def)
  qed
qed

lemma apply_own_merge:
  assumes "final_blob (tp @ toks (Dt n ops oks) @ post') ov" "\<forall>(p, v) \<in> set ops. length v < 2 ^ 30"
    "tree_room (pre @ toks (Dt s props kids) @ post) room b"
  shows "stepped room (props_need ops) (pre @ toks (Dt s (set_props ops props) kids) @ post) (apply_own (int (tok_off pre)) ov (int (tok_off tp)) b)"
proof -
  obtain t ts where t: "concat (map toks oks) @ TEnd # post' = t # ts" "\<forall>p v. t \<noteq> TProp p v"
    by (cases oks) (auto simp: toks_body)
  have "final_blob (tp @ TBegin n # map (\<lambda>(p, v). TProp p v) ops @ t # ts) ov" using assms(1) t(1) by (simp add: node_def)
  moreover from this have "final_blob ((tp @ [TBegin n]) @ map (\<lambda>(p, v). TProp p v) ops @ t # ts) ov" by simp
  ultimately show ?thesis
    using apply_props_merge [OF _ t(2) assms(2)] assms(3) kids_no_prop by (simp add: apply_own_def first_prop_tok)
qed

text \<open>The node for a subnode of the overlay: the first that matches its name, or a new one in front.\<close>

definition place :: "string \<Rightarrow> dt list \<Rightarrow> dt list \<times> dt \<times> dt list" where
  "place name kids = (case first_match name kids of None \<Rightarrow> ([], Dt name [] [], kids) | Some m \<Rightarrow> m)"

lemma merge_subnode_place:
  assumes "tree_room (pre @ toks (Dt s props kids) @ post) room b" "tok_ok (TBegin name)" "length name < 2 ^ 30" "place name kids = (us, k, ws)"
  shows "(\<exists>b' room'. merge_subnode (int (tok_off pre)) name b =
        Some (int (tok_off (pre @ TBegin s # map (\<lambda>(p, v). TProp p v) props @ concat (map toks us))), b') \<and>
      room \<le> room' + tok_off (node name [] []) \<and> tree_room (pre @ toks (Dt s props (us @ k # ws)) @ post) room' b') \<or>
    merge_subnode (int (tok_off pre)) name b = Some (- FDT_ERR_NOSPACE, b) \<and> room < tok_off (node name [] [])"
proof -
  have t: "tree_room (pre @ node s props (concat (map toks kids)) @ post) room b" using assms(1) by simp
  note a = add_subnode_final [OF t whole_kids _ assms(2,3), unfolded subnodes_kids]
  have so: "fdt_subnode_offset b (int (tok_off pre)) name = Some (case first_match name kids of
            None \<Rightarrow> - FDT_ERR_NOTFOUND
          | Some (us, k, ws) \<Rightarrow> int (tok_off (pre @ TBegin s # map (\<lambda>(p, v). TProp p v) props @ concat (map toks us))))"
    by (rule subnode_offset_tok [OF tree_room_final [OF assms(1)]])
  show ?thesis
  proof (cases "first_match name kids")
    case None
    then have "\<not> (\<exists>x \<in> set (map dt_name kids). name_matches name x)" using first_match_None [of name kids] by simp
    moreover have "us = []" "k = Dt name [] []" "ws = kids" using None assms(4) by (simp_all add: place_def)
    ultimately show ?thesis using a kids_no_prop
      by (auto simp: merge_subnode_def intro!: exI [of _ "room - tok_off (node name [] [])"] split: if_splits)
  next
    case (Some m)
    then have m: "m = (us, k, ws)" "kids = us @ k # ws" using assms(4) first_match_Some [of name kids] by (simp_all add: place_def)
    have "\<exists>x \<in> set (map dt_name kids). name_matches name x" using Some first_match_None [of name kids] by auto
    then have "fdt_add_subnode (int (tok_off pre)) name b = Some (- FDT_ERR_EXISTS, b)" using a kids_no_prop by simp
    then have "merge_subnode (int (tok_off pre)) name b =
        Some (int (tok_off (pre @ TBegin s # map (\<lambda>(p, v). TProp p v) props @ concat (map toks us))), b)"
      using so Some m(1) by (simp add: merge_subnode_def)
    then show ?thesis using assms(1) m(2) by (intro disjI1 exI [of _ b] exI [of _ room]) simp
  qed
qed

text \<open>The merged tree: the properties are set one by one, and the subnodes merged into their places.\<close>

fun merge :: "dt \<Rightarrow> dt \<Rightarrow> dt" where
  "merge (Dt n ops oks) base =
     Dt (dt_name base) (set_props ops (dt_props base))
       (fold (\<lambda>ok kids. case place (dt_name ok) kids of (us, k, ws) \<Rightarrow> us @ merge ok k # ws) oks (dt_kids base))"

abbreviation merge_kids :: "dt list \<Rightarrow> dt list \<Rightarrow> dt list" where
  "merge_kids oks kids \<equiv> fold (\<lambda>ok kids. case place (dt_name ok) kids of (us, k, ws) \<Rightarrow> us @ merge ok k # ws) oks kids"

fun need :: "dt \<Rightarrow> nat" where
  "need (Dt n ops oks) = props_need ops + sum_list (map (\<lambda>k. tok_off (node (dt_name k) [] []) + need k) oks)"

text \<open>Values and names of a tree have less than 1 GB, so that the additions of their lengths do not overflow.\<close>

fun no_giant :: "dt \<Rightarrow> bool" where
  "no_giant (Dt n ops oks) \<longleftrightarrow> length n < 2 ^ 30 \<and> (\<forall>(p, v) \<in> set ops. length v < 2 ^ 30) \<and> (\<forall>k \<in> set oks. no_giant k)"

lemma apply_subnodes_step:
  "apply_subnodes target ov subnode b =
     (if subnode < 0 then Some (0, b)
      else Option.bind (fdt_get_name ov subnode) (\<lambda>nm. case nm of Inl _ \<Rightarrow> None | Inr name \<Rightarrow>
        Option.bind (merge_subnode target name b) (\<lambda>(nnode, b1). if nnode < 0 then Some (nnode, b1)
          else Option.bind (overlay_apply_node nnode ov subnode b1) (\<lambda>(r, b2). if r \<noteq> 0 then Some (r, b2)
            else Option.bind (fdt_next_subnode ov subnode) (\<lambda>n. apply_subnodes target ov n b2)))))"
  by (subst apply_subnodes.simps) (auto simp: overlay_apply_node_def split: sum.splits prod.splits intro!: Option.bind_cong)

text \<open>Merging the node \<open>ok\<close> of the overlay does what \<open>merge\<close> says.\<close>

definition merges :: "blob \<Rightarrow> dt \<Rightarrow> bool" where
  "merges ov ok \<longleftrightarrow> (\<forall>tp post' pre base post room b. final_blob (tp @ toks ok @ post') ov \<longrightarrow> tree_room (pre @ toks base @ post) room b \<longrightarrow>
     stepped room (need ok) (pre @ toks (merge ok base) @ post) (overlay_apply_node (int (tok_off pre)) ov (int (tok_off tp)) b))"

lemma mergesD:
  "merges ov ok \<Longrightarrow> final_blob (tp @ toks ok @ post') ov \<Longrightarrow> tree_room (pre @ toks base @ post) room b \<Longrightarrow>
   stepped room (need ok) (pre @ toks (merge ok base) @ post) (overlay_apply_node (int (tok_off pre)) ov (int (tok_off tp)) b)"
  unfolding merges_def by blast

lemma name_bound:
  assumes "final_blob (tp @ TBegin s # ts) b"
  shows "tok_ok (TBegin s)"
  using assms by (auto simp: final_blob_def)

lemma apply_kids_merge:
  assumes "\<forall>ok \<in> set oks. merges ov ok \<and> length (dt_name ok) < 2 ^ 30" "final_blob (tp @ concat (map toks oks) @ TEnd # post') ov"
    "tree_room (pre @ toks (Dt s props kids) @ post) room b"
  shows "stepped room (sum_list (map (\<lambda>k. tok_off (node (dt_name k) [] []) + need k) oks)) (pre @ toks (Dt s props (merge_kids oks kids)) @ post)
    (apply_subnodes (int (tok_off pre)) ov (kid_off tp oks) b)"
  using assms
proof (induction oks arbitrary: tp kids room b)
  case Nil
  then show ?case by (subst apply_subnodes_step) (auto simp: kid_off_def stepped_def)
next
  case (Cons ok oks)
  let ?n = "tok_off (node (dt_name ok) [] [])" and ?rest = "sum_list (map (\<lambda>k. tok_off (node (dt_name k) [] []) + need k) oks)"
  have fb: "final_blob (tp @ TBegin (dt_name ok) # body ok @ concat (map toks oks) @ TEnd # post') ov"
      "final_blob (tp @ toks ok @ concat (map toks oks) @ TEnd # post') ov"
      "final_blob ((tp @ toks ok) @ concat (map toks oks) @ TEnd # post') ov"
    using Cons.prems(2) by (simp_all add: toks_body [of ok])
  have ok: "tok_ok (TBegin (dt_name ok))" "length (dt_name ok) < 2 ^ 30" using name_bound [OF fb(1)] Cons.prems(1) by simp_all
  obtain us k ws where pl: "place (dt_name ok) kids = (us, k, ws)" by (rule prod_cases3)
  define q where "q = pre @ TBegin s # map (\<lambda>(p, v). TProp p v) props @ concat (map toks us)"
  define go where "go = (\<lambda>b2. apply_subnodes (int (tok_off pre)) ov (kid_off (tp @ toks ok) oks) b2)"
  have ko: "kid_off tp (ok # oks) = int (tok_off tp)" by (simp add: kid_off_def)
  have st: "apply_subnodes (int (tok_off pre)) ov (kid_off tp (ok # oks)) b =
      Option.bind (merge_subnode (int (tok_off pre)) (dt_name ok) b) (\<lambda>(nnode, b1). if nnode < 0 then Some (nnode, b1)
          else Option.bind (overlay_apply_node nnode ov (int (tok_off tp)) b1) (\<lambda>(r, b2). if r \<noteq> 0 then Some (r, b2) else go b2))"
    using name_tok(1) [OF fb(1)] unfolding ko apply_subnodes_step [of _ _ "int (tok_off tp)"]
    by simp (simp only: next_subnode_tok [OF fb(2)] go_def Option.bind.bind_lunit)
  from merge_subnode_place [OF Cons.prems(3) ok pl] show ?case
  proof (elim disjE exE conjE)
    fix b1 room1
    assume m: "merge_subnode (int (tok_off pre)) (dt_name ok) b =
        Some (int (tok_off (pre @ TBegin s # map (\<lambda>(p, v). TProp p v) props @ concat (map toks us))), b1)"
      "room \<le> room1 + ?n" "tree_room (pre @ toks (Dt s props (us @ k # ws)) @ post) room1 b1"
    have "tree_room (q @ toks k @ concat (map toks ws) @ TEnd # post) room1 b1" using m(3) by (simp add: q_def node_def)
    with _ fb(2) have "stepped room1 (need ok) (q @ toks (merge ok k) @ concat (map toks ws) @ TEnd # post)
        (overlay_apply_node (int (tok_off q)) ov (int (tok_off tp)) b1)"
      by (rule mergesD) (use Cons.prems(1) in simp)
    then show ?thesis
    proof (cases rule: steppedE)
      case (ok b2 room2)
      have "tree_room (pre @ toks (Dt s props (us @ merge ok k # ws)) @ post) room2 b2" using ok(3) by (simp add: q_def node_def)
      from Cons.IH [OF _ fb(3) this]
      have "stepped room2 ?rest (pre @ toks (Dt s props (merge_kids oks (us @ merge ok k # ws))) @ post) (go b2)"
        using Cons.prems(1) by (simp add: go_def)
      from stepped_more [OF this, of room "?n + need ok"] show ?thesis using st m(1,2) ok(1,2) pl by (simp add: q_def [symmetric])
    next
      case (full b2)
      then show ?thesis using st m(1,2) by (intro stepped_full [of _ b2]) (simp_all add: q_def)
    qed
  next
    assume "merge_subnode (int (tok_off pre)) (dt_name ok) b = Some (- FDT_ERR_NOSPACE, b)" "room < ?n"
    then show ?thesis using st by (intro stepped_full [of _ b]) simp_all
  qed
qed

lemma no_giant_name: "no_giant k \<Longrightarrow> length (dt_name k) < 2 ^ 30"
  by (cases k) simp

lemma apply_node_merge: "no_giant ok \<Longrightarrow> merges ov ok"
proof (induction ok)
  case (Dt n ops oks)
  have "stepped room (need (Dt n ops oks)) (pre @ toks (merge (Dt n ops oks) base) @ post)
      (overlay_apply_node (int (tok_off pre)) ov (int (tok_off tp)) b)"
    if a: "final_blob (tp @ toks (Dt n ops oks) @ post') ov" "tree_room (pre @ toks base @ post) room b" for tp post' pre base post room b
  proof -
    let ?p = "map (\<lambda>(p, v). TProp p v) ops"
    obtain s props kids where base: "base = Dt s props kids" by (rule dt.exhaust)
    have "stepped room (props_need ops) (pre @ toks (Dt s (set_props ops props) kids) @ post) (apply_own (int (tok_off pre)) ov (int (tok_off tp)) b)"
      by (rule apply_own_merge [OF a(1) _ a(2) [unfolded base]]) (use Dt.prems in simp)
    then show ?thesis
    proof (cases rule: steppedE)
      case (ok b1 room1)
      have "final_blob ((tp @ TBegin n # ?p) @ concat (map toks oks) @ TEnd # post') ov" using a(1) by (simp add: node_def)
      moreover have "\<forall>k \<in> set oks. merges ov k \<and> length (dt_name k) < 2 ^ 30" using Dt no_giant_name by simp
      ultimately have "stepped room1 (sum_list (map (\<lambda>k. tok_off (node (dt_name k) [] []) + need k) oks))
          (pre @ toks (Dt s (set_props ops props) (merge_kids oks kids)) @ post)
          (apply_subnodes (int (tok_off pre)) ov (kid_off (tp @ TBegin n # ?p) oks) b1)"
        using apply_kids_merge [OF _ _ ok(3)] by blast
      from stepped_more [OF this ok(2)] show ?thesis
        using ok(1) first_subnode_tok [OF a(1)] by (simp add: overlay_apply_node_def base)
    next
      case (full b1)
      then show ?thesis by (intro stepped_full [of _ b1]) (simp_all add: overlay_apply_node_def)
    qed
  qed
  then show ?case unfolding merges_def by blast
qed

end
