(* ===== verification/Fdt_Apply_Props.thy ===== *)
theory Fdt_Apply_Props
  imports Fdt_Overlay_Props
begin

text \<open>
  Applying a whole overlay: the walk along the path of a target, the largest phandle of the base tree, moving the
  phandles of the overlay, merging all fragments, and \<open>fdt_overlay_apply\<close> for overlays whose targets
  are paths and that refer to no labels.
\<close>

section \<open>Paths\<close>

text \<open>Changing the node a path leads to, the first match at each step.\<close>

fun change_at :: "string list \<Rightarrow> (dt \<Rightarrow> dt) \<Rightarrow> dt \<Rightarrow> dt option" where
  "change_at [] f t = Some (f t)"
| "change_at (c # cs) f t =
     (case first_match c (dt_kids t) of
        None \<Rightarrow> None
      | Some (us, k, ws) \<Rightarrow> map_option (\<lambda>k'. Dt (dt_name t) (dt_props t) (us @ k' # ws)) (change_at cs f k))"

lemma path_walk_tok:
  assumes "final_blob (tp @ toks t @ post) b"
  shows "(\<forall>f. change_at cs f t = None) \<and> path_walk b (int (tok_off tp)) cs = Some (- FDT_ERR_NOTFOUND) \<or>
    (\<exists>tp' k post'. path_walk b (int (tok_off tp)) cs = Some (int (tok_off tp')) \<and> tp @ toks t @ post = tp' @ toks k @ post' \<and>
       (\<forall>f. \<exists>t'. change_at cs f t = Some t' \<and> tp @ toks t' @ post = tp' @ toks (f k) @ post'))"
  using assms
proof (induction cs arbitrary: tp t post)
  case Nil
  then show ?case by fastforce
next
  case (Cons c cs)
  obtain s props kids where t: "t = Dt s props kids" by (rule dt.exhaust)
  note so = subnode_offset_tok [OF Cons.prems [unfolded t], of c, unfolded fdt_subnode_offset_def]
  show ?case
  proof (cases "first_match c kids")
    case None
    then show ?thesis using so t by simp
  next
    case (Some m)
    obtain us k ws where m: "m = (us, k, ws)" by (rule prod_cases3)
    then have kids: "kids = us @ k # ws" using Some first_match_Some by simp
    define q where "q = tp @ TBegin s # map (\<lambda>(p, v). TProp p v) props @ concat (map toks us)"
    define r where "r = concat (map toks ws) @ TEnd # post"
    have e: "tp @ toks (Dt s props (us @ k' # ws)) @ post = q @ toks k' @ r" for k' by (simp add: q_def r_def node_def)
    have w: "path_walk b (int (tok_off tp)) (c # cs) = path_walk b (int (tok_off q)) cs" using so Some m by (simp add: q_def)
    have ch: "change_at (c # cs) f t = map_option (\<lambda>k'. Dt s props (us @ k' # ws)) (change_at cs f k)" for f
      using Some m t by simp
    have "final_blob (q @ toks k @ r) b" using Cons.prems unfolding t kids e .
    from Cons.IH [OF this] show ?thesis unfolding w
    proof (elim disjE exE conjE)
      fix tp' k2 post'
      assume a: "path_walk b (int (tok_off q)) cs = Some (int (tok_off tp'))" "q @ toks k @ r = tp' @ toks k2 @ post'"
        "\<forall>f. \<exists>t'. change_at cs f k = Some t' \<and> q @ toks t' @ r = tp' @ toks (f k2) @ post'"
      have "\<exists>t'. change_at (c # cs) f t = Some t' \<and> tp @ toks t' @ post = tp' @ toks (f k2) @ post'" for f
      proof -
        obtain k' where "change_at cs f k = Some k'" "q @ toks k' @ r = tp' @ toks (f k2) @ post'" using a(3) by blast
        then show ?thesis unfolding ch using e by simp
      qed
      moreover have "tp @ toks t @ post = tp' @ toks k2 @ post'" unfolding t kids e by (rule a(2))
      ultimately show "(\<forall>f. change_at (c # cs) f t = None) \<and> path_walk b (int (tok_off q)) cs = Some (- FDT_ERR_NOTFOUND) \<or>
        (\<exists>tp' k post'. path_walk b (int (tok_off q)) cs = Some (int (tok_off tp')) \<and> tp @ toks t @ post = tp' @ toks k @ post' \<and>
          (\<forall>f. \<exists>t'. change_at (c # cs) f t = Some t' \<and> tp @ toks t' @ post = tp' @ toks (f k) @ post'))"
        using a(1) by blast
    qed (simp add: ch del: change_at.simps)
  qed
qed

lemma path_offset_tok:
  assumes "final_blob (toks t) b"
  shows "(\<forall>f. change_at (strtok_all slash (slash # path)) f t = None) \<and> fdt_path_offset b (slash # path) = Some (- FDT_ERR_NOTFOUND) \<or>
    (\<exists>tp k post. fdt_path_offset b (slash # path) = Some (int (tok_off tp)) \<and> toks t = tp @ toks k @ post \<and>
       (\<forall>f. \<exists>t'. change_at (strtok_all slash (slash # path)) f t = Some t' \<and> toks t' = tp @ toks (f k) @ post))"
proof -
  have "fdt_path_offset b (slash # path) = path_walk b (int (tok_off [])) (strtok_all slash (slash # path))"
    using final_blob_probe [OF assms] by (subst fdt_path_offset.simps) (simp add: tok_off_def)
  then show ?thesis using path_walk_tok [of "[]" t "[]" b "strtok_all slash (slash # path)"] assms by simp
qed

section \<open>Fragments\<close>

text \<open>A fragment has no node to merge, or names its target by a path of the base tree.\<close>

definition path_fragment :: "dt \<Rightarrow> bool" where
  "path_fragment frag \<longleftrightarrow>
     (case first_match ''__overlay__'' (dt_kids frag) of
        None \<Rightarrow> True
      | Some (_, ok, _) \<Rightarrow> no_giant ok \<and> map_of (dt_props frag) ''target'' = None \<and>
          (case map_of (dt_props frag) ''target-path'' of
             None \<Rightarrow> False
           | Some v \<Rightarrow> v \<noteq> [] \<and> hd v = slash \<and> last v = NUL \<and> NUL \<notin> set (butlast v)))"

definition frag_target :: "dt \<Rightarrow> string list" where
  "frag_target frag = strtok_all slash (butlast (the (map_of (dt_props frag) ''target-path'')))"

definition merge_frag :: "dt \<Rightarrow> dt \<Rightarrow> dt option" where
  "merge_frag frag base =
     (case first_match ''__overlay__'' (dt_kids frag) of
        None \<Rightarrow> Some base
      | Some (_, ok, _) \<Rightarrow> change_at (frag_target frag) (merge ok) base)"

definition frag_need :: "dt \<Rightarrow> nat" where
  "frag_need frag = (case first_match ''__overlay__'' (dt_kids frag) of None \<Rightarrow> 0 | Some (_, ok, _) \<Rightarrow> need ok)"

lemma target_path_tok:
  assumes "final_blob (tp @ toks frag @ post) ov" "map_of (dt_props frag) ''target'' = None"
    "map_of (dt_props frag) ''target-path'' = Some (path @ [NUL])" "NUL \<notin> set path"
  shows "fdt_overlay_target_offset b ov (int (tok_off tp)) = Option.bind (fdt_path_offset b path) (\<lambda>ret. Some (ret, Some path))"
proof -
  have n: "final_blob (tp @ node (dt_name frag) (dt_props frag) (concat (map toks (dt_kids frag))) @ post) ov"
    using assms(1) by (cases frag) simp
  note g = getprop_final [OF n, simplified kids_no_prop not_False_eq_True all_simps]
  have "overlay_get_target_phandle ov (int (tok_off tp)) = Some 0"
    using g [of "''target''"] assms(2) by (simp add: overlay_get_target_phandle_def)
  moreover obtain p where p: "fdt_getprop ov (int (tok_off tp)) ''target-path'' = Some (Inr (p, of_nat (length (path @ [NUL]))))"
      "take (length (path @ [NUL])) (drop p ov) = path @ [NUL]"
    using g [of "''target-path''"] assms(3) by auto
  have "drop p ov = (path @ [NUL]) @ drop (length (path @ [NUL])) (drop p ov)" using p(2) append_take_drop_id by metis
  then have "cstr (drop p ov) = Some path" using assms(4) cstr_terminated by simp
  ultimately show ?thesis using p(1) by (simp add: fdt_overlay_target_offset_def)
qed

text \<open>What is left after merging into \<open>t\<close>, if its target is there: \<open>m\<close> bytes of the room may be used.\<close>

definition outcome :: "nat \<Rightarrow> nat \<Rightarrow> dt option \<Rightarrow> (int \<times> blob) option \<Rightarrow> bool" where
  "outcome room m t r \<longleftrightarrow>
     (\<exists>b' room' t'. r = Some (0, b') \<and> t = Some t' \<and> room \<le> room' + m \<and> tree_room (toks t') room' b') \<or>
     (\<exists>b'. r = Some (- FDT_ERR_NOSPACE, b') \<and> room < m) \<or>
     (\<exists>b'. r = Some (- FDT_ERR_NOTFOUND, b') \<and> t = None)"

lemma outcomeE:
  assumes "outcome room m t r"
  obtains (ok) b' room' t' where "r = Some (0, b')" "t = Some t'" "room \<le> room' + m" "tree_room (toks t') room' b'"
    | (full) b' where "r = Some (- FDT_ERR_NOSPACE, b')" "room < m"
    | (absent) b' where "r = Some (- FDT_ERR_NOTFOUND, b')" "t = None"
  using assms unfolding outcome_def by blast

lemma outcome_more: "outcome room' m t r \<Longrightarrow> room \<le> room' + n \<Longrightarrow> outcome room (n + m) t r"
  unfolding outcome_def by fastforce

lemma outcome_full: "r = Some (- FDT_ERR_NOSPACE, b') \<Longrightarrow> room < m \<Longrightarrow> outcome room m t r"
  unfolding outcome_def by blast

lemma merge_fragment_tok:
  assumes "final_blob (tp @ toks frag @ post) ov" "path_fragment frag" "tree_room (toks base) room b"
  shows "outcome room (frag_need frag) (merge_frag frag base) (merge_fragment ov (int (tok_off tp)) b)"
proof -
  obtain s props kids where f: "frag = Dt s props kids" by (rule dt.exhaust)
  note so = subnode_offset_tok [OF assms(1) [unfolded f], of "''__overlay__''"]
  show ?thesis
  proof (cases "first_match ''__overlay__'' kids")
    case None
    then have "merge_fragment ov (int (tok_off tp)) b = Some (0, b)" using so by (simp add: merge_fragment_def)
    then show ?thesis using None assms(3) f by (auto simp: outcome_def merge_frag_def frag_need_def)
  next
    case (Some m)
    obtain us ok ws where m: "m = (us, ok, ws)" by (rule prod_cases3)
    then have kids: "kids = us @ ok # ws" using Some first_match_Some by simp
    obtain v where v: "no_giant ok" "map_of props ''target'' = None" "map_of props ''target-path'' = Some v" "v \<noteq> []" "hd v = slash" "last v = NUL"
        "NUL \<notin> set (butlast v)"
      using assms(2) Some m f by (auto simp: path_fragment_def split: option.splits)
    have "butlast v \<noteq> []" using v(4-6) by (cases v rule: rev_cases) (auto simp: hd_append split: if_splits)
    then obtain path where path: "butlast v = slash # path" using v(4,5) by (cases "butlast v"; cases v) (auto split: if_splits)
    then have vp: "v = (slash # path) @ [NUL]" using append_butlast_last_id [OF v(4)] v(6) by simp
    define q where "q = tp @ TBegin s # map (\<lambda>(p, v). TProp p v) props @ concat (map toks us)"
    have fo: "final_blob (q @ toks ok @ concat (map toks ws) @ TEnd # post) ov"
      using assms(1) by (simp add: f kids q_def node_def)
    have mf: "merge_fragment ov (int (tok_off tp)) b = Option.bind (fdt_path_offset b (slash # path)) (\<lambda>target.
        if target < 0 then Some (target, b) else overlay_apply_node target ov (int (tok_off q)) b)"
      using so Some m target_path_tok [OF assms(1), of "slash # path" b] v(2,3,7) f
      by (simp add: merge_fragment_def vp) (simp only: q_def)
    have ft: "merge_frag frag base = change_at (strtok_all slash (slash # path)) (merge ok) base" "frag_need frag = need ok"
      using Some m f v(3) path by (simp_all add: merge_frag_def frag_target_def frag_need_def)
    from path_offset_tok [OF tree_room_final [OF assms(3)], of path] show ?thesis
    proof (elim disjE exE conjE)
      assume "\<forall>f. change_at (strtok_all slash (slash # path)) f base = None" "fdt_path_offset b (slash # path) = Some (- FDT_ERR_NOTFOUND)"
      then show ?thesis using mf ft by (simp add: outcome_def)
    next
      fix bp k bpost
      assume p: "fdt_path_offset b (slash # path) = Some (int (tok_off bp))" "toks base = bp @ toks k @ bpost"
        "\<forall>f. \<exists>t'. change_at (strtok_all slash (slash # path)) f base = Some t' \<and> toks t' = bp @ toks (f k) @ bpost"
      obtain t' where t': "merge_frag frag base = Some t'" "toks t' = bp @ toks (merge ok k) @ bpost" using p(3) ft(1) by metis
      have "stepped room (need ok) (toks t') (overlay_apply_node (int (tok_off bp)) ov (int (tok_off q)) b)"
        unfolding t'(2) by (rule mergesD [OF apply_node_merge [OF v(1)] fo]) (use assms(3) p(2) in simp)
      then show ?thesis using mf p(1) t'(1) ft(2) unfolding stepped_def outcome_def by auto
    qed
  qed
qed

fun merge_frags :: "dt list \<Rightarrow> dt \<Rightarrow> dt option" where
  "merge_frags [] base = Some base"
| "merge_frags (frag # frags) base = Option.bind (merge_frag frag base) (merge_frags frags)"

lemma merge_fragments_tok:
  assumes "final_blob (tp @ concat (map toks frags) @ TEnd # post) ov" "list_all path_fragment frags" "tree_room (toks base) room b"
  shows "outcome room (sum_list (map frag_need frags)) (merge_frags frags base) (merge_fragments ov (kid_off tp frags) b)"
  using assms
proof (induction frags arbitrary: tp base room b)
  case Nil
  then show ?case by (subst merge_fragments.simps) (auto simp: kid_off_def outcome_def)
next
  case (Cons frag frags)
  have fb: "final_blob (tp @ toks frag @ concat (map toks frags) @ TEnd # post) ov"
      "final_blob ((tp @ toks frag) @ concat (map toks frags) @ TEnd # post) ov" using Cons.prems(1) by simp_all
  have ko: "kid_off tp (frag # frags) = int (tok_off tp)" by (simp add: kid_off_def)
  have st: "merge_fragments ov (kid_off tp (frag # frags)) b = Option.bind (merge_fragment ov (int (tok_off tp)) b) (\<lambda>(ret, b1).
      if ret \<noteq> 0 then Some (ret, b1) else merge_fragments ov (kid_off (tp @ toks frag) frags) b1)"
    unfolding ko by (subst merge_fragments.simps) (simp, simp only: next_subnode_tok [OF fb(1)] Option.bind.bind_lunit)
  have "outcome room (frag_need frag) (merge_frag frag base) (merge_fragment ov (int (tok_off tp)) b)"
    by (rule merge_fragment_tok [OF fb(1)]) (use Cons.prems in simp_all)
  then show ?case
  proof (cases rule: outcomeE)
    case (ok b1 room1 t1)
    have "outcome room1 (sum_list (map frag_need frags)) (merge_frags frags t1) (merge_fragments ov (kid_off (tp @ toks frag) frags) b1)"
      by (rule Cons.IH [OF fb(2)]) (use Cons.prems(2) ok(4) in simp_all)
    from outcome_more [OF this ok(3)] show ?thesis using st ok(1,2) by simp
  next
    case (full b1)
    then show ?thesis using st by (intro outcome_full [of _ b1]) simp_all
  next
    case (absent b1)
    then show ?thesis using st by (simp add: outcome_def)
  qed
qed

lemma overlay_merge_tok:
  assumes "final_blob (toks (Dt s props frags)) ov" "list_all path_fragment frags" "tree_room (toks base) room b"
  shows "outcome room (sum_list (map frag_need frags)) (merge_frags frags base) (overlay_merge ov b)"
proof -
  let ?tp = "TBegin s # map (\<lambda>(p, v). TProp p v) props"
  have "fdt_first_subnode ov 0 = Some (kid_off ?tp frags)"
    using first_subnode_tok [of "[]" s props frags "[]" ov] assms(1) by (simp add: tok_off_def)
  moreover have "final_blob (?tp @ concat (map toks frags) @ TEnd # []) ov" using assms(1) by (simp add: node_def)
  ultimately show ?thesis using merge_fragments_tok [OF _ assms(2,3)] by (simp add: overlay_merge_def)
qed

section \<open>The largest phandle\<close>

lemma node_step_flat:
  assumes "final_blob (tp @ t # ts) b"
  shows "next_node_loop b (int (tok_off tp)) None =
    (case t of TBegin s \<Rightarrow> Some (int (tok_off tp), None) | _ \<Rightarrow> next_node_loop b (int (tok_off (tp @ [t]))) None)"
  using tag_tok [OF assms] by (cases t; subst next_node_loop.simps) (simp_all add: Let_def)

lemma node_props_flat:
  "final_blob (tp @ map (\<lambda>(p, v). TProp p v) props @ ts) b \<Longrightarrow>
   next_node_loop b (int (tok_off tp)) None = next_node_loop b (int (tok_off (tp @ map (\<lambda>(p, v). TProp p v) props))) None"
proof (induction props arbitrary: tp)
  case (Cons a props)
  obtain p v where a: "a = (p, v)" by (rule prod.exhaust)
  have "final_blob (tp @ TProp p v # map (\<lambda>(p, v). TProp p v) props @ ts) b" using Cons.prems a by simp
  from node_step_flat [OF this] Cons.IH [of "tp @ [TProp p v]"] Cons.prems a show ?case by simp
qed simp

lemma node_stop_flat: "final_blob ts b \<Longrightarrow> next_node_loop b (int (tok_off ts)) None = Some (- FDT_ERR_NOTFOUND, None)"
proof -
  assume "final_blob ts b"
  then obtain its strs rest where b: "b = fdt_final its strs rest" "map fst its = ts" "final_ok its strs rest" by (auto simp: final_blob_def)
  then show ?thesis using final_stop [OF b(3)] length_enc_off [of its] by (subst next_node_loop.simps) simp
qed

text \<open>The phandle of a node, zero when it has none, and the phandles of a tree.\<close>

definition cell_of :: "(string \<times> char list) list \<Rightarrow> string \<Rightarrow> u32 option" where
  "cell_of props name = (case map_of props name of Some v \<Rightarrow> if length v = 4 then Some (be32_dec v) else None | None \<Rightarrow> None)"

definition node_phandle :: "(string \<times> char list) list \<Rightarrow> u32" where
  "node_phandle props =
     (case cell_of props ''phandle'' of Some v \<Rightarrow> v | None \<Rightarrow> (case cell_of props ''linux,phandle'' of Some v \<Rightarrow> v | None \<Rightarrow> 0))"

fun phandles :: "dt \<Rightarrow> u32 list" where
  "phandles (Dt s props kids) = node_phandle props # concat (map phandles kids)"

lemma final_tok_ok: "final_blob ts b \<Longrightarrow> t \<in> set ts \<Longrightarrow> tok_ok t"
  by (auto simp: final_blob_def list_all_iff)

lemma of_nat_cell:
  assumes "n < 2 ^ 31"
  shows "(of_nat n :: u32) = 4 \<longleftrightarrow> n = 4"
proof
  assume "(of_nat n :: u32) = 4"
  then have "unat (of_nat n :: u32) = 4" by simp
  then show "n = 4" by (simp add: unat_of_nat_less [OF assms])
qed simp

lemma rd32_value: "take 4 (drop p b) = v \<Longrightarrow> length v = 4 \<Longrightarrow> p + 4 \<le> length b \<Longrightarrow> rd32 b p = Some (be32_dec v)"
  by (auto simp: rd32_def be32_dec_def)

lemma cell_prop_tok:
  assumes "final_blob (tp @ toks (Dt s props kids) @ post) b"
  shows "cell_prop b (int (tok_off tp)) name = Some (cell_of props name)"
proof -
  have n: "final_blob (tp @ node s props (concat (map toks kids)) @ post) b" using assms by simp
  note g = getprop_final [OF n, of name, simplified kids_no_prop not_False_eq_True all_simps]
  show ?thesis
  proof (cases "map_of props name")
    case None
    then show ?thesis using g by (simp add: cell_prop_def cell_of_def)
  next
    case (Some v)
    then obtain p where p: "fdt_getprop b (int (tok_off tp)) name = Some (Inr (p, of_nat (length v)))" "p + length v < length b"
        "take (length v) (drop p b) = v"
      using g by auto
    have "(name, v) \<in> set props" using Some by (rule map_of_SomeD)
    then have "TProp name v \<in> set (tp @ toks (Dt s props kids) @ post)" by (force simp: node_def)
    from final_tok_ok [OF assms this] have "length v < 2 ^ 31" by simp
    then have "(of_nat (length v) :: u32) = 4 \<longleftrightarrow> length v = 4" by (rule of_nat_cell)
    then show ?thesis using p Some rd32_value [of p b v] by (cases "length v = 4") (simp_all add: cell_prop_def cell_of_def)
  qed
qed

lemma get_phandle_tok:
  "final_blob (tp @ toks (Dt s props kids) @ post) b \<Longrightarrow> fdt_get_phandle b (int (tok_off tp)) = Some (node_phandle props)"
  by (simp add: fdt_get_phandle_def cell_prop_tok node_phandle_def split: option.split)

lemma max_walk:
  fixes b
  defines "C \<equiv> \<lambda>mx (off, d :: int option). if off < 0 then Some (if off = - FDT_ERR_NOTFOUND then Inr mx else Inl off)
      else Option.bind (fdt_get_phandle b off) (\<lambda>value. max_phandle_loop b off (if mx < value then value else mx))"
  shows "final_blob (tp @ toks t @ post) b \<Longrightarrow>
    Option.bind (next_node_loop b (int (tok_off tp)) None) (C mx) =
    Option.bind (next_node_loop b (int (tok_off (tp @ toks t))) None) (C (fold max (phandles t) mx))"
proof (induction t arbitrary: tp post mx)
  case (Dt s props kids)
  let ?p = "map (\<lambda>(p, v). TProp p v) props" and ?mx = "max mx (node_phandle props)"
  have ks: "Option.bind (next_node_loop b (int (tok_off tq)) None) (C m) =
      Option.bind (next_node_loop b (int (tok_off (tq @ concat (map toks ks)))) None) (C (fold max (concat (map phandles ks)) m))"
    if "set ks \<subseteq> set kids" "final_blob (tq @ concat (map toks ks) @ TEnd # post) b" for ks tq m
    using that
  proof (induction ks arbitrary: tq m)
    case (Cons k ks)
    have "Option.bind (next_node_loop b (int (tok_off tq)) None) (C m) =
        Option.bind (next_node_loop b (int (tok_off (tq @ toks k))) None) (C (fold max (phandles k) m))"
      by (rule Dt.IH [of k _ "concat (map toks ks) @ TEnd # post"]) (use Cons.prems in simp_all)
    then show ?case using Cons.IH [of "tq @ toks k"] Cons.prems by simp
  qed simp
  have fb: "final_blob (tp @ TBegin s # ?p @ concat (map toks kids) @ TEnd # post) b"
      "final_blob ((tp @ [TBegin s]) @ ?p @ concat (map toks kids) @ TEnd # post) b"
      "final_blob ((tp @ TBegin s # ?p) @ concat (map toks kids) @ TEnd # post) b"
      "final_blob ((tp @ TBegin s # ?p @ concat (map toks kids)) @ TEnd # post) b"
    using Dt.prems by (simp_all add: node_def)
  have "max_phandle_loop b (int (tok_off tp)) ?mx = Option.bind (next_node_loop b (int (tok_off (tp @ TBegin s # ?p))) None) (C ?mx)"
    using next_node_tok [OF fb(1)] node_props_flat [OF fb(2)] by (subst max_phandle_loop.simps) (simp add: C_def case_prod_beta)
  moreover have mx: "(if mx < x then x else mx) = max mx x" for x by (auto simp: max_def)
  have "Option.bind (next_node_loop b (int (tok_off tp)) None) (C mx) = max_phandle_loop b (int (tok_off tp)) ?mx"
    using node_step_flat [OF fb(1)] get_phandle_tok [OF Dt.prems] by (simp add: C_def mx)
  ultimately show ?case using ks [OF subset_refl fb(3)] node_step_flat [OF fb(4)] by (simp add: node_def max.commute)
qed

lemma find_max_tok:
  assumes "final_blob (toks t) b"
  shows "fdt_find_max_phandle b = Some (Inr (fold max (phandles t) 0))"
  using max_walk [of "[]" t "[]" b 0] node_stop_flat [OF assms] assms
  by (simp add: fdt_find_max_phandle_def max_phandle_loop.simps [of b "- 1"] fdt_next_node_def tok_off_def case_prod_beta)

section \<open>Moving phandles\<close>

lemma char_low: "char_of (of_char c + 256 * (n :: nat)) = c"
  by (metis char_of_mod_256 char_of_char mod_mult_self2)

lemma bytes_bound:
  fixes a b c d :: nat
  assumes "a < 256" "b < 256" "c < 256" "d < 256"
  shows "d + 256 * (c + 256 * (b + 256 * a)) < 2 ^ 32" "(d + 256 * (c + 256 * (b + 256 * a))) div 256 = c + 256 * (b + 256 * a)"
    "(d + 256 * (c + 256 * (b + 256 * a))) div 65536 = b + 256 * a" "(d + 256 * (c + 256 * (b + 256 * a))) div 16777216 = a"
  using assms by simp_all

lemma be32_self:
  assumes "length v = 4"
  shows "be32 (be32_dec v) = v"
proof -
  obtain a b c d where v: "v = [a, b, c, d]" using assms by (auto simp: length_Suc_conv numeral_eq_Suc)
  define x y z w :: nat where "x = of_char a" and "y = of_char b" and "z = of_char c" and "w = of_char d"
  note n = bytes_bound [of x y z w]
  have lt: "x < 256" "y < 256" "z < 256" "w < 256" by (simp_all add: x_def y_def z_def w_def)
  have "be32_dec v = of_nat (w + 256 * (z + 256 * (y + 256 * x)))" by (simp add: v be32_dec_def le32_dec_def x_def y_def z_def w_def)
  then have "unat (be32_dec v) = w + 256 * (z + 256 * (y + 256 * x))"
    using n(1) [OF lt] by (simp only: unat_of_nat) (simp add: take_bit_nat_eq_self)
  then show ?thesis using n(2-4) [OF lt] char_low [of d "z + 256 * (y + 256 * x)"] char_low [of c "y + 256 * x"] char_low [of b x] char_low [of a 0]
    by (simp add: v be32_def le32_def x_def y_def z_def w_def)
qed

text \<open>A phandle of a node moved by \<open>delta\<close>, where it fits.\<close>

definition fits :: "u32 \<Rightarrow> string \<Rightarrow> (string \<times> char list) list \<Rightarrow> bool" where
  "fits delta name props =
     (case map_of props name of
        None \<Rightarrow> True
      | Some v \<Rightarrow> length v = 4 \<and> be32_dec v \<le> be32_dec v + delta \<and> be32_dec v + delta \<noteq> - 1)"

definition move_cell :: "u32 \<Rightarrow> string \<Rightarrow> (string \<times> char list) list \<Rightarrow> (string \<times> char list) list" where
  "move_cell delta name props =
     (case map_of props name of None \<Rightarrow> props | Some v \<Rightarrow> set_prop name (be32 (be32_dec v + delta)) props)"

definition move_props :: "u32 \<Rightarrow> (string \<times> char list) list \<Rightarrow> (string \<times> char list) list" where
  "move_props delta props = move_cell delta ''linux,phandle'' (move_cell delta ''phandle'' props)"

fun move_tree :: "u32 \<Rightarrow> dt \<Rightarrow> dt" where
  "move_tree delta (Dt s props kids) = Dt s (move_props delta props) (map (move_tree delta) kids)"

fun tree_fits :: "u32 \<Rightarrow> dt \<Rightarrow> bool" where
  "tree_fits delta (Dt s props kids) \<longleftrightarrow>
     fits delta ''phandle'' props \<and> fits delta ''linux,phandle'' props \<and> (\<forall>k \<in> set kids. tree_fits delta k)"

lemma map_of_move_cell: "p \<noteq> name \<Longrightarrow> map_of (move_cell delta name props) p = map_of props p"
  by (simp add: move_cell_def map_of_set_prop split: option.split)

lemma add_offset_tok:
  assumes "tree_room (tp @ toks (Dt s props kids) @ post) room ov" "fits delta name props" "NUL \<notin> set name" "length name \<le> 63"
  shows "\<exists>r ov'. overlay_phandle_add_offset (int (tok_off tp)) name delta ov = Some (r, ov') \<and> (r = 0 \<or> r = - FDT_ERR_NOTFOUND) \<and>
    tree_room (tp @ toks (Dt s (move_cell delta name props) kids) @ post) room ov'"
proof -
  have t: "tree_room (tp @ node s props (concat (map toks kids)) @ post) room ov" using assms(1) by simp
  show ?thesis
  proof (cases "map_of props name")
    case None
    then have "overlay_phandle_add_offset (int (tok_off tp)) name delta ov = Some (- FDT_ERR_NOTFOUND, ov)"
      using getprop_final [OF tree_room_final [OF t], of name] kids_no_prop by (simp add: overlay_phandle_add_offset_def)
    then show ?thesis using assms(1) None by (simp add: move_cell_def)
  next
    case (Some v)
    then have v: "map_of props name = Some (be32 (be32_dec v))" "\<not> be32_dec v + delta < be32_dec v" "be32_dec v + delta \<noteq> - 1"
      using assms(2) be32_self [of v] by (auto simp: fits_def)
    have "tok_ok (TProp name (be32 (be32_dec v)))" using assms(3,4) by simp
    from phandle_moved [OF t _ v(1) this, of delta] v Some show ?thesis
      using kids_no_prop by (auto simp: move_cell_def)
  qed
qed

lemma adjust_own_tok:
  assumes "tree_room (tp @ toks (Dt s props kids) @ post) room ov" "fits delta ''phandle'' props" "fits delta ''linux,phandle'' props"
  shows "\<exists>ov'. adjust_own_phandles (int (tok_off tp)) delta ov = Some (0, ov') \<and>
    tree_room (tp @ toks (Dt s (move_props delta props) kids) @ post) room ov'"
proof -
  obtain r1 ov1 where a: "overlay_phandle_add_offset (int (tok_off tp)) ''phandle'' delta ov = Some (r1, ov1)" "r1 = 0 \<or> r1 = - FDT_ERR_NOTFOUND"
      "tree_room (tp @ toks (Dt s (move_cell delta ''phandle'' props) kids) @ post) room ov1"
    using add_offset_tok [OF assms(1,2)] by auto
  have "fits delta ''linux,phandle'' (move_cell delta ''phandle'' props)" using assms(3) by (simp add: fits_def map_of_move_cell)
  then obtain r2 ov2 where "overlay_phandle_add_offset (int (tok_off tp)) ''linux,phandle'' delta ov1 = Some (r2, ov2)" "r2 = 0 \<or> r2 = - FDT_ERR_NOTFOUND"
      "tree_room (tp @ toks (Dt s (move_props delta props) kids) @ post) room ov2"
    using add_offset_tok [OF a(3), of delta "''linux,phandle''"] by (auto simp: move_props_def)
  then show ?thesis using a(1,2) by (auto simp: adjust_own_phandles_def)
qed

lemma adjust_subnodes_step:
  "adjust_subnodes child delta ov =
     (if child < 0 then Some (0, ov)
      else Option.bind (overlay_adjust_node_phandles child delta ov) (\<lambda>(r, ov1). if r \<noteq> 0 then Some (r, ov1)
        else Option.bind (fdt_next_subnode ov1 child) (\<lambda>n. adjust_subnodes n delta ov1)))"
  by (subst adjust_subnodes.simps) (auto simp: overlay_adjust_node_phandles_def split: prod.splits intro!: Option.bind_cong)

lemma adjust_node_tok:
  "tree_room (tp @ toks t @ post) room ov \<Longrightarrow> tree_fits delta t \<Longrightarrow>
   \<exists>ov'. overlay_adjust_node_phandles (int (tok_off tp)) delta ov = Some (0, ov') \<and> tree_room (tp @ toks (move_tree delta t) @ post) room ov'"
proof (induction t arbitrary: tp post ov)
  case (Dt s props kids)
  have ks: "\<exists>ov'. adjust_subnodes (kid_off tq ks) delta ov1 = Some (0, ov') \<and>
      tree_room (tq @ concat (map toks (map (move_tree delta) ks)) @ TEnd # post) room ov'"
    if "set ks \<subseteq> set kids" "tree_room (tq @ concat (map toks ks) @ TEnd # post) room ov1" for tq ks ov1
    using that
  proof (induction ks arbitrary: tq ov1)
    case Nil
    then show ?case by (subst adjust_subnodes_step) (simp add: kid_off_def)
  next
    case (Cons k ks)
    obtain ov2 where o: "overlay_adjust_node_phandles (int (tok_off tq)) delta ov1 = Some (0, ov2)"
        "tree_room (tq @ toks (move_tree delta k) @ concat (map toks ks) @ TEnd # post) room ov2"
      using Dt.IH [of k tq "concat (map toks ks) @ TEnd # post" ov1] Cons.prems Dt.prems(2) by auto
    have "\<exists>ov'. adjust_subnodes (kid_off (tq @ toks (move_tree delta k)) ks) delta ov2 = Some (0, ov') \<and>
        tree_room ((tq @ toks (move_tree delta k)) @ concat (map toks (map (move_tree delta) ks)) @ TEnd # post) room ov'"
      by (rule Cons.IH) (use Cons.prems(1) o(2) in simp_all)
    then show ?case using o(1) next_subnode_tok [OF tree_room_final [OF o(2)]]
      by (subst adjust_subnodes_step) (simp add: kid_off_def)
  qed
  obtain ov1 where o: "adjust_own_phandles (int (tok_off tp)) delta ov = Some (0, ov1)"
      "tree_room (tp @ toks (Dt s (move_props delta props) kids) @ post) room ov1"
    using adjust_own_tok [OF Dt.prems(1)] Dt.prems(2) by auto
  let ?tq = "tp @ TBegin s # map (\<lambda>(p, v). TProp p v) (move_props delta props)"
  have "\<exists>ov'. adjust_subnodes (kid_off ?tq kids) delta ov1 = Some (0, ov') \<and>
      tree_room (?tq @ concat (map toks (map (move_tree delta) kids)) @ TEnd # post) room ov'"
    by (rule ks) (use o(2) in \<open>simp_all add: node_def\<close>)
  then show ?case using o(1) first_subnode_tok [OF tree_room_final [OF o(2)]]
    by (simp add: overlay_adjust_node_phandles_def node_def)
qed

section \<open>The moved overlay\<close>

lemma move_tree_name [simp]: "dt_name (move_tree delta t) = dt_name t"
  by (cases t) simp

lemma first_match_moved:
  "first_match name (map (move_tree delta) kids) =
   map_option (\<lambda>(us, k, ws). (map (move_tree delta) us, move_tree delta k, map (move_tree delta) ws)) (first_match name kids)"
  by (induction kids) (auto simp: option.map_comp comp_def case_prod_beta)

lemma set_prop_set: "set (set_prop name v props) \<subseteq> insert (name, v) (set props)"
proof -
  have "set (replace_first name v ps) \<subseteq> insert (name, v) (set ps)" for ps
    by (induction name v ps rule: replace_first.induct) auto
  then show ?thesis by (auto simp: set_prop_def)
qed

lemma move_cell_no_giant:
  "\<forall>(p, v) \<in> set props. length v < 2 ^ 30 \<Longrightarrow>
   \<forall>(p, v) \<in> set (move_cell delta name props). length v < 2 ^ 30"
proof (cases "map_of props name")
  case (Some v)
  assume "\<forall>(p, v) \<in> set props. length v < 2 ^ 30"
  then show ?thesis using set_prop_set [of name "be32 (be32_dec v + delta)" props] Some by (auto simp: move_cell_def)
qed (simp add: move_cell_def)

lemma move_tree_no_giant: "no_giant t \<Longrightarrow> no_giant (move_tree delta t)"
proof (induction t)
  case (Dt s props kids)
  have "\<forall>(p, v) \<in> set (move_props delta props). length v < 2 ^ 30"
    unfolding move_props_def by (intro move_cell_no_giant) (use Dt.prems in simp)
  then show ?case using Dt by simp
qed

lemma move_props_other: "p \<noteq> ''phandle'' \<Longrightarrow> p \<noteq> ''linux,phandle'' \<Longrightarrow> map_of (move_props delta props) p = map_of props p"
  by (simp add: move_props_def map_of_move_cell)

lemma path_fragment_moved: "path_fragment frag \<Longrightarrow> path_fragment (move_tree delta frag)"
  by (cases frag) (auto simp: path_fragment_def first_match_moved move_props_other move_tree_no_giant split: option.splits)

text \<open>A property of a merged node: the last of its name in the overlay, or the one the node had.\<close>

lemma merged_property:
  "map_of (dt_props (merge ok base)) p = (case map_of (rev (dt_props ok)) p of Some v \<Rightarrow> Some v | None \<Rightarrow> map_of (dt_props base) p)"
proof -
  have "map_of (set_props ops props) p = (case map_of (rev ops) p of Some v \<Rightarrow> Some v | None \<Rightarrow> map_of props p)" for ops props
    by (induction ops arbitrary: props) (auto simp: set_props_def map_of_set_prop map_add_def split: option.splits)
  then show ?thesis by (cases ok) simp
qed

section \<open>Applying an overlay\<close>

text \<open>A node of the root that is not there.\<close>

lemma no_root_node:
  assumes "final_blob (toks (Dt s props kids)) b" "first_match name kids = None" "strtok_all slash (slash # name) = [name]"
  shows "fdt_path_offset b (slash # name) = Some (- FDT_ERR_NOTFOUND)" "fdt_subnode_offset b 0 name = Some (- FDT_ERR_NOTFOUND)"
proof -
  show "fdt_path_offset b (slash # name) = Some (- FDT_ERR_NOTFOUND)"
    using path_offset_tok [OF assms(1), of name] assms(2,3) by auto
  show "fdt_subnode_offset b 0 name = Some (- FDT_ERR_NOTFOUND)"
    using subnode_offset_tok [of "[]" s props kids "[]" b name] assms(1,2) by (simp add: tok_off_def)
qed

text \<open>C9. Take an overlay whose fragments name their targets by absolute paths, which refers to no labels (it has no
  symbols and no fixups), whose phandles do not overflow when they are moved, and in which no name or value has
  1 GB.  Applying it merges every fragment, with the phandles of the overlay moved behind the largest phandle of
  the base tree, into the node that its path leads to: properties are replaced or added, subnodes are merged into
  the first subnode that matches or added.  The blob then reads back as the merged tree.  Otherwise the result
  is the error for missing room, only when the fragments may need more than there is, or for a target that
  is not in the tree, and the magic of the base tree is erased; the overlay is invalid in every case.\<close>

theorem overlay_applied:
  assumes "tree_room (toks base) room b" "tree_room (toks (Dt s props frags)) oroom ov"
    "tree_fits (fold max (phandles base) 0) (Dt s props frags)" "list_all path_fragment frags"
    "first_match ''__local_fixups__'' frags = None" "first_match ''__fixups__'' frags = None" "first_match ''__symbols__'' frags = None"
  shows "\<exists>rc b' ov'. fdt_overlay_apply b ov = Some (rc, b', ov') \<and> fdt_magic ov' = - 1 \<and>
    (let moved = map (move_tree (fold max (phandles base) 0)) frags; result = merge_frags moved base; space = sum_list (map frag_need moved)
     in rc = 0 \<and> (\<exists>t room'. result = Some t \<and> room \<le> room' + space \<and> tree_room (toks t) room' b' \<and> fdt_tokens b' = Some (toks t)) \<or>
        rc = - FDT_ERR_NOSPACE \<and> room < space \<and> fdt_magic b' = - 1 \<or>
        rc = - FDT_ERR_NOTFOUND \<and> result = None \<and> fdt_magic b' = - 1)"
proof -
  define delta where "delta = fold max (phandles base) 0"
  let ?frags = "map (move_tree delta) frags"
  have pb: "\<not> fdt_ro_probe b < 0" "\<not> fdt_ro_probe ov < 0"
    using final_blob_probe [OF tree_room_final] assms(1,2) by blast+
  obtain ov1 where o: "overlay_adjust_local_phandles delta ov = Some (0, ov1)" "tree_room (toks (Dt s (move_props delta props) ?frags)) oroom ov1"
    using adjust_node_tok [of "[]" "Dt s props frags" "[]" oroom ov delta] assms(2,3)
    by (auto simp: overlay_adjust_local_phandles_def tok_off_def delta_def)
  note fb = tree_room_final [OF o(2)]
  have nm: "first_match name ?frags = None" if "first_match name frags = None" for name using that by (simp add: first_match_moved)
  have no: "fdt_path_offset ov1 ''/__local_fixups__'' = Some (- FDT_ERR_NOTFOUND)" "fdt_path_offset ov1 ''/__fixups__'' = Some (- FDT_ERR_NOTFOUND)"
      "fdt_subnode_offset ov1 0 ''__symbols__'' = Some (- FDT_ERR_NOTFOUND)"
    using no_root_node(1) [OF fb nm [OF assms(5)]] no_root_node(1) [OF fb nm [OF assms(6)]] no_root_node(2) [OF fb nm [OF assms(7)]]
    by (simp_all add: strtok_all_def)
  have sy: "overlay_symbol_update ov1 b1 = Some (0, b1)" for b1 using no(3) by (simp add: overlay_symbol_update_def)
  have ap: "fdt_overlay_apply b ov = Option.bind (overlay_merge ov1 b) (\<lambda>(r, b1). if r \<noteq> 0 then overlay_fail r b1 ov1
      else Some (0, b1, fdt_set_magic (- 1) ov1))"
    using pb find_max_tok [OF tree_room_final [OF assms(1)]] o(1) no(1,2)
    by (simp add: fdt_overlay_apply_def overlay_update_local_references_def overlay_fixup_phandles_def delta_def)
      (simp only: sy Option.bind.bind_lunit prod.case simp_thms if_False)
  have "list_all path_fragment ?frags" using assms(4) path_fragment_moved by (auto simp: list_all_iff)
  from overlay_merge_tok [OF fb this assms(1)] show ?thesis
  proof (cases rule: outcomeE)
    case (ok b1 room1 t)
    then show ?thesis using ap tree_room_tokens(2) [OF ok(4)] unfolding delta_def [symmetric] Let_def by (auto simp: magic_set)
  qed (use ap in \<open>simp_all add: overlay_fail_def magic_set delta_def [symmetric]\<close>)
qed

text \<open>A tree with one node and an overlay that adds a property and a node to it.\<close>

definition demo_base :: dt where
  "demo_base = Dt [] [] [Dt ''soc'' [(''phandle'', be32 1)] []]"

definition demo_frags :: "dt list" where
  "demo_frags =
     [Dt ''fragment@0'' [(''target-path'', ''/soc'' @ [NUL])]
        [Dt ''__overlay__'' [(''status'', ''okay'' @ [NUL])] [Dt ''dev'' [(''phandle'', be32 1)] []]]]"

definition demo_base_blob :: blob where
  "demo_base_blob = fdt_final [(TBegin [], no_extra), (TBegin ''soc'', no_extra), (TProp ''phandle'' (be32 1), no_extra), (TEnd, no_extra), (TEnd, no_extra)]
     (''phandle'' @ [NUL]) (replicate 200 NUL, [])"

definition demo_overlay_blob :: blob where
  "demo_overlay_blob =
     fdt_final [(TBegin [], no_extra), (TBegin ''fragment@0'', no_extra), (TProp ''target-path'' (''/soc'' @ [NUL]), no_extra), (TBegin ''__overlay__'', no_extra),
         (TProp ''status'' (''okay'' @ [NUL]), Extra 12 ''zz''), (TBegin ''dev'', no_extra), (TProp ''phandle'' (be32 1), Extra 19 []), (TEnd, no_extra), (TEnd, no_extra), (TEnd, no_extra), (TEnd, no_extra)]
       (''target-path'' @ NUL # ''status'' @ NUL # ''phandle'' @ [NUL]) ([], [])"

lemma names_ok_tok:
  "names_ok (p1 @ s @ NUL # p2) [(TProp s v, Extra (of_nat (length p1)) js)]" "names_ok strs [(TBegin n, k)]" "names_ok strs [(TEnd, k)]" "names_ok strs []"
  by (auto simp: names_ok_def)

lemma demo_blobs:
  "tree_room (toks demo_base) 200 demo_base_blob" "tree_room (toks (Dt [] [] demo_frags)) 0 demo_overlay_blob"
proof -
  show "tree_room (toks demo_base) 200 demo_base_blob" unfolding demo_base_blob_def
    by (rule tree_roomI [OF refl]; (subst names_ok_Cons)?)
      (use names_ok_tok(1) [of "[]" "''phandle''" "[]"] in \<open>simp_all add: demo_base_def node_def final_ok_def pad4_def names_ok_tok names_ok_Cons [of _ _ "_ # _"]\<close>)
  show "tree_room (toks (Dt [] [] demo_frags)) 0 demo_overlay_blob" unfolding demo_overlay_blob_def
    by (rule tree_roomI [OF refl]; (subst names_ok_Cons)?)
      (use names_ok_tok(1) [of "[]" "''target-path''" "''status'' @ NUL # ''phandle'' @ [NUL]"]
          names_ok_tok(1) [of "''target-path'' @ [NUL]" "''status''" "''phandle'' @ [NUL]"]
          names_ok_tok(1) [of "''target-path'' @ NUL # ''status'' @ [NUL]" "''phandle''" "[]"]
       in \<open>simp_all add: demo_frags_def node_def final_ok_def pad4_def names_ok_tok names_ok_Cons [of _ _ "_ # _"]\<close>)
qed

lemma demo_merge:
  "fold max (phandles demo_base) 0 = 1" "tree_fits 1 (Dt [] [] demo_frags)" "list_all path_fragment demo_frags"
  "merge_frags (map (move_tree 1) demo_frags) demo_base =
     Some (Dt [] [] [Dt ''soc'' [(''status'', ''okay'' @ [NUL]), (''phandle'', be32 1)] [Dt ''dev'' [(''phandle'', be32 2)] []]])"
  "sum_list (map frag_need (map (move_tree 1) demo_frags)) \<le> 200"
proof -
  show "fold max (phandles demo_base) 0 = 1" by (simp add: demo_base_def node_phandle_def cell_of_def)
  show "tree_fits 1 (Dt [] [] demo_frags)" by (simp add: demo_frags_def fits_def)
  show "list_all path_fragment demo_frags" by (simp add: demo_frags_def path_fragment_def name_matches_def)
  show "merge_frags (map (move_tree 1) demo_frags) demo_base =
     Some (Dt [] [] [Dt ''soc'' [(''status'', ''okay'' @ [NUL]), (''phandle'', be32 1)] [Dt ''dev'' [(''phandle'', be32 2)] []]])"
    by (simp add: demo_frags_def demo_base_def merge_frag_def name_matches_def frag_target_def move_props_def move_cell_def set_prop_def
        strtok_all_def set_props_def place_def)
  show "sum_list (map frag_need (map (move_tree 1) demo_frags)) \<le> 200"
    by (simp add: demo_frags_def frag_need_def name_matches_def move_props_def move_cell_def set_prop_def props_need_def tok_off_def node_def pad4_def)
qed

theorem overlay_applied_witness:
  "\<exists>b' ov'. fdt_overlay_apply demo_base_blob demo_overlay_blob = Some (0, b', ov') \<and> fdt_magic ov' = - 1 \<and>
     fdt_tokens b' = Some (toks (Dt [] [] [Dt ''soc'' [(''status'', ''okay'' @ [NUL]), (''phandle'', be32 1)] [Dt ''dev'' [(''phandle'', be32 2)] []]]))"
proof -
  have "first_match ''__local_fixups__'' demo_frags = None" "first_match ''__fixups__'' demo_frags = None"
      "first_match ''__symbols__'' demo_frags = None"
    by (simp_all add: demo_frags_def name_matches_def)
  from overlay_applied [OF demo_blobs _ demo_merge(3) this, unfolded demo_merge(1) demo_merge(4), OF demo_merge(2)]
  show ?thesis using demo_merge(5) by (auto simp: Let_def demo_merge(4) simp del: toks.simps)
qed

end
