(* ===== verification/Dom_Fdt.thy ===== *)
theory Dom_Fdt
  imports Fdt_Sw Xl_Parser Mem_Mgmt
begin

text \<open>
  The device tree of a domain, \<open>xen-dom-fdt.c\<close>: nodes for the processors, the memory, the interrupt
  controller, the timer and the hypervisor, generated from the configuration of the domain with the
  sequential writer of \<open>libfdt\<close>, followed by nodes copied from a partial device tree.  Results are
  \<open>None\<close> where the code reads or writes outside of a buffer, follows a null pointer, fails an
  assertion or does not return.
\<close>

section \<open>Configurations of domains\<close>

record xen_domain_iomem =
  first_gfn :: u64
  first_mfn :: u64
  nr_mfns :: u64

text \<open>\<open>struct xen_domain_cfg\<close>.  An array with its number of elements is a list; an optional pointer is
  \<open>None\<close> when it is null.  \<open>dtb\<close> are the bytes from \<open>dtb_start\<close> to \<open>dtb_end\<close>.  The callbacks take the
  size of the buffer and the offset and return their result and the contents of the buffer after the
  call.\<close>

record xen_domain_cfg =
  cfg_name :: "char list"
  cfg_domain_name :: "char list"
  machine_dt_compat :: "string list option"
  mem_kb :: u64
  cfg_flags :: u32
  max_vcpus :: u32
  max_evtchns :: u32
  gnt_frames :: int
  max_maptrack_frames :: int
  cfg_ssidref :: u32
  gic_version :: u8
  tee_type :: u16
  iomems :: "xen_domain_iomem list"
  irqs :: "u32 list"
  dtdevs :: "string list"
  dt_passthrough :: "string list option"
  cmdline :: "string option"
  seclabel :: "string option"
  dtb :: "char list option"
  load_image_bytes :: "(nat \<Rightarrow> u64 \<Rightarrow> int \<times> char list) option"
  get_image_size :: "(int \<times> u64) option"
  back_cfg :: backend_configuration
  f_paused :: bool

text \<open>\<open>struct xen_domctl_getdomaininfo\<close>, the fields that are used.\<close>

record xen_domctl_getdomaininfo =
  gi_domain :: u16
  gi_flags :: u32
  gi_tot_pages :: u64
  gi_max_pages :: u64
  gi_cpu_time :: u64
  gi_online_vcpus :: u32
  gi_max_vcpu_id :: u32
  gi_ssidref :: u32
  gi_gpaddr_bits :: u8

definition getdomaininfo_of :: "int list \<Rightarrow> xen_domctl_getdomaininfo" where
  "getdomaininfo_of os =
     \<lparr>gi_domain = of_int (os ! 0), gi_flags = of_int (os ! 1), gi_tot_pages = of_int (os ! 2), gi_max_pages = of_int (os ! 3),
      gi_cpu_time = of_int (os ! 4), gi_online_vcpus = of_int (os ! 5), gi_max_vcpu_id = of_int (os ! 6),
      gi_ssidref = of_int (os ! 7), gi_gpaddr_bits = of_int (os ! 8)\<rparr>"

text \<open>The hypercall, its result and the structure it fills.\<close>

definition domctl_getdomaininfo :: "int \<Rightarrow> 'a env_scheme \<Rightarrow> (int \<times> xen_domctl_getdomaininfo) \<times> 'a env_scheme" where
  "domctl_getdomaininfo d e =
     (let (rc, e1) = ext_call ''xen_domctl_getdomaininfo'' [d] e; (os, e2) = ext_out 9 e1
      in ((rc, getdomaininfo_of os), e2))"

section \<open>Sequences of calls\<close>

text \<open>\<open>res = f(fdt, ...); if (res) return res;\<close> again and again.\<close>

fun seq_ops :: "('s \<Rightarrow> (int \<times> 's) option) list \<Rightarrow> 's \<Rightarrow> (int \<times> 's) option" where
  "seq_ops [] s = Some (0, s)"
| "seq_ops (f # fs) s = do { (res, s1) \<leftarrow> f s; if res \<noteq> 0 then Some (res, s1) else seq_ops fs s1 }"

text \<open>\<open>rc = f(fdt, ...); if (rc < 0) goto err;\<close> again and again.\<close>

fun seq_neg :: "('s \<Rightarrow> (int \<times> 's) option) list \<Rightarrow> 's \<Rightarrow> (int \<times> 's) option" where
  "seq_neg [] s = Some (0, s)"
| "seq_neg (f # fs) s = do { (rc, s1) \<leftarrow> f s; if rc < 0 then Some (rc, s1) else seq_neg fs s1 }"

type_synonym fdt_op = "blob \<Rightarrow> (int \<times> blob) option"

section \<open>Values of properties\<close>

abbreviation (input) GUEST_GIC_PHANDLE :: u32 where "GUEST_GIC_PHANDLE \<equiv> 65000"
abbreviation (input) FDT_STRING_MAX :: nat where "FDT_STRING_MAX \<equiv> 128"
abbreviation (input) DT_IRQ_TYPE_LEVEL_LOW :: u32 where "DT_IRQ_TYPE_LEVEL_LOW \<equiv> 8"

definition hex_digit :: "nat \<Rightarrow> char" where
  "hex_digit n = char_of (if n < 10 then 48 + n else 87 + n)"

fun hex :: "nat \<Rightarrow> string" where
  "hex n = (if n < 16 then [hex_digit n] else hex (n div 16) @ [hex_digit (n mod 16)])"

declare hex.simps [simp del]

definition strings_bytes :: "string list \<Rightarrow> char list" where
  "strings_bytes ss = concat (map (\<lambda>s. s @ [NUL]) ss)"

definition fdt_property_compat :: "string list \<Rightarrow> fdt_op" where
  "fdt_property_compat compats b =
     (if FDT_STRING_MAX < length (strings_bytes compats) then Some (- ENOMEM, b)
      else fdt_property ''compatible'' (strings_bytes compats) b)"

definition set_cell :: "nat \<Rightarrow> u64 \<Rightarrow> char list" where
  "set_cell cells val = concat (map (\<lambda>i. be32 (ucast (drop_bit (32 * i) val))) (rev [0..<cells]))"

definition set_range :: "nat \<Rightarrow> nat \<Rightarrow> u64 \<times> u64 \<Rightarrow> char list" where
  "set_range address_cells size_cells r = set_cell address_cells (fst r) @ set_cell size_cells (snd r)"

definition fdt_property_regs :: "nat \<Rightarrow> nat \<Rightarrow> (u64 \<times> u64) list \<Rightarrow> fdt_op" where
  "fdt_property_regs addr_cells size_cells regs =
     fdt_property ''reg'' (concat (map (set_range addr_cells size_cells) regs))"

text \<open>An interrupt is three cells; software generated interrupts fail the assertion.\<close>

definition set_interrupt :: "u32 \<Rightarrow> u32 \<Rightarrow> u32 \<Rightarrow> char list option" where
  "set_interrupt irq cpumask level =
     (if irq < 16 then None
      else Some (be32 (if irq < 32 then 1 else 0) @ be32 (irq - (if irq < 32 then 16 else 32)) @
                 be32 (push_bit 8 cpumask OR level)))"

definition fdt_property_interrupts :: "char list list \<Rightarrow> fdt_op" where
  "fdt_property_interrupts intr =
     seq_ops [fdt_property ''interrupts'' (concat intr), fdt_property_cell ''interrupt-parent'' GUEST_GIC_PHANDLE]"

section \<open>Nodes\<close>

text \<open>The strings that fit into the buffer of 128 bytes, which starts with the first one.\<close>

fun compat_loop :: "string list \<Rightarrow> char list \<Rightarrow> char list option" where
  "compat_loop [] buf = Some buf"
| "compat_loop (c # cs) buf =
     (if FDT_STRING_MAX < length buf + length c + 1 then None else compat_loop cs (buf @ c @ [NUL]))"

definition version_string :: "string \<Rightarrow> int \<Rightarrow> int \<Rightarrow> string" where
  "version_string name major minor = snd (snprintf FDT_STRING_MAX (name @ fmt_d major @ ''.'' @ fmt_d minor))"

definition create_root :: "int \<Rightarrow> int \<Rightarrow> xen_domain_cfg \<Rightarrow> fdt_op" where
  "create_root major minor domcfg =
     (let compat = version_string ''xen,xenvm-'' major minor
      in seq_ops
           [fdt_property_string ''model'' (version_string ''XENVM-'' major minor),
            (\<lambda>b. case machine_dt_compat domcfg of
                   Some cs \<Rightarrow> (case compat_loop cs (compat @ [NUL]) of
                                 None \<Rightarrow> Some (- ENOMEM, b)
                               | Some buf \<Rightarrow> fdt_property ''compatible'' buf b)
                 | None \<Rightarrow> fdt_property_compat [compat, ''xen,xenvm''] b),
            fdt_property_cell ''interrupt-parent'' GUEST_GIC_PHANDLE,
            fdt_property_cell ''#address-cells'' 2,
            fdt_property_cell ''#size-cells'' 2])"

definition create_chosen :: "string option \<Rightarrow> fdt_op" where
  "create_chosen line =
     (case line of
        None \<Rightarrow> (\<lambda>b. Some (0, b))
      | Some s \<Rightarrow> seq_ops [fdt_begin_node ''chosen'', fdt_property_string ''bootargs'' s, fdt_end_node])"

definition get_mpdir :: "u32 \<Rightarrow> u64" where
  "get_mpdir cpuid = ucast ((cpuid AND 0x0f) OR push_bit 8 (drop_bit 4 cpuid AND 0xff))"

definition cpu_ops :: "nat \<Rightarrow> fdt_op list" where
  "cpu_ops i =
     (let mpidr = get_mpdir (of_nat i)
      in [fdt_begin_node (''cpu@'' @ hex (unat mpidr)),
          fdt_property_string ''device_type'' ''cpu'',
          fdt_property_compat [''arm,armv8''],
          fdt_property_string ''enable-method'' ''psci'',
          fdt_property_regs 1 0 [(mpidr, 0)],
          fdt_end_node])"

text \<open>\<open>nr_cpus\<close> is an \<open>int\<close>.\<close>

definition create_cpus :: "int \<Rightarrow> fdt_op" where
  "create_cpus nr_cpus =
     seq_ops ([fdt_begin_node ''cpus'', fdt_property_cell ''#address-cells'' 1, fdt_property_cell ''#size-cells'' 0] @
              concat (map cpu_ops [0..<nat nr_cpus]) @ [fdt_end_node])"

definition create_psci :: fdt_op where
  "create_psci =
     seq_ops [fdt_begin_node ''psci'', fdt_property_compat [''arm,psci-1.0'', ''arm,psci-0.2'', ''arm,psci''],
              fdt_property_string ''method'' ''hvc'', fdt_property_cell ''cpu_off'' 1, fdt_property_cell ''cpu_on'' 2,
              fdt_end_node]"

definition guest_banks :: "(u64 \<times> u64) list" where
  "guest_banks = [(0x40000000, 0xc0000000), (0x0200000000, 0xfe00000000)]"

text \<open>The loop over the banks: the memory put into each bank that gets some, and what is left.\<close>

fun bank_sizes :: "(u64 \<times> u64) list \<Rightarrow> u64 \<Rightarrow> (u64 \<times> u64) list \<times> u64" where
  "bank_sizes [] size_left = ([], size_left)"
| "bank_sizes ((base, bsize) # banks) size_left =
     (if size_left = 0 then ([], 0)
      else let bank_size = (if bsize < size_left then bsize else size_left);
               (rest, left) = bank_sizes banks (size_left - bank_size)
           in ((base, bank_size) # rest, left))"

definition memory_ops :: "u64 \<times> u64 \<Rightarrow> fdt_op list" where
  "memory_ops r =
     [fdt_begin_node (''memory@'' @ hex (unat (fst r))), fdt_property_string ''device_type'' ''memory'',
      fdt_property_regs 2 2 [r], fdt_end_node]"

definition create_memory :: "u64 \<Rightarrow> fdt_op" where
  "create_memory memsize =
     (let (regs, left) = bank_sizes guest_banks memsize
      in seq_ops (concat (map memory_ops regs) @ [(\<lambda>b. Some (if left \<noteq> 0 then - EINVAL else 0, b))]))"

definition gic_ops :: "u64 \<Rightarrow> string list \<Rightarrow> (u64 \<times> u64) list \<Rightarrow> fdt_op list" where
  "gic_ops gicd_base compats regs =
     [fdt_begin_node (''interrupt-controller@'' @ hex (unat gicd_base)),
      fdt_property_compat compats,
      fdt_property_cell ''#interrupt-cells'' 3,
      fdt_property_cell ''#address-cells'' 0,
      fdt_property ''interrupt-controller'' [],
      fdt_property_regs 2 2 regs,
      fdt_property_cell ''linux,phandle'' GUEST_GIC_PHANDLE,
      fdt_property_cell ''phandle'' GUEST_GIC_PHANDLE,
      fdt_end_node]"

definition create_gicv2 :: fdt_op where
  "create_gicv2 =
     seq_ops (gic_ops 0x03001000 [''arm,cortex-a15-gic'', ''arm,cortex-a9-gic'']
       [(0x03001000, 0x00001000), (0x03002000, 0x00002000)])"

definition create_gicv3 :: fdt_op where
  "create_gicv3 =
     seq_ops (gic_ops 0x03001000 [''arm,gic-v3''] [(0x03001000, 0x00010000), (0x03020000, 0x01000000)])"

definition create_timer :: "u32 \<Rightarrow> fdt_op" where
  "create_timer frequency b =
     do { i0 \<leftarrow> set_interrupt 29 0xf DT_IRQ_TYPE_LEVEL_LOW;
          i1 \<leftarrow> set_interrupt 30 0xf DT_IRQ_TYPE_LEVEL_LOW;
          i2 \<leftarrow> set_interrupt 27 0xf DT_IRQ_TYPE_LEVEL_LOW;
          seq_ops ([fdt_begin_node ''timer'', fdt_property_compat [''arm,armv8-timer''],
                    fdt_property_interrupts [i0, i1, i2]] @
                   (if frequency \<noteq> 0 then [fdt_property_u32 ''clock-frequency'' frequency] else []) @
                   [fdt_end_node]) b }"

section \<open>The node of the hypervisor\<close>

definition ALIGN_UP_TO_2MB :: "u64 \<Rightarrow> u64" where
  "ALIGN_UP_TO_2MB x = (x + 0x200000 - 1) AND NOT 0x1FFFFF"

text \<open>The rest of a bank behind its memory, within the address space of the guest: base and size, the
  size being 0 when nothing is left.\<close>

fun ext_regions :: "(u64 \<times> u64) list \<Rightarrow> u64 \<Rightarrow> u64 \<Rightarrow> (u64 \<times> u64) list" where
  "ext_regions [] last_addr size_left = []"
| "ext_regions ((base, bsize) # banks) last_addr size_left =
     (let mem_size = (if bsize < size_left then bsize else size_left);
          region_base = base + ALIGN_UP_TO_2MB mem_size;
          bankend = min last_addr (base + bsize - 1);
          region_size = (if region_base < bankend then bankend - region_base + 1 else 0)
      in (region_base, region_size) # ext_regions banks last_addr (size_left - mem_size))"

abbreviation (input) EXT_REGION_MIN_SIZE :: u64 where "EXT_REGION_MIN_SIZE \<equiv> 0x4000000"
abbreviation (input) GUEST_GNTTAB :: "u64 \<times> u64" where "GUEST_GNTTAB \<equiv> (0x38000000, 0x01000000)"

text \<open>The register ranges of the node, \<open>Inl\<close> the error.  A shift by 64 bits is undefined.\<close>

definition hypervisor_regs :: "u8 \<Rightarrow> xen_domain_cfg \<Rightarrow> (int + (u64 \<times> u64) list) option" where
  "hypervisor_regs gpaddr_bits domcfg =
     (if 64 < gpaddr_bits then Some (Inl (- EINVAL))
      else if gpaddr_bits = 0 then None
      else
        let last_addr = drop_bit (64 - unat gpaddr_bits) (- 1);
            rs = filter (\<lambda>r. EXT_REGION_MIN_SIZE \<le> snd r) (ext_regions guest_banks last_addr (mem_kb domcfg * 1024))
        in Some (if rs = [] then Inl (- ENOMEM) else Inr (GUEST_GNTTAB # rs)))"

text \<open>Operations that also call the hypervisor.\<close>

type_synonym 'a fdt_env_op = "blob \<times> 'a env_scheme \<Rightarrow> (int \<times> blob \<times> 'a env_scheme) option"

definition on_blob :: "fdt_op \<Rightarrow> 'a fdt_env_op" where
  "on_blob f s = do { (rc, b1) \<leftarrow> f (fst s); Some (rc, b1, snd s) }"

definition fill_hypervisor_regs :: "xen_domain_cfg \<Rightarrow> int \<Rightarrow> 'a fdt_env_op" where
  "fill_hypervisor_regs domcfg d s =
     (let ((rc, info), e1) = domctl_getdomaininfo d (snd s)
      in if rc \<noteq> 0 then Some (rc, fst s, e1)
         else do { r \<leftarrow> hypervisor_regs (gi_gpaddr_bits info) domcfg;
                   case r of
                     Inl err \<Rightarrow> Some (err, fst s, e1)
                   | Inr regs \<Rightarrow>
                       on_blob (fdt_property ''reg'' (concat (map (set_range 2 2) regs))) (fst s, e1) })"

definition create_hypervisor :: "int \<Rightarrow> int \<Rightarrow> xen_domain_cfg \<Rightarrow> int \<Rightarrow> 'a fdt_env_op" where
  "create_hypervisor major minor domcfg d s =
     do { intr \<leftarrow> set_interrupt 31 0xf DT_IRQ_TYPE_LEVEL_LOW;
          seq_ops [on_blob (fdt_begin_node ''hypervisor''),
                   on_blob (fdt_property_compat [version_string ''xen,xen-'' major minor, ''xen,xen'']),
                   fill_hypervisor_regs domcfg d,
                   on_blob (fdt_property_interrupts [intr]),
                   on_blob fdt_end_node] s }"

definition create_optee :: fdt_op where
  "create_optee =
     seq_ops [fdt_begin_node ''firmware'', fdt_begin_node ''optee'', fdt_property_compat [''linaro,optee-tz''],
              fdt_property_string ''method'' ''hvc'', fdt_end_node, fdt_end_node]"

section \<open>Copying from a partial device tree\<close>

text \<open>The header is read before anything is known of the size of the buffer.\<close>

definition check_fdt :: "blob \<Rightarrow> int option" where
  "check_fdt pfdt =
     (if length pfdt < 4 then None
      else if fdt_magic pfdt \<noteq> FDT_MAGIC then Some (- EINVAL)
      else if length pfdt < (if fdt_version pfdt < 17 then 36 else 40) then None
      else if fdt_check_header pfdt \<noteq> 0 then Some (- EINVAL)
      else if length pfdt < unat (fdt_totalsize pfdt) then Some (- EINVAL)
      else Some 0)"

text \<open>The loop over the properties, at \<open>propoff\<close>.  The name of a property may be a null pointer; the
  value is read to its length without a look at the size of the buffer.\<close>

partial_function (option) copy_props_loop :: "blob \<Rightarrow> int \<Rightarrow> blob \<Rightarrow> (int \<times> blob) option" where
  "copy_props_loop pfdt propoff b =
     (if propoff < 0 then Some (if propoff \<noteq> - FDT_ERR_NOTFOUND then propoff else 0, b)
      else
        Option.bind (fdt_get_property_by_offset pfdt propoff) (\<lambda>r.
          case r of
            Inl _ \<Rightarrow> Some (- FDT_ERR_INTERNAL, b)
          | Inr pr \<Rightarrow>
              Option.bind (fdt_string pfdt (sint (prop_nameoff pr))) (\<lambda>name.
                case name of
                  None \<Rightarrow> None
                | Some nm \<Rightarrow>
                    if length pfdt < prop_data pr + unat (prop_len pr) then None
                    else
                      Option.bind (fdt_property nm (take (unat (prop_len pr)) (drop (prop_data pr) pfdt)) b) (\<lambda>(rc, b1).
                        if rc \<noteq> 0 then Some (rc, b1)
                        else Option.bind (fdt_next_property_offset pfdt propoff) (\<lambda>off. copy_props_loop pfdt off b1)))))"

definition copy_properties :: "blob \<Rightarrow> int \<Rightarrow> blob \<Rightarrow> (int \<times> blob) option" where
  "copy_properties pfdt nodeoff b =
     do { off \<leftarrow> fdt_first_property_offset pfdt nodeoff; copy_props_loop pfdt off b }"

text \<open>\<open>Inl n\<close> copies node \<open>n\<close>; \<open>Inr n\<close> is the loop over the subnodes, at \<open>n\<close>, and the end of the
  node.\<close>

partial_function (option) copy_walk :: "blob \<Rightarrow> int + int \<Rightarrow> blob \<Rightarrow> (int \<times> blob) option" where
  "copy_walk pfdt at b =
     (case at of
        Inl nodeoff \<Rightarrow>
          Option.bind (fdt_get_name pfdt nodeoff) (\<lambda>name.
            case name of
              Inl _ \<Rightarrow> None
            | Inr nm \<Rightarrow>
                Option.bind (fdt_begin_node nm b) (\<lambda>(r, b1).
                  if r \<noteq> 0 then Some (r, b1)
                  else
                    Option.bind (copy_properties pfdt nodeoff b1) (\<lambda>(r2, b2).
                      if r2 \<noteq> 0 then Some (r2, b2)
                      else Option.bind (fdt_first_subnode pfdt nodeoff) (\<lambda>off. copy_walk pfdt (Inr off) b2))))
      | Inr off \<Rightarrow>
          if 0 \<le> off
          then Option.bind (copy_walk pfdt (Inl off) b) (\<lambda>(r, b1).
                 if r \<noteq> 0 then Some (r, b1)
                 else Option.bind (fdt_next_subnode pfdt off) (\<lambda>off'. copy_walk pfdt (Inr off') b1))
          else if off \<noteq> - FDT_ERR_NOTFOUND then Some (off, b) else fdt_end_node b)"

definition copy_node :: "blob \<Rightarrow> int \<Rightarrow> blob \<Rightarrow> (int \<times> blob) option" where
  "copy_node pfdt nodeoff b = copy_walk pfdt (Inl nodeoff) b"

definition copy_node_by_path :: "string \<Rightarrow> blob \<Rightarrow> blob \<Rightarrow> (int \<times> blob) option" where
  "copy_node_by_path path pfdt b =
     (case strrchr_slash path of
        None \<Rightarrow> Some (- FDT_ERR_INTERNAL, b)
      | Some name \<Rightarrow>
          do { nodeoff \<leftarrow> fdt_path_offset pfdt path;
               if nodeoff < 0 then Some (nodeoff, b)
               else
                 do { r \<leftarrow> fdt_get_name pfdt nodeoff;
                      case r of
                        Inl _ \<Rightarrow> None
                      | Inr nm \<Rightarrow> if nm \<noteq> name then Some (- FDT_ERR_NOTFOUND, b) else copy_node pfdt nodeoff b } })"

text \<open>A node that is not found is no error.\<close>

fun copy_paths :: "string list \<Rightarrow> blob \<Rightarrow> blob \<Rightarrow> (int \<times> blob) option" where
  "copy_paths [] pfdt b = Some (0, b)"
| "copy_paths (p # ps) pfdt b =
     do { (r, b1) \<leftarrow> copy_node_by_path p pfdt b;
          if r < 0 \<and> r \<noteq> - FDT_ERR_NOTFOUND then Some (r, b1) else copy_paths ps pfdt b1 }"

definition copy_pfdt :: "blob \<Rightarrow> fdt_op" where
  "copy_pfdt pfdt = copy_paths [''/passthrough'', ''/aliases''] pfdt"

definition copy_dt_passthrough :: "blob \<Rightarrow> string list \<Rightarrow> fdt_op" where
  "copy_dt_passthrough pfdt paths = copy_paths paths pfdt"

section \<open>The whole tree\<close>

definition fdt_to_errno :: "int \<Rightarrow> int" where
  "fdt_to_errno rc = (if rc = - FDT_ERR_NOSPACE then - ENOMEM else - EINVAL)"

text \<open>The steps from \<open>fdt_create\<close> to \<open>fdt_finish\<close>; the buffer has \<open>fdt_size\<close> bytes.\<close>

definition fdt_steps :: "nat \<Rightarrow> int \<Rightarrow> int \<Rightarrow> xen_domain_cfg \<Rightarrow> blob option \<Rightarrow> int \<Rightarrow> 'a fdt_env_op list" where
  "fdt_steps fdt_size major minor domcfg pfdt d =
     [on_blob (\<lambda>b. fdt_create b (int fdt_size)),
      on_blob fdt_finish_reservemap,
      on_blob (fdt_begin_node []),
      on_blob (create_root major minor domcfg),
      on_blob (create_chosen (cmdline domcfg)),
      on_blob (create_cpus (sint (max_vcpus domcfg))),
      on_blob create_psci,
      on_blob (create_memory (mem_kb domcfg * 1024)),
      on_blob (if gic_version domcfg = 1 then create_gicv2
               else if gic_version domcfg = 2 then create_gicv3
               else (\<lambda>b. Some (- FDT_ERR_BADVALUE, b))),
      on_blob (create_timer 0),
      create_hypervisor major minor domcfg d] @
     (if tee_type domcfg = 1 then [on_blob create_optee] else []) @
     (case pfdt of
        None \<Rightarrow> []
      | Some p \<Rightarrow> on_blob (copy_pfdt p) #
                  (case dt_passthrough domcfg of
                     Some paths \<Rightarrow> if paths \<noteq> [] then [on_blob (copy_dt_passthrough p paths)] else []
                   | None \<Rightarrow> [])) @
     [on_blob fdt_end_node, on_blob fdt_finish]"

text \<open>\<open>libfdt\<close> tells whether \<open>CONFIG_XEN_LIBFDT\<close> is set, \<open>fdt_size\<close> is
  \<open>CONFIG_PARTIAL_DEVICE_TREE_SIZE\<close>.  The result is the error code and, on success, the address of the
  tree (\<open>None\<close> for the tree of the caller) and the bytes from there.  An unknown version of the
  interrupt controller sets a positive code, which \<open>fdt_to_errno\<close> turns into the same error as the
  negative one here.\<close>

definition gen_domain_fdt ::
  "bool \<Rightarrow> nat \<Rightarrow> xen_domain_cfg \<Rightarrow> int \<Rightarrow> int \<Rightarrow> blob option \<Rightarrow> int \<Rightarrow> 'a env_scheme \<Rightarrow>
     ((int \<times> (u64 option \<times> blob) option) \<times> 'a env_scheme) option" where
  "gen_domain_fdt libfdt fdt_size domcfg major minor pfdt d e =
     (if \<not> libfdt then Some ((0, map_option (Pair None) pfdt), e)
      else
        do { ok \<leftarrow> (case pfdt of None \<Rightarrow> Some 0 | Some p \<Rightarrow> check_fdt p);
             if ok \<noteq> 0 then Some ((- EINVAL, None), e)
             else
               let (r, e1) = ext_call ''k_aligned_alloc'' [4096, int fdt_size] e
               in case ptr_result r of
                    None \<Rightarrow> Some ((- ENOMEM, None), e1)
                  | Some fdt \<Rightarrow>
                      do { (rc, b, e2) \<leftarrow> seq_neg (fdt_steps fdt_size major minor domcfg pfdt d)
                                              (replicate fdt_size NUL, e1);
                           if rc < 0 then Some ((fdt_to_errno rc, None), snd (ext_call ''k_free'' [uint fdt] e2))
                           else Some ((0, Some (Some fdt, b)), e2) } })"

definition free_domain_fdt :: "u64 option \<Rightarrow> 'a env_scheme \<Rightarrow> 'a env_scheme" where
  "free_domain_fdt fdt e = (case fdt of None \<Rightarrow> e | Some a \<Rightarrow> snd (ext_call ''k_free'' [uint a] e))"

declare copy_props_loop.simps [code] copy_walk.simps [code]

end
