(* ===== verification/Dom_Fdt_Props.thy ===== *)
theory Dom_Fdt_Props
  imports Dom_Fdt Fdt_Query_Props Dom_Xs_Props
begin

text \<open>
  The device tree of a domain as a list of tokens, and that \<open>gen_domain_fdt\<close> writes exactly this tree
  or reports the lack of space; the memory and the extended regions the tree describes.
\<close>

section \<open>Sequences of calls write sequences of tokens\<close>

lemma run_toks_append:
  "run_toks (ts @ us) b = do { (r, b1) \<leftarrow> run_toks ts b; if r \<noteq> 0 then Some (r, b1) else run_toks us b1 }"
  by (induction ts arbitrary: b) (auto split: Option.bind_splits)

lemma run_toks_single: "run_toks [t] b = tok_op t b"
  by (auto split: Option.bind_splits)

lemma seq_ops_toks: "list_all2 (\<lambda>f t. f = run_toks t) fs tss \<Longrightarrow> seq_ops fs = run_toks (concat tss)"
proof (induction rule: list_all2_induct)
  case (Cons f fs t tss)
  have "seq_ops (f # fs) b = run_toks (concat (t # tss)) b" for b
    using Cons by (auto simp: run_toks_append split: Option.bind_splits)
  then show ?case by (rule ext)
qed (rule ext, simp)

named_theorems writes "operations that write a list of tokens"

lemma begin_toks [writes]: "fdt_begin_node s = run_toks [TBegin s]"
  by (rule ext) (simp only: run_toks_single tok_op.simps)

lemma end_toks [writes]: "fdt_end_node = run_toks [TEnd]"
  by (rule ext) (simp only: run_toks_single tok_op.simps)

lemma property_toks [writes]: "fdt_property s v = run_toks [TProp s v]"
  by (rule ext) (simp only: run_toks_single tok_op.simps)

lemma cell_toks [writes]: "fdt_property_cell s v = run_toks [TProp s (be32 v)]"
  by (rule ext) (simp add: fdt_property_cell_def fdt_property_u32_def property_toks del: run_toks.simps)

lemma string_toks [writes]: "fdt_property_string s v = run_toks [TProp s (v @ [NUL])]"
  by (rule ext) (simp add: fdt_property_string_def property_toks del: run_toks.simps)

lemma compat_toks:
  "length (strings_bytes cs) \<le> 128 \<Longrightarrow> fdt_property_compat cs = run_toks [TProp ''compatible'' (strings_bytes cs)]"
  by (rule ext) (simp add: fdt_property_compat_def property_toks del: run_toks.simps)

lemma regs_toks [writes]: "fdt_property_regs a s rs = run_toks [TProp ''reg'' (concat (map (set_range a s) rs))]"
  by (rule ext) (simp add: fdt_property_regs_def property_toks del: run_toks.simps)

lemma interrupts_toks [writes]:
  "fdt_property_interrupts is = run_toks [TProp ''interrupts'' (concat is), TProp ''interrupt-parent'' (be32 GUEST_GIC_PHANDLE)]"
proof -
  have "fdt_property_interrupts is = run_toks (concat [[TProp ''interrupts'' (concat is)], [TProp ''interrupt-parent'' (be32 GUEST_GIC_PHANDLE)]])"
    unfolding fdt_property_interrupts_def by (rule seq_ops_toks) (simp add: writes del: run_toks.simps)
  then show ?thesis by simp
qed

section \<open>The tree of a domain\<close>

definition str :: "string \<Rightarrow> char list" where
  "str s = s @ [NUL]"

definition reg_value :: "(u64 \<times> u64) list \<Rightarrow> char list" where
  "reg_value rs = concat (map (set_range 2 2) rs)"

definition root_props :: "int \<Rightarrow> int \<Rightarrow> xen_domain_cfg \<Rightarrow> (string \<times> char list) list" where
  "root_props major minor c =
     [(''model'', str (version_string ''XENVM-'' major minor)),
      (''compatible'', strings_bytes (version_string ''xen,xenvm-'' major minor #
         (case machine_dt_compat c of Some cs \<Rightarrow> cs | None \<Rightarrow> [''xen,xenvm'']))),
      (''interrupt-parent'', be32 GUEST_GIC_PHANDLE), (''#address-cells'', be32 2), (''#size-cells'', be32 2)]"

definition chosen_node :: "string option \<Rightarrow> fdt_tok list" where
  "chosen_node line = (case line of None \<Rightarrow> [] | Some s \<Rightarrow> node ''chosen'' [(''bootargs'', str s)] [])"

definition cpu_node :: "nat \<Rightarrow> fdt_tok list" where
  "cpu_node i =
     node (''cpu@'' @ hex (unat (get_mpdir (of_nat i))))
       [(''device_type'', str ''cpu''), (''compatible'', str ''arm,armv8''), (''enable-method'', str ''psci''),
        (''reg'', be32 (ucast (get_mpdir (of_nat i))))] []"

definition cpus_node :: "nat \<Rightarrow> fdt_tok list" where
  "cpus_node n = node ''cpus'' [(''#address-cells'', be32 1), (''#size-cells'', be32 0)] (concat (map cpu_node [0..<n]))"

definition psci_node :: "fdt_tok list" where
  "psci_node =
     node ''psci'' [(''compatible'', strings_bytes [''arm,psci-1.0'', ''arm,psci-0.2'', ''arm,psci'']),
       (''method'', str ''hvc''), (''cpu_off'', be32 1), (''cpu_on'', be32 2)] []"

definition memory_node :: "u64 \<times> u64 \<Rightarrow> fdt_tok list" where
  "memory_node r = node (''memory@'' @ hex (unat (fst r))) [(''device_type'', str ''memory''), (''reg'', reg_value [r])] []"

definition gic_node :: "string list \<Rightarrow> (u64 \<times> u64) list \<Rightarrow> fdt_tok list" where
  "gic_node compats regs =
     node (''interrupt-controller@'' @ hex 0x03001000)
       [(''compatible'', strings_bytes compats), (''#interrupt-cells'', be32 3), (''#address-cells'', be32 0),
        (''interrupt-controller'', []), (''reg'', reg_value regs),
        (''linux,phandle'', be32 GUEST_GIC_PHANDLE), (''phandle'', be32 GUEST_GIC_PHANDLE)] []"

definition gic_of :: "u8 \<Rightarrow> fdt_tok list" where
  "gic_of v =
     (if v = 1 then gic_node [''arm,cortex-a15-gic'', ''arm,cortex-a9-gic''] [(0x03001000, 0x00001000), (0x03002000, 0x00002000)]
      else gic_node [''arm,gic-v3''] [(0x03001000, 0x00010000), (0x03020000, 0x01000000)])"

definition ppi :: "u32 \<Rightarrow> char list" where
  "ppi i = be32 1 @ be32 (i - 16) @ be32 0xf08"

definition timer_node :: "fdt_tok list" where
  "timer_node =
     node ''timer'' [(''compatible'', str ''arm,armv8-timer''), (''interrupts'', ppi 29 @ ppi 30 @ ppi 27),
       (''interrupt-parent'', be32 GUEST_GIC_PHANDLE)] []"

definition hypervisor_node :: "int \<Rightarrow> int \<Rightarrow> (u64 \<times> u64) list \<Rightarrow> fdt_tok list" where
  "hypervisor_node major minor regs =
     node ''hypervisor'' [(''compatible'', strings_bytes [version_string ''xen,xen-'' major minor, ''xen,xen'']),
       (''reg'', reg_value regs), (''interrupts'', ppi 31), (''interrupt-parent'', be32 GUEST_GIC_PHANDLE)] []"

definition optee_node :: "fdt_tok list" where
  "optee_node =
     node ''firmware'' [] (node ''optee'' [(''compatible'', str ''linaro,optee-tz''), (''method'', str ''hvc'')] [])"

text \<open>The tree for a configuration when the hypervisor reports the register ranges \<open>regs\<close>.\<close>

definition domain_tree :: "int \<Rightarrow> int \<Rightarrow> xen_domain_cfg \<Rightarrow> (u64 \<times> u64) list \<Rightarrow> fdt_tok list" where
  "domain_tree major minor c regs =
     node [] (root_props major minor c)
       (chosen_node (cmdline c) @ cpus_node (nat (sint (max_vcpus c))) @ psci_node @
        concat (map memory_node (fst (bank_sizes guest_banks (mem_kb c * 1024)))) @
        gic_of (gic_version c) @ timer_node @ hypervisor_node major minor regs @
        (if tee_type c = 1 then optee_node else []))"

section \<open>The operations write their nodes\<close>

lemma strings_bytes_simps [simp]: "strings_bytes [] = []" "strings_bytes (s # ss) = s @ NUL # strings_bytes ss"
  by (simp_all add: strings_bytes_def)

lemma compat_loop_some:
  "length buf + length (strings_bytes cs) \<le> 128 \<Longrightarrow> compat_loop cs buf = Some (buf @ strings_bytes cs)"
  by (induction cs arbitrary: buf) simp_all

definition compat_fits :: "int \<Rightarrow> int \<Rightarrow> xen_domain_cfg \<Rightarrow> bool" where
  "compat_fits major minor c \<longleftrightarrow>
     length (strings_bytes (version_string ''xen,xenvm-'' major minor #
       (case machine_dt_compat c of Some cs \<Rightarrow> cs | None \<Rightarrow> [''xen,xenvm'']))) \<le> 128"

lemma root_toks:
  assumes "compat_fits major minor c"
  shows "create_root major minor c = run_toks (map (\<lambda>(p, v). TProp p v) (root_props major minor c))"
proof -
  let ?c = "version_string ''xen,xenvm-'' major minor"
  let ?v = "strings_bytes (?c # (case machine_dt_compat c of Some cs \<Rightarrow> cs | None \<Rightarrow> [''xen,xenvm'']))"
  have "(case machine_dt_compat c of
           Some cs \<Rightarrow> (case compat_loop cs (?c @ [NUL]) of None \<Rightarrow> Some (- ENOMEM, b) | Some buf \<Rightarrow> fdt_property ''compatible'' buf b)
         | None \<Rightarrow> fdt_property_compat [?c, ''xen,xenvm''] b) = run_toks [TProp ''compatible'' ?v] b" for b
    using assms compat_loop_some [of "?c @ [NUL]"]
    by (cases "machine_dt_compat c") (simp_all add: compat_fits_def compat_toks property_toks del: run_toks.simps)
  then have "create_root major minor c = run_toks (concat (map (\<lambda>(p, v). [TProp p v]) (root_props major minor c)))"
    unfolding create_root_def Let_def root_props_def
    by (intro seq_ops_toks) (simp add: writes str_def del: run_toks.simps strings_bytes_simps)
  then show ?thesis by (simp add: root_props_def del: run_toks.simps strings_bytes_simps)
qed

lemma chosen_toks: "create_chosen line = run_toks (chosen_node line)"
proof (cases line)
  case None
  then show ?thesis by (simp add: create_chosen_def chosen_node_def fun_eq_iff)
next
  case (Some s)
  have "create_chosen line = run_toks (concat [[TBegin ''chosen''], [TProp ''bootargs'' (str s)], [TEnd]])"
    unfolding create_chosen_def Some option.case by (rule seq_ops_toks) (simp add: writes str_def del: run_toks.simps)
  then show ?thesis by (simp add: chosen_node_def node_def Some del: run_toks.simps)
qed

lemma set_cell_1: "set_cell (Suc 0) v = be32 (ucast v)"
  by (simp add: set_cell_def)

lemma set_cell_0: "set_cell 0 v = []"
  by (simp add: set_cell_def)

lemma cpu_toks: "list_all2 (\<lambda>f t. f = run_toks t) (cpu_ops i) (map (\<lambda>t. [t]) (cpu_node i))"
  unfolding cpu_ops_def cpu_node_def node_def Let_def
  by (simp add: writes compat_toks str_def set_range_def set_cell_1 set_cell_0 del: run_toks.simps)

lemma list_all2_concat_map:
  "(\<And>x. list_all2 P (f x) (g x)) \<Longrightarrow> list_all2 P (concat (map f xs)) (concat (map g xs))"
  by (induction xs) (auto intro: list_all2_appendI)

lemma concat_singletons: "concat (map (\<lambda>t. [t]) ts) = ts"
  by (induction ts) simp_all

lemma concat_concat_singletons: "concat (concat (map (\<lambda>x. map (\<lambda>t. [t]) (f x)) xs)) = concat (map f xs)"
  by (induction xs) (simp_all add: concat_singletons)

lemma cpus_toks: "create_cpus n = run_toks (cpus_node (nat n))"
proof -
  have "create_cpus n = run_toks (concat ([[TBegin ''cpus''], [TProp ''#address-cells'' (be32 1)], [TProp ''#size-cells'' (be32 0)]] @
      concat (map (\<lambda>i. map (\<lambda>t. [t]) (cpu_node i)) [0..<nat n]) @ [[TEnd]]))"
    unfolding create_cpus_def
    by (intro seq_ops_toks list_all2_appendI list_all2_concat_map cpu_toks) (simp_all add: writes del: run_toks.simps)
  then show ?thesis by (simp add: cpus_node_def node_def concat_concat_singletons del: run_toks.simps)
qed

lemma psci_toks: "create_psci = run_toks psci_node"
proof -
  have "create_psci = run_toks (concat (map (\<lambda>t. [t]) psci_node))"
    unfolding create_psci_def psci_node_def node_def
    by (rule seq_ops_toks) (simp add: writes compat_toks str_def del: run_toks.simps)
  then show ?thesis by (simp only: concat_singletons)
qed

lemma memory_node_toks: "list_all2 (\<lambda>f t. f = run_toks t) (memory_ops r) (map (\<lambda>t. [t]) (memory_node r))"
  unfolding memory_ops_def memory_node_def node_def by (simp add: writes str_def reg_value_def del: run_toks.simps)

lemma memory_toks:
  assumes "snd (bank_sizes guest_banks m) = 0"
  shows "create_memory m = run_toks (concat (map memory_node (fst (bank_sizes guest_banks m))))"
proof -
  obtain regs where b: "bank_sizes guest_banks m = (regs, 0)" using assms by (cases "bank_sizes guest_banks m") simp
  have "seq_ops (concat (map memory_ops regs) @ [(\<lambda>b. Some (0, b))]) =
      run_toks (concat (concat (map (\<lambda>r. map (\<lambda>t. [t]) (memory_node r)) regs) @ [[]]))"
    by (intro seq_ops_toks list_all2_appendI list_all2_concat_map memory_node_toks) (simp add: fun_eq_iff)
  then show ?thesis by (simp add: create_memory_def b concat_concat_singletons)
qed

lemma gic_toks:
  assumes "length (strings_bytes compats) \<le> 128"
  shows "seq_ops (gic_ops 0x03001000 compats regs) = run_toks (gic_node compats regs)"
proof -
  have "seq_ops (gic_ops 0x03001000 compats regs) = run_toks (concat (map (\<lambda>t. [t]) (gic_node compats regs)))"
    unfolding gic_ops_def gic_node_def node_def
    by (rule seq_ops_toks) (simp add: writes compat_toks [OF assms] str_def reg_value_def del: run_toks.simps)
  then show ?thesis by (simp only: concat_singletons)
qed

lemma gic_of_toks: "create_gicv2 = run_toks (gic_of 1)" "v \<noteq> 1 \<Longrightarrow> create_gicv3 = run_toks (gic_of v)"
  by (simp_all add: create_gicv2_def create_gicv3_def gic_of_def gic_toks)

lemma ppi_bytes: "16 \<le> i \<Longrightarrow> i < 32 \<Longrightarrow> set_interrupt i 0xf DT_IRQ_TYPE_LEVEL_LOW = Some (ppi i)"
  by (auto simp: set_interrupt_def ppi_def)

lemma timer_toks: "create_timer 0 = run_toks timer_node"
proof -
  have "create_timer 0 = seq_ops [fdt_begin_node ''timer'', fdt_property_compat [''arm,armv8-timer''],
      fdt_property_interrupts [ppi 29, ppi 30, ppi 27], fdt_end_node]"
    by (rule ext) (simp add: create_timer_def ppi_bytes)
  also have "\<dots> = run_toks (concat [[TBegin ''timer''], [TProp ''compatible'' (str ''arm,armv8-timer'')],
      [TProp ''interrupts'' (ppi 29 @ ppi 30 @ ppi 27), TProp ''interrupt-parent'' (be32 GUEST_GIC_PHANDLE)], [TEnd]])"
    by (rule seq_ops_toks) (simp add: writes compat_toks str_def del: run_toks.simps)
  finally show ?thesis by (simp add: timer_node_def node_def del: run_toks.simps)
qed

lemma optee_toks: "create_optee = run_toks optee_node"
proof -
  have "create_optee = run_toks (concat (map (\<lambda>t. [t]) optee_node))"
    unfolding create_optee_def optee_node_def node_def
    by (rule seq_ops_toks) (simp add: writes compat_toks str_def del: run_toks.simps)
  then show ?thesis by (simp only: concat_singletons)
qed

section \<open>The steps of the generation\<close>

text \<open>The buffer of \<open>n\<close> bytes holds the tokens \<open>ts\<close> written so far.\<close>

definition wrote :: "nat \<Rightarrow> fdt_tok list \<Rightarrow> blob \<Rightarrow> bool" where
  "wrote n ts b \<longleftrightarrow>
     (\<exists>its strs. map fst its = ts \<and> b = sw_image n its strs \<and> sw_fits n its strs \<and> refs_ok strs its \<and>
        length (enc its) + length strs \<le> sum_list (map tok_space ts))"

lemma run_toks_wrote:
  assumes "wrote n ts b" "list_all tok_ok us"
  shows "\<exists>r b'. run_toks us b = Some (r, b') \<and>
    (r = 0 \<and> wrote n (ts @ us) b' \<or> r = - FDT_ERR_NOSPACE \<and> n < 64 + sum_list (map tok_space (ts @ us)))"
proof -
  obtain its strs where i: "map fst its = ts" "b = sw_image n its strs" "sw_fits n its strs" "refs_ok strs its"
    "length (enc its) + length strs \<le> sum_list (map tok_space ts)" using assms(1) unfolding wrote_def by blast
  from run_toks_sw [OF i(3,4) assms(2)] obtain r b' where r: "run_toks us b = Some (r, b')"
    "r = 0 \<and> (\<exists>ks strs'. length ks = length us \<and> b' = sw_image n (its @ zip us ks) strs' \<and> sw_fits n (its @ zip us ks) strs' \<and>
       refs_ok strs' (its @ zip us ks) \<and>
       length (enc (its @ zip us ks)) + length strs' \<le> length (enc its) + length strs + sum_list (map tok_space us)) \<or>
     r = - FDT_ERR_NOSPACE \<and> \<not> sw_room n its strs (sum_list (map tok_space us))" unfolding i(2) by blast
  show ?thesis using r(2)
  proof (elim disjE exE conjE)
    fix ks strs'
    assume a: "r = 0" "length ks = length us" "b' = sw_image n (its @ zip us ks) strs'" "sw_fits n (its @ zip us ks) strs'"
      "refs_ok strs' (its @ zip us ks)"
      "length (enc (its @ zip us ks)) + length strs' \<le> length (enc its) + length strs + sum_list (map tok_space us)"
    have "map fst (its @ zip us ks) = ts @ us" using i(1) a(2) by (simp add: map_fst_zip)
    moreover have "length (enc (its @ zip us ks)) + length strs' \<le> sum_list (map tok_space (ts @ us))"
      using a(6) i(5) by simp
    ultimately have "wrote n (ts @ us) b'" using a(3-5) unfolding wrote_def by blast
    then show ?thesis using r(1) a(1) by blast
  next
    assume "r = - FDT_ERR_NOSPACE" "\<not> sw_room n its strs (sum_list (map tok_space us))"
    then show ?thesis using r(1) i(5) by (auto simp: sw_room_def)
  qed
qed

text \<open>A step, or a list of them, writes the tokens \<open>us\<close> and takes the environment from \<open>e\<close> to \<open>e'\<close>, or
  fails since the buffer cannot hold all tokens.\<close>

definition adds :: "nat \<Rightarrow> 'a fdt_env_op \<Rightarrow> fdt_tok list \<Rightarrow> 'a env_scheme \<Rightarrow> 'a env_scheme \<Rightarrow> bool" where
  "adds n f us e e' \<longleftrightarrow>
     (\<forall>ts b. wrote n ts b \<longrightarrow>
        (\<exists>r b1 e1. f (b, e) = Some (r, b1, e1) \<and>
           (r = 0 \<and> wrote n (ts @ us) b1 \<and> e1 = e' \<or>
            r = - FDT_ERR_NOSPACE \<and> n < 64 + sum_list (map tok_space (ts @ us)))))"

lemma adds_blob: "list_all tok_ok us \<Longrightarrow> f = run_toks us \<Longrightarrow> adds n (on_blob f) us e e"
  unfolding adds_def
proof (intro allI impI)
  fix ts b
  assume a: "list_all tok_ok us" "f = run_toks us" "wrote n ts b"
  from run_toks_wrote [OF a(3,1)] show "\<exists>r b1 e1. on_blob f (b, e) = Some (r, b1, e1) \<and>
           (r = 0 \<and> wrote n (ts @ us) b1 \<and> e1 = e \<or>
            r = - FDT_ERR_NOSPACE \<and> n < 64 + sum_list (map tok_space (ts @ us)))"
    by (auto simp: on_blob_def a(2))
qed

lemma adds_Nil: "adds n (seq_neg []) [] e e" "adds n (seq_ops []) [] e e"
  by (simp_all add: adds_def)

lemma adds_Cons:
  assumes "adds n f us e e1" "adds n (seq_neg fs) vs e1 e2"
  shows "adds n (seq_neg (f # fs)) (us @ vs) e e2"
  unfolding adds_def
proof (intro allI impI)
  fix ts b
  assume w: "wrote n ts b"
  obtain r b1 e' where f: "f (b, e) = Some (r, b1, e')"
    "r = 0 \<and> wrote n (ts @ us) b1 \<and> e' = e1 \<or> r = - FDT_ERR_NOSPACE \<and> n < 64 + sum_list (map tok_space (ts @ us))"
    using assms(1) w unfolding adds_def by blast
  show "\<exists>r b1 e1. seq_neg (f # fs) (b, e) = Some (r, b1, e1) \<and>
           (r = 0 \<and> wrote n (ts @ us @ vs) b1 \<and> e1 = e2 \<or>
            r = - FDT_ERR_NOSPACE \<and> n < 64 + sum_list (map tok_space (ts @ us @ vs)))"
    using f(2)
  proof (elim disjE conjE)
    assume a: "r = 0" "wrote n (ts @ us) b1" "e' = e1"
    then show ?thesis using assms(2) f(1) unfolding adds_def by (simp del: map_append) (metis append.assoc)
  qed (use f(1) in simp)
qed

lemma adds_Cons_ops:
  assumes "adds n f us e e1" "adds n (seq_ops fs) vs e1 e2"
  shows "adds n (seq_ops (f # fs)) (us @ vs) e e2"
  unfolding adds_def
proof (intro allI impI)
  fix ts b
  assume w: "wrote n ts b"
  obtain r b1 e' where f: "f (b, e) = Some (r, b1, e')"
    "r = 0 \<and> wrote n (ts @ us) b1 \<and> e' = e1 \<or> r = - FDT_ERR_NOSPACE \<and> n < 64 + sum_list (map tok_space (ts @ us))"
    using assms(1) w unfolding adds_def by blast
  show "\<exists>r b1 e1. seq_ops (f # fs) (b, e) = Some (r, b1, e1) \<and>
           (r = 0 \<and> wrote n (ts @ us @ vs) b1 \<and> e1 = e2 \<or>
            r = - FDT_ERR_NOSPACE \<and> n < 64 + sum_list (map tok_space (ts @ us @ vs)))"
    using f(2)
  proof (elim disjE conjE)
    assume a: "r = 0" "wrote n (ts @ us) b1" "e' = e1"
    then show ?thesis using assms(2) f(1) unfolding adds_def by (simp del: map_append) (metis append.assoc)
  qed (use f(1) in simp)
qed

lemma hypervisor_adds:
  assumes "domctl_getdomaininfo d e = ((0, info), e')" "hypervisor_regs (gi_gpaddr_bits info) c = Some (Inr regs)"
    "length (strings_bytes [version_string ''xen,xen-'' major minor, ''xen,xen'']) \<le> 128"
    "list_all tok_ok (hypervisor_node major minor regs)"
  shows "adds n (create_hypervisor major minor c d) (hypervisor_node major minor regs) e e'"
proof -
  let ?v = "version_string ''xen,xen-'' major minor"
  have reg: "adds n (fill_hypervisor_regs c d) [TProp ''reg'' (reg_value regs)] e e'"
  proof -
    have "fill_hypervisor_regs c d (b, e) = on_blob (run_toks [TProp ''reg'' (reg_value regs)]) (b, e')" for b
      using assms(1,2) by (simp add: fill_hypervisor_regs_def property_toks reg_value_def del: run_toks.simps)
    moreover have "adds n (on_blob (run_toks [TProp ''reg'' (reg_value regs)])) [TProp ''reg'' (reg_value regs)] e' e'"
      by (rule adds_blob) (use assms(4) in \<open>simp_all add: hypervisor_node_def node_def\<close>)
    ultimately show ?thesis unfolding adds_def by simp
  qed
  have c: "create_hypervisor major minor c d =
      seq_ops [on_blob (fdt_begin_node ''hypervisor''), on_blob (fdt_property_compat [?v, ''xen,xen'']),
               fill_hypervisor_regs c d, on_blob (fdt_property_interrupts [ppi 31]), on_blob fdt_end_node]"
    by (rule ext) (simp add: create_hypervisor_def ppi_bytes)
  have ok: "list_all tok_ok [TBegin ''hypervisor'']" "list_all tok_ok [TProp ''compatible'' (strings_bytes [?v, ''xen,xen''])]"
    "list_all tok_ok [TProp ''interrupts'' (concat [ppi 31]), TProp ''interrupt-parent'' (be32 GUEST_GIC_PHANDLE)]" "list_all tok_ok [TEnd]"
    using assms(4) by (simp_all add: hypervisor_node_def node_def)
  have "adds n (create_hypervisor major minor c d) ([TBegin ''hypervisor''] @ [TProp ''compatible'' (strings_bytes [?v, ''xen,xen''])] @
      [TProp ''reg'' (reg_value regs)] @ [TProp ''interrupts'' (concat [ppi 31]), TProp ''interrupt-parent'' (be32 GUEST_GIC_PHANDLE)] @
      [TEnd] @ []) e e'"
    unfolding c begin_toks end_toks interrupts_toks compat_toks [OF assms(3)]
    by (rule adds_Cons_ops [OF adds_blob [OF ok(1) refl] adds_Cons_ops [OF adds_blob [OF ok(2) refl]
          adds_Cons_ops [OF reg adds_Cons_ops [OF adds_blob [OF ok(3) refl] adds_Cons_ops [OF adds_blob [OF ok(4) refl] adds_Nil(2)]]]]])
  then show ?thesis by (simp add: hypervisor_node_def node_def)
qed

section \<open>The names and the values fit\<close>

lemma hex_digit_NUL: "n < 16 \<Longrightarrow> hex_digit n \<noteq> NUL"
proof -
  assume "n < 16"
  then have "of_char (hex_digit n) \<noteq> (0 :: nat)" by (simp add: hex_digit_def of_char_of)
  then show ?thesis by auto
qed

lemma hex_no_NUL: "NUL \<notin> set (hex n)"
  by (induction n rule: hex.induct) (subst hex.simps, use hex_digit_NUL in \<open>auto simp: eq_commute [of NUL]\<close>)

lemma length_hex: "n < 16 ^ k \<Longrightarrow> 0 < k \<Longrightarrow> length (hex n) \<le> k"
proof (induction k arbitrary: n)
  case (Suc k)
  show ?case
  proof (cases "n < 16")
    case False
    then have "0 < k" using Suc.prems(1) by (cases k) auto
    moreover have "n div 16 < 16 ^ k" using Suc.prems(1) by (simp add: div_less_iff_less_mult mult.commute)
    ultimately show ?thesis using Suc.IH False by (subst hex.simps) simp
  qed (subst hex.simps, simp)
qed simp

lemma length_hex64: "length (hex (unat (w :: u64))) \<le> 16"
  by (rule length_hex) (use unsigned_less [of w, where ?'a = nat] in simp_all)

lemma tok_ok_node:
  assumes "NUL \<notin> set name" "length name \<le> 100" "list_all (\<lambda>(p, v). NUL \<notin> set p \<and> length p \<le> 63 \<and> length v < 2 ^ 31) props"
    "list_all tok_ok children"
  shows "list_all tok_ok (node name props children)"
  using assms by (auto simp: node_def list_all_iff)

lemma length_version: "length (version_string name major minor) \<le> 127"
  by (simp add: version_string_def snprintf_def)

lemma length_version_digits:
  assumes "0 \<le> major" "major < 65536" "0 \<le> minor" "minor < 65536"
  shows "length (version_string name major minor) \<le> length name + 13"
  using length_fmt_d [of 5 major] length_fmt_d [of 5 minor] assms by (simp add: version_string_def snprintf_def)

lemma length_set_range: "length (set_range 2 2 r) = 16"
  by (simp add: set_range_def set_cell_def upt_rec numeral_2_eq_2)

lemma length_reg_value: "length (reg_value rs) = 16 * length rs"
  by (induction rs) (simp_all add: reg_value_def length_set_range)

lemma length_ext_regions: "length (ext_regions bs l m) = length bs"
  by (induction bs arbitrary: m) (auto simp: Let_def)

lemma length_hypervisor_regs: "hypervisor_regs g c = Some (Inr regs) \<Longrightarrow> length regs \<le> 3"
proof -
  let ?rs = "filter (\<lambda>r. EXT_REGION_MIN_SIZE \<le> snd r) (ext_regions guest_banks (drop_bit (64 - unat g) (- 1)) (mem_kb c * 1024))"
  assume "hypervisor_regs g c = Some (Inr regs)"
  then have "regs = GUEST_GNTTAB # ?rs" unfolding hypervisor_regs_def Let_def by (simp split: if_split_asm)
  moreover have "length ?rs \<le> length guest_banks" by (rule order_trans [OF length_filter_le]) (simp only: length_ext_regions order_refl)
  ultimately have "length regs \<le> Suc (length guest_banks)" by (simp del: ext_regions.simps)
  then show ?thesis by (simp add: guest_banks_def)
qed

lemma root_props_ok:
  assumes "compat_fits major minor c"
  shows "list_all (\<lambda>(p, v). NUL \<notin> set p \<and> length p \<le> 63 \<and> length v < 2 ^ 31) (root_props major minor c)"
  using assms length_version [of "''XENVM-''" major minor]
  by (simp add: root_props_def str_def compat_fits_def del: strings_bytes_simps)

lemma nodes_ok:
  "list_all tok_ok (cpus_node n)" "list_all tok_ok psci_node" "list_all tok_ok (memory_node r)" "list_all tok_ok (gic_of v)"
  "list_all tok_ok timer_node" "list_all tok_ok optee_node"
  "list_all tok_ok (concat (map memory_node rs))"
proof -
  have cpu: "list_all tok_ok (cpu_node i)" for i
    unfolding cpu_node_def
    by (rule tok_ok_node) (use hex_no_NUL length_hex64 [of "get_mpdir (of_nat i)"] in \<open>simp_all add: str_def\<close>)
  then have "list_all tok_ok (concat (map cpu_node xs))" for xs by (induction xs) simp_all
  then show "list_all tok_ok (cpus_node n)" unfolding cpus_node_def by (intro tok_ok_node) simp_all
  show "list_all tok_ok psci_node" unfolding psci_node_def by (rule tok_ok_node) (simp_all add: str_def)
  have mem: "list_all tok_ok (memory_node r)" for r
    unfolding memory_node_def
    by (rule tok_ok_node) (use hex_no_NUL length_hex64 [of "fst r"] in \<open>simp_all add: str_def length_reg_value\<close>)
  then show "list_all tok_ok (memory_node r)" "list_all tok_ok (concat (map memory_node rs))" by (simp, induction rs) simp_all
  have "list_all tok_ok (gic_node cs rs)" if "length (strings_bytes cs) \<le> 128" "length rs \<le> 2" for cs rs
    unfolding gic_node_def
    by (rule tok_ok_node) (use hex_no_NUL length_hex [of "0x03001000" 16] that in \<open>simp_all add: length_reg_value\<close>)
  then show "list_all tok_ok (gic_of v)" by (simp add: gic_of_def)
  show "list_all tok_ok timer_node" unfolding timer_node_def by (rule tok_ok_node) (simp_all add: str_def ppi_def)
  show "list_all tok_ok optee_node" unfolding optee_node_def by (intro tok_ok_node) (simp_all add: str_def)
qed

lemma hypervisor_node_ok: "length regs \<le> 3 \<Longrightarrow> list_all tok_ok (hypervisor_node major minor regs)"
  unfolding hypervisor_node_def
  by (rule tok_ok_node) (use length_version [of "''xen,xen-''" major minor] in \<open>simp_all add: length_reg_value ppi_def\<close>)

definition line_ok :: "string option \<Rightarrow> bool" where
  "line_ok line \<longleftrightarrow> (case line of None \<Rightarrow> True | Some s \<Rightarrow> length s < 2 ^ 31 - 1)"

lemma chosen_node_ok: "line_ok line \<Longrightarrow> list_all tok_ok (chosen_node line)"
  by (auto simp: chosen_node_def line_ok_def str_def intro!: tok_ok_node split: option.splits)

section \<open>The whole tree\<close>

lemma seq_neg_append:
  "seq_neg (fs @ gs) s = do { (r, s1) \<leftarrow> seq_neg fs s; if r < 0 then Some (r, s1) else seq_neg gs s1 }"
  by (induction fs arbitrary: s) (auto split: Option.bind_splits)

lemma finish_wrote:
  assumes "wrote n ts b" "n < 2147483647" "list_all tok_ok ts"
  shows "\<exists>r b'. fdt_finish b = Some (r, b') \<and>
    (r = 0 \<and> tree_is n ts b' \<or> r = - FDT_ERR_NOSPACE \<and> n < 68 + sum_list (map tok_space ts))"
proof -
  obtain its strs where i: "map fst its = ts" "b = sw_image n its strs" "sw_fits n its strs" "refs_ok strs its"
    "length (enc its) + length strs \<le> sum_list (map tok_space ts)" using assms(1) unfolding wrote_def by blast
  have ok: "list_all tok_ok (map fst its)" using assms(3) i(1) by simp
  obtain rest where fin: "fdt_finish b = (if sw_room n its strs 4 then Some (0, fdt_final (shift (of_nat (length strs)) its) strs ([], rest))
      else Some (- FDT_ERR_NOSPACE, b))" "length rest = n - 64 - (length (enc its) + 4) - length strs"
    using finish_sw [OF i(3) ok] i(2) by blast
  show ?thesis
  proof (cases "sw_room n its strs 4")
    case True
    then show ?thesis using fin tree_final [OF i(3) True assms(2) i(4) ok fin(2)] i(1,5) by simp
  next
    case False
    then show ?thesis using fin i(5) by (auto simp: sw_room_def)
  qed
qed

lemma wrote_Nil: "64 \<le> n \<Longrightarrow> n < 2 ^ 31 \<Longrightarrow> wrote n [] (sw_image n [] [])"
  unfolding wrote_def by (rule exI [of _ "[]"], rule exI [of _ "[]"]) (simp add: sw_fits_def refs_ok_def)

definition cfg_describable :: "int \<Rightarrow> int \<Rightarrow> xen_domain_cfg \<Rightarrow> bool" where
  "cfg_describable major minor c \<longleftrightarrow>
     0 \<le> major \<and> major < 65536 \<and> 0 \<le> minor \<and> minor < 65536 \<and> compat_fits major minor c \<and> line_ok (cmdline c) \<and>
     (gic_version c = 1 \<or> gic_version c = 2) \<and> snd (bank_sizes guest_banks (mem_kb c * 1024)) = 0"

lemma nodes_add:
  assumes "cfg_describable major minor c" "domctl_getdomaininfo d e = ((0, info), e')"
    "hypervisor_regs (gi_gpaddr_bits info) c = Some (Inr regs)"
  shows "adds n (seq_neg
      ([on_blob (fdt_begin_node []), on_blob (create_root major minor c), on_blob (create_chosen (cmdline c)),
        on_blob (create_cpus (sint (max_vcpus c))), on_blob create_psci, on_blob (create_memory (mem_kb c * 1024)),
        on_blob (if gic_version c = 1 then create_gicv2
                 else if gic_version c = 2 then create_gicv3 else (\<lambda>b. Some (- FDT_ERR_BADVALUE, b))),
        on_blob (create_timer 0), create_hypervisor major minor c d] @
       (if tee_type c = 1 then [on_blob create_optee] else []) @ [on_blob fdt_end_node]))
     (domain_tree major minor c regs) e e'"
proof -
  note cd = assms(1) [unfolded cfg_describable_def]
  let ?gic = "if gic_version c = 1 then create_gicv2
      else if gic_version c = 2 then create_gicv3 else (\<lambda>b. Some (- FDT_ERR_BADVALUE, b))"
  let ?root = "map (\<lambda>(p, v). TProp p v) (root_props major minor c)"
  let ?mem = "concat (map memory_node (fst (bank_sizes guest_banks (mem_kb c * 1024))))"
  have gic: "?gic = run_toks (gic_of (gic_version c))" using cd gic_of_toks by auto
  have v: "length (strings_bytes [version_string ''xen,xen-'' major minor, ''xen,xen'']) \<le> 128"
    using length_version_digits [of major minor "''xen,xen-''"] cd by simp
  have hyp: "adds n (create_hypervisor major minor c d) (hypervisor_node major minor regs) e e'"
    by (rule hypervisor_adds [OF assms(2,3) v hypervisor_node_ok [OF length_hypervisor_regs [OF assms(3)]]])
  have root: "list_all tok_ok ?root" using root_props_ok [of major minor c] cd by (auto simp: list_all_iff)
  have ends: "list_all tok_ok [TBegin []]" "list_all tok_ok [TEnd]" by simp_all
  have opt: "adds n (seq_neg ((if tee_type c = 1 then [on_blob create_optee] else []) @ [on_blob fdt_end_node]))
      ((if tee_type c = 1 then optee_node else []) @ [TEnd] @ []) e' e'"
  proof -
    have en: "adds n (seq_neg [on_blob fdt_end_node]) ([TEnd] @ []) e' e'"
      by (rule adds_Cons [OF adds_blob [OF ends(2) end_toks] adds_Nil(1)])
    then have "adds n (seq_neg [on_blob create_optee, on_blob fdt_end_node]) (optee_node @ [TEnd] @ []) e' e'"
      by (rule adds_Cons [OF adds_blob [OF nodes_ok(6) optee_toks]])
    with en show ?thesis by simp
  qed
  note chain = adds_Cons [OF adds_blob [OF ends(1) begin_toks] adds_Cons [OF adds_blob [OF root root_toks]
    adds_Cons [OF adds_blob [OF chosen_node_ok chosen_toks] adds_Cons [OF adds_blob [OF nodes_ok(1) cpus_toks]
    adds_Cons [OF adds_blob [OF nodes_ok(2) psci_toks] adds_Cons [OF adds_blob [OF nodes_ok(7) memory_toks]
    adds_Cons [OF adds_blob [OF nodes_ok(4) gic] adds_Cons [OF adds_blob [OF nodes_ok(5) timer_toks]
    adds_Cons [OF hyp opt]]]]]]]]]
  show ?thesis using chain cd by (simp add: domain_tree_def node_def)
qed

lemma gen_tree:
  fixes e :: "'a env_scheme"
  assumes "fdt_size < 2147483647" "cfg_describable major minor c"
    "ext_call ''k_aligned_alloc'' [4096, int fdt_size] e = (r, e1)" "ptr_result r = Some fdt"
    "domctl_getdomaininfo d e1 = ((0, info), e2)" "hypervisor_regs (gi_gpaddr_bits info) c = Some (Inr regs)"
    "list_all tok_ok (domain_tree major minor c regs)"
  shows "\<exists>rc b e3. seq_neg (fdt_steps fdt_size major minor c None d) (replicate fdt_size NUL, e1) = Some (rc, b, e3) \<and>
    (rc = 0 \<and> tree_is fdt_size (domain_tree major minor c regs) b \<and> e3 = e2 \<or>
     rc = - FDT_ERR_NOSPACE \<and> fdt_size < 68 + sum_list (map tok_space (domain_tree major minor c regs)))"
proof (cases "fdt_size < 64")
  case True
  from create_small [of "replicate fdt_size NUL" fdt_size, OF length_replicate True] True
  show ?thesis by (auto simp: fdt_steps_def on_blob_def)
next
  case False
  let ?n = fdt_size and ?ts = "domain_tree major minor c regs"
  define ms :: "'a fdt_env_op list" where "ms = [on_blob (fdt_begin_node []), on_blob (create_root major minor c), on_blob (create_chosen (cmdline c)),
        on_blob (create_cpus (sint (max_vcpus c))), on_blob create_psci, on_blob (create_memory (mem_kb c * 1024)),
        on_blob (if gic_version c = 1 then create_gicv2
                 else if gic_version c = 2 then create_gicv3 else (\<lambda>b. Some (- FDT_ERR_BADVALUE, b))),
        on_blob (create_timer 0), create_hypervisor major minor c d] @
       (if tee_type c = 1 then [on_blob create_optee] else []) @ [on_blob fdt_end_node]"
  have n: "length (replicate ?n NUL) = ?n" "64 \<le> ?n" "?n < 2 ^ 31" using False assms(1) by simp_all
  have steps: "fdt_steps ?n major minor c None d = [on_blob (\<lambda>b. fdt_create b (int ?n)), on_blob fdt_finish_reservemap] @ (ms @ [on_blob fdt_finish])"
    by (simp add: fdt_steps_def ms_def)
  have start: "seq_neg (fdt_steps ?n major minor c None d) (replicate ?n NUL, e1) = seq_neg (ms @ [on_blob fdt_finish]) (sw_image ?n [] [], e1)"
    unfolding steps seq_neg_append using create_sw [OF n] by (simp add: on_blob_def)
  obtain r1 b1 e' where m: "seq_neg ms (sw_image ?n [] [], e1) = Some (r1, b1, e')"
    "r1 = 0 \<and> wrote ?n ([] @ ?ts) b1 \<and> e' = e2 \<or> r1 = - FDT_ERR_NOSPACE \<and> ?n < 64 + sum_list (map tok_space ([] @ ?ts))"
    using nodes_add [OF assms(2,5,6), of ?n, folded ms_def] wrote_Nil [OF n(2,3)] unfolding adds_def by blast
  show ?thesis using m(2)
  proof (elim disjE conjE)
    assume w: "r1 = 0" "wrote ?n ([] @ ?ts) b1" "e' = e2"
    from finish_wrote [of ?n ?ts b1] w(2) assms(1,7) obtain r2 b2 where f: "fdt_finish b1 = Some (r2, b2)"
      "r2 = 0 \<and> tree_is ?n ?ts b2 \<or> r2 = - FDT_ERR_NOSPACE \<and> ?n < 68 + sum_list (map tok_space ?ts)" by auto
    then show ?thesis unfolding start seq_neg_append m(1) using w(1,3) by (auto simp: on_blob_def)
  next
    assume "r1 = - FDT_ERR_NOSPACE" "?n < 64 + sum_list (map tok_space ([] @ ?ts))"
    then show ?thesis unfolding start seq_neg_append m(1) by simp
  qed
qed

lemma domain_tree_ok:
  assumes "cfg_describable major minor c" "hypervisor_regs g c = Some (Inr regs)"
  shows "list_all tok_ok (domain_tree major minor c regs)"
  unfolding domain_tree_def
  by (rule tok_ok_node) (use assms root_props_ok chosen_node_ok nodes_ok hypervisor_node_ok length_hypervisor_regs
      in \<open>simp_all add: cfg_describable_def\<close>)

lemma domain_tree_closes: "\<exists>us. domain_tree major minor c regs = TBegin [] # us \<and> closes 1 us"
proof -
  have "closes 1 (tl (domain_tree major minor c regs))"
    unfolding domain_tree_def
    by (intro node_closes wholes)
      (auto simp: chosen_node_def cpus_node_def cpu_node_def psci_node_def memory_node_def gic_of_def gic_node_def timer_node_def
        hypervisor_node_def optee_node_def intro!: wholes split: option.split)
  then show ?thesis by (simp add: domain_tree_def node_def)
qed

lemma domain_tree_check:
  assumes "tree_is n (domain_tree major minor c regs) b"
  shows "fdt_check_full b n = Some 0"
  using assms domain_tree_closes [of major minor c regs] final_check_full unfolding tree_is_def by blast

text \<open>C7. For a configuration that can be described and no partial device tree, once the buffer is
  there and the hypervisor has reported the address space, \<open>gen_domain_fdt\<close> returns a device
  tree that passes the full check of libfdt and reads back as the tree of the domain -- root, command line, processors, power
  control, memory, interrupt controller, timer, hypervisor, trusted firmware --, or \<open>-ENOMEM\<close> and
  nothing; the latter only when the buffer is too small.\<close>

theorem domain_tree_generated:
  assumes "fdt_size < 2147483647" "cfg_describable major minor c"
    "ext_call ''k_aligned_alloc'' [4096, int fdt_size] e = (r, e1)" "ptr_result r = Some fdt"
    "domctl_getdomaininfo d e1 = ((0, info), e2)" "hypervisor_regs (gi_gpaddr_bits info) c = Some (Inr regs)"
  shows "\<exists>rc res e3. gen_domain_fdt True fdt_size c major minor None d e = Some ((rc, res), e3) \<and>
    (rc = 0 \<and> e3 = e2 \<and>
       (\<exists>b. res = Some (Some fdt, b) \<and> length b = fdt_size \<and> fdt_check_full b fdt_size = Some 0 \<and>
          unat (fdt_totalsize b) \<le> fdt_size \<and> fdt_tokens b = Some (domain_tree major minor c regs)) \<or>
     rc = - ENOMEM \<and> res = None \<and> fdt_size < 68 + sum_list (map tok_space (domain_tree major minor c regs)))"
proof -
  from gen_tree [OF assms domain_tree_ok [OF assms(2,6)]] show ?thesis
    using assms(3,4) domain_tree_check [of fdt_size major minor c regs]
    by (elim exE conjE) (auto simp: gen_domain_fdt_def fdt_to_errno_def tree_is_def simp del: ext_regions.simps)
qed

definition demo_cfg :: xen_domain_cfg where
  "demo_cfg =
     \<lparr>cfg_name = ''demo'', cfg_domain_name = ''demo'', machine_dt_compat = None, mem_kb = 0x20000, cfg_flags = 0, max_vcpus = 2,
      max_evtchns = 10, gnt_frames = 32, max_maptrack_frames = 1, cfg_ssidref = 0, gic_version = 2, tee_type = 1,
      iomems = [], irqs = [], dtdevs = [], dt_passthrough = None, cmdline = Some ''console=hvc0'', seclabel = None, dtb = None,
      load_image_bytes = None, get_image_size = None, back_cfg = \<lparr>vifs = [], disks = []\<rparr>, f_paused = False\<rparr>"

lemma demo_bank: "bank_sizes guest_banks (mem_kb demo_cfg * 1024) = ([(0x40000000, 0x8000000)], 0)"
  by code_simp

lemma demo_regs: "hypervisor_regs 40 demo_cfg = Some (Inr [(0x38000000, 0x1000000), (0x48000000, 0xB8000000), (0x200000000, 0xFE00000000)])"
  by code_simp

lemma demo_hex:
  "hex (unat (get_mpdir (of_nat 0))) = ''0''" "hex (unat (get_mpdir (of_nat 1))) = ''1''" "hex 0x40000000 = ''40000000''"
  "hex 0x03001000 = ''3001000''"
  by (simp_all add: hex.simps hex_digit_def get_mpdir_def char_of_def bit_Suc_0_iff)

lemma demo_version:
  "version_string ''XENVM-'' 4 17 = ''XENVM-4.17''" "version_string ''xen,xenvm-'' 4 17 = ''xen,xenvm-4.17''"
  "version_string ''xen,xen-'' 4 17 = ''xen,xen-4.17''"
  by code_simp+

lemma demo_describable: "cfg_describable 4 17 demo_cfg"
proof -
  have "compat_fits 4 17 demo_cfg" by code_simp
  moreover have "line_ok (cmdline demo_cfg)" by (simp add: line_ok_def demo_cfg_def)
  ultimately show ?thesis by (simp add: cfg_describable_def demo_bank) (simp add: demo_cfg_def)
qed

lemma demo_space: "68 + sum_list (map tok_space (domain_tree 4 17 demo_cfg [r1, r2, r3])) \<le> 8192"
  unfolding domain_tree_def demo_bank
  by (simp add: node_def root_props_def chosen_node_def cpus_node_def cpu_node_def psci_node_def memory_node_def gic_of_def gic_node_def
      timer_node_def hypervisor_node_def optee_node_def demo_cfg_def upt_rec demo_hex [simplified] demo_version str_def ppi_def
      length_reg_value pad4_def)

theorem domain_tree_generated_witness:
  "\<exists>b e3. gen_domain_fdt True 8192 demo_cfg 4 17 None 1
      \<lparr>mallocs = [], locks = [], hcalls = [0x50000000, 0, 1, 0, 0, 0, 0, 2, 1, 0, 40], trace = []\<rparr> =
      Some ((0, Some (Some 0x50000000, b)), e3) \<and>
    fdt_tokens b = Some (domain_tree 4 17 demo_cfg [(0x38000000, 0x1000000), (0x48000000, 0xB8000000), (0x200000000, 0xFE00000000)])"
proof -
  let ?e = "\<lparr>mallocs = [], locks = [], hcalls = [0x50000000, 0, 1, 0, 0, 0, 0, 2, 1, 0, 40], trace = []\<rparr>"
  obtain r e1 where 1: "ext_call ''k_aligned_alloc'' [4096, int 8192] ?e = (r, e1)" by fastforce
  then have r: "r = 0x50000000" and e1: "e1 = \<lparr>mallocs = [], locks = [], hcalls = [0, 1, 0, 0, 0, 0, 2, 1, 0, 40],
      trace = [(''k_aligned_alloc'', [4096, int 8192])]\<rparr>" by (simp_all add: ext_call_def)
  have 2: "ptr_result r = Some 0x50000000" by (simp add: r ptr_result_def)
  obtain info e2 where 3: "domctl_getdomaininfo 1 e1 = ((0, info), e2)"
    by (simp add: domctl_getdomaininfo_def e1 ext_call_def ext_out_def Let_def)
  then have "info = getdomaininfo_of [1, 0, 0, 0, 0, 2, 1, 0, 40]"
    by (simp add: domctl_getdomaininfo_def e1 ext_call_def ext_out_def Let_def)
  then have "gi_gpaddr_bits info = 40" by (simp add: getdomaininfo_of_def)
  then have 4: "hypervisor_regs (gi_gpaddr_bits info) demo_cfg =
      Some (Inr [(0x38000000, 0x1000000), (0x48000000, 0xB8000000), (0x200000000, 0xFE00000000)])" by (simp only: demo_regs)
  have "(8192 :: nat) < 2147483647" by simp
  from domain_tree_generated [OF this demo_describable 1 2 3 4] demo_space show ?thesis
    by (elim exE conjE disjE) (simp_all add: not_less [symmetric])
qed

section \<open>Memory and extended regions\<close>

definition range_in :: "u64 \<times> u64 \<Rightarrow> u64 \<times> u64 \<Rightarrow> bool" where
  "range_in r bank \<longleftrightarrow> unat (fst bank) \<le> unat (fst r) \<and> unat (fst r) + unat (snd r) \<le> unat (fst bank) + unat (snd bank)"

definition apart :: "u64 \<times> u64 \<Rightarrow> u64 \<times> u64 \<Rightarrow> bool" where
  "apart r s \<longleftrightarrow> unat (fst r) + unat (snd r) \<le> unat (fst s) \<or> unat (fst s) + unat (snd s) \<le> unat (fst r)"

definition bank_ok :: "u64 \<times> u64 \<Rightarrow> bool" where
  "bank_ok b \<longleftrightarrow> 0x200000 dvd unat (fst b) \<and> 0 < unat (snd b) \<and> unat (fst b) + unat (snd b) \<le> 2 ^ 62"

lemma apart_in: "apart b c \<Longrightarrow> range_in r b \<Longrightarrow> range_in s c \<Longrightarrow> apart r s"
  by (auto simp: apart_def range_in_def)

lemma apart_sym: "apart r s \<Longrightarrow> apart s r"
  by (auto simp: apart_def)

lemma bank_sizes_in: "r \<in> set (fst (bank_sizes banks m)) \<Longrightarrow> \<exists>b \<in> set banks. range_in r b"
proof (induction banks m rule: bank_sizes.induct)
  case (2 base bsize banks m)
  then show ?case by (auto simp: range_in_def word_le_nat_alt word_less_nat_alt split: if_splits prod.splits)
qed simp

lemma bank_sizes_sum:
  "unat m = sum_list (map (\<lambda>r. unat (snd r)) (fst (bank_sizes banks m))) + unat (snd (bank_sizes banks m))"
proof (induction banks m rule: bank_sizes.induct)
  case (2 base bsize banks m)
  show ?case
  proof (cases "m = 0")
    case False
    define b where "b = (if bsize < m then bsize else m)"
    have b: "unat (m - b) = unat m - unat b" "unat b \<le> unat m"
      by (simp_all add: b_def unat_sub word_le_nat_alt word_less_nat_alt)
    have "bank_sizes ((base, bsize) # banks) m = ((base, b) # fst (bank_sizes banks (m - b)), snd (bank_sizes banks (m - b)))"
      using False by (simp add: b_def case_prod_beta Let_def)
    then show ?thesis using 2 [OF False b_def] b by simp
  qed simp
qed simp

text \<open>Rounding up to 2 MB.\<close>

lemma and_not_mask_plus: "(w AND mask n) + (w AND NOT (mask n)) = (w :: 'a::len word)"
proof -
  have "(w AND mask n) AND (w AND NOT (mask n)) = 0" by (rule bit_word_eqI) (simp add: bit_simps)
  then have "(w AND mask n) + (w AND NOT (mask n)) = (w AND mask n) OR (w AND NOT (mask n))" by (rule disjunctive_add_eq_or)
  also have "\<dots> = w" by (rule bit_word_eqI) (auto simp add: bit_simps)
  finally show ?thesis .
qed

lemma unat_and_not_mask: "unat (w AND NOT (mask n)) = unat (w :: 'a::len word) - unat w mod 2 ^ n"
proof -
  have "w AND NOT (mask n) = w - take_bit n w" using and_not_mask_plus [of w n] by (metis add_diff_cancel_left' take_bit_eq_mask)
  moreover have t: "unat (take_bit n w) = unat w mod 2 ^ n"
    using unsigned_take_bit_eq [of n w, where ?'a = nat] by (simp only: take_bit_eq_mod [of n "unat w"])
  moreover have "take_bit n w \<le> w" by (simp only: word_le_nat_alt t mod_less_eq_dividend)
  ultimately show ?thesis by (simp only: unat_sub)
qed

lemma unat_align:
  assumes "unat x \<le> 2 ^ 62"
  shows "unat (ALIGN_UP_TO_2MB x) = (unat x + 0x1FFFFF) div 0x200000 * 0x200000"
proof -
  have s: "unat (x + 0x200000 - 1) = unat x + 0x1FFFFF" 
  proof -
    have "x + 0x200000 - 1 = x + 0x1FFFFF" by simp
    moreover have "unat (x + 0x1FFFFF) = unat x + 0x1FFFFF" unfolding unat_word_ariths(1) using assms by simp
    ultimately show ?thesis by (simp only:)
  qed
  have "ALIGN_UP_TO_2MB x = (x + 0x200000 - 1) AND NOT (mask 21)" by (simp add: ALIGN_UP_TO_2MB_def mask_eq_exp_minus_1)
  then have "unat (ALIGN_UP_TO_2MB x) = unat x + 0x1FFFFF - (unat x + 0x1FFFFF) mod 2 ^ 21" by (simp only: unat_and_not_mask s)
  then show ?thesis by (simp add: minus_mod_eq_div_mult)
qed
definition mem_part :: "u64 \<Rightarrow> u64 \<Rightarrow> u64" where
  "mem_part bsize m = (if bsize < m then bsize else m)"

lemma region_of_bank:
  assumes "bank_ok (base, bsize)" "region_base = base + ALIGN_UP_TO_2MB (mem_part bsize m)"
    "bankend = min l (base + bsize - 1)" "region_base < bankend"
  shows "0x200000 dvd unat region_base" "range_in (region_base, bankend - region_base + 1) (base, bsize)"
    "apart (region_base, bankend - region_base + 1) (base, mem_part bsize m)"
    "unat region_base + unat (bankend - region_base + 1) \<le> unat l + 1"
proof -
  let ?x = "mem_part bsize m"
  define q where "q = (unat ?x + 0x1FFFFF) div 0x200000"
  have b: "0x200000 dvd unat base" "0 < unat bsize" "unat base + unat bsize \<le> 2 ^ 62" using assms(1) by (simp_all add: bank_ok_def)
  have x: "unat ?x \<le> unat bsize" by (simp add: mem_part_def word_le_nat_alt word_less_nat_alt)
  have a: "unat (ALIGN_UP_TO_2MB ?x) = q * 0x200000" unfolding q_def by (rule unat_align) (use x b(3) in linarith)
  have q: "unat ?x \<le> q * 0x200000" "q * 0x200000 < unat ?x + 0x200000" unfolding q_def by linarith+
  have r: "unat region_base = unat base + q * 0x200000"
    unfolding assms(2) unat_word_ariths(1) a using b(3) x q(2) by simp
  have e: "unat (base + bsize - 1) = unat base + unat bsize - 1"
  proof -
    have s: "unat (base + bsize) = unat base + unat bsize" unfolding unat_word_ariths(1) using b(3) by simp
    then have "base + bsize \<noteq> 0" using b(2) by (metis add_is_0 unat_0 less_numeral_extra(3))
    then show ?thesis using s by (simp add: unat_minus_one)
  qed
  have be: "unat bankend \<le> unat l" "unat bankend \<le> unat base + unat bsize - 1"
    unfolding assms(3) using e by (simp_all add: min_def word_le_nat_alt)
  have lt: "unat region_base < unat bankend" using assms(4) by (simp add: word_less_nat_alt)
  have "unat (bankend - region_base) = unat bankend - unat region_base" using lt by (intro unat_sub) (simp add: word_le_nat_alt)
  then have s: "unat (bankend - region_base + 1) = unat bankend - unat region_base + 1"
    unfolding unat_word_ariths(1) using be(2) b(3) by simp
  show "0x200000 dvd unat region_base" unfolding r using b(1) by simp
  show "range_in (region_base, bankend - region_base + 1) (base, bsize)"
    using lt be(2) b(2) r by (simp add: range_in_def s)
  show "apart (region_base, bankend - region_base + 1) (base, ?x)" using q(1) r by (simp add: apart_def)
  show "unat region_base + unat (bankend - region_base + 1) \<le> unat l + 1" using s lt be(1) by simp
qed

definition region_good :: "u64 \<Rightarrow> (u64 \<times> u64) list \<Rightarrow> (u64 \<times> u64) list \<Rightarrow> u64 \<times> u64 \<Rightarrow> bool" where
  "region_good l banks ms r \<longleftrightarrow>
     0x200000 dvd unat (fst r) \<and> unat (fst r) + unat (snd r) \<le> unat l + 1 \<and> (\<exists>b \<in> set banks. range_in r b) \<and>
     (\<forall>m \<in> set ms. apart r m)"

lemma ext_regions_good:
  assumes "list_all bank_ok banks" "sorted_wrt apart banks"
    "r \<in> set (ext_regions banks l m)" "snd r \<noteq> 0"
  shows "region_good l banks (fst (bank_sizes banks m)) r"
  using assms
proof (induction banks arbitrary: m)
  case (Cons b banks)
  obtain base bsize where b: "b = (base, bsize)" by fastforce
  let ?x = "mem_part bsize m"
  define rb where "rb = base + ALIGN_UP_TO_2MB ?x"
  define be where "be = min l (base + bsize - 1)"
  let ?ms = "fst (bank_sizes banks (m - ?x))"
  have ms: "set (fst (bank_sizes (b # banks) m)) \<subseteq> insert (base, ?x) (set ?ms)"
    by (auto simp: b mem_part_def split: prod.splits if_splits)
  have tail: "\<exists>c \<in> set banks. range_in p c" if "p \<in> set ?ms" for p using bank_sizes_in that by blast
  have ap: "apart b c" if "c \<in> set banks" for c using Cons.prems(2) that by simp
  have "r = (rb, if rb < be then be - rb + 1 else 0) \<or> r \<in> set (ext_regions banks l (m - ?x))"
    using Cons.prems(3) by (auto simp: b Let_def rb_def be_def mem_part_def)
  then show ?case
  proof
    assume h: "r = (rb, if rb < be then be - rb + 1 else 0)"
    then have lt: "rb < be" using Cons.prems(4) by (simp split: if_splits)
    have bk: "bank_ok (base, bsize)" using Cons.prems(1) b by simp
    note g = region_of_bank [OF bk rb_def be_def lt]
    have "apart r p" if "p \<in> set ?ms" for p using tail [OF that] ap apart_in g(2) h lt b by fastforce
    then show ?thesis using g h lt ms b unfolding region_good_def by fastforce
  next
    assume t: "r \<in> set (ext_regions banks l (m - ?x))"
    have "region_good l banks ?ms r" using Cons.IH [OF _ _ t] Cons.prems(1,2,4) by simp
    moreover have "apart r (base, ?x)"
    proof -
      obtain c where c: "c \<in> set banks" "range_in r c" using \<open>region_good l banks ?ms r\<close> unfolding region_good_def by blast
      have "range_in (base, ?x) b" by (simp add: range_in_def b mem_part_def word_le_nat_alt word_less_nat_alt)
      then show ?thesis using apart_in [OF ap [OF c(1)] _ c(2)] apart_sym by blast
    qed
    ultimately show ?thesis using ms unfolding region_good_def by fastforce
  qed
qed simp

lemma guest_banks_ok: "list_all bank_ok guest_banks" "sorted_wrt apart guest_banks"
  by (simp_all add: guest_banks_def bank_ok_def apart_def)

lemma unat_mask: "unat (mask n :: u64) = 2 ^ min 64 n - 1"
proof -
  have "uint (mask n :: u64) = mask (min 64 n)" using uint_mask_eq [of n, where ?'a = 64] by simp
  then have "unat (mask n :: u64) = nat (mask (min 64 n))" by (metis unat_eq_nat_uint)
  also have "\<dots> = nat (int (mask (min 64 n)))" by (simp only: of_nat_mask_eq)
  finally show ?thesis by (simp only: nat_int mask_eq_exp_minus_1)
qed

lemma unat_last_addr: "0 < g \<Longrightarrow> g \<le> 64 \<Longrightarrow> unat (drop_bit (64 - g) (- 1 :: u64)) + 1 = 2 ^ g"
proof -
  assume g: "0 < g" "g \<le> 64"
  then have "unat (drop_bit (64 - g) (- 1 :: u64)) = 2 ^ g - 1"
    by (simp add: unat_mask min_def)
  then show ?thesis by simp
qed

text \<open>C20. The memory nodes of a domain account for all of its memory and lie in the banks of the
  guest.  Every extended region reported to a guest, apart from the grant table, has at least 64 MB,
  starts on a boundary of 2 MB, lies in a bank and below the end of the address space, and shares no
  address with the memory of the guest.\<close>

theorem extended_regions_free:
  assumes "bank_sizes guest_banks (mem_kb c * 1024) = (mems, 0)" "hypervisor_regs g c = Some (Inr (gnttab # regions))"
  shows "unat (mem_kb c * 1024) = (\<Sum>m \<leftarrow> mems. unat (snd m)) \<and> (\<forall>m \<in> set mems. \<exists>b \<in> set guest_banks. range_in m b) \<and>
    (\<forall>r \<in> set regions. 0x4000000 \<le> unat (snd r) \<and> 0x200000 dvd unat (fst r) \<and> (\<exists>b \<in> set guest_banks. range_in r b) \<and>
       unat (fst r) + unat (snd r) \<le> 2 ^ unat g \<and> (\<forall>m \<in> set mems. apart r m))"
proof -
  let ?l = "drop_bit (64 - unat g) (- 1) :: u64"
  have g: "0 < unat g" "unat g \<le> 64" and rs: "regions = filter (\<lambda>r. EXT_REGION_MIN_SIZE \<le> snd r) (ext_regions guest_banks ?l (mem_kb c * 1024))"
    using assms(2) unfolding hypervisor_regs_def Let_def
    by (simp_all add: word_le_nat_alt word_less_nat_alt unat_gt_0 del: ext_regions.simps split: if_split_asm)
  have l: "unat ?l + 1 = 2 ^ unat g" by (rule unat_last_addr [OF g])
  have "0x4000000 \<le> unat (snd r) \<and> region_good ?l guest_banks mems r" if "r \<in> set regions" for r
  proof -
    have "EXT_REGION_MIN_SIZE \<le> snd r" "r \<in> set (ext_regions guest_banks ?l (mem_kb c * 1024))"
      using that by (simp_all add: rs del: ext_regions.simps)
    moreover from this(1) have "snd r \<noteq> 0" by auto
    ultimately show ?thesis
      using ext_regions_good [OF guest_banks_ok, of r ?l "mem_kb c * 1024"] assms(1) by (simp add: word_le_nat_alt)
  qed
  then show ?thesis
    using bank_sizes_sum [of "mem_kb c * 1024" guest_banks] bank_sizes_in [of _ guest_banks "mem_kb c * 1024"] l assms(1)
    by (simp add: region_good_def)
qed

theorem extended_regions_free_witness:
  "unat (mem_kb demo_cfg * 1024) = 0x8000000 \<and> apart (0x48000000, 0xB8000000) (0x40000000, 0x8000000)"
  using extended_regions_free [OF demo_bank demo_regs] by simp

end
