(* ===== verification/Dom_Image.thy ===== *)
theory Dom_Image
  imports Dom_Fdt Xs_Server
begin

text \<open>
  The first half of \<open>xen-dom-mgmt.c\<close>: the configuration handed to the hypervisor, the memory of a
  new domain, the placement of the device tree and the loading of the image, and the sharing of
  devices.  Calls of the hypervisor and of the platform are recorded in the environment with their
  results; copying into mapped pages is recorded with the bytes.
\<close>

section \<open>Arithmetic of addresses\<close>

abbreviation (input) XEN_PAGE_SIZE :: u64 where "XEN_PAGE_SIZE \<equiv> 4096"
abbreviation (input) PFN_2M_SHIFT :: nat where "PFN_2M_SHIFT \<equiv> 9"
abbreviation (input) PFN_2M_SIZE :: u64 where "PFN_2M_SIZE \<equiv> 0x200000"
abbreviation (input) NR_MAGIC_PAGES :: u64 where "NR_MAGIC_PAGES \<equiv> 4"
abbreviation (input) CONSOLE_PFN_OFFSET :: u64 where "CONSOLE_PFN_OFFSET \<equiv> 0"
abbreviation (input) XENSTORE_PFN_OFFSET :: u64 where "XENSTORE_PFN_OFFSET \<equiv> 1"
abbreviation (input) GUEST_MAGIC_BASE :: u64 where "GUEST_MAGIC_BASE \<equiv> 0x39000000"
abbreviation (input) GUEST_RAM0_BASE :: u64 where "GUEST_RAM0_BASE \<equiv> 0x40000000"
abbreviation (input) GUEST_RAM0_SIZE :: u64 where "GUEST_RAM0_SIZE \<equiv> 0xc0000000"
abbreviation (input) UIMAGE_MAGIC :: u32 where "UIMAGE_MAGIC \<equiv> 0x27051956"
abbreviation (input) HVM_PARAM_STORE_PFN :: int where "HVM_PARAM_STORE_PFN \<equiv> 1"
abbreviation (input) HVM_PARAM_STORE_EVTCHN :: int where "HVM_PARAM_STORE_EVTCHN \<equiv> 2"
abbreviation (input) HVM_PARAM_CONSOLE_PFN :: int where "HVM_PARAM_CONSOLE_PFN \<equiv> 17"
abbreviation (input) PT_IRQ_TYPE_SPI :: int where "PT_IRQ_TYPE_SPI \<equiv> 4"

definition DIV_ROUND_UP :: "u64 \<Rightarrow> u64 \<Rightarrow> u64" where
  "DIV_ROUND_UP n d = (n + d - 1) div d"

definition ROUND_UP :: "u64 \<Rightarrow> u64 \<Rightarrow> u64" where
  "ROUND_UP x align = (x + (align - 1)) div align * align"

definition XEN_PHYS_PFN :: "u64 \<Rightarrow> u64" where
  "XEN_PHYS_PFN a = drop_bit 12 a"

definition KB :: "u64 \<Rightarrow> u64" where
  "KB x = push_bit 10 x"

text \<open>Bytes copied or set in memory that belongs to a domain.\<close>

definition mem_event :: "string \<Rightarrow> int list \<Rightarrow> 'a env_scheme \<Rightarrow> 'a env_scheme" where
  "mem_event name args e = e\<lparr>trace := trace e @ [(name, args)]\<rparr>"

definition copy_to :: "u64 \<Rightarrow> char list \<Rightarrow> 'a env_scheme \<Rightarrow> 'a env_scheme" where
  "copy_to addr bs e = mem_event ''memcpy'' (uint addr # map of_char bs) e"

section \<open>The configuration for the hypervisor\<close>

record xen_domctl_createdomain =
  cd_flags :: u32
  cd_max_vcpus :: u32
  cd_max_evtchn_port :: u32
  cd_max_grant_frames :: int
  cd_max_maptrack_frames :: int
  cd_ssidref :: u32
  cd_grant_opts :: u32
  cd_gic_version :: u8
  cd_tee_type :: u16
  cd_nr_spis :: u32

text \<open>The comparison of the \<open>int\<close> with the \<open>uint32_t\<close> is unsigned.\<close>

fun max_irq_loop :: "u32 \<Rightarrow> u32 list \<Rightarrow> u32" where
  "max_irq_loop max_irq [] = max_irq"
| "max_irq_loop max_irq (i # is) = max_irq_loop (if max_irq < i then i else max_irq) is"

definition arch_prepare_domain_cfg :: "xen_domain_cfg \<Rightarrow> xen_domctl_createdomain \<Rightarrow> xen_domctl_createdomain" where
  "arch_prepare_domain_cfg c create =
     create\<lparr>cd_gic_version := gic_version c, cd_tee_type := tee_type c,
            cd_nr_spis := (case irqs c of [] \<Rightarrow> 0 | i # is \<Rightarrow> max_irq_loop i is)\<rparr>"

definition prepare_domain_cfg ::
  "bool \<Rightarrow> xen_domain_cfg \<Rightarrow> xen_domctl_createdomain \<Rightarrow> 'a env_scheme \<Rightarrow> xen_domctl_createdomain \<times> 'a env_scheme" where
  "prepare_domain_cfg flask c create e =
     (let create1 = create\<lparr>cd_flags := cfg_flags c, cd_max_vcpus := max_vcpus c, cd_max_evtchn_port := max_evtchns c,
                           cd_max_grant_frames := gnt_frames c, cd_max_maptrack_frames := max_maptrack_frames c,
                           cd_ssidref := cfg_ssidref c\<rparr>;
          (create2, e1) =
            (case seclabel c of
               None \<Rightarrow> (create1, e)
             | Some l \<Rightarrow>
                 if \<not> flask then (create1, e)
                 else let (rc, e1) = ext_call ''flask_context_to_sid'' (int (length l) # map of_char l) e;
                          (ssid, e2) = ext_out 1 e1
                      in if rc = 0 then (create1\<lparr>cd_ssidref := of_int (ssid ! 0)\<rparr>, e2) else (create1, e2))
      in (arch_prepare_domain_cfg c create2, e1))"

section \<open>Memory\<close>

text \<open>\<open>var\<close> is the address of the local variable that receives a mapping.\<close>

definition map_pages :: "xen_cfg \<Rightarrow> int \<Rightarrow> u64 \<Rightarrow> u64 \<Rightarrow> u64 \<Rightarrow> 'a env_scheme \<Rightarrow> (int \<times> u64 option) \<times> 'a env_scheme" where
  "map_pages cfg d nr_pages gfn var e =
     xenmem_map_region (cfg_chunk cfg) (cfg_regions cfg) (cfg_virt_to_gfn cfg) d nr_pages gfn var e"

definition unmap_pages :: "xen_cfg \<Rightarrow> u64 \<Rightarrow> u64 \<Rightarrow> 'a env_scheme \<Rightarrow> int \<times> 'a env_scheme" where
  "unmap_pages cfg nr_pages addr e =
     xenmem_unmap_region (cfg_chunk cfg) (cfg_regions cfg) (cfg_virt_to_gfn cfg) nr_pages addr e"

definition flush_pages :: "u64 \<Rightarrow> u64 \<Rightarrow> 'a env_scheme \<Rightarrow> int \<times> 'a env_scheme" where
  "flush_pages addr nr_pages e =
     ext_call ''arch_dcache_flush_and_invd_range'' [uint addr, uint (XEN_PAGE_SIZE * nr_pages)] e"

definition allocate_magic_pages :: "xen_cfg \<Rightarrow> u64 \<Rightarrow> int \<Rightarrow> 'a env_scheme \<Rightarrow> (int \<times> 'a env_scheme) option" where
  "allocate_magic_pages cfg var d e =
     (let gfn_magic_base = XEN_PHYS_PFN GUEST_MAGIC_BASE;
          (populated_gfn, e1) = xenmem_populate_physmap (cfg_chunk cfg) d gfn_magic_base PFN_4K_SHIFT NR_MAGIC_PAGES e
      in if populated_gfn \<noteq> NR_MAGIC_PAGES then Some (- ENOMEM, e1)
         else
           let ((rc, mapped), e2) = map_pages cfg d NR_MAGIC_PAGES gfn_magic_base var e1
           in if rc \<noteq> 0 then Some (rc, e2)
              else
                do { mapped_magic \<leftarrow> mapped;
                     let e3 = mem_event ''memset'' [uint mapped_magic, 0, uint (XEN_PAGE_SIZE * NR_MAGIC_PAGES)] e2;
                         (err_cache_flush, e4) = flush_pages mapped_magic NR_MAGIC_PAGES e3;
                         (rc2, e5) = unmap_pages cfg NR_MAGIC_PAGES mapped_magic e4
                     in if err_cache_flush \<noteq> 0 then Some (err_cache_flush, e5)
                        else
                          let (rc3, e6) = ext_call ''hvm_set_parameter''
                                [HVM_PARAM_CONSOLE_PFN, d, uint (gfn_magic_base + CONSOLE_PFN_OFFSET)] e5
                          in if rc3 \<noteq> 0 then Some (rc3, e6)
                             else Some (ext_call ''hvm_set_parameter''
                                    [HVM_PARAM_STORE_PFN, d, uint (gfn_magic_base + XENSTORE_PFN_OFFSET)] e6) })"

definition prepare_domain_physmap ::
  "xen_cfg \<Rightarrow> u64 \<Rightarrow> int \<Rightarrow> u64 \<Rightarrow> xen_domain_cfg \<Rightarrow> 'a env_scheme \<Rightarrow> (int \<times> 'a env_scheme) option" where
  "prepare_domain_physmap cfg var d base_pfn c e =
     (let nr_mem_exts = DIV_ROUND_UP (mem_kb c * 1024) PFN_2M_SIZE
      in do { (rc, e1) \<leftarrow> allocate_magic_pages cfg var d e;
              if rc \<noteq> 0 then Some (rc, e1)
              else
                let (populated_gfn, e2) = xenmem_populate_physmap (cfg_chunk cfg) d base_pfn PFN_2M_SHIFT nr_mem_exts e1
                in Some (if populated_gfn \<noteq> nr_mem_exts then - ENOMEM else 0, e2) })"

section \<open>The device tree\<close>

text \<open>0 when there is no place.\<close>

definition get_dtb_addr :: "u64 \<Rightarrow> u64 \<Rightarrow> u64 \<Rightarrow> u64 \<Rightarrow> u64 \<Rightarrow> u64" where
  "get_dtb_addr rambase ramsize kernbase kernsize dtbsize =
     (let dtb_len = ROUND_UP dtbsize 0x200000;
          ramend = rambase + ramsize;
          ram128mb = rambase + 0x8000000;
          kernsize_aligned = ROUND_UP kernsize 0x200000;
          kernend = kernbase + kernsize;
          modsize = dtb_len
      in if ramsize < modsize + kernsize_aligned then 0
         else if ram128mb + modsize \<le> ramend \<and> kernend < ram128mb then ram128mb
         else if kernsize_aligned < ramend - modsize then ramend - modsize
         else if modsize < kernbase - rambase then kernbase - modsize
         else 0)"

text \<open>\<open>bs\<close> are the bytes from \<open>dtb_start\<close> to \<open>dtb_end\<close>.\<close>

definition load_dtb :: "xen_cfg \<Rightarrow> u64 \<Rightarrow> int \<Rightarrow> u64 \<Rightarrow> char list \<Rightarrow> 'a env_scheme \<Rightarrow> (int \<times> 'a env_scheme) option" where
  "load_dtb cfg var d addr bs e =
     (let nr_pages = DIV_ROUND_UP (of_nat (length bs)) XEN_PAGE_SIZE;
          ((rc, mapped), e1) = map_pages cfg d nr_pages (XEN_PHYS_PFN addr) var e
      in if rc \<noteq> 0 then Some (rc, e1)
         else
           do { mapped_dtb_addr \<leftarrow> mapped;
                let e2 = copy_to mapped_dtb_addr bs e1;
                    (err_cache_flush, e3) = flush_pages mapped_dtb_addr nr_pages e2;
                    (rc2, e4) = unmap_pages cfg nr_pages mapped_dtb_addr e3
                in Some (if err_cache_flush \<noteq> 0 then err_cache_flush else rc2, e4) })"

section \<open>Images\<close>

record modules_address =
  ventry :: u64
  dtb_addr :: u64

text \<open>What the build configures of the generation of device trees: \<open>CONFIG_XEN_LIBFDT\<close>,
  \<open>CONFIG_PARTIAL_DEVICE_TREE_SIZE\<close> and the version of Xen.\<close>

record fdt_cfg =
  fc_libfdt :: bool
  fc_size :: nat
  fc_major :: int
  fc_minor :: int

definition text_offset :: "char list \<Rightarrow> u64" where
  "text_offset zhdr = ucast (le32_dec (drop 8 zhdr)) OR push_bit 32 (ucast (le32_dec (drop 12 zhdr)))"

text \<open>From the mapping of the image to the end; the device tree is in place.\<close>

definition load_image ::
  "xen_cfg \<Rightarrow> u64 \<Rightarrow> int \<Rightarrow> (nat \<Rightarrow> u64 \<Rightarrow> int \<times> char list) \<Rightarrow> u64 \<Rightarrow> u64 \<Rightarrow> u64 \<Rightarrow>
     modules_address \<Rightarrow> 'a env_scheme \<Rightarrow> ((int \<times> modules_address) \<times> 'a env_scheme) option" where
  "load_image cfg var d load_bytes image_read_offset load_addr domain_size m e =
     (let nr_pages = DIV_ROUND_UP domain_size XEN_PAGE_SIZE;
          ((rc, mapped), e1) = map_pages cfg d nr_pages (XEN_PHYS_PFN load_addr) var e
      in if rc \<noteq> 0 then Some ((rc, m), e1)
         else
           do { mapped_image \<leftarrow> mapped;
                let (rc2, bs) = load_bytes (unat domain_size) image_read_offset;
                    e2 = copy_to mapped_image bs e1
                in if rc2 < 0 then Some ((rc2, m), e2)
                   else
                     let (err_cache_flush, e3) = flush_pages mapped_image nr_pages e2;
                         (rc3, e4) = unmap_pages cfg nr_pages mapped_image e3
                     in Some (if rc3 \<noteq> 0 then (rc3, m)
                              else if err_cache_flush \<noteq> 0 then (err_cache_flush, m)
                              else (0, m\<lparr>ventry := load_addr\<rparr>), e4) })"

definition probe_zimage ::
  "xen_cfg \<Rightarrow> fdt_cfg \<Rightarrow> u64 \<Rightarrow> int \<Rightarrow> u64 \<Rightarrow> u64 \<Rightarrow> xen_domain_cfg \<Rightarrow> modules_address \<Rightarrow> 'a env_scheme \<Rightarrow>
     ((int \<times> modules_address) \<times> 'a env_scheme) option" where
  "probe_zimage cfg fc var d base_addr image_read_offset c m e =
     (case (load_image_bytes c, get_image_size c) of
        (Some load_bytes, Some (size_rc, domain_size)) \<Rightarrow>
          let (rc, zhdr) = load_bytes 64 image_read_offset in
          if rc < 0 then Some ((rc, m), e)
          else
            let load_addr = base_addr + text_offset zhdr in
            if size_rc < 0 \<or> domain_size = 0 then Some ((size_rc, m), e)
            else
              do { ((rc2, tree), e1) \<leftarrow> gen_domain_fdt (fc_libfdt fc) (fc_size fc) c (fc_major fc) (fc_minor fc) (dtb c) d e;
                   case (if rc2 \<noteq> 0 then None else tree) of
                     None \<Rightarrow> Some ((- ENOMEM, m), e1)
                   | Some (fdt, bs) \<Rightarrow>
                       if bs = [] then Some ((- ENOMEM, m), e1)
                       else
                         let addr = get_dtb_addr base_addr (KB (mem_kb c)) load_addr domain_size (of_nat (length bs));
                             out_dtb = (\<lambda>(r, e'). Some (r, free_domain_fdt fdt e'))
                         in if addr = 0 then out_dtb ((rc2, m), e1)
                            else
                              let m1 = m\<lparr>dtb_addr := addr\<rparr> in
                              do { (rc3, e2) \<leftarrow> load_dtb cfg var d addr bs e1;
                                   if rc3 \<noteq> 0 then out_dtb ((rc3, m1), e2)
                                   else do { r \<leftarrow> load_image cfg var d load_bytes image_read_offset load_addr domain_size m1 e2;
                                             out_dtb r } } }
      | _ \<Rightarrow> Some ((- EINVAL, m), e))"

definition probe_uimage ::
  "xen_cfg \<Rightarrow> fdt_cfg \<Rightarrow> u64 \<Rightarrow> int \<Rightarrow> xen_domain_cfg \<Rightarrow> modules_address \<Rightarrow> 'a env_scheme \<Rightarrow>
     ((int \<times> modules_address) \<times> 'a env_scheme) option" where
  "probe_uimage cfg fc var d c m e =
     (case load_image_bytes c of
        None \<Rightarrow> Some ((- EINVAL, m), e)
      | Some load_bytes \<Rightarrow>
          let (rc, uhdr) = load_bytes 64 0 in
          if rc < 0 then Some ((rc, m), e)
          else
            let mem_size = (if GUEST_RAM0_SIZE < KB (mem_kb c) then GUEST_RAM0_SIZE else KB (mem_kb c));
                len = be32_dec (drop 12 uhdr);
                base_addr = (ucast (be32_dec (drop 16 uhdr)) :: u64)
            in if be32_dec uhdr \<noteq> UIMAGE_MAGIC then Some ((- EINVAL, m), e)
               else if base_addr < GUEST_RAM0_BASE \<or> GUEST_RAM0_BASE + mem_size < base_addr then Some ((- EINVAL, m), e)
               else if GUEST_RAM0_BASE + mem_size < base_addr + ucast len then Some ((- EINVAL, m), e)
               else probe_zimage cfg fc var d base_addr 64 c m e)"

definition load_modules ::
  "xen_cfg \<Rightarrow> fdt_cfg \<Rightarrow> u64 \<Rightarrow> int \<Rightarrow> xen_domain_cfg \<Rightarrow> modules_address \<Rightarrow> 'a env_scheme \<Rightarrow>
     ((int \<times> modules_address) \<times> 'a env_scheme) option" where
  "load_modules cfg fc var d c m e =
     (let base_addr = GUEST_RAM0_BASE
      in do { (rc, e1) \<leftarrow> prepare_domain_physmap cfg var d (XEN_PHYS_PFN base_addr) c e;
              if rc \<noteq> 0 then Some ((rc, m), e1)
              else
                do { ((rc2, m2), e2) \<leftarrow> probe_uimage cfg fc var d c m e1;
                     if rc2 = 0 then Some ((0, m2), e2)
                     else
                       do { ((rc3, m3), e3) \<leftarrow> probe_zimage cfg fc var d base_addr 0 c m2 e2;
                            Some ((if rc3 \<noteq> 0 then rc3 else 0, m3), e3) } } })"

section \<open>Devices\<close>

text \<open>The result of the last mapping; the result of giving access is overwritten.\<close>

fun share_domain_iomems :: "int \<Rightarrow> xen_domain_iomem list \<Rightarrow> int \<Rightarrow> 'a env_scheme \<Rightarrow> int \<times> 'a env_scheme" where
  "share_domain_iomems d [] rc e = (rc, e)"
| "share_domain_iomems d (m # ms) rc e =
     (let (rc1, e1) = ext_call ''xen_domctl_iomem_permission'' [d, uint (first_mfn m), uint (nr_mfns m), 1] e;
          gfn = (if first_gfn m = 0 then first_mfn m else first_gfn m);
          (rc2, e2) = ext_call ''xen_domctl_memory_mapping'' [d, uint gfn, uint (first_mfn m), uint (nr_mfns m), 1] e1
      in share_domain_iomems d ms rc2 e2)"

text \<open>Likewise the result of the last binding.\<close>

fun bind_domain_irqs :: "int \<Rightarrow> u32 list \<Rightarrow> int \<Rightarrow> 'a env_scheme \<Rightarrow> int \<times> 'a env_scheme" where
  "bind_domain_irqs d [] rc e = (rc, e)"
| "bind_domain_irqs d (i # is) rc e =
     (let (rc1, e1) = ext_call ''xen_domctl_bind_pt_irq'' [d, uint i, PT_IRQ_TYPE_SPI, 0, 0, 0, 0, uint i] e
      in bind_domain_irqs d is rc1 e1)"

fun assign_dtdevs :: "int \<Rightarrow> string list \<Rightarrow> 'a env_scheme \<Rightarrow> int \<times> 'a env_scheme" where
  "assign_dtdevs d [] e = (0, e)"
| "assign_dtdevs d (p # ps) e =
     (let (rc, e1) = ext_call ''xen_domctl_assign_dt_device'' (d # map of_char p) e
      in if rc \<noteq> 0 then (rc, e1) else assign_dtdevs d ps e1)"

end
