(* ===== verification/Dom_Image_Props.thy ===== *)
theory Dom_Image_Props
  imports Dom_Image Dom_Fdt_Props
begin

text \<open>
  Where the device tree of a domain is placed, the number of interrupts a domain is given, and what
  the loops over shared devices report.
\<close>

section \<open>Rounding\<close>

lemma unat_round:
  assumes "unat x < 2 ^ 62"
  shows "unat (ROUND_UP x 0x200000) = (unat x + 0x1FFFFF) div 0x200000 * 0x200000"
proof -
  have s: "unat (x + (0x200000 - 1)) = unat x + 0x1FFFFF"
  proof -
    have "unat (x + 0x1FFFFF) = unat x + 0x1FFFFF" unfolding unat_word_ariths(1) using assms by simp
    then show ?thesis by simp
  qed
  have d: "unat ((x + (0x200000 - 1)) div 0x200000) = (unat x + 0x1FFFFF) div 0x200000"
    using s by (simp only: unat_div) simp
  have "(unat x + 0x1FFFFF) div 0x200000 * 0x200000 \<le> unat x + 0x1FFFFF" by simp
  then have "(unat x + 0x1FFFFF) div 0x200000 * 0x200000 < 2 ^ 64" using assms by simp
  then show ?thesis unfolding ROUND_UP_def unat_word_ariths(2) d by simp
qed

lemma round_bounds:
  assumes "unat x < 2 ^ 62"
  shows "unat x \<le> unat (ROUND_UP x 0x200000)" "unat (ROUND_UP x 0x200000) < unat x + 0x200000"
  unfolding unat_round [OF assms] by linarith+

lemma unat_plus: "unat a + unat b < 2 ^ 64 \<Longrightarrow> unat (a + b) = unat a + unat (b :: u64)"
  unfolding unat_word_ariths(1) by simp

lemma unat_minus: "unat b \<le> unat a \<Longrightarrow> unat (a - b) = unat a - unat (b :: u64)"
  by (simp add: unat_sub word_le_nat_alt)

section \<open>The place of the device tree\<close>

text \<open>Memory of less than \<open>2^62\<close> bytes that does not wrap, with the kernel inside.\<close>

definition layout_ok :: "u64 \<Rightarrow> u64 \<Rightarrow> u64 \<Rightarrow> u64 \<Rightarrow> u64 \<Rightarrow> bool" where
  "layout_ok rambase ramsize kernbase kernsize dtbsize \<longleftrightarrow>
     unat rambase < 2 ^ 62 \<and> unat ramsize < 2 ^ 62 \<and> unat dtbsize < 2 ^ 61 \<and> unat rambase \<le> unat kernbase \<and>
     unat kernbase + unat kernsize \<le> unat rambase + unat ramsize"

text \<open>The function over the natural numbers.\<close>

lemma get_dtb_addr_nat:
  fixes rambase ramsize kernbase kernsize dtbsize
  defines "m \<equiv> unat (ROUND_UP dtbsize 0x200000)" and "k \<equiv> unat (ROUND_UP kernsize 0x200000)"
  assumes "layout_ok rambase ramsize kernbase kernsize dtbsize"
  shows "unat (get_dtb_addr rambase ramsize kernbase kernsize dtbsize) =
    (if unat ramsize < m + k then 0
     else if 0x8000000 + m \<le> unat ramsize \<and> unat kernbase + unat kernsize < unat rambase + 0x8000000 then unat rambase + 0x8000000
     else if k < unat rambase + unat ramsize - m then unat rambase + unat ramsize - m
     else if m < unat kernbase - unat rambase then unat kernbase - m
     else 0)"
proof -
  note l = assms(3) [unfolded layout_ok_def]
  have ks: "unat kernsize < 2 ^ 62" using l by linarith
  have m: "m < 2 ^ 62" unfolding m_def using round_bounds(2) [of dtbsize] l by simp
  have k: "k < 2 ^ 63" unfolding k_def using round_bounds(2) [OF ks] ks by simp
  have e: "unat (rambase + ramsize) = unat rambase + unat ramsize" "unat (rambase + 0x8000000) = unat rambase + 0x8000000"
    "unat (kernbase + kernsize) = unat kernbase + unat kernsize" "unat (kernbase - rambase) = unat kernbase - unat rambase"
    using unat_plus [of rambase ramsize] unat_plus [of rambase "0x8000000"] unat_plus [of kernbase kernsize] unat_minus [of rambase kernbase] l
    by simp_all
  have mk: "unat (ROUND_UP dtbsize 0x200000 + ROUND_UP kernsize 0x200000) = m + k"
    unfolding m_def k_def by (rule unat_plus) (use m k in \<open>simp add: m_def k_def\<close>)
  have r1: "unat (rambase + 0x8000000 + ROUND_UP dtbsize 0x200000) = unat rambase + 0x8000000 + m"
    using unat_plus [of "rambase + 0x8000000" "ROUND_UP dtbsize 0x200000"] e(2) m l by (simp add: m_def)
  show ?thesis
  proof (cases "unat ramsize < m + k")
    case True
    then show ?thesis by (simp add: get_dtb_addr_def Let_def word_less_nat_alt mk)
  next
    case False
    have r2: "unat (rambase + ramsize - ROUND_UP dtbsize 0x200000) = unat rambase + unat ramsize - m"
      using unat_minus [of "ROUND_UP dtbsize 0x200000" "rambase + ramsize"] e(1) False by (simp add: m_def)
    have r3: "m < unat kernbase - unat rambase \<Longrightarrow> unat (kernbase - ROUND_UP dtbsize 0x200000) = unat kernbase - m"
      using unat_minus [of "ROUND_UP dtbsize 0x200000" kernbase] by (simp add: m_def)
    show ?thesis using False r3
      unfolding get_dtb_addr_def Let_def word_less_nat_alt word_le_nat_alt mk r1 r2 e m_def [symmetric] k_def [symmetric]
      by (simp add: e r2)
  qed
qed

text \<open>C22. A place that \<open>get_dtb_addr\<close> finds for the device tree lies in the range of memory that its caller passes,
  whenever the kernel lies there too, and it is off the kernel whenever the kernel ends below the last
  part of this range that can take the device tree.\<close>

theorem dtb_placed_in_ram:
  assumes "layout_ok rambase ramsize kernbase kernsize dtbsize"
    "a = get_dtb_addr rambase ramsize kernbase kernsize dtbsize" "a \<noteq> 0"
  shows "unat rambase \<le> unat a \<and> unat a + unat dtbsize \<le> unat rambase + unat ramsize \<and>
    (unat kernbase + unat kernsize + unat (ROUND_UP dtbsize 0x200000) \<le> unat rambase + unat ramsize \<longrightarrow>
     unat a + unat dtbsize \<le> unat kernbase \<or> unat kernbase + unat kernsize \<le> unat a)"
proof -
  define m where "m = unat (ROUND_UP dtbsize 0x200000)"
  define k where "k = unat (ROUND_UP kernsize 0x200000)"
  have l: "unat dtbsize < 2 ^ 62" "unat rambase \<le> unat kernbase" "unat kernbase \<le> unat rambase + unat ramsize" using assms(1) by (simp_all add: layout_ok_def)
  have d: "unat dtbsize \<le> m" unfolding m_def by (rule round_bounds(1) [OF l(1)])
  have "unat a \<noteq> 0" using assms(3) by (simp add: unat_eq_zero)
  moreover have "unat a = (if unat ramsize < m + k then 0
     else if 0x8000000 + m \<le> unat ramsize \<and> unat kernbase + unat kernsize < unat rambase + 0x8000000 then unat rambase + 0x8000000
     else if k < unat rambase + unat ramsize - m then unat rambase + unat ramsize - m
     else if m < unat kernbase - unat rambase then unat kernbase - m
     else 0)"
    unfolding assms(2) m_def k_def by (rule get_dtb_addr_nat [OF assms(1)])
  ultimately show ?thesis using d l(2,3) unfolding m_def [symmetric] by (simp split: if_splits) linarith+
qed

theorem dtb_placed_in_ram_witness:
  "let a = get_dtb_addr 0x40000000 0x8000000 0x40080000 0x1000000 8192
   in 0x40000000 \<le> unat a \<and> unat a + 8192 \<le> 0x48000000 \<and> 0x41080000 \<le> unat a"
proof -
  let ?a = "get_dtb_addr 0x40000000 0x8000000 0x40080000 0x1000000 8192"
  have 1: "layout_ok 0x40000000 0x8000000 0x40080000 0x1000000 8192" by (simp add: layout_ok_def)
  have v: "?a = 0x47E00000" by code_simp
  then have 2: "?a \<noteq> 0" by simp
  have 3: "unat (0x40080000 :: u64) + unat (0x1000000 :: u64) + unat (ROUND_UP 8192 0x200000) \<le> unat (0x40000000 :: u64) + unat (0x8000000 :: u64)"
    by (simp add: unat_round)
  from dtb_placed_in_ram [OF 1 refl 2] 3 v show ?thesis by (simp add: Let_def)
qed

text \<open>A kernel that ends in the last part of a small memory is overwritten: the second test of
  \<open>get_dtb_addr\<close> compares the address of the last part of the memory with the size of the kernel, succeeds,
  and the device tree is put over the end of the kernel; the place before the kernel is never tried.\<close>

theorem dtb_overwrites_kernel:
  assumes "layout_ok 0x40000000 ramsize kernbase kernsize dtbsize" "unat ramsize < 0x8000000" "0 < dtbsize"
    "unat (ROUND_UP dtbsize 0x200000) + unat (ROUND_UP kernsize 0x200000) \<le> unat ramsize"
    "0x40000000 + unat ramsize - unat (ROUND_UP dtbsize 0x200000) < unat kernbase + unat kernsize"
    "unat kernbase \<le> 0x40000000 + unat ramsize - unat (ROUND_UP dtbsize 0x200000)"
  shows "let a = get_dtb_addr 0x40000000 ramsize kernbase kernsize dtbsize
    in unat a = 0x40000000 + unat ramsize - unat (ROUND_UP dtbsize 0x200000) \<and>
       unat kernbase \<le> unat a \<and> unat a < unat kernbase + unat kernsize"
proof -
  let ?m = "unat (ROUND_UP dtbsize 0x200000)" and ?k = "unat (ROUND_UP kernsize 0x200000)"
  have "?k < 0x40000000 + unat ramsize - ?m" using assms(2,4) by linarith
  then have "unat (get_dtb_addr 0x40000000 ramsize kernbase kernsize dtbsize) = 0x40000000 + unat ramsize - ?m"
    using get_dtb_addr_nat [OF assms(1)] assms(2,4) by simp
  then show ?thesis using assms(5,6) by (simp add: Let_def)
qed

theorem dtb_overwrites_kernel_witness:
  "let a = get_dtb_addr 0x40000000 0x1000000 0x40400000 0xB00000 8192
   in unat a = 0x40E00000 \<and> 0x40400000 \<le> unat a \<and> unat a < 0x40F00000"
proof -
  have 1: "layout_ok 0x40000000 0x1000000 0x40400000 0xB00000 8192" by (simp add: layout_ok_def)
  from dtb_overwrites_kernel [OF 1] show ?thesis by (simp add: Let_def unat_round)
qed

text \<open>The placement trusts its caller for the memory.  \<open>probe_uimage\<close> passes the load address of the image
  as the start of the memory together with the size of all of it, so that in a small memory an image that
  is loaded above the start gets its device tree behind the end of the memory.\<close>

theorem uimage_dtb_outside_ram:
  assumes "layout_ok base ramsize kernbase kernsize dtbsize" "unat ramsize < 0x8000000"
    "unat (ROUND_UP dtbsize 0x200000) + unat (ROUND_UP kernsize 0x200000) \<le> unat ramsize"
    "0x40000000 + unat (ROUND_UP dtbsize 0x200000) \<le> unat base"
  shows "0x40000000 + unat ramsize \<le> unat (get_dtb_addr base ramsize kernbase kernsize dtbsize)"
proof -
  let ?m = "unat (ROUND_UP dtbsize 0x200000)" and ?k = "unat (ROUND_UP kernsize 0x200000)"
  have "?k < unat base + unat ramsize - ?m" using assms(2-4) by linarith
  then have "unat (get_dtb_addr base ramsize kernbase kernsize dtbsize) = unat base + unat ramsize - ?m"
    using get_dtb_addr_nat [OF assms(1)] assms(2,3) by simp
  then show ?thesis using assms(4) by linarith
qed

theorem uimage_dtb_outside_ram_witness:
  "0x40000000 + unat (0x1000000 :: u64) \<le> unat (get_dtb_addr 0x40800000 0x1000000 0x40800000 0x100000 8192)"
proof -
  have 1: "layout_ok 0x40800000 0x1000000 0x40800000 0x100000 8192" by (simp add: layout_ok_def)
  show ?thesis by (rule uimage_dtb_outside_ram [OF 1]) (simp_all add: unat_round)
qed

section \<open>Interrupts and devices\<close>

lemma max_irq_loop_max: "max_irq_loop m is = Max (insert m (set is))"
proof (induction "is" arbitrary: m)
  case (Cons i "is")
  have "Max (insert m (set (i # is))) = max m (Max (insert i (set is)))" by (cases "is") (auto simp: max.assoc)
  also have "\<dots> = Max (insert (max m i) (set is))" by (cases "is") (auto simp: max.assoc max.left_commute)
  also have "max m i = (if m < i then i else m)" by (cases "m < i") (auto simp: max_def)
  finally show ?case by (simp add: Cons.IH)
qed simp

text \<open>The number of shared interrupts a domain is created with is the greatest interrupt number of its
  configuration, 0 when there is none.\<close>

theorem spis_cover_interrupts:
  "cd_nr_spis (arch_prepare_domain_cfg c create) = (if irqs c = [] then 0 else Max (set (irqs c)))"
  by (auto simp: arch_prepare_domain_cfg_def max_irq_loop_max split: list.split)

text \<open>Only the result of the last interrupt is reported.\<close>

theorem irq_failures_masked:
  "fst (bind_domain_irqs d (is @ [i]) rc e) =
     fst (ext_call ''xen_domctl_bind_pt_irq'' [d, uint i, PT_IRQ_TYPE_SPI, 0, 0, 0, 0, uint i] (snd (bind_domain_irqs d is rc e)))"
  by (induction "is" arbitrary: rc e) (simp_all add: Let_def case_prod_unfold)

text \<open>An image that cannot be read leaves the pages of the domain mapped.\<close>

theorem unread_image_stays_mapped:
  assumes "map_pages cfg d (DIV_ROUND_UP domain_size XEN_PAGE_SIZE) (XEN_PHYS_PFN load_addr) var e = ((0, Some addr), e1)"
    "load_bytes (unat domain_size) off = (r, bs)" "r < 0"
  shows "load_image cfg var d load_bytes off load_addr domain_size m e = Some ((r, m), copy_to addr bs e1)"
  using assms by (simp add: load_image_def Let_def)

end
