(* ===== verification/Dom_Mgmt.thy ===== *)
theory Dom_Mgmt
  imports Dom_Image Dom_Xs Console
begin

text \<open>
  The registry of domains, the second half of \<open>xen-dom-mgmt.c\<close>: creating, pausing and destroying
  domains, the reference counts, and the domains that Xen starts itself.  The functions are modelled
  as one thread runs them; results are \<open>None\<close> where the code follows a dangling or null pointer,
  fails an assertion or reads a variable that has not been set.
\<close>

section \<open>State\<close>

text \<open>\<open>struct xen_domain\<close>; the published part is \<open>dom_info\<close>, the link in the list is left to
  \<open>domain_list\<close>.\<close>

record xen_domain = dom_info +
  dm_domid :: u32
  dm_xenstore :: xenstore
  address_size :: int
  refcount :: int
  dm_console :: xen_domain_console
  back_state :: backends_state
  f_dom0less :: bool

text \<open>\<open>dom_heap\<close> holds the domain structures by their addresses, \<open>dom_next\<close> is an address not used so
  far.  \<open>dw_srv\<close> is the state of the store and \<open>dw_con\<close> that of the consoles; they share the
  environment, which is kept in \<open>dw_srv\<close>.\<close>

record dom_world =
  dw_srv :: xs_server
  dw_con :: con_world
  dom_heap :: "nat \<Rightarrow> xen_domain option"
  dom_next :: nat
  domain_list :: "nat list"
  dom_num :: int

text \<open>The configuration of the build and what the platform provides: \<open>dp_var\<close> the address of a local
  variable, the pages of a guest as the mappings show them, and what the threads of a console do
  while it is stopped.\<close>

record dom_par =
  dp_cfg :: xen_cfg
  dp_con :: con_cfg
  dp_fdt :: fdt_cfg
  dp_flask :: bool
  dp_console_srv :: bool
  dp_asserts :: bool
  dp_var :: u64
  dp_store_page :: xenstore_domain_interface
  dp_con_page :: xencons_interface
  dp_reader :: "(xencons_interface \<Rightarrow> xencons_interface) list option"
  dp_waiting :: bool

abbreviation (input) CONTAINER_NAME_SIZE :: nat where "CONTAINER_NAME_SIZE \<equiv> 64"

definition zero_xenstore :: "u32 \<Rightarrow> xenstore" where
  "zero_xenstore d =
     \<lparr>out_list = [], in_buf = None, used_out_bufs = 0, domint = None, domint_addr = 0, xs_domid = d, thrd_stop = False,
      remote_evtchn = 0, local_evtchn = 0, xs_stack_slot = 0, transaction = 0, running_transaction = 0,
      stop_transaction_id = 0, pending_stop_transaction = False\<rparr>"

definition zero_console :: xen_domain_console where
  "zero_console =
     \<lparr>intf = None, intf_addr = 0, ext_sem = False, int_sem = False, ext_running = False, stop_ext = False, stop_int = False,
      con_evtchn = 0, con_local_evtchn = 0, stack_idx = 0, first_attach = False, int_buf = None, int_prod = 0,
      int_cons = 0, lost_chars = 0, on_feed_cb = None, on_feed_cb_data = 0\<rparr>"

definition zero_back_state :: backends_state where
  "zero_back_state =
     (let z = replicate 3 \<lparr>functional = False, bs_backend = 0\<rparr> in \<lparr>bs_vifs = z, bs_disks = z\<rparr>)"

text \<open>A structure that has been cleared, but for its domain.\<close>

definition zero_domain :: "u32 \<Rightarrow> xen_domain" where
  "zero_domain d =
     \<lparr>num_vcpus = 0, max_mem_kb = 0, dom_name = [], dm_domid = d, dm_xenstore = zero_xenstore d, address_size = 0,
      refcount = 0, dm_console = zero_console, back_state = zero_back_state, f_dom0less = False\<rparr>"

section \<open>The shared environment\<close>

definition put_env :: "'b env_scheme \<Rightarrow> 'a env_scheme \<Rightarrow> 'a env_scheme" where
  "put_env e s = s\<lparr>mallocs := mallocs e, locks := locks e, hcalls := hcalls e, trace := trace e\<rparr>"

definition get_env :: "dom_world \<Rightarrow> env" where
  "get_env w = env.truncate (dw_srv w)"

definition set_env :: "env \<Rightarrow> dom_world \<Rightarrow> dom_world" where
  "set_env e w = w\<lparr>dw_srv := put_env e (dw_srv w)\<rparr>"

definition on_env :: "(env \<Rightarrow> 'r \<times> env) \<Rightarrow> dom_world \<Rightarrow> 'r \<times> dom_world" where
  "on_env f w = (let (r, e) = f (get_env w) in (r, set_env e w))"

definition on_env_opt :: "(env \<Rightarrow> ('r \<times> env) option) \<Rightarrow> dom_world \<Rightarrow> ('r \<times> dom_world) option" where
  "on_env_opt f w = do { (r, e) \<leftarrow> f (get_env w); Some (r, set_env e w) }"

definition hyp_call :: "string \<Rightarrow> int list \<Rightarrow> dom_world \<Rightarrow> int \<times> dom_world" where
  "hyp_call name args = on_env (ext_call name args)"

definition on_srv :: "(xs_server \<Rightarrow> ('r \<times> xs_server) option) \<Rightarrow> dom_world \<Rightarrow> ('r \<times> dom_world) option" where
  "on_srv f w = do { (r, s) \<leftarrow> f (dw_srv w); Some (r, w\<lparr>dw_srv := s\<rparr>) }"

definition on_con :: "(con_world \<Rightarrow> ('r \<times> con_world) option) \<Rightarrow> dom_world \<Rightarrow> ('r \<times> dom_world) option" where
  "on_con f w =
     do { (r, c) \<leftarrow> f (put_env (dw_srv w) (dw_con w)); Some (r, w\<lparr>dw_con := c, dw_srv := put_env c (dw_srv w)\<rparr>) }"

section \<open>The services of a domain\<close>

definition start_store ::
  "dom_par \<Rightarrow> u64 \<Rightarrow> xen_domain \<Rightarrow> dom_world \<Rightarrow> ((int \<times> xen_domain) \<times> dom_world) option" where
  "start_store P store_pfn x =
     on_srv (\<lambda>s. do { (rc, xs, s1) \<leftarrow> start_domain_stored (dp_cfg P) (dp_var P) (dp_store_page P) (f_dom0less x) store_pfn
                                          (dm_xenstore x) s;
                      Some ((rc, x\<lparr>dm_xenstore := xs\<rparr>), s1) })"

definition stop_store :: "dom_par \<Rightarrow> xen_domain \<Rightarrow> dom_world \<Rightarrow> ((int \<times> xen_domain) \<times> dom_world) option" where
  "stop_store P x =
     on_srv (\<lambda>s. do { (rc, xs, s1) \<leftarrow> stop_domain_stored (dp_cfg P) False (dm_xenstore x) s;
                      Some ((rc, x\<lparr>dm_xenstore := xs\<rparr>), s1) })"

definition con_arg :: "xen_domain \<Rightarrow> (u32 \<times> bool \<times> xen_domain_console) option" where
  "con_arg x = Some (dm_domid x, f_dom0less x, dm_console x)"

definition set_console :: "xen_domain_console option \<Rightarrow> xen_domain \<Rightarrow> xen_domain" where
  "set_console c x = (case c of None \<Rightarrow> x | Some con \<Rightarrow> x\<lparr>dm_console := con\<rparr>)"

definition start_console :: "dom_par \<Rightarrow> xen_domain \<Rightarrow> dom_world \<Rightarrow> ((int \<times> xen_domain) \<times> dom_world) option" where
  "start_console P x w =
     (if \<not> dp_console_srv P then Some ((0, x), w)
      else on_con (\<lambda>s. do { (rc, c, s1) \<leftarrow> xen_start_domain_console (dp_con P) (dp_var P) (dp_con_page P) (con_arg x) s;
                            Some ((rc, set_console c x), s1) }) w)"

definition stop_console :: "dom_par \<Rightarrow> xen_domain \<Rightarrow> dom_world \<Rightarrow> ((int \<times> xen_domain) \<times> dom_world) option" where
  "stop_console P x w =
     (if \<not> dp_console_srv P then Some ((0, x), w)
      else on_con (\<lambda>s. do { (rc, c, s1) \<leftarrow> xen_stop_domain_console (dp_con P) (dp_reader P) (dp_waiting P) (con_arg x) s;
                            Some ((rc, set_console c x), s1) }) w)"

section \<open>References\<close>

text \<open>The walk over the list: the first domain with this id.\<close>

fun find_dom :: "u32 \<Rightarrow> nat list \<Rightarrow> (nat \<Rightarrow> xen_domain option) \<Rightarrow> nat option option" where
  "find_dom d [] h = Some None"
| "find_dom d (p # ps) h = do { x \<leftarrow> h p; if dm_domid x = d then Some (Some p) else find_dom d ps h }"

definition add_ref :: "int \<Rightarrow> nat \<Rightarrow> dom_world \<Rightarrow> dom_world option" where
  "add_ref k p w = do { x \<leftarrow> dom_heap w p; Some (w\<lparr>dom_heap := (dom_heap w)(p \<mapsto> x\<lparr>refcount := refcount x + k\<rparr>)\<rparr>) }"

definition get_domain :: "u32 \<Rightarrow> dom_world \<Rightarrow> (nat option \<times> dom_world) option" where
  "get_domain d w =
     do { r \<leftarrow> find_dom d (domain_list w) (dom_heap w);
          case r of
            None \<Rightarrow> Some (None, w)
          | Some p \<Rightarrow> do { w1 \<leftarrow> add_ref 1 p w; Some (Some p, w1) } }"

text \<open>What \<open>put_domain\<close> does when the last reference is gone: the domain at \<open>p\<close> is taken apart and
  leaves the list.\<close>

definition take_apart :: "dom_par \<Rightarrow> xen_domain \<Rightarrow> dom_world \<Rightarrow> dom_world option" where
  "take_apart P x w =
     do { ((rc1, bs), w1) \<leftarrow> on_srv (\<lambda>s. do { (rc, bs, s1) \<leftarrow> xs_remove_xenstore_backends (dm_domid x) (back_state x) s;
                                              Some ((rc, bs), s1) }) w;
          ((rc2, x2), w2) \<leftarrow> stop_store P (x\<lparr>back_state := bs\<rparr>) w1;
          (_, w3) \<leftarrow> on_srv (\<lambda>s. map_option (Pair ()) (xs_deinitialize_domain_xenstore (dm_domid x) s)) w2;
          ((rc3, x3), w4) \<leftarrow> stop_console P x2 w3;
          Some (snd (hyp_call ''xen_domctl_destroydomain'' [uint (dm_domid x)] w4)) }"

definition unlink_domain :: "nat \<Rightarrow> dom_world \<Rightarrow> dom_world option" where
  "unlink_domain p w =
     (if p \<notin> set (domain_list w) then None
      else Some (w\<lparr>domain_list := remove1 p (domain_list w), dom_num := dom_num w - 1, dom_heap := (dom_heap w)(p := None)\<rparr>))"

definition put_domain :: "dom_par \<Rightarrow> nat option \<Rightarrow> dom_world \<Rightarrow> dom_world option" where
  "put_domain P domain w =
     (case domain of
        None \<Rightarrow> Some w
      | Some p \<Rightarrow>
          do { x \<leftarrow> dom_heap w p;
               if dp_asserts P \<and> f_dom0less x then None
               else
                 do { w1 \<leftarrow> add_ref (- 1) p w;
                      x1 \<leftarrow> dom_heap w1 p;
                      if refcount x1 = 0 then do { w2 \<leftarrow> take_apart P x1 w1; unlink_domain p w2 } else Some w1 } })"

section \<open>Finding by name\<close>

text \<open>\<open>strncmp(a, b, n) == 0\<close>.\<close>

definition strncmp_eq :: "nat \<Rightarrow> char list \<Rightarrow> char list \<Rightarrow> bool" where
  "strncmp_eq n a b \<longleftrightarrow> takeWhile (\<lambda>c. c \<noteq> NUL) (take n a) = takeWhile (\<lambda>c. c \<noteq> NUL) (take n b)"

text \<open>The configurations of the application come first, then those of the section of the linker.\<close>

definition domain_find_config ::
  "'a xen_domain_cfg_scheme list \<Rightarrow> 'a xen_domain_cfg_scheme list \<Rightarrow> string \<Rightarrow> 'a xen_domain_cfg_scheme option" where
  "domain_find_config user sec name = List.find (\<lambda>c. strncmp_eq CONTAINER_NAME_SIZE (cfg_name c) name) (user @ sec)"

text \<open>The defaults of the functions an application may define.\<close>

definition domain_get_user_cfg_count :: int where
  "domain_get_user_cfg_count = 0"

definition domain_get_user_cfg :: "int \<Rightarrow> xen_domain_cfg option" where
  "domain_get_user_cfg index = None"

definition get_domain_name :: "u16 \<Rightarrow> nat \<Rightarrow> 'a xs_store_scheme \<Rightarrow> ((int \<times> char list option) \<times> 'a xs_store_scheme) option" where
  "get_domain_name domain_id len w =
     xss_read (Some (snd (snprintf 25 (''/local/domain/'' @ fmt_d (uint domain_id) @ ''/name'')))) len w"

text \<open>The domains the hypervisor reports, at most \<open>n\<close> of them.\<close>

fun infos_out :: "nat \<Rightarrow> 'a env_scheme \<Rightarrow> xen_domctl_getdomaininfo list \<times> 'a env_scheme" where
  "infos_out 0 e = ([], e)"
| "infos_out (Suc n) e =
     (let (os, e1) = ext_out 9 e; (is, e2) = infos_out n e1 in (getdomaininfo_of os # is, e2))"

definition sysctl_getdomaininfo ::
  "int \<Rightarrow> nat \<Rightarrow> 'a env_scheme \<Rightarrow> (int \<times> xen_domctl_getdomaininfo list) \<times> 'a env_scheme" where
  "sysctl_getdomaininfo first_domain n e =
     (let (ret, e1) = ext_call ''xen_sysctl_getdomaininfo'' [first_domain, int n] e;
          (is, e2) = infos_out (nat ret) e1
      in ((ret, is), e2))"

fun name_loop :: "xen_domctl_getdomaininfo list \<Rightarrow> string \<Rightarrow> 'a xs_store_scheme \<Rightarrow> (u32 \<times> 'a xs_store_scheme) option" where
  "name_loop [] arg w = Some (0, w)"
| "name_loop (i # is) arg w =
     do { ((rc, buf), w1) \<leftarrow> get_domain_name (gi_domain i) CONTAINER_NAME_SIZE w;
          if rc \<noteq> 0 then name_loop is arg w1
          else do { domname \<leftarrow> buf;
                    if strncmp_eq CONTAINER_NAME_SIZE domname arg then Some (ucast (gi_domain i), w1)
                    else name_loop is arg w1 } }"

text \<open>The array has \<open>ALL_DOMAINS_MAX\<close> elements.\<close>

definition find_domain_by_name :: "nat \<Rightarrow> string \<Rightarrow> 'a xs_store_scheme \<Rightarrow> (u32 \<times> 'a xs_store_scheme) option" where
  "find_domain_by_name domu_max arg w =
     (let ((ret, infos), w1) = sysctl_getdomaininfo 0 (domu_max + 1) w
      in if ret < 0 then Some (0, w1)
         else if int (domu_max + 1) < ret then None
         else name_loop infos arg w1)"

section \<open>Creating domains\<close>

definition allocate_domain_evtchns :: "xen_domain \<Rightarrow> env \<Rightarrow> (int \<times> xen_domain) \<times> env" where
  "allocate_domain_evtchns x e =
     (let (rc, e1) = ext_call ''alloc_unbound_event_channel_dom0'' [uint (dm_domid x), 0] e
      in if rc < 0 then ((rc, x), e1)
         else
           let x1 = x\<lparr>dm_xenstore := (dm_xenstore x)\<lparr>remote_evtchn := of_int rc\<rparr>\<rparr>;
               (rc2, e2) = ext_call ''alloc_unbound_event_channel_dom0'' [uint (dm_domid x), 0] e1
           in if rc2 < 0 then ((rc2, x1), e2)
              else ((0, x1\<lparr>dm_console := (dm_console x1)\<lparr>con_evtchn := of_int rc2\<rparr>\<rparr>), e2))"

text \<open>A step of the construction: a result other than 0 goes to \<open>domain_free\<close>.\<close>

type_synonym setup_step = "xen_domain \<times> modules_address \<Rightarrow> env \<Rightarrow> ((int \<times> xen_domain \<times> modules_address) \<times> env) option"

fun setup_steps :: "setup_step list \<Rightarrow> setup_step" where
  "setup_steps [] s e = Some ((0, s), e)"
| "setup_steps (f # fs) s e =
     do { ((rc, s1), e1) \<leftarrow> f s e; if rc \<noteq> 0 then Some ((rc, s1), e1) else setup_steps fs s1 e1 }"

definition call_step :: "(env \<Rightarrow> int \<times> env) \<Rightarrow> (xen_domain \<Rightarrow> xen_domain) \<Rightarrow> setup_step" where
  "call_step f upd s e = (let (rc, e1) = f e in Some ((rc, if rc \<noteq> 0 then s else (upd (fst s), snd s)), e1))"

definition max_mem :: "xen_domain_cfg \<Rightarrow> u64" where
  "max_mem c = mem_kb c + of_int ((gnt_frames c + 4) * 4096)"

definition vcpu_context :: "modules_address \<Rightarrow> int list" where
  "vcpu_context m = [uint (dtb_addr m), uint (ventry m), 0x1c5, 0x00c50078, 1]"

definition domain_setup :: "dom_par \<Rightarrow> xen_domain_cfg \<Rightarrow> u32 \<Rightarrow> setup_step list" where
  "domain_setup P c d =
     [call_step (ext_call ''xen_domctl_max_vcpus'' [uint d, uint (max_vcpus c)]) (\<lambda>x. x\<lparr>num_vcpus := sint (max_vcpus c)\<rparr>),
      call_step (ext_call ''xen_domctl_set_address_size'' [uint d, 64]) (\<lambda>x. x\<lparr>address_size := 64\<rparr>),
      (\<lambda>(x, m). call_step (ext_call ''xen_domctl_max_mem'' [uint d, uint (max_mem c)]) (\<lambda>x. x) (x\<lparr>max_mem_kb := max_mem c\<rparr>, m)),
      call_step (ext_call ''xen_domctl_set_paging_mempool_size''
                   [uint d, uint (ucast (max_vcpus c * 1024 * 1024) + 8 * mem_kb c)]) (\<lambda>x. x),
      (\<lambda>(x, m) e. let ((rc, x1), e1) = allocate_domain_evtchns x e in Some ((rc, x1, m), e1)),
      (\<lambda>(x, m) e. do { ((rc, m1), e1) \<leftarrow> load_modules (dp_cfg P) (dp_fdt P) (dp_var P) (sint d) c m e;
                       Some ((if rc \<noteq> 0 then rc else if ventry m1 = 0 then - EINVAL else 0, x, m1), e1) }),
      call_step (share_domain_iomems (sint d) (iomems c) 0) (\<lambda>x. x),
      call_step (bind_domain_irqs (sint d) (irqs c) 0) (\<lambda>x. x),
      call_step (assign_dtdevs (sint d) (dtdevs c)) (\<lambda>x. x),
      (\<lambda>(x, m). call_step (ext_call ''xen_domctl_setvcpucontext'' ([uint d, 0] @ vcpu_context m)) (\<lambda>x. x) (x, m))]"

text \<open>The exits of \<open>domain_create\<close>, from the last label to the first.\<close>

definition destroy_domain :: "u32 \<Rightarrow> int \<Rightarrow> dom_world \<Rightarrow> (int \<times> dom_world) option" where
  "destroy_domain d rc w = Some (rc, snd (hyp_call ''xen_domctl_destroydomain'' [uint d] w))"

definition domain_free :: "nat \<Rightarrow> u32 \<Rightarrow> int \<Rightarrow> dom_world \<Rightarrow> (int \<times> dom_world) option" where
  "domain_free p d rc w = destroy_domain d rc (w\<lparr>dom_heap := (dom_heap w)(p := None)\<rparr>)"

definition free_domain_stored :: "dom_par \<Rightarrow> nat \<Rightarrow> u32 \<Rightarrow> int \<Rightarrow> xen_domain \<Rightarrow> dom_world \<Rightarrow> (int \<times> dom_world) option" where
  "free_domain_stored P p d rc x w = do { ((rc1, x1), w1) \<leftarrow> stop_store P x w; domain_free p d rc w1 }"

definition stop_domain_console :: "dom_par \<Rightarrow> nat \<Rightarrow> u32 \<Rightarrow> int \<Rightarrow> xen_domain \<Rightarrow> dom_world \<Rightarrow> (int \<times> dom_world) option" where
  "stop_domain_console P p d rc x w = do { ((rc1, x1), w1) \<leftarrow> stop_console P x w; free_domain_stored P p d rc x1 w1 }"

text \<open>The end of a successful creation, under \<open>dl_mutex\<close>.\<close>

definition register_domain :: "nat \<Rightarrow> xen_domain \<Rightarrow> dom_world \<Rightarrow> dom_world" where
  "register_domain p x w =
     w\<lparr>dom_heap := (dom_heap w)(p \<mapsto> x), domain_list := domain_list w @ [p], dom_num := dom_num w + 1\<rparr>"

text \<open>From the start of the store service to the end; the structure is at \<open>p\<close>.\<close>

definition publish_domain :: "dom_par \<Rightarrow> xen_domain_cfg \<Rightarrow> string \<Rightarrow> nat \<Rightarrow> u32 \<Rightarrow> xen_domain \<Rightarrow> dom_world \<Rightarrow> (int \<times> dom_world) option" where
  "publish_domain P c name p d x w =
     do { ((rc1, x1), w1) \<leftarrow> start_store P (XEN_PHYS_PFN GUEST_MAGIC_BASE + XENSTORE_PFN_OFFSET) x w;
          if rc1 \<noteq> 0 then domain_free p d rc1 w1
          else
            do { ((rc2, x2), w2) \<leftarrow> start_console P x1 w1;
                 if rc2 \<noteq> 0 then free_domain_stored P p d rc2 x2 w2
                 else
                   do { (other, w3) \<leftarrow> on_srv (find_domain_by_name (cfg_domu_max (dp_cfg P)) name) w2;
                        if other \<noteq> 0 then stop_domain_console P p d (- EEXIST) x2 w3
                        else
                          do { (rc4, w4) \<leftarrow> on_srv (xs_initialize_xenstore d (dom_info.truncate x2)) w3;
                               if rc4 \<noteq> 0 then stop_domain_console P p d rc4 x2 w4
                               else
                                 let (rc5, w5) = (if f_paused c then (0, w4) else hyp_call ''xen_domctl_unpausedomain'' [uint d] w4)
                                 in if rc5 \<noteq> 0 then stop_domain_console P p d rc5 x2 w5
                                    else Some (sint d, register_domain p (x2\<lparr>refcount := 1\<rparr>) w5) } } } }"

text \<open>\<open>xen_domctl_createdomain\<close> may choose the id.  When the structure cannot be allocated the result is
  still 0.\<close>

definition create_args :: "u32 \<Rightarrow> xen_domctl_createdomain \<Rightarrow> int list" where
  "create_args d k =
     [uint d, uint (cd_flags k), uint (cd_max_vcpus k), uint (cd_max_evtchn_port k), cd_max_grant_frames k,
      cd_max_maptrack_frames k, uint (cd_ssidref k), uint (cd_grant_opts k), uint (cd_gic_version k), uint (cd_tee_type k),
      uint (cd_nr_spis k)]"

definition zero_createdomain :: xen_domctl_createdomain where
  "zero_createdomain =
     \<lparr>cd_flags = 0, cd_max_vcpus = 0, cd_max_evtchn_port = 0, cd_max_grant_frames = 0, cd_max_maptrack_frames = 0,
      cd_ssidref = 0, cd_grant_opts = 0, cd_gic_version = 0, cd_tee_type = 0, cd_nr_spis = 0\<rparr>"

definition create_in_xen :: "dom_par \<Rightarrow> xen_domain_cfg \<Rightarrow> u32 \<Rightarrow> env \<Rightarrow> (int \<times> u32) \<times> env" where
  "create_in_xen P c d e =
     (let (config, e1) = prepare_domain_cfg (dp_flask P) c zero_createdomain e;
          (rc, e2) = ext_call ''xen_domctl_createdomain'' (create_args d (config\<lparr>cd_grant_opts := 1\<rparr>)) e1;
          (os, e3) = ext_out 1 e2
      in ((rc, of_int (os ! 0)), e3))"

text \<open>The name of the domain, or that of the configuration.\<close>

definition create_name :: "xen_domain_cfg \<Rightarrow> string option" where
  "create_name c = cstr (if 0 < strnlen (cfg_domain_name c) then cfg_domain_name c else cfg_name c)"

definition domain_create :: "dom_par \<Rightarrow> xen_domain_cfg \<Rightarrow> u32 \<Rightarrow> dom_world \<Rightarrow> (int \<times> dom_world) option" where
  "domain_create P c d0 w =
     (if int (cfg_domu_max (dp_cfg P)) \<le> dom_num w then Some (- EINVAL, w)
      else
        let ((rc, d), w1) = on_env (create_in_xen P c d0) w
        in if rc \<noteq> 0 then Some (rc, w1)
           else
             let (ok, w2) = on_env k_malloc w1
             in if \<not> ok then destroy_domain d 0 w2
                else
                  do { name \<leftarrow> create_name c;
                       let p = dom_next w2;
                           x = (zero_domain d)\<lparr>dom_name := snd (snprintf CONTAINER_NAME_SIZE name)\<rparr>;
                           w3 = w2\<lparr>dom_next := Suc p, dom_heap := (dom_heap w2)(p \<mapsto> x)\<rparr>
                       in do { ((rc2, x1, m), w4) \<leftarrow> on_env_opt (setup_steps (domain_setup P c d) (x, \<lparr>ventry = 0, dtb_addr = 0\<rparr>)) w3;
                               if rc2 \<noteq> 0 then domain_free p d rc2 w4 else publish_domain P c name p d x1 w4 } })"

section \<open>Operations on domains\<close>

definition domain_destroy :: "dom_par \<Rightarrow> u32 \<Rightarrow> dom_world \<Rightarrow> (int \<times> dom_world) option" where
  "domain_destroy P d w =
     do { (domain, w1) \<leftarrow> get_domain d w;
          case domain of
            None \<Rightarrow> Some (- EINVAL, w1)
          | Some p \<Rightarrow> do { w2 \<leftarrow> put_domain P (Some p) w1; w3 \<leftarrow> put_domain P (Some p) w2; Some (0, w3) } }"

definition domain_call :: "string \<Rightarrow> dom_par \<Rightarrow> u32 \<Rightarrow> dom_world \<Rightarrow> (int \<times> dom_world) option" where
  "domain_call name P d w =
     do { (domain, w1) \<leftarrow> get_domain d w;
          case domain of
            None \<Rightarrow> Some (- EINVAL, w1)
          | Some p \<Rightarrow> let (rc, w2) = hyp_call name [uint d] w1 in do { w3 \<leftarrow> put_domain P (Some p) w2; Some (rc, w3) } }"

definition domain_pause :: "dom_par \<Rightarrow> u32 \<Rightarrow> dom_world \<Rightarrow> (int \<times> dom_world) option" where
  "domain_pause = domain_call ''xen_domctl_pausedomain''"

definition domain_unpause :: "dom_par \<Rightarrow> u32 \<Rightarrow> dom_world \<Rightarrow> (int \<times> dom_world) option" where
  "domain_unpause = domain_call ''xen_domctl_unpausedomain''"

text \<open>The loops over the configured devices; \<open>upd\<close> notes the back end of a device in the structure at
  \<open>p\<close>, which may be a null pointer.\<close>

definition note_back :: "(nat \<Rightarrow> backend_state \<Rightarrow> backends_state \<Rightarrow> backends_state) \<Rightarrow> nat \<Rightarrow> int \<Rightarrow> nat option \<Rightarrow> dom_world \<Rightarrow> dom_world option" where
  "note_back upd i b domain w =
     do { p \<leftarrow> domain;
          x \<leftarrow> dom_heap w p;
          Some (w\<lparr>dom_heap := (dom_heap w)(p \<mapsto> x\<lparr>back_state := upd i \<lparr>functional = True, bs_backend = b\<rparr> (back_state x)\<rparr>)\<rparr>) }"

definition upd_disk :: "nat \<Rightarrow> backend_state \<Rightarrow> backends_state \<Rightarrow> backends_state" where
  "upd_disk i s b = b\<lparr>bs_disks := (bs_disks b)[i := s]\<rparr>"

definition upd_vif :: "nat \<Rightarrow> backend_state \<Rightarrow> backends_state \<Rightarrow> backends_state" where
  "upd_vif i s b = b\<lparr>bs_vifs := (bs_vifs b)[i := s]\<rparr>"

fun disk_loop :: "nat \<Rightarrow> pv_block_configuration list \<Rightarrow> u32 \<Rightarrow> nat option \<Rightarrow> dom_world \<Rightarrow> (int \<times> dom_world) option" where
  "disk_loop i [] d domain w = Some (0, w)"
| "disk_loop i (k # ks) d domain w =
     (if \<not> blk_configured k then disk_loop (Suc i) ks d domain w
      else do { (rc, w1) \<leftarrow> on_srv (xs_add_pvblock_xenstore k (sint d)) w;
                if rc \<noteq> 0 then Some (rc, w1)
                else do { w2 \<leftarrow> note_back upd_disk i (blk_backend k) domain w1; disk_loop (Suc i) ks d domain w2 } })"

fun vif_loop :: "nat \<Rightarrow> pv_net_configuration list \<Rightarrow> u32 \<Rightarrow> nat option \<Rightarrow> dom_world \<Rightarrow> (int \<times> dom_world) option" where
  "vif_loop i [] d domain w = Some (0, w)"
| "vif_loop i (k # ks) d domain w =
     (if \<not> net_configured k then vif_loop (Suc i) ks d domain w
      else do { (rc, w1) \<leftarrow> on_srv (xs_add_pvnet_xenstore k (sint d) (int i)) w;
                if rc \<noteq> 0 then Some (rc, w1)
                else do { w2 \<leftarrow> note_back upd_vif i (net_backend k) domain w1; vif_loop (Suc i) ks d domain w2 } })"

definition domain_post_create :: "dom_par \<Rightarrow> xen_domain_cfg \<Rightarrow> u32 \<Rightarrow> dom_world \<Rightarrow> (int \<times> dom_world) option" where
  "domain_post_create P c d w =
     do { (domain, w1) \<leftarrow> get_domain d w;
          let deinit = (\<lambda>rc v. do { v1 \<leftarrow> put_domain P domain v; (_, v2) \<leftarrow> domain_destroy P d v1; Some (rc, v2) })
          in do { (rc, w2) \<leftarrow> disk_loop 0 (disks (back_cfg c)) d domain w1;
                  if rc \<noteq> 0 then deinit rc w2
                  else do { (rc2, w3) \<leftarrow> vif_loop 0 (vifs (back_cfg c)) d domain w2;
                            if rc2 \<noteq> 0 then deinit rc2 w3
                            else do { w4 \<leftarrow> put_domain P domain w3; Some (0, w4) } } } }"

section \<open>Domains started by Xen\<close>

text \<open>The loop from \<open>i\<close>; the variable \<open>rc\<close> has no value before the first round.\<close>

function next_loop :: "nat \<Rightarrow> nat \<Rightarrow> (int \<times> xen_domctl_getdomaininfo) option \<Rightarrow> env \<Rightarrow>
    ((int \<times> xen_domctl_getdomaininfo) option \<times> nat) \<times> env" where
  "next_loop domu_max i acc e =
     (if domu_max \<le> i then ((acc, i), e)
      else let ((rc, info), e1) = domctl_getdomaininfo (int i) e
           in if rc = 0 \<or> rc \<noteq> - ESRCH then ((Some (rc, info), i), e1)
              else next_loop domu_max (Suc i) (Some (rc, info)) e1)"
  by pat_completeness auto
termination
  by (relation "measure (\<lambda>(m, i, _). m - i)") auto

declare next_loop.simps [simp del]

definition dom0less_get_next_domain :: "nat \<Rightarrow> nat \<Rightarrow> env \<Rightarrow> ((int \<times> xen_domctl_getdomaininfo) \<times> env) option" where
  "dom0less_get_next_domain domu_max domid_start e =
     (case next_loop domu_max domid_start None e of
        ((None, i), e1) \<Rightarrow> None
      | ((Some (rc, info), i), e1) \<Rightarrow> Some ((if rc \<noteq> 0 then rc else int i, info), e1))"

definition hvm_get_parameter :: "int \<Rightarrow> u32 \<Rightarrow> env \<Rightarrow> (int \<times> u64) \<times> env" where
  "hvm_get_parameter param d e =
     (let (rc, e1) = ext_call ''hvm_get_parameter'' [param, uint d] e; (os, e2) = ext_out 1 e1
      in ((rc, of_int (os ! 0)), e2))"

text \<open>The structure of a domain that Xen has started.\<close>

definition dom0less_domain :: "u32 \<Rightarrow> xen_domctl_getdomaininfo \<Rightarrow> xen_domain" where
  "dom0less_domain d info =
     (zero_domain d)\<lparr>num_vcpus := sint (gi_max_vcpu_id info + 1), address_size := 64,
                     max_mem_kb := gi_tot_pages info * XEN_PAGE_SIZE div 1024, f_dom0less := True,
                     dom_name := snd (snprintf CONTAINER_NAME_SIZE (''Dom0less-'' @ fmt_d (uint d)))\<rparr>"

text \<open>The structure stays at \<open>p\<close> until the end of the function; \<open>err_free\<close> frees it.\<close>

definition dom0less_init_domain ::
  "dom_par \<Rightarrow> u32 \<Rightarrow> xen_domctl_getdomaininfo \<Rightarrow> dom_world \<Rightarrow> (int \<times> dom_world) option" where
  "dom0less_init_domain P d info w =
     (let (ok, w1) = on_env k_malloc w
      in if \<not> ok then Some (- ENOMEM, w1)
         else
           let p = dom_next w1; w2 = w1\<lparr>dom_next := Suc p\<rparr>;
               x = dom0less_domain d info;
               ((rc, value), w3) = on_env (hvm_get_parameter HVM_PARAM_STORE_EVTCHN d) w2
           in if rc \<noteq> 0 then Some (rc, w3)
              else
                let x1 = x\<lparr>dm_xenstore := (dm_xenstore x)\<lparr>remote_evtchn := ucast value\<rparr>\<rparr>;
                    ((rc2, xenstore_pfn), w4) = on_env (hvm_get_parameter HVM_PARAM_STORE_PFN d) w3
                in if rc2 < 0 then Some (rc2, w4)
                   else if xenstore_pfn = - 1 then Some (- ENODEV, w4)
                   else
                     do { ((rc3, x2), w5) \<leftarrow> start_store P xenstore_pfn x1 w4;
                          if rc3 \<noteq> 0 then Some (rc3, w5)
                          else
                            do { (rc4, w6) \<leftarrow> on_srv (xs_initialize_xenstore d (dom_info.truncate x2)) w5;
                                 if rc4 \<noteq> 0 then do { ((rc5, x3), w7) \<leftarrow> stop_store P x2 w6; Some (rc4, w7) }
                                 else
                                   let w7 = set_env (notify_evtchn (remote_evtchn (dm_xenstore x2)) (get_env w6)) w6
                                   in Some (0, register_domain p x2 w7) } })"

text \<open>The loop of \<open>dom0less_init\<close>: its condition holds whenever it is reached, since \<open>rc\<close> is 0 there.
  \<open>n\<close> bounds the number of rounds.\<close>

fun dom0less_loop :: "nat \<Rightarrow> dom_par \<Rightarrow> nat \<Rightarrow> dom_world \<Rightarrow> (int \<times> dom_world) option" where
  "dom0less_loop 0 P domid_start w = None"
| "dom0less_loop (Suc n) P domid_start w =
     do { ((rc, info), w1) \<leftarrow> on_env_opt (dom0less_get_next_domain (cfg_domu_max (dp_cfg P)) domid_start) w;
          if rc < 0 then Some (rc, w1)
          else do { (rc2, w2) \<leftarrow> dom0less_init_domain P (of_int rc) info w1;
                    if rc2 \<noteq> 0 then Some (rc2, w2) else dom0less_loop n P (Suc (nat rc)) w2 } }"

definition dom0less_init :: "dom_par \<Rightarrow> dom_world \<Rightarrow> (int \<times> dom_world) option" where
  "dom0less_init P w =
     do { (rc, w1) \<leftarrow> dom0less_loop (Suc (cfg_domu_max (dp_cfg P))) P 1 w;
          Some (if rc = - ESRCH then 0 else rc, w1) }"

text \<open>\<open>dom0less\<close> is \<open>CONFIG_XEN_DOM0LESS_BOOT\<close>.  The structure for the control domain is freed again.\<close>

definition init_domain0 :: "bool \<Rightarrow> dom_par \<Rightarrow> dom_world \<Rightarrow> (int \<times> dom_world) option" where
  "init_domain0 dom0less P w =
     (let ((ret, info), w1) = on_env (domctl_getdomaininfo 0) w
      in if ret \<noteq> 0 then Some (ret, w1)
         else
           let (ok, w2) = on_env k_malloc w1
           in if \<not> ok then Some (- ENOMEM, w2)
              else
                let i = \<lparr>num_vcpus = sint (gi_max_vcpu_id info + 1), max_mem_kb = gi_tot_pages info * XEN_PAGE_SIZE div 1024,
                         dom_name = ''Domain-0''\<rparr>
                in do { (ret2, w3) \<leftarrow> on_srv (\<lambda>s. Some (xs_init_root s)) w2;
                        if ret2 \<noteq> 0 then Some (ret2, w3)
                        else
                          do { (ret3, w4) \<leftarrow> on_srv (xss_write (Some ''/tool/xenstored'') (Some [])) w3;
                               (ret4, w5) \<leftarrow> on_srv (xs_initialize_xenstore 0 i) w4;
                               if dom0less then dom0less_init P w5 else Some (ret4, w5) } })"

end
