(* ===== verification/Dom_Mgmt_Props.thy ===== *)
theory Dom_Mgmt_Props
  imports Dom_Mgmt Xs_Server_Props Console_Props "HOL-Library.Multiset"
begin

text \<open>
  The registry of domains: its invariant over all uses of the interface, what a failed and a
  successful creation leave behind, and what pausing and destroying do to the references.
\<close>

section \<open>What the services leave alone\<close>

definition reg :: "dom_world \<Rightarrow> (nat \<Rightarrow> xen_domain option) \<times> nat list \<times> int" where
  "reg w = (dom_heap w, domain_list w, dom_num w)"

lemma reg_eq: "reg w = reg v \<longleftrightarrow> dom_heap w = dom_heap v \<and> domain_list w = domain_list v \<and> dom_num w = dom_num v"
  by (simp add: reg_def)

text \<open>\<open>same\<close>: neither the registry nor the next address has changed.\<close>

definition same :: "dom_world \<Rightarrow> dom_world \<Rightarrow> bool" where
  "same w v \<longleftrightarrow> reg v = reg w \<and> dom_next v = dom_next w"

named_theorems sames "calls that leave the registry alone"

lemma same_refl [simp]: "same w w"
  by (simp add: same_def)

lemma same_trans: "same u v \<Longrightarrow> same v w \<Longrightarrow> same u w"
  by (simp add: same_def)

lemma same_set_env [simp]: "same w (set_env e w)"
  by (simp add: same_def set_env_def reg_def)

lemma same_on_env [sames]: "on_env f w = (r, v) \<Longrightarrow> same w v"
  by (auto simp: on_env_def Let_def split: prod.splits)

lemma same_on_env_opt [sames]: "on_env_opt f w = Some (r, v) \<Longrightarrow> same w v"
  by (auto simp: on_env_opt_def split: Option.bind_splits)

lemma same_hyp_call [sames]: "hyp_call name args w = (r, v) \<Longrightarrow> same w v"
  unfolding hyp_call_def by (rule same_on_env)

lemma same_hyp_call_snd: "same w (snd (hyp_call name args w))"
  by (rule same_hyp_call [of name args w "fst (hyp_call name args w)"]) simp

lemma same_on_srv [sames]: "on_srv f w = Some (r, v) \<Longrightarrow> same w v"
  by (auto simp: on_srv_def same_def reg_def split: Option.bind_splits)

lemma same_on_con [sames]: "on_con f w = Some (r, v) \<Longrightarrow> same w v"
  by (auto simp: on_con_def same_def reg_def split: Option.bind_splits)

lemma same_start_store [sames]: "start_store P pfn x w = Some (r, v) \<Longrightarrow> same w v"
  unfolding start_store_def by (rule same_on_srv)

lemma same_stop_store [sames]: "stop_store P x w = Some (r, v) \<Longrightarrow> same w v"
  unfolding stop_store_def by (rule same_on_srv)

lemma same_start_console [sames]: "start_console P x w = Some (r, v) \<Longrightarrow> same w v"
  unfolding start_console_def by (auto split: if_splits dest: same_on_con)

lemma same_stop_console [sames]: "stop_console P x w = Some (r, v) \<Longrightarrow> same w v"
  unfolding stop_console_def by (auto split: if_splits dest: same_on_con)

text \<open>The services keep the id of a domain and whether Xen has started it.\<close>

lemma start_store_keeps:
  assumes "start_store P pfn x w = Some ((rc, y), v)"
  shows "dm_domid y = dm_domid x" "f_dom0less y = f_dom0less x" "refcount y = refcount x"
  using assms by (auto simp: start_store_def on_srv_def split: Option.bind_splits)

lemma set_console_keeps [simp]:
  "dm_domid (set_console c x) = dm_domid x" "f_dom0less (set_console c x) = f_dom0less x" "refcount (set_console c x) = refcount x"
  by (simp_all add: set_console_def split: option.split)

lemma start_console_keeps:
  assumes "start_console P x w = Some ((rc, y), v)"
  shows "dm_domid y = dm_domid x" "f_dom0less y = f_dom0less x" "refcount y = refcount x"
  using assms by (auto simp: start_console_def on_con_def split: Option.bind_splits if_splits)

section \<open>The invariant\<close>

text \<open>The list has no duplicates, the counter is its length, the structures are exactly those that are
  listed, and a structure has one reference for the registry, none for a domain of Xen, besides those
  that are held.\<close>

definition base_ref :: "xen_domain \<Rightarrow> int" where
  "base_ref x = (if f_dom0less x then 0 else 1)"

definition dom_ok :: "nat multiset \<Rightarrow> dom_world \<Rightarrow> bool" where
  "dom_ok H w \<longleftrightarrow>
     distinct (domain_list w) \<and> dom_num w = int (length (domain_list w)) \<and>
     {p. dom_heap w p \<noteq> None} = set (domain_list w) \<and> (\<forall>p \<in> set (domain_list w). p < dom_next w) \<and>
     (\<forall>p x. dom_heap w p = Some x \<longrightarrow> refcount x = base_ref x + int (count H p)) \<and> set_mset H \<subseteq> set (domain_list w)"

lemma dom_okD:
  assumes "dom_ok H w"
  shows "distinct (domain_list w)" "dom_num w = int (length (domain_list w))"
    "dom_heap w p = Some x \<Longrightarrow> p \<in> set (domain_list w)" "p \<in> set (domain_list w) \<Longrightarrow> \<exists>x. dom_heap w p = Some x"
    "p \<in> set (domain_list w) \<Longrightarrow> p < dom_next w" "dom_heap w p = Some x \<Longrightarrow> refcount x = base_ref x + int (count H p)"
    "p \<in># H \<Longrightarrow> p \<in> set (domain_list w)"
  using assms unfolding dom_ok_def by (blast, blast, blast, blast, blast, blast, blast)

lemma dom_ok_same: "same w v \<Longrightarrow> dom_ok H v \<longleftrightarrow> dom_ok H w"
  by (simp add: dom_ok_def same_def reg_eq)

lemma dom_ok_fresh: "dom_ok H w \<Longrightarrow> dom_heap w (dom_next w) = None"
  using dom_okD(3,5) by (metis less_irrefl not_None_eq)

text \<open>Changing a structure in place.\<close>

lemma dom_ok_update:
  assumes "dom_ok H w" "dom_heap w p = Some x" "refcount y = base_ref y + int (count H' p)"
    "\<And>q. q \<noteq> p \<Longrightarrow> count H' q = count H q"
  shows "dom_ok H' (w\<lparr>dom_heap := (dom_heap w)(p \<mapsto> y)\<rparr>)"
proof -
  have p: "p \<in> set (domain_list w)" using dom_okD(3) assms(1,2) by blast
  have "set_mset H' \<subseteq> insert p (set_mset H)" using assms(4) by (metis count_greater_zero_iff insertCI subsetI)
  then have "set_mset H' \<subseteq> set (domain_list w)" using p assms(1) by (auto simp: dom_ok_def)
  moreover have "{q. ((dom_heap w)(p \<mapsto> y)) q \<noteq> None} = set (domain_list w)" using assms(1) p by (auto simp: dom_ok_def)
  ultimately show ?thesis using assms(1,3,4) by (simp add: dom_ok_def)
qed

lemma find_dom_in: "find_dom d ps h = Some (Some p) \<Longrightarrow> p \<in> set ps \<and> (\<exists>x. h p = Some x \<and> dm_domid x = d)"
  by (induction ps) (auto split: Option.bind_splits if_splits)

lemma get_domain_cases:
  assumes "get_domain d w = Some (r, v)"
  obtains "r = None" "v = w" "find_dom d (domain_list w) (dom_heap w) = Some None"
  | p x where "r = Some p" "find_dom d (domain_list w) (dom_heap w) = Some (Some p)" "dom_heap w p = Some x"
      "v = w\<lparr>dom_heap := (dom_heap w)(p \<mapsto> x\<lparr>refcount := refcount x + 1\<rparr>)\<rparr>"
  using assms by (auto simp: get_domain_def add_ref_def split: Option.bind_splits option.splits)

lemma base_ref_refcount [simp]: "base_ref (x\<lparr>refcount := k\<rparr>) = base_ref x" "base_ref (x\<lparr>back_state := b\<rparr>) = base_ref x"
  by (simp_all add: base_ref_def)

lemma get_ok: "dom_ok H w \<Longrightarrow> get_domain d w = Some (Some p, v) \<Longrightarrow> dom_ok (add_mset p H) v"
  by (erule get_domain_cases) (auto intro!: dom_ok_update dest: dom_okD(6))

text \<open>The release of a domain takes it from the registry.\<close>

lemma bind_SomeE: "Option.bind a f = Some v \<Longrightarrow> (\<And>x. a = Some x \<Longrightarrow> f x = Some v \<Longrightarrow> thesis) \<Longrightarrow> thesis"
  by (cases a) auto

lemma same_snd:
  "on_srv f w = Some y \<Longrightarrow> same w (snd y)" "stop_store P x w = Some z \<Longrightarrow> same w (snd z)" "stop_console P x w = Some z \<Longrightarrow> same w (snd z)"
  by (cases y, simp add: same_on_srv) (cases z, simp add: same_stop_store same_stop_console)+

lemma same_take_apart: "take_apart P x w = Some v \<Longrightarrow> same w v"
  unfolding take_apart_def case_prod_unfold
proof (elim bind_SomeE)
  fix a b c d
  assume a: "on_srv (\<lambda>s. Option.bind (xs_remove_xenstore_backends (dm_domid x) (back_state x) s) (\<lambda>p. Some ((fst p, fst (snd p)), snd (snd p)))) w = Some a"
    "stop_store P (x\<lparr>back_state := snd (fst a)\<rparr>) (snd a) = Some b"
    "on_srv (\<lambda>s. map_option (Pair ()) (xs_deinitialize_domain_xenstore (dm_domid x) s)) (snd b) = Some c"
    "stop_console P (snd (fst b)) (snd c) = Some d" "Some (snd (hyp_call ''xen_domctl_destroydomain'' [uint (dm_domid x)] (snd d))) = Some v"
  have "same w (snd (hyp_call ''xen_domctl_destroydomain'' [uint (dm_domid x)] (snd d)))"
    by (rule same_trans [OF same_snd(1) [OF a(1)] same_trans [OF same_snd(2) [OF a(2)]
          same_trans [OF same_snd(1) [OF a(3)] same_trans [OF same_snd(3) [OF a(4)] same_hyp_call_snd]]]])
  then show "same w v" using a(5) by simp
qed

lemma unlink_ok:
  assumes "dom_ok H w" "unlink_domain p w = Some v" "p \<notin># H"
  shows "dom_ok H v"
proof -
  have d: "distinct (domain_list w)" using dom_okD(1) [OF assms(1)] .
  have p: "p \<in> set (domain_list w)" and v: "v = w\<lparr>domain_list := remove1 p (domain_list w), dom_num := dom_num w - 1, dom_heap := (dom_heap w)(p := None)\<rparr>"
    using assms(2) by (simp_all add: unlink_domain_def split: if_splits)
  have "length (domain_list w) = Suc (length (remove1 p (domain_list w)))"
    using p length_pos_if_in_set [of p "domain_list w"] by (simp add: length_remove1)
  then show ?thesis using assms(1,3) d unfolding v by (auto simp: dom_ok_def distinct_remove1)
qed

text \<open>What \<open>put_domain\<close> does with a structure: it drops a reference, and releases at the last one.\<close>

lemma put_domain_cases:
  assumes "put_domain P (Some p) w = Some v"
  obtains x where "dom_heap w p = Some x" "refcount x \<noteq> 1" "\<not> (dp_asserts P \<and> f_dom0less x)"
      "v = w\<lparr>dom_heap := (dom_heap w)(p \<mapsto> x\<lparr>refcount := refcount x - 1\<rparr>)\<rparr>"
  | x u where "dom_heap w p = Some x" "refcount x = 1" "\<not> (dp_asserts P \<and> f_dom0less x)"
      "take_apart P (x\<lparr>refcount := 0\<rparr>) (w\<lparr>dom_heap := (dom_heap w)(p \<mapsto> x\<lparr>refcount := 0\<rparr>)\<rparr>) = Some u" "unlink_domain p u = Some v"
  using assms by (auto simp: put_domain_def add_ref_def split: Option.bind_splits if_splits)

lemma put_ok:
  assumes "dom_ok H w" "p \<in># H" "put_domain P (Some p) w = Some v"
  shows "dom_ok (H - {#p#}) v"
  using assms(3)
proof (cases rule: put_domain_cases)
  case (1 x)
  have "int (count H p) = int (count (H - {#p#}) p) + 1" using assms(2) by (simp add: of_nat_diff Suc_le_eq)
  then show ?thesis unfolding 1(4) using dom_okD(6) [OF assms(1) 1(1)] 1(1) by (intro dom_ok_update [OF assms(1)]) auto
next
  case (2 x u)
  have c: "count H p = 1" "base_ref x = 0"
    using dom_okD(6) [OF assms(1) 2(1)] 2(2) assms(2) by (auto simp: base_ref_def split: if_splits) (metis count_greater_zero_iff less_numeral_extra(3))+
  let ?w = "w\<lparr>dom_heap := (dom_heap w)(p \<mapsto> x\<lparr>refcount := 0\<rparr>)\<rparr>"
  have "dom_ok (H - {#p#}) ?w" by (rule dom_ok_update [OF assms(1) 2(1)]) (use c in simp_all)
  then have "dom_ok (H - {#p#}) u" using dom_ok_same [OF same_take_apart [OF 2(4)]] by blast
  moreover have "p \<notin># H - {#p#}" using c(1) by (simp add: not_in_iff)
  ultimately show ?thesis using unlink_ok 2(5) by blast
qed

text \<open>The last reference, which nobody holds.\<close>

lemma put_last:
  assumes "dom_ok H w" "p \<notin># H" "dom_heap w p = Some x" "\<not> f_dom0less x" "put_domain P (Some p) w = Some v"
  shows "dom_ok H v" "domain_list v = remove1 p (domain_list w)" "dom_heap v = (dom_heap w)(p := None)" "dom_num v = dom_num w - 1"
proof -
  have r: "refcount x = 1" using dom_okD(6) [OF assms(1,3)] assms(2,4) by (simp add: base_ref_def not_in_iff)
  let ?w = "w\<lparr>dom_heap := (dom_heap w)(p \<mapsto> x\<lparr>refcount := 0\<rparr>)\<rparr>"
  obtain u where u: "take_apart P (x\<lparr>refcount := 0\<rparr>) ?w = Some u" "unlink_domain p u = Some v"
    using assms(5) r assms(3) by (cases rule: put_domain_cases) auto
  note s = same_take_apart [OF u(1)]
  show "domain_list v = remove1 p (domain_list w)" "dom_heap v = (dom_heap w)(p := None)" "dom_num v = dom_num w - 1"
    using u(2) s by (auto simp: unlink_domain_def same_def reg_eq split: if_splits)
  have p: "p \<in> set (domain_list w)" using dom_okD(3) assms(1,3) by blast
  have "length (domain_list w) = Suc (length (remove1 p (domain_list w)))"
    using p length_pos_if_in_set [of p "domain_list w"] by (simp add: length_remove1)
  moreover have "dom_next v = dom_next w" using u(2) s by (auto simp: unlink_domain_def same_def split: if_splits)
  ultimately show "dom_ok H v"
    using assms(1,2) dom_okD(1) [OF assms(1)] \<open>domain_list v = remove1 p (domain_list w)\<close>
      \<open>dom_heap v = (dom_heap w)(p := None)\<close> \<open>dom_num v = dom_num w - 1\<close>
    by (auto simp: dom_ok_def distinct_remove1)
qed

section \<open>Operations on listed domains\<close>

text \<open>Nobody holds a reference to a domain with this id.\<close>

definition not_held :: "u32 \<Rightarrow> nat multiset \<Rightarrow> dom_world \<Rightarrow> bool" where
  "not_held d H w \<longleftrightarrow> (\<forall>p x. p \<in># H \<longrightarrow> dom_heap w p = Some x \<longrightarrow> dm_domid x \<noteq> d)"

lemma destroy_cases:
  assumes "dom_ok H w" "not_held d H w" "domain_destroy P d w = Some (rc, v)"
  obtains "rc = - EINVAL" "v = w" "find_dom d (domain_list w) (dom_heap w) = Some None"
  | p x where "rc = 0" "find_dom d (domain_list w) (dom_heap w) = Some (Some p)" "dom_heap w p = Some x" "\<not> f_dom0less x"
      "dom_ok H v" "domain_list v = remove1 p (domain_list w)" "dom_heap v = (dom_heap w)(p := None)" "dom_num v = dom_num w - 1"
proof -
  obtain r w1 where g: "get_domain d w = Some (r, w1)" using assms(3) by (auto simp: domain_destroy_def split: Option.bind_splits)
  show ?thesis using g
  proof (cases rule: get_domain_cases)
    case 1
    then show ?thesis using assms(3) g that(1) by (simp add: domain_destroy_def)
  next
    case (2 p x)
    have nh: "p \<notin># H" using assms(2) find_dom_in [OF 2(2)] 2(3) unfolding not_held_def by blast
    obtain w2 where w2: "put_domain P (Some p) w1 = Some w2" "put_domain P (Some p) w2 = Some v" and rc: "rc = 0"
      using assms(3) g 2(1) by (auto simp: domain_destroy_def split: Option.bind_splits)
    have ok1: "dom_ok (add_mset p H) w1" using get_ok [OF assms(1)] g 2(1) by simp
    have ok2: "dom_ok H w2" using put_ok [OF ok1 _ w2(1)] by simp
    have x1: "dom_heap w1 p = Some (x\<lparr>refcount := refcount x + 1\<rparr>)" using 2(4) by simp
    have rx: "refcount x = base_ref x" using dom_okD(6) [OF assms(1) 2(3)] nh by (simp add: not_in_iff)
    obtain x2 where x2: "dom_heap w2 p = Some x2" using w2(2) by (auto simp: put_domain_def split: Option.bind_splits)
    have nl: "\<not> f_dom0less x" and h2: "dom_heap w2 = (dom_heap w)(p \<mapsto> x)" "domain_list w2 = domain_list w" "dom_num w2 = dom_num w"
      using w2(1) x1 2(4) rx x2
      by (cases rule: put_domain_cases; auto simp: unlink_domain_def base_ref_def split: if_splits)+
    have "(dom_heap w)(p \<mapsto> x) = dom_heap w" using 2(3) by auto
    then have h: "dom_heap w2 p = Some x" "dom_heap w2 = dom_heap w" using h2(1) 2(3) by simp_all
    note pl = put_last [OF ok2 nh h(1) nl w2(2)]
    show ?thesis by (rule that(2) [OF rc 2(2,3) nl]) (use pl h h2 in simp_all)
  qed
qed

lemma destroy_ok: "dom_ok H w \<Longrightarrow> not_held d H w \<Longrightarrow> domain_destroy P d w = Some (rc, v) \<Longrightarrow> dom_ok H v"
proof -
  assume a: "dom_ok H w" "not_held d H w" "domain_destroy P d w = Some (rc, v)"
  show "dom_ok H v" by (rule destroy_cases [OF a]) (use a(1) in simp_all)
qed

lemma call_ok: "dom_ok H w \<Longrightarrow> domain_call name P d w = Some (rc, v) \<Longrightarrow> dom_ok H v"
proof -
  assume ok: "dom_ok H w" and c: "domain_call name P d w = Some (rc, v)"
  obtain r w1 where g: "get_domain d w = Some (r, w1)" using c by (auto simp: domain_call_def split: Option.bind_splits)
  show ?thesis using g
  proof (cases rule: get_domain_cases)
    case 1
    then show ?thesis using c g ok by (simp add: domain_call_def)
  next
    case (2 p x)
    obtain rc2 w2 where h: "hyp_call name [uint d] w1 = (rc2, w2)" by fastforce
    then have p: "put_domain P (Some p) w2 = Some v" using c g 2(1) by (auto simp: domain_call_def split: Option.bind_splits)
    have "dom_ok (add_mset p H) w2" using get_ok [OF ok] g 2(1) dom_ok_same [OF same_hyp_call [OF h]] by simp
    then show ?thesis using put_ok [OF _ _ p] by fastforce
  qed
qed

text \<open>Noting a back end changes neither ids nor references, nor whether Xen has started the domain.\<close>

definition keeps_ids :: "dom_world \<Rightarrow> dom_world \<Rightarrow> bool" where
  "keeps_ids w v \<longleftrightarrow> (\<forall>p y. dom_heap v p = Some y \<longrightarrow> (\<exists>x. dom_heap w p = Some x \<and> dm_domid x = dm_domid y \<and> f_dom0less x = f_dom0less y))"

lemma keeps_ids_refl [simp]: "keeps_ids w w"
  by (simp add: keeps_ids_def)

lemma keeps_ids_trans: "keeps_ids u v \<Longrightarrow> keeps_ids v w \<Longrightarrow> keeps_ids u w"
  unfolding keeps_ids_def by metis

lemma keeps_ids_same: "same w v \<Longrightarrow> keeps_ids w v"
  by (simp add: keeps_ids_def same_def reg_eq)

lemma not_held_keeps: "not_held d H w \<Longrightarrow> keeps_ids w v \<Longrightarrow> not_held d H v"
  unfolding not_held_def keeps_ids_def by metis

lemma note_back_ok:
  assumes "dom_ok H w" "note_back upd i b r w = Some v"
  shows "dom_ok H v" "keeps_ids w v"
proof -
  obtain p x where p: "dom_heap w p = Some x"
    "v = w\<lparr>dom_heap := (dom_heap w)(p \<mapsto> x\<lparr>back_state := upd i \<lparr>functional = True, bs_backend = b\<rparr> (back_state x)\<rparr>)\<rparr>"
    using assms(2) by (auto simp: note_back_def split: Option.bind_splits)
  show "dom_ok H v" unfolding p(2) by (rule dom_ok_update [OF assms(1) p(1)]) (use dom_okD(6) [OF assms(1) p(1)] in simp_all)
  show "keeps_ids w v" unfolding p(2) using p(1) by (auto simp: keeps_ids_def)
qed

lemma disk_loop_ok: "dom_ok H w \<Longrightarrow> disk_loop i ks d r w = Some (rc, v) \<Longrightarrow> dom_ok H v \<and> keeps_ids w v"
proof (induction ks arbitrary: i w)
  case (Cons k ks)
  show ?case
  proof (cases "blk_configured k")
    case True
    obtain rc1 w1 where a: "on_srv (xs_add_pvblock_xenstore k (sint d)) w = Some (rc1, w1)"
      using Cons.prems(2) True by (auto split: Option.bind_splits)
    have ok1: "dom_ok H w1" "keeps_ids w w1"
      using Cons.prems(1) dom_ok_same [OF same_on_srv [OF a]] keeps_ids_same [OF same_on_srv [OF a]] by blast+
    show ?thesis
    proof (cases "rc1 = 0")
      case z: True
      obtain w2 where b: "note_back upd_disk i (blk_backend k) r w1 = Some w2" "disk_loop (Suc i) ks d r w2 = Some (rc, v)"
        using Cons.prems(2) True a z by (auto split: Option.bind_splits)
      show ?thesis using Cons.IH [OF note_back_ok(1) [OF ok1(1) b(1)] b(2)] note_back_ok(2) [OF ok1(1) b(1)] ok1(2)
        by (blast intro: keeps_ids_trans)
    qed (use Cons.prems(2) True a ok1 in simp)
  qed (use Cons in simp)
qed simp

lemma vif_loop_ok: "dom_ok H w \<Longrightarrow> vif_loop i ks d r w = Some (rc, v) \<Longrightarrow> dom_ok H v \<and> keeps_ids w v"
proof (induction ks arbitrary: i w)
  case (Cons k ks)
  show ?case
  proof (cases "net_configured k")
    case True
    obtain rc1 w1 where a: "on_srv (xs_add_pvnet_xenstore k (sint d) (int i)) w = Some (rc1, w1)"
      using Cons.prems(2) True by (auto split: Option.bind_splits)
    have ok1: "dom_ok H w1" "keeps_ids w w1"
      using Cons.prems(1) dom_ok_same [OF same_on_srv [OF a]] keeps_ids_same [OF same_on_srv [OF a]] by blast+
    show ?thesis
    proof (cases "rc1 = 0")
      case z: True
      obtain w2 where b: "note_back upd_vif i (net_backend k) r w1 = Some w2" "vif_loop (Suc i) ks d r w2 = Some (rc, v)"
        using Cons.prems(2) True a z by (auto split: Option.bind_splits)
      show ?thesis using Cons.IH [OF note_back_ok(1) [OF ok1(1) b(1)] b(2)] note_back_ok(2) [OF ok1(1) b(1)] ok1(2)
        by (blast intro: keeps_ids_trans)
    qed (use Cons.prems(2) True a ok1 in simp)
  qed (use Cons in simp)
qed simp

lemma put_keeps_ids: "put_domain P (Some p) w = Some v \<Longrightarrow> keeps_ids w v"
proof (erule put_domain_cases)
  fix x u
  assume a: "dom_heap w p = Some x"
    "take_apart P (x\<lparr>refcount := 0\<rparr>) (w\<lparr>dom_heap := (dom_heap w)(p \<mapsto> x\<lparr>refcount := 0\<rparr>)\<rparr>) = Some u" "unlink_domain p u = Some v"
  show ?thesis using same_take_apart [OF a(2)] a(1,3) by (auto simp: keeps_ids_def unlink_domain_def same_def reg_eq split: if_splits)
qed (auto simp: keeps_ids_def)

lemma get_keeps_ids: "get_domain d w = Some (r, v) \<Longrightarrow> keeps_ids w v"
  by (erule get_domain_cases) (auto simp: keeps_ids_def)

text \<open>A reference to be dropped, if there is a domain.\<close>

definition held :: "nat option \<Rightarrow> nat multiset" where
  "held r = (case r of None \<Rightarrow> {#} | Some p \<Rightarrow> {#p#})"

lemma get_held: "dom_ok H w \<Longrightarrow> get_domain d w = Some (r, v) \<Longrightarrow> dom_ok (held r + H) v"
  using get_ok by (cases r) (auto simp: held_def elim: get_domain_cases)

lemma put_held: "dom_ok (held r + H) w \<Longrightarrow> put_domain P r w = Some v \<Longrightarrow> dom_ok H v \<and> keeps_ids w v"
proof (cases r)
  case (Some p)
  assume a: "dom_ok (held r + H) w" "put_domain P r w = Some v"
  have "dom_ok (held r + H - {#p#}) v" by (rule put_ok [OF a(1)]) (use a(2) Some in \<open>simp_all add: held_def\<close>)
  then show ?thesis using a(2) Some put_keeps_ids by (auto simp: held_def)
qed (auto simp: held_def put_domain_def)

lemma destroy_keeps_ids: "domain_destroy P d w = Some (rc, v) \<Longrightarrow> keeps_ids w v"
  unfolding domain_destroy_def
  by (auto split: Option.bind_splits option.splits dest!: get_keeps_ids put_keeps_ids) (blast intro: keeps_ids_trans)

lemma call_keeps_ids: "domain_call name P d w = Some (rc, v) \<Longrightarrow> keeps_ids w v"
  unfolding domain_call_def
  by (auto split: Option.bind_splits option.splits prod.splits
      dest!: get_keeps_ids put_keeps_ids same_hyp_call [THEN keeps_ids_same]) (blast intro: keeps_ids_trans)

lemma post_create_ok:
  assumes "dom_ok H w" "not_held d H w" "domain_post_create P c d w = Some (rc, v)"
  shows "dom_ok H v \<and> keeps_ids w v"
proof -
  obtain r w1 where g: "get_domain d w = Some (r, w1)" using assms(3) by (auto simp: domain_post_create_def split: Option.bind_splits)
  note ok1 = get_held [OF assms(1) g]
  obtain rc2 w2 where dl: "disk_loop 0 (disks (back_cfg c)) d r w1 = Some (rc2, w2)"
    using assms(3) g by (auto simp: domain_post_create_def Let_def split: Option.bind_splits)
  note ok2 = disk_loop_ok [OF ok1 dl]
  have deinit: "dom_ok H v3 \<and> keeps_ids w v3"
    if "dom_ok (held r + H) u" "keeps_ids w u" "put_domain P r u = Some u1" "domain_destroy P d u1 = Some (k, v3)" for u u1 k v3
  proof -
    have u1: "dom_ok H u1" "keeps_ids w u1" using put_held [OF that(1,3)] keeps_ids_trans [OF that(2)] by blast+
    show ?thesis using destroy_ok [OF u1(1) not_held_keeps [OF assms(2) u1(2)] that(4)]
        keeps_ids_trans [OF u1(2) destroy_keeps_ids [OF that(4)]] by blast
  qed
  have put: "dom_ok H v3 \<and> keeps_ids w v3" if "dom_ok (held r + H) u" "keeps_ids w u" "put_domain P r u = Some v3" for u v3
    using put_held [OF that(1,3)] keeps_ids_trans [OF that(2)] by blast
  have ids2: "keeps_ids w w2" using get_keeps_ids [OF g] ok2 keeps_ids_trans by blast
  show ?thesis
  proof (cases "rc2 = 0")
    case False
    then obtain u1 k where u: "put_domain P r w2 = Some u1" "domain_destroy P d u1 = Some (k, v)"
      using assms(3) g dl by (auto simp: domain_post_create_def Let_def split: Option.bind_splits)
    show ?thesis by (rule deinit [OF _ ids2 u]) (use ok2 in blast)
  next
    case True
    then obtain rc3 w3 where vl: "vif_loop 0 (vifs (back_cfg c)) d r w2 = Some (rc3, w3)"
      using assms(3) g dl by (auto simp: domain_post_create_def Let_def split: Option.bind_splits)
    have ok3: "dom_ok (held r + H) w3" "keeps_ids w w3" using vif_loop_ok [OF _ vl] ok2 ids2 keeps_ids_trans by blast+
    show ?thesis
      using assms(3) g dl vl True deinit [OF ok3] put [OF ok3]
      by (auto simp: domain_post_create_def Let_def split: Option.bind_splits if_splits)
  qed
qed

section \<open>Creating domains\<close>

lemma hyp_call_trace: "trace (dw_srv (snd (hyp_call name args w))) = trace (dw_srv w) @ [(name, args)]"
  by (simp add: hyp_call_def on_env_def get_env_def set_env_def put_env_def ext_call_def Let_def env.defs)

text \<open>The end of a failed creation: the registry is as it was, without the structure at \<open>p\<close>, and the
  last call destroyed the domain in the hypervisor.\<close>

definition undone :: "nat \<Rightarrow> u32 \<Rightarrow> dom_world \<Rightarrow> dom_world \<Rightarrow> bool" where
  "undone p d w v \<longleftrightarrow>
     dom_heap v = (dom_heap w)(p := None) \<and> domain_list v = domain_list w \<and> dom_num v = dom_num w \<and> dom_next v = dom_next w \<and>
     (\<exists>t. trace (dw_srv v) = t @ [(''xen_domctl_destroydomain'', [uint d])])"

lemma domain_free_undone: "domain_free p d rc w = Some (k, v) \<Longrightarrow> k = rc \<and> undone p d w v"
proof -
  assume a: "domain_free p d rc w = Some (k, v)"
  let ?w = "w\<lparr>dom_heap := (dom_heap w)(p := None)\<rparr>"
  have v: "k = rc" "v = snd (hyp_call ''xen_domctl_destroydomain'' [uint d] ?w)" using a by (simp_all add: domain_free_def destroy_domain_def)
  have "same ?w v" unfolding v(2) by (rule same_hyp_call_snd)
  then show ?thesis unfolding undone_def using hyp_call_trace [of "''xen_domctl_destroydomain''" "[uint d]" ?w] v
    by (simp add: same_def reg_eq)
qed

lemma undone_same: "same w u \<Longrightarrow> undone p d u v \<Longrightarrow> undone p d w v"
  by (simp add: undone_def same_def reg_eq)

lemma free_stored_undone: "free_domain_stored P p d rc x w = Some (k, v) \<Longrightarrow> k = rc \<and> undone p d w v"
  unfolding free_domain_stored_def
  by (auto split: Option.bind_splits dest!: domain_free_undone intro: undone_same [OF same_stop_store])

lemma stop_console_undone: "stop_domain_console P p d rc x w = Some (k, v) \<Longrightarrow> k = rc \<and> undone p d w v"
  unfolding stop_domain_console_def
  by (auto split: Option.bind_splits dest!: free_stored_undone intro: undone_same [OF same_stop_console])

lemma publish_cases:
  assumes "publish_domain P c name p d x w = Some (rc, v)"
  obtains "rc \<noteq> 0" "undone p d w v"
  | y w5 where "rc = sint d" "same w w5" "v = register_domain p (y\<lparr>refcount := 1\<rparr>) w5" "dm_domid y = dm_domid x"
      "f_dom0less y = f_dom0less x"
proof -
  obtain rc1 x1 w1 where 1: "start_store P (XEN_PHYS_PFN GUEST_MAGIC_BASE + XENSTORE_PFN_OFFSET) x w = Some ((rc1, x1), w1)"
    using assms by (auto simp: publish_domain_def split: Option.bind_splits)
  note s1 = same_start_store [OF 1]
  show ?thesis
  proof (cases "rc1 = 0")
    case False
    then have "domain_free p d rc1 w1 = Some (rc, v)" using assms 1 by (simp add: publish_domain_def)
    then show ?thesis using that(1) domain_free_undone undone_same [OF s1] False by blast
  next
    case z1: True
    obtain rc2 x2 w2 where 2: "start_console P x1 w1 = Some ((rc2, x2), w2)"
      using assms 1 z1 by (auto simp: publish_domain_def split: Option.bind_splits)
    note s2 = same_trans [OF s1 same_start_console [OF 2]]
    show ?thesis
    proof (cases "rc2 = 0")
      case False
      then have "free_domain_stored P p d rc2 x2 w2 = Some (rc, v)" using assms 1 z1 2 by (simp add: publish_domain_def)
      then show ?thesis using that(1) free_stored_undone undone_same [OF s2] False by blast
    next
      case z2: True
      obtain other w3 where 3: "on_srv (find_domain_by_name (cfg_domu_max (dp_cfg P)) name) w2 = Some (other, w3)"
        using assms 1 z1 2 z2 by (auto simp: publish_domain_def split: Option.bind_splits)
      note s3 = same_trans [OF s2 same_on_srv [OF 3]]
      have err: "rc \<noteq> 0 \<and> undone p d w v" if "stop_domain_console P p d k x2 u = Some (rc, v)" "same w u" "k \<noteq> 0" for k u
        using that stop_console_undone undone_same by blast
      show ?thesis
      proof (cases "other = 0")
        case False
        then have "stop_domain_console P p d (- EEXIST) x2 w3 = Some (rc, v)" using assms 1 z1 2 z2 3 by (simp add: publish_domain_def)
        then show ?thesis using err s3 that(1) by simp
      next
        case z3: True
        obtain rc4 w4 where 4: "on_srv (xs_initialize_xenstore d (dom_info.truncate x2)) w3 = Some (rc4, w4)"
          using assms 1 z1 2 z2 3 z3 by (auto simp: publish_domain_def split: Option.bind_splits)
        note s4 = same_trans [OF s3 same_on_srv [OF 4]]
        obtain rc5 w5 where 5: "(if f_paused c then (0, w4) else hyp_call ''xen_domctl_unpausedomain'' [uint d] w4) = (rc5, w5)" by fastforce
        have s5: "same w w5" using 5 s4 same_trans [OF s4 same_hyp_call] by (auto split: if_splits)
        have r: "(if rc4 \<noteq> 0 then stop_domain_console P p d rc4 x2 w4
              else if rc5 \<noteq> 0 then stop_domain_console P p d rc5 x2 w5
              else Some (sint d, register_domain p (x2\<lparr>refcount := 1\<rparr>) w5)) = Some (rc, v)"
        proof -
          have "(if rc4 \<noteq> 0 then stop_domain_console P p d rc4 x2 w4
              else let (rc5, w5) = (if f_paused c then (0, w4) else hyp_call ''xen_domctl_unpausedomain'' [uint d] w4)
                   in if rc5 \<noteq> 0 then stop_domain_console P p d rc5 x2 w5
                      else Some (sint d, register_domain p (x2\<lparr>refcount := 1\<rparr>) w5)) = Some (rc, v)"
            using assms by (simp add: publish_domain_def 1 z1 2 [unfolded z2] 3 [unfolded z3] 4)
          then show ?thesis unfolding 5 Let_def prod.case .
        qed
        show ?thesis using r err [OF _ s4] err [OF _ s5] that(1) that(2) [OF _ s5, of x2] start_store_keeps [OF 1] start_console_keeps [OF 2]
          by (simp split: if_splits)
      qed
    qed
  qed
qed

text \<open>The steps of the construction keep the id and the kind of the domain.\<close>

definition step_keeps :: "setup_step \<Rightarrow> bool" where
  "step_keeps f \<longleftrightarrow>
     (\<forall>s e rc t e'. f s e = Some ((rc, t), e') \<longrightarrow> dm_domid (fst t) = dm_domid (fst s) \<and> f_dom0less (fst t) = f_dom0less (fst s))"

lemma steps_keep: "list_all step_keeps fs \<Longrightarrow> step_keeps (setup_steps fs)"
proof (induction fs)
  case (Cons f fs)
  then have "step_keeps f" "step_keeps (setup_steps fs)" by simp_all
  then show ?case unfolding step_keeps_def by (auto split: Option.bind_splits if_splits) metis+
qed (simp add: step_keeps_def)

lemma call_step_keeps:
  "(\<And>x. dm_domid (upd x) = dm_domid x \<and> f_dom0less (upd x) = f_dom0less x) \<Longrightarrow> step_keeps (call_step f upd)"
  by (auto simp: step_keeps_def call_step_def Let_def split: prod.splits if_splits)

lemma setup_keeps: "step_keeps (setup_steps (domain_setup P c d))"
proof (rule steps_keep)
  have 1: "step_keeps (\<lambda>(x, m). call_step f (\<lambda>x. x) (x\<lparr>max_mem_kb := k\<rparr>, m))" "step_keeps (\<lambda>(x, m). call_step (g m) (\<lambda>x. x) (x, m))" for f k g
    by (auto simp: step_keeps_def call_step_def Let_def split: prod.splits if_splits)
  have 2: "step_keeps (\<lambda>(x, m) e. let ((rc, x1), e1) = allocate_domain_evtchns x e in Some ((rc, x1, m), e1))"
    by (auto simp: step_keeps_def allocate_domain_evtchns_def Let_def split: prod.splits if_splits)
  have 3: "step_keeps (\<lambda>(x, m) e. do { ((rc, m1), e1) \<leftarrow> load_modules (dp_cfg P) (dp_fdt P) (dp_var P) (sint d) c m e;
      Some ((if rc \<noteq> 0 then rc else if ventry m1 = 0 then - EINVAL else 0, x, m1), e1) })"
    by (auto simp: step_keeps_def split: Option.bind_splits)
  show "list_all step_keeps (domain_setup P c d)"
    unfolding domain_setup_def list.pred_inject by (intro conjI call_step_keeps 1 2 3 TrueI) simp_all
qed

text \<open>What a creation does to the registry.\<close>

definition added :: "nat \<Rightarrow> xen_domain \<Rightarrow> dom_world \<Rightarrow> dom_world \<Rightarrow> bool" where
  "added p x w v \<longleftrightarrow>
     dom_heap v = (dom_heap w)(p \<mapsto> x) \<and> domain_list v = domain_list w @ [p] \<and> dom_num v = dom_num w + 1 \<and> dom_next v = Suc p"

definition gone :: "u32 \<Rightarrow> dom_world \<Rightarrow> bool" where
  "gone d v \<longleftrightarrow> (\<exists>t. trace (dw_srv v) = t @ [(''xen_domctl_destroydomain'', [uint d])])"

lemma create_cases:
  assumes "domain_create P c d0 w = Some (rc, v)" "dom_heap w (dom_next w) = None"
  obtains "int (cfg_domu_max (dp_cfg P)) \<le> dom_num w" "rc = - EINVAL" "v = w"
  | d where "fst (on_env (create_in_xen P c d0) w) = (rc, d)" "rc \<noteq> 0" "same w v"
  | d where "fst (on_env (create_in_xen P c d0) w) = (0, d)" "reg v = reg w" "dom_next w \<le> dom_next v" "gone d v"
      "rc \<noteq> 0 \<or> \<not> fst (k_malloc (get_env (snd (on_env (create_in_xen P c d0) w))))"
  | d x where "fst (on_env (create_in_xen P c d0) w) = (0, d)" "dom_num w < int (cfg_domu_max (dp_cfg P))" "rc = sint d"
      "added (dom_next w) x w v" "refcount x = 1" "dm_domid x = d" "\<not> f_dom0less x"
proof (cases "int (cfg_domu_max (dp_cfg P)) \<le> dom_num w")
  case True
  then have "Some (- EINVAL, w) = Some (rc, v)" using assms(1) unfolding domain_create_def by (simp only: if_True)
  then show ?thesis by (intro that(1) True) simp_all
next
  case False
  obtain a w1 where a: "on_env (create_in_xen P c d0) w = (a, w1)" by (rule prod.exhaust)
  obtain k d where "a = (k, d)" by (rule prod.exhaust)
  with a have 1: "on_env (create_in_xen P c d0) w = ((k, d), w1)" by simp
  note s1 = same_on_env [OF 1]
  show ?thesis
  proof (cases "k = 0")
    case k: False
    then show ?thesis using assms(1) False 1 s1 that(2) by (simp add: domain_create_def)
  next
    case k: True
    obtain ok w2 where 2: "on_env k_malloc w1 = (ok, w2)" by (rule prod.exhaust)
    note s2 = same_trans [OF s1 same_on_env [OF 2]]
    have okf: "ok = fst (k_malloc (get_env w1))" using 2 by (auto simp: on_env_def Let_def split: prod.splits)
    show ?thesis
    proof (cases ok)
      case ok: False
      then have v: "rc = 0" "v = snd (hyp_call ''xen_domctl_destroydomain'' [uint d] w2)"
        using assms(1) False 1 k 2 by (simp_all add: domain_create_def destroy_domain_def)
      have "same w v" unfolding v(2) by (rule same_trans [OF s2 same_hyp_call_snd])
      moreover have "gone d v" unfolding gone_def v(2) using hyp_call_trace by blast
      ultimately show ?thesis using that(3) [of d] 1 k ok okf by (simp add: same_def)
    next
      case ok: True
      obtain name where n: "create_name c = Some name"
        using assms(1) False 1 k 2 ok by (auto simp: domain_create_def split: Option.bind_splits)
      define p where "p = dom_next w2"
      define x where "x = (zero_domain d)\<lparr>dom_name := snd (snprintf CONTAINER_NAME_SIZE name)\<rparr>"
      define w3 where "w3 = w2\<lparr>dom_next := Suc p, dom_heap := (dom_heap w2)(p \<mapsto> x)\<rparr>"
      have c: "do { ((rc2, x1, m), w4) \<leftarrow> on_env_opt (setup_steps (domain_setup P c d) (x, \<lparr>ventry = 0, dtb_addr = 0\<rparr>)) w3;
          if rc2 \<noteq> 0 then domain_free p d rc2 w4 else publish_domain P c name p d x1 w4 } = Some (rc, v)"
        using assms(1) False 1 k 2 ok n unfolding w3_def x_def p_def by (simp add: domain_create_def Let_def)
      obtain rc2 x1 m w4 where 4: "on_env_opt (setup_steps (domain_setup P c d) (x, \<lparr>ventry = 0, dtb_addr = 0\<rparr>)) w3 = Some ((rc2, x1, m), w4)"
        using c by (auto split: Option.bind_splits)
      have keep: "dm_domid x1 = d" "\<not> f_dom0less x1"
      proof -
        obtain e where "setup_steps (domain_setup P c d) (x, \<lparr>ventry = 0, dtb_addr = 0\<rparr>) (get_env w3) = Some ((rc2, x1, m), e)"
          using 4 by (auto simp: on_env_opt_def split: Option.bind_splits)
        then have "dm_domid (fst (x1, m)) = dm_domid (fst (x, m)) \<and> f_dom0less (fst (x1, m)) = f_dom0less (fst (x, m))"
          using setup_keeps [of P c d] unfolding step_keeps_def by (metis fst_conv)
        then show "dm_domid x1 = d" "\<not> f_dom0less x1" by (simp_all add: x_def zero_domain_def)
      qed
      have pn: "p = dom_next w" using s2 by (simp add: p_def same_def)
      have w3: "dom_heap w3 = (dom_heap w)(p \<mapsto> x)" "domain_list w3 = domain_list w" "dom_num w3 = dom_num w" "dom_next w3 = Suc p"
        using s2 unfolding w3_def by (simp_all add: same_def reg_eq)
      have w4: "same w3 w4" by (rule same_on_env_opt [OF 4])
      have und: "reg v = reg w \<and> dom_next w \<le> dom_next v \<and> gone d v" if "undone p d w4 v"
        using that w4 w3 assms(2) pn by (auto simp: undone_def gone_def same_def reg_eq)
      show ?thesis
      proof (cases "rc2 = 0")
        case r: False
        then have "domain_free p d rc2 w4 = Some (rc, v)" using c 4 by simp
        then have "rc = rc2 \<and> undone p d w4 v" by (rule domain_free_undone)
        then show ?thesis using that(3) [of d] 1 k und r by simp
      next
        case True
        then have "publish_domain P c name p d x1 w4 = Some (rc, v)" using c 4 by simp
        then show ?thesis
        proof (cases rule: publish_cases)
          case 1
          then show ?thesis using that(3) [of d] \<open>on_env (create_in_xen P c d0) w = ((k, d), w1)\<close> k und by simp
        next
          case (2 y w5)
          have "added (dom_next w) (y\<lparr>refcount := 1\<rparr>) w v"
            using 2(2,3) w4 w3 pn by (simp add: added_def register_domain_def same_def reg_eq)
          then show ?thesis using that(4) [of d "y\<lparr>refcount := 1\<rparr>"] 1 k 2 keep False by simp
        qed
      qed
    qed
  qed
qed

lemma added_ok:
  assumes "dom_ok H w" "added (dom_next w) x w v" "refcount x = base_ref x"
  shows "dom_ok H v"
proof -
  have n: "dom_next w \<notin> set (domain_list w)" "dom_next w \<notin># H" using assms(1) dom_okD(5,7) by blast+
  moreover have "{p. dom_heap v p \<noteq> None} = insert (dom_next w) (set (domain_list w))"
    using assms(1,2) by (auto simp: dom_ok_def added_def)
  ultimately show ?thesis
    using assms unfolding dom_ok_def added_def by (auto simp: not_in_iff less_Suc_eq)
qed

lemma create_ok:
  assumes "dom_ok H w" "domain_create P c d0 w = Some (rc, v)"
  shows "dom_ok H v"
  using assms(2) dom_ok_fresh [OF assms(1)]
proof (cases rule: create_cases)
  case (2 d)
  then show ?thesis using assms(1) dom_ok_same by blast
next
  case (3 d)
  then show ?thesis using assms(1) by (auto simp: dom_ok_def reg_eq intro: less_le_trans)
next
  case (4 d x)
  then show ?thesis using added_ok [OF assms(1)] by (simp add: base_ref_def)
qed (use assms(1) in simp)

section \<open>Domains started by Xen\<close>

lemma dom0less_cases:
  assumes "dom0less_init_domain P d info w = Some (rc, v)"
  obtains "rc \<noteq> 0" "reg v = reg w" "dom_next w \<le> dom_next v"
  | x where "rc = 0" "added (dom_next w) x w v" "refcount x = 0" "dm_domid x = d" "f_dom0less x"
proof -
  obtain ok w1 where 1: "on_env k_malloc w = (ok, w1)" by (rule prod.exhaust)
  note s1 = same_on_env [OF 1]
  define w2 where "w2 = w1\<lparr>dom_next := Suc (dom_next w1)\<rparr>"
  define u where "u = w\<lparr>dom_next := Suc (dom_next w)\<rparr>"
  have s2: "same u w2" using s1 unfolding w2_def u_def by (simp add: same_def reg_eq)
  have fail: "reg t = reg w \<and> dom_next w \<le> dom_next t" if "same w2 t" for t
    using that s1 unfolding w2_def by (simp add: same_def reg_eq)
  show ?thesis
  proof (cases ok)
    case False
    then show ?thesis using assms 1 s1 by (intro that(1)) (simp_all add: dom0less_init_domain_def same_def)
  next
    case ok: True
    obtain a w3 where a3: "on_env (hvm_get_parameter HVM_PARAM_STORE_EVTCHN d) w2 = (a, w3)" by (rule prod.exhaust)
    obtain r3 value3 where "a = (r3, value3)" by (rule prod.exhaust)
    with a3 have 3: "on_env (hvm_get_parameter HVM_PARAM_STORE_EVTCHN d) w2 = ((r3, value3), w3)" by simp
    note s3 = same_on_env [OF 3]
    show ?thesis
    proof (cases "r3 = 0")
      case False
      then show ?thesis using assms 1 ok 3 fail [OF s3] unfolding w2_def
        by (intro that(1)) (simp_all add: dom0less_init_domain_def Let_def)
    next
      case r3: True
      obtain b w4 where b4: "on_env (hvm_get_parameter HVM_PARAM_STORE_PFN d) w3 = (b, w4)" by (rule prod.exhaust)
      obtain r4 pfn where "b = (r4, pfn)" by (rule prod.exhaust)
      with b4 have 4: "on_env (hvm_get_parameter HVM_PARAM_STORE_PFN d) w3 = ((r4, pfn), w4)" by simp
      note s4 = same_trans [OF s3 same_on_env [OF 4]]
      define x1 where "x1 = (dom0less_domain d info)\<lparr>dm_xenstore := (dm_xenstore (dom0less_domain d info))\<lparr>remote_evtchn := ucast value3\<rparr>\<rparr>"
      have r: "(if r4 < 0 then Some (r4, w4) else if pfn = - 1 then Some (- ENODEV, w4)
          else do { ((rc3, x2), w5) \<leftarrow> start_store P pfn x1 w4;
                    if rc3 \<noteq> 0 then Some (rc3, w5)
                    else do { (rc4, w6) \<leftarrow> on_srv (xs_initialize_xenstore d (dom_info.truncate x2)) w5;
                              if rc4 \<noteq> 0 then do { ((rc5, x3), w7) \<leftarrow> stop_store P x2 w6; Some (rc4, w7) }
                              else Some (0, register_domain (dom_next w1) x2
                                (set_env (notify_evtchn (remote_evtchn (dm_xenstore x2)) (get_env w6)) w6)) } }) = Some (rc, v)"
        using assms unfolding dom0less_init_domain_def Let_def 1 prod.case w2_def [symmetric] 3 4 x1_def [symmetric]
        by (simp only: ok r3 not_True_eq_False if_False simp_thms)
      show ?thesis
      proof (cases "r4 < 0 \<or> pfn = - 1")
        case True
        then show ?thesis using r fail [OF s4] by (intro that(1)) (auto split: if_splits)
      next
        case False
        then obtain rc3 x2 w5 where 5: "start_store P pfn x1 w4 = Some ((rc3, x2), w5)"
          using r by (auto split: Option.bind_splits)
        note s5 = same_trans [OF s4 same_start_store [OF 5]] and k5 = start_store_keeps [OF 5]
        show ?thesis
        proof (cases "rc3 = 0")
          case f: False
          then show ?thesis using r False 5 fail [OF s5] by (intro that(1)) simp_all
        next
          case True
          then obtain rc4 w6 where 6: "on_srv (xs_initialize_xenstore d (dom_info.truncate x2)) w5 = Some (rc4, w6)"
            using r False 5 by (auto split: Option.bind_splits)
          note s6 = same_trans [OF s5 same_on_srv [OF 6]]
          show ?thesis
          proof (cases "rc4 = 0")
            case f: False
            then obtain z w7 where 7: "stop_store P x2 w6 = Some (z, w7)" "rc = rc4" "v = w7"
              using r False 5 True 6 by (auto split: Option.bind_splits)
            then show ?thesis using fail [OF same_trans [OF s6 same_stop_store [OF 7(1)]]] f by (intro that(1)) simp_all
          next
            case z: True
            have v: "rc = 0" "v = register_domain (dom_next w1) x2 (set_env (notify_evtchn (remote_evtchn (dm_xenstore x2)) (get_env w6)) w6)"
              using r False 5 True 6 z by simp_all
            have s7: "same w2 (set_env (notify_evtchn (remote_evtchn (dm_xenstore x2)) (get_env w6)) w6)"
              by (rule same_trans [OF s6 same_set_env])
            have "added (dom_next w) x2 w v"
              using s7 s1 unfolding v(2) w2_def by (simp add: added_def register_domain_def same_def reg_eq)
            then show ?thesis
              by (rule that(2) [OF v(1)]) (use k5 in \<open>simp_all add: x1_def dom0less_domain_def zero_domain_def\<close>)
          qed
        qed
      qed
    qed
  qed
qed

lemma dom0less_ok: "dom_ok H w \<Longrightarrow> dom0less_init_domain P d info w = Some (rc, v) \<Longrightarrow> dom_ok H v"
proof (erule dom0less_cases)
  assume "dom_ok H w" "reg v = reg w" "dom_next w \<le> dom_next v"
  then show ?thesis by (auto simp: dom_ok_def reg_eq intro: less_le_trans)
next
  fix x
  assume "dom_ok H w" "added (dom_next w) x w v" "refcount x = 0" "f_dom0less x"
  then show ?thesis using added_ok by (simp add: base_ref_def)
qed

section \<open>Every use of the interface\<close>

text \<open>A step of a system of callers: the state of the module and the references that are held.  A
  caller drops only references it holds, and a domain is destroyed only when nobody holds it.\<close>

inductive dom_step :: "dom_par \<Rightarrow> dom_world \<times> nat multiset \<Rightarrow> dom_world \<times> nat multiset \<Rightarrow> bool" for P where
  create: "domain_create P c d w = Some (rc, v) \<Longrightarrow> dom_step P (w, H) (v, H)"
| destroy: "domain_destroy P d w = Some (rc, v) \<Longrightarrow> not_held d H w \<Longrightarrow> dom_step P (w, H) (v, H)"
| pause: "domain_pause P d w = Some (rc, v) \<Longrightarrow> dom_step P (w, H) (v, H)"
| unpause: "domain_unpause P d w = Some (rc, v) \<Longrightarrow> dom_step P (w, H) (v, H)"
| post_create: "domain_post_create P c d w = Some (rc, v) \<Longrightarrow> not_held d H w \<Longrightarrow> dom_step P (w, H) (v, H)"
| get: "get_domain d w = Some (Some p, v) \<Longrightarrow> dom_step P (w, H) (v, add_mset p H)"
| put: "put_domain P (Some p) w = Some v \<Longrightarrow> p \<in># H \<Longrightarrow> dom_step P (w, H) (v, H - {#p#})"
| attach: "dom0less_init_domain P d info w = Some (rc, v) \<Longrightarrow> dom_step P (w, H) (v, H)"

lemma dom_step_ok: "dom_step P s t \<Longrightarrow> dom_ok (snd s) (fst s) \<Longrightarrow> dom_ok (snd t) (fst t)"
proof (induction rule: dom_step.induct)
  case (create c d w rc v H)
  then show ?case using create_ok by simp
next
  case (destroy d w rc v H)
  then show ?case using destroy_ok by simp
next
  case (pause d w rc v H)
  then show ?case using call_ok unfolding domain_pause_def by simp
next
  case (unpause d w rc v H)
  then show ?case using call_ok unfolding domain_unpause_def by simp
next
  case (post_create c d w rc v H)
  then show ?case using post_create_ok by simp
next
  case (get d w p v H)
  then show ?case using get_ok by simp
next
  case (put p w v H)
  then show ?case using put_ok by simp
next
  case (attach d info w rc v H)
  then show ?case using dom0less_ok by simp
qed

lemma dom_steps_ok: "(dom_step P)\<^sup>*\<^sup>* s t \<Longrightarrow> dom_ok (snd s) (fst s) \<Longrightarrow> dom_ok (snd t) (fst t)"
  by (induction rule: rtranclp_induct) (auto dest: dom_step_ok)

section \<open>Properties\<close>

definition ex_par :: dom_par where
  "ex_par =
     \<lparr>dp_cfg = \<lparr>cfg_chunk = 8, cfg_regions = True, cfg_virt_to_gfn = drop_bit 12, cfg_domu_max = 4\<rparr>,
      dp_con = \<lparr>cc_chunk = 8, cc_regions = True, cc_virt_to_gfn = drop_bit 12, cc_domu_max = 4, cc_console_pfn = 0x39000\<rparr>,
      dp_fdt = \<lparr>fc_libfdt = False, fc_size = 0, fc_major = 4, fc_minor = 17\<rparr>,
      dp_flask = False, dp_console_srv = False, dp_asserts = True, dp_var = 0x1000,
      dp_store_page = \<lparr>req = [], rsp = [], req_cons = 0, req_prod = 0, rsp_cons = 0, rsp_prod = 0, server_features = 0,
                       connection = 0, error = 0, evtchn_port = 0\<rparr>,
      dp_con_page = \<lparr>con_bytes = [], in_cons = 0, in_prod = 0, out_cons = 0, out_prod = 0\<rparr>,
      dp_reader = None, dp_waiting = False\<rparr>"

definition ex_dom :: "int \<Rightarrow> bool \<Rightarrow> xen_domain" where
  "ex_dom n dom0less = (zero_domain 5)\<lparr>dom_name := ''demo'', refcount := n, f_dom0less := dom0less\<rparr>"

definition ex_registry :: "int \<Rightarrow> bool \<Rightarrow> int list \<Rightarrow> dom_world" where
  "ex_registry n dom0less hc =
     \<lparr>dw_srv = ex_server\<lparr>hcalls := hc\<rparr>, dw_con = ex_con_world, dom_heap = [0 \<mapsto> ex_dom n dom0less], dom_next = 1,
      domain_list = [0], dom_num = 1\<rparr>"

definition ex_cfg :: xen_domain_cfg where
  "ex_cfg =
     \<lparr>cfg_name = ''demo'' @ [NUL], cfg_domain_name = [NUL], machine_dt_compat = None, mem_kb = 0x4000, cfg_flags = 0, max_vcpus = 2,
      max_evtchns = 10, gnt_frames = 32, max_maptrack_frames = 1, cfg_ssidref = 0, gic_version = 2, tee_type = 0,
      iomems = [], irqs = [40, 33], dtdevs = [], dt_passthrough = None, cmdline = None, seclabel = None, dtb = None,
      load_image_bytes = None, get_image_size = None, back_cfg = \<lparr>vifs = [], disks = []\<rparr>, f_paused = False\<rparr>"

lemma ex_registry_ok: "dom_ok {#} (ex_registry 1 False hc)"
  by (auto simp: dom_ok_def ex_registry_def ex_dom_def base_ref_def split: if_splits)

text \<open>C4. Whatever sequence of creations, destructions, pauses, attachments and uses of references is made
  -- references are dropped by those that hold them, and a domain is destroyed only when nobody holds
  it --, the list of domains has no duplicates, the counter is its length, the structures in memory are
  exactly those that are listed, and each has one reference for the registry (none if Xen has started
  the domain) besides those that are held.  In particular a held reference never dangles.\<close>

theorem registry_invariant:
  assumes "dom_ok H0 w0" "(dom_step P)\<^sup>*\<^sup>* (w0, H0) (w, H)"
  shows "distinct (domain_list w) \<and> dom_num w = int (length (domain_list w)) \<and>
    {p. dom_heap w p \<noteq> None} = set (domain_list w) \<and>
    (\<forall>p x. dom_heap w p = Some x \<longrightarrow> refcount x = (if f_dom0less x then 0 else 1) + int (count H p)) \<and>
    (\<forall>p \<in># H. dom_heap w p \<noteq> None)"
proof -
  have ok: "dom_ok H w" using dom_steps_ok [OF assms(2)] assms(1) by simp
  then show ?thesis using dom_okD(4,7) [OF ok] unfolding dom_ok_def base_ref_def by blast
qed

theorem registry_invariant_witness:
  "\<exists>w. get_domain 5 (ex_registry 1 False []) = Some (Some 0, w) \<and> dom_heap w 0 \<noteq> None \<and>
    (\<forall>p x. dom_heap w p = Some x \<longrightarrow> refcount x = (if f_dom0less x then 0 else 1) + int (count {#0#} p))"
proof -
  obtain w where w: "get_domain 5 (ex_registry 1 False []) = Some (Some 0, w)"
    by (simp add: get_domain_def add_ref_def ex_registry_def ex_dom_def zero_domain_def)
  then have "dom_step ex_par (ex_registry 1 False [], {#}) (w, {#0#})" by (rule dom_step.get)
  then have "(dom_step ex_par)\<^sup>*\<^sup>* (ex_registry 1 False [], {#}) (w, {#0#})" by (rule r_into_rtranclp)
  from registry_invariant [OF ex_registry_ok this] w show ?thesis by simp
qed

text \<open>C10. \<open>domain_create\<close> is all or nothing.  Either the new domain is registered at the end of the list with
  one reference, the counter stays within the limit and the result is its id; or the registry is as it was,
  and if the hypervisor had created the domain then the last call destroyed it again.\<close>

theorem create_all_or_nothing:
  assumes "domain_create P c d0 w = Some (rc, v)" "dom_heap w (dom_next w) = None"
  shows "(\<exists>d x. fst (on_env (create_in_xen P c d0) w) = (0, d) \<and> rc = sint d \<and>
      dom_heap v = (dom_heap w)(dom_next w \<mapsto> x) \<and> domain_list v = domain_list w @ [dom_next w] \<and> dom_num v = dom_num w + 1 \<and>
      dom_num v \<le> int (cfg_domu_max (dp_cfg P)) \<and> refcount x = 1 \<and> dm_domid x = d) \<or>
    (dom_heap v = dom_heap w \<and> domain_list v = domain_list w \<and> dom_num v = dom_num w \<and>
      (dom_num w < int (cfg_domu_max (dp_cfg P)) \<and> fst (fst (on_env (create_in_xen P c d0) w)) = 0 \<longrightarrow>
         (\<exists>t. trace (dw_srv v) = t @ [(''xen_domctl_destroydomain'', [uint (snd (fst (on_env (create_in_xen P c d0) w)))])])))"
  using assms
proof (cases rule: create_cases)
  case (2 d)
  then show ?thesis by (auto simp: same_def reg_eq)
next
  case (3 d)
  then show ?thesis by (auto simp: reg_eq gone_def)
next
  case (4 d x)
  then show ?thesis by (intro disjI1 exI [of _ d] exI [of _ x]) (simp add: added_def)
qed simp

theorem create_all_or_nothing_witness:
  "\<exists>v. domain_create ex_par (ex_cfg) 0 (ex_registry 1 False [0, 7, - 22]) = Some (- 22, v) \<and> domain_list v = [0] \<and> dom_num v = 1"
  (is "\<exists>v. ?c = Some (- 22, v) \<and> _")
proof -
  have "map_option fst ?c = Some (- 22)" by code_simp
  then obtain v where v: "?c = Some (- 22, v)" by auto
  have "dom_heap (ex_registry 1 False [0, 7, - 22]) (dom_next (ex_registry 1 False [0, 7, - 22])) = None"
    by (simp add: ex_registry_def)
  from create_all_or_nothing [OF v this] have "domain_list v = [0] \<and> dom_num v = 1 \<or> (\<exists>d. - 22 = sint (d :: u32) \<and> fst (on_env (create_in_xen ex_par ex_cfg 0) (ex_registry 1 False [0, 7, - 22])) = (0, d))"
    by (auto simp: ex_registry_def)
  moreover have "fst (on_env (create_in_xen ex_par ex_cfg 0) (ex_registry 1 False [0, 7, - 22])) = (0, 7)" by code_simp
  ultimately show ?thesis using v by auto
qed

text \<open>C21. Destroying a domain that nobody holds: \<open>-EINVAL\<close> and nothing changes when no listed domain has the
  id; otherwise the first one that has it leaves the list, its structure is freed and the counter goes
  down.\<close>

theorem destroy_removes:
  assumes "dom_ok H w" "not_held d H w" "domain_destroy P d w = Some (rc, v)"
  shows "rc = - EINVAL \<and> v = w \<and> find_dom d (domain_list w) (dom_heap w) = Some None \<or>
    (\<exists>p x. rc = 0 \<and> find_dom d (domain_list w) (dom_heap w) = Some (Some p) \<and> dom_heap w p = Some x \<and> dm_domid x = d \<and>
       \<not> f_dom0less x \<and> domain_list v = remove1 p (domain_list w) \<and> dom_heap v = (dom_heap w)(p := None) \<and>
       dom_num v = dom_num w - 1)"
  using assms
proof (cases rule: destroy_cases)
  case (2 p x)
  have "dm_domid x = d" using find_dom_in [OF 2(2)] 2(3) by simp
  then show ?thesis using 2 by (intro disjI2 exI [of _ p] exI [of _ x] conjI)
qed simp

theorem destroy_removes_witness:
  "\<exists>v. domain_destroy ex_par 5 (ex_registry 1 False []) = Some (0, v) \<and> domain_list v = [] \<and> dom_heap v 0 = None"
  (is "\<exists>v. ?c = Some (0, v) \<and> _")
proof -
  have "map_option fst ?c = Some 0" by code_simp
  then obtain v where v: "?c = Some (0, v)" by auto
  have "not_held 5 {#} (ex_registry 1 False [])" by (simp add: not_held_def)
  moreover have f: "find_dom 5 (domain_list (ex_registry 1 False [])) (dom_heap (ex_registry 1 False [])) = Some (Some 0)"
    by (simp add: ex_registry_def ex_dom_def zero_domain_def)
  ultimately have "domain_list v = remove1 0 (domain_list (ex_registry 1 False [])) \<and> dom_heap v = (dom_heap (ex_registry 1 False []))(0 := None)"
    using destroy_removes [OF ex_registry_ok _ v] unfolding f by blast
  then show ?thesis using v by (simp add: ex_registry_def)
qed

text \<open>The walk over the list does not look at the references.\<close>

lemma find_dom_refs: "h p = Some x \<Longrightarrow> find_dom d ps (h(p \<mapsto> x\<lparr>refcount := k\<rparr>)) = find_dom d ps h"
proof (induction ps)
  case (Cons q ps)
  then show ?case by (cases "q = p") (auto split: Option.bind_split)
qed simp

lemma put_drop:
  "dom_heap w p = Some x \<Longrightarrow> refcount x \<noteq> 1 \<Longrightarrow> \<not> f_dom0less x \<Longrightarrow>
    put_domain P (Some p) w = Some (w\<lparr>dom_heap := (dom_heap w)(p \<mapsto> x\<lparr>refcount := refcount x - 1\<rparr>)\<rparr>)"
  by (simp add: put_domain_def add_ref_def)

lemma put_frees: "dom_heap w p = Some x \<Longrightarrow> refcount x = 1 \<Longrightarrow> put_domain P (Some p) w = Some v \<Longrightarrow> dom_heap v p = None"
  by (erule put_domain_cases) (auto simp: unlink_domain_def split: if_splits)

lemma destroy_drops:
  assumes "find_dom d (domain_list w) (dom_heap w) = Some (Some p)" "dom_heap w p = Some x" "\<not> f_dom0less x" "refcount x = 2"
  shows "domain_destroy P d w = Some (0, w\<lparr>dom_heap := (dom_heap w)(p \<mapsto> x\<lparr>refcount := 1\<rparr>)\<rparr>)"
  using assms by (simp add: domain_destroy_def get_domain_def add_ref_def put_drop)

text \<open>C39. Destroying is not idempotent while a reference is held.  The first \<open>domain_destroy\<close> of a domain that
  a caller holds drops the reference of the registry but leaves the domain in the list; a second one drops
  the reference of the caller, frees the structure, and the caller's pointer dangles: its \<open>put_domain\<close>
  touches freed memory.\<close>

theorem second_destroy_steals_reference:
  assumes "find_dom d (domain_list w) (dom_heap w) = Some (Some p)" "dom_heap w p = Some x" "\<not> f_dom0less x" "refcount x = 2"
    "domain_destroy P d w = Some (r1, w1)" "domain_destroy P d w1 = Some (r2, w2)"
  shows "r1 = 0 \<and> r2 = 0 \<and> domain_list w1 = domain_list w \<and> dom_heap w2 p = None \<and> put_domain P (Some p) w2 = None"
proof -
  have w1: "r1 = 0" "w1 = w\<lparr>dom_heap := (dom_heap w)(p \<mapsto> x\<lparr>refcount := 1\<rparr>)\<rparr>"
    using destroy_drops [OF assms(1-4), of P] assms(5) by simp_all
  let ?y = "x\<lparr>refcount := 1\<rparr>"
  have h: "dom_heap w1 p = Some ?y" "find_dom d (domain_list w1) (dom_heap w1) = Some (Some p)"
    using assms(1) find_dom_refs [of "dom_heap w" p x, OF assms(2)] unfolding w1(2) by simp_all
  let ?u = "w1\<lparr>dom_heap := (dom_heap w1)(p \<mapsto> x\<lparr>refcount := 2\<rparr>)\<rparr>"
  have g: "get_domain d w1 = Some (Some p, ?u)" using h by (simp add: get_domain_def add_ref_def)
  have "put_domain P (Some p) ?u = Some (?u\<lparr>dom_heap := (dom_heap ?u)(p \<mapsto> ?y)\<rparr>)"
    using put_drop [of ?u p "x\<lparr>refcount := 2\<rparr>" P] assms(3) by simp
  then obtain v where v: "put_domain P (Some p) (?u\<lparr>dom_heap := (dom_heap ?u)(p \<mapsto> ?y)\<rparr>) = Some v" "r2 = 0" "w2 = v"
    using assms(6) g by (auto simp: domain_destroy_def split: Option.bind_splits)
  have "dom_heap w2 p = None" unfolding v(3) by (rule put_frees [OF _ _ v(1), where x = ?y]) simp_all
  then show ?thesis using w1 v(2) by (simp add: put_domain_def)
qed

theorem second_destroy_steals_reference_witness:
  "\<exists>w1 w2. domain_destroy ex_par 5 (ex_registry 2 False []) = Some (0, w1) \<and> domain_destroy ex_par 5 w1 = Some (0, w2) \<and>
    put_domain ex_par (Some 0) w2 = None"
proof -
  let ?w = "ex_registry 2 False []"
  have f: "find_dom 5 (domain_list ?w) (dom_heap ?w) = Some (Some 0)" "dom_heap ?w 0 = Some (ex_dom 2 False)" "\<not> f_dom0less (ex_dom 2 False)"
    "refcount (ex_dom 2 False) = 2"
    by (simp_all add: ex_registry_def ex_dom_def zero_domain_def)
  note d1 = destroy_drops [OF f, of ex_par]
  let ?w1 = "?w\<lparr>dom_heap := (dom_heap ?w)(0 \<mapsto> (ex_dom 2 False)\<lparr>refcount := 1\<rparr>)\<rparr>"
  have "domain_destroy ex_par 5 ?w1 \<noteq> None" by code_simp
  then obtain r2 w2 where d2: "domain_destroy ex_par 5 ?w1 = Some (r2, w2)" by auto
  from second_destroy_steals_reference [OF f d1 d2] show ?thesis using d1 d2 by blast
qed

text \<open>C40. A domain that Xen has started has no reference of its own.  Pausing or unpausing it fails the
  assertion of \<open>put_domain\<close>, and in a build without assertions drops the last reference and takes the domain
  apart; destroying it never returns normally.\<close>

theorem dom0less_operations_fail:
  assumes "find_dom d (domain_list w) (dom_heap w) = Some (Some p)" "dom_heap w p = Some x" "f_dom0less x" "refcount x = 0"
  shows "(dp_asserts P \<longrightarrow> domain_pause P d w = None \<and> domain_unpause P d w = None) \<and> domain_destroy P d w = None \<and>
    (\<forall>rc v. domain_pause P d w = Some (rc, v) \<longrightarrow> dom_heap v p = None)"
proof -
  let ?u = "w\<lparr>dom_heap := (dom_heap w)(p \<mapsto> x\<lparr>refcount := 1\<rparr>)\<rparr>"
  have g: "get_domain d w = Some (Some p, ?u)" using assms by (simp add: get_domain_def add_ref_def)
  have a: "put_domain P (Some p) v = None" if "same ?u v" "dp_asserts P" for v
    using that assms(3) by (simp add: put_domain_def same_def reg_eq)
  have c: "domain_call name P d w = do { w3 \<leftarrow> put_domain P (Some p) (snd (hyp_call name [uint d] ?u));
      Some (fst (hyp_call name [uint d] ?u), w3) }" for name
    using g by (simp add: domain_call_def case_prod_unfold Let_def)
  have 1: "dp_asserts P \<Longrightarrow> domain_call name P d w = None" for name
    unfolding c using a [OF same_hyp_call_snd] by simp
  have h: "dom_heap (snd (hyp_call name [uint d] ?u)) p = Some (x\<lparr>refcount := 1\<rparr>)" for name
    using same_hyp_call_snd [of ?u name "[uint d]"] by (simp add: same_def reg_eq)
  have 2: "dom_heap v p = None" if "domain_call name P d w = Some (rc, v)" for name rc v
    using that put_frees [OF h] unfolding c by (auto split: Option.bind_splits)
  have 3: "domain_destroy P d w = None"
  proof (cases "put_domain P (Some p) ?u")
    case None
    then show ?thesis using g by (simp add: domain_destroy_def)
  next
    case (Some v)
    then have "dom_heap v p = None" using put_frees [of ?u p "x\<lparr>refcount := 1\<rparr>" P v] by simp
    then have "put_domain P (Some p) v = None" by (simp add: put_domain_def)
    then show ?thesis using g Some by (simp add: domain_destroy_def)
  qed
  show ?thesis using 1 2 3 unfolding domain_pause_def domain_unpause_def by blast
qed

theorem dom0less_operations_fail_witness: "domain_pause ex_par 5 (ex_registry 0 True []) = None"
proof -
  let ?w = "ex_registry 0 True []"
  have f: "find_dom 5 (domain_list ?w) (dom_heap ?w) = Some (Some 0)" "dom_heap ?w 0 = Some (ex_dom 0 True)" "f_dom0less (ex_dom 0 True)"
    "refcount (ex_dom 0 True) = 0"
    by (simp_all add: ex_registry_def ex_dom_def zero_domain_def)
  from dom0less_operations_fail [OF f, of ex_par] show ?thesis by (simp add: ex_par_def)
qed

text \<open>When the structure of a domain cannot be allocated the domain is destroyed again, and the result is 0.\<close>

theorem create_out_of_memory_returns_zero:
  assumes "dom_num w < int (cfg_domu_max (dp_cfg P))" "on_env (create_in_xen P c d0) w = ((0, d), w1)" "on_env k_malloc w1 = (False, w2)"
  shows "domain_create P c d0 w = Some (0, snd (hyp_call ''xen_domctl_destroydomain'' [uint d] w2))"
  using assms by (simp add: domain_create_def destroy_domain_def)

end
