(* ===== verification/Xstat.thy ===== *)
theory Xstat
  imports Dom_Mgmt
begin

text \<open>
  Statistics of the machine and its domains, \<open>xstat.c\<close> with \<open>xstat.h\<close>.  What a hypercall fills in is
  taken from the announced outcomes; \<open>None\<close> is an access outside an array or a string without end.
\<close>

section \<open>Data\<close>

abbreviation (input) XEN_EXTRAVERSION_LEN :: nat where "XEN_EXTRAVERSION_LEN \<equiv> 16"
abbreviation (input) SHORT_ASC_LEN :: nat where "SHORT_ASC_LEN \<equiv> 5"

definition VERSION_SIZE :: nat where
  "VERSION_SIZE = 2 * SHORT_ASC_LEN + 1 + XEN_EXTRAVERSION_LEN + 1"

record xenstat_vcpu =
  vs_online :: bool
  vs_cpu_time :: u64

record xenstat_domain =
  sd_id :: u16
  sd_name :: "char list"
  sd_state :: u32
  sd_cpu_ns :: u64
  sd_num_vcpus :: u32
  sd_cur_mem :: u64
  sd_max_mem :: u64
  sd_ssid :: u32

record xenstat =
  st_num_cpus :: u32
  st_cpu_hz :: u64
  st_tot_mem :: u64
  st_free_mem :: u64
  st_xen_version :: string

text \<open>\<open>struct xen_sysctl_physinfo\<close>, the fields that are used.\<close>

record xen_sysctl_physinfo =
  pi_nr_cpus :: u32
  pi_cpu_khz :: u32
  pi_total_pages :: u64
  pi_free_pages :: u64

text \<open>Bytes written to the start of a buffer.\<close>

definition put_bytes :: "char list \<Rightarrow> char list \<Rightarrow> char list" where
  "put_bytes bs buf = bs @ drop (length bs) buf"

section \<open>Operations\<close>

text \<open>\<open>store_srv\<close> is \<open>CONFIG_XEN_STORE_SRV\<close>; the path is that of \<open>get_domain_name\<close>.\<close>

definition xenstat_get_domain_name ::
  "bool \<Rightarrow> u16 \<Rightarrow> nat \<Rightarrow> 'a xs_store_scheme \<Rightarrow> ((int \<times> char list option) \<times> 'a xs_store_scheme) option" where
  "xenstat_get_domain_name store_srv domain_id len w =
     (if store_srv
      then xss_read (Some (snd (snprintf 25 (''/local/domain/'' @ fmt_d (uint domain_id) @ ''/name'')))) len w
      else Some ((- EINVAL, None), w))"

text \<open>\<open>info\<close> says whether a structure is passed; it is cleared first.\<close>

definition xstat_getvcpu :: "bool \<Rightarrow> u16 \<Rightarrow> u16 \<Rightarrow> 'a env_scheme \<Rightarrow> (int \<times> xenstat_vcpu option) \<times> 'a env_scheme" where
  "xstat_getvcpu info d vcpu e =
     (if \<not> info then ((- EINVAL, None), e)
      else
        let (ret, e1) = ext_call ''xen_domctl_getvcpu'' [uint d, uint vcpu] e;
            (os, e2) = ext_out 2 e1
        in if ret < 0 then ((ret, Some \<lparr>vs_online = False, vs_cpu_time = 0\<rparr>), e2)
           else ((0, Some \<lparr>vs_online = (of_int (os ! 0) :: u8) \<noteq> 0, vs_cpu_time = of_int (os ! 1)\<rparr>), e2))"

text \<open>One element of the result; \<open>first\<close> is the first element of the array the hypercall filled.\<close>

definition dominfo_entry ::
  "bool \<Rightarrow> xen_domctl_getdomaininfo \<Rightarrow> xen_domctl_getdomaininfo \<Rightarrow> xenstat_domain \<Rightarrow> 'a xs_store_scheme \<Rightarrow>
     (xenstat_domain \<times> 'a xs_store_scheme) option" where
  "dominfo_entry store_srv first i old w =
     do { ((rc, nm), w1) \<leftarrow> xenstat_get_domain_name store_srv (gi_domain i) CONTAINER_NAME_SIZE w;
          Some (\<lparr>sd_id = gi_domain i,
                 sd_name = put_bytes (if rc \<noteq> 0 then [NUL] else case nm of None \<Rightarrow> [] | Some bs \<Rightarrow> bs) (sd_name old),
                 sd_state = gi_flags i, sd_cpu_ns = gi_cpu_time i, sd_num_vcpus = gi_max_vcpu_id i + 1,
                 sd_cur_mem = gi_tot_pages i * XEN_PAGE_SIZE,
                 sd_max_mem = (if gi_max_pages first = - 1 then - 1 else gi_max_pages i * XEN_PAGE_SIZE),
                 sd_ssid = gi_ssidref i\<rparr>, w1) }"

fun dominfo_loop ::
  "bool \<Rightarrow> xen_domctl_getdomaininfo \<Rightarrow> xen_domctl_getdomaininfo list \<Rightarrow> xenstat_domain list \<Rightarrow> 'a xs_store_scheme \<Rightarrow>
     (xenstat_domain list \<times> 'a xs_store_scheme) option" where
  "dominfo_loop store_srv first [] ds w = Some (ds, w)"
| "dominfo_loop store_srv first (i # is) [] w = None"
| "dominfo_loop store_srv first (i # is) (d # ds) w =
     do { (d1, w1) \<leftarrow> dominfo_entry store_srv first i d w;
          (ds1, w2) \<leftarrow> dominfo_loop store_srv first is ds w1;
          Some (d1 # ds1, w2) }"

text \<open>\<open>domains\<close> is the array of the caller, \<open>None\<close> for a null pointer.\<close>

definition xstat_getdominfo ::
  "bool \<Rightarrow> nat \<Rightarrow> xenstat_domain list option \<Rightarrow> u16 \<Rightarrow> u16 \<Rightarrow> 'a xs_store_scheme \<Rightarrow>
     ((int \<times> xenstat_domain list option) \<times> 'a xs_store_scheme) option" where
  "xstat_getdominfo store_srv domu_max domains first num w =
     (case domains of
        None \<Rightarrow> Some ((- EINVAL, None), w)
      | Some ds \<Rightarrow>
          let num1 = (if domu_max + 1 < unat num then domu_max + 1 else unat num);
              (ok, w1) = k_malloc w
          in if \<not> ok then Some ((- ENOMEM, domains), w1)
             else
               let ((ret, infos), w2) = sysctl_getdomaininfo (uint first) num1 w1
               in if ret < 0 then Some ((ret, domains), w2)
                  else if int num1 < ret then None
                  else do { (ds1, w3) \<leftarrow> (if infos = [] then Some (ds, w2) else dominfo_loop store_srv (hd infos) infos ds w2);
                            Some ((ret, Some ds1), w3) })"

definition physinfo_of :: "int list \<Rightarrow> xen_sysctl_physinfo" where
  "physinfo_of os =
     \<lparr>pi_nr_cpus = of_int (os ! 0), pi_cpu_khz = of_int (os ! 1), pi_total_pages = of_int (os ! 2), pi_free_pages = of_int (os ! 3)\<rparr>"

text \<open>The text of the version: \<open>major\<close> and \<open>minor\<close> have 16 bits.\<close>

definition version_text :: "int \<Rightarrow> string \<Rightarrow> string" where
  "version_text v extra =
     fmt_d (uint (of_int (v div 65536) :: u16)) @ ''.'' @ fmt_d (uint (of_int v :: u16)) @ extra"

text \<open>\<open>stat\<close> is the structure of the caller as it was, \<open>None\<close> for a null pointer.\<close>

definition xstat_getstat :: "xenstat option \<Rightarrow> 'a env_scheme \<Rightarrow> ((int \<times> xenstat option) \<times> 'a env_scheme) option" where
  "xstat_getstat stat e =
     (case stat of
        None \<Rightarrow> Some ((- EINVAL, None), e)
      | Some s \<Rightarrow>
          let (ret, e1) = ext_call ''xen_version'' [] e
          in if ret < 0 then Some ((ret, stat), e1)
             else
               let (ret2, e2) = ext_call ''xen_version_extraversion'' [int XEN_EXTRAVERSION_LEN] e1;
                   (os, e3) = ext_out XEN_EXTRAVERSION_LEN e2
               in if ret2 < 0 then Some ((ret2, stat), e3)
                  else
                    do { extra \<leftarrow> cstr (map char_of os);
                         let s1 = s\<lparr>st_xen_version := snd (snprintf VERSION_SIZE (version_text ret extra))\<rparr>;
                             (ok, e4) = k_malloc e3
                         in if \<not> ok then Some ((- ENOMEM, Some s1), e4)
                            else
                              let (ret3, e5) = ext_call ''xen_sysctl_physinfo'' [] e4;
                                  (os2, e6) = ext_out 4 e5;
                                  info = physinfo_of os2
                              in if ret3 < 0 then Some ((ret3, Some s1), e6)
                                 else Some ((ret3, Some (s1\<lparr>st_cpu_hz := ucast (pi_cpu_khz info) * 1000, st_num_cpus := pi_nr_cpus info,
                                                            st_tot_mem := pi_total_pages info * XEN_PAGE_SIZE,
                                                            st_free_mem := pi_free_pages info * XEN_PAGE_SIZE\<rparr>)), e6) })"

end
