(* ===== verification/Xstat_Props.thy ===== *)
theory Xstat_Props
  imports Xstat Dom_Mgmt_Props
begin

text \<open>What the statistics report about domains and the machine.\<close>

section \<open>Names of domains\<close>

lemma xss_read_returns:
  fixes w :: "'a xs_store_scheme"
  assumes "0 < len"
  shows "\<exists>rc b w1. xss_read path len w = Some ((rc, b), w1) \<and> (rc = 0 \<longleftrightarrow> b \<noteq> None) \<and> root_xenstore w1 = root_xenstore w"
proof -
  obtain r w1 where k: "key_to_entry path w = (r, w1)" by (rule prod.exhaust)
  note root = key_to_entry_root [OF k]
  show ?thesis
  proof (cases r)
    case None
    then show ?thesis using k root by (simp add: xss_read_def key_to_entry_check_perm_def check_perms_for_entry_def)
  next
    case (Some p)
    then obtain e where "node_at (root_xenstore w) p = Some e" using k by (auto elim: key_to_entry_Some)
    then show ?thesis using k Some root assms
      by (cases "xs_value e") (simp_all add: xss_read_def key_to_entry_check_perm_def check_perms_for_entry_def)
  qed
qed

section \<open>The array of domains\<close>

text \<open>What an element reports of its domain, given the first element of the hypercall's array.\<close>

definition reports :: "xen_domctl_getdomaininfo \<Rightarrow> xen_domctl_getdomaininfo \<Rightarrow> xenstat_domain \<Rightarrow> bool" where
  "reports first i d \<longleftrightarrow>
     sd_id d = gi_domain i \<and> sd_state d = gi_flags i \<and> sd_cpu_ns d = gi_cpu_time i \<and> sd_num_vcpus d = gi_max_vcpu_id i + 1 \<and>
     sd_cur_mem d = gi_tot_pages i * 4096 \<and> sd_ssid d = gi_ssidref i \<and>
     sd_max_mem d = (if gi_max_pages first = - 1 then - 1 else gi_max_pages i * 4096)"

lemma dominfo_entry_reports: "\<exists>d1 w1. dominfo_entry srv first i d w = Some (d1, w1) \<and> reports first i d1"
  using xss_read_returns [of 64 "Some (snd (snprintf 25 (''/local/domain/'' @ fmt_d (uint (gi_domain i)) @ ''/name'')))" w]
  by (cases srv) (auto simp: dominfo_entry_def xenstat_get_domain_name_def reports_def)

lemma dominfo_loop_reports:
  "length is \<le> length ds \<Longrightarrow>
    \<exists>ds1 w1. dominfo_loop srv first is ds w = Some (ds1, w1) \<and> length ds1 = length ds \<and>
      drop (length is) ds1 = drop (length is) ds \<and> (\<forall>k < length is. reports first (is ! k) (ds1 ! k))"
proof (induction "is" arbitrary: ds w)
  case (Cons i js)
  then obtain d ds' where ds: "ds = d # ds'" "length js \<le> length ds'" by (cases ds) auto
  obtain d1 w1 where 1: "dominfo_entry srv first i d w = Some (d1, w1)" "reports first i d1"
    using dominfo_entry_reports by blast
  obtain ds1 w2 where 2: "dominfo_loop srv first js ds' w1 = Some (ds1, w2)" "length ds1 = length ds'"
    "drop (length js) ds1 = drop (length js) ds'" "\<forall>k < length js. reports first (js ! k) (ds1 ! k)"
    using Cons.IH [OF ds(2)] by blast
  show ?case
    by (rule exI [of _ "d1 # ds1"], rule exI [of _ w2]) (use 1 2 ds(1) in \<open>auto simp: nth_Cons split: nat.split\<close>)
qed simp

lemma infos_out_length: "length (fst (infos_out n e)) = n"
  by (induction n arbitrary: e) (auto simp: case_prod_unfold Let_def)

text \<open>C37. For an array with enough elements, \<open>xstat_getdominfo\<close> returns the number of domains the hypervisor
  reports, never more than were asked for; the elements up to that number hold the data of those domains
  and the others are left alone.  The limit on memory is the exception: whether it is infinite is looked
  up in the first domain for all of them, so behind an unlimited first domain every domain is reported as
  unlimited, and an unlimited domain behind a limited one gets the limit \<open>2^64 - 4096\<close>.\<close>

theorem dominfo_reported:
  assumes "unat num \<le> length ds" "fst (k_malloc w)" "n = min (unat num) (domu_max + 1)"
    "sysctl_getdomaininfo (uint first) n (snd (k_malloc w)) = ((ret, infos), w2)" "0 \<le> ret" "ret \<le> int n"
  shows "\<exists>ds' w'. xstat_getdominfo srv domu_max (Some ds) first num w = Some ((ret, Some ds'), w') \<and>
    length ds' = length ds \<and> drop (nat ret) ds' = drop (nat ret) ds \<and> length infos = nat ret \<and>
    (\<forall>k < nat ret. let i = infos ! k; d = ds' ! k in
       sd_id d = gi_domain i \<and> sd_state d = gi_flags i \<and> sd_cpu_ns d = gi_cpu_time i \<and> sd_num_vcpus d = gi_max_vcpu_id i + 1 \<and>
       sd_cur_mem d = gi_tot_pages i * 4096 \<and> sd_ssid d = gi_ssidref i \<and>
       (gi_max_pages (infos ! 0) = - 1 \<longrightarrow> sd_max_mem d = - 1) \<and>
       (gi_max_pages (infos ! 0) \<noteq> - 1 \<longrightarrow> sd_max_mem d = gi_max_pages i * 4096))"
proof -
  have len: "length infos = nat ret"
    using assms(4) infos_out_length by (auto simp: sysctl_getdomaininfo_def case_prod_unfold Let_def)
  then have le: "length infos \<le> length ds" using assms(1,3,6) by linarith
  have n: "(if domu_max + 1 < unat num then domu_max + 1 else unat num) = n" using assms(3) by auto
  have run: "xstat_getdominfo srv domu_max (Some ds) first num w =
      Option.bind (if infos = [] then Some (ds, w2) else dominfo_loop srv (hd infos) infos ds w2) (\<lambda>(ds1, w3). Some ((ret, Some ds1), w3))"
    using assms(2,4,5,6) unfolding xstat_getdominfo_def option.case Let_def n
    by (cases "k_malloc w") simp
  show ?thesis
  proof (cases "infos = []")
    case True
    then show ?thesis using run len by simp
  next
    case False
    then obtain ds1 w1 where l: "dominfo_loop srv (hd infos) infos ds w2 = Some (ds1, w1)" "length ds1 = length ds"
      "drop (length infos) ds1 = drop (length infos) ds" "\<forall>k < length infos. reports (hd infos) (infos ! k) (ds1 ! k)"
      using dominfo_loop_reports [OF le] by blast
    show ?thesis
      by (rule exI [of _ ds1], rule exI [of _ w1])
         (use run len l False in \<open>simp add: reports_def Let_def hd_conv_nth\<close>)
  qed
qed

definition ex_stat_domain :: xenstat_domain where
  "ex_stat_domain =
     \<lparr>sd_id = 0, sd_name = replicate 64 NUL, sd_state = 0, sd_cpu_ns = 0, sd_num_vcpus = 0, sd_cur_mem = 0, sd_max_mem = 0, sd_ssid = 0\<rparr>"

text \<open>A limit of 16 pages behind the unlimited control domain is lost.\<close>

theorem dominfo_reported_witness:
  "\<exists>ds' w'. xstat_getdominfo True 4 (Some (replicate 2 ex_stat_domain)) 0 2
       (ex_server\<lparr>hcalls := [2, 0, 32, 9, - 1, 1, 1, 0, 0, 40, 5, 16, 8, 16, 1, 1, 1, 0, 40]\<rparr>) = Some ((2, Some ds'), w') \<and>
     sd_id (ds' ! 1) = 5 \<and> sd_cur_mem (ds' ! 1) = 32768 \<and> sd_max_mem (ds' ! 1) = - 1"
proof -
  let ?w = "ex_server\<lparr>hcalls := [2, 0, 32, 9, - 1, 1, 1, 0, 0, 40, 5, 16, 8, 16, 1, 1, 1, 0, 40]\<rparr>"
  let ?c = "sysctl_getdomaininfo (uint (0 :: u16)) 2 (snd (k_malloc ?w))"
  obtain r w2 where c: "?c = (r, w2)" by (rule prod.exhaust)
  obtain ret infos where ri: "r = (ret, infos)" by (rule prod.exhaust)
  have "fst ?c = (2, [getdomaininfo_of [0, 32, 9, - 1, 1, 1, 0, 0, 40], getdomaininfo_of [5, 16, 8, 16, 1, 1, 1, 0, 40]])" by code_simp
  then have ret: "ret = 2" and infos: "infos = [getdomaininfo_of [0, 32, 9, - 1, 1, 1, 0, 0, 40], getdomaininfo_of [5, 16, 8, 16, 1, 1, 1, 0, 40]]"
    using c ri by simp_all
  have m: "fst (k_malloc ?w)" by code_simp
  have h: "unat (2 :: u16) \<le> length (replicate 2 ex_stat_domain)" "2 = min (unat (2 :: u16)) (4 + 1)" "0 \<le> ret" "ret \<le> int 2"
    using ret by simp_all
  note run = dominfo_reported [OF h(1) m h(2) c [unfolded ri] h(3,4), of True]
  obtain ds' w' where d: "xstat_getdominfo True 4 (Some (replicate 2 ex_stat_domain)) 0 2 ?w = Some ((ret, Some ds'), w')"
    and k: "\<forall>k < nat ret. let i = infos ! k; d = ds' ! k in
       sd_id d = gi_domain i \<and> sd_state d = gi_flags i \<and> sd_cpu_ns d = gi_cpu_time i \<and> sd_num_vcpus d = gi_max_vcpu_id i + 1 \<and>
       sd_cur_mem d = gi_tot_pages i * 4096 \<and> sd_ssid d = gi_ssidref i \<and>
       (gi_max_pages (infos ! 0) = - 1 \<longrightarrow> sd_max_mem d = - 1) \<and>
       (gi_max_pages (infos ! 0) \<noteq> - 1 \<longrightarrow> sd_max_mem d = gi_max_pages i * 4096)"
    using run by (elim exE conjE) (rule that)
  have "sd_id (ds' ! 1) = 5 \<and> sd_cur_mem (ds' ! 1) = 32768 \<and> sd_max_mem (ds' ! 1) = - 1"
    using spec [OF k, of 1] unfolding ret infos by (simp add: getdomaininfo_of_def Let_def)
  then show ?thesis using d unfolding ret by blast
qed

section \<open>The version\<close>

lemma fmt_d_u16: "length (fmt_d (uint (x :: u16))) \<le> 5"
proof -
  have "unat x < 2 ^ 16" using unsigned_less [of x] by simp
  then have "unat x < 10 ^ 5" by simp
  then show ?thesis using length_dec_le [of 5 "unat x"] by (simp add: fmt_d_def)
qed

text \<open>The text of the version is never cut: whatever the hypervisor reports, the number, the dot, the
  second number and the extra version of at most 15 characters fit the array of the structure.\<close>

theorem version_fits:
  assumes "length bytes = XEN_EXTRAVERSION_LEN" "cstr bytes = Some extra"
  shows "snprintf VERSION_SIZE (version_text v extra) = (length (version_text v extra), version_text v extra) \<and>
    length (version_text v extra) < VERSION_SIZE"
proof -
  obtain rest where "bytes = extra @ NUL # rest" using cstr_Some_append [OF assms(2)] by blast
  then have "length extra \<le> 15" using assms(1) by simp
  then have "length (version_text v extra) < VERSION_SIZE"
    using fmt_d_u16 [of "of_int (v div 65536)"] fmt_d_u16 [of "of_int v"] by (simp add: version_text_def VERSION_SIZE_def)
  then show ?thesis using snprintf_fits by blast
qed

theorem version_fits_witness:
  "snprintf VERSION_SIZE (version_text 0x40012 ''.2-rc'') = (length (version_text 0x40012 ''.2-rc''), ''4.18.2-rc'')"
proof -
  have c: "length (''.2-rc'' @ replicate 11 NUL) = 16" "cstr (''.2-rc'' @ replicate 11 NUL) = Some ''.2-rc''" by code_simp+
  have v: "version_text 0x40012 ''.2-rc'' = ''4.18.2-rc''" by code_simp
  show ?thesis using version_fits [OF c, of "0x40012"] unfolding v by (rule conjunct1)
qed

end
