(* ===== verification/Shell_Cmds.thy ===== *)
theory Shell_Cmds
  imports Xstat Xs_Local "HOL-Library.Sublist"
begin

text \<open>
  The shell commands: \<open>xen_cmds.c\<close> (domains), \<open>xenstore_cmds.c\<close> (the store) and \<open>xstat_cmds.c\<close>
  (statistics).  A command gets its words, the first of which is its own name, and returns its result
  code and the lines it prints.  Words are C strings without their terminator.
\<close>

section \<open>Output\<close>

datatype shell_level = Shell_Normal | Shell_Print | Shell_Info | Shell_Error

type_synonym shell_out = "(shell_level \<times> string) list"

text \<open>\<open>%ns\<close> and \<open>%-ns\<close>.\<close>

definition pad_left :: "nat \<Rightarrow> string \<Rightarrow> string" where
  "pad_left n s = replicate (n - length s) (CHR '' '') @ s"

definition pad_right :: "nat \<Rightarrow> string \<Rightarrow> string" where
  "pad_right n s = s @ replicate (n - length s) (CHR '' '')"

section \<open>Arguments\<close>

abbreviation (input) DOMID_ANY :: u32 where "DOMID_ANY \<equiv> 0x7FF5"
abbreviation (input) ENOEXEC :: int where "ENOEXEC \<equiv> 8"
abbreviation (input) EFBIG :: int where "EFBIG \<equiv> 27"

text \<open>Without any word \<open>argc - 1\<close> wraps around.\<close>

fun parse_domid :: "string list \<Rightarrow> u32 option" where
  "parse_domid [] = None"
| "parse_domid [a] = Some DOMID_ANY"
| "parse_domid (a # b # argv) =
     (if prefix ''-d'' a then map_option of_int (atoi (b @ [NUL])) else parse_domid (b # argv))"

definition parse_and_fill_flags :: "string list \<Rightarrow> 'a xen_domain_cfg_scheme \<Rightarrow> 'a xen_domain_cfg_scheme" where
  "parse_and_fill_flags argv c = (if list_ex (prefix ''-p'') argv then c\<lparr>f_paused := True\<rparr> else c)"

definition is_all_numbers :: "string \<Rightarrow> bool" where
  "is_all_numbers str \<longleftrightarrow> list_all isdigit str"

definition parse_domid_or_name :: "nat \<Rightarrow> string \<Rightarrow> 'a xs_store_scheme \<Rightarrow> (u32 \<times> 'a xs_store_scheme) option" where
  "parse_domid_or_name domu_max arg w =
     (if is_all_numbers arg then map_option (\<lambda>i. (of_int i, w)) (atoi (arg @ [NUL])) else find_domain_by_name domu_max arg w)"

section \<open>Partial device trees\<close>

text \<open>The fields of a configuration that only the shell uses; the callbacks are given by their results.\<close>

record xen_domain_cfg_pdt = xen_domain_cfg +
  image_dt_read :: "(nat \<Rightarrow> u64 \<Rightarrow> int \<times> char list) option"
  image_dt_get_size :: "(int \<times> u64) option"

text \<open>\<open>buf\<close> is \<open>pfdt_read_buf\<close>.  A callback that writes more than it is asked to is undefined.\<close>

definition xen_cmd_read_pfdt ::
  "xen_domain_cfg_pdt \<Rightarrow> char list \<Rightarrow> (int \<times> xen_domain_cfg_pdt \<times> char list) option" where
  "xen_cmd_read_pfdt c buf =
     (if dtb c \<noteq> None then Some (0, c, buf)
      else if image_dt_get_size c = None \<and> image_dt_read c = None then Some (0, c, buf)
      else
        do { (ret, pfdt_size) \<leftarrow> image_dt_get_size c;
             if ret \<noteq> 0 then Some (ret, c, buf)
             else if pfdt_size = 0 then Some (- ENOEXEC, c, buf)
             else if length buf < unat pfdt_size then Some (- EFBIG, c, buf)
             else
               do { read \<leftarrow> image_dt_read c;
                    let (ret2, bs) = read (unat pfdt_size) 0; buf1 = put_bytes bs buf
                    in if unat pfdt_size < length bs then None
                       else if ret2 \<noteq> 0 then Some (ret2, c, buf1)
                       else Some (0, c\<lparr>dtb := Some (take (unat pfdt_size) buf1)\<rparr>, buf1) } })"

section \<open>Commands on domains\<close>

text \<open>The configurations of the application and of the section of the linker, and
  \<open>CONFIG_XEN_DOMCFG_READ_PDT\<close>.\<close>

record shell_par =
  sp_par :: dom_par
  sp_user :: "xen_domain_cfg_pdt list"
  sp_section :: "xen_domain_cfg_pdt list"
  sp_read_pdt :: bool

definition domu_create ::
  "shell_par \<Rightarrow> string list \<Rightarrow> char list \<Rightarrow> dom_world \<Rightarrow> ((int \<times> shell_out \<times> char list) \<times> dom_world) option" where
  "domu_create S argv buf w =
     (if length argv < 2 then Some ((- EINVAL, [], buf), w)
      else
        do { domid \<leftarrow> parse_domid argv;
             case domain_find_config (sp_user S) (sp_section S) (argv ! 1) of
               None \<Rightarrow> Some ((- EINVAL, [(Shell_Error, ''Config '' @ argv ! 1 @ '' not found'')], buf), w)
             | Some cfg \<Rightarrow>
                 do { (ret, domcfg_tmp, buf1) \<leftarrow> (if sp_read_pdt S then xen_cmd_read_pfdt (parse_and_fill_flags argv cfg) buf
                                                 else Some (0, parse_and_fill_flags argv cfg, buf));
                      if ret \<noteq> 0 then Some ((ret, [], buf1), w)
                      else
                        do { (ret2, w1) \<leftarrow> domain_create (sp_par S) (xen_domain_cfg.truncate domcfg_tmp) domid w;
                             if ret2 < 0 then Some ((ret2, [], buf1), w1)
                             else
                               do { (ret3, w2) \<leftarrow> domain_post_create (sp_par S) (xen_domain_cfg.truncate domcfg_tmp) (of_int ret2) w1;
                                    if ret3 \<noteq> 0 then Some ((ret3, [], buf1), w2)
                                    else Some ((0, [(Shell_Info, ''domain:'' @ fmt_d (uint (of_int ret2 :: u32)) @ '' created'')], buf1), w2) } } } })"

text \<open>How the other commands begin: one argument, which names a domain.\<close>

definition domain_cmd ::
  "shell_par \<Rightarrow> string \<Rightarrow> (u32 \<Rightarrow> dom_world \<Rightarrow> ((int \<times> shell_out) \<times> dom_world) option) \<Rightarrow> string list \<Rightarrow> dom_world \<Rightarrow>
     ((int \<times> shell_out) \<times> dom_world) option" where
  "domain_cmd S name f argv w =
     (if length argv \<noteq> 2 then Some ((- EINVAL, []), w)
      else
        do { (domid, w1) \<leftarrow> on_srv (parse_domid_or_name (cfg_domu_max (dp_cfg (sp_par S))) (argv ! 1)) w;
             if domid = 0 then Some ((- EINVAL, [(Shell_Error, ''Invalid domid passed to '' @ name @ '' cmd\<newline>'')]), w1)
             else f domid w1 })"

text \<open>And how three of them end.\<close>

definition report_done ::
  "string \<Rightarrow> (u32 \<Rightarrow> dom_world \<Rightarrow> (int \<times> dom_world) option) \<Rightarrow> u32 \<Rightarrow> dom_world \<Rightarrow> ((int \<times> shell_out) \<times> dom_world) option" where
  "report_done verb f domid w =
     do { (ret, w1) \<leftarrow> f domid w;
          if ret \<noteq> 0 then Some ((ret, []), w1)
          else Some ((0, [(Shell_Info, ''domain:'' @ fmt_d (uint domid) @ '' '' @ verb)]), w1) }"

definition domu_destroy :: "shell_par \<Rightarrow> string list \<Rightarrow> dom_world \<Rightarrow> ((int \<times> shell_out) \<times> dom_world) option" where
  "domu_destroy S = domain_cmd S ''destroy'' (report_done ''destroyed'' (domain_destroy (sp_par S)))"

definition domu_pause :: "shell_par \<Rightarrow> string list \<Rightarrow> dom_world \<Rightarrow> ((int \<times> shell_out) \<times> dom_world) option" where
  "domu_pause S = domain_cmd S ''destroy'' (report_done ''paused'' (domain_pause (sp_par S)))"

definition domu_unpause :: "shell_par \<Rightarrow> string list \<Rightarrow> dom_world \<Rightarrow> ((int \<times> shell_out) \<times> dom_world) option" where
  "domu_unpause S = domain_cmd S ''unpause'' (report_done ''unpaused'' (domain_unpause (sp_par S)))"

text \<open>\<open>xen_attach_domain_console\<close> on the domain at \<open>p\<close>: its last act is to drop the reference of the
  caller, except for a domain that Xen has started.\<close>

definition attach_console :: "dom_par \<Rightarrow> nat \<Rightarrow> dom_world \<Rightarrow> ((int \<times> shell_out) \<times> dom_world) option" where
  "attach_console P p w =
     do { x \<leftarrow> dom_heap w p;
          ((rc, con), w1) \<leftarrow> on_con (\<lambda>s. let (rc, con, s1) = xen_attach_domain_console (\<lambda>v. v) (con_arg x) s in Some ((rc, con), s1)) w;
          let w2 = w1\<lparr>dom_heap := (dom_heap w1)(p \<mapsto> set_console con x)\<rparr>;
              out = (if rc = - EEXIST then [(Shell_Error, ''Shell is already attached to console'')] else [])
          in if f_dom0less x then Some ((rc, out), w2)
             else do { w3 \<leftarrow> put_domain P (Some p) w2; Some ((rc, out), w3) } }"

definition domu_console_attach :: "shell_par \<Rightarrow> string list \<Rightarrow> dom_world \<Rightarrow> ((int \<times> shell_out) \<times> dom_world) option" where
  "domu_console_attach S =
     domain_cmd S ''create''
       (\<lambda>domid w. do { (domain, w1) \<leftarrow> get_domain domid w;
                       case domain of
                         None \<Rightarrow> Some ((- EINVAL, [(Shell_Error, ''domid#'' @ fmt_d (uint domid) @ '' is not found'')]), w1)
                       | Some p \<Rightarrow> attach_console (sp_par S) p w1 })"

definition xen_config_list :: "shell_par \<Rightarrow> string list \<Rightarrow> dom_world \<Rightarrow> ((int \<times> shell_out) \<times> dom_world) option" where
  "xen_config_list S argv w =
     do { names \<leftarrow> those (map (\<lambda>c. cstr (cfg_name c)) (sp_user S @ sp_section S));
          Some ((0, map (Pair Shell_Print) names), w) }"

abbreviation (input) XEN_DOMINF_dying :: u32 where "XEN_DOMINF_dying \<equiv> 1"
abbreviation (input) XEN_DOMINF_shutdown :: u32 where "XEN_DOMINF_shutdown \<equiv> 4"
abbreviation (input) XEN_DOMINF_paused :: u32 where "XEN_DOMINF_paused \<equiv> 8"
abbreviation (input) XEN_DOMINF_blocked :: u32 where "XEN_DOMINF_blocked \<equiv> 16"
abbreviation (input) XEN_DOMINF_running :: u32 where "XEN_DOMINF_running \<equiv> 32"

unbundle bit_operations_syntax

definition flag_char :: "u32 \<Rightarrow> u32 \<Rightarrow> char \<Rightarrow> char" where
  "flag_char flags f c = (if flags AND f \<noteq> 0 then c else CHR ''-'')"

text \<open>A line of the table; \<open>secs\<close> prints a number of nanoseconds in seconds, as \<open>%8.1f\<close> does.\<close>

definition list_line :: "(u64 \<Rightarrow> string) \<Rightarrow> string \<Rightarrow> xen_domctl_getdomaininfo \<Rightarrow> string" where
  "list_line secs domname i =
     (let memkb = gi_tot_pages i * XEN_PAGE_SIZE div 1024
      in pad_right 40 domname @ '' '' @ pad_left 5 (fmt_d (uint (gi_domain i))) @ '' '' @ pad_left 5 (fmt_d (uint (memkb div 1024))) @
         '' '' @ pad_left 5 (fmt_d (sint (gi_online_vcpus i))) @ ''      '' @
         [flag_char (gi_flags i) XEN_DOMINF_running (CHR ''r''), flag_char (gi_flags i) XEN_DOMINF_blocked (CHR ''b''),
          flag_char (gi_flags i) XEN_DOMINF_paused (CHR ''p''), flag_char (gi_flags i) XEN_DOMINF_shutdown (CHR ''s''),
          flag_char (gi_flags i) XEN_DOMINF_dying (CHR ''d'')] @ ''  '' @ secs (gi_cpu_time i) @ ''\<newline>'')"

text \<open>The name is printed up to its terminator; without one \<open>printf\<close> leaves the array.\<close>

fun list_loop ::
  "(u64 \<Rightarrow> string) \<Rightarrow> xen_domctl_getdomaininfo list \<Rightarrow> 'a xs_store_scheme \<Rightarrow> (shell_out \<times> 'a xs_store_scheme) option" where
  "list_loop secs [] w = Some ([], w)"
| "list_loop secs (i # is) w =
     do { ((rc, buf), w1) \<leftarrow> get_domain_name (gi_domain i) CONTAINER_NAME_SIZE w;
          domname \<leftarrow> (if rc \<noteq> 0 then Some ''(NULL)'' else Option.bind buf cstr);
          (out, w2) \<leftarrow> list_loop secs is w1;
          Some ((Shell_Normal, list_line secs domname i) # out, w2) }"

definition list_header :: string where
  "list_header = ''Name                                        ID   Mem VCPUs'' @ [CHR 0x09] @ ''State'' @ [CHR 0x09] @ ''Time(s)\<newline>''"

text \<open>\<open>domain_list\<close> of \<open>xen_cmds.c\<close>.\<close>

definition domain_list_cmd ::
  "(u64 \<Rightarrow> string) \<Rightarrow> shell_par \<Rightarrow> string list \<Rightarrow> dom_world \<Rightarrow> ((int \<times> shell_out) \<times> dom_world) option" where
  "domain_list_cmd secs S argv =
     on_srv (\<lambda>s. let n = cfg_domu_max (dp_cfg (sp_par S)) + 1; ((ret, infos), s1) = sysctl_getdomaininfo 0 n s
                 in if ret < 0 then Some ((ret, []), s1)
                    else if int n < ret then None
                    else do { (out, s2) \<leftarrow> list_loop secs infos s1; Some ((ret, (Shell_Normal, list_header) # out), s2) })"

section \<open>Commands on the store\<close>

text \<open>\<open>n\<close> is \<open>CONFIG_XENSTORE_SHELL_READ_SIZE\<close>.\<close>

definition xenstore_shell_read ::
  "nat \<Rightarrow> string list \<Rightarrow> 'a xs_store_scheme \<Rightarrow> ((int \<times> shell_out) \<times> 'a xs_store_scheme) option" where
  "xenstore_shell_read n argv w =
     (if length argv \<noteq> 2 then Some ((- EINVAL, []), w)
      else if n = 0 then None
      else
        do { ((rc, buf), w1) \<leftarrow> xss_read (Some (argv ! 1)) n w;
             if rc \<noteq> 0 then Some ((0, [(Shell_Error, ''Failed to read xenstore path '' @ argv ! 1)]), w1)
             else do { bs \<leftarrow> buf; text \<leftarrow> cstr (bs[n - 1 := NUL]); Some ((0, [(Shell_Print, text)]), w1) } })"

definition xenstore_shell_write ::
  "string list \<Rightarrow> 'a xs_world_scheme \<Rightarrow> ((int \<times> shell_out) \<times> 'a xs_world_scheme) option" where
  "xenstore_shell_write argv w =
     (if length argv \<noteq> 3 then Some ((- EINVAL, []), w)
      else
        do { (rc, w1) \<leftarrow> xss_write (Some (argv ! 1)) (Some (argv ! 2)) w;
             Some ((rc, if rc \<noteq> 0 then [(Shell_Error, ''Failed to write xenstore path '' @ argv ! 1)] else []), w1) })"

definition xenstore_shell_ls_cb :: "string option \<times> string option \<times> nat \<Rightarrow> string" where
  "xenstore_shell_ls_cb e =
     (case e of (key, val, depth) \<Rightarrow>
        fmt_d (int depth) @ '': '' @
        (case key of
           None \<Rightarrow> ''root''
         | Some k \<Rightarrow> pad_left (depth * 2) '' '' @ k @ (case val of None \<Rightarrow> [] | Some v \<Rightarrow> '' = '' @ v)))"

text \<open>\<open>max_depth\<close> bounds the recursion of \<open>xss_list_traverse\<close>.\<close>

definition xenstore_shell_ls ::
  "nat \<Rightarrow> string list \<Rightarrow> 'a xs_store_scheme \<Rightarrow> ((int \<times> shell_out) \<times> 'a xs_store_scheme) option" where
  "xenstore_shell_ls max_depth argv w =
     (if length argv \<noteq> 2 then Some ((- EINVAL, []), w)
      else
        do { (rc, events, w1) \<leftarrow> xss_list_traverse max_depth (Some (argv ! 1)) True w;
             Some ((rc, map (\<lambda>e. (Shell_Print, xenstore_shell_ls_cb e)) events @
                (if rc \<noteq> 0 then [(Shell_Error, ''Failed to list xenstore path '' @ argv ! 1 @ '' ('' @ fmt_d rc @ '')'')] else [])), w1) })"

definition xenstore_shell_rm ::
  "string list \<Rightarrow> 'a xs_world_scheme \<Rightarrow> ((int \<times> shell_out) \<times> 'a xs_world_scheme) option" where
  "xenstore_shell_rm argv w =
     (if length argv \<noteq> 2 then Some ((- EINVAL, []), w)
      else
        do { (rc, w1) \<leftarrow> xss_rm (argv ! 1) w;
             Some ((rc, if rc \<noteq> 0 then [(Shell_Error, ''Failed to remove xenstore path '' @ argv ! 1)] else []), w1) })"

section \<open>Commands for statistics\<close>

text \<open>\<open>stat\<close> is the local variable before it is set.\<close>

definition stat_cmd ::
  "(int \<Rightarrow> xenstat \<Rightarrow> int \<times> shell_out) \<Rightarrow> xenstat \<Rightarrow> 'a env_scheme \<Rightarrow> ((int \<times> shell_out) \<times> 'a env_scheme) option" where
  "stat_cmd show stat e =
     do { ((ret, st), e1) \<leftarrow> xstat_getstat (Some stat) e;
          if ret < 0 then Some ((ret, [(Shell_Error, ''xstat_getstat error '' @ fmt_d ret)]), e1)
          else do { s \<leftarrow> st; Some (show ret s, e1) } }"

definition xstat_shell_vers :: "xenstat \<Rightarrow> 'a env_scheme \<Rightarrow> ((int \<times> shell_out) \<times> 'a env_scheme) option" where
  "xstat_shell_vers = stat_cmd (\<lambda>ret s. (0, [(Shell_Print, ''XEN version '' @ st_xen_version s)]))"

definition xstat_shell_physinfo :: "xenstat \<Rightarrow> 'a env_scheme \<Rightarrow> ((int \<times> shell_out) \<times> 'a env_scheme) option" where
  "xstat_shell_physinfo =
     stat_cmd (\<lambda>ret s. (ret, map (Pair Shell_Print)
       [''XEN version '' @ st_xen_version s, ''CPUs         : '' @ fmt_d (sint (st_num_cpus s)),
        ''CPU freq(kHz): '' @ fmt_d (sint (st_cpu_hz s div 1000)), ''Total mem(K) : '' @ fmt_d (uint (st_tot_mem s div 1024)),
        ''Free mem(K)  : '' @ fmt_d (uint (st_free_mem s div 1024))]))"

end
