(* ===== verification/Shell_Props.thy ===== *)
theory Shell_Props
  imports Shell_Cmds Xstat_Props Xl_Parser_Props Dom_Xs_Props
begin

text \<open>
  What the shell commands do: any sequence of them keeps the registry of domains and its reference
  counts, the store commands show what they wrote, and the errors of the commands.
\<close>

section \<open>Sessions\<close>

text \<open>Between two commands nobody holds a reference, and Xen has started none of the domains.\<close>

definition session_ok :: "dom_world \<Rightarrow> bool" where
  "session_ok w \<longleftrightarrow> dom_ok {#} w \<and> (\<forall>p x. dom_heap w p = Some x \<longrightarrow> \<not> f_dom0less x)"

text \<open>One command with any words, whatever it prints.\<close>

inductive shell_step :: "shell_par \<Rightarrow> dom_world \<Rightarrow> dom_world \<Rightarrow> bool" for S where
  create: "domu_create S argv buf w = Some (r, v) \<Longrightarrow> shell_step S w v"
| destroy: "domu_destroy S argv w = Some (r, v) \<Longrightarrow> shell_step S w v"
| pause: "domu_pause S argv w = Some (r, v) \<Longrightarrow> shell_step S w v"
| unpause: "domu_unpause S argv w = Some (r, v) \<Longrightarrow> shell_step S w v"
| console: "domu_console_attach S argv w = Some (r, v) \<Longrightarrow> shell_step S w v"
| config_list: "xen_config_list S argv w = Some (r, v) \<Longrightarrow> shell_step S w v"
| list_domains: "domain_list_cmd secs S argv w = Some (r, v) \<Longrightarrow> shell_step S w v"
| xs_read: "on_srv (xenstore_shell_read n argv) w = Some (r, v) \<Longrightarrow> shell_step S w v"
| xs_write: "on_srv (xenstore_shell_write argv) w = Some (r, v) \<Longrightarrow> shell_step S w v"
| xs_ls: "on_srv (xenstore_shell_ls n argv) w = Some (r, v) \<Longrightarrow> shell_step S w v"
| xs_rm: "on_srv (xenstore_shell_rm argv) w = Some (r, v) \<Longrightarrow> shell_step S w v"
| version: "on_env_opt (xstat_shell_vers stat) w = Some (r, v) \<Longrightarrow> shell_step S w v"
| physinfo: "on_env_opt (xstat_shell_physinfo stat) w = Some (r, v) \<Longrightarrow> shell_step S w v"

named_theorems session "commands that keep a session"

lemma session_dom_ok: "session_ok w \<Longrightarrow> dom_ok {#} w"
  by (simp add: session_ok_def)

lemma session_keeps: "session_ok w \<Longrightarrow> dom_ok {#} v \<Longrightarrow> keeps_ids w v \<Longrightarrow> session_ok v"
  unfolding session_ok_def keeps_ids_def by metis

lemma session_same: "session_ok w \<Longrightarrow> same w v \<Longrightarrow> session_ok v"
  by (rule session_keeps [OF _ iffD2 [OF dom_ok_same session_dom_ok] keeps_ids_same])

lemma nobody_holds [simp]: "not_held d {#} w"
  by (simp add: not_held_def)

lemma session_destroy [session]: "session_ok w \<Longrightarrow> domain_destroy P d w = Some (rc, v) \<Longrightarrow> session_ok v"
  by (rule session_keeps [OF _ destroy_ok [OF session_dom_ok nobody_holds] destroy_keeps_ids])

lemma session_call [session]: "session_ok w \<Longrightarrow> domain_call name P d w = Some (rc, v) \<Longrightarrow> session_ok v"
  by (rule session_keeps [OF _ call_ok [OF session_dom_ok] call_keeps_ids])

lemma session_post_create [session]: "session_ok w \<Longrightarrow> domain_post_create P c d w = Some (rc, v) \<Longrightarrow> session_ok v"
  using post_create_ok [OF session_dom_ok nobody_holds] by (blast intro: session_keeps)

lemma session_create [session]:
  assumes "session_ok w" "domain_create P c d w = Some (rc, v)"
  shows "session_ok v"
proof -
  have ok: "dom_ok {#} w" using assms(1) by (simp add: session_ok_def)
  have "\<not> f_dom0less y" if "dom_heap v p = Some y" for p y
    using assms(2) dom_ok_fresh [OF ok]
  proof (cases rule: create_cases)
    case (4 d x)
    then show ?thesis using that assms(1) by (auto simp: added_def session_ok_def split: if_splits)
  qed (use that assms(1) in \<open>auto simp: session_ok_def same_def reg_eq\<close>)
  then show ?thesis using create_ok [OF ok assms(2)] by (simp add: session_ok_def)
qed

text \<open>The reference that attaching a console takes is dropped again.\<close>

lemma session_attach:
  assumes "session_ok w" "get_domain d w = Some (Some p, w1)" "attach_console P p w1 = Some (r, v)"
  shows "session_ok v"
proof -
  have ok: "dom_ok {#p#} w1" using get_ok [OF _ assms(2), of "{#}"] assms(1) by (simp add: session_ok_def)
  have ids: "keeps_ids w w1" by (rule get_keeps_ids [OF assms(2)])
  obtain x rc con w2 where x: "dom_heap w1 p = Some x"
    and c: "on_con (\<lambda>s. let (rc, con, s1) = xen_attach_domain_console (\<lambda>v. v) (con_arg x) s in Some ((rc, con), s1)) w1 = Some ((rc, con), w2)"
    using assms(3) by (auto simp: attach_console_def split: Option.bind_splits)
  let ?w3 = "w2\<lparr>dom_heap := (dom_heap w2)(p \<mapsto> set_console con x)\<rparr>"
  have n: "\<not> f_dom0less x" using ids x assms(1) by (auto simp: keeps_ids_def session_ok_def)
  have s: "same w1 w2" by (rule same_on_con [OF c])
  have ok2: "dom_ok {#p#} w2" using dom_ok_same [OF s] ok by blast
  have x2: "dom_heap w2 p = Some x" using s x by (simp add: same_def reg_eq)
  have "dom_ok {#p#} ?w3"
    by (rule dom_ok_update [OF ok2 x2]) (use dom_okD(6) [OF ok2 x2] in \<open>simp_all add: base_ref_def\<close>)
  moreover have "put_domain P (Some p) ?w3 = Some v"
    using assms(3) x c n by (auto simp: attach_console_def Let_def split: Option.bind_splits)
  ultimately have "dom_ok {#} v" "keeps_ids ?w3 v" using put_ok [of "{#p#}" ?w3 p P v] put_keeps_ids by auto
  moreover have "keeps_ids w2 ?w3" using x2 by (auto simp: keeps_ids_def)
  ultimately show ?thesis using session_keeps [OF assms(1)] keeps_ids_trans ids keeps_ids_same [OF s] by meson
qed

section \<open>Every command keeps a session\<close>

lemma session_domain_cmd:
  assumes "session_ok w" "domain_cmd S name f argv w = Some (r, v)"
    "\<And>d u r v. session_ok u \<Longrightarrow> f d u = Some (r, v) \<Longrightarrow> session_ok v"
  shows "session_ok v"
proof (cases "length argv = 2")
  case True
  then obtain d w1 where p: "on_srv (parse_domid_or_name (cfg_domu_max (dp_cfg (sp_par S))) (argv ! 1)) w = Some (d, w1)"
    using assms(2) by (auto simp: domain_cmd_def split: Option.bind_splits)
  have "session_ok w1" by (rule session_same [OF assms(1) same_on_srv [OF p]])
  then show ?thesis using assms(2,3) p True by (auto simp: domain_cmd_def split: if_splits)
qed (use assms(1,2) in \<open>auto simp: domain_cmd_def\<close>)

lemma session_report_done:
  assumes "\<And>u rc v. session_ok u \<Longrightarrow> f d u = Some (rc, v) \<Longrightarrow> session_ok v"
    "session_ok w" "report_done verb f d w = Some (r, v)"
  shows "session_ok v"
  using assms by (auto simp: report_done_def split: Option.bind_splits if_splits)

lemma session_reports:
  assumes "\<And>d u rc v. session_ok u \<Longrightarrow> f d u = Some (rc, v) \<Longrightarrow> session_ok v"
    "session_ok w" "domain_cmd S name (report_done verb f) argv w = Some (r, v)"
  shows "session_ok v"
  by (rule session_domain_cmd [OF assms(2,3)]) (rule session_report_done [OF assms(1)])

lemma session_domu_create:
  assumes "session_ok w" "domu_create S argv buf w = Some (r, v)"
  shows "session_ok v"
proof -
  have 1: "v = w \<or> (\<exists>P c d rc. domain_create P c d w = Some (rc, v)) \<or>
      (\<exists>P c d rc w1 d1 rc1. domain_create P c d w = Some (rc, w1) \<and> domain_post_create P c d1 w1 = Some (rc1, v))"
    using assms(2) unfolding domu_create_def
    by (simp split: Option.bind_splits option.splits if_splits prod.splits) blast+
  then show ?thesis using assms(1) session_create session_post_create by blast
qed

lemma shell_step_session: "shell_step S w v \<Longrightarrow> session_ok w \<Longrightarrow> session_ok v"
proof (induction rule: shell_step.induct)
  case (create argv buf w r v)
  then show ?case by (blast intro: session_domu_create)
next
  case (destroy argv w r v)
  show ?case by (rule session_reports [OF _ destroy(2) destroy(1) [unfolded domu_destroy_def]]) (rule session_destroy)
next
  case (pause argv w r v)
  show ?case by (rule session_reports [OF _ pause(2) pause(1) [unfolded domu_pause_def domain_pause_def]]) (rule session_call)
next
  case (unpause argv w r v)
  show ?case by (rule session_reports [OF _ unpause(2) unpause(1) [unfolded domu_unpause_def domain_unpause_def]]) (rule session_call)
next
  case (console argv w r v)
  have "session_ok v'" if a: "session_ok u" and b: "Option.bind (get_domain d u) (\<lambda>(domain, w1).
      case domain of None \<Rightarrow> Some ((- EINVAL, [(Shell_Error, ''domid#'' @ fmt_d (uint d) @ '' is not found'')]), w1)
      | Some p \<Rightarrow> attach_console (sp_par S) p w1) = Some (r', v')" for d u r' v'
  proof -
    obtain q w1 where g: "get_domain d u = Some (q, w1)" using b by (auto split: Option.bind_splits)
    show ?thesis
    proof (cases q)
      case None
      then show ?thesis using g a b by (auto elim: get_domain_cases)
    next
      case (Some p)
      then show ?thesis using session_attach [OF a] g b by auto
    qed
  qed
  then show ?case using session_domain_cmd [OF console(2) console(1) [unfolded domu_console_attach_def]] by blast
next
  case (config_list argv w r v)
  then show ?case by (auto simp: xen_config_list_def split: Option.bind_splits)
next
  case (list_domains secs argv w r v)
  then show ?case unfolding domain_list_cmd_def by (blast intro: session_same same_on_srv)
qed (blast intro: session_same same_on_srv same_on_env_opt)+

lemma shell_steps_session: "(shell_step S)\<^sup>*\<^sup>* w v \<Longrightarrow> session_ok w \<Longrightarrow> session_ok v"
  by (induction rule: rtranclp_induct) (auto intro: shell_step_session)

section \<open>Properties of sessions\<close>

definition ex_shell :: shell_par where
  "ex_shell =
     \<lparr>sp_par = ex_par, sp_user = [], sp_section = [xen_domain_cfg.extend ex_cfg \<lparr>image_dt_read = None, image_dt_get_size = None\<rparr>],
      sp_read_pdt = True\<rparr>"

lemma ex_session: "session_ok (ex_registry 1 False hc)"
  using ex_registry_ok by (auto simp: session_ok_def ex_registry_def ex_dom_def zero_domain_def split: if_splits)

text \<open>C5. Where Xen starts no domains itself, every sequence of shell commands, with any words and any outcome,
  keeps the registry well formed: no domain is listed twice, the counter is the number of domains, the
  structures in memory are exactly those that are listed, and each has exactly one reference: no command
  leaks one or takes one it does not hold.\<close>

theorem shell_sessions_keep_registry:
  assumes "session_ok w" "(shell_step S)\<^sup>*\<^sup>* w v"
  shows "distinct (domain_list v) \<and> dom_num v = int (length (domain_list v)) \<and>
    {p. dom_heap v p \<noteq> None} = set (domain_list v) \<and> (\<forall>p x. dom_heap v p = Some x \<longrightarrow> refcount x = 1 \<and> \<not> f_dom0less x)"
proof -
  have ok: "session_ok v" by (rule shell_steps_session [OF assms(2,1)])
  have "refcount x = 1 \<and> \<not> f_dom0less x" if "dom_heap v p = Some x" for p x
    using dom_okD(6) [OF session_dom_ok [OF ok] that] ok that by (simp add: session_ok_def base_ref_def)
  then show ?thesis using session_dom_ok [OF ok] unfolding dom_ok_def by blast
qed

theorem shell_sessions_keep_registry_witness:
  "\<exists>v. domu_destroy ex_shell [''destroy'', ''5''] (ex_registry 1 False []) = Some ((0, [(Shell_Info, ''domain:5 destroyed'')]), v) \<and>
    {p. dom_heap v p \<noteq> None} = set (domain_list v)"
  (is "\<exists>v. ?c = Some (?r, v) \<and> _")
proof -
  have "map_option fst ?c = Some ?r" by code_simp
  then obtain v where v: "?c = Some (?r, v)" by auto
  have "(shell_step ex_shell)\<^sup>*\<^sup>* (ex_registry 1 False []) v" by (rule r_into_rtranclp) (rule shell_step.destroy [OF v])
  from shell_sessions_keep_registry [OF ex_session this] show ?thesis using v by blast
qed

section \<open>The store\<close>

lemma xss_read_value:
  assumes "abs_tree (root_xenstore w) (strtok_all slash p) = Some (Some v, ps)" "strtok_all slash p \<noteq> []"
    "length p \<le> XENSTORE_ABS_PATH_MAX" "fst (k_malloc w)"
  shows "\<exists>w1. xss_read (Some p) len w = Some ((0, Some (strncpy v len)), w1)"
proof -
  obtain e where e: "node_at (root_xenstore w) (strtok_all slash p) = Some e" "xs_value e = Some v"
    using assms(1) by (auto simp: abs_tree_def node_info_def)
  obtain w1 where k: "key_to_entry (Some p) w = (Some (strtok_all slash p), w1)" "root_xenstore w1 = root_xenstore w"
    using key_to_entry_found [OF assms(3,4,2) e(1)] by blast
  show ?thesis using k e by (simp add: xss_read_def key_to_entry_check_perm_def check_perms_for_entry_def)
qed

lemma abs_write_here: "ts \<noteq> [] \<Longrightarrow> \<exists>ps. abs_write ts (Some v) perms A ts = Some (Some v, ps)"
  by (cases "abs_mkdirs ts perms A ts") (auto simp: abs_write_def abs_mkdirs_def split: option.splits if_splits)

text \<open>The last byte of the buffer is set to the terminator, whatever has been read.\<close>

lemma cstr_cut:
  assumes "NUL \<notin> set v" "0 < n"
  shows "cstr ((strncpy v n)[n - 1 := NUL]) = Some (take (n - 1) v)"
proof -
  have "(strncpy v n)[n - 1 := NUL] = take (n - 1) v @ NUL # replicate (n - 1 - length v) NUL"
  proof (cases "n \<le> length v")
    case True
    then have "take n v = take (n - 1) v @ [v ! (n - 1)]" using assms(2) by (cases n) (auto simp: take_Suc_conv_app_nth)
    then show ?thesis using True assms(2) by (simp add: strncpy_def list_update_append)
  next
    case False
    then obtain k where k: "n = length v + Suc k" by (metis less_iff_Suc_add not_le add_Suc_right)
    then show ?thesis by (simp add: strncpy_def list_update_append nth_append replicate_append_same [symmetric])
  qed
  then show ?thesis using cstr_terminated [of "take (n - 1) v"] assms(1) by (auto dest: in_set_takeD)
qed

text \<open>C36. What \<open>xs write\<close> stores \<open>xs read\<close> prints: with enough memory both commands succeed, and the output
  is the value, cut to one byte less than the buffer of the command.\<close>

theorem store_commands_roundtrip:
  fixes w :: "'a xs_world_scheme"
  assumes "world_ok w" "mallocs w = []" "strtok_all slash path \<noteq> []" "length path \<le> XENSTORE_ABS_PATH_MAX"
    "NUL \<notin> set v" "0 < n"
  shows "\<exists>w1 w2. xenstore_shell_write [c1, path, v] w = Some ((0, []), w1) \<and> world_ok w1 \<and>
    xenstore_shell_read n [c2, path] w1 = Some ((0, [(Shell_Print, take (n - 1) v)]), w2)"
proof -
  obtain w1 where w1: "xss_write (Some path) (Some v) w = Some (0, w1)" "world_ok w1" "mallocs w1 = []"
    "abs_tree (root_xenstore w1) = abs_write (strtok_all slash path) (Some v) [local_perm] (abs_tree (root_xenstore w))"
    using write_perms_ok [OF assms(1,2)] unfolding xss_write_def by blast
  obtain ps where ps: "abs_tree (root_xenstore w1) (strtok_all slash path) = Some (Some v, ps)"
    using abs_write_here [OF assms(3)] unfolding w1(4) by blast
  have m: "fst (k_malloc w1)" using w1(3) by simp
  obtain w2 where r: "xss_read (Some path) n w1 = Some ((0, Some (strncpy v n)), w2)"
    using xss_read_value [OF ps assms(3,4) m] by blast
  have "xenstore_shell_write [c1, path, v] w = Some ((0, []), w1)" using w1(1) by (simp add: xenstore_shell_write_def)
  moreover have "xenstore_shell_read n [c2, path] w1 = Some ((0, [(Shell_Print, take (n - 1) v)]), w2)"
    using r assms(6) cstr_cut [OF assms(5,6)] by (simp add: xenstore_shell_read_def)
  ultimately show ?thesis using w1(2) by blast
qed

theorem store_commands_roundtrip_witness:
  "\<exists>w1 w2. xenstore_shell_write [''write'', ''/tool/greeting'', ''hello''] ex_world = Some ((0, []), w1) \<and>
    xenstore_shell_read 4 [''read'', ''/tool/greeting''] w1 = Some ((0, [(Shell_Print, ''hel'')]), w2)"
proof -
  have m: "mallocs ex_world = []" by code_simp
  have h: "strtok_all slash ''/tool/greeting'' \<noteq> []" "length ''/tool/greeting'' \<le> XENSTORE_ABS_PATH_MAX" "NUL \<notin> set ''hello''" "0 < (4 :: nat)"
    by code_simp+
  have "take (4 - 1) ''hello'' = ''hel''" by simp
  then show ?thesis using store_commands_roundtrip [OF ex_world_ok m h, of "''write''" "''read''"] by auto
qed

section \<open>Creating a domain\<close>

text \<open>A partial device tree that has been read is what the callback delivered, of the size it announced.\<close>

lemma read_pfdt_cases:
  assumes "xen_cmd_read_pfdt c buf = Some (0, c1, buf1)"
  obtains "c1 = c" "buf1 = buf"
  | size read bs where "image_dt_get_size c = Some (0, size)" "image_dt_read c = Some read" "read (unat size) 0 = (0, bs)"
      "size \<noteq> 0" "unat size \<le> length buf" "length bs \<le> unat size" "buf1 = put_bytes bs buf"
      "c1 = c\<lparr>dtb := Some (take (unat size) buf1)\<rparr>"
proof (cases "dtb c \<noteq> None \<or> image_dt_get_size c = None \<and> image_dt_read c = None")
  case True
  then show ?thesis using assms by (intro that(1)) (auto simp: xen_cmd_read_pfdt_def split: if_splits)
next
  case False
  then have n: "\<not> dtb c \<noteq> None" "\<not> (image_dt_get_size c = None \<and> image_dt_read c = None)" by blast+
  note run = assms [unfolded xen_cmd_read_pfdt_def if_not_P [OF n(1)] if_not_P [OF n(2)]]
  obtain ret size where g: "image_dt_get_size c = Some (ret, size)" using run by (cases "image_dt_get_size c") auto
  have ret: "ret = 0" "size \<noteq> 0" "\<not> length buf < unat size" using run g by (auto split: if_splits)
  obtain read where r: "image_dt_read c = Some read" using run g ret by (cases "image_dt_read c") auto
  obtain ret2 bs where b: "read (unat size) 0 = (ret2, bs)" by (rule prod.exhaust)
  have f: "ret2 = 0" "\<not> unat size < length bs" "c\<lparr>dtb := Some (take (unat size) (put_bytes bs buf))\<rparr> = c1 \<and> put_bytes bs buf = buf1"
    using run unfolding g r b ret(1) by (simp_all add: ret b Let_def split: if_splits) clarsimp
  show ?thesis
    by (rule that(2) [OF g [unfolded ret(1)] r b [unfolded f(1)] ret(2)]) (use ret(3) f(2,3) in \<open>simp_all, clarsimp?\<close>)
qed

text \<open>A configuration with only one of the two callbacks passes the test of \<open>xen_cmd_read_pfdt\<close>, which asks
  whether both are missing, and a null pointer is called.\<close>

lemma one_callback_called_null:
  assumes "dtb c = None" "image_dt_get_size c = None" "image_dt_read c \<noteq> None"
  shows "xen_cmd_read_pfdt c buf = None"
  using assms by (simp add: xen_cmd_read_pfdt_def)

lemma disk_loop_none: "list_all (\<lambda>k. \<not> blk_configured k) ks \<Longrightarrow> disk_loop i ks d r w = Some (0, w)"
  by (induction ks arbitrary: i) auto

lemma vif_loop_none: "list_all (\<lambda>k. \<not> net_configured k) ks \<Longrightarrow> vif_loop i ks d r w = Some (0, w)"
  by (induction ks arbitrary: i) auto

text \<open>C38. \<open>xu create\<close> reports a success it did not have.  When the hypervisor has created the domain but there is
  no memory for its structure, the domain is destroyed again and \<open>domain_create\<close> returns 0; the command
  takes this for the id of the new domain, finds no domain 0 to configure, prints that domain 0 has been
  created and returns 0.\<close>

theorem create_reports_false_success:
  assumes "2 \<le> length argv" "parse_domid argv = Some d0" "domain_find_config (sp_user S) (sp_section S) (argv ! 1) = Some c"
    "image_dt_get_size c = None" "image_dt_read c = None"
    "list_all (\<lambda>k. \<not> blk_configured k) (disks (back_cfg c))" "list_all (\<lambda>k. \<not> net_configured k) (vifs (back_cfg c))"
    "dom_num w < int (cfg_domu_max (dp_cfg (sp_par S)))"
    "on_env (create_in_xen (sp_par S) (xen_domain_cfg.truncate (parse_and_fill_flags argv c)) d0) w = ((0, d), w1)"
    "on_env k_malloc w1 = (False, w2)" "find_dom 0 (domain_list w) (dom_heap w) = Some None"
  shows "\<exists>v. domu_create S argv buf w = Some ((0, [(Shell_Info, ''domain:0 created'')], buf), v) \<and>
    domain_list v = domain_list w \<and> dom_heap v = dom_heap w \<and> v = snd (hyp_call ''xen_domctl_destroydomain'' [uint d] w2)"
proof -
  let ?c = "parse_and_fill_flags argv c" and ?v = "snd (hyp_call ''xen_domctl_destroydomain'' [uint d] w2)"
  have cfg: "image_dt_get_size ?c = None" "image_dt_read ?c = None" "back_cfg ?c = back_cfg c"
    using assms(4,5) by (simp_all add: parse_and_fill_flags_def)
  have pf: "(if sp_read_pdt S then xen_cmd_read_pfdt ?c buf else Some (0, ?c, buf)) = Some (0, ?c, buf)"
    using cfg by (simp add: xen_cmd_read_pfdt_def)
  have cr: "domain_create (sp_par S) (xen_domain_cfg.truncate ?c) d0 w = Some (0, ?v)"
    using assms(8,9,10) by (rule create_out_of_memory_returns_zero)
  have s: "same w ?v"
    by (rule same_trans [OF same_trans [OF same_on_env [OF assms(9)] same_on_env [OF assms(10)]] same_hyp_call_snd])
  then have v: "domain_list ?v = domain_list w" "dom_heap ?v = dom_heap w" by (simp_all add: same_def reg_eq)
  have g: "get_domain 0 ?v = Some (None, ?v)" using assms(11) v by (simp add: get_domain_def)
  have b: "back_cfg (xen_domain_cfg.truncate ?c) = back_cfg c" using cfg(3) by (simp add: xen_domain_cfg.defs)
  have pc: "domain_post_create (sp_par S) (xen_domain_cfg.truncate ?c) 0 ?v = Some (0, ?v)"
    using g disk_loop_none [OF assms(6)] vif_loop_none [OF assms(7)] by (simp add: domain_post_create_def b put_domain_def)
  have z: "fmt_d (uint (0 :: u32)) = ''0''" by code_simp
  have "domu_create S argv buf w = Some ((0, [(Shell_Info, ''domain:0 created'')], buf), ?v)"
    unfolding domu_create_def using assms(1,2,3) pf cr pc z by simp
  then show ?thesis using v by blast
qed

definition ex_full :: dom_world where
  "ex_full = (let r = ex_registry 1 False [0, 7] in r\<lparr>dw_srv := (dw_srv r)\<lparr>mallocs := [False]\<rparr>\<rparr>)"

theorem create_reports_false_success_witness:
  "\<exists>v. domu_create ex_shell [''create'', ''demo''] [] ex_full = Some ((0, [(Shell_Info, ''domain:0 created'')], []), v) \<and> domain_list v = [0]"
proof -
  let ?argv = "[''create'', ''demo'']" and ?c = "xen_domain_cfg.extend ex_cfg \<lparr>image_dt_read = None, image_dt_get_size = None\<rparr>"
  let ?p = "xen_domain_cfg.truncate (parse_and_fill_flags ?argv ?c)"
  obtain r w1 where c: "on_env (create_in_xen ex_par ?p DOMID_ANY) ex_full = (r, w1)" by (rule prod.exhaust)
  obtain ok w2 where m: "on_env k_malloc w1 = (ok, w2)" by (rule prod.exhaust)
  have "fst (on_env (create_in_xen ex_par ?p DOMID_ANY) ex_full) = (0, 7)" by code_simp
  then have r: "r = (0, 7)" using c by simp
  have "fst (on_env k_malloc (snd (on_env (create_in_xen ex_par ?p DOMID_ANY) ex_full))) = False" by code_simp
  then have ok: "ok = False" using c m by simp
  have h1: "2 \<le> length ?argv" "parse_domid ?argv = Some DOMID_ANY" by code_simp+
  have h2: "domain_find_config (sp_user ex_shell) (sp_section ex_shell) (?argv ! 1) = Some ?c"
    by (simp add: domain_find_config_def ex_shell_def strncmp_eq_def ex_cfg_def xen_domain_cfg.defs)
  have h3: "image_dt_get_size ?c = None" "image_dt_read ?c = None" "list_all (\<lambda>k. \<not> blk_configured k) (disks (back_cfg ?c))"
    "list_all (\<lambda>k. \<not> net_configured k) (vifs (back_cfg ?c))"
    by (simp_all add: ex_cfg_def xen_domain_cfg.defs)
  have h4: "dom_num ex_full < int (cfg_domu_max (dp_cfg (sp_par ex_shell)))" "find_dom 0 (domain_list ex_full) (dom_heap ex_full) = Some None"
    by code_simp+
  have p: "sp_par ex_shell = ex_par" by (simp add: ex_shell_def)
  have l: "domain_list ex_full = [0]" by code_simp
  from create_reports_false_success [OF h1 h2 h3 h4(1), unfolded p, OF c [unfolded r] m [unfolded ok] h4(2), of "[]"] show ?thesis
    unfolding l by blast
qed

section \<open>Consoles and names\<close>

text \<open>\<open>xen_attach_domain_console\<close> drops the reference of its caller, except when it refuses a domain that Xen has
  started: every attempt leaves one reference behind.\<close>

lemma dom0less_attach_leaks:
  assumes "get_domain d w = Some (Some p, w1)" "dom_heap w p = Some x" "f_dom0less x" "attach_console P p w1 = Some ((rc, out), v)"
  shows "rc = - ENOTSUP \<and> dom_heap v p = Some (x\<lparr>refcount := refcount x + 1\<rparr>)"
proof -
  let ?x = "x\<lparr>refcount := refcount x + 1\<rparr>"
  have x1: "dom_heap w1 p = Some ?x" using assms(1,2) by (auto elim: get_domain_cases)
  show ?thesis using assms(3,4) x1
    by (auto simp: attach_console_def on_con_def xen_attach_domain_console_def con_arg_def set_console_def Let_def)
qed

text \<open>A name of 64 characters or more fills the array of the list command without a terminator, and printing
  it leaves the array.  The names \<open>domain_create\<close> stores are shorter.\<close>

lemma long_name_overruns_list:
  assumes "abs_tree (root_xenstore w) [''local'', ''domain'', dec (unat (gi_domain i)), ''name''] = Some (Some v, ps)"
    "fst (k_malloc w)" "64 \<le> length v" "NUL \<notin> set v"
  shows "list_loop secs (i # is) w = None"
proof -
  let ?p = "''/local/domain/'' @ dec (unat (gi_domain i)) @ ''/name''"
  have l: "length (dec (unat (gi_domain i))) \<le> 5" using fmt_d_u16 [of "gi_domain i"] by (simp add: fmt_d_def)
  have sp: "snd (snprintf 25 (''/local/domain/'' @ fmt_d (uint (gi_domain i)) @ ''/name'')) = ?p"
    using l by (simp add: snprintf_def fmt_d_def)
  have t: "strtok_all slash ?p = [''local'', ''domain'', dec (unat (gi_domain i)), ''name'']"
  proof -
    have ok: "list_all token_ok [''local'', ''domain'', dec (unat (gi_domain i)), ''name'']" by (simp add: token_ok_def)
    have "?p = path_of [''local'', ''domain'', dec (unat (gi_domain i)), ''name'']" by (simp add: path_of_def)
    then show ?thesis using strtok_all_path_of [OF ok] by simp
  qed
  obtain w1 where r: "xss_read (Some ?p) 64 w = Some ((0, Some (strncpy v 64)), w1)"
    using xss_read_value [of w ?p v ps 64] assms(1,2) l unfolding t by auto
  have "cstr (strncpy v 64) = None" using assms(3,4) by (auto simp: cstr_def strncpy_def dest: in_set_takeD)
  then show ?thesis using r unfolding list_loop.simps get_domain_name_def sp by simp
qed

text \<open>A domain may be named by its number.\<close>

lemma number_names_domain:
  "n < 2147483648 \<Longrightarrow> parse_domid_or_name m (dec n) w = Some (of_nat n, w)"
  using atoi_fmt_d [of "int n"] dec_digits [of n]
  by (simp add: parse_domid_or_name_def is_all_numbers_def fmt_d_def)

end
