(* ===== verification/Spec2Isabelle.thy ===== *)
theory Spec2Isabelle
  imports Xs_Store_Props Xs_Wire_Props Xs_Watch_Props Xs_Server_Props Xs_Local_Props Mem_Mgmt_Props
    Console_Props Vchan_Props Xl_Parser_Props Dom_Xs_Props Fdt_Roundtrip Fdt_Apply_Props Dom_Fdt_Props
    Dom_Image_Props Dom_Mgmt_Props Xstat_Props Shell_Props
begin

text \<open>
  Verification of zephyr-xenlib, the library with which a Zephyr control domain runs guests of the
  Xen hypervisor.

  \<^bold>\<open>The program.\<close>  Its largest part is a XenStore server (\<open>xenstore-srv/src/xenstore_srv.c\<close>): a tree of
  entries with permissions, watches on it, and for each guest a thread that reads requests from a
  ring in a shared page, handles them and writes replies.  Code of the control domain uses the same
  tree through \<open>xss_*\<close> and \<open>xs_*_timeout\<close>.  Around it are the wire protocol
  (\<open>xenstore-common\<close>), the mapping of guest memory (\<open>xen-dom-mgmt/src/mem-mgmt.c\<close>), the consoles
  (\<open>xen-console-srv\<close>), the virtual channels (\<open>vch\<close>), which publish their rings in the store, and the
  management of domains (\<open>xen-dom-mgmt\<close>): \<open>domain_create\<close> reads a configuration (\<open>xl_parser.c\<close>), asks the
  hypervisor for a domain, writes its device tree (\<open>xen-dom-fdt.c\<close>, with the sequential writer of
  \<open>libfdt\<close>), loads the kernel and the tree into its memory, starts its store and console services and
  registers it in the store (\<open>xen-dom-xs.c\<close>); the other operations look domains up in a list of
  reference-counted structures.  The statistics (\<open>xstat\<close>) and the shell commands (\<open>xen-shell-cmd\<close>) are
  the uppermost layer.

  \<^bold>\<open>Theories and the code they model.\<close>
  \<^item> \<open>Xen_Prelude\<close>: machine types, errno values, C strings, decimal conversion, tokens; the record
    \<open>env\<close> with the outcomes of \<open>k_malloc\<close>, of timed locks and of calls into the hypervisor.
  \<^item> \<open>Byte_Ring\<close>: circular buffers with free-running indices; locale \<open>byte_queue\<close>, the contract of a
    first-in first-out ring.  \<open>Slot_Alloc\<close>: the bitmap of stacks; locale \<open>slot_allocator\<close>.
  \<^item> \<open>Xs_Wire\<close> (\<open>xenstore_common.c\<close>, \<open>xs_wire.h\<close>): header, permission strings, the request and the
    response ring; interpretations \<open>req_ring\<close> and \<open>rsp_ring\<close> of \<open>byte_queue\<close>.  \<open>Xs_Wire_Props\<close>.
  \<^item> \<open>Xs_Path\<close>: validation, containment and construction of paths (\<open>xenstore_path_validate\<close>,
    \<open>xenstore_path_contains\<close>, \<open>construct_path\<close>).
  \<^item> \<open>Xs_Tree\<close>: entries (\<open>struct xs_entry\<close>), lookup, permissions, \<open>xss_do_write_deadline\<close>, \<open>xss_read\<close>,
    \<open>xss_list_traverse\<close>, \<open>remove_ref_entries\<close>.  A pointer to an entry is the list of keys leading to
    it.  \<open>Xs_Store\<close>, \<open>Xs_Write\<close>, \<open>Xs_Query\<close>: the abstract store \<open>abs_tree\<close>, a partial map from paths, and
    the refinement of each operation.  \<open>Xs_Store_Props\<close>.
  \<^item> \<open>Xs_Watch\<close>: watch entries as a heap of reference-counted cells, the list of watches, pending and
    local events, \<open>xss_do_rm_deadline\<close>, \<open>xs_watch_timeout\<close>, \<open>cleanup_domain_watches\<close>.
    \<open>Xs_Watch_Safety\<close>: the invariant \<open>world_ok\<close>, exact reference counts.  \<open>Xs_Memory\<close>: what a write
    leaves alone.  \<open>Xs_Watch_Props\<close>: the step relation \<open>world_step\<close> and its reachable states.
  \<^item> \<open>Xs_Server\<close>: \<open>start_domain_stored\<close> and \<open>stop_domain_stored\<close>, every request handler, replies,
    \<open>handle_input\<close>, \<open>handle_output\<close> and the thread \<open>xenstore_evt_thrd\<close>, whose rounds take what the
    guest does to the page during the wait as an argument.  \<open>Xs_Server_Safety\<close>: every handler answers.
    \<open>Xs_Server_Loop\<close>: the loops end and bytes are moved in order.  \<open>Xs_Server_Props\<close>.
  \<^item> \<open>Xs_Local\<close>: the interface for the control domain, with \<open>xs.c\<close>; \<open>Xs_Local_Props\<close>.
  \<^item> \<open>Mem_Mgmt\<close> (\<open>mem-mgmt.c\<close>) and \<open>Mem_Mgmt_Props\<close>.
  \<^item> \<open>Console\<close> (\<open>xen_console.c\<close>): the rings of the console page, the internal ring, the two threads,
    start and stop; interpretation \<open>con_stacks\<close> of \<open>slot_allocator\<close>.  \<open>Console_Props\<close>.
  \<^item> \<open>Vchan\<close> (\<open>vch.c\<close>): the page of a channel, reading, writing, opening, connecting, closing;
    \<open>Vchan_Props\<close> with the interpretations \<open>small_ring\<close> and \<open>big_ring\<close> of \<open>byte_queue\<close>.
  \<^item> \<open>Xl_Parser\<close> (\<open>xl_parser.c\<close>): device lines; \<open>Xl_Parser_Props\<close>.
  \<^item> \<open>Dom_Xs\<close> (\<open>xen-dom-xs.c\<close>): the entries of domains and their devices as sequences of writes that
    stop at the first error; \<open>Dom_Xs_Props\<close>.
  \<^item> \<open>Fdt_Blob\<close> (\<open>libfdt.h\<close>, \<open>fdt.c\<close>, \<open>fdt_ro.c\<close>): a flattened device tree as a list of bytes, its header, tokens and
    the functions that read it.  \<open>Fdt_Sw\<close> (\<open>fdt_sw.c\<close>): the sequential writer, whose buffer grows from both
    ends.  \<open>Fdt_Sw_Props\<close>: what each call of the writer does to the tokens and strings.
    \<open>Fdt_Roundtrip\<close>: finished trees read back.
  \<^item> \<open>Fdt_Query\<close> (\<open>fdt_ro.c\<close>, \<open>fdt_addresses.c\<close>, \<open>fdt_check.c\<close>, \<open>fdt_strerror.c\<close>): the other questions to a tree;
    \<open>Fdt_Query_Props\<close>: written trees pass the full check and answer questions for properties and lists of
    strings as they were written.
  \<^item> \<open>Fdt_Rw\<close> (\<open>fdt_rw.c\<close>, \<open>fdt_wip.c\<close>, \<open>fdt_empty_tree.c\<close>, \<open>fdt_addresses.c\<close>, \<open>fdt_move\<close>, \<open>fdt_resize\<close>): changing
    trees.  \<open>Fdt_Splice\<close>: the bytes around a change.  \<open>Fdt_Rw_Props\<close>: the changes refine changes of the list of
    tokens.
  \<^item> \<open>Fdt_Overlay\<close> (\<open>fdt_overlay.c\<close>): applying overlays, the base tree and the overlay being two buffers that do not
    overlap.  \<open>Fdt_Walk\<close>: the offsets the loops over properties and subnodes visit, by the tree the blob holds.
    \<open>Fdt_Overlay_Props\<close>: the fixups, and merging a node of an overlay refines merging trees.
    \<open>Fdt_Apply_Props\<close>: paths of targets, the largest phandle, moving the phandles of an overlay, merging its
    fragments, and the whole application.
  \<^item> \<open>Dom_Fdt\<close> (\<open>xen-dom-fdt.c\<close>): \<open>gen_domain_fdt\<close> and the generators of its nodes, the copy of a partial tree;
    \<open>Dom_Fdt_Props\<close>.
  \<^item> \<open>Dom_Image\<close> (first half of \<open>xen-dom-mgmt.c\<close>): memory of a domain, interrupts, images of the kernel, the place of
    the device tree; \<open>Dom_Image_Props\<close>.
  \<^item> \<open>Dom_Mgmt\<close> (second half of \<open>xen-dom-mgmt.c\<close>): the list of domains, references, \<open>domain_create\<close>,
    \<open>domain_destroy\<close>, pausing, the console attachment, domains that Xen started itself.
    \<open>Dom_Mgmt_Props\<close>: the step relation \<open>dom_step\<close> and the invariant of the list.
  \<^item> \<open>Xstat\<close> (\<open>xstat.c\<close>): statistics of the domains and the machine; \<open>Xstat_Props\<close>.
  \<^item> \<open>Shell_Cmds\<close> (\<open>xen_cmds.c\<close>, \<open>xenstore_cmds.c\<close>, \<open>xstat_cmds.c\<close>): the commands, as functions from their words
    to a result code, the printed lines and the new state.  \<open>Shell_Props\<close>: the step relation \<open>shell_step\<close> of
    sessions.

  \<^bold>\<open>Conventions.\<close>  \<open>None\<close> of an option result is undefined behaviour of the C code (null pointer,
  access outside a buffer, failed assertion).  The records of the state extend each other: \<open>env\<close>,
  \<open>xs_store\<close> (the tree), \<open>xs_world\<close> (watches), \<open>xs_server\<close> (stacks, the bytes of uninitialised
  variables); an operation on one works on all that extend it.  A theorem holds for every announced
  outcome of allocations, locks and hypercalls unless it says otherwise.

  \<^bold>\<open>What is shown.\<close>
  \<^item> Store: a successful write refines the abstract write, a failed one is rolled back (up to one
    case, which is exhibited), permissions are obeyed by writes, removals and events, reading returns
    what was written, listing and the removal of a domain are exact.
  \<^item> Watches: in every state reachable by writes that do not run out of memory, removals below the root,
    announcements, local watches and clean-ups the reference counts are exact and none of these operations
    uses a freed watch; a domain that is cleaned up leaves nothing behind.
  \<^item> Server: with memory available and the queue of replies below its limit, a well-formed request is
    answered exactly once under its id, within as many rounds as it has bytes (the end of a transaction one
    round later); replies reach the ring in order; stopping a domain forgets it; stacks are not shared.
  \<^item> Rings: the XenStore rings and both rings of a virtual channel are first-in first-out for every
    alternation of reads and writes; corrupted indices of the XenStore rings are refused.
  \<^item> Console: the internal ring keeps the latest output and counts what it drops; it is printed in at
    most two pieces, each up to its first NUL character.
  \<^item> Domains: parsing a printed device line gives back its disks; a registration succeeds without
    overflowing a buffer and is undone completely by the removal.
  \<^item> Device trees: every tree written token by token is read back as it was written; setting properties of any
    length below 1 GB, deleting them and adding and deleting nodes refine the same changes of the tree; overlays
    with path targets and without labels are merged as trees are; the tree generated for a domain without a
    partial tree is well formed and has the expected nodes; the regions left to a domain are free.
  \<^item> Life cycle: where references are dropped by their holders and domains destroyed only when nobody holds
    them, the list of domains and the structures in memory agree and reference counts are exact; a creation
    registers the domain or leaves the list as it was; a destruction removes it; the device tree lies in the
    range of memory the caller names, and off a kernel that ends early enough.
  \<^item> Shell: where Xen has started no domain, every session of commands keeps the registry and leaks no
    reference; what \<open>xs write\<close> stores
    \<open>xs read\<close> prints.  Statistics: every reported domain has its element, the version is never cut.
  \<^item> Errors of the code, each as a theorem with a concrete run: \<open>handle_set_perms\<close> checks no owner,
    \<open>handle_rm\<close> takes a relative path from the root, unknown requests block a connection, passing the reply limit crashes the thread, an ownerless
    entry after a failed allocation, the wrong address on the error path of \<open>xenmem_map_region\<close>, the
    count of a partial batch, console input in the output ring, channel writes that leave the page,
    the channel that a failed \<open>vch_connect\<close> keeps, a name of a property that overruns the buffer of a tree, a
    device tree over the kernel or outside the memory, failed interrupt bindings reported as success, an
    image left mapped, a second destruction that takes the reference of another user, operations on
    domains Xen started, a creation without memory that the shell reports as a success, a null callback
    of the shell, references leaked by attaching consoles, unterminated names in the list of domains, memory
    limits judged by the first domain.

  \<^bold>\<open>Bounds and fuel.\<close>  \<open>xenstore_evt_thrd\<close> takes a number of rounds; the number of bytes of a request
  is shown to be enough.  \<open>output_loop\<close> is given the number of queued bytes, which is shown to be
  enough.  \<open>display_loop\<close> is given two rounds, which are shown to be enough.  \<open>read_loop\<close> of the
  console, \<open>parse_devices\<close> and the loops of \<open>Mem_Mgmt\<close> are total functions with a termination proof.
  The walk of \<open>fdt_finish\<close> (\<open>finish_walk\<close>) is a partial function, shown to end for every tree that was
  written; so is the copy of a partial tree (\<open>copy_walk\<close>), which depends on a blob the caller supplies.
  The loop over the domains that Xen started has one round more than there are numbers of domains, and
  each round goes past the number it found.  The blocking
  calls of a channel end or report that they wait, depending on the announced actions of the peer.

  \<^bold>\<open>Not modelled.\<close>  The tables by which the shell of Zephyr finds a command; the rendering of a double, a parameter of the list of domains; the public headers of Xen are declarations.  Log messages have no
  model.  Interleaving of threads within one operation is excluded by the mutexes the code holds;
  what a guest does to a shared page is an argument of the rounds.  A callback of a local watch is recorded with
  its arguments and not run: what it might do to the store, and the assertion on \<open>pending_path\<close> that a callback
  making changes from inside can meet, are outside the model.  \<open>stop_domain_stored\<close> called from another thread
  joins an event thread that serves no further round.  The queues of \<open>Vchan_Props\<close> are those of a peer whose
  notifications succeed and of handles that do not block.  The callbacks that supply an image return at most as
  many bytes as the buffer takes, and the size of an image does not change between two calls.  The counters of
  transactions are signed in the code and wrap around in the model.
\<close>

end
